(* ===== verification/Prelude.thy ===== *)
theory Prelude
  imports Main "HOL-Library.AList" "HOL-Library.Sublist"
begin

text \<open>
  Shared vocabulary of the Vigil manager's model.

  The manager is written in Python. This theory fixes once how the components read Python:
  \<^item> a fallible computation is a value of \<open>'a result\<close>, \<open>Inl\<close> carrying the exception class that the
    code would raise and \<open>Inr\<close> the returned value; \<open>bindE\<close> is sequential composition;
  \<^item> a \<open>str\<close> is a \<open>string\<close>, one \<open>char\<close> per code point, so the model covers the Latin-1 code points
    0 to 255 of Python's strings;
  \<^item> a \<open>dict\<close> is an association list in insertion order (\<open>AList.update\<close> overwrites in place and
    appends new keys, as Python does), JSON-shaped data is \<open>pyval\<close>;
  \<^item> \<open>int\<close> is unbounded; a \<open>float\<close> is an exact rational (rounding is not modelled), \<open>datetime\<close> is
    an \<open>int\<close> count of microseconds, a \<open>UUID\<close> its 128-bit value as \<open>nat\<close>.
\<close>

section \<open>Results\<close>

datatype exn =
    IndexError | KeyError | TypeError | AttributeError | ValueError | RuntimeError | UnicodeDecodeError | OSError
  | UnicodeBeyondLatin1 | IntegrityError | DataError
  | SequenceParseError string
  | PlaybookParseError string
  | ChannelConfigError string
  | HTTPError nat string
  | NoFuel

type_synonym 'a result = "exn + 'a"

named_theorems py_simps \<open>equations for the Python primitives\<close>

definition bindE :: "'a result \<Rightarrow> ('a \<Rightarrow> 'b result) \<Rightarrow> 'b result" where
  "bindE m f = (case m of Inl e \<Rightarrow> Inl e | Inr x \<Rightarrow> f x)"

lemma bindE_simps [simp]:
  "bindE (Inl e) f = Inl e"
  "bindE (Inr x) f = f x"
  by (simp_all add: bindE_def)

lemma bindE_eq_Inr: "bindE m f = Inr y \<longleftrightarrow> (\<exists>x. m = Inr x \<and> f x = Inr y)"
  by (cases m) simp_all

lemma bindE_eq_Inl: "bindE m f = Inl e \<longleftrightarrow> m = Inl e \<or> (\<exists>x. m = Inr x \<and> f x = Inl e)"
  by (cases m) simp_all

lemma bindE_cong [fundef_cong]:
  "m = m' \<Longrightarrow> (\<And>x. m' = Inr x \<Longrightarrow> f x = g x) \<Longrightarrow> bindE m f = bindE m' g"
  by (cases m') simp_all

text \<open>A computation that never raises a given exception.\<close>

definition avoids :: "exn \<Rightarrow> 'a result \<Rightarrow> bool" where
  "avoids e r \<longleftrightarrow> r \<noteq> Inl e"

lemma avoids_simps [simp]:
  "avoids e (Inr x)" "avoids e (Inl e') \<longleftrightarrow> e' \<noteq> e"
  by (simp_all add: avoids_def)

lemma avoids_bindE [intro!]:
  "avoids e m \<Longrightarrow> (\<And>x. m = Inr x \<Longrightarrow> avoids e (f x)) \<Longrightarrow> avoids e (bindE m f)"
  by (cases m) simp_all

lemma avoids_if [intro!]: "avoids e a \<Longrightarrow> avoids e b \<Longrightarrow> avoids e (if P then a else b)"
  by simp

text \<open>A comprehension whose body may raise stops at the first exception.\<close>

fun mapE :: "('a \<Rightarrow> 'b result) \<Rightarrow> 'a list \<Rightarrow> 'b list result" where
  "mapE f [] = Inr []"
| "mapE f (x # xs) = bindE (f x) (\<lambda>y. bindE (mapE f xs) (\<lambda>ys. Inr (y # ys)))"

lemma mapE_Inr_length: "mapE f xs = Inr ys \<Longrightarrow> length ys = length xs"
  by (induction xs arbitrary: ys) (auto simp: bindE_eq_Inr)

lemma mapE_Inr_nth:
  "mapE f xs = Inr ys \<Longrightarrow> i < length xs \<Longrightarrow> f (xs ! i) = Inr (ys ! i)"
  by (induction xs arbitrary: ys i) (auto simp: bindE_eq_Inr nth_Cons split: nat.split)

section \<open>Characters and strings\<close>

definition code :: "char \<Rightarrow> nat" where
  "code c = (of_char c :: nat)"

definition is_space :: "char \<Rightarrow> bool" where
  "is_space c \<longleftrightarrow> (let n = code c in (9 \<le> n \<and> n \<le> 13) \<or> (28 \<le> n \<and> n \<le> 32) \<or> n = 133 \<or> n = 160)"

definition is_digit :: "char \<Rightarrow> bool" where
  "is_digit c \<longleftrightarrow> (let n = code c in 48 \<le> n \<and> n \<le> 57)"

text \<open>\<open>str.isdigit\<close> also accepts the three superscript digits of Latin-1.\<close>

definition isdigit_char :: "char \<Rightarrow> bool" where
  "isdigit_char c \<longleftrightarrow> is_digit c \<or> code c \<in> {178, 179, 185}"

definition is_ascii_alpha :: "char \<Rightarrow> bool" where
  "is_ascii_alpha c \<longleftrightarrow> (let n = code c in (65 \<le> n \<and> n \<le> 90) \<or> (97 \<le> n \<and> n \<le> 122))"

text \<open>The word characters of a Unicode regular expression, in the Latin-1 range.\<close>

definition is_word :: "char \<Rightarrow> bool" where
  "is_word c \<longleftrightarrow> is_ascii_alpha c \<or> is_digit c \<or> c = CHR ''_'' \<or>
     (let n = code c in n \<in> {170, 178, 179, 181, 185, 186, 188, 189, 190} \<or>
        (192 \<le> n \<and> n \<noteq> 215 \<and> n \<noteq> 247))"

definition lower_char :: "char \<Rightarrow> char" where
  "lower_char c = (let n = code c in
     if (65 \<le> n \<and> n \<le> 90) \<or> (192 \<le> n \<and> n \<le> 222 \<and> n \<noteq> 215) then char_of (n + 32) else c)"

definition lower :: "string \<Rightarrow> string" where
  "lower s = map lower_char s"

definition upper_ascii_char :: "char \<Rightarrow> char" where
  "upper_ascii_char c = (let n = code c in if 97 \<le> n \<and> n \<le> 122 then char_of (n - 32) else c)"

definition lstrip :: "string \<Rightarrow> string" where
  "lstrip s = dropWhile is_space s"

definition strip :: "string \<Rightarrow> string" where
  "strip s = rev (dropWhile is_space (rev (dropWhile is_space s)))"

definition str_isdigit :: "string \<Rightarrow> bool" where
  "str_isdigit s \<longleftrightarrow> s \<noteq> [] \<and> list_all isdigit_char s"

text \<open>\<open>needle in hay\<close>, \<open>s.startswith(p)\<close>.\<close>

definition contains :: "string \<Rightarrow> string \<Rightarrow> bool" where
  "contains needle hay \<longleftrightarrow> sublist needle hay"

definition startswith :: "string \<Rightarrow> string \<Rightarrow> bool" where
  "startswith s p \<longleftrightarrow> prefix p s"

text \<open>\<open>s.split(sep)\<close> for a one-character separator.\<close>

fun split_on :: "char \<Rightarrow> string \<Rightarrow> string list" where
  "split_on c [] = [[]]"
| "split_on c (x # xs) =
     (if x = c then [] # split_on c xs
      else (case split_on c xs of [] \<Rightarrow> [[x]] | p # ps \<Rightarrow> (x # p) # ps))"

lemma split_on_nonempty [simp]: "split_on c s \<noteq> []"
  by (induction s) (auto split: list.split)

lemma split_on_no_sep: "p \<in> set (split_on c s) \<Longrightarrow> c \<notin> set p"
proof (induction s arbitrary: p)
  case Nil
  then show ?case by simp
next
  case (Cons x xs)
  obtain q qs where q: "split_on c xs = q # qs"
    by (cases "split_on c xs") simp_all
  with Cons show ?case by (auto split: if_splits)
qed

text \<open>\<open>s.rsplit(c, 1)[-1]\<close>: what follows the last separator.\<close>

definition after_last :: "char \<Rightarrow> string \<Rightarrow> string" where
  "after_last c s = rev (takeWhile (\<lambda>x. x \<noteq> c) (rev s))"

lemma after_last_no_sep: "c \<notin> set (after_last c s)"
  by (auto simp: after_last_def dest: set_takeWhileD)

lemma after_last_suffix: "suffix (after_last c s) s"
proof -
  have "suffix (rev (takeWhile (\<lambda>x. x \<noteq> c) (rev s))) (rev (rev s))"
    by (metis suffixI rev_append takeWhile_dropWhile_id)
  then show ?thesis by (simp add: after_last_def)
qed

section \<open>Numbers as text\<close>

definition digit_char :: "nat \<Rightarrow> char" where
  "digit_char n = (if n < 10 then char_of (48 + n) else char_of (87 + n))"

fun show_nat :: "nat \<Rightarrow> string" where
  "show_nat n =
     (if n < 10 then [digit_char n] else show_nat (n div 10) @ [digit_char (n mod 10)])"

declare show_nat.simps [simp del]

definition show_int :: "int \<Rightarrow> string" where
  "show_int i = (if i < 0 then CHR ''-'' # show_nat (nat (- i)) else show_nat (nat i))"

definition digit_val :: "char \<Rightarrow> nat" where
  "digit_val c = code c - 48"

definition read_nat :: "string \<Rightarrow> nat" where
  "read_nat s = foldl (\<lambda>a c. 10 * a + digit_val c) 0 s"

lemma code_char_of: "n < 256 \<Longrightarrow> code (char_of n) = n"
  by (simp add: code_def)

lemma digit_char_decimal:
  assumes "n < 10"
  shows "is_digit (digit_char n)" and "digit_val (digit_char n) = n"
  using assms by (simp_all add: digit_char_def is_digit_def digit_val_def code_char_of)

lemma show_nat_digits: "list_all is_digit (show_nat n)" and show_nat_nonempty: "show_nat n \<noteq> []"
proof -
  show "list_all is_digit (show_nat n)"
  proof (induction n rule: show_nat.induct)
    case (1 n)
    then show ?case
      by (cases "n < 10") (simp_all add: show_nat.simps [of n] digit_char_decimal(1))
  qed
  show "show_nat n \<noteq> []"
    by (simp add: show_nat.simps [of n])
qed

lemma read_show_nat: "read_nat (show_nat n) = n"
proof (induction n rule: show_nat.induct)
  case (1 n)
  then show ?case
    by (cases "n < 10") (simp_all add: show_nat.simps [of n] read_nat_def digit_char_decimal(2))
qed

lemma show_nat_inj: "show_nat m = show_nat n \<longleftrightarrow> m = n"
  by (metis read_show_nat)

lemma show_int_inj: "show_int i = show_int j \<longleftrightarrow> i = j"
proof
  assume eq: "show_int i = show_int j"
  have no_minus: "show_nat m \<noteq> CHR ''-'' # s" for m s
    using show_nat_digits [of m] by (auto simp: is_digit_def code_def)
  show "i = j"
    using eq no_minus no_minus [symmetric]
    by (auto simp: show_int_def show_nat_inj split: if_splits)
qed simp

end
