(* ===== verification/Pyval.thy ===== *)
theory Pyval
  imports Prelude Complex_Main
begin

text \<open>
  The dynamically typed values the manager's components pass around: decoded JSON and YAML
  documents. Object keys are strings (a YAML mapping may hold other keys, which no code looks up).
  The theory gives the Python operations the sources apply to them: truth value, \<open>==\<close>, ordering,
  \<open>str\<close>, \<open>dict.get\<close>, and the \<open>x.get(k)\<close> method call that raises on a value that is not a mapping.
\<close>

datatype pyval =
    PNone
  | PBool bool
  | PInt int
  | PFloat rat
  | PStr string
  | PList "pyval list"
  | PDict "(string \<times> pyval) list"

type_synonym pydict = "(string \<times> pyval) list"

fun truthy :: "pyval \<Rightarrow> bool" where
  "truthy PNone = False"
| "truthy (PBool b) = b"
| "truthy (PInt i) = (i \<noteq> 0)"
| "truthy (PFloat q) = (q \<noteq> 0)"
| "truthy (PStr s) = (s \<noteq> [])"
| "truthy (PList xs) = (xs \<noteq> [])"
| "truthy (PDict d) = (d \<noteq> [])"

text \<open>\<open>x or y\<close>\<close>

definition py_or :: "pyval \<Rightarrow> pyval \<Rightarrow> pyval" where
  "py_or x y = (if truthy x then x else y)"

text \<open>\<open>d.get(k)\<close> and \<open>d.get(k, default)\<close> on a dictionary.\<close>

definition dget :: "pydict \<Rightarrow> string \<Rightarrow> pyval" where
  "dget d k = (case map_of d k of None \<Rightarrow> PNone | Some v \<Rightarrow> v)"

definition dget_default :: "pydict \<Rightarrow> string \<Rightarrow> pyval \<Rightarrow> pyval" where
  "dget_default d k x = (case map_of d k of None \<Rightarrow> x | Some v \<Rightarrow> v)"

text \<open>The method call \<open>v.get(k)\<close> on any value: only dictionaries have the method.\<close>

fun vget :: "pyval \<Rightarrow> string \<Rightarrow> pyval result" where
  "vget (PDict d) k = Inr (dget d k)"
| "vget _ k = Inl AttributeError"

text \<open>\<open>d.get(k) or {}\<close>\<close>

definition sub_dict :: "pydict \<Rightarrow> string \<Rightarrow> pyval" where
  "sub_dict d k = py_or (dget d k) (PDict [])"

lemma py_or_simps [simp]:
  "truthy x \<Longrightarrow> py_or x y = x" "\<not> truthy x \<Longrightarrow> py_or x y = y"
  by (simp_all add: py_or_def)

lemma dget_update: "dget (AList.update k v d) k' = (if k' = k then v else dget d k')"
  by (auto simp: dget_def update_conv')

lemma dget_Nil [simp]: "dget [] k = PNone"
  by (simp add: dget_def)

lemma dget_Cons [simp]: "dget ((k, v) # d) k' = (if k' = k then v else dget d k')"
  by (auto simp: dget_def)

section \<open>Numbers, equality and order\<close>

text \<open>\<open>bool\<close>, \<open>int\<close> and \<open>float\<close> compare by numeric value.\<close>

fun num_of :: "pyval \<Rightarrow> rat option" where
  "num_of (PBool b) = Some (if b then 1 else 0)"
| "num_of (PInt i) = Some (of_int i)"
| "num_of (PFloat q) = Some q"
| "num_of _ = None"

text \<open>Code-point order on strings.\<close>

fun str_less :: "string \<Rightarrow> string \<Rightarrow> bool" where
  "str_less xs [] = False"
| "str_less [] (y # ys) = True"
| "str_less (x # xs) (y # ys) = (code x < code y \<or> (x = y \<and> str_less xs ys))"

section \<open>str and repr\<close>

definition hex2 :: "nat \<Rightarrow> string" where
  "hex2 n = [digit_char (n div 16), digit_char (n mod 16)]"

definition squote :: char where "squote = CHR 0x27"
definition dquote :: char where "dquote = CHR 0x22"
definition bslash :: char where "bslash = CHR 0x5C"

definition repr_char :: "char \<Rightarrow> char \<Rightarrow> string" where
  "repr_char q c = (let n = code c in
     if c = q \<or> c = bslash then [bslash, c]
     else if n = 9 then [bslash, CHR ''t'']
     else if n = 10 then [bslash, CHR ''n'']
     else if n = 13 then [bslash, CHR ''r'']
     else if n < 32 \<or> (127 \<le> n \<and> n \<le> 160) \<or> n = 173 then bslash # CHR ''x'' # hex2 n
     else [c])"

definition repr_str :: "string \<Rightarrow> string" where
  "repr_str s = (let q = (if squote \<in> set s \<and> dquote \<notin> set s then dquote else squote)
     in q # concat (map (repr_char q) s) @ [q])"

text \<open>
  \<open>repr\<close> of a float in the range where CPython uses positional notation: the decimal expansion, at
  least one fractional digit, at most seventeen.
\<close>

fun frac_digits :: "nat \<Rightarrow> rat \<Rightarrow> string" where
  "frac_digits 0 q = []"
| "frac_digits (Suc n) q =
     (if q = 0 then [] else
        (let d = \<lfloor>10 * q\<rfloor> in digit_char (nat d) # frac_digits n (10 * q - of_int d)))"

definition repr_float :: "rat \<Rightarrow> string" where
  "repr_float q = (let a = \<bar>q\<bar>; w = \<lfloor>a\<rfloor>; f = frac_digits 17 (a - of_int w) in
     (if q < 0 then ''-'' else []) @ show_nat (nat w) @ ''.'' @ (if f = [] then ''0'' else f))"

fun join :: "string \<Rightarrow> string list \<Rightarrow> string" where
  "join sep [] = []"
| "join sep [x] = x"
| "join sep (x # y # xs) = x @ sep @ join sep (y # xs)"

fun py_repr :: "pyval \<Rightarrow> string" where
  "py_repr PNone = ''None''"
| "py_repr (PBool b) = (if b then ''True'' else ''False'')"
| "py_repr (PInt i) = show_int i"
| "py_repr (PFloat q) = repr_float q"
| "py_repr (PStr s) = repr_str s"
| "py_repr (PList xs) = ''['' @ join '', '' (map py_repr xs) @ '']''"
| "py_repr (PDict d) = ''{'' @ join '', '' (map (\<lambda>(k, v). repr_str k @ '': '' @ py_repr v) d) @ ''}''"

definition py_str :: "pyval \<Rightarrow> string" where
  "py_str v = (case v of PStr s \<Rightarrow> s | _ \<Rightarrow> py_repr v)"

lemma py_str_PStr [simp]: "py_str (PStr s) = s"
  by (simp add: py_str_def)

section \<open>Reading integers\<close>

text \<open>\<open>int(s)\<close> on a string: surrounding white space, a sign, digits with single underscores between them.\<close>

fun no_double_underscore :: "string \<Rightarrow> bool" where
  "no_double_underscore (a # b # s) = (\<not> (a = CHR ''_'' \<and> b = CHR ''_'') \<and> no_double_underscore (b # s))"
| "no_double_underscore _ = True"

definition int_of_str :: "string \<Rightarrow> int result" where
  "int_of_str s =
     (let t = strip s;
          neg = (t \<noteq> [] \<and> hd t = CHR ''-'');
          b = (if t \<noteq> [] \<and> (hd t = CHR ''-'' \<or> hd t = CHR ''+'') then tl t else t);
          ds = filter (\<lambda>c. c \<noteq> CHR ''_'') b
      in if b \<noteq> [] \<and> is_digit (hd b) \<and> is_digit (last b) \<and> list_all (\<lambda>c. is_digit c \<or> c = CHR ''_'') b
            \<and> no_double_underscore b
         then Inr (if neg then - int (read_nat ds) else int (read_nat ds))
         else Inl ValueError)"

section \<open>Bytes\<close>

text \<open>\<open>bytes(s, "utf-8")\<close>: a code point from 128 to 255 takes two bytes.\<close>

definition utf8_char :: "char \<Rightarrow> string" where
  "utf8_char c = (let n = code c in
     if n < 128 then [c] else [char_of (192 + n div 64), char_of (128 + n mod 64)])"

definition utf8_encode :: "string \<Rightarrow> string" where
  "utf8_encode s = concat (map utf8_char s)"

end
