(* ===== verification/Sequence_Lang.thy ===== *)
theory Sequence_Lang
  imports Pyval
begin

text \<open>
  The \<open>where:\<close> expression language of sequence rules (backend/app/services/sequence.py): durations,
  the tokenizer, literals, comparisons and the recursive-descent parser. The parser builds Python
  closures; here a closure is a HOL function from the flattened event view to \<open>bool\<close>. The
  parser's methods call each other recursively and take fuel; \<open>parse\<close> supplies
  \<open>6 * length tokens + 6\<close> units, and \<open>parse_enough_fuel\<close> shows that this always suffices.
\<close>

section \<open>Durations\<close>

definition decimal_value :: "string \<Rightarrow> string \<Rightarrow> rat" where
  "decimal_value w f = of_nat (read_nat w) + of_nat (read_nat f) / 10 ^ length f"

text \<open>The optional group \<open>(?:\.\d+)?\<close>: the fractional digits and what follows them.\<close>

definition frac_part :: "string \<Rightarrow> string \<times> string" where
  "frac_part s = (case s of
       [] \<Rightarrow> ([], [])
     | c # cs \<Rightarrow> (if c = CHR ''.'' \<and> takeWhile is_digit cs \<noteq> []
                   then (takeWhile is_digit cs, dropWhile is_digit cs) else ([], s)))"

definition match_duration :: "string \<Rightarrow> (rat \<times> string) option" where
  "match_duration s =
     (let s1 = lstrip s; w = takeWhile is_digit s1;
          (f, s2) = frac_part (dropWhile is_digit s1); u = strip s2
      in if w \<noteq> [] \<and> u \<in> {[], ''ms'', ''s'', ''m'', ''h''} then Some (decimal_value w f, u) else None)"

definition duration_of_number :: "rat \<Rightarrow> rat result" where
  "duration_of_number q = (if q < 0 then Inl (SequenceParseError ''duration cannot be negative'') else Inr q)"

definition parse_duration :: "pyval \<Rightarrow> rat result" where
  "parse_duration raw = (case num_of raw of
       Some q \<Rightarrow> duration_of_number q
     | None \<Rightarrow> (case match_duration (py_str raw) of
           None \<Rightarrow> Inl (SequenceParseError ''unparseable duration'')
         | Some (val, u) \<Rightarrow>
             (let unit = (if u = [] then ''s'' else u) in
              if unit = ''ms'' then Inr (val / 1000)
              else if unit = ''s'' then Inr val
              else if unit = ''m'' then Inr (val * 60)
              else if unit = ''h'' then Inr (val * 3600)
              else Inl (SequenceParseError ''unsupported duration unit''))))"

section \<open>Tokens\<close>

datatype tok_kind = Lparen | Rparen | Comma | Op | Kw | Str | Num | Ident

type_synonym token = "tok_kind \<times> string"

definition ops :: "string list" where
  "ops = [''=='', ''!='', ''>='', ''<='', ''>'', ''<'', ''~'', ''!~'']"

definition keywords_list :: "string list" where
  "keywords_list = [''and'', ''or'', ''not'', ''in'']"

definition match_op :: "string \<Rightarrow> (string \<times> string) option" where
  "match_op s = (case find (\<lambda>p. prefix p s) ops of
       None \<Rightarrow> None | Some p \<Rightarrow> Some (p, drop (length p) s))"

text \<open>
  \<open>\b(?:and|or|not|in)\b\<close>, ignoring case. The leading \<open>\b\<close> looks at the character before the
  position, the trailing one at the character after the keyword.
\<close>

definition match_kw :: "char option \<Rightarrow> string \<Rightarrow> (string \<times> string) option" where
  "match_kw prev s =
     (if (case prev of None \<Rightarrow> False | Some c \<Rightarrow> is_word c) then None
      else (case find (\<lambda>k. lower (take (length k) s) = k \<and>
               (case drop (length k) s of [] \<Rightarrow> True | c # _ \<Rightarrow> \<not> is_word c)) keywords_list of
             None \<Rightarrow> None | Some k \<Rightarrow> Some (take (length k) s, drop (length k) s)))"

text \<open>The rest of a quoted string after its opening quote \<open>q\<close>, closing quote included.\<close>

fun str_body :: "char \<Rightarrow> string \<Rightarrow> (string \<times> string) option" where
  "str_body q [] = None"
| "str_body q (c # cs) =
     (if c = q then Some ([c], cs)
      else if c = bslash then
        (case cs of
           [] \<Rightarrow> None
         | d # ds \<Rightarrow> (if code d = 10 then None
                       else map_option (\<lambda>(t, r). (c # d # t, r)) (str_body q ds)))
      else map_option (\<lambda>(t, r). (c # t, r)) (str_body q cs))"

definition match_str :: "string \<Rightarrow> (string \<times> string) option" where
  "match_str s = (case s of
       [] \<Rightarrow> None
     | c # cs \<Rightarrow> (if c = dquote \<or> c = squote
                   then map_option (\<lambda>(t, r). (c # t, r)) (str_body c cs) else None))"

definition match_num :: "string \<Rightarrow> (string \<times> string) option" where
  "match_num s =
     (let sgn = (case s of c # _ \<Rightarrow> if c = CHR ''-'' then [c] else [] | [] \<Rightarrow> []);
          s1 = drop (length sgn) s; w = takeWhile is_digit s1; s2 = dropWhile is_digit s1;
          (f, r) = frac_part s2
      in if w = [] then None
         else Some (sgn @ w @ (if f = [] then [] else CHR ''.'' # f), r))"

definition ident_start :: "char \<Rightarrow> bool" where
  "ident_start c \<longleftrightarrow> is_ascii_alpha c \<or> c = CHR ''_''"

definition ident_char :: "char \<Rightarrow> bool" where
  "ident_char c \<longleftrightarrow> ident_start c \<or> is_digit c \<or> c = CHR ''.''"

definition match_ident :: "string \<Rightarrow> (string \<times> string) option" where
  "match_ident s = (case s of
       [] \<Rightarrow> None
     | c # cs \<Rightarrow> (if ident_start c then Some (c # takeWhile ident_char cs, dropWhile ident_char cs)
                   else None))"

definition tag :: "tok_kind \<Rightarrow> (string \<times> string) option \<Rightarrow> (token \<times> string) option" where
  "tag k m = map_option (\<lambda>(t, r). ((k, t), r)) m"

definition or_else :: "'a option \<Rightarrow> 'a option \<Rightarrow> 'a option" where
  "or_else a b = (case a of None \<Rightarrow> b | Some x \<Rightarrow> Some x)"

definition match_char :: "char \<Rightarrow> string \<Rightarrow> (string \<times> string) option" where
  "match_char x s = (case s of [] \<Rightarrow> None | c # cs \<Rightarrow> if c = x then Some ([c], cs) else None)"

text \<open>The alternatives of the token expression, in its order.\<close>

definition match_token :: "char option \<Rightarrow> string \<Rightarrow> (token \<times> string) option" where
  "match_token prev s =
     or_else (tag Lparen (match_char CHR ''('' s))
    (or_else (tag Rparen (match_char CHR '')'' s))
    (or_else (tag Comma (match_char CHR '','' s))
    (or_else (tag Op (match_op s))
    (or_else (tag Kw (match_kw prev s))
    (or_else (tag Str (match_str s))
    (or_else (tag Num (match_num s))
             (tag Ident (match_ident s))))))))"

lemma match_char_split: "match_char x s = Some (t, r) \<Longrightarrow> s = t @ r \<and> t \<noteq> []"
  by (auto simp: match_char_def split: list.splits if_splits)

lemma match_op_split: "match_op s = Some (t, r) \<Longrightarrow> s = t @ r \<and> t \<noteq> []"
  by (auto simp: match_op_def ops_def prefix_def split: if_splits)

lemma match_kw_split: "match_kw p s = Some (t, r) \<Longrightarrow> s = t @ r \<and> t \<noteq> []"
proof -
  assume "match_kw p s = Some (t, r)"
  then obtain k where k: "find (\<lambda>k. lower (take (length k) s) = k \<and>
        (case drop (length k) s of [] \<Rightarrow> True | c # _ \<Rightarrow> \<not> is_word c)) keywords_list = Some k"
    and t: "t = take (length k) s" and r: "r = drop (length k) s"
    by (auto simp: match_kw_def split: if_splits option.splits)
  from k have "k \<in> set keywords_list" and "lower (take (length k) s) = k"
    by (auto simp: find_Some_iff in_set_conv_nth)
  then have "t \<noteq> []"
    unfolding t by (auto simp: keywords_list_def lower_def)
  with t r show ?thesis by simp
qed

lemma str_body_split: "str_body q s = Some (t, r) \<Longrightarrow> s = t @ r \<and> t \<noteq> []"
proof (induction q s arbitrary: t r rule: str_body.induct)
  case (2 q c cs)
  then show ?case
    by (cases cs) (auto split: if_splits)
qed simp

lemma match_str_split: "match_str s = Some (t, r) \<Longrightarrow> s = t @ r \<and> t \<noteq> []"
  by (auto simp: match_str_def dest: str_body_split split: list.splits if_splits)

lemma frac_part_split:
  "frac_part s = (f, r) \<Longrightarrow> s = (if f = [] then [] else CHR ''.'' # f) @ r \<and> list_all is_digit f"
  by (auto simp: frac_part_def list_all_iff dest: set_takeWhileD split: list.splits if_splits)

lemma match_num_split: "match_num s = Some (t, r) \<Longrightarrow> s = t @ r \<and> t \<noteq> []"
proof -
  assume m: "match_num s = Some (t, r)"
  define sg where "sg = (case s of c # _ \<Rightarrow> if c = CHR ''-'' then [c] else [] | [] \<Rightarrow> [])"
  define s1 where "s1 = drop (length sg) s"
  obtain f r' where fr: "frac_part (dropWhile is_digit s1) = (f, r')"
    by (cases "frac_part (dropWhile is_digit s1)")
  have s: "s = sg @ s1"
    by (auto simp: sg_def s1_def split: list.splits)
  have s1: "s1 = takeWhile is_digit s1 @ dropWhile is_digit s1" by simp
  from m fr have "takeWhile is_digit s1 \<noteq> []" "r = r'"
    "t = sg @ takeWhile is_digit s1 @ (if f = [] then [] else CHR ''.'' # f)"
    by (auto simp: match_num_def Let_def sg_def [symmetric] s1_def [symmetric] split: if_splits)
  with s s1 frac_part_split [OF fr] show ?thesis by (metis append.assoc append_is_Nil_conv)
qed

lemma match_ident_split: "match_ident s = Some (t, r) \<Longrightarrow> s = t @ r \<and> t \<noteq> []"
  by (auto simp: match_ident_def split: list.splits if_splits)

lemmas match_splits = match_char_split match_op_split match_kw_split match_str_split
  match_num_split match_ident_split

lemma match_token_split: "match_token p s = Some ((k, t), r) \<Longrightarrow> s = t @ r \<and> t \<noteq> []"
  by (auto simp: match_token_def or_else_def tag_def split: option.splits dest: match_splits)

function tokenize_from :: "char option \<Rightarrow> string \<Rightarrow> token list result" where
  "tokenize_from prev s = (case s of
       [] \<Rightarrow> Inr []
     | c # cs \<Rightarrow>
         (if is_space c then tokenize_from (Some c) cs
          else (case match_token prev s of
              None \<Rightarrow> Inl (SequenceParseError ''unexpected character'')
            | Some (tok, r) \<Rightarrow>
                bindE (tokenize_from (Some (last (snd tok))) r) (\<lambda>ts. Inr (tok # ts)))))"
  by pat_completeness auto
termination
proof (relation "measure (\<lambda>(p, s). length s)", goal_cases)
  case (3 prev s c cs x tok r)
  then have "s = snd tok @ r \<and> snd tok \<noteq> []"
    by (cases tok) (auto dest: match_token_split)
  then show ?case by auto
qed auto

declare tokenize_from.simps [simp del]

definition tokenize :: "string \<Rightarrow> token list result" where
  "tokenize expr = tokenize_from None expr"

section \<open>Literals\<close>

datatype lit = LStr string | LInt int | LFloat rat

definition hex_val :: "char \<Rightarrow> nat option" where
  "hex_val c = (let n = code c in
     if 48 \<le> n \<and> n \<le> 57 then Some (n - 48)
     else if 65 \<le> n \<and> n \<le> 70 then Some (n - 55)
     else if 97 \<le> n \<and> n \<le> 102 then Some (n - 87) else None)"

definition read_hex :: "nat \<Rightarrow> string \<Rightarrow> nat option" where
  "read_hex k s = (if length s < k then None
     else fold (\<lambda>c a. case (a, hex_val c) of (Some x, Some h) \<Rightarrow> Some (16 * x + h) | _ \<Rightarrow> None)
            (take k s) (Some 0))"

definition is_octal :: "char \<Rightarrow> bool" where
  "is_octal c \<longleftrightarrow> 48 \<le> code c \<and> code c \<le> 55"

definition octal_run :: "string \<Rightarrow> string" where
  "octal_run s = takeWhile is_octal (take 3 s)"

definition simple_escape :: "char \<Rightarrow> nat option" where
  "simple_escape d =
     (if d = bslash \<or> d = squote \<or> d = dquote then Some (code d)
      else if d = CHR ''a'' then Some 7 else if d = CHR ''b'' then Some 8
      else if d = CHR ''t'' then Some 9 else if d = CHR ''n'' then Some 10
      else if d = CHR ''v'' then Some 11 else if d = CHR ''f'' then Some 12
      else if d = CHR ''r'' then Some 13 else None)"

text \<open>A decoded code point, when the model's strings can hold it.\<close>

definition put_code :: "nat \<Rightarrow> string result \<Rightarrow> string result" where
  "put_code n r = (if n < 256 then bindE r (\<lambda>t. Inr (char_of n # t)) else Inl UnicodeBeyondLatin1)"

text \<open>
  The \<open>unicode_escape\<close> codec. Bytes outside escapes are read as Latin-1. \<open>\N{name}\<close> looks a
  character up by its Unicode name and is outside the model.
\<close>

fun unicode_escape :: "string \<Rightarrow> string result" where
  "unicode_escape [] = Inr []"
| "unicode_escape (c # cs) =
     (if c \<noteq> bslash then bindE (unicode_escape cs) (\<lambda>t. Inr (c # t))
      else (case cs of
          [] \<Rightarrow> Inl UnicodeDecodeError
        | d # ds \<Rightarrow>
            (if code d = 10 then unicode_escape ds
             else if simple_escape d \<noteq> None then put_code (the (simple_escape d)) (unicode_escape ds)
             else if is_octal d then
               (let o3 = octal_run (d # ds) in
                put_code (foldl (\<lambda>a x. 8 * a + digit_val x) 0 o3) (unicode_escape (drop (length o3 - 1) ds)))
             else if d = CHR ''x'' then
               (case read_hex 2 ds of None \<Rightarrow> Inl UnicodeDecodeError
                  | Some n \<Rightarrow> put_code n (unicode_escape (drop 2 ds)))
             else if d = CHR ''u'' then
               (case read_hex 4 ds of None \<Rightarrow> Inl UnicodeDecodeError
                  | Some n \<Rightarrow> put_code n (unicode_escape (drop 4 ds)))
             else if d = CHR ''U'' then
               (case read_hex 8 ds of None \<Rightarrow> Inl UnicodeDecodeError
                  | Some n \<Rightarrow> if n > 1114111 then Inl UnicodeDecodeError
                              else put_code n (unicode_escape (drop 8 ds)))
             else if d = CHR ''N'' then Inl UnicodeBeyondLatin1
             else bindE (unicode_escape ds) (\<lambda>t. Inr (c # d # t)))))"

definition read_decimal :: "string \<Rightarrow> rat" where
  "read_decimal s = (let (f, _) = frac_part (dropWhile is_digit s) in
     decimal_value (takeWhile is_digit s) f)"

definition literal_value :: "tok_kind \<Rightarrow> string \<Rightarrow> lit result" where
  "literal_value k raw =
     (if k = Str then bindE (unicode_escape (utf8_encode (butlast (tl raw)))) (\<lambda>t. Inr (LStr t))
      else if k = Num then
        (let neg = (raw \<noteq> [] \<and> hd raw = CHR ''-''); body = (if neg then tl raw else raw) in
         if CHR ''.'' \<in> set raw
         then Inr (LFloat (if neg then - read_decimal body else read_decimal body))
         else Inr (LInt (if neg then - int (read_nat body) else int (read_nat body))))
      else Inl (SequenceParseError ''expected literal''))"

section \<open>Field access and comparisons\<close>

type_synonym view = pydict

fun walk :: "pyval \<Rightarrow> string list \<Rightarrow> pyval" where
  "walk cur [] = cur"
| "walk cur (part # parts) = (case cur of
       PDict d \<Rightarrow> (case map_of d part of Some v \<Rightarrow> walk v parts | None \<Rightarrow> PNone)
     | _ \<Rightarrow> PNone)"

definition field_getter :: "string \<Rightarrow> view \<Rightarrow> pyval" where
  "field_getter field_name v = (case map_of v field_name of
       Some x \<Rightarrow> x
     | None \<Rightarrow> walk (PDict v) (split_on CHR ''.'' field_name))"

fun lit_val :: "lit \<Rightarrow> pyval" where
  "lit_val (LStr s) = PStr s"
| "lit_val (LInt i) = PInt i"
| "lit_val (LFloat q) = PFloat q"

text \<open>\<open>a == literal\<close>\<close>

fun py_eq_lit :: "pyval \<Rightarrow> lit \<Rightarrow> bool" where
  "py_eq_lit a (LStr s) = (a = PStr s)"
| "py_eq_lit a (LInt i) = (num_of a = Some (of_int i))"
| "py_eq_lit a (LFloat q) = (num_of a = Some q)"

text \<open>
  The four guarded order tests: \<open>None\<close> and operands Python cannot order (a \<open>TypeError\<close>, which the
  code catches) give \<open>False\<close>.
\<close>

definition py_gt :: "pyval \<Rightarrow> lit \<Rightarrow> bool" where
  "py_gt a b = (case (a, b) of
       (PStr x, LStr y) \<Rightarrow> str_less y x
     | _ \<Rightarrow> (case (num_of a, num_of (lit_val b)) of (Some x, Some y) \<Rightarrow> x > y | _ \<Rightarrow> False))"

definition py_ge :: "pyval \<Rightarrow> lit \<Rightarrow> bool" where
  "py_ge a b = (case (a, b) of
       (PStr x, LStr y) \<Rightarrow> x = y \<or> str_less y x
     | _ \<Rightarrow> (case (num_of a, num_of (lit_val b)) of (Some x, Some y) \<Rightarrow> x \<ge> y | _ \<Rightarrow> False))"

definition py_lt :: "pyval \<Rightarrow> lit \<Rightarrow> bool" where
  "py_lt a b = (case (a, b) of
       (PStr x, LStr y) \<Rightarrow> str_less x y
     | _ \<Rightarrow> (case (num_of a, num_of (lit_val b)) of (Some x, Some y) \<Rightarrow> x < y | _ \<Rightarrow> False))"

definition py_le :: "pyval \<Rightarrow> lit \<Rightarrow> bool" where
  "py_le a b = (case (a, b) of
       (PStr x, LStr y) \<Rightarrow> x = y \<or> str_less x y
     | _ \<Rightarrow> (case (num_of a, num_of (lit_val b)) of (Some x, Some y) \<Rightarrow> x \<le> y | _ \<Rightarrow> False))"

definition ilike :: "lit \<Rightarrow> pyval \<Rightarrow> bool" where
  "ilike right x = contains (lower (py_str (lit_val right))) (lower (py_str (py_or x (PStr []))))"

type_synonym pred_fn = "view \<Rightarrow> bool"

definition build_comparison :: "string \<Rightarrow> string \<Rightarrow> lit \<Rightarrow> pred_fn result" where
  "build_comparison field_name op right =
     (let get = field_getter field_name in
      if op = ''=='' then Inr (\<lambda>v. py_eq_lit (get v) right)
      else if op = ''!='' then Inr (\<lambda>v. \<not> py_eq_lit (get v) right)
      else if op = ''>'' then Inr (\<lambda>v. py_gt (get v) right)
      else if op = ''>='' then Inr (\<lambda>v. py_ge (get v) right)
      else if op = ''<'' then Inr (\<lambda>v. py_lt (get v) right)
      else if op = ''<='' then Inr (\<lambda>v. py_le (get v) right)
      else if op = ''~'' then Inr (\<lambda>v. ilike right (get v))
      else if op = ''!~'' then Inr (\<lambda>v. \<not> ilike right (get v))
      else Inl (SequenceParseError ''unsupported op''))"

definition combine_or :: "pred_fn \<Rightarrow> pred_fn \<Rightarrow> pred_fn" where
  "combine_or left right = (\<lambda>v. left v \<or> right v)"

definition combine_and :: "pred_fn \<Rightarrow> pred_fn \<Rightarrow> pred_fn" where
  "combine_and left right = (\<lambda>v. left v \<and> right v)"

definition combine_not :: "pred_fn \<Rightarrow> pred_fn" where
  "combine_not inner = (\<lambda>v. \<not> inner v)"

section \<open>The recursive-descent parser\<close>

text \<open>
  The parser's state is the list of tokens not yet consumed (the suffix of \<open>self.tokens\<close> from
  \<open>self.pos\<close>); \<open>_peek\<close> is its head.
\<close>

definition peek :: "token list \<Rightarrow> token option" where
  "peek ts = (case ts of [] \<Rightarrow> None | t # _ \<Rightarrow> Some t)"

definition eat :: "tok_kind \<Rightarrow> token list \<Rightarrow> (token \<times> token list) result" where
  "eat kind ts = (case ts of
       [] \<Rightarrow> Inl (SequenceParseError ''unexpected end of expression'')
     | t # rest \<Rightarrow> (if fst t \<noteq> kind then Inl (SequenceParseError ''unexpected token kind'')
                     else Inr (t, rest)))"

definition is_keyword :: "string \<Rightarrow> token list \<Rightarrow> bool" where
  "is_keyword name ts = (case peek ts of None \<Rightarrow> False | Some (k, t) \<Rightarrow> k = Kw \<and> lower t = name)"

text \<open>The \<open>while True\<close> loop that reads \<open>lit (, lit)* )\<close>.\<close>

fun in_values :: "token list \<Rightarrow> (lit list \<times> token list) result" where
  "in_values [] = Inl (SequenceParseError ''expected literal inside in (...)'')"
| "in_values ((k, t) # ts) =
     (if k = Str \<or> k = Num then
        bindE (literal_value k t) (\<lambda>l. case ts of
            [] \<Rightarrow> Inl (SequenceParseError ''unterminated in (...) list'')
          | (k', t') # ts' \<Rightarrow>
              (if k' = Comma then bindE (in_values ts') (\<lambda>(ls, r). Inr (l # ls, r))
               else if k' = Rparen then Inr ([l], ts')
               else Inl (SequenceParseError ''expected , or ) in in (...)'')))
      else Inl (SequenceParseError ''expected literal''))"

definition in_check :: "string \<Rightarrow> bool \<Rightarrow> lit list \<Rightarrow> pred_fn" where
  "in_check ident neg values = (\<lambda>v.
     let hit = list_ex (py_eq_lit (field_getter ident v)) values in if neg then \<not> hit else hit)"

definition in_tail :: "string \<Rightarrow> bool \<Rightarrow> token list \<Rightarrow> (pred_fn \<times> token list) result" where
  "in_tail ident negated ts =
     bindE (eat Lparen ts) (\<lambda>(_, ts1).
     bindE (in_values ts1) (\<lambda>(vals, ts2). Inr (in_check ident negated vals, ts2)))"

definition plain_comparison :: "string \<Rightarrow> token list \<Rightarrow> (pred_fn \<times> token list) result" where
  "plain_comparison ident ts = (case peek ts of
       None \<Rightarrow> Inl (SequenceParseError ''expected operator'')
     | Some (k, op) \<Rightarrow>
         (if k \<noteq> Op then Inl (SequenceParseError ''expected operator'')
          else (case peek (tl ts) of
              None \<Rightarrow> Inl (SequenceParseError ''expected literal on right'')
            | Some (rk, rt) \<Rightarrow>
                (if rk \<noteq> Str \<and> rk \<noteq> Num then Inl (SequenceParseError ''expected literal on right'')
                 else bindE (literal_value rk rt) (\<lambda>right.
                      bindE (build_comparison ident op right) (\<lambda>f. Inr (f, tl (tl ts))))))))"

text \<open>What follows the field name, \<open>negated\<close> telling whether a \<open>not\<close> was consumed.\<close>

definition after_ident :: "string \<Rightarrow> bool \<Rightarrow> token list \<Rightarrow> (pred_fn \<times> token list) result" where
  "after_ident ident negated ts =
     (if is_keyword ''in'' ts then in_tail ident negated (tl ts)
      else if negated then Inl (SequenceParseError ''not must be followed by in'')
      else plain_comparison ident ts)"

definition comparison_or_in :: "token list \<Rightarrow> (pred_fn \<times> token list) result" where
  "comparison_or_in ts = bindE (eat Ident ts) (\<lambda>(id_tok, ts1).
     if is_keyword ''not'' ts1 then after_ident (snd id_tok) True (tl ts1)
     else after_ident (snd id_tok) False ts1)"

function (sequential) or_expr :: "nat \<Rightarrow> token list \<Rightarrow> (pred_fn \<times> token list) result"
and or_loop :: "nat \<Rightarrow> pred_fn \<Rightarrow> token list \<Rightarrow> (pred_fn \<times> token list) result"
and and_expr :: "nat \<Rightarrow> token list \<Rightarrow> (pred_fn \<times> token list) result"
and and_loop :: "nat \<Rightarrow> pred_fn \<Rightarrow> token list \<Rightarrow> (pred_fn \<times> token list) result"
and not_expr :: "nat \<Rightarrow> token list \<Rightarrow> (pred_fn \<times> token list) result"
and primary :: "nat \<Rightarrow> token list \<Rightarrow> (pred_fn \<times> token list) result"
where
  "or_expr 0 ts = Inl NoFuel"
| "or_expr (Suc n) ts = bindE (and_expr n ts) (\<lambda>(left, ts1). or_loop n left ts1)"
| "or_loop 0 left ts = Inl NoFuel"
| "or_loop (Suc n) left ts =
     (if is_keyword ''or'' ts
      then bindE (and_expr n (tl ts)) (\<lambda>(right, ts1). or_loop n (combine_or left right) ts1)
      else Inr (left, ts))"
| "and_expr 0 ts = Inl NoFuel"
| "and_expr (Suc n) ts = bindE (not_expr n ts) (\<lambda>(left, ts1). and_loop n left ts1)"
| "and_loop 0 left ts = Inl NoFuel"
| "and_loop (Suc n) left ts =
     (if is_keyword ''and'' ts
      then bindE (not_expr n (tl ts)) (\<lambda>(right, ts1). and_loop n (combine_and left right) ts1)
      else Inr (left, ts))"
| "not_expr 0 ts = Inl NoFuel"
| "not_expr (Suc n) ts =
     (if is_keyword ''not'' ts
      then bindE (not_expr n (tl ts)) (\<lambda>(inner, ts1). Inr (combine_not inner, ts1))
      else primary n ts)"
| "primary 0 ts = Inl NoFuel"
| "primary (Suc n) ts = (case ts of
       [] \<Rightarrow> Inl (SequenceParseError ''expected primary expression, got end of input'')
     | (k, t) # rest \<Rightarrow>
         (if k = Lparen then
            bindE (or_expr n rest) (\<lambda>(inner, ts1). bindE (eat Rparen ts1) (\<lambda>(_, ts2). Inr (inner, ts2)))
          else if k = Ident then comparison_or_in ts
          else Inl (SequenceParseError ''unexpected token'')))"
  by pat_completeness auto
termination
  by (relation "measure (\<lambda>x. case x of
        Inl (Inl (n, _)) \<Rightarrow> n | Inl (Inr (Inl (n, _, _))) \<Rightarrow> n | Inl (Inr (Inr (n, _))) \<Rightarrow> n
      | Inr (Inl (n, _, _)) \<Rightarrow> n | Inr (Inr (Inl (n, _))) \<Rightarrow> n | Inr (Inr (Inr (n, _))) \<Rightarrow> n)") auto

definition parse_fuel :: "token list \<Rightarrow> nat" where
  "parse_fuel ts = 6 * length ts + 6"

definition parse :: "token list \<Rightarrow> pred_fn result" where
  "parse ts = bindE (or_expr (parse_fuel ts) ts) (\<lambda>(f, rest).
     if rest = [] then Inr f else Inl (SequenceParseError ''unexpected trailing token''))"

text \<open>A compiled clause; \<open>apply\<close> is total because no closure the parser builds raises.\<close>

datatype Predicate = Predicate (pred_fn: "view \<Rightarrow> bool")

definition pred_apply :: "Predicate \<Rightarrow> view \<Rightarrow> bool" where
  "pred_apply p v = pred_fn p v"

definition TRUE_PRED :: Predicate where
  "TRUE_PRED = Predicate (\<lambda>_. True)"

definition compile_predicate :: "pyval \<Rightarrow> Predicate result" where
  "compile_predicate where_raw =
     (if where_raw = PNone \<or> strip (py_str where_raw) = [] then Inr TRUE_PRED
      else bindE (tokenize (py_str where_raw)) (\<lambda>tokens.
           bindE (parse tokens) (\<lambda>fn. Inr (Predicate fn))))"

end
