(* ===== verification/Sequence_Lang_Correct.thy ===== *)
theory Sequence_Lang_Correct
  imports Sequence_Lang
begin

text \<open>
  Correctness of the \<open>where:\<close> front end. The grammar documented on \<open>_Parser\<close> is the datatype
  \<open>wexpr\<close>, \<open>sem\<close> gives its meaning and \<open>toks\<close>/\<open>spell\<close> its tokens and text, with parentheses where
  precedence needs them. The parser never runs out of fuel, consumes tokens at every call, and
  compiling the text of an expression gives exactly its meaning.
\<close>

section \<open>Progress and fuel\<close>

abbreviation terminates :: "'a result \<Rightarrow> bool" where
  "terminates \<equiv> avoids NoFuel"

lemma terminates_put_code: "terminates r \<Longrightarrow> terminates (put_code n r)"
  by (auto simp: put_code_def)

declare unicode_escape.simps(2) [simp del] in_values.simps(2) [simp del]

lemma unicode_escape_terminates: "terminates (unicode_escape s)"
proof (induction s rule: length_induct)
  case (1 s)
  show ?case
  proof (cases s)
    case (Cons c cs)
    have IH: "terminates (unicode_escape t)" if "length t \<le> length cs" for t
      using 1 that Cons by simp
    show ?thesis
      unfolding Cons unicode_escape.simps(2) Let_def
      by (auto simp: IH intro!: terminates_put_code split: list.split option.split split del: if_split)
  qed simp
qed

lemma literal_value_terminates: "terminates (literal_value k raw)"
  by (auto simp: literal_value_def Let_def unicode_escape_terminates)

lemma in_values_terminates: "terminates (in_values ts)"
proof (induction ts rule: length_induct)
  case (1 ts)
  show ?case
  proof (cases ts)
    case (Cons t ts')
    have IH: "terminates (in_values u)" if "length u \<le> length ts'" for u
      using 1 that Cons by simp
    show ?thesis
      unfolding Cons by (cases t)
       (auto simp: in_values.simps(2) IH literal_value_terminates split: list.split)
  qed simp
qed

lemma in_values_Cons_Inr:
  assumes "in_values ((k, s) # ts') = Inr (vs, r)"
  obtains t ts'' where "ts' = t # ts''" "(\<exists>ws. in_values ts'' = Inr (ws, r)) \<or> r = ts''"
proof (cases ts')
  case (Cons t ts'')
  with assms that show ?thesis
    by (cases t) (auto simp: in_values.simps(2) bindE_eq_Inr split: if_splits)
qed (use assms in \<open>auto simp: in_values.simps(2) bindE_eq_Inr split: if_splits\<close>)

lemma in_values_shorter: "in_values ts = Inr (vs, r) \<Longrightarrow> length r < length ts"
proof (induction ts arbitrary: vs rule: length_induct)
  case (1 ts)
  then obtain k s ts' where ts: "ts = (k, s) # ts'" by (cases ts) auto
  with 1(2) obtain t ts'' where ts': "ts' = t # ts''"
      and d: "(\<exists>ws. in_values ts'' = Inr (ws, r)) \<or> r = ts''"
    by (blast elim: in_values_Cons_Inr)
  from d show ?case
  proof
    assume "\<exists>ws. in_values ts'' = Inr (ws, r)"
    with 1(1) ts ts' have "length r < length ts''" by auto
    with ts ts' show ?thesis by simp
  qed (simp add: ts ts')
qed

lemma build_comparison_terminates: "terminates (build_comparison f op l)"
  by (simp add: build_comparison_def Let_def)

lemma eat_shorter: "eat k ts = Inr (t, r) \<Longrightarrow> ts = t # r"
  by (auto simp: eat_def split: list.splits if_splits)

lemma eat_terminates: "terminates (eat k ts)"
  by (simp add: eat_def split: list.split)

lemma comparison_terminates: "terminates (comparison_or_in ts)"
  by (auto simp: comparison_or_in_def after_ident_def in_tail_def plain_comparison_def eat_terminates
      literal_value_terminates in_values_terminates build_comparison_terminates
      split: option.split split del: if_split)

lemma in_tail_shorter: "in_tail i b ts = Inr (f, r) \<Longrightarrow> length r < length ts"
  by (auto simp: in_tail_def bindE_eq_Inr dest!: eat_shorter in_values_shorter)

lemma plain_comparison_shorter: "plain_comparison i ts = Inr (f, r) \<Longrightarrow> length r < length ts"
  by (cases ts) (auto simp: plain_comparison_def peek_def bindE_eq_Inr split: list.splits if_splits)

lemma after_ident_shorter: "after_ident i b ts = Inr (f, r) \<Longrightarrow> length r < length ts"
  by (cases ts) (auto simp: after_ident_def is_keyword_def peek_def split: if_splits
      dest!: in_tail_shorter plain_comparison_shorter)

lemma comparison_shorter: "comparison_or_in ts = Inr (f, r) \<Longrightarrow> length r < length ts"
  by (auto simp: comparison_or_in_def bindE_eq_Inr split: if_splits
      dest!: eat_shorter after_ident_shorter)

lemma parser_shorter:
  "or_expr n ts = Inr (f, r) \<Longrightarrow> length r < length ts"
  "or_loop n g ts = Inr (f, r) \<Longrightarrow> length r \<le> length ts"
  "and_expr n ts = Inr (f, r) \<Longrightarrow> length r < length ts"
  "and_loop n g ts = Inr (f, r) \<Longrightarrow> length r \<le> length ts"
  "not_expr n ts = Inr (f, r) \<Longrightarrow> length r < length ts"
  "primary n ts = Inr (f, r) \<Longrightarrow> length r < length ts"
proof (induction n ts and n g ts and n ts and n g ts and n ts and n ts arbitrary: f r and f r and f r and f r and f r and f r
    rule: or_expr_or_loop_and_expr_and_loop_not_expr_primary.induct)
  case (12 n ts)
  then show ?case
    by (auto simp: bindE_eq_Inr dest!: eat_shorter comparison_shorter split: list.splits if_splits) force
qed (fastforce simp: bindE_eq_Inr split: if_splits)+

lemma parser_terminates:
  "6 * length ts + 5 \<le> n \<Longrightarrow> terminates (or_expr n ts)"
  "6 * length ts + 1 \<le> n \<Longrightarrow> terminates (or_loop n g ts)"
  "6 * length ts + 4 \<le> n \<Longrightarrow> terminates (and_expr n ts)"
  "6 * length ts + 1 \<le> n \<Longrightarrow> terminates (and_loop n g ts)"
  "6 * length ts + 3 \<le> n \<Longrightarrow> terminates (not_expr n ts)"
  "6 * length ts + 2 \<le> n \<Longrightarrow> terminates (primary n ts)"
proof (induction n ts and n g ts and n ts and n g ts and n ts and n ts
    rule: or_expr_or_loop_and_expr_and_loop_not_expr_primary.induct)
  case (12 n ts)
  then show ?case
    by (auto simp: eat_terminates comparison_terminates split: list.split)
next
  case (2 n ts)
  have "terminates (or_loop n f r)" if "and_expr n ts = Inr (f, r)" for f r
    using 2(2) [OF that refl] 2(3) parser_shorter(3) [OF that] by simp
  with 2(1,3) show ?case by auto
next
  case (4 n left ts)
  have "terminates (or_loop n (combine_or left f) r)"
    if "is_keyword ''or'' ts" "and_expr n (tl ts) = Inr (f, r)" for f r
    using 4(2) [OF that refl] 4(3) parser_shorter(3) [OF that(2)] by simp
  with 4(1,3) show ?case by (cases ts) (auto simp: is_keyword_def peek_def)
next
  case (6 n ts)
  have "terminates (and_loop n f r)" if "not_expr n ts = Inr (f, r)" for f r
    using 6(2) [OF that refl] 6(3) parser_shorter(5) [OF that] by simp
  with 6(1,3) show ?case by auto
next
  case (8 n left ts)
  have "terminates (and_loop n (combine_and left f) r)"
    if "is_keyword ''and'' ts" "not_expr n (tl ts) = Inr (f, r)" for f r
    using 8(2) [OF that refl] 8(3) parser_shorter(5) [OF that(2)] by simp
  with 8(1,3) show ?case by (cases ts) (auto simp: is_keyword_def peek_def)
next
  case (10 n ts)
  then show ?case by (cases ts) (auto simp: is_keyword_def peek_def)
qed simp_all

lemma bindE_fuel_mono:
  assumes "terminates (bindE a f)" "terminates a \<Longrightarrow> a' = a"
    "\<And>x. a = Inr x \<Longrightarrow> terminates (f x) \<Longrightarrow> f' x = f x"
  shows "bindE a' f' = bindE a f"
  using assms by (cases a) auto

lemma parser_fuel_mono:
  "terminates (or_expr n ts) \<Longrightarrow> n \<le> m \<Longrightarrow> or_expr m ts = or_expr n ts"
  "terminates (or_loop n g ts) \<Longrightarrow> n \<le> m \<Longrightarrow> or_loop m g ts = or_loop n g ts"
  "terminates (and_expr n ts) \<Longrightarrow> n \<le> m \<Longrightarrow> and_expr m ts = and_expr n ts"
  "terminates (and_loop n g ts) \<Longrightarrow> n \<le> m \<Longrightarrow> and_loop m g ts = and_loop n g ts"
  "terminates (not_expr n ts) \<Longrightarrow> n \<le> m \<Longrightarrow> not_expr m ts = not_expr n ts"
  "terminates (primary n ts) \<Longrightarrow> n \<le> m \<Longrightarrow> primary m ts = primary n ts"
proof (induction n ts and n g ts and n ts and n g ts and n ts and n ts
    arbitrary: m and m and m and m and m and m
    rule: or_expr_or_loop_and_expr_and_loop_not_expr_primary.induct)
  case (2 n ts)
  from 2(4) obtain k where m: "m = Suc k" "n \<le> k" by (cases m) auto
  from 2(3) show ?case unfolding m(1) or_expr.simps
    by (rule bindE_fuel_mono) (auto simp: 2(1) [OF _ m(2)] 2(2) [OF _ _ _ m(2)])
next
  case (4 n left ts)
  from 4(4) obtain k where m: "m = Suc k" "n \<le> k" by (cases m) auto
  show ?case
  proof (cases "is_keyword ''or'' ts")
    case True
    from 4(3) show ?thesis unfolding m(1) or_loop.simps if_P [OF True]
      by (rule bindE_fuel_mono) (auto simp: 4(1) [OF True _ m(2)] 4(2) [OF True _ _ _ m(2)])
  qed (simp add: m)
next
  case (6 n ts)
  from 6(4) obtain k where m: "m = Suc k" "n \<le> k" by (cases m) auto
  from 6(3) show ?case unfolding m(1) and_expr.simps
    by (rule bindE_fuel_mono) (auto simp: 6(1) [OF _ m(2)] 6(2) [OF _ _ _ m(2)])
next
  case (8 n left ts)
  from 8(4) obtain k where m: "m = Suc k" "n \<le> k" by (cases m) auto
  show ?case
  proof (cases "is_keyword ''and'' ts")
    case True
    from 8(3) show ?thesis unfolding m(1) and_loop.simps if_P [OF True]
      by (rule bindE_fuel_mono) (auto simp: 8(1) [OF True _ m(2)] 8(2) [OF True _ _ _ m(2)])
  qed (simp add: m)
next
  case (10 n ts)
  from 10(4) obtain k where m: "m = Suc k" "n \<le> k" by (cases m) auto
  show ?case
  proof (cases "is_keyword ''not'' ts")
    case True
    from 10(3) show ?thesis unfolding m(1) not_expr.simps if_P [OF True]
      by (rule bindE_fuel_mono) (auto simp: 10(1) [OF True _ m(2)])
  qed (use 10(2) [OF _ _ m(2)] 10(3) in \<open>simp add: m\<close>)
next
  case (12 n ts)
  from 12(3) obtain k where m: "m = Suc k" "n \<le> k" by (cases m) auto
  have "bindE (or_expr k rest) F = bindE (or_expr n rest) F"
    if "ts = (Lparen, t) # rest" "terminates (bindE (or_expr n rest) F)" for t rest F
    using that(2) by (rule bindE_fuel_mono) (use 12(1) [OF that(1) refl refl _ m(2)] in auto)
  with 12(2) show ?case unfolding m(1) primary.simps
    by (auto split: list.splits if_splits) blast
qed simp_all


section \<open>Fuel-free equations\<close>

lemma kw_simps [simp]:
  "is_keyword k [] = False"
  "is_keyword k ((t, s) # ts) \<longleftrightarrow> t = Kw \<and> lower s = k"
  "lower ''or'' = ''or''" "lower ''and'' = ''and''" "lower ''not'' = ''not''" "lower ''in'' = ''in''"
  by (simp_all add: is_keyword_def peek_def lower_def lower_char_def code_def)

definition or_x where "or_x ts = or_expr (6 * length ts + 5) ts"
definition or_l where "or_l g ts = or_loop (6 * length ts + 1) g ts"
definition and_x where "and_x ts = and_expr (6 * length ts + 4) ts"
definition and_l where "and_l g ts = and_loop (6 * length ts + 1) g ts"
definition not_x where "not_x ts = not_expr (6 * length ts + 3) ts"
definition prim_x where "prim_x ts = primary (6 * length ts + 2) ts"

lemma enough_fuel:
  "6 * length ts + 5 \<le> n \<Longrightarrow> or_expr n ts = or_x ts"
  "6 * length ts + 1 \<le> n \<Longrightarrow> or_loop n g ts = or_l g ts"
  "6 * length ts + 4 \<le> n \<Longrightarrow> and_expr n ts = and_x ts"
  "6 * length ts + 1 \<le> n \<Longrightarrow> and_loop n g ts = and_l g ts"
  "6 * length ts + 3 \<le> n \<Longrightarrow> not_expr n ts = not_x ts"
  "6 * length ts + 2 \<le> n \<Longrightarrow> primary n ts = prim_x ts"
  unfolding or_x_def or_l_def and_x_def and_l_def not_x_def prim_x_def
  by (erule parser_fuel_mono [rotated], rule parser_terminates, simp)+

lemma x_shorter:
  "or_x ts = Inr (f, r) \<Longrightarrow> length r < length ts"
  "and_x ts = Inr (f, r) \<Longrightarrow> length r < length ts"
  "not_x ts = Inr (f, r) \<Longrightarrow> length r < length ts"
  unfolding or_x_def and_x_def not_x_def by (erule parser_shorter)+

lemma or_x_eq: "or_x ts = bindE (and_x ts) (\<lambda>(left, ts1). or_l left ts1)"
proof -
  have "or_x ts = bindE (and_expr (6 * length ts + 4) ts) (\<lambda>(left, ts1). or_loop (6 * length ts + 4) left ts1)"
    by (simp only: or_x_def or_expr.simps(2) [symmetric]) (simp add: add.commute)
  also have "\<dots> = bindE (and_x ts) (\<lambda>(left, ts1). or_l left ts1)"
    by (rule bindE_cong) (auto simp: enough_fuel(3) intro!: enough_fuel(2) dest!: x_shorter)
  finally show ?thesis .
qed

lemma and_x_eq: "and_x ts = bindE (not_x ts) (\<lambda>(left, ts1). and_l left ts1)"
proof -
  have "and_x ts = bindE (not_expr (6 * length ts + 3) ts) (\<lambda>(left, ts1). and_loop (6 * length ts + 3) left ts1)"
    by (simp only: and_x_def and_expr.simps(2) [symmetric]) (simp add: add.commute)
  also have "\<dots> = bindE (not_x ts) (\<lambda>(left, ts1). and_l left ts1)"
    by (rule bindE_cong) (auto simp: enough_fuel(5) intro!: enough_fuel(4) dest!: x_shorter)
  finally show ?thesis .
qed

lemma or_l_eq:
  "\<not> is_keyword ''or'' ts \<Longrightarrow> or_l left ts = Inr (left, ts)"
  "or_l left ((Kw, ''or'') # ts) = bindE (and_x ts) (\<lambda>(right, ts1). or_l (combine_or left right) ts1)"
proof -
  show "\<not> is_keyword ''or'' ts \<Longrightarrow> or_l left ts = Inr (left, ts)"
    by (simp add: or_l_def)
  have "or_l left ((Kw, ''or'') # ts) = bindE (and_expr (6 * length ts + 6) ts)
      (\<lambda>(right, ts1). or_loop (6 * length ts + 6) (combine_or left right) ts1)"
    using or_loop.simps(2) [of "6 * length ts + 6" left "(Kw, ''or'') # ts"]
    by (simp add: or_l_def kw_simps)
  also have "\<dots> = bindE (and_x ts) (\<lambda>(right, ts1). or_l (combine_or left right) ts1)"
    by (rule bindE_cong) (auto simp: enough_fuel(3) intro!: enough_fuel(2) dest!: x_shorter)
  finally show "or_l left ((Kw, ''or'') # ts) = bindE (and_x ts)
      (\<lambda>(right, ts1). or_l (combine_or left right) ts1)" .
qed

lemma and_l_eq:
  "\<not> is_keyword ''and'' ts \<Longrightarrow> and_l left ts = Inr (left, ts)"
  "and_l left ((Kw, ''and'') # ts) = bindE (not_x ts) (\<lambda>(right, ts1). and_l (combine_and left right) ts1)"
proof -
  show "\<not> is_keyword ''and'' ts \<Longrightarrow> and_l left ts = Inr (left, ts)"
    by (simp add: and_l_def)
  have "and_l left ((Kw, ''and'') # ts) = bindE (not_expr (6 * length ts + 6) ts)
      (\<lambda>(right, ts1). and_loop (6 * length ts + 6) (combine_and left right) ts1)"
    using and_loop.simps(2) [of "6 * length ts + 6" left "(Kw, ''and'') # ts"]
    by (simp add: and_l_def kw_simps)
  also have "\<dots> = bindE (not_x ts) (\<lambda>(right, ts1). and_l (combine_and left right) ts1)"
    by (rule bindE_cong) (auto simp: enough_fuel(5) intro!: enough_fuel(4) dest!: x_shorter)
  finally show "and_l left ((Kw, ''and'') # ts) = bindE (not_x ts)
      (\<lambda>(right, ts1). and_l (combine_and left right) ts1)" .
qed

lemma not_x_eq:
  "not_x ((Kw, ''not'') # ts) = bindE (not_x ts) (\<lambda>(inner, ts1). Inr (combine_not inner, ts1))"
  "not_x ((Lparen, t) # ts) =
     bindE (or_x ts) (\<lambda>(inner, ts1). bindE (eat Rparen ts1) (\<lambda>(_, ts2). Inr (inner, ts2)))"
  "not_x ((Ident, t) # ts) = comparison_or_in ((Ident, t) # ts)"
proof -
  note f = not_expr.simps(2) [of "8 + 6 * length ts"] primary.simps(2) [of "7 + 6 * length ts"]
  show "not_x ((Kw, ''not'') # ts) = bindE (not_x ts) (\<lambda>(inner, ts1). Inr (combine_not inner, ts1))"
    using f(1) [of "(Kw, ''not'') # ts"] 
    by (simp add: not_x_def [of "(Kw, ''not'') # ts"] enough_fuel(5) [of ts])
  show "not_x ((Lparen, t) # ts) =
     bindE (or_x ts) (\<lambda>(inner, ts1). bindE (eat Rparen ts1) (\<lambda>(_, ts2). Inr (inner, ts2)))"
    using f(1) [of "(Lparen, t) # ts"] f(2) [of "(Lparen, t) # ts"]
    by (simp add: not_x_def enough_fuel(1))
  show "not_x ((Ident, t) # ts) = comparison_or_in ((Ident, t) # ts)"
    using f(1) [of "(Ident, t) # ts"] f(2) [of "(Ident, t) # ts"] by (simp add: not_x_def)
qed

lemma parse_eq: "parse ts = bindE (or_x ts) (\<lambda>(f, rest).
     if rest = [] then Inr f else Inl (SequenceParseError ''unexpected trailing token''))"
  by (simp add: parse_def parse_fuel_def enough_fuel(1))


section \<open>The grammar, its meaning and its token strings\<close>

datatype wexpr =
    WOr wexpr wexpr
  | WAnd wexpr wexpr
  | WNot wexpr
  | WCmp string string token
  | WIn string bool "token list"

definition lit_of :: "token \<Rightarrow> lit" where
  "lit_of t = (case literal_value (fst t) (snd t) of Inr l \<Rightarrow> l | Inl _ \<Rightarrow> LInt 0)"

fun sem :: "wexpr \<Rightarrow> pred_fn" where
  "sem (WOr a b) = (\<lambda>v. sem a v \<or> sem b v)"
| "sem (WAnd a b) = (\<lambda>v. sem a v \<and> sem b v)"
| "sem (WNot a) = (\<lambda>v. \<not> sem a v)"
| "sem (WCmp f op t) = (\<lambda>v. let x = field_getter f v; l = lit_of t in
     if op = ''=='' then py_eq_lit x l else if op = ''!='' then \<not> py_eq_lit x l
     else if op = ''>'' then py_gt x l else if op = ''>='' then py_ge x l
     else if op = ''<'' then py_lt x l else if op = ''<='' then py_le x l
     else if op = ''~'' then ilike l x else \<not> ilike l x)"
| "sem (WIn f neg ts) = (\<lambda>v. (\<exists>t \<in> set ts. py_eq_lit (field_getter f v) (lit_of t)) \<noteq> neg)"

definition wf_lit :: "token \<Rightarrow> bool" where
  "wf_lit t \<longleftrightarrow> (fst t = Str \<or> fst t = Num) \<and> (\<exists>l. literal_value (fst t) (snd t) = Inr l)"

fun wf_expr :: "wexpr \<Rightarrow> bool" where
  "wf_expr (WOr a b) = (wf_expr a \<and> wf_expr b)"
| "wf_expr (WAnd a b) = (wf_expr a \<and> wf_expr b)"
| "wf_expr (WNot a) = wf_expr a"
| "wf_expr (WCmp f op t) = (op \<in> set ops \<and> wf_lit t)"
| "wf_expr (WIn f neg ts) = (ts \<noteq> [] \<and> (\<forall>t \<in> set ts. wf_lit t))"

fun commas :: "token list \<Rightarrow> token list" where
  "commas [] = []"
| "commas [t] = [t]"
| "commas (t # ts) = t # (Comma, '','') # commas ts"

definition paren :: "bool \<Rightarrow> token list \<Rightarrow> token list" where
  "paren b ts = (if b then (Lparen, ''('') # ts @ [(Rparen, '')'')] else ts)"

text \<open>Level 0 is an \<open>or_expr\<close>, 1 an \<open>and_expr\<close>, 2 a \<open>not_expr\<close>.\<close>

fun toks :: "nat \<Rightarrow> wexpr \<Rightarrow> token list" where
  "toks p (WOr a b) = paren (p > 0) (toks 0 a @ (Kw, ''or'') # toks 1 b)"
| "toks p (WAnd a b) = paren (p > 1) (toks 1 a @ (Kw, ''and'') # toks 2 b)"
| "toks p (WNot a) = (Kw, ''not'') # toks 2 a"
| "toks p (WCmp f op t) = [(Ident, f), (Op, op), t]"
| "toks p (WIn f neg ts) = (Ident, f) # (if neg then [(Kw, ''not'')] else []) @
     (Kw, ''in'') # (Lparen, ''('') # commas ts @ [(Rparen, '')'')]"

lemma wf_lit_value: "wf_lit t \<Longrightarrow> literal_value (fst t) (snd t) = Inr (lit_of t)"
  by (auto simp: wf_lit_def lit_of_def)

lemma in_values_commas:
  "ts \<noteq> [] \<Longrightarrow> \<forall>t \<in> set ts. wf_lit t \<Longrightarrow>
   in_values (commas ts @ (Rparen, p) # rest) = Inr (map lit_of ts, rest)"
proof (induction ts rule: commas.induct)
  case (2 t)
  then show ?case by (cases t) (auto simp: in_values.simps(2) wf_lit_def lit_of_def)
next
  case (3 t t' ts)
  then show ?case by (cases t) (auto simp: in_values.simps(2) wf_lit_def lit_of_def)
qed simp

lemma atom_parses:
  "wf_expr (WCmp f op t) \<Longrightarrow> not_x (toks p (WCmp f op t) @ rest) = Inr (sem (WCmp f op t), rest)"
  "wf_expr (WIn f neg ts) \<Longrightarrow> not_x (toks p (WIn f neg ts) @ rest) = Inr (sem (WIn f neg ts), rest)"
proof -
  assume wf: "wf_expr (WCmp f op t)"
  then have "comparison_or_in ((Ident, f) # (Op, op) # t # rest) = 
    bindE (build_comparison f op (lit_of t)) (\<lambda>g. Inr (g, rest))"
    using wf_lit_value [of t]
    by (cases t) (auto simp: comparison_or_in_def after_ident_def plain_comparison_def eat_def peek_def wf_lit_def)
  also have "\<dots> = Inr (sem (WCmp f op t), rest)"
    using wf by (auto simp: build_comparison_def ops_def Let_def)
  finally show "not_x (toks p (WCmp f op t) @ rest) = Inr (sem (WCmp f op t), rest)"
    by (simp add: not_x_eq)
next
  assume wf: "wf_expr (WIn f neg ts)"
  have "in_check f neg (map lit_of ts) = sem (WIn f neg ts)"
    by (auto simp: in_check_def list_ex_iff fun_eq_iff Let_def)
  with wf show "not_x (toks p (WIn f neg ts) @ rest) = Inr (sem (WIn f neg ts), rest)"
    by (cases neg) (simp_all add: not_x_eq comparison_or_in_def after_ident_def in_tail_def eat_def in_values_commas)
qed

text \<open>What each parser method returns on the token string of its level.\<close>

definition parses :: "wexpr \<Rightarrow> bool" where
  "parses e \<longleftrightarrow> (\<forall>rest. not_x (toks 2 e @ rest) = Inr (sem e, rest)) \<and>
     (\<forall>rest. and_x (toks 1 e @ rest) = and_l (sem e) rest) \<and>
     (\<forall>rest. \<not> is_keyword ''and'' rest \<longrightarrow> or_x (toks 0 e @ rest) = or_l (sem e) rest)"

lemma atomic_parses:
  assumes "\<And>p rest. not_x (toks p e @ rest) = Inr (sem e, rest)"
  shows "parses e"
  unfolding parses_def by (simp add: or_x_eq and_x_eq and_l_eq assms)

lemma paren_parses:
  assumes "\<And>rest. \<not> is_keyword ''and'' rest \<Longrightarrow> or_x (ts @ rest) = or_l f rest"
  shows "not_x (paren True ts @ rest) = Inr (f, rest)"
  using assms [of "(Rparen, '')'') # rest"] by (simp add: paren_def not_x_eq or_l_eq eat_def)

lemma expr_parses: "wf_expr e \<Longrightarrow> parses e"
proof (induction e)
  case (WOr a b)
  then have a: "parses a" and b: "parses b" by simp_all
  have or0: "or_x (toks 0 (WOr a b) @ r) = or_l (sem (WOr a b)) r" if "\<not> is_keyword ''and'' r" for r
    using a b that by (simp add: parses_def paren_def or_l_eq and_l_eq combine_or_def)
  have not_p: "not_x (toks p (WOr a b) @ r) = Inr (sem (WOr a b), r)" if "p > 0" for r p
    using paren_parses [of "toks 0 (WOr a b)", OF or0] that by (simp add: paren_def)
  show ?case
    using or0 not_p [of 2] not_p [of 1] by (simp add: parses_def and_x_eq)
next
  case (WAnd a b)
  then have a: "parses a" and b: "parses b" by simp_all
  have and1: "and_x (toks p (WAnd a b) @ r) = and_l (sem (WAnd a b)) r" if "p \<le> 1" for r p
    using a b that by (simp add: parses_def paren_def and_l_eq combine_and_def)
  have or0: "or_x (toks 0 (WAnd a b) @ r) = or_l (sem (WAnd a b)) r" if "\<not> is_keyword ''and'' r" for r
    using and1 [of 0 r] that by (simp add: or_x_eq and_l_eq)
  have "not_x (toks 2 (WAnd a b) @ r) = Inr (sem (WAnd a b), r)" for r
    using paren_parses [of "toks 0 (WAnd a b)", OF or0] by (simp add: paren_def)
  with or0 and1 [of 1] show ?case by (simp add: parses_def)
next
  case (WNot a)
  then have "parses a" by simp
  then show ?case by (intro atomic_parses) (simp add: parses_def not_x_eq combine_not_def)
next
  case (WCmp f op t)
  then show ?case by (intro atomic_parses atom_parses)
next
  case (WIn f neg ts)
  then show ?case by (intro atomic_parses atom_parses)
qed

lemma parse_print: "wf_expr e \<Longrightarrow> parse (toks 0 e) = Inr (sem e)"
proof -
  assume "wf_expr e"
  then have "or_x (toks 0 e @ []) = or_l (sem e) []"
    using expr_parses unfolding parses_def by (metis kw_simps(1))
  then show ?thesis by (simp add: parse_eq or_l_eq)
qed


section \<open>From text to tokens\<close>

fun wf_tok :: "token \<Rightarrow> bool" where
  "wf_tok (Lparen, t) = (t = ''('')"
| "wf_tok (Rparen, t) = (t = '')'')"
| "wf_tok (Comma, t) = (t = '','')"
| "wf_tok (Op, t) = (t \<in> set ops)"
| "wf_tok (Kw, t) = (t \<in> set keywords_list)"
| "wf_tok (Str, t) = (\<exists>q body. t = q # body \<and> (q = dquote \<or> q = squote) \<and> str_body q body = Some (body, []))"
| "wf_tok (Num, t) = (\<exists>sg w f. t = sg @ w @ (if f = [] then [] else CHR ''.'' # f) \<and>
     (sg = [] \<or> sg = ''-'') \<and> w \<noteq> [] \<and> list_all is_digit w \<and> list_all is_digit f)"
| "wf_tok (Ident, t) = (\<exists>c cs. t = c # cs \<and> ident_start c \<and> list_all ident_char cs \<and>
     (\<forall>k \<in> set keywords_list. \<not> (lower (take (length k) t) = k \<and>
        (case drop (length k) t of [] \<Rightarrow> True | d # _ \<Rightarrow> \<not> is_word d))))"

definition sep :: "string \<Rightarrow> bool" where
  "sep r \<longleftrightarrow> r = [] \<or> (\<exists>r'. r = CHR '' '' # r')"

lemma str_body_append: "str_body q s = Some (t, r) \<Longrightarrow> str_body q (s @ u) = Some (t, r @ u)"
proof (induction q s arbitrary: t r rule: str_body.induct)
  case (2 q c cs)
  then show ?case by (cases cs) (auto split: if_splits)
qed simp

lemma digit_facts:
  assumes "is_digit c"
  shows "\<not> is_space c" "c \<noteq> CHR ''.''" "c \<noteq> CHR ''-''" "c \<noteq> CHR '' ''" "c \<noteq> CHR ''(''" "c \<noteq> CHR '')''" "c \<noteq> CHR '',''"
    "c \<noteq> dquote" "c \<noteq> squote" "c \<noteq> CHR ''=''" "c \<noteq> CHR ''!''" "c \<noteq> CHR ''<''" "c \<noteq> CHR ''>''" "c \<noteq> CHR ''~''"
    "lower_char c = c" "c \<noteq> CHR ''a''" "c \<noteq> CHR ''o''" "c \<noteq> CHR ''n''" "c \<noteq> CHR ''i''"
  using assms by (auto simp: is_digit_def is_space_def code_def dquote_def squote_def lower_char_def Let_def)

lemma ident_start_facts:
  assumes "ident_start c"
  shows "\<not> is_space c" "c \<noteq> CHR ''.''" "c \<noteq> CHR ''-''" "c \<noteq> CHR '' ''" "c \<noteq> CHR ''(''" "c \<noteq> CHR '')''" "c \<noteq> CHR '',''"
    "c \<noteq> dquote" "c \<noteq> squote" "c \<noteq> CHR ''=''" "c \<noteq> CHR ''!''" "c \<noteq> CHR ''<''" "c \<noteq> CHR ''>''" "c \<noteq> CHR ''~''"
    "\<not> is_digit c"
  using assms by (auto simp: ident_start_def is_ascii_alpha_def is_digit_def is_space_def code_def dquote_def squote_def Let_def)

lemma space_facts [simp]:
  "\<not> is_digit CHR '' ''" "\<not> is_word CHR '' ''" "\<not> ident_char CHR '' ''" "is_space CHR '' ''" "lower_char CHR '' '' = CHR '' ''"
  by (simp_all add: is_digit_def is_word_def ident_char_def ident_start_def is_ascii_alpha_def is_space_def code_def lower_char_def)

lemma sep_takeWhile:
  assumes "sep r" "\<not> P CHR '' ''" "list_all P w"
  shows "takeWhile P (w @ r) = w" "dropWhile P (w @ r) = r"
  using assms by (auto simp: sep_def list_all_iff)


definition prev_ok :: "char option \<Rightarrow> bool" where
  "prev_ok p \<longleftrightarrow> p = None \<or> p = Some CHR '' ''"

lemma match_op_None:
  "c \<noteq> CHR ''='' \<Longrightarrow> c \<noteq> CHR ''!'' \<Longrightarrow> c \<noteq> CHR ''<'' \<Longrightarrow> c \<noteq> CHR ''>'' \<Longrightarrow> c \<noteq> CHR ''~'' \<Longrightarrow> match_op (c # s) = None"
  by (simp add: match_op_def ops_def)

lemma match_kw_None:
  "lower_char c \<notin> {CHR ''a'', CHR ''o'', CHR ''n'', CHR ''i''} \<Longrightarrow> match_kw p (c # s) = None"
  by (auto simp: match_kw_def keywords_list_def lower_def find_None_iff split: option.split)

lemma sep_simps: "sep r \<Longrightarrow> \<not> prefix (CHR ''='' # x) r" "sep r \<Longrightarrow> (case r of [] \<Rightarrow> True | c # _ \<Rightarrow> \<not> is_word c)"
  by (auto simp: sep_def)

lemma match_op_text: "t \<in> set ops \<Longrightarrow> sep r \<Longrightarrow> match_token p (t @ r) = Some ((Op, t), r)"
  by (auto simp: match_token_def or_else_def tag_def match_char_def match_op_def ops_def sep_def)

lemma match_kw_text: "t \<in> set keywords_list \<Longrightarrow> prev_ok p \<Longrightarrow> sep r \<Longrightarrow> match_token p (t @ r) = Some ((Kw, t), r)"
  by (auto simp: match_token_def or_else_def tag_def match_char_def match_op_None match_kw_def keywords_list_def
     sep_def prev_ok_def lower_def lower_char_def code_def)

lemma match_str_text:
  assumes "wf_tok (Str, t)"
  shows "match_token p (t @ r) = Some ((Str, t), r)"
proof -
  from assms obtain q body where t: "t = q # body" and q: "q = dquote \<or> q = squote"
    and b: "str_body q body = Some (body, [])" by auto
  have "match_op (q # s) = None" "match_kw p (q # s) = None" "match_char CHR ''('' (q # s) = None"
    "match_char CHR '')'' (q # s) = None" "match_char CHR '','' (q # s) = None" for s
    using q by (auto simp: match_op_def ops_def match_char_def dquote_def squote_def lower_char_def code_def
        intro!: match_kw_None)
  then show ?thesis
    using q str_body_append [OF b, of r] by (simp add: t match_token_def or_else_def tag_def match_str_def)
qed

lemma match_num_text:
  assumes "wf_tok (Num, t)" "sep r"
  shows "match_token p (t @ r) = Some ((Num, t), r)"
proof -
  from assms obtain sg w f where t: "t = sg @ w @ (if f = [] then [] else CHR ''.'' # f)"
    and sg: "sg = [] \<or> sg = ''-''" and w: "w \<noteq> []" "list_all is_digit w" and f: "list_all is_digit f"
    by auto
  obtain d ds where wd: "w = d # ds" "is_digit d" using w by (cases w) auto
  have fr: "frac_part ((if f = [] then [] else CHR ''.'' # f) @ r) = (f, r)"
    using assms(2) f by (auto simp: frac_part_def sep_takeWhile sep_def)
  have dig: "\<not> is_digit CHR ''.''" by (simp add: is_digit_def code_def)
  have tw: "takeWhile is_digit (w @ (if f = [] then [] else CHR ''.'' # f) @ r) = w"
      "dropWhile is_digit (w @ (if f = [] then [] else CHR ''.'' # f) @ r) = (if f = [] then [] else CHR ''.'' # f) @ r"
    using w(2) assms(2) by (auto simp: sep_def list_all_iff dig)
  have "match_num (t @ r) = Some (t, r)"
    using sg wd tw fr digit_facts(3) [OF wd(2)] w(1) by (auto simp: match_num_def t Let_def)
  moreover have "match_op (t @ r) = None" "match_kw p (t @ r) = None" "match_str (t @ r) = None"
    "match_char CHR ''('' (t @ r) = None" "match_char CHR '')'' (t @ r) = None" "match_char CHR '','' (t @ r) = None"
    using sg digit_facts [OF wd(2)] 
    by (auto simp: t wd match_op_None match_char_def match_str_def dquote_def squote_def lower_char_def code_def
        intro!: match_kw_None)
  ultimately show ?thesis by (simp add: match_token_def or_else_def tag_def)
qed

lemma match_ident_text:
  assumes "wf_tok (Ident, t)" "sep r" "prev_ok p"
  shows "match_token p (t @ r) = Some ((Ident, t), r)"
proof -
  from assms obtain c cs where t: "t = c # cs" and c: "ident_start c" and cs: "list_all ident_char cs"
    and nk: "\<And>k. k \<in> set keywords_list \<Longrightarrow> lower (take (length k) t) = k \<Longrightarrow>
        \<not> (case drop (length k) t of [] \<Rightarrow> True | d # _ \<Rightarrow> \<not> is_word d)"
    by auto
  have "\<not> (lower (take (length k) (t @ r)) = k \<and>
        (case drop (length k) (t @ r) of [] \<Rightarrow> True | d # _ \<Rightarrow> \<not> is_word d))" if k: "k \<in> set keywords_list" for k
  proof (cases "length k \<le> length t")
    case True
    then show ?thesis using nk [OF k] assms(2) by (auto simp: sep_def split: list.splits)
  next
    case False
    then have "CHR '' '' \<in> set (lower (take (length k) (t @ r))) \<or> length (take (length k) (t @ r)) < length k"
      using assms(2) by (auto simp: sep_def lower_def take_Cons' image_iff)
    moreover have "CHR '' '' \<notin> set k" using k by (auto simp: keywords_list_def)
    ultimately show ?thesis by (metis length_map lower_def nat_less_le)
  qed
  then have "find (\<lambda>k. lower (take (length k) (t @ r)) = k \<and>
      (case drop (length k) (t @ r) of [] \<Rightarrow> True | d # _ \<Rightarrow> \<not> is_word d)) keywords_list = None"
    unfolding find_None_iff by blast
  then have "match_kw p (t @ r) = None"
    by (simp only: match_kw_def option.case if_cancel)
  moreover have "match_ident (t @ r) = Some (t, r)"
    using c cs assms(2) by (simp add: match_ident_def t sep_takeWhile)
  moreover have "match_op (t @ r) = None" "match_str (t @ r) = None" "match_num (t @ r) = None"
    "match_char CHR ''('' (t @ r) = None" "match_char CHR '')'' (t @ r) = None" "match_char CHR '','' (t @ r) = None"
    using ident_start_facts [OF c]
    by (auto simp: t match_op_None match_char_def match_str_def match_num_def)
  ultimately show ?thesis by (simp add: match_token_def or_else_def tag_def)
qed

lemma match_token_text:
  assumes "wf_tok (k, t)" "sep r" "prev_ok p"
  shows "match_token p (t @ r) = Some ((k, t), r)"
proof (cases k)
  case Op
  with assms show ?thesis by (simp add: match_op_text)
next
  case Kw
  with assms show ?thesis by (simp add: match_kw_text)
next
  case Str
  with assms show ?thesis by (simp only: match_str_text)
next
  case Num
  with assms show ?thesis by (simp only: match_num_text)
next
  case Ident
  with assms show ?thesis by (simp only: match_ident_text)
qed (use assms in \<open>simp_all add: match_token_def or_else_def tag_def match_char_def\<close>)

lemma wf_tok_head: "wf_tok (k, t) \<Longrightarrow> t \<noteq> [] \<and> \<not> is_space (hd t)"
proof (cases k)
  case Ident
  assume "wf_tok (k, t)"
  with Ident obtain c cs where "t = c # cs" "ident_start c" by auto
  then show ?thesis using ident_start_facts(1) by simp
next
  case Num
  assume "wf_tok (k, t)"
  with Num obtain sg w f where t: "t = sg @ w @ f" "sg = [] \<or> sg = ''-''" "w \<noteq> []" "list_all is_digit w" by auto
  then show ?thesis
    using digit_facts(1) by (cases w) (auto simp: is_space_def code_def)
next
  case Str
  assume "wf_tok (k, t)"
  with Str obtain q b where "t = q # b" "q = dquote \<or> q = squote" by auto
  then show ?thesis by (auto simp: is_space_def code_def dquote_def squote_def)
qed (fastforce simp: ops_def keywords_list_def is_space_def code_def)+

definition spell :: "token list \<Rightarrow> string" where
  "spell ts = join '' '' (map snd ts)"

lemma tokenize_spell: "list_all wf_tok ts \<Longrightarrow> tokenize (spell ts) = Inr ts"
proof -
  have "prev_ok p \<Longrightarrow> list_all wf_tok ts \<Longrightarrow> tokenize_from p (join '' '' (map snd ts)) = Inr ts" for p
  proof (induction ts arbitrary: p)
    case Nil
    then show ?case by (simp add: tokenize_from.simps)
  next
    case (Cons tk ts)
    obtain k t where tk: "tk = (k, t)" by (cases tk)
    define r where "r = (if ts = [] then [] else CHR '' '' # join '' '' (map snd ts))"
    have j: "join '' '' (map snd (tk # ts)) = t @ r"
      by (cases ts) (simp_all add: tk r_def)
    have "sep r" by (simp add: sep_def r_def)
    with Cons.prems tk have m: "match_token p (t @ r) = Some ((k, t), r)"
      by (intro match_token_text) simp_all
    obtain c cs where t: "t = c # cs" "\<not> is_space c"
      using wf_tok_head [of k t] Cons.prems tk by (cases t) auto
    have "tokenize_from (Some (last t)) r = Inr ts"
    proof (cases ts)
      case Nil
      then show ?thesis by (simp add: r_def tokenize_from.simps)
    next
      case (Cons a list)
      then have "tokenize_from (Some (last t)) r = tokenize_from (Some CHR '' '') (join '' '' (map snd ts))"
        by (simp add: r_def tokenize_from.simps [of _ "CHR '' '' # _"])
      with Cons.IH Cons.prems show ?thesis by (simp add: prev_ok_def)
    qed
    with m t show ?case
      unfolding j by (simp add: tokenize_from.simps [of p] tk)
  qed
  from this [of None] show "list_all wf_tok ts \<Longrightarrow> tokenize (spell ts) = Inr ts"
    by (simp add: tokenize_def spell_def prev_ok_def)
qed


section \<open>Literals outside ASCII\<close>

lemma unicode_escape_plain: "bslash \<notin> set s \<Longrightarrow> unicode_escape s = Inr s"
  by (induction s) (auto simp: unicode_escape.simps(2))

lemma utf8_char_bslash: "c \<noteq> bslash \<Longrightarrow> bslash \<notin> set (utf8_char c)"
proof -
  have nb: "bslash \<noteq> char_of n" if "128 \<le> n" "n < 256" for n :: nat
  proof
    assume "bslash = char_of n"
    then have "code (char_of n) = code bslash" by simp
    with that show False by (simp add: code_char_of) (simp add: bslash_def code_def)
  qed
  have "code c < 256" by (simp add: code_def)
  then have "192 + code c div 64 < 256" "128 + code c mod 64 < 256" by auto
  then show "c \<noteq> bslash \<Longrightarrow> bslash \<notin> set (utf8_char c)"
    using nb [of "192 + code c div 64"] nb [of "128 + code c mod 64"]
    by (auto simp: utf8_char_def Let_def)
qed

lemma utf8_encode_bslash: "bslash \<notin> set s \<Longrightarrow> bslash \<notin> set (utf8_encode s)"
proof (induction s)
  case (Cons c s)
  then show ?case using utf8_char_bslash [of c] by (auto simp: utf8_encode_def)
qed (simp add: utf8_encode_def)

lemma utf8_encode_length: "length s \<le> length (utf8_encode s)"
  by (induction s) (auto simp: utf8_encode_def utf8_char_def Let_def)

lemma utf8_encode_longer: "\<exists>c \<in> set s. 128 \<le> code c \<Longrightarrow> length s < length (utf8_encode s)"
proof (induction s)
  case (Cons c s)
  have "length s \<le> length (utf8_encode s)" by (rule utf8_encode_length)
  with Cons show ?case by (cases "128 \<le> code c") (auto simp: utf8_encode_def utf8_char_def Let_def)
qed simp

section \<open>Properties\<close>




text \<open>
  A double-quoted literal without backslashes decodes to the UTF-8 bytes of its text read as
  Latin-1; for a text with a character outside ASCII this is never the text that was written, so
  \<open>field == "..."\<close> cannot match a field holding it.
\<close>

theorem non_ascii_literal_garbled:
  assumes "bslash \<notin> set s" and "\<exists>c \<in> set s. 128 \<le> code c"
  shows "literal_value Str (dquote # s @ [dquote]) = Inr (LStr (utf8_encode s)) \<and> utf8_encode s \<noteq> s \<and>
    (\<forall>v f. map_of v f = Some (PStr s) \<longrightarrow>
       (\<exists>p. build_comparison f ''=='' (LStr (utf8_encode s)) = Inr p \<and> \<not> p v))"
proof -
  have "utf8_encode s \<noteq> s" using utf8_encode_longer [OF assms(2)] by auto
  then show ?thesis
    using unicode_escape_plain [OF utf8_encode_bslash [OF assms(1)]]
    by (auto simp: literal_value_def build_comparison_def field_getter_def)
qed

lemma non_ascii_literal_garbled_witness:
  "literal_value Str [dquote, CHR 0xE9, dquote] = Inr (LStr [CHR 0xC3, CHR 0xA9])"
proof -
  have u: "utf8_encode [CHR 0xE9] = [CHR 0xC3, CHR 0xA9]"
    by code_simp
  show ?thesis
    using non_ascii_literal_garbled [of "[CHR 0xE9]"] unfolding u by (simp add: bslash_def code_def)
qed

end
