(* ===== verification/Sequence_Eval.thy ===== *)
theory Sequence_Eval
  imports Sequence_Lang
begin

text \<open>
  Sequence rules, second half of backend/app/services/sequence.py: the rule body parser
  \<open>parse_yaml\<close>, the flattening and classification of ECS events, and the stateful
  \<open>SequenceEvaluator\<close>. The YAML reader is a third-party package and a parameter
  (\<open>yaml_load\<close>, \<open>None\<close> for a \<open>YAMLError\<close>); environment variables and the clock are arguments.
\<close>

section \<open>Parsed rules\<close>

record TriggerSpec =
  trg_event_kind :: string
  trg_where :: Predicate

record FollowedBySpec =
  leg_event_kind :: string
  leg_where :: Predicate
  within_s :: rat

record EmitSpec =
  emit_severity :: pyval
  emit_message :: string

record ParsedSequence =
  trigger :: TriggerSpec
  legs :: "FollowedBySpec list"
  emit :: EmitSpec
  window_s :: int

definition KNOWN_EVENT_KINDS :: "string list" where
  "KNOWN_EVENT_KINDS = [''process_started'', ''file_created'', ''file_modified'', ''file_deleted'',
     ''network_connection'', ''image_loaded'', ''registry_set'', ''any'']"

text \<open>\<open>kind not in _KNOWN_EVENT_KINDS\<close>: lists and dicts are unhashable.\<close>

fun known_kind :: "pyval \<Rightarrow> bool result" where
  "known_kind (PStr s) = Inr (s \<in> set KNOWN_EVENT_KINDS)"
| "known_kind (PList _) = Inl TypeError"
| "known_kind (PDict _) = Inl TypeError"
| "known_kind _ = Inr False"

definition trunc :: "rat \<Rightarrow> int" where
  "trunc q = (if q < 0 then \<lceil>q\<rceil> else \<lfloor>q\<rfloor>)"

fun py_int :: "pyval \<Rightarrow> int result" where
  "py_int (PBool b) = Inr (if b then 1 else 0)"
| "py_int (PInt i) = Inr i"
| "py_int (PFloat q) = Inr (trunc q)"
| "py_int (PStr s) = int_of_str s"
| "py_int _ = Inl TypeError"

definition default_window_s :: "string option \<Rightarrow> int result" where
  "default_window_s env = (case env of
       None \<Rightarrow> Inr 60
     | Some raw \<Rightarrow> (if raw \<noteq> [] \<and> str_isdigit raw then int_of_str raw else Inr 60))"

definition parse_kind :: "string \<Rightarrow> pydict \<Rightarrow> string result" where
  "parse_kind what d = (let kind = dget_default d ''event_kind'' (PStr ''any'') in
     bindE (known_kind kind) (\<lambda>ok.
       if ok then Inr (py_str kind) else Inl (SequenceParseError (what @ '' event_kind''))))"

definition parse_leg :: "rat \<Rightarrow> pyval \<Rightarrow> FollowedBySpec result" where
  "parse_leg fallback leg = (case leg of
       PDict d \<Rightarrow>
         bindE (parse_kind ''followed_by'' d) (\<lambda>kind.
         bindE (if dget d ''within'' \<noteq> PNone then parse_duration (dget d ''within'') else Inr fallback) (\<lambda>w.
         bindE (compile_predicate (dget d ''where'')) (\<lambda>p.
           Inr \<lparr>leg_event_kind = kind, leg_where = p, within_s = w\<rparr>)))
     | _ \<Rightarrow> Inl (SequenceParseError ''followed_by[i] must be a mapping''))"

definition legs_list :: "pyval \<Rightarrow> pyval list result" where
  "legs_list legs_raw = (case legs_raw of
       PNone \<Rightarrow> Inl (SequenceParseError ''followed_by: is required'')
     | PDict d \<Rightarrow> Inr [PDict d]
     | PList xs \<Rightarrow> (if xs = [] then Inl (SequenceParseError ''followed_by: cannot be empty'') else Inr xs)
     | _ \<Rightarrow> Inl (SequenceParseError ''followed_by: must be a mapping or a list of mappings''))"

definition parse_emit :: "pydict \<Rightarrow> EmitSpec result" where
  "parse_emit doc = (case sub_dict doc ''then'' of
       PDict th \<Rightarrow> (case sub_dict th ''emit_alert'' of
           PDict em \<Rightarrow> Inr \<lparr>emit_severity = dget em ''severity'',
                            emit_message = py_str (py_or (dget em ''message'') (PStr ''sequence rule matched''))\<rparr>
         | _ \<Rightarrow> Inl (SequenceParseError ''then.emit_alert: must be a mapping''))
     | _ \<Rightarrow> Inl (SequenceParseError ''then: must be a mapping''))"

definition parse_doc :: "string option \<Rightarrow> pydict \<Rightarrow> int option \<Rightarrow> ParsedSequence result" where
  "parse_doc env doc default_window = (case dget doc ''trigger'' of
       PDict tr \<Rightarrow>
         bindE (parse_kind ''trigger'' tr) (\<lambda>tkind.
         bindE (compile_predicate (dget tr ''where'')) (\<lambda>tpred.
         bindE (legs_list (dget doc ''followed_by'')) (\<lambda>raws.
         bindE (case default_window of Some w \<Rightarrow> Inr w | None \<Rightarrow> default_window_s env) (\<lambda>fb.
         bindE (mapE (parse_leg (of_int fb)) raws) (\<lambda>ls.
         bindE (parse_emit doc) (\<lambda>em.
         bindE (case dget doc ''window_s'' of
                  PNone \<Rightarrow> (case default_window of
                      Some w \<Rightarrow> Inr w
                    | None \<Rightarrow> Inr (trunc (Max (set (map within_s ls)))))
                | outer \<Rightarrow> py_int outer) (\<lambda>w.
           Inr \<lparr>trigger = \<lparr>trg_event_kind = tkind, trg_where = tpred\<rparr>, legs = ls, emit = em, window_s = w\<rparr>)))))))
     | _ \<Rightarrow> Inl (SequenceParseError ''trigger: is required and must be a mapping''))"

definition parse_yaml ::
  "(string \<Rightarrow> pyval option) \<Rightarrow> string option \<Rightarrow> string \<Rightarrow> int option \<Rightarrow> ParsedSequence result" where
  "parse_yaml yaml_load env body default_window =
     (if strip body = [] then Inl (SequenceParseError ''empty rule body'')
      else (case yaml_load body of
          None \<Rightarrow> Inl (SequenceParseError ''yaml parse error'')
        | Some (PDict doc) \<Rightarrow> parse_doc env doc default_window
        | Some _ \<Rightarrow> Inl (SequenceParseError ''top-level must be a mapping'')))"

section \<open>ECS events\<close>

text \<open>\<open>(v or "").lower()\<close>\<close>

definition lower_or_empty :: "pyval \<Rightarrow> string result" where
  "lower_or_empty v = (case py_or v (PStr []) of PStr s \<Rightarrow> Inr (lower s) | _ \<Rightarrow> Inl AttributeError)"

text \<open>\<open>{str(c).lower() for c in categories}\<close> after wrapping a single string in a list.\<close>

definition category_set :: "pyval \<Rightarrow> string list result" where
  "category_set v = (case py_or v (PList []) of
       PStr s \<Rightarrow> Inr [lower s]
     | PList xs \<Rightarrow> Inr (map (\<lambda>c. lower (py_str c)) xs)
     | PDict d \<Rightarrow> Inr (map (\<lambda>(k, _). lower k) d)
     | _ \<Rightarrow> Inl TypeError)"

definition classify_file_action :: "string \<Rightarrow> string" where
  "classify_file_action action =
     (if action \<in> {''create'', ''creation'', ''created'', ''file_created''} then ''file_created''
      else if action \<in> {''delete'', ''deletion'', ''deleted'', ''file_deleted''} then ''file_deleted''
      else if action \<in> {''modify'', ''modification'', ''modified'', ''file_modified'', ''write''} then ''file_modified''
      else if action \<in> {''image_load'', ''image_loaded'', ''loaded'', ''load''} then ''image_loaded''
      else ''file_modified'')"

definition classify_event_kind :: "pydict \<Rightarrow> string result" where
  "classify_event_kind ecs =
     bindE (vget (sub_dict ecs ''event'') ''action'') (\<lambda>a.
     bindE (lower_or_empty a) (\<lambda>action.
     bindE (vget (sub_dict ecs ''event'') ''category'') (\<lambda>c.
     bindE (category_set c) (\<lambda>cats. Inr (
       if truthy (dget ecs ''process'') \<and> ''process'' \<in> set cats
          \<and> action \<in> {[], ''start'', ''process_started'', ''started''} then ''process_started''
       else if truthy (dget ecs ''network'') \<or> ''network'' \<in> set cats then ''network_connection''
       else if truthy (dget ecs ''file'') \<and> (''file'' \<in> set cats \<or> cats = []) then classify_file_action action
       else if truthy (dget ecs ''registry'') \<or> ''registry'' \<in> set cats then ''registry_set''
       else ''any'')))))"

text \<open>\<open>str(x).replace("\\", "/").rsplit("/", 1)[-1]\<close>\<close>

definition basename :: "string \<Rightarrow> string" where
  "basename s = after_last CHR ''/'' (map (\<lambda>c. if c = bslash then CHR ''/'' else c) s)"

text \<open>\<open>out[k] = section.get(f)\<close> for a list of (key, field) pairs, in order.\<close>

fun copy_fields :: "pyval \<Rightarrow> (string \<times> string) list \<Rightarrow> pydict \<Rightarrow> pydict result" where
  "copy_fields sec [] out = Inr out"
| "copy_fields sec ((k, f) # kfs) out =
     bindE (vget sec f) (\<lambda>v. copy_fields sec kfs (AList.update k v out))"

definition copy_if_truthy :: "pyval \<Rightarrow> (string \<times> string) list \<Rightarrow> pydict \<Rightarrow> pydict result" where
  "copy_if_truthy sec kfs out = (if truthy sec then copy_fields sec kfs out else Inr out)"

text \<open>\<open>v.get(k) or {}\<close> for a nested section.\<close>

definition vsub :: "pyval \<Rightarrow> string \<Rightarrow> pyval result" where
  "vsub v k = bindE (vget v k) (\<lambda>x. Inr (py_or x (PDict [])))"

definition put_basename :: "string \<Rightarrow> string \<Rightarrow> pydict \<Rightarrow> pydict" where
  "put_basename src dst out =
     (if truthy (dget out src) then AList.update dst (PStr (basename (py_str (dget out src)))) out else out)"

definition flatten_process :: "pyval \<Rightarrow> pydict \<Rightarrow> pydict result" where
  "flatten_process proc out0 =
     (if \<not> truthy proc then Inr out0 else
      bindE (copy_fields proc [(''pid'', ''pid''), (''executable'', ''executable'')] out0) (\<lambda>out1.
      bindE (copy_fields proc [(''command_line'', ''command_line''), (''working_directory'', ''working_directory'')]
               (put_basename ''executable'' ''executable_basename'' out1)) (\<lambda>out2.
      bindE (vsub proc ''parent'') (\<lambda>parent.
      bindE (copy_if_truthy parent [(''parent_pid'', ''pid'')] out2) (\<lambda>out3.
      bindE (vsub proc ''user'') (\<lambda>user.
      bindE (copy_if_truthy user [(''user_name'', ''name'')] out3) (\<lambda>out4.
      bindE (copy_fields proc [(''integrity_level'', ''integrity_level'')] out4) (\<lambda>out5.
      bindE (vsub proc ''hash'') (\<lambda>hashes.
        copy_if_truthy hashes [(''process_sha256'', ''sha256'')] out5)))))))))"

definition flatten_file :: "pyval \<Rightarrow> pydict \<Rightarrow> pydict result" where
  "flatten_file fil out0 =
     (if \<not> truthy fil then Inr out0 else
      bindE (copy_fields fil [(''file_path'', ''path''), (''file_name'', ''name'')] out0) (\<lambda>out1.
      bindE (vsub fil ''hash'') (\<lambda>fhash.
        copy_fields fhash [(''file_sha256'', ''sha256'')] (put_basename ''file_path'' ''file_basename'' out1))))"

definition flatten_event :: "pydict \<Rightarrow> view result" where
  "flatten_event ecs =
     bindE (copy_fields (sub_dict ecs ''event'') [(''event_id'', ''id''), (''event_action'', ''action'')] []) (\<lambda>out0.
     bindE (classify_event_kind ecs) (\<lambda>label.
     bindE (copy_fields (sub_dict ecs ''host'') [(''host_id'', ''id'')]
              (AList.update ''event_kind_label'' (PStr label) out0)) (\<lambda>out1.
     bindE (flatten_process (sub_dict ecs ''process'') out1) (\<lambda>out2.
     bindE (flatten_file (sub_dict ecs ''file'') out2) (\<lambda>out3.
     bindE (copy_if_truthy (sub_dict ecs ''destination'') [(''dst_ip'', ''ip''), (''dst_port'', ''port'')] out3) (\<lambda>out4.
     bindE (copy_if_truthy (sub_dict ecs ''source'') [(''src_ip'', ''ip''), (''src_port'', ''port'')] out4) (\<lambda>out5.
     bindE (copy_if_truthy (sub_dict ecs ''network'')
              [(''transport'', ''transport''), (''direction'', ''direction'')] out5) (\<lambda>out6.
       copy_if_truthy (sub_dict ecs ''registry'')
         [(''registry_path'', ''path''), (''registry_value'', ''value''), (''registry_data'', ''data'')] out6))))))))"

definition event_kind_matches :: "string \<Rightarrow> view \<Rightarrow> bool" where
  "event_kind_matches spec v \<longleftrightarrow> spec = ''any'' \<or> dget v ''event_kind_label'' = PStr spec"

section \<open>The evaluator\<close>

record Partial =
  leg_idx :: int
  deadline_ts :: rat
  matched_event_ids :: "string list"

record SequenceMatch =
  m_rule_id :: string
  m_host_id :: pyval
  m_severity :: pyval
  m_message :: string
  m_event_ids :: "string list"

type_synonym key = "string \<times> pyval"
type_synonym partials_map = "(key \<times> Partial list) list"

record SequenceEvaluator =
  ev_rules :: "(string \<times> ParsedSequence) list"
  ev_partials :: partials_map

definition init_evaluator :: SequenceEvaluator where
  "init_evaluator = \<lparr>ev_rules = [], ev_partials = []\<rparr>"

definition register_rule :: "string \<Rightarrow> ParsedSequence \<Rightarrow> SequenceEvaluator \<Rightarrow> SequenceEvaluator" where
  "register_rule rule_id parsed st = st\<lparr>ev_rules := AList.update rule_id parsed (ev_rules st)\<rparr>"

definition forget_rule :: "string \<Rightarrow> SequenceEvaluator \<Rightarrow> SequenceEvaluator" where
  "forget_rule rule_id st = st\<lparr>ev_rules := AList.delete rule_id (ev_rules st),
     ev_partials := filter (\<lambda>(key, _). fst key \<noteq> rule_id) (ev_partials st)\<rparr>"

text \<open>Python indexing: negative indices count from the end, the rest raises.\<close>

definition py_nth :: "'a list \<Rightarrow> int \<Rightarrow> 'a result" where
  "py_nth xs i =
     (if i < 0
      then if nat (- i) \<le> length xs then Inr (xs ! (length xs - nat (- i))) else Inl IndexError
      else if nat i < length xs then Inr (xs ! nat i) else Inl IndexError)"

definition pget :: "partials_map \<Rightarrow> key \<Rightarrow> Partial list" where
  "pget d k = (case map_of d k of None \<Rightarrow> [] | Some ps \<Rightarrow> ps)"

definition store_survivors :: "key \<Rightarrow> Partial list \<Rightarrow> partials_map \<Rightarrow> partials_map" where
  "store_survivors k survivors d = (if survivors \<noteq> [] then AList.update k survivors d else AList.delete k d)"

definition append_partial :: "key \<Rightarrow> Partial \<Rightarrow> partials_map \<Rightarrow> partials_map" where
  "append_partial k p d = AList.update k (pget d k @ [p]) d"

text \<open>What one event does to one pending partial.\<close>

datatype step = Expired | Emitted SequenceMatch | Kept Partial

definition leg_matches :: "FollowedBySpec \<Rightarrow> view \<Rightarrow> bool" where
  "leg_matches leg v \<longleftrightarrow> event_kind_matches (leg_event_kind leg) v \<and> pred_apply (leg_where leg) v"

definition trigger_matches :: "ParsedSequence \<Rightarrow> view \<Rightarrow> bool" where
  "trigger_matches parsed v \<longleftrightarrow>
     event_kind_matches (trg_event_kind (trigger parsed)) v \<and> pred_apply (trg_where (trigger parsed)) v"

definition advance ::
  "string \<Rightarrow> pyval \<Rightarrow> ParsedSequence \<Rightarrow> view \<Rightarrow> string \<Rightarrow> rat \<Rightarrow> Partial \<Rightarrow> step result" where
  "advance rule_id host parsed v event_id now p =
     (if deadline_ts p < now then Inr Expired
      else bindE (py_nth (legs parsed) (leg_idx p - 1)) (\<lambda>leg.
        if leg_matches leg v then
          (let new_event_ids = matched_event_ids p @ [event_id] in
           if leg_idx p \<ge> int (length (legs parsed)) then
             Inr (Emitted \<lparr>m_rule_id = rule_id, m_host_id = host, m_severity = emit_severity (emit parsed),
                           m_message = emit_message (emit parsed), m_event_ids = new_event_ids\<rparr>)
           else bindE (py_nth (legs parsed) (leg_idx p)) (\<lambda>next_leg.
             Inr (Kept \<lparr>leg_idx = leg_idx p + 1, deadline_ts = now + within_s next_leg,
                        matched_event_ids = new_event_ids\<rparr>)))
        else Inr (Kept p)))"

fun survivors_of :: "step list \<Rightarrow> Partial list" where
  "survivors_of [] = []"
| "survivors_of (Kept p # ss) = p # survivors_of ss"
| "survivors_of (_ # ss) = survivors_of ss"

fun matches_of :: "step list \<Rightarrow> SequenceMatch list" where
  "matches_of [] = []"
| "matches_of (Emitted m # ss) = m # matches_of ss"
| "matches_of (_ # ss) = matches_of ss"

definition first_partial :: "ParsedSequence \<Rightarrow> string \<Rightarrow> rat \<Rightarrow> Partial result" where
  "first_partial parsed event_id now =
     bindE (py_nth (legs parsed) 0) (\<lambda>first_leg.
       Inr \<lparr>leg_idx = 1, deadline_ts = now + min (within_s first_leg) (of_int (window_s parsed)),
            matched_event_ids = [event_id]\<rparr>)"

text \<open>
  One iteration of the loop over the rules: the new partials and the matches, or an exception, with
  the partials as the exception leaves them.
\<close>

definition feed_rule ::
  "pyval \<Rightarrow> view \<Rightarrow> string \<Rightarrow> rat \<Rightarrow> string \<Rightarrow> ParsedSequence \<Rightarrow> partials_map
     \<Rightarrow> partials_map \<times> SequenceMatch list result" where
  "feed_rule host v event_id now rule_id parsed d =
     (let key = (rule_id, host) in
      case mapE (advance rule_id host parsed v event_id now) (pget d key) of
        Inl e \<Rightarrow> (d, Inl e)
      | Inr steps \<Rightarrow>
          (let d1 = store_survivors key (survivors_of steps) d in
           if trigger_matches parsed v then
             (case first_partial parsed event_id now of
                Inl e \<Rightarrow> (d1, Inl e)
              | Inr p \<Rightarrow> (append_partial key p d1, Inr (matches_of steps)))
           else (d1, Inr (matches_of steps))))"

fun feed_rules ::
  "pyval \<Rightarrow> view \<Rightarrow> string \<Rightarrow> rat \<Rightarrow> (string \<times> ParsedSequence) list \<Rightarrow> partials_map
     \<Rightarrow> partials_map \<times> SequenceMatch list result" where
  "feed_rules host v event_id now [] d = (d, Inr [])"
| "feed_rules host v event_id now ((rule_id, parsed) # rules) d =
     (case feed_rule host v event_id now rule_id parsed d of
        (d1, Inl e) \<Rightarrow> (d1, Inl e)
      | (d1, Inr ms) \<Rightarrow>
          (case feed_rules host v event_id now rules d1 of
             (d2, Inl e) \<Rightarrow> (d2, Inl e)
           | (d2, Inr ms') \<Rightarrow> (d2, Inr (ms @ ms'))))"

definition event_host :: "pydict \<Rightarrow> pyval result" where
  "event_host ecs = bindE (vget (sub_dict ecs ''host'') ''id'') (\<lambda>h. Inr (py_or h (PStr [])))"

definition hashable :: "pyval \<Rightarrow> bool" where
  "hashable v = (case v of PList _ \<Rightarrow> False | PDict _ \<Rightarrow> False | _ \<Rightarrow> True)"

definition event_id_of :: "view \<Rightarrow> string" where
  "event_id_of v = py_str (py_or (dget v ''event_id'') (PStr []))"

definition feed_event ::
  "SequenceEvaluator \<Rightarrow> pydict \<Rightarrow> rat \<Rightarrow> SequenceEvaluator \<times> SequenceMatch list result" where
  "feed_event st ecs now =
     (if ev_rules st = [] then (st, Inr [])
      else (case event_host ecs of
          Inl e \<Rightarrow> (st, Inl e)
        | Inr host \<Rightarrow>
            (if \<not> truthy host then (st, Inr [])
             else (case flatten_event ecs of
                 Inl e \<Rightarrow> (st, Inl e)
               | Inr v \<Rightarrow>
                   (if \<not> hashable host then (st, Inl TypeError)
                    else (case feed_rules host v (event_id_of v) now (ev_rules st) (ev_partials st) of
                        (d, r) \<Rightarrow> (st\<lparr>ev_partials := d\<rparr>, r)))))))"

definition live :: "rat \<Rightarrow> Partial list \<Rightarrow> Partial list" where
  "live now ps = filter (\<lambda>p. deadline_ts p \<ge> now) ps"

definition gc_partials :: "rat \<Rightarrow> partials_map \<Rightarrow> partials_map" where
  "gc_partials now d = filter (\<lambda>(_, ps). ps \<noteq> []) (map (\<lambda>(k, ps). (k, live now ps)) d)"

definition gc :: "SequenceEvaluator \<Rightarrow> rat \<Rightarrow> SequenceEvaluator \<times> nat" where
  "gc st now = (st\<lparr>ev_partials := gc_partials now (ev_partials st)\<rparr>,
     sum_list (map (\<lambda>(_, ps). length ps - length (live now ps)) (ev_partials st)))"

definition pending_count :: "SequenceEvaluator \<Rightarrow> nat" where
  "pending_count st = sum_list (map (\<lambda>(_, ps). length ps) (ev_partials st))"

end
