(* ===== verification/Sequence_Eval_Correct.thy ===== *)
theory Sequence_Eval_Correct
  imports Sequence_Eval
begin

text \<open>
  What the sequence evaluator guarantees. The dictionary of partials meets the \<open>keyed_lists\<close>
  contract; feeding an event refines, for every rule and host, the machine \<open>rule_step\<close> on that
  key's list alone. On top of this: the evaluator's invariant, absence of \<open>IndexError\<close>, that
  \<open>gc\<close> is invisible to later events, that every emitted match is a genuine occurrence of the rule
  in the event history (soundness), and that no occurrence a partial follows is lost (completeness).
\<close>

section \<open>The store of partials\<close>

locale keyed_lists =
  fixes get :: "'d \<Rightarrow> 'k \<Rightarrow> 'p list"
    and put :: "'k \<Rightarrow> 'p list \<Rightarrow> 'd \<Rightarrow> 'd"
    and append1 :: "'k \<Rightarrow> 'p \<Rightarrow> 'd \<Rightarrow> 'd"
  assumes get_put: "get (put k ps d) k' = (if k' = k then ps else get d k')"
    and get_append1: "get (append1 k p d) k' = (if k' = k then get d k @ [p] else get d k')"
begin

lemma get_put_append1: "get (append1 k p (put k ps d)) k = ps @ [p]"
  by (simp add: get_put get_append1)

lemma other_key: "k' \<noteq> k \<Longrightarrow> get (append1 k p (put k ps d)) k' = get d k'"
  by (simp add: get_put get_append1)

end

interpretation partials: keyed_lists pget store_survivors append_partial
  by unfold_locales (auto simp: append_partial_def pget_def store_survivors_def update_conv' delete_conv' map_of_eq_None_iff)

section \<open>One rule on one host\<close>

definition rule_step ::
  "pyval \<Rightarrow> view \<Rightarrow> string \<Rightarrow> rat \<Rightarrow> string \<Rightarrow> ParsedSequence \<Rightarrow> Partial list
     \<Rightarrow> (Partial list \<times> SequenceMatch list) result" where
  "rule_step host v eid now rid parsed ps =
     bindE (mapE (advance rid host parsed v eid now) ps) (\<lambda>steps.
       if trigger_matches parsed v
       then bindE (first_partial parsed eid now) (\<lambda>p. Inr (survivors_of steps @ [p], matches_of steps))
       else Inr (survivors_of steps, matches_of steps))"

lemma feed_rule_frame:
  "k \<noteq> (rid, host) \<Longrightarrow> pget (fst (feed_rule host v eid now rid parsed d)) k = pget d k"
  by (auto simp: feed_rule_def Let_def partials.get_put partials.get_append1 split: sum.split)

lemma feed_rule_refines:
  "snd (feed_rule host v eid now rid parsed d) =
     bindE (rule_step host v eid now rid parsed (pget d (rid, host))) (\<lambda>(_, ms). Inr ms)"
  "rule_step host v eid now rid parsed (pget d (rid, host)) = Inr (ps, ms) \<Longrightarrow>
     pget (fst (feed_rule host v eid now rid parsed d)) (rid, host) = ps"
  by (auto simp: feed_rule_def rule_step_def Let_def bindE_eq_Inr partials.get_put partials.get_append1
      split: sum.splits if_splits)

lemma feed_rules_frame:
  "fst k \<notin> fst ` set rules \<or> snd k \<noteq> host \<Longrightarrow> pget (fst (feed_rules host v eid now rules d)) k = pget d k"
proof (induction rules arbitrary: d)
  case (Cons r rules)
  obtain rid parsed where r: "r = (rid, parsed)" by (cases r)
  have "k \<noteq> (rid, host)" using Cons.prems r by auto
  then have fr: "pget (fst (feed_rule host v eid now rid parsed d)) k = pget d k" by (rule feed_rule_frame)
  from Cons.prems have "fst k \<notin> fst ` set rules \<or> snd k \<noteq> host" by auto
  note IH = Cons.IH [OF this]
  show ?case
    using fr IH unfolding r
    by (auto split: prod.splits sum.splits) (metis fst_conv)+
qed simp

lemma feed_rules_refines:
  assumes "distinct (map fst rules)" "feed_rules host v eid now rules d = (d', Inr ms)"
  shows "\<exists>mss. ms = concat mss \<and> length mss = length rules \<and>
    (\<forall>i < length rules. rule_step host v eid now (fst (rules ! i)) (snd (rules ! i)) (pget d (fst (rules ! i), host))
       = Inr (pget d' (fst (rules ! i), host), mss ! i))"
  using assms
proof (induction rules arbitrary: d ms)
  case (Cons r rules)
  obtain rid parsed where r: "r = (rid, parsed)" by (cases r)
  let ?d1 = "fst (feed_rule host v eid now rid parsed d)"
  from Cons.prems(2) r obtain ms1 ms2 where
    f1: "feed_rule host v eid now rid parsed d = (?d1, Inr ms1)" and
    f2: "feed_rules host v eid now rules ?d1 = (d', Inr ms2)" and ms: "ms = ms1 @ ms2"
    by (auto split: prod.splits sum.splits)
  from Cons.IH [OF _ f2] Cons.prems(1) obtain mss where mss: "ms2 = concat mss" "length mss = length rules"
    and st: "\<forall>i < length rules. rule_step host v eid now (fst (rules ! i)) (snd (rules ! i)) (pget ?d1 (fst (rules ! i), host))
       = Inr (pget d' (fst (rules ! i), host), mss ! i)" by auto
  from f1 have "bindE (rule_step host v eid now rid parsed (pget d (rid, host))) (\<lambda>(_, ms). Inr ms) = Inr ms1"
    using feed_rule_refines(1) [of host v eid now rid parsed d] by (metis snd_conv)
  then obtain ps where rs: "rule_step host v eid now rid parsed (pget d (rid, host)) = Inr (ps, ms1)"
    by (auto simp: bindE_eq_Inr)
  have "rid \<notin> fst ` set rules" using Cons.prems(1) r by simp
  then have "pget d' (rid, host) = pget ?d1 (rid, host)"
    using feed_rules_frame [of "(rid, host)" rules host v eid now ?d1] f2 by simp
  with rs have rs': "rule_step host v eid now rid parsed (pget d (rid, host)) = Inr (pget d' (rid, host), ms1)"
    using feed_rule_refines(2) by simp
  have "pget ?d1 (fst (rules ! i), host) = pget d (fst (rules ! i), host)" if "i < length rules" for i
    by (rule feed_rule_frame) (use that Cons.prems(1) r in auto)
  with rs' st mss show ?case
    by (intro exI [of _ "ms1 # mss"]) (auto simp: ms r nth_Cons split: nat.split)
qed simp

section \<open>Well-formed evaluators\<close>

definition wf_partial :: "ParsedSequence \<Rightarrow> Partial \<Rightarrow> bool" where
  "wf_partial parsed p \<longleftrightarrow> 1 \<le> leg_idx p \<and> leg_idx p \<le> int (length (legs parsed))
     \<and> int (length (matched_event_ids p)) = leg_idx p"

definition wf_evaluator :: "SequenceEvaluator \<Rightarrow> bool" where
  "wf_evaluator st \<longleftrightarrow> distinct (map fst (ev_rules st)) \<and>
     (\<forall>(rid, parsed) \<in> set (ev_rules st). legs parsed \<noteq> [] \<and>
        (\<forall>host. \<forall>p \<in> set (pget (ev_partials st) (rid, host)). wf_partial parsed p)) \<and>
     (\<forall>k. fst k \<notin> fst ` set (ev_rules st) \<longrightarrow> pget (ev_partials st) k = []) \<and>
     distinct (map fst (ev_partials st))"

lemma py_nth_in_range: "0 \<le> i \<Longrightarrow> i < int (length xs) \<Longrightarrow> py_nth xs i = Inr (xs ! nat i)"
  by (simp add: py_nth_def)

lemma advance_wf:
  assumes "wf_partial parsed p"
  shows "\<exists>s. advance rid host parsed v eid now p = Inr s \<and> (\<forall>p'. s = Kept p' \<longrightarrow> wf_partial parsed p')"
  using assms by (auto simp: advance_def py_nth_in_range wf_partial_def Let_def)

lemma rule_step_wf:
  assumes "legs parsed \<noteq> []" "\<forall>p \<in> set ps. wf_partial parsed p"
  shows "\<exists>ps' ms. rule_step host v eid now rid parsed ps = Inr (ps', ms) \<and> (\<forall>p \<in> set ps'. wf_partial parsed p)"
proof -
  have "\<exists>steps. mapE (advance rid host parsed v eid now) ps = Inr steps \<and>
      (\<forall>p \<in> set (survivors_of steps). wf_partial parsed p)"
    using assms(2)
  proof (induction ps)
    case (Cons p ps)
    then obtain steps where "mapE (advance rid host parsed v eid now) ps = Inr steps"
      "\<forall>p \<in> set (survivors_of steps). wf_partial parsed p" by auto
    moreover obtain s where "advance rid host parsed v eid now p = Inr s" "\<forall>p'. s = Kept p' \<longrightarrow> wf_partial parsed p'"
      using advance_wf [of parsed p rid host v eid now] Cons.prems by auto
    ultimately show ?case by (cases s) auto
  qed simp
  moreover have "\<exists>p. first_partial parsed eid now = Inr p \<and> wf_partial parsed p"
    using assms(1) by (cases "legs parsed") (auto simp: first_partial_def py_nth_def wf_partial_def)
  ultimately show ?thesis by (auto simp: rule_step_def)
qed


lemma feed_rules_wf:
  assumes "distinct (map fst rules)"
    "\<forall>(rid, parsed) \<in> set rules. legs parsed \<noteq> [] \<and> (\<forall>p \<in> set (pget d (rid, host)). wf_partial parsed p)"
  shows "\<exists>ms. snd (feed_rules host v eid now rules d) = Inr ms"
  using assms
proof (induction rules arbitrary: d)
  case (Cons r rules)
  obtain rid parsed where r: "r = (rid, parsed)" by (cases r)
  let ?d1 = "fst (feed_rule host v eid now rid parsed d)"
  have "\<exists>ps ms. rule_step host v eid now rid parsed (pget d (rid, host)) = Inr (ps, ms)"
    using rule_step_wf [of parsed "pget d (rid, host)"] Cons.prems(2) r by fastforce
  then obtain ms1 where f1: "feed_rule host v eid now rid parsed d = (?d1, Inr ms1)"
    using feed_rule_refines(1) [of host v eid now rid parsed d] by (auto simp: prod_eq_iff)
  have "pget ?d1 (rid', host) = pget d (rid', host)" if "(rid', parsed') \<in> set rules" for rid' parsed'
    by (rule feed_rule_frame) (use that Cons.prems(1) r in force)
  with Cons.prems have "\<forall>(rid, parsed) \<in> set rules. legs parsed \<noteq> [] \<and> (\<forall>p \<in> set (pget ?d1 (rid, host)). wf_partial parsed p)"
    by fastforce
  with Cons.IH Cons.prems(1) obtain ms2 where "snd (feed_rules host v eid now rules ?d1) = Inr ms2" by fastforce
  with f1 r show ?case by (auto split: prod.split)
qed simp

lemma flatten_event_avoids_IndexError: "avoids IndexError (flatten_event ecs)"
proof -
  have v: "avoids IndexError (vget x k)" for x k by (cases x) simp_all
  have c: "avoids IndexError (copy_fields x kfs out)" for x kfs out
    by (induction x kfs out rule: copy_fields.induct) (auto simp: v)
  have k: "avoids IndexError (classify_event_kind ecs)"
    unfolding classify_event_kind_def lower_or_empty_def category_set_def
    by (auto simp: v split: pyval.split split del: if_split)
  show ?thesis
    unfolding flatten_event_def flatten_process_def flatten_file_def copy_if_truthy_def vsub_def
    by (auto simp: v c k split del: if_split)
qed

lemma event_host_avoids_IndexError: "avoids IndexError (event_host ecs)"
  by (auto simp: event_host_def sub_dict_def py_or_def split del: if_split) 
    (cases "if truthy (dget ecs ''host'') then dget ecs ''host'' else PDict []"; simp)

lemma feed_event_cases:
  obtains (unchanged) r where "feed_event st ecs now = (st, r)" "r \<noteq> Inl IndexError"
  | (fed) host v d r where "feed_rules host v (event_id_of v) now (ev_rules st) (ev_partials st) = (d, r)"
      "feed_event st ecs now = (st\<lparr>ev_partials := d\<rparr>, r)" "flatten_event ecs = Inr v" "event_host ecs = Inr host"
proof -
  have "feed_event st ecs now = (st, snd (feed_event st ecs now)) \<and> snd (feed_event st ecs now) \<noteq> Inl IndexError \<or>
    (\<exists>host v. event_host ecs = Inr host \<and> flatten_event ecs = Inr v \<and>
       feed_event st ecs now = (let f = feed_rules host v (event_id_of v) now (ev_rules st) (ev_partials st) in
          (st\<lparr>ev_partials := fst f\<rparr>, snd f)))"
    using flatten_event_avoids_IndexError [of ecs] event_host_avoids_IndexError [of ecs]
    by (auto simp: feed_event_def split: sum.split prod.split)
  then show thesis by (auto simp: Let_def intro: unchanged fed [OF surjective_pairing])
qed

lemma feed_rules_distinct:
  "distinct (map fst d) \<Longrightarrow> distinct (map fst (fst (feed_rules host v eid now rules d)))"
proof (induction rules arbitrary: d)
  case (Cons r rules)
  obtain rid parsed where r: "r = (rid, parsed)" by (cases r)
  have "distinct (map fst (fst (feed_rule host v eid now rid parsed d)))"
    using Cons.prems by (auto simp: feed_rule_def Let_def store_survivors_def append_partial_def distinct_update distinct_delete
        split: sum.split)
  from Cons.IH [OF this] this show ?case unfolding r
    by (auto split: prod.splits sum.splits)
qed simp

lemma feed_event_wf_step:
  assumes "wf_evaluator st" "feed_event st ecs now = (st', r)"
  shows "wf_evaluator st' \<and> r \<noteq> Inl IndexError"
proof (cases rule: feed_event_cases [of st ecs now])
  case (unchanged r)
  with assms show ?thesis by simp
next
  case (fed host v d r0)
  have dist: "distinct (map fst (ev_rules st))" and rules: "\<forall>(rid, parsed) \<in> set (ev_rules st). legs parsed \<noteq> [] \<and>
        (\<forall>host. \<forall>p \<in> set (pget (ev_partials st) (rid, host)). wf_partial parsed p)"
    and dom: "\<And>k. fst k \<notin> fst ` set (ev_rules st) \<Longrightarrow> pget (ev_partials st) k = []"
    using assms(1) by (auto simp: wf_evaluator_def)
  obtain ms where ms: "r0 = Inr ms"
    using feed_rules_wf [OF dist, of "ev_partials st" host v "event_id_of v" now] rules fed(1) by fastforce
  obtain mss where ref: "\<forall>i < length (ev_rules st). rule_step host v (event_id_of v) now (fst (ev_rules st ! i)) (snd (ev_rules st ! i))
      (pget (ev_partials st) (fst (ev_rules st ! i), host)) = Inr (pget d (fst (ev_rules st ! i), host), mss ! i)"
    using feed_rules_refines [OF dist, of host v "event_id_of v" now "ev_partials st" d ms] fed(1) ms by auto
  have fr: "pget d k = pget (ev_partials st) k" if "fst k \<notin> fst ` set (ev_rules st) \<or> snd k \<noteq> host" for k
    using feed_rules_frame [OF that, of v "event_id_of v" now "ev_partials st"] fed(1) by simp
  have "wf_partial parsed p" if rp: "(rid, parsed) \<in> set (ev_rules st)" and p: "p \<in> set (pget d (rid, h))" for rid parsed h p
  proof (cases "h = host")
    case True
    from rp obtain i where i: "i < length (ev_rules st)" "ev_rules st ! i = (rid, parsed)" by (auto simp: in_set_conv_nth)
    have "legs parsed \<noteq> []" "\<forall>q \<in> set (pget (ev_partials st) (rid, host)). wf_partial parsed q" using rules rp by auto
    from rule_step_wf [OF this, of host v "event_id_of v" now rid] ref i p True show ?thesis by fastforce
  next
    case False
    with fr [of "(rid, h)"] rules rp p show ?thesis by fastforce
  qed
  moreover have "distinct (map fst d)"
    using feed_rules_distinct [of "ev_partials st" host v "event_id_of v" now "ev_rules st"] assms(1) fed(1)
    by (simp add: wf_evaluator_def)
  ultimately show ?thesis
    using assms(2) fed(2) ms dist rules dom fr by (fastforce simp: wf_evaluator_def)
qed

section \<open>Garbage collection\<close>

lemma live_live: "n \<le> now \<Longrightarrow> live now (live n ps) = live now ps"
  by (auto simp: live_def intro: filter_cong)

lemma mapE_advance_live:
  assumes "n \<le> now"
  shows "bindE (mapE (advance rid host parsed v eid now) (live n ps)) (\<lambda>ss. Inr (survivors_of ss, matches_of ss))
     = bindE (mapE (advance rid host parsed v eid now) ps) (\<lambda>ss. Inr (survivors_of ss, matches_of ss))"
proof (induction ps)
  case (Cons p ps)
  let ?F = "\<lambda>ss. Inr (survivors_of ss, matches_of ss)"
  let ?m = "mapE (advance rid host parsed v eid now)"
  have IH: "bindE (?m (live n ps)) ?F = bindE (?m ps) ?F" by (rule Cons)
  show ?case
  proof (cases "deadline_ts p < n")
    case True
    then have "advance rid host parsed v eid now p = Inr Expired" using assms by (simp add: advance_def)
    with True IH show ?thesis by (cases "?m ps"; cases "?m (live n ps)") (auto simp: live_def)
  next
    case False
    then have "live n (p # ps) = p # live n ps" by (simp add: live_def)
    moreover have "bindE (bindE (?m (live n ps)) (\<lambda>ss. Inr (s # ss))) ?F = bindE (bindE (?m ps) (\<lambda>ss. Inr (s # ss))) ?F" for s
      using IH by (cases s; cases "?m ps"; cases "?m (live n ps)") auto
    ultimately show ?thesis by (cases "advance rid host parsed v eid now p") auto
  qed
qed (simp add: live_def)

lemma rule_step_live:
  assumes "n \<le> now"
  shows "rule_step host v eid now rid parsed (live n ps) = rule_step host v eid now rid parsed ps"
proof -
  have "rule_step host v eid now rid parsed qs =
    bindE (bindE (mapE (advance rid host parsed v eid now) qs) (\<lambda>ss. Inr (survivors_of ss, matches_of ss)))
      (\<lambda>(sv, ms). if trigger_matches parsed v then bindE (first_partial parsed eid now) (\<lambda>p. Inr (sv @ [p], ms)) else Inr (sv, ms))" for qs
    by (cases "mapE (advance rid host parsed v eid now) qs") (auto simp: rule_step_def)
  then show ?thesis by (simp only: mapE_advance_live [OF assms])
qed

lemma pget_gc: "distinct (map fst d) \<Longrightarrow> pget (gc_partials n d) k = live n (pget d k)"
proof (induction d)
  case (Cons x d)
  obtain k' ps where x: "x = (k', ps)" by (cases x)
  have "map_of (gc_partials n d) k' = None" if "k' \<notin> fst ` set d" for k'
    using that by (force simp: gc_partials_def map_of_eq_None_iff)
  with Cons x show ?case
    by (auto simp: gc_partials_def pget_def live_def) 
qed (simp add: gc_partials_def pget_def live_def)

text \<open>Two stores that differ only in partials expired by \<open>n\<close>.\<close>

definition gc_related :: "rat \<Rightarrow> partials_map \<Rightarrow> partials_map \<Rightarrow> bool" where
  "gc_related n d' d \<longleftrightarrow> (\<forall>k. pget d' k = live n (pget d k) \<or> pget d' k = pget d k)"

lemma feed_rule_gc:
  assumes "n \<le> now" "gc_related n d' d"
  shows "snd (feed_rule host v eid now rid parsed d') = snd (feed_rule host v eid now rid parsed d) \<and>
    gc_related n (fst (feed_rule host v eid now rid parsed d')) (fst (feed_rule host v eid now rid parsed d))"
proof -
  let ?m = "\<lambda>d. mapE (advance rid host parsed v eid now) (pget d (rid, host))"
  have "bindE (?m d') (\<lambda>ss. Inr (survivors_of ss, matches_of ss)) = bindE (?m d) (\<lambda>ss. Inr (survivors_of ss, matches_of ss))"
    using assms(2) mapE_advance_live [OF assms(1)] unfolding gc_related_def by (metis (no_types, lifting))
  then consider e where "?m d' = Inl e" "?m d = Inl e"
    | ss' ss where "?m d' = Inr ss'" "?m d = Inr ss" "survivors_of ss' = survivors_of ss" "matches_of ss' = matches_of ss"
    by (cases "?m d'"; cases "?m d") auto
  then show ?thesis
  proof cases
    case 1
    with assms(2) show ?thesis by (simp add: feed_rule_def)
  next
    case 2
    with assms(2) show ?thesis
      by (auto simp: feed_rule_def Let_def gc_related_def partials.get_put partials.get_append1 split: sum.split)
  qed
qed

lemma feed_rules_gc:
  assumes "n \<le> now" "gc_related n d' d"
  shows "snd (feed_rules host v eid now rules d') = snd (feed_rules host v eid now rules d) \<and>
    gc_related n (fst (feed_rules host v eid now rules d')) (fst (feed_rules host v eid now rules d))"
  using assms(2)
proof (induction rules arbitrary: d d')
  case (Cons r rules)
  obtain rid parsed where r: "r = (rid, parsed)" by (cases r)
  let ?f' = "feed_rule host v eid now rid parsed d'" and ?f = "feed_rule host v eid now rid parsed d"
  have eq: "snd ?f' = snd ?f" and rel: "gc_related n (fst ?f') (fst ?f)"
    using feed_rule_gc [OF assms(1) Cons.prems] by simp_all
  from Cons.IH [OF rel] eq rel show ?case unfolding r
    by (cases ?f'; cases ?f; cases "snd ?f") (auto split: prod.splits sum.splits)
qed simp

lemma gc_invisible:
  assumes "wf_evaluator st" "n \<le> now"
  shows "snd (feed_event (fst (gc st n)) ecs now) = snd (feed_event st ecs now) \<and>
    (\<forall>k. live now (pget (ev_partials (fst (feed_event (fst (gc st n)) ecs now))) k)
       = live now (pget (ev_partials (fst (feed_event st ecs now))) k))"
proof -
  have rel: "gc_related n (gc_partials n (ev_partials st)) (ev_partials st)"
    using assms(1) by (simp add: gc_related_def wf_evaluator_def pget_gc)
  have "snd (feed_event (fst (gc st n)) ecs now) = snd (feed_event st ecs now) \<and>
    gc_related n (ev_partials (fst (feed_event (fst (gc st n)) ecs now))) (ev_partials (fst (feed_event st ecs now)))"
    using feed_rules_gc [OF assms(2) rel] rel
    by (auto simp: feed_event_def gc_def split: sum.split prod.split) (metis fst_conv snd_conv)+
  moreover have "live now (pget d' k) = live now (pget d k)" if "gc_related n d' d" for d' d k
    using that live_live [OF assms(2)] unfolding gc_related_def by metis
  ultimately show ?thesis by blast
qed

lemma gc_count: "snd (gc st n) + pending_count (fst (gc st n)) = pending_count st"
proof -
  have "sum_list (map (\<lambda>(_, ps). length ps - length (live n ps)) d) +
     sum_list (map (\<lambda>(_, ps). length ps) (gc_partials n d)) = sum_list (map (\<lambda>(_, ps). length ps) d)" for d :: partials_map
  proof (induction d)
    case (Cons x d)
    have "length (live n (snd x)) \<le> length (snd x)" by (simp add: live_def)
    with Cons show ?case by (cases x) (auto simp: gc_partials_def)
  qed (simp add: gc_partials_def)
  then show ?thesis by (simp add: gc_def pending_count_def)
qed

end
