(* ===== verification/Sequence_Runs.thy ===== *)
theory Sequence_Runs
  imports Sequence_Eval_Correct
begin

text \<open>
  The evaluator over whole event histories. An \<open>occurrence\<close> of a rule is stated without the
  evaluator's data structures: a trigger event followed, each within its deadline, by one event per
  leg, all on one host. Every match a run emits is such an occurrence (soundness); an occurrence in
  which every leg is served by the first event that fits it is always emitted (completeness);
  collecting garbage changes no later match; the states the rule life cycle reaches never make
  \<open>feed_event\<close> index out of range.
\<close>

section \<open>Occurrences of a rule in an event history\<close>

record obs =
  o_view :: view
  o_id :: string
  o_now :: rat

definition observe :: "pyval \<Rightarrow> pydict \<times> rat \<Rightarrow> obs list" where
  "observe host e = (case (event_host (fst e), flatten_event (fst e)) of
       (Inr h, Inr v) \<Rightarrow> (if h = host \<and> truthy h \<and> hashable h
          then [\<lparr>o_view = v, o_id = event_id_of v, o_now = snd e\<rparr>] else [])
     | _ \<Rightarrow> [])"

definition observations :: "pyval \<Rightarrow> (pydict \<times> rat) list \<Rightarrow> obs list" where
  "observations host es = concat (map (observe host) es)"

inductive in_progress :: "ParsedSequence \<Rightarrow> obs list \<Rightarrow> rat \<Rightarrow> bool" for parsed where
  start: "trigger_matches parsed (o_view a) \<Longrightarrow> legs parsed \<noteq> [] \<Longrightarrow>
     in_progress parsed [a] (o_now a + min (within_s (legs parsed ! 0)) (of_int (window_s parsed)))"
| next_leg: "in_progress parsed os d \<Longrightarrow> o_now a \<le> d \<Longrightarrow> length os < length (legs parsed) \<Longrightarrow>
     leg_matches (legs parsed ! (length os - 1)) (o_view a) \<Longrightarrow>
     in_progress parsed (os @ [a]) (o_now a + within_s (legs parsed ! length os))"

inductive occurrence :: "ParsedSequence \<Rightarrow> obs list \<Rightarrow> bool" for parsed where
  complete: "in_progress parsed os d \<Longrightarrow> o_now a \<le> d \<Longrightarrow> length os = length (legs parsed) \<Longrightarrow>
     leg_matches (legs parsed ! (length os - 1)) (o_view a) \<Longrightarrow> occurrence parsed (os @ [a])"

lemma in_progress_nonempty: "in_progress parsed os d \<Longrightarrow> os \<noteq> []"
  by (induction rule: in_progress.induct) auto

lemma in_progress_bound: "in_progress parsed os d \<Longrightarrow> length os \<le> length (legs parsed)"
  by (induction rule: in_progress.induct) (auto simp: Suc_le_eq)

definition explained :: "ParsedSequence \<Rightarrow> obs list \<Rightarrow> Partial \<Rightarrow> bool" where
  "explained parsed h p \<longleftrightarrow> (\<exists>os. subseq os h \<and> in_progress parsed os (deadline_ts p) \<and>
     leg_idx p = int (length os) \<and> matched_event_ids p = map o_id os)"

lemma explained_mono: "explained parsed h p \<Longrightarrow> explained parsed (h @ g) p"
  unfolding explained_def by (meson list_emb_append2 subseq_order.trans subseq_order.order_refl list_emb_prefix)

lemma advance_explained:
  assumes "explained parsed h p" "advance rid host parsed (o_view a) (o_id a) (o_now a) p = Inr s"
  shows "case s of
      Expired \<Rightarrow> True
    | Kept p' \<Rightarrow> explained parsed (h @ [a]) p'
    | Emitted m \<Rightarrow> m_rule_id m = rid \<and> m_host_id m = host \<and> m_severity m = emit_severity (emit parsed) \<and>
        m_message m = emit_message (emit parsed) \<and>
        (\<exists>os. occurrence parsed os \<and> subseq os (h @ [a]) \<and> m_event_ids m = map o_id os)"
proof -
  from assms(1) obtain os where os: "subseq os h" "in_progress parsed os (deadline_ts p)"
     "leg_idx p = int (length os)" "matched_event_ids p = map o_id os" by (auto simp: explained_def)
  have ne: "os \<noteq> []" and bd: "length os \<le> length (legs parsed)"
    using os(2) in_progress_nonempty in_progress_bound by auto
  have idx: "py_nth (legs parsed) (leg_idx p - 1) = Inr (legs parsed ! (length os - 1))"
    using ne bd os(3) by (cases os) (simp_all add: py_nth_def)
  have sub: "subseq (os @ [a]) (h @ [a])" using os(1) by simp
  show ?thesis
  proof (cases "deadline_ts p < o_now a")
    case True
    with assms(2) show ?thesis by (auto simp: advance_def)
  next
    case False
    show ?thesis
    proof (cases "leg_matches (legs parsed ! (length os - 1)) (o_view a)")
      case nomatch: False
      with False assms show ?thesis using explained_mono by (auto simp: advance_def idx)
    next
      case match: True
      show ?thesis
      proof (cases "length os = length (legs parsed)")
        case True
        then have "occurrence parsed (os @ [a])" using complete [OF os(2) _ True match] False by simp
        moreover have "leg_idx p \<ge> int (length (legs parsed))" using True os(3) by simp
        with False match assms(2) have "s = Emitted \<lparr>m_rule_id = rid, m_host_id = host,
            m_severity = emit_severity (emit parsed), m_message = emit_message (emit parsed),
            m_event_ids = matched_event_ids p @ [o_id a]\<rparr>"
          by (simp add: advance_def idx)
        ultimately show ?thesis using sub os(4) by (auto intro!: exI [of _ "os @ [a]"])
      next
        case lt: False
        with bd have "length os < length (legs parsed)" by simp
        then have "in_progress parsed (os @ [a]) (o_now a + within_s (legs parsed ! length os))"
          using next_leg [OF os(2) _ _ match] False by simp
        moreover have "s = Kept \<lparr>leg_idx = leg_idx p + 1, deadline_ts = o_now a + within_s (legs parsed ! length os),
            matched_event_ids = matched_event_ids p @ [o_id a]\<rparr>"
        proof -
          have "\<not> int (length (legs parsed)) \<le> leg_idx p" using lt bd os(3) by simp
          moreover have "py_nth (legs parsed) (leg_idx p) = Inr (legs parsed ! length os)"
            using lt bd os(3) by (simp add: py_nth_def)
          ultimately show ?thesis using False match assms(2) by (simp add: advance_def idx)
        qed
        ultimately show ?thesis using sub os(3,4) by (auto simp: explained_def intro!: exI [of _ "os @ [a]"])
      qed
    qed
  qed
qed

lemma rule_step_explained:
  assumes "\<forall>p \<in> set ps. explained parsed h p" "legs parsed \<noteq> []"
    "rule_step host (o_view a) (o_id a) (o_now a) rid parsed ps = Inr (ps', ms)"
  shows "(\<forall>p \<in> set ps'. explained parsed (h @ [a]) p) \<and>
    (\<forall>m \<in> set ms. m_rule_id m = rid \<and> m_host_id m = host \<and> m_severity m = emit_severity (emit parsed) \<and>
        m_message m = emit_message (emit parsed) \<and>
        (\<exists>os. occurrence parsed os \<and> subseq os (h @ [a]) \<and> m_event_ids m = map o_id os))"
proof -
  from assms(3) obtain ss where ss: "mapE (advance rid host parsed (o_view a) (o_id a) (o_now a)) ps = Inr ss"
    by (auto simp: rule_step_def bindE_eq_Inr)
  have "(\<forall>p \<in> set (survivors_of ss). explained parsed (h @ [a]) p) \<and>
    (\<forall>m \<in> set (matches_of ss). m_rule_id m = rid \<and> m_host_id m = host \<and> m_severity m = emit_severity (emit parsed) \<and>
        m_message m = emit_message (emit parsed) \<and>
        (\<exists>os. occurrence parsed os \<and> subseq os (h @ [a]) \<and> m_event_ids m = map o_id os))"
    using assms(1) ss
  proof (induction ps arbitrary: ss)
    case (Cons p ps)
    then obtain s ss' where s: "advance rid host parsed (o_view a) (o_id a) (o_now a) p = Inr s"
      "mapE (advance rid host parsed (o_view a) (o_id a) (o_now a)) ps = Inr ss'" "ss = s # ss'"
      by (auto simp: bindE_eq_Inr)
    with Cons advance_explained [of parsed h p rid host a s] show ?case by (cases s) auto
  qed simp
  moreover have "explained parsed (h @ [a]) p" if "trigger_matches parsed (o_view a)" "first_partial parsed (o_id a) (o_now a) = Inr p" for p
    using that assms(2) start [of parsed a]
    by (auto simp: first_partial_def py_nth_def explained_def intro!: exI [of _ "[a]"] split: if_splits)
  ultimately show ?thesis using assms(3) ss by (auto simp: rule_step_def bindE_eq_Inr split: if_splits)
qed

section \<open>Runs\<close>

fun run :: "SequenceEvaluator \<Rightarrow> (pydict \<times> rat) list \<Rightarrow> SequenceEvaluator \<times> SequenceMatch list" where
  "run st [] = (st, [])"
| "run st (e # es) =
     (case feed_event st (fst e) (snd e) of
        (st1, r) \<Rightarrow> (case run st1 es of (st2, ms) \<Rightarrow> (st2, (case r of Inl _ \<Rightarrow> [] | Inr m \<Rightarrow> m) @ ms)))"

definition genuine :: "(string \<times> ParsedSequence) list \<Rightarrow> (pydict \<times> rat) list \<Rightarrow> SequenceMatch \<Rightarrow> bool" where
  "genuine rules es m \<longleftrightarrow> (\<exists>parsed os. (m_rule_id m, parsed) \<in> set rules \<and>
     m_severity m = emit_severity (emit parsed) \<and> m_message m = emit_message (emit parsed) \<and>
     occurrence parsed os \<and> subseq os (observations (m_host_id m) es) \<and> m_event_ids m = map o_id os)"

definition all_explained :: "SequenceEvaluator \<Rightarrow> (pydict \<times> rat) list \<Rightarrow> bool" where
  "all_explained st h \<longleftrightarrow> (\<forall>(rid, parsed) \<in> set (ev_rules st). \<forall>host.
     \<forall>p \<in> set (pget (ev_partials st) (rid, host)). explained parsed (observations host h) p)"

lemma observations_append [simp]: "observations host (es @ fs) = observations host es @ observations host fs"
  by (simp add: observations_def)

lemma genuine_mono: "genuine rules es m \<Longrightarrow> genuine rules (es @ fs) m"
  unfolding genuine_def observations_append by (meson list_emb_append2 subseq_order.trans subseq_order.order_refl list_emb_prefix)

lemma feed_event_rules: "ev_rules (fst (feed_event st ecs now)) = ev_rules st"
  by (auto simp: feed_event_def split: sum.split prod.split)

lemma feed_event_cases_full:
  obtains (unchanged) r where "feed_event st ecs now = (st, r)" "\<And>ms. r = Inr ms \<Longrightarrow> ms = []"
  | (fed) host v d r where "feed_rules host v (event_id_of v) now (ev_rules st) (ev_partials st) = (d, r)"
      "feed_event st ecs now = (st\<lparr>ev_partials := d\<rparr>, r)"
      "observe host (ecs, now) = [\<lparr>o_view = v, o_id = event_id_of v, o_now = now\<rparr>]"
proof -
  have "feed_event st ecs now = (st, snd (feed_event st ecs now)) \<and> (\<forall>ms. snd (feed_event st ecs now) = Inr ms \<longrightarrow> ms = []) \<or>
    (\<exists>host v. observe host (ecs, now) = [\<lparr>o_view = v, o_id = event_id_of v, o_now = now\<rparr>] \<and>
       feed_event st ecs now = (let f = feed_rules host v (event_id_of v) now (ev_rules st) (ev_partials st) in
          (st\<lparr>ev_partials := fst f\<rparr>, snd f)))"
    by (auto simp: feed_event_def observe_def split: sum.split prod.split)
  then show thesis by (auto simp: Let_def intro: unchanged fed [OF surjective_pairing])
qed

lemma feed_event_sound:
  assumes wf: "wf_evaluator st" and ex: "all_explained st h" and f: "feed_event st ecs now = (st', r)"
  shows "all_explained st' (h @ [(ecs, now)]) \<and> (\<forall>ms. r = Inr ms \<longrightarrow> (\<forall>m \<in> set ms. genuine (ev_rules st) (h @ [(ecs, now)]) m))"
proof (cases rule: feed_event_cases_full [of st ecs now])
  case (unchanged r0)
  have "explained parsed (observations host (h @ [(ecs, now)])) p"
    if "(rid, parsed) \<in> set (ev_rules st)" "p \<in> set (pget (ev_partials st) (rid, host))" for rid parsed host p
    using ex that explained_mono by (fastforce simp: all_explained_def)
  with unchanged f show ?thesis by (auto simp: all_explained_def)
next
  case (fed host v d r0)
  let ?a = "\<lparr>o_view = v, o_id = event_id_of v, o_now = now\<rparr>"
  have dist: "distinct (map fst (ev_rules st))" and rules: "\<forall>(rid, parsed) \<in> set (ev_rules st). legs parsed \<noteq> [] \<and>
        (\<forall>host. \<forall>p \<in> set (pget (ev_partials st) (rid, host)). wf_partial parsed p)"
    using wf by (auto simp: wf_evaluator_def)
  obtain ms where ms: "r0 = Inr ms"
    using feed_rules_wf [OF dist, of "ev_partials st" host v "event_id_of v" now] rules fed(1) by fastforce
  obtain mss where mss: "ms = concat mss" "length mss = length (ev_rules st)" and
    ref: "\<And>i. i < length (ev_rules st) \<Longrightarrow> rule_step host v (event_id_of v) now (fst (ev_rules st ! i)) (snd (ev_rules st ! i))
      (pget (ev_partials st) (fst (ev_rules st ! i), host)) = Inr (pget d (fst (ev_rules st ! i), host), mss ! i)"
    using feed_rules_refines [OF dist, of host v "event_id_of v" now "ev_partials st" d ms] fed(1) ms by auto
  have obs: "observations host (h @ [(ecs, now)]) = observations host h @ [?a]"
    using fed(3) by (simp add: observations_def)
  have step: "(\<forall>p \<in> set (pget d (fst (ev_rules st ! i), host)). explained (snd (ev_rules st ! i)) (observations host (h @ [(ecs, now)])) p) \<and>
      (\<forall>m \<in> set (mss ! i). genuine (ev_rules st) (h @ [(ecs, now)]) m)" if i: "i < length (ev_rules st)" for i
  proof -
    obtain rid parsed where rp: "ev_rules st ! i = (rid, parsed)" by (cases "ev_rules st ! i")
    with i have mem: "(rid, parsed) \<in> set (ev_rules st)" by (metis nth_mem)
    have "\<forall>p \<in> set (pget (ev_partials st) (rid, host)). explained parsed (observations host h) p" "legs parsed \<noteq> []"
      using ex rules mem by (auto simp: all_explained_def)
    from rule_step_explained [OF this, of host ?a rid] ref [OF i] rp mem obs show ?thesis
      unfolding genuine_def by fastforce
  qed
  have "explained parsed (observations k (h @ [(ecs, now)])) p"
    if rp: "(rid, parsed) \<in> set (ev_rules st)" and p: "p \<in> set (pget d (rid, k))" for rid parsed k p
  proof (cases "k = host")
    case True
    from rp obtain i where "i < length (ev_rules st)" "ev_rules st ! i = (rid, parsed)" by (auto simp: in_set_conv_nth)
    with step p True show ?thesis by fastforce
  next
    case False
    then have "pget d (rid, k) = pget (ev_partials st) (rid, k)"
      using feed_rules_frame [of "(rid, k)" "ev_rules st" host v "event_id_of v" now "ev_partials st"] fed(1) by simp
    with ex rp p have "explained parsed (observations k h) p" by (fastforce simp: all_explained_def)
    then show ?thesis by (simp add: explained_mono)
  qed
  moreover have "\<forall>m \<in> set ms. genuine (ev_rules st) (h @ [(ecs, now)]) m"
    using step mss by (fastforce simp: in_set_conv_nth)
  ultimately show ?thesis using f fed(2) ms by (auto simp: all_explained_def)
qed

lemma run_sound_gen:
  "wf_evaluator st \<Longrightarrow> all_explained st h \<Longrightarrow> m \<in> set (snd (run st es)) \<Longrightarrow> genuine (ev_rules st) (h @ es) m"
proof (induction es arbitrary: st h)
  case (Cons e es)
  obtain ecs now where e: "e = (ecs, now)" by (cases e)
  obtain st1 r where f: "feed_event st ecs now = (st1, r)" by (cases "feed_event st ecs now")
  note s = feed_event_sound [OF Cons.prems(1,2) f] and w = feed_event_wf_step [OF Cons.prems(1) f]
  have rl: "ev_rules st1 = ev_rules st" using feed_event_rules [of st ecs now] f by simp
  from Cons.prems(3) consider (now) ms where "r = Inr ms" "m \<in> set ms" | (later) "m \<in> set (snd (run st1 es))"
    using f e by (auto split: prod.splits sum.splits)
  then show ?case
  proof cases
    case now
    with s have "genuine (ev_rules st) (h @ [e]) m" unfolding e by blast
    from genuine_mono [OF this, of es] show ?thesis by simp
  next
    case later
    from Cons.IH [OF _ _ later, of "h @ [e]"] s w rl e show ?thesis by simp
  qed
qed simp

lemma run_sound_from_idle:
  assumes "wf_evaluator st" "ev_partials st = []" "m \<in> set (snd (run st es))"
  shows "genuine (ev_rules st) es m"
proof -
  have "all_explained st []" using assms(2) by (simp add: all_explained_def pget_def)
  from run_sound_gen [OF assms(1) this assms(3)] show ?thesis by simp
qed

section \<open>Completeness\<close>

inductive greedy :: "ParsedSequence \<Rightarrow> nat \<Rightarrow> rat \<Rightarrow> obs list \<Rightarrow> string list \<Rightarrow> bool" for parsed where
  skip: "\<not> leg_matches (legs parsed ! i) (o_view a) \<Longrightarrow> o_now a \<le> d \<Longrightarrow> greedy parsed i d as ids \<Longrightarrow>
     greedy parsed i d (a # as) ids"
| last: "leg_matches (legs parsed ! i) (o_view a) \<Longrightarrow> o_now a \<le> d \<Longrightarrow> Suc i = length (legs parsed) \<Longrightarrow>
     greedy parsed i d (a # as) [o_id a]"
| advance: "leg_matches (legs parsed ! i) (o_view a) \<Longrightarrow> o_now a \<le> d \<Longrightarrow> Suc i < length (legs parsed) \<Longrightarrow>
     greedy parsed (Suc i) (o_now a + within_s (legs parsed ! Suc i)) as ids \<Longrightarrow>
     greedy parsed i d (a # as) (o_id a # ids)"

inductive_cases greedy_Nil: "greedy parsed i d [] ids"

lemma greedy_bound: "greedy parsed i d as ids \<Longrightarrow> i < length (legs parsed)"
  by (induction rule: greedy.induct) auto

definition match_of :: "string \<Rightarrow> pyval \<Rightarrow> ParsedSequence \<Rightarrow> string list \<Rightarrow> SequenceMatch" where
  "match_of rid host parsed ids = \<lparr>m_rule_id = rid, m_host_id = host, m_severity = emit_severity (emit parsed),
     m_message = emit_message (emit parsed), m_event_ids = ids\<rparr>"

definition follows :: "ParsedSequence \<Rightarrow> Partial \<Rightarrow> obs list \<Rightarrow> string list \<Rightarrow> bool" where
  "follows parsed p as ids \<longleftrightarrow> 1 \<le> leg_idx p \<and>
     (\<exists>rest. ids = matched_event_ids p @ rest \<and> greedy parsed (nat (leg_idx p - 1)) (deadline_ts p) as rest)"

lemma advance_follows:
  assumes "follows parsed p (a # as) ids"
  shows "advance rid host parsed (o_view a) (o_id a) (o_now a) p = Inr (Emitted (match_of rid host parsed ids)) \<or>
    (\<exists>p'. advance rid host parsed (o_view a) (o_id a) (o_now a) p = Inr (Kept p') \<and> follows parsed p' as ids)"
proof -
  from assms obtain rest where ids: "ids = matched_event_ids p @ rest" and li: "1 \<le> leg_idx p"
    and g: "greedy parsed (nat (leg_idx p - 1)) (deadline_ts p) (a # as) rest" by (auto simp: follows_def)
  let ?i = "nat (leg_idx p - 1)"
  have nth: "py_nth (legs parsed) (leg_idx p - 1) = Inr (legs parsed ! ?i)"
    using greedy_bound [OF g] li by (simp add: py_nth_in_range)
  from g show ?thesis
  proof (cases rule: greedy.cases)
    case skip
    with ids li show ?thesis by (auto simp: advance_def nth follows_def)
  next
    case last
    then have "leg_idx p \<ge> int (length (legs parsed))" using li by linarith
    with last ids show ?thesis by (simp add: advance_def nth match_of_def)
  next
    case (advance ids')
    then have lt: "\<not> leg_idx p \<ge> int (length (legs parsed))" and nx: "nat (leg_idx p) = Suc ?i" using li by linarith+
    then have "py_nth (legs parsed) (leg_idx p) = Inr (legs parsed ! Suc ?i)"
      using li by (simp add: py_nth_def flip: nx)
    with advance lt nx ids li show ?thesis by (simp add: advance_def nth follows_def)
  qed
qed

lemma mapE_advance_mem:
  "mapE f ps = Inr ss \<Longrightarrow> p \<in> set ps \<Longrightarrow>
     (f p = Inr (Emitted m) \<longrightarrow> m \<in> set (matches_of ss)) \<and> (f p = Inr (Kept p') \<longrightarrow> p' \<in> set (survivors_of ss))"
proof (induction ps arbitrary: ss)
  case (Cons q ps)
  then obtain s ss' where "f q = Inr s" "mapE f ps = Inr ss'" "ss = s # ss'" by (auto simp: bindE_eq_Inr)
  with Cons show ?case by (cases s) auto
qed simp

lemma rule_step_eq_Inr:
  "rule_step host v eid now rid parsed ps = Inr (ps', ms) \<longleftrightarrow>
     (\<exists>ss. mapE (advance rid host parsed v eid now) ps = Inr ss \<and> ms = matches_of ss \<and>
        (if trigger_matches parsed v then \<exists>p. first_partial parsed eid now = Inr p \<and> ps' = survivors_of ss @ [p]
         else ps' = survivors_of ss))"
  by (auto simp: rule_step_def bindE_eq_Inr)

lemma feed_event_at:
  assumes wf: "wf_evaluator st" and rp: "(rid, parsed) \<in> set (ev_rules st)" and o: "observe host (ecs, now) = [a]"
    and f: "feed_event st ecs now = (st', r)"
  shows "\<exists>ms mss. r = Inr mss \<and> set ms \<subseteq> set mss \<and>
    rule_step host (o_view a) (o_id a) (o_now a) rid parsed (pget (ev_partials st) (rid, host)) =
      Inr (pget (ev_partials st') (rid, host), ms)"
proof -
  have ne: "ev_rules st \<noteq> []" using rp by auto
  from o obtain v where v: "event_host ecs = Inr host" "flatten_event ecs = Inr v" "truthy host" "hashable host"
    "a = \<lparr>o_view = v, o_id = event_id_of v, o_now = now\<rparr>"
    by (auto simp: observe_def split: sum.splits if_splits)
  obtain d r0 where fr: "feed_rules host v (event_id_of v) now (ev_rules st) (ev_partials st) = (d, r0)" by fastforce
  with f v ne have st': "st' = st\<lparr>ev_partials := d\<rparr>" "r = r0" by (auto simp: feed_event_def)
  have dist: "distinct (map fst (ev_rules st))" and rules: "\<forall>(rid, parsed) \<in> set (ev_rules st). legs parsed \<noteq> [] \<and>
        (\<forall>host. \<forall>p \<in> set (pget (ev_partials st) (rid, host)). wf_partial parsed p)"
    using wf by (auto simp: wf_evaluator_def)
  obtain ms where ms: "r0 = Inr ms"
    using feed_rules_wf [OF dist, of "ev_partials st" host v "event_id_of v" now] rules fr by fastforce
  from rp obtain i where i: "i < length (ev_rules st)" "ev_rules st ! i = (rid, parsed)" by (auto simp: in_set_conv_nth)
  obtain mss where mss: "ms = concat mss" "length mss = length (ev_rules st)" and
    "rule_step host v (event_id_of v) now rid parsed (pget (ev_partials st) (rid, host)) = Inr (pget d (rid, host), mss ! i)"
    using feed_rules_refines [OF dist, of host v "event_id_of v" now "ev_partials st" d ms] fr ms i by force
  moreover have "mss ! i \<in> set mss" using mss(2) i(1) by simp
  then have "set (mss ! i) \<subseteq> set ms" using mss(1) by auto
  ultimately show ?thesis using st' ms v(5) by fastforce
qed

lemma feed_event_elsewhere:
  "observe host (ecs, now) = [] \<Longrightarrow>
     pget (ev_partials (fst (feed_event st ecs now))) (rid, host) = pget (ev_partials st) (rid, host)"
proof (cases rule: feed_event_cases_full [of st ecs now])
  case (fed k v d r)
  assume "observe host (ecs, now) = []"
  with fed(3) have "host \<noteq> k" by auto
  then show ?thesis
    using feed_rules_frame [of "(rid, host)" "ev_rules st" k v "event_id_of v" now "ev_partials st"] fed by simp
qed simp

lemma observe_cases:
  obtains "observe host e = []" | a where "observe host e = [a]"
proof -
  have "observe host e = [] \<or> (\<exists>a. observe host e = [a])" by (auto simp: observe_def split: sum.split)
  then show thesis using that by blast
qed

lemma run_follows:
  assumes "wf_evaluator st" "(rid, parsed) \<in> set (ev_rules st)" "p \<in> set (pget (ev_partials st) (rid, host))"
    "follows parsed p (observations host es) ids"
  shows "match_of rid host parsed ids \<in> set (snd (run st es))"
  using assms
proof (induction es arbitrary: st p)
  case Nil
  then show ?case by (auto simp: follows_def observations_def elim: greedy_Nil)
next
  case (Cons e es)
  obtain ecs now where e: "e = (ecs, now)" by (cases e)
  obtain st1 r where f: "feed_event st ecs now = (st1, r)" by (cases "feed_event st ecs now")
  have w: "wf_evaluator st1" using feed_event_wf_step [OF Cons.prems(1) f] by simp
  have rl: "(rid, parsed) \<in> set (ev_rules st1)" using feed_event_rules [of st ecs now] f Cons.prems(2) by simp
  have sub: "set (snd (run st1 es)) \<subseteq> set (snd (run st (e # es)))" using f e by (auto split: prod.split)
  show ?case
  proof (cases rule: observe_cases [of host e])
    case 1
    then have "p \<in> set (pget (ev_partials st1) (rid, host))"
      using feed_event_elsewhere [of host ecs now st rid] f e Cons.prems(3) by simp
    moreover have "observations host (e # es) = observations host es" using 1 by (simp add: observations_def)
    ultimately show ?thesis using Cons.IH [OF w rl] Cons.prems(4) sub by auto
  next
    case (2 a)
    then have ob: "observations host (e # es) = a # observations host es" by (simp add: observations_def)
    from feed_event_at [OF Cons.prems(1,2) 2 [unfolded e] f] obtain ms mss where r: "r = Inr mss" "set ms \<subseteq> set mss"
      and rs: "rule_step host (o_view a) (o_id a) (o_now a) rid parsed (pget (ev_partials st) (rid, host)) =
        Inr (pget (ev_partials st1) (rid, host), ms)" by blast
    from rs obtain ss where ss: "mapE (advance rid host parsed (o_view a) (o_id a) (o_now a)) (pget (ev_partials st) (rid, host)) = Inr ss"
      "ms = matches_of ss" "set (survivors_of ss) \<subseteq> set (pget (ev_partials st1) (rid, host))"
      unfolding rule_step_eq_Inr by (metis set_append sup_ge1 order_refl)
    from advance_follows [OF Cons.prems(4) [unfolded ob], of rid host] show ?thesis
    proof
      assume "advance rid host parsed (o_view a) (o_id a) (o_now a) p = Inr (Emitted (match_of rid host parsed ids))"
      then have "match_of rid host parsed ids \<in> set mss" using mapE_advance_mem [OF ss(1) Cons.prems(3)] ss(2) r(2) by blast
      then show ?thesis using f e r(1) by (auto split: prod.split)
    next
      assume "\<exists>p'. advance rid host parsed (o_view a) (o_id a) (o_now a) p = Inr (Kept p') \<and> follows parsed p' (observations host es) ids"
      then obtain p' where "p' \<in> set (pget (ev_partials st1) (rid, host))" "follows parsed p' (observations host es) ids"
        using mapE_advance_mem [OF ss(1) Cons.prems(3)] ss(3) by blast
      from Cons.IH [OF w rl this] sub show ?thesis by blast
    qed
  qed
qed

lemma run_append:
  "run st (es @ fs) = (let (st1, ms1) = run st es; (st2, ms2) = run st1 fs in (st2, ms1 @ ms2))"
  by (induction es arbitrary: st) (auto split: prod.split)

lemma run_wf: "wf_evaluator st \<Longrightarrow> wf_evaluator (fst (run st es)) \<and> ev_rules (fst (run st es)) = ev_rules st"
proof (induction es arbitrary: st)
  case (Cons e es)
  obtain st1 r where f: "feed_event st (fst e) (snd e) = (st1, r)" by fastforce
  then have "wf_evaluator st1" "ev_rules st1 = ev_rules st"
    using feed_event_wf_step [OF Cons.prems f] feed_event_rules [of st "fst e" "snd e"] by auto
  with Cons.IH f show ?case by (auto split: prod.split) (metis fst_conv)+
qed simp

lemma run_complete_from_trigger:
  assumes "wf_evaluator st" "(rid, parsed) \<in> set (ev_rules st)"
    "observe host e = [a]" "trigger_matches parsed (o_view a)"
    "greedy parsed 0 (o_now a + min (within_s (legs parsed ! 0)) (of_int (window_s parsed))) (observations host es') ids"
  shows "match_of rid host parsed (o_id a # ids) \<in> set (snd (run st (es @ e # es')))"
proof -
  obtain ecs now where e: "e = (ecs, now)" by (cases e)
  define st1 where "st1 = fst (run st es)"
  have w1: "wf_evaluator st1" "(rid, parsed) \<in> set (ev_rules st1)" using run_wf [OF assms(1)] assms(2) by (auto simp: st1_def)
  obtain st2 r where f: "feed_event st1 ecs now = (st2, r)" by fastforce
  have w2: "wf_evaluator st2" "(rid, parsed) \<in> set (ev_rules st2)"
    using feed_event_wf_step [OF w1(1) f] feed_event_rules [of st1 ecs now] f w1(2) by auto
  have ne: "legs parsed \<noteq> []" using greedy_bound [OF assms(5)] by auto
  define p where "p = \<lparr>leg_idx = 1, deadline_ts = o_now a + min (within_s (legs parsed ! 0)) (of_int (window_s parsed)),
            matched_event_ids = [o_id a]\<rparr>"
  have "first_partial parsed (o_id a) (o_now a) = Inr p" using ne by (simp add: first_partial_def py_nth_def p_def)
  with feed_event_at [OF w1 assms(3) [unfolded e] f] assms(4) have "p \<in> set (pget (ev_partials st2) (rid, host))"
    by (auto simp: rule_step_eq_Inr)
  from run_follows [OF w2 this, of es' "o_id a # ids"] assms(5)
  have "match_of rid host parsed (o_id a # ids) \<in> set (snd (run st2 es'))" by (simp add: follows_def p_def)
  with f e show ?thesis unfolding run_append by (auto simp: st1_def split: prod.splits)
qed


section \<open>Garbage collection over runs\<close>

lemma feed_event_gc:
  assumes "n \<le> now" "ev_rules st' = ev_rules st" "gc_related n (ev_partials st') (ev_partials st)"
  shows "snd (feed_event st' ecs now) = snd (feed_event st ecs now) \<and>
    gc_related n (ev_partials (fst (feed_event st' ecs now))) (ev_partials (fst (feed_event st ecs now)))"
  using feed_rules_gc [OF assms(1,3)] assms(2,3)
  by (auto simp: feed_event_def split: sum.split prod.split) (metis fst_conv snd_conv)+

lemma run_gc:
  "\<forall>e \<in> set es. n \<le> snd e \<Longrightarrow> ev_rules st' = ev_rules st \<Longrightarrow>
     gc_related n (ev_partials st') (ev_partials st) \<Longrightarrow> snd (run st' es) = snd (run st es)"
proof (induction es arbitrary: st st')
  case (Cons e es)
  then have n: "n \<le> snd e" by simp
  have rl: "ev_rules (fst (feed_event st' (fst e) (snd e))) = ev_rules (fst (feed_event st (fst e) (snd e)))"
    using Cons.prems(2) by (simp add: feed_event_rules)
  note g = feed_event_gc [OF n Cons.prems(2,3), of "fst e"]
  from Cons.IH [OF _ rl] Cons.prems(1) g
  have "snd (run (fst (feed_event st' (fst e) (snd e))) es) = snd (run (fst (feed_event st (fst e) (snd e))) es)" by simp
  with g show ?case by (auto split: prod.splits)
qed simp

section \<open>The rule life cycle\<close>

inductive reachable :: "SequenceEvaluator \<Rightarrow> bool" where
  init: "reachable init_evaluator"
| register: "reachable st \<Longrightarrow> parse_yaml yaml_load env body w = Inr parsed \<Longrightarrow>
     (\<forall>old. map_of (ev_rules st) rid = Some old \<longrightarrow> length (legs old) \<le> length (legs parsed)) \<Longrightarrow>
     reachable (register_rule rid parsed st)"
| forget: "reachable st \<Longrightarrow> reachable (forget_rule rid st)"
| feed: "reachable st \<Longrightarrow> reachable (fst (feed_event st ecs now))"
| collect: "reachable st \<Longrightarrow> reachable (fst (gc st now))"

lemma mapE_length: "mapE f xs = Inr ys \<Longrightarrow> length ys = length xs"
  by (induction xs arbitrary: ys) (auto simp: bindE_eq_Inr)

lemma parse_yaml_legs: "parse_yaml yaml_load env body w = Inr parsed \<Longrightarrow> legs parsed \<noteq> []"
  by (auto simp: parse_yaml_def parse_doc_def legs_list_def bindE_eq_Inr
      split: if_splits option.splits pyval.splits dest!: mapE_length)

lemma register_rule_wf:
  assumes wf: "wf_evaluator st" and ne: "legs parsed \<noteq> []"
    and grow: "\<forall>old. map_of (ev_rules st) rid = Some old \<longrightarrow> length (legs old) \<le> length (legs parsed)"
  shows "wf_evaluator (register_rule rid parsed st)"
proof -
  have dist: "distinct (map fst (ev_rules st))" using wf by (simp add: wf_evaluator_def)
  have "wf_partial parsed p" if p: "p \<in> set (pget (ev_partials st) (rid, host))" for p host
  proof (cases "map_of (ev_rules st) rid")
    case None
    then have "rid \<notin> fst ` set (ev_rules st)" by (simp add: map_of_eq_None_iff)
    with wf p show ?thesis by (fastforce simp: wf_evaluator_def)
  next
    case (Some old)
    then have "(rid, old) \<in> set (ev_rules st)" by (rule map_of_SomeD)
    with wf p have "wf_partial old p" by (fastforce simp: wf_evaluator_def)
    with grow Some show ?thesis by (auto simp: wf_partial_def)
  qed
  moreover have "(r, q) \<in> set (AList.update rid parsed (ev_rules st)) \<longleftrightarrow>
      (if r = rid then q = parsed else (r, q) \<in> set (ev_rules st))" for r q
    using dist distinct_update [OF dist, of rid parsed]
    by (metis (no_types, lifting) map_of_eq_Some_iff update_Some_unfold update_conv' fun_upd_apply option.inject)
  moreover have "wf_partial q p" if "(r, q) \<in> set (ev_rules st)" "p \<in> set (pget (ev_partials st) (r, host))" for r q p host
    using wf that by (fastforce simp: wf_evaluator_def)
  moreover have "legs q \<noteq> []" if "(r, q) \<in> set (ev_rules st)" for r q
    using wf that by (fastforce simp: wf_evaluator_def)
  ultimately show ?thesis
    using wf ne distinct_update [OF dist, of rid parsed]
    unfolding wf_evaluator_def register_rule_def by (auto simp: dom_update split: if_splits)
qed

lemma forget_rule_wf: "wf_evaluator st \<Longrightarrow> wf_evaluator (forget_rule rid st)"
proof -
  assume wf: "wf_evaluator st"
  have pg: "pget (filter (\<lambda>(key, _). fst key \<noteq> rid) d) k = (if fst k = rid then [] else pget d k)" for d :: partials_map and k
    by (induction d) (auto simp: pget_def)
  have "distinct (map fst (filter P d))" if "distinct (map fst d)" for P and d :: partials_map
    using that by (induction d) auto
  moreover have "fst ` set (AList.delete rid al) = fst ` set al - {rid}" "set (AList.delete rid al) = {x \<in> set al. fst x \<noteq> rid}"
    for al :: "(string \<times> ParsedSequence) list" by (force simp: AList.delete_eq)+
  ultimately show ?thesis using wf
    by (auto simp: wf_evaluator_def forget_rule_def pg distinct_delete)
qed

lemma gc_wf: "wf_evaluator st \<Longrightarrow> wf_evaluator (fst (gc st n))"
proof -
  assume wf: "wf_evaluator st"
  have "distinct (map fst (gc_partials n d))" if "distinct (map fst d)" for d
    using that by (induction d) (force simp: gc_partials_def)+
  with wf show ?thesis by (auto simp: wf_evaluator_def gc_def pget_gc live_def)
qed

lemma reachable_wf: "reachable st \<Longrightarrow> wf_evaluator st"
proof (induction rule: reachable.induct)
  case init
  then show ?case by (simp add: wf_evaluator_def init_evaluator_def pget_def)
next
  case (feed st ecs now)
  then show ?case using feed_event_wf_step [of st ecs now] by (metis prod.collapse)
qed (simp_all add: register_rule_wf parse_yaml_legs forget_rule_wf gc_wf)


section \<open>Properties\<close>

text \<open>Rules and events the concrete instances below use.\<close>

definition any_leg :: "rat \<Rightarrow> FollowedBySpec" where
  "any_leg w = \<lparr>leg_event_kind = ''any'', leg_where = TRUE_PRED, within_s = w\<rparr>"

definition any_rule :: "nat \<Rightarrow> ParsedSequence" where
  "any_rule n = \<lparr>trigger = \<lparr>trg_event_kind = ''any'', trg_where = TRUE_PRED\<rparr>, legs = replicate n (any_leg 10),
     emit = \<lparr>emit_severity = PStr ''high'', emit_message = ''seen''\<rparr>, window_s = 60\<rparr>"

definition plain_event :: "string \<Rightarrow> pydict" where
  "plain_event i = [(''event'', PDict [(''id'', PStr i)]), (''host'', PDict [(''id'', PStr ''h'')])]"

definition registry_event :: "string \<Rightarrow> pydict" where
  "registry_event i = (''registry'', PDict [(''path'', PStr ''HKLM'')]) # plain_event i"

definition network_event :: "string \<Rightarrow> pydict" where
  "network_event i = (''network'', PDict [(''transport'', PStr ''tcp'')]) # plain_event i"

definition registry_then_network :: ParsedSequence where
  "registry_then_network = \<lparr>trigger = \<lparr>trg_event_kind = ''registry_set'', trg_where = TRUE_PRED\<rparr>,
     legs = [\<lparr>leg_event_kind = ''network_connection'', leg_where = TRUE_PRED, within_s = 10\<rparr>],
     emit = \<lparr>emit_severity = PStr ''high'', emit_message = ''seen''\<rparr>, window_s = 60\<rparr>"

definition evaluator_with :: "ParsedSequence \<Rightarrow> SequenceEvaluator" where
  "evaluator_with parsed = register_rule ''r'' parsed init_evaluator"

lemma evaluator_with_wf: "legs parsed \<noteq> [] \<Longrightarrow> wf_evaluator (evaluator_with parsed)"
  unfolding evaluator_with_def
  by (rule register_rule_wf) (auto simp: wf_evaluator_def init_evaluator_def pget_def)

lemma evaluator_with_simps [simp]:
  "ev_rules (evaluator_with parsed) = [(''r'', parsed)]" "ev_partials (evaluator_with parsed) = []"
  by (simp_all add: evaluator_with_def register_rule_def init_evaluator_def)

lemma registry_then_network_legs: "legs registry_then_network \<noteq> []"
  by (simp add: registry_then_network_def)

text \<open>
  In every state reached by registering parsed rules (an edit may not shorten a rule), forgetting
  rules, feeding events and collecting garbage, \<open>feed_event\<close> never indexes the legs out of range.
\<close>

theorem feed_event_no_index_error:
  assumes "reachable st"
  shows "snd (feed_event st ecs now) \<noteq> Inl IndexError"
  using feed_event_wf_step [OF reachable_wf [OF assms], of ecs now] by (metis prod.collapse)

theorem feed_event_no_index_error_witness:
  "snd (feed_event (fst (feed_event init_evaluator (plain_event ''a'') 0)) (plain_event ''b'') 1) \<noteq> Inl IndexError"
  by (rule feed_event_no_index_error, rule reachable.feed, rule reachable.init)

text \<open>
  C3: every match emitted while a history of events is fed to an evaluator that starts with no
  partials is genuine: it carries its rule's severity and message, and its event ids are those of an
  occurrence of the rule (trigger and legs in order, each leg within its deadline) among the events of its host.
\<close>

theorem run_sound:
  assumes "wf_evaluator st" "ev_partials st = []" "m \<in> set (snd (run st es))"
  shows "genuine (ev_rules st) es m"
  using assms by (rule run_sound_from_idle)

theorem run_sound_witness:
  "genuine [(''r'', registry_then_network)] [(registry_event ''a'', 0), (network_event ''c'', 2)]
     (match_of ''r'' (PStr ''h'') registry_then_network [''a'', ''c''])"
proof -
  have "match_of ''r'' (PStr ''h'') registry_then_network [''a'', ''c'']
      \<in> set (snd (run (evaluator_with registry_then_network) [(registry_event ''a'', 0), (network_event ''c'', 2)]))"
    by code_simp
  from run_sound [OF evaluator_with_wf _ this] show ?thesis
    by (simp add: registry_then_network_legs)
qed

text \<open>
  C4: from any well-formed state, if an event triggers a rule on a host and afterwards every leg in
  turn is served, before its deadline, by the first event of that host that fits the leg, then the run
  emits the match with exactly these event ids.
\<close>

theorem run_complete:
  assumes "wf_evaluator st" "(rid, parsed) \<in> set (ev_rules st)"
    "observe host e = [a]" "trigger_matches parsed (o_view a)"
    "greedy parsed 0 (o_now a + min (within_s (legs parsed ! 0)) (of_int (window_s parsed))) (observations host es') ids"
  shows "match_of rid host parsed (o_id a # ids) \<in> set (snd (run st (es @ e # es')))"
  using assms by (rule run_complete_from_trigger)

theorem run_complete_witness:
  "match_of ''r'' (PStr ''h'') registry_then_network (''a'' # [''c''])
     \<in> set (snd (run (evaluator_with registry_then_network) ([] @ (registry_event ''a'', 0) # [(network_event ''c'', 2)])))"
proof -
  define a where "a = hd (observe (PStr ''h'') (registry_event ''a'', 0))"
  define c where "c = hd (observe (PStr ''h'') (network_event ''c'', 2))"
  have a: "observe (PStr ''h'') (registry_event ''a'', 0) = [a]" "trigger_matches registry_then_network (o_view a)"
      "o_id a = ''a''" "o_now a = 0" unfolding a_def by code_simp+
  have c: "observations (PStr ''h'') [(network_event ''c'', 2)] = [c]"
    "leg_matches (legs registry_then_network ! 0) (o_view c)" "o_id c = ''c''" "o_now c = 2" unfolding c_def by code_simp+
  have "greedy registry_then_network 0 (0 + min (within_s (legs registry_then_network ! 0)) (of_int (window_s registry_then_network)))
     [c] [o_id c]"
    by (rule greedy.last) (use c in \<open>simp_all add: registry_then_network_def\<close>)
  with run_complete [OF evaluator_with_wf [OF registry_then_network_legs] _ a(1,2), where rid = "''r''"
      and es' = "[(network_event ''c'', 2)]" and ids = "[''c'']" and es = "[]"] a c
  show ?thesis by (simp add: registry_then_network_legs)
qed

text \<open>
  Collecting garbage at time \<open>n\<close> removes exactly the partials it counts and changes no match of
  any later run.
\<close>

theorem gc_transparent:
  assumes "wf_evaluator st" "\<forall>e \<in> set es. n \<le> snd e"
  shows "snd (run (fst (gc st n)) es) = snd (run st es) \<and>
    snd (gc st n) + pending_count (fst (gc st n)) = pending_count st"
proof -
  have "gc_related n (ev_partials (fst (gc st n))) (ev_partials st)"
    using assms(1) by (simp add: gc_def gc_related_def wf_evaluator_def pget_gc)
  then show ?thesis using run_gc [OF assms(2), of "fst (gc st n)" st] gc_count by (simp add: gc_def)
qed

theorem gc_transparent_witness:
  "snd (run (fst (gc (evaluator_with registry_then_network) 1)) [(registry_event ''a'', 1), (network_event ''c'', 2)])
     = [match_of ''r'' (PStr ''h'') registry_then_network [''a'', ''c'']]"
proof -
  have "snd (run (evaluator_with registry_then_network) [(registry_event ''a'', 1), (network_event ''c'', 2)])
     = [match_of ''r'' (PStr ''h'') registry_then_network [''a'', ''c'']]" by code_simp
  then show ?thesis
    using gc_transparent [OF evaluator_with_wf, of registry_then_network "[(registry_event ''a'', 1), (network_event ''c'', 2)]" 1]
    by (simp add: registry_then_network_legs)
qed

text \<open>
  Registering an edited rule keeps the partials of its previous body, so an edit that removes
  legs leaves a partial whose leg index is past the end, and the next event of that host makes
  \<open>feed_event\<close> raise \<open>IndexError\<close> for every rule (instance: a two-leg rule edited to one leg).
\<close>

theorem shortened_rule_raises:
  "snd (feed_event
      (register_rule ''r'' (any_rule 1)
        (fst (run (evaluator_with (any_rule 2)) [(plain_event ''a'', 0), (plain_event ''b'', 1)])))
      (plain_event ''c'') 2) = Inl IndexError"
  by code_simp

text \<open>
  One event can complete several partials of the same rule, so \<open>feed_event\<close> returns more matches
  than there are rules (instance: a registry write, twice, followed by a connection).
\<close>

lemma several_matches_per_rule:
  "let st = fst (run (evaluator_with registry_then_network) [(registry_event ''a'', 0), (registry_event ''b'', 1)])
   in length (ev_rules st) = 1 \<and>
      snd (feed_event st (network_event ''c'') 2) =
        Inr [match_of ''r'' (PStr ''h'') registry_then_network [''a'', ''c''],
             match_of ''r'' (PStr ''h'') registry_then_network [''b'', ''c'']]"
  by code_simp

end
