(* ===== verification/Json.thy ===== *)
theory Json
  imports Pyval "HOL-Library.List_Lexorder" "HOL-Library.Char_ord"
begin

text \<open>
  \<open>json.dumps(obj, sort_keys=True, separators=(",", ":"))\<close>, the canonical text the manager signs and
  hashes, and the fact that makes it usable as such: the text determines the document, up to the order
  of dictionary keys.
\<close>

section \<open>The printer\<close>

definition json_char :: "char \<Rightarrow> string" where
  "json_char c = (let n = code c in
     if c = dquote \<or> c = bslash then [bslash, c]
     else if n = 10 then [bslash, CHR ''n'']
     else if n = 13 then [bslash, CHR ''r'']
     else if n = 9 then [bslash, CHR ''t'']
     else if n = 12 then [bslash, CHR ''f'']
     else if n = 8 then [bslash, CHR ''b'']
     else if n < 32 \<or> 126 < n then bslash # ''u00'' @ hex2 n
     else [c])"

definition json_str :: "string \<Rightarrow> string" where
  "json_str s = dquote # concat (map json_char s) @ [dquote]"

fun json_print :: "pyval \<Rightarrow> string" where
  "json_print PNone = ''null''"
| "json_print (PBool b) = (if b then ''true'' else ''false'')"
| "json_print (PInt i) = show_int i"
| "json_print (PFloat q) = repr_float q"
| "json_print (PStr s) = json_str s"
| "json_print (PList xs) = ''['' @ join '','' (map json_print xs) @ '']''"
| "json_print (PDict d) = ''{'' @ join '','' (map (\<lambda>(k, v). json_str k @ '':'' @ json_print v) d) @ ''}''"

fun sort_keys :: "pyval \<Rightarrow> pyval" where
  "sort_keys (PList xs) = PList (map sort_keys xs)"
| "sort_keys (PDict d) = PDict (sort_key fst (map (\<lambda>(k, v). (k, sort_keys v)) d))"
| "sort_keys v = v"

definition json_dumps_sorted :: "pyval \<Rightarrow> string" where
  "json_dumps_sorted v = json_print (sort_keys v)"

fun no_floats :: "pyval \<Rightarrow> bool" where
  "no_floats (PFloat q) = False"
| "no_floats (PList xs) = list_all no_floats xs"
| "no_floats (PDict d) = list_all (\<lambda>(k, v). no_floats v) d"
| "no_floats _ = True"

section \<open>The text determines the document\<close>

text \<open>A reader for one escaped character.\<close>

definition hex_val :: "char \<Rightarrow> nat" where
  "hex_val c = (if code c < 58 then code c - 48 else code c - 87)"

fun unescape1 :: "string \<Rightarrow> (char \<times> string)" where
  "unescape1 (c # s) =
     (if c \<noteq> bslash then (c, s)
      else (case s of
          d # r \<Rightarrow>
            (if d = CHR ''n'' then (CHR 0x0A, r) else if d = CHR ''r'' then (CHR 0x0D, r)
             else if d = CHR ''t'' then (CHR 0x09, r) else if d = CHR ''f'' then (CHR 0x0C, r)
             else if d = CHR ''b'' then (CHR 0x08, r)
             else if d = CHR ''u'' then (char_of (16 * hex_val (r ! 2) + hex_val (r ! 3)), drop 4 r)
             else (d, r))
        | [] \<Rightarrow> (c, s)))"
| "unescape1 [] = (CHR 0x00, [])"

lemma hex_val_digit_char: "n < 16 \<Longrightarrow> hex_val (digit_char n) = n"
  by (auto simp: hex_val_def digit_char_def code_char_of)

lemma code_inj: "code c = code d \<longleftrightarrow> c = d"
  by (simp add: code_def)

lemma unescape1_json_char: "unescape1 (json_char c @ r) = (c, r)"
proof -
  have h: "code c < 256" by (simp add: code_def)
  have "16 * hex_val (digit_char (code c div 16)) + hex_val (digit_char (code c mod 16)) = code c"
    using h by (simp add: hex_val_digit_char)
  moreover have "char_of (code c) = c" by (simp add: code_def)
  moreover have "code c = k \<Longrightarrow> c = char_of k" for k by (auto simp: code_def)
  moreover have "CHR 0x08 = char_of (8::nat)" "CHR 0x09 = char_of (9::nat)" "CHR 0x0A = char_of (10::nat)"
    "CHR 0x0C = char_of (12::nat)" "CHR 0x0D = char_of (13::nat)" by code_simp+
  ultimately show ?thesis
    by (auto simp: json_char_def Let_def hex2_def bslash_def dquote_def)
qed

lemma json_char_head [simp]: "json_char c \<noteq> dquote # s" "dquote # s \<noteq> json_char c"
  by (auto simp: json_char_def Let_def bslash_def dquote_def split: if_splits)

lemma json_char_nonempty: "json_char c \<noteq> []"
  by (auto simp: json_char_def Let_def)

lemma json_body_inj:
  "concat (map json_char s) @ dquote # r = concat (map json_char t) @ dquote # r' \<Longrightarrow> s = t \<and> r = r'"
proof (induction s arbitrary: t)
  case Nil
  then show ?case
    by (cases t) (auto simp: append_eq_Cons_conv Cons_eq_append_conv json_char_nonempty)
next
  case (Cons c s)
  show ?case
  proof (cases t)
    case Nil
    with Cons.prems show ?thesis
      by (auto simp: append_eq_Cons_conv Cons_eq_append_conv json_char_nonempty)
  next
    case (Cons d t')
    with Cons.prems have "json_char c @ (concat (map json_char s) @ dquote # r) = json_char d @ (concat (map json_char t') @ dquote # r')"
      by simp
    then have "c = d \<and> concat (map json_char s) @ dquote # r = concat (map json_char t') @ dquote # r'"
      by (metis unescape1_json_char prod.inject)
    with Cons.IH Cons show ?thesis by simp
  qed
qed

lemma json_str_inj: "json_str s @ r = json_str t @ r' \<Longrightarrow> s = t \<and> r = r'"
  using json_body_inj [of s r t r'] by (simp add: json_str_def)

text \<open>What may follow a printed value.\<close>

definition delimited :: "string \<Rightarrow> bool" where
  "delimited r \<longleftrightarrow> r = [] \<or> hd r \<in> {CHR '','', CHR '']'', CHR ''}''}"

lemma takeWhile_number:
  assumes "delimited r"
  shows "takeWhile (\<lambda>c. is_digit c \<or> c = CHR ''-'') (show_int i @ r) = show_int i"
proof -
  have all: "\<forall>c \<in> set (show_int i). is_digit c \<or> c = CHR ''-''"
    using show_nat_digits [of "nat i"] show_nat_digits [of "nat (- i)"] by (auto simp: show_int_def list_all_iff)
  have "takeWhile (\<lambda>c. is_digit c \<or> c = CHR ''-'') r = []"
    using assms by (cases r) (auto simp: delimited_def is_digit_def code_def)
  then show ?thesis using all by (simp add: takeWhile_append2)
qed

lemma show_int_prefix_inj:
  "show_int i @ r = show_int j @ s \<Longrightarrow> delimited r \<Longrightarrow> delimited s \<Longrightarrow> i = j \<and> r = s"
  using takeWhile_number [of r i] takeWhile_number [of s j] by (metis show_int_inj same_append_eq)

definition print_inj :: "pyval \<Rightarrow> bool" where
  "print_inj v \<longleftrightarrow> (\<forall>w r s. no_floats w \<longrightarrow> delimited r \<longrightarrow> delimited s \<longrightarrow>
     json_print v @ r = json_print w @ s \<longrightarrow> v = w \<and> r = s)"

lemma show_int_head: "show_int i = c # s \<Longrightarrow> is_digit c \<or> c = CHR ''-''"
  using show_nat_digits [of "nat i"] by (auto simp: show_int_def split: if_splits)

lemma show_int_nonempty [simp]: "show_int i \<noteq> []"
  by (simp add: show_int_def show_nat_nonempty)

text \<open>The first character tells the constructor.\<close>

fun first_char :: "pyval \<Rightarrow> char \<Rightarrow> bool" where
  "first_char PNone c = (c = CHR ''n'')"
| "first_char (PBool b) c = (c = (if b then CHR ''t'' else CHR ''f''))"
| "first_char (PInt i) c = (is_digit c \<or> c = CHR ''-'')"
| "first_char (PFloat q) c = (is_digit c \<or> c = CHR ''-'')"
| "first_char (PStr s) c = (c = dquote)"
| "first_char (PList xs) c = (c = CHR ''['')"
| "first_char (PDict d) c = (c = CHR ''{'')"

lemma json_print_first: "no_floats v \<Longrightarrow> \<exists>c s. json_print v = c # s \<and> first_char v c"
proof (cases v)
  case (PInt i)
  then show ?thesis using show_int_head [of i] by (cases "show_int i") auto
qed (auto simp: json_str_def)

lemma delimited_Cons [simp]: "delimited (CHR '','' # r)" "delimited (CHR '']'' # r)" "delimited (CHR ''}'' # r)"
  by (simp_all add: delimited_def)

lemma join_items_inj:
  assumes "\<And>x y r s. x \<in> set xs \<Longrightarrow> Q y \<Longrightarrow> delimited r \<Longrightarrow> delimited s \<Longrightarrow> f x @ r = f y @ s \<Longrightarrow> x = y \<and> r = s"
    and "\<And>x. x \<in> set xs \<or> Q x \<Longrightarrow> f x \<noteq> [] \<and> hd (f x) \<noteq> close"
    and "close = CHR '']'' \<or> close = CHR ''}''" "\<forall>y \<in> set ys. Q y"
    and "join '','' (map f xs) @ close # r = join '','' (map f ys) @ close # s"
  shows "xs = ys \<and> r = s"
  using assms
proof (induction xs arbitrary: ys)
  case Nil
  show ?case
  proof (cases ys)
    case (Cons y ys')
    then have "f y \<noteq> []" "hd (f y) \<noteq> close" using Nil.prems(2) [of y] Nil.prems(4) by auto
    with Nil.prems(5) Cons show ?thesis by (cases ys'; cases "f y") auto
  qed (use Nil.prems(5) in simp)
next
  case (Cons x xs)
  from Cons.prems(2) have hx: "f x \<noteq> []" "hd (f x) \<noteq> close" by auto
  show ?case
  proof (cases ys)
    case Nil
    with Cons.prems(5) hx show ?thesis by (cases xs; cases "f x") auto
  next
    case ys: (Cons y ys')
    have d: "delimited (close # r)" "delimited (close # s)" using Cons.prems(3) by auto
    let ?t = "\<lambda>zs t. if zs = [] then close # t else CHR '','' # join '','' (map f zs) @ close # t"
    have sp: "join '','' (map f (z # zs)) @ close # t = f z @ ?t zs t" for z zs t by (cases zs) auto
    have dt: "delimited (?t zs t)" if "delimited (close # t)" for zs t using that by simp
    from Cons.prems(5) ys have "f x @ ?t xs r = f y @ ?t ys' s" by (simp only: sp)
    from Cons.prems(1) [OF _ _ dt dt this] Cons.prems(4) ys d have eq: "x = y" "?t xs r = ?t ys' s" by auto
    have nc: "close \<noteq> CHR '',''" using Cons.prems(3) by auto
    from eq(2) nc consider "xs = []" "ys' = []" "r = s"
      | "xs \<noteq> []" "ys' \<noteq> []" "join '','' (map f xs) @ close # r = join '','' (map f ys') @ close # s"
      by (auto split: if_splits)
    then show ?thesis
    proof cases
      case 2
      have "xs = ys' \<and> r = s"
      proof (rule Cons.IH)
        show "x' = y' \<and> r' = s'"
          if "x' \<in> set xs" "Q y'" "delimited r'" "delimited s'" "f x' @ r' = f y' @ s'" for x' y' r' s'
          using Cons.prems(1) [of x' y' r' s'] that by simp
        show "f x' \<noteq> [] \<and> hd (f x') \<noteq> close" if "x' \<in> set xs \<or> Q x'" for x' using Cons.prems(2) [of x'] that by auto
        show "\<forall>y \<in> set ys'. Q y" using Cons.prems(4) ys by simp
      qed (rule Cons.prems(3), rule 2(3))
      then show ?thesis using ys eq(1) by simp
    qed (use eq ys in simp)
  qed
qed

lemma json_print_not_close: "no_floats v \<Longrightarrow> json_print v \<noteq> [] \<and> hd (json_print v) \<noteq> CHR '']''"
  using json_print_first [of v] by (cases v) (auto simp: dquote_def is_digit_def code_def)

definition json_item :: "string \<times> pyval \<Rightarrow> string" where
  "json_item kv = json_str (fst kv) @ '':'' @ json_print (snd kv)"

lemma json_print_PDict: "json_print (PDict d) = ''{'' @ join '','' (map json_item d) @ ''}''"
proof -
  have "(\<lambda>(k, v). json_str k @ '':'' @ json_print v) = json_item" by (auto simp: json_item_def)
  then show ?thesis by simp
qed

lemma json_print_inj: "no_floats v \<Longrightarrow> print_inj v"
proof (induction v)
  case (PList xs)
  show ?case unfolding print_inj_def
  proof (intro allI impI)
    fix w r s assume w: "no_floats w" and r: "delimited r" "delimited s" and eq: "json_print (PList xs) @ r = json_print w @ s"
    then obtain ys where ys: "w = PList ys"
      using json_print_first [OF w] by (cases w) (auto simp: dquote_def is_digit_def code_def split: if_splits)
    have "xs = ys \<and> r = s"
    proof (rule join_items_inj [where f = json_print and Q = no_floats and close = "CHR '']''"])
      show "x = y \<and> r = s" if "x \<in> set xs" "no_floats y" "delimited r" "delimited s" "json_print x @ r = json_print y @ s" for x y r s
        using PList.IH [OF that(1)] PList.prems that by (auto simp: print_inj_def list_all_iff)
      show "json_print x \<noteq> [] \<and> hd (json_print x) \<noteq> CHR '']''" if "x \<in> set xs \<or> no_floats x" for x
        using that PList.prems json_print_not_close by (auto simp: list_all_iff)
    qed (use eq ys w in \<open>auto simp: list_all_iff\<close>)
    with ys show "PList xs = w \<and> r = s" by simp
  qed
next
  case (PDict d)
  show ?case unfolding print_inj_def
  proof (intro allI impI)
    fix w r s assume w: "no_floats w" and r: "delimited r" "delimited s" and eq: "json_print (PDict d) @ r = json_print w @ s"
    then obtain e where e: "w = PDict e"
      using json_print_first [OF w] by (cases w) (auto simp: dquote_def is_digit_def code_def split: if_splits)
    have "d = e \<and> r = s"
    proof (rule join_items_inj [where f = json_item and Q = "\<lambda>kv. no_floats (snd kv)" and close = "CHR ''}''"])
      show "x = y \<and> r = s"
        if "x \<in> set d" "no_floats (snd y)" "delimited r" "delimited s" "json_item x @ r = json_item y @ s" for x y r s
      proof -
        have "fst x = fst y" "json_print (snd x) @ r = json_print (snd y) @ s"
          using json_str_inj [of "fst x" _ "fst y"] that(5) unfolding json_item_def by (simp_all add: append.assoc) blast+
        moreover have "print_inj (snd x)" using PDict.IH [of x "snd x"] PDict.prems that(1) by (cases x) (auto simp: list_all_iff snds.simps)
        ultimately show ?thesis using that by (auto simp: print_inj_def prod_eq_iff)
      qed
      show "json_item x \<noteq> [] \<and> hd (json_item x) \<noteq> CHR ''}''" for x
        by (simp add: json_item_def json_str_def dquote_def)
    qed (use eq e w in \<open>auto simp: list_all_iff json_print_PDict simp del: json_print.simps(7)\<close>)
    with e show "PDict d = w \<and> r = s" by simp
  qed
next
  case (PInt i)
  show ?case unfolding print_inj_def
  proof (intro allI impI)
    fix w r s assume w: "no_floats w" and r: "delimited r" "delimited s" and eq: "json_print (PInt i) @ r = json_print w @ s"
    obtain c t where ct: "show_int i = c # t" by (cases "show_int i") auto
    with eq json_print_first [OF w] obtain j where "w = PInt j"
      using show_int_head [OF ct] w by (cases w) (auto simp: dquote_def is_digit_def code_def split: if_splits)
    with eq r show_int_prefix_inj [of i r j s] show "PInt i = w \<and> r = s" by simp
  qed
next
  case (PStr t)
  show ?case unfolding print_inj_def
  proof (intro allI impI)
    fix w r s assume w: "no_floats w" and eq: "json_print (PStr t) @ r = json_print w @ s"
    then obtain u where "w = PStr u"
      using json_print_first [OF w] by (cases w) (auto simp: json_str_def dquote_def is_digit_def code_def split: if_splits)
    with eq json_str_inj [of t r u s] show "PStr t = w \<and> r = s" by simp
  qed
qed (auto simp: print_inj_def dest!: json_print_first, (case_tac w; auto simp: dquote_def is_digit_def code_def split: if_splits)+)

text \<open>Sorting the keys keeps what a lookup finds.\<close>

lemma no_floats_sort_keys [simp]: "no_floats (sort_keys v) = no_floats v"
proof (induction v)
  case (PDict d)
  then show ?case by (force simp: list_all_iff snds.simps)
qed (auto simp: list_all_iff)

lemma map_of_sort_key:
  assumes "distinct (map fst d)"
  shows "map_of (sort_key fst d) = map_of d"
proof
  fix k
  have dist: "distinct (map fst (sort_key fst d))" using assms by (metis distinct_map distinct_sort set_sort)
  show "map_of (sort_key fst d) k = map_of d k"
  proof (cases "map_of d k")
    case None
    then have "map_of (sort_key fst d) k = None" by (simp add: map_of_eq_None_iff)
    with None show ?thesis by simp
  next
    case (Some v)
    then have "(k, v) \<in> set (sort_key fst d)" by (simp add: map_of_SomeD)
    with dist Some show ?thesis by simp
  qed
qed

lemma json_dumps_sorted_inj:
  "no_floats v \<Longrightarrow> no_floats w \<Longrightarrow> json_dumps_sorted v = json_dumps_sorted w \<Longrightarrow> sort_keys v = sort_keys w"
  using json_print_inj [of "sort_keys v"]
  by (auto simp: json_dumps_sorted_def print_inj_def delimited_def dest: spec [of _ "sort_keys w"] spec [of _ "[]"])

lemma sort_keys_PDict_lookup:
  assumes "sort_keys (PDict d) = sort_keys (PDict e)" "distinct (map fst d)" "distinct (map fst e)"
  shows "map_option sort_keys (map_of d k) = map_option sort_keys (map_of e k)"
proof -
  let ?f = "map (\<lambda>(k, v). (k, sort_keys v))"
  have dist: "distinct (map fst (?f d))" "distinct (map fst (?f e))"
    using assms(2,3) by (simp_all add: comp_def case_prod_beta' split_def)
  have "map_of (?f d) = map_of (?f e)"
    using assms(1) map_of_sort_key [OF dist(1)] map_of_sort_key [OF dist(2)] by simp
  then show ?thesis by (simp add: map_of_map fun_eq_iff)
qed

end
