(* ===== verification/Platform.thy ===== *)
theory Platform
  imports Pyval
begin

text \<open>
  Identifiers, time stamps and hexadecimal text. A \<open>UUID\<close> is its 128-bit integer value (the order
  PostgreSQL gives to the column); a \<open>datetime\<close> is a count of microseconds since the epoch, in UTC,
  which is how both Python and the \<open>timestamptz\<close> columns keep it.
\<close>

type_synonym uuid = nat
type_synonym datetime = int
type_synonym bytes = string

section \<open>Hexadecimal text\<close>

text \<open>The lowest \<open>n\<close> hexadecimal digits of \<open>k\<close>, most significant first.\<close>

primrec hex_fixed :: "nat \<Rightarrow> nat \<Rightarrow> string" where
  "hex_fixed 0 k = []"
| "hex_fixed (Suc n) k = hex_fixed n (k div 16) @ [digit_char (k mod 16)]"

lemma digit_char_inj: "m < 16 \<Longrightarrow> n < 16 \<Longrightarrow> digit_char m = digit_char n \<Longrightarrow> m = n"
  by (auto simp: digit_char_def dest!: arg_cong [where f = code] split: if_splits simp: code_char_of)

lemma length_hex_fixed [simp]: "length (hex_fixed n k) = n"
  by (induction n arbitrary: k) simp_all

lemma hex_fixed_inj: "hex_fixed n j = hex_fixed n k \<Longrightarrow> j < 16 ^ n \<Longrightarrow> k < 16 ^ n \<Longrightarrow> j = k"
proof (induction n arbitrary: j k)
  case (Suc n)
  then have "hex_fixed n (j div 16) = hex_fixed n (k div 16)" "digit_char (j mod 16) = digit_char (k mod 16)" by simp_all
  moreover have "j div 16 < 16 ^ n" "k div 16 < 16 ^ n" using Suc.prems by (simp_all add: less_mult_imp_div_less mult.commute)
  ultimately have "j div 16 = k div 16" "j mod 16 = k mod 16" using Suc.IH digit_char_inj [of "j mod 16" "k mod 16"] by simp_all
  then show ?case by (metis div_mult_mod_eq)
qed simp

definition hexdigest :: "bytes \<Rightarrow> string" where
  "hexdigest bs = concat (map (\<lambda>b. hex_fixed 2 (code b)) bs)"

section \<open>UUIDs\<close>

text \<open>\<open>str(u)\<close>: 32 hexadecimal digits grouped 8-4-4-4-12.\<close>

definition uuid_str :: "uuid \<Rightarrow> string" where
  "uuid_str u = (let h = hex_fixed 32 u in
     take 8 h @ ''-'' @ take 4 (drop 8 h) @ ''-'' @ take 4 (drop 12 h) @ ''-'' @ take 4 (drop 16 h) @ ''-'' @ drop 20 h)"

definition is_uuid :: "uuid \<Rightarrow> bool" where
  "is_uuid u \<longleftrightarrow> u < 2 ^ 128"

lemma uuid_groups: "h = take 8 h @ take 4 (drop 8 h) @ take 4 (drop 12 h) @ take 4 (drop 16 h) @ drop 20 h" for h :: string
  using append_take_drop_id [of 8 h] append_take_drop_id [of 4 "drop 8 h"] append_take_drop_id [of 4 "drop 12 h"]
    append_take_drop_id [of 4 "drop 16 h"] by simp

lemma uuid_str_inj: "is_uuid u \<Longrightarrow> is_uuid v \<Longrightarrow> uuid_str u = uuid_str v \<Longrightarrow> u = v"
proof -
  assume u: "is_uuid u" "is_uuid v" and eq: "uuid_str u = uuid_str v"
  from eq have "hex_fixed 32 u = hex_fixed 32 v"
    by (subst uuid_groups [of "hex_fixed 32 u"], subst uuid_groups [of "hex_fixed 32 v"]) (simp add: uuid_str_def Let_def)
  with u show "u = v" using hex_fixed_inj [of 32 u v] by (simp add: is_uuid_def)
qed

section \<open>Reading UUIDs\<close>

definition uuid_hex :: "uuid \<Rightarrow> string" where
  "uuid_hex u = hex_fixed 32 u"

text \<open>\<open>s.replace(pat, "")\<close>\<close>

fun remove_sub :: "string \<Rightarrow> string \<Rightarrow> string" where
  "remove_sub pat [] = []"
| "remove_sub pat (c # s) =
     (if pat \<noteq> [] \<and> prefix pat (c # s) then remove_sub pat (drop (length pat - 1) s) else c # remove_sub pat s)"

definition strip_chars :: "string \<Rightarrow> string \<Rightarrow> string" where
  "strip_chars cs s = rev (dropWhile (\<lambda>c. c \<in> set cs) (rev (dropWhile (\<lambda>c. c \<in> set cs) s)))"

definition hex_digit_val :: "char \<Rightarrow> nat option" where
  "hex_digit_val c = (let n = code c in
     if 48 \<le> n \<and> n \<le> 57 then Some (n - 48)
     else if 97 \<le> n \<and> n \<le> 102 then Some (n - 87)
     else if 65 \<le> n \<and> n \<le> 70 then Some (n - 55) else None)"

definition is_hex :: "char \<Rightarrow> bool" where
  "is_hex c \<longleftrightarrow> hex_digit_val c \<noteq> None"

definition read_hex :: "string \<Rightarrow> nat" where
  "read_hex s = foldl (\<lambda>a c. 16 * a + the (hex_digit_val c)) 0 s"

text \<open>\<open>int(s, 16)\<close>: white space around, a sign, an \<open>0x\<close> prefix, single underscores between digits.\<close>

definition int_of_hex :: "string \<Rightarrow> int option" where
  "int_of_hex s =
     (let t = strip s;
          neg = (t \<noteq> [] \<and> hd t = CHR ''-'');
          b0 = (if t \<noteq> [] \<and> (hd t = CHR ''-'' \<or> hd t = CHR ''+'') then tl t else t);
          pre = (prefix ''0x'' b0 \<or> prefix ''0X'' b0);
          b = (if pre then (if prefix ''_'' (drop 2 b0) then drop 3 b0 else drop 2 b0) else b0);
          ds = filter (\<lambda>c. c \<noteq> CHR ''_'') b
      in if b \<noteq> [] \<and> is_hex (hd b) \<and> is_hex (last b) \<and> list_all (\<lambda>c. is_hex c \<or> c = CHR ''_'') b
            \<and> no_double_underscore b
         then Some (if neg then - int (read_hex ds) else int (read_hex ds)) else None)"

text \<open>\<open>UUID(s)\<close>; \<open>None\<close> is \<open>ValueError\<close>.\<close>

definition uuid_of_str :: "string \<Rightarrow> uuid option" where
  "uuid_of_str s =
     (let h = filter (\<lambda>c. c \<noteq> CHR ''-'') (strip_chars ''{}'' (remove_sub ''uuid:'' (remove_sub ''urn:'' s))) in
      if length h \<noteq> 32 then None
      else (case int_of_hex h of
          Some i \<Rightarrow> (if 0 \<le> i \<and> i < 2 ^ 128 then Some (nat i) else None)
        | None \<Rightarrow> None))"

lemma remove_sub_absent: "pat = p # ps \<Longrightarrow> p \<notin> set s \<Longrightarrow> remove_sub pat s = s"
  by (induction pat s rule: remove_sub.induct) auto

lemma strip_chars_absent: "set cs \<inter> set s = {} \<Longrightarrow> strip_chars cs s = s"
proof -
  assume "set cs \<inter> set s = {}"
  then have "dropWhile (\<lambda>c. c \<in> set cs) s = s" "dropWhile (\<lambda>c. c \<in> set cs) (rev s) = rev s"
    by (auto simp: dropWhile_eq_self_iff dest: hd_in_set) (metis disjoint_iff hd_in_set rev_is_Nil_conv set_rev)
  then show ?thesis by (simp add: strip_chars_def)
qed

lemma hex_char_val: "n < 16 \<Longrightarrow> hex_digit_val (digit_char n) = Some n"
  by (auto simp: hex_digit_val_def digit_char_def code_char_of)

lemma hex_fixed_chars: "c \<in> set (hex_fixed n k) \<Longrightarrow> \<exists>m < 16. c = digit_char m"
proof (induction n arbitrary: k)
  case (Suc n)
  then show ?case by (cases "c = digit_char (k mod 16)") (auto intro: exI [of _ "k mod 16"])
qed simp

lemma read_hex_fixed: "k < 16 ^ n \<Longrightarrow> read_hex (hex_fixed n k) = k"
proof (induction n arbitrary: k)
  case (Suc n)
  have "k div 16 < 16 ^ n" using Suc.prems by (simp add: less_mult_imp_div_less mult.commute)
  then have "foldl (\<lambda>a c. 16 * a + the (hex_digit_val c)) 0 (hex_fixed n (k div 16)) = k div 16"
    using Suc.IH by (simp add: read_hex_def)
  then show ?case by (simp add: read_hex_def hex_char_val)
qed (simp add: read_hex_def)

lemma hex_fixed_not: "c \<in> set (hex_fixed n k) \<Longrightarrow>
    c \<noteq> CHR ''u'' \<and> c \<noteq> CHR ''{'' \<and> c \<noteq> CHR ''}'' \<and> c \<noteq> CHR ''-'' \<and> c \<noteq> CHR ''_'' \<and> c \<noteq> CHR ''+'' \<and>
    c \<noteq> CHR ''x'' \<and> c \<noteq> CHR ''X'' \<and> \<not> is_space c \<and> is_hex c"
proof -
  assume "c \<in> set (hex_fixed n k)"
  then obtain m where m: "m < 16" "c = digit_char m" using hex_fixed_chars by blast
  then have "48 \<le> code c \<and> code c \<le> 57 \<or> 97 \<le> code c \<and> code c \<le> 102" by (auto simp: digit_char_def code_char_of)
  then show ?thesis using hex_char_val [OF m(1)] m(2) by (auto simp: is_hex_def is_space_def code_def)
qed

lemma no_underscore_single: "CHR ''_'' \<notin> set s \<Longrightarrow> no_double_underscore s"
  by (induction s rule: no_double_underscore.induct) auto

lemma int_of_hex_fixed: "0 < n \<Longrightarrow> k < 16 ^ n \<Longrightarrow> int_of_hex (hex_fixed n k) = Some (int k)"
proof -
  assume n: "0 < n" and k: "k < 16 ^ n"
  let ?h = "hex_fixed n k"
  have ne: "?h \<noteq> []" using n by (metis length_hex_fixed list.size(3) not_less_zero)
  have all: "\<forall>c \<in> set ?h. \<not> is_space c \<and> c \<noteq> CHR ''_'' \<and> is_hex c \<and> c \<noteq> CHR ''-'' \<and> c \<noteq> CHR ''+'' \<and> c \<noteq> CHR ''x'' \<and> c \<noteq> CHR ''X''"
    using hex_fixed_not by blast
  have "dropWhile is_space ?h = ?h" "dropWhile is_space (rev ?h) = rev ?h"
    using all ne by (auto simp: dropWhile_eq_self_iff hd_rev)
  then have st: "strip ?h = ?h" by (simp add: strip_def)
  have "CHR ''x'' \<notin> set ?h" "CHR ''X'' \<notin> set ?h" using all by blast+
  then have np: "\<not> prefix ''0x'' ?h" "\<not> prefix ''0X'' ?h"
    by (metis list.set_intros(1,2) set_mono_prefix subsetD)+
  have fl: "filter (\<lambda>c. c \<noteq> CHR ''_'') ?h = ?h" using all by (simp add: filter_id_conv)
  have "hd ?h \<noteq> CHR ''-''" "hd ?h \<noteq> CHR ''+''" "is_hex (hd ?h)" "is_hex (last ?h)" using all ne by auto
  moreover have "no_double_underscore ?h" by (rule no_underscore_single) (use all in blast)
  ultimately show ?thesis using st np fl ne all
    by (simp add: int_of_hex_def Let_def list_all_iff read_hex_fixed [OF k])
qed

lemma uuid_of_hex: "is_uuid u \<Longrightarrow> uuid_of_str (uuid_hex u) = Some u"
proof -
  assume u: "is_uuid u"
  have u': "u < 16 ^ 32" using u by (simp add: is_uuid_def)
  have "set ''{}'' \<inter> set (uuid_hex u) = {}" "CHR ''u'' \<notin> set (uuid_hex u)" "CHR ''-'' \<notin> set (uuid_hex u)"
    using hex_fixed_not [of _ 32 u] by (auto simp: uuid_hex_def)
  then have "filter (\<lambda>c. c \<noteq> CHR ''-'') (strip_chars ''{}'' (remove_sub ''uuid:'' (remove_sub ''urn:'' (uuid_hex u)))) = uuid_hex u"
    by (auto simp: remove_sub_absent strip_chars_absent filter_id_conv)
  moreover have "length (uuid_hex u) = 32" "int_of_hex (uuid_hex u) = Some (int u)"
    using int_of_hex_fixed [OF _ u'] by (simp_all add: uuid_hex_def)
  ultimately show ?thesis using u by (simp add: uuid_of_str_def Let_def is_uuid_def)
qed

lemma uuid_of_uuid_str:
  assumes "is_uuid u"
  shows "uuid_of_str (uuid_str u) = Some u"
proof -
  let ?h = "hex_fixed 32 u"
  have no: "set ''{}'' \<inter> set ?h = {}" "CHR ''u'' \<notin> set ?h" "CHR ''-'' \<notin> set ?h"
    using hex_fixed_not [of _ 32 u] by auto
  have set_s: "set (uuid_str u) \<subseteq> set ?h \<union> {CHR ''-''}"
    by (auto simp: uuid_str_def Let_def dest: in_set_takeD in_set_dropD)
  then have "set ''{}'' \<inter> set (uuid_str u) = {}" "CHR ''u'' \<notin> set (uuid_str u)" using no by auto
  moreover have "filter (\<lambda>c. c \<noteq> CHR ''-'') (uuid_str u) = ?h"
  proof -
    have keep: "filter (\<lambda>c. c \<noteq> CHR ''-'') (take n (drop k ?h)) = take n (drop k ?h)"
      "filter (\<lambda>c. c \<noteq> CHR ''-'') (drop k ?h) = drop k ?h" "filter (\<lambda>c. c \<noteq> CHR ''-'') (take n ?h) = take n ?h" for n k
      using no(3) by (auto simp: filter_id_conv dest: in_set_takeD in_set_dropD)
    show ?thesis using uuid_groups [of ?h, symmetric] by (simp add: uuid_str_def Let_def keep)
  qed
  ultimately have "filter (\<lambda>c. c \<noteq> CHR ''-'') (strip_chars ''{}'' (remove_sub ''uuid:'' (remove_sub ''urn:'' (uuid_str u)))) = ?h"
    by (simp add: remove_sub_absent strip_chars_absent)
  moreover have "int_of_hex ?h = Some (int u)" using assms int_of_hex_fixed [of 32 u] by (simp add: is_uuid_def)
  ultimately show ?thesis using assms by (simp add: uuid_of_str_def Let_def is_uuid_def)
qed

section \<open>Time stamps\<close>

text \<open>The civil date of a day number (days since 1970-01-01), proleptic Gregorian.\<close>

definition civil_of_days :: "int \<Rightarrow> int \<times> int \<times> int" where
  "civil_of_days d =
     (let z = d + 719468; era = z div 146097; doe = z mod 146097;
          yoe = (doe - doe div 1460 + doe div 36524 - doe div 146096) div 365;
          doy = doe - (365 * yoe + yoe div 4 - yoe div 100);
          mp = (5 * doy + 2) div 153; day = doy - (153 * mp + 2) div 5 + 1;
          month = (if mp < 10 then mp + 3 else mp - 9)
      in (yoe + era * 400 + (if month \<le> 2 then 1 else 0), month, day))"

definition pad_int :: "nat \<Rightarrow> int \<Rightarrow> string" where
  "pad_int w i = (let s = show_nat (nat i) in replicate (w - length s) CHR ''0'' @ s)"

text \<open>\<open>dt.isoformat()\<close> of a time stamp in UTC.\<close>

definition isoformat :: "datetime \<Rightarrow> string" where
  "isoformat t =
     (let (y, m, d) = civil_of_days (t div 86400000000); r = t mod 86400000000;
          s = r div 1000000; us = r mod 1000000
      in pad_int 4 y @ ''-'' @ pad_int 2 m @ ''-'' @ pad_int 2 d @ ''T'' @
         pad_int 2 (s div 3600) @ '':'' @ pad_int 2 (s div 60 mod 60) @ '':'' @ pad_int 2 (s mod 60) @
         (if us = 0 then [] else ''.'' @ pad_int 6 us) @ ''+00:00'')"

text \<open>\<open>timedelta(seconds=n)\<close>\<close>

definition seconds :: "int \<Rightarrow> int" where
  "seconds n = n * 1000000"

section \<open>Capitals\<close>

text \<open>\<open>str.upper\<close>: two letters of Latin-1 have their capital outside it.\<close>

fun upper_str :: "string \<Rightarrow> string result" where
  "upper_str [] = Inr []"
| "upper_str (c # s) = bindE (upper_str s) (\<lambda>t.
     let n = code c in
     if n = 181 \<or> n = 255 then Inl UnicodeBeyondLatin1
     else if n = 223 then Inr (''SS'' @ t)
     else if (97 \<le> n \<and> n \<le> 122) \<or> (224 \<le> n \<and> n \<le> 254 \<and> n \<noteq> 247) then Inr (char_of (n - 32) # t)
     else Inr (c # t))"

end
