(* ===== verification/Access.thy ===== *)
theory Access
  imports Platform
begin

text \<open>
  Who makes a request and what it may see: the token formats of backend/app/core/security.py, the
  resolution of a bearer token to an \<open>Actor\<close> and the role guards of backend/app/core/deps.py, and
  the host and tenant scoping of backend/app/services/scoping.py. Decoding a JWT (PyJWT) and SHA-256
  are parameters; the tables are lists of rows.
\<close>

section \<open>Users, tokens, actors\<close>

definition DEFAULT_TENANT_ID :: uuid where
  "DEFAULT_TENANT_ID = 1"

datatype UserRole = ADMIN | ANALYST | VIEWER

record User =
  u_id :: uuid
  u_tenant_id :: uuid
  u_role :: UserRole
  u_disabled :: bool
  u_is_super_admin :: bool

record ApiToken =
  tok_id :: uuid
  tok_user_id :: uuid
  tok_secret_hash :: string
  tok_scopes :: "string list"
  tok_last_used_at :: "datetime option"
  tok_revoked_at :: "datetime option"
  tok_expires_at :: "datetime option"

record Actor =
  actor_user :: User
  actor_kind :: string
  actor_token_id :: "uuid option"
  actor_scopes :: "string list"
  actor_tenant_id :: uuid
  actor_is_super_admin :: bool

definition has_role :: "Actor \<Rightarrow> UserRole list \<Rightarrow> bool" where
  "has_role actor roles \<longleftrightarrow> u_role (actor_user actor) \<in> set roles"

record auth_db =
  db_users :: "User list"
  db_tokens :: "ApiToken list"

definition get_user :: "auth_db \<Rightarrow> uuid \<Rightarrow> User option" where
  "get_user db i = find (\<lambda>u. u_id u = i) (db_users db)"

definition get_token :: "auth_db \<Rightarrow> uuid \<Rightarrow> ApiToken option" where
  "get_token db i = find (\<lambda>t. tok_id t = i) (db_tokens db)"

section \<open>Token formats\<close>

definition API_TOKEN_PREFIX :: string where
  "API_TOKEN_PREFIX = ''edr_''"

definition format_api_token :: "uuid \<Rightarrow> string \<Rightarrow> string" where
  "format_api_token token_id secret = API_TOKEN_PREFIX @ uuid_hex token_id @ ''_'' @ secret"

text \<open>\<open>s.split(c, 1)\<close>: the parts before and after the first separator, if there is one.\<close>

definition split_once :: "char \<Rightarrow> string \<Rightarrow> (string \<times> string) option" where
  "split_once c s = (if c \<in> set s then Some (takeWhile (\<lambda>x. x \<noteq> c) s, tl (dropWhile (\<lambda>x. x \<noteq> c) s)) else None)"

definition parse_api_token :: "string \<Rightarrow> (uuid \<times> string) option" where
  "parse_api_token token =
     (if \<not> startswith token API_TOKEN_PREFIX then None
      else (case split_once CHR ''_'' (drop (length API_TOKEN_PREFIX) token) of
          None \<Rightarrow> None
        | Some (h, secret) \<Rightarrow> (case uuid_of_str h of None \<Rightarrow> None | Some i \<Rightarrow> Some (i, secret))))"

definition hash_api_token_secret :: "(bytes \<Rightarrow> bytes) \<Rightarrow> string \<Rightarrow> string" where
  "hash_api_token_secret sha256 secret = hexdigest (sha256 (utf8_encode secret))"

definition constant_time_eq :: "string \<Rightarrow> string \<Rightarrow> bool" where
  "constant_time_eq a b \<longleftrightarrow> utf8_encode a = utf8_encode b"

text \<open>The claims of an access or refresh token, and of the short-lived token between the two login steps.\<close>

definition jwt_claims :: "int \<Rightarrow> int \<Rightarrow> datetime \<Rightarrow> uuid \<Rightarrow> string \<Rightarrow> string \<Rightarrow> uuid option \<Rightarrow> bool \<Rightarrow> pydict" where
  "jwt_claims access_ttl_minutes refresh_ttl_days now sub role token_type tenant_id is_super_admin =
     (let expiry = (if token_type = ''access'' then now + seconds (60 * access_ttl_minutes)
                 else now + seconds (86400 * refresh_ttl_days))
      in [(''sub'', PStr (uuid_str sub)), (''role'', PStr role), (''type'', PStr token_type),
          (''iat'', PInt (now div 1000000)), (''exp'', PInt (expiry div 1000000)),
          (''is_super_admin'', PBool is_super_admin)] @
         (case tenant_id of None \<Rightarrow> [] | Some t \<Rightarrow> [(''tenant_id'', PStr (uuid_str t))]))"

definition MFA_PENDING_TTL_SECONDS :: int where
  "MFA_PENDING_TTL_SECONDS = 300"

definition mfa_pending_claims :: "datetime \<Rightarrow> uuid \<Rightarrow> pydict" where
  "mfa_pending_claims now sub =
     [(''sub'', PStr (uuid_str sub)), (''type'', PStr ''mfa_pending''), (''iat'', PInt (now div 1000000)),
      (''exp'', PInt ((now + seconds MFA_PENDING_TTL_SECONDS) div 1000000))]"

section \<open>From a bearer token to an actor\<close>

datatype jwt_outcome = Jwt_expired | Jwt_invalid | Jwt_claims pydict

definition unauthorized :: "string \<Rightarrow> exn" where
  "unauthorized detail = HTTPError 401 detail"

definition forbidden :: "string \<Rightarrow> exn" where
  "forbidden detail = HTTPError 403 detail"

text \<open>\<open>UUID(x)\<close> on any value.\<close>

definition uuid_of_val :: "pyval \<Rightarrow> uuid result" where
  "uuid_of_val v = (case v of
       PStr s \<Rightarrow> (case uuid_of_str s of Some u \<Rightarrow> Inr u | None \<Rightarrow> Inl ValueError)
     | PNone \<Rightarrow> Inl TypeError
     | _ \<Rightarrow> Inl AttributeError)"

definition resolve_jwt :: "(string \<Rightarrow> jwt_outcome) \<Rightarrow> auth_db \<Rightarrow> string \<Rightarrow> (User \<times> uuid \<times> bool) result" where
  "resolve_jwt decode_jwt db token = (case decode_jwt token of
       Jwt_expired \<Rightarrow> Inl (unauthorized ''token expired'')
     | Jwt_invalid \<Rightarrow> Inl (unauthorized ''invalid token'')
     | Jwt_claims payload \<Rightarrow>
         (if dget payload ''type'' \<noteq> PStr ''access'' then Inl (unauthorized ''wrong token type'')
          else bindE (case map_of payload ''sub'' of None \<Rightarrow> Inl KeyError | Some v \<Rightarrow> uuid_of_val v) (\<lambda>sub.
            case get_user db sub of
              None \<Rightarrow> Inl (unauthorized ''user inactive'')
            | Some user \<Rightarrow>
                (if u_disabled user then Inl (unauthorized ''user inactive'')
                 else bindE (if truthy (dget payload ''tenant_id'') then uuid_of_val (dget payload ''tenant_id'')
                             else Inr (u_tenant_id user)) (\<lambda>claimed_tenant.
                   Inr (user, claimed_tenant, truthy (dget_default payload ''is_super_admin'' (PBool False))))))))"

definition touch_token :: "uuid \<Rightarrow> datetime \<Rightarrow> auth_db \<Rightarrow> auth_db" where
  "touch_token i now db = db\<lparr>db_tokens := map (\<lambda>t. if tok_id t = i then t\<lparr>tok_last_used_at := Some now\<rparr> else t) (db_tokens db)\<rparr>"

definition resolve_api_token :: "(bytes \<Rightarrow> bytes) \<Rightarrow> datetime \<Rightarrow> auth_db \<Rightarrow> string \<Rightarrow> auth_db \<times> Actor result" where
  "resolve_api_token sha256 now db token = (case parse_api_token token of
       None \<Rightarrow> (db, Inl (unauthorized ''malformed api token''))
     | Some (token_id, secret) \<Rightarrow>
         (case get_token db token_id of
            None \<Rightarrow> (db, Inl (unauthorized ''revoked or unknown api token''))
          | Some t \<Rightarrow>
              (if tok_revoked_at t \<noteq> None then (db, Inl (unauthorized ''revoked or unknown api token''))
               else if (case tok_expires_at t of None \<Rightarrow> False | Some e \<Rightarrow> e < now)
               then (db, Inl (unauthorized ''api token expired''))
               else if \<not> constant_time_eq (hash_api_token_secret sha256 secret) (tok_secret_hash t)
               then (db, Inl (unauthorized ''invalid api token''))
               else (case get_user db (tok_user_id t) of
                   None \<Rightarrow> (db, Inl (unauthorized ''token owner inactive''))
                 | Some user \<Rightarrow>
                     (if u_disabled user then (db, Inl (unauthorized ''token owner inactive''))
                      else (touch_token (tok_id t) now db,
                            Inr \<lparr>actor_user = user, actor_kind = ''api_token'', actor_token_id = Some (tok_id t),
                                 actor_scopes = tok_scopes t, actor_tenant_id = u_tenant_id user,
                                 actor_is_super_admin = u_is_super_admin user\<rparr>))))))"

definition resolve_active_tenant :: "string option \<Rightarrow> User \<Rightarrow> bool \<Rightarrow> uuid" where
  "resolve_active_tenant cookie user is_super_admin =
     (if \<not> is_super_admin then u_tenant_id user
      else (case cookie of
          None \<Rightarrow> u_tenant_id user
        | Some raw \<Rightarrow>
            (if raw = [] then u_tenant_id user
             else (case uuid_of_str raw of Some t \<Rightarrow> t | None \<Rightarrow> u_tenant_id user))))"

text \<open>What both \<open>current_actor\<close> and \<open>current_actor_stream\<close> do once they have the token.\<close>

definition actor_of_token ::
  "(string \<Rightarrow> jwt_outcome) \<Rightarrow> (bytes \<Rightarrow> bytes) \<Rightarrow> datetime \<Rightarrow> string option \<Rightarrow> auth_db \<Rightarrow> string \<Rightarrow> auth_db \<times> Actor result" where
  "actor_of_token decode_jwt sha256 now cookie db token =
     (if startswith token ''edr_'' then resolve_api_token sha256 now db token
      else (db, bindE (resolve_jwt decode_jwt db token) (\<lambda>(user, claimed_tenant, claimed_super).
        if claimed_tenant \<noteq> u_tenant_id user then Inl (unauthorized ''tenant claim mismatch'')
        else if claimed_super \<noteq> u_is_super_admin user then Inl (unauthorized ''privilege claim mismatch'')
        else Inr \<lparr>actor_user = user, actor_kind = ''user'', actor_token_id = None, actor_scopes = [],
                  actor_tenant_id = resolve_active_tenant cookie user (u_is_super_admin user),
                  actor_is_super_admin = u_is_super_admin user\<rparr>)))"

definition bearer_token :: "string option \<Rightarrow> string option" where
  "bearer_token authorization = (case authorization of
       None \<Rightarrow> None
     | Some a \<Rightarrow> (if startswith (lower a) ''bearer '' then map_option (\<lambda>(_, r). strip r) (split_once CHR '' '' a) else None))"

definition current_actor ::
  "(string \<Rightarrow> jwt_outcome) \<Rightarrow> (bytes \<Rightarrow> bytes) \<Rightarrow> datetime \<Rightarrow> string option \<Rightarrow> auth_db \<Rightarrow> string option \<Rightarrow> auth_db \<times> Actor result" where
  "current_actor decode_jwt sha256 now cookie db authorization = (case bearer_token authorization of
       None \<Rightarrow> (db, Inl (unauthorized ''missing bearer token''))
     | Some token \<Rightarrow> actor_of_token decode_jwt sha256 now cookie db token)"

definition current_actor_stream ::
  "(string \<Rightarrow> jwt_outcome) \<Rightarrow> (bytes \<Rightarrow> bytes) \<Rightarrow> datetime \<Rightarrow> string option \<Rightarrow> auth_db \<Rightarrow> string option \<Rightarrow> string option
     \<Rightarrow> auth_db \<times> Actor result" where
  "current_actor_stream decode_jwt sha256 now cookie db authorization access_token =
     (let header = (case bearer_token authorization of None \<Rightarrow> [] | Some t \<Rightarrow> t);
          token = (if header \<noteq> [] then header else case access_token of None \<Rightarrow> [] | Some t \<Rightarrow> t)
      in if token = [] then (db, Inl (unauthorized ''missing bearer token''))
         else actor_of_token decode_jwt sha256 now cookie db token)"

definition require_role :: "UserRole list \<Rightarrow> Actor \<Rightarrow> Actor result" where
  "require_role roles actor = (if has_role actor roles then Inr actor else Inl (forbidden ''insufficient role''))"

definition require_super_admin :: "Actor \<Rightarrow> Actor result" where
  "require_super_admin actor = (if actor_is_super_admin actor then Inr actor else Inl (forbidden ''super-admin required''))"

definition RequireAdmin :: "Actor \<Rightarrow> Actor result" where
  "RequireAdmin = require_role [ADMIN]"

definition RequireAnalyst :: "Actor \<Rightarrow> Actor result" where
  "RequireAnalyst = require_role [ADMIN, ANALYST]"

definition RequireViewer :: "Actor \<Rightarrow> Actor result" where
  "RequireViewer = require_role [ADMIN, ANALYST, VIEWER]"

section \<open>Scoping\<close>

record scope_db =
  sc_hosts :: "(uuid \<times> uuid) list"
  sc_host_in_group :: "(uuid \<times> uuid) list"
  sc_user_host_group :: "(uuid \<times> uuid) list"

text \<open>\<open>sc_hosts\<close>: host id and its tenant; \<open>sc_host_in_group\<close>: host, group; \<open>sc_user_host_group\<close>: user, group.\<close>

definition is_admin :: "Actor \<Rightarrow> bool" where
  "is_admin actor = has_role actor [ADMIN]"

definition hosts_in_tenant :: "scope_db \<Rightarrow> uuid \<Rightarrow> uuid list" where
  "hosts_in_tenant db t = map fst (filter (\<lambda>(h, t'). t' = t) (sc_hosts db))"

definition group_visible :: "scope_db \<Rightarrow> uuid \<Rightarrow> uuid list" where
  "group_visible db user = [h. (h, g) \<leftarrow> sc_host_in_group db, (u, g') \<leftarrow> sc_user_host_group db, g' = g \<and> u = user]"

text \<open>\<open>apply_host_scope\<close>: the condition the added \<open>WHERE\<close> clause puts on a row's host column.\<close>

definition apply_host_scope :: "scope_db \<Rightarrow> Actor \<Rightarrow> uuid option \<Rightarrow> bool" where
  "apply_host_scope db actor host =
     (if is_admin actor
      then (case host of None \<Rightarrow> True | Some h \<Rightarrow> h \<in> set (hosts_in_tenant db (actor_tenant_id actor)))
      else (case host of None \<Rightarrow> False
            | Some h \<Rightarrow> h \<in> set (hosts_in_tenant db (actor_tenant_id actor)) \<and>
                h \<in> set (group_visible db (u_id (actor_user actor)))))"

definition apply_tenant_scope :: "Actor \<Rightarrow> uuid \<Rightarrow> bool" where
  "apply_tenant_scope actor tenant \<longleftrightarrow> tenant = actor_tenant_id actor"

definition host_visible_to :: "scope_db \<Rightarrow> Actor \<Rightarrow> uuid option \<Rightarrow> bool" where
  "host_visible_to db actor host = (case host of
       None \<Rightarrow> is_admin actor
     | Some h \<Rightarrow>
         (case map_of (sc_hosts db) h of
            None \<Rightarrow> False
          | Some host_tenant \<Rightarrow>
              (if host_tenant \<noteq> actor_tenant_id actor then False
               else if is_admin actor then True
               else list_ex (\<lambda>(h', g). h' = h \<and>
                      list_ex (\<lambda>(u, g'). g' = g \<and> u = u_id (actor_user actor)) (sc_user_host_group db))
                    (sc_host_in_group db))))"

definition visible_host_ids :: "scope_db \<Rightarrow> Actor \<Rightarrow> uuid list option" where
  "visible_host_ids db actor =
     (if is_admin actor then None
      else Some (remdups (filter (\<lambda>h. map_of (sc_hosts db) h = Some (actor_tenant_id actor))
             (group_visible db (u_id (actor_user actor))))))"

section \<open>Properties\<close>

lemma find_SomeD: "find P xs = Some x \<Longrightarrow> x \<in> set xs \<and> P x"
  by (auto simp: find_Some_iff in_set_conv_nth)

definition utf8_decode1 :: "string \<Rightarrow> char \<times> string" where
  "utf8_decode1 bs = (if code (hd bs) < 128 then (hd bs, tl bs)
     else (char_of ((code (hd bs) - 192) * 64 + (code (bs ! 1) - 128)), drop 2 bs))"

lemma utf8_decode1_char: "utf8_decode1 (utf8_char c @ r) = (c, r)"
proof -
  have lt: "code c < 256" by (simp add: code_def)
  have "char_of (code c) = c" by (simp add: code_def)
  moreover have "code c div 64 * 64 + code c mod 64 = code c" by simp
  ultimately show ?thesis using lt
    by (auto simp: utf8_decode1_def utf8_char_def Let_def code_char_of)
qed

lemma utf8_char_inj: "utf8_char c @ r = utf8_char d @ s \<Longrightarrow> c = d \<and> r = s"
  by (metis utf8_decode1_char prod.inject)

lemma utf8_encode_inj: "utf8_encode s = utf8_encode t \<longleftrightarrow> s = t"
proof
  have ne: "utf8_char c \<noteq> []" for c by (simp add: utf8_char_def Let_def)
  show "utf8_encode s = utf8_encode t \<Longrightarrow> s = t"
  proof (induction s arbitrary: t)
    case Nil
    then show ?case by (cases t) (auto simp: utf8_encode_def ne)
  next
    case (Cons c s)
    then obtain d t' where t: "t = d # t'" by (cases t) (auto simp: utf8_encode_def ne)
    with Cons.prems have "utf8_char c @ utf8_encode s = utf8_char d @ utf8_encode t'" by (simp add: utf8_encode_def)
    with utf8_char_inj Cons.IH t show ?case by blast
  qed
qed simp

text \<open>What makes an actor legitimate.\<close>

definition legitimate :: "(string \<Rightarrow> jwt_outcome) \<Rightarrow> (bytes \<Rightarrow> bytes) \<Rightarrow> datetime \<Rightarrow> auth_db \<Rightarrow> string \<Rightarrow> Actor \<Rightarrow> bool" where
  "legitimate decode_jwt sha256 now db token actor \<longleftrightarrow>
     actor_user actor \<in> set (db_users db) \<and> \<not> u_disabled (actor_user actor) \<and>
     actor_is_super_admin actor = u_is_super_admin (actor_user actor) \<and>
     (\<not> actor_is_super_admin actor \<or> actor_kind actor = ''api_token'' \<longrightarrow> actor_tenant_id actor = u_tenant_id (actor_user actor)) \<and>
     (if startswith token ''edr_''
      then actor_kind actor = ''api_token'' \<and>
        (\<exists>t secret. t \<in> set (db_tokens db) \<and> parse_api_token token = Some (tok_id t, secret) \<and>
           tok_user_id t = u_id (actor_user actor) \<and> actor_token_id actor = Some (tok_id t) \<and> actor_scopes actor = tok_scopes t \<and>
           tok_revoked_at t = None \<and> (\<forall>e. tok_expires_at t = Some e \<longrightarrow> now \<le> e) \<and>
           tok_secret_hash t = hash_api_token_secret sha256 secret)
      else actor_kind actor = ''user'' \<and>
        (\<exists>claims. decode_jwt token = Jwt_claims claims \<and> dget claims ''type'' = PStr ''access'' \<and>
           uuid_of_val (dget claims ''sub'') = Inr (u_id (actor_user actor)) \<and>
           truthy (dget claims ''is_super_admin'') = u_is_super_admin (actor_user actor) \<and>
           (truthy (dget claims ''tenant_id'') \<longrightarrow> uuid_of_val (dget claims ''tenant_id'') = Inr (u_tenant_id (actor_user actor)))))"

lemma truthy_default_False: "truthy (dget_default d k (PBool False)) = truthy (dget d k)"
  by (simp add: dget_default_def dget_def split: option.split)

lemma actor_of_token_legitimate:
  assumes "actor_of_token decode_jwt sha256 now cookie db token = (db', Inr actor)"
  shows "legitimate decode_jwt sha256 now db token actor"
proof (cases "startswith token ''edr_''")
  case True
  with assms obtain t secret where t: "t \<in> set (db_tokens db)" "parse_api_token token = Some (tok_id t, secret)"
    "tok_revoked_at t = None" "\<not> (case tok_expires_at t of None \<Rightarrow> False | Some e \<Rightarrow> e < now)"
    "tok_secret_hash t = hash_api_token_secret sha256 secret"
    and a: "actor_user actor \<in> set (db_users db)" "u_id (actor_user actor) = tok_user_id t" "\<not> u_disabled (actor_user actor)"
      "actor_kind actor = ''api_token''" "actor_token_id actor = Some (tok_id t)" "actor_scopes actor = tok_scopes t"
      "actor_tenant_id actor = u_tenant_id (actor_user actor)"
      "actor_is_super_admin actor = u_is_super_admin (actor_user actor)"
    by (auto simp: actor_of_token_def resolve_api_token_def get_user_def get_token_def constant_time_eq_def
        utf8_encode_inj split: option.splits if_splits dest!: find_SomeD)
  have "\<forall>e. tok_expires_at t = Some e \<longrightarrow> now \<le> e" using t(4) by (auto split: option.splits)
  then have "\<exists>t secret. t \<in> set (db_tokens db) \<and> parse_api_token token = Some (tok_id t, secret) \<and>
      tok_user_id t = u_id (actor_user actor) \<and> actor_token_id actor = Some (tok_id t) \<and> actor_scopes actor = tok_scopes t \<and>
      tok_revoked_at t = None \<and> (\<forall>e. tok_expires_at t = Some e \<longrightarrow> now \<le> e) \<and>
      tok_secret_hash t = hash_api_token_secret sha256 secret"
    using t a by (intro exI [of _ t] exI [of _ secret]) simp
  with True a show ?thesis unfolding legitimate_def by simp
next
  case False
  with assms obtain user ct cs where r: "resolve_jwt decode_jwt db token = Inr (user, ct, cs)" "ct = u_tenant_id user"
      "cs = u_is_super_admin user"
    and a: "actor_user actor = user" "actor_kind actor = ''user''" "actor_is_super_admin actor = u_is_super_admin user"
      "actor_tenant_id actor = resolve_active_tenant cookie user (u_is_super_admin user)"
    by (auto simp: actor_of_token_def bindE_eq_Inr split: if_splits)
  from r(1) obtain claims where d: "decode_jwt token = Jwt_claims claims" by (auto simp: resolve_jwt_def split: jwt_outcome.splits)
  with r(1) have ty: "dget claims ''type'' = PStr ''access''" by (auto simp: resolve_jwt_def split: if_splits)
  with r(1) d obtain v sub where sub: "map_of claims ''sub'' = Some v" "uuid_of_val v = Inr sub"
    "(case get_user db sub of
              None \<Rightarrow> Inl (unauthorized ''user inactive'')
            | Some user \<Rightarrow>
                (if u_disabled user then Inl (unauthorized ''user inactive'')
                 else bindE (if truthy (dget claims ''tenant_id'') then uuid_of_val (dget claims ''tenant_id'')
                             else Inr (u_tenant_id user)) (\<lambda>claimed_tenant.
                   Inr (user, claimed_tenant, truthy (dget_default claims ''is_super_admin'' (PBool False)))))) = Inr (user, ct, cs)"
    by (auto simp: resolve_jwt_def bindE_eq_Inr split: option.splits if_splits)
  have u: "user \<in> set (db_users db)" "u_id user = sub" "\<not> u_disabled user" "cs = truthy (dget claims ''is_super_admin'')"
    "truthy (dget claims ''tenant_id'') \<Longrightarrow> uuid_of_val (dget claims ''tenant_id'') = Inr ct"
    using sub(3) by (auto simp: get_user_def bindE_eq_Inr truthy_default_False split: option.splits if_splits dest!: find_SomeD)
  have "dget claims ''sub'' = v" using sub(1) by (simp add: dget_def)
  then show ?thesis using False d ty sub(2) u r(2,3) a unfolding legitimate_def
    by (auto simp: resolve_active_tenant_def)
qed

lemma takeWhile_append_sep: "c \<notin> set xs \<Longrightarrow> takeWhile (\<lambda>x. x \<noteq> c) (xs @ c # ys) = xs \<and> dropWhile (\<lambda>x. x \<noteq> c) (xs @ c # ys) = c # ys"
  by (induction xs) auto

lemma scope_helpers_agree:
  assumes "distinct (map fst (sc_hosts db))"
  shows "(apply_host_scope db actor (Some h) \<longleftrightarrow> host_visible_to db actor (Some h)) \<and>
    (host_visible_to db actor (Some h) \<longrightarrow> map_of (sc_hosts db) h = Some (actor_tenant_id actor)) \<and>
    (\<forall>hs. visible_host_ids db actor = Some hs \<longrightarrow> (h \<in> set hs \<longleftrightarrow> host_visible_to db actor (Some h)))"
proof -
  have ten: "h \<in> set (hosts_in_tenant db t) \<longleftrightarrow> map_of (sc_hosts db) h = Some t" for t
    using assms by (force simp: hosts_in_tenant_def)
  have grp: "h \<in> set (group_visible db u) \<longleftrightarrow>
      list_ex (\<lambda>(h', g). h' = h \<and> list_ex (\<lambda>(u', g'). g' = g \<and> u' = u) (sc_user_host_group db)) (sc_host_in_group db)" for u
    by (fastforce simp: group_visible_def list_ex_iff)
  show ?thesis
    by (auto simp: apply_host_scope_def host_visible_to_def visible_host_ids_def ten grp split: option.splits if_splits)
qed

text \<open>
  C8: a request is given an actor only for a bearer token that proves it: the actor's user exists
  and is enabled, the super-admin bit is the user's own, the tenant is the user's unless a super-admin
  switched it, and the token is either a live API token of that user with a matching secret hash, or
  a JWT of type access whose subject, tenant and privilege claims match the user row.
\<close>

theorem current_actor_legitimate:
  assumes "current_actor decode_jwt sha256 now cookie db authorization = (db', Inr actor)"
  shows "\<exists>token. bearer_token authorization = Some token \<and> legitimate decode_jwt sha256 now db token actor"
  using assms actor_of_token_legitimate by (auto simp: current_actor_def split: option.splits)

definition demo_user :: User where
  "demo_user = \<lparr>u_id = 7, u_tenant_id = 3, u_role = ANALYST, u_disabled = False, u_is_super_admin = False\<rparr>"

definition demo_db :: auth_db where
  "demo_db = \<lparr>db_users = [demo_user], db_tokens = []\<rparr>"

definition demo_decode :: "string \<Rightarrow> jwt_outcome" where
  "demo_decode t = Jwt_claims [(''type'', PStr ''access''), (''sub'', PStr (uuid_hex 7)), (''is_super_admin'', PBool False)]"

theorem current_actor_legitimate_witness:
  "\<exists>token. bearer_token (Some ''Bearer tok'') = Some token \<and>
     legitimate demo_decode id 0 demo_db token
       \<lparr>actor_user = demo_user, actor_kind = ''user'', actor_token_id = None, actor_scopes = [],
        actor_tenant_id = 3, actor_is_super_admin = False\<rparr>"
proof (rule current_actor_legitimate [where cookie = None and db' = demo_db])
  have "bearer_token (Some ''Bearer tok'') = Some ''tok''" by code_simp
  moreover have "\<not> startswith ''tok'' ''edr_''" by code_simp
  moreover have "resolve_jwt demo_decode demo_db ''tok'' = Inr (demo_user, 3, False)"
    using uuid_of_hex [of 7]
    by (simp add: resolve_jwt_def demo_decode_def uuid_of_val_def is_uuid_def get_user_def demo_db_def demo_user_def
        dget_default_def)
  ultimately show "current_actor demo_decode id 0 None demo_db (Some ''Bearer tok'') = (demo_db,
      Inr \<lparr>actor_user = demo_user, actor_kind = ''user'', actor_token_id = None, actor_scopes = [],
        actor_tenant_id = 3, actor_is_super_admin = False\<rparr>)"
    by (simp add: current_actor_def actor_of_token_def resolve_active_tenant_def demo_user_def)
qed

text \<open>
  The wire format of API tokens is read back exactly: parsing a formatted token gives the token
  id and the secret it was made of, underscores in the secret included.
\<close>

theorem api_token_roundtrip:
  assumes "is_uuid token_id"
  shows "parse_api_token (format_api_token token_id secret) = Some (token_id, secret)"
proof -
  have "CHR ''_'' \<notin> set (uuid_hex token_id)" using hex_fixed_not by (auto simp: uuid_hex_def)
  from takeWhile_append_sep [OF this, of secret]
  have "split_once CHR ''_'' (uuid_hex token_id @ ''_'' @ secret) = Some (uuid_hex token_id, secret)"
    by (simp add: split_once_def)
  then show ?thesis using uuid_of_hex [OF assms]
    by (simp add: parse_api_token_def format_api_token_def API_TOKEN_PREFIX_def startswith_def)
qed

theorem api_token_roundtrip_witness:
  "parse_api_token (format_api_token 7 ''a_b'') = Some (7, ''a_b'')"
  by (rule api_token_roundtrip) (simp add: is_uuid_def)

text \<open>
  The three scoping helpers agree. For a host id, the query filter, the single-host check and
  the list of visible hosts admit exactly the same hosts, all of them in the actor's tenant.
\<close>

theorem host_scope_agreement:
  assumes "distinct (map fst (sc_hosts db))"
  shows "(apply_host_scope db actor (Some h) \<longleftrightarrow> host_visible_to db actor (Some h)) \<and>
    (host_visible_to db actor (Some h) \<longrightarrow> map_of (sc_hosts db) h = Some (actor_tenant_id actor)) \<and>
    (\<forall>hs. visible_host_ids db actor = Some hs \<longrightarrow> (h \<in> set hs \<longleftrightarrow> host_visible_to db actor (Some h)))"
  using scope_helpers_agree [OF assms] by blast

theorem host_scope_agreement_witness:
  "let db = \<lparr>sc_hosts = [(10, 3), (11, 4)], sc_host_in_group = [(10, 1), (11, 1)], sc_user_host_group = [(7, 1)]\<rparr>;
       actor = \<lparr>actor_user = demo_user, actor_kind = ''user'', actor_token_id = None, actor_scopes = [],
                actor_tenant_id = 3, actor_is_super_admin = False\<rparr>
   in apply_host_scope db actor (Some 10) \<and> host_visible_to db actor (Some 10) \<and> visible_host_ids db actor = Some [10] \<and>
      \<not> host_visible_to db actor (Some 11)"
  unfolding Let_def
  using host_scope_agreement [of "\<lparr>sc_hosts = [(10, 3), (11, 4)], sc_host_in_group = [(10, 1), (11, 1)], sc_user_host_group = [(7, 1)]\<rparr>"
      "\<lparr>actor_user = demo_user, actor_kind = ''user'', actor_token_id = None, actor_scopes = [],
        actor_tenant_id = 3, actor_is_super_admin = False\<rparr>" 10]
  by (simp add: host_visible_to_def visible_host_ids_def is_admin_def has_role_def demo_user_def group_visible_def)

end
