(* ===== verification/Audit_Chain.thy ===== *)
theory Audit_Chain
  imports Json Access
begin

text \<open>
  The tamper-evident audit log: backend/app/services/audit.py (writing a row and extending its
  tenant's HMAC chain), backend/app/services/audit_verifier.py (walking the chains) and
  backend/app/workers/audit_verifier_loop.py (its schedule and the alerts it opens).
  \<open>mac key msg\<close> stands for HMAC-SHA256 and is a parameter: the theorems hold for every function.
  The table is a list of rows in insertion order; the sequence, the clock and the row ids the
  database supplies are arguments.
\<close>

type_synonym mac = "bytes \<Rightarrow> bytes \<Rightarrow> bytes"

section \<open>Rows and actors\<close>

record AuditLog =
  al_id :: uuid
  al_seq :: int
  al_ts :: datetime
  al_tenant_id :: uuid
  al_user_id :: "uuid option"
  al_api_token_id :: "uuid option"
  al_actor_kind :: string
  al_action :: string
  al_resource_type :: "string option"
  al_resource_id :: "string option"
  al_payload :: "pydict option"
  al_ip :: "string option"
  al_prev_hmac :: "bytes option"
  al_row_hmac :: "bytes option"

text \<open>The arguments of one \<open>record\<close> call.\<close>

record audit_request =
  rq_actor :: "Actor option"
  rq_action :: string
  rq_resource_type :: "string option"
  rq_resource_id :: "string option"
  rq_payload :: "pydict option"
  rq_ip :: "string option"
  rq_tenant_id :: "uuid option"

section \<open>The key\<close>

definition is_ascii_space :: "char \<Rightarrow> bool" where
  "is_ascii_space c \<longleftrightarrow> code c = 32 \<or> (9 \<le> code c \<and> code c \<le> 13)"

text \<open>\<open>bytes.fromhex\<close>: pairs of digits, ASCII white space allowed between pairs; \<open>None\<close> is \<open>ValueError\<close>.\<close>

fun fromhex :: "string \<Rightarrow> bytes option" where
  "fromhex [] = Some []"
| "fromhex (c # s) =
     (if is_ascii_space c then fromhex s
      else (case (hex_digit_val c, s) of
          (Some hi, d # r) \<Rightarrow>
            (case (hex_digit_val d, fromhex r) of
               (Some lo, Some bs) \<Rightarrow> Some (char_of (16 * hi + lo) # bs)
             | _ \<Rightarrow> None)
        | _ \<Rightarrow> None))"

definition load_hmac_key :: "string option \<Rightarrow> bytes option" where
  "load_hmac_key env = (case env of
       None \<Rightarrow> None
     | Some raw \<Rightarrow>
         (if raw = [] then None
          else (case fromhex raw of
              Some decoded \<Rightarrow>
                (if length decoded \<ge> 16 then Some decoded
                 else if length raw \<ge> 16 then Some (utf8_encode raw) else None)
            | None \<Rightarrow> (if length raw \<ge> 16 then Some (utf8_encode raw) else None))))"

section \<open>Canonical bytes and the row HMAC\<close>

definition opt_str :: "string option \<Rightarrow> pyval" where
  "opt_str x = (case x of None \<Rightarrow> PNone | Some s \<Rightarrow> PStr s)"

definition opt_dict :: "pydict option \<Rightarrow> pyval" where
  "opt_dict x = (case x of None \<Rightarrow> PNone | Some d \<Rightarrow> PDict d)"

definition canonical_obj ::
  "int \<Rightarrow> string \<Rightarrow> string option \<Rightarrow> string option \<Rightarrow> string \<Rightarrow> string option \<Rightarrow> string option
     \<Rightarrow> pydict option \<Rightarrow> string option \<Rightarrow> string \<Rightarrow> string option \<Rightarrow> pydict" where
  "canonical_obj seq kind user_id api_token_id action resource_type resource_id payload ip ts_iso tenant_id =
     [(''seq'', PInt seq), (''actor_kind'', PStr kind), (''user_id'', opt_str user_id),
      (''api_token_id'', opt_str api_token_id), (''action'', PStr action),
      (''resource_type'', opt_str resource_type), (''resource_id'', opt_str resource_id),
      (''payload'', opt_dict payload), (''ip'', opt_str ip), (''ts'', PStr ts_iso)] @
     (case tenant_id of None \<Rightarrow> [] | Some t \<Rightarrow> [(''tenant_id'', PStr t)])"

definition canonical_row_bytes ::
  "int \<Rightarrow> string \<Rightarrow> string option \<Rightarrow> string option \<Rightarrow> string \<Rightarrow> string option \<Rightarrow> string option
     \<Rightarrow> pydict option \<Rightarrow> string option \<Rightarrow> string \<Rightarrow> string option \<Rightarrow> bytes" where
  "canonical_row_bytes seq kind user_id api_token_id action resource_type resource_id payload ip ts_iso tenant_id =
     json_dumps_sorted (PDict
       (canonical_obj seq kind user_id api_token_id action resource_type resource_id payload ip ts_iso tenant_id))"

definition compute_row_hmac :: "mac \<Rightarrow> bytes option \<Rightarrow> bytes option \<Rightarrow> bytes \<Rightarrow> bytes result" where
  "compute_row_hmac mac key prev_hmac canonical = (case key of
       None \<Rightarrow> Inl RuntimeError
     | Some k \<Rightarrow> Inr (mac k ((case prev_hmac of None \<Rightarrow> [] | Some p \<Rightarrow> p) @ canonical)))"

definition hmac_key_fingerprint :: "(bytes \<Rightarrow> bytes) \<Rightarrow> bytes option \<Rightarrow> string option" where
  "hmac_key_fingerprint sha256 key = map_option (\<lambda>k. take 8 (hexdigest (sha256 k))) key"

section \<open>record\<close>

definition record_user_id :: "Actor option \<Rightarrow> uuid option" where
  "record_user_id actor = (case actor of
       Some a \<Rightarrow> (if actor_kind a \<noteq> ''scim_token'' then Some (u_id (actor_user a)) else None)
     | None \<Rightarrow> None)"

definition record_token_id :: "Actor option \<Rightarrow> uuid option" where
  "record_token_id actor = (case actor of
       Some a \<Rightarrow> (if actor_kind a = ''api_token'' then actor_token_id a else None)
     | None \<Rightarrow> None)"

definition record_actor_kind :: "Actor option \<Rightarrow> string" where
  "record_actor_kind actor = (case actor of Some a \<Rightarrow> actor_kind a | None \<Rightarrow> ''system'')"

definition effective_tenant :: "audit_request \<Rightarrow> uuid" where
  "effective_tenant rq = (case rq_tenant_id rq of
       Some t \<Rightarrow> t
     | None \<Rightarrow> (case rq_actor rq of Some a \<Rightarrow> actor_tenant_id a | None \<Rightarrow> DEFAULT_TENANT_ID))"

text \<open>\<open>uuid.bytes\<close>, big endian, and \<open>int.from_bytes(..., "big")\<close>.\<close>

definition uuid_bytes :: "uuid \<Rightarrow> bytes" where
  "uuid_bytes u = map (\<lambda>i. char_of (u div 256 ^ i)) (rev [0..<16])"

definition int_from_bytes :: "bytes \<Rightarrow> nat" where
  "int_from_bytes bs = foldl (\<lambda>n b. 256 * n + code b) 0 bs"

definition stable_tenant_lock_key :: "(bytes \<Rightarrow> bytes) \<Rightarrow> uuid \<Rightarrow> nat" where
  "stable_tenant_lock_key sha256 tenant_id = int_from_bytes (take 8 (sha256 (uuid_bytes tenant_id))) mod 2 ^ 63"

definition tenant_lock_key :: "(bytes \<Rightarrow> bytes) \<Rightarrow> uuid \<Rightarrow> nat" where
  "tenant_lock_key sha256 tenant_id = Bit_Operations.xor 6841837422913824317 (stable_tenant_lock_key sha256 tenant_id)"

text \<open>
  The \<open>SELECT row_hmac ... ORDER BY seq DESC LIMIT 1\<close> over the rows the transaction sees: the last
  row in ascending order, \<open>seq\<close> being unique.
\<close>

definition chain_of :: "uuid \<Rightarrow> AuditLog list \<Rightarrow> AuditLog list" where
  "chain_of t rows = filter (\<lambda>r. al_tenant_id r = t \<and> al_row_hmac r \<noteq> None) rows"

definition chain_head :: "uuid \<Rightarrow> AuditLog list \<Rightarrow> bytes option" where
  "chain_head t rows = (if chain_of t rows = [] then None else al_row_hmac (last (sort_key al_seq (chain_of t rows))))"

definition row_canonical :: "AuditLog \<Rightarrow> bytes" where
  "row_canonical r = canonical_row_bytes (al_seq r) (al_actor_kind r) (map_option uuid_str (al_user_id r))
     (map_option uuid_str (al_api_token_id r)) (al_action r) (al_resource_type r) (al_resource_id r) (al_payload r)
     (al_ip r) (isoformat (al_ts r)) (Some (uuid_str (al_tenant_id r)))"

text \<open>The row without its chain fields; both branches of \<open>record\<close> insert it.\<close>

definition bare_row :: "uuid \<Rightarrow> int \<Rightarrow> datetime \<Rightarrow> audit_request \<Rightarrow> AuditLog" where
  "bare_row i seq ts rq =
     \<lparr>al_id = i, al_seq = seq, al_ts = ts, al_tenant_id = effective_tenant rq,
      al_user_id = record_user_id (rq_actor rq), al_api_token_id = record_token_id (rq_actor rq),
      al_actor_kind = record_actor_kind (rq_actor rq), al_action = rq_action rq,
      al_resource_type = rq_resource_type rq, al_resource_id = rq_resource_id rq, al_payload = rq_payload rq,
      al_ip = rq_ip rq, al_prev_hmac = None, al_row_hmac = None\<rparr>"

definition chained_row :: "mac \<Rightarrow> bytes \<Rightarrow> uuid \<Rightarrow> int \<Rightarrow> datetime \<Rightarrow> bytes option \<Rightarrow> audit_request \<Rightarrow> AuditLog" where
  "chained_row mac k i seq ts prev rq =
     (let r = bare_row i seq ts rq in
      r\<lparr>al_prev_hmac := prev,
        al_row_hmac := (case compute_row_hmac mac (Some k) prev (row_canonical r) of Inr h \<Rightarrow> Some h | Inl _ \<Rightarrow> None)\<rparr>)"

text \<open>One call of \<open>record\<close> that runs undisturbed: the row it inserts after \<open>rows\<close>.\<close>

definition record_entry ::
  "mac \<Rightarrow> bytes option \<Rightarrow> uuid \<Rightarrow> int \<Rightarrow> datetime \<Rightarrow> audit_request \<Rightarrow> AuditLog list \<Rightarrow> AuditLog list" where
  "record_entry mac key i seq ts rq rows = rows @ [(case key of
       None \<Rightarrow> bare_row i seq ts rq
     | Some k \<Rightarrow> chained_row mac k i seq ts (chain_head (effective_tenant rq) rows) rq)]"

section \<open>Concurrent writers\<close>

text \<open>
  Where a transaction stands inside \<open>record\<close>: before it, holding the advisory lock, having read the
  chain head, having drawn the sequence number.
\<close>

datatype phase =
    Idle
  | Locked audit_request
  | Read audit_request "bytes option"
  | Numbered audit_request "bytes option" int

record audit_sys =
  committed :: "AuditLog list"
  next_seq :: int
  lock_of :: "nat \<Rightarrow> nat option"
  pending :: "nat \<Rightarrow> AuditLog list"
  phase_of :: "nat \<Rightarrow> phase"

definition audit_init :: audit_sys where
  "audit_init = \<lparr>committed = [], next_seq = 1, lock_of = (\<lambda>_. None), pending = (\<lambda>_. []), phase_of = (\<lambda>_. Idle)\<rparr>"

definition end_txn :: "nat \<Rightarrow> audit_sys \<Rightarrow> audit_sys" where
  "end_txn t s = s\<lparr>pending := (pending s)(t := []), phase_of := (phase_of s)(t := Idle),
     lock_of := (\<lambda>l. if lock_of s l = Some t then None else lock_of s l)\<rparr>"

text \<open>
  The steps of concurrent transactions \<open>t\<close>. \<open>lk\<close> gives a tenant's lock key. An advisory lock is
  granted when it is free or already held by the transaction, and is released at the transaction's
  end; a statement sees what is committed and the transaction's own rows; sequence numbers are never reused.
\<close>

inductive audit_step :: "mac \<Rightarrow> bytes \<Rightarrow> (uuid \<Rightarrow> nat) \<Rightarrow> audit_sys \<Rightarrow> audit_sys \<Rightarrow> bool" for mac k lk where
  lock: "phase_of s t = Idle \<Longrightarrow> lock_of s (lk (effective_tenant rq)) \<in> {None, Some t} \<Longrightarrow>
     audit_step mac k lk s (s\<lparr>lock_of := (lock_of s)(lk (effective_tenant rq) \<mapsto> t),
       phase_of := (phase_of s)(t := Locked rq)\<rparr>)"
| read: "phase_of s t = Locked rq \<Longrightarrow>
     audit_step mac k lk s (s\<lparr>phase_of := (phase_of s)(t :=
       Read rq (chain_head (effective_tenant rq) (committed s @ pending s t)))\<rparr>)"
| nextval: "phase_of s t = Read rq prev \<Longrightarrow>
     audit_step mac k lk s (s\<lparr>phase_of := (phase_of s)(t := Numbered rq prev (next_seq s)), next_seq := next_seq s + 1\<rparr>)"
| insert: "phase_of s t = Numbered rq prev n \<Longrightarrow>
     audit_step mac k lk s (s\<lparr>pending := (pending s)(t := pending s t @ [chained_row mac k i n ts prev rq]),
       phase_of := (phase_of s)(t := Idle)\<rparr>)"
| dormant: "phase_of s t = Idle \<Longrightarrow>
     audit_step mac k lk s (s\<lparr>pending := (pending s)(t := pending s t @ [bare_row i (next_seq s) ts rq]),
       next_seq := next_seq s + 1\<rparr>)"
| commit: "phase_of s t = Idle \<Longrightarrow> audit_step mac k lk s (end_txn t (s\<lparr>committed := committed s @ pending s t\<rparr>))"
| rollback: "audit_step mac k lk s (end_txn t s)"

inductive audit_reachable :: "mac \<Rightarrow> bytes \<Rightarrow> (uuid \<Rightarrow> nat) \<Rightarrow> audit_sys \<Rightarrow> bool" for mac k lk where
  init: "audit_reachable mac k lk audit_init"
| step: "audit_reachable mac k lk s \<Longrightarrow> audit_step mac k lk s s' \<Longrightarrow> audit_reachable mac k lk s'"

section \<open>The verifier\<close>

datatype break_reason = First_row_has_prev | Prev_mismatch | Row_mismatch

record ChainBreak =
  cb_seq :: int
  cb_row_id :: string
  cb_reason :: break_reason
  cb_expected :: "bytes option"
  cb_actual :: "bytes option"
  cb_tenant_id :: uuid

record VerifyResult =
  rows_examined :: nat
  chain_rows :: nat
  breaks :: "ChainBreak list"

definition verify_ok :: "VerifyResult \<Rightarrow> bool" where
  "verify_ok r \<longleftrightarrow> breaks r = []"

definition break_of :: "AuditLog \<Rightarrow> break_reason \<Rightarrow> bytes option \<Rightarrow> bytes option \<Rightarrow> ChainBreak" where
  "break_of row reason expected actual =
     \<lparr>cb_seq = al_seq row, cb_row_id = uuid_str (al_id row), cb_reason = reason,
      cb_expected = expected, cb_actual = actual, cb_tenant_id = al_tenant_id row\<rparr>"

text \<open>The loop's local variables.\<close>

record walker =
  w_prev :: "bytes option"
  w_started :: bool
  w_tenant :: "uuid option"
  w_result :: VerifyResult

definition enter_tenant :: "AuditLog \<Rightarrow> walker \<Rightarrow> walker" where
  "enter_tenant row w =
     (let w1 = w\<lparr>w_result := (w_result w)\<lparr>rows_examined := rows_examined (w_result w) + 1\<rparr>\<rparr> in
      if w_tenant w \<noteq> Some (al_tenant_id row)
      then w1\<lparr>w_tenant := Some (al_tenant_id row), w_prev := None, w_started := False\<rparr> else w1)"

definition add_breaks :: "ChainBreak list \<Rightarrow> VerifyResult \<Rightarrow> VerifyResult" where
  "add_breaks bs r = r\<lparr>breaks := breaks r @ bs\<rparr>"

definition link_breaks :: "walker \<Rightarrow> AuditLog \<Rightarrow> ChainBreak list" where
  "link_breaks w row =
     (if \<not> w_started w
      then (if al_prev_hmac row \<noteq> None then [break_of row First_row_has_prev None (al_prev_hmac row)] else [])
      else (if al_prev_hmac row \<noteq> w_prev w then [break_of row Prev_mismatch (w_prev w) (al_prev_hmac row)] else []))"

fun verify_rows :: "mac \<Rightarrow> bytes option \<Rightarrow> AuditLog list \<Rightarrow> walker \<Rightarrow> VerifyResult" where
  "verify_rows mac key [] w = w_result w"
| "verify_rows mac key (row # rows) w =
     (let w1 = enter_tenant row w in
      if al_row_hmac row = None then verify_rows mac key rows w1
      else
        (let res2 = (w_result w1)\<lparr>chain_rows := chain_rows (w_result w1) + 1\<rparr>;
             res3 = add_breaks (link_breaks w1 row) res2
         in case compute_row_hmac mac key (al_prev_hmac row) (row_canonical row) of
              Inl _ \<Rightarrow> res3
            | Inr expected \<Rightarrow>
                (let res4 = (if Some expected \<noteq> al_row_hmac row
                             then add_breaks [break_of row Row_mismatch (Some expected) (al_row_hmac row)] res3 else res3)
                 in verify_rows mac key rows
                      (w1\<lparr>w_prev := al_row_hmac row, w_started := True, w_result := res4\<rparr>))))"

definition walker_start :: walker where
  "walker_start = \<lparr>w_prev = None, w_started = False, w_tenant = None,
     w_result = \<lparr>rows_examined = 0, chain_rows = 0, breaks = []\<rparr>\<rparr>"

definition verify_chain :: "mac \<Rightarrow> bytes option \<Rightarrow> AuditLog list \<Rightarrow> VerifyResult" where
  "verify_chain mac key table =
     verify_rows mac key (sort_key al_tenant_id (sort_key al_seq table)) walker_start"

section \<open>The periodic verifier\<close>

definition interval_seconds :: "string option \<Rightarrow> int" where
  "interval_seconds env =
     (case int_of_str (case env of None \<Rightarrow> ''300'' | Some raw \<Rightarrow> raw) of Inr v \<Rightarrow> max 30 v | Inl _ \<Rightarrow> 300)"

record chain_alert =
  ca_tenant_id :: uuid
  ca_summary :: string
  ca_details :: pydict

definition reason_text :: "break_reason \<Rightarrow> string" where
  "reason_text r = (case r of
       First_row_has_prev \<Rightarrow> ''first chain row has non-NULL prev_hmac''
     | Prev_mismatch \<Rightarrow> ''prev_hmac mismatch''
     | Row_mismatch \<Rightarrow> ''row_hmac mismatch'')"

definition open_chain_alert :: "datetime \<Rightarrow> ChainBreak \<Rightarrow> chain_alert" where
  "open_chain_alert now b =
     \<lparr>ca_tenant_id = cb_tenant_id b, ca_summary = ''audit_log chain break at seq='' @ show_int (cb_seq b),
      ca_details = [(''seq'', PInt (cb_seq b)), (''reason'', PStr (reason_text (cb_reason b))),
        (''observed_at'', PStr (isoformat now)), (''detector'', PStr ''audit_verifier_v1''),
        (''tenant_id'', PStr (uuid_str (cb_tenant_id b)))]\<rparr>"

definition verifier_run_once :: "mac \<Rightarrow> bytes option \<Rightarrow> datetime \<Rightarrow> AuditLog list \<Rightarrow> VerifyResult \<times> chain_alert list" where
  "verifier_run_once mac key now table =
     (let result = verify_chain mac key table in
      (result, if verify_ok result then [] else map (open_chain_alert now) (breaks result)))"

end
