(* ===== verification/Audit_Chain_Correct.thy ===== *)
theory Audit_Chain_Correct
  imports Audit_Chain
begin

text \<open>
  The guarantees of the audit chain. The verifier accepts a table exactly when every tenant's rows,
  in sequence order, form a linked chain of tags; from this one characterisation follow that the
  chains concurrent writers build always verify, what alterations and deletions are detected, and
  what is not: truncation at the end, and the cascade of a user deletion, which is reported as tampering.
\<close>

section \<open>Linked chains\<close>

definition row_message :: "AuditLog \<Rightarrow> bytes" where
  "row_message r = (case al_prev_hmac r of None \<Rightarrow> [] | Some p \<Rightarrow> p) @ row_canonical r"

fun linked :: "mac \<Rightarrow> bytes \<Rightarrow> bytes option \<Rightarrow> AuditLog list \<Rightarrow> bool" where
  "linked mac k prev [] \<longleftrightarrow> True"
| "linked mac k prev (r # rs) \<longleftrightarrow>
     al_prev_hmac r = prev \<and> al_row_hmac r = Some (mac k (row_message r)) \<and> linked mac k (al_row_hmac r) rs"

definition end_tag :: "bytes option \<Rightarrow> AuditLog list \<Rightarrow> bytes option" where
  "end_tag prev rs = (if rs = [] then prev else al_row_hmac (last rs))"

lemma linked_append:
  "linked mac k prev (xs @ ys) \<longleftrightarrow> linked mac k prev xs \<and> linked mac k (end_tag prev xs) ys"
  by (induction xs arbitrary: prev) (auto simp: end_tag_def)

lemma linked_tag: "linked mac k prev rs \<Longrightarrow> r \<in> set rs \<Longrightarrow> al_row_hmac r = Some (mac k (row_message r))"
  by (induction rs arbitrary: prev) auto

lemma compute_row_hmac_message:
  "compute_row_hmac mac (Some k) (al_prev_hmac r) (row_canonical r) = Inr (mac k (row_message r))"
  by (simp add: compute_row_hmac_def row_message_def)

lemma chain_of_simps [simp]:
  "chain_of t [] = []"
  "chain_of t (r # rs) = (if al_tenant_id r = t \<and> al_row_hmac r \<noteq> None then r # chain_of t rs else chain_of t rs)"
  "chain_of t (xs @ ys) = chain_of t xs @ chain_of t ys"
  by (simp_all add: chain_of_def)

lemma chain_of_filter: "chain_of t (filter P rows) = filter P (chain_of t rows)"
  by (auto simp: chain_of_def intro: filter_cong)

lemma set_chain_of: "set (chain_of t rows) = {r \<in> set rows. al_tenant_id r = t \<and> al_row_hmac r \<noteq> None}"
  by (auto simp: chain_of_def)

section \<open>What the verifier decides\<close>

definition all_linked :: "mac \<Rightarrow> bytes \<Rightarrow> walker \<Rightarrow> AuditLog list \<Rightarrow> bool" where
  "all_linked mac k w rs \<longleftrightarrow>
     (\<forall>T. linked mac k (if w_tenant w = Some T then w_prev w else None) (chain_of T rs))"

lemma verify_rows_iff:
  assumes "sorted (map al_tenant_id rs)" "\<forall>T. w_tenant w = Some T \<longrightarrow> (\<forall>r \<in> set rs. T \<le> al_tenant_id r)"
    "w_started w \<longleftrightarrow> w_prev w \<noteq> None"
  shows "verify_ok (verify_rows mac (Some k) rs w) \<longleftrightarrow> breaks (w_result w) = [] \<and> all_linked mac k w rs"
  using assms
proof (induction rs arbitrary: w)
  case Nil
  then show ?case by (simp add: verify_ok_def all_linked_def)
next
  case (Cons r rs)
  let ?T = "al_tenant_id r"
  let ?w1 = "enter_tenant r w"
  have srt: "sorted (map al_tenant_id rs)" and ge: "\<forall>x \<in> set rs. ?T \<le> al_tenant_id x" using Cons.prems(1) by auto
  have w1: "w_tenant ?w1 = Some ?T" "w_prev ?w1 = (if w_tenant w = Some ?T then w_prev w else None)"
    "w_started ?w1 \<longleftrightarrow> w_prev ?w1 \<noteq> None" "breaks (w_result ?w1) = breaks (w_result w)"
    using Cons.prems(3) by (auto simp: enter_tenant_def Let_def)
  have gone: "chain_of T rs = []" if "w_tenant w = Some T" "T \<noteq> ?T" for T
  proof -
    have "T < ?T" using Cons.prems(2) that by fastforce
    with ge show ?thesis by (fastforce simp: chain_of_def filter_empty_conv)
  qed
  have split: "all_linked mac k w (r # rs) \<longleftrightarrow> linked mac k (w_prev ?w1) (chain_of ?T (r # rs)) \<and>
      (\<forall>T. T \<noteq> ?T \<longrightarrow> linked mac k None (chain_of T rs))" (is "?L \<longleftrightarrow> ?R1 \<and> ?R2")
  proof
    assume L: ?L
    have "linked mac k (w_prev ?w1) (chain_of ?T (r # rs))"
      using L [unfolded all_linked_def, THEN spec [of _ ?T]] w1(2) by simp
    moreover have "linked mac k None (chain_of T rs)" if "T \<noteq> ?T" for T
      using L [unfolded all_linked_def, THEN spec [of _ T]] gone [of T] that by (auto split: if_splits)
    ultimately show "?R1 \<and> ?R2" by blast
  next
    assume R: "?R1 \<and> ?R2"
    show ?L unfolding all_linked_def
    proof
      fix T show "linked mac k (if w_tenant w = Some T then w_prev w else None) (chain_of T (r # rs))"
        using R w1(2) gone [of T] by (cases "T = ?T") auto
    qed
  qed
  have split': "all_linked mac k w' rs \<longleftrightarrow> linked mac k (w_prev w') (chain_of ?T rs) \<and>
      (\<forall>T. T \<noteq> ?T \<longrightarrow> linked mac k None (chain_of T rs))" if "w_tenant w' = Some ?T" for w'
    using that unfolding all_linked_def by auto
  show ?case
  proof (cases "al_row_hmac r")
    case None
    have "verify_ok (verify_rows mac (Some k) rs ?w1) \<longleftrightarrow> breaks (w_result ?w1) = [] \<and> all_linked mac k ?w1 rs"
      by (rule Cons.IH) (use srt ge w1 in auto)
    with None split split' [OF w1(1)] w1(4) show ?thesis by simp
  next
    case (Some h)
    define res3 where "res3 = add_breaks (link_breaks ?w1 r) ((w_result ?w1)\<lparr>chain_rows := chain_rows (w_result ?w1) + 1\<rparr>)"
    define res4 where "res4 = (if Some (mac k (row_message r)) \<noteq> al_row_hmac r
        then add_breaks [break_of r Row_mismatch (Some (mac k (row_message r))) (al_row_hmac r)] res3 else res3)"
    let ?w2 = "?w1\<lparr>w_prev := al_row_hmac r, w_started := True, w_result := res4\<rparr>"
    have "verify_ok (verify_rows mac (Some k) rs ?w2) \<longleftrightarrow> breaks (w_result ?w2) = [] \<and> all_linked mac k ?w2 rs"
      by (rule Cons.IH) (use srt ge w1 Some in auto)
    moreover have "verify_rows mac (Some k) (r # rs) w = verify_rows mac (Some k) rs ?w2"
      using Some by (simp add: Let_def compute_row_hmac_message res3_def res4_def)
    moreover have "breaks res4 = [] \<longleftrightarrow> breaks (w_result w) = [] \<and> al_prev_hmac r = w_prev ?w1 \<and>
        al_row_hmac r = Some (mac k (row_message r))"
      using w1(3,4) by (auto simp: res4_def res3_def add_breaks_def link_breaks_def)
    ultimately show ?thesis using split split' [of ?w2] w1(1) Some by auto
  qed
qed

lemma chain_of_sorted_table:
  "chain_of T (sort_key al_tenant_id (sort_key al_seq table)) = sort_key al_seq (chain_of T table)"
proof -
  have ch: "chain_of T xs = filter (\<lambda>r. al_row_hmac r \<noteq> None) (filter (\<lambda>r. al_tenant_id r = T) xs)" for xs
    by (auto simp: chain_of_def intro: filter_cong)
  show ?thesis unfolding ch by (simp only: sort_key_stable) (simp only: filter_sort)
qed

lemma verify_ok_iff:
  "verify_ok (verify_chain mac (Some k) table) \<longleftrightarrow> (\<forall>T. linked mac k None (sort_key al_seq (chain_of T table)))"
proof -
  have "verify_ok (verify_chain mac (Some k) table) \<longleftrightarrow>
      all_linked mac k walker_start (sort_key al_tenant_id (sort_key al_seq table))"
    unfolding verify_chain_def by (subst verify_rows_iff) (auto simp: walker_start_def)
  then show ?thesis by (simp add: all_linked_def walker_start_def chain_of_sorted_table)
qed

section \<open>Concurrent writers\<close>

definition chain_good :: "mac \<Rightarrow> bytes \<Rightarrow> int \<Rightarrow> AuditLog list \<Rightarrow> bool" where
  "chain_good mac k n rs \<longleftrightarrow> sorted_wrt (\<lambda>a b. al_seq a < al_seq b) rs \<and> linked mac k None rs \<and> (\<forall>r \<in> set rs. al_seq r < n)"

lemma chain_good_Nil [simp]: "chain_good mac k n []"
  by (simp add: chain_good_def)

lemma chain_good_prefix: "chain_good mac k n (xs @ ys) \<Longrightarrow> chain_good mac k n xs"
  by (auto simp: chain_good_def sorted_wrt_append linked_append)

lemma chain_good_mono: "chain_good mac k n rs \<Longrightarrow> n \<le> m \<Longrightarrow> chain_good mac k m rs"
  by (fastforce simp: chain_good_def)

lemma chain_good_sorted: "chain_good mac k n rs \<Longrightarrow> sort_key al_seq rs = rs"
  by (rule sort_key_id_if_sorted) (auto simp: chain_good_def sorted_map elim!: sorted_wrt_mono_rel [rotated])

lemma chain_head_good: "chain_good mac k n (chain_of T rows) \<Longrightarrow> chain_head T rows = end_tag None (chain_of T rows)"
  by (simp add: chain_head_def end_tag_def chain_good_sorted)

lemma chained_row_simps [simp]:
  "al_seq (chained_row mac k i n ts prev rq) = n" "al_tenant_id (chained_row mac k i n ts prev rq) = effective_tenant rq"
  "al_prev_hmac (chained_row mac k i n ts prev rq) = prev"
  "al_row_hmac (chained_row mac k i n ts prev rq) = Some (mac k (row_message (chained_row mac k i n ts prev rq)))"
  "al_row_hmac (bare_row i n ts rq) = None"
  by (simp_all add: chained_row_def bare_row_def Let_def compute_row_hmac_def row_message_def row_canonical_def)

definition seen :: "audit_sys \<Rightarrow> nat \<Rightarrow> uuid \<Rightarrow> AuditLog list" where
  "seen s t T = chain_of T (committed s) @ chain_of T (pending s t)"

definition holds :: "(uuid \<Rightarrow> nat) \<Rightarrow> audit_sys \<Rightarrow> nat \<Rightarrow> uuid \<Rightarrow> bool" where
  "holds lk s t T \<longleftrightarrow> lock_of s (lk T) = Some t"

text \<open>What a transaction may rely on at each point of \<open>record\<close>.\<close>

definition phase_inv :: "mac \<Rightarrow> bytes \<Rightarrow> (uuid \<Rightarrow> nat) \<Rightarrow> audit_sys \<Rightarrow> nat \<Rightarrow> bool" where
  "phase_inv mac k lk s t = (case phase_of s t of
       Idle \<Rightarrow> True
     | Locked rq \<Rightarrow> holds lk s t (effective_tenant rq)
     | Read rq prev \<Rightarrow> holds lk s t (effective_tenant rq) \<and> prev = end_tag None (seen s t (effective_tenant rq))
     | Numbered rq prev n \<Rightarrow> holds lk s t (effective_tenant rq) \<and> prev = end_tag None (seen s t (effective_tenant rq)) \<and>
         n < next_seq s \<and> chain_good mac k n (seen s t (effective_tenant rq)))"

definition txn_inv :: "mac \<Rightarrow> bytes \<Rightarrow> (uuid \<Rightarrow> nat) \<Rightarrow> audit_sys \<Rightarrow> nat \<Rightarrow> bool" where
  "txn_inv mac k lk s t \<longleftrightarrow> (\<forall>T. chain_good mac k (next_seq s) (seen s t T)) \<and>
     (\<forall>T. chain_of T (pending s t) \<noteq> [] \<longrightarrow> holds lk s t T) \<and> phase_inv mac k lk s t"

lemma txn_inv_init: "txn_inv mac k lk audit_init t"
  by (simp add: txn_inv_def phase_inv_def seen_def audit_init_def)

text \<open>A transaction that another one's step leaves alone keeps its invariant.\<close>

lemma txn_inv_frame:
  assumes "txn_inv mac k lk s t" "phase_of s' t = phase_of s t" "pending s' t = pending s t" "next_seq s \<le> next_seq s'"
    "\<And>T. holds lk s t T \<Longrightarrow> holds lk s' t T" "\<And>T. chain_of T (committed s') = chain_of T (committed s)"
  shows "txn_inv mac k lk s' t"
proof -
  have "seen s' t = seen s t" using assms(3,6) by (auto simp: seen_def fun_eq_iff)
  with assms show ?thesis
    by (auto simp: txn_inv_def phase_inv_def intro: chain_good_mono split: phase.splits)
qed

lemma chain_good_snoc:
  assumes "chain_good mac k n rs" "n < m" "al_seq r = n" "al_prev_hmac r = end_tag None rs"
    "al_row_hmac r = Some (mac k (row_message r))"
  shows "chain_good mac k m (rs @ [r])"
  using assms by (fastforce simp: chain_good_def sorted_wrt_append linked_append)

lemma audit_step_frame:
  assumes "audit_step mac k lk s s'" "\<forall>t. txn_inv mac k lk s t"
  shows "\<forall>t. txn_inv mac k lk s' t"
  using assms(1)
proof (cases rule: audit_step.cases)
  case (lock t rq)
  show ?thesis
  proof
    fix t'
    have hold: "holds lk s t' T \<Longrightarrow> holds lk s' t' T" for T using lock by (auto simp: holds_def)
    show "txn_inv mac k lk s' t'"
    proof (cases "t' = t")
      case True
      with assms(2) lock hold show ?thesis by (auto simp: txn_inv_def phase_inv_def seen_def holds_def)
    qed (use lock hold in \<open>auto intro: txn_inv_frame [OF assms(2) [rule_format, of t']]\<close>)
  qed
next
  case (read t rq)
  have "chain_head (effective_tenant rq) (committed s @ pending s t) = end_tag None (seen s t (effective_tenant rq))"
    using chain_head_good [of mac k "next_seq s" "effective_tenant rq" "committed s @ pending s t"] assms(2)
    by (auto simp: txn_inv_def seen_def)
  with assms(2) [rule_format, of t] read have "txn_inv mac k lk s' t"
    by (auto simp: txn_inv_def phase_inv_def seen_def holds_def)
  moreover have "txn_inv mac k lk s' t'" if "t' \<noteq> t" for t'
    by (rule txn_inv_frame [OF assms(2) [rule_format, of t']]) (use that read in \<open>auto simp: holds_def\<close>)
  ultimately show ?thesis by metis
next
  case (nextval t rq prev)
  with assms(2) [rule_format, of t] have "txn_inv mac k lk s' t"
    by (auto simp: txn_inv_def phase_inv_def seen_def holds_def intro: chain_good_mono)
  moreover have "txn_inv mac k lk s' t'" if "t' \<noteq> t" for t'
    by (rule txn_inv_frame [OF assms(2) [rule_format, of t']]) (use that nextval in \<open>auto simp: holds_def\<close>)
  ultimately show ?thesis by metis
next
  case (insert t rq prev n i ts)
  let ?r = "chained_row mac k i n ts prev rq"
  have i: "txn_inv mac k lk s t" using assms(2) by simp
  with insert have ph: "holds lk s t (effective_tenant rq)" "prev = end_tag None (seen s t (effective_tenant rq))"
    "n < next_seq s" "chain_good mac k n (seen s t (effective_tenant rq))" by (simp_all add: txn_inv_def phase_inv_def)
  have "seen s' t T = seen s t T @ (if T = effective_tenant rq then [?r] else [])" for T
    using insert by (simp add: seen_def)
  moreover have "chain_good mac k (next_seq s) (seen s t (effective_tenant rq) @ [?r])"
    by (rule chain_good_snoc [OF ph(4,3)]) (simp_all add: ph(2))
  ultimately have "txn_inv mac k lk s' t"
    using i insert ph(1) by (auto simp: txn_inv_def phase_inv_def holds_def split: if_splits)
  moreover have "txn_inv mac k lk s' t'" if "t' \<noteq> t" for t'
    by (rule txn_inv_frame [OF assms(2) [rule_format, of t']]) (use that insert in \<open>auto simp: holds_def\<close>)
  ultimately show ?thesis by metis
next
  case (dormant t i ts rq)
  then have "seen s' t = seen s t" "\<And>T. chain_of T (pending s' t) = chain_of T (pending s t)"
    by (auto simp: seen_def fun_eq_iff)
  with assms(2) [rule_format, of t] dormant have "txn_inv mac k lk s' t"
    by (auto simp: txn_inv_def phase_inv_def holds_def intro: chain_good_mono)
  moreover have "txn_inv mac k lk s' t'" if "t' \<noteq> t" for t'
    by (rule txn_inv_frame [OF assms(2) [rule_format, of t']]) (use that dormant in \<open>auto simp: holds_def\<close>)
  ultimately show ?thesis by metis
next
  case (commit t)
  show ?thesis
  proof
    fix t'
    have i: "txn_inv mac k lk s t'" and j: "txn_inv mac k lk s t" using assms(2) by auto
    have others: "seen s' t' T = seen s t' T" if "t' \<noteq> t" "holds lk s t' T" for T
    proof -
      have "chain_of T (pending s t) = []" using j that by (auto simp: txn_inv_def holds_def)
      with that(1) show ?thesis using commit by (simp add: seen_def end_txn_def)
    qed
    have "chain_good mac k (next_seq s') (seen s' t' T)" for T
    proof (cases "t' = t \<or> chain_of T (pending s t) = []")
      case True
      with i j show ?thesis using commit by (auto simp: seen_def txn_inv_def end_txn_def)
    next
      case False
      with j have "holds lk s t T" by (auto simp: txn_inv_def)
      with False i have "chain_of T (pending s t') = []" by (auto simp: txn_inv_def holds_def)
      with False j show ?thesis using commit by (auto simp: seen_def txn_inv_def end_txn_def)
    qed
    moreover have "phase_inv mac k lk s' t'"
      using i others commit
      by (cases "t' = t") (auto simp: phase_inv_def txn_inv_def end_txn_def holds_def split: phase.splits)
    moreover have "chain_of T (pending s' t') \<noteq> [] \<longrightarrow> holds lk s' t' T" for T
      using i commit by (auto simp: txn_inv_def end_txn_def holds_def)
    ultimately show "txn_inv mac k lk s' t'" by (simp add: txn_inv_def)
  qed
next
  case (rollback t)
  have "txn_inv mac k lk s' t" using assms(2) [rule_format, of t] rollback
    by (auto simp: txn_inv_def phase_inv_def seen_def end_txn_def intro: chain_good_prefix)
  moreover have "txn_inv mac k lk s' t'" if "t' \<noteq> t" for t'
    by (rule txn_inv_frame [OF assms(2) [rule_format, of t']]) (use that rollback in \<open>auto simp: holds_def end_txn_def\<close>)
  ultimately show ?thesis by metis
qed

lemma audit_reachable_inv: "audit_reachable mac k lk s \<Longrightarrow> txn_inv mac k lk s t"
  by (induction arbitrary: t rule: audit_reachable.induct) (auto simp: txn_inv_init dest: audit_step_frame)


section \<open>What a tag commits to\<close>

lemma rev_induct2 [consumes 1, case_names Nil snoc]:
  assumes "length xs = length ys" "P [] []"
    "\<And>x xs y ys. length xs = length ys \<Longrightarrow> P xs ys \<Longrightarrow> P (xs @ [x]) (ys @ [y])"
  shows "P xs ys"
  using assms(1)
proof (induction xs arbitrary: ys rule: rev_induct)
  case (snoc x xs)
  then show ?case using assms(3) by (cases ys rule: rev_cases) auto
qed (simp add: assms(2))

definition signed_fields :: "AuditLog \<Rightarrow> int \<times> string \<times> uuid option \<times> uuid option \<times> string \<times> string option \<times> string option
    \<times> pyval \<times> string option \<times> string \<times> uuid" where
  "signed_fields r = (al_seq r, al_actor_kind r, al_user_id r, al_api_token_id r, al_action r, al_resource_type r,
     al_resource_id r, sort_keys (opt_dict (al_payload r)), al_ip r, isoformat (al_ts r), al_tenant_id r)"

definition wf_row :: "AuditLog \<Rightarrow> bool" where
  "wf_row r \<longleftrightarrow> is_uuid (al_tenant_id r) \<and> pred_option is_uuid (al_user_id r) \<and> pred_option is_uuid (al_api_token_id r) \<and>
     no_floats (opt_dict (al_payload r))"

lemma opt_str_inj: "opt_str x = opt_str y \<longleftrightarrow> x = y"
  by (auto simp: opt_str_def split: option.splits)

lemma sort_keys_opt_str [simp]: "sort_keys (opt_str x) = opt_str x"
  by (simp add: opt_str_def split: option.split)

lemma no_floats_opt_str [simp]: "no_floats (opt_str x)"
  by (simp add: opt_str_def split: option.split)

lemma map_uuid_str_inj:
  "map_option uuid_str x = map_option uuid_str y \<Longrightarrow> pred_option is_uuid x \<Longrightarrow> pred_option is_uuid y \<Longrightarrow> x = y"
  by (cases x; cases y) (auto intro: uuid_str_inj)

lemma row_canonical_inj:
  assumes "row_canonical r = row_canonical r'" "wf_row r" "wf_row r'"
  shows "signed_fields r = signed_fields r'"
proof -
  define obj where "obj x = canonical_obj (al_seq x) (al_actor_kind x) (map_option uuid_str (al_user_id x))
     (map_option uuid_str (al_api_token_id x)) (al_action x) (al_resource_type x) (al_resource_id x) (al_payload x)
     (al_ip x) (isoformat (al_ts x)) (Some (uuid_str (al_tenant_id x)))" for x :: AuditLog
  have "no_floats (PDict (obj r))" "no_floats (PDict (obj r'))"
    using assms(2,3) by (simp_all add: obj_def canonical_obj_def wf_row_def)
  with assms(1) have eq: "sort_keys (PDict (obj r)) = sort_keys (PDict (obj r'))"
    by (intro json_dumps_sorted_inj) (simp_all add: row_canonical_def canonical_row_bytes_def obj_def)
  have dist: "distinct (map fst (obj x))" for x by (simp add: obj_def canonical_obj_def)
  have lk: "map_option sort_keys (map_of (obj r) f) = map_option sort_keys (map_of (obj r') f)" for f
    by (rule sort_keys_PDict_lookup [OF eq dist dist])
  show ?thesis
    using lk [of "''seq''"] lk [of "''actor_kind''"] lk [of "''user_id''"] lk [of "''api_token_id''"] lk [of "''action''"]
      lk [of "''resource_type''"] lk [of "''resource_id''"] lk [of "''payload''"] lk [of "''ip''"] lk [of "''ts''"]
      lk [of "''tenant_id''"] assms(2,3)
    by (simp add: obj_def canonical_obj_def signed_fields_def opt_str_inj wf_row_def uuid_str_inj map_uuid_str_inj)
qed

lemma message_inj:
  assumes "row_message r = row_message r'" "map_option length (al_prev_hmac r) = map_option length (al_prev_hmac r')"
  shows "al_prev_hmac r = al_prev_hmac r' \<and> row_canonical r = row_canonical r'"
  using assms by (cases "al_prev_hmac r"; cases "al_prev_hmac r'") (auto simp: row_message_def)

text \<open>Two linked chains of equal length with the same end agree throughout, going back from the end.\<close>

lemma linked_same_end:
  assumes "linked mac k None xs" "linked mac k None ys" "length xs = length ys" "end_tag None xs = end_tag None ys"
    "\<And>m. length (mac k m) = n" "inj_on (mac k) (row_message ` (set xs \<union> set ys))" "\<forall>r \<in> set xs \<union> set ys. wf_row r"
  shows "map signed_fields xs = map signed_fields ys \<and> map al_row_hmac xs = map al_row_hmac ys"
  using assms(3,1,2,4,6,7)
proof (induction xs ys rule: rev_induct2)
  case (snoc x xs y ys)
  have xl: "linked mac k None xs" "al_prev_hmac x = end_tag None xs" "al_row_hmac x = Some (mac k (row_message x))"
    and yl: "linked mac k None ys" "al_prev_hmac y = end_tag None ys" "al_row_hmac y = Some (mac k (row_message y))"
    using snoc.prems by (simp_all add: linked_append)
  have "mac k (row_message x) = mac k (row_message y)" using snoc.prems(3) xl(3) yl(3) by (simp add: end_tag_def)
  then have msg: "row_message x = row_message y" by (rule inj_onD [OF snoc.prems(4)]) auto
  have len: "map_option length (end_tag None zs) = (if zs = [] then None else Some n)" if "linked mac k None zs" for zs
    using linked_tag [OF that, of "last zs"] assms(5) by (auto simp: end_tag_def)
  have l: "length xs = length ys" by (rule snoc.hyps)
  then have "map_option length (al_prev_hmac x) = map_option length (al_prev_hmac y)"
    using len [OF xl(1)] len [OF yl(1)] xl(2) yl(2) by auto
  from message_inj [OF msg this] have pc: "al_prev_hmac x = al_prev_hmac y" "row_canonical x = row_canonical y" by auto
  have "map signed_fields xs = map signed_fields ys \<and> map al_row_hmac xs = map al_row_hmac ys"
  proof (rule snoc.IH)
    show "inj_on (mac k) (row_message ` (set xs \<union> set ys))" by (rule inj_on_subset [OF snoc.prems(4)]) auto
  qed (use xl yl pc(1) snoc.prems(5) in auto)
  moreover have "signed_fields x = signed_fields y" using row_canonical_inj [OF pc(2)] snoc.prems(5) by simp
  ultimately show ?case using xl(3) yl(3) msg by simp
qed simp_all

section \<open>Deleted rows\<close>

lemma linked_prev_in_tags:
  "linked mac k prev (x # xs) \<Longrightarrow> y \<in> set xs \<Longrightarrow> al_prev_hmac y \<in> al_row_hmac ` set (x # xs)"
proof (induction xs arbitrary: prev x)
  case (Cons z zs)
  show ?case
  proof (cases "y = z")
    case False
    with Cons.prems have "al_prev_hmac y \<in> al_row_hmac ` set (z # zs)"
      by (intro Cons.IH [of "al_row_hmac x" z]) auto
    then show ?thesis by auto
  qed (use Cons.prems in simp)
qed simp

lemma linked_filter_prefix:
  "linked mac k prev xs \<Longrightarrow> linked mac k prev (filter keep xs) \<Longrightarrow> distinct (map al_row_hmac xs) \<Longrightarrow>
     prev \<notin> al_row_hmac ` set xs \<Longrightarrow> prefix (filter keep xs) xs"
proof (induction xs arbitrary: prev)
  case (Cons x xs)
  show ?case
  proof (cases "keep x")
    case True
    have "prefix (filter keep xs) xs" by (rule Cons.IH [of "al_row_hmac x"]) (use Cons.prems True in auto)
    with True show ?thesis by simp
  next
    case False
    have "filter keep xs = []"
    proof (rule ccontr)
      assume "filter keep xs \<noteq> []"
      then obtain y ys where y: "filter keep xs = y # ys" by (cases "filter keep xs") auto
      then have "y \<in> set (filter keep xs)" by simp
      then have "y \<in> set xs" by simp
      from linked_prev_in_tags [OF Cons.prems(1) this] Cons.prems(2,4) False y show False by simp
    qed
    with False show ?thesis by simp
  qed
qed simp

lemma linked_prefix: "linked mac k prev xs \<Longrightarrow> prefix ys xs \<Longrightarrow> linked mac k prev ys"
  by (auto simp: prefix_def linked_append)

lemma row_hmac_not_None: "r \<in> set (chain_of T rows) \<Longrightarrow> al_row_hmac r \<noteq> None"
  by (simp add: set_chain_of)

definition delete_user :: "uuid \<Rightarrow> AuditLog list \<Rightarrow> AuditLog list" where
  "delete_user u rows = map (\<lambda>r. if al_user_id r = Some u then r\<lparr>al_user_id := None\<rparr> else r) rows"

lemma delete_user_chain:
  "r \<in> set rows \<Longrightarrow> al_user_id r = Some u \<Longrightarrow> al_row_hmac r \<noteq> None \<Longrightarrow>
     r\<lparr>al_user_id := None\<rparr> \<in> set (sort_key al_seq (chain_of (al_tenant_id r) (delete_user u rows)))"
  by (auto simp: set_chain_of delete_user_def intro!: image_eqI [of _ _ r])

section \<open>Properties\<close>

text \<open>A concrete log of one or two entries for the instances below, with the message itself as its tag.\<close>

definition demo_request :: audit_request where
  "demo_request = \<lparr>rq_actor = Some \<lparr>actor_user = demo_user, actor_kind = ''user'', actor_token_id = None, actor_scopes = [],
       actor_tenant_id = 1, actor_is_super_admin = False\<rparr>, rq_action = ''login'', rq_resource_type = None, rq_resource_id = None, rq_payload = Some [(''n'', PInt 3)],
     rq_ip = None, rq_tenant_id = None\<rparr>"

definition demo_row1 :: "mac \<Rightarrow> AuditLog" where
  "demo_row1 mac = chained_row mac ''k'' 1 1 0 None demo_request"

definition demo_row2 :: "mac \<Rightarrow> AuditLog" where
  "demo_row2 mac = chained_row mac ''k'' 2 2 0 (al_row_hmac (demo_row1 mac)) demo_request"

lemma demo_tenant [simp]: "effective_tenant demo_request = 1"
  by (simp add: effective_tenant_def demo_request_def)

lemma demo_row1_wf: "wf_row (demo_row1 mac)" "al_user_id (demo_row1 mac) = Some 7"
  by (simp_all add: demo_row1_def demo_request_def wf_row_def chained_row_def bare_row_def Let_def
      is_uuid_def effective_tenant_def demo_user_def record_user_id_def record_token_id_def opt_dict_def)

lemma demo_ok: "verify_ok (verify_chain mac (Some ''k'') [demo_row1 mac])"
  "verify_ok (verify_chain mac (Some ''k'') [demo_row1 mac, demo_row2 mac])"
  by (auto simp: verify_ok_iff demo_row1_def demo_row2_def)

lemma row_canonical_nonempty: "row_canonical r \<noteq> []"
  by (simp add: row_canonical_def canonical_row_bytes_def json_dumps_sorted_def)





text \<open>
  Of a verified table whose tags are distinct, a selection of rows (some rows deleted) verifies
  exactly when what is left of each tenant's chain is an initial segment of it: deleting any other
  row is reported, while cutting off the newest rows of a chain is not.
\<close>

theorem deletions_detected_unless_truncation:
  assumes "verify_ok (verify_chain mac (Some k) table)" "\<And>T. distinct (map al_row_hmac (chain_of T table))"
  shows "verify_ok (verify_chain mac (Some k) (filter keep table)) \<longleftrightarrow>
    (\<forall>T. prefix (sort_key al_seq (chain_of T (filter keep table))) (sort_key al_seq (chain_of T table)))"
proof -
  have ok: "linked mac k None (sort_key al_seq (chain_of T table))" for T using assms(1) by (simp add: verify_ok_iff)
  have sel: "sort_key al_seq (chain_of T (filter keep table)) = filter keep (sort_key al_seq (chain_of T table))" for T
    by (simp add: chain_of_filter filter_sort)
  have dist: "distinct (map al_row_hmac (sort_key al_seq (chain_of T table)))" for T
    using assms(2) [of T] by (metis distinct_map distinct_sort set_sort)
  have "None \<notin> al_row_hmac ` set (sort_key al_seq (chain_of T table))" for T using row_hmac_not_None by force
  then show ?thesis unfolding verify_ok_iff sel using linked_filter_prefix [OF ok _ dist] linked_prefix [OF ok] by blast
qed

theorem deletions_detected_unless_truncation_witness:
  "let mac = (\<lambda>_ m. m); table = [demo_row1 mac, demo_row2 mac] in
   \<not> verify_ok (verify_chain mac (Some ''k'') (filter (\<lambda>r. al_seq r \<noteq> 1) table)) \<and>
   verify_ok (verify_chain mac (Some ''k'') (filter (\<lambda>r. al_seq r \<noteq> 2) table))"
proof -
  let ?m = "\<lambda>_ m. m :: bytes"
  have "al_row_hmac (demo_row1 ?m) \<noteq> al_row_hmac (demo_row2 ?m)"
    using row_canonical_nonempty by (auto simp: demo_row2_def row_message_def demo_row1_def)
  then have ne: "al_row_hmac (demo_row1 ?m) \<noteq> al_row_hmac (demo_row2 ?m)" "demo_row1 ?m \<noteq> demo_row2 ?m" by auto
  then have d: "distinct (map al_row_hmac (chain_of T [demo_row1 ?m, demo_row2 ?m]))" for T by simp
  note iff = deletions_detected_unless_truncation [OF demo_ok(2) d]
  have s: "al_seq (demo_row1 ?m) = 1" "al_seq (demo_row2 ?m) = 2" "al_tenant_id (demo_row1 ?m) = 1" "al_tenant_id (demo_row2 ?m) = 1"
    "al_row_hmac (demo_row1 ?m) \<noteq> None" "al_row_hmac (demo_row2 ?m) \<noteq> None"
    by (simp_all add: demo_row1_def demo_row2_def)
  have "\<not> prefix (sort_key al_seq (chain_of 1 (filter (\<lambda>r. al_seq r \<noteq> 1) [demo_row1 ?m, demo_row2 ?m])))
      (sort_key al_seq (chain_of 1 [demo_row1 ?m, demo_row2 ?m]))" using s ne by auto
  moreover have "\<forall>T. prefix (sort_key al_seq (chain_of T (filter (\<lambda>r. al_seq r \<noteq> 2) [demo_row1 ?m, demo_row2 ?m])))
      (sort_key al_seq (chain_of T [demo_row1 ?m, demo_row2 ?m]))" using s by auto
  ultimately show ?thesis unfolding Let_def iff by blast
qed

text \<open>
  Deleting a user account, which the foreign key turns into \<open>user_id = NULL\<close> on that user's
  audit rows, breaks the chain: the verifier reports tampering although nobody touched the log
  (unless the tags of the row's two texts collide).
\<close>

theorem user_deletion_reported_as_tampering:
  assumes "verify_ok (verify_chain mac (Some k) table)" "r \<in> set table" "al_user_id r = Some u" "al_row_hmac r \<noteq> None"
    "mac k (row_message r) \<noteq> mac k (row_message (r\<lparr>al_user_id := None\<rparr>))"
  shows "\<not> verify_ok (verify_chain mac (Some k) (delete_user u table))"
proof
  assume "verify_ok (verify_chain mac (Some k) (delete_user u table))"
  then have "linked mac k None (sort_key al_seq (chain_of (al_tenant_id r) (delete_user u table)))" by (simp add: verify_ok_iff)
  from linked_tag [OF this delete_user_chain [OF assms(2,3,4)]]
  have "al_row_hmac r = Some (mac k (row_message (r\<lparr>al_user_id := None\<rparr>)))" by simp
  moreover have "linked mac k None (sort_key al_seq (chain_of (al_tenant_id r) table))" using assms(1) by (simp add: verify_ok_iff)
  from linked_tag [OF this, of r] have "al_row_hmac r = Some (mac k (row_message r))" using assms(2,4) by (simp add: set_chain_of)
  ultimately show False using assms(5) by simp
qed

theorem user_deletion_reported_as_tampering_witness:
  "let mac = (\<lambda>_ m. m) in \<not> verify_ok (verify_chain mac (Some ''k'') (delete_user 7 [demo_row1 mac]))"
  unfolding Let_def
proof (rule user_deletion_reported_as_tampering [OF demo_ok(1)])
  let ?r = "demo_row1 (\<lambda>_ m. m)"
  have "wf_row (?r\<lparr>al_user_id := None\<rparr>)" using demo_row1_wf(1) by (simp add: wf_row_def)
  moreover have "signed_fields ?r \<noteq> signed_fields (?r\<lparr>al_user_id := None\<rparr>)"
    using demo_row1_wf(2) by (simp add: signed_fields_def)
  ultimately have "row_canonical ?r \<noteq> row_canonical (?r\<lparr>al_user_id := None\<rparr>)"
    using row_canonical_inj [OF _ demo_row1_wf(1)] by blast
  then show "row_message ?r \<noteq> row_message (?r\<lparr>al_user_id := None\<rparr>)" by (auto simp: row_message_def split: option.split)
qed (simp_all add: demo_row1_wf(2), simp add: demo_row1_def)

end
