(* ===== verification/Alerts.thy ===== *)
theory Alerts
  imports Audit_Chain
begin

text \<open>
  Alerts: severities and rule actions (backend/app/models/rule.py), the alert row and its state table
  (models/alert.py), deduplication (services/alert_dedup.py), the tenant an alert is stamped with
  (services/host_cache.py) and the analyst's state change and assignment (api/alerts.py).
  SHA-256 is a parameter; rows the database inserts receive the id and time it supplies.
\<close>

section \<open>Severities and actions\<close>

datatype Severity = INFO | LOW | MEDIUM | HIGH | CRITICAL

fun severity_rank :: "Severity \<Rightarrow> nat" where
  "severity_rank INFO = 0"
| "severity_rank LOW = 1"
| "severity_rank MEDIUM = 2"
| "severity_rank HIGH = 3"
| "severity_rank CRITICAL = 4"

lemma severity_rank_inj: "severity_rank a = severity_rank b \<longleftrightarrow> a = b"
  by (cases a; cases b) simp_all

instantiation Severity :: linorder
begin

definition less_eq_Severity :: "Severity \<Rightarrow> Severity \<Rightarrow> bool" where
  "less_eq_Severity a b \<longleftrightarrow> severity_rank a \<le> severity_rank b"

definition less_Severity :: "Severity \<Rightarrow> Severity \<Rightarrow> bool" where
  "less_Severity a b \<longleftrightarrow> severity_rank a < severity_rank b"

instance
  by standard (auto simp: less_eq_Severity_def less_Severity_def severity_rank_inj)

end

fun severity_value :: "Severity \<Rightarrow> string" where
  "severity_value INFO = ''info''"
| "severity_value LOW = ''low''"
| "severity_value MEDIUM = ''medium''"
| "severity_value HIGH = ''high''"
| "severity_value CRITICAL = ''critical''"

definition severity_of_value :: "string \<Rightarrow> Severity option" where
  "severity_of_value s = find (\<lambda>v. severity_value v = s) [INFO, LOW, MEDIUM, HIGH, CRITICAL]"

datatype RuleAction = ALERT | BLOCK | QUARANTINE

fun action_order :: "RuleAction \<Rightarrow> nat" where
  "action_order ALERT = 0"
| "action_order BLOCK = 1"
| "action_order QUARANTINE = 2"

definition clamp_action :: "RuleAction \<Rightarrow> RuleAction option \<Rightarrow> RuleAction" where
  "clamp_action rule_action cap = (case cap of
       None \<Rightarrow> rule_action
     | Some c \<Rightarrow> (if action_order rule_action \<le> action_order c then rule_action else c))"

section \<open>Alerts\<close>

datatype AlertState = NEW | INVESTIGATING | FALSE_POSITIVE | TRUE_POSITIVE

fun alert_state_value :: "AlertState \<Rightarrow> string" where
  "alert_state_value NEW = ''new''"
| "alert_state_value INVESTIGATING = ''investigating''"
| "alert_state_value FALSE_POSITIVE = ''false_positive''"
| "alert_state_value TRUE_POSITIVE = ''true_positive''"

fun ALERT_STATE_TRANSITIONS :: "AlertState \<Rightarrow> AlertState list" where
  "ALERT_STATE_TRANSITIONS NEW = [INVESTIGATING, FALSE_POSITIVE, TRUE_POSITIVE]"
| "ALERT_STATE_TRANSITIONS INVESTIGATING = [FALSE_POSITIVE, TRUE_POSITIVE, NEW]"
| "ALERT_STATE_TRANSITIONS FALSE_POSITIVE = []"
| "ALERT_STATE_TRANSITIONS TRUE_POSITIVE = []"

record Alert =
  a_id :: uuid
  a_tenant_id :: uuid
  a_host_id :: "uuid option"
  a_rule_id :: uuid
  a_severity :: Severity
  a_action_taken :: RuleAction
  a_state :: AlertState
  a_summary :: string
  a_details :: pyval
  a_mitre :: "string list option"
  a_opened_at :: datetime
  a_closed_at :: "datetime option"
  a_assignee_id :: "uuid option"
  a_incident_id :: "uuid option"
  a_dedup_key :: "string option"
  a_occurrence_count :: int
  a_last_occurred_at :: datetime

record AlertStateHistory =
  h_alert_id :: uuid
  h_from_state :: "AlertState option"
  h_to_state :: AlertState
  h_by_user_id :: "uuid option"
  h_comment :: "string option"
  h_ts :: datetime

section \<open>Deduplication\<close>

text \<open>\<open>a.get(..) or b.get(..) or ... or ""\<close>: the most specific signal the event has.\<close>

definition dedup_signal :: "pydict \<Rightarrow> pyval result" where
  "dedup_signal ecs =
     bindE (vget (sub_dict ecs ''process'') ''executable'') (\<lambda>x. if truthy x then Inr x else
     bindE (vget (sub_dict ecs ''file'') ''path'') (\<lambda>x. if truthy x then Inr x else
     bindE (vget (sub_dict ecs ''destination'') ''ip'') (\<lambda>x. if truthy x then Inr x else
     bindE (vget (sub_dict ecs ''event'') ''id'') (\<lambda>x. Inr (py_or x (PStr []))))))"

definition dedup_key_for :: "(bytes \<Rightarrow> bytes) \<Rightarrow> uuid \<Rightarrow> uuid option \<Rightarrow> pydict \<Rightarrow> string result" where
  "dedup_key_for sha256 rule_id host_id ecs =
     bindE (dedup_signal ecs) (\<lambda>signal.
       Inr (hexdigest (sha256 (utf8_encode (uuid_str rule_id @ ''|'' @
         (case host_id of None \<Rightarrow> ''None'' | Some h \<Rightarrow> uuid_str h) @ ''|'' @ py_str signal)))))"

definition is_open :: "AlertState \<Rightarrow> bool" where
  "is_open s \<longleftrightarrow> s = NEW \<or> s = INVESTIGATING"

definition dupe_candidate :: "string \<Rightarrow> int \<Rightarrow> datetime \<Rightarrow> Alert \<Rightarrow> bool" where
  "dupe_candidate dedup_key window_seconds now a \<longleftrightarrow>
     a_dedup_key a = Some dedup_key \<and> now - seconds window_seconds < a_last_occurred_at a \<and> is_open (a_state a)"

text \<open>\<open>ORDER BY last_occurred_at DESC LIMIT 1\<close>.\<close>

definition find_open_dupe :: "string \<Rightarrow> int \<Rightarrow> datetime \<Rightarrow> Alert list \<Rightarrow> Alert option" where
  "find_open_dupe dedup_key window_seconds now alerts =
     (case sort_key (\<lambda>a. - a_last_occurred_at a) (filter (dupe_candidate dedup_key window_seconds now) alerts) of
        [] \<Rightarrow> None
      | a # _ \<Rightarrow> Some a)"

definition bump_occurrence :: "datetime \<Rightarrow> Alert \<Rightarrow> Alert" where
  "bump_occurrence now a =
     a\<lparr>a_occurrence_count := (if a_occurrence_count a = 0 then 1 else a_occurrence_count a) + 1, a_last_occurred_at := now\<rparr>"

text \<open>The producers' pattern: probe, then bump the row found or insert the new one.\<close>

definition update_alert :: "uuid \<Rightarrow> (Alert \<Rightarrow> Alert) \<Rightarrow> Alert list \<Rightarrow> Alert list" where
  "update_alert i f alerts = map (\<lambda>a. if a_id a = i then f a else a) alerts"

definition probe_or_insert :: "string \<Rightarrow> int \<Rightarrow> datetime \<Rightarrow> Alert \<Rightarrow> Alert list \<Rightarrow> Alert list" where
  "probe_or_insert dedup_key window_seconds now new alerts =
     (case find_open_dupe dedup_key window_seconds now alerts of
        Some a \<Rightarrow> update_alert (a_id a) (bump_occurrence now) alerts
      | None \<Rightarrow> alerts @ [new])"

section \<open>The tenant of an alert\<close>

definition resolve_alert_tenant_id :: "scope_db \<Rightarrow> uuid \<Rightarrow> pyval \<Rightarrow> uuid option result" where
  "resolve_alert_tenant_id db host_id ecs_tenant_id =
     (let from_host = map_of (sc_hosts db) host_id in
      if truthy ecs_tenant_id
      then (case uuid_of_val ecs_tenant_id of
          Inr t \<Rightarrow> Inr (Some t)
        | Inl e \<Rightarrow> (if e = ValueError then Inr from_host else Inl e))
      else Inr from_host)"

section \<open>State changes\<close>

record alert_db =
  al_alerts :: "Alert list"
  al_history :: "AlertStateHistory list"

definition not_found :: "string \<Rightarrow> uuid \<Rightarrow> exn" where
  "not_found resource ident = HTTPError 404 (resource @ '' '' @ uuid_str ident @ '' not found'')"

definition bad_request :: "string \<Rightarrow> exn" where
  "bad_request detail = HTTPError 400 detail"

definition opt_uuid :: "uuid option \<Rightarrow> pyval" where
  "opt_uuid x = (case x of None \<Rightarrow> PNone | Some u \<Rightarrow> PStr (uuid_str u))"

definition get_alert :: "uuid \<Rightarrow> alert_db \<Rightarrow> Alert option" where
  "get_alert i db = find (\<lambda>a. a_id a = i) (al_alerts db)"

definition set_alert_state :: "AlertState \<Rightarrow> datetime \<Rightarrow> Alert \<Rightarrow> Alert" where
  "set_alert_state to_state now a =
     a\<lparr>a_state := to_state,
       a_closed_at := (if to_state \<in> {FALSE_POSITIVE, TRUE_POSITIVE} then Some now else a_closed_at a)\<rparr>"

definition alert_audit :: "Actor \<Rightarrow> string \<Rightarrow> uuid \<Rightarrow> pydict \<Rightarrow> audit_request" where
  "alert_audit actor action i payload =
     \<lparr>rq_actor = Some actor, rq_action = action, rq_resource_type = Some ''alert'', rq_resource_id = Some (uuid_str i),
      rq_payload = Some payload, rq_ip = None, rq_tenant_id = None\<rparr>"

text \<open>
  The new tables, the audit row requested and the event published. The mirroring into external case
  systems is best effort and changes no row modelled here.
\<close>

definition change_state ::
  "scope_db \<Rightarrow> Actor \<Rightarrow> uuid \<Rightarrow> AlertState \<Rightarrow> string option \<Rightarrow> datetime \<Rightarrow> alert_db
     \<Rightarrow> (alert_db \<times> audit_request \<times> pydict) result" where
  "change_state sdb actor alert_id to_state comment now db =
     bindE (RequireAnalyst actor) (\<lambda>actor.
       case get_alert alert_id db of
         None \<Rightarrow> Inl (not_found ''alert'' alert_id)
       | Some alert \<Rightarrow>
           (if \<not> host_visible_to sdb actor (a_host_id alert) then Inl (not_found ''alert'' alert_id)
            else if to_state \<notin> set (ALERT_STATE_TRANSITIONS (a_state alert))
            then Inl (bad_request (''transition '' @ alert_state_value (a_state alert) @ '' -> '' @
                   alert_state_value to_state @ '' not allowed''))
            else Inr (db\<lparr>al_alerts := update_alert alert_id (set_alert_state to_state now) (al_alerts db),
                        al_history := al_history db @ [\<lparr>h_alert_id = alert_id, h_from_state = Some (a_state alert),
                          h_to_state = to_state, h_by_user_id = Some (u_id (actor_user actor)), h_comment = comment, h_ts = now\<rparr>]\<rparr>,
                      alert_audit actor ''alert.state_change'' alert_id
                        [(''to_state'', PStr (alert_state_value to_state)), (''comment'', opt_str comment)],
                      [(''alert_id'', PStr (uuid_str alert_id)), (''from_state'', PStr (alert_state_value (a_state alert))),
                       (''to_state'', PStr (alert_state_value to_state)), (''severity'', PStr (severity_value (a_severity alert))),
                       (''host_id'', opt_uuid (a_host_id alert)), (''rule_id'', PStr (uuid_str (a_rule_id alert))),
                       (''comment'', opt_str comment)])))"

definition assign_alert ::
  "scope_db \<Rightarrow> auth_db \<Rightarrow> Actor \<Rightarrow> uuid \<Rightarrow> uuid option \<Rightarrow> alert_db \<Rightarrow> (alert_db \<times> audit_request) result" where
  "assign_alert sdb adb actor alert_id assignee db =
     bindE (RequireAnalyst actor) (\<lambda>actor.
       case get_alert alert_id db of
         None \<Rightarrow> Inl (not_found ''alert'' alert_id)
       | Some alert \<Rightarrow>
           (if \<not> host_visible_to sdb actor (a_host_id alert) then Inl (not_found ''alert'' alert_id)
            else if (case assignee of None \<Rightarrow> False | Some u \<Rightarrow> get_user adb u = None)
            then Inl (not_found ''user'' (the assignee))
            else Inr (db\<lparr>al_alerts := update_alert alert_id (\<lambda>a. a\<lparr>a_assignee_id := assignee\<rparr>) (al_alerts db)\<rparr>,
                      alert_audit actor ''alert.assign'' alert_id [(''assignee_id'', opt_uuid assignee)])))"

end
