(* ===== verification/Alerts_Correct.thy ===== *)
theory Alerts_Correct
  imports Alerts
begin

text \<open>
  What the alert tables keep: deduplicated alerts of one key stay a full window apart and lose no
  detection, whatever producers and analysts do in between, and an alert's history is a path through
  the transition table from \<open>NEW\<close> to its state, closed states being final.
\<close>

section \<open>Tables of allowed transitions\<close>

locale transition_table =
  fixes allowed :: "'s \<Rightarrow> 's list" and closed :: "'s \<Rightarrow> bool"
  assumes closed_final: "closed s \<Longrightarrow> allowed s = []"
begin

fun path :: "'s \<Rightarrow> 's list \<Rightarrow> bool" where
  "path s [] \<longleftrightarrow> True"
| "path s (t # ts) \<longleftrightarrow> t \<in> set (allowed s) \<and> path t ts"

definition ends_in :: "'s \<Rightarrow> 's list \<Rightarrow> 's" where
  "ends_in s ts = (if ts = [] then s else last ts)"

lemma path_snoc: "path s (ts @ [t]) \<longleftrightarrow> path s ts \<and> t \<in> set (allowed (ends_in s ts))"
  by (induction ts arbitrary: s) (auto simp: ends_in_def)

lemma path_closed_end: "path s ts \<Longrightarrow> i < length ts \<Longrightarrow> closed (ts ! i) \<Longrightarrow> Suc i = length ts"
proof (induction ts arbitrary: s i)
  case (Cons t ts)
  show ?case
  proof (cases i)
    case 0
    with Cons.prems closed_final [of t] show ?thesis by (cases ts) auto
  next
    case (Suc j)
    with Cons.IH [of t j] Cons.prems show ?thesis by simp
  qed
qed simp

end

interpretation alert_states: transition_table ALERT_STATE_TRANSITIONS "\<lambda>s. \<not> is_open s"
proof
  fix s assume "\<not> is_open s"
  then show "ALERT_STATE_TRANSITIONS s = []" by (cases s) (auto simp: is_open_def)
qed

section \<open>Deduplication\<close>

text \<open>What producers and analysts do to the alert table, in the order of the clock.\<close>

datatype alert_event =
    Detected string datetime Alert
  | State_set uuid AlertState datetime

fun event_time :: "alert_event \<Rightarrow> datetime" where
  "event_time (Detected _ t _) = t"
| "event_time (State_set _ _ t) = t"

definition fresh_alert :: "string \<Rightarrow> datetime \<Rightarrow> Alert \<Rightarrow> bool" where
  "fresh_alert key now a \<longleftrightarrow> a_dedup_key a = Some key \<and> a_opened_at a = now \<and> a_last_occurred_at a = now \<and>
     a_occurrence_count a = 1 \<and> a_state a = NEW"

fun alert_step :: "int \<Rightarrow> alert_event \<Rightarrow> Alert list \<Rightarrow> Alert list" where
  "alert_step w (Detected key now new) alerts = probe_or_insert key w now new alerts"
| "alert_step w (State_set i to_state now) alerts =
     update_alert i (\<lambda>a. if to_state \<in> set (ALERT_STATE_TRANSITIONS (a_state a)) then set_alert_state to_state now a else a) alerts"

text \<open>An event list in clock order whose inserted rows are fresh.\<close>

fun wf_events :: "datetime \<Rightarrow> nat list \<Rightarrow> alert_event list \<Rightarrow> bool" where
  "wf_events t used [] \<longleftrightarrow> True"
| "wf_events t used (e # es) \<longleftrightarrow> t \<le> event_time e \<and>
     (case e of
        Detected key now new \<Rightarrow> fresh_alert key now new \<and> a_id new \<notin> set used \<and> wf_events now (a_id new # used) es
      | State_set _ _ now \<Rightarrow> wf_events now used es)"

definition apart :: "int \<Rightarrow> Alert \<Rightarrow> Alert \<Rightarrow> bool" where
  "apart w a b \<longleftrightarrow> a_last_occurred_at a + seconds w \<le> a_opened_at b \<or> a_last_occurred_at b + seconds w \<le> a_opened_at a"

definition separated :: "int \<Rightarrow> Alert list \<Rightarrow> bool" where
  "separated w alerts \<longleftrightarrow> (\<forall>a \<in> set alerts. \<forall>b \<in> set alerts.
     a_id a \<noteq> a_id b \<longrightarrow> a_dedup_key a = a_dedup_key b \<longrightarrow> a_dedup_key a \<noteq> None \<longrightarrow>
     is_open (a_state a) \<longrightarrow> is_open (a_state b) \<longrightarrow> apart w a b)"

definition timely :: "datetime \<Rightarrow> Alert list \<Rightarrow> bool" where
  "timely t alerts \<longleftrightarrow> (\<forall>a \<in> set alerts. a_opened_at a \<le> a_last_occurred_at a \<and> a_last_occurred_at a \<le> t \<and> 1 \<le> a_occurrence_count a)"

lemma find_open_dupe_Some:
  assumes "find_open_dupe key w now alerts = Some a"
  shows "a \<in> set alerts" "dupe_candidate key w now a"
    "b \<in> set alerts \<Longrightarrow> dupe_candidate key w now b \<Longrightarrow> a_last_occurred_at b \<le> a_last_occurred_at a"
proof -
  let ?c = "filter (dupe_candidate key w now) alerts"
  from assms obtain r where r: "sort_key (\<lambda>a. - a_last_occurred_at a) ?c = a # r"
    by (auto simp: find_open_dupe_def split: list.splits)
  then have st: "set ?c = set (a # r)" by (metis set_sort)
  then show "a \<in> set alerts" "dupe_candidate key w now a" by auto
  have "sorted (map (\<lambda>a. - a_last_occurred_at a) (a # r))" using r by (metis sorted_sort_key)
  then show "b \<in> set alerts \<Longrightarrow> dupe_candidate key w now b \<Longrightarrow> a_last_occurred_at b \<le> a_last_occurred_at a"
    using st by (auto simp: set_eq_iff)
qed

lemma find_open_dupe_None:
  "find_open_dupe key w now alerts = None \<longleftrightarrow> (\<forall>a \<in> set alerts. \<not> dupe_candidate key w now a)"
proof -
  have "find_open_dupe key w now alerts = None \<longleftrightarrow> sort_key (\<lambda>a. - a_last_occurred_at a) (filter (dupe_candidate key w now) alerts) = []"
    by (simp add: find_open_dupe_def split: list.split)
  also have "\<dots> \<longleftrightarrow> filter (dupe_candidate key w now) alerts = []" by (metis length_0_conv length_sort)
  finally show ?thesis by (simp add: filter_empty_conv)
qed

lemma set_update_alert: "b \<in> set (update_alert i f alerts) \<longleftrightarrow> (\<exists>a \<in> set alerts. b = (if a_id a = i then f a else a))"
  unfolding update_alert_def set_map image_iff by blast

lemma bump_simps [simp]:
  "a_id (bump_occurrence now a) = a_id a" "a_dedup_key (bump_occurrence now a) = a_dedup_key a"
  "a_state (bump_occurrence now a) = a_state a" "a_opened_at (bump_occurrence now a) = a_opened_at a"
  "a_last_occurred_at (bump_occurrence now a) = now"
  by (simp_all add: bump_occurrence_def)

lemma set_state_simps [simp]:
  "a_id (set_alert_state s now a) = a_id a" "a_dedup_key (set_alert_state s now a) = a_dedup_key a"
  "a_state (set_alert_state s now a) = s" "a_opened_at (set_alert_state s now a) = a_opened_at a"
  "a_last_occurred_at (set_alert_state s now a) = a_last_occurred_at a"
  "a_occurrence_count (set_alert_state s now a) = a_occurrence_count a"
  by (simp_all add: set_alert_state_def)

lemma distinct_ids_eq: "distinct (map a_id alerts) \<Longrightarrow> a \<in> set alerts \<Longrightarrow> b \<in> set alerts \<Longrightarrow> a_id a = a_id b \<Longrightarrow> a = b"
  by (metis distinct_map inj_onD)

lemma update_alert_ids: "(\<And>a. a_id (f a) = a_id a) \<Longrightarrow> map a_id (update_alert i f alerts) = map a_id alerts"
  by (auto simp: update_alert_def comp_def)

text \<open>The table's invariant, and that every step keeps it.\<close>

definition dedup_inv :: "int \<Rightarrow> datetime \<Rightarrow> nat list \<Rightarrow> Alert list \<Rightarrow> bool" where
  "dedup_inv w t used alerts \<longleftrightarrow> separated w alerts \<and> timely t alerts \<and> distinct (map a_id alerts) \<and> a_id ` set alerts \<subseteq> set used"

lemma bump_step_inv:
  assumes inv: "dedup_inv w t used alerts" and w: "0 < w" and now: "t \<le> now"
    and f: "find_open_dupe key w now alerts = Some x"
  shows "dedup_inv w now used (update_alert (a_id x) (bump_occurrence now) alerts)"
proof -
  have xin: "x \<in> set alerts" and xc: "dupe_candidate key w now x" using find_open_dupe_Some [OF f] by auto
  have sep: "separated w alerts" and tm: "timely t alerts" and dist: "distinct (map a_id alerts)"
    using inv by (auto simp: dedup_inv_def)
  have other: "apart w (bump_occurrence now x) b" if b: "b \<in> set alerts" "a_id b \<noteq> a_id x" "a_dedup_key b = a_dedup_key x"
      "is_open (a_state b)" for b
  proof -
    have "apart w x b" using sep xin b xc by (auto simp: separated_def dupe_candidate_def)
    moreover have "\<not> a_last_occurred_at x + seconds w \<le> a_opened_at b"
    proof
      assume le: "a_last_occurred_at x + seconds w \<le> a_opened_at b"
      then have lt: "a_last_occurred_at x < a_last_occurred_at b" using tm b(1) w by (fastforce simp: timely_def seconds_def)
      then have "dupe_candidate key w now b" using xc b by (auto simp: dupe_candidate_def)
      with find_open_dupe_Some(3) [OF f b(1)] lt show False by simp
    qed
    ultimately show ?thesis by (simp add: apart_def)
  qed
  have sym: "apart w a b \<Longrightarrow> apart w b a" for a b by (auto simp: apart_def)
  have "separated w (update_alert (a_id x) (bump_occurrence now) alerts)"
    unfolding separated_def
  proof (intro ballI impI)
    fix a b assume a: "a \<in> set (update_alert (a_id x) (bump_occurrence now) alerts)"
      and b: "b \<in> set (update_alert (a_id x) (bump_occurrence now) alerts)"
      and ne: "a_id a \<noteq> a_id b" and k: "a_dedup_key a = a_dedup_key b" "a_dedup_key a \<noteq> None"
      and op: "is_open (a_state a)" "is_open (a_state b)"
    from a obtain a0 where a0: "a0 \<in> set alerts" "a = (if a_id a0 = a_id x then bump_occurrence now a0 else a0)"
      by (auto simp: set_update_alert)
    from b obtain b0 where b0: "b0 \<in> set alerts" "b = (if a_id b0 = a_id x then bump_occurrence now b0 else b0)"
      by (auto simp: set_update_alert)
    have eqx: "c = x" if "c \<in> set alerts" "a_id c = a_id x" for c using distinct_ids_eq [OF dist that(1) xin that(2)] .
    consider "a_id a0 = a_id x" "a_id b0 \<noteq> a_id x" | "a_id a0 \<noteq> a_id x" "a_id b0 = a_id x" | "a_id a0 \<noteq> a_id x" "a_id b0 \<noteq> a_id x"
      using ne a0 b0 by (cases "a_id a0 = a_id x"; cases "a_id b0 = a_id x") simp_all
    then show "apart w a b"
    proof cases
      case 1
      with eqx a0 have "a0 = x" by blast
      with 1 other [of b0] a0 b0 k op show ?thesis by simp
    next
      case 2
      with eqx b0 have "b0 = x" by blast
      with 2 other [of a0] a0 b0 k op sym show ?thesis by simp
    next
      case 3
      with sep a0 b0 ne k op show ?thesis by (auto simp: separated_def)
    qed
  qed
  moreover have "timely now (update_alert (a_id x) (bump_occurrence now) alerts)"
    using tm now by (fastforce simp: timely_def set_update_alert bump_occurrence_def)
  moreover have "map a_id (update_alert (a_id x) (bump_occurrence now) alerts) = map a_id alerts"
    by (rule update_alert_ids) simp
  ultimately show ?thesis using inv by (metis dedup_inv_def list.set_map)
qed

lemma insert_step_inv:
  assumes inv: "dedup_inv w t used alerts" and now: "t \<le> now" and w: "0 < w"
    and f: "find_open_dupe key w now alerts = None" and new: "fresh_alert key now new" "a_id new \<notin> set used"
  shows "dedup_inv w now (a_id new # used) (alerts @ [new])"
proof -
  have "apart w new b" if "b \<in> set alerts" "a_dedup_key b = Some key" "is_open (a_state b)" for b
    using f [unfolded find_open_dupe_None] that new(1) by (auto simp: dupe_candidate_def apart_def fresh_alert_def)
  then have "separated w (alerts @ [new])" using inv new(1)
    by (auto simp: separated_def dedup_inv_def fresh_alert_def apart_def disj_commute)
  moreover have "timely now (alerts @ [new])" using inv now new(1) by (fastforce simp: timely_def dedup_inv_def fresh_alert_def)
  ultimately show ?thesis using inv new(2) by (auto simp: dedup_inv_def)
qed

lemma alert_states_closed: "t \<in> set (ALERT_STATE_TRANSITIONS s) \<Longrightarrow> is_open s"
  by (cases s) (auto simp: is_open_def)

lemma state_step_inv:
  assumes "dedup_inv w t used alerts" "t \<le> now"
  shows "dedup_inv w now used (alert_step w (State_set i to_state now) alerts)"
proof -
  let ?f = "\<lambda>a. if to_state \<in> set (ALERT_STATE_TRANSITIONS (a_state a)) then set_alert_state to_state now a else a"
  have "map a_id (update_alert i ?f alerts) = map a_id alerts" by (rule update_alert_ids) simp
  moreover have "separated w (update_alert i ?f alerts)"
    unfolding separated_def
  proof (intro ballI impI)
    fix a b assume ab: "a \<in> set (update_alert i ?f alerts)" "b \<in> set (update_alert i ?f alerts)" "a_id a \<noteq> a_id b"
      "a_dedup_key a = a_dedup_key b" "a_dedup_key a \<noteq> None" "is_open (a_state a)" "is_open (a_state b)"
    have orig: "\<exists>c0 \<in> set alerts. a_id c = a_id c0 \<and> a_dedup_key c = a_dedup_key c0 \<and> a_opened_at c = a_opened_at c0 \<and>
        a_last_occurred_at c = a_last_occurred_at c0 \<and> is_open (a_state c0)"
      if "c \<in> set (update_alert i ?f alerts)" "is_open (a_state c)" for c
      using that alert_states_closed by (fastforce simp: set_update_alert split: if_splits)
    from orig [OF ab(1,6)] orig [OF ab(2,7)] obtain a0 b0 where o: "a0 \<in> set alerts" "b0 \<in> set alerts"
      "a_id a = a_id a0" "a_id b = a_id b0" "a_dedup_key a = a_dedup_key a0" "a_dedup_key b = a_dedup_key b0"
      "a_opened_at a = a_opened_at a0" "a_opened_at b = a_opened_at b0" "a_last_occurred_at a = a_last_occurred_at a0"
      "a_last_occurred_at b = a_last_occurred_at b0" "is_open (a_state a0)" "is_open (a_state b0)" by metis
    have "separated w alerts" using assms(1) by (simp add: dedup_inv_def)
    from this [unfolded separated_def, rule_format, OF o(1,2)] o ab(3-5) have "apart w a0 b0" by simp
    with o show "apart w a b" by (simp add: apart_def)
  qed
  moreover have "timely now (update_alert i ?f alerts)"
    using assms by (fastforce simp: dedup_inv_def timely_def set_update_alert)
  moreover have "a_id ` set (update_alert i ?f alerts) = a_id ` set alerts" using calculation(1) by (metis list.set_map)
  ultimately show ?thesis using assms(1) by (simp add: dedup_inv_def)
qed

lemma alert_step_inv:
  assumes "0 < w" "dedup_inv w t used alerts" "wf_events t used (e # es)"
  shows "\<exists>t' used'. dedup_inv w t' used' (alert_step w e alerts) \<and> wf_events t' used' es"
proof (cases e)
  case (Detected key now new)
  have "dedup_inv w now (a_id new # used) (alert_step w e alerts)"
  proof (cases "find_open_dupe key w now alerts")
    case None
    with assms Detected insert_step_inv [OF assms(2)] show ?thesis by (auto simp: probe_or_insert_def)
  next
    case (Some x)
    from Detected assms(3) have "t \<le> now" by simp
    from bump_step_inv [OF assms(2,1) this Some] Some Detected show ?thesis
      by (auto simp: probe_or_insert_def dedup_inv_def)
  qed
  with assms Detected show ?thesis by auto
next
  case (State_set i s now)
  with assms state_step_inv [OF assms(2), of now i s] show ?thesis by auto
qed

fun alert_run :: "int \<Rightarrow> alert_event list \<Rightarrow> Alert list \<Rightarrow> Alert list" where
  "alert_run w [] alerts = alerts"
| "alert_run w (e # es) alerts = alert_run w es (alert_step w e alerts)"

lemma alert_run_inv:
  "0 < w \<Longrightarrow> dedup_inv w t used alerts \<Longrightarrow> wf_events t used es \<Longrightarrow> \<exists>t' used'. dedup_inv w t' used' (alert_run w es alerts)"
proof (induction es arbitrary: t used alerts)
  case (Cons e es)
  from alert_step_inv [OF Cons.prems] Cons.IH [OF Cons.prems(1)] show ?case by fastforce
qed auto

section \<open>No detection is lost\<close>

definition total_occurrences :: "string \<Rightarrow> Alert list \<Rightarrow> int" where
  "total_occurrences key alerts = sum_list (map a_occurrence_count (filter (\<lambda>a. a_dedup_key a = Some key) alerts))"

fun detections :: "string \<Rightarrow> alert_event list \<Rightarrow> int" where
  "detections key [] = 0"
| "detections key (Detected k _ _ # es) = (if k = key then 1 else 0) + detections key es"
| "detections key (_ # es) = detections key es"

lemma total_update:
  assumes "distinct (map a_id alerts)" "x \<in> set alerts" "\<And>a. a_dedup_key (f a) = a_dedup_key a"
  shows "total_occurrences key (update_alert (a_id x) f alerts) = total_occurrences key alerts +
    (if a_dedup_key x = Some key then a_occurrence_count (f x) - a_occurrence_count x else 0)"
  using assms(1,2)
proof (induction alerts)
  case (Cons a as)
  show ?case
  proof (cases "a_id a = a_id x")
    case True
    with Cons.prems have "a = x" by (auto dest: image_eqI [of _ a_id])
    with Cons.prems(1) have "\<forall>b \<in> set as. a_id b \<noteq> a_id x" by (metis distinct.simps(2) image_eqI list.set_map list.simps(9))
    then have "update_alert (a_id x) f as = as" by (simp add: update_alert_def map_idI)
    with \<open>a = x\<close> assms(3) show ?thesis by (simp add: total_occurrences_def update_alert_def)
  next
    case False
    with Cons show ?thesis by (auto simp: total_occurrences_def update_alert_def)
  qed
qed simp

lemma total_step:
  assumes "dedup_inv w t used alerts" "wf_events t used (e # es)"
  shows "total_occurrences key (alert_step w e alerts) = total_occurrences key alerts + detections key [e]"
proof (cases e)
  case (Detected k now new)
  show ?thesis
  proof (cases "find_open_dupe k w now alerts")
    case None
    with Detected assms(2) show ?thesis
      by (simp add: probe_or_insert_def total_occurrences_def fresh_alert_def)
  next
    case (Some x)
    note x = find_open_dupe_Some(1,2) [OF Some]
    have "1 \<le> a_occurrence_count x" using assms(1) x(1) by (auto simp: dedup_inv_def timely_def)
    then have "a_occurrence_count (bump_occurrence now x) = a_occurrence_count x + 1" by (simp add: bump_occurrence_def)
    with total_update [of alerts x "bump_occurrence now" key] assms(1) x Some Detected show ?thesis
      by (auto simp: probe_or_insert_def dedup_inv_def dupe_candidate_def)
  qed
next
  case (State_set i s now)
  have "map (\<lambda>a. (a_dedup_key a, a_occurrence_count a)) (alert_step w e alerts) = map (\<lambda>a. (a_dedup_key a, a_occurrence_count a)) alerts"
    using State_set by (auto simp: update_alert_def)
  moreover have "total_occurrences key xs = sum_list (map snd (filter (\<lambda>p. fst p = Some key) (map (\<lambda>a. (a_dedup_key a, a_occurrence_count a)) xs)))" for xs
    by (simp add: total_occurrences_def filter_map comp_def)
  ultimately show ?thesis using State_set by simp
qed


lemma total_run:
  "0 < w \<Longrightarrow> dedup_inv w t used alerts \<Longrightarrow> wf_events t used es \<Longrightarrow>
     total_occurrences key (alert_run w es alerts) = total_occurrences key alerts + detections key es"
proof (induction es arbitrary: t used alerts)
  case (Cons e es)
  have st: "total_occurrences key (alert_step w e alerts) = total_occurrences key alerts + detections key [e]"
    by (rule total_step [OF Cons.prems(2,3)])
  have "\<exists>t' used'. dedup_inv w t' used' (alert_step w e alerts) \<and> wf_events t' used' es"
    using alert_step_inv [OF Cons.prems] by blast
  then obtain t' used' where "dedup_inv w t' used' (alert_step w e alerts)" "wf_events t' used' es" by blast
  from Cons.IH [OF Cons.prems(1) this] st show ?case by (cases e) auto
qed simp

section \<open>The life of an alert\<close>

text \<open>An alert's own history: the states it was moved to, oldest first.\<close>

definition moves_of :: "uuid \<Rightarrow> alert_db \<Rightarrow> AlertState list" where
  "moves_of i db = map h_to_state (filter (\<lambda>h. h_alert_id h = i \<and> h_from_state h \<noteq> None) (al_history db))"

definition history_ok :: "alert_db \<Rightarrow> bool" where
  "history_ok db \<longleftrightarrow> distinct (map a_id (al_alerts db)) \<and>
     (\<forall>a \<in> set (al_alerts db). alert_states.path NEW (moves_of (a_id a) db) \<and>
        a_state a = alert_states.ends_in NEW (moves_of (a_id a) db) \<and>
        (a_closed_at a \<noteq> None \<longleftrightarrow> \<not> is_open (a_state a)))"

lemma get_alert_Some: "get_alert i db = Some a \<Longrightarrow> a \<in> set (al_alerts db) \<and> a_id a = i"
  by (auto simp: get_alert_def find_Some_iff)

lemma moves_of_append:
  "moves_of i (db\<lparr>al_alerts := xs, al_history := al_history db @ [h]\<rparr>) =
     moves_of i db @ (if h_alert_id h = i \<and> h_from_state h \<noteq> None then [h_to_state h] else [])"
  by (simp add: moves_of_def)

lemma change_state_history:
  assumes ok: "history_ok db" and c: "change_state sdb actor i to_state comment now db = Inr (db', rq, ev)"
  shows "history_ok db'"
proof -
  from c obtain alert where g: "get_alert i db = Some alert" and t: "to_state \<in> set (ALERT_STATE_TRANSITIONS (a_state alert))"
    and db': "db' = db\<lparr>al_alerts := update_alert i (set_alert_state to_state now) (al_alerts db),
        al_history := al_history db @ [\<lparr>h_alert_id = i, h_from_state = Some (a_state alert),
          h_to_state = to_state, h_by_user_id = Some (u_id (actor_user actor)), h_comment = comment, h_ts = now\<rparr>]\<rparr>"
    by (auto simp: change_state_def bindE_eq_Inr RequireAnalyst_def require_role_def split: option.splits if_splits)
  note a = get_alert_Some [OF g]
  have ids: "map a_id (al_alerts db') = map a_id (al_alerts db)" by (simp add: db' update_alert_ids)
  have mv: "moves_of j db' = moves_of j db @ (if j = i then [to_state] else [])" for j by (simp add: db' moves_of_append)
  have "alert_states.path NEW (moves_of (a_id b) db') \<and> a_state b = alert_states.ends_in NEW (moves_of (a_id b) db') \<and>
      (a_closed_at b \<noteq> None \<longleftrightarrow> \<not> is_open (a_state b))" if "b \<in> set (al_alerts db')" for b
  proof -
    from that obtain b0 where b0: "b0 \<in> set (al_alerts db)" "b = (if a_id b0 = i then set_alert_state to_state now b0 else b0)"
      by (auto simp: db' set_update_alert)
    from ok b0(1) have h: "alert_states.path NEW (moves_of (a_id b0) db)" "a_state b0 = alert_states.ends_in NEW (moves_of (a_id b0) db)"
      "a_closed_at b0 \<noteq> None \<longleftrightarrow> \<not> is_open (a_state b0)" by (auto simp: history_ok_def)
    show ?thesis
    proof (cases "a_id b0 = i")
      case True
      with a ok b0(1) have "b0 = alert" by (auto simp: history_ok_def intro: distinct_ids_eq)
      then have op: "is_open (a_state b0)" using t alert_states_closed by blast
      have "a_id b = i" "a_state b = to_state" using b0(2) True by simp_all
      moreover have "alert_states.path NEW (moves_of i db @ [to_state])"
        using h(1,2) t True \<open>b0 = alert\<close> by (simp add: alert_states.path_snoc)
      moreover have "a_closed_at b \<noteq> None \<longleftrightarrow> \<not> is_open to_state"
        using b0(2) True h(3) op by (cases to_state) (auto simp: set_alert_state_def is_open_def)
      ultimately show ?thesis by (simp add: mv alert_states.ends_in_def)
    next
      case False
      with b0(2) h show ?thesis by (simp add: mv)
    qed
  qed
  with ok ids show ?thesis by (simp add: history_ok_def)
qed


text \<open>How the tables come about: producers insert and bump, analysts change states and assign.\<close>

inductive alerts_reachable :: "scope_db \<Rightarrow> auth_db \<Rightarrow> alert_db \<Rightarrow> bool" for sdb adb where
  empty: "alerts_reachable sdb adb \<lparr>al_alerts = [], al_history = []\<rparr>"
| insert: "alerts_reachable sdb adb db \<Longrightarrow> a_state new = NEW \<Longrightarrow> a_closed_at new = None \<Longrightarrow>
     a_id new \<notin> a_id ` set (al_alerts db) \<union> h_alert_id ` set (al_history db) \<Longrightarrow>
     alerts_reachable sdb adb (db\<lparr>al_alerts := al_alerts db @ [new],
       al_history := al_history db @ [\<lparr>h_alert_id = a_id new, h_from_state = None, h_to_state = NEW,
         h_by_user_id = None, h_comment = comment, h_ts = now\<rparr>]\<rparr>)"
| bump: "alerts_reachable sdb adb db \<Longrightarrow>
     alerts_reachable sdb adb (db\<lparr>al_alerts := update_alert i (bump_occurrence now) (al_alerts db)\<rparr>)"
| change: "alerts_reachable sdb adb db \<Longrightarrow> change_state sdb actor i to_state comment now db = Inr (db', rq, ev) \<Longrightarrow>
     alerts_reachable sdb adb db'"
| assign: "alerts_reachable sdb adb db \<Longrightarrow> assign_alert sdb adb actor i u db = Inr (db', rq) \<Longrightarrow> alerts_reachable sdb adb db'"

lemma moves_of_fresh: "i \<notin> h_alert_id ` set (al_history db) \<Longrightarrow> moves_of i db = []"
  by (auto simp: moves_of_def filter_empty_conv)

text \<open>Changes that leave ids, states and closing times alone keep the invariant.\<close>

lemma history_ok_update:
  assumes "history_ok db" "\<And>a. a_id (f a) = a_id a \<and> a_state (f a) = a_state a \<and> a_closed_at (f a) = a_closed_at a"
  shows "history_ok (db\<lparr>al_alerts := update_alert i f (al_alerts db)\<rparr>)"
proof -
  have "map a_id (update_alert i f (al_alerts db)) = map a_id (al_alerts db)" by (rule update_alert_ids) (use assms(2) in blast)
  moreover have "moves_of j (db\<lparr>al_alerts := xs\<rparr>) = moves_of j db" for j xs by (simp add: moves_of_def)
  moreover have "alert_states.path NEW (moves_of (a_id b) db) \<and> a_state b = alert_states.ends_in NEW (moves_of (a_id b) db) \<and>
      (a_closed_at b \<noteq> None \<longleftrightarrow> \<not> is_open (a_state b))" if b: "b \<in> set (update_alert i f (al_alerts db))" for b
  proof -
    from b obtain a where a: "a \<in> set (al_alerts db)" "b = (if a_id a = i then f a else a)" by (auto simp: set_update_alert)
    with assms(2) [of a] have "a_id b = a_id a" "a_state b = a_state a" "a_closed_at b = a_closed_at a" by simp_all
    with assms(1) a(1) show ?thesis by (simp add: history_ok_def)
  qed
  ultimately show ?thesis using assms(1) by (simp add: history_ok_def)
qed

lemma reachable_history_ok: "alerts_reachable sdb adb db \<Longrightarrow> history_ok db"
proof (induction rule: alerts_reachable.induct)
  case (insert db new comment now)
  let ?h = "\<lparr>h_alert_id = a_id new, h_from_state = None, h_to_state = NEW, h_by_user_id = None, h_comment = comment, h_ts = now\<rparr>"
  have "moves_of j (db\<lparr>al_alerts := al_alerts db @ [new], al_history := al_history db @ [?h]\<rparr>) = moves_of j db" for j
    by (simp add: moves_of_append)
  then show ?case using insert moves_of_fresh [of "a_id new" db]
    by (auto simp: history_ok_def alert_states.ends_in_def is_open_def)
next
  case (bump db i now)
  then show ?case by (intro history_ok_update) (simp_all add: bump_occurrence_def)
next
  case (change db actor i to_state comment now db' rq ev)
  then show ?case by (blast intro: change_state_history)
next
  case (assign db actor i u db' rq)
  then have "db' = db\<lparr>al_alerts := update_alert i (\<lambda>a. a\<lparr>a_assignee_id := u\<rparr>) (al_alerts db)\<rparr>"
    by (auto simp: assign_alert_def bindE_eq_Inr split: option.splits if_splits)
  with assign show ?case by (auto intro: history_ok_update)
qed (simp add: history_ok_def)

section \<open>Properties\<close>

definition demo_alert :: "uuid \<Rightarrow> datetime \<Rightarrow> Alert" where
  "demo_alert i t = \<lparr>a_id = i, a_tenant_id = 4, a_host_id = None, a_rule_id = 5, a_severity = HIGH, a_action_taken = ALERT,
     a_state = NEW, a_summary = ''s'', a_details = PNone, a_mitre = None, a_opened_at = t, a_closed_at = None, a_assignee_id = None,
     a_incident_id = None, a_dedup_key = Some ''k'', a_occurrence_count = 1, a_last_occurred_at = t\<rparr>"

definition demo_events :: "alert_event list" where
  "demo_events = [Detected ''k'' 0 (demo_alert 1 0), Detected ''k'' 5 (demo_alert 2 5), State_set 1 INVESTIGATING 6,
     Detected ''k'' 70000000 (demo_alert 3 70000000)]"

text \<open>
  Deduplication keeps open alerts of one key apart. After any history of detections and state
  changes in clock order, two open alerts with the same key are separated by a full window between
  the last occurrence of the one and the opening of the other.
\<close>

theorem dedup_keeps_alerts_apart:
  assumes "0 < w" "wf_events t [] es"
  shows "separated w (alert_run w es [])"
proof -
  have "dedup_inv w t [] []" by (simp add: dedup_inv_def separated_def timely_def)
  from alert_run_inv [OF assms(1) this assms(2)] show ?thesis by (auto simp: dedup_inv_def)
qed

theorem dedup_keeps_alerts_apart_witness: "separated 60 (alert_run 60 demo_events []) \<and> length (alert_run 60 demo_events []) = 2"
proof
  show "separated 60 (alert_run 60 demo_events [])" by (rule dedup_keeps_alerts_apart [of _ 0]) (simp, code_simp)
  show "length (alert_run 60 demo_events []) = 2" by code_simp
qed

text \<open>
  Deduplication loses no detection: the occurrence counts of the alerts of a key add up to the
  number of detections of that key.
\<close>

theorem dedup_counts_every_detection:
  assumes "0 < w" "wf_events t [] es"
  shows "total_occurrences key (alert_run w es []) = detections key es"
proof -
  have "dedup_inv w t [] []" by (simp add: dedup_inv_def separated_def timely_def)
  from total_run [OF assms(1) this assms(2)] show ?thesis by (simp add: total_occurrences_def)
qed

theorem dedup_counts_every_detection_witness: "total_occurrences ''k'' (alert_run 60 demo_events []) = 3"
proof -
  have "wf_events 0 [] demo_events" by code_simp
  from dedup_counts_every_detection [OF _ this, of 60 "''k''"] show ?thesis by (simp add: demo_events_def)
qed

text \<open>
  C9: an alert's state history is a path of allowed transitions from new to its current state, it
  has a closing time exactly when it is closed, and a closed alert admits no further state change.
\<close>

theorem alert_history_faithful:
  assumes "alerts_reachable sdb adb db" "a \<in> set (al_alerts db)"
  shows "alert_states.path NEW (moves_of (a_id a) db) \<and> a_state a = alert_states.ends_in NEW (moves_of (a_id a) db) \<and>
    (a_closed_at a \<noteq> None \<longleftrightarrow> \<not> is_open (a_state a)) \<and>
    (\<not> is_open (a_state a) \<longrightarrow> (\<exists>e. change_state sdb actor (a_id a) to_state comment now db = Inl e))"
proof -
  have ok: "history_ok db" by (rule reachable_history_ok [OF assms(1)])
  have "get_alert (a_id a) db = Some a"
  proof (cases "get_alert (a_id a) db")
    case None
    with assms(2) show ?thesis by (auto simp: get_alert_def find_None_iff)
  next
    case (Some b)
    with get_alert_Some [OF Some] ok assms(2) show ?thesis by (auto simp: history_ok_def intro: distinct_ids_eq)
  qed
  moreover have "ALERT_STATE_TRANSITIONS (a_state a) = []" if "\<not> is_open (a_state a)" using that by (rule alert_states.closed_final)
  ultimately have "\<exists>e. change_state sdb actor (a_id a) to_state comment now db = Inl e" if "\<not> is_open (a_state a)"
    using that by (auto simp: change_state_def RequireAnalyst_def require_role_def)
  with ok assms(2) show ?thesis by (simp add: history_ok_def)
qed

theorem alert_history_faithful_witness:
  "alert_states.path NEW (moves_of 1 \<lparr>al_alerts = [demo_alert 1 0], al_history = [\<lparr>h_alert_id = 1, h_from_state = None,
     h_to_state = NEW, h_by_user_id = None, h_comment = None, h_ts = 0\<rparr>]\<rparr>)"
  using alert_history_faithful [OF alerts_reachable.insert [OF alerts_reachable.empty, of "demo_alert 1 0"], of "demo_alert 1 0"]
  by (simp add: demo_alert_def)

text \<open>
  An alert without a host (an audit-chain break, say) carries a tenant, but the visibility
  checks look only at the host: an administrator of any other tenant sees it in lists and can change its state.
\<close>

theorem synthetic_alerts_cross_tenants:
  assumes "get_alert i db = Some a" "a_host_id a = None" "a_state a = NEW" "a_tenant_id a \<noteq> actor_tenant_id actor"
    "u_role (actor_user actor) = ADMIN"
  shows "apply_host_scope sdb actor (a_host_id a) \<and>
    (\<exists>db' rq ev. change_state sdb actor i TRUE_POSITIVE None now db = Inr (db', rq, ev) \<and>
       (\<exists>b \<in> set (al_alerts db'). a_id b = i \<and> a_state b = TRUE_POSITIVE))"
proof -
  have adm: "is_admin actor" using assms(5) by (simp add: is_admin_def has_role_def)
  have "RequireAnalyst actor = Inr actor" using assms(5) by (simp add: RequireAnalyst_def require_role_def has_role_def)
  moreover have "set_alert_state TRUE_POSITIVE now a \<in> set (update_alert i (set_alert_state TRUE_POSITIVE now) (al_alerts db))"
    using get_alert_Some [OF assms(1)] by (auto simp: set_update_alert)
  ultimately show ?thesis using assms adm get_alert_Some [OF assms(1)]
    by (auto simp: change_state_def host_visible_to_def apply_host_scope_def intro: bexI [rotated])
qed

theorem synthetic_alerts_cross_tenants_witness:
  "apply_host_scope \<lparr>sc_hosts = [], sc_host_in_group = [], sc_user_host_group = []\<rparr>
     \<lparr>actor_user = demo_user\<lparr>u_role := ADMIN\<rparr>, actor_kind = ''user'', actor_token_id = None,
      actor_scopes = [], actor_tenant_id = 3, actor_is_super_admin = False\<rparr> None"
  using synthetic_alerts_cross_tenants [of 1 "\<lparr>al_alerts = [demo_alert 1 0], al_history = []\<rparr>" "demo_alert 1 0"
      "\<lparr>actor_user = demo_user\<lparr>u_role := ADMIN\<rparr>, actor_kind = ''user'', actor_token_id = None,
        actor_scopes = [], actor_tenant_id = 3, actor_is_super_admin = False\<rparr>"
      "\<lparr>sc_hosts = [], sc_host_in_group = [], sc_user_host_group = []\<rparr>" 0]
  by (simp add: get_alert_def demo_alert_def)

end
