(* ===== verification/Incidents.thy ===== *)
theory Incidents
  imports Alerts
begin

text \<open>
  Incidents: the row and its status table (backend/app/models/incident.py), the periodic grouping of
  alerts into incidents and its process-tree refinement (services/incident_grouping.py), the worker's
  knobs (workers/incident_grouper.py) and the analyst's operations (api/incidents.py).
  The process tables consulted by the refinement (PostgreSQL and OpenSearch) are parameters; a new
  row's id is drawn from a counter.
\<close>

datatype IncidentStatus = OPEN | INC_INVESTIGATING | RESOLVED | CLOSED

fun incident_status_value :: "IncidentStatus \<Rightarrow> string" where
  "incident_status_value OPEN = ''open''"
| "incident_status_value INC_INVESTIGATING = ''investigating''"
| "incident_status_value RESOLVED = ''resolved''"
| "incident_status_value CLOSED = ''closed''"

datatype IncidentGroupingReason = WINDOW | PROCESS_TREE | RULE_CLUSTER

fun INCIDENT_STATUS_TRANSITIONS :: "IncidentStatus \<Rightarrow> IncidentStatus list" where
  "INCIDENT_STATUS_TRANSITIONS OPEN = [INC_INVESTIGATING, RESOLVED, CLOSED]"
| "INCIDENT_STATUS_TRANSITIONS INC_INVESTIGATING = [RESOLVED, CLOSED, OPEN]"
| "INCIDENT_STATUS_TRANSITIONS RESOLVED = [INC_INVESTIGATING, CLOSED]"
| "INCIDENT_STATUS_TRANSITIONS CLOSED = []"

record Incident =
  i_id :: uuid
  i_tenant_id :: uuid
  i_host_id :: "uuid option"
  i_title :: string
  i_summary :: "string option"
  i_severity :: Severity
  i_status :: IncidentStatus
  i_opened_at :: datetime
  i_closed_at :: "datetime option"
  i_assignee_id :: "uuid option"
  i_grouping_reason :: IncidentGroupingReason

section \<open>Grouping\<close>

definition max_severity :: "Severity \<Rightarrow> Severity \<Rightarrow> Severity" where
  "max_severity a b = (if severity_rank a \<ge> severity_rank b then a else b)"

record group_db =
  g_alerts :: "Alert list"
  g_incidents :: "Incident list"
  g_next :: uuid

definition groupable :: "datetime \<Rightarrow> Alert \<Rightarrow> bool" where
  "groupable cutoff a \<longleftrightarrow> a_incident_id a = None \<and> a_host_id a \<noteq> None \<and> cutoff \<le> a_opened_at a"

text \<open>\<open>ORDER BY host_id, opened_at\<close>, then one bucket per host.\<close>

definition ungrouped_rows :: "datetime \<Rightarrow> Alert list \<Rightarrow> Alert list" where
  "ungrouped_rows cutoff alerts =
     sort_key (\<lambda>a. the (a_host_id a)) (sort_key a_opened_at (filter (groupable cutoff) alerts))"

definition by_host :: "Alert list \<Rightarrow> (uuid \<times> Alert list) list" where
  "by_host rows = map (\<lambda>h. (h, filter (\<lambda>a. a_host_id a = Some h) rows)) (remdups (map (\<lambda>a. the (a_host_id a)) rows))"

text \<open>The most recently opened incident of the host that is still open.\<close>

definition prev_open :: "uuid \<Rightarrow> Incident list \<Rightarrow> Incident option" where
  "prev_open host incidents =
     (case sort_key (\<lambda>i. - i_opened_at i)
         (filter (\<lambda>i. i_host_id i = Some host \<and> i_status i \<in> {OPEN, INC_INVESTIGATING}) incidents) of
        [] \<Rightarrow> None
      | i # _ \<Rightarrow> Some i)"

definition latest_attached :: "uuid \<Rightarrow> Alert list \<Rightarrow> datetime option" where
  "latest_attached inc alerts =
     (let ts = map a_opened_at (filter (\<lambda>a. a_incident_id a = Some inc) alerts)
      in if ts = [] then None else Some (Max (set ts)))"

text \<open>The incident to continue and the time its window is anchored on.\<close>

definition adopt :: "int \<Rightarrow> uuid \<Rightarrow> group_db \<Rightarrow> Alert list \<Rightarrow> Incident option \<times> datetime option" where
  "adopt window host db alerts = (case prev_open host (g_incidents db) of
       None \<Rightarrow> (None, None)
     | Some inc \<Rightarrow>
         (let head_ts = (case latest_attached (i_id inc) (g_alerts db) of Some t \<Rightarrow> t | None \<Rightarrow> i_opened_at inc)
          in (if a_opened_at (hd alerts) - head_ts \<le> window then Some inc else None, Some head_ts)))"

definition new_incident :: "(uuid \<Rightarrow> string option) \<Rightarrow> uuid \<Rightarrow> uuid \<Rightarrow> Alert \<Rightarrow> Incident" where
  "new_incident rule_name host i a =
     \<lparr>i_id = i, i_tenant_id = a_tenant_id a, i_host_id = Some host,
      i_title = take 256 ((case rule_name (a_rule_id a) of Some n \<Rightarrow> (if n = [] then ''Incident'' else n) | None \<Rightarrow> ''Incident'') @ '' on host '' @ uuid_str host),
      i_summary = (if a_summary a \<noteq> [] then Some (take 512 (a_summary a)) else None),
      i_severity = a_severity a, i_status = OPEN, i_opened_at = a_opened_at a, i_closed_at = None,
      i_assignee_id = None, i_grouping_reason = WINDOW\<rparr>"

text \<open>
  The loop over a host's alerts: the incident id given to each, the incidents created, and the
  current incident at the end.
\<close>

fun attach_loop ::
  "(uuid \<Rightarrow> string option) \<Rightarrow> int \<Rightarrow> uuid \<Rightarrow> Incident option \<Rightarrow> datetime option \<Rightarrow> uuid \<Rightarrow> Alert list
     \<Rightarrow> uuid list \<times> Incident list \<times> Incident option" where
  "attach_loop rule_name window host cur head n [] = ([], [], cur)"
| "attach_loop rule_name window host cur head n (a # as) =
     (if cur \<noteq> None \<and> head \<noteq> None \<and> a_opened_at a - the head \<le> window
      then (case attach_loop rule_name window host cur (Some (a_opened_at a)) n as of
              (ids, news, c) \<Rightarrow> (i_id (the cur) # ids, news, c))
      else (let inc = new_incident rule_name host n a in
            case attach_loop rule_name window host (Some inc) (Some (a_opened_at a)) (n + 1) as of
              (ids, news, c) \<Rightarrow> (n # ids, inc # news, c)))"

text \<open>The severity the last incident of the pass is raised to.\<close>

definition bumped_severity :: "Incident \<Rightarrow> (Alert \<times> uuid) list \<Rightarrow> Severity" where
  "bumped_severity inc assigned =
     foldl (\<lambda>s (a, i). if i = i_id inc then max_severity s (a_severity a) else s) (i_severity inc) assigned"

definition assign_incidents :: "(uuid \<times> uuid) list \<Rightarrow> Alert list \<Rightarrow> Alert list" where
  "assign_incidents asg alerts =
     map (\<lambda>a. case map_of asg (a_id a) of Some i \<Rightarrow> a\<lparr>a_incident_id := Some i\<rparr> | None \<Rightarrow> a) alerts"

definition set_severity :: "uuid \<Rightarrow> Severity \<Rightarrow> Incident list \<Rightarrow> Incident list" where
  "set_severity i s incidents = map (\<lambda>x. if i_id x = i then x\<lparr>i_severity := s\<rparr> else x) incidents"

definition group_host ::
  "(uuid \<Rightarrow> string option) \<Rightarrow> int \<Rightarrow> uuid \<Rightarrow> Alert list \<Rightarrow> group_db \<Rightarrow> group_db \<times> uuid list" where
  "group_host rule_name window host alerts db =
     (let (cur, head) = adopt window host db alerts;
          (ids, news, c) = attach_loop rule_name window host cur head (g_next db) alerts;
          incidents = g_incidents db @ news;
          incidents' = (case c of
              None \<Rightarrow> incidents
            | Some inc \<Rightarrow>
                (let s = bumped_severity inc (zip alerts ids)
                 in if s \<noteq> i_severity inc then set_severity (i_id inc) s incidents else incidents))
      in (\<lparr>g_alerts = assign_incidents (zip (map a_id alerts) ids) (g_alerts db), g_incidents = incidents',
           g_next = g_next db + length news\<rparr>, ids))"

fun group_hosts ::
  "(uuid \<Rightarrow> string option) \<Rightarrow> int \<Rightarrow> (uuid \<times> Alert list) list \<Rightarrow> group_db \<Rightarrow> group_db \<times> uuid list" where
  "group_hosts rule_name window [] db = (db, [])"
| "group_hosts rule_name window ((host, alerts) # bs) db =
     (case group_host rule_name window host alerts db of
        (db1, ids) \<Rightarrow> (case group_hosts rule_name window bs db1 of (db2, ids') \<Rightarrow> (db2, ids @ ids')))"

section \<open>Process-tree refinement\<close>

definition as_dict :: "pyval \<Rightarrow> pydict option" where
  "as_dict v = (case v of PDict d \<Rightarrow> Some d | _ \<Rightarrow> None)"

text \<open>\<open>isinstance(pid, int) and pid > 0\<close>: a bool is an int.\<close>

definition positive_int :: "pyval \<Rightarrow> int option" where
  "positive_int v = (case v of
       PInt i \<Rightarrow> (if i > 0 then Some i else None)
     | PBool b \<Rightarrow> (if b then Some 1 else None)
     | _ \<Rightarrow> None)"

definition proc_pid :: "pyval \<Rightarrow> int option" where
  "proc_pid proc = (case as_dict proc of Some p \<Rightarrow> positive_int (dget p ''pid'') | None \<Rightarrow> None)"

definition alert_pid :: "Alert \<Rightarrow> int option" where
  "alert_pid alert = (case as_dict (a_details alert) of
       None \<Rightarrow> None
     | Some details \<Rightarrow>
         (case proc_pid (dget details ''process'') of
            Some pid \<Rightarrow> Some pid
          | None \<Rightarrow> (case as_dict (dget details ''metadata'') of
                None \<Rightarrow> None
              | Some metadata \<Rightarrow> proc_pid (dget metadata ''process''))))"

definition TREE_DEPTH_LIMIT :: nat where
  "TREE_DEPTH_LIMIT = 32"

text \<open>
  \<open>parent_pid\<close> of a process: \<open>Inr None\<close> when there is no row or no parent, \<open>Inl\<close> when the query
  fails, in which case the whole walk answers \<open>[]\<close>.
\<close>

fun walk_pg :: "(int \<Rightarrow> int option result) \<Rightarrow> nat \<Rightarrow> int list \<Rightarrow> int \<Rightarrow> int list result" where
  "walk_pg parent_pid 0 seen current = Inr []"
| "walk_pg parent_pid (Suc n) seen current =
     bindE (parent_pid current) (\<lambda>row. case row of
         None \<Rightarrow> Inr []
       | Some parent \<Rightarrow>
           (if parent \<in> set seen \<or> parent \<le> 0 then Inr []
            else bindE (walk_pg parent_pid n (parent # seen) parent) (\<lambda>chain. Inr (parent # chain))))"

definition ancestor_pids_from_pg :: "(uuid \<Rightarrow> int \<Rightarrow> int option result) \<Rightarrow> uuid \<Rightarrow> int \<Rightarrow> int list" where
  "ancestor_pids_from_pg pg host pid =
     (case walk_pg (pg host) TREE_DEPTH_LIMIT [pid] pid of Inr chain \<Rightarrow> chain | Inl _ \<Rightarrow> [])"

definition os_parent :: "pyval \<Rightarrow> int option result" where
  "os_parent doc =
     (if \<not> truthy doc then Inr None
      else bindE (vget doc ''process'') (\<lambda>p. case py_or p (PDict []) of
          PDict proc \<Rightarrow> bindE (vget (dget_default proc ''parent'' (PDict [])) ''pid'') (\<lambda>v. Inr (positive_int v))
        | _ \<Rightarrow> Inr None))"

text \<open>The same walk over the event store, except that a failure keeps what was found.\<close>

fun walk_os :: "(int \<Rightarrow> pyval result) \<Rightarrow> nat \<Rightarrow> int list \<Rightarrow> int \<Rightarrow> int list" where
  "walk_os fetch 0 seen current = []"
| "walk_os fetch (Suc n) seen current =
     (case bindE (fetch current) os_parent of
        Inr (Some parent) \<Rightarrow>
          (if parent \<in> set seen then [] else parent # walk_os fetch n (parent # seen) parent)
      | _ \<Rightarrow> [])"

definition ancestor_pids_from_os :: "(uuid \<Rightarrow> int \<Rightarrow> pyval result) \<Rightarrow> uuid \<Rightarrow> int \<Rightarrow> int list" where
  "ancestor_pids_from_os os host pid = walk_os (os host) TREE_DEPTH_LIMIT [pid] pid"

definition shares_ancestor :: "int list list \<Rightarrow> bool" where
  "shares_ancestor pid_sets \<longleftrightarrow>
     list_ex (\<lambda>p. 2 \<le> length (filter (\<lambda>s. p \<in> set s) pid_sets)) (concat pid_sets)"

definition promote :: "(uuid \<Rightarrow> int \<Rightarrow> int option result) \<Rightarrow> (uuid \<Rightarrow> int \<Rightarrow> pyval result) \<Rightarrow> Alert list \<Rightarrow> bool" where
  "promote pg os alerts =
     (let pairs = List.map_filter (\<lambda>a. map_option (\<lambda>p. (the (a_host_id a), p)) (alert_pid a)) alerts;
          pg_sets = map (\<lambda>(h, p). (p, ancestor_pids_from_pg pg h p)) pairs;
          sets = (if list_ex (\<lambda>(_, anc). anc \<noteq> []) pg_sets then map (\<lambda>(p, anc). p # anc) pg_sets
                  else map (\<lambda>(h, p). p # ancestor_pids_from_os os h p) pairs)
      in 2 \<le> length alerts \<and> 2 \<le> length sets \<and> shares_ancestor sets)"

definition refine_process_tree ::
  "(uuid \<Rightarrow> int \<Rightarrow> int option result) \<Rightarrow> (uuid \<Rightarrow> int \<Rightarrow> pyval result) \<Rightarrow> uuid list \<Rightarrow> group_db \<Rightarrow> group_db" where
  "refine_process_tree pg os incident_ids db =
     db\<lparr>g_incidents := map (\<lambda>x.
       if i_id x \<in> set incident_ids \<and>
          promote pg os (filter (\<lambda>a. a_incident_id a = Some (i_id x) \<and> a_host_id a \<noteq> None) (g_alerts db))
       then x\<lparr>i_grouping_reason := PROCESS_TREE\<rparr> else x) (g_incidents db)\<rparr>"

definition regroup_recent ::
  "(uuid \<Rightarrow> int \<Rightarrow> int option result) \<Rightarrow> (uuid \<Rightarrow> int \<Rightarrow> pyval result) \<Rightarrow> (uuid \<Rightarrow> string option) \<Rightarrow> datetime \<Rightarrow> int
     \<Rightarrow> group_db \<Rightarrow> group_db \<times> nat" where
  "regroup_recent pg os rule_name now window_s db =
     (if window_s \<le> 0 then (db, 0)
      else (let rows = ungrouped_rows (now - seconds (window_s * 2)) (g_alerts db) in
        if rows = [] then (db, 0)
        else (case group_hosts rule_name (seconds window_s) (by_host rows) db of
            (db1, ids) \<Rightarrow> (refine_process_tree pg os ids db1, length ids))))"

section \<open>The worker's knobs\<close>

definition grouper_interval_seconds :: "string option \<Rightarrow> int" where
  "grouper_interval_seconds env = (case int_of_str (case env of None \<Rightarrow> ''60'' | Some raw \<Rightarrow> raw) of
       Inr v \<Rightarrow> max 10 v | Inl _ \<Rightarrow> 60)"

definition grouper_window_seconds :: "string option \<Rightarrow> int" where
  "grouper_window_seconds env = (case int_of_str (case env of None \<Rightarrow> ''600'' | Some raw \<Rightarrow> raw) of
       Inr v \<Rightarrow> max 60 (min 86400 v) | Inl _ \<Rightarrow> 600)"

section \<open>Analyst operations\<close>

definition incident_audit :: "Actor \<Rightarrow> string \<Rightarrow> uuid \<Rightarrow> pydict \<Rightarrow> audit_request" where
  "incident_audit actor action i payload =
     \<lparr>rq_actor = Some actor, rq_action = action, rq_resource_type = Some ''incident'', rq_resource_id = Some (uuid_str i),
      rq_payload = Some payload, rq_ip = None, rq_tenant_id = None\<rparr>"

definition set_incident_status :: "IncidentStatus \<Rightarrow> datetime \<Rightarrow> Incident \<Rightarrow> Incident" where
  "set_incident_status to_state now x =
     x\<lparr>i_status := to_state, i_closed_at := (if to_state \<in> {RESOLVED, CLOSED} then Some now else None)\<rparr>"

text \<open>The new incidents, the audit row, and the event published, if any.\<close>

definition change_incident_state ::
  "scope_db \<Rightarrow> Actor \<Rightarrow> uuid \<Rightarrow> IncidentStatus \<Rightarrow> string option \<Rightarrow> datetime \<Rightarrow> Incident list
     \<Rightarrow> (Incident list \<times> audit_request \<times> string option) result" where
  "change_incident_state sdb actor i to_state comment now incidents =
     bindE (RequireAnalyst actor) (\<lambda>actor.
       case find (\<lambda>x. i_id x = i) incidents of
         None \<Rightarrow> Inl (not_found ''incident'' i)
       | Some incident \<Rightarrow>
           (if \<not> host_visible_to sdb actor (i_host_id incident) then Inl (not_found ''incident'' i)
            else if to_state \<notin> set (INCIDENT_STATUS_TRANSITIONS (i_status incident))
            then Inl (bad_request (''transition '' @ incident_status_value (i_status incident) @ '' -> '' @
                   incident_status_value to_state @ '' not allowed''))
            else Inr (map (\<lambda>x. if i_id x = i then set_incident_status to_state now x else x) incidents,
                      incident_audit actor ''incident.state_change'' i
                        [(''to_state'', PStr (incident_status_value to_state)), (''comment'', opt_str comment)],
                      (if to_state = RESOLVED then Some ''incident.resolved''
                       else if to_state \<in> {OPEN, INC_INVESTIGATING} then Some ''incident.opened'' else None))))"

definition assign_incident ::
  "scope_db \<Rightarrow> auth_db \<Rightarrow> Actor \<Rightarrow> uuid \<Rightarrow> uuid option \<Rightarrow> Incident list \<Rightarrow> (Incident list \<times> audit_request) result" where
  "assign_incident sdb adb actor i assignee incidents =
     bindE (RequireAnalyst actor) (\<lambda>actor.
       case find (\<lambda>x. i_id x = i) incidents of
         None \<Rightarrow> Inl (not_found ''incident'' i)
       | Some incident \<Rightarrow>
           (if \<not> host_visible_to sdb actor (i_host_id incident) then Inl (not_found ''incident'' i)
            else if (case assignee of None \<Rightarrow> False | Some u \<Rightarrow> get_user adb u = None)
            then Inl (not_found ''user'' (the assignee))
            else Inr (map (\<lambda>x. if i_id x = i then x\<lparr>i_assignee_id := assignee\<rparr> else x) incidents,
                      incident_audit actor ''incident.assign'' i [(''assignee_id'', opt_uuid assignee)])))"

end
