(* ===== verification/Incidents_Correct.thy ===== *)
theory Incidents_Correct
  imports Incidents Alerts_Correct
begin

text \<open>
  What grouping guarantees: every eligible alert, and no other, is attached to an incident of its
  host; inside one pass consecutive alerts share an incident exactly when the gap between them is
  within the window; a second pass changes nothing; ancestor walks are bounded; an incident has a
  closing time exactly while it is resolved or closed. And what it does not: only the last incident
  of a host's pass has its severity raised.
\<close>

interpretation incident_states: transition_table INCIDENT_STATUS_TRANSITIONS "\<lambda>s. s = CLOSED"
  by unfold_locales simp

section \<open>The attach loop\<close>

lemma attach_loop_length: "attach_loop nm w h cur head n as = (ids, news, c) \<Longrightarrow> length ids = length as"
  by (induction as arbitrary: cur head n ids news c) (auto simp: Let_def split: prod.splits if_splits)

lemma attach_loop_hd:
  "attach_loop nm w h cur head n (a # as) = (ids, news, c) \<Longrightarrow>
     hd ids = (if cur \<noteq> None \<and> head \<noteq> None \<and> a_opened_at a - the head \<le> w then i_id (the cur) else n)"
  by (auto simp: Let_def split: prod.splits if_splits)

lemma attach_loop_ids:
  "attach_loop nm w h cur head n as = (ids, news, c) \<Longrightarrow> i \<in> set ids \<Longrightarrow>
     (\<exists>inc. cur = Some inc \<and> i = i_id inc) \<or> (\<exists>inc \<in> set news. i_id inc = i \<and> i_host_id inc = Some h)"
proof (induction as arbitrary: cur head n ids news c)
  case (Cons a as)
  show ?case
  proof (cases "cur \<noteq> None \<and> head \<noteq> None \<and> a_opened_at a - the head \<le> w")
    case True
    with Cons.prems obtain ids' where r: "attach_loop nm w h cur (Some (a_opened_at a)) n as = (ids', news, c)"
      "ids = i_id (the cur) # ids'" by (auto split: prod.splits)
    show ?thesis
    proof (cases "i \<in> set ids'")
      case i: True
      from Cons.IH [OF r(1) i] show ?thesis .
    qed (use Cons.prems(2) r(2) True in auto)
  next
    case False
    let ?inc = "new_incident nm h n a"
    from False Cons.prems(1) obtain ids' news' where r: "attach_loop nm w h (Some ?inc) (Some (a_opened_at a)) (n + 1) as = (ids', news', c)"
      "ids = n # ids'" "news = ?inc # news'" by (auto simp: Let_def split: prod.splits)
    have inc: "i_id ?inc = n" "i_host_id ?inc = Some h" by (simp_all add: new_incident_def)
    show ?thesis
    proof (cases "i \<in> set ids'")
      case True
      from Cons.IH [OF r(1) True] inc r(3) show ?thesis by auto
    qed (use Cons.prems(2) r(2,3) inc in auto)
  qed
qed simp

lemma attach_loop_gaps:
  "attach_loop nm w h cur head n as = (ids, news, c) \<Longrightarrow> (\<forall>inc. cur = Some inc \<longrightarrow> i_id inc < n) \<Longrightarrow>
     Suc i < length as \<Longrightarrow>
     (ids ! Suc i = ids ! i \<longleftrightarrow> a_opened_at (as ! Suc i) - a_opened_at (as ! i) \<le> w)"
proof (induction as arbitrary: cur head n ids news c i)
  case (Cons a as)
  then obtain b as' where as: "as = b # as'" by (cases as) auto
  obtain cur' n' ids' news' where r: "attach_loop nm w h (Some cur') (Some (a_opened_at a)) n' as = (ids', news', c)"
    "ids = i_id cur' # ids'" "i_id cur' < n'"
  proof (cases "cur \<noteq> None \<and> head \<noteq> None \<and> a_opened_at a - the head \<le> w")
    case True
    then obtain inc where inc: "cur = Some inc" by auto
    with True Cons.prems(1) obtain ids' where "attach_loop nm w h (Some inc) (Some (a_opened_at a)) n as = (ids', news, c)"
      "ids = i_id inc # ids'" by (auto split: prod.splits)
    with that Cons.prems(2) inc show ?thesis by blast
  next
    case False
    with Cons.prems(1) obtain ids' news' where
      "attach_loop nm w h (Some (new_incident nm h n a)) (Some (a_opened_at a)) (n + 1) as = (ids', news', c)" "ids = n # ids'"
      by (auto simp: Let_def split: prod.splits)
    with that [of "new_incident nm h n a" "n + 1" ids' news'] show ?thesis by (simp add: new_incident_def)
  qed
  show ?case
  proof (cases i)
    case 0
    have "ids' \<noteq> []" using attach_loop_length [OF r(1)] as by auto
    then have "ids' ! 0 = hd ids'" by (simp add: hd_conv_nth)
    moreover have "hd ids' = (if a_opened_at b - a_opened_at a \<le> w then i_id cur' else n')"
      using attach_loop_hd [of nm w h "Some cur'" "Some (a_opened_at a)" n' b as' ids'] r(1) as by simp
    ultimately show ?thesis using 0 r(2,3) as by auto
  next
    case (Suc j)
    with Cons.IH [OF r(1), of j] r(2,3) Cons.prems(3) show ?thesis by simp
  qed
qed simp

section \<open>One pass\<close>

definition inc_keys :: "Incident list \<Rightarrow> (uuid \<times> uuid option) set" where
  "inc_keys incs = (\<lambda>x. (i_id x, i_host_id x)) ` set incs"

lemma inc_keys_map: "(\<And>x. i_id (f x) = i_id x \<and> i_host_id (f x) = i_host_id x) \<Longrightarrow> inc_keys (map f incs) = inc_keys incs"
  by (simp add: inc_keys_def image_image)

lemma inc_keys_set_severity [simp]: "inc_keys (set_severity i s incs) = inc_keys incs"
  unfolding set_severity_def by (rule inc_keys_map) simp

lemma inc_keys_append [simp]: "inc_keys (xs @ ys) = inc_keys xs \<union> inc_keys ys"
  by (auto simp: inc_keys_def)

lemma prev_open_Some: "prev_open h incs = Some inc \<Longrightarrow> inc \<in> set incs \<and> i_host_id inc = Some h"
proof -
  assume "prev_open h incs = Some inc"
  then obtain r where "sort_key (\<lambda>i. - i_opened_at i) (filter (\<lambda>i. i_host_id i = Some h \<and> i_status i \<in> {OPEN, INC_INVESTIGATING}) incs) = inc # r"
    by (auto simp: prev_open_def split: list.splits)
  then have "inc \<in> set (filter (\<lambda>i. i_host_id i = Some h \<and> i_status i \<in> {OPEN, INC_INVESTIGATING}) incs)"
    by (metis list.set_intros(1) set_sort)
  then show ?thesis by simp
qed

lemma adopt_in: "adopt w h db as = (Some inc, hd_ts) \<Longrightarrow> inc \<in> set (g_incidents db) \<and> i_host_id inc = Some h"
  by (auto simp: adopt_def Let_def split: option.splits if_splits dest: prev_open_Some)

lemma group_host_spec:
  assumes "group_host nm w h as db = (db', ids)"
  shows "length ids = length as" "g_alerts db' = assign_incidents (zip (map a_id as) ids) (g_alerts db)"
    "inc_keys (g_incidents db) \<subseteq> inc_keys (g_incidents db')" "\<forall>i \<in> set ids. (i, Some h) \<in> inc_keys (g_incidents db')"
proof -
  obtain cur head where ad: "adopt w h db as = (cur, head)" by fastforce
  obtain ids0 news c where al: "attach_loop nm w h cur head (g_next db) as = (ids0, news, c)" by (metis prod_cases3)
  have r: "ids = ids0" "g_alerts db' = assign_incidents (zip (map a_id as) ids) (g_alerts db)"
    "inc_keys (g_incidents db') = inc_keys (g_incidents db) \<union> inc_keys news"
    using assms ad al by (auto simp: group_host_def Let_def split: option.splits if_splits)
  show "length ids = length as" using attach_loop_length [OF al] r(1) by simp
  show "g_alerts db' = assign_incidents (zip (map a_id as) ids) (g_alerts db)" by (rule r(2))
  show "inc_keys (g_incidents db) \<subseteq> inc_keys (g_incidents db')" using r(3) by simp
  show "\<forall>i \<in> set ids. (i, Some h) \<in> inc_keys (g_incidents db')"
    using attach_loop_ids [OF al] adopt_in [of w h db as] ad r(1,3) by (fastforce simp: inc_keys_def)
qed

lemma assign_incidents_append:
  assumes "fst ` set asg1 \<inter> fst ` set asg2 = {}"
  shows "assign_incidents asg2 (assign_incidents asg1 alerts) = assign_incidents (asg1 @ asg2) alerts"
proof -
  have "map_of asg2 k = None" if "map_of asg1 k = Some v" for k v
    using assms map_of_SomeD [OF that] by (force simp: map_of_eq_None_iff)
  then show ?thesis by (auto simp: assign_incidents_def map_add_def split: option.splits)
qed

lemma group_hosts_spec:
  assumes "group_hosts nm w bs db = (db', ids)" "distinct (map a_id (concat (map snd bs)))"
  shows "length ids = length (concat (map snd bs)) \<and>
    g_alerts db' = assign_incidents (zip (map a_id (concat (map snd bs))) ids) (g_alerts db) \<and>
    inc_keys (g_incidents db) \<subseteq> inc_keys (g_incidents db') \<and>
    (\<forall>(a, i) \<in> set (zip (concat (map (\<lambda>(h, as). map (\<lambda>a. (h, a)) as) bs)) ids). (i, Some (fst a)) \<in> inc_keys (g_incidents db'))"
  using assms
proof (induction bs arbitrary: db ids)
  case Nil
  then show ?case by (simp add: assign_incidents_def)
next
  case (Cons b bs)
  obtain h as where b: "b = (h, as)" by (cases b)
  obtain db1 ids1 where g1: "group_host nm w h as db = (db1, ids1)" by fastforce
  obtain ids2 where g2: "group_hosts nm w bs db1 = (db', ids2)" "ids = ids1 @ ids2"
    using Cons.prems(1) b g1 by (auto split: prod.splits)
  note s1 = group_host_spec [OF g1]
  have "distinct (map a_id (concat (map snd bs)))" using Cons.prems(2) by simp
  note s2 = Cons.IH [OF g2(1) this]
  have "fst ` set (zip (map a_id as) ids1) \<inter> fst ` set (zip (map a_id (concat (map snd bs))) ids2) = {}"
    using Cons.prems(2) b by (auto dest!: set_zip_leftD)
  from assign_incidents_append [OF this, of "g_alerts db"] s1 s2 b g2(2)
  have al: "g_alerts db' = assign_incidents (zip (map a_id (concat (map snd (b # bs)))) ids) (g_alerts db)"
    by (simp add: zip_append1)
  have "(i, Some (fst a)) \<in> inc_keys (g_incidents db')"
    if "(a, i) \<in> set (zip (concat (map (\<lambda>(h, as). map (\<lambda>a. (h, a)) as) (b # bs))) ids)" for a i
  proof -
    from that s1(1) have "(a, i) \<in> set (zip (map (\<lambda>a. (h, a)) as) ids1) \<or>
        (a, i) \<in> set (zip (concat (map (\<lambda>(h, as). map (\<lambda>a. (h, a)) as) bs)) ids2)"
      by (simp add: b g2(2) zip_append1)
    then show ?thesis
    proof
      assume "(a, i) \<in> set (zip (map (\<lambda>a. (h, a)) as) ids1)"
      then have "i \<in> set ids1" "a \<in> set (map (\<lambda>a. (h, a)) as)" by (rule set_zip_rightD, rule set_zip_leftD)
      then have "i \<in> set ids1" "fst a = h" by auto
      with s1(4) s2 show ?thesis by blast
    qed (use s2 in blast)
  qed
  with al s1(1,3) s2 b g2(2) show ?case by auto
qed

section \<open>Buckets\<close>

lemma by_host_alerts: "set (concat (map snd (by_host rows))) = {a \<in> set rows. a_host_id a \<noteq> None}"
proof -
  have "a \<in> set (concat (map snd (by_host rows)))" if "a \<in> set rows" "a_host_id a = Some h" for a h
  proof -
    have "h \<in> set (remdups (map (\<lambda>a. the (a_host_id a)) rows))" using that by force
    with that show ?thesis by (auto simp: by_host_def)
  qed
  then show ?thesis by (auto simp: by_host_def)
qed

lemma by_host_distinct:
  assumes "distinct (map a_id rows)"
  shows "distinct (map a_id (concat (map snd (by_host rows))))"
proof -
  have "distinct (map a_id (concat (map (\<lambda>h. filter (\<lambda>a. a_host_id a = Some h) rows) hs)))" if "distinct hs" for hs
    using that
  proof (induction hs)
    case (Cons h hs)
    have "distinct (map a_id (filter (\<lambda>a. a_host_id a = Some h) rows))" using assms by (rule distinct_map_filter)
    moreover have "a_id ` {a \<in> set rows. a_host_id a = Some h} \<inter> a_id ` {a \<in> set rows. a_host_id a \<in> Some ` set hs} = {}"
      using Cons.prems distinct_ids_eq [OF assms] by auto (metis option.inject)
    ultimately show ?case using Cons by (auto simp: disjoint_iff image_iff) 
  qed simp
  then show ?thesis by (simp add: by_host_def comp_def)
qed


lemma ungrouped_rows_set: "set (ungrouped_rows c alerts) = {a \<in> set alerts. groupable c a}"
  by (auto simp: ungrouped_rows_def)

lemma ungrouped_rows_distinct: "distinct (map a_id alerts) \<Longrightarrow> distinct (map a_id (ungrouped_rows c alerts))"
  by (metis (no_types, lifting) distinct_map distinct_map_filter distinct_sort set_sort ungrouped_rows_def)

text \<open>What a pass does to one alert, given the incidents there are afterwards.\<close>

definition regrouped :: "datetime \<Rightarrow> Incident list \<Rightarrow> Alert \<Rightarrow> Alert \<Rightarrow> bool" where
  "regrouped cutoff incs a a' \<longleftrightarrow>
     (if groupable cutoff a
      then \<exists>i. a' = a\<lparr>a_incident_id := Some i\<rparr> \<and> (i, a_host_id a) \<in> inc_keys incs
      else a' = a)"

lemma inc_keys_refine [simp]: "inc_keys (g_incidents (refine_process_tree pg os ids db)) = inc_keys (g_incidents db)"
  by (simp add: refine_process_tree_def inc_keys_map)

lemma g_alerts_refine [simp]: "g_alerts (refine_process_tree pg os ids db) = g_alerts db"
  by (simp add: refine_process_tree_def)

lemma by_host_pairs:
  "concat (map snd (by_host rows)) = map snd (concat (map (\<lambda>(h, as). map (\<lambda>a. (h, a)) as) (by_host rows)))"
  "p \<in> set (concat (map (\<lambda>(h, as). map (\<lambda>a. (h, a)) as) (by_host rows))) \<Longrightarrow> a_host_id (snd p) = Some (fst p)"
  by (auto simp: by_host_def map_concat comp_def)

lemma regroup_spec:
  assumes w: "0 < window_s" and dist: "distinct (map a_id (g_alerts db))"
    and r: "regroup_recent pg os nm now window_s db = (db', n)"
  shows "list_all2 (regrouped (now - seconds (window_s * 2)) (g_incidents db')) (g_alerts db) (g_alerts db') \<and>
    n = length (filter (groupable (now - seconds (window_s * 2))) (g_alerts db))"
proof -
  let ?c = "now - seconds (window_s * 2)"
  let ?rows = "ungrouped_rows ?c (g_alerts db)"
  let ?as = "concat (map snd (by_host ?rows))"
  have len: "length ?rows = length (filter (groupable ?c) (g_alerts db))" by (simp add: ungrouped_rows_def)
  show ?thesis
  proof (cases "?rows = []")
    case True
    then have none: "\<not> groupable ?c a" if "a \<in> set (g_alerts db)" for a using that ungrouped_rows_set [of ?c "g_alerts db"] by auto
    with True r w len show ?thesis
      by (auto simp: regroup_recent_def regrouped_def list_all2_same)
  next
    case False
    obtain db1 ids where g: "group_hosts nm (seconds window_s) (by_host ?rows) db = (db1, ids)" by fastforce
    have db': "db' = refine_process_tree pg os ids db1" "n = length ids"
      using r w False g by (auto simp: regroup_recent_def Let_def)
    have rd: "distinct (map a_id ?rows)" by (rule ungrouped_rows_distinct [OF dist])
    note ad = by_host_distinct [OF rd]
    note sp = group_hosts_spec [OF g ad]
    have rows_host: "a_host_id a \<noteq> None" if "a \<in> set ?rows" for a
      using that ungrouped_rows_set [of ?c "g_alerts db"] by (auto simp: groupable_def)
    have setas: "set ?as = {a \<in> set (g_alerts db). groupable ?c a}"
      using by_host_alerts [of ?rows] rows_host ungrouped_rows_set [of ?c "g_alerts db"] by auto
    have card: "length xs = card (set xs)" if "distinct (map a_id xs)" for xs :: "Alert list"
      using that by (metis distinct_card distinct_map)
    have n: "n = length (filter (groupable ?c) (g_alerts db))"
      using len card [OF ad] card [OF rd] setas ungrouped_rows_set [of ?c "g_alerts db"] sp db'(2) by argo
    have "regrouped ?c (g_incidents db') a (case map_of (zip (map a_id ?as) ids) (a_id a) of
        Some i \<Rightarrow> a\<lparr>a_incident_id := Some i\<rparr> | None \<Rightarrow> a)" if a: "a \<in> set (g_alerts db)" for a
    proof (cases "groupable ?c a")
      case True
      with a setas have "a \<in> set ?as" by auto
      then obtain j where j: "j < length ?as" "?as ! j = a" by (metis in_set_conv_nth)
      have li: "length ids = length ?as" using sp by simp
      have "map_of (zip (map a_id ?as) ids) (a_id a) = Some (ids ! j)"
        using j li ad by (metis length_map map_of_zip_nth nth_map)
      moreover have "(ids ! j, a_host_id a) \<in> inc_keys (g_incidents db1)"
      proof -
        let ?ps = "concat (map (\<lambda>(h, as). map (\<lambda>a. (h, a)) as) (by_host ?rows))"
        have bp: "?as = map snd ?ps" by (rule by_host_pairs(1))
        have lp1: "length ?ps = length ?as" unfolding bp by simp
        have "?as ! j = snd (?ps ! j)" unfolding bp by (rule nth_map) (use j lp1 in simp)
        with lp1 j(2) have lp: "length ?ps = length ?as" "snd (?ps ! j) = a" by simp_all
        then have "(?ps ! j, ids ! j) \<in> set (zip ?ps ids)" using j li by (auto simp: set_zip)
        moreover have "a_host_id a = Some (fst (?ps ! j))" using by_host_pairs(2) [of "?ps ! j" ?rows] lp j by (metis nth_mem)
        ultimately show ?thesis using sp by fastforce
      qed
      ultimately show ?thesis using True db'(1) by (auto simp: regrouped_def)
    next
      case False
      have "a_id a \<notin> a_id ` set ?as" using False a setas distinct_ids_eq [OF dist] by auto
      then have "map_of (zip (map a_id ?as) ids) (a_id a) = None" by (auto simp: map_of_eq_None_iff dest: set_zip_leftD)
      with False show ?thesis by (simp add: regrouped_def)
    qed
    then have "list_all2 (regrouped ?c (g_incidents db')) (g_alerts db) (g_alerts db')"
      using sp db'(1) by (simp add: assign_incidents_def list_all2_map2 list_all2_same)
    with n show ?thesis by simp
  qed
qed

lemma regrouped_not_groupable: "regrouped c incs a a' \<Longrightarrow> \<not> groupable c a'"
  by (auto simp: regrouped_def groupable_def split: if_splits)

section \<open>Ancestor walks\<close>

lemma walk_pg_bound:
  "walk_pg f n seen cur = Inr chain \<Longrightarrow> length chain \<le> n \<and> distinct chain \<and> set chain \<inter> set seen = {} \<and> (\<forall>p \<in> set chain. 0 < p)"
proof (induction n arbitrary: seen cur chain)
  case (Suc n)
  then show ?case
  proof (cases "f cur")
    case (Inr row)
    show ?thesis
    proof (cases "\<exists>p. row = Some p \<and> \<not> (p \<in> set seen \<or> p \<le> 0)")
      case True
      then obtain p where p: "row = Some p" "p \<notin> set seen" "0 < p" by auto
      with Suc.prems Inr obtain ch where ch: "walk_pg f n (p # seen) p = Inr ch" "chain = p # ch" by (auto simp: bindE_eq_Inr)
      from Suc.IH [OF ch(1)] ch(2) p show ?thesis by auto
    next
      case False
      with Suc.prems Inr show ?thesis by (auto split: option.splits if_splits)
    qed
  qed simp
qed simp

lemma positive_int_pos: "positive_int v = Some p \<Longrightarrow> 0 < p"
  by (auto simp: positive_int_def split: pyval.splits if_splits)

lemma os_parent_pos: "os_parent doc = Inr (Some p) \<Longrightarrow> 0 < p"
proof -
  assume "os_parent doc = Inr (Some p)"
  then obtain x where x: "(case py_or x (PDict []) of
      PDict proc \<Rightarrow> bindE (vget (dget_default proc ''parent'' (PDict [])) ''pid'') (\<lambda>v. Inr (positive_int v))
    | _ \<Rightarrow> Inr None) = Inr (Some p)" by (auto simp: os_parent_def bindE_eq_Inr split: if_splits)
  then show ?thesis by (cases "py_or x (PDict [])") (auto simp: bindE_eq_Inr dest: positive_int_pos)
qed

lemma walk_os_bound:
  "length (walk_os f n seen cur) \<le> n \<and> distinct (walk_os f n seen cur) \<and> set (walk_os f n seen cur) \<inter> set seen = {} \<and>
     (\<forall>p \<in> set (walk_os f n seen cur). 0 < p)"
proof (induction n arbitrary: seen cur)
  case (Suc n)
  show ?case
  proof (cases "\<exists>p. bindE (f cur) os_parent = Inr (Some p) \<and> p \<notin> set seen")
    case True
    then obtain p where p: "bindE (f cur) os_parent = Inr (Some p)" "p \<notin> set seen" by blast
    then have "0 < p" by (auto simp: bindE_eq_Inr dest: os_parent_pos)
    with p Suc [of "p # seen" p] show ?thesis by auto
  next
    case False
    then show ?thesis by (auto split: sum.split option.split)
  qed
qed simp


section \<open>Closing times\<close>

definition inc_ok :: "Incident \<Rightarrow> bool" where
  "inc_ok x \<longleftrightarrow> (i_closed_at x \<noteq> None \<longleftrightarrow> i_status x \<in> {RESOLVED, CLOSED})"

lemma inc_ok_simps [simp]:
  "inc_ok (x\<lparr>i_severity := s\<rparr>) = inc_ok x" "inc_ok (x\<lparr>i_grouping_reason := g\<rparr>) = inc_ok x"
  "inc_ok (x\<lparr>i_assignee_id := u\<rparr>) = inc_ok x" "inc_ok (new_incident nm h n a)" "inc_ok (set_incident_status st now x)"
  by (auto simp: inc_ok_def new_incident_def set_incident_status_def)

lemma attach_loop_inc_ok: "attach_loop nm w h cur head n as = (ids, news, c) \<Longrightarrow> list_all inc_ok news"
proof (induction as arbitrary: cur head n ids news c)
  case (Cons a as)
  show ?case
  proof (cases "cur \<noteq> None \<and> head \<noteq> None \<and> a_opened_at a - the head \<le> w")
    case True
    with Cons.prems obtain ids' where "attach_loop nm w h cur (Some (a_opened_at a)) n as = (ids', news, c)"
      by (auto split: prod.splits)
    then show ?thesis by (rule Cons.IH)
  next
    case False
    with Cons.prems obtain ids' news' where
      r: "attach_loop nm w h (Some (new_incident nm h n a)) (Some (a_opened_at a)) (n + 1) as = (ids', news', c)"
        "news = new_incident nm h n a # news'"
      by (auto simp: Let_def split: prod.splits)
    from Cons.IH [OF r(1)] r(2) show ?thesis by simp
  qed
qed simp

lemma group_hosts_inc_ok:
  "group_hosts nm w bs db = (db', ids) \<Longrightarrow> list_all inc_ok (g_incidents db) \<Longrightarrow> list_all inc_ok (g_incidents db')"
proof (induction bs arbitrary: db ids)
  case (Cons b bs)
  obtain h as where b: "b = (h, as)" by (cases b)
  obtain db1 ids1 where g1: "group_host nm w h as db = (db1, ids1)" by fastforce
  obtain cur head where ad: "adopt w h db as = (cur, head)" by fastforce
  obtain ids0 news c where al: "attach_loop nm w h cur head (g_next db) as = (ids0, news, c)" by (metis prod_cases3)
  have "list_all inc_ok (g_incidents db1)"
    using g1 ad al Cons.prems(2) attach_loop_inc_ok [OF al]
    by (auto simp: group_host_def Let_def set_severity_def list_all_iff split: option.splits if_splits)
  with Cons g1 b show ?case by (auto split: prod.splits)
qed simp

inductive incidents_reachable :: "scope_db \<Rightarrow> auth_db \<Rightarrow> group_db \<Rightarrow> bool" for sdb adb where
  start: "g_incidents db = [] \<Longrightarrow> incidents_reachable sdb adb db"
| regroup: "incidents_reachable sdb adb db \<Longrightarrow> regroup_recent pg os nm now w db = (db', n) \<Longrightarrow> incidents_reachable sdb adb db'"
| alerts: "incidents_reachable sdb adb db \<Longrightarrow> incidents_reachable sdb adb (db\<lparr>g_alerts := alerts\<rparr>)"
| change: "incidents_reachable sdb adb db \<Longrightarrow>
     change_incident_state sdb actor i st comment now (g_incidents db) = Inr (incs, rq, ev) \<Longrightarrow>
     incidents_reachable sdb adb (db\<lparr>g_incidents := incs\<rparr>)"
| assign: "incidents_reachable sdb adb db \<Longrightarrow> assign_incident sdb adb actor i u (g_incidents db) = Inr (incs, rq) \<Longrightarrow>
     incidents_reachable sdb adb (db\<lparr>g_incidents := incs\<rparr>)"

lemma incidents_reachable_ok: "incidents_reachable sdb adb db \<Longrightarrow> list_all inc_ok (g_incidents db)"
proof (induction rule: incidents_reachable.induct)
  case (regroup db pg os nm now w db' n)
  show ?case
  proof (cases "db' = db")
    case False
    with regroup(2) obtain db1 ids where g: "group_hosts nm (seconds w) (by_host (ungrouped_rows (now - seconds (w * 2)) (g_alerts db))) db = (db1, ids)"
      "db' = refine_process_tree pg os ids db1"
      by (auto simp: regroup_recent_def Let_def split: if_splits prod.splits)
    from group_hosts_inc_ok [OF g(1) regroup.IH] g(2) show ?thesis by (auto simp: refine_process_tree_def list_all_iff)
  qed (use regroup.IH in simp)
next
  case (change db actor i st comment now incs rq ev)
  then have "incs = map (\<lambda>x. if i_id x = i then set_incident_status st now x else x) (g_incidents db)"
    by (auto simp: change_incident_state_def bindE_eq_Inr Let_def split: option.splits if_splits)
  with change.IH show ?case by (auto simp: list_all_iff)
next
  case (assign db actor i u incs rq)
  then have "incs = map (\<lambda>x. if i_id x = i then x\<lparr>i_assignee_id := u\<rparr> else x) (g_incidents db)"
    by (auto simp: assign_incident_def bindE_eq_Inr Let_def split: option.splits if_splits)
  with assign.IH show ?case by (auto simp: list_all_iff)
qed simp_all

section \<open>Properties\<close>

definition demo_host_alert :: "uuid \<Rightarrow> Severity \<Rightarrow> int \<Rightarrow> Alert" where
  "demo_host_alert i sev t = (demo_alert i (seconds t))\<lparr>a_host_id := Some 9, a_severity := sev\<rparr>"

definition demo_group_db :: "Alert list \<Rightarrow> group_db" where
  "demo_group_db alerts = \<lparr>g_alerts = alerts, g_incidents = [], g_next = 100\<rparr>"

abbreviation no_pg :: "uuid \<Rightarrow> int \<Rightarrow> int option result" where
  "no_pg \<equiv> \<lambda>_ _. Inr None"

abbreviation no_os :: "uuid \<Rightarrow> int \<Rightarrow> pyval result" where
  "no_os \<equiv> \<lambda>_ _. Inr PNone"

text \<open>
  C10: a grouping pass attaches every eligible alert (ungrouped, on a host, opened within twice the
  window) to an incident of its host, leaves every other alert as it was, counts exactly the alerts
  attached, and is idempotent: a second pass at the same time changes nothing.
\<close>

theorem regroup_attaches_exactly:
  assumes "0 < window_s" "distinct (map a_id (g_alerts db))" "regroup_recent pg os nm now window_s db = (db', n)"
  shows "list_all2 (regrouped (now - seconds (window_s * 2)) (g_incidents db')) (g_alerts db) (g_alerts db') \<and>
    n = length (filter (groupable (now - seconds (window_s * 2))) (g_alerts db)) \<and>
    regroup_recent pg os nm now window_s db' = (db', 0)"
proof -
  let ?c = "now - seconds (window_s * 2)"
  have sp: "list_all2 (regrouped ?c (g_incidents db')) (g_alerts db) (g_alerts db')" using regroup_spec [OF assms] by simp
  then have "\<not> groupable ?c a'" if "a' \<in> set (g_alerts db')" for a'
    using that by (metis in_set_conv_nth list_all2_conv_all_nth regrouped_not_groupable)
  then have "set (ungrouped_rows ?c (g_alerts db')) = {}" by (simp add: ungrouped_rows_set)
  then have "ungrouped_rows ?c (g_alerts db') = []" by simp
  with regroup_spec [OF assms] assms(1) show ?thesis by (simp add: regroup_recent_def)
qed

theorem regroup_attaches_exactly_witness:
  "let db = demo_group_db [demo_host_alert 1 LOW 0]; r = regroup_recent no_pg no_os (\<lambda>_. None) (seconds 60) 600 db
   in regroup_recent no_pg no_os (\<lambda>_. None) (seconds 60) 600 (fst r) = (fst r, 0)"
  using regroup_attaches_exactly [of 600 "demo_group_db [demo_host_alert 1 LOW 0]" no_pg no_os "\<lambda>_. None" "seconds 60",
      OF _ _ surjective_pairing]
  by (simp add: demo_group_db_def Let_def)

text \<open>
  Within a host's pass two consecutive alerts land in the same incident exactly when the second
  was opened within the window after the first.
\<close>

theorem grouping_splits_at_gaps:
  assumes "group_host nm w h alerts db = (db', ids)" "\<forall>x \<in> set (g_incidents db). i_id x < g_next db" "Suc i < length alerts"
  shows "ids ! Suc i = ids ! i \<longleftrightarrow> a_opened_at (alerts ! Suc i) - a_opened_at (alerts ! i) \<le> w"
proof -
  obtain cur head where ad: "adopt w h db alerts = (cur, head)" by fastforce
  obtain ids0 news c where al: "attach_loop nm w h cur head (g_next db) alerts = (ids0, news, c)" by (metis prod_cases3)
  have "ids = ids0" using assms(1) ad al by (auto simp: group_host_def Let_def)
  moreover have "\<forall>inc. cur = Some inc \<longrightarrow> i_id inc < g_next db" using adopt_in ad assms(2) by blast
  ultimately show ?thesis using attach_loop_gaps [OF al _ assms(3)] by simp
qed

theorem grouping_splits_at_gaps_witness:
  "let ids = snd (group_host (\<lambda>_. None) (seconds 600) 9 [demo_host_alert 1 LOW 0, demo_host_alert 2 HIGH 900] (demo_group_db []))
   in ids ! 1 \<noteq> ids ! 0"
  using grouping_splits_at_gaps [of "\<lambda>_. None" "seconds 600" 9 "[demo_host_alert 1 LOW 0, demo_host_alert 2 HIGH 900]" "demo_group_db []",
      OF surjective_pairing, of 0]
  by (simp add: Let_def demo_group_db_def demo_host_alert_def demo_alert_def seconds_def)

text \<open>
  Both ancestor walks end within the depth limit on any data, cyclic data included, and return
  distinct positive pids that never include the starting process.
\<close>

theorem ancestor_walks_bounded:
  "let pg_walk = ancestor_pids_from_pg pg host pid; os_walk = ancestor_pids_from_os os host pid
   in length pg_walk \<le> TREE_DEPTH_LIMIT \<and> distinct (pid # pg_walk) \<and> (\<forall>p \<in> set pg_walk. 0 < p) \<and>
      length os_walk \<le> TREE_DEPTH_LIMIT \<and> distinct (pid # os_walk) \<and> (\<forall>p \<in> set os_walk. 0 < p)"
  using walk_pg_bound [of "pg host" TREE_DEPTH_LIMIT "[pid]" pid] walk_os_bound [of "os host" TREE_DEPTH_LIMIT "[pid]" pid]
  by (auto simp: Let_def ancestor_pids_from_pg_def ancestor_pids_from_os_def split: sum.split)

theorem ancestor_walks_bounded_witness:
  "length (ancestor_pids_from_pg (\<lambda>_ p. Inr (Some (3 - p))) 9 1) \<le> TREE_DEPTH_LIMIT"
  using ancestor_walks_bounded [where pg = "\<lambda>_ p. Inr (Some (3 - p))" and host = 9 and pid = 1] by (simp add: Let_def)

text \<open>
  Only the last incident of a host's pass has its severity raised: here the first incident
  holds a critical alert and stays at low.
\<close>

theorem earlier_incident_keeps_stale_severity:
  "let db = fst (regroup_recent no_pg no_os (\<lambda>_. None) (seconds 1200) 600
        (demo_group_db [demo_host_alert 1 LOW 0, demo_host_alert 2 CRITICAL 10, demo_host_alert 3 LOW 1000]))
   in map (\<lambda>a. (a_severity a, a_incident_id a)) (g_alerts db) = [(LOW, Some 100), (CRITICAL, Some 100), (LOW, Some 101)] \<and>
      map (\<lambda>x. (i_id x, i_severity x)) (g_incidents db) = [(100, LOW), (101, LOW)]"
  by code_simp

text \<open>
  However alerts are grouped and analysts change and assign incidents, an incident has a closing
  time exactly while it is resolved or closed, and a closed incident admits no further change of state.
\<close>

theorem incident_closing_time:
  assumes "incidents_reachable sdb adb db" "find (\<lambda>x. i_id x = i) (g_incidents db) = Some x"
  shows "(i_closed_at x \<noteq> None \<longleftrightarrow> i_status x \<in> {RESOLVED, CLOSED}) \<and>
    (i_status x = CLOSED \<longrightarrow> (\<exists>e. change_incident_state sdb actor i to_state comment now (g_incidents db) = Inl e))"
proof -
  have "x \<in> set (g_incidents db)" using assms(2) by (simp add: find_SomeD)
  then have "inc_ok x" using incidents_reachable_ok [OF assms(1)] by (simp add: list_all_iff)
  then show ?thesis using assms(2)
    by (auto simp: inc_ok_def change_incident_state_def RequireAnalyst_def require_role_def)
qed

theorem incident_closing_time_witness:
  "i_closed_at (new_incident (\<lambda>_. None) 9 100 (demo_host_alert 1 LOW 0)) = None"
proof -
  let ?db = "fst (regroup_recent no_pg no_os (\<lambda>_. None) (seconds 1200) 600 (demo_group_db [demo_host_alert 1 LOW 0]))"
  have "incidents_reachable \<lparr>sc_hosts = [], sc_host_in_group = [], sc_user_host_group = []\<rparr> \<lparr>db_users = [], db_tokens = []\<rparr> ?db"
    by (rule incidents_reachable.regroup [OF incidents_reachable.start surjective_pairing]) (simp add: demo_group_db_def)
  moreover have "find (\<lambda>x. i_id x = 100) (g_incidents ?db) = Some (new_incident (\<lambda>_. None) 9 100 (demo_host_alert 1 LOW 0))"
    by code_simp
  ultimately have "i_closed_at (new_incident (\<lambda>_. None) 9 100 (demo_host_alert 1 LOW 0)) \<noteq> None \<longleftrightarrow>
      i_status (new_incident (\<lambda>_. None) 9 100 (demo_host_alert 1 LOW 0)) \<in> {RESOLVED, CLOSED}"
    using incident_closing_time by blast
  then show ?thesis by (simp add: new_incident_def)
qed

end
