(* ===== verification/Rate_Limit.thy ===== *)
theory Rate_Limit
  imports Access
begin

text \<open>
  The rate limiter in front of the HTTP API (backend/app/core/rate_limit.py): the classification of
  a request, the two bucket stores and the middleware. Wall-clock times are rational numbers of
  seconds. Redis is a service outside the repository: its \<open>INCR\<close> and \<open>EXPIRE\<close> commands are
  parameters, their documented behaviour is the locale \<open>redis_commands\<close>, and the Lua script that the
  source sends to it is translated over them.
\<close>

section \<open>Limits and classification\<close>

definition WINDOW_S :: int where
  "WINDOW_S = 60"

text \<open>\<open>fld\<close> is the settings attribute (\<open>PNone\<close> when absent), \<open>env\<close> the environment variable.\<close>

definition env_int :: "pyval \<Rightarrow> string option \<Rightarrow> int \<Rightarrow> int" where
  "env_int fld env dflt = (case fld of
       PInt i \<Rightarrow> i
     | PBool b \<Rightarrow> (if b then 1 else 0)
     | _ \<Rightarrow> (case env of
          None \<Rightarrow> dflt
        | Some raw \<Rightarrow> (case int_of_str raw of Inr i \<Rightarrow> i | Inl _ \<Rightarrow> dflt)))"

definition LIMITS :: "(string \<Rightarrow> pyval) \<Rightarrow> (string \<Rightarrow> string option) \<Rightarrow> (string \<times> int) list" where
  "LIMITS settings env = map (\<lambda>(role, var, dflt). (role, env_int (settings var) (env var) dflt))
     [(''admin'', ''VIGIL_RL_USER_ADMIN_PER_MIN'', 600), (''analyst'', ''VIGIL_RL_USER_ANALYST_PER_MIN'', 300),
      (''viewer'', ''VIGIL_RL_USER_VIEWER_PER_MIN'', 120), (''api_token'', ''VIGIL_RL_API_TOKEN_PER_MIN'', 600),
      (''anon'', ''VIGIL_RL_ANON_PER_MIN'', 60)]"

definition EXEMPT_PATHS :: "string list" where
  "EXEMPT_PATHS = [''/api/health'', ''/api/openapi.json'', ''/metrics'']"

record request =
  req_path :: string
  req_authorization :: "string option"
  req_client_host :: "string option"

definition classify ::
  "(bytes \<Rightarrow> bytes) \<Rightarrow> (string \<Rightarrow> jwt_outcome) \<Rightarrow> (string \<times> int) list \<Rightarrow> request \<Rightarrow> string \<times> string" where
  "classify sha256 decode_jwt limits req =
     (let auth = (case req_authorization req of None \<Rightarrow> [] | Some a \<Rightarrow> a);
          ip = (case req_client_host req of None \<Rightarrow> ''unknown'' | Some h \<Rightarrow> h);
          anon = (''anon'', ip @ '':anon'')
      in if \<not> startswith (lower auth) ''bearer '' then anon
         else (let token = strip (case split_once CHR '' '' auth of None \<Rightarrow> [] | Some (_, t) \<Rightarrow> t) in
           if startswith token ''edr_''
           then (''api_token'', take 16 (hexdigest (sha256 (utf8_encode token))) @ '':api_token'')
           else (case decode_jwt token of
               Jwt_claims decoded \<Rightarrow>
                 (let role = lower (py_str (dget_default decoded ''role'' (PStr [])));
                      sub = py_str (dget_default decoded ''sub'' (PStr []))
                  in if map_of limits role = None then anon else (role, ''u:'' @ sub @ '':'' @ role))
             | _ \<Rightarrow> anon)))"

section \<open>Bucket stores\<close>

text \<open>The protocol both stores implement: \<open>admit\<close> returns whether the request is allowed, how many are
  left, and when the window resets.\<close>

record 's BucketStore =
  store_admit :: "'s \<Rightarrow> string \<Rightarrow> rat \<Rightarrow> int \<Rightarrow> (bool \<times> int \<times> rat) \<times> 's"
  store_gc :: "'s \<Rightarrow> rat \<Rightarrow> 's"

subsection \<open>In memory\<close>

definition window_admit :: "rat list \<Rightarrow> rat \<Rightarrow> int \<Rightarrow> (bool \<times> int \<times> rat) \<times> rat list" where
  "window_admit hits now limit =
     (let cutoff = now - of_int WINDOW_S;
          hits = dropWhile (\<lambda>t. t < cutoff) hits
      in if int (length hits) \<ge> limit
         then ((False, 0, (if hits \<noteq> [] then hd hits + of_int WINDOW_S else now + of_int WINDOW_S)), hits)
         else ((True, limit - int (length (hits @ [now])), cutoff + of_int WINDOW_S), hits @ [now]))"

record InMemoryStore =
  buckets :: "(string \<times> rat list) list"
  gc_interval :: rat
  last_gc :: rat

definition memory_init :: "rat \<Rightarrow> rat \<Rightarrow> InMemoryStore" where
  "memory_init interval monotonic = \<lparr>buckets = [], gc_interval = interval, last_gc = monotonic\<rparr>"

definition memory_admit :: "InMemoryStore \<Rightarrow> string \<Rightarrow> rat \<Rightarrow> int \<Rightarrow> (bool \<times> int \<times> rat) \<times> InMemoryStore" where
  "memory_admit s key now limit =
     (let hits = (case map_of (buckets s) key of None \<Rightarrow> [] | Some h \<Rightarrow> h);
          (r, hits') = window_admit hits now limit
      in (r, s\<lparr>buckets := AList.update key hits' (buckets s)\<rparr>))"

definition memory_gc :: "InMemoryStore \<Rightarrow> rat \<Rightarrow> InMemoryStore" where
  "memory_gc s now =
     (if now - last_gc s \<le> gc_interval s then s
      else s\<lparr>buckets := filter (\<lambda>(k, h). \<not> (h = [] \<or> last h < now - of_int WINDOW_S)) (buckets s), last_gc := now\<rparr>)"

definition memory_store :: "InMemoryStore BucketStore" where
  "memory_store = \<lparr>store_admit = memory_admit, store_gc = memory_gc\<rparr>"

subsection \<open>Redis\<close>

text \<open>\<open>int(x)\<close> truncates towards zero.\<close>

definition int_of_float :: "rat \<Rightarrow> int" where
  "int_of_float q = (if q < 0 then - \<lfloor>- q\<rfloor> else \<lfloor>q\<rfloor>)"

type_synonym 'r redis_incr = "'r \<Rightarrow> rat \<Rightarrow> string \<Rightarrow> int \<times> 'r"
type_synonym 'r redis_expire = "'r \<Rightarrow> rat \<Rightarrow> string \<Rightarrow> int \<Rightarrow> 'r"

definition RATE_LIMIT_LUA :: "'r redis_incr \<Rightarrow> 'r redis_expire \<Rightarrow> 'r \<Rightarrow> rat \<Rightarrow> string \<Rightarrow> int \<Rightarrow> int \<times> 'r" where
  "RATE_LIMIT_LUA incr expire r now key ttl =
     (let (n, r1) = incr r now key in (n, if n = 1 then expire r1 now key ttl else r1))"

definition redis_bucket_key :: "string \<Rightarrow> rat \<Rightarrow> string" where
  "redis_bucket_key key now = ''vigil:rl:'' @ key @ '':'' @ show_int (int_of_float now div WINDOW_S)"

definition redis_admit ::
  "'r redis_incr \<Rightarrow> 'r redis_expire \<Rightarrow> 'r \<Rightarrow> string \<Rightarrow> rat \<Rightarrow> int \<Rightarrow> (bool \<times> int \<times> rat) \<times> 'r" where
  "redis_admit incr expire r key now limit =
     (let (count, r') = RATE_LIMIT_LUA incr expire r now (redis_bucket_key key now) WINDOW_S;
          reset = (int_of_float now div WINDOW_S + 1) * WINDOW_S
      in if count > limit then ((False, 0, of_int reset), r')
         else ((True, max 0 (limit - count), of_int reset), r'))"

definition redis_store :: "'r redis_incr \<Rightarrow> 'r redis_expire \<Rightarrow> 'r BucketStore" where
  "redis_store incr expire = \<lparr>store_admit = redis_admit incr expire, store_gc = (\<lambda>r now. r)\<rparr>"

section \<open>The middleware\<close>

datatype outcome = Exempt | Allowed "(string \<times> string) list" | Limited "(string \<times> string) list"

definition retry_after :: "rat \<Rightarrow> rat \<Rightarrow> int" where
  "retry_after reset now = max 1 (int_of_float (reset - now))"

definition dispatch ::
  "(bytes \<Rightarrow> bytes) \<Rightarrow> (string \<Rightarrow> jwt_outcome) \<Rightarrow> (string \<times> int) list \<Rightarrow> 's BucketStore \<Rightarrow> 's \<Rightarrow> rat \<Rightarrow> request
     \<Rightarrow> outcome \<times> 's" where
  "dispatch sha256 decode_jwt limits store s now req =
     (if req_path req \<in> set EXEMPT_PATHS then (Exempt, s)
      else (let (role, key) = classify sha256 decode_jwt limits req;
                limit = (case map_of limits role of Some l \<Rightarrow> l | None \<Rightarrow> the (map_of limits ''anon''));
                s1 = store_gc store s now;
                ((allowed, remaining, reset), s2) = store_admit store s1 key now limit
            in if \<not> allowed
               then (Limited [(''Retry-After'', show_int (retry_after reset now)),
                              (''X-RateLimit-Limit'', show_int limit), (''X-RateLimit-Remaining'', ''0''),
                              (''X-RateLimit-Reset'', show_int (int_of_float reset))], s2)
               else (Allowed [(''X-RateLimit-Limit'', show_int limit), (''X-RateLimit-Remaining'', show_int remaining),
                              (''X-RateLimit-Reset'', show_int (int_of_float reset))], s2)))"

end
