(* ===== verification/Rate_Limit_Correct.thy ===== *)
theory Rate_Limit_Correct
  imports Rate_Limit
begin

text \<open>
  Correctness of the rate limiter. A reference limiter that remembers every admission is the
  specification; the locale \<open>bucket_store\<close> is the contract between the middleware and a store, the
  in-memory store is an interpretation of it and the Redis store a sublocale instance of it under
  the documented behaviour of the two Redis commands it uses.
\<close>

section \<open>The reference limiter\<close>

definition exempt :: "request \<Rightarrow> bool" where
  "exempt req \<longleftrightarrow> req_path req \<in> set EXEMPT_PATHS"

definition passed :: "outcome \<Rightarrow> bool" where
  "passed out = (case out of Limited _ \<Rightarrow> False | _ \<Rightarrow> True)"

type_synonym admissions = "(string \<times> rat) list"

definition used :: "(rat \<Rightarrow> rat \<Rightarrow> bool) \<Rightarrow> admissions \<Rightarrow> string \<Rightarrow> rat \<Rightarrow> nat" where
  "used window hist key now = length (filter (\<lambda>(k, t). k = key \<and> window t now) hist)"

text \<open>A request is admitted iff fewer than the limit of its key have been admitted in its window.\<close>

fun reference ::
  "(rat \<Rightarrow> rat \<Rightarrow> bool) \<Rightarrow> (string \<Rightarrow> int) \<Rightarrow> (request \<Rightarrow> string) \<Rightarrow> admissions \<Rightarrow> (rat \<times> request) list \<Rightarrow> bool list" where
  "reference window cap key hist [] = []"
| "reference window cap key hist ((now, req) # rs) =
     (if exempt req then True # reference window cap key hist rs
      else (let ok = int (used window hist (key req) now) < cap (key req)
            in ok # reference window cap key (if ok then hist @ [(key req, now)] else hist) rs))"

fun serve ::
  "(bytes \<Rightarrow> bytes) \<Rightarrow> (string \<Rightarrow> jwt_outcome) \<Rightarrow> (string \<times> int) list \<Rightarrow> 's BucketStore \<Rightarrow> 's
     \<Rightarrow> (rat \<times> request) list \<Rightarrow> bool list" where
  "serve sha256 decode_jwt limits store s [] = []"
| "serve sha256 decode_jwt limits store s ((now, req) # rs) =
     (case dispatch sha256 decode_jwt limits store s now req of
        (out, s') \<Rightarrow> passed out # serve sha256 decode_jwt limits store s' rs)"

definition in_window :: "rat \<Rightarrow> rat \<Rightarrow> bool" where
  "in_window t now \<longleftrightarrow> now - of_int WINDOW_S \<le> t"

definition in_minute :: "rat \<Rightarrow> rat \<Rightarrow> bool" where
  "in_minute t now \<longleftrightarrow> \<lfloor>t\<rfloor> div WINDOW_S = \<lfloor>now\<rfloor> div WINDOW_S"

definition clocked :: "rat \<Rightarrow> (rat \<times> request) list \<Rightarrow> bool" where
  "clocked t rs \<longleftrightarrow> sorted (map fst rs) \<and> (\<forall>(now, _) \<in> set rs. t \<le> now)"

lemma clocked_Cons [simp]: "clocked t ((now, req) # rs) \<longleftrightarrow> t \<le> now \<and> clocked now rs"
  by (auto simp: clocked_def)

lemma clocked_Nil [simp]: "clocked t []"
  by (simp add: clocked_def)

subsection \<open>The bound it enforces\<close>

definition hits_in :: "(rat \<Rightarrow> bool) \<Rightarrow> string \<Rightarrow> admissions \<Rightarrow> nat" where
  "hits_in W key hist = length (filter (\<lambda>(k, t). k = key \<and> W t) hist)"

definition passed_in :: "(rat \<Rightarrow> bool) \<Rightarrow> (request \<Rightarrow> string) \<Rightarrow> string \<Rightarrow> (rat \<times> request) list \<Rightarrow> bool list \<Rightarrow> nat" where
  "passed_in W key k rs oks =
     length (filter (\<lambda>((now, req), ok). ok \<and> \<not> exempt req \<and> key req = k \<and> W now) (zip rs oks))"

lemma hits_in_used:
  assumes "\<And>x. W x \<Longrightarrow> x \<le> now \<Longrightarrow> window x now" "\<forall>(k, t) \<in> set hist. t \<le> now"
  shows "hits_in W key hist \<le> used window hist key now"
proof -
  have "filter (\<lambda>(k, t). k = key \<and> W t) hist = filter (\<lambda>(k, t). k = key \<and> W t) (filter (\<lambda>(k, t). k = key \<and> window t now) hist)"
    using assms by (induction hist) auto
  then show ?thesis unfolding hits_in_def used_def by (metis length_filter_le)
qed

lemma reference_bound:
  assumes "\<And>x y. W x \<Longrightarrow> W y \<Longrightarrow> x \<le> y \<Longrightarrow> window x y"
    and "clocked t rs" "\<forall>(k, u) \<in> set hist. u \<le> t"
  shows "int (hits_in W k hist + passed_in W key k rs (reference window cap key hist rs))
           \<le> max (int (hits_in W k hist)) (max 0 (cap k))"
  using assms(2,3)
proof (induction rs arbitrary: hist t)
  case (Cons r rs)
  obtain now req where r: "r = (now, req)" by (cases r)
  let ?ok = "int (used window hist (key req) now) < cap (key req)"
  show ?case
  proof (cases "\<not> exempt req \<and> ?ok")
    case True
    let ?hist = "hist @ [(key req, now)]"
    have old: "\<forall>(k, u) \<in> set hist. u \<le> now" using Cons.prems r by fastforce
    have IH: "int (hits_in W k ?hist + passed_in W key k rs (reference window cap key ?hist rs))
        \<le> max (int (hits_in W k ?hist)) (max 0 (cap k))"
      using Cons.IH [of now ?hist] Cons.prems(1) old r by auto
    show ?thesis
    proof (cases "key req = k \<and> W now")
      case in_W: True
      then have "hits_in W k hist \<le> used window hist k now" by (intro hits_in_used old) (use assms(1) in blast)
      with True in_W have "int (hits_in W k ?hist) \<le> cap k" by (simp add: hits_in_def)
      with IH True in_W r show ?thesis by (simp add: passed_in_def hits_in_def)
    qed (use IH True r in \<open>auto simp: passed_in_def hits_in_def\<close>)
  next
    case False
    have "\<forall>(k, u) \<in> set hist. u \<le> now" using Cons.prems r by fastforce
    with Cons.IH [of now hist] Cons.prems(1) r False show ?thesis by (auto simp: passed_in_def Let_def)
  qed
qed (simp add: passed_in_def)

section \<open>The store contract\<close>

locale bucket_store =
  fixes store :: "'s BucketStore"
    and window :: "rat \<Rightarrow> rat \<Rightarrow> bool"
    and rep :: "(string \<Rightarrow> int) \<Rightarrow> admissions \<Rightarrow> rat \<Rightarrow> 's \<Rightarrow> bool"
  assumes admit_decides:
      "rep cap hist t s \<Longrightarrow> t \<le> now \<Longrightarrow> store_admit store s key now (cap key) = ((ok, left, reset), s') \<Longrightarrow>
         ok \<longleftrightarrow> int (used window hist key now) < cap key"
    and admit_keeps:
      "rep cap hist t s \<Longrightarrow> t \<le> now \<Longrightarrow> store_admit store s key now (cap key) = ((ok, left, reset), s') \<Longrightarrow>
         rep cap (if ok then hist @ [(key, now)] else hist) now s'"
    and gc_keeps: "rep cap hist t s \<Longrightarrow> t \<le> now \<Longrightarrow> rep cap hist now (store_gc store s now)"
    and time_passes: "rep cap hist t s \<Longrightarrow> t \<le> now \<Longrightarrow> rep cap hist now s"
begin

lemma serve_reference:
  assumes "\<And>req. (case map_of limits (fst (classify sha decode limits req)) of Some l \<Rightarrow> l | None \<Rightarrow> the (map_of limits ''anon''))
      = cap (snd (classify sha decode limits req))"
    and "rep cap hist t s" "clocked t rs"
  shows "serve sha decode limits store s rs = reference window cap (\<lambda>req. snd (classify sha decode limits req)) hist rs"
  using assms(2,3)
proof (induction rs arbitrary: hist t s)
  case (Cons r rs)
  obtain now req where r: "r = (now, req)" by (cases r)
  then have t: "t \<le> now" "clocked now rs" using Cons.prems by auto
  show ?case
  proof (cases "exempt req")
    case True
    with Cons.IH [OF time_passes [OF Cons.prems(1) t(1)] t(2)] r show ?thesis
      by (simp add: dispatch_def exempt_def passed_def)
  next
    case False
    obtain role key where cl: "classify sha decode limits req = (role, key)" by fastforce
    have cap: "(case map_of limits role of Some l \<Rightarrow> l | None \<Rightarrow> the (map_of limits ''anon'')) = cap key"
      using assms(1) [of req] cl by simp
    have gc: "rep cap hist now (store_gc store s now)" by (rule gc_keeps [OF Cons.prems(1) t(1)])
    obtain ok left reset s' where ad: "store_admit store (store_gc store s now) key now (cap key) = ((ok, left, reset), s')"
      by (metis prod_cases3 surj_pair)
    have ok: "ok \<longleftrightarrow> int (used window hist key now) < cap key" by (rule admit_decides [OF gc order.refl ad])
    have "rep cap (if ok then hist @ [(key, now)] else hist) now s'" by (rule admit_keeps [OF gc order.refl ad])
    note IH = Cons.IH [OF this t(2)]
    show ?thesis
      using False IH r cl cap ad ok by (cases ok) (simp_all add: dispatch_def exempt_def passed_def Let_def)
  qed
qed simp

end

section \<open>The in-memory store\<close>

definition times_of :: "string \<Rightarrow> admissions \<Rightarrow> rat list" where
  "times_of key hist = map snd (filter (\<lambda>(k, t). k = key) hist)"

definition bucket_of :: "InMemoryStore \<Rightarrow> string \<Rightarrow> rat list" where
  "bucket_of s key = (case map_of (buckets s) key of None \<Rightarrow> [] | Some h \<Rightarrow> h)"

definition live_at :: "rat \<Rightarrow> rat list \<Rightarrow> rat list" where
  "live_at now ts = filter (\<lambda>t. in_window t now) ts"

text \<open>A bucket agrees with the admissions of its key from the window on; what lies before is immaterial.\<close>

definition memory_rep :: "(string \<Rightarrow> int) \<Rightarrow> admissions \<Rightarrow> rat \<Rightarrow> InMemoryStore \<Rightarrow> bool" where
  "memory_rep cap hist t s \<longleftrightarrow> distinct (map fst (buckets s)) \<and>
     (\<forall>key. sorted (bucket_of s key) \<and> (\<forall>x \<in> set (bucket_of s key). x \<le> t) \<and>
        live_at t (bucket_of s key) = live_at t (times_of key hist))"

lemma live_at_mono: "t \<le> now \<Longrightarrow> live_at t xs = live_at t ys \<Longrightarrow> live_at now xs = live_at now ys"
proof -
  assume t: "t \<le> now" and eq: "live_at t xs = live_at t ys"
  have "live_at now zs = live_at now (live_at t zs)" for zs
    unfolding live_at_def filter_filter using t by (intro filter_cong) (auto simp: in_window_def)
  with eq show ?thesis by metis
qed

lemma memory_rep_later: "memory_rep cap hist t s \<Longrightarrow> t \<le> now \<Longrightarrow> memory_rep cap hist now s"
  unfolding memory_rep_def using live_at_mono by (meson order_trans)

lemma dropWhile_live: "sorted xs \<Longrightarrow> dropWhile (\<lambda>t. t < now - of_int WINDOW_S) xs = live_at now xs"
proof (induction xs)
  case (Cons x xs)
  show ?case
  proof (cases "x < now - of_int WINDOW_S")
    case True
    with Cons show ?thesis by (simp add: live_at_def in_window_def)
  next
    case False
    then have "live_at now (x # xs) = x # xs"
      using Cons.prems unfolding live_at_def by (intro filter_True) (auto simp: in_window_def)
    with False show ?thesis by simp
  qed
qed (simp add: live_at_def)

lemma used_times: "used in_window hist key now = length (live_at now (times_of key hist))"
  by (induction hist) (auto simp: used_def live_at_def times_of_def)

lemma bucket_of_update: "bucket_of (s\<lparr>buckets := AList.update key h (buckets s)\<rparr>) k = (if k = key then h else bucket_of s k)"
  by (simp add: bucket_of_def update_conv')

lemma memory_admit_step:
  assumes rep: "memory_rep cap hist t s" and t: "t \<le> now"
    and ad: "memory_admit s key now (cap key) = ((ok, left, reset), s')"
  shows "ok \<longleftrightarrow> int (used in_window hist key now) < cap key"
    and "memory_rep cap (if ok then hist @ [(key, now)] else hist) now s'"
proof -
  have rep': "memory_rep cap hist now s" by (rule memory_rep_later [OF rep t])
  have dw: "dropWhile (\<lambda>t. t < now - of_int WINDOW_S) (bucket_of s key) = live_at now (times_of key hist)"
    using rep' dropWhile_live by (simp add: memory_rep_def)
  then have dw': "dropWhile (\<lambda>t. t < now - of_int WINDOW_S) (case map_of (buckets s) key of None \<Rightarrow> [] | Some h \<Rightarrow> h)
      = live_at now (times_of key hist)"
    by (simp add: bucket_of_def)
  show ok: "ok \<longleftrightarrow> int (used in_window hist key now) < cap key"
    using ad dw' by (auto simp: memory_admit_def window_admit_def Let_def used_times split: if_splits)
  let ?h = "live_at now (times_of key hist) @ (if ok then [now] else [])"
  have s': "s' = s\<lparr>buckets := AList.update key ?h (buckets s)\<rparr>"
    using ad dw' by (auto simp: memory_admit_def window_admit_def Let_def split: if_splits)
  have "sorted (live_at now (times_of key hist))" "\<forall>x \<in> set (live_at now (times_of key hist)). x \<le> now"
    using rep' unfolding dw [symmetric] by (auto simp: memory_rep_def intro: sorted_dropWhile dest: set_dropWhileD)
  then have sb: "sorted ?h \<and> (\<forall>x \<in> set ?h. x \<le> now)" by (auto simp: sorted_append)
  have "in_window now now" by (simp add: in_window_def WINDOW_S_def)
  then have "live_at now ?h = live_at now (times_of key (if ok then hist @ [(key, now)] else hist))"
    by (auto simp: live_at_def times_of_def)
  moreover have "times_of k (if ok then hist @ [(key, now)] else hist) = times_of k hist" if "k \<noteq> key" for k
    using that by (simp add: times_of_def)
  ultimately show "memory_rep cap (if ok then hist @ [(key, now)] else hist) now s'"
    using rep' sb unfolding memory_rep_def s' bucket_of_update by (auto simp: distinct_update)
qed

lemma bucket_of_filter:
  assumes "distinct (map fst (buckets s))"
  shows "bucket_of (s\<lparr>buckets := filter (\<lambda>(k, h). P h) (buckets s), last_gc := g\<rparr>) k
    = (if P (bucket_of s k) then bucket_of s k else [])"
proof -
  have "map_of (filter (\<lambda>(k, h). P h) bs) k = (case map_of bs k of Some h \<Rightarrow> (if P h then Some h else None) | None \<Rightarrow> None)"
    if "distinct (map fst bs)" for bs
    using that by (induction bs) (auto simp: map_of_eq_None_iff split: option.splits) 
  then show ?thesis using assms by (auto simp: bucket_of_def split: option.split)
qed

lemma memory_gc_step:
  assumes rep: "memory_rep cap hist t s" and t: "t \<le> now"
  shows "memory_rep cap hist now (memory_gc s now)"
proof (cases "now - last_gc s \<le> gc_interval s")
  case True
  with memory_rep_later [OF rep t] show ?thesis by (simp add: memory_gc_def)
next
  case False
  let ?P = "\<lambda>h. \<not> (h = [] \<or> last h < now - of_int WINDOW_S)"
  let ?s = "memory_gc s now"
  have rep': "memory_rep cap hist now s" by (rule memory_rep_later [OF rep t])
  have d: "distinct (map fst (buckets s))" using rep by (simp add: memory_rep_def)
  have s: "?s = s\<lparr>buckets := filter (\<lambda>(k, h). ?P h) (buckets s), last_gc := now\<rparr>" using False by (simp add: memory_gc_def)
  have b: "bucket_of ?s k = (if ?P (bucket_of s k) then bucket_of s k else [])" for k
    unfolding s by (rule bucket_of_filter [OF d])
  have "live_at now h = []" if "sorted h" "\<not> ?P h" for h
  proof (cases "h = []")
    case False
    then have "x \<le> last h" if "x \<in> set h" for x using that \<open>sorted h\<close> by (induction h) auto
    with False that(2) show ?thesis by (force simp: live_at_def in_window_def filter_empty_conv)
  qed (simp add: live_at_def)
  moreover have "sorted (bucket_of s k)" "live_at now [] = []" for k using rep' by (simp_all add: memory_rep_def live_at_def)
  ultimately have dead: "\<not> ?P (bucket_of s k) \<Longrightarrow> live_at now (bucket_of s k) = live_at now []" for k by metis
  have "live_at now (bucket_of ?s k) = live_at now (bucket_of s k)" for k
    unfolding b using dead by presburger
  then have "live_at now (bucket_of ?s k) = live_at now (times_of k hist)" for k
    using rep' by (simp add: memory_rep_def)
  moreover have "distinct (map fst (buckets ?s))" unfolding s by (simp add: distinct_map_filter d)
  ultimately show ?thesis using rep' unfolding memory_rep_def by (auto simp: b)
qed

interpretation memory: bucket_store memory_store in_window memory_rep
proof unfold_locales
  fix cap hist t s now key ok left reset s'
  assume a: "memory_rep cap hist t s" "t \<le> now" "store_admit memory_store s key now (cap key) = ((ok, left, reset), s')"
  then have ad: "memory_admit s key now (cap key) = ((ok, left, reset), s')" by (simp add: memory_store_def)
  show "ok \<longleftrightarrow> int (used in_window hist key now) < cap key" by (rule memory_admit_step(1) [OF a(1,2) ad])
  show "memory_rep cap (if ok then hist @ [(key, now)] else hist) now s'" by (rule memory_admit_step(2) [OF a(1,2) ad])
qed (simp_all add: memory_store_def memory_gc_step memory_rep_later)

lemma memory_init_rep: "memory_rep cap [] t (memory_init interval monotonic)"
  by (simp add: memory_rep_def memory_init_def bucket_of_def times_of_def live_at_def)


section \<open>The Redis store\<close>

definition minute :: "rat \<Rightarrow> int" where
  "minute t = \<lfloor>t\<rfloor> div WINDOW_S"

lemma minute_mono: "s \<le> t \<Longrightarrow> minute s \<le> minute t"
  by (simp add: minute_def floor_mono zdiv_mono1 WINDOW_S_def)

lemma minute_bounds: "of_int (minute t * WINDOW_S) \<le> t" "t < of_int ((minute t + 1) * WINDOW_S)"
proof -
  have "\<lfloor>t\<rfloor> div 60 * 60 \<le> \<lfloor>t\<rfloor>" "\<lfloor>t\<rfloor> < (\<lfloor>t\<rfloor> div 60 + 1) * 60" by auto
  then show "of_int (minute t * WINDOW_S) \<le> t" "t < of_int ((minute t + 1) * WINDOW_S)"
    unfolding minute_def WINDOW_S_def by (meson le_floor_iff, meson floor_less_iff)
qed

definition redis_key :: "string \<Rightarrow> int \<Rightarrow> string" where
  "redis_key key m = ''vigil:rl:'' @ key @ '':'' @ show_int m"

lemma redis_bucket_key_minute: "0 \<le> now \<Longrightarrow> redis_bucket_key key now = redis_key key (minute now)"
  by (simp add: redis_bucket_key_def redis_key_def int_of_float_def minute_def)

lemma show_int_no_colon: "CHR '':'' \<notin> set (show_int i)"
proof -
  have "CHR '':'' \<notin> set (show_nat n)" for n
    using show_nat_digits [of n] by (auto simp: list_all_iff is_digit_def code_def)
  then show ?thesis by (simp add: show_int_def)
qed

lemma after_last_colon: "CHR '':'' \<notin> set x \<Longrightarrow> after_last CHR '':'' (w @ CHR '':'' # x) = x"
proof -
  assume "CHR '':'' \<notin> set x"
  then have "takeWhile (\<lambda>c. c \<noteq> CHR '':'') (rev x @ CHR '':'' # rev w) = rev x"
    by (subst takeWhile_append2) auto
  then show ?thesis by (simp add: after_last_def)
qed

lemma last_colon_inj:
  assumes "CHR '':'' \<notin> set u" "CHR '':'' \<notin> set v" "a @ '':'' @ u = b @ '':'' @ v"
  shows "a = b \<and> u = v"
  using assms after_last_colon by (metis append_Cons append_Nil append_same_eq)

lemma redis_key_inj: "redis_key k m = redis_key k' m' \<longleftrightarrow> k = k' \<and> m = m'"
  unfolding redis_key_def using last_colon_inj show_int_no_colon show_int_inj by (metis append.assoc same_append_eq)

text \<open>
  \<open>entry\<close> reads the value and the expiry time of a key, whether or not it has expired. An expired key
  counts as absent.
\<close>

definition unexpired :: "rat \<Rightarrow> (int \<times> rat option) option \<Rightarrow> (int \<times> rat option) option" where
  "unexpired now e = (case e of
       Some (c, Some d) \<Rightarrow> (if now < d then e else None)
     | _ \<Rightarrow> e)"

locale redis_commands =
  fixes incr :: "'r redis_incr" and expire :: "'r redis_expire" and entry :: "'r \<Rightarrow> string \<Rightarrow> (int \<times> rat option) option"
  assumes incr_value: "fst (incr r now k) = (case unexpired now (entry r k) of Some (c, d) \<Rightarrow> c + 1 | None \<Rightarrow> 1)"
    and incr_entry: "entry (snd (incr r now k)) k' =
        (if k' = k then (case unexpired now (entry r k) of Some (c, d) \<Rightarrow> Some (c + 1, d) | None \<Rightarrow> Some (1, None)) else entry r k')"
    and expire_entry: "entry (expire r now k ttl) k' =
        (if k' = k then map_option (\<lambda>(c, _). (c, Some (now + of_int ttl))) (entry r k) else entry r k')"
begin

lemma script_step:
  assumes "unexpired now (entry r k) = None \<or> (\<exists>c d. unexpired now (entry r k) = Some (c, d) \<and> 0 < c)"
  shows "fst (RATE_LIMIT_LUA incr expire r now k ttl) = (case unexpired now (entry r k) of Some (c, d) \<Rightarrow> c + 1 | None \<Rightarrow> 1)"
    and "entry (snd (RATE_LIMIT_LUA incr expire r now k ttl)) k' =
      (if k' = k then (case unexpired now (entry r k) of
           Some (c, d) \<Rightarrow> Some (c + 1, d)
         | None \<Rightarrow> Some (1, Some (now + of_int ttl))) else entry r k')"
  using assms by (auto simp: RATE_LIMIT_LUA_def Let_def case_prod_beta incr_value incr_entry expire_entry split: option.split)

definition redis_rep :: "(string \<Rightarrow> int) \<Rightarrow> admissions \<Rightarrow> rat \<Rightarrow> 'r \<Rightarrow> bool" where
  "redis_rep cap hist t r \<longleftrightarrow> 0 \<le> t \<and> (\<forall>(k, u) \<in> set hist. u \<le> t) \<and>
     (\<forall>k m. minute t \<le> m \<longrightarrow> (case entry r (redis_key k m) of
         None \<Rightarrow> hits_in (\<lambda>u. minute u = m) k hist = 0
       | Some (c, d) \<Rightarrow> 0 < c \<and> int (hits_in (\<lambda>u. minute u = m) k hist) = min c (max 0 (cap k)) \<and>
           (\<exists>e. d = Some e \<and> of_int ((m + 1) * WINDOW_S) \<le> e)))"

lemma redis_rep_later: "redis_rep cap hist t r \<Longrightarrow> t \<le> now \<Longrightarrow> redis_rep cap hist now r"
  unfolding redis_rep_def using minute_mono [of t now] by fastforce

lemma redis_step:
  assumes rep: "redis_rep cap hist t r" and t: "t \<le> now"
    and ad: "redis_admit incr expire r key now (cap key) = ((ok, left, reset), r')"
  shows "ok \<longleftrightarrow> int (used in_minute hist key now) < cap key"
    and "redis_rep cap (if ok then hist @ [(key, now)] else hist) now r'"
proof -
  let ?k = "redis_key key (minute now)"
  let ?hits = "hits_in (\<lambda>u. minute u = minute now) key hist"
  let ?hist = "if ok then hist @ [(key, now)] else hist"
  have rep': "redis_rep cap hist now r" by (rule redis_rep_later [OF rep t])
  then have now: "0 \<le> now" by (simp add: redis_rep_def)
  have used: "used in_minute hist key now = ?hits"
    by (simp add: used_def hits_in_def in_minute_def minute_def)
  have live: "unexpired now (entry r ?k) = entry r ?k \<and> (case entry r ?k of None \<Rightarrow> ?hits = 0
      | Some (c, d) \<Rightarrow> 0 < c \<and> int ?hits = min c (max 0 (cap key)) \<and> (\<exists>e. d = Some e \<and> of_int ((minute now + 1) * WINDOW_S) \<le> e))"
    using rep' minute_bounds(2) [of now] unfolding redis_rep_def unexpired_def
    by (fastforce split: option.splits)
  then have pre: "unexpired now (entry r ?k) = None \<or> (\<exists>c d. unexpired now (entry r ?k) = Some (c, d) \<and> 0 < c)"
    by (auto split: option.splits)
  obtain n where n: "RATE_LIMIT_LUA incr expire r now ?k WINDOW_S = (n, r')" "ok \<longleftrightarrow> n \<le> cap key"
    using ad unfolding redis_admit_def redis_bucket_key_minute [OF now] by (auto simp: Let_def split: prod.splits if_splits)
  have nval: "n = (case entry r ?k of Some (c, d) \<Rightarrow> c + 1 | None \<Rightarrow> 1)"
    using script_step(1) [OF pre, of WINDOW_S] n(1) live by simp
  have ent: "entry r' k' = (if k' = ?k then (case entry r ?k of Some (c, d) \<Rightarrow> Some (c + 1, d)
      | None \<Rightarrow> Some (1, Some (now + of_int WINDOW_S))) else entry r k')" for k'
    using script_step(2) [OF pre, of WINDOW_S k'] n(1) live by simp
  show okval: "ok \<longleftrightarrow> int (used in_minute hist key now) < cap key"
    using n(2) nval live used by (auto split: option.splits)
  have own: "0 < n \<and> int (hits_in (\<lambda>u. minute u = minute now) key ?hist) = min n (max 0 (cap key)) \<and>
      (\<exists>d. entry r' ?k = Some (n, Some d) \<and> of_int ((minute now + 1) * WINDOW_S) \<le> d)"
  proof (cases "entry r ?k")
    case None
    have "of_int ((minute now + 1) * WINDOW_S) \<le> now + of_int WINDOW_S"
      using minute_bounds(1) [of now] by (simp add: algebra_simps)
    with None nval n(2) live ent [of ?k] show ?thesis by (auto simp: hits_in_def)
  next
    case (Some cd)
    then obtain c e where "entry r ?k = Some (c, Some e)" using live by (cases cd) auto
    with nval n(2) live ent [of ?k] show ?thesis by (auto simp: hits_in_def)
  qed
  have other: "hits_in (\<lambda>u. minute u = m) k ?hist = hits_in (\<lambda>u. minute u = m) k hist" if "(k, m) \<noteq> (key, minute now)" for k m
    using that by (auto simp: hits_in_def)
  have "case entry r' (redis_key k m) of
         None \<Rightarrow> hits_in (\<lambda>u. minute u = m) k ?hist = 0
       | Some (c, d) \<Rightarrow> 0 < c \<and> int (hits_in (\<lambda>u. minute u = m) k ?hist) = min c (max 0 (cap k)) \<and>
           (\<exists>e. d = Some e \<and> of_int ((m + 1) * WINDOW_S) \<le> e)" if "minute now \<le> m" for k m
  proof (cases "(k, m) = (key, minute now)")
    case True
    with own show ?thesis by auto
  next
    case False
    then have "entry r' (redis_key k m) = entry r (redis_key k m)" using ent [of "redis_key k m"] by (auto simp: redis_key_inj)
    then show ?thesis using rep' that unfolding redis_rep_def other [OF False] by simp
  qed
  moreover have "\<forall>(k, u) \<in> set ?hist. u \<le> now" using rep' by (auto simp: redis_rep_def)
  ultimately show "redis_rep cap ?hist now r'" using now by (simp add: redis_rep_def)
qed

end

sublocale redis_commands \<subseteq> rstore: bucket_store "redis_store incr expire" in_minute redis_rep
proof unfold_locales
  fix cap hist t s now key ok left reset s'
  assume a: "redis_rep cap hist t s" "t \<le> now" "store_admit (redis_store incr expire) s key now (cap key) = ((ok, left, reset), s')"
  then have ad: "redis_admit incr expire s key now (cap key) = ((ok, left, reset), s')" by (simp add: redis_store_def)
  show "ok \<longleftrightarrow> int (used in_minute hist key now) < cap key" by (rule redis_step(1) [OF a(1,2) ad])
  show "redis_rep cap (if ok then hist @ [(key, now)] else hist) now s'" by (rule redis_step(2) [OF a(1,2) ad])
qed (simp_all add: redis_store_def redis_rep_later)


section \<open>The limit of a key\<close>

definition key_of :: "(bytes \<Rightarrow> bytes) \<Rightarrow> (string \<Rightarrow> jwt_outcome) \<Rightarrow> (string \<times> int) list \<Rightarrow> request \<Rightarrow> string" where
  "key_of sha256 decode_jwt limits req = snd (classify sha256 decode_jwt limits req)"

text \<open>The role is the last component of the key.\<close>

definition key_cap :: "(string \<times> int) list \<Rightarrow> string \<Rightarrow> int" where
  "key_cap limits key = (case map_of limits (after_last CHR '':'' key) of Some l \<Rightarrow> l | None \<Rightarrow> the (map_of limits ''anon''))"

lemma LIMITS_roles: "map_of (LIMITS settings env) role \<noteq> None \<Longrightarrow> CHR '':'' \<notin> set role"
  by (auto simp: LIMITS_def split: if_splits)

lemma classify_role:
  "fst (classify sha decode (LIMITS settings env) req) = after_last CHR '':'' (key_of sha decode (LIMITS settings env) req)"
proof -
  have "after_last CHR '':'' (CHR ''u'' # CHR '':'' # sub @ CHR '':'' # role) = role"
    if "map_of (LIMITS settings env) role = Some l" for sub role l
    using after_last_colon [of role "''u:'' @ sub"] LIMITS_roles [of settings env role] that by simp
  then show ?thesis
    using after_last_colon by (auto simp: key_of_def classify_def Let_def split: jwt_outcome.split)
qed

lemma classify_cap:
  "(case map_of (LIMITS settings env) (fst (classify sha decode (LIMITS settings env) req)) of
      Some l \<Rightarrow> l | None \<Rightarrow> the (map_of (LIMITS settings env) ''anon''))
   = key_cap (LIMITS settings env) (snd (classify sha decode (LIMITS settings env) req))"
  by (simp add: key_cap_def classify_role key_of_def)

lemma memory_serve:
  assumes "clocked t rs"
  shows "serve sha decode (LIMITS settings env) memory_store (memory_init interval monotonic) rs =
    reference in_window (key_cap (LIMITS settings env)) (key_of sha decode (LIMITS settings env)) [] rs"
  unfolding key_of_def by (rule memory.serve_reference [OF classify_cap memory_init_rep assms])

context redis_commands
begin

lemma redis_serves:
  assumes "\<forall>k. entry r k = None" "0 \<le> t" "clocked t rs"
  shows "serve sha decode (LIMITS settings env) (redis_store incr expire) r rs =
    reference in_minute (key_cap (LIMITS settings env)) (key_of sha decode (LIMITS settings env)) [] rs"
proof -
  have "redis_rep cap [] t r" for cap using assms(1,2) by (simp add: redis_rep_def hits_in_def)
  then show ?thesis unfolding key_of_def by (rule rstore.serve_reference [OF classify_cap _ assms(3)])
qed

end

lemma passed_in_split:
  assumes "\<And>x. W x \<Longrightarrow> W1 x \<or> W2 x"
  shows "passed_in W key k rs oks \<le> passed_in W1 key k rs oks + passed_in W2 key k rs oks"
proof -
  have "length (filter P xs) \<le> length (filter P1 xs) + length (filter P2 xs)" if "\<And>x. P x \<Longrightarrow> P1 x \<or> P2 x" for P P1 P2 and xs :: "'b list"
    using that by (induction xs) auto
  then show ?thesis unfolding passed_in_def using assms by (metis (no_types, lifting) case_prod_beta)
qed


definition span_60 :: "rat \<Rightarrow> rat \<Rightarrow> bool" where
  "span_60 a u \<longleftrightarrow> a \<le> u \<and> u \<le> a + of_int WINDOW_S"

section \<open>Redis commands on an association list\<close>

type_synonym assoc_redis = "(string \<times> (int \<times> rat option)) list"

definition assoc_incr :: "assoc_redis redis_incr" where
  "assoc_incr r now k = (case unexpired now (map_of r k) of
       Some (c, d) \<Rightarrow> (c + 1, AList.update k (c + 1, d) r)
     | None \<Rightarrow> (1, AList.update k (1, None) r))"

definition assoc_expire :: "assoc_redis redis_expire" where
  "assoc_expire r now k ttl = (case map_of r k of
       Some (c, d) \<Rightarrow> AList.update k (c, Some (now + of_int ttl)) r
     | None \<Rightarrow> r)"

interpretation assoc: redis_commands assoc_incr assoc_expire map_of
  by unfold_locales (auto simp: assoc_incr_def assoc_expire_def update_conv' split: option.split)

section \<open>Properties\<close>

definition demo_anon :: "rat \<Rightarrow> rat \<times> request" where
  "demo_anon t = (t, \<lparr>req_path = ''/api/x'', req_authorization = None, req_client_host = Some ''h''\<rparr>)"

definition demo_limits :: "(string \<times> int) list" where
  "demo_limits = LIMITS (\<lambda>_. PInt 2) (\<lambda>_. None)"

definition demo_sha :: "bytes \<Rightarrow> bytes" where
  "demo_sha b = b"

definition demo_jwt :: "string \<Rightarrow> jwt_outcome" where
  "demo_jwt token = Jwt_invalid"

text \<open>
  C11: the middleware over the in-memory store, garbage collection included, answers every sequence of
  requests exactly as the reference limiter that remembers every admission: a request passes iff fewer
  than the limit of its identity were admitted in the sixty seconds up to it.
\<close>

theorem memory_refines_reference:
  assumes "clocked t rs"
  shows "serve sha decode (LIMITS settings env) memory_store (memory_init interval monotonic) rs =
    reference in_window (key_cap (LIMITS settings env)) (key_of sha decode (LIMITS settings env)) [] rs"
  by (rule memory_serve [OF assms])

theorem memory_refines_reference_witness:
  "serve demo_sha demo_jwt demo_limits memory_store (memory_init 600 0) [demo_anon 5, demo_anon 6, demo_anon 65, demo_anon 66] =
     [True, True, False, True]"
proof -
  let ?rs = "[demo_anon 5, demo_anon 6, demo_anon 65, demo_anon 66]"
  have "clocked 0 ?rs" by (simp add: demo_anon_def)
  from memory_refines_reference [OF this, of demo_sha demo_jwt "\<lambda>_. PInt 2" "\<lambda>_. None" 600 0]
  have "serve demo_sha demo_jwt demo_limits memory_store (memory_init 600 0) ?rs =
      reference in_window (key_cap demo_limits) (key_of demo_sha demo_jwt demo_limits) [] ?rs"
    by (simp only: demo_limits_def)
  also have "\<dots> = [True, True, False, True]" by code_simp
  finally show ?thesis .
qed

text \<open>
  C12: over any closed span of sixty seconds the in-memory store admits at most the limit of an identity,
  and the Redis store, whose windows are wall-clock minutes, at most twice the limit.
\<close>

theorem admissions_bounded:
  assumes "redis_commands incr expire entry" "\<forall>k. entry r k = None" "0 \<le> t" "clocked t rs"
  shows "int (passed_in (span_60 a) (key_of sha decode (LIMITS settings env)) k rs
        (serve sha decode (LIMITS settings env) memory_store (memory_init interval monotonic) rs))
      \<le> max 0 (key_cap (LIMITS settings env) k) \<and>
    int (passed_in (span_60 a) (key_of sha decode (LIMITS settings env)) k rs
        (serve sha decode (LIMITS settings env) (redis_store incr expire) r rs))
      \<le> 2 * max 0 (key_cap (LIMITS settings env) k)"
proof -
  let ?limits = "LIMITS settings env"
  let ?key = "key_of sha decode ?limits" and ?cap = "key_cap ?limits"
  let ?min = "\<lambda>m u. minute u = m"
  have b: "int (passed_in W ?key k rs (reference window ?cap ?key [] rs)) \<le> max 0 (?cap k)"
    if "\<And>x y. W x \<Longrightarrow> W y \<Longrightarrow> x \<le> y \<Longrightarrow> window x y" for W window
    using reference_bound [of W window t rs "[]" k ?key ?cap] that assms(4) by (simp add: hits_in_def)
  have mem: "int (passed_in (span_60 a) ?key k rs (reference in_window ?cap ?key [] rs)) \<le> max 0 (?cap k)"
    by (rule b) (auto simp: in_window_def span_60_def)
  have red: "int (passed_in (?min m) ?key k rs (reference in_minute ?cap ?key [] rs)) \<le> max 0 (?cap k)" for m
    by (rule b) (auto simp: in_minute_def minute_def)
  have "minute u = minute a \<or> minute u = minute a + 1" if "span_60 a u" for u
  proof -
    have "minute (a + of_int WINDOW_S) = minute a + 1" by (simp add: minute_def WINDOW_S_def)
    with minute_mono [of a u] minute_mono [of u "a + of_int WINDOW_S"] that show ?thesis by (auto simp: span_60_def)
  qed
  from passed_in_split [of "span_60 a" "?min (minute a)" "?min (minute a + 1)" ?key k rs "reference in_minute ?cap ?key [] rs", OF this]
  have "int (passed_in (span_60 a) ?key k rs (reference in_minute ?cap ?key [] rs)) \<le> 2 * max 0 (?cap k)"
    using red [of "minute a"] red [of "minute a + 1"] by linarith
  with mem show ?thesis
    unfolding memory_serve [OF assms(4)] redis_commands.redis_serves [OF assms] by blast
qed

theorem admissions_bounded_witness:
  "int (passed_in (span_60 59) (key_of demo_sha demo_jwt demo_limits) ''h:anon'' [demo_anon 59, demo_anon 60]
      (serve demo_sha demo_jwt demo_limits (redis_store assoc_incr assoc_expire) [] [demo_anon 59, demo_anon 60])) \<le>
   2 * max 0 (key_cap demo_limits ''h:anon'')"
  using admissions_bounded [OF assoc.redis_commands_axioms, where r = "[]" and t = 0 and rs = "[demo_anon 59, demo_anon 60]"
      and settings = "\<lambda>_. PInt 2" and env = "\<lambda>_. None" and sha = demo_sha and decode = demo_jwt and a = 59 and k = "''h:anon''"]
  by (simp add: demo_anon_def demo_limits_def Let_def)

text \<open>
  The bound for Redis is reached. With a limit of two per minute, four requests within two tenths
  of a second around a minute boundary all pass the Redis store; the in-memory store passes two.
\<close>

theorem redis_boundary_burst:
  "let rs = [demo_anon (599 / 10), demo_anon (599 / 10), demo_anon 60, demo_anon (601 / 10)]
   in serve demo_sha demo_jwt demo_limits (redis_store assoc_incr assoc_expire) [] rs = [True, True, True, True] \<and>
      serve demo_sha demo_jwt demo_limits memory_store (memory_init 600 0) rs = [True, True, False, False]"
  by code_simp

text \<open>
  A client that waits exactly the advertised \<open>Retry-After\<close> is refused again: the seconds are
  rounded down and a hit leaves the window only strictly after its sixtieth second.
\<close>

theorem retry_after_too_early:
  assumes "memory_admit s key now limit = ((False, left, reset), s')" "0 < limit" "1 \<le> reset - now"
  shows "\<exists>left' reset' s''. memory_admit s' key (now + of_int (retry_after reset now)) limit = ((False, left', reset'), s'')"
proof -
  define h where "h = dropWhile (\<lambda>t. t < now - of_int WINDOW_S) (bucket_of s key)"
  have s': "s' = s\<lparr>buckets := AList.update key h (buckets s)\<rparr>" "limit \<le> int (length h)" "h \<noteq> []" "reset = hd h + of_int WINDOW_S"
    using assms(1,2) unfolding memory_admit_def bucket_of_def [symmetric] window_admit_def Let_def h_def [symmetric]
    by (auto split: if_splits)
  have "of_int (retry_after reset now) \<le> reset - now"
    using assms(3) by (auto simp: retry_after_def int_of_float_def max_def)
  then have "\<not> hd h < now + of_int (retry_after reset now) - of_int WINDOW_S" using s'(4) by linarith
  with s'(3) have "dropWhile (\<lambda>t. t < now + of_int (retry_after reset now) - of_int WINDOW_S) h = h"
    by (cases h) auto
  then show ?thesis using s'(1,2) by (simp add: memory_admit_def window_admit_def Let_def update_conv')
qed

theorem retry_after_too_early_witness:
  "\<exists>left' reset' s''. memory_admit \<lparr>buckets = [(''k'', [0])], gc_interval = 600, last_gc = 0\<rparr> ''k'' (119 / 2) 1 = ((False, left', reset'), s'')"
proof -
  have "memory_admit \<lparr>buckets = [(''k'', [0])], gc_interval = 600, last_gc = 0\<rparr> ''k'' (1 / 2) 1 =
      ((False, 0, 60), \<lparr>buckets = [(''k'', [0])], gc_interval = 600, last_gc = 0\<rparr>)"
    by code_simp
  note again = retry_after_too_early [OF this]
  have "1 / 2 + of_int (retry_after 60 (1 / 2)) = (119 / 2 :: rat)" by code_simp
  with again show ?thesis by simp
qed

end
