(* ===== verification/Routing.thy ===== *)
theory Routing
  imports Alerts
begin

text \<open>
  Alert routing: notification channels and routing rules (backend/app/models/notification_channel.py
  and routing_rule.py), matching and delivery (services/routing.py) and the polling worker
  (workers/alert_router.py). The HTTP client, SMTP and the decryption of a channel's configuration
  are outside the repository and are parameters; the outcome of an attempt may depend on its number.
\<close>

section \<open>Channels and rules\<close>

datatype NotificationChannelKind = SLACK | PAGERDUTY | EMAIL

fun channel_kind_value :: "NotificationChannelKind \<Rightarrow> string" where
  "channel_kind_value SLACK = ''slack''"
| "channel_kind_value PAGERDUTY = ''pagerduty''"
| "channel_kind_value EMAIL = ''email''"

record NotificationChannel =
  ch_id :: uuid
  ch_tenant_id :: uuid
  ch_name :: string
  ch_kind :: NotificationChannelKind
  ch_encrypted_config :: bytes
  ch_enabled :: bool

datatype RuleKind = KIND_YARA | KIND_SIGMA | KIND_IOC

fun rule_kind_value :: "RuleKind \<Rightarrow> string" where
  "rule_kind_value KIND_YARA = ''yara''"
| "rule_kind_value KIND_SIGMA = ''sigma''"
| "rule_kind_value KIND_IOC = ''ioc''"

record RoutingRule =
  r_id :: uuid
  r_tenant_id :: uuid
  r_name :: string
  r_min_severity :: Severity
  r_rule_kind :: "RuleKind option"
  r_host_group_id :: "uuid option"
  r_channel_ids :: "uuid list"
  r_enabled :: bool

section \<open>Configuration\<close>

definition SECRET_FIELDS :: "NotificationChannelKind \<Rightarrow> string list" where
  "SECRET_FIELDS kind = (case kind of
       SLACK \<Rightarrow> [''webhook_url'']
     | PAGERDUTY \<Rightarrow> [''integration_key'']
     | EMAIL \<Rightarrow> [''smtp_password'', ''smtp_host'', ''to_addr''])"

definition secret_fingerprint :: "(bytes \<Rightarrow> bytes) \<Rightarrow> NotificationChannelKind \<Rightarrow> pydict \<Rightarrow> string" where
  "secret_fingerprint sha256 kind config =
     take 8 (hexdigest (sha256 (concat (map (\<lambda>f. utf8_encode (py_repr (dget config f)) @ [CHR 0x00]) (SECRET_FIELDS kind)))))"

definition channel_audit_payload :: "(bytes \<Rightarrow> bytes) \<Rightarrow> string \<Rightarrow> NotificationChannelKind \<Rightarrow> pydict \<Rightarrow> bool \<Rightarrow> pydict" where
  "channel_audit_payload sha256 name kind config enabled =
     [(''name'', PStr name), (''kind'', PStr (channel_kind_value kind)), (''enabled'', PBool enabled),
      (''secret_fingerprint'', PStr (secret_fingerprint sha256 kind config)), (''redacted'', PBool True)]"

definition str_such :: "(string \<Rightarrow> bool) \<Rightarrow> pyval \<Rightarrow> bool" where
  "str_such P v = (case v of PStr s \<Rightarrow> P s | _ \<Rightarrow> False)"

definition valid_port :: "pyval \<Rightarrow> bool" where
  "valid_port v = (case v of
       PInt i \<Rightarrow> 0 < i \<and> i < 65536
     | PBool b \<Rightarrow> b
     | _ \<Rightarrow> False)"

definition validate_config :: "NotificationChannelKind \<Rightarrow> pydict \<Rightarrow> unit result" where
  "validate_config kind config = (case kind of
       SLACK \<Rightarrow>
         (if str_such (\<lambda>s. startswith s ''https://'' \<or> startswith s ''http://'') (dget config ''webhook_url'') then Inr ()
          else Inl (ChannelConfigError ''webhook_url''))
     | PAGERDUTY \<Rightarrow>
         (if str_such (\<lambda>s. strip s \<noteq> []) (dget config ''integration_key'') then Inr ()
          else Inl (ChannelConfigError ''integration_key''))
     | EMAIL \<Rightarrow>
         (if \<not> str_such (\<lambda>s. strip s \<noteq> []) (dget config ''smtp_host'') then Inl (ChannelConfigError ''smtp_host'')
          else if \<not> valid_port (dget config ''smtp_port'') then Inl (ChannelConfigError ''smtp_port'')
          else if \<not> str_such (\<lambda>s. CHR 0x40 \<in> set s) (dget config ''from_addr'') then Inl (ChannelConfigError ''from_addr'')
          else if \<not> str_such (\<lambda>s. CHR 0x40 \<in> set s) (dget config ''to_addr'') then Inl (ChannelConfigError ''to_addr'')
          else Inr ()))"

section \<open>Matching\<close>

record AlertEnvelope =
  env_alert_id :: uuid
  env_severity :: Severity
  env_rule_id :: uuid
  env_rule_kind :: "string option"
  env_rule_name :: "string option"
  env_host_id :: "uuid option"
  env_host_hostname :: "string option"
  env_summary :: string
  env_details :: pyval

record routing_db =
  rt_rules :: "RoutingRule list"
  rt_channels :: "NotificationChannel list"
  rt_host_in_group :: "(uuid \<times> uuid) list"
  rt_hosts :: "(uuid \<times> string) list"
  rt_detections :: "(uuid \<times> (RuleKind \<times> string)) list"

definition severity_at_least :: "Severity \<Rightarrow> Severity \<Rightarrow> bool" where
  "severity_at_least actual minimum \<longleftrightarrow> severity_rank actual \<ge> severity_rank minimum"

definition rule_matches :: "(uuid \<times> uuid) list \<Rightarrow> AlertEnvelope \<Rightarrow> RoutingRule \<Rightarrow> bool" where
  "rule_matches host_in_group envelope r \<longleftrightarrow>
     severity_at_least (env_severity envelope) (r_min_severity r) \<and>
     (case r_rule_kind r of None \<Rightarrow> True | Some k \<Rightarrow> env_rule_kind envelope = Some (rule_kind_value k)) \<and>
     (case r_host_group_id r of
        None \<Rightarrow> True
      | Some g \<Rightarrow> (case env_host_id envelope of None \<Rightarrow> False | Some h \<Rightarrow> (h, g) \<in> set host_in_group)) \<and>
     r_channel_ids r \<noteq> []"

definition matching_rules :: "routing_db \<Rightarrow> AlertEnvelope \<Rightarrow> RoutingRule list" where
  "matching_rules db envelope = filter (rule_matches (rt_host_in_group db) envelope) (filter r_enabled (rt_rules db))"

definition envelope_from_alert :: "routing_db \<Rightarrow> Alert \<Rightarrow> AlertEnvelope" where
  "envelope_from_alert db alert =
     (let rule = map_of (rt_detections db) (a_rule_id alert)
      in \<lparr>env_alert_id = a_id alert, env_severity = a_severity alert, env_rule_id = a_rule_id alert,
          env_rule_kind = map_option (\<lambda>(k, n). rule_kind_value k) rule, env_rule_name = map_option snd rule,
          env_host_id = a_host_id alert, env_host_hostname = Option.bind (a_host_id alert) (map_of (rt_hosts db)),
          env_summary = a_summary alert, env_details = a_details alert\<rparr>)"

section \<open>Senders\<close>

text \<open>\<open>x or default\<close> for an optional string.\<close>

definition or_str :: "string option \<Rightarrow> string \<Rightarrow> string" where
  "or_str x dflt = (case x of Some (c # s) \<Rightarrow> c # s | _ \<Rightarrow> dflt)"

definition slack_color :: "Severity \<Rightarrow> string" where
  "slack_color sev = (case sev of
       INFO \<Rightarrow> ''#9aa0a6'' | LOW \<Rightarrow> ''#3b82f6'' | MEDIUM \<Rightarrow> ''#facc15'' | HIGH \<Rightarrow> ''#fb923c'' | CRITICAL \<Rightarrow> ''#ef4444'')"

definition slack_field :: "string \<Rightarrow> string \<Rightarrow> bool \<Rightarrow> pyval" where
  "slack_field title v short = PDict [(''title'', PStr title), (''value'', PStr v), (''short'', PBool short)]"

definition slack_body :: "AlertEnvelope \<Rightarrow> pyval" where
  "slack_body e =
     PDict [(''text'', PStr (''Vigil alert: '' @ env_summary e)),
       (''attachments'', PList [PDict [
          (''color'', PStr (slack_color (env_severity e))), (''title'', PStr (env_summary e)),
          (''fields'', PList [
             slack_field ''Severity'' (severity_value (env_severity e)) True,
             slack_field ''Host'' (or_str (env_host_hostname e) ''system'') True,
             slack_field ''Rule'' (or_str (env_rule_name e) (uuid_str (env_rule_id e))) False,
             slack_field ''Alert ID'' (uuid_str (env_alert_id e)) False])]])]"

definition pagerduty_severity :: "Severity \<Rightarrow> string" where
  "pagerduty_severity sev = (case sev of
       INFO \<Rightarrow> ''info'' | LOW \<Rightarrow> ''info'' | MEDIUM \<Rightarrow> ''warning'' | HIGH \<Rightarrow> ''error'' | CRITICAL \<Rightarrow> ''critical'')"

definition pagerduty_body :: "AlertEnvelope \<Rightarrow> pyval \<Rightarrow> pyval" where
  "pagerduty_body e integration_key =
     PDict [(''routing_key'', integration_key), (''event_action'', PStr ''trigger''),
       (''dedup_key'', PStr (''vigil:'' @ uuid_str (env_alert_id e))),
       (''payload'', PDict [
          (''summary'', PStr (env_summary e)), (''severity'', PStr (pagerduty_severity (env_severity e))),
          (''source'', PStr (or_str (env_host_hostname e) ''vigil-edr'')), (''component'', PStr ''alert-router''),
          (''class'', PStr (or_str (env_rule_kind e) ''alert'')),
          (''custom_details'', PDict [
             (''rule_id'', PStr (uuid_str (env_rule_id e))), (''rule_name'', opt_str (env_rule_name e)),
             (''alert_id'', PStr (uuid_str (env_alert_id e))), (''host_id'', opt_uuid (env_host_id e)),
             (''details'', env_details e)])])]"

datatype http_reply = Reply int string | Network_error string

text \<open>The exceptions an attempt can end with: the module's own, or any other.\<close>

datatype send_error = ChannelDispatchError string | OtherError string

text \<open>How a sender reads the status of the reply; \<open>None\<close> is success.\<close>

definition check_reply :: "string \<Rightarrow> http_reply \<Rightarrow> send_error option" where
  "check_reply service reply = (case reply of
       Network_error msg \<Rightarrow> Some (OtherError msg)
     | Reply status body \<Rightarrow>
         (if 500 \<le> status \<and> status < 600 then Some (ChannelDispatchError (service @ '' 5xx: status='' @ show_int status))
          else if status \<ge> 400
          then Some (ChannelDispatchError (service @ '' permanent failure status='' @ show_int status @ '' body='' @ take 200 body))
          else None))"

text \<open>The outside world of one attempt: the HTTP client, and the e-mail path.\<close>

record world =
  http_post :: "nat \<Rightarrow> pyval \<Rightarrow> pyval \<Rightarrow> http_reply"
  email_send :: "nat \<Rightarrow> pydict \<Rightarrow> AlertEnvelope \<Rightarrow> send_error option"

definition attempt_send :: "world \<Rightarrow> NotificationChannelKind \<Rightarrow> pydict \<Rightarrow> AlertEnvelope \<Rightarrow> nat \<Rightarrow> send_error option" where
  "attempt_send w kind config envelope attempt = (case kind of
       SLACK \<Rightarrow> (case map_of config ''webhook_url'' of
           None \<Rightarrow> Some (OtherError ''KeyError'')
         | Some url \<Rightarrow> check_reply ''slack'' (http_post w attempt url (slack_body envelope)))
     | PAGERDUTY \<Rightarrow> (case map_of config ''integration_key'' of
           None \<Rightarrow> Some (OtherError ''KeyError'')
         | Some key \<Rightarrow> check_reply ''pagerduty''
             (http_post w attempt (PStr ''https://events.pagerduty.com/v2/enqueue'') (pagerduty_body envelope key)))
     | EMAIL \<Rightarrow> email_send w attempt config envelope)"

definition RETRY_ATTEMPTS :: nat where
  "RETRY_ATTEMPTS = 3"

definition RETRY_BACKOFF_BASE_S :: rat where
  "RETRY_BACKOFF_BASE_S = 1 / 2"

definition permanent :: "send_error \<Rightarrow> bool" where
  "permanent e = (case e of ChannelDispatchError msg \<Rightarrow> contains ''permanent failure'' msg | OtherError _ \<Rightarrow> False)"

text \<open>The retry loop from \<open>attempt\<close> on: the result, the number of the last attempt, the waits between.\<close>

function retry_loop :: "(nat \<Rightarrow> send_error option) \<Rightarrow> nat \<Rightarrow> bool \<times> nat \<times> rat list" where
  "retry_loop send attempt =
     (case send attempt of
        None \<Rightarrow> (True, attempt, [])
      | Some e \<Rightarrow>
          (if permanent e \<or> \<not> attempt < RETRY_ATTEMPTS then (False, attempt, [])
           else (case retry_loop send (attempt + 1) of
               (ok, n, waits) \<Rightarrow> (ok, n, RETRY_BACKOFF_BASE_S * 2 ^ (attempt - 1) # waits))))"
  by pat_completeness auto
termination by (relation "measure (\<lambda>(_, attempt). RETRY_ATTEMPTS - attempt)") auto

declare retry_loop.simps [simp del]

definition send_with_retry :: "world \<Rightarrow> NotificationChannel \<Rightarrow> pydict \<Rightarrow> AlertEnvelope \<Rightarrow> bool \<times> nat \<times> rat list" where
  "send_with_retry w channel config envelope = retry_loop (attempt_send w (ch_kind channel) config envelope) 1"

section \<open>Dispatch\<close>

definition selected_channels :: "RoutingRule list \<Rightarrow> uuid list" where
  "selected_channels rules =
     foldl (\<lambda>ids cid. if cid \<in> set ids then ids else ids @ [cid]) [] (concat (map r_channel_ids rules))"

text \<open>One result per channel fired, in the order the table gives the channels.\<close>

definition fire_channels :: "(bytes \<Rightarrow> pydict result) \<Rightarrow> world \<Rightarrow> routing_db \<Rightarrow> AlertEnvelope \<Rightarrow> (uuid \<times> bool) list" where
  "fire_channels decrypt_config w db envelope =
     (let ids = selected_channels (matching_rules db envelope);
          channels = filter (\<lambda>c. ch_id c \<in> set ids \<and> ch_enabled c) (rt_channels db)
      in map (\<lambda>c. (ch_id c, case decrypt_config (ch_encrypted_config c) of
           Inl _ \<Rightarrow> False
         | Inr config \<Rightarrow> fst (send_with_retry w c config envelope))) channels)"

definition dispatch_for_alert :: "(bytes \<Rightarrow> pydict result) \<Rightarrow> world \<Rightarrow> routing_db \<Rightarrow> Alert \<Rightarrow> nat \<times> nat" where
  "dispatch_for_alert decrypt_config w db alert =
     (let envelope = envelope_from_alert db alert;
          results = map snd (fire_channels decrypt_config w db envelope);
          succeeded = length (filter (\<lambda>r. r) results)
      in if matching_rules db envelope = [] then (0, 0) else (succeeded, length results - succeeded))"

section \<open>The polling worker\<close>

text \<open>A row of the alerts table with its \<open>created_at\<close>.\<close>

type_synonym alert_row = "datetime \<times> Alert"

definition new_rows :: "nat \<Rightarrow> datetime \<Rightarrow> alert_row list \<Rightarrow> alert_row list" where
  "new_rows batch cutoff table = take batch (sort_key fst (filter (\<lambda>(c, _). cutoff < c) table))"

text \<open>The rows whose dispatch returned, and whether all did.\<close>

fun dispatch_rows :: "(Alert \<Rightarrow> 'a result) \<Rightarrow> alert_row list \<Rightarrow> alert_row list \<times> bool" where
  "dispatch_rows dispatch_alert [] = ([], True)"
| "dispatch_rows dispatch_alert (row # rows) = (case dispatch_alert (snd row) of
       Inl _ \<Rightarrow> ([], False)
     | Inr _ \<Rightarrow> (case dispatch_rows dispatch_alert rows of (ds, ok) \<Rightarrow> (row # ds, ok)))"

definition router_start :: "int \<Rightarrow> datetime \<Rightarrow> datetime option" where
  "router_start backfill_s now = Some (now - seconds backfill_s)"

definition tick_once ::
  "nat \<Rightarrow> (Alert \<Rightarrow> 'a result) \<Rightarrow> alert_row list \<Rightarrow> datetime option \<Rightarrow> alert_row list \<times> datetime option" where
  "tick_once batch dispatch_alert table last_seen = (case last_seen of
       None \<Rightarrow> ([], None)
     | Some cutoff \<Rightarrow>
         (let rows = new_rows batch cutoff table;
              (ds, ok) = dispatch_rows dispatch_alert rows
          in (ds, if rows \<noteq> [] \<and> ok then Some (fst (last rows)) else last_seen)))"

end
