(* ===== verification/Routing_Correct.thy ===== *)
theory Routing_Correct
  imports Routing Alerts_Correct
begin

text \<open>
  Correctness of alert routing: the retry policy, which channels an alert fires, and what the polling
  worker delivers over a run of insertions and ticks.
\<close>

section \<open>Retries\<close>

lemma char_not_contained: "c \<in> set needle \<Longrightarrow> c \<notin> set hay \<Longrightarrow> \<not> contains needle hay"
  using set_mono_sublist by (auto simp: contains_def)

lemma contains_infix: "contains p (a @ p @ b)"
  by (auto simp: contains_def sublist_def)

lemma show_int_no_f: "CHR ''f'' \<notin> set (show_int i)"
proof -
  have "CHR ''f'' \<notin> set (show_nat n)" for n
    using show_nat_digits [of n] by (auto simp: list_all_iff is_digit_def code_def)
  then show ?thesis by (simp add: show_int_def)
qed

text \<open>Server errors are retried, any other error status is permanent.\<close>

lemma check_reply_permanent:
  assumes "service \<in> {''slack'', ''pagerduty''}"
  shows "check_reply service (Reply status body) = None \<longleftrightarrow> status < 400"
    and "check_reply service (Reply status body) = Some e \<Longrightarrow> permanent e \<longleftrightarrow> \<not> (500 \<le> status \<and> status < 600)"
proof -
  have "\<not> contains ''permanent failure'' (service @ '' 5xx: status='' @ show_int status)"
    using assms show_int_no_f [of status] by (intro char_not_contained [of "CHR ''f''"]) auto
  moreover have "contains ''permanent failure'' ((service @ '' '') @ ''permanent failure'' @ rest)" for rest
    by (rule contains_infix)
  then have "contains ''permanent failure'' (service @ '' permanent failure status='' @ rest)" for rest
    by (metis append.assoc append_Cons append_Nil)
  ultimately show "check_reply service (Reply status body) = Some e \<Longrightarrow> permanent e \<longleftrightarrow> \<not> (500 \<le> status \<and> status < 600)"
    by (auto simp: check_reply_def permanent_def split: if_splits)
qed (auto simp: check_reply_def)

definition retry_spec :: "(nat \<Rightarrow> send_error option) \<Rightarrow> nat \<Rightarrow> bool \<times> nat \<times> rat list \<Rightarrow> bool" where
  "retry_spec send a r \<longleftrightarrow> (case r of (ok, n, waits) \<Rightarrow>
     a \<le> n \<and> n \<le> RETRY_ATTEMPTS \<and> waits = map (\<lambda>k. RETRY_BACKOFF_BASE_S * 2 ^ (k - 1)) [a..<n] \<and>
     (\<forall>k. a \<le> k \<and> k < n \<longrightarrow> (\<exists>e. send k = Some e \<and> \<not> permanent e)) \<and>
     (if ok then send n = None else (\<exists>e. send n = Some e \<and> (permanent e \<or> n = RETRY_ATTEMPTS))))"

lemma retry_loop_stop:
  "\<not> (\<exists>e. send a = Some e \<and> \<not> permanent e \<and> a < RETRY_ATTEMPTS) \<Longrightarrow> retry_loop send a = (send a = None, a, [])"
  by (subst retry_loop.simps) (auto split: option.split)

lemma retry_loop_spec: "a \<le> RETRY_ATTEMPTS \<Longrightarrow> retry_spec send a (retry_loop send a)"
proof (induction "RETRY_ATTEMPTS - a" arbitrary: a)
  case 0
  then have "a = RETRY_ATTEMPTS" "retry_loop send a = (send a = None, a, [])" by (simp_all add: retry_loop_stop)
  then show ?case by (auto simp: retry_spec_def)
next
  case (Suc d)
  show ?case
  proof (cases "\<exists>e. send a = Some e \<and> \<not> permanent e")
    case True
    then obtain e where e: "send a = Some e" "\<not> permanent e" by blast
    have IH: "retry_spec send (a + 1) (retry_loop send (a + 1))" using Suc by simp
    obtain ok n waits where r: "retry_loop send (a + 1) = (ok, n, waits)" by (metis prod_cases3)
    have loop: "retry_loop send a = (ok, n, RETRY_BACKOFF_BASE_S * 2 ^ (a - 1) # waits)"
      using e r Suc.hyps(2) by (simp add: retry_loop.simps [of send a])
    have n: "a + 1 \<le> n" using IH r by (simp add: retry_spec_def)
    then have "[a..<n] = a # [a + 1..<n]" by (simp add: upt_conv_Cons)
    moreover have "\<exists>e. send k = Some e \<and> \<not> permanent e" if "a \<le> k" "k < n" for k
      using that e IH r by (cases "k = a") (auto simp: retry_spec_def)
    ultimately show ?thesis using IH n unfolding loop r retry_spec_def by auto
  next
    case False
    then have "retry_loop send a = (send a = None, a, [])" by (auto intro: retry_loop_stop)
    with False Suc.prems show ?thesis by (auto simp: retry_spec_def)
  qed
qed

lemma waits_bound: "n \<le> RETRY_ATTEMPTS \<Longrightarrow> sum_list (map (\<lambda>k. RETRY_BACKOFF_BASE_S * 2 ^ (k - 1)) [1..<n]) \<le> 3 / 2"
proof -
  assume "n \<le> RETRY_ATTEMPTS"
  then have "n = 0 \<or> n = 1 \<or> n = 2 \<or> n = 3" by (auto simp: RETRY_ATTEMPTS_def)
  moreover have "sum_list (map (\<lambda>k. RETRY_BACKOFF_BASE_S * 2 ^ (k - 1)) [1..<2]) \<le> 3 / 2"
    "sum_list (map (\<lambda>k. RETRY_BACKOFF_BASE_S * 2 ^ (k - 1)) [1..<3]) \<le> 3 / 2" by code_simp+
  ultimately show ?thesis by (elim disjE) simp_all
qed

section \<open>Channels fired\<close>

lemma foldl_distinct_insert:
  "distinct ids \<Longrightarrow> distinct (foldl (\<lambda>ids c. if c \<in> set ids then ids else ids @ [c]) ids cs) \<and>
     set (foldl (\<lambda>ids c. if c \<in> set ids then ids else ids @ [c]) ids cs) = set ids \<union> set cs"
  by (induction cs arbitrary: ids) auto

lemma selected_channels_set: "set (selected_channels rules) = (\<Union>r \<in> set rules. set (r_channel_ids r))"
  using foldl_distinct_insert [of "[]" "concat (map r_channel_ids rules)"] by (simp add: selected_channels_def)

lemma matching_rules_set:
  "set (matching_rules db envelope) = {r \<in> set (rt_rules db). r_enabled r \<and> rule_matches (rt_host_in_group db) envelope r}"
  by (auto simp: matching_rules_def)

definition channel_selected :: "routing_db \<Rightarrow> AlertEnvelope \<Rightarrow> NotificationChannel \<Rightarrow> bool" where
  "channel_selected db envelope c \<longleftrightarrow> ch_enabled c \<and>
     list_ex (\<lambda>r. r_enabled r \<and> rule_matches (rt_host_in_group db) envelope r \<and> ch_id c \<in> set (r_channel_ids r)) (rt_rules db)"

lemma fire_channels_eq:
  "fire_channels decrypt w db envelope =
     map (\<lambda>c. (ch_id c, case decrypt (ch_encrypted_config c) of Inl _ \<Rightarrow> False | Inr config \<Rightarrow> fst (send_with_retry w c config envelope)))
       (filter (channel_selected db envelope) (rt_channels db))"
proof -
  have "(\<lambda>c. ch_id c \<in> set (selected_channels (matching_rules db envelope)) \<and> ch_enabled c) = channel_selected db envelope"
    by (auto simp: fun_eq_iff selected_channels_set matching_rules_set channel_selected_def list_ex_iff)
  then show ?thesis by (simp add: fire_channels_def Let_def)
qed

lemma length_filter_split: "length (filter (\<lambda>b. b) bs) + (length bs - length (filter (\<lambda>b. b) bs)) = length bs"
  by (simp add: le_add_diff_inverse)

section \<open>The worker\<close>

datatype router_event = Insert alert_row | Tick

record router_state =
  rs_table :: "alert_row list"
  rs_seen :: "datetime option"
  rs_log :: "alert_row list"

fun router_step :: "nat \<Rightarrow> (Alert \<Rightarrow> 'a result) \<Rightarrow> router_state \<Rightarrow> router_event \<Rightarrow> router_state" where
  "router_step batch disp s (Insert row) = s\<lparr>rs_table := rs_table s @ [row]\<rparr>"
| "router_step batch disp s Tick =
     (case tick_once batch disp (rs_table s) (rs_seen s) of
        (ds, seen) \<Rightarrow> s\<lparr>rs_seen := seen, rs_log := rs_log s @ ds\<rparr>)"

definition router_run :: "nat \<Rightarrow> (Alert \<Rightarrow> 'a result) \<Rightarrow> router_event list \<Rightarrow> router_state \<Rightarrow> router_state" where
  "router_run batch disp es s = foldl (router_step batch disp) s es"

definition inserted :: "router_event list \<Rightarrow> alert_row list" where
  "inserted es = List.map_filter (\<lambda>e. case e of Insert r \<Rightarrow> Some r | Tick \<Rightarrow> None) es"

lemma inserted_simps [simp]:
  "inserted [] = []" "inserted (Insert r # es) = r # inserted es" "inserted (Tick # es) = inserted es"
  by (simp_all add: inserted_def)

definition strictly_dated :: "alert_row list \<Rightarrow> bool" where
  "strictly_dated rows \<longleftrightarrow> sorted_wrt (<) (map fst rows)"

lemma dispatch_rows_all: "\<forall>a. \<exists>x. disp a = Inr x \<Longrightarrow> dispatch_rows disp rows = (rows, True)"
proof (induction rows)
  case (Cons r rows)
  obtain x where "disp (snd r) = Inr x" using Cons.prems by blast
  with Cons show ?case by simp
qed simp

lemma strictly_dated_filter: "strictly_dated rows \<Longrightarrow> strictly_dated (filter P rows)"
  by (simp add: strictly_dated_def sorted_wrt_map sorted_wrt_filter)

lemma strictly_dated_sort: "strictly_dated rows \<Longrightarrow> sort_key fst rows = rows"
  by (rule sort_key_id_if_sorted) (auto simp: strictly_dated_def intro: strict_sorted_imp_sorted)

lemma take_dated:
  "strictly_dated rows \<Longrightarrow> take n rows \<noteq> [] \<Longrightarrow> filter (\<lambda>r. fst r \<le> fst (last (take n rows))) rows = take n rows"
proof -
  assume d: "strictly_dated rows" and ne: "take n rows \<noteq> []"
  have "strictly_dated (take n rows @ drop n rows)" using d by simp
  then have le: "\<forall>r \<in> set (take n rows). fst r \<le> fst (last (take n rows))"
    and gt: "\<forall>r \<in> set (drop n rows). fst (last (take n rows)) < fst r"
  proof -
    assume s: "strictly_dated (take n rows @ drop n rows)"
    obtain ys y where y: "take n rows = ys @ [y]" using ne by (metis rev_exhaust)
    from s show "\<forall>r \<in> set (take n rows). fst r \<le> fst (last (take n rows))"
      "\<forall>r \<in> set (drop n rows). fst (last (take n rows)) < fst r"
      unfolding y strictly_dated_def by (auto simp: sorted_wrt_append)
  qed
  have "filter (\<lambda>r. fst r \<le> fst (last (take n rows))) (take n rows @ drop n rows) = take n rows"
    unfolding filter_append using le gt by (auto simp: filter_empty_conv)
  then show ?thesis by simp
qed

definition dated_between :: "datetime \<Rightarrow> datetime \<Rightarrow> alert_row list \<Rightarrow> alert_row list" where
  "dated_between a b rows = filter (\<lambda>r. a < fst r \<and> fst r \<le> b) rows"

lemma dated_between_join:
  assumes "strictly_dated rows" "a \<le> b" "b \<le> c"
  shows "dated_between a b rows @ dated_between b c rows = dated_between a c rows"
  using assms
proof (induction rows)
  case (Cons r rows)
  have tl: "strictly_dated rows" using Cons.prems(1) by (simp add: strictly_dated_def)
  have "dated_between a b rows = []" if "b < fst r"
    using that Cons.prems(1) by (auto simp: dated_between_def strictly_dated_def filter_empty_conv)
  with Cons.IH [OF tl] Cons.prems(2,3) show ?case by (auto simp: dated_between_def)
qed (simp add: dated_between_def)

text \<open>One tick delivers the next rows in order and moves the mark to the last of them.\<close>

lemma tick_step:
  assumes d: "strictly_dated table" and disp: "\<forall>a. \<exists>x. disp a = Inr x"
    and t: "tick_once batch disp table (Some s) = (ds, seen)"
  obtains s' where "seen = Some s'" "s \<le> s'" "ds = dated_between s s' table" "s' = s \<or> s' \<in> fst ` set table"
    "ds = take batch (filter (\<lambda>r. s < fst r) table)"
proof -
  let ?p = "filter (\<lambda>r. s < fst r) table"
  have "(\<lambda>(c, _). s < c) = (\<lambda>r :: alert_row. s < fst r)" by auto
  then have rows: "new_rows batch s table = take batch ?p"
    by (simp add: new_rows_def strictly_dated_sort strictly_dated_filter d)
  show thesis
  proof (cases "take batch ?p = []")
    case True
    with t rows dispatch_rows_all [OF disp] have r: "ds = []" "seen = Some s" by (auto simp: tick_once_def)
    show thesis by (rule that [of s]) (use r True in \<open>auto simp: dated_between_def\<close>)
  next
    case False
    let ?s' = "fst (last (take batch ?p))"
    have r: "ds = take batch ?p" "seen = Some ?s'" using t rows False dispatch_rows_all [OF disp] by (auto simp: tick_once_def Let_def)
    have "last (take batch ?p) \<in> set ?p" using False by (metis in_set_takeD last_in_set)
    then have "s < ?s'" "?s' \<in> fst ` set table" by auto
    moreover have "take batch ?p = dated_between s ?s' table"
      using take_dated [OF strictly_dated_filter [OF d] False] by (simp add: dated_between_def conj_commute)
    ultimately show thesis using that [of ?s'] r by auto
  qed
qed

lemma router_run_delivered:
  assumes disp: "\<forall>a. \<exists>x. disp a = Inr x"
    and "strictly_dated (rs_table s @ inserted es)" "rs_seen s = Some t" "start \<le> t"
    "rs_log s = dated_between start t (rs_table s)" "t = start \<or> t \<in> fst ` set (rs_table s)"
  shows "\<exists>t'. rs_seen (router_run batch disp es s) = Some t' \<and>
    rs_log (router_run batch disp es s) = dated_between start t' (rs_table s @ inserted es) \<and>
    rs_table (router_run batch disp es s) = rs_table s @ inserted es"
  using assms(2-)
proof (induction es arbitrary: s t)
  case Nil
  then show ?case by (simp add: router_run_def)
next
  case (Cons e es)
  show ?case
  proof (cases e)
    case (Insert row)
    have new: "dated_between start t (rs_table s @ [row]) = dated_between start t (rs_table s)"
      using Cons.prems(1,5) Insert by (auto simp: dated_between_def strictly_dated_def sorted_wrt_append)
    have "\<exists>t'. rs_seen (router_run batch disp es (router_step batch disp s e)) = Some t' \<and>
      rs_log (router_run batch disp es (router_step batch disp s e)) = dated_between start t' ((rs_table s @ [row]) @ inserted es) \<and>
      rs_table (router_run batch disp es (router_step batch disp s e)) = (rs_table s @ [row]) @ inserted es"
      using Cons.IH [of "router_step batch disp s e" t] Cons.prems Insert new by auto
    with Insert show ?thesis by (simp add: router_run_def)
  next
    case Tick
    obtain ds seen where tk: "tick_once batch disp (rs_table s) (Some t) = (ds, seen)" by fastforce
    have d: "strictly_dated (rs_table s)" using Cons.prems(1) by (simp add: strictly_dated_def sorted_wrt_append)
    obtain t' where t': "seen = Some t'" "t \<le> t'" "ds = dated_between t t' (rs_table s)" "t' = t \<or> t' \<in> fst ` set (rs_table s)"
      by (rule tick_step [OF d disp tk])
    have "rs_log s @ ds = dated_between start t' (rs_table s)"
      using dated_between_join [OF d Cons.prems(3) t'(2)] Cons.prems(4) t'(3) by simp
    then have "\<exists>t''. rs_seen (router_run batch disp es (router_step batch disp s e)) = Some t'' \<and>
      rs_log (router_run batch disp es (router_step batch disp s e)) = dated_between start t'' (rs_table s @ inserted es) \<and>
      rs_table (router_run batch disp es (router_step batch disp s e)) = rs_table s @ inserted es"
      using Cons.IH [of "router_step batch disp s e" t'] Cons.prems Tick tk t' by auto
    with Tick show ?thesis by (simp add: router_run_def)
  qed
qed


subsection \<open>Progress\<close>

definition pending :: "datetime \<Rightarrow> alert_row list \<Rightarrow> alert_row list" where
  "pending t table = filter (\<lambda>r. t < fst r) table"

lemma pending_split: "t \<le> t' \<Longrightarrow> length (pending t table) = length (dated_between t t' table) + length (pending t' table)"
  by (induction table) (auto simp: pending_def dated_between_def)

lemma dated_between_all: "pending t table = [] \<Longrightarrow> dated_between start t table = pending start table"
  by (auto simp: pending_def dated_between_def filter_empty_conv not_less intro!: filter_cong)

lemma ticks_progress:
  assumes disp: "\<forall>a. \<exists>x. disp a = Inr x" and d: "strictly_dated (rs_table s)" and b: "0 < batch"
  shows "rs_seen s = Some t \<Longrightarrow>
    \<exists>t'. rs_seen (router_run batch disp (replicate k Tick) s) = Some t' \<and>
      length (pending t' (rs_table s)) \<le> length (pending t (rs_table s)) - k"
  using d
proof (induction k arbitrary: s t)
  case 0
  then show ?case by (simp add: router_run_def)
next
  case (Suc k)
  obtain ds seen where tk: "tick_once batch disp (rs_table s) (Some t) = (ds, seen)" by fastforce
  obtain t1 where t1: "seen = Some t1" "t \<le> t1" "ds = dated_between t t1 (rs_table s)" "ds = take batch (pending t (rs_table s))"
    unfolding pending_def by (rule tick_step [OF Suc.prems(2) disp tk]) auto
  let ?s = "router_step batch disp s Tick"
  have s1: "rs_seen ?s = Some t1" "rs_table ?s = rs_table s" using tk Suc.prems(1) t1(1) by simp_all
  have "length (pending t1 (rs_table s)) \<le> length (pending t (rs_table s)) - 1"
    using pending_split [OF t1(2), of "rs_table s"] arg_cong [OF t1(3), of length] arg_cong [OF t1(4), of length] b by simp
  moreover obtain t' where "rs_seen (router_run batch disp (replicate k Tick) ?s) = Some t'"
    "length (pending t' (rs_table s)) \<le> length (pending t1 (rs_table s)) - k"
    using Suc.IH [of ?s t1] s1 Suc.prems(2) by auto
  ultimately show ?case by (auto simp: router_run_def)
qed

lemma router_run_append: "router_run batch disp (es @ es') s = router_run batch disp es' (router_run batch disp es s)"
  by (simp add: router_run_def)

lemma inserted_append [simp]: "inserted (es @ es') = inserted es @ inserted es'"
  by (induction es) (auto simp: inserted_def List.map_filter_def)

lemma inserted_ticks [simp]: "inserted (replicate k Tick) = []"
  by (induction k) simp_all

section \<open>Properties\<close>

definition router_init :: "int \<Rightarrow> datetime \<Rightarrow> router_state" where
  "router_init backfill_s now = \<lparr>rs_table = [], rs_seen = router_start backfill_s now, rs_log = []\<rparr>"

definition demo_channel :: NotificationChannel where
  "demo_channel = \<lparr>ch_id = 5, ch_tenant_id = 2, ch_name = ''ops'', ch_kind = SLACK, ch_encrypted_config = [], ch_enabled = True\<rparr>"

definition demo_rule :: RoutingRule where
  "demo_rule = \<lparr>r_id = 6, r_tenant_id = 2, r_name = ''all'', r_min_severity = INFO, r_rule_kind = None, r_host_group_id = None,
     r_channel_ids = [5], r_enabled = True\<rparr>"

definition demo_routing_db :: routing_db where
  "demo_routing_db = \<lparr>rt_rules = [demo_rule], rt_channels = [demo_channel], rt_host_in_group = [], rt_hosts = [], rt_detections = []\<rparr>"

definition demo_world :: "(nat \<Rightarrow> http_reply) \<Rightarrow> world" where
  "demo_world replies = \<lparr>http_post = (\<lambda>n _ _. replies n), email_send = (\<lambda>_ _ _. None)\<rparr>"

text \<open>
  A delivery makes at most three attempts and waits at most a second and a half in all. Every
  attempt before the last failed with an error worth retrying; the delivery succeeds iff the last
  attempt did, and it gives up only on a permanent failure or after the third attempt.
\<close>

theorem retry_policy:
  "case send_with_retry w channel config envelope of (ok, n, waits) \<Rightarrow>
     1 \<le> n \<and> n \<le> RETRY_ATTEMPTS \<and> length waits = n - 1 \<and> sum_list waits \<le> 3 / 2 \<and>
     (\<forall>k. 1 \<le> k \<and> k < n \<longrightarrow> (\<exists>e. attempt_send w (ch_kind channel) config envelope k = Some e \<and> \<not> permanent e)) \<and>
     (if ok then attempt_send w (ch_kind channel) config envelope n = None
      else (\<exists>e. attempt_send w (ch_kind channel) config envelope n = Some e \<and> (permanent e \<or> n = RETRY_ATTEMPTS)))"
proof -
  obtain ok n waits where r: "send_with_retry w channel config envelope = (ok, n, waits)" by (metis prod_cases3)
  have "retry_spec (attempt_send w (ch_kind channel) config envelope) 1 (ok, n, waits)"
    using retry_loop_spec [of 1 "attempt_send w (ch_kind channel) config envelope"] r
    by (simp add: send_with_retry_def RETRY_ATTEMPTS_def)
  then show ?thesis using waits_bound [of n] unfolding r retry_spec_def by auto
qed

theorem retry_policy_witness:
  "case send_with_retry (demo_world (\<lambda>n. if n < 2 then Reply 503 [] else Reply 200 [])) demo_channel
      [(''webhook_url'', PStr ''u'')] (envelope_from_alert demo_routing_db (demo_alert 1 0)) of
     (ok, n, waits) \<Rightarrow> n \<le> RETRY_ATTEMPTS"
  using retry_policy [of "demo_world (\<lambda>n. if n < 2 then Reply 503 [] else Reply 200 [])" demo_channel
      "[(''webhook_url'', PStr ''u'')]" "envelope_from_alert demo_routing_db (demo_alert 1 0)"]
  by (auto split: prod.splits)

text \<open>
  An alert fires exactly the enabled channels that some enabled matching rule lists, each of them
  once however many rules list it; a channel's result depends on that channel alone, and the two
  counts add up to the channels fired.
\<close>

theorem dispatch_fires_each_channel_once:
  assumes "distinct (map ch_id (rt_channels db))"
  shows "distinct (map fst (fire_channels decrypt w db envelope)) \<and>
    (\<forall>c \<in> set (rt_channels db).
       (ch_id c \<in> fst ` set (fire_channels decrypt w db envelope) \<longleftrightarrow> channel_selected db envelope c) \<and>
       (\<forall>config. channel_selected db envelope c \<and> decrypt (ch_encrypted_config c) = Inr config \<longrightarrow>
          (ch_id c, fst (send_with_retry w c config envelope)) \<in> set (fire_channels decrypt w db envelope))) \<and>
    (envelope = envelope_from_alert db alert \<longrightarrow>
       (case dispatch_for_alert decrypt w db alert of (succeeded, failed) \<Rightarrow>
          succeeded + failed = length (fire_channels decrypt w db envelope)))"
proof -
  have d: "distinct (map fst (fire_channels decrypt w db envelope))"
    using assms by (simp add: fire_channels_eq comp_def distinct_map_filter)
  have inj: "c = c'" if "c \<in> set (rt_channels db)" "c' \<in> set (rt_channels db)" "ch_id c = ch_id c'" for c c'
    using assms that by (auto simp: distinct_map inj_on_def)
  have fired: "ch_id c \<in> fst ` set (fire_channels decrypt w db envelope) \<longleftrightarrow> channel_selected db envelope c"
    if "c \<in> set (rt_channels db)" for c
    using that inj by (force simp: fire_channels_eq)
  have res: "(ch_id c, fst (send_with_retry w c config envelope)) \<in> set (fire_channels decrypt w db envelope)"
    if "c \<in> set (rt_channels db)" "channel_selected db envelope c" "decrypt (ch_encrypted_config c) = Inr config" for c config
    using that by (force simp: fire_channels_eq)
  have "fire_channels decrypt w db envelope = []" if "matching_rules db envelope = []"
    using that by (simp add: fire_channels_def selected_channels_def)
  with d fired res show ?thesis
    using length_filter_split [of "map snd (fire_channels decrypt w db envelope)"]
    by (auto simp: dispatch_for_alert_def Let_def)
qed

theorem dispatch_fires_each_channel_once_witness:
  "ch_id demo_channel \<in> fst ` set (fire_channels (\<lambda>_. Inr []) (demo_world (\<lambda>_. Reply 200 [])) demo_routing_db
     (envelope_from_alert demo_routing_db (demo_alert 1 0)))"
proof -
  have "distinct (map ch_id (rt_channels demo_routing_db))" by (simp add: demo_routing_db_def)
  moreover have "demo_channel \<in> set (rt_channels demo_routing_db)" by (simp add: demo_routing_db_def)
  moreover have "channel_selected demo_routing_db (envelope_from_alert demo_routing_db (demo_alert 1 0)) demo_channel"
    by code_simp
  ultimately show ?thesis using dispatch_fires_each_channel_once by blast
qed

text \<open>
  Matching never looks at tenants: a broad rule of another tenant sends this tenant's alert to
  that tenant's channel.
\<close>

theorem routing_crosses_tenants:
  assumes "r \<in> set (rt_rules db)" "r_enabled r" "r_min_severity r = INFO" "r_rule_kind r = None" "r_host_group_id r = None"
    "ch_id c \<in> set (r_channel_ids r)" "c \<in> set (rt_channels db)" "ch_enabled c"
    "a_tenant_id alert \<noteq> r_tenant_id r" "a_tenant_id alert \<noteq> ch_tenant_id c"
  shows "ch_id c \<in> fst ` set (fire_channels decrypt w db (envelope_from_alert db alert))"
proof -
  have "rule_matches (rt_host_in_group db) (envelope_from_alert db alert) r"
    using assms(3-6) by (auto simp: rule_matches_def severity_at_least_def)
  then have "channel_selected db (envelope_from_alert db alert) c"
    using assms(1,2,6,8) by (auto simp: channel_selected_def list_ex_iff)
  with assms(7) show ?thesis by (force simp: fire_channels_eq)
qed

theorem routing_crosses_tenants_witness:
  "a_tenant_id (demo_alert 1 0) \<noteq> ch_tenant_id demo_channel \<and>
   5 \<in> fst ` set (fire_channels (\<lambda>_. Inr []) (demo_world (\<lambda>_. Reply 200 [])) demo_routing_db
     (envelope_from_alert demo_routing_db (demo_alert 1 0)))"
proof -
  have "a_tenant_id (demo_alert 1 0) \<noteq> 2" by code_simp
  with routing_crosses_tenants [of demo_rule demo_routing_db demo_channel "demo_alert 1 0" "\<lambda>_. Inr []" "demo_world (\<lambda>_. Reply 200 [])"]
  show ?thesis by (simp add: demo_rule_def demo_channel_def demo_routing_db_def)
qed

text \<open>
  C13: when alerts are inserted in the order of distinct creation times and no dispatch crashes, the
  worker dispatches, in order and exactly once each, the alerts created after its starting mark up to
  its current mark, and as many ticks as there are alerts bring it up to date.
\<close>

theorem router_exactly_once:
  assumes "\<forall>a. \<exists>x. disp a = Inr x" "strictly_dated (inserted es)" "0 < batch"
  shows "\<exists>t. rs_seen (router_run batch disp es (router_init backfill_s now)) = Some t \<and>
      rs_log (router_run batch disp es (router_init backfill_s now)) = dated_between (now - seconds backfill_s) t (inserted es) \<and>
      rs_log (router_run batch disp (es @ replicate (length (inserted es)) Tick) (router_init backfill_s now)) =
        pending (now - seconds backfill_s) (inserted es)"
proof -
  let ?start = "now - seconds backfill_s" and ?init = "router_init backfill_s now"
  let ?ticks = "replicate (length (inserted es)) Tick"
  let ?s = "router_run batch disp es ?init"
  have run: "\<exists>t. rs_seen (router_run batch disp es' ?init) = Some t \<and>
      rs_log (router_run batch disp es' ?init) = dated_between ?start t (inserted es') \<and>
      rs_table (router_run batch disp es' ?init) = inserted es'" if "strictly_dated (inserted es')" for es'
    using router_run_delivered [OF assms(1), of ?init es' ?start ?start batch] that
    by (simp add: router_init_def router_start_def dated_between_def)
  obtain t where t: "rs_seen ?s = Some t" "rs_log ?s = dated_between ?start t (inserted es)" "rs_table ?s = inserted es"
    using run [OF assms(2)] by blast
  obtain t' where t': "rs_seen (router_run batch disp ?ticks ?s) = Some t'"
    "length (pending t' (inserted es)) \<le> length (pending t (inserted es)) - length (inserted es)"
    using ticks_progress [OF assms(1) _ assms(3) t(1), of "length (inserted es)"] assms(2) t(3) by auto
  have "length (pending t (inserted es)) \<le> length (inserted es)" by (simp add: pending_def)
  with t'(2) have "pending t' (inserted es) = []" by simp
  moreover have "rs_log (router_run batch disp (es @ ?ticks) ?init) = dated_between ?start t' (inserted es)"
    using run [of "es @ ?ticks"] assms(2) t'(1) by (auto simp: router_run_append)
  ultimately have "rs_log (router_run batch disp (es @ ?ticks) ?init) = pending ?start (inserted es)"
    by (simp add: dated_between_all)
  with t show ?thesis by blast
qed

theorem router_exactly_once_witness:
  "rs_log (router_run 100 (\<lambda>_. Inr ()) ([Insert (10, demo_alert 1 0), Insert (20, demo_alert 2 0)] @ [Tick, Tick]) (router_init 0 5)) =
     [(10, demo_alert 1 0), (20, demo_alert 2 0)]"
  using router_exactly_once [of "\<lambda>_. Inr ()" "[Insert (10, demo_alert 1 0), Insert (20, demo_alert 2 0)]" 100 0 5]
  by (auto simp: strictly_dated_def pending_def seconds_def numeral_2_eq_2)

text \<open>
  Outside those conditions the worker loses and repeats. Of two alerts created at the same
  instant that straddle a batch the second is never dispatched, and while the dispatch of an alert
  crashes, the alerts before it in the batch are dispatched again at every tick.
\<close>

theorem router_loses_and_repeats:
  "let a = demo_alert 1 0; b = demo_alert 2 0;
       crash = (\<lambda>x. if a_id x = 2 then Inl RuntimeError else Inr ())
   in rs_log (router_run 1 (\<lambda>_. Inr ()) (replicate (Suc k) Tick) \<lparr>rs_table = [(10, a), (10, b)], rs_seen = Some 5, rs_log = []\<rparr>) = [(10, a)] \<and>
      rs_log (router_run 100 crash (replicate k Tick) \<lparr>rs_table = [(10, a), (20, b)], rs_seen = Some 5, rs_log = []\<rparr>) = replicate k (10, a)"
proof -
  let ?a = "demo_alert 1 0" and ?b = "demo_alert 2 0"
  let ?ok = "\<lambda>_ :: Alert. Inr () :: unit result"
  let ?crash = "\<lambda>x. if a_id x = 2 then Inl RuntimeError else Inr ()"
  have still: "router_run 1 ?ok (replicate k Tick) \<lparr>rs_table = [(10, ?a), (10, ?b)], rs_seen = Some 10, rs_log = l\<rparr> =
      \<lparr>rs_table = [(10, ?a), (10, ?b)], rs_seen = Some 10, rs_log = l\<rparr>" for l
    by (induction k) (simp_all add: router_run_def tick_once_def new_rows_def)
  have "router_step 1 ?ok \<lparr>rs_table = [(10, ?a), (10, ?b)], rs_seen = Some 5, rs_log = []\<rparr> Tick =
      \<lparr>rs_table = [(10, ?a), (10, ?b)], rs_seen = Some 10, rs_log = [(10, ?a)]\<rparr>"
    by (simp add: tick_once_def new_rows_def)
  then have "rs_log (router_run 1 ?ok (replicate (Suc k) Tick) \<lparr>rs_table = [(10, ?a), (10, ?b)], rs_seen = Some 5, rs_log = []\<rparr>) = [(10, ?a)]"
    using still by (simp add: router_run_def)
  moreover have "rs_log (router_run 100 ?crash (replicate k Tick) \<lparr>rs_table = [(10, ?a), (20, ?b)], rs_seen = Some 5, rs_log = l\<rparr>) =
      l @ replicate k (10, ?a)" for l
    by (induction k arbitrary: l) (simp_all add: router_run_def tick_once_def new_rows_def demo_alert_def replicate_app_Cons_same)
  ultimately show ?thesis by (simp add: Let_def)
qed

end
