(* ===== verification/Rollout.thy ===== *)
theory Rollout
  imports Alerts
begin

text \<open>
  Staged agent updates: hosts and the rollout columns of policies (backend/app/models/host.py,
  policy.py, rollout_event.py), cohort assignment and the update gate (services/rollout.py), and the
  breaker that halts a failing rollout (workers/rollout_monitor.py). BLAKE2b is a parameter.
\<close>

section \<open>Hosts and policies\<close>

datatype HostStatus = HOST_PENDING | ONLINE | OFFLINE | ISOLATED | DECOMMISSIONED

text \<open>The columns of the two tables that the code modelled here and in the jobs engine reads.\<close>

record Host =
  hst_id :: uuid
  hst_tenant_id :: uuid
  hst_status :: HostStatus
  hst_last_seen_at :: "datetime option"
  hst_policy_id :: "uuid option"
  hst_agent_version :: "string option"

record Policy =
  pol_id :: uuid
  pol_tenant_id :: uuid
  pol_name :: string
  pol_cohort_target_version :: "string option"
  pol_cohort_rolled_out_pct :: int

section \<open>Cohorts and the gate\<close>

definition CANARY_UPPER :: int where "CANARY_UPPER = 5"
definition EARLY_UPPER :: int where "EARLY_UPPER = 25"

text \<open>\<open>UUID.bytes\<close> and \<open>int.from_bytes(b, "big")\<close>.\<close>

definition uuid_bytes :: "uuid \<Rightarrow> bytes" where
  "uuid_bytes u = map (\<lambda>i. char_of (u div 256 ^ (15 - i) mod 256)) [0..<16]"

definition int_from_bytes :: "bytes \<Rightarrow> int" where
  "int_from_bytes bs = foldl (\<lambda>a b. 256 * a + int (code b)) 0 bs"

definition assign_cohort :: "(bytes \<Rightarrow> bytes) \<Rightarrow> uuid \<Rightarrow> string \<Rightarrow> int" where
  "assign_cohort blake2b_8 host_id seed = int_from_bytes (blake2b_8 (utf8_encode seed @ uuid_bytes host_id)) mod 100"

definition cohort_label :: "int \<Rightarrow> string" where
  "cohort_label bucket =
     (if bucket < CANARY_UPPER then ''canary'' else if bucket < EARLY_UPPER then ''early'' else ''mainline'')"

definition eligible_for_update :: "(bytes \<Rightarrow> bytes) \<Rightarrow> string \<Rightarrow> Host \<Rightarrow> Policy \<Rightarrow> bool" where
  "eligible_for_update blake2b_8 seed host policy =
     (case pol_cohort_target_version policy of
        None \<Rightarrow> False
      | Some target \<Rightarrow>
          (if target = [] then False
           else let pct = pol_cohort_rolled_out_pct policy in
             if pct \<le> 0 then False
             else if pct < 100 \<and> assign_cohort blake2b_8 (hst_id host) seed \<ge> pct then False
             else (case hst_agent_version host of Some v \<Rightarrow> v | None \<Rightarrow> []) \<noteq> target))"

section \<open>The breaker\<close>

datatype RolloutStatus = RO_PENDING | IN_FLIGHT | SUCCESS | FAILED | ROLLED_BACK

record RolloutEvent =
  ro_host_id :: uuid
  ro_policy_id :: uuid
  ro_cohort :: string
  ro_version_from :: "string option"
  ro_version_to :: string
  ro_status :: RolloutStatus
  ro_started_at :: datetime

definition env_floor :: "int \<Rightarrow> int \<Rightarrow> string option \<Rightarrow> int" where
  "env_floor lo dflt env = (case int_of_str (case env of None \<Rightarrow> show_int dflt | Some raw \<Rightarrow> raw) of
       Inr v \<Rightarrow> max lo v | Inl _ \<Rightarrow> dflt)"

definition rollout_interval_seconds :: "int \<Rightarrow> string option \<Rightarrow> int" where
  "rollout_interval_seconds = env_floor 5"

definition failure_threshold :: "int \<Rightarrow> string option \<Rightarrow> int" where
  "failure_threshold = env_floor 1"

definition failure_window_s :: "int \<Rightarrow> string option \<Rightarrow> int" where
  "failure_window_s = env_floor 10"

definition ROLLOUT_BREAKER_RULE_ID :: uuid where
  "ROLLOUT_BREAKER_RULE_ID = 0xe3c4d5e6f7a800000000000000000001"

definition breaker_alert :: "datetime \<Rightarrow> uuid \<Rightarrow> Policy \<Rightarrow> string \<Rightarrow> int \<Rightarrow> int \<Rightarrow> Alert" where
  "breaker_alert now i policy cohort failure_count window_s =
     \<lparr>a_id = i, a_tenant_id = pol_tenant_id policy, a_host_id = None, a_rule_id = ROLLOUT_BREAKER_RULE_ID,
      a_severity = CRITICAL, a_action_taken = ALERT, a_state = NEW,
      a_summary = ''Rollout halted for policy '' @ [squote] @ pol_name policy @ [squote] @ '' (cohort '' @ cohort @ '', '' @
        show_int failure_count @ '' failures in '' @ show_int window_s @ ''s)'',
      a_details = PDict [(''policy_id'', PStr (uuid_str (pol_id policy))), (''policy_name'', PStr (pol_name policy)),
        (''cohort'', PStr cohort), (''failure_count'', PInt failure_count), (''window_s'', PInt window_s),
        (''target_version'', opt_str (pol_cohort_target_version policy)), (''detector'', PStr ''rollout_monitor_v1'')],
      a_mitre = None, a_opened_at = now, a_closed_at = None, a_assignee_id = None, a_incident_id = None,
      a_dedup_key = None, a_occurrence_count = 1, a_last_occurred_at = now\<rparr>"

definition recent_failure :: "uuid \<Rightarrow> datetime \<Rightarrow> RolloutEvent \<Rightarrow> bool" where
  "recent_failure policy_id cutoff e \<longleftrightarrow> ro_policy_id e = policy_id \<and> ro_status e = FAILED \<and> cutoff \<le> ro_started_at e"

text \<open>\<open>SELECT cohort, count(id) ... GROUP BY cohort\<close>\<close>

definition failures_by_cohort :: "uuid \<Rightarrow> datetime \<Rightarrow> RolloutEvent list \<Rightarrow> (string \<times> int) list" where
  "failures_by_cohort policy_id cutoff events =
     (let es = filter (recent_failure policy_id cutoff) events
      in map (\<lambda>c. (c, int (length (filter (\<lambda>e. ro_cohort e = c) es)))) (remdups (map ro_cohort es)))"

definition tripping_cohort :: "int \<Rightarrow> (string \<times> int) list \<Rightarrow> string option \<times> int" where
  "tripping_cohort threshold rows =
     foldl (\<lambda>(c, n) (cohort, count). if count \<ge> threshold \<and> count > n then (Some cohort, count) else (c, n)) (None, 0) rows"

text \<open>The policy after the check, and the alert raised when it trips.\<close>

definition trip_if_failing ::
  "int \<Rightarrow> int \<Rightarrow> datetime \<Rightarrow> RolloutEvent list \<Rightarrow> uuid \<Rightarrow> Policy \<Rightarrow> Policy \<times> Alert option" where
  "trip_if_failing threshold window_s now events i policy =
     (if pol_cohort_rolled_out_pct policy = 0 then (policy, None)
      else (case tripping_cohort threshold (failures_by_cohort (pol_id policy) (now - seconds window_s) events) of
          (None, _) \<Rightarrow> (policy, None)
        | (Some cohort, n) \<Rightarrow>
            (policy\<lparr>pol_cohort_rolled_out_pct := 0\<rparr>, Some (breaker_alert now i policy cohort n window_s))))"

text \<open>One pass over the policies that are rolling out; \<open>i\<close> is the id of the next alert.\<close>

fun rollout_run_once ::
  "int \<Rightarrow> int \<Rightarrow> datetime \<Rightarrow> RolloutEvent list \<Rightarrow> uuid \<Rightarrow> Policy list \<Rightarrow> Policy list \<times> Alert list" where
  "rollout_run_once threshold window_s now events i [] = ([], [])"
| "rollout_run_once threshold window_s now events i (p # ps) =
     (if pol_cohort_rolled_out_pct p > 0
      then (case trip_if_failing threshold window_s now events i p of
          (p', None) \<Rightarrow> (case rollout_run_once threshold window_s now events i ps of (ps', as) \<Rightarrow> (p' # ps', as))
        | (p', Some a) \<Rightarrow> (case rollout_run_once threshold window_s now events (i + 1) ps of (ps', as) \<Rightarrow> (p' # ps', a # as)))
      else (case rollout_run_once threshold window_s now events i ps of (ps', as) \<Rightarrow> (p # ps', as)))"

section \<open>Correctness\<close>

lemma assign_cohort_range: "0 \<le> assign_cohort b h s \<and> assign_cohort b h s < 100"
  by (simp add: assign_cohort_def)

lemma eligible_iff:
  "eligible_for_update b s host policy \<longleftrightarrow>
     (\<exists>target. pol_cohort_target_version policy = Some target \<and> target \<noteq> [] \<and>
        assign_cohort b (hst_id host) s < pol_cohort_rolled_out_pct policy \<and>
        (case hst_agent_version host of Some v \<Rightarrow> v | None \<Rightarrow> []) \<noteq> target)"
  using assign_cohort_range [of b "hst_id host" s]
  by (auto simp: eligible_for_update_def Let_def split: option.split)

lemma tripping_cohort_max:
  assumes "0 < threshold"
  shows "fst (tripping_cohort threshold rows) \<noteq> None \<longleftrightarrow> (\<exists>(c, n) \<in> set rows. threshold \<le> n)"
proof -
  let ?f = "\<lambda>(c :: string option, n :: int) (cohort :: string, count :: int). if count \<ge> threshold \<and> count > n then (Some cohort, count) else (c, n)"
  have "fst (foldl ?f (c, n) rows) \<noteq> None \<longleftrightarrow> c \<noteq> None \<or> (\<exists>(c, n) \<in> set rows. threshold \<le> n)"
    if "c = None \<longrightarrow> n = 0" for c n
    using that
  proof (induction rows arbitrary: c n)
    case (Cons r rows)
    obtain cohort count where r: "r = (cohort, count)" by (cases r)
    show ?case
    proof (cases "count \<ge> threshold \<and> count > n")
      case True
      with Cons.IH [of "Some cohort" count] r show ?thesis by auto
    next
      case False
      then have "threshold \<le> count \<Longrightarrow> c \<noteq> None" using Cons.prems assms by auto
      with False Cons.IH [of c n] Cons.prems r show ?thesis by auto
    qed
  qed simp
  from this [of None 0] show ?thesis by (simp add: tripping_cohort_def)
qed

definition failing :: "int \<Rightarrow> datetime \<Rightarrow> RolloutEvent list \<Rightarrow> Policy \<Rightarrow> bool" where
  "failing threshold cutoff events p \<longleftrightarrow>
     (\<exists>c. threshold \<le> int (length (filter (\<lambda>e. recent_failure (pol_id p) cutoff e \<and> ro_cohort e = c) events)))"

lemma failing_rows:
  assumes "0 < threshold"
  shows "(\<exists>(c, n) \<in> set (failures_by_cohort (pol_id p) cutoff events). threshold \<le> n) \<longleftrightarrow> failing threshold cutoff events p"
proof -
  let ?es = "filter (recent_failure (pol_id p) cutoff) events"
  have rows: "set (failures_by_cohort (pol_id p) cutoff events) =
      (\<lambda>c. (c, int (length (filter (\<lambda>e. ro_cohort e = c) ?es)))) ` (ro_cohort ` set ?es)"
    by (simp add: failures_by_cohort_def Let_def)
  have "c \<in> ro_cohort ` set ?es" if "threshold \<le> int (length (filter (\<lambda>e. ro_cohort e = c) ?es))" for c
  proof -
    have "filter (\<lambda>e. ro_cohort e = c) ?es \<noteq> []" using that assms by auto
    then show ?thesis by (auto simp: filter_empty_conv)
  qed
  then show ?thesis unfolding rows failing_def by (auto simp: conj_commute)
qed

lemma trip_spec:
  assumes "0 < threshold" "0 < pol_cohort_rolled_out_pct p"
  shows "fst (trip_if_failing threshold window_s now events i p) =
      (if failing threshold (now - seconds window_s) events p then p\<lparr>pol_cohort_rolled_out_pct := 0\<rparr> else p)"
    and "snd (trip_if_failing threshold window_s now events i p) \<noteq> None \<longleftrightarrow> failing threshold (now - seconds window_s) events p"
proof -
  obtain c n where r: "tripping_cohort threshold (failures_by_cohort (pol_id p) (now - seconds window_s) events) = (c, n)" by fastforce
  have "c \<noteq> None \<longleftrightarrow> failing threshold (now - seconds window_s) events p"
    using tripping_cohort_max [OF assms(1), of "failures_by_cohort (pol_id p) (now - seconds window_s) events"]
      failing_rows [OF assms(1), of p "now - seconds window_s" events] r by simp
  with r assms(2) show "fst (trip_if_failing threshold window_s now events i p) =
      (if failing threshold (now - seconds window_s) events p then p\<lparr>pol_cohort_rolled_out_pct := 0\<rparr> else p)"
    "snd (trip_if_failing threshold window_s now events i p) \<noteq> None \<longleftrightarrow> failing threshold (now - seconds window_s) events p"
    by (auto simp: trip_if_failing_def split: option.split)
qed

definition after_breaker :: "int \<Rightarrow> datetime \<Rightarrow> RolloutEvent list \<Rightarrow> Policy \<Rightarrow> Policy" where
  "after_breaker threshold cutoff events p =
     (if 0 < pol_cohort_rolled_out_pct p \<and> failing threshold cutoff events p then p\<lparr>pol_cohort_rolled_out_pct := 0\<rparr> else p)"

lemma run_once_spec:
  assumes "0 < threshold"
  shows "fst (rollout_run_once threshold window_s now events i ps) = map (after_breaker threshold (now - seconds window_s) events) ps \<and>
    length (snd (rollout_run_once threshold window_s now events i ps)) =
      length (filter (\<lambda>p. 0 < pol_cohort_rolled_out_pct p \<and> failing threshold (now - seconds window_s) events p) ps)"
proof (induction ps arbitrary: i)
  case (Cons p ps)
  show ?case
  proof (cases "0 < pol_cohort_rolled_out_pct p")
    case True
    obtain p' a where t: "trip_if_failing threshold window_s now events i p = (p', a)" by fastforce
    note spec = trip_spec [OF assms True, of window_s now events i]
    show ?thesis
    proof (cases a)
      case None
      with True t spec Cons [of i] show ?thesis by (auto simp: after_breaker_def split: prod.splits)
    next
      case (Some al)
      with True t spec Cons [of "i + 1"] show ?thesis by (auto simp: after_breaker_def split: prod.splits)
    qed
  next
    case False
    with Cons [of i] show ?thesis by (auto simp: after_breaker_def split: prod.splits)
  qed
qed simp

section \<open>Properties\<close>

text \<open>
  The update gate and the breaker keep the rollout's contract. A host's bucket lies in 0 to 99,
  raising the percentage never withdraws eligibility, at zero no host is eligible and at 100 every
  host on another version is. One pass of the monitor zeroes exactly the policies some cohort of
  which reached the failure threshold within the window, raising one alert for each, and a second
  pass over the same events raises none.
\<close>

theorem rollout_contract:
  assumes "0 < threshold"
  shows "0 \<le> assign_cohort b (hst_id host) seed \<and> assign_cohort b (hst_id host) seed < 100 \<and>
    (eligible_for_update b seed host p \<longrightarrow> pol_cohort_rolled_out_pct p \<le> q \<longrightarrow>
       eligible_for_update b seed host (p\<lparr>pol_cohort_rolled_out_pct := q\<rparr>)) \<and>
    \<not> eligible_for_update b seed host (p\<lparr>pol_cohort_rolled_out_pct := 0\<rparr>) \<and>
    (100 \<le> pol_cohort_rolled_out_pct p \<and> pol_cohort_target_version p = Some v \<and> v \<noteq> [] \<and> hst_agent_version host = None \<longrightarrow>
       eligible_for_update b seed host p) \<and>
    (case rollout_run_once threshold window_s now events i ps of (ps', alerts) \<Rightarrow>
       ps' = map (after_breaker threshold (now - seconds window_s) events) ps \<and>
       length alerts = length (filter (\<lambda>p. 0 < pol_cohort_rolled_out_pct p \<and> failing threshold (now - seconds window_s) events p) ps) \<and>
       rollout_run_once threshold window_s now events j ps' = (ps', []))"
proof -
  let ?ab = "after_breaker threshold (now - seconds window_s) events"
  obtain ps' alerts where r: "rollout_run_once threshold window_s now events i ps = (ps', alerts)" by fastforce
  have once: "ps' = map ?ab ps"
    "length alerts = length (filter (\<lambda>p. 0 < pol_cohort_rolled_out_pct p \<and> failing threshold (now - seconds window_s) events p) ps)"
    using run_once_spec [OF assms, of window_s now events i ps] r by simp_all
  have idem: "\<not> (0 < pol_cohort_rolled_out_pct (?ab p) \<and> failing threshold (now - seconds window_s) events (?ab p))" for p
    by (auto simp: after_breaker_def failing_def)
  then have "filter (\<lambda>p. 0 < pol_cohort_rolled_out_pct p \<and> failing threshold (now - seconds window_s) events p) (map ?ab ps) = []"
    by (auto simp: filter_empty_conv)
  moreover have "map ?ab (map ?ab ps) = map ?ab ps" using idem by (auto simp: after_breaker_def [of _ _ _ "?ab _"])
  ultimately have "rollout_run_once threshold window_s now events j ps' = (ps', [])"
    using run_once_spec [OF assms, of window_s now events j ps'] once(1)
    by (cases "rollout_run_once threshold window_s now events j ps'") simp
  then show ?thesis using once r assign_cohort_range [of b "hst_id host" seed] by (auto simp: eligible_iff)
qed

definition demo_policy :: Policy where
  "demo_policy = \<lparr>pol_id = 8, pol_tenant_id = 4, pol_name = ''p'', pol_cohort_target_version = Some ''2.0'', pol_cohort_rolled_out_pct = 10\<rparr>"

definition demo_host :: "uuid \<Rightarrow> uuid \<Rightarrow> Host" where
  "demo_host i t = \<lparr>hst_id = i, hst_tenant_id = t, hst_status = ONLINE, hst_last_seen_at = Some 0, hst_policy_id = None, hst_agent_version = None\<rparr>"

theorem rollout_contract_witness:
  "\<not> eligible_for_update (\<lambda>_. []) [] (demo_host 1 4) (demo_policy\<lparr>pol_cohort_rolled_out_pct := 0\<rparr>)"
  using rollout_contract [of 3 "\<lambda>_. []" "demo_host 1 4" "[]" demo_policy] by simp

end
