(* ===== verification/Jobs.thy ===== *)
theory Jobs
  imports Rollout
begin

text \<open>
  The jobs engine: jobs, their runs and the commands that carry them to agents
  (backend/app/models/job.py and command.py), scope resolution, fan-out and roll-up
  (services/jobs.py), creation and cancellation (api/jobs.py), the agent's side of the stream
  (grpc/services.py) and the watchdog over dispatched commands (workers/dispatch_watchdog.py).
  The translation of a command into its protobuf message is a parameter here, given in the theory of the
  wire format; new ids are drawn from a counter.
\<close>

section \<open>Data\<close>

datatype JobKind =
    Job_KILL_PROCESS | Job_DELETE_FILE | Job_ISOLATE | Job_UNISOLATE | Job_BLOCK_PROCESS | Job_UNBLOCK_PROCESS
    | Job_BLOCK_FILE | Job_UNBLOCK_FILE | Job_QUARANTINE_FILE | Job_RELEASE_QUARANTINE | Job_FILE_ACQUIRE
    | Job_PROCESS_MEMORY_DUMP | Job_EVENT_LOG_ACQUIRE | Job_CRASH_DUMP_COLLECT | Job_TRIAGE_COLLECT
    | Job_PROCESS_SNAPSHOT | Job_NETWORK_SNAPSHOT | Job_INSTALLED_SOFTWARE | Job_PERSISTENCE_AUDIT
    | Job_SERVICE_AUDIT | Job_ACCOUNT_AUDIT | Job_DNS_HISTORY | Job_USB_HISTORY | Job_REGISTRY_QUERY
    | Job_BROWSER_HISTORY | Job_HOST_SWEEP | Job_YARA_FS_SCAN | Job_IOC_SWEEP | Job_HASH_FILES
    | Job_MEMORY_YARA_SCAN | Job_AGENT_DIAGNOSTIC | Job_SHELL_COMMAND | Job_SCAN_FILE | Job_SCAN_MEMORY
    | Job_UPDATE

fun job_kind_value :: "JobKind \<Rightarrow> string" where
  "job_kind_value Job_KILL_PROCESS = ''kill_process''"
| "job_kind_value Job_DELETE_FILE = ''delete_file''"
| "job_kind_value Job_ISOLATE = ''isolate''"
| "job_kind_value Job_UNISOLATE = ''unisolate''"
| "job_kind_value Job_BLOCK_PROCESS = ''block_process''"
| "job_kind_value Job_UNBLOCK_PROCESS = ''unblock_process''"
| "job_kind_value Job_BLOCK_FILE = ''block_file''"
| "job_kind_value Job_UNBLOCK_FILE = ''unblock_file''"
| "job_kind_value Job_QUARANTINE_FILE = ''quarantine_file''"
| "job_kind_value Job_RELEASE_QUARANTINE = ''release_quarantine''"
| "job_kind_value Job_FILE_ACQUIRE = ''file_acquire''"
| "job_kind_value Job_PROCESS_MEMORY_DUMP = ''process_memory_dump''"
| "job_kind_value Job_EVENT_LOG_ACQUIRE = ''event_log_acquire''"
| "job_kind_value Job_CRASH_DUMP_COLLECT = ''crash_dump_collect''"
| "job_kind_value Job_TRIAGE_COLLECT = ''triage_collect''"
| "job_kind_value Job_PROCESS_SNAPSHOT = ''process_snapshot''"
| "job_kind_value Job_NETWORK_SNAPSHOT = ''network_snapshot''"
| "job_kind_value Job_INSTALLED_SOFTWARE = ''installed_software''"
| "job_kind_value Job_PERSISTENCE_AUDIT = ''persistence_audit''"
| "job_kind_value Job_SERVICE_AUDIT = ''service_audit''"
| "job_kind_value Job_ACCOUNT_AUDIT = ''account_audit''"
| "job_kind_value Job_DNS_HISTORY = ''dns_history''"
| "job_kind_value Job_USB_HISTORY = ''usb_history''"
| "job_kind_value Job_REGISTRY_QUERY = ''registry_query''"
| "job_kind_value Job_BROWSER_HISTORY = ''browser_history''"
| "job_kind_value Job_HOST_SWEEP = ''host_sweep''"
| "job_kind_value Job_YARA_FS_SCAN = ''yara_fs_scan''"
| "job_kind_value Job_IOC_SWEEP = ''ioc_sweep''"
| "job_kind_value Job_HASH_FILES = ''hash_files''"
| "job_kind_value Job_MEMORY_YARA_SCAN = ''memory_yara_scan''"
| "job_kind_value Job_AGENT_DIAGNOSTIC = ''agent_diagnostic''"
| "job_kind_value Job_SHELL_COMMAND = ''shell_command''"
| "job_kind_value Job_SCAN_FILE = ''scan_file''"
| "job_kind_value Job_SCAN_MEMORY = ''scan_memory''"
| "job_kind_value Job_UPDATE = ''update''"

definition JOB_KIND_ADMIN_ONLY :: "JobKind list" where
  "JOB_KIND_ADMIN_ONLY =
    [Job_KILL_PROCESS, Job_DELETE_FILE, Job_ISOLATE, Job_UNISOLATE, Job_BLOCK_PROCESS, Job_UNBLOCK_PROCESS
     , Job_BLOCK_FILE, Job_UNBLOCK_FILE, Job_QUARANTINE_FILE, Job_RELEASE_QUARANTINE, Job_SHELL_COMMAND
     , Job_UPDATE, Job_TRIAGE_COLLECT]"

datatype JobScopeKind = HOST_IDS | HOST_GROUP | ALL_ONLINE

fun job_scope_kind_value :: "JobScopeKind \<Rightarrow> string" where
  "job_scope_kind_value HOST_IDS = ''host_ids''"
| "job_scope_kind_value HOST_GROUP = ''host_group''"
| "job_scope_kind_value ALL_ONLINE = ''all_online''"

datatype JobStatus = JOB_QUEUED | JOB_RUNNING | JOB_COMPLETED | JOB_FAILED | JOB_CANCELED

fun job_status_value :: "JobStatus \<Rightarrow> string" where
  "job_status_value JOB_QUEUED = ''queued''"
| "job_status_value JOB_RUNNING = ''running''"
| "job_status_value JOB_COMPLETED = ''completed''"
| "job_status_value JOB_FAILED = ''failed''"
| "job_status_value JOB_CANCELED = ''canceled''"

datatype JobRunStatus = RUN_QUEUED | RUN_DISPATCHED | RUN_RUNNING | RUN_COMPLETED | RUN_FAILED | RUN_CANCELED | RUN_TIMEOUT

definition run_terminal :: "JobRunStatus \<Rightarrow> bool" where
  "run_terminal s \<longleftrightarrow> s \<in> {RUN_COMPLETED, RUN_FAILED, RUN_CANCELED, RUN_TIMEOUT}"

datatype CommandKind =
    Cmd_KILL_PROCESS | Cmd_BLOCK_PROCESS | Cmd_BLOCK_FILE | Cmd_UNBLOCK_PROCESS | Cmd_UNBLOCK_FILE
    | Cmd_ISOLATE | Cmd_QUARANTINE_FILE | Cmd_RELEASE_QUARANTINE | Cmd_RUN_JOB | Cmd_ALLOWLIST_SYNC
    | Cmd_DNS_BLOCK_SYNC | Cmd_DEVICE_CONTROL_SYNC | Cmd_REQUEST_ATTESTATION | Cmd_DEPLOY_HONEYTOKEN

datatype CommandStatus = CMD_PENDING | CMD_DISPATCHED | CMD_SUCCEEDED | CMD_FAILED

record JobScope =
  sc_kind :: JobScopeKind
  sc_host_ids :: "uuid list option"
  sc_group_id :: "uuid option"

record Job =
  job_id :: uuid
  job_tenant_id :: uuid
  job_kind :: JobKind
  job_parameters :: pydict
  job_scope_kind :: JobScopeKind
  job_scope_host_ids :: "string list option"
  job_scope_group_id :: "uuid option"
  job_status :: JobStatus
  job_summary :: string
  job_created_by :: "uuid option"
  job_triggered_by_alert_id :: "uuid option"
  job_triggered_by :: string
  job_canceled_at :: "datetime option"

record JobRun =
  run_id :: uuid
  run_tenant_id :: uuid
  run_job_id :: uuid
  run_host_id :: uuid
  run_command_id :: "uuid option"
  run_status :: JobRunStatus
  run_completed_at :: "datetime option"
  run_error :: "string option"
  run_progress_pct :: int
  run_progress_message :: "string option"
  run_last_progress_at :: "datetime option"

record Command =
  cmd_id :: uuid
  cmd_tenant_id :: uuid
  cmd_host_id :: uuid
  cmd_kind :: CommandKind
  cmd_status :: CommandStatus
  cmd_payload :: pydict
  cmd_triggered_by_alert_id :: "uuid option"
  cmd_triggered_by_rule_id :: "uuid option"
  cmd_issued_by :: "uuid option"
  cmd_dispatched_at :: "datetime option"
  cmd_completed_at :: "datetime option"
  cmd_error :: "string option"

record job_db =
  j_hosts :: "Host list"
  j_policies :: "Policy list"
  j_host_in_group :: "(uuid \<times> uuid) list"
  j_user_host_group :: "(uuid \<times> uuid) list"
  j_jobs :: "Job list"
  j_runs :: "JobRun list"
  j_commands :: "Command list"
  j_next :: uuid

definition scope_view :: "job_db \<Rightarrow> scope_db" where
  "scope_view db = \<lparr>sc_hosts = map (\<lambda>h. (hst_id h, hst_tenant_id h)) (j_hosts db), sc_host_in_group = j_host_in_group db,
     sc_user_host_group = j_user_host_group db\<rparr>"

section \<open>Scope\<close>

text \<open>The validator of the request body.\<close>

definition check_scope :: "JobScope \<Rightarrow> bool" where
  "check_scope scope =
     (let ids = (case sc_host_ids scope of None \<Rightarrow> [] | Some ids \<Rightarrow> ids) in
      case sc_kind scope of
        HOST_IDS \<Rightarrow> ids \<noteq> [] \<and> sc_group_id scope = None
      | HOST_GROUP \<Rightarrow> sc_group_id scope \<noteq> None \<and> ids = []
      | ALL_ONLINE \<Rightarrow> ids = [] \<and> sc_group_id scope = None)"

definition ONLINE_WINDOW :: int where
  "ONLINE_WINDOW = seconds 300"

definition online_host :: "datetime \<Rightarrow> Host \<Rightarrow> bool" where
  "online_host cutoff h \<longleftrightarrow> hst_status h = ONLINE \<and> (case hst_last_seen_at h of None \<Rightarrow> False | Some t \<Rightarrow> cutoff \<le> t)"

definition scope_targets :: "job_db \<Rightarrow> datetime \<Rightarrow> JobScope \<Rightarrow> uuid list" where
  "scope_targets db now scope = (case sc_kind scope of
       HOST_IDS \<Rightarrow> (case sc_host_ids scope of None \<Rightarrow> [] | Some ids \<Rightarrow> ids)
     | HOST_GROUP \<Rightarrow> map fst (filter (\<lambda>(h, g). Some g = sc_group_id scope) (j_host_in_group db))
     | ALL_ONLINE \<Rightarrow> map hst_id (filter (online_host (now - ONLINE_WINDOW)) (j_hosts db)))"

text \<open>The order-preserving removal of duplicates keeps the first of each.\<close>

fun dedupe :: "'a list \<Rightarrow> 'a list \<Rightarrow> 'a list" where
  "dedupe seen [] = []"
| "dedupe seen (h # hs) = (if h \<in> set seen then dedupe seen hs else h # dedupe (h # seen) hs)"

definition resolve_scope :: "job_db \<Rightarrow> datetime \<Rightarrow> JobScope \<Rightarrow> uuid list option \<Rightarrow> uuid list" where
  "resolve_scope db now scope visible =
     (let target = scope_targets db now scope;
          target = (case visible of None \<Rightarrow> target | Some vs \<Rightarrow> filter (\<lambda>h. h \<in> set vs) target)
      in dedupe [] target)"

section \<open>Fan-out\<close>

definition filter_rollout_eligible :: "(bytes \<Rightarrow> bytes) \<Rightarrow> string \<Rightarrow> job_db \<Rightarrow> uuid list \<Rightarrow> uuid list" where
  "filter_rollout_eligible blake2b_8 seed db host_ids =
     filter (\<lambda>hid. case find (\<lambda>h. hst_id h = hid) (j_hosts db) of
         None \<Rightarrow> False
       | Some host \<Rightarrow> (case hst_policy_id host of
           None \<Rightarrow> False
         | Some pid \<Rightarrow> (case find (\<lambda>p. pol_id p = pid) (j_policies db) of
             None \<Rightarrow> False
           | Some policy \<Rightarrow> eligible_for_update blake2b_8 seed host policy))) host_ids"

definition new_run :: "Job \<Rightarrow> uuid \<Rightarrow> uuid \<Rightarrow> uuid \<Rightarrow> JobRun" where
  "new_run job i cmd hid =
     \<lparr>run_id = i, run_tenant_id = DEFAULT_TENANT_ID, run_job_id = job_id job, run_host_id = hid, run_command_id = Some cmd,
      run_status = RUN_QUEUED, run_completed_at = None, run_error = None, run_progress_pct = 0, run_progress_message = None,
      run_last_progress_at = None\<rparr>"

definition run_command :: "Job \<Rightarrow> uuid option \<Rightarrow> uuid \<Rightarrow> uuid \<Rightarrow> uuid \<Rightarrow> Command" where
  "run_command job issued_by i run hid =
     \<lparr>cmd_id = i, cmd_tenant_id = DEFAULT_TENANT_ID, cmd_host_id = hid, cmd_kind = Cmd_RUN_JOB, cmd_status = CMD_PENDING,
      cmd_payload = [(''job_id'', PStr (uuid_str (job_id job))), (''run_id'', PStr (uuid_str run)),
        (''job_kind'', PStr (job_kind_value (job_kind job))), (''parameters'', PDict (job_parameters job))],
      cmd_triggered_by_alert_id = None, cmd_triggered_by_rule_id = None, cmd_issued_by = issued_by, cmd_dispatched_at = None, cmd_completed_at = None, cmd_error = None\<rparr>"

fun fanout_loop :: "Job \<Rightarrow> uuid option \<Rightarrow> uuid \<Rightarrow> uuid list \<Rightarrow> (JobRun \<times> Command) list" where
  "fanout_loop job issued_by n [] = []"
| "fanout_loop job issued_by n (hid # hs) =
     (new_run job n (n + 1) hid, run_command job issued_by (n + 1) n hid) # fanout_loop job issued_by (n + 2) hs"

text \<open>
  The job must already be in the table; its status becomes running when anything was queued. A host
  that does not exist violates the foreign key of the run.
\<close>

definition fanout :: "(bytes \<Rightarrow> bytes) \<Rightarrow> string \<Rightarrow> job_db \<Rightarrow> Job \<Rightarrow> uuid list \<Rightarrow> uuid option \<Rightarrow> (job_db \<times> JobRun list) result" where
  "fanout blake2b_8 seed db job host_ids issued_by =
     (let host_ids = (if job_kind job = Job_UPDATE then filter_rollout_eligible blake2b_8 seed db host_ids else host_ids);
          rows = fanout_loop job issued_by (j_next db) host_ids;
          runs = map fst rows
      in if \<not> list_all (\<lambda>hid. hid \<in> set (map hst_id (j_hosts db))) host_ids then Inl RuntimeError
         else Inr (db\<lparr>j_runs := j_runs db @ runs, j_commands := j_commands db @ map snd rows, j_next := j_next db + 2 * length rows,
            j_jobs := (if runs \<noteq> [] then map (\<lambda>j. if job_id j = job_id job then j\<lparr>job_status := JOB_RUNNING\<rparr> else j) (j_jobs db)
                       else j_jobs db)\<rparr>, runs))"

section \<open>Roll-up\<close>

definition aggregate_runs :: "JobRunStatus list \<Rightarrow> JobStatus" where
  "aggregate_runs statuses =
     (let count = (\<lambda>s. length (filter (\<lambda>x. x = s) statuses)) in
      if statuses = [] then JOB_QUEUED
      else if list_ex (\<lambda>s. count s > 0) [RUN_QUEUED, RUN_DISPATCHED, RUN_RUNNING] then JOB_RUNNING
      else if count RUN_FAILED > 0 \<or> count RUN_TIMEOUT > 0 then JOB_FAILED
      else if count RUN_CANCELED > 0 \<and> count RUN_COMPLETED = 0 then JOB_CANCELED
      else JOB_COMPLETED)"

definition aggregate_status :: "job_db \<Rightarrow> uuid \<Rightarrow> JobStatus" where
  "aggregate_status db jid = aggregate_runs (map run_status (filter (\<lambda>r. run_job_id r = jid) (j_runs db)))"

definition update_run :: "uuid \<Rightarrow> (JobRun \<Rightarrow> JobRun) \<Rightarrow> job_db \<Rightarrow> job_db" where
  "update_run i f db = db\<lparr>j_runs := map (\<lambda>r. if run_id r = i then f r else r) (j_runs db)\<rparr>"

definition update_command :: "uuid \<Rightarrow> (Command \<Rightarrow> Command) \<Rightarrow> job_db \<Rightarrow> job_db" where
  "update_command i f db = db\<lparr>j_commands := map (\<lambda>c. if cmd_id c = i then f c else c) (j_commands db)\<rparr>"

definition roll_up :: "uuid \<Rightarrow> job_db \<Rightarrow> job_db" where
  "roll_up jid db =
     db\<lparr>j_jobs := map (\<lambda>j. if job_id j = jid then j\<lparr>job_status := aggregate_status db jid\<rparr> else j) (j_jobs db)\<rparr>"

section \<open>The API\<close>

record JobCreate =
  body_kind :: JobKind
  body_parameters :: pydict
  body_scope :: JobScope
  body_summary :: string

definition default_summary :: "JobKind \<Rightarrow> nat \<Rightarrow> string" where
  "default_summary kind n =
     job_kind_value kind @ '' '' @ [CHR 0xD7] @ '' '' @ show_nat n @ '' host'' @ (if n \<noteq> 1 then ''s'' else [])"

definition job_audit :: "Actor \<Rightarrow> string \<Rightarrow> uuid \<Rightarrow> pydict option \<Rightarrow> audit_request" where
  "job_audit actor action i payload =
     \<lparr>rq_actor = Some actor, rq_action = action, rq_resource_type = Some ''job'', rq_resource_id = Some (uuid_str i),
      rq_payload = payload, rq_ip = None, rq_tenant_id = None\<rparr>"

text \<open>The new row names no tenant, so the column default applies.\<close>

definition new_job :: "JobCreate \<Rightarrow> Actor \<Rightarrow> uuid \<Rightarrow> uuid list \<Rightarrow> Job" where
  "new_job body actor i target_hosts =
     \<lparr>job_id = i, job_tenant_id = DEFAULT_TENANT_ID, job_kind = body_kind body, job_parameters = body_parameters body,
      job_scope_kind = sc_kind (body_scope body),
      job_scope_host_ids = (case sc_host_ids (body_scope body) of
          Some (x # xs) \<Rightarrow> Some (map uuid_str target_hosts) | _ \<Rightarrow> None),
      job_scope_group_id = sc_group_id (body_scope body), job_status = JOB_QUEUED,
      job_summary = (if body_summary body \<noteq> [] then body_summary body else default_summary (body_kind body) (length target_hosts)),
      job_created_by = Some (u_id (actor_user actor)), job_triggered_by_alert_id = None, job_triggered_by = ''manual'', job_canceled_at = None\<rparr>"

definition create_job ::
  "(bytes \<Rightarrow> bytes) \<Rightarrow> string \<Rightarrow> datetime \<Rightarrow> job_db \<Rightarrow> Actor \<Rightarrow> JobCreate \<Rightarrow> (job_db \<times> JobRun list \<times> audit_request) result" where
  "create_job blake2b_8 seed now db actor body =
     bindE (RequireAnalyst actor) (\<lambda>actor.
       if body_kind body \<in> set JOB_KIND_ADMIN_ONLY \<and> \<not> has_role actor [ADMIN]
       then Inl (forbidden (''job kind '' @ job_kind_value (body_kind body) @ '' requires admin''))
       else (let target_hosts = resolve_scope db now (body_scope body) (visible_host_ids (scope_view db) actor) in
         if target_hosts = [] then Inl (bad_request ''scope did not resolve to any visible hosts'')
         else (let job = new_job body actor (j_next db) target_hosts;
                   db1 = db\<lparr>j_jobs := j_jobs db @ [job], j_next := j_next db + 1\<rparr>
               in bindE (fanout blake2b_8 seed db1 job target_hosts (Some (u_id (actor_user actor)))) (\<lambda>(db2, runs).
                  Inr (db2, runs, job_audit actor ''job.create'' (job_id job)
                    (Some [(''kind'', PStr (job_kind_value (body_kind body))),
                      (''scope_kind'', PStr (job_scope_kind_value (sc_kind (body_scope body)))),
                      (''host_count'', PInt (int (length runs)))]))))))"

definition cancel_run :: "datetime \<Rightarrow> job_db \<Rightarrow> JobRun \<Rightarrow> job_db" where
  "cancel_run now db run =
     (let db1 = update_run (run_id run) (\<lambda>r. r\<lparr>run_status := RUN_CANCELED, run_completed_at := Some now\<rparr>) db
      in case run_command_id run of
           None \<Rightarrow> db1
         | Some c \<Rightarrow> update_command c (\<lambda>cmd. if cmd_status cmd = CMD_PENDING
             then cmd\<lparr>cmd_status := CMD_FAILED, cmd_error := Some ''canceled by operator'', cmd_completed_at := Some now\<rparr>
             else cmd) db1)"

definition cancel_job :: "datetime \<Rightarrow> job_db \<Rightarrow> Actor \<Rightarrow> uuid \<Rightarrow> (job_db \<times> audit_request) result" where
  "cancel_job now db actor jid =
     bindE (RequireAnalyst actor) (\<lambda>actor.
       case find (\<lambda>j. job_id j = jid \<and> job_tenant_id j = actor_tenant_id actor) (j_jobs db) of
         None \<Rightarrow> Inl (not_found ''job'' jid)
       | Some job \<Rightarrow>
           (let runs = filter (\<lambda>r. run_job_id r = jid) (j_runs db) in
            if (case visible_host_ids (scope_view db) actor of
                  None \<Rightarrow> False | Some vs \<Rightarrow> \<not> list_ex (\<lambda>r. run_host_id r \<in> set vs) runs)
            then Inl (not_found ''job'' jid)
            else if job_status job \<in> {JOB_COMPLETED, JOB_FAILED, JOB_CANCELED}
            then Inl (bad_request (''job already '' @ job_status_value (job_status job)))
            else (let db1 = db\<lparr>j_jobs := map (\<lambda>j. if job_id j = jid
                        then j\<lparr>job_status := JOB_CANCELED, job_canceled_at := Some now\<rparr> else j) (j_jobs db)\<rparr>
                  in Inr (foldl (cancel_run now) db1 (filter (\<lambda>r. \<not> run_terminal (run_status r)) runs),
                          job_audit actor ''job.cancel'' jid None))))"

section \<open>The agent stream\<close>

text \<open>
  Pending commands of a host, oldest first (the table is in order of creation), sixteen at a time. Each
  row is marked and its message put on the stream's queue; the marks are committed after the loop, so an
  exception from the translation loses the marks of the whole batch but not the messages already queued.
\<close>

definition mark_command :: "datetime \<Rightarrow> 'pb option \<Rightarrow> Command \<Rightarrow> Command" where
  "mark_command now pb cmd = (case pb of
       None \<Rightarrow> cmd\<lparr>cmd_status := CMD_FAILED, cmd_error := Some ''unsupported command kind'', cmd_completed_at := Some now\<rparr>
     | Some _ \<Rightarrow> cmd\<lparr>cmd_status := CMD_DISPATCHED, cmd_dispatched_at := Some now\<rparr>)"

fun drain_loop ::
  "(Command \<Rightarrow> 'pb option result) \<Rightarrow> datetime \<Rightarrow> Command list \<Rightarrow> job_db \<Rightarrow> job_db result \<times> 'pb list" where
  "drain_loop command_to_pb now [] db = (Inr db, [])"
| "drain_loop command_to_pb now (c # cs) db = (case command_to_pb c of
       Inl e \<Rightarrow> (Inl e, [])
     | Inr pb \<Rightarrow> (case drain_loop command_to_pb now cs (update_command (cmd_id c) (mark_command now pb) db) of
         (r, out) \<Rightarrow> (r, (case pb of None \<Rightarrow> out | Some m \<Rightarrow> m # out))))"

definition pending_commands :: "uuid \<Rightarrow> job_db \<Rightarrow> Command list" where
  "pending_commands host db = filter (\<lambda>c. cmd_host_id c = host \<and> cmd_status c = CMD_PENDING) (j_commands db)"

definition drain_pending :: "(Command \<Rightarrow> 'pb option result) \<Rightarrow> datetime \<Rightarrow> uuid \<Rightarrow> job_db \<Rightarrow> job_db \<times> 'pb list" where
  "drain_pending command_to_pb now host db =
     (case drain_loop command_to_pb now (take 16 (pending_commands host db)) db of
        (Inr db', out) \<Rightarrow> (db', out)
      | (Inl e, out) \<Rightarrow> (db, out))"

definition finish_command :: "bool \<Rightarrow> string \<Rightarrow> datetime \<Rightarrow> Command \<Rightarrow> Command" where
  "finish_command success err now cmd =
     cmd\<lparr>cmd_status := (if success then CMD_SUCCEEDED else CMD_FAILED), cmd_completed_at := Some now,
         cmd_error := (if err \<noteq> [] then Some (take 512 err) else cmd_error cmd)\<rparr>"

definition finish_run :: "bool \<Rightarrow> string \<Rightarrow> datetime \<Rightarrow> JobRun \<Rightarrow> JobRun" where
  "finish_run success err now run =
     run\<lparr>run_status := (if success then RUN_COMPLETED else RUN_FAILED), run_completed_at := Some now,
         run_error := (if err \<noteq> [] then Some (take 1024 err) else run_error run)\<rparr>"

text \<open>The handler of a \<open>command_result\<close> message on the stream of \<open>host\<close>. A malformed id changes nothing.\<close>

definition command_result :: "datetime \<Rightarrow> uuid \<Rightarrow> string \<Rightarrow> bool \<Rightarrow> string \<Rightarrow> job_db \<Rightarrow> job_db" where
  "command_result now host command_id success err db =
     (case uuid_of_str command_id of
        None \<Rightarrow> db
      | Some c \<Rightarrow> (case find (\<lambda>x. cmd_id x = c) (j_commands db) of
          None \<Rightarrow> db
        | Some cmd \<Rightarrow>
            (let db1 = update_command c (finish_command success err now) db in
             if cmd_kind cmd \<noteq> Cmd_RUN_JOB then db1
             else (case filter (\<lambda>r. run_command_id r = Some c) (j_runs db) of
                 [run] \<Rightarrow> roll_up (run_job_id run) (update_run (run_id run) (finish_run success err now) db1)
               | [] \<Rightarrow> db1
               | _ \<Rightarrow> db))))"

text \<open>The status field of a progress message; \<open>None\<close> keeps the current one.\<close>

definition progress_run :: "JobRunStatus option \<Rightarrow> int \<Rightarrow> string \<Rightarrow> string \<Rightarrow> datetime \<Rightarrow> JobRun \<Rightarrow> JobRun" where
  "progress_run wire pct msg err now run =
     (let run1 = (case wire of
            None \<Rightarrow> run
          | Some s \<Rightarrow> (if run_terminal s then run\<lparr>run_status := s, run_completed_at := Some now\<rparr> else run\<lparr>run_status := s\<rparr>))
      in run1\<lparr>run_progress_pct := max 0 (min 100 pct),
              run_progress_message := (if msg \<noteq> [] then Some (take 256 msg) else run_progress_message run1),
              run_error := (if err \<noteq> [] then Some (take 1024 err) else run_error run1),
              run_last_progress_at := Some now\<rparr>)"

definition handle_job_progress ::
  "datetime \<Rightarrow> uuid \<Rightarrow> string \<Rightarrow> JobRunStatus option \<Rightarrow> int \<Rightarrow> string \<Rightarrow> string \<Rightarrow> job_db \<Rightarrow> job_db" where
  "handle_job_progress now host run_uuid wire pct msg err db =
     (case uuid_of_str run_uuid of
        None \<Rightarrow> db
      | Some i \<Rightarrow> (case find (\<lambda>r. run_id r = i) (j_runs db) of
          None \<Rightarrow> db
        | Some run \<Rightarrow>
            (if run_host_id run \<noteq> host then db
             else (let run' = progress_run wire pct msg err now run;
                       db1 = update_run i (\<lambda>_. run') db
                   in if run_terminal (run_status run') then roll_up (run_job_id run) db1 else db1))))"

section \<open>The watchdog\<close>

definition watchdog_interval_seconds :: "string option \<Rightarrow> int" where
  "watchdog_interval_seconds = env_floor 10 60"

definition watchdog_timeout_seconds :: "string option \<Rightarrow> int" where
  "watchdog_timeout_seconds env = (case int_of_str (case env of None \<Rightarrow> ''600'' | Some raw \<Rightarrow> raw) of
       Inr v \<Rightarrow> max 60 (min 86400 v) | Inl _ \<Rightarrow> 600)"

definition overdue :: "datetime \<Rightarrow> Command \<Rightarrow> bool" where
  "overdue cutoff c \<longleftrightarrow> cmd_status c = CMD_DISPATCHED \<and> (case cmd_dispatched_at c of None \<Rightarrow> False | Some t \<Rightarrow> t < cutoff)"

definition expire_command :: "datetime \<Rightarrow> Command \<Rightarrow> Command" where
  "expire_command now c =
     c\<lparr>cmd_status := CMD_FAILED, cmd_completed_at := Some now,
       cmd_error := Some (''dispatch watchdog: no result before '' @ isoformat now)\<rparr>"

definition watchdog_run_once :: "int \<Rightarrow> datetime \<Rightarrow> job_db \<Rightarrow> job_db \<times> nat" where
  "watchdog_run_once timeout_s now db =
     (let cutoff = now - seconds timeout_s;
          rows = filter (overdue cutoff) (j_commands db);
          ids = map cmd_id rows
      in (db\<lparr>j_commands := map (\<lambda>c. if cmd_id c \<in> set ids \<and> cmd_status c = CMD_DISPATCHED
            then expire_command now c else c) (j_commands db)\<rparr>, length rows))"

section \<open>Artifacts\<close>

text \<open>\<open>s.replace(old, new)\<close>: non-overlapping, from the left.\<close>

fun replace_char :: "char \<Rightarrow> char \<Rightarrow> string \<Rightarrow> string" where
  "replace_char old new s = map (\<lambda>c. if c = old then new else c) s"

fun replace_dotdot :: "string \<Rightarrow> string" where
  "replace_dotdot (a # b # s) = (if a = CHR ''.'' \<and> b = CHR ''.'' then CHR ''_'' # replace_dotdot s else a # replace_dotdot (b # s))"
| "replace_dotdot s = s"

definition safe_name :: "string \<Rightarrow> string" where
  "safe_name original =
     (let safe = replace_dotdot (replace_char bslash CHR ''_'' (replace_char CHR ''/'' CHR ''_'' original))
      in if safe = [] then ''artifact.bin'' else safe)"

definition artifact_object_key :: "datetime \<Rightarrow> uuid \<Rightarrow> string \<Rightarrow> string" where
  "artifact_object_key now run original =
     (let (y, m, d) = civil_of_days (now div (86400 * 1000000))
      in ''runs/'' @ pad_int 4 y @ ''/'' @ pad_int 2 m @ ''/'' @ uuid_str run @ ''/'' @ safe_name original)"

definition artifact_bucket_for :: "string \<Rightarrow> string \<Rightarrow> JobKind \<Rightarrow> string" where
  "artifact_bucket_for snapshots artifacts kind = (if kind = Job_HOST_SWEEP then snapshots else artifacts)"

end
