(* ===== verification/Jobs_Correct.thy ===== *)
theory Jobs_Correct
  imports Jobs
begin

text \<open>
  Correctness of the jobs engine: what a job fans out to, the referential integrity that every
  operation keeps, and how the roll-up, the watchdog and the agent's results interact.
\<close>

section \<open>Scope and fan-out\<close>

lemma dedupe_spec [simp]: "distinct (dedupe seen hs)" "set (dedupe seen hs) = set hs - set seen"
  by (induction hs arbitrary: seen) auto

lemma resolve_scope_spec:
  "distinct (resolve_scope db now scope visible)"
  "set (resolve_scope db now scope visible) = {h \<in> set (scope_targets db now scope). case visible of None \<Rightarrow> True | Some vs \<Rightarrow> h \<in> set vs}"
  by (auto simp: resolve_scope_def Let_def split: option.splits)

lemma fanout_loop_hosts: "map (run_host_id \<circ> fst) (fanout_loop job u n hs) = hs" "length (fanout_loop job u n hs) = length hs"
  by (induction hs arbitrary: n) (simp_all add: new_run_def)

text \<open>A run and the command that carries it.\<close>

definition bridged :: "Job \<Rightarrow> JobRun \<Rightarrow> Command \<Rightarrow> bool" where
  "bridged job run cmd \<longleftrightarrow> run_job_id run = job_id job \<and> run_command_id run = Some (cmd_id cmd) \<and> cmd_host_id cmd = run_host_id run \<and>
     cmd_kind cmd = Cmd_RUN_JOB \<and> cmd_status cmd = CMD_PENDING \<and> run_status run = RUN_QUEUED"

lemma fanout_loop_bridged: "(run, cmd) \<in> set (fanout_loop job u n hs) \<Longrightarrow> bridged job run cmd"
  by (induction hs arbitrary: n) (auto simp: bridged_def new_run_def run_command_def)

lemma fanout_loop_progress: "(run, cmd) \<in> set (fanout_loop job u n hs) \<Longrightarrow> run_progress_pct run = 0"
  by (induction hs arbitrary: n) (auto simp: new_run_def)

lemma fanout_loop_ids:
  "run_id ` fst ` set (fanout_loop job u n hs) \<subseteq> {n..<n + 2 * length hs}"
  "cmd_id ` snd ` set (fanout_loop job u n hs) \<subseteq> {n..<n + 2 * length hs}"
  "distinct (map (run_id \<circ> fst) (fanout_loop job u n hs))" "distinct (map (cmd_id \<circ> snd) (fanout_loop job u n hs))"
proof (induction hs arbitrary: n)
  case (Cons h hs)
  {
    case 1 show ?case using Cons.IH(1) [of "n + 2"] by (force simp: new_run_def)
  next
    case 2 show ?case using Cons.IH(2) [of "n + 2"] by (force simp: run_command_def)
  next
    case 3 show ?case using Cons.IH(1) [of "n + 2"] Cons.IH(3) [of "n + 2"] by (force simp: new_run_def)
  next
    case 4 show ?case using Cons.IH(2) [of "n + 2"] Cons.IH(4) [of "n + 2"] by (force simp: run_command_def)
  }
qed simp_all

definition fanout_hosts :: "(bytes \<Rightarrow> bytes) \<Rightarrow> string \<Rightarrow> job_db \<Rightarrow> JobKind \<Rightarrow> uuid list \<Rightarrow> uuid list" where
  "fanout_hosts b seed db kind hs = (if kind = Job_UPDATE then filter_rollout_eligible b seed db hs else hs)"

lemma fanout_Inr:
  assumes "fanout b seed db job hs u = Inr (db', runs)"
  shows "\<exists>rows. rows = fanout_loop job u (j_next db) (fanout_hosts b seed db (job_kind job) hs) \<and> runs = map fst rows \<and>
    set (fanout_hosts b seed db (job_kind job) hs) \<subseteq> hst_id ` set (j_hosts db) \<and>
    j_runs db' = j_runs db @ runs \<and> j_commands db' = j_commands db @ map snd rows \<and> j_next db' = j_next db + 2 * length rows \<and>
    map job_id (j_jobs db') = map job_id (j_jobs db) \<and> map job_tenant_id (j_jobs db') = map job_tenant_id (j_jobs db) \<and>
    j_hosts db' = j_hosts db \<and> j_policies db' = j_policies db \<and> scope_view db' = scope_view db"
  using assms by (auto simp: fanout_def Let_def fanout_hosts_def list_all_iff scope_view_def split: if_splits)

lemma create_job_Inr:
  assumes "create_job b seed now db actor body = Inr (db', runs, rq)"
  obtains hs job where "hs = resolve_scope db now (body_scope body) (visible_host_ids (scope_view db) actor)" "hs \<noteq> []"
    "job = new_job body actor (j_next db) hs"
    "fanout b seed (db\<lparr>j_jobs := j_jobs db @ [job], j_next := j_next db + 1\<rparr>) job hs (Some (u_id (actor_user actor))) = Inr (db', runs)"
    "body_kind body \<in> set JOB_KIND_ADMIN_ONLY \<longrightarrow> u_role (actor_user actor) = ADMIN"
proof -
  have ra: "RequireAnalyst actor = Inr actor"
    using assms by (cases "RequireAnalyst actor") (auto simp: create_job_def RequireAnalyst_def require_role_def split: if_splits)
  have guard: "\<not> (body_kind body \<in> set JOB_KIND_ADMIN_ONLY \<and> \<not> has_role actor [ADMIN])"
    using assms ra by (auto simp: create_job_def split: if_splits)
  let ?hs = "resolve_scope db now (body_scope body) (visible_host_ids (scope_view db) actor)"
  have ne: "?hs \<noteq> []" using assms ra guard by (auto simp: create_job_def Let_def split: if_splits)
  have "fanout b seed (db\<lparr>j_jobs := j_jobs db @ [new_job body actor (j_next db) ?hs], j_next := j_next db + 1\<rparr>)
      (new_job body actor (j_next db) ?hs) ?hs (Some (u_id (actor_user actor))) = Inr (db', runs)"
    using assms ra guard ne by (auto simp: create_job_def Let_def bindE_eq_Inr)
  then show thesis by (rule that [OF refl ne refl]) (use guard in \<open>auto simp: has_role_def\<close>)
qed

section \<open>Referential integrity\<close>

definition wf_jobs :: "job_db \<Rightarrow> bool" where
  "wf_jobs db \<longleftrightarrow>
     distinct (map job_id (j_jobs db)) \<and> distinct (map run_id (j_runs db)) \<and> distinct (map cmd_id (j_commands db)) \<and>
     (\<forall>j \<in> set (j_jobs db). job_id j < j_next db) \<and> (\<forall>r \<in> set (j_runs db). run_id r < j_next db) \<and>
     (\<forall>c \<in> set (j_commands db). cmd_id c < j_next db) \<and>
     (\<forall>r \<in> set (j_runs db). run_job_id r \<in> job_id ` set (j_jobs db) \<and> run_host_id r \<in> hst_id ` set (j_hosts db) \<and>
        0 \<le> run_progress_pct r \<and> run_progress_pct r \<le> 100 \<and>
        (\<exists>c \<in> set (j_commands db). run_command_id r = Some (cmd_id c) \<and> cmd_host_id c = run_host_id r \<and> cmd_kind c = Cmd_RUN_JOB))"

text \<open>The fields of runs and commands that no operation rewrites.\<close>

definition run_key :: "JobRun \<Rightarrow> uuid \<times> uuid \<times> uuid \<times> uuid option" where
  "run_key r = (run_id r, run_job_id r, run_host_id r, run_command_id r)"

definition cmd_key :: "Command \<Rightarrow> uuid \<times> uuid \<times> CommandKind" where
  "cmd_key c = (cmd_id c, cmd_host_id c, cmd_kind c)"

definition same_keys :: "job_db \<Rightarrow> job_db \<Rightarrow> bool" where
  "same_keys db db' \<longleftrightarrow> map job_id (j_jobs db') = map job_id (j_jobs db) \<and> map run_key (j_runs db') = map run_key (j_runs db) \<and>
     map cmd_key (j_commands db') = map cmd_key (j_commands db) \<and> j_hosts db' = j_hosts db \<and> j_next db' = j_next db \<and>
     (\<forall>r \<in> set (j_runs db'). (0 \<le> run_progress_pct r \<and> run_progress_pct r \<le> 100) \<or>
        (\<exists>r0 \<in> set (j_runs db). run_progress_pct r = run_progress_pct r0))"

lemma same_keys_wf:
  assumes "wf_jobs db" "same_keys db db'"
  shows "wf_jobs db'"
proof -
  have jobs: "map job_id (j_jobs db') = map job_id (j_jobs db)" and runs: "map run_key (j_runs db') = map run_key (j_runs db)"
    and cmds: "map cmd_key (j_commands db') = map cmd_key (j_commands db)" and rest: "j_hosts db' = j_hosts db" "j_next db' = j_next db"
    using assms(2) by (simp_all add: same_keys_def)
  have rid: "map run_id (j_runs db') = map run_id (j_runs db)" using arg_cong [OF runs, of "map fst"] by (simp add: run_key_def comp_def)
  have cid: "map cmd_id (j_commands db') = map cmd_id (j_commands db)" using arg_cong [OF cmds, of "map fst"] by (simp add: cmd_key_def comp_def)
  have rk: "run_key ` set (j_runs db') = run_key ` set (j_runs db)" using arg_cong [OF runs, of set] by simp
  have ck: "cmd_key ` set (j_commands db') = cmd_key ` set (j_commands db)" using arg_cong [OF cmds, of set] by simp
  have jk: "job_id ` set (j_jobs db') = job_id ` set (j_jobs db)" using arg_cong [OF jobs, of set] by simp
  have pct: "0 \<le> run_progress_pct r \<and> run_progress_pct r \<le> 100" if "r \<in> set (j_runs db')" for r
    using assms that by (fastforce simp: same_keys_def wf_jobs_def)
  have ref: "run_job_id r \<in> job_id ` set (j_jobs db') \<and> run_host_id r \<in> hst_id ` set (j_hosts db') \<and>
      (\<exists>c \<in> set (j_commands db'). run_command_id r = Some (cmd_id c) \<and> cmd_host_id c = run_host_id r \<and> cmd_kind c = Cmd_RUN_JOB)"
    if "r \<in> set (j_runs db')" for r
  proof -
    obtain r0 where r0: "r0 \<in> set (j_runs db)" "run_key r = run_key r0" using rk \<open>r \<in> _\<close> by blast
    then obtain c0 where c0: "c0 \<in> set (j_commands db)" "run_command_id r0 = Some (cmd_id c0)" "cmd_host_id c0 = run_host_id r0"
      "cmd_kind c0 = Cmd_RUN_JOB" using assms(1) by (auto simp: wf_jobs_def)
    then obtain c where c: "c \<in> set (j_commands db')" "cmd_key c = cmd_key c0" using ck by (metis image_iff)
    have "run_job_id r0 \<in> job_id ` set (j_jobs db) \<and> run_host_id r0 \<in> hst_id ` set (j_hosts db)" using r0(1) assms(1) by (simp add: wf_jobs_def)
    moreover have "\<exists>c \<in> set (j_commands db'). run_command_id r = Some (cmd_id c) \<and> cmd_host_id c = run_host_id r \<and> cmd_kind c = Cmd_RUN_JOB"
      by (rule bexI [OF _ c(1)]) (use r0(2) c(2) c0 in \<open>simp add: run_key_def cmd_key_def\<close>)
    ultimately show ?thesis using r0(2) jk rest by (simp add: run_key_def)
  qed
  have lt: "\<forall>j \<in> set (j_jobs db'). job_id j < j_next db'" "\<forall>r \<in> set (j_runs db'). run_id r < j_next db'"
    "\<forall>c \<in> set (j_commands db'). cmd_id c < j_next db'"
  proof -
    have "set (map job_id (j_jobs db')) \<subseteq> {..<j_next db}" "set (map run_id (j_runs db')) \<subseteq> {..<j_next db}"
      "set (map cmd_id (j_commands db')) \<subseteq> {..<j_next db}"
      using assms(1) unfolding jobs rid cid by (auto simp: wf_jobs_def)
    then show "\<forall>j \<in> set (j_jobs db'). job_id j < j_next db'" "\<forall>r \<in> set (j_runs db'). run_id r < j_next db'"
      "\<forall>c \<in> set (j_commands db'). cmd_id c < j_next db'" using rest(2) by auto
  qed
  then show ?thesis using assms(1) ref pct unfolding wf_jobs_def jobs rid cid by simp
qed

lemma same_keys_refl: "same_keys db db"
  by (auto simp: same_keys_def)

lemma same_keys_trans: "same_keys a b \<Longrightarrow> same_keys b c \<Longrightarrow> same_keys a c"
  unfolding same_keys_def by (metis (no_types, lifting))

lemma same_keys_update_run:
  assumes "\<And>r. run_key (f r) = run_key r" "\<And>r. run_progress_pct (f r) = run_progress_pct r \<or> (0 \<le> run_progress_pct (f r) \<and> run_progress_pct (f r) \<le> 100)"
  shows "same_keys db (update_run i f db)"
  unfolding same_keys_def update_run_def using assms by (auto simp: comp_def intro!: map_cong)

lemma same_keys_update_command: "(\<And>c. cmd_key (f c) = cmd_key c) \<Longrightarrow> same_keys db (update_command i f db)"
  unfolding same_keys_def update_command_def by (auto intro!: map_cong)

lemma same_keys_roll_up: "same_keys db (roll_up jid db)"
  unfolding same_keys_def roll_up_def by (auto intro!: map_cong)


lemma same_keys_foldl: "(\<And>db x. same_keys db (f db x)) \<Longrightarrow> same_keys db (foldl f db xs)"
  by (induction xs arbitrary: db) (auto intro: same_keys_refl same_keys_trans)

lemma same_keys_cancel_run: "same_keys db (cancel_run now db run)"
proof -
  have u: "same_keys db (update_run (run_id run) (\<lambda>r. r\<lparr>run_status := RUN_CANCELED, run_completed_at := Some now\<rparr>) db)"
    by (rule same_keys_update_run) (simp_all add: run_key_def)
  show ?thesis
  proof (cases "run_command_id run")
    case (Some c)
    have "same_keys db' (update_command c (\<lambda>cmd. if cmd_status cmd = CMD_PENDING
        then cmd\<lparr>cmd_status := CMD_FAILED, cmd_error := Some ''canceled by operator'', cmd_completed_at := Some now\<rparr> else cmd) db')" for db'
      by (rule same_keys_update_command) (simp add: cmd_key_def)
    with u Some show ?thesis by (auto simp: cancel_run_def Let_def intro: same_keys_trans)
  qed (use u in \<open>simp add: cancel_run_def Let_def\<close>)
qed

lemma cancel_job_keys: "cancel_job now db actor jid = Inr (db', rq) \<Longrightarrow> same_keys db db'"
proof -
  assume "cancel_job now db actor jid = Inr (db', rq)"
  then obtain runs where db': "db' = foldl (cancel_run now) (db\<lparr>j_jobs := map (\<lambda>j. if job_id j = jid
        then j\<lparr>job_status := JOB_CANCELED, job_canceled_at := Some now\<rparr> else j) (j_jobs db)\<rparr>) runs"
    by (auto simp: cancel_job_def bindE_eq_Inr Let_def split: option.splits if_splits)
  have "same_keys db (db\<lparr>j_jobs := map (\<lambda>j. if job_id j = jid
        then j\<lparr>job_status := JOB_CANCELED, job_canceled_at := Some now\<rparr> else j) (j_jobs db)\<rparr>)"
    unfolding same_keys_def by (auto intro!: map_cong)
  then show ?thesis unfolding db' by (rule same_keys_trans) (rule same_keys_foldl, rule same_keys_cancel_run)
qed

lemma mark_command_key: "cmd_key (mark_command now pb c) = cmd_key c"
  by (simp add: mark_command_def cmd_key_def split: option.split)

lemma drain_loop_keys: "drain_loop pb now cs db = (Inr db', out) \<Longrightarrow> same_keys db db'"
proof (induction cs arbitrary: db out)
  case (Cons c cs)
  from Cons.prems obtain m where m: "pb c = Inr m" by (cases "pb c") simp_all
  obtain r out' where rec: "drain_loop pb now cs (update_command (cmd_id c) (mark_command now m) db) = (r, out')"
    by (meson surj_pair)
  with Cons.prems m have "r = Inr db'" by simp
  with rec have "same_keys (update_command (cmd_id c) (mark_command now m) db) db'" by (simp add: Cons.IH)
  then show ?case by (rule same_keys_trans [OF same_keys_update_command, rotated]) (rule mark_command_key)
qed (simp add: same_keys_refl)

lemma drain_keys: "same_keys db (fst (drain_pending pb now host db))"
  by (auto simp: drain_pending_def same_keys_refl dest: drain_loop_keys split: prod.split sum.split)

lemma command_result_keys: "same_keys db (command_result now host c success err db)"
proof -
  have a: "same_keys db (update_command i (finish_command success err now) db)" for i db
    by (rule same_keys_update_command) (simp add: cmd_key_def finish_command_def)
  have b: "same_keys db (update_run i (finish_run success err now) db)" for i db
    by (rule same_keys_update_run) (simp_all add: run_key_def finish_run_def)
  show ?thesis unfolding command_result_def Let_def
    by (auto intro: same_keys_refl a same_keys_trans [OF a same_keys_trans [OF b same_keys_roll_up]] split: option.split list.split)
qed

lemma find_run_id: "find (\<lambda>r. run_id r = i) rs = Some run \<Longrightarrow> run_id run = i"
  by (auto simp: find_Some_iff)

lemma progress_keys:
  assumes "distinct (map run_id (j_runs db))"
  shows "same_keys db (handle_job_progress now host i wire pct msg err db)"
proof -
  have "same_keys db (update_run j (\<lambda>_. progress_run wire pct msg err now run) db)" if "find (\<lambda>r. run_id r = j) (j_runs db) = Some run" for j run
  proof -
    have run: "run \<in> set (j_runs db)" "run_id run = j" using find_SomeD [OF that] by auto
    have k: "run_key (progress_run wire pct msg err now run) = run_key run"
      by (auto simp: progress_run_def run_key_def Let_def split: option.split)
    have "(if run_id r = j then progress_run wire pct msg err now run else r) = r \<or> r = run \<and> run_id r = j"
      if "r \<in> set (j_runs db)" for r
      using distinct_map [of run_id "j_runs db"] assms run that by (auto simp: inj_on_def)
    then have "map run_key (map (\<lambda>r. if run_id r = j then progress_run wire pct msg err now run else r) (j_runs db)) = map run_key (j_runs db)"
      using k by (auto simp: comp_def intro!: map_cong) metis
    moreover have "0 \<le> run_progress_pct (progress_run wire pct msg err now run) \<and> run_progress_pct (progress_run wire pct msg err now run) \<le> 100"
      by (simp add: progress_run_def Let_def)
    ultimately show ?thesis unfolding same_keys_def update_run_def by auto
  qed
  then show ?thesis unfolding handle_job_progress_def Let_def
    by (auto intro: same_keys_refl same_keys_trans [OF _ same_keys_roll_up] split: option.split)
qed

lemma watchdog_keys: "same_keys db (fst (watchdog_run_once timeout_s now db))"
  unfolding same_keys_def watchdog_run_once_def Let_def by (auto simp: cmd_key_def expire_command_def intro!: map_cong)

lemma create_job_wf:
  assumes wf: "wf_jobs db" and c: "create_job b seed now db actor body = Inr (db', runs, rq)"
  shows "wf_jobs db'"
proof -
  obtain hs job where h: "job = new_job body actor (j_next db) hs"
    "fanout b seed (db\<lparr>j_jobs := j_jobs db @ [job], j_next := j_next db + 1\<rparr>) job hs (Some (u_id (actor_user actor))) = Inr (db', runs)"
    by (rule create_job_Inr [OF c])
  let ?db1 = "db\<lparr>j_jobs := j_jobs db @ [job], j_next := j_next db + 1\<rparr>"
  let ?rows = "fanout_loop job (Some (u_id (actor_user actor))) (j_next db + 1) (fanout_hosts b seed ?db1 (job_kind job) hs)"
  have f: "runs = map fst ?rows" "set (fanout_hosts b seed ?db1 (job_kind job) hs) \<subseteq> hst_id ` set (j_hosts db)"
    "j_runs db' = j_runs db @ map fst ?rows" "j_commands db' = j_commands db @ map snd ?rows"
    "j_next db' = j_next db + 1 + 2 * length ?rows" "map job_id (j_jobs db') = map job_id (j_jobs db) @ [job_id job]"
    "j_hosts db' = j_hosts db"
    using fanout_Inr [OF h(2)] by auto
  have jid: "job_id job = j_next db" using h(1) by (simp add: new_job_def)
  note ids = fanout_loop_ids [of job "Some (u_id (actor_user actor))" "j_next db + 1" "fanout_hosts b seed ?db1 (job_kind job) hs"]
  have len: "length (fanout_hosts b seed ?db1 (job_kind job) hs) = length ?rows" by (simp add: fanout_loop_hosts)
  have jobs: "distinct (map job_id (j_jobs db'))" "\<forall>j \<in> set (j_jobs db'). job_id j < j_next db'"
    "job_id ` set (j_jobs db') = insert (j_next db) (job_id ` set (j_jobs db))"
  proof -
    have js: "set (map job_id (j_jobs db')) = insert (j_next db) (job_id ` set (j_jobs db))" unfolding f(6) jid by simp
    then show "job_id ` set (j_jobs db') = insert (j_next db) (job_id ` set (j_jobs db))" by simp
    show "distinct (map job_id (j_jobs db'))" unfolding f(6) jid using wf by (auto simp: wf_jobs_def)
    have "job_id j < j_next db'" if "j \<in> set (j_jobs db')" for j
    proof -
      have "job_id j \<in> insert (j_next db) (job_id ` set (j_jobs db))" using js that by auto
      then show ?thesis using wf f(5) by (auto simp: wf_jobs_def)
    qed
    then show "\<forall>j \<in> set (j_jobs db'). job_id j < j_next db'" by blast
  qed
  have runs: "distinct (map run_id (j_runs db'))" "\<forall>r \<in> set (j_runs db'). run_id r < j_next db'"
    using wf ids(1,3) f(5) len unfolding f(3) wf_jobs_def by (fastforce simp: comp_def)+
  have cmds: "distinct (map cmd_id (j_commands db'))" "\<forall>c \<in> set (j_commands db'). cmd_id c < j_next db'"
    using wf ids(2,4) f(5) len unfolding f(4) wf_jobs_def by (fastforce simp: comp_def)+
  have old: "run_job_id r \<in> job_id ` set (j_jobs db') \<and> run_host_id r \<in> hst_id ` set (j_hosts db') \<and>
        0 \<le> run_progress_pct r \<and> run_progress_pct r \<le> 100 \<and>
        (\<exists>c \<in> set (j_commands db'). run_command_id r = Some (cmd_id c) \<and> cmd_host_id c = run_host_id r \<and> cmd_kind c = Cmd_RUN_JOB)"
    if "r \<in> set (j_runs db)" for r
    using wf that unfolding wf_jobs_def jobs(3) f(4,7) by auto
  have new: "run_job_id r \<in> job_id ` set (j_jobs db') \<and> run_host_id r \<in> hst_id ` set (j_hosts db') \<and>
        0 \<le> run_progress_pct r \<and> run_progress_pct r \<le> 100 \<and>
        (\<exists>c \<in> set (j_commands db'). run_command_id r = Some (cmd_id c) \<and> cmd_host_id c = run_host_id r \<and> cmd_kind c = Cmd_RUN_JOB)"
    if rin: "r \<in> set (map fst ?rows)" for r
  proof -
    obtain cmd where rc: "(r, cmd) \<in> set ?rows" using rin by auto
    have br: "bridged job r cmd" by (rule fanout_loop_bridged [OF rc])
    have "run_host_id r \<in> set (map (run_host_id \<circ> fst) ?rows)" using rc by force
    then have "run_host_id r \<in> hst_id ` set (j_hosts db')" using f(2,7) by (auto simp only: fanout_loop_hosts)
    moreover have "run_progress_pct r = 0" by (rule fanout_loop_progress [OF rc])
    moreover have "cmd \<in> set (j_commands db')" using rc unfolding f(4) by force
    ultimately show ?thesis using br jid unfolding jobs(3) by (auto simp: bridged_def)
  qed
  from old new have "\<forall>r \<in> set (j_runs db'). run_job_id r \<in> job_id ` set (j_jobs db') \<and> run_host_id r \<in> hst_id ` set (j_hosts db') \<and>
        0 \<le> run_progress_pct r \<and> run_progress_pct r \<le> 100 \<and>
        (\<exists>c \<in> set (j_commands db'). run_command_id r = Some (cmd_id c) \<and> cmd_host_id c = run_host_id r \<and> cmd_kind c = Cmd_RUN_JOB)"
    unfolding f(3) by auto
  with jobs runs cmds show ?thesis by (simp add: wf_jobs_def)
qed


text \<open>The life of the tables: any interleaving of the operations.\<close>

inductive jobs_reachable :: "job_db \<Rightarrow> bool" where
  start: "j_jobs db = [] \<Longrightarrow> j_runs db = [] \<Longrightarrow> j_commands db = [] \<Longrightarrow> jobs_reachable db"
| create: "jobs_reachable db \<Longrightarrow> create_job b seed now db actor body = Inr (db', runs, rq) \<Longrightarrow> jobs_reachable db'"
| cancel: "jobs_reachable db \<Longrightarrow> cancel_job now db actor jid = Inr (db', rq) \<Longrightarrow> jobs_reachable db'"
| drain: "jobs_reachable db \<Longrightarrow> jobs_reachable (fst (drain_pending (pb :: Command \<Rightarrow> unit option result) now host db))"
| result: "jobs_reachable db \<Longrightarrow> jobs_reachable (command_result now host c success err db)"
| progress: "jobs_reachable db \<Longrightarrow> jobs_reachable (handle_job_progress now host i wire pct msg err db)"
| watchdog: "jobs_reachable db \<Longrightarrow> jobs_reachable (fst (watchdog_run_once timeout_s now db))"

section \<open>Roll-up\<close>

lemma aggregate_runs_running: "s \<in> set statuses \<Longrightarrow> \<not> run_terminal s \<Longrightarrow> aggregate_runs statuses = JOB_RUNNING"
proof -
  assume s: "s \<in> set statuses" "\<not> run_terminal s"
  from s(2) have "s \<in> {RUN_QUEUED, RUN_DISPATCHED, RUN_RUNNING}" by (cases s) (simp_all add: run_terminal_def)
  moreover have "0 < length (filter (\<lambda>x. x = s) statuses)" using s(1) by (auto simp: filter_empty_conv)
  ultimately show ?thesis using s(1) by (auto simp: aggregate_runs_def Let_def)
qed

section \<open>Artifact names\<close>

lemma replace_dotdot_set: "set (replace_dotdot s) \<subseteq> insert CHR ''_'' (set s)"
  by (induction s rule: replace_dotdot.induct) auto

lemma replace_dotdot_hd: "s \<noteq> [] \<Longrightarrow> replace_dotdot s \<noteq> [] \<and> (hd (replace_dotdot s) = hd s \<or> hd (replace_dotdot s) = CHR ''_'')"
  by (cases s rule: replace_dotdot.cases) auto

lemma no_dotdot: "\<not> contains ''..'' (replace_dotdot s)"
proof (induction s rule: replace_dotdot.induct)
  case (1 a b s)
  show ?case
  proof (cases "a = CHR ''.'' \<and> b = CHR ''.''")
    case True
    with 1 show ?thesis by (auto simp: contains_def sublist_Cons_right)
  next
    case False
    obtain c cs where r: "replace_dotdot (b # s) = c # cs" using replace_dotdot_hd [of "b # s"] by (cases "replace_dotdot (b # s)") auto
    have "c = b \<or> c = CHR ''_''" using replace_dotdot_hd [of "b # s"] r by simp
    with False 1(2) r show ?thesis by (auto simp: contains_def sublist_Cons_right)
  qed
qed (auto simp: contains_def sublist_Cons_right)

text \<open>The name an agent supplies cannot leave the directory of its run.\<close>

lemma safe_name_confined: "CHR ''/'' \<notin> set (safe_name s) \<and> bslash \<notin> set (safe_name s) \<and> \<not> contains ''..'' (safe_name s) \<and> safe_name s \<noteq> []"
proof -
  let ?t = "replace_char bslash CHR ''_'' (replace_char CHR ''/'' CHR ''_'' s)"
  have "CHR ''/'' \<notin> set ?t" "bslash \<notin> set ?t" by (auto simp: bslash_def)
  then have "CHR ''/'' \<notin> set (replace_dotdot ?t)" "bslash \<notin> set (replace_dotdot ?t)"
    using replace_dotdot_set [of ?t] by (auto simp: bslash_def)
  moreover have "\<not> contains ''..'' ''artifact.bin''" by (simp add: contains_def sublist_Cons_right)
  ultimately show ?thesis using no_dotdot [of ?t] by (auto simp: safe_name_def Let_def bslash_def)
qed


section \<open>Properties\<close>

definition demo_jobs_db :: "Command list \<Rightarrow> JobRun list \<Rightarrow> job_db" where
  "demo_jobs_db cmds runs = \<lparr>j_hosts = [demo_host 21 4, demo_host 22 3], j_policies = [], j_host_in_group = [(22, 31)],
     j_user_host_group = [(7, 31)], j_jobs = [], j_runs = runs, j_commands = cmds, j_next = 100\<rparr>"

definition demo_actor :: "UserRole \<Rightarrow> Actor" where
  "demo_actor role = \<lparr>actor_user = demo_user\<lparr>u_role := role\<rparr>, actor_kind = ''user'', actor_token_id = None, actor_scopes = [],
     actor_tenant_id = 3, actor_is_super_admin = False\<rparr>"

definition demo_body :: JobCreate where
  "demo_body = \<lparr>body_kind = Job_PROCESS_SNAPSHOT, body_parameters = [],
     body_scope = \<lparr>sc_kind = ALL_ONLINE, sc_host_ids = None, sc_group_id = None\<rparr>, body_summary = ''x''\<rparr>"

definition demo_command :: Command where
  "demo_command = \<lparr>cmd_id = 41, cmd_tenant_id = 1, cmd_host_id = 21, cmd_kind = Cmd_RUN_JOB, cmd_status = CMD_DISPATCHED, cmd_payload = [],
     cmd_triggered_by_alert_id = None, cmd_triggered_by_rule_id = None, cmd_issued_by = None, cmd_dispatched_at = Some 0, cmd_completed_at = None, cmd_error = None\<rparr>"

definition demo_run :: "JobRunStatus \<Rightarrow> JobRun" where
  "demo_run st = \<lparr>run_id = 40, run_tenant_id = 1, run_job_id = 39, run_host_id = 21, run_command_id = Some 41, run_status = st,
     run_completed_at = None, run_error = None, run_progress_pct = 0, run_progress_message = None, run_last_progress_at = None\<rparr>"



text \<open>
  The scope of an administrator's job is not bounded by the tenant: a job on all online hosts
  also runs on the online hosts of every other tenant.
\<close>

theorem admin_job_crosses_tenants:
  assumes "u_role (actor_user actor) = ADMIN" "sc_kind (body_scope body) = ALL_ONLINE" "body_kind body \<noteq> Job_UPDATE"
    "h \<in> set (j_hosts db)" "online_host (now - ONLINE_WINDOW) h" "hst_tenant_id h \<noteq> actor_tenant_id actor"
  shows "\<exists>db' runs rq. create_job b seed now db actor body = Inr (db', runs, rq) \<and> hst_id h \<in> run_host_id ` set runs"
proof -
  have ra: "RequireAnalyst actor = Inr actor" "has_role actor [ADMIN]" "visible_host_ids (scope_view db) actor = None"
    using assms(1) by (auto simp: RequireAnalyst_def require_role_def has_role_def visible_host_ids_def is_admin_def)
  let ?hs = "resolve_scope db now (body_scope body) None"
  have hs: "set ?hs = hst_id ` {x \<in> set (j_hosts db). online_host (now - ONLINE_WINDOW) x}"
    unfolding resolve_scope_spec(2) using assms(2) by (auto simp: scope_targets_def)
  then have hin: "hst_id h \<in> set ?hs" using assms(4,5) by auto
  then have ne: "?hs \<noteq> []" by auto
  let ?job = "new_job body actor (j_next db) ?hs"
  let ?db1 = "db\<lparr>j_jobs := j_jobs db @ [?job], j_next := j_next db + 1\<rparr>"
  have fk: "list_all (\<lambda>hid. hid \<in> set (map hst_id (j_hosts db))) ?hs" using hs by (auto simp: list_all_iff)
  have jk: "job_kind ?job \<noteq> Job_UPDATE" using assms(3) by (simp add: new_job_def)
  obtain db2 runs where fo: "fanout b seed ?db1 ?job ?hs (Some (u_id (actor_user actor))) = Inr (db2, runs)"
    using fk jk by (simp add: fanout_def Let_def)
  then have "map run_host_id runs = ?hs" using fanout_Inr [OF fo] jk by (auto simp: fanout_hosts_def fanout_loop_hosts)
  then have "hst_id h \<in> run_host_id ` set runs" using hin by (metis set_map)
  then show ?thesis using ra ne fo by (auto simp: create_job_def Let_def)
qed

theorem admin_job_crosses_tenants_witness:
  "\<exists>db' runs rq. create_job (\<lambda>_. []) [] 0 (demo_jobs_db [] []) (demo_actor ADMIN) demo_body = Inr (db', runs, rq) \<and> 21 \<in> run_host_id ` set runs"
  using admin_job_crosses_tenants [of "demo_actor ADMIN" demo_body "demo_host 21 4" "demo_jobs_db [] []" 0]
  by (simp add: demo_actor_def demo_body_def demo_jobs_db_def demo_host_def online_host_def ONLINE_WINDOW_def seconds_def)

text \<open>
  When the watchdog expires the command of a run, the run and its job are left as they were: the
  run stays in flight, and the job rolls up to running.
\<close>

theorem watchdog_strands_job:
  assumes "c \<in> set (j_commands db)" "overdue (now - seconds timeout_s) c" "r \<in> set (j_runs db)" "run_command_id r = Some (cmd_id c)"
    "\<not> run_terminal (run_status r)"
  shows "case watchdog_run_once timeout_s now db of (db', n) \<Rightarrow>
    0 < n \<and> (\<exists>c' \<in> set (j_commands db'). cmd_id c' = cmd_id c \<and> cmd_status c' = CMD_FAILED) \<and>
    r \<in> set (j_runs db') \<and> j_jobs db' = j_jobs db \<and> aggregate_status db' (run_job_id r) = JOB_RUNNING"
proof -
  let ?rows = "filter (overdue (now - seconds timeout_s)) (j_commands db)"
  have c: "cmd_id c \<in> cmd_id ` set ?rows" "cmd_status c = CMD_DISPATCHED" "?rows \<noteq> []"
    using assms(1,2) by (auto simp: overdue_def filter_empty_conv)
  have "run_status r \<in> set (map run_status (filter (\<lambda>x. run_job_id x = run_job_id r) (j_runs db)))" using assms(3) by auto
  from aggregate_runs_running [OF this assms(5)]
  have agg: "aggregate_status (fst (watchdog_run_once timeout_s now db)) (run_job_id r) = JOB_RUNNING"
    by (simp add: watchdog_run_once_def Let_def aggregate_status_def)
  have "\<exists>c' \<in> set (j_commands (fst (watchdog_run_once timeout_s now db))). cmd_id c' = cmd_id c \<and> cmd_status c' = CMD_FAILED"
  proof
    let ?f = "\<lambda>c. if cmd_id c \<in> set (map cmd_id ?rows) \<and> cmd_status c = CMD_DISPATCHED then expire_command now c else c"
    have "?f c \<in> set (map ?f (j_commands db))" using assms(1) unfolding set_map by (rule imageI)
    moreover have "?f c = expire_command now c" using c(1,2) by simp
    ultimately show "expire_command now c \<in> set (j_commands (fst (watchdog_run_once timeout_s now db)))"
      by (simp add: watchdog_run_once_def Let_def)
  qed (simp add: expire_command_def)
  with agg c(3) assms(3) show ?thesis by (auto simp: watchdog_run_once_def Let_def)
qed

theorem watchdog_strands_job_witness:
  "aggregate_status (fst (watchdog_run_once 600 (seconds 3600) (demo_jobs_db [demo_command] [demo_run RUN_DISPATCHED]))) 39 = JOB_RUNNING"
  using watchdog_strands_job [of demo_command "demo_jobs_db [demo_command] [demo_run RUN_DISPATCHED]" "seconds 3600" 600 "demo_run RUN_DISPATCHED"]
  by (auto simp: demo_jobs_db_def demo_command_def demo_run_def overdue_def seconds_def run_terminal_def split: prod.splits)

text \<open>
  The handler of command results checks neither whose command it is nor whether it is over: the
  agent of any host can complete a run of another host, one that the operator has cancelled included.
\<close>

theorem command_result_unchecked:
  assumes "wf_jobs db" "r \<in> set (j_runs db)" "run_command_id r = Some c" "filter (\<lambda>x. run_command_id x = Some c) (j_runs db) = [r]"
    "uuid_of_str command_id = Some c" "run_status r = RUN_CANCELED" "host \<noteq> run_host_id r"
  shows "\<exists>r' \<in> set (j_runs (command_result now host command_id True [] db)). run_id r' = run_id r \<and> run_status r' = RUN_COMPLETED"
proof -
  obtain cmd where cmd: "cmd \<in> set (j_commands db)" "cmd_id cmd = c" "cmd_kind cmd = Cmd_RUN_JOB" using assms(1-3) by (auto simp: wf_jobs_def)
  have "find (\<lambda>x. cmd_id x = c) (j_commands db) \<noteq> None" using cmd by (auto simp: find_None_iff)
  then obtain cmd' where f: "find (\<lambda>x. cmd_id x = c) (j_commands db) = Some cmd'" by auto
  have "distinct (map cmd_id (j_commands db))" using assms(1) by (simp add: wf_jobs_def)
  then have "cmd' = cmd" using find_SomeD [OF f] cmd by (auto simp: distinct_map inj_on_def)
  with f cmd(3) assms(4,5) have eq: "command_result now host command_id True [] db =
      roll_up (run_job_id r) (update_run (run_id r) (finish_run True [] now) (update_command c (finish_command True [] now) db))"
    by (simp add: command_result_def Let_def)
  have "finish_run True [] now r \<in> set (j_runs (command_result now host command_id True [] db))"
    using assms(2) unfolding eq by (auto simp: roll_up_def update_run_def update_command_def image_iff)
  then show ?thesis by (rule rev_bexI) (simp add: finish_run_def)
qed

definition demo_canceled_db :: job_db where
  "demo_canceled_db = (demo_jobs_db [demo_command] [demo_run RUN_CANCELED])\<lparr>j_jobs :=
     [(new_job demo_body (demo_actor ADMIN) 39 [21])\<lparr>job_status := JOB_CANCELED\<rparr>]\<rparr>"

theorem command_result_unchecked_witness:
  "\<exists>r' \<in> set (j_runs (command_result 0 22 (uuid_hex 41) True [] demo_canceled_db)). run_id r' = 40 \<and> run_status r' = RUN_COMPLETED"
proof -
  have "uuid_of_str (uuid_hex 41) = Some 41" by (rule uuid_of_hex) (simp add: is_uuid_def)
  moreover have "wf_jobs demo_canceled_db"
    by (simp add: wf_jobs_def demo_canceled_db_def demo_jobs_db_def demo_command_def demo_run_def demo_host_def new_job_def)
  ultimately show ?thesis
    using command_result_unchecked [of demo_canceled_db "demo_run RUN_CANCELED" 41 "uuid_hex 41" 22 0]
    by (simp add: demo_canceled_db_def demo_jobs_db_def demo_run_def)
qed

text \<open>
  A created job is stamped with the default tenant, so its creator cannot cancel it when they
  belong to any other tenant.
\<close>

theorem created_job_lost_to_its_tenant:
  assumes "create_job b seed now db actor body = Inr (db', runs, rq)" "wf_jobs db" "actor_tenant_id actor \<noteq> DEFAULT_TENANT_ID"
  shows "\<exists>job \<in> set (j_jobs db'). job_id job = j_next db \<and> job_created_by job = Some (u_id (actor_user actor)) \<and>
    cancel_job now' db' actor (job_id job) = Inl (not_found ''job'' (job_id job))"
proof -
  obtain hs job where h: "job = new_job body actor (j_next db) hs"
    "fanout b seed (db\<lparr>j_jobs := j_jobs db @ [job], j_next := j_next db + 1\<rparr>) job hs (Some (u_id (actor_user actor))) = Inr (db', runs)"
    by (rule create_job_Inr [OF assms(1)])
  have jid: "job_id job = j_next db" "job_tenant_id job = DEFAULT_TENANT_ID" "job_created_by job = Some (u_id (actor_user actor))"
    using h(1) by (simp_all add: new_job_def)
  have jobs: "j_jobs db' = (if runs \<noteq> [] then map (\<lambda>j. if job_id j = job_id job then j\<lparr>job_status := JOB_RUNNING\<rparr> else j) (j_jobs db @ [job])
      else j_jobs db @ [job])"
    using h(2) by (auto simp: fanout_def Let_def split: if_splits)
  have old: "job_id j \<noteq> j_next db" if "j \<in> set (j_jobs db)" for j using that assms(2) by (auto simp: wf_jobs_def)
  let ?job = "if runs \<noteq> [] then job\<lparr>job_status := JOB_RUNNING\<rparr> else job"
  have "?job \<in> set (j_jobs db')" unfolding jobs by (auto simp: jid)
  moreover have "job_tenant_id j = DEFAULT_TENANT_ID" if "j \<in> set (j_jobs db')" "job_id j = j_next db" for j
    using that old jid unfolding jobs by (auto split: if_splits)
  then have "find (\<lambda>j. job_id j = j_next db \<and> job_tenant_id j = actor_tenant_id actor) (j_jobs db') = None"
    using assms(3) by (auto simp: find_None_iff)
  moreover have "RequireAnalyst actor = Inr actor"
    using assms(1) by (cases "RequireAnalyst actor") (auto simp: create_job_def RequireAnalyst_def require_role_def split: if_splits)
  ultimately show ?thesis using jid by (intro bexI [of _ ?job]) (auto simp: cancel_job_def)
qed

theorem created_job_lost_to_its_tenant_witness:
  "\<exists>db' runs rq. create_job (\<lambda>_. []) [] 0 (demo_jobs_db [] []) (demo_actor ADMIN) demo_body = Inr (db', runs, rq) \<and>
     cancel_job 0 db' (demo_actor ADMIN) 100 = Inl (not_found ''job'' 100)"
proof -
  have "case create_job (\<lambda>_. []) [] 0 (demo_jobs_db [] []) (demo_actor ADMIN) demo_body of Inr _ \<Rightarrow> True | Inl _ \<Rightarrow> False" by code_simp
  then obtain db' runs rq where c: "create_job (\<lambda>_. []) [] 0 (demo_jobs_db [] []) (demo_actor ADMIN) demo_body = Inr (db', runs, rq)"
    by (auto split: sum.splits)
  have "wf_jobs (demo_jobs_db [] [])" "actor_tenant_id (demo_actor ADMIN) \<noteq> DEFAULT_TENANT_ID" "j_next (demo_jobs_db [] []) = 100"
    by (simp_all add: wf_jobs_def demo_jobs_db_def demo_actor_def DEFAULT_TENANT_ID_def)
  with created_job_lost_to_its_tenant [OF c, of 0] c show ?thesis by auto
qed



end
