(* ===== verification/Isolation_Guard.thy ===== *)
theory Isolation_Guard
  imports Pyval
begin

text \<open>
  The safety net of host isolation (backend/app/services/isolation_guard.py): the manager's own
  addresses are added to the allowlist of every isolate command, so that the command that lifts the
  isolation can still arrive. Name resolution (\<open>socket.getaddrinfo\<close>) is a parameter; \<open>OSError\<close> is the
  failure the code handles.
\<close>

record guard_settings =
  manager_public_url :: string
  grpc_san_extras :: string

datatype address_family = AF_INET | AF_INET6 | AF_OTHER int

type_synonym resolver = "string \<Rightarrow> (address_family \<times> string) list result"

text \<open>\<open>s.split(pat, 1)[1]\<close>: what follows the first occurrence.\<close>

fun after_sub :: "string \<Rightarrow> string \<Rightarrow> string option" where
  "after_sub pat [] = (if pat = [] then Some [] else None)"
| "after_sub pat (c # s) = (if prefix pat (c # s) then Some (drop (length pat) (c # s)) else after_sub pat s)"

text \<open>\<open>s.rpartition(c)\<close> when \<open>c\<close> occurs: the parts before and after the last occurrence.\<close>

definition rpartition :: "char \<Rightarrow> string \<Rightarrow> string \<times> string" where
  "rpartition c s = (take (length s - length (after_last c s) - 1) s, after_last c s)"

definition extract_host :: "string \<Rightarrow> string option" where
  "extract_host url_or_host =
     (let s = strip url_or_host in
      if s = [] then None
      else (let s = (case after_sub ''://'' s of None \<Rightarrow> s | Some t \<Rightarrow> t);
                s = takeWhile (\<lambda>c. c \<noteq> CHR ''/'') s;
                s = (if CHR ''@'' \<in> set s then after_last CHR ''@'' s else s)
            in if startswith s ''['' then
                 (if CHR '']'' \<notin> set s then None else Some (takeWhile (\<lambda>c. c \<noteq> CHR '']'') (tl s)))
               else if CHR '':'' \<in> set s then
                 (case rpartition CHR '':'' s of (host, port) \<Rightarrow> if str_isdigit port then Some host else Some s)
               else Some s))"

fun collect_ips :: "string list \<Rightarrow> (address_family \<times> string) list \<Rightarrow> string list" where
  "collect_ips seen [] = []"
| "collect_ips seen ((family, ip) # infos) =
     (if family \<notin> {AF_INET, AF_INET6} then collect_ips seen infos
      else if ip \<noteq> [] \<and> ip \<notin> set seen then ip # collect_ips (ip # seen) infos
      else collect_ips seen infos)"

definition resolve_to_ips :: "resolver \<Rightarrow> string \<Rightarrow> string list result" where
  "resolve_to_ips getaddrinfo host = (case getaddrinfo host of
       Inl e \<Rightarrow> (if e = OSError then Inr [] else Inl e)
     | Inr infos \<Rightarrow> Inr (collect_ips [] infos))"

definition guard_candidates :: "guard_settings \<Rightarrow> string list" where
  "guard_candidates settings =
     (case extract_host (manager_public_url settings) of None \<Rightarrow> [] | Some h \<Rightarrow> if h = [] then [] else [h]) @
     List.map_filter (\<lambda>extra. let extra = strip extra in
         if extra = [] then None
         else (case extract_host extra of None \<Rightarrow> None | Some h \<Rightarrow> if h = [] then None else Some h))
       (split_on CHR '','' (grpc_san_extras settings))"

text \<open>The addresses to add: in order of resolution, those not yet in the list.\<close>

fun add_new :: "string list \<Rightarrow> string list \<Rightarrow> string list" where
  "add_new existing [] = []"
| "add_new existing (ip # ips) = (if ip \<in> set existing then add_new existing ips else ip # add_new (ip # existing) ips)"

definition clean_ips :: "pyval list \<Rightarrow> string list" where
  "clean_ips xs = filter (\<lambda>s. s \<noteq> []) (map (\<lambda>x. strip (py_str x)) xs)"

definition ensure_manager_in_allowlist :: "guard_settings \<Rightarrow> resolver \<Rightarrow> pydict \<Rightarrow> pydict result" where
  "ensure_manager_in_allowlist settings getaddrinfo payload =
     (case py_or (dget_default payload ''allowlist_ips'' (PList [])) (PList []) of
        PList raw \<Rightarrow>
          bindE (mapE (resolve_to_ips getaddrinfo) (guard_candidates settings)) (\<lambda>resolved.
            let existing = clean_ips raw; injected = add_new existing (concat resolved) in
            if injected = [] then Inr payload
            else Inr (AList.update ''allowlist_ips'' (PList (map PStr (existing @ injected))) payload))
      | _ \<Rightarrow> Inr payload)"

section \<open>Properties\<close>

lemma collect_ips_nonempty: "ip \<in> set (collect_ips seen infos) \<Longrightarrow> ip \<noteq> [] \<and> ip \<notin> set seen"
  by (induction seen infos rule: collect_ips.induct) (auto split: if_splits)

lemma set_collect_ips:
  "set (collect_ips seen infos) = {ip. ip \<noteq> [] \<and> ip \<notin> set seen \<and> ((AF_INET, ip) \<in> set infos \<or> (AF_INET6, ip) \<in> set infos)}"
  by (induction seen infos rule: collect_ips.induct) auto

lemma distinct_collect_ips: "distinct (collect_ips seen infos)"
  by (induction seen infos rule: collect_ips.induct) (auto simp: set_collect_ips)

lemma set_add_new: "set (add_new existing ips) = set ips - set existing"
  by (induction existing ips rule: add_new.induct) auto

lemma add_new_Nil: "add_new existing ips = [] \<longleftrightarrow> set ips \<subseteq> set existing"
  by (metis Diff_eq_empty_iff set_add_new set_empty)

lemma distinct_add_new: "distinct (add_new existing ips)"
  by (induction existing ips rule: add_new.induct) (auto simp: set_add_new)

lemma strip_idem [simp]: "strip (strip s) = strip s"
proof -
  have dw: "dropWhile is_space (dropWhile is_space t) = dropWhile is_space t" for t
    by (induction t) auto
  let ?t = "dropWhile is_space s"
  have "dropWhile is_space (rev (dropWhile is_space (rev ?t))) = rev (dropWhile is_space (rev ?t))"
  proof (cases "rev (dropWhile is_space (rev ?t))")
    case (Cons c cs)
    then have "prefix (c # cs) ?t"
      by (metis prefixI rev_rev_ident rev_append takeWhile_dropWhile_id)
    then obtain zs where "?t = c # cs @ zs" by (auto simp: prefix_def)
    then have "\<not> is_space c" by (metis dropWhile_eq_Cons_conv)
    with Cons show ?thesis by simp
  next
    case Nil
    then show ?thesis by (simp only: dropWhile.simps)
  qed
  then show ?thesis by (simp add: strip_def dw)
qed

lemma clean_ips_strings: "clean_ips (map PStr (clean_ips xs @ ys)) = clean_ips xs @ clean_ips (map PStr ys)"
proof -
  have "map (\<lambda>x. strip (py_str x)) (map PStr (clean_ips xs)) = clean_ips xs"
    by (auto simp: clean_ips_def comp_def intro!: map_idI)
  then have "clean_ips (map PStr (clean_ips xs)) = clean_ips xs"
    by (simp add: clean_ips_def [of "map PStr (clean_ips xs)"]) (simp add: clean_ips_def)
  then show ?thesis by (simp add: clean_ips_def)
qed

text \<open>What resolution gives for all candidates.\<close>

lemma guard_cases:
  assumes "dget_default payload ''allowlist_ips'' (PList []) = PList raw"
    and "mapE (resolve_to_ips r) (guard_candidates settings) = Inr resolved"
  shows "ensure_manager_in_allowlist settings r payload = Inr (if set (concat resolved) \<subseteq> set (clean_ips raw) then payload
     else AList.update ''allowlist_ips'' (PList (map PStr (clean_ips raw @ add_new (clean_ips raw) (concat resolved)))) payload)"
proof -
  have "py_or (PList raw) (PList []) = PList raw" by (cases raw) (simp_all add: py_or_def)
  with assms show ?thesis by (auto simp: ensure_manager_in_allowlist_def Let_def add_new_Nil)
qed

text \<open>An address as \<open>getaddrinfo\<close> writes it: its text has no white space.\<close>

definition textual :: "string \<Rightarrow> bool" where
  "textual ip \<longleftrightarrow> \<not> list_ex is_space ip"

lemma textual_strip: "textual ip \<Longrightarrow> strip ip = ip"
proof -
  assume "textual ip"
  then have "dropWhile is_space ip = ip" "dropWhile is_space (rev ip) = rev ip"
    by (auto simp: textual_def list_ex_iff dropWhile_eq_self_iff dest: hd_in_set)
      (metis hd_in_set rev_is_Nil_conv set_rev)
  then show ?thesis by (simp add: strip_def)
qed

lemma clean_ips_textual: "list_all (\<lambda>ip. ip \<noteq> [] \<and> textual ip) ips \<Longrightarrow> clean_ips (map PStr ips) = ips"
  by (induction ips) (simp_all add: clean_ips_def textual_strip)

end
