(* ===== verification/Command_Wire.thy ===== *)
theory Command_Wire
  imports Jobs Isolation_Guard
begin

text \<open>
  From a command row to the agent: the protobuf message of each kind of command
  (backend/app/grpc/services.py, \<open>_command_to_pb\<close>), and the analyst's request that queues one
  (api/commands.py and the validator of schemas/command.py). A protobuf message is modelled by its
  fields; assigning a value outside the range of a \<open>uint32\<close> field raises \<open>ValueError\<close>, and a member of
  the \<open>oneof\<close> that no statement writes to stays unset (\<open>Pb_unset\<close>).
\<close>

section \<open>Python values on the way\<close>

text \<open>\<open>str(d.get(k) or "")\<close>\<close>

definition payload_str :: "pydict \<Rightarrow> string \<Rightarrow> string" where
  "payload_str d k = py_str (py_or (dget d k) (PStr []))"

text \<open>Iteration over a value: \<open>for x in v\<close>.\<close>

fun py_iter :: "pyval \<Rightarrow> pyval list result" where
  "py_iter (PList xs) = Inr xs"
| "py_iter (PStr s) = Inr (map (\<lambda>c. PStr [c]) s)"
| "py_iter (PDict d) = Inr (map (\<lambda>kv. PStr (fst kv)) d)"
| "py_iter _ = Inl TypeError"

text \<open>\<open>int(v)\<close>\<close>

fun py_int :: "pyval \<Rightarrow> int result" where
  "py_int (PBool b) = Inr (if b then 1 else 0)"
| "py_int (PInt i) = Inr i"
| "py_int (PFloat q) = Inr (if 0 \<le> q then \<lfloor>q\<rfloor> else \<lceil>q\<rceil>)"
| "py_int (PStr s) = int_of_str s"
| "py_int _ = Inl TypeError"

text \<open>\<open>isinstance(v, int)\<close>, with the value; a \<open>bool\<close> is an \<open>int\<close>.\<close>

fun as_int :: "pyval \<Rightarrow> int option" where
  "as_int (PBool b) = Some (if b then 1 else 0)"
| "as_int (PInt i) = Some i"
| "as_int _ = None"

fun as_str :: "pyval \<Rightarrow> string option" where
  "as_str (PStr s) = Some s"
| "as_str _ = None"

text \<open>\<open>[x for x in xs if isinstance(x, str) and x]\<close>\<close>

definition nonempty_strs :: "pyval list \<Rightarrow> string list" where
  "nonempty_strs xs = filter (\<lambda>s. s \<noteq> []) (List.map_filter as_str xs)"

text \<open>\<open>json.dumps(v)\<close> with the default separators.\<close>

fun json_dumps :: "pyval \<Rightarrow> string" where
  "json_dumps PNone = ''null''"
| "json_dumps (PBool b) = (if b then ''true'' else ''false'')"
| "json_dumps (PInt i) = show_int i"
| "json_dumps (PFloat q) = repr_float q"
| "json_dumps (PStr s) = json_str s"
| "json_dumps (PList xs) = ''['' @ join '', '' (map json_dumps xs) @ '']''"
| "json_dumps (PDict d) = ''{'' @ join '', '' (map (\<lambda>(k, v). json_str k @ '': '' @ json_dumps v) d) @ ''}''"

text \<open>\<open>bytes.fromhex(s)\<close>: ASCII white space is allowed between the bytes.\<close>

definition ascii_space :: "char \<Rightarrow> bool" where
  "ascii_space c \<longleftrightarrow> (let n = code c in 9 \<le> n \<and> n \<le> 13 \<or> n = 32)"

fun fromhex :: "string \<Rightarrow> bytes result" where
  "fromhex [] = Inr []"
| "fromhex (c # s) =
     (if ascii_space c then fromhex s
      else (case s of
          [] \<Rightarrow> Inl ValueError
        | d # t \<Rightarrow> (case (hex_digit_val c, hex_digit_val d) of
            (Some m, Some n) \<Rightarrow> bindE (fromhex t) (\<lambda>bs. Inr (char_of (16 * m + n) # bs))
          | _ \<Rightarrow> Inl ValueError)))"

text \<open>
  \<open>base64.b64decode(s, validate=True)\<close>, as CPython's \<open>binascii\<close> decodes in strict mode: \<open>q\<close> is the
  position in the quadruple, \<open>left\<close> the bits carried over, \<open>pads\<close> the padding characters seen in a row.
\<close>

definition b64_val :: "char \<Rightarrow> nat option" where
  "b64_val c = (let n = code c in
     if 65 \<le> n \<and> n \<le> 90 then Some (n - 65)
     else if 97 \<le> n \<and> n \<le> 122 then Some (n - 71)
     else if 48 \<le> n \<and> n \<le> 57 then Some (n + 4)
     else if c = CHR ''+'' then Some 62 else if c = CHR ''/'' then Some 63 else None)"

fun b64_loop :: "nat \<Rightarrow> nat \<Rightarrow> nat \<Rightarrow> bool \<Rightarrow> string \<Rightarrow> bytes result" where
  "b64_loop q left pads started [] = (if q = 0 then Inr [] else Inl ValueError)"
| "b64_loop q left pads started (c # s) =
     (if c = CHR ''='' then
        (if 2 \<le> q then (if 4 \<le> q + pads + 1 then (if s \<noteq> [] then Inl ValueError else Inr []) else b64_loop q left (pads + 1) True s)
         else b64_loop q left pads True s)
      else (case b64_val c of
          None \<Rightarrow> Inl ValueError
        | Some v \<Rightarrow>
            (if started then Inl ValueError
             else if q = 0 then b64_loop 1 v 0 started s
             else if q = 1 then bindE (b64_loop 2 (v mod 16) 0 started s) (\<lambda>bs. Inr (char_of (4 * left + v div 16) # bs))
             else if q = 2 then bindE (b64_loop 3 (v mod 4) 0 started s) (\<lambda>bs. Inr (char_of (16 * left + v div 4) # bs))
             else bindE (b64_loop 0 0 0 started s) (\<lambda>bs. Inr (char_of (64 * left + v) # bs)))))"

definition b64decode :: "string \<Rightarrow> bytes result" where
  "b64decode s = (if s \<noteq> [] \<and> hd s = CHR ''='' then Inl ValueError else b64_loop 0 0 0 False s)"

section \<open>Messages\<close>

datatype AllowlistMode = ALLOWLIST_MODE_OFF | ALLOWLIST_MODE_LEARN | ALLOWLIST_MODE_ENFORCE

record HoneytokenSpec =
  hs_id :: string
  hs_kind :: string
  hs_name :: string
  hs_target_path :: string
  hs_payload :: bytes

datatype pb_body =
    Pb_unset
  | Pb_kill int
  | Pb_block_process string
  | Pb_block_file string
  | Pb_unblock_process string
  | Pb_unblock_file string
  | Pb_isolate bool "string list"
  | Pb_quarantine_file string bool
  | Pb_release_quarantine string string
  | Pb_run_job string string string string
  | Pb_allowlist_sync AllowlistMode "bytes list"
  | Pb_dns_block_sync "string list" "string list"
  | Pb_request_attestation string
  | Pb_device_control_sync string bool "string list" "string list"
  | Pb_deploy_honeytoken "HoneytokenSpec list"

record pb_command =
  pbc_command_id :: string
  pbc_issued_at :: datetime
  pbc_body :: pb_body

section \<open>Translation\<close>

definition kill_body :: "pydict \<Rightarrow> pb_body option result" where
  "kill_body payload =
     bindE (py_int (py_or (dget payload ''pid'') (PInt 0))) (\<lambda>pid.
       if pid \<le> 0 then Inr None
       else if pid \<ge> 2 ^ 32 then Inl ValueError
       else Inr (Some (Pb_kill pid)))"

definition pattern_body :: "(string \<Rightarrow> pb_body) \<Rightarrow> pydict \<Rightarrow> pb_body option result" where
  "pattern_body mk payload =
     (let pat = payload_str payload ''pattern'' in if pat = [] then Inr None else Inr (Some (mk pat)))"

definition wire_ips :: "pyval list \<Rightarrow> string list" where
  "wire_ips xs = map strip (filter (\<lambda>s. strip s \<noteq> []) (List.map_filter as_str xs))"

definition isolate_body :: "pydict \<Rightarrow> pb_body option result" where
  "isolate_body payload =
     bindE (py_iter (py_or (dget_default payload ''allowlist_ips'' (PList [])) (PList []))) (\<lambda>ips.
       Inr (Some (Pb_isolate (truthy (dget_default payload ''isolate'' (PBool True))) (wire_ips ips))))"

definition quarantine_body :: "pydict \<Rightarrow> pb_body option result" where
  "quarantine_body payload =
     (let path = payload_str payload ''path'' in
      if path = [] then Inr None
      else Inr (Some (Pb_quarantine_file path (truthy (dget_default payload ''delete_original'' (PBool False))))))"

definition release_body :: "pydict \<Rightarrow> pb_body option result" where
  "release_body payload =
     (let sha256 = payload_str payload ''sha256'' in
      if sha256 = [] then Inr None else Inr (Some (Pb_release_quarantine sha256 (payload_str payload ''target_path''))))"

definition run_job_body :: "pydict \<Rightarrow> pb_body option result" where
  "run_job_body payload =
     (let jid = payload_str payload ''job_id''; rid = payload_str payload ''run_id''; kind = payload_str payload ''job_kind'' in
      if jid = [] \<or> rid = [] \<or> kind = [] then Inr None
      else Inr (Some (Pb_run_job jid rid kind (json_dumps (py_or (dget payload ''parameters'') (PDict []))))))"

definition allowlist_mode :: "string \<Rightarrow> AllowlistMode" where
  "allowlist_mode s = (if s = ''learn'' then ALLOWLIST_MODE_LEARN else if s = ''enforce'' then ALLOWLIST_MODE_ENFORCE
     else ALLOWLIST_MODE_OFF)"

definition wire_hash :: "pyval \<Rightarrow> bytes option" where
  "wire_hash h = (case as_str h of
       None \<Rightarrow> None
     | Some s \<Rightarrow> (if length s \<noteq> 64 then None else (case fromhex s of Inl _ \<Rightarrow> None | Inr bs \<Rightarrow> Some bs)))"

definition allowlist_body :: "pydict \<Rightarrow> pb_body option result" where
  "allowlist_body payload =
     (let mode_str = py_str (py_or (dget payload ''mode'') (PStr ''off'')) in
      bindE (py_iter (py_or (dget payload ''hashes'') (PList []))) (\<lambda>hs.
        Inr (Some (Pb_allowlist_sync (allowlist_mode mode_str) (List.map_filter wire_hash hs)))))"

text \<open>The submessage comes into being with the first domain appended to it.\<close>

definition dns_body :: "pydict \<Rightarrow> pb_body option result" where
  "dns_body payload =
     bindE (py_iter (py_or (dget payload ''block_domains'') (PList []))) (\<lambda>block.
     bindE (py_iter (py_or (dget payload ''sinkhole_domains'') (PList []))) (\<lambda>sinkhole.
       let b = nonempty_strs block; s = nonempty_strs sinkhole in
       Inr (Some (if b = [] \<and> s = [] then Pb_unset else Pb_dns_block_sync b s))))"

definition attestation_body :: "pydict \<Rightarrow> pb_body option result" where
  "attestation_body payload =
     (let nonce = payload_str payload ''nonce'' in if nonce = [] then Inr None else Inr (Some (Pb_request_attestation nonce)))"

definition device_control_body :: "pydict \<Rightarrow> pb_body option result" where
  "device_control_body payload =
     (let kind = payload_str payload ''kind'' in
      if kind = [] then Inr None
      else bindE (py_iter (py_or (dget payload ''allowed_vids'') (PList []))) (\<lambda>vids.
           bindE (py_iter (py_or (dget payload ''allowed_pids'') (PList []))) (\<lambda>pids.
             Inr (Some (Pb_device_control_sync kind (truthy (dget_default payload ''enabled'' (PBool True)))
               (nonempty_strs vids) (nonempty_strs pids))))))"

text \<open>One entry of the batch; a payload that does not decode is left empty on the entry already added.\<close>

definition wire_spec :: "pyval \<Rightarrow> HoneytokenSpec option" where
  "wire_spec v = (case v of
       PDict spec \<Rightarrow>
         (let sid = payload_str spec ''id''; skind = payload_str spec ''kind'' in
          if sid = [] \<or> skind = [] then None
          else Some \<lparr>hs_id = sid, hs_kind = skind, hs_name = payload_str spec ''name'',
            hs_target_path = payload_str spec ''target_path'',
            hs_payload = (case as_str (dget spec ''payload_b64'') of
                None \<Rightarrow> []
              | Some raw \<Rightarrow> (case b64decode raw of Inl _ \<Rightarrow> [] | Inr bs \<Rightarrow> bs))\<rparr>)
     | _ \<Rightarrow> None)"

definition honeytoken_body :: "pydict \<Rightarrow> pb_body option result" where
  "honeytoken_body payload =
     bindE (py_iter (py_or (dget payload ''specs'') (PList []))) (\<lambda>specs.
       let ss = List.map_filter wire_spec specs in
       Inr (Some (if ss = [] then Pb_unset else Pb_deploy_honeytoken ss)))"

fun command_body :: "CommandKind \<Rightarrow> pydict \<Rightarrow> pb_body option result" where
  "command_body Cmd_KILL_PROCESS payload = kill_body payload"
| "command_body Cmd_BLOCK_PROCESS payload = pattern_body Pb_block_process payload"
| "command_body Cmd_BLOCK_FILE payload = pattern_body Pb_block_file payload"
| "command_body Cmd_UNBLOCK_PROCESS payload = pattern_body Pb_unblock_process payload"
| "command_body Cmd_UNBLOCK_FILE payload = pattern_body Pb_unblock_file payload"
| "command_body Cmd_ISOLATE payload = isolate_body payload"
| "command_body Cmd_QUARANTINE_FILE payload = quarantine_body payload"
| "command_body Cmd_RELEASE_QUARANTINE payload = release_body payload"
| "command_body Cmd_RUN_JOB payload = run_job_body payload"
| "command_body Cmd_ALLOWLIST_SYNC payload = allowlist_body payload"
| "command_body Cmd_DNS_BLOCK_SYNC payload = dns_body payload"
| "command_body Cmd_REQUEST_ATTESTATION payload = attestation_body payload"
| "command_body Cmd_DEVICE_CONTROL_SYNC payload = device_control_body payload"
| "command_body Cmd_DEPLOY_HONEYTOKEN payload = honeytoken_body payload"

definition command_to_pb :: "datetime \<Rightarrow> Command \<Rightarrow> pb_command option result" where
  "command_to_pb now cmd =
     bindE (command_body (cmd_kind cmd) (cmd_payload cmd)) (\<lambda>body.
       Inr (map_option (\<lambda>b. \<lparr>pbc_command_id = uuid_str (cmd_id cmd), pbc_issued_at = now, pbc_body = b\<rparr>) body))"

text \<open>The dispatcher of the stream of one host, once per wake-up.\<close>

definition dispatch_pending :: "datetime \<Rightarrow> uuid \<Rightarrow> job_db \<Rightarrow> job_db \<times> pb_command list" where
  "dispatch_pending now host db = drain_pending (command_to_pb now) now host db"

section \<open>Queueing a command\<close>

fun command_kind_value :: "CommandKind \<Rightarrow> string" where
  "command_kind_value Cmd_KILL_PROCESS = ''kill_process''"
| "command_kind_value Cmd_BLOCK_PROCESS = ''block_process''"
| "command_kind_value Cmd_BLOCK_FILE = ''block_file''"
| "command_kind_value Cmd_UNBLOCK_PROCESS = ''unblock_process''"
| "command_kind_value Cmd_UNBLOCK_FILE = ''unblock_file''"
| "command_kind_value Cmd_ISOLATE = ''isolate''"
| "command_kind_value Cmd_QUARANTINE_FILE = ''quarantine_file''"
| "command_kind_value Cmd_RELEASE_QUARANTINE = ''release_quarantine''"
| "command_kind_value Cmd_RUN_JOB = ''run_job''"
| "command_kind_value Cmd_ALLOWLIST_SYNC = ''allowlist_sync''"
| "command_kind_value Cmd_DNS_BLOCK_SYNC = ''dns_block_sync''"
| "command_kind_value Cmd_DEVICE_CONTROL_SYNC = ''device_control_sync''"
| "command_kind_value Cmd_REQUEST_ATTESTATION = ''request_attestation''"
| "command_kind_value Cmd_DEPLOY_HONEYTOKEN = ''deploy_honeytoken''"

definition pid_ok :: "pydict \<Rightarrow> bool" where
  "pid_ok payload \<longleftrightarrow> (case as_int (dget payload ''pid'') of None \<Rightarrow> False | Some pid \<Rightarrow> pid > 0)"

text \<open>The UTF-16 encoding of a Latin-1 string has two bytes for each character.\<close>

definition validate_payload :: "CommandKind \<Rightarrow> pydict \<Rightarrow> unit result" where
  "validate_payload kind payload =
     (if kind = Cmd_KILL_PROCESS then
        (if pid_ok payload then Inr () else Inl (bad_request ''kill_process payload requires integer pid > 0''))
      else if kind \<in> {Cmd_BLOCK_PROCESS, Cmd_BLOCK_FILE, Cmd_UNBLOCK_PROCESS, Cmd_UNBLOCK_FILE} then
        (case as_str (dget payload ''pattern'') of
           None \<Rightarrow> Inl (bad_request (command_kind_value kind @ '' payload requires non-empty 'pattern' string''))
         | Some pattern \<Rightarrow>
             (if strip pattern = [] then Inl (bad_request (command_kind_value kind @ '' payload requires non-empty 'pattern' string''))
              else if 2 * length pattern > 512 then Inl (bad_request ''pattern is longer than the driver's 512-byte UTF-16 limit'')
              else Inr ()))
      else Inr ())"

text \<open>The validator of the request body; its failure is answered with status 422.\<close>

definition check_payload :: "CommandKind \<Rightarrow> pydict \<Rightarrow> unit result" where
  "check_payload kind payload =
     (if kind = Cmd_ISOLATE then
        (case dget_default payload ''allowlist_ips'' (PList []) of
           PList _ \<Rightarrow> Inr () | _ \<Rightarrow> Inl (HTTPError 422 ''isolate payload requires allowlist_ips as a list''))
      else if kind = Cmd_QUARANTINE_FILE then
        (case as_str (dget payload ''path'') of
           None \<Rightarrow> Inl (HTTPError 422 ''quarantine_file payload requires non-empty 'path' string'')
         | Some path \<Rightarrow> (if strip path = [] then Inl (HTTPError 422 ''quarantine_file payload requires non-empty 'path' string'') else Inr ()))
      else (case validate_payload kind payload of
           Inl (HTTPError _ msg) \<Rightarrow> Inl (HTTPError 422 msg) | r \<Rightarrow> r))"

record CommandIn =
  ci_kind :: CommandKind
  ci_payload :: pydict

definition new_command :: "job_db \<Rightarrow> uuid \<Rightarrow> CommandKind \<Rightarrow> pydict \<Rightarrow> uuid option \<Rightarrow> uuid option \<Rightarrow> uuid option \<Rightarrow> Command" where
  "new_command db host kind payload alert rule user =
     \<lparr>cmd_id = j_next db, cmd_tenant_id = DEFAULT_TENANT_ID, cmd_host_id = host, cmd_kind = kind, cmd_status = CMD_PENDING,
      cmd_payload = payload, cmd_triggered_by_alert_id = alert, cmd_triggered_by_rule_id = rule, cmd_issued_by = user,
      cmd_dispatched_at = None, cmd_completed_at = None, cmd_error = None\<rparr>"

definition add_command :: "job_db \<Rightarrow> uuid \<Rightarrow> CommandKind \<Rightarrow> pydict \<Rightarrow> uuid option \<Rightarrow> uuid option \<Rightarrow> uuid option \<Rightarrow> job_db" where
  "add_command db host kind payload alert rule user =
     db\<lparr>j_commands := j_commands db @ [new_command db host kind payload alert rule user], j_next := j_next db + 1\<rparr>"

definition effective_payload :: "guard_settings \<Rightarrow> resolver \<Rightarrow> CommandIn \<Rightarrow> pydict result" where
  "effective_payload settings getaddrinfo body =
     (if ci_kind body = Cmd_ISOLATE \<and> truthy (dget (ci_payload body) ''isolate'')
      then ensure_manager_in_allowlist settings getaddrinfo (ci_payload body)
      else Inr (ci_payload body))"

definition queue_command ::
  "guard_settings \<Rightarrow> resolver \<Rightarrow> job_db \<Rightarrow> Actor \<Rightarrow> uuid \<Rightarrow> CommandIn \<Rightarrow> (job_db \<times> audit_request) result" where
  "queue_command settings getaddrinfo db actor host_id body =
     bindE (RequireAnalyst actor) (\<lambda>actor.
     bindE (check_payload (ci_kind body) (ci_payload body)) (\<lambda>_.
       if find (\<lambda>h. hst_id h = host_id) (j_hosts db) = None then Inl (HTTPError 404 ''host not found'')
       else if \<not> host_visible_to (scope_view db) actor (Some host_id) then Inl (not_found ''host'' host_id)
       else bindE (validate_payload (ci_kind body) (ci_payload body)) (\<lambda>_.
            bindE (effective_payload settings getaddrinfo body) (\<lambda>payload.
              Inr (add_command db host_id (ci_kind body) payload None None (Some (u_id (actor_user actor))),
                   \<lparr>rq_actor = Some actor, rq_action = ''command.queue'', rq_resource_type = Some ''host'',
                    rq_resource_id = Some (uuid_str host_id),
                    rq_payload = Some [(''command_id'', PStr (uuid_str (j_next db))), (''kind'', PStr (command_kind_value (ci_kind body))),
                      (''payload'', PDict payload)],
                    rq_ip = None, rq_tenant_id = None\<rparr>)))))"

end
