(* ===== verification/Policy_Push.thy ===== *)
theory Policy_Push
  imports Command_Wire
begin

text \<open>
  Distribution of host policies: DNS blocks (backend/app/services/dns_block.py, api/dns_block.py,
  schemas/dns_block.py), USB device control (services/device_control.py, api/device_policies.py) and
  honeytokens (services/honeytoken.py, api/honeytokens.py). Each edit changes one row and queues, for
  every host it concerns, commands that carry the whole effective policy of that host.
\<close>

section \<open>Tables\<close>

datatype DnsBlockAction = DNS_BLOCK | DNS_SINKHOLE

fun dns_action_value :: "DnsBlockAction \<Rightarrow> string" where
  "dns_action_value DNS_BLOCK = ''block''"
| "dns_action_value DNS_SINKHOLE = ''sinkhole''"

record DnsBlockEntry =
  dns_id :: uuid
  dns_tenant_id :: uuid
  dns_host_group_id :: "uuid option"
  dns_domain :: string
  dns_action :: DnsBlockAction
  dns_created_by :: "uuid option"
  dns_expires_at :: "datetime option"

datatype DevicePolicyKind = USB_BLOCK | USB_READ_ONLY | USB_ALLOW_ONLY

fun device_kind_value :: "DevicePolicyKind \<Rightarrow> string" where
  "device_kind_value USB_BLOCK = ''usb_block''"
| "device_kind_value USB_READ_ONLY = ''usb_read_only''"
| "device_kind_value USB_ALLOW_ONLY = ''usb_allow_only''"

record DevicePolicy =
  dp_id :: uuid
  dp_host_group_id :: "uuid option"
  dp_kind :: DevicePolicyKind
  dp_name :: string
  dp_description :: "string option"
  dp_allowed_vendor_ids :: "string list"
  dp_allowed_product_ids :: "string list"
  dp_enabled :: bool
  dp_updated_at :: datetime

datatype HoneytokenKind = CREDS_IN_LSASS | FAKE_FILE | FAKE_REGKEY

fun honeytoken_kind_value :: "HoneytokenKind \<Rightarrow> string" where
  "honeytoken_kind_value CREDS_IN_LSASS = ''creds_in_lsass''"
| "honeytoken_kind_value FAKE_FILE = ''fake_file''"
| "honeytoken_kind_value FAKE_REGKEY = ''fake_regkey''"

record Honeytoken =
  ht_id :: uuid
  ht_tenant_id :: uuid
  ht_host_group_id :: "uuid option"
  ht_kind :: HoneytokenKind
  ht_name :: string
  ht_payload_json :: pydict
  ht_target_path :: "string option"
  ht_enabled :: bool
  ht_deployed_count :: int
  ht_hit_count :: int

record HoneytokenHit =
  hit_id :: uuid
  hit_tenant_id :: uuid
  hit_honeytoken_id :: uuid
  hit_host_id :: uuid
  hit_hit_at :: datetime
  hit_process_pid :: "int option"
  hit_process_executable :: "string option"
  hit_alert_id :: uuid

record push_db =
  pd_jobs :: job_db
  pd_groups :: "(uuid \<times> uuid) list"
  pd_dns :: "DnsBlockEntry list"
  pd_devices :: "DevicePolicy list"
  pd_tokens :: "Honeytoken list"
  pd_hits :: "HoneytokenHit list"
  pd_alerts :: "Alert list"
  pd_rule_ids :: "uuid list"

section \<open>Hosts of an edit\<close>

definition group_ids_of :: "job_db \<Rightarrow> uuid \<Rightarrow> uuid list" where
  "group_ids_of db h = map snd (filter (\<lambda>(h', g). h' = h) (j_host_in_group db))"

definition in_scope :: "job_db \<Rightarrow> uuid option \<Rightarrow> Host \<Rightarrow> bool" where
  "in_scope db grp h \<longleftrightarrow> hst_status h \<noteq> DECOMMISSIONED \<and>
     (case grp of None \<Rightarrow> True | Some g \<Rightarrow> (hst_id h, g) \<in> set (j_host_in_group db))"

definition hosts_in_scope :: "job_db \<Rightarrow> uuid option \<Rightarrow> Host list" where
  "hosts_in_scope db grp = filter (in_scope db grp) (j_hosts db)"

text \<open>A row applies to a host when it is global or names one of the host's groups.\<close>

definition applies :: "uuid list \<Rightarrow> uuid option \<Rightarrow> bool" where
  "applies groups g = (case g of None \<Rightarrow> True | Some x \<Rightarrow> x \<in> set groups)"

definition append_command :: "Command \<Rightarrow> job_db \<Rightarrow> job_db" where
  "append_command c db = db\<lparr>j_commands := j_commands db @ [c], j_next := j_next db + 1\<rparr>"

definition push_audit :: "Actor \<Rightarrow> string \<Rightarrow> string \<Rightarrow> string \<Rightarrow> pydict \<Rightarrow> audit_request" where
  "push_audit actor action resource_type resource_id payload =
     \<lparr>rq_actor = Some actor, rq_action = action, rq_resource_type = Some resource_type, rq_resource_id = Some resource_id,
      rq_payload = Some payload, rq_ip = None, rq_tenant_id = None\<rparr>"

definition conflict :: "string \<Rightarrow> exn" where
  "conflict detail = HTTPError 409 detail"

definition scope_text :: "uuid option \<Rightarrow> string" where
  "scope_text grp = (case grp of None \<Rightarrow> ''global'' | Some g \<Rightarrow> uuid_str g)"

definition str_list :: "string list \<Rightarrow> pyval" where
  "str_list xs = PList (map PStr xs)"

section \<open>DNS blocks\<close>

definition effective_set_for_host_groups :: "DnsBlockEntry list \<Rightarrow> uuid list \<Rightarrow> string list \<times> string list" where
  "effective_set_for_host_groups entries groups =
     (let rows = filter (\<lambda>e. applies groups (dns_host_group_id e)) entries in
      (sort (remdups (map dns_domain (filter (\<lambda>e. dns_action e \<noteq> DNS_SINKHOLE) rows))),
       sort (remdups (map dns_domain (filter (\<lambda>e. dns_action e = DNS_SINKHOLE) rows)))))"

definition dns_payload :: "string list \<times> string list \<Rightarrow> pydict" where
  "dns_payload bs = [(''block_domains'', str_list (fst bs)), (''sinkhole_domains'', str_list (snd bs))]"

definition dns_push_host :: "DnsBlockEntry list \<Rightarrow> uuid option \<Rightarrow> Host \<Rightarrow> job_db \<Rightarrow> job_db" where
  "dns_push_host entries user h db =
     append_command (new_command db (hst_id h) Cmd_DNS_BLOCK_SYNC
       (dns_payload (effective_set_for_host_groups entries (group_ids_of db (hst_id h)))) None None user) db"

definition queue_resync_commands :: "DnsBlockEntry list \<Rightarrow> uuid option \<Rightarrow> uuid option \<Rightarrow> job_db \<Rightarrow> job_db" where
  "queue_resync_commands entries grp user db = fold (dns_push_host entries user) (hosts_in_scope db grp) db"

definition rstrip_char :: "char \<Rightarrow> string \<Rightarrow> string" where
  "rstrip_char c s = rev (dropWhile (\<lambda>x. x = c) (rev s))"

definition normalise_domain :: "string \<Rightarrow> string" where
  "normalise_domain s = rstrip_char CHR ''.'' (lower (strip s))"

definition domain_char :: "char \<Rightarrow> bool" where
  "domain_char c \<longleftrightarrow> is_word c \<or> c = CHR ''-'' \<or> c = CHR ''.''"

definition check_domain :: "string \<Rightarrow> string result" where
  "check_domain v = (if v = [] \<or> length v > 253 then Inl (HTTPError 422 ''domain length'')
     else let out = normalise_domain v in
       if out = [] then Inl (HTTPError 422 ''domain is empty after normalisation'')
       else if \<not> list_all domain_char out then Inl (HTTPError 422 ''invalid character in domain'')
       else Inr out)"

fun normalise_each :: "string list \<Rightarrow> string list \<Rightarrow> string list" where
  "normalise_each seen [] = []"
| "normalise_each seen (raw # rest) =
     (let d = normalise_domain raw in
      if d = [] \<or> d \<in> set seen then normalise_each seen rest else d # normalise_each (d # seen) rest)"

definition check_domains :: "string list \<Rightarrow> string list result" where
  "check_domains v = (if v = [] \<or> length v > 10000 then Inl (HTTPError 422 ''domains length'')
     else let out = normalise_each [] v in
       if out = [] then Inl (HTTPError 422 ''no valid domains after normalisation'') else Inr out)"

definition validate_host_group :: "push_db \<Rightarrow> Actor \<Rightarrow> uuid option \<Rightarrow> unit result" where
  "validate_host_group db actor grp = (case grp of
       None \<Rightarrow> Inr ()
     | Some g \<Rightarrow> (if map_of (pd_groups db) g = Some (actor_tenant_id actor) then Inr ()
                   else Inl (bad_request (''unknown host_group_id: '' @ uuid_str g))))"

definition same_scope_entry :: "Actor \<Rightarrow> uuid option \<Rightarrow> string \<Rightarrow> DnsBlockEntry \<Rightarrow> bool" where
  "same_scope_entry actor grp domain e \<longleftrightarrow>
     dns_domain e = domain \<and> dns_tenant_id e = actor_tenant_id actor \<and> dns_host_group_id e = grp"

definition new_entry :: "Actor \<Rightarrow> uuid \<Rightarrow> uuid option \<Rightarrow> string \<Rightarrow> DnsBlockAction \<Rightarrow> datetime option \<Rightarrow> DnsBlockEntry" where
  "new_entry actor i grp domain action expires =
     \<lparr>dns_id = i, dns_tenant_id = actor_tenant_id actor, dns_host_group_id = grp, dns_domain = domain, dns_action = action,
      dns_created_by = Some (u_id (actor_user actor)), dns_expires_at = expires\<rparr>"

definition next_id :: "push_db \<Rightarrow> uuid" where
  "next_id db = j_next (pd_jobs db)"

definition skip_ids :: "nat \<Rightarrow> job_db \<Rightarrow> job_db" where
  "skip_ids n db = db\<lparr>j_next := j_next db + n\<rparr>"

definition create_entry ::
  "push_db \<Rightarrow> Actor \<Rightarrow> uuid option \<Rightarrow> string \<Rightarrow> DnsBlockAction \<Rightarrow> datetime option \<Rightarrow> (push_db \<times> audit_request) result" where
  "create_entry db actor grp raw action expires =
     bindE (RequireAdmin actor) (\<lambda>actor.
     bindE (check_domain raw) (\<lambda>domain.
     bindE (validate_host_group db actor grp) (\<lambda>_.
       if list_ex (same_scope_entry actor grp domain) (pd_dns db)
       then Inl (conflict (''dns block entry already exists for '' @ domain @ '' (scope='' @ scope_text grp @ '')''))
       else (let entries = pd_dns db @ [new_entry actor (next_id db) grp domain action expires] in
         Inr (db\<lparr>pd_dns := entries,
                 pd_jobs := queue_resync_commands entries grp (Some (u_id (actor_user actor))) (skip_ids 1 (pd_jobs db))\<rparr>,
              push_audit actor ''dns_block.create'' ''dns_block_entry'' (uuid_str (next_id db))
                [(''domain'', PStr domain), (''action'', PStr (dns_action_value action)), (''host_group_id'', opt_uuid grp),
                 (''expires_at'', case expires of None \<Rightarrow> PNone | Some t \<Rightarrow> PStr (isoformat t))])))))"

definition delete_entry :: "push_db \<Rightarrow> Actor \<Rightarrow> uuid \<Rightarrow> (push_db \<times> audit_request) result" where
  "delete_entry db actor i =
     bindE (RequireAdmin actor) (\<lambda>actor.
       case find (\<lambda>e. dns_id e = i) (pd_dns db) of
         None \<Rightarrow> Inl (not_found ''dns_block_entry'' i)
       | Some e \<Rightarrow>
           (if dns_tenant_id e \<noteq> actor_tenant_id actor then Inl (not_found ''dns_block_entry'' i)
            else (let entries = filter (\<lambda>x. dns_id x \<noteq> i) (pd_dns db) in
              Inr (db\<lparr>pd_dns := entries,
                      pd_jobs := queue_resync_commands entries (dns_host_group_id e) (Some (u_id (actor_user actor))) (pd_jobs db)\<rparr>,
                   push_audit actor ''dns_block.delete'' ''dns_block_entry'' (uuid_str i)
                     [(''domain'', PStr (dns_domain e)), (''action'', PStr (dns_action_value (dns_action e))),
                      (''host_group_id'', opt_uuid (dns_host_group_id e))]))))"

definition bulk_import ::
  "push_db \<Rightarrow> Actor \<Rightarrow> uuid option \<Rightarrow> string list \<Rightarrow> DnsBlockAction \<Rightarrow> (push_db \<times> audit_request \<times> nat \<times> nat) result" where
  "bulk_import db actor grp raws action =
     bindE (RequireAdmin actor) (\<lambda>actor.
     bindE (check_domains raws) (\<lambda>domains.
     bindE (validate_host_group db actor grp) (\<lambda>_.
       let fresh = filter (\<lambda>d. \<not> list_ex (same_scope_entry actor grp d) (pd_dns db)) domains;
           inserted = length fresh; skipped = length domains - length fresh;
           entries = pd_dns db @ map (\<lambda>(k, d). new_entry actor (next_id db + k) grp d action None) (enumerate 0 fresh);
           jobs = skip_ids inserted (pd_jobs db)
       in Inr (db\<lparr>pd_dns := entries,
                  pd_jobs := (if inserted > 0 then queue_resync_commands entries grp (Some (u_id (actor_user actor))) jobs else jobs)\<rparr>,
               push_audit actor ''dns_block.import'' ''dns_block_entry'' (scope_text grp)
                 [(''host_group_id'', opt_uuid grp), (''action'', PStr (dns_action_value action)), (''inserted'', PInt (int inserted)),
                  (''skipped'', PInt (int skipped)), (''total'', PInt (int (length domains)))],
               inserted, skipped))))"

section \<open>Device control\<close>

text \<open>Enabled policies first, then the most recently updated.\<close>

definition effective_policies_for_host :: "DevicePolicy list \<Rightarrow> uuid list \<Rightarrow> DevicePolicy list" where
  "effective_policies_for_host policies groups =
     (let rows = filter (\<lambda>p. applies groups (dp_host_group_id p)) policies in
      sort_key (\<lambda>p. - dp_updated_at p) (filter dp_enabled rows) @
      sort_key (\<lambda>p. - dp_updated_at p) (filter (\<lambda>p. \<not> dp_enabled p) rows))"

definition device_payload :: "DevicePolicy \<Rightarrow> pydict" where
  "device_payload p =
     [(''kind'', PStr (device_kind_value (dp_kind p))), (''allowed_vids'', str_list (dp_allowed_vendor_ids p)),
      (''allowed_pids'', str_list (dp_allowed_product_ids p)), (''enabled'', PBool (dp_enabled p)), (''policy_id'', PStr (uuid_str (dp_id p)))]"

text \<open>The first policy of each kind wins.\<close>

fun first_per_kind :: "DevicePolicyKind list \<Rightarrow> DevicePolicy list \<Rightarrow> DevicePolicy list" where
  "first_per_kind seen [] = []"
| "first_per_kind seen (p # ps) = (if dp_kind p \<in> set seen then first_per_kind seen ps else p # first_per_kind (dp_kind p # seen) ps)"

definition device_push_to_host :: "DevicePolicy list \<Rightarrow> uuid option \<Rightarrow> Host \<Rightarrow> job_db \<Rightarrow> job_db" where
  "device_push_to_host policies user h db =
     fold (\<lambda>p db. append_command (new_command db (hst_id h) Cmd_DEVICE_CONTROL_SYNC (device_payload p) None None user) db)
       (first_per_kind [] (effective_policies_for_host policies (group_ids_of db (hst_id h)))) db"

definition device_push_to_group :: "DevicePolicy list \<Rightarrow> uuid option \<Rightarrow> uuid option \<Rightarrow> job_db \<Rightarrow> job_db" where
  "device_push_to_group policies grp user db = fold (device_push_to_host policies user) (hosts_in_scope db grp) db"

definition normalise_id :: "string \<Rightarrow> string result" where
  "normalise_id value =
     (let v = lower (strip value); v = (if startswith v ''0x'' then drop 2 v else v) in
      if length v = 4 \<and> list_all is_hex v then Inr v else Inl (HTTPError 422 ''expected 4 hex digits''))"

definition name_ok :: "string \<Rightarrow> bool" where
  "name_ok s \<longleftrightarrow> 1 \<le> length s \<and> length s \<le> 128"

record DevicePolicyCreate =
  dc_host_group_id :: "uuid option"
  dc_kind :: DevicePolicyKind
  dc_name :: string
  dc_description :: "string option"
  dc_allowed_vendor_ids :: "string list"
  dc_allowed_product_ids :: "string list"
  dc_enabled :: bool

definition same_name_policy :: "uuid option \<Rightarrow> string \<Rightarrow> DevicePolicy \<Rightarrow> bool" where
  "same_name_policy grp name p \<longleftrightarrow> dp_name p = name \<and> dp_host_group_id p = grp"

definition device_conflict :: "string \<Rightarrow> uuid option \<Rightarrow> exn" where
  "device_conflict name grp =
     conflict (''device policy '' @ repr_str name @ '' already exists (scope='' @ scope_text grp @ '')'')"

definition create_policy :: "datetime \<Rightarrow> push_db \<Rightarrow> Actor \<Rightarrow> DevicePolicyCreate \<Rightarrow> (push_db \<times> audit_request) result" where
  "create_policy now db actor body =
     bindE (RequireAdmin actor) (\<lambda>actor.
     bindE (mapE normalise_id (dc_allowed_vendor_ids body)) (\<lambda>vids.
     bindE (mapE normalise_id (dc_allowed_product_ids body)) (\<lambda>pids.
       if \<not> name_ok (dc_name body) \<or> length vids > 256 \<or> length pids > 256 \<or>
          (case dc_description body of None \<Rightarrow> False | Some d \<Rightarrow> length d > 512) then Inl (HTTPError 422 ''length'')
       else if list_ex (same_name_policy (dc_host_group_id body) (dc_name body)) (pd_devices db)
       then Inl (device_conflict (dc_name body) (dc_host_group_id body))
       else if (case dc_host_group_id body of None \<Rightarrow> False | Some g \<Rightarrow> map_of (pd_groups db) g = None) then Inl RuntimeError
       else (let p = \<lparr>dp_id = next_id db, dp_host_group_id = dc_host_group_id body, dp_kind = dc_kind body, dp_name = dc_name body,
                   dp_description = dc_description body, dp_allowed_vendor_ids = vids, dp_allowed_product_ids = pids,
                   dp_enabled = dc_enabled body, dp_updated_at = now\<rparr>;
                 policies = pd_devices db @ [p]
             in Inr (db\<lparr>pd_devices := policies,
                        pd_jobs := device_push_to_group policies (dp_host_group_id p) (Some (u_id (actor_user actor))) (skip_ids 1 (pd_jobs db))\<rparr>,
                     push_audit actor ''device_policy.create'' ''device_policy'' (uuid_str (dp_id p))
                       [(''name'', PStr (dp_name p)), (''kind'', PStr (device_kind_value (dp_kind p))),
                        (''host_group_id'', opt_uuid (dp_host_group_id p)), (''enabled'', PBool (dp_enabled p)),
                        (''allowed_vendor_ids'', str_list vids), (''allowed_product_ids'', str_list pids)])))))"

record DevicePolicyUpdate =
  du_kind :: "DevicePolicyKind option"
  du_name :: "string option"
  du_description :: "string option"
  du_allowed_vendor_ids :: "string list option"
  du_allowed_product_ids :: "string list option"
  du_enabled :: "bool option"

definition or_else :: "'a option \<Rightarrow> 'a \<Rightarrow> 'a" where
  "or_else x d = (case x of None \<Rightarrow> d | Some v \<Rightarrow> v)"

definition apply_device_update :: "DevicePolicyUpdate \<Rightarrow> DevicePolicy \<Rightarrow> DevicePolicy" where
  "apply_device_update u p =
     p\<lparr>dp_kind := or_else (du_kind u) (dp_kind p), dp_name := or_else (du_name u) (dp_name p),
       dp_description := (case du_description u of None \<Rightarrow> dp_description p | Some d \<Rightarrow> Some d),
       dp_allowed_vendor_ids := or_else (du_allowed_vendor_ids u) (dp_allowed_vendor_ids p),
       dp_allowed_product_ids := or_else (du_allowed_product_ids u) (dp_allowed_product_ids p),
       dp_enabled := or_else (du_enabled u) (dp_enabled p)\<rparr>"

definition device_changes :: "DevicePolicyUpdate \<Rightarrow> pydict" where
  "device_changes u =
     (case du_kind u of None \<Rightarrow> [] | Some k \<Rightarrow> [(''kind'', PStr (device_kind_value k))]) @
     (case du_name u of None \<Rightarrow> [] | Some n \<Rightarrow> [(''name'', PStr n)]) @
     (case du_description u of None \<Rightarrow> [] | Some d \<Rightarrow> [(''description'', PStr d)]) @
     (case du_allowed_vendor_ids u of None \<Rightarrow> [] | Some v \<Rightarrow> [(''allowed_vendor_ids'', str_list v)]) @
     (case du_allowed_product_ids u of None \<Rightarrow> [] | Some v \<Rightarrow> [(''allowed_product_ids'', str_list v)]) @
     (case du_enabled u of None \<Rightarrow> [] | Some b \<Rightarrow> [(''enabled'', PBool b)])"

definition normalise_ids :: "string list option \<Rightarrow> string list option result" where
  "normalise_ids v = (case v of
       None \<Rightarrow> Inr None
     | Some xs \<Rightarrow> (if length xs > 256 then Inl (HTTPError 422 ''length'') else bindE (mapE normalise_id xs) (\<lambda>ys. Inr (Some ys))))"

definition check_device_update :: "DevicePolicyUpdate \<Rightarrow> DevicePolicyUpdate result" where
  "check_device_update u =
     (if (case du_name u of None \<Rightarrow> False | Some n \<Rightarrow> \<not> name_ok n) \<or> (case du_description u of None \<Rightarrow> False | Some d \<Rightarrow> length d > 512)
      then Inl (HTTPError 422 ''length'')
      else bindE (normalise_ids (du_allowed_vendor_ids u)) (\<lambda>vids. bindE (normalise_ids (du_allowed_product_ids u)) (\<lambda>pids.
        Inr (u\<lparr>du_allowed_vendor_ids := vids, du_allowed_product_ids := pids\<rparr>))))"

text \<open>The time stamp moves only when a column changes.\<close>

definition update_policy :: "datetime \<Rightarrow> push_db \<Rightarrow> Actor \<Rightarrow> uuid \<Rightarrow> DevicePolicyUpdate \<Rightarrow> (push_db \<times> audit_request) result" where
  "update_policy now db actor i u =
     bindE (RequireAdmin actor) (\<lambda>actor. bindE (check_device_update u) (\<lambda>u.
       case find (\<lambda>p. dp_id p = i) (pd_devices db) of
         None \<Rightarrow> Inl (not_found ''device_policy'' i)
       | Some p \<Rightarrow>
           (if (case du_name u of None \<Rightarrow> False | Some n \<Rightarrow> n \<noteq> dp_name p \<and>
                  list_ex (\<lambda>q. same_name_policy (dp_host_group_id p) n q \<and> dp_id q \<noteq> i) (pd_devices db))
            then Inl (device_conflict (the (du_name u)) (dp_host_group_id p))
            else (let q = apply_device_update u p; q = (if q = p then p else q\<lparr>dp_updated_at := now\<rparr>);
                      policies = map (\<lambda>x. if dp_id x = i then q else x) (pd_devices db)
                  in Inr (db\<lparr>pd_devices := policies,
                             pd_jobs := device_push_to_group policies (dp_host_group_id p) (Some (u_id (actor_user actor))) (pd_jobs db)\<rparr>,
                          push_audit actor ''device_policy.update'' ''device_policy'' (uuid_str i) [(''changes'', PDict (device_changes u))])))))"

definition delete_policy :: "push_db \<Rightarrow> Actor \<Rightarrow> uuid \<Rightarrow> (push_db \<times> audit_request) result" where
  "delete_policy db actor i =
     bindE (RequireAdmin actor) (\<lambda>actor.
       case find (\<lambda>p. dp_id p = i) (pd_devices db) of
         None \<Rightarrow> Inl (not_found ''device_policy'' i)
       | Some p \<Rightarrow>
           (let policies = filter (\<lambda>x. dp_id x \<noteq> i) (pd_devices db)
            in Inr (db\<lparr>pd_devices := policies,
                       pd_jobs := device_push_to_group policies (dp_host_group_id p) (Some (u_id (actor_user actor))) (pd_jobs db)\<rparr>,
                    push_audit actor ''device_policy.delete'' ''device_policy'' (uuid_str i)
                      [(''name'', PStr (dp_name p)), (''kind'', PStr (device_kind_value (dp_kind p))),
                       (''host_group_id'', opt_uuid (dp_host_group_id p))])))"

section \<open>Honeytokens\<close>

text \<open>\<open>base64.b64encode(bs)\<close>\<close>

definition b64_char :: "nat \<Rightarrow> char" where
  "b64_char v = (if v < 26 then char_of (v + 65) else if v < 52 then char_of (v + 71) else if v < 62 then char_of (v - 4)
     else if v = 62 then CHR ''+'' else CHR ''/'')"

fun b64encode :: "bytes \<Rightarrow> string" where
  "b64encode [] = []"
| "b64encode [a] = [b64_char (code a div 4), b64_char (code a mod 4 * 16), CHR ''='', CHR ''='']"
| "b64encode [a, b] =
     [b64_char (code a div 4), b64_char (code a mod 4 * 16 + code b div 16), b64_char (code b mod 16 * 4), CHR ''='']"
| "b64encode (a # b # c # s) =
     b64_char (code a div 4) # b64_char (code a mod 4 * 16 + code b div 16) # b64_char (code b mod 16 * 4 + code c div 64) #
     b64_char (code c mod 64) # b64encode s"

definition payload_bytes :: "Honeytoken \<Rightarrow> bytes" where
  "payload_bytes t =
     (if ht_payload_json t = [] then []
      else (case as_str (dget (ht_payload_json t) ''body'') of
          Some body \<Rightarrow> (case b64decode body of Inr bs \<Rightarrow> bs | Inl _ \<Rightarrow> json_dumps (sort_keys (PDict (ht_payload_json t))))
        | None \<Rightarrow> json_dumps (sort_keys (PDict (ht_payload_json t)))))"

definition spec_for :: "Honeytoken \<Rightarrow> pyval" where
  "spec_for t = PDict [(''id'', PStr (uuid_str (ht_id t))), (''kind'', PStr (honeytoken_kind_value (ht_kind t))), (''name'', PStr (ht_name t)),
     (''target_path'', PStr (case ht_target_path t of None \<Rightarrow> [] | Some p \<Rightarrow> p)), (''payload_b64'', PStr (b64encode (payload_bytes t)))]"

definition effective_tokens_for_host :: "Honeytoken list \<Rightarrow> uuid \<Rightarrow> uuid list \<Rightarrow> Honeytoken list" where
  "effective_tokens_for_host tokens tenant groups =
     sort_key ht_name (filter (\<lambda>t. ht_tenant_id t = tenant \<and> ht_enabled t \<and> applies groups (ht_host_group_id t)) tokens)"

definition count_deployed :: "Honeytoken list \<Rightarrow> Honeytoken list \<Rightarrow> Honeytoken list" where
  "count_deployed eff tokens =
     map (\<lambda>t. if ht_id t \<in> set (map ht_id eff) then t\<lparr>ht_deployed_count := ht_deployed_count t + 1\<rparr> else t) tokens"

definition token_push_to_host :: "uuid option \<Rightarrow> Host \<Rightarrow> Honeytoken list \<times> job_db \<Rightarrow> Honeytoken list \<times> job_db" where
  "token_push_to_host user h = (\<lambda>(tokens, db).
     let eff = effective_tokens_for_host tokens (hst_tenant_id h) (group_ids_of db (hst_id h)) in
     if eff = [] then (tokens, db)
     else (count_deployed eff tokens,
           append_command ((new_command db (hst_id h) Cmd_DEPLOY_HONEYTOKEN [(''specs'', PList (map spec_for eff))] None None user)
             \<lparr>cmd_tenant_id := hst_tenant_id h\<rparr>) db))"

definition token_push_to_group :: "uuid \<Rightarrow> uuid option \<Rightarrow> uuid option \<Rightarrow> Honeytoken list \<times> job_db \<Rightarrow> Honeytoken list \<times> job_db" where
  "token_push_to_group tenant grp user st =
     fold (token_push_to_host user) (filter (\<lambda>h. hst_tenant_id h = tenant) (hosts_in_scope (snd st) grp)) st"

definition push_tokens :: "Actor \<Rightarrow> uuid option \<Rightarrow> Honeytoken list \<Rightarrow> job_db \<Rightarrow> push_db \<Rightarrow> push_db" where
  "push_tokens actor grp tokens jobs db =
     (case token_push_to_group (actor_tenant_id actor) grp (Some (u_id (actor_user actor))) (tokens, jobs) of
        (tokens', jobs') \<Rightarrow> db\<lparr>pd_tokens := tokens', pd_jobs := jobs'\<rparr>)"

record HoneytokenCreate =
  hc_host_group_id :: "uuid option"
  hc_kind :: HoneytokenKind
  hc_name :: string
  hc_payload_json :: pydict
  hc_target_path :: "string option"
  hc_enabled :: bool

definition token_conflict :: "string \<Rightarrow> exn" where
  "token_conflict name = conflict (''honeytoken '' @ repr_str name @ '' already exists in this tenant'')"

definition create_honeytoken :: "push_db \<Rightarrow> Actor \<Rightarrow> HoneytokenCreate \<Rightarrow> (push_db \<times> audit_request) result" where
  "create_honeytoken db actor body =
     bindE (RequireAdmin actor) (\<lambda>actor.
       if \<not> name_ok (hc_name body) \<or> (case hc_target_path body of None \<Rightarrow> False | Some p \<Rightarrow> length p > 1024)
       then Inl (HTTPError 422 ''length'')
       else if list_ex (\<lambda>t. ht_tenant_id t = actor_tenant_id actor \<and> ht_name t = hc_name body) (pd_tokens db)
       then Inl (token_conflict (hc_name body))
       else if (case hc_host_group_id body of None \<Rightarrow> False | Some g \<Rightarrow> map_of (pd_groups db) g = None) then Inl RuntimeError
       else (let t = \<lparr>ht_id = next_id db, ht_tenant_id = actor_tenant_id actor, ht_host_group_id = hc_host_group_id body, ht_kind = hc_kind body,
                   ht_name = hc_name body, ht_payload_json = hc_payload_json body, ht_target_path = hc_target_path body,
                   ht_enabled = hc_enabled body, ht_deployed_count = 0, ht_hit_count = 0\<rparr>
             in Inr (push_tokens actor (ht_host_group_id t) (pd_tokens db @ [t]) (skip_ids 1 (pd_jobs db)) db,
                     push_audit actor ''honeytoken.create'' ''honeytoken'' (uuid_str (ht_id t))
                       [(''name'', PStr (ht_name t)), (''kind'', PStr (honeytoken_kind_value (ht_kind t))),
                        (''host_group_id'', opt_uuid (ht_host_group_id t)), (''target_path'', opt_str (ht_target_path t)),
                        (''enabled'', PBool (ht_enabled t))])))"

record HoneytokenUpdate =
  hu_kind :: "HoneytokenKind option"
  hu_name :: "string option"
  hu_payload_json :: "pydict option"
  hu_target_path :: "string option"
  hu_enabled :: "bool option"

definition apply_token_update :: "HoneytokenUpdate \<Rightarrow> Honeytoken \<Rightarrow> Honeytoken" where
  "apply_token_update u t =
     t\<lparr>ht_kind := or_else (hu_kind u) (ht_kind t), ht_name := or_else (hu_name u) (ht_name t),
       ht_payload_json := or_else (hu_payload_json u) (ht_payload_json t),
       ht_target_path := (case hu_target_path u of None \<Rightarrow> ht_target_path t | Some p \<Rightarrow> Some p),
       ht_enabled := or_else (hu_enabled u) (ht_enabled t)\<rparr>"

definition token_changes :: "HoneytokenUpdate \<Rightarrow> pydict" where
  "token_changes u =
     (case hu_kind u of None \<Rightarrow> [] | Some k \<Rightarrow> [(''kind'', PStr (honeytoken_kind_value k))]) @
     (case hu_name u of None \<Rightarrow> [] | Some n \<Rightarrow> [(''name'', PStr n)]) @
     (case hu_payload_json u of None \<Rightarrow> [] | Some p \<Rightarrow> [(''payload_json'', PStr ''<updated>'')]) @
     (case hu_target_path u of None \<Rightarrow> [] | Some p \<Rightarrow> [(''target_path'', PStr p)]) @
     (case hu_enabled u of None \<Rightarrow> [] | Some b \<Rightarrow> [(''enabled'', PBool b)])"

definition own_token :: "push_db \<Rightarrow> Actor \<Rightarrow> uuid \<Rightarrow> Honeytoken result" where
  "own_token db actor i = (case find (\<lambda>t. ht_id t = i) (pd_tokens db) of
       None \<Rightarrow> Inl (not_found ''honeytoken'' i)
     | Some t \<Rightarrow> (if ht_tenant_id t \<noteq> actor_tenant_id actor then Inl (not_found ''honeytoken'' i) else Inr t))"

definition update_honeytoken :: "push_db \<Rightarrow> Actor \<Rightarrow> uuid \<Rightarrow> HoneytokenUpdate \<Rightarrow> (push_db \<times> audit_request) result" where
  "update_honeytoken db actor i u =
     bindE (RequireAdmin actor) (\<lambda>actor.
     bindE (if (case hu_name u of None \<Rightarrow> False | Some n \<Rightarrow> \<not> name_ok n) \<or>
                (case hu_target_path u of None \<Rightarrow> False | Some p \<Rightarrow> length p > 1024) then Inl (HTTPError 422 ''length'') else Inr ()) (\<lambda>_.
     bindE (own_token db actor i) (\<lambda>t.
       if (case hu_name u of None \<Rightarrow> False | Some n \<Rightarrow> n \<noteq> ht_name t \<and>
             list_ex (\<lambda>x. ht_tenant_id x = actor_tenant_id actor \<and> ht_name x = n \<and> ht_id x \<noteq> i) (pd_tokens db))
       then Inl (token_conflict (the (hu_name u)))
       else Inr (push_tokens actor (ht_host_group_id t)
                   (map (\<lambda>x. if ht_id x = i then apply_token_update u x else x) (pd_tokens db)) (pd_jobs db) db,
                 push_audit actor ''honeytoken.update'' ''honeytoken'' (uuid_str i) [(''changes'', PDict (token_changes u))]))))"

definition delete_honeytoken :: "push_db \<Rightarrow> Actor \<Rightarrow> uuid \<Rightarrow> (push_db \<times> audit_request) result" where
  "delete_honeytoken db actor i =
     bindE (RequireAdmin actor) (\<lambda>actor.
     bindE (own_token db actor i) (\<lambda>t.
       Inr (push_tokens actor (ht_host_group_id t) (filter (\<lambda>x. ht_id x \<noteq> i) (pd_tokens db)) (pd_jobs db) db,
            push_audit actor ''honeytoken.delete'' ''honeytoken'' (uuid_str i)
              [(''name'', PStr (ht_name t)), (''kind'', PStr (honeytoken_kind_value (ht_kind t))),
               (''host_group_id'', opt_uuid (ht_host_group_id t))])))"

definition HONEYTOKEN_HIT_RULE_ID :: uuid where
  "HONEYTOKEN_HIT_RULE_ID = 0xa0a0a0a0000000000000000000000013"

definition opt_int :: "int option \<Rightarrow> pyval" where
  "opt_int x = (case x of None \<Rightarrow> PNone | Some i \<Rightarrow> PInt i)"

text \<open>A touch on a decoy: the synthetic rule exists afterwards, and the tenant is the token's.\<close>

definition record_hit ::
  "datetime \<Rightarrow> uuid \<Rightarrow> uuid \<Rightarrow> int option \<Rightarrow> string option \<Rightarrow> datetime option \<Rightarrow> push_db \<Rightarrow> push_db \<times> HoneytokenHit option" where
  "record_hit now token_id host pid executable hit_at db =
     (case find (\<lambda>t. ht_id t = token_id) (pd_tokens db) of
        None \<Rightarrow> (db, None)
      | Some t \<Rightarrow> (case find (\<lambda>h. hst_id h = host) (j_hosts (pd_jobs db)) of
          None \<Rightarrow> (db, None)
        | Some h \<Rightarrow>
            (let when = or_else hit_at now; i = next_id db;
                 alert = \<lparr>a_id = i, a_tenant_id = ht_tenant_id t, a_host_id = Some host, a_rule_id = HONEYTOKEN_HIT_RULE_ID,
                   a_severity = CRITICAL, a_action_taken = ALERT, a_state = NEW,
                   a_summary = ''Honeytoken touched: '' @ repr_str (ht_name t),
                   a_details = PDict [(''honeytoken_id'', PStr (uuid_str token_id)), (''honeytoken_name'', PStr (ht_name t)),
                     (''honeytoken_kind'', PStr (honeytoken_kind_value (ht_kind t))), (''target_path'', opt_str (ht_target_path t)),
                     (''process_pid'', opt_int pid), (''process_executable'', opt_str executable), (''host_id'', PStr (uuid_str host)),
                     (''hit_at'', PStr (isoformat when)), (''detector'', PStr ''honeytoken_hit_v1'')],
                   a_mitre = None, a_opened_at = now, a_closed_at = None, a_assignee_id = None, a_incident_id = None,
                   a_dedup_key = None, a_occurrence_count = 1, a_last_occurred_at = now\<rparr>;
                 hit = \<lparr>hit_id = i + 1, hit_tenant_id = ht_tenant_id t, hit_honeytoken_id = token_id, hit_host_id = host,
                   hit_hit_at = when, hit_process_pid = pid, hit_process_executable = executable, hit_alert_id = i\<rparr>
             in (db\<lparr>pd_rule_ids := (if HONEYTOKEN_HIT_RULE_ID \<in> set (pd_rule_ids db) then pd_rule_ids db
                                     else pd_rule_ids db @ [HONEYTOKEN_HIT_RULE_ID]),
                    pd_alerts := pd_alerts db @ [alert], pd_hits := pd_hits db @ [hit],
                    pd_tokens := map (\<lambda>x. if ht_id x = token_id then x\<lparr>ht_hit_count := ht_hit_count x + 1\<rparr> else x) (pd_tokens db),
                    pd_jobs := skip_ids 2 (pd_jobs db)\<rparr>, Some hit))))"

end
