(* ===== verification/Command_Wire_Correct.thy ===== *)
theory Command_Wire_Correct
  imports Command_Wire Jobs_Correct
begin

text \<open>
  Correctness of command delivery: which rows a pass of the dispatcher marks and which messages it
  sends, that every translatable command is sent once and in order, what a command whose translation
  raises does to the others, and what the isolation guard guarantees for the message an agent receives.
\<close>

section \<open>A pass of the dispatcher\<close>

text \<open>What the row says to the agent, if its translation returns.\<close>

definition translate :: "Command \<Rightarrow> pb_body option" where
  "translate c = (case command_body (cmd_kind c) (cmd_payload c) of Inl _ \<Rightarrow> None | Inr b \<Rightarrow> b)"

definition translatable :: "Command \<Rightarrow> bool" where
  "translatable c \<longleftrightarrow> (\<exists>b. command_body (cmd_kind c) (cmd_payload c) = Inr b)"

definition wire :: "Command \<Rightarrow> (string \<times> pb_body) option" where
  "wire c = map_option (\<lambda>b. (uuid_str (cmd_id c), b)) (translate c)"

definition content :: "pb_command \<Rightarrow> string \<times> pb_body" where
  "content m = (pbc_command_id m, pbc_body m)"

lemma content_message [simp]: "content \<lparr>pbc_command_id = i, pbc_issued_at = t, pbc_body = b\<rparr> = (i, b)"
  by (simp add: content_def)

lemma command_to_pb_translatable:
  "translatable c \<Longrightarrow> command_to_pb now c =
     Inr (map_option (\<lambda>b. \<lparr>pbc_command_id = uuid_str (cmd_id c), pbc_issued_at = now, pbc_body = b\<rparr>) (translate c))"
  by (auto simp: translatable_def command_to_pb_def translate_def)

lemma command_to_pb_raises: "\<not> translatable c \<Longrightarrow> \<exists>e. command_to_pb now c = Inl e"
  by (cases "command_body (cmd_kind c) (cmd_payload c)") (auto simp: translatable_def command_to_pb_def)

lemma drain_loop_prefix:
  assumes "list_all translatable pre"
  shows "\<exists>db' out. drain_loop (command_to_pb now) now (pre @ cs) db =
      (fst (drain_loop (command_to_pb now) now cs db'), out @ snd (drain_loop (command_to_pb now) now cs db')) \<and>
      map content out = List.map_filter wire pre"
  using assms
proof (induction pre arbitrary: db)
  case Nil
  show ?case by (rule exI [of _ db], rule exI [of _ "[]"]) simp
next
  case (Cons c pre)
  let ?db1 = "update_command (cmd_id c) (mark_command now (map_option (\<lambda>b. \<lparr>pbc_command_id = uuid_str (cmd_id c),
      pbc_issued_at = now, pbc_body = b\<rparr>) (translate c))) db"
  have tr: "translatable c" and trs: "list_all translatable pre" using Cons.prems by simp_all
  from Cons.IH [OF trs] obtain db' out where rec: "drain_loop (command_to_pb now) now (pre @ cs) ?db1 =
      (fst (drain_loop (command_to_pb now) now cs db'), out @ snd (drain_loop (command_to_pb now) now cs db'))"
    "map content out = List.map_filter wire pre" by blast
  show ?case
  proof (cases "translate c")
    case None
    then have "wire c = None" by (simp add: wire_def)
    with rec tr None show ?thesis
      by (intro exI [of _ db'] exI [of _ out]) (simp add: command_to_pb_translatable map_filter_simps)
  next
    case (Some b)
    then have "wire c = Some (uuid_str (cmd_id c), b)" by (simp add: wire_def)
    with rec tr Some show ?thesis
      by (intro exI [of _ db'] exI [of _ "\<lparr>pbc_command_id = uuid_str (cmd_id c), pbc_issued_at = now, pbc_body = b\<rparr> # out"])
        (simp add: command_to_pb_translatable map_filter_simps)
  qed
qed

text \<open>The table after a pass that raises nothing.\<close>

definition mark_row :: "datetime \<Rightarrow> Command \<Rightarrow> Command" where
  "mark_row now c = mark_command now (translate c) c"

lemma mark_command_shape: "mark_command now (map_option f x) = mark_command now x"
  by (cases x) (simp_all add: mark_command_def fun_eq_iff)

lemma mark_row_simps [simp]: "cmd_id (mark_row now c) = cmd_id c" "cmd_host_id (mark_row now c) = cmd_host_id c"
  "cmd_status (mark_row now c) \<noteq> CMD_PENDING"
  by (simp_all add: mark_row_def mark_command_def split: option.split)

lemma drain_loop_table:
  assumes "list_all translatable cs" "distinct (map cmd_id cs)" "set cs \<subseteq> set (j_commands db)" "distinct (map cmd_id (j_commands db))"
  shows "fst (drain_loop (command_to_pb now) now cs db) =
    Inr (db\<lparr>j_commands := map (\<lambda>r. if r \<in> set cs then mark_row now r else r) (j_commands db)\<rparr>)"
  using assms
proof (induction cs arbitrary: db)
  case (Cons c cs)
  let ?db1 = "update_command (cmd_id c) (mark_command now (translate c)) db"
  have same: "cmd_id r = cmd_id c \<longleftrightarrow> r = c" if "r \<in> set (j_commands db)" for r
    using that Cons.prems(3,4) by (auto simp: distinct_map inj_on_def)
  have cmds: "j_commands ?db1 = map (\<lambda>r. if r = c then mark_row now r else r) (j_commands db)"
    using same by (auto simp: update_command_def mark_row_def)
  have cid: "cmd_id c \<notin> cmd_id ` set cs" using Cons.prems(2) by simp
  then have notin: "c \<notin> set cs" "mark_row now c \<notin> set cs" by (metis image_eqI mark_row_simps(1))+
  have "fst (drain_loop (command_to_pb now) now cs ?db1) =
      Inr (?db1\<lparr>j_commands := map (\<lambda>r. if r \<in> set cs then mark_row now r else r) (j_commands ?db1)\<rparr>)"
  proof (rule Cons.IH)
    have "map cmd_id (j_commands ?db1) = map cmd_id (j_commands db)" unfolding cmds by simp
    with Cons.prems(4) show "distinct (map cmd_id (j_commands ?db1))" by simp
    show "set cs \<subseteq> set (j_commands ?db1)" using Cons.prems(3) notin unfolding cmds by auto
  qed (use Cons.prems in simp_all)
  moreover have "map (\<lambda>r. if r \<in> set cs then mark_row now r else r) (j_commands ?db1) =
      map (\<lambda>r. if r \<in> set (c # cs) then mark_row now r else r) (j_commands db)"
    unfolding cmds using notin by auto
  moreover have "?db1\<lparr>j_commands := x\<rparr> = db\<lparr>j_commands := x\<rparr>" for x by (simp add: update_command_def)
  ultimately have rec: "fst (drain_loop (command_to_pb now) now cs ?db1) =
      Inr (db\<lparr>j_commands := map (\<lambda>r. if r \<in> set (c # cs) then mark_row now r else r) (j_commands db)\<rparr>)" by (simp only:)
  have "fst (drain_loop (command_to_pb now) now (c # cs) db) = fst (drain_loop (command_to_pb now) now cs ?db1)"
    using Cons.prems(1) by (simp add: command_to_pb_translatable mark_command_shape case_prod_beta)
  then show ?case unfolding rec .
qed simp

text \<open>A pass over commands that all translate.\<close>

lemma filter_map_marked:
  "(\<And>r. \<not> P (m r)) \<Longrightarrow> filter P (map (\<lambda>r. if r \<in> S then m r else r) xs) = filter (\<lambda>r. r \<notin> S) (filter P xs)"
  by (induction xs) auto

lemma dispatch_pending_ok:
  assumes "list_all translatable (pending_commands host db)" "distinct (map cmd_id (j_commands db))"
  shows "map content (snd (dispatch_pending now host db)) = List.map_filter wire (take 16 (pending_commands host db))"
    and "pending_commands host (fst (dispatch_pending now host db)) = drop 16 (pending_commands host db)"
    and "map cmd_id (j_commands (fst (dispatch_pending now host db))) = map cmd_id (j_commands db)"
proof -
  let ?p = "pending_commands host db" and ?t = "take 16 (pending_commands host db)"
  have tr: "list_all translatable ?t" using assms(1) by (auto simp: list_all_iff dest: in_set_takeD)
  have sub: "set ?t \<subseteq> set (j_commands db)" by (auto simp: pending_commands_def dest: in_set_takeD)
  have dp: "distinct ?p" "distinct (map cmd_id ?p)" using assms(2)
    by (simp_all add: pending_commands_def distinct_map_filter) (meson distinct_filter distinct_map)
  then have "distinct (map cmd_id ?t)" by (simp flip: take_map)
  then have db': "fst (dispatch_pending now host db) = db\<lparr>j_commands := map (\<lambda>r. if r \<in> set ?t then mark_row now r else r) (j_commands db)\<rparr>"
    and out: "snd (dispatch_pending now host db) = snd (drain_loop (command_to_pb now) now ?t db)"
    using drain_loop_table [OF tr \<open>distinct (map cmd_id ?t)\<close> sub assms(2), of now]
    by (simp_all add: dispatch_pending_def drain_pending_def case_prod_beta split: sum.split)
  from drain_loop_prefix [OF tr, of now "[]" db] show "map content (snd (dispatch_pending now host db)) = List.map_filter wire ?t"
    unfolding out by auto
  show "map cmd_id (j_commands (fst (dispatch_pending now host db))) = map cmd_id (j_commands db)"
    unfolding db' by simp
  have "pending_commands host (fst (dispatch_pending now host db)) = filter (\<lambda>r. r \<notin> set ?t) ?p"
    unfolding db' by (subst pending_commands_def) (simp add: filter_map_marked pending_commands_def)
  also have "\<dots> = drop 16 ?p"
  proof -
    have "set (drop 16 ?p) \<inter> set ?t = {}" using dp(1) by (metis append_take_drop_id distinct_append inf_commute)
    then show ?thesis using append_take_drop_id [of 16 ?p]
      by (metis (no_types, lifting) disjoint_iff filter_False filter_True filter_append self_append_conv2)
  qed
  finally show "pending_commands host (fst (dispatch_pending now host db)) = drop 16 ?p" .
qed

text \<open>The dispatcher over its wake-ups.\<close>

fun dispatch_runs :: "datetime list \<Rightarrow> uuid \<Rightarrow> job_db \<Rightarrow> job_db \<times> pb_command list" where
  "dispatch_runs [] host db = (db, [])"
| "dispatch_runs (now # ts) host db =
     (case dispatch_pending now host db of (db1, out) \<Rightarrow> case dispatch_runs ts host db1 of (db2, out2) \<Rightarrow> (db2, out @ out2))"

lemma map_filter_append: "List.map_filter f (xs @ ys) = List.map_filter f xs @ List.map_filter f ys"
  by (simp add: map_filter_def)

lemma dispatch_runs_ok:
  assumes "distinct (map cmd_id (j_commands db))" "list_all translatable (pending_commands host db)"
    "length (pending_commands host db) \<le> 16 * length ts"
  shows "pending_commands host (fst (dispatch_runs ts host db)) = [] \<and>
    map content (snd (dispatch_runs ts host db)) = List.map_filter wire (pending_commands host db)"
  using assms
proof (induction ts arbitrary: db)
  case Nil
  then show ?case by (simp add: map_filter_simps)
next
  case (Cons now ts)
  obtain db1 out where p: "dispatch_pending now host db = (db1, out)" by (meson surj_pair)
  note ok = dispatch_pending_ok [OF Cons.prems(2,1), of now, unfolded p fst_conv snd_conv]
  have "list_all translatable (drop 16 (pending_commands host db))"
    using Cons.prems(2) by (auto simp: list_all_iff dest: in_set_dropD)
  then have "pending_commands host (fst (dispatch_runs ts host db1)) = [] \<and>
      map content (snd (dispatch_runs ts host db1)) = List.map_filter wire (pending_commands host db1)"
    using Cons.prems by (intro Cons.IH) (simp_all add: ok)
  moreover have "List.map_filter wire (pending_commands host db) =
      List.map_filter wire (take 16 (pending_commands host db)) @ List.map_filter wire (drop 16 (pending_commands host db))"
    by (metis append_take_drop_id map_filter_append)
  ultimately show ?case using ok p by (simp add: case_prod_beta)
qed

text \<open>A command whose translation raises, among the first sixteen.\<close>

lemma dispatch_pending_raises:
  assumes "pending_commands host db = pre @ c # post" "length pre < 16" "list_all translatable pre" "\<not> translatable c"
  shows "fst (dispatch_pending now host db) = db" "map content (snd (dispatch_pending now host db)) = List.map_filter wire pre"
proof -
  have split: "take 16 (pending_commands host db) = pre @ c # take (15 - length pre) post"
    using assms(1,2) by (simp add: take_Cons' Suc_diff_Suc)
  obtain e where e: "command_to_pb now c = Inl e" using command_to_pb_raises [OF assms(4)] by blast
  from drain_loop_prefix [OF assms(3), of now "c # take (15 - length pre) post" db] e
  show "fst (dispatch_pending now host db) = db" "map content (snd (dispatch_pending now host db)) = List.map_filter wire pre"
    by (auto simp: dispatch_pending_def drain_pending_def split)
qed

lemma dispatch_runs_raises:
  assumes "pending_commands host db = pre @ c # post" "length pre < 16" "list_all translatable pre" "\<not> translatable c"
  shows "fst (dispatch_runs ts host db) = db \<and>
    map content (snd (dispatch_runs ts host db)) = concat (replicate (length ts) (List.map_filter wire pre))"
proof (induction ts)
  case (Cons now ts)
  then show ?case using dispatch_pending_raises [OF assms, of now] by (auto split: prod.split)
qed simp

lemma kill_oversized:
  "cmd_kind c = Cmd_KILL_PROCESS \<Longrightarrow> dget (cmd_payload c) ''pid'' = PInt pid \<Longrightarrow> 2 ^ 32 \<le> pid \<Longrightarrow> \<not> translatable c"
  by (auto simp: translatable_def kill_body_def)


section \<open>Writers of commands\<close>

text \<open>Appending well-formed rows: how every component that queues commands changes the tables.\<close>

definition grows :: "(Command \<Rightarrow> bool) \<Rightarrow> job_db \<Rightarrow> job_db \<Rightarrow> bool" where
  "grows P db db' \<longleftrightarrow> j_hosts db' = j_hosts db \<and> (wf_jobs db \<longrightarrow> wf_jobs db') \<and>
     (\<exists>cs. j_commands db' = j_commands db @ cs \<and> list_all P cs)"

lemma grows_refl [intro]: "grows P db db"
  by (auto simp: grows_def intro!: exI [of _ "[]"])

lemma grows_trans: "grows P a b \<Longrightarrow> grows P b c \<Longrightarrow> grows P a c"
  unfolding grows_def by auto

lemma grows_mono: "grows P a b \<Longrightarrow> (\<And>c. P c \<Longrightarrow> Q c) \<Longrightarrow> grows Q a b"
  unfolding grows_def by (auto simp: list_all_iff)

lemma grows_fold: "(\<And>x db. x \<in> set xs \<Longrightarrow> grows P db (f db x)) \<Longrightarrow> grows P db (foldl f db xs)"
proof (induction xs arbitrary: db)
  case (Cons x xs)
  have "grows P db (f db x)" by (rule Cons.prems) simp
  also have "grows P (f db x) (foldl f (f db x) xs)" by (rule Cons.IH) (simp add: Cons.prems)
  finally (grows_trans) show ?case by simp
qed auto

lemma grows_next: "grows P db (db\<lparr>j_next := j_next db + n\<rparr>)"
  by (auto simp: grows_def wf_jobs_def intro!: exI [of _ "[]"])

lemma grows_add_command:
  assumes "P (new_command db host kind payload alert rule user)"
  shows "grows P db (add_command db host kind payload alert rule user)"
  using assms by (auto simp: grows_def add_command_def wf_jobs_def new_command_def less_Suc_eq)

text \<open>What keeps a command from being sent: only a pid outside the range of its field.\<close>

definition sendable :: "CommandKind \<Rightarrow> pydict \<Rightarrow> bool" where
  "sendable kind payload \<longleftrightarrow> (\<exists>b. command_body kind payload = Inr (Some b)) \<or>
     (kind = Cmd_KILL_PROCESS \<and> (\<exists>pid. as_int (dget payload ''pid'') = Some pid \<and> 2 ^ 32 \<le> pid))"

lemma sendable_kill: "as_int v = Some i \<Longrightarrow> 0 < i \<Longrightarrow> sendable Cmd_KILL_PROCESS [(''pid'', v)]"
  by (cases v) (auto simp: sendable_def kill_body_def py_or_def split: if_splits)

section \<open>What the agent receives of an isolation\<close>

lemma wire_ips_strings: "wire_ips (map PStr ss) = clean_ips (map PStr ss)"
  by (induction ss) (simp_all add: wire_ips_def clean_ips_def map_filter_simps)

lemma wire_ips_clean: "set (wire_ips xs) \<subseteq> set (clean_ips xs)"
proof
  fix ip assume "ip \<in> set (wire_ips xs)"
  then obtain s x where "ip = strip s" "strip s \<noteq> []" "x \<in> set xs" "as_str x = Some s"
    by (auto simp: wire_ips_def map_filter_def)
  moreover then have "x = PStr s" by (cases x) simp_all
  ultimately show "ip \<in> set (clean_ips xs)" by (force simp: clean_ips_def)
qed

lemma mapE_Inr_in: "mapE f xs = Inr ys \<Longrightarrow> x \<in> set xs \<Longrightarrow> \<exists>y \<in> set ys. f x = Inr y"
  by (induction xs arbitrary: ys) (auto simp: bindE_eq_Inr)

lemma mapE_Inr_from: "mapE f xs = Inr ys \<Longrightarrow> y \<in> set ys \<Longrightarrow> \<exists>x \<in> set xs. f x = Inr y"
  by (induction xs arbitrary: ys) (auto simp: bindE_eq_Inr)

lemma guard_keeps_list:
  assumes "ensure_manager_in_allowlist settings r payload = Inr payload'"
    "dget_default payload ''allowlist_ips'' (PList []) = PList raw"
  shows "\<exists>raw'. dget_default payload' ''allowlist_ips'' (PList []) = PList raw'"
proof -
  have "py_or (PList raw) (PList []) = PList raw" by (cases raw) (simp_all add: py_or_def)
  with assms show ?thesis
    by (auto simp: ensure_manager_in_allowlist_def bindE_eq_Inr Let_def split: if_splits) (auto simp: dget_default_def update_conv')
qed

lemma sendable_isolate: "dget_default payload ''allowlist_ips'' (PList []) = PList raw \<Longrightarrow> sendable Cmd_ISOLATE payload"
  by (cases raw) (simp_all add: sendable_def isolate_body_def py_or_def)

definition plain_resolver :: "resolver \<Rightarrow> bool" where
  "plain_resolver r \<longleftrightarrow> (\<forall>h infos family ip. r h = Inr infos \<longrightarrow> (family, ip) \<in> set infos \<longrightarrow> textual ip)"

lemma resolved_textual:
  assumes "plain_resolver r" "mapE (resolve_to_ips r) hs = Inr resolved" "ip \<in> set (concat resolved)"
  shows "ip \<noteq> [] \<and> textual ip"
proof -
  from assms(3) obtain ips where "ips \<in> set resolved" "ip \<in> set ips" by auto
  then obtain h where h: "resolve_to_ips r h = Inr ips" using mapE_Inr_from [OF assms(2)] by blast
  with \<open>ip \<in> set ips\<close> obtain infos where "r h = Inr infos" "ips = collect_ips [] infos"
    by (auto simp: resolve_to_ips_def split: sum.splits if_splits)
  with \<open>ip \<in> set ips\<close> assms(1) show ?thesis by (auto simp: plain_resolver_def set_collect_ips)
qed

text \<open>The allowlist after the guard: the operator's entries, then the addresses that were missing.\<close>

lemma guard_result:
  assumes "ensure_manager_in_allowlist settings r payload = Inr payload'" "plain_resolver r"
    "dget_default payload ''allowlist_ips'' (PList []) = PList raw"
  obtains resolved raw' where "mapE (resolve_to_ips r) (guard_candidates settings) = Inr resolved"
    "dget_default payload' ''allowlist_ips'' (PList []) = PList raw'"
    "set (clean_ips raw') = set (clean_ips raw) \<union> set (concat resolved)" "set (wire_ips raw) \<subseteq> set (wire_ips raw')"
    "\<forall>k. k \<noteq> ''allowlist_ips'' \<longrightarrow> dget payload' k = dget payload k"
    "list_all (\<lambda>x. as_str x \<noteq> None) raw \<Longrightarrow> set (concat resolved) \<subseteq> set (wire_ips raw')"
    "\<not> set (concat resolved) \<subseteq> set (clean_ips raw) \<Longrightarrow> set (concat resolved) \<subseteq> set (wire_ips raw')"
proof -
  have or: "py_or (PList raw) (PList []) = PList raw" by (cases raw) (simp_all add: py_or_def)
  from assms(1,3) obtain resolved where res: "mapE (resolve_to_ips r) (guard_candidates settings) = Inr resolved"
    by (auto simp: ensure_manager_in_allowlist_def or bindE_eq_Inr)
  note g = guard_cases [OF assms(3) res]
  show thesis
  proof (cases "set (concat resolved) \<subseteq> set (clean_ips raw)")
    case True
    then have "payload' = payload" using g assms(1) by simp
    moreover have "clean_ips raw = wire_ips raw" if "list_all (\<lambda>x. as_str x \<noteq> None) raw"
    proof -
      have "raw = map PStr (List.map_filter as_str raw)" using that
        by (induction raw) (auto simp: map_filter_simps split: option.splits elim: as_str.elims)
      then show ?thesis by (metis wire_ips_strings)
    qed
    ultimately show thesis using True assms(3) by (intro that [OF res, of raw]) auto
  next
    case False
    let ?new = "clean_ips raw @ add_new (clean_ips raw) (concat resolved)"
    have p': "payload' = AList.update ''allowlist_ips'' (PList (map PStr ?new)) payload" using g assms(1) False by simp
    have "list_all (\<lambda>ip. ip \<noteq> [] \<and> textual ip) (add_new (clean_ips raw) (concat resolved))"
      using resolved_textual [OF assms(2) res] by (auto simp: list_all_iff set_add_new)
    then have clean: "clean_ips (map PStr ?new) = ?new" by (simp only: clean_ips_strings clean_ips_textual)
    then have w: "set (wire_ips (map PStr ?new)) = set (clean_ips raw) \<union> set (concat resolved)"
      unfolding wire_ips_strings by (auto simp: set_add_new)
    show thesis
    proof (rule that [OF res, of "map PStr ?new"])
      show "dget_default payload' ''allowlist_ips'' (PList []) = PList (map PStr ?new)"
        unfolding p' by (simp add: dget_default_def update_conv')
      show "set (clean_ips (map PStr ?new)) = set (clean_ips raw) \<union> set (concat resolved)"
        unfolding clean by (auto simp: set_add_new)
      show "set (wire_ips raw) \<subseteq> set (wire_ips (map PStr ?new))" unfolding w using wire_ips_clean by blast
    qed (use w in \<open>auto simp: p' dget_update\<close>)
  qed
qed


section \<open>Properties\<close>

lemma queue_command_Inr:
  assumes "queue_command settings r db actor host body = Inr (db', rq)"
  obtains payload where "effective_payload settings r body = Inr payload"
    "db' = add_command db host (ci_kind body) payload None None (Some (u_id (actor_user actor)))"
    "host_visible_to (scope_view db) actor (Some host)" "validate_payload (ci_kind body) (ci_payload body) = Inr ()"
  using assms
  by (auto simp: queue_command_def RequireAnalyst_def require_role_def bindE_eq_Inr split: if_splits)

definition demo_kill :: "uuid \<Rightarrow> int \<Rightarrow> Command" where
  "demo_kill i pid = demo_command\<lparr>cmd_id := i, cmd_kind := Cmd_KILL_PROCESS, cmd_status := CMD_PENDING, cmd_payload := [(''pid'', PInt pid)]\<rparr>"

definition demo_settings :: guard_settings where
  "demo_settings = \<lparr>manager_public_url = ''https://m:8443'', grpc_san_extras = []\<rparr>"

definition demo_resolver :: resolver where
  "demo_resolver h = (if h = ''m'' then Inr [(AF_INET, ''10.0.0.1'')] else Inl OSError)"

lemma demo_resolver_plain: "plain_resolver demo_resolver"
  by (auto simp: plain_resolver_def demo_resolver_def textual_def is_space_def code_def split: if_splits)

text \<open>
  C15: commands reach their host in order and exactly once. If the translation of no pending command
  of a host raises, then after enough wake-ups of its dispatcher (sixteen commands each) none is
  pending any more, and the messages sent are those of the pending commands, in the order they were
  queued, one for each command that has a message.
\<close>

theorem dispatch_fifo_exactly_once:
  assumes "wf_jobs db" "list_all translatable (pending_commands host db)"
    "length (pending_commands host db) \<le> 16 * length ts"
  shows "pending_commands host (fst (dispatch_runs ts host db)) = [] \<and>
    map content (snd (dispatch_runs ts host db)) = List.map_filter wire (pending_commands host db)"
  by (rule dispatch_runs_ok) (use assms in \<open>simp_all add: wf_jobs_def\<close>)

theorem dispatch_fifo_exactly_once_witness:
  "map content (snd (dispatch_runs [5] 21 (demo_jobs_db [demo_kill 41 7, demo_kill 42 8] []))) =
     [(uuid_str 41, Pb_kill 7), (uuid_str 42, Pb_kill 8)]"
proof -
  let ?db = "demo_jobs_db [demo_kill 41 7, demo_kill 42 8] []"
  have "wf_jobs ?db" by (simp add: wf_jobs_def demo_jobs_db_def demo_kill_def)
  moreover have p: "pending_commands 21 ?db = [demo_kill 41 7, demo_kill 42 8]"
    by (simp add: pending_commands_def demo_jobs_db_def demo_kill_def demo_command_def)
  moreover have "list_all translatable [demo_kill 41 7, demo_kill 42 8]"
    by (simp add: translatable_def demo_kill_def kill_body_def)
  ultimately have "map content (snd (dispatch_runs [5] 21 ?db)) = List.map_filter wire [demo_kill 41 7, demo_kill 42 8]"
    using dispatch_fifo_exactly_once [of ?db 21 "[5]"] by (simp only: p) simp
  also have "\<dots> = [(uuid_str 41, Pb_kill 7), (uuid_str 42, Pb_kill 8)]"
    by (simp add: map_filter_simps wire_def translate_def demo_kill_def kill_body_def)
  finally show ?thesis .
qed

text \<open>
  C16: one command that cannot be encoded blocks its host. A kill command whose pid does not fit the
  32-bit field passes the validation of the API, and while it is among the first sixteen pending ones
  every wake-up of the dispatcher changes no row, never sends what is queued behind it, and sends
  again everything queued before it.
\<close>

theorem raising_command_blocks_dispatch:
  assumes "pending_commands host db = pre @ c # post" "length pre < 16" "list_all translatable pre"
    "cmd_kind c = Cmd_KILL_PROCESS" "dget (cmd_payload c) ''pid'' = PInt pid" "2 ^ 32 \<le> pid"
  shows "validate_payload (cmd_kind c) (cmd_payload c) = Inr () \<and> fst (dispatch_runs ts host db) = db \<and>
    map content (snd (dispatch_runs ts host db)) = concat (replicate (length ts) (List.map_filter wire pre))"
proof -
  have "\<not> translatable c" by (rule kill_oversized [OF assms(4-6)])
  from dispatch_runs_raises [OF assms(1-3) this] show ?thesis
    using assms(4-6) by (simp add: validate_payload_def pid_ok_def)
qed

theorem raising_command_blocks_dispatch_witness:
  "map content (snd (dispatch_runs [5, 6] 21 (demo_jobs_db [demo_kill 41 7, demo_kill 42 (2 ^ 32), demo_kill 43 9] []))) =
     [(uuid_str 41, Pb_kill 7), (uuid_str 41, Pb_kill 7)]"
proof -
  have "pending_commands 21 (demo_jobs_db [demo_kill 41 7, demo_kill 42 (2 ^ 32), demo_kill 43 9] []) =
      [demo_kill 41 7] @ demo_kill 42 (2 ^ 32) # [demo_kill 43 9]"
    by (simp add: pending_commands_def demo_jobs_db_def demo_kill_def demo_command_def)
  moreover have "list_all translatable [demo_kill 41 7]" by (simp add: translatable_def demo_kill_def kill_body_def)
  moreover have "List.map_filter wire [demo_kill 41 7] = [(uuid_str 41, Pb_kill 7)]"
    by (simp add: map_filter_simps wire_def translate_def demo_kill_def kill_body_def)
  ultimately show ?thesis
    using raising_command_blocks_dispatch [of 21 _ "[demo_kill 41 7]" "demo_kill 42 (2 ^ 32)" "[demo_kill 43 9]" "2 ^ 32" "[5, 6]"]
    by (simp add: demo_kill_def)
qed



text \<open>
  The two readings of a missing key disagree. An isolate request without the key \<open>isolate\<close> passes
  the API without the guard, and the agent is told to isolate all the same: the message it receives
  allows exactly the operator's addresses, whatever the manager's own are.
\<close>

theorem isolation_without_key_unguarded:
  assumes "queue_command settings r db actor host body = Inr (db', rq)" "ci_kind body = Cmd_ISOLATE"
    "map_of (ci_payload body) ''isolate'' = None"
    "dget_default (ci_payload body) ''allowlist_ips'' (PList []) = PList raw"
  shows "translate (last (j_commands db')) = Some (Pb_isolate True (wire_ips raw))"
proof -
  have "dget (ci_payload body) ''isolate'' = PNone" using assms(3) by (simp add: dget_def)
  moreover obtain payload where "effective_payload settings r body = Inr payload"
    "db' = add_command db host Cmd_ISOLATE payload None None (Some (u_id (actor_user actor)))"
    using queue_command_Inr [OF assms(1)] assms(2) by metis
  ultimately have db': "db' = add_command db host Cmd_ISOLATE (ci_payload body) None None (Some (u_id (actor_user actor)))"
    by (simp add: effective_payload_def)
  have "py_or (PList raw) (PList []) = PList raw" by (cases raw) (simp_all add: py_or_def)
  with assms(3,4) show ?thesis
    by (simp add: db' add_command_def new_command_def translate_def isolate_body_def) (simp add: dget_default_def)
qed

theorem isolation_without_key_unguarded_witness:
  "\<exists>db' rq. queue_command demo_settings demo_resolver (demo_jobs_db [] []) (demo_actor ANALYST) 22
       \<lparr>ci_kind = Cmd_ISOLATE, ci_payload = []\<rparr> = Inr (db', rq) \<and> translate (last (j_commands db')) = Some (Pb_isolate True [])"
proof -
  have "case queue_command demo_settings demo_resolver (demo_jobs_db [] []) (demo_actor ANALYST) 22
      \<lparr>ci_kind = Cmd_ISOLATE, ci_payload = []\<rparr> of Inr _ \<Rightarrow> True | Inl _ \<Rightarrow> False" by code_simp
  then obtain db' rq where q: "queue_command demo_settings demo_resolver (demo_jobs_db [] []) (demo_actor ANALYST) 22
      \<lparr>ci_kind = Cmd_ISOLATE, ci_payload = []\<rparr> = Inr (db', rq)" by (auto split: sum.splits)
  with isolation_without_key_unguarded [OF q, of "[]"] show ?thesis
    by (auto simp: dget_default_def wire_ips_def map_filter_simps)
qed

text \<open>
  The guard of the jobs API can be bypassed. An analyst who is no administrator is refused a job
  of kind \<open>shell_command\<close> on any scope, and yet may queue, on any host the analyst can see, a \<open>run_job\<close>
  command with that kind in its payload; the dispatcher then sends it to the host.
\<close>

theorem analyst_reaches_shell_command:
  assumes "u_role (actor_user actor) = ANALYST" "host_visible_to (scope_view db) actor (Some host)"
    "pending_commands host db = []" "distinct (map cmd_id (j_commands db))" "\<forall>c \<in> set (j_commands db). cmd_id c < j_next db"
    "payload = [(''job_id'', PStr jid), (''run_id'', PStr rid), (''job_kind'', PStr ''shell_command''), (''parameters'', PDict params)]"
    "jid \<noteq> []" "rid \<noteq> []" "params \<noteq> []"
  shows "(\<forall>scope summary. create_job b seed now db actor \<lparr>body_kind = Job_SHELL_COMMAND, body_parameters = params,
        body_scope = scope, body_summary = summary\<rparr> = Inl (forbidden ''job kind shell_command requires admin'')) \<and>
    (\<exists>db' rq. queue_command settings r db actor host \<lparr>ci_kind = Cmd_RUN_JOB, ci_payload = payload\<rparr> = Inr (db', rq) \<and>
       map content (snd (dispatch_pending now host db')) =
         [(uuid_str (j_next db), Pb_run_job jid rid ''shell_command'' (json_dumps (PDict params)))])"
proof
  show "\<forall>scope summary. create_job b seed now db actor \<lparr>body_kind = Job_SHELL_COMMAND, body_parameters = params,
        body_scope = scope, body_summary = summary\<rparr> = Inl (forbidden ''job kind shell_command requires admin'')"
    using assms(1) by (simp add: create_job_def RequireAnalyst_def require_role_def has_role_def JOB_KIND_ADMIN_ONLY_def)
  have "find (\<lambda>h. hst_id h = host) (j_hosts db) \<noteq> None"
    using assms(2) by (auto simp: host_visible_to_def scope_view_def find_None_iff split: option.splits dest!: map_of_SomeD)
  then obtain db' rq where q: "queue_command settings r db actor host \<lparr>ci_kind = Cmd_RUN_JOB, ci_payload = payload\<rparr> = Inr (db', rq)"
      "db' = add_command db host Cmd_RUN_JOB payload None None (Some (u_id (actor_user actor)))"
    using assms(1,2) by (auto simp: queue_command_def RequireAnalyst_def require_role_def has_role_def check_payload_def
        validate_payload_def effective_payload_def)
  let ?cmd = "new_command db host Cmd_RUN_JOB payload None None (Some (u_id (actor_user actor)))"
  have body: "command_body (cmd_kind ?cmd) (cmd_payload ?cmd) =
      Inr (Some (Pb_run_job jid rid ''shell_command'' (json_dumps (PDict params))))"
    using assms(6-9) by (simp add: new_command_def run_job_body_def payload_str_def Let_def)
  have pend: "pending_commands host db' = [?cmd]" using assms(3) unfolding q(2)
    by (simp add: pending_commands_def add_command_def new_command_def)
  have "distinct (map cmd_id (j_commands db'))" using assms(4,5) unfolding q(2)
    by (auto simp: add_command_def new_command_def)
  moreover have "list_all translatable (pending_commands host db')" using body by (simp add: pend translatable_def)
  ultimately have "map content (snd (dispatch_pending now host db')) = List.map_filter wire [?cmd]"
    using dispatch_pending_ok(1) [of host db' now] by (simp add: pend)
  also have "\<dots> = [(uuid_str (j_next db), Pb_run_job jid rid ''shell_command'' (json_dumps (PDict params)))]"
    using body by (simp add: map_filter_simps wire_def translate_def) (simp add: new_command_def)
  finally show "\<exists>db' rq. queue_command settings r db actor host \<lparr>ci_kind = Cmd_RUN_JOB, ci_payload = payload\<rparr> = Inr (db', rq) \<and>
       map content (snd (dispatch_pending now host db')) =
         [(uuid_str (j_next db), Pb_run_job jid rid ''shell_command'' (json_dumps (PDict params)))]"
    using q(1) by (intro exI conjI)
qed

theorem analyst_reaches_shell_command_witness:
  "\<exists>db' rq. queue_command demo_settings demo_resolver (demo_jobs_db [] []) (demo_actor ANALYST) 22
       \<lparr>ci_kind = Cmd_RUN_JOB, ci_payload = [(''job_id'', PStr ''j''), (''run_id'', PStr ''r''), (''job_kind'', PStr ''shell_command''),
         (''parameters'', PDict [(''cmd'', PStr ''id'')])]\<rparr> = Inr (db', rq) \<and>
     map content (snd (dispatch_pending 0 22 db')) =
       [(uuid_str 100, Pb_run_job ''j'' ''r'' ''shell_command'' (json_dumps (PDict [(''cmd'', PStr ''id'')])))]"
proof -
  have "host_visible_to (scope_view (demo_jobs_db [] [])) (demo_actor ANALYST) (Some 22)" by code_simp
  then show ?thesis
    using analyst_reaches_shell_command [of "demo_actor ANALYST" "demo_jobs_db [] []" 22 _ "''j''" "''r''" "[(''cmd'', PStr ''id'')]"]
    by (simp add: demo_actor_def demo_jobs_db_def pending_commands_def)
qed

end
