(* ===== verification/Policy_Push_Correct.thy ===== *)
theory Policy_Push_Correct
  imports Policy_Push Command_Wire_Correct
begin

text \<open>
  Correctness of policy distribution. The three services share a contract, the locale \<open>policy_push\<close>:
  pushing to one host queues exactly the commands of the host's effective policy, and each of them can
  be encoded for the wire. What an edit does to a fleet follows from the contract once. An abstract
  agent that keeps the last policy it received states what convergence means.
\<close>

section \<open>The contract of a push\<close>

lemma find_none_key: "k \<notin> f ` set xs \<Longrightarrow> find (\<lambda>x. f x = k) xs = None"
  by (induction xs) auto

definition kind_payload :: "Command \<Rightarrow> CommandKind \<times> pydict" where
  "kind_payload c = (cmd_kind c, cmd_payload c)"

definition queued :: "job_db \<Rightarrow> Host \<Rightarrow> (CommandKind \<times> pydict) list \<Rightarrow> job_db \<Rightarrow> bool" where
  "queued db h ps db' \<longleftrightarrow> (\<exists>cs. db' = db\<lparr>j_commands := j_commands db @ cs, j_next := j_next db + length cs\<rparr> \<and>
     map kind_payload cs = ps \<and> map cmd_id cs = [j_next db..<j_next db + length cs] \<and>
     (\<forall>c \<in> set cs. cmd_host_id c = hst_id h \<and> cmd_status c = CMD_PENDING))"

lemma queued_refl: "queued db h [] db"
  by (auto simp: queued_def intro!: exI [of _ "[]"])

lemma queued_trans: "queued db h ps db1 \<Longrightarrow> queued db1 h qs db2 \<Longrightarrow> queued db h (ps @ qs) db2"
proof -
  assume "queued db h ps db1" "queued db1 h qs db2"
  then obtain cs ds where cs: "db1 = db\<lparr>j_commands := j_commands db @ cs, j_next := j_next db + length cs\<rparr>" "map kind_payload cs = ps"
    "map cmd_id cs = [j_next db..<j_next db + length cs]" "\<forall>c \<in> set cs. cmd_host_id c = hst_id h \<and> cmd_status c = CMD_PENDING"
    and ds: "db2 = db1\<lparr>j_commands := j_commands db1 @ ds, j_next := j_next db1 + length ds\<rparr>" "map kind_payload ds = qs"
    "map cmd_id ds = [j_next db1..<j_next db1 + length ds]" "\<forall>c \<in> set ds. cmd_host_id c = hst_id h \<and> cmd_status c = CMD_PENDING"
    unfolding queued_def by blast
  have "[j_next db..<j_next db + length cs] @ [j_next db + length cs..<j_next db + length cs + length ds] =
      [j_next db..<j_next db + (length cs + length ds)]"
    by (metis add.assoc le_add1 upt_add_eq_append)
  with cs ds show ?thesis unfolding queued_def by (intro exI [of _ "cs @ ds"]) (auto simp: add.assoc)
qed

lemma queued_append:
  "cmd_id c = j_next db \<Longrightarrow> cmd_host_id c = hst_id h \<Longrightarrow> cmd_status c = CMD_PENDING \<Longrightarrow>
     queued db h [kind_payload c] (append_command c db)"
  by (auto simp: queued_def append_command_def intro!: exI [of _ "[c]"])

lemma queued_frame:
  assumes "queued db h ps db'"
  shows "j_hosts db' = j_hosts db" "j_host_in_group db' = j_host_in_group db" "group_ids_of db' x = group_ids_of db x"
  using assms by (auto simp: queued_def group_ids_of_def)

lemma queued_pending:
  assumes "queued db h ps db'"
  shows "map kind_payload (pending_commands i db') =
    map kind_payload (pending_commands i db) @ (if hst_id h = i then ps else [])"
proof -
  obtain cs where cs: "db' = db\<lparr>j_commands := j_commands db @ cs, j_next := j_next db + length cs\<rparr>" "map kind_payload cs = ps"
    "\<forall>c \<in> set cs. cmd_host_id c = hst_id h \<and> cmd_status c = CMD_PENDING" using assms unfolding queued_def by blast
  have "filter (\<lambda>c. cmd_host_id c = i \<and> cmd_status c = CMD_PENDING) cs = (if hst_id h = i then cs else [])"
    using cs(3) by (auto simp: filter_id_conv filter_empty_conv)
  then show ?thesis by (simp add: pending_commands_def cs(1) cs(2))
qed

lemma queued_wf:
  assumes "queued db h ps db'" "wf_jobs db"
  shows "wf_jobs db'"
proof -
  obtain cs where db': "db' = db\<lparr>j_commands := j_commands db @ cs, j_next := j_next db + length cs\<rparr>"
    and ids: "map cmd_id cs = [j_next db..<j_next db + length cs]" using assms(1) unfolding queued_def by blast
  have new: "distinct (map cmd_id cs)" unfolding ids by simp
  have "cmd_id ` set cs = {j_next db..<j_next db + length cs}" using arg_cong [OF ids, of set] by simp
  then have range: "j_next db \<le> cmd_id c \<and> cmd_id c < j_next db + length cs" if "c \<in> set cs" for c using that by auto
  have old: "\<forall>c \<in> set (j_commands db). cmd_id c < j_next db" using assms(2) by (simp add: wf_jobs_def)
  then have "distinct (map cmd_id (j_commands db @ cs))" using new range assms(2)
    by (fastforce simp: wf_jobs_def)
  then show ?thesis using assms(2) range unfolding wf_jobs_def db' by auto
qed

locale policy_push =
  fixes payloads :: "'s \<Rightarrow> Host \<Rightarrow> uuid list \<Rightarrow> (CommandKind \<times> pydict) list"
    and push_host :: "'s \<Rightarrow> uuid option \<Rightarrow> Host \<Rightarrow> job_db \<Rightarrow> job_db"
  assumes push_host_queued: "queued db h (payloads s h (group_ids_of db (hst_id h))) (push_host s user h db)"
    and payload_encodes: "(k, p) \<in> set (payloads s h groups) \<Longrightarrow> \<exists>b. command_body k p = Inr (Some b)"
begin

definition push_hosts :: "'s \<Rightarrow> uuid option \<Rightarrow> Host list \<Rightarrow> job_db \<Rightarrow> job_db" where
  "push_hosts s user hs db = fold (push_host s user) hs db"

lemma push_hosts_wf: "wf_jobs db \<Longrightarrow> wf_jobs (push_hosts s user hs db)"
  unfolding push_hosts_def
  by (induction hs arbitrary: db) (auto intro: queued_wf [OF push_host_queued])

lemma push_hosts_frame: "j_hosts (push_hosts s user hs db) = j_hosts db" "group_ids_of (push_hosts s user hs db) x = group_ids_of db x"
  unfolding push_hosts_def
  by (induction hs arbitrary: db) (simp_all add: queued_frame [OF push_host_queued])

text \<open>Every host of the edit gets the commands of its effective policy once, every other host nothing.\<close>

lemma push_hosts_pending:
  assumes "distinct (map hst_id hs)"
  shows "map kind_payload (pending_commands i (push_hosts s user hs db)) = map kind_payload (pending_commands i db) @
    (case find (\<lambda>h. hst_id h = i) hs of None \<Rightarrow> [] | Some h \<Rightarrow> payloads s h (group_ids_of db i))"
  using assms
proof (induction hs arbitrary: db)
  case (Cons h hs)
  let ?db1 = "push_host s user h db"
  have none: "find (\<lambda>x. hst_id x = i) hs = None" if "hst_id h = i" 
    using Cons.prems that by (intro find_none_key) auto
  have "map kind_payload (pending_commands i (push_hosts s user hs ?db1)) = map kind_payload (pending_commands i ?db1) @
      (case find (\<lambda>h. hst_id h = i) hs of None \<Rightarrow> [] | Some h \<Rightarrow> payloads s h (group_ids_of ?db1 i))"
    by (rule Cons.IH) (use Cons.prems in simp)
  then show ?case using queued_pending [where i = i, OF push_host_queued [where db = db and h = h and s = s and user = user]] none
    by (auto simp: push_hosts_def queued_frame(3) [OF push_host_queued] split: option.split)
qed (simp add: push_hosts_def)

lemma push_hosts_translatable:
  assumes "distinct (map hst_id hs)" "list_all translatable (pending_commands i db)"
  shows "list_all translatable (pending_commands i (push_hosts s user hs db))"
proof -
  have kp: "list_all translatable cs \<longleftrightarrow> list_all (\<lambda>(k, p). \<exists>b. command_body k p = Inr b) (map kind_payload cs)" for cs
    by (induction cs) (auto simp: translatable_def kind_payload_def)
  show ?thesis using assms(2) payload_encodes unfolding kp push_hosts_pending [OF assms(1)]
    by (auto simp: list_all_iff split: option.splits) blast+
qed

end

section \<open>The three services keep it\<close>

lemma py_iter_str_list [simp]: "py_iter (py_or (str_list xs) (PList [])) = Inr (map PStr xs)"
  by (cases xs) (simp_all add: str_list_def py_or_def)

lemma nonempty_strs_map [simp]: "nonempty_strs (map PStr xs) = filter (\<lambda>s. s \<noteq> []) xs"
proof -
  have "List.map_filter as_str (map PStr xs) = xs" by (induction xs) (simp_all add: map_filter_simps)
  then show ?thesis by (simp add: nonempty_strs_def)
qed

definition dns_payloads :: "DnsBlockEntry list \<Rightarrow> Host \<Rightarrow> uuid list \<Rightarrow> (CommandKind \<times> pydict) list" where
  "dns_payloads entries h groups = [(Cmd_DNS_BLOCK_SYNC, dns_payload (effective_set_for_host_groups entries groups))]"

lemma dns_body_payload:
  "dns_body (dns_payload (b, s)) = Inr (Some (let b = filter (\<lambda>x. x \<noteq> []) b; s = filter (\<lambda>x. x \<noteq> []) s in
     if b = [] \<and> s = [] then Pb_unset else Pb_dns_block_sync b s))"
  by (simp add: dns_body_def dns_payload_def Let_def)

interpretation dns: policy_push dns_payloads dns_push_host
proof
  show "queued db h (dns_payloads entries h (group_ids_of db (hst_id h))) (dns_push_host entries user h db)" for db h entries user
    using queued_append [of "new_command db (hst_id h) Cmd_DNS_BLOCK_SYNC
        (dns_payload (effective_set_for_host_groups entries (group_ids_of db (hst_id h)))) None None user" db h]
    by (simp add: dns_push_host_def dns_payloads_def kind_payload_def new_command_def)
  show "\<exists>b. command_body k p = Inr (Some b)" if "(k, p) \<in> set (dns_payloads entries h groups)" for k p entries h groups
    using that by (cases "effective_set_for_host_groups entries groups") (simp add: dns_payloads_def dns_body_payload)
qed

definition device_payloads :: "DevicePolicy list \<Rightarrow> Host \<Rightarrow> uuid list \<Rightarrow> (CommandKind \<times> pydict) list" where
  "device_payloads policies h groups =
     map (\<lambda>p. (Cmd_DEVICE_CONTROL_SYNC, device_payload p)) (first_per_kind [] (effective_policies_for_host policies groups))"

lemma device_kind_value_nonempty [simp]: "device_kind_value k \<noteq> []"
  by (cases k) simp_all

lemma device_body_payload:
  "device_control_body (device_payload p) = Inr (Some (Pb_device_control_sync (device_kind_value (dp_kind p)) (dp_enabled p)
     (filter (\<lambda>x. x \<noteq> []) (dp_allowed_vendor_ids p)) (filter (\<lambda>x. x \<noteq> []) (dp_allowed_product_ids p))))"
  by (simp add: device_control_body_def device_payload_def payload_str_def Let_def dget_default_def)

lemma queued_fold_device:
  "queued db h (map (\<lambda>p. (Cmd_DEVICE_CONTROL_SYNC, device_payload p)) ps)
     (fold (\<lambda>p db. append_command (new_command db (hst_id h) Cmd_DEVICE_CONTROL_SYNC (device_payload p) None None user) db) ps db)"
proof (induction ps arbitrary: db)
  case (Cons p ps)
  let ?c = "new_command db (hst_id h) Cmd_DEVICE_CONTROL_SYNC (device_payload p) None None user"
  have "queued db h [kind_payload ?c] (append_command ?c db)" by (rule queued_append) (simp_all add: new_command_def)
  from queued_trans [OF this Cons.IH [of "append_command ?c db"]] show ?case by (simp add: kind_payload_def new_command_def)
qed (simp add: queued_refl)

interpretation device: policy_push device_payloads device_push_to_host
proof
  show "queued db h (device_payloads ps h (group_ids_of db (hst_id h))) (device_push_to_host ps user h db)" for db h ps user
    by (simp add: device_payloads_def device_push_to_host_def queued_fold_device)
  show "\<exists>b. command_body k p = Inr (Some b)" if "(k, p) \<in> set (device_payloads ps h groups)" for k p ps h groups
    using that by (auto simp: device_payloads_def device_body_payload)
qed

definition token_payloads :: "Honeytoken list \<Rightarrow> Host \<Rightarrow> uuid list \<Rightarrow> (CommandKind \<times> pydict) list" where
  "token_payloads tokens h groups = (case effective_tokens_for_host tokens (hst_tenant_id h) groups of
       [] \<Rightarrow> [] | eff \<Rightarrow> [(Cmd_DEPLOY_HONEYTOKEN, [(''specs'', PList (map spec_for eff))])])"

definition token_push_jobs :: "Honeytoken list \<Rightarrow> uuid option \<Rightarrow> Host \<Rightarrow> job_db \<Rightarrow> job_db" where
  "token_push_jobs tokens user h db = snd (token_push_to_host user h (tokens, db))"

interpretation tokens: policy_push token_payloads token_push_jobs
proof
  show "queued db h (token_payloads ts h (group_ids_of db (hst_id h))) (token_push_jobs ts user h db)" for db h ts user
  proof (cases "effective_tokens_for_host ts (hst_tenant_id h) (group_ids_of db (hst_id h))")
    case Nil
    then show ?thesis by (simp add: token_payloads_def token_push_jobs_def token_push_to_host_def queued_refl)
  next
    case (Cons t eff)
    let ?c = "(new_command db (hst_id h) Cmd_DEPLOY_HONEYTOKEN [(''specs'', PList (map spec_for (t # eff)))] None None user)
      \<lparr>cmd_tenant_id := hst_tenant_id h\<rparr>"
    have "queued db h [kind_payload ?c] (append_command ?c db)" by (rule queued_append) (simp_all add: new_command_def)
    with Cons show ?thesis
      by (simp add: token_payloads_def token_push_jobs_def token_push_to_host_def Let_def kind_payload_def new_command_def)
  qed
  show "\<exists>b. command_body k p = Inr (Some b)" if "(k, p) \<in> set (token_payloads ts h groups)" for k p ts h groups
    using that by (auto simp: token_payloads_def honeytoken_body_def Let_def py_or_def split: list.splits)
qed


section \<open>Base64\<close>

lemma b64_val_char: "v < 64 \<Longrightarrow> b64_val (b64_char v) = Some v"
  by (auto simp: b64_val_def b64_char_def Let_def code_char_of code_def)

lemma b64_char_not_pad: "v < 64 \<Longrightarrow> b64_char v \<noteq> CHR ''=''"
  using b64_val_char [of v] by (auto simp: b64_val_def Let_def code_def)

lemma code_lt [simp]: "code c < 256"
  by (simp add: code_def)

lemma char_of_code [simp]: "char_of (code c) = c"
  by (simp add: code_def)

lemma b64_split:
  "code b div 16 < 16" "code c div 64 < 4" "(code a mod 4 * 16 + code b div 16) div 16 = code a mod 4"
  "(code a mod 4 * 16 + code b div 16) mod 16 = code b div 16" "(code b mod 16 * 4 + code c div 64) div 4 = code b mod 16"
  "(code b mod 16 * 4 + code c div 64) mod 4 = code c div 64"
  "4 * (code a div 4) + code a mod 4 = code a" "16 * (code b div 16) + code b mod 16 = code b" "64 * (code c div 64) + code c mod 64 = code c"
proof -
  have *: "code b div 16 < 16" "code c div 64 < 4" using code_lt [of b] code_lt [of c]
    by (simp_all add: div_less_iff_less_mult)
  then show "code b div 16 < 16" "code c div 64 < 4" "(code a mod 4 * 16 + code b div 16) div 16 = code a mod 4"
    "(code a mod 4 * 16 + code b div 16) mod 16 = code b div 16" "(code b mod 16 * 4 + code c div 64) div 4 = code b mod 16"
    "(code b mod 16 * 4 + code c div 64) mod 4 = code c div 64"
    "4 * (code a div 4) + code a mod 4 = code a" "16 * (code b div 16) + code b mod 16 = code b" "64 * (code c div 64) + code c mod 64 = code c"
    by simp_all
qed

lemma b64_bounds: "code a div 4 < 64" "code a mod 4 * 16 + code b div 16 < 64" "code a mod 4 * 16 < 64"
  "code b mod 16 * 4 < 64" "code b mod 16 * 4 + code c div 64 < 64" "code c mod 64 < 64"
proof -
  have "code a div 4 < 64" "code b div 16 < 16" "code c div 64 < 4" using code_lt [of a] code_lt [of b] code_lt [of c]
    by (simp_all add: div_less_iff_less_mult)
  moreover have "code a mod 4 < 4" "code b mod 16 < 16" "code c mod 64 < 64" by simp_all
  ultimately show "code a div 4 < 64" "code a mod 4 * 16 + code b div 16 < 64" "code a mod 4 * 16 < 64"
    "code b mod 16 * 4 < 64" "code b mod 16 * 4 + code c div 64 < 64" "code c mod 64 < 64" by linarith+
qed

lemma b64_loop_encode: "b64_loop 0 0 0 False (b64encode bs) = Inr bs"
  by (induction bs rule: b64encode.induct) (simp_all add: b64_bounds b64_split b64_char_not_pad b64_val_char)

lemma b64_roundtrip: "b64decode (b64encode bs) = Inr bs"
proof -
  have "b64encode bs \<noteq> [] \<Longrightarrow> hd (b64encode bs) \<noteq> CHR ''=''"
    using b64_bounds(1) by (cases bs rule: b64encode.cases) (simp_all add: b64_char_not_pad)
  then show ?thesis by (auto simp: b64decode_def b64_loop_encode)
qed


section \<open>An agent that keeps the last policy it received\<close>

record agent =
  ag_dns :: "string list \<times> string list"
  ag_device :: "string \<Rightarrow> (bool \<times> string list \<times> string list) option"
  ag_tokens :: "HoneytokenSpec list"

fun agent_apply :: "pb_body \<Rightarrow> agent \<Rightarrow> agent" where
  "agent_apply (Pb_dns_block_sync b s) ag = ag\<lparr>ag_dns := (b, s)\<rparr>"
| "agent_apply (Pb_device_control_sync k e vids pids) ag = ag\<lparr>ag_device := (ag_device ag)(k := Some (e, vids, pids))\<rparr>"
| "agent_apply (Pb_deploy_honeytoken specs) ag = ag\<lparr>ag_tokens := specs\<rparr>"
| "agent_apply _ ag = ag"

definition body_of :: "CommandKind \<times> pydict \<Rightarrow> pb_body option" where
  "body_of kp = (case command_body (fst kp) (snd kp) of Inl _ \<Rightarrow> None | Inr b \<Rightarrow> b)"

definition bodies :: "(CommandKind \<times> pydict) list \<Rightarrow> pb_body list" where
  "bodies ps = List.map_filter body_of ps"

definition agent_after :: "Command list \<Rightarrow> agent \<Rightarrow> agent" where
  "agent_after cs = fold agent_apply (List.map_filter translate cs)"

lemma translate_body_of: "translate c = body_of (kind_payload c)"
  by (simp add: translate_def body_of_def kind_payload_def)

lemma agent_after_bodies: "agent_after cs = fold agent_apply (bodies (map kind_payload cs))"
proof -
  have "List.map_filter translate cs = bodies (map kind_payload cs)"
    by (induction cs) (simp_all add: bodies_def map_filter_simps translate_body_of split: option.split)
  then show ?thesis by (simp add: agent_after_def)
qed

lemma bodies_append: "bodies (ps @ qs) = bodies ps @ bodies qs"
  by (simp add: bodies_def map_filter_append)

text \<open>An edit whose push keeps the contract appends the host's policy to what the agent receives.\<close>

context policy_push
begin

lemma agent_after_push:
  assumes "distinct (map hst_id (j_hosts db))" "hs = filter P (j_hosts db)" "h \<in> set hs"
  shows "agent_after (pending_commands (hst_id h) (push_hosts s user hs db)) ag =
    fold agent_apply (bodies (payloads s h (group_ids_of db (hst_id h)))) (agent_after (pending_commands (hst_id h) db) ag)"
proof -
  have d: "distinct (map hst_id hs)" using assms(1,2) by (simp add: distinct_map_filter)
  then have "find (\<lambda>x. hst_id x = hst_id h) hs = Some h"
    using assms(3) by (induction hs) (auto simp: image_iff)
  then show ?thesis by (simp add: agent_after_bodies push_hosts_pending [OF d] bodies_append)
qed

end

lemma pending_skip_ids [simp]: "pending_commands i (skip_ids n db) = pending_commands i db" "group_ids_of (skip_ids n db) i = group_ids_of db i"
  "hosts_in_scope (skip_ids n db) grp = hosts_in_scope db grp" "j_hosts (skip_ids n db) = j_hosts db"
  "in_scope (skip_ids n db) grp = in_scope db grp"
  by (simp_all add: pending_commands_def skip_ids_def group_ids_of_def hosts_in_scope_def in_scope_def fun_eq_iff cong: filter_cong option.case_cong)

definition demo_push_db :: "DnsBlockEntry list \<Rightarrow> DevicePolicy list \<Rightarrow> Honeytoken list \<Rightarrow> push_db" where
  "demo_push_db entries policies ts = \<lparr>pd_jobs = demo_jobs_db [] [], pd_groups = [(31, 3)], pd_dns = entries, pd_devices = policies,
     pd_tokens = ts, pd_hits = [], pd_alerts = [], pd_rule_ids = []\<rparr>"

definition demo_agent :: agent where
  "demo_agent = \<lparr>ag_dns = ([''evil.example''], []), ag_device = (\<lambda>_. None), ag_tokens = []\<rparr>"

lemma demo_hosts: "distinct (map hst_id (j_hosts (pd_jobs (demo_push_db entries policies ts))))"
  "demo_host 22 3 \<in> set (hosts_in_scope (pd_jobs (demo_push_db entries policies ts)) None)"
  "pending_commands i (pd_jobs (demo_push_db entries policies ts)) = []"
  "group_ids_of (pd_jobs (demo_push_db entries policies ts)) (hst_id (demo_host 22 3)) = [31]"
  by (simp_all add: demo_push_db_def demo_jobs_db_def demo_host_def hosts_in_scope_def in_scope_def pending_commands_def group_ids_of_def)

subsection \<open>DNS\<close>

text \<open>The edits of the API, with the scope they concern.\<close>

inductive dns_edit :: "push_db \<Rightarrow> uuid option \<Rightarrow> push_db \<Rightarrow> bool" where
  create: "create_entry db actor grp raw action expires = Inr (db', rq) \<Longrightarrow> dns_edit db grp db'"
| delete: "delete_entry db actor i = Inr (db', rq) \<Longrightarrow> find (\<lambda>e. dns_id e = i) (pd_dns db) = Some e \<Longrightarrow>
    dns_edit db (dns_host_group_id e) db'"
| bulk: "bulk_import db actor grp raws action = Inr (db', rq, inserted, skipped) \<Longrightarrow> inserted > 0 \<Longrightarrow> dns_edit db grp db'"

definition dns_ok :: "push_db \<Rightarrow> bool" where
  "dns_ok db \<longleftrightarrow> (\<forall>e \<in> set (pd_dns db). dns_domain e \<noteq> [])"

lemma normalise_each_nonempty: "d \<in> set (normalise_each seen raws) \<Longrightarrow> d \<noteq> []"
  by (induction seen raws rule: normalise_each.induct) (auto simp: Let_def split: if_splits)

lemma dns_edit_jobs:
  assumes "dns_edit db grp db'"
  obtains user n where "pd_jobs db' = queue_resync_commands (pd_dns db') grp user (skip_ids n (pd_jobs db))"
  using assms
proof cases
  case (create actor raw action expires rq)
  then show ?thesis by (intro that [of "Some (u_id (actor_user actor))" 1])
      (auto simp: create_entry_def RequireAdmin_def require_role_def bindE_eq_Inr Let_def split: if_splits)
next
  case (delete actor i rq e)
  then show ?thesis by (intro that [of "Some (u_id (actor_user actor))" 0])
      (auto simp: delete_entry_def RequireAdmin_def require_role_def bindE_eq_Inr Let_def skip_ids_def split: if_splits)
next
  case (bulk actor raws action rq inserted skipped)
  then show ?thesis by (intro that [of "Some (u_id (actor_user actor))" inserted])
      (auto simp: bulk_import_def RequireAdmin_def require_role_def bindE_eq_Inr Let_def split: if_splits)
qed

lemma dns_edit_ok: "dns_edit db grp db' \<Longrightarrow> dns_ok db \<Longrightarrow> dns_ok db'"
proof (induction rule: dns_edit.induct)
  case (create db actor grp raw action expires db' rq)
  then show ?case by (auto simp: create_entry_def dns_ok_def bindE_eq_Inr Let_def new_entry_def check_domain_def split: if_splits)
next
  case (delete db actor i db' rq e)
  then show ?case by (auto simp: delete_entry_def dns_ok_def bindE_eq_Inr Let_def split: if_splits)
next
  case (bulk db actor grp raws action db' rq inserted skipped)
  then show ?case
    by (auto simp: bulk_import_def dns_ok_def bindE_eq_Inr Let_def new_entry_def check_domains_def in_set_enumerate_eq
        dest!: nth_mem normalise_each_nonempty split: if_splits)
qed

lemma effective_domains:
  "\<forall>e \<in> set entries. dns_domain e \<noteq> [] \<Longrightarrow> effective_set_for_host_groups entries groups = (b, s) \<Longrightarrow>
     filter (\<lambda>x. x \<noteq> []) b = b \<and> filter (\<lambda>x. x \<noteq> []) s = s"
  unfolding filter_id_conv by (auto simp: effective_set_for_host_groups_def Let_def) (metis, metis)

text \<open>
  DNS edits converge. After an administrator's create, delete or import, the agent of every host
  in the scope of the edit holds, once it has applied its pending commands, exactly the sorted union of
  the global entries and those of its groups. The one exception is the empty set: its message has no
  body, so the agent keeps the domains of before.
\<close>

theorem dns_edit_converges:
  assumes "dns_edit db grp db'" "dns_ok db" "distinct (map hst_id (j_hosts (pd_jobs db)))" "h \<in> set (hosts_in_scope (pd_jobs db) grp)"
  shows "ag_dns (agent_after (pending_commands (hst_id h) (pd_jobs db')) ag) =
    (let eff = effective_set_for_host_groups (pd_dns db') (group_ids_of (pd_jobs db) (hst_id h)) in
     if eff = ([], []) then ag_dns (agent_after (pending_commands (hst_id h) (pd_jobs db)) ag) else eff)"
proof -
  obtain user n where q: "pd_jobs db' = queue_resync_commands (pd_dns db') grp user (skip_ids n (pd_jobs db))"
    using assms(1) by (rule dns_edit_jobs)
  let ?db = "skip_ids n (pd_jobs db)" and ?groups = "group_ids_of (pd_jobs db) (hst_id h)"
  obtain b s where bs: "effective_set_for_host_groups (pd_dns db') ?groups = (b, s)" by (meson surj_pair)
  have ne: "filter (\<lambda>x. x \<noteq> []) b = b \<and> filter (\<lambda>x. x \<noteq> []) s = s"
    using effective_domains [OF _ bs] dns_edit_ok [OF assms(1,2)] by (simp add: dns_ok_def)
  have "agent_after (pending_commands (hst_id h) (dns.push_hosts (pd_dns db') user (hosts_in_scope (pd_jobs db) grp) ?db)) ag =
      fold agent_apply (bodies (dns_payloads (pd_dns db') h ?groups)) (agent_after (pending_commands (hst_id h) (pd_jobs db)) ag)"
    using dns.agent_after_push [of ?db "hosts_in_scope (pd_jobs db) grp" "in_scope (pd_jobs db) grp" h "pd_dns db'" user ag] assms(3,4)
    by (simp add: hosts_in_scope_def)
  moreover have "bodies (dns_payloads (pd_dns db') h ?groups) = [if b = [] \<and> s = [] then Pb_unset else Pb_dns_block_sync b s]"
    using ne bs by (simp add: bodies_def body_of_def dns_payloads_def map_filter_simps dns_body_payload)
  ultimately show ?thesis unfolding q queue_resync_commands_def using bs
    by (simp add: dns.push_hosts_def split: if_splits)
qed

definition demo_entry :: DnsBlockEntry where
  "demo_entry = new_entry (demo_actor ADMIN) 51 None ''evil.example'' DNS_BLOCK None"

text \<open>Deleting the last entry: the agent still blocks its domain.\<close>

theorem dns_edit_converges_witness:
  "\<exists>db' rq. delete_entry (demo_push_db [demo_entry] [] []) (demo_actor ADMIN) 51 = Inr (db', rq) \<and> pd_dns db' = [] \<and>
     ag_dns (agent_after (pending_commands (hst_id (demo_host 22 3)) (pd_jobs db')) demo_agent) = ([''evil.example''], [])"
proof -
  let ?db = "demo_push_db [demo_entry] [] []"
  obtain db' rq where d: "delete_entry ?db (demo_actor ADMIN) 51 = Inr (db', rq)" and none: "pd_dns db' = []"
    by (simp add: delete_entry_def RequireAdmin_def require_role_def has_role_def demo_actor_def demo_push_db_def demo_entry_def new_entry_def)
  have e: "dns_edit ?db None db'"
    using dns_edit.delete [OF d, of demo_entry] by (simp add: demo_push_db_def demo_entry_def new_entry_def)
  moreover have "dns_ok ?db" by (simp add: dns_ok_def demo_push_db_def demo_entry_def new_entry_def)
  ultimately show ?thesis using d none dns_edit_converges [OF e _ demo_hosts(1) demo_hosts(2), of demo_agent]
    by (simp add: demo_hosts(3) effective_set_for_host_groups_def agent_after_def map_filter_simps demo_agent_def)
qed

subsection \<open>Device control\<close>

inductive device_edit :: "push_db \<Rightarrow> uuid option \<Rightarrow> push_db \<Rightarrow> bool" where
  create: "create_policy now db actor body = Inr (db', rq) \<Longrightarrow> device_edit db (dc_host_group_id body) db'"
| update: "update_policy now db actor i u = Inr (db', rq) \<Longrightarrow> find (\<lambda>p. dp_id p = i) (pd_devices db) = Some p \<Longrightarrow>
    device_edit db (dp_host_group_id p) db'"
| delete: "delete_policy db actor i = Inr (db', rq) \<Longrightarrow> find (\<lambda>p. dp_id p = i) (pd_devices db) = Some p \<Longrightarrow>
    device_edit db (dp_host_group_id p) db'"

lemma device_edit_jobs:
  assumes "device_edit db grp db'"
  obtains user n where "pd_jobs db' = device_push_to_group (pd_devices db') grp user (skip_ids n (pd_jobs db))"
  using assms
proof cases
  case (create now actor body rq)
  then show ?thesis by (intro that [of "Some (u_id (actor_user actor))" 1])
      (auto simp: create_policy_def RequireAdmin_def require_role_def bindE_eq_Inr Let_def split: if_splits)
next
  case (update now actor i u rq p)
  then show ?thesis by (intro that [of "Some (u_id (actor_user actor))" 0])
      (auto simp: update_policy_def RequireAdmin_def require_role_def bindE_eq_Inr Let_def skip_ids_def split: if_splits option.splits)
next
  case (delete actor i rq p)
  then show ?thesis by (intro that [of "Some (u_id (actor_user actor))" 0])
      (auto simp: delete_policy_def RequireAdmin_def require_role_def bindE_eq_Inr Let_def skip_ids_def split: if_splits)
qed

definition device_wire :: "DevicePolicy \<Rightarrow> bool \<times> string list \<times> string list" where
  "device_wire p = (dp_enabled p, filter (\<lambda>x. x \<noteq> []) (dp_allowed_vendor_ids p), filter (\<lambda>x. x \<noteq> []) (dp_allowed_product_ids p))"

lemma device_kind_value_inj: "device_kind_value a = device_kind_value b \<longleftrightarrow> a = b"
  by (cases a; cases b) simp_all

lemma find_first_per_kind:
  "find (\<lambda>p. dp_kind p = k) (first_per_kind seen ps) = (if k \<in> set seen then None else find (\<lambda>p. dp_kind p = k) ps)"
  by (induction seen ps rule: first_per_kind.induct) auto

lemma first_per_kind_kinds: "distinct (map dp_kind (first_per_kind seen ps))" "dp_kind ` set (first_per_kind seen ps) \<inter> set seen = {}"
  by (induction seen ps rule: first_per_kind.induct) auto

lemma fold_device:
  assumes "distinct (map dp_kind ps)"
  shows "ag_device (fold agent_apply (bodies (map (\<lambda>p. (Cmd_DEVICE_CONTROL_SYNC, device_payload p)) ps)) ag) (device_kind_value k) =
    (case find (\<lambda>p. dp_kind p = k) ps of None \<Rightarrow> ag_device ag (device_kind_value k) | Some p \<Rightarrow> Some (device_wire p))"
  using assms
proof (induction ps arbitrary: ag)
  case (Cons p ps)
  have "find (\<lambda>q. dp_kind q = k) ps = None" if "dp_kind p = k"
    using Cons.prems that by (intro find_none_key) auto
  moreover have "body_of (Cmd_DEVICE_CONTROL_SYNC, device_payload p) = Some (Pb_device_control_sync (device_kind_value (dp_kind p))
      (dp_enabled p) (filter (\<lambda>x. x \<noteq> []) (dp_allowed_vendor_ids p)) (filter (\<lambda>x. x \<noteq> []) (dp_allowed_product_ids p)))"
    by (simp add: body_of_def device_body_payload)
  ultimately show ?case using Cons
    by (auto simp: bodies_def map_filter_simps device_wire_def device_kind_value_inj split: option.split)
qed (simp add: bodies_def map_filter_simps)

lemma find_sorted_least:
  "sorted (map f xs) \<Longrightarrow> find P xs = Some x \<Longrightarrow> y \<in> set xs \<Longrightarrow> P y \<Longrightarrow> f x \<le> f y"
  by (induction xs) (auto split: if_splits)

lemma find_append: "find P (xs @ ys) = (case find P xs of None \<Rightarrow> find P ys | Some x \<Rightarrow> Some x)"
  by (induction xs) auto

text \<open>Which policy of a kind wins.\<close>

definition wins :: "DevicePolicy list \<Rightarrow> uuid list \<Rightarrow> DevicePolicy \<Rightarrow> bool" where
  "wins policies groups p \<longleftrightarrow> p \<in> set policies \<and> applies groups (dp_host_group_id p) \<and>
     (\<forall>q \<in> set policies. applies groups (dp_host_group_id q) \<and> dp_kind q = dp_kind p \<longrightarrow>
        (dp_enabled q \<longrightarrow> dp_enabled p) \<and> (dp_enabled q = dp_enabled p \<longrightarrow> dp_updated_at q \<le> dp_updated_at p))"

lemma find_effective_policy:
  shows "find (\<lambda>p. dp_kind p = k) (effective_policies_for_host policies groups) = Some p \<Longrightarrow> wins policies groups p \<and> dp_kind p = k"
    and "find (\<lambda>p. dp_kind p = k) (effective_policies_for_host policies groups) = None \<longleftrightarrow>
      (\<forall>q \<in> set policies. applies groups (dp_host_group_id q) \<longrightarrow> dp_kind q \<noteq> k)"
proof -
  let ?rows = "filter (\<lambda>p. applies groups (dp_host_group_id p)) policies"
  let ?on = "sort_key (\<lambda>p. - dp_updated_at p) (filter dp_enabled ?rows)"
  let ?off = "sort_key (\<lambda>p. - dp_updated_at p) (filter (\<lambda>p. \<not> dp_enabled p) ?rows)"
  have eff: "effective_policies_for_host policies groups = ?on @ ?off" by (simp add: effective_policies_for_host_def)
  have so: "sorted (map (\<lambda>p. - dp_updated_at p) ?on)" "sorted (map (\<lambda>p. - dp_updated_at p) ?off)" by simp_all
  show "find (\<lambda>p. dp_kind p = k) (effective_policies_for_host policies groups) = None \<longleftrightarrow>
      (\<forall>q \<in> set policies. applies groups (dp_host_group_id q) \<longrightarrow> dp_kind q \<noteq> k)"
    unfolding eff find_None_iff by auto
  assume f: "find (\<lambda>p. dp_kind p = k) (effective_policies_for_host policies groups) = Some p"
  show "wins policies groups p \<and> dp_kind p = k"
  proof (cases "find (\<lambda>p. dp_kind p = k) ?on")
    case None
    with f have p: "find (\<lambda>p. dp_kind p = k) ?off = Some p" by (simp add: eff find_append)
    moreover have "\<forall>q \<in> set ?on. dp_kind q \<noteq> k" using None by (simp only: find_None_iff) blast
    ultimately show ?thesis using find_sorted_least [OF so(2) p] find_SomeD [OF p] by (fastforce simp: wins_def)
  next
    case (Some q)
    with f have p: "find (\<lambda>p. dp_kind p = k) ?on = Some p" by (simp add: eff find_append)
    then show ?thesis using find_sorted_least [OF so(1) p] find_SomeD [OF p] by (fastforce simp: wins_def)
  qed
qed

text \<open>
  Device policy edits converge. After a create, update or delete, for every host in the scope of
  the edit and every kind of policy, the agent holds the winning policy of that kind once it has applied
  its pending commands: an enabled one before a disabled one, then the most recently updated. When no
  policy of the kind applies any more nothing is sent for it, and the agent keeps what it had.
\<close>

theorem device_edit_converges:
  assumes "device_edit db grp db'" "distinct (map hst_id (j_hosts (pd_jobs db)))" "h \<in> set (hosts_in_scope (pd_jobs db) grp)"
  shows "let after = ag_device (agent_after (pending_commands (hst_id h) (pd_jobs db')) ag) (device_kind_value k);
             groups = group_ids_of (pd_jobs db) (hst_id h) in
    (\<exists>p. wins (pd_devices db') groups p \<and> dp_kind p = k \<and> after = Some (device_wire p)) \<or>
    ((\<forall>q \<in> set (pd_devices db'). applies groups (dp_host_group_id q) \<longrightarrow> dp_kind q \<noteq> k) \<and>
     after = ag_device (agent_after (pending_commands (hst_id h) (pd_jobs db)) ag) (device_kind_value k))"
proof -
  obtain user n where q: "pd_jobs db' = device_push_to_group (pd_devices db') grp user (skip_ids n (pd_jobs db))"
    using assms(1) by (rule device_edit_jobs)
  let ?db = "skip_ids n (pd_jobs db)" and ?groups = "group_ids_of (pd_jobs db) (hst_id h)"
  let ?eff = "effective_policies_for_host (pd_devices db') ?groups"
  have "agent_after (pending_commands (hst_id h) (pd_jobs db')) ag =
      fold agent_apply (bodies (device_payloads (pd_devices db') h ?groups)) (agent_after (pending_commands (hst_id h) (pd_jobs db)) ag)"
    using device.agent_after_push [of ?db "hosts_in_scope (pd_jobs db) grp" "in_scope (pd_jobs db) grp" h "pd_devices db'" user ag] assms(2,3)
    by (simp add: q device_push_to_group_def device.push_hosts_def hosts_in_scope_def)
  then have after: "ag_device (agent_after (pending_commands (hst_id h) (pd_jobs db')) ag) (device_kind_value k) =
      (case find (\<lambda>p. dp_kind p = k) ?eff of
         None \<Rightarrow> ag_device (agent_after (pending_commands (hst_id h) (pd_jobs db)) ag) (device_kind_value k)
       | Some p \<Rightarrow> Some (device_wire p))"
    by (simp add: device_payloads_def fold_device first_per_kind_kinds find_first_per_kind)
  show ?thesis
  proof (cases "find (\<lambda>p. dp_kind p = k) ?eff")
    case None
    then show ?thesis using after find_effective_policy(2) [of k "pd_devices db'" ?groups] by (simp add: Let_def)
  next
    case (Some p)
    then show ?thesis using after find_effective_policy(1) [OF Some] by (auto simp: Let_def)
  qed
qed

theorem device_edit_converges_witness:
  "\<exists>db' rq p. create_policy 5 (demo_push_db [] [] []) (demo_actor ADMIN) \<lparr>dc_host_group_id = None, dc_kind = USB_BLOCK, dc_name = ''p'',
       dc_description = None, dc_allowed_vendor_ids = [], dc_allowed_product_ids = [], dc_enabled = True\<rparr> = Inr (db', rq) \<and>
     wins (pd_devices db') [31] p \<and>
     ag_device (agent_after (pending_commands (hst_id (demo_host 22 3)) (pd_jobs db')) demo_agent) ''usb_block'' = Some (device_wire p)"
proof -
  let ?db = "demo_push_db [] [] []" and ?body = "\<lparr>dc_host_group_id = None, dc_kind = USB_BLOCK, dc_name = ''p'',
       dc_description = None, dc_allowed_vendor_ids = [], dc_allowed_product_ids = [], dc_enabled = True\<rparr>"
  obtain db' rq p where c: "create_policy 5 ?db (demo_actor ADMIN) ?body = Inr (db', rq)"
    and p: "pd_devices db' = [p]" "dp_kind p = USB_BLOCK" "dp_host_group_id p = None"
    by (simp add: create_policy_def RequireAdmin_def require_role_def has_role_def demo_actor_def demo_push_db_def name_ok_def Let_def)
  have e: "device_edit ?db None db'" using device_edit.create [OF c] by simp
  show ?thesis using c p device_edit_converges [OF e demo_hosts(1) demo_hosts(2), of demo_agent USB_BLOCK]
    by (auto simp: Let_def demo_hosts(4) applies_def)
qed

subsection \<open>Honeytokens\<close>

text \<open>The part of a token that is sent; the counters are the manager's own.\<close>

definition token_core :: "Honeytoken \<Rightarrow> Honeytoken" where
  "token_core t = t\<lparr>ht_deployed_count := 0\<rparr>"

lemma insort_key_map: "insort_key f (g x) (map g xs) = map g (insort_key (\<lambda>x. f (g x)) x xs)"
  by (induction xs) auto

lemma sort_key_map: "sort_key f (map g xs) = map g (sort_key (\<lambda>x. f (g x)) xs)"
  by (induction xs) (simp_all add: insort_key_map)

lemma effective_tokens_core:
  "effective_tokens_for_host (map token_core ts) tenant groups = map token_core (effective_tokens_for_host ts tenant groups)"
  by (simp add: effective_tokens_for_host_def filter_map comp_def sort_key_map token_core_def [abs_def])

lemma spec_for_core: "spec_for (token_core t) = spec_for t"
  by (simp add: spec_for_def token_core_def payload_bytes_def cong: option.case_cong sum.case_cong)

lemma token_payloads_core: "map token_core ts = map token_core ts' \<Longrightarrow> token_payloads ts h groups = token_payloads ts' h groups"
proof -
  assume eq: "map token_core ts = map token_core ts'"
  have specs: "map spec_for (effective_tokens_for_host ts tenant groups) =
      map spec_for (effective_tokens_for_host (map token_core ts) tenant groups)" for ts tenant
    by (simp add: effective_tokens_core spec_for_core)
  have form: "token_payloads ts h groups = (let ss = map spec_for (effective_tokens_for_host ts (hst_tenant_id h) groups) in
      if ss = [] then [] else [(Cmd_DEPLOY_HONEYTOKEN, [(''specs'', PList ss)])])" for ts
    by (simp add: token_payloads_def split: list.split)
  show ?thesis unfolding form specs [of ts] specs [of ts'] eq ..
qed

lemma count_deployed_core: "map token_core (count_deployed eff ts) = map token_core ts"
  by (simp add: count_deployed_def token_core_def)

lemma token_push_core: "map token_core (fst (token_push_to_host user h (ts, db))) = map token_core ts"
  by (simp add: token_push_to_host_def Let_def count_deployed_core)

lemma token_push_jobs_core: "map token_core ts = map token_core ts' \<Longrightarrow> token_push_jobs ts user h db = token_push_jobs ts' user h db"
proof -
  assume eq: "map token_core ts = map token_core ts'"
  have form: "token_push_jobs ts user h db = fold (\<lambda>(k, p). append_command ((new_command db (hst_id h) k p None None user)
      \<lparr>cmd_tenant_id := hst_tenant_id h\<rparr>)) (token_payloads ts h (group_ids_of db (hst_id h))) db" for ts
    by (simp add: token_push_jobs_def token_push_to_host_def token_payloads_def Let_def split: list.split)
  show ?thesis unfolding form token_payloads_core [OF eq] ..
qed

lemma token_push_fold:
  "map token_core (fst (fold (token_push_to_host user) hs (ts, db))) = map token_core ts \<and>
   snd (fold (token_push_to_host user) hs (ts, db)) = fold (token_push_jobs ts user) hs db"
proof (induction hs arbitrary: ts db)
  case (Cons h hs)
  obtain ts1 db1 where p: "token_push_to_host user h (ts, db) = (ts1, db1)" by (meson surj_pair)
  then have core: "map token_core ts1 = map token_core ts" using token_push_core [of user h ts db] by simp
  have db1: "db1 = token_push_jobs ts user h db" using p by (simp add: token_push_jobs_def)
  have "token_push_jobs ts1 user = token_push_jobs ts user" by (intro ext token_push_jobs_core core)
  with Cons.IH [of ts1 db1] core show ?case by (simp add: p db1)
qed simp

inductive token_edit :: "push_db \<Rightarrow> Actor \<Rightarrow> uuid option \<Rightarrow> push_db \<Rightarrow> bool" where
  create: "create_honeytoken db actor body = Inr (db', rq) \<Longrightarrow> token_edit db actor (hc_host_group_id body) db'"
| update: "update_honeytoken db actor i u = Inr (db', rq) \<Longrightarrow> own_token db actor i = Inr t \<Longrightarrow> token_edit db actor (ht_host_group_id t) db'"
| delete: "delete_honeytoken db actor i = Inr (db', rq) \<Longrightarrow> own_token db actor i = Inr t \<Longrightarrow> token_edit db actor (ht_host_group_id t) db'"

lemma token_edit_push:
  assumes "token_edit db actor grp db'"
  obtains ts n where "db' = push_tokens actor grp ts (skip_ids n (pd_jobs db)) db"
  using assms
proof cases
  case (create body rq)
  then show ?thesis
    by (auto simp: create_honeytoken_def RequireAdmin_def require_role_def bindE_eq_Inr Let_def split: if_splits intro: that [of _ 1])
next
  case (update i u rq t)
  have "pd_jobs db = skip_ids 0 (pd_jobs db)" by (simp add: skip_ids_def)
  with update show ?thesis using that [of _ 0]
    by (auto simp: update_honeytoken_def RequireAdmin_def require_role_def bindE_eq_Inr split: if_splits)
next
  case (delete i rq t)
  have "pd_jobs db = skip_ids 0 (pd_jobs db)" by (simp add: skip_ids_def)
  with delete show ?thesis using that [of _ 0]
    by (auto simp: delete_honeytoken_def RequireAdmin_def require_role_def bindE_eq_Inr split: if_splits)
qed

definition token_wire :: "Honeytoken \<Rightarrow> HoneytokenSpec" where
  "token_wire t = \<lparr>hs_id = uuid_str (ht_id t), hs_kind = honeytoken_kind_value (ht_kind t), hs_name = ht_name t,
     hs_target_path = (case ht_target_path t of None \<Rightarrow> [] | Some p \<Rightarrow> p), hs_payload = payload_bytes t\<rparr>"

lemma uuid_str_nonempty [simp]: "uuid_str u \<noteq> []"
  by (simp add: uuid_str_def Let_def)

lemma honeytoken_kind_value_nonempty [simp]: "honeytoken_kind_value k \<noteq> []"
  by (cases k) simp_all

lemma payload_str_PStr: "dget d k = PStr s \<Longrightarrow> payload_str d k = s"
  by (cases s) (simp_all add: payload_str_def py_or_def)

lemma wire_spec_for: "wire_spec (spec_for t) = Some (token_wire t)"
  by (simp add: wire_spec_def spec_for_def token_wire_def Let_def payload_str_PStr b64_roundtrip)

lemma token_bodies:
  "bodies (token_payloads ts h groups) = (let eff = effective_tokens_for_host ts (hst_tenant_id h) groups in
     if eff = [] then [] else [Pb_deploy_honeytoken (map token_wire eff)])"
proof -
  have "List.map_filter wire_spec (map spec_for eff) = map token_wire eff" for eff
    by (induction eff) (simp_all add: map_filter_simps wire_spec_for)
  then have "honeytoken_body [(''specs'', PList (map spec_for (t # eff)))] = Inr (Some (Pb_deploy_honeytoken (map token_wire (t # eff))))" for t eff
    by (simp only: honeytoken_body_def Let_def dget_Cons) (simp add: py_or_def map_filter_simps wire_spec_for)
  then show ?thesis by (auto simp: token_payloads_def bodies_def body_of_def map_filter_simps Let_def split: list.split)
qed

text \<open>
  Honeytoken edits converge. After a create, update or delete, the agent of every host of the
  tenant in the scope of the edit receives exactly the enabled tokens of its tenant that apply to it,
  in order of name, each with the very bytes of its payload (they travel base64-encoded). When none
  is left nothing is sent, and the agent keeps its decoys.
\<close>

theorem token_edit_converges:
  assumes "token_edit db actor grp db'" "distinct (map hst_id (j_hosts (pd_jobs db)))" "h \<in> set (hosts_in_scope (pd_jobs db) grp)"
    "hst_tenant_id h = actor_tenant_id actor"
  shows "ag_tokens (agent_after (pending_commands (hst_id h) (pd_jobs db')) ag) =
    (let eff = effective_tokens_for_host (pd_tokens db') (hst_tenant_id h) (group_ids_of (pd_jobs db) (hst_id h)) in
     if eff = [] then ag_tokens (agent_after (pending_commands (hst_id h) (pd_jobs db)) ag) else map token_wire eff)"
proof -
  obtain ts n where db': "db' = push_tokens actor grp ts (skip_ids n (pd_jobs db)) db" using assms(1) by (rule token_edit_push)
  let ?db = "skip_ids n (pd_jobs db)" and ?groups = "group_ids_of (pd_jobs db) (hst_id h)" and ?user = "Some (u_id (actor_user actor))"
  let ?P = "\<lambda>h. in_scope (pd_jobs db) grp h \<and> hst_tenant_id h = actor_tenant_id actor"
  let ?hs = "filter ?P (j_hosts (pd_jobs db))"
  have core: "map token_core (pd_tokens db') = map token_core ts"
    and jobs: "pd_jobs db' = tokens.push_hosts ts ?user ?hs ?db"
    using token_push_fold [of ?user ?hs ts ?db]
    by (auto simp: db' push_tokens_def token_push_to_group_def hosts_in_scope_def tokens.push_hosts_def conj_commute split: prod.split)
  have "agent_after (pending_commands (hst_id h) (pd_jobs db')) ag =
      fold agent_apply (bodies (token_payloads ts h ?groups)) (agent_after (pending_commands (hst_id h) (pd_jobs db)) ag)"
    using tokens.agent_after_push [of ?db ?hs ?P h ts ?user ag] assms(2-4) by (simp add: jobs hosts_in_scope_def)
  then show ?thesis unfolding token_payloads_core [OF core, symmetric] token_bodies by (simp add: Let_def)
qed

theorem token_edit_converges_witness:
  "\<exists>db' rq. create_honeytoken (demo_push_db [] [] []) (demo_actor ADMIN) \<lparr>hc_host_group_id = None, hc_kind = FAKE_FILE, hc_name = ''bait'',
       hc_payload_json = [(''body'', PStr ''aGk='')], hc_target_path = Some ''/x'', hc_enabled = True\<rparr> = Inr (db', rq) \<and>
     map hs_payload (ag_tokens (agent_after (pending_commands (hst_id (demo_host 22 3)) (pd_jobs db')) demo_agent)) = [''hi'']"
proof -
  let ?db = "demo_push_db [] [] []" and ?body = "\<lparr>hc_host_group_id = None, hc_kind = FAKE_FILE, hc_name = ''bait'',
       hc_payload_json = [(''body'', PStr ''aGk='')], hc_target_path = Some ''/x'', hc_enabled = True\<rparr>"
  have "case create_honeytoken ?db (demo_actor ADMIN) ?body of Inr (d, _) \<Rightarrow>
      map payload_bytes (effective_tokens_for_host (pd_tokens d) 3 [31]) = [''hi''] | Inl _ \<Rightarrow> False" by code_simp
  then obtain db' rq where c: "create_honeytoken ?db (demo_actor ADMIN) ?body = Inr (db', rq)"
    and eff: "map payload_bytes (effective_tokens_for_host (pd_tokens db') 3 [31]) = [''hi'']" by (auto split: sum.splits)
  have e: "token_edit ?db (demo_actor ADMIN) None db'" using token_edit.create [OF c] by simp
  have t: "hst_tenant_id (demo_host 22 3) = 3" "actor_tenant_id (demo_actor ADMIN) = 3" by (simp_all add: demo_host_def demo_actor_def)
  have "map hs_payload (map token_wire ts) = map payload_bytes ts" for ts by (simp add: token_wire_def)
  with c eff token_edit_converges [OF e demo_hosts(1) demo_hosts(2), of demo_agent] t show ?thesis
    by (auto simp: Let_def demo_hosts(4) simp del: map_map)
qed

end
