(* ===== verification/Playbooks.thy ===== *)
theory Playbooks
  imports Routing Command_Wire
begin

text \<open>
  Response playbooks: the rows (backend/app/models/playbook.py), the parser, the trigger matching, the
  condition language, the step functions and the engine (services/playbooks.py), and the worker that
  runs a playbook for a Kafka message (workers/playbook_executor.py). The YAML reader, name resolution,
  the decryption of channel settings, the senders and the AI client are parameters; the clock is read
  twice for every step.
\<close>

section \<open>Rows\<close>

datatype PlaybookRunStatus = PB_PENDING | PB_RUNNING | PB_SUCCEEDED | PB_FAILED | PB_PARTIAL

record Playbook =
  pb_id :: uuid
  pb_tenant_id :: uuid
  pb_name :: string
  pb_yaml_body :: string
  pb_enabled :: bool
  pb_trigger_rule_id :: "uuid option"
  pb_trigger_severity :: "string option"
  pb_trigger_mitre :: "string list option"

record PlaybookRun =
  pr_id :: uuid
  pr_tenant_id :: uuid
  pr_playbook_id :: uuid
  pr_alert_id :: uuid
  pr_status :: PlaybookRunStatus
  pr_steps_executed :: "pydict list"
  pr_error :: "string option"
  pr_finished_at :: "datetime option"

section \<open>Parsing\<close>

definition STEP_KINDS :: "string list" where
  "STEP_KINDS = [''isolate'', ''kill'', ''quarantine'', ''memory_yara'', ''triage_collect'', ''notify_slack'', ''notify_pagerduty'',
     ''notify_email'', ''wait_seconds'', ''branch_if'', ''ai_suggest'']"

definition MAX_WAIT_SECONDS :: int where
  "MAX_WAIT_SECONDS = 600"

definition MAX_STEPS :: nat where
  "MAX_STEPS = 64"

record ParsedStep =
  st_kind :: string
  st_params :: pydict

definition as_outcome_stub :: "ParsedStep \<Rightarrow> pydict" where
  "as_outcome_stub step = [(''kind'', PStr (st_kind step)), (''params'', PDict (st_params step))]"

definition step_error :: "nat \<Rightarrow> string \<Rightarrow> exn" where
  "step_error idx what = PlaybookParseError (''step '' @ show_nat idx @ '': '' @ what)"

definition non_blank :: "pyval \<Rightarrow> bool" where
  "non_blank v = (case as_str v of None \<Rightarrow> False | Some s \<Rightarrow> strip s \<noteq> [])"

definition step_params_ok :: "string \<Rightarrow> pydict \<Rightarrow> bool" where
  "step_params_ok kind params =
     (if kind = ''isolate'' then
        (case dget params ''network_allowlist_ips'' of
           PNone \<Rightarrow> True | PList xs \<Rightarrow> list_all (\<lambda>x. as_str x \<noteq> None) xs | _ \<Rightarrow> False)
      else if kind = ''kill'' then dget_default params ''pid_from'' (PStr ''alert'') = PStr ''alert''
      else if kind = ''quarantine'' then dget_default params ''path_from'' (PStr ''alert'') = PStr ''alert''
      else if kind = ''memory_yara'' then (case dget params ''rule_id'' of PNone \<Rightarrow> True | PStr _ \<Rightarrow> True | _ \<Rightarrow> False)
      else if kind \<in> {''notify_slack'', ''notify_pagerduty'', ''notify_email''} then
        non_blank (dget params ''channel_id'') \<and>
        (case as_str (dget params ''channel_id'') of None \<Rightarrow> False | Some s \<Rightarrow> uuid_of_str s \<noteq> None)
      else if kind = ''wait_seconds'' then
        (case as_int (dget params ''n'') of None \<Rightarrow> False | Some n \<Rightarrow> 0 \<le> n \<and> n \<le> MAX_WAIT_SECONDS)
      else if kind = ''branch_if'' then non_blank (dget params ''condition'')
      else True)"

definition validate_step_params :: "nat \<Rightarrow> string \<Rightarrow> pydict \<Rightarrow> unit result" where
  "validate_step_params idx kind params =
     (if step_params_ok kind params then Inr () else Inl (step_error idx (kind @ '' params'')))"

definition parse_step :: "nat \<Rightarrow> pyval \<Rightarrow> ParsedStep result" where
  "parse_step idx raw = (case raw of
       PDict [(kind, params)] \<Rightarrow>
         (if kind \<notin> set STEP_KINDS then Inl (step_error idx ''unknown step kind'')
          else (case params of
              PNone \<Rightarrow> bindE (validate_step_params idx kind []) (\<lambda>_. Inr \<lparr>st_kind = kind, st_params = []\<rparr>)
            | PDict p \<Rightarrow> bindE (validate_step_params idx kind p) (\<lambda>_. Inr \<lparr>st_kind = kind, st_params = p\<rparr>)
            | _ \<Rightarrow> Inl (step_error idx ''params must be a mapping'')))
     | _ \<Rightarrow> Inl (step_error idx ''must be a single-key mapping (kind: params)''))"

definition parse_playbook :: "(string \<Rightarrow> pyval result) \<Rightarrow> string \<Rightarrow> ParsedStep list result" where
  "parse_playbook safe_load body = (case safe_load body of
       Inl _ \<Rightarrow> Inl (PlaybookParseError ''yaml parse failed'')
     | Inr (PDict doc) \<Rightarrow>
         (case dget doc ''steps'' of
            PList (x # xs) \<Rightarrow>
              (if length (x # xs) > MAX_STEPS then Inl (PlaybookParseError ''playbook has too many steps (cap=64)'')
               else mapE (\<lambda>(idx, raw). parse_step idx raw) (enumerate 0 (x # xs)))
          | _ \<Rightarrow> Inl (PlaybookParseError ''playbook body must have a non-empty 'steps' list''))
     | Inr _ \<Rightarrow> Inl (PlaybookParseError ''playbook body must be a YAML mapping at the top level''))"

section \<open>Triggers\<close>

definition severity_rank_of :: "string \<Rightarrow> int" where
  "severity_rank_of s = (case severity_of_value s of None \<Rightarrow> - 1 | Some v \<Rightarrow> int (severity_rank v))"

definition matches_alert :: "Playbook \<Rightarrow> uuid \<Rightarrow> Severity \<Rightarrow> string list option \<Rightarrow> bool" where
  "matches_alert playbook rule_id severity mitre =
     (if \<not> pb_enabled playbook then False
      else
        (let by_rule = (case pb_trigger_rule_id playbook of None \<Rightarrow> (False, False) | Some r \<Rightarrow> (True, r = rule_id));
             by_severity = (case pb_trigger_severity playbook of
                 None \<Rightarrow> (False, False)
               | Some s \<Rightarrow> (let wanted = severity_rank_of s; actual = severity_rank_of (severity_value severity)
                             in (True, wanted \<ge> 0 \<and> actual \<ge> wanted)));
             by_mitre = (case pb_trigger_mitre playbook of
                 Some (t # ts) \<Rightarrow> (True, set (case mitre of None \<Rightarrow> [] | Some m \<Rightarrow> m) \<inter> set (t # ts) \<noteq> {})
               | _ \<Rightarrow> (False, False));
             has_any_trigger = (fst by_rule \<or> fst by_severity \<or> fst by_mitre);
             matched_any = (snd by_rule \<or> snd by_severity \<or> snd by_mitre)
         in has_any_trigger \<and> matched_any))"

definition find_matching_playbooks :: "Playbook list \<Rightarrow> uuid \<Rightarrow> Severity \<Rightarrow> string list option \<Rightarrow> Playbook list" where
  "find_matching_playbooks playbooks rule_id severity mitre =
     filter (\<lambda>p. matches_alert p rule_id severity (Some (case mitre of None \<Rightarrow> [] | Some m \<Rightarrow> m))) (filter pb_enabled playbooks)"

section \<open>Conditions\<close>

text \<open>A literal matched without regard to case; the rest of the input after it.\<close>

definition match_word :: "string \<Rightarrow> string \<Rightarrow> string option" where
  "match_word w s = (if lower (take (length w) s) = w then Some (drop (length w) s) else None)"

definition all_space :: "string \<Rightarrow> bool" where
  "all_space s \<longleftrightarrow> list_all is_space s"

text \<open>\<open>_EQUALITY_RE\<close>: the operator (is it \<open>==\<close>?) and the quoted word.\<close>

definition match_equality :: "string \<Rightarrow> (bool \<times> string) option" where
  "match_equality s = (case match_word ''alert.severity'' (lstrip s) of
       None \<Rightarrow> None
     | Some t \<Rightarrow>
         (let t = lstrip t; eq = startswith t ''=='' in
          if \<not> eq \<and> \<not> startswith t ''!='' then None
          else (let u = lstrip (drop 2 t) in
            if u = [] \<or> hd u \<noteq> dquote then None
            else (let w = takeWhile is_ascii_alpha (tl u); v = dropWhile is_ascii_alpha (tl u) in
              if w = [] \<or> v = [] \<or> hd v \<noteq> dquote \<or> \<not> all_space (tl v) then None else Some (eq, w)))))"

text \<open>\<open>_IN_RE\<close>: the text between the parentheses, without leading white space.\<close>

definition match_in :: "string \<Rightarrow> string option" where
  "match_in s = (case match_word ''alert.severity'' (lstrip s) of
       None \<Rightarrow> None
     | Some t \<Rightarrow>
         (if t = [] \<or> \<not> is_space (hd t) then None
          else (case match_word ''in'' (lstrip t) of
              None \<Rightarrow> None
            | Some u \<Rightarrow>
                (if u = [] \<or> \<not> is_space (hd u) then None
                 else (let v = lstrip u in
                   if v = [] \<or> hd v \<noteq> CHR ''('' then None
                   else (let inner = takeWhile (\<lambda>c. c \<noteq> CHR '')'') (tl v); rest = dropWhile (\<lambda>c. c \<noteq> CHR '')'') (tl v) in
                     if inner = [] \<or> rest = [] \<or> \<not> all_space (tl rest) then None
                     else Some (if all_space inner then [last inner] else lstrip inner)))))))"

definition in_tokens :: "string \<Rightarrow> string list" where
  "in_tokens raw = map (\<lambda>tok. lower (strip_chars [squote] (strip_chars [dquote] (strip tok))))
     (filter (\<lambda>tok. strip tok \<noteq> []) (split_on CHR '','' raw))"

definition eval_condition :: "string \<Rightarrow> string \<Rightarrow> bool result" where
  "eval_condition condition severity_val = (case match_equality condition of
       Some (eq, w) \<Rightarrow> Inr (if eq then severity_val = lower w else severity_val \<noteq> lower w)
     | None \<Rightarrow> (case match_in condition of
         Some raw \<Rightarrow> Inr (severity_val \<in> set (in_tokens raw))
       | None \<Rightarrow> Inl (PlaybookParseError ''branch_if: unsupported condition'')))"

section \<open>Steps\<close>

record AlertContext =
  cx_alert_id :: uuid
  cx_host_id :: "uuid option"
  cx_severity :: Severity
  cx_details :: pyval
  cx_rule_id :: uuid

definition context_from_alert :: "Alert \<Rightarrow> AlertContext" where
  "context_from_alert alert = \<lparr>cx_alert_id = a_id alert, cx_host_id = a_host_id alert, cx_severity = a_severity alert,
     cx_details = a_details alert, cx_rule_id = a_rule_id alert\<rparr>"

text \<open>\<open>(details.get("ecs") or {}).get(k) or details.get(k) or {}\<close>\<close>

definition detail_block :: "pyval \<Rightarrow> string \<Rightarrow> pyval result" where
  "detail_block details k =
     bindE (vget details ''ecs'') (\<lambda>ecs. bindE (vget (py_or ecs (PDict [])) k) (\<lambda>x.
       if truthy x then Inr x else bindE (vget details k) (\<lambda>y. Inr (py_or y (PDict [])))))"

text \<open>\<open>isinstance(v, int) and v > 0\<close>\<close>

definition positive :: "pyval \<Rightarrow> pyval option" where
  "positive v = (case as_int v of None \<Rightarrow> None | Some i \<Rightarrow> if i > 0 then Some v else None)"

definition pid_from_alert :: "AlertContext \<Rightarrow> pyval option result" where
  "pid_from_alert ctx =
     (let details = py_or (cx_details ctx) (PDict []) in
      bindE (detail_block details ''process'') (\<lambda>proc. bindE (vget proc ''pid'') (\<lambda>pid.
        case positive pid of Some i \<Rightarrow> Inr (Some i) | None \<Rightarrow> bindE (vget details ''pid'') (\<lambda>pid2. Inr (positive pid2)))))"

definition nonempty_str :: "pyval \<Rightarrow> string option" where
  "nonempty_str v = (case as_str v of None \<Rightarrow> None | Some s \<Rightarrow> if s = [] then None else Some s)"

definition path_from_alert :: "AlertContext \<Rightarrow> string option result" where
  "path_from_alert ctx =
     (let details = py_or (cx_details ctx) (PDict []) in
      bindE (detail_block details ''file'') (\<lambda>file. bindE (vget file ''path'') (\<lambda>path.
        case nonempty_str path of Some s \<Rightarrow> Inr (Some s) | None \<Rightarrow> bindE (vget details ''path'') (\<lambda>p2. Inr (nonempty_str p2)))))"

record playbook_db =
  px_jobs :: job_db
  px_alerts :: "Alert list"
  px_playbooks :: "Playbook list"
  px_runs :: "PlaybookRun list"
  px_routing :: routing_db

datatype effect = Slept int | Sent uuid

record ai_reply =
  ai_suggested :: pyval
  ai_model_id :: string
  ai_cached_input_tokens :: int
  ai_output_tokens :: int

record playbook_env =
  env_safe_load :: "string \<Rightarrow> pyval result"
  env_guard :: guard_settings
  env_getaddrinfo :: resolver
  env_decrypt_config :: "bytes \<Rightarrow> pydict result"
  env_world :: world
  env_suggest :: "Alert \<Rightarrow> ai_reply result"
  env_clock :: "nat \<Rightarrow> datetime"

text \<open>What a step does to the tables and the outside world, and the outcome it records.\<close>

type_synonym step_result = "(playbook_db \<times> effect list \<times> pydict) result"

definition skipped :: "playbook_db \<Rightarrow> string \<Rightarrow> step_result" where
  "skipped db reason = Inr (db, [], [(''outcome'', PStr ''skipped''), (''reason'', PStr reason)])"

definition failed_step :: "playbook_db \<Rightarrow> effect list \<Rightarrow> string \<Rightarrow> step_result" where
  "failed_step db es err = Inr (db, es, [(''outcome'', PStr ''failed''), (''error'', PStr err)])"

text \<open>Queue a command for the alert; its id is the next one.\<close>

definition queue_for_alert :: "playbook_db \<Rightarrow> AlertContext \<Rightarrow> uuid \<Rightarrow> CommandKind \<Rightarrow> pydict \<Rightarrow> playbook_db" where
  "queue_for_alert db ctx host kind payload =
     db\<lparr>px_jobs := add_command (px_jobs db) host kind payload (Some (cx_alert_id ctx)) (Some (cx_rule_id ctx)) None\<rparr>"

definition command_ok :: "playbook_db \<Rightarrow> pydict \<Rightarrow> pydict" where
  "command_ok db extra = [(''outcome'', PStr ''ok''), (''command_id'', PStr (uuid_str (j_next (px_jobs db))))] @ extra"

definition run_isolate :: "playbook_env \<Rightarrow> playbook_db \<Rightarrow> AlertContext \<Rightarrow> pydict \<Rightarrow> step_result" where
  "run_isolate env db ctx params = (case cx_host_id ctx of
       None \<Rightarrow> skipped db ''alert has no host_id''
     | Some host \<Rightarrow>
         (let ips = dget params ''network_allowlist_ips'' in
          bindE (if truthy ips then bindE (py_iter ips) (\<lambda>xs. Inr [(''isolate'', PBool True), (''allowlist_ips'', PList xs)])
                 else Inr [(''isolate'', PBool True)]) (\<lambda>payload.
          bindE (ensure_manager_in_allowlist (env_guard env) (env_getaddrinfo env) payload) (\<lambda>payload.
            Inr (queue_for_alert db ctx host Cmd_ISOLATE payload, [], command_ok db [])))))"

definition run_kill :: "playbook_db \<Rightarrow> AlertContext \<Rightarrow> step_result" where
  "run_kill db ctx = (case cx_host_id ctx of
       None \<Rightarrow> skipped db ''alert has no host_id''
     | Some host \<Rightarrow> bindE (pid_from_alert ctx) (\<lambda>pid. case pid of
         None \<Rightarrow> skipped db ''alert.details has no process.pid''
       | Some i \<Rightarrow> Inr (queue_for_alert db ctx host Cmd_KILL_PROCESS [(''pid'', i)], [], command_ok db [(''pid'', i)])))"

definition run_quarantine :: "playbook_db \<Rightarrow> AlertContext \<Rightarrow> step_result" where
  "run_quarantine db ctx = (case cx_host_id ctx of
       None \<Rightarrow> skipped db ''alert has no host_id''
     | Some host \<Rightarrow> bindE (path_from_alert ctx) (\<lambda>path. case path of
         None \<Rightarrow> skipped db ''alert.details has no file.path''
       | Some p \<Rightarrow> Inr (queue_for_alert db ctx host Cmd_QUARANTINE_FILE [(''path'', PStr p), (''delete_original'', PBool True)], [],
           command_ok db [(''path'', PStr p)])))"

definition run_memory_yara :: "playbook_db \<Rightarrow> pydict \<Rightarrow> step_result" where
  "run_memory_yara db params = Inr (db, [], [(''outcome'', PStr ''ok''), (''requested_rule_id'', dget params ''rule_id'')])"

text \<open>One job for one host: the job, its run and the command that carries it, with ids in this order.\<close>

definition bridge_job ::
  "job_db \<Rightarrow> uuid \<Rightarrow> JobKind \<Rightarrow> pydict \<Rightarrow> string \<Rightarrow> uuid \<Rightarrow> uuid \<Rightarrow> string \<Rightarrow> job_db \<times> Job \<times> Command" where
  "bridge_job db host kind params summary alert rule by =
     (let n = j_next db;
          job = \<lparr>job_id = n, job_tenant_id = DEFAULT_TENANT_ID, job_kind = kind, job_parameters = params, job_scope_kind = HOST_IDS,
            job_scope_host_ids = Some [uuid_str host], job_scope_group_id = None, job_status = JOB_RUNNING, job_summary = summary,
            job_created_by = None, job_triggered_by_alert_id = Some alert, job_triggered_by = by, job_canceled_at = None\<rparr>;
          cmd = (run_command job None (n + 2) (n + 1) host)\<lparr>cmd_triggered_by_alert_id := Some alert, cmd_triggered_by_rule_id := Some rule\<rparr>
      in (db\<lparr>j_jobs := j_jobs db @ [job], j_runs := j_runs db @ [new_run job (n + 1) (n + 2) host],
             j_commands := j_commands db @ [cmd], j_next := n + 3\<rparr>, job, cmd))"

definition run_triage_collect :: "playbook_db \<Rightarrow> AlertContext \<Rightarrow> step_result" where
  "run_triage_collect db ctx = (case cx_host_id ctx of
       None \<Rightarrow> skipped db ''alert has no host_id''
     | Some host \<Rightarrow>
         (case bridge_job (px_jobs db) host Job_TRIAGE_COLLECT []
             (''Playbook triage collect '' @ [CHR 0xB7] @ '' alert '' @ uuid_str (cx_alert_id ctx)) (cx_alert_id ctx) (cx_rule_id ctx) ''playbook'' of
            (jobs, job, cmd) \<Rightarrow> Inr (db\<lparr>px_jobs := jobs\<rparr>, [], [(''outcome'', PStr ''ok''), (''job_id'', PStr (uuid_str (job_id job)))])))"

definition get_px_alert :: "playbook_db \<Rightarrow> uuid \<Rightarrow> Alert option" where
  "get_px_alert db i = find (\<lambda>a. a_id a = i) (px_alerts db)"

definition run_notify :: "playbook_env \<Rightarrow> playbook_db \<Rightarrow> AlertContext \<Rightarrow> pydict \<Rightarrow> NotificationChannelKind \<Rightarrow> step_result" where
  "run_notify env db ctx params expected =
     bindE (case map_of params ''channel_id'' of None \<Rightarrow> Inl KeyError | Some v \<Rightarrow> Inr v) (\<lambda>v.
     bindE (uuid_of_val v) (\<lambda>cid.
       let cid_str = py_str v in
       case find (\<lambda>c. ch_id c = cid) (rt_channels (px_routing db)) of
         None \<Rightarrow> failed_step db [] (''notification channel '' @ cid_str @ '' not found'')
       | Some ch \<Rightarrow>
           (if ch_kind ch \<noteq> expected
            then failed_step db [] (''channel '' @ cid_str @ '' is kind='' @ channel_kind_value (ch_kind ch) @ '' but step requires '' @
                   channel_kind_value expected)
            else if \<not> ch_enabled ch then skipped db (''channel '' @ cid_str @ '' is disabled'')
            else (case get_px_alert db (cx_alert_id ctx) of
                None \<Rightarrow> failed_step db [] ''alert row vanished mid-run''
              | Some alert \<Rightarrow>
                  (case env_decrypt_config env (ch_encrypted_config ch) of
                     Inl _ \<Rightarrow> failed_step db [] ''channel config decrypt failed''
                   | Inr config \<Rightarrow>
                       (case attempt_send (env_world env) expected config (envelope_from_alert (px_routing db) alert) 1 of
                          None \<Rightarrow> Inr (db, [Sent cid], [(''outcome'', PStr ''ok''), (''channel_id'', PStr cid_str)])
                        | Some (ChannelDispatchError msg) \<Rightarrow> failed_step db [] msg
                        | Some (OtherError msg) \<Rightarrow> failed_step db [] msg))))))"

definition run_wait_seconds :: "playbook_db \<Rightarrow> pydict \<Rightarrow> step_result" where
  "run_wait_seconds db params =
     bindE (py_int (dget_default params ''n'' (PInt 0))) (\<lambda>n.
       let n = max 0 (min n MAX_WAIT_SECONDS) in Inr (db, [Slept n], [(''outcome'', PStr ''ok''), (''slept_s'', PInt n)]))"

definition run_ai_suggest :: "playbook_env \<Rightarrow> playbook_db \<Rightarrow> AlertContext \<Rightarrow> step_result" where
  "run_ai_suggest env db ctx = (case get_px_alert db (cx_alert_id ctx) of
       None \<Rightarrow> failed_step db [] ''alert row vanished mid-run''
     | Some alert \<Rightarrow> bindE (env_suggest env alert) (\<lambda>r.
         Inr (db, [], [(''outcome'', PStr ''ok''), (''suggestions'', ai_suggested r), (''model_id'', PStr (ai_model_id r)),
           (''cached_input_tokens'', PInt (ai_cached_input_tokens r)), (''output_tokens'', PInt (ai_output_tokens r))])))"

definition eval_branch_if :: "playbook_db \<Rightarrow> AlertContext \<Rightarrow> pydict \<Rightarrow> step_result" where
  "eval_branch_if db ctx params = (case map_of params ''condition'' of
       Some (PStr cond) \<Rightarrow>
         (case eval_condition cond (severity_value (cx_severity ctx)) of
            Inl _ \<Rightarrow> Inr (db, [], [(''outcome'', PStr ''failed''), (''error'', PStr ''branch_if: unsupported condition''), (''skipped_next'', PBool False)])
          | Inr t \<Rightarrow> Inr (db, [], [(''outcome'', PStr ''ok''), (''condition'', PStr cond), (''truthy'', PBool t), (''skipped_next'', PBool (\<not> t))]))
     | Some _ \<Rightarrow> Inl TypeError
     | None \<Rightarrow> Inl KeyError)"

definition step_body :: "playbook_env \<Rightarrow> playbook_db \<Rightarrow> AlertContext \<Rightarrow> ParsedStep \<Rightarrow> step_result" where
  "step_body env db ctx step =
     (let kind = st_kind step; params = st_params step in
      if kind = ''notify_slack'' then run_notify env db ctx params SLACK
      else if kind = ''notify_pagerduty'' then run_notify env db ctx params PAGERDUTY
      else if kind = ''notify_email'' then run_notify env db ctx params EMAIL
      else if kind = ''branch_if'' then eval_branch_if db ctx params
      else if kind = ''isolate'' then run_isolate env db ctx params
      else if kind = ''kill'' then run_kill db ctx
      else if kind = ''quarantine'' then run_quarantine db ctx
      else if kind = ''memory_yara'' then run_memory_yara db params
      else if kind = ''triage_collect'' then run_triage_collect db ctx
      else if kind = ''wait_seconds'' then run_wait_seconds db params
      else if kind = ''ai_suggest'' then run_ai_suggest env db ctx
      else Inl KeyError)"

text \<open>\<open>d.update(e)\<close>\<close>

definition dict_update :: "pydict \<Rightarrow> pydict \<Rightarrow> pydict" where
  "dict_update d e = foldl (\<lambda>d (k, v). AList.update k v d) d e"

definition stamp :: "playbook_env \<Rightarrow> nat \<Rightarrow> pydict" where
  "stamp env i = [(''started_at'', PStr (isoformat (env_clock env (2 * i)))), (''finished_at'', PStr (isoformat (env_clock env (2 * i + 1))))]"

text \<open>A step that raises is recorded as failed; every step raises before it writes.\<close>

definition run_step :: "playbook_env \<Rightarrow> playbook_db \<Rightarrow> AlertContext \<Rightarrow> nat \<Rightarrow> ParsedStep \<Rightarrow> playbook_db \<times> effect list \<times> pydict" where
  "run_step env db ctx i step =
     (let (db', es, outcome) = (case step_body env db ctx step of
            Inr r \<Rightarrow> r
          | Inl e \<Rightarrow> (db, [], [(''outcome'', PStr ''failed''), (''error'', PStr ''exception'')]))
      in (db', es, dict_update (dict_update (as_outcome_stub step) (stamp env i)) outcome))"

section \<open>The engine\<close>

record engine =
  en_db :: playbook_db
  en_effects :: "effect list"
  en_outcomes :: "pydict list"
  en_saved :: "pydict list"
  en_skip_next :: bool
  en_any_failed :: bool
  en_any_ok :: bool

definition skipped_outcome :: "playbook_env \<Rightarrow> nat \<Rightarrow> ParsedStep \<Rightarrow> pydict" where
  "skipped_outcome env i step =
     as_outcome_stub step @ [(''outcome'', PStr ''skipped''), (''reason'', PStr ''skipped by preceding branch_if'')] @ stamp env i"

definition engine_step :: "playbook_env \<Rightarrow> AlertContext \<Rightarrow> engine \<Rightarrow> nat \<times> ParsedStep \<Rightarrow> engine" where
  "engine_step env ctx st = (\<lambda>(i, step).
     if en_skip_next st
     then st\<lparr>en_outcomes := en_outcomes st @ [skipped_outcome env i step], en_skip_next := False\<rparr>
     else (case run_step env (en_db st) ctx i step of
         (db, es, rec) \<Rightarrow>
           st\<lparr>en_db := db, en_effects := en_effects st @ es, en_outcomes := en_outcomes st @ [rec], en_saved := en_outcomes st @ [rec],
              en_skip_next := (st_kind step = ''branch_if'' \<and> truthy (dget rec ''skipped_next'')),
              en_any_failed := (en_any_failed st \<or> dget rec ''outcome'' = PStr ''failed''),
              en_any_ok := (en_any_ok st \<or> dget rec ''outcome'' = PStr ''ok'')\<rparr>))"

definition engine_start :: "playbook_db \<Rightarrow> engine" where
  "engine_start db = \<lparr>en_db = db, en_effects = [], en_outcomes = [], en_saved = [], en_skip_next = False, en_any_failed = False, en_any_ok = False\<rparr>"

definition run_steps :: "playbook_env \<Rightarrow> AlertContext \<Rightarrow> ParsedStep list \<Rightarrow> playbook_db \<Rightarrow> engine" where
  "run_steps env ctx steps db = foldl (engine_step env ctx) (engine_start db) (enumerate 0 steps)"

definition final_status :: "engine \<Rightarrow> PlaybookRunStatus" where
  "final_status st = (if en_any_failed st \<and> en_any_ok st then PB_PARTIAL else if en_any_failed st then PB_FAILED else PB_SUCCEEDED)"

text \<open>The run row is inserted first and takes the next id; it is shown here with its final columns.\<close>

definition add_run :: "playbook_db \<Rightarrow> PlaybookRun \<Rightarrow> playbook_db" where
  "add_run db run = db\<lparr>px_runs := px_runs db @ [run]\<rparr>"

definition take_id :: "playbook_db \<Rightarrow> playbook_db" where
  "take_id db = db\<lparr>px_jobs := (px_jobs db)\<lparr>j_next := j_next (px_jobs db) + 1\<rparr>\<rparr>"

definition execute_playbook :: "playbook_env \<Rightarrow> playbook_db \<Rightarrow> Playbook \<Rightarrow> uuid \<Rightarrow> playbook_db \<times> effect list \<times> PlaybookRun" where
  "execute_playbook env db playbook alert_id =
     (let run = \<lparr>pr_id = j_next (px_jobs db), pr_tenant_id = pb_tenant_id playbook, pr_playbook_id = pb_id playbook, pr_alert_id = alert_id,
            pr_status = PB_FAILED, pr_steps_executed = [], pr_error = None, pr_finished_at = Some (env_clock env 0)\<rparr>;
          db1 = take_id db
      in case get_px_alert db alert_id of
           None \<Rightarrow> (let run = run\<lparr>pr_error := Some ''alert not found''\<rparr> in (add_run db1 run, [], run))
         | Some alert \<Rightarrow>
             (case parse_playbook (env_safe_load env) (pb_yaml_body playbook) of
                Inl e \<Rightarrow>
                  (let run = run\<lparr>pr_error := Some (case e of PlaybookParseError msg \<Rightarrow> msg | _ \<Rightarrow> [])\<rparr> in (add_run db1 run, [], run))
              | Inr steps \<Rightarrow>
                  (let st = run_steps env (context_from_alert alert) steps db1;
                       run = run\<lparr>pr_status := final_status st, pr_steps_executed := en_saved st,
                                 pr_finished_at := Some (env_clock env (2 * length steps))\<rparr>
                   in (add_run (en_db st) run, en_effects st, run))))"

section \<open>The worker\<close>

text \<open>One decoded message; was a run created?\<close>

definition handle_message :: "playbook_env \<Rightarrow> playbook_db \<Rightarrow> pydict \<Rightarrow> playbook_db \<times> effect list \<times> bool" where
  "handle_message env db doc =
     (case as_str (dget doc ''playbook_id'') of
        None \<Rightarrow> (db, [], False)
      | Some pid_raw \<Rightarrow>
          (case uuid_of_str pid_raw of
             None \<Rightarrow> (db, [], False)
           | Some pid \<Rightarrow>
               (case (case as_str (dget doc ''alert_id'') of None \<Rightarrow> None | Some s \<Rightarrow> uuid_of_str s) of
                  None \<Rightarrow> (db, [], False)
                | Some aid \<Rightarrow>
                    (case find (\<lambda>p. pb_id p = pid) (px_playbooks db) of
                       None \<Rightarrow> (db, [], False)
                     | Some playbook \<Rightarrow>
                         (if \<not> pb_enabled playbook then (db, [], False)
                          else (case execute_playbook env db playbook aid of (db', es, run) \<Rightarrow> (db', es, True)))))))"

end
