(* ===== verification/Playbooks_Correct.thy ===== *)
theory Playbooks_Correct
  imports Playbooks Routing_Correct Command_Wire_Correct
begin

text \<open>
  Correctness of the playbook engine: what a trigger matches, how the status of a run follows from its
  steps, that a failing step stops nothing, the bound on the time a run waits, and what its steps may
  change in the tables.
\<close>

section \<open>Triggers\<close>

lemma severity_of_value_of [simp]: "severity_of_value (severity_value v) = Some v"
  by (cases v) (simp_all add: severity_of_value_def)

lemma severity_of_value_Some: "severity_of_value s = Some v \<longleftrightarrow> s = severity_value v"
proof
  assume "severity_of_value s = Some v"
  from find_SomeD [OF this [unfolded severity_of_value_def]] show "s = severity_value v" by simp
qed simp

lemma severity_rank_of_ge: "0 \<le> severity_rank_of s \<longleftrightarrow> (\<exists>v. s = severity_value v)"
  by (cases "severity_of_value s") (auto simp: severity_rank_of_def severity_of_value_Some)

text \<open>The disjunction the module documents.\<close>

definition triggered :: "Playbook \<Rightarrow> uuid \<Rightarrow> Severity \<Rightarrow> string set \<Rightarrow> bool" where
  "triggered p rule_id severity techniques \<longleftrightarrow>
     pb_trigger_rule_id p = Some rule_id \<or>
     (\<exists>floor. pb_trigger_severity p = Some (severity_value floor) \<and> floor \<le> severity) \<or>
     (\<exists>ts. pb_trigger_mitre p = Some ts \<and> set ts \<inter> techniques \<noteq> {})"

lemma matches_alert_triggered:
  "matches_alert p rule_id severity mitre \<longleftrightarrow> pb_enabled p \<and> triggered p rule_id severity (set (case mitre of None \<Rightarrow> [] | Some m \<Rightarrow> m))"
proof -
  let ?sev = "\<lambda>s. 0 \<le> severity_rank_of s \<and> severity_rank_of s \<le> severity_rank_of (severity_value severity)"
  have sev: "?sev s \<longleftrightarrow> (\<exists>floor. s = severity_value floor \<and> floor \<le> severity)" for s
  proof (cases "severity_of_value s")
    case None
    then show ?thesis by (auto simp: severity_rank_of_def severity_of_value_Some)
  next
    case (Some v)
    then have "s = severity_value v" by (simp add: severity_of_value_Some)
    moreover have "severity_value v = severity_value w \<longleftrightarrow> v = w" for w by (cases v; cases w) simp_all
    ultimately show ?thesis by (auto simp: severity_rank_of_def less_eq_Severity_def)
  qed
  show ?thesis
  proof (cases "pb_trigger_mitre p")
    case None
    then show ?thesis by (auto simp: matches_alert_def triggered_def sev Let_def split: option.splits)
  next
    case (Some ts)
    then show ?thesis by (cases ts) (auto simp: matches_alert_def triggered_def sev Let_def split: option.splits)
  qed
qed

section \<open>The records of a run\<close>

lemma dget_dict_update: "k \<notin> fst ` set e \<Longrightarrow> dget (dict_update d e) k = dget d k"
  by (induction e arbitrary: d) (auto simp: dict_update_def dget_update)

lemma dget_dict_update_in: "distinct (map fst e) \<Longrightarrow> (k, v) \<in> set e \<Longrightarrow> dget (dict_update d e) k = v"
proof (induction e arbitrary: d)
  case (Cons x e)
  obtain k' v' where x: "x = (k', v')" by (cases x)
  show ?case
  proof (cases "(k, v) \<in> set e")
    case True
    then show ?thesis using Cons x by (simp add: dict_update_def)
  next
    case False
    then have "k = k'" "v = v'" using Cons.prems x by auto
    moreover have "k \<notin> fst ` set e" using Cons.prems(1) x \<open>k = k'\<close> by simp
    ultimately show ?thesis using dget_dict_update [of k e "AList.update k' v' d"] x by (simp add: dict_update_def dget_update)
  qed
qed simp

text \<open>What the engine relies on from a step.\<close>

definition outcome_ok :: "pydict \<Rightarrow> bool" where
  "outcome_ok out \<longleftrightarrow> distinct (map fst out) \<and> fst ` set out \<inter> {''kind'', ''params'', ''started_at'', ''finished_at''} = {} \<and>
     (\<exists>v \<in> {''ok'', ''failed'', ''skipped''}. (''outcome'', PStr v) \<in> set out)"

definition effects_ok :: "effect list \<Rightarrow> bool" where
  "effects_ok es \<longleftrightarrow> es = [] \<or> (\<exists>n. es = [Slept n] \<and> 0 \<le> n \<and> n \<le> MAX_WAIT_SECONDS) \<or> (\<exists>c. es = [Sent c])"

definition for_host :: "AlertContext \<Rightarrow> Command \<Rightarrow> bool" where
  "for_host ctx c \<longleftrightarrow> cmd_status c = CMD_PENDING \<and> Some (cmd_host_id c) = cx_host_id ctx \<and> sendable (cmd_kind c) (cmd_payload c)"

definition px_grows :: "AlertContext \<Rightarrow> playbook_db \<Rightarrow> playbook_db \<Rightarrow> bool" where
  "px_grows ctx db db' \<longleftrightarrow> px_alerts db' = px_alerts db \<and> px_playbooks db' = px_playbooks db \<and> px_runs db' = px_runs db \<and>
     px_routing db' = px_routing db \<and>
     ((\<forall>h. cx_host_id ctx = Some h \<longrightarrow> h \<in> hst_id ` set (j_hosts (px_jobs db))) \<longrightarrow> grows (for_host ctx) (px_jobs db) (px_jobs db'))"

definition step_ok :: "AlertContext \<Rightarrow> playbook_db \<Rightarrow> step_result \<Rightarrow> bool" where
  "step_ok ctx db r \<longleftrightarrow> (case r of Inl _ \<Rightarrow> True | Inr (db', es, out) \<Rightarrow> px_grows ctx db db' \<and> effects_ok es \<and> outcome_ok out)"

lemma px_grows_refl [intro, simp]: "px_grows ctx db db"
  by (auto simp: px_grows_def)

lemma px_growsD:
  "px_grows ctx db db' \<Longrightarrow> \<forall>h. cx_host_id ctx = Some h \<longrightarrow> h \<in> hst_id ` set (j_hosts (px_jobs db)) \<Longrightarrow>
   grows (for_host ctx) (px_jobs db) (px_jobs db')"
  by (simp only: px_grows_def simp_thms)

lemma px_grows_trans: "px_grows ctx a b \<Longrightarrow> px_grows ctx b c \<Longrightarrow> px_grows ctx a c"
  unfolding px_grows_def by (auto intro: grows_trans simp: grows_def)

lemma step_ok_Inl [intro, simp]: "step_ok ctx db (Inl e)"
  by (simp add: step_ok_def)

lemma step_ok_Inr: "px_grows ctx db db' \<Longrightarrow> effects_ok es \<Longrightarrow> outcome_ok out \<Longrightarrow> step_ok ctx db (Inr (db', es, out))"
  by (simp add: step_ok_def)

lemma step_ok_bindE [intro]: "(\<And>x. m = Inr x \<Longrightarrow> step_ok ctx db (f x)) \<Longrightarrow> step_ok ctx db (bindE m f)"
  by (cases m) simp_all

lemma effects_ok_simps [simp]: "effects_ok []" "effects_ok [Sent c]" "effects_ok [Slept n] \<longleftrightarrow> 0 \<le> n \<and> n \<le> MAX_WAIT_SECONDS"
  by (simp_all add: effects_ok_def)

lemma step_ok_skipped [intro, simp]: "step_ok ctx db (skipped db reason)"
  by (auto simp: skipped_def outcome_ok_def intro!: step_ok_Inr)

lemma step_ok_failed [intro, simp]: "step_ok ctx db (failed_step db [] err)"
  by (auto simp: failed_step_def outcome_ok_def intro!: step_ok_Inr)

lemma queue_for_alert_grows:
  "cx_host_id ctx = Some host \<Longrightarrow> sendable kind payload \<Longrightarrow> px_grows ctx db (queue_for_alert db ctx host kind payload)"
  by (auto simp: px_grows_def queue_for_alert_def for_host_def new_command_def intro!: grows_add_command)

lemma command_ok_outcome: "fst ` set extra \<subseteq> {''pid'', ''path''} \<Longrightarrow> distinct (map fst extra) \<Longrightarrow> outcome_ok (command_ok db extra)"
  by (fastforce simp: command_ok_def outcome_ok_def)

lemma positive_Some: "positive v = Some w \<Longrightarrow> w = v \<and> (\<exists>i. as_int v = Some i \<and> 0 < i)"
  by (auto simp: positive_def split: option.splits if_splits)

lemma pid_from_alert_positive: "pid_from_alert ctx = Inr (Some v) \<Longrightarrow> \<exists>i. as_int v = Some i \<and> 0 < i"
  unfolding pid_from_alert_def Let_def bindE_eq_Inr 
  by (auto simp: positive_def bindE_eq_Inr split: option.splits if_splits)

lemma path_from_alert_nonempty: "path_from_alert ctx = Inr (Some p) \<Longrightarrow> p \<noteq> []"
  unfolding path_from_alert_def Let_def bindE_eq_Inr nonempty_str_def by (auto split: option.splits if_splits simp: bindE_eq_Inr)

lemma bridge_job_grows:
  assumes "bridge_job db host kind params summary alert rule by = (db', job, cmd)" "host \<in> hst_id ` set (j_hosts db)"
    and P: "\<And>c. cmd_host_id c = host \<Longrightarrow> cmd_status c = CMD_PENDING \<Longrightarrow> sendable (cmd_kind c) (cmd_payload c) \<Longrightarrow> P c"
  shows "grows P db db'"
proof -
  let ?n = "j_next db"
  have db': "j_hosts db' = j_hosts db" "j_jobs db' = j_jobs db @ [job]" "j_commands db' = j_commands db @ [cmd]"
      "j_runs db' = j_runs db @ [new_run job (?n + 1) (?n + 2) host]" "j_next db' = ?n + 3" "job_id job = ?n"
    and cmd: "cmd_id cmd = ?n + 2" "cmd_host_id cmd = host" "cmd_status cmd = CMD_PENDING" "cmd_kind cmd = Cmd_RUN_JOB"
      "cmd_payload cmd = [(''job_id'', PStr (uuid_str ?n)), (''run_id'', PStr (uuid_str (?n + 1))),
        (''job_kind'', PStr (job_kind_value kind)), (''parameters'', PDict params)]"
    using assms(1) by (auto simp: bridge_job_def Let_def run_command_def)
  have "job_kind_value kind \<noteq> []" by (cases kind) simp_all
  moreover have "uuid_str i \<noteq> []" for i by (simp add: uuid_str_def Let_def)
  ultimately have "sendable (cmd_kind cmd) (cmd_payload cmd)"
    unfolding cmd(4,5) by (simp add: sendable_def run_job_body_def payload_str_def Let_def)
  then have "P cmd" using P cmd by blast
  moreover have "wf_jobs db'" if wf: "wf_jobs db"
  proof -
    have ids: "\<forall>j \<in> set (j_jobs db). job_id j < ?n" "\<forall>r \<in> set (j_runs db). run_id r < ?n" "\<forall>c \<in> set (j_commands db). cmd_id c < ?n"
      using wf by (simp_all add: wf_jobs_def)
    then have "distinct (map job_id (j_jobs db'))" "distinct (map run_id (j_runs db'))" "distinct (map cmd_id (j_commands db'))"
      using wf cmd(1) db'(6) unfolding db'(2-4) by (auto simp: wf_jobs_def new_run_def)
    then show ?thesis using wf ids assms(2) cmd(1,2,4) db'(5,6) unfolding wf_jobs_def db'(1-4)
      by (auto simp: new_run_def)
  qed
  ultimately show ?thesis using db' by (auto simp: grows_def)
qed

lemma run_triage_collect_ok: "step_ok ctx db (run_triage_collect db ctx)"
proof (cases "cx_host_id ctx")
  case (Some host)
  obtain jobs job cmd where b: "bridge_job (px_jobs db) host Job_TRIAGE_COLLECT []
      (''Playbook triage collect '' @ [CHR 0xB7] @ '' alert '' @ uuid_str (cx_alert_id ctx)) (cx_alert_id ctx) (cx_rule_id ctx) ''playbook'' = (jobs, job, cmd)"
    by (metis prod_cases3)
  have "px_grows ctx db (db\<lparr>px_jobs := jobs\<rparr>)"
    using bridge_job_grows [OF b, of "for_host ctx"] Some by (auto simp: px_grows_def for_host_def)
  with Some b show ?thesis by (auto simp: run_triage_collect_def outcome_ok_def intro!: step_ok_Inr)
qed (simp add: run_triage_collect_def)

lemma run_kill_ok: "step_ok ctx db (run_kill db ctx)"
  unfolding run_kill_def
  by (auto split: option.split intro!: step_ok_bindE step_ok_Inr queue_for_alert_grows command_ok_outcome sendable_kill
      dest!: pid_from_alert_positive intro: sendable_kill)


lemma run_quarantine_ok: "step_ok ctx db (run_quarantine db ctx)"
proof -
  have "sendable Cmd_QUARANTINE_FILE [(''path'', PStr p), (''delete_original'', PBool True)]" if "p \<noteq> []" for p
    using that by (cases p) (simp_all add: sendable_def quarantine_body_def payload_str_def Let_def)
  then show ?thesis unfolding run_quarantine_def
    by (auto split: option.split intro!: step_ok_bindE step_ok_Inr queue_for_alert_grows command_ok_outcome dest!: path_from_alert_nonempty)
qed

lemma run_isolate_ok: "step_ok ctx db (run_isolate env db ctx params)"
proof (cases "cx_host_id ctx")
  case (Some host)
  have "sendable Cmd_ISOLATE p'"
    if "(if truthy ips then bindE (py_iter ips) (\<lambda>xs. Inr [(''isolate'', PBool True), (''allowlist_ips'', PList xs)])
        else Inr [(''isolate'', PBool True)]) = Inr p" "ensure_manager_in_allowlist (env_guard env) (env_getaddrinfo env) p = Inr p'" for ips p p'
  proof -
    have "\<exists>raw. dget_default p ''allowlist_ips'' (PList []) = PList raw"
      using that(1) by (auto simp: bindE_eq_Inr dget_default_def split: if_splits)
    then show ?thesis using guard_keeps_list [OF that(2)] sendable_isolate by blast
  qed
  with Some show ?thesis unfolding run_isolate_def Let_def
    by (simp only: option.case) (intro step_ok_bindE step_ok_Inr queue_for_alert_grows command_ok_outcome; simp)
qed (simp add: run_isolate_def)

lemma run_notify_ok: "step_ok ctx db (run_notify env db ctx params kind)"
  unfolding run_notify_def Let_def
  by (auto split: option.split sum.split send_error.split intro!: step_ok_bindE step_ok_Inr simp: outcome_ok_def)

lemma run_wait_seconds_ok: "step_ok ctx db (run_wait_seconds db params)"
  unfolding run_wait_seconds_def Let_def
  by (auto intro!: step_ok_bindE step_ok_Inr simp: outcome_ok_def MAX_WAIT_SECONDS_def)

lemma other_steps_ok:
  "step_ok ctx db (run_memory_yara db params)" "step_ok ctx db (run_ai_suggest env db ctx)" "step_ok ctx db (eval_branch_if db ctx params)"
  unfolding run_memory_yara_def run_ai_suggest_def eval_branch_if_def
  by (auto split: option.split sum.split pyval.split intro!: step_ok_bindE step_ok_Inr simp: outcome_ok_def)

lemmas steps_ok = run_isolate_ok run_kill_ok run_quarantine_ok run_triage_collect_ok run_notify_ok run_wait_seconds_ok other_steps_ok

lemma step_body_ok: "step_ok ctx db (step_body env db ctx step)"
  unfolding step_body_def Let_def by (simp add: steps_ok)

section \<open>The engine\<close>

text \<open>What one executed step does.\<close>

lemma run_step_ok:
  assumes "run_step env db ctx i step = (db', es, rec)"
  shows "px_grows ctx db db'" "effects_ok es" "dget rec ''kind'' = PStr (st_kind step)"
    "\<exists>v \<in> {''ok'', ''failed'', ''skipped''}. dget rec ''outcome'' = PStr v"
proof -
  obtain out where out: "outcome_ok out" "rec = dict_update (dict_update (as_outcome_stub step) (stamp env i)) out"
    and frame: "px_grows ctx db db'" "effects_ok es"
  proof (cases "step_body env db ctx step")
    case (Inl e)
    then show ?thesis using assms by (intro that) (auto simp: run_step_def outcome_ok_def)
  next
    case (Inr r)
    obtain d e o1 where "r = (d, e, o1)" by (metis prod_cases3)
    with Inr step_body_ok [of ctx db env step] assms show ?thesis by (intro that) (auto simp: run_step_def step_ok_def)
  qed
  show "px_grows ctx db db'" "effects_ok es" by (fact frame)+
  have "''kind'' \<notin> fst ` set out" using out(1) by (auto simp: outcome_ok_def)
  moreover have "''kind'' \<notin> fst ` set (stamp env i)" by (simp add: stamp_def)
  ultimately show "dget rec ''kind'' = PStr (st_kind step)"
    unfolding out(2) by (simp add: dget_dict_update as_outcome_stub_def)
  show "\<exists>v \<in> {''ok'', ''failed'', ''skipped''}. dget rec ''outcome'' = PStr v"
    using out(1) unfolding out(2) outcome_ok_def by (metis dget_dict_update_in)
qed

definition outcome_is :: "string \<Rightarrow> pydict \<Rightarrow> bool" where
  "outcome_is v rec \<longleftrightarrow> dget rec ''outcome'' = PStr v"

lemma skipped_outcome_simps [simp]:
  "dget (skipped_outcome env i step) ''kind'' = PStr (st_kind step)" "outcome_is v (skipped_outcome env i step) \<longleftrightarrow> v = ''skipped''"
  by (auto simp: skipped_outcome_def as_outcome_stub_def stamp_def outcome_is_def)

text \<open>The invariant of the loop over the steps.\<close>

definition engine_inv :: "AlertContext \<Rightarrow> playbook_db \<Rightarrow> ParsedStep list \<Rightarrow> engine \<Rightarrow> bool" where
  "engine_inv ctx db steps st \<longleftrightarrow>
     px_grows ctx db (en_db st) \<and>
     map (\<lambda>o1. dget o1 ''kind'') (en_outcomes st) = map (\<lambda>s. PStr (st_kind s)) steps \<and>
     en_any_failed st = list_ex (outcome_is ''failed'') (en_outcomes st) \<and>
     en_any_ok st = list_ex (outcome_is ''ok'') (en_outcomes st) \<and>
     (en_saved st = en_outcomes st \<or> (\<exists>last1. en_outcomes st = en_saved st @ [last1] \<and> outcome_is ''skipped'' last1)) \<and>
     (en_skip_next st \<longrightarrow> en_saved st = en_outcomes st) \<and>
     length (en_effects st) \<le> length steps \<and>
     (\<forall>n. Slept n \<in> set (en_effects st) \<longrightarrow> 0 \<le> n \<and> n \<le> MAX_WAIT_SECONDS)"

lemma engine_inv_step:
  assumes "engine_inv ctx db steps st"
  shows "engine_inv ctx db (steps @ [step]) (engine_step env ctx st (i, step))"
proof (cases "en_skip_next st")
  case True
  with assms show ?thesis by (simp add: engine_inv_def engine_step_def)
next
  case False
  obtain db1 es rec where r: "run_step env (en_db st) ctx i step = (db1, es, rec)" by (metis prod_cases3)
  note ok = run_step_ok [OF r]
  have "length es \<le> 1" "Slept n \<in> set es \<Longrightarrow> 0 \<le> n \<and> n \<le> MAX_WAIT_SECONDS" for n
    using ok(2) by (auto simp: effects_ok_def)
  with False assms ok r px_grows_trans [of ctx db "en_db st" db1] show ?thesis
    by (auto simp: engine_inv_def engine_step_def outcome_is_def)
qed

lemma run_steps_inv: "engine_inv ctx db steps (run_steps env ctx steps db)"
proof -
  have "engine_inv ctx db (map snd xs) (foldl (engine_step env ctx) (engine_start db) xs)" for xs
  proof (induction xs rule: rev_induct)
    case Nil
    show ?case by (simp add: engine_inv_def engine_start_def)
  next
    case (snoc x xs)
    then show ?case using engine_inv_step [of ctx db "map snd xs" _ "snd x" env "fst x"] by simp
  qed
  from this [of "enumerate 0 steps"] show ?thesis by (simp add: run_steps_def)
qed

lemma parse_playbook_bound: "parse_playbook load body = Inr steps \<Longrightarrow> steps \<noteq> [] \<and> length steps \<le> MAX_STEPS"
  by (auto simp: parse_playbook_def bindE_eq_Inr dest!: mapE_Inr_length split: sum.splits pyval.splits list.splits if_splits)

lemma execute_playbook_steps:
  assumes "execute_playbook env db playbook aid = (db', es, run)" "get_px_alert db aid = Some alert"
    "parse_playbook (env_safe_load env) (pb_yaml_body playbook) = Inr steps"
  shows "let st = run_steps env (context_from_alert alert) steps (take_id db) in
    db' = add_run (en_db st) run \<and> es = en_effects st \<and> pr_status run = final_status st \<and> pr_steps_executed run = en_saved st \<and>
    pr_error run = None \<and> pr_tenant_id run = pb_tenant_id playbook \<and> pr_playbook_id run = pb_id playbook \<and> pr_alert_id run = aid"
  using assms by (auto simp: execute_playbook_def Let_def)


lemma run_steps_snoc: "run_steps env ctx (steps @ [step]) db = engine_step env ctx (run_steps env ctx steps db) (length steps, step)"
  by (simp add: run_steps_def enumerate_append_eq)

text \<open>What the engine reads of a branch.\<close>

lemma run_step_branch:
  assumes "st_kind step = ''branch_if''" "map_of (st_params step) ''condition'' = Some (PStr cond)"
    "run_step env db ctx i step = (db', es, rec)"
  shows "db' = db \<and> es = [] \<and> (truthy (dget rec ''skipped_next'') \<longleftrightarrow> eval_condition cond (severity_value (cx_severity ctx)) = Inr False)"
proof -
  have b: "step_body env db ctx step = eval_branch_if db ctx (st_params step)"
    using assms(1) by (simp add: step_body_def)
  show ?thesis
  proof (cases "eval_condition cond (severity_value (cx_severity ctx))")
    case (Inl e)
    then show ?thesis using assms(2,3) b
      by (auto simp: run_step_def eval_branch_if_def dget_dict_update_in [where v = "PBool False"])
  next
    case (Inr t)
    then show ?thesis using assms(2,3) b
      by (auto simp: run_step_def eval_branch_if_def dget_dict_update_in [where v = "PBool (\<not> t)"])
  qed
qed

section \<open>Properties\<close>

text \<open>A playbook of four steps, the third guarded by a branch, as its YAML reader returns it.\<close>

definition demo_steps :: pyval where
  "demo_steps = PDict [(''steps'', PList [PDict [(''kill'', PNone)], PDict [(''branch_if'', PDict [(''condition'', PStr (''alert.severity == '' @ [dquote] @ ''low'' @ [dquote]))])],
     PDict [(''isolate'', PNone)], PDict [(''wait_seconds'', PDict [(''n'', PInt 30)])]])]"

definition demo_playbook :: Playbook where
  "demo_playbook = \<lparr>pb_id = 71, pb_tenant_id = 1, pb_name = ''p'', pb_yaml_body = ''y'', pb_enabled = True, pb_trigger_rule_id = None,
     pb_trigger_severity = Some ''high'', pb_trigger_mitre = None\<rparr>"

definition demo_env :: "pyval \<Rightarrow> playbook_env" where
  "demo_env doc = \<lparr>env_safe_load = (\<lambda>_. Inr doc), env_guard = demo_settings, env_getaddrinfo = demo_resolver, env_decrypt_config = (\<lambda>_. Inl ValueError),
     env_world = demo_world (\<lambda>_. Reply 200 []), env_suggest = (\<lambda>_. Inl ValueError), env_clock = (\<lambda>_. 0)\<rparr>"

definition demo_px :: playbook_db where
  "demo_px = \<lparr>px_jobs = demo_jobs_db [] [],
     px_alerts = [(demo_alert 1 0)\<lparr>a_host_id := Some 22, a_details := PDict [(''process'', PDict [(''pid'', PInt 7)])]\<rparr>],
     px_playbooks = [demo_playbook], px_runs = [], px_routing = demo_routing_db\<rparr>"

text \<open>
  The playbooks that an alert triggers are exactly the enabled ones with a trigger that holds: the
  rule of the alert, a severity at most the alert's, or a technique in common with it. A playbook
  without triggers, or with a severity that is no severity, is never among them.
\<close>

theorem playbook_trigger_semantics:
  "set (find_matching_playbooks playbooks rule_id severity mitre) =
     {p \<in> set playbooks. pb_enabled p \<and> triggered p rule_id severity (set (case mitre of None \<Rightarrow> [] | Some m \<Rightarrow> m))}"
  by (auto simp: find_matching_playbooks_def matches_alert_triggered)

text \<open>
  C18: a run tells what happened. It adds one run row for the playbook's tenant; its status is partial
  when a step failed and another succeeded, failed when one failed and none succeeded, and succeeded
  otherwise; the recorded steps are those of the playbook in their order. At most the last one is
  missing, and then it was skipped by a branch.
\<close>

theorem playbook_run_contract:
  assumes "execute_playbook env db playbook aid = (db', es, run)" "get_px_alert db aid = Some alert"
    "parse_playbook (env_safe_load env) (pb_yaml_body playbook) = Inr steps"
  shows "let recs = pr_steps_executed run; failed = list_ex (outcome_is ''failed'') recs; ok = list_ex (outcome_is ''ok'') recs in
    px_runs db' = px_runs db @ [run] \<and> pr_tenant_id run = pb_tenant_id playbook \<and> pr_alert_id run = aid \<and>
    pr_status run = (if failed \<and> ok then PB_PARTIAL else if failed then PB_FAILED else PB_SUCCEEDED) \<and>
    map (\<lambda>r. dget r ''kind'') recs = take (length recs) (map (\<lambda>s. PStr (st_kind s)) steps) \<and>
    (length recs = length steps \<or>
     (length recs + 1 = length steps \<and> outcome_is ''skipped'' (last (en_outcomes (run_steps env (context_from_alert alert) steps (take_id db))))))"
proof -
  let ?ctx = "context_from_alert alert" and ?st = "run_steps env (context_from_alert alert) steps (take_id db)"
  have inv: "engine_inv ?ctx (take_id db) steps ?st" by (rule run_steps_inv)
  then have kinds: "map (\<lambda>r. dget r ''kind'') (en_outcomes ?st) = map (\<lambda>s. PStr (st_kind s)) steps"
    and flags: "en_any_failed ?st = list_ex (outcome_is ''failed'') (en_outcomes ?st)" "en_any_ok ?st = list_ex (outcome_is ''ok'') (en_outcomes ?st)"
    and runs: "px_runs (en_db ?st) = px_runs db" by (simp_all add: engine_inv_def px_grows_def take_id_def)
  have len: "length (en_outcomes ?st) = length steps" using arg_cong [OF kinds, of length] by simp
  have run: "db' = add_run (en_db ?st) run" "pr_status run = final_status ?st" "pr_steps_executed run = en_saved ?st"
    "pr_tenant_id run = pb_tenant_id playbook" "pr_alert_id run = aid"
    using execute_playbook_steps [OF assms] by (simp_all add: Let_def)
  from inv consider "en_saved ?st = en_outcomes ?st"
    | x where "en_outcomes ?st = en_saved ?st @ [x]" "outcome_is ''skipped'' x" by (auto simp: engine_inv_def)
  then show ?thesis
  proof cases
    case 1
    with run runs flags kinds len show ?thesis by (simp add: add_run_def final_status_def Let_def)
  next
    case 2
    have "outcome_is v x \<Longrightarrow> v = ''skipped''" for v using 2(2) by (simp add: outcome_is_def)
    then have "list_ex (outcome_is ''failed'') (en_outcomes ?st) = list_ex (outcome_is ''failed'') (en_saved ?st)"
      "list_ex (outcome_is ''ok'') (en_outcomes ?st) = list_ex (outcome_is ''ok'') (en_saved ?st)" unfolding 2(1) by auto
    moreover have "map (\<lambda>r. dget r ''kind'') (en_saved ?st) = take (length (en_saved ?st)) (map (\<lambda>s. PStr (st_kind s)) steps)"
      using kinds 2(1) by (metis append_eq_conv_conj length_map map_append)
    moreover have "length (en_saved ?st) + 1 = length steps" using len 2(1) by simp
    ultimately show ?thesis using run runs flags 2 by (simp add: add_run_def final_status_def Let_def)
  qed
qed

theorem playbook_run_contract_witness:
  "let (db', es, run) = execute_playbook (demo_env demo_steps) demo_px demo_playbook 1 in
    px_runs db' = [run] \<and> pr_tenant_id run = 1 \<and> length (pr_steps_executed run) \<in> {3, 4}"
proof -
  obtain db' es run where r: "execute_playbook (demo_env demo_steps) demo_px demo_playbook 1 = (db', es, run)" by (metis prod_cases3)
  obtain alert where a: "get_px_alert demo_px 1 = Some alert" by (simp add: get_px_alert_def demo_px_def demo_alert_def)
  obtain steps where p: "parse_playbook (env_safe_load (demo_env demo_steps)) (pb_yaml_body demo_playbook) = Inr steps" "length steps = 4"
  proof -
    have "case parse_playbook (env_safe_load (demo_env demo_steps)) (pb_yaml_body demo_playbook) of Inr xs \<Rightarrow> length xs = 4 | Inl _ \<Rightarrow> False"
      by code_simp
    then show ?thesis using that by (auto split: sum.splits)
  qed
  from playbook_run_contract [OF r a p(1)] p(2) r show ?thesis by (auto simp: Let_def demo_px_def demo_playbook_def)
qed

text \<open>
  A branch guards exactly the next step. When a reached branch's condition is false, the next step
  changes no table and has no effect, and is recorded as skipped; in every other case it runs, and that
  includes a condition the language does not support.
\<close>

theorem branch_guards_next_step:
  assumes "st_kind b = ''branch_if''" "map_of (st_params b) ''condition'' = Some (PStr cond)"
    "\<not> en_skip_next (run_steps env ctx pre db)"
  shows "let st = run_steps env ctx pre db; st' = run_steps env ctx (pre @ [b, s]) db in
    if eval_condition cond (severity_value (cx_severity ctx)) = Inr False
    then en_db st' = en_db st \<and> en_effects st' = en_effects st \<and> last (en_outcomes st') = skipped_outcome env (length pre + 1) s
    else (\<exists>es. run_step env (en_db st) ctx (length pre + 1) s = (en_db st', es, last (en_outcomes st')) \<and>
           en_effects st' = en_effects st @ es)"
proof -
  let ?st = "run_steps env ctx pre db"
  obtain db1 es1 rec where r: "run_step env (en_db ?st) ctx (length pre) b = (db1, es1, rec)" by (metis prod_cases3)
  note br = run_step_branch [OF assms(1,2) r]
  have two: "run_steps env ctx (pre @ [b, s]) db = engine_step env ctx (engine_step env ctx ?st (length pre, b)) (length pre + 1, s)"
    using run_steps_snoc [of env ctx "pre @ [b]" s db] by (simp add: run_steps_snoc)
  obtain db2 es2 rec2 where r2: "run_step env (en_db ?st) ctx (Suc (length pre)) s = (db2, es2, rec2)" by (metis prod_cases3)
  show ?thesis using assms(1,3) br r r2 unfolding two by (simp add: engine_step_def Let_def)
qed

theorem branch_guards_next_step_witness:
  "en_effects (run_steps (demo_env demo_steps) (context_from_alert (demo_alert 1 0))
     [\<lparr>st_kind = ''branch_if'', st_params = [(''condition'', PStr ''alert.severity in (low, info)'')]\<rparr>,
      \<lparr>st_kind = ''wait_seconds'', st_params = [(''n'', PInt 9)]\<rparr>] demo_px) = []"
proof -
  let ?b = "\<lparr>st_kind = ''branch_if'', st_params = [(''condition'', PStr ''alert.severity in (low, info)'')]\<rparr>"
  let ?ctx = "context_from_alert (demo_alert 1 0)"
  have "eval_condition ''alert.severity in (low, info)'' (severity_value (cx_severity ?ctx)) = Inr False" by code_simp
  then show ?thesis
    using branch_guards_next_step [of ?b "''alert.severity in (low, info)''" "demo_env demo_steps" ?ctx "[]" demo_px
        "\<lparr>st_kind = ''wait_seconds'', st_params = [(''n'', PInt 9)]\<rparr>"]
    by (simp add: Let_def) (simp add: run_steps_def engine_start_def)
qed

text \<open>
  A run cannot hold its worker for ever. It has at most 64 steps, each waits between zero and 600
  seconds, and the waits of a run add up to at most 38400 seconds.
\<close>

theorem playbook_waits_bounded:
  assumes "execute_playbook env db playbook aid = (db', es, run)"
  shows "length es \<le> 64 \<and> (\<forall>n. Slept n \<in> set es \<longrightarrow> 0 \<le> n \<and> n \<le> 600) \<and>
    sum_list (map (\<lambda>e. case e of Slept n \<Rightarrow> n | Sent _ \<Rightarrow> 0) es) \<le> 38400"
proof -
  have "length es \<le> 64 \<and> (\<forall>n. Slept n \<in> set es \<longrightarrow> 0 \<le> n \<and> n \<le> 600)"
  proof (cases "get_px_alert db aid")
    case None
    then show ?thesis using assms by (auto simp: execute_playbook_def Let_def)
  next
    case (Some alert)
    show ?thesis
    proof (cases "parse_playbook (env_safe_load env) (pb_yaml_body playbook)")
      case (Inl e)
      then show ?thesis using assms Some by (auto simp: execute_playbook_def Let_def)
    next
      case (Inr steps)
      then show ?thesis using parse_playbook_bound [OF Inr] execute_playbook_steps [OF assms Some Inr]
          run_steps_inv [of "context_from_alert alert" "take_id db" steps env]
        by (auto simp: engine_inv_def MAX_STEPS_def MAX_WAIT_SECONDS_def Let_def)
    qed
  qed
  moreover have "sum_list (map (\<lambda>e. case e of Slept n \<Rightarrow> n | Sent _ \<Rightarrow> 0) xs) \<le> 600 * int (length xs)"
    if "\<forall>n. Slept n \<in> set xs \<longrightarrow> n \<le> 600" for xs using that
  proof (induction xs)
    case (Cons e xs)
    then show ?case by (cases e) fastforce+
  qed simp
  note total = this [of es]
  ultimately show ?thesis using total by fastforce
qed

theorem playbook_waits_bounded_witness:
  "let (db', es, run) = execute_playbook (demo_env demo_steps) demo_px demo_playbook 1 in length es \<le> 64 \<and> Slept 601 \<notin> set es"
proof -
  obtain db' es run where r: "execute_playbook (demo_env demo_steps) demo_px demo_playbook 1 = (db', es, run)" by (metis prod_cases3)
  from playbook_waits_bounded [OF r] r show ?thesis by fastforce
qed

text \<open>
  A playbook stays on its host. Every command a run queues is pending, is for the host of the
  alert, and has a message for the agent unless it kills a pid that does not fit the wire; the tables of
  the jobs engine stay well formed, and alerts, playbooks and channels are left alone.
\<close>

theorem playbook_commands_stay_on_host:
  assumes "execute_playbook env db playbook aid = (db', es, run)" "get_px_alert db aid = Some alert"
    "\<forall>h. a_host_id alert = Some h \<longrightarrow> h \<in> hst_id ` set (j_hosts (px_jobs db))"
  shows "grows (\<lambda>c. cmd_status c = CMD_PENDING \<and> Some (cmd_host_id c) = a_host_id alert \<and> sendable (cmd_kind c) (cmd_payload c))
      (px_jobs db) (px_jobs db') \<and>
    px_alerts db' = px_alerts db \<and> px_playbooks db' = px_playbooks db \<and> px_routing db' = px_routing db"
proof -
  have take: "grows P (px_jobs db) (px_jobs (take_id db))" for P
    using grows_next [of P "px_jobs db" 1] by (simp add: take_id_def)
  have fh: "for_host (context_from_alert alert) = (\<lambda>c. cmd_status c = CMD_PENDING \<and> Some (cmd_host_id c) = a_host_id alert \<and>
      sendable (cmd_kind c) (cmd_payload c))" by (simp add: for_host_def context_from_alert_def fun_eq_iff)
  show ?thesis
  proof (cases "parse_playbook (env_safe_load env) (pb_yaml_body playbook)")
    case (Inl e)
    then show ?thesis using assms(1,2) take by (auto simp: execute_playbook_def Let_def add_run_def take_id_def)
  next
    case (Inr steps)
    let ?st = "run_steps env (context_from_alert alert) steps (take_id db)"
    have g: "px_grows (context_from_alert alert) (take_id db) (en_db ?st)"
      using run_steps_inv [of "context_from_alert alert" "take_id db" steps env] by (simp add: engine_inv_def)
    have "\<forall>h. cx_host_id (context_from_alert alert) = Some h \<longrightarrow> h \<in> hst_id ` set (j_hosts (px_jobs (take_id db)))"
      using assms(3) by (simp add: take_id_def context_from_alert_def)
    from grows_trans [OF take px_growsD [OF g this]]
    have "grows (for_host (context_from_alert alert)) (px_jobs db) (px_jobs (en_db ?st))" .
    moreover have "db' = add_run (en_db ?st) run" using execute_playbook_steps [OF assms(1,2) Inr] by (simp add: Let_def)
    ultimately show ?thesis using g unfolding fh by (simp add: px_grows_def add_run_def take_id_def)
  qed
qed

theorem playbook_commands_stay_on_host_witness:
  "let (db', es, run) = execute_playbook (demo_env demo_steps) demo_px demo_playbook 1 in
    px_alerts db' = px_alerts demo_px \<and> list_all (\<lambda>c. cmd_host_id c = 22) (j_commands (px_jobs db'))"
proof -
  obtain db' es run where r: "execute_playbook (demo_env demo_steps) demo_px demo_playbook 1 = (db', es, run)" by (metis prod_cases3)
  obtain alert where a: "get_px_alert demo_px 1 = Some alert" "a_host_id alert = Some 22"
    by (simp add: get_px_alert_def demo_px_def demo_alert_def)
  have h: "\<forall>h. a_host_id alert = Some h \<longrightarrow> h \<in> hst_id ` set (j_hosts (px_jobs demo_px))"
    unfolding a(2) by (simp add: demo_px_def demo_jobs_db_def demo_host_def)
  show ?thesis using playbook_commands_stay_on_host [OF r a(1) h] r a(2)
    by (auto simp: grows_def list_all_iff demo_px_def demo_jobs_db_def)
qed

end
