(* ===== verification/Response.thy ===== *)
theory Response
  imports Playbooks
begin

text \<open>
  Automatic response to a match (backend/app/services/response.py): the commands a rule's action
  queues, the upgrade of a hash that a sandbox convicted, the memory scan a rule may ask for, and the
  hand-over of the matching playbooks to their worker through Kafka. The broker is a parameter: it
  accepts a message or not, and either way the alert pipeline goes on.
\<close>

section \<open>Targets\<close>

definition basename :: "string \<Rightarrow> string" where
  "basename path = rev (takeWhile (\<lambda>c. c \<noteq> CHR ''/'' \<and> c \<noteq> bslash) (rev path))"

text \<open>\<open>block.get("name") or _basename(block.get(k))\<close>, where \<open>block.get(k)\<close> is no non-empty string.\<close>

definition name_or_base :: "pyval \<Rightarrow> pyval \<Rightarrow> pyval result" where
  "name_or_base name path =
     (if truthy name then Inr name
      else if \<not> truthy path then Inr PNone
      else (case path of PStr s \<Rightarrow> Inr (PStr (basename s)) | _ \<Rightarrow> Inl AttributeError))"

definition pick_block_pattern :: "pydict \<Rightarrow> (CommandKind \<times> pyval) option result" where
  "pick_block_pattern ecs =
     (let process = sub_dict ecs ''process''; file = sub_dict ecs ''file'' in
      bindE (vget process ''executable'') (\<lambda>proc_path.
      case nonempty_str proc_path of
        Some p \<Rightarrow> Inr (Some (Cmd_BLOCK_PROCESS, PStr p))
      | None \<Rightarrow>
          bindE (vget process ''name'') (\<lambda>proc_name. bindE (name_or_base proc_name proc_path) (\<lambda>proc_basename.
          if truthy proc_basename then Inr (Some (Cmd_BLOCK_PROCESS, proc_basename))
          else bindE (vget file ''path'') (\<lambda>file_path.
            case nonempty_str file_path of
              Some p \<Rightarrow> Inr (Some (Cmd_BLOCK_FILE, PStr p))
            | None \<Rightarrow>
                bindE (vget file ''name'') (\<lambda>file_name. bindE (name_or_base file_name file_path) (\<lambda>file_basename.
                if truthy file_basename then Inr (Some (Cmd_BLOCK_FILE, file_basename)) else Inr None)))))))"

section \<open>Detonation verdicts\<close>

datatype IocKind = HASH_SHA256 | HASH_MD5 | HASH_SHA1 | IOC_FILENAME | IOC_FILEPATH

record IocEntry =
  ioc_kind :: IocKind
  ioc_value_normalized :: string
  ioc_source_id :: "uuid option"

definition matched_hash_is_detonation_ioc :: "IocEntry list \<Rightarrow> (uuid \<times> string) list \<Rightarrow> pydict \<Rightarrow> bool result" where
  "matched_hash_is_detonation_ioc entries feeds ecs =
     bindE (vget (sub_dict ecs ''process'') ''hash'') (\<lambda>h.
       case nonempty_str (case py_or h (PDict []) of PDict d \<Rightarrow> dget d ''sha256'' | _ \<Rightarrow> PNone) of
         None \<Rightarrow> Inr False
       | Some sha256 \<Rightarrow>
           (let normalised = strip (lower sha256) in
            Inr (list_ex (\<lambda>e. ioc_kind e = HASH_SHA256 \<and> ioc_value_normalized e = normalised \<and>
                   (case ioc_source_id e of None \<Rightarrow> False
                    | Some f \<Rightarrow> list_ex (\<lambda>(i, name). i = f \<and> startswith name ''detonation:'') feeds)) entries)))"

section \<open>The commands of an action\<close>

definition pid_of_event :: "pydict \<Rightarrow> int option result" where
  "pid_of_event ecs = bindE (vget (sub_dict ecs ''process'') ''pid'') (\<lambda>v.
     Inr (case as_int v of None \<Rightarrow> None | Some i \<Rightarrow> if i > 0 then Some i else None))"

definition action_commands :: "RuleAction \<Rightarrow> pydict \<Rightarrow> (CommandKind \<times> pydict) list result" where
  "action_commands act ecs =
     (if act = ALERT then Inr []
      else bindE (pid_of_event ecs) (\<lambda>pid. bindE (pick_block_pattern ecs) (\<lambda>picked.
        bindE (if act = QUARANTINE then vget (sub_dict ecs ''file'') ''path'' else Inr PNone) (\<lambda>file_path.
          Inr ((case pid of None \<Rightarrow> [] | Some i \<Rightarrow> [(Cmd_KILL_PROCESS, [(''pid'', PInt i)])]) @
               (case picked of None \<Rightarrow> [] | Some (kind, pattern) \<Rightarrow> [(kind, [(''pattern'', pattern)])]) @
               (case nonempty_str file_path of None \<Rightarrow> []
                | Some p \<Rightarrow> [(Cmd_QUARANTINE_FILE, [(''path'', PStr p), (''delete_original'', PBool True)])]))))))"

definition queue_memory_yara_job :: "job_db \<Rightarrow> uuid \<Rightarrow> uuid \<Rightarrow> uuid \<Rightarrow> int \<Rightarrow> job_db" where
  "queue_memory_yara_job db host rule alert pid =
     fst (bridge_job db host Job_MEMORY_YARA_SCAN [(''pid'', PInt pid)]
       (''Auto memory YARA scan '' @ [CHR 0xB7] @ '' pid '' @ show_int pid) alert rule ''rule'')"

section \<open>A match\<close>

record response_db =
  rs_px :: playbook_db
  rs_rules :: "(uuid \<times> bool) list"
  rs_iocs :: "IocEntry list"
  rs_feeds :: "(uuid \<times> string) list"

definition run_message :: "uuid \<Rightarrow> uuid \<Rightarrow> pydict" where
  "run_message playbook_id alert_id = [(''playbook_id'', PStr (uuid_str playbook_id)), (''alert_id'', PStr (uuid_str alert_id))]"

text \<open>The messages accepted by the broker, in order.\<close>

definition fire_matching_playbooks :: "(pydict \<Rightarrow> bool) \<Rightarrow> playbook_db \<Rightarrow> uuid \<Rightarrow> uuid \<Rightarrow> pydict list" where
  "fire_matching_playbooks accepts db rule_id alert_id = (case get_px_alert db alert_id of
       None \<Rightarrow> []
     | Some alert \<Rightarrow>
         filter accepts (map (\<lambda>p. run_message (pb_id p) alert_id)
           (find_matching_playbooks (px_playbooks db) rule_id (a_severity alert) (a_mitre alert))))"

definition add_all :: "uuid \<Rightarrow> uuid \<Rightarrow> uuid \<Rightarrow> (CommandKind \<times> pydict) list \<Rightarrow> job_db \<Rightarrow> job_db" where
  "add_all host rule alert cmds db = foldl (\<lambda>db (k, p). add_command db host k p (Some alert) (Some rule) None) db cmds"

definition queue_command_for_match ::
  "(pydict \<Rightarrow> bool) \<Rightarrow> response_db \<Rightarrow> uuid \<Rightarrow> uuid \<Rightarrow> RuleAction \<Rightarrow> uuid \<Rightarrow> pydict \<Rightarrow> (response_db \<times> pydict list) result" where
  "queue_command_for_match accepts db host rule act alert ecs =
     bindE (matched_hash_is_detonation_ioc (rs_iocs db) (rs_feeds db) ecs) (\<lambda>detonated.
     bindE (action_commands (if detonated then QUARANTINE else act) ecs) (\<lambda>cmds.
       let jobs = add_all host rule alert cmds (px_jobs (rs_px db)) in
       bindE (if map_of (rs_rules db) rule = Some True then pid_of_event ecs else Inr None) (\<lambda>scan.
         let jobs = (case scan of None \<Rightarrow> jobs | Some pid \<Rightarrow> queue_memory_yara_job jobs host rule alert pid);
             px = (rs_px db)\<lparr>px_jobs := jobs\<rparr>
         in Inr (db\<lparr>rs_px := px\<rparr>, fire_matching_playbooks accepts px rule alert))))"

end
