(* ===== verification/Response_Correct.thy ===== *)
theory Response_Correct
  imports Response Playbooks_Correct
begin

text \<open>
  Correctness of the automatic response: which commands a match queues and for whom, and that the
  playbooks it publishes are the playbooks the worker runs.
\<close>

section \<open>The hand-over to the worker\<close>

lemma execute_playbook_frame:
  assumes "execute_playbook env db playbook aid = (db', es, run)"
  shows "px_playbooks db' = px_playbooks db \<and> px_alerts db' = px_alerts db \<and> px_runs db' = px_runs db @ [run] \<and>
    pr_playbook_id run = pb_id playbook \<and> pr_alert_id run = aid \<and> (get_px_alert db aid = None \<longrightarrow> pr_status run = PB_FAILED)"
proof (cases "get_px_alert db aid")
  case None
  then show ?thesis using assms by (auto simp: execute_playbook_def Let_def add_run_def take_id_def)
next
  case (Some alert)
  show ?thesis
  proof (cases "parse_playbook (env_safe_load env) (pb_yaml_body playbook)")
    case (Inl e)
    then show ?thesis using assms Some by (auto simp: execute_playbook_def Let_def add_run_def take_id_def)
  next
    case (Inr steps)
    then show ?thesis using execute_playbook_steps [OF assms Some Inr] Some
        run_steps_inv [of "context_from_alert alert" "take_id db" steps env]
      by (simp add: engine_inv_def px_grows_def add_run_def take_id_def Let_def)
  qed
qed

text \<open>The worker over a sequence of messages.\<close>

definition deliver :: "playbook_env \<Rightarrow> playbook_db \<Rightarrow> pydict list \<Rightarrow> playbook_db" where
  "deliver env db msgs = foldl (\<lambda>db m. fst (handle_message env db m)) db msgs"

lemma find_key_distinct: "distinct (map f xs) \<Longrightarrow> x \<in> set xs \<Longrightarrow> find (\<lambda>y. f y = f x) xs = Some x"
  by (induction xs) auto

lemma handle_run_message:
  assumes "is_uuid (pb_id p)" "is_uuid aid" "p \<in> set (px_playbooks db)" "distinct (map pb_id (px_playbooks db))" "pb_enabled p"
  shows "handle_message env db (run_message (pb_id p) aid) =
    (let (db', es, run) = execute_playbook env db p aid in (db', es, True))"
  using assms find_key_distinct [OF assms(4,3)]
  by (simp add: handle_message_def run_message_def uuid_of_uuid_str case_prod_beta)

lemma deliver_messages:
  assumes "\<forall>p \<in> set ps. is_uuid (pb_id p) \<and> p \<in> set (px_playbooks db) \<and> pb_enabled p" "is_uuid aid" "distinct (map pb_id (px_playbooks db))"
  shows "\<exists>runs. px_runs (deliver env db (map (\<lambda>p. run_message (pb_id p) aid) ps)) = px_runs db @ runs \<and>
    map pr_playbook_id runs = map pb_id ps \<and> (\<forall>r \<in> set runs. pr_alert_id r = aid) \<and>
    (get_px_alert db aid = None \<longrightarrow> (\<forall>r \<in> set runs. pr_status r = PB_FAILED))"
  using assms
proof (induction ps arbitrary: db)
  case (Cons p ps)
  obtain db1 es run where x: "execute_playbook env db p aid = (db1, es, run)" by (metis prod_cases3)
  note fr = execute_playbook_frame [OF x]
  then have same: "px_playbooks db1 = px_playbooks db" "get_px_alert db1 aid = get_px_alert db aid" by (simp_all add: get_px_alert_def)
  have "fst (handle_message env db (run_message (pb_id p) aid)) = db1"
    using handle_run_message [of p aid db env] Cons.prems x by simp
  moreover obtain runs where "px_runs (deliver env db1 (map (\<lambda>p. run_message (pb_id p) aid) ps)) = px_runs db1 @ runs"
    "map pr_playbook_id runs = map pb_id ps" "\<forall>r \<in> set runs. pr_alert_id r = aid"
    "get_px_alert db1 aid = None \<longrightarrow> (\<forall>r \<in> set runs. pr_status r = PB_FAILED)"
    using Cons.IH [of db1] Cons.prems same(1) by auto
  ultimately show ?case using fr same(2) by (intro exI [of _ "run # runs"]) (simp add: deliver_def)
qed (simp add: deliver_def)

section \<open>The commands of a match\<close>

lemma py_str_truthy: "truthy v \<Longrightarrow> py_str v \<noteq> []"
  by (cases v) (auto simp: py_str_def repr_float_def Let_def)

lemma sendable_pattern:
  "truthy v \<Longrightarrow> sendable Cmd_BLOCK_PROCESS [(''pattern'', v)]" "truthy v \<Longrightarrow> sendable Cmd_BLOCK_FILE [(''pattern'', v)]"
  using py_str_truthy [of v] by (simp_all add: sendable_def pattern_body_def payload_str_def Let_def)

text \<open>The commands each level of response may use.\<close>

fun permitted :: "RuleAction \<Rightarrow> CommandKind set" where
  "permitted ALERT = {}"
| "permitted BLOCK = {Cmd_KILL_PROCESS, Cmd_BLOCK_PROCESS, Cmd_BLOCK_FILE}"
| "permitted QUARANTINE = {Cmd_KILL_PROCESS, Cmd_BLOCK_PROCESS, Cmd_BLOCK_FILE, Cmd_QUARANTINE_FILE}"

lemma pid_of_event_positive: "pid_of_event ecs = Inr (Some i) \<Longrightarrow> 0 < i"
  by (auto simp: pid_of_event_def bindE_eq_Inr split: option.splits if_splits)

lemma nonempty_str_Some: "nonempty_str v = Some p \<Longrightarrow> p \<noteq> []"
  by (auto simp: nonempty_str_def split: option.splits if_splits)

lemma picked_sendable:
  assumes "pick_block_pattern ecs = Inr (Some (kind, pattern))"
  shows "kind \<in> {Cmd_BLOCK_PROCESS, Cmd_BLOCK_FILE} \<and> sendable kind [(''pattern'', pattern)]"
proof -
  have "truthy (PStr p)" if "nonempty_str v = Some p" for v p using nonempty_str_Some [OF that] by simp
  with assms have "kind \<in> {Cmd_BLOCK_PROCESS, Cmd_BLOCK_FILE} \<and> truthy pattern"
    unfolding pick_block_pattern_def Let_def by (auto simp: bindE_eq_Inr split: option.splits if_splits)
  then show ?thesis using sendable_pattern by auto
qed

lemma sendable_quarantine: "p \<noteq> [] \<Longrightarrow> sendable Cmd_QUARANTINE_FILE [(''path'', PStr p), (''delete_original'', PBool True)]"
  by (cases p) (simp_all add: sendable_def quarantine_body_def payload_str_def Let_def)

lemma action_commands_ok:
  assumes "action_commands act ecs = Inr cmds"
  shows "list_all (\<lambda>(k, p). k \<in> permitted act \<and> sendable k p) cmds \<and> distinct (map fst cmds)"
proof (cases "act = ALERT")
  case False
  from assms False obtain pid picked path where
    c: "pid_of_event ecs = Inr pid" "pick_block_pattern ecs = Inr picked"
      "(if act = QUARANTINE then vget (sub_dict ecs ''file'') ''path'' else Inr PNone) = Inr path"
      "cmds = (case pid of None \<Rightarrow> [] | Some i \<Rightarrow> [(Cmd_KILL_PROCESS, [(''pid'', PInt i)])]) @
         (case picked of None \<Rightarrow> [] | Some (kind, pattern) \<Rightarrow> [(kind, [(''pattern'', pattern)])]) @
         (case nonempty_str path of None \<Rightarrow> [] | Some p \<Rightarrow> [(Cmd_QUARANTINE_FILE, [(''path'', PStr p), (''delete_original'', PBool True)])])"
    by (auto simp: action_commands_def bindE_eq_Inr)
  have kill: "sendable Cmd_KILL_PROCESS [(''pid'', PInt i)]" if "pid = Some i" for i
    using that c(1) pid_of_event_positive sendable_kill [of "PInt i" i] by simp
  have block: "kind \<in> {Cmd_BLOCK_PROCESS, Cmd_BLOCK_FILE} \<and> sendable kind [(''pattern'', pattern)]" if "picked = Some (kind, pattern)" for kind pattern
    using that c(2) picked_sendable by simp
  have quarantine: "act = QUARANTINE \<and> sendable Cmd_QUARANTINE_FILE [(''path'', PStr p), (''delete_original'', PBool True)]"
    if "nonempty_str path = Some p" for p
    using that c(3) sendable_quarantine [OF nonempty_str_Some [OF that]] by (auto simp: nonempty_str_def split: if_splits)
  have perm: "act = BLOCK \<or> act = QUARANTINE" using False by (cases act) simp_all
  then have "Cmd_KILL_PROCESS \<in> permitted act" "{Cmd_BLOCK_PROCESS, Cmd_BLOCK_FILE} \<subseteq> permitted act" by auto
  with kill block quarantine show ?thesis unfolding c(4) by (fastforce split: option.split)
qed (use assms in \<open>simp add: action_commands_def\<close>)

text \<open>The rows an action adds.\<close>

definition response_row :: "uuid \<Rightarrow> uuid \<Rightarrow> uuid \<Rightarrow> Command \<Rightarrow> bool" where
  "response_row host rule alert c \<longleftrightarrow> cmd_status c = CMD_PENDING \<and> cmd_host_id c = host \<and>
     cmd_triggered_by_rule_id c = Some rule \<and> cmd_triggered_by_alert_id c = Some alert \<and> sendable (cmd_kind c) (cmd_payload c)"

definition queued_row :: "Command \<Rightarrow> CommandKind \<times> pydict" where
  "queued_row c = (cmd_kind c, cmd_payload c)"

lemma add_all_rows:
  assumes "list_all (\<lambda>(k, p). sendable k p) cmds"
  shows "\<exists>cs. j_commands (add_all host rule alert cmds db) = j_commands db @ cs \<and> map queued_row cs = cmds \<and>
    list_all (response_row host rule alert) cs \<and> grows (\<lambda>_. True) db (add_all host rule alert cmds db)"
  using assms
proof (induction cmds arbitrary: db)
  case (Cons x cmds)
  obtain k p where x: "x = (k, p)" by (cases x)
  let ?db = "add_command db host k p (Some alert) (Some rule) None" and ?c = "new_command db host k p (Some alert) (Some rule) None"
  obtain cs where "j_commands (add_all host rule alert cmds ?db) = j_commands ?db @ cs" "map queued_row cs = cmds"
    "list_all (response_row host rule alert) cs" "grows (\<lambda>_. True) ?db (add_all host rule alert cmds ?db)"
    using Cons by auto
  moreover have "j_commands ?db = j_commands db @ [?c]" by (simp add: add_command_def)
  moreover have "response_row host rule alert ?c" "queued_row ?c = (k, p)"
    using Cons.prems x by (simp_all add: response_row_def queued_row_def new_command_def)
  moreover have "grows (\<lambda>_. True) db ?db" by (rule grows_add_command) simp
  ultimately show ?case using grows_trans [of _ db ?db] x by (intro exI [of _ "?c # cs"]) (simp add: add_all_def)
qed (simp add: add_all_def grows_refl)

lemma queue_memory_yara_job_row:
  assumes "host \<in> hst_id ` set (j_hosts db)"
  shows "\<exists>c. j_commands (queue_memory_yara_job db host rule alert pid) = j_commands db @ [c] \<and> response_row host rule alert c \<and>
    cmd_kind c = Cmd_RUN_JOB \<and> dget (cmd_payload c) ''job_kind'' = PStr (job_kind_value Job_MEMORY_YARA_SCAN) \<and>
    grows (\<lambda>_. True) db (queue_memory_yara_job db host rule alert pid)"
proof -
  obtain db' job cmd where b: "bridge_job db host Job_MEMORY_YARA_SCAN [(''pid'', PInt pid)]
      (''Auto memory YARA scan '' @ [CHR 0xB7] @ '' pid '' @ show_int pid) alert rule ''rule'' = (db', job, cmd)" by (metis prod_cases3)
  have "grows (\<lambda>c. sendable (cmd_kind c) (cmd_payload c)) db db'" by (rule bridge_job_grows [OF b assms])
  moreover have "j_commands db' = j_commands db @ [cmd]" using b by (auto simp: bridge_job_def Let_def)
  ultimately have "sendable (cmd_kind cmd) (cmd_payload cmd)" "grows (\<lambda>_. True) db db'" by (auto simp: grows_def)
  moreover have "cmd_status cmd = CMD_PENDING" "cmd_host_id cmd = host" "cmd_triggered_by_rule_id cmd = Some rule"
    "cmd_triggered_by_alert_id cmd = Some alert" "cmd_kind cmd = Cmd_RUN_JOB"
    "dget (cmd_payload cmd) ''job_kind'' = PStr (job_kind_value Job_MEMORY_YARA_SCAN)"
    using b by (auto simp: bridge_job_def Let_def run_command_def)
  ultimately show ?thesis using b \<open>j_commands db' = j_commands db @ [cmd]\<close> by (simp add: queue_memory_yara_job_def response_row_def)
qed

section \<open>Properties\<close>

definition demo_response :: response_db where
  "demo_response = \<lparr>rs_px = demo_px, rs_rules = [(5, True)], rs_iocs = [], rs_feeds = []\<rparr>"

definition demo_ecs :: pydict where
  "demo_ecs = [(''process'', PDict [(''pid'', PInt 7), (''executable'', PStr ''/bin/x'')])]"



text \<open>
  The playbooks a match publishes are the playbooks the worker runs. When the broker accepts every
  message, delivering them makes exactly one run for each playbook whose trigger holds, in their order,
  for this alert. The messages leave before the alert is committed: a worker that does not see the
  alert yet records every one of the runs as failed.
\<close>

theorem published_playbooks_run:
  assumes "get_px_alert db aid = Some alert" "is_uuid aid" "distinct (map pb_id (px_playbooks db))"
    "\<forall>p \<in> set (px_playbooks db). is_uuid (pb_id p)" "px_playbooks later = px_playbooks db"
  shows "\<exists>runs. px_runs (deliver env later (fire_matching_playbooks (\<lambda>_. True) db rule aid)) = px_runs later @ runs \<and>
    map pr_playbook_id runs = map pb_id (filter (\<lambda>p. matches_alert p rule (a_severity alert) (a_mitre alert)) (px_playbooks db)) \<and>
    (\<forall>r \<in> set runs. pr_alert_id r = aid) \<and>
    (get_px_alert later aid = None \<longrightarrow> (\<forall>r \<in> set runs. pr_status r = PB_FAILED))"
proof -
  let ?ps = "find_matching_playbooks (px_playbooks db) rule (a_severity alert) (a_mitre alert)"
  have ps: "?ps = filter (\<lambda>p. matches_alert p rule (a_severity alert) (a_mitre alert)) (px_playbooks db)"
    by (auto simp: find_matching_playbooks_def matches_alert_triggered intro!: filter_cong)
  have "\<forall>p \<in> set ?ps. is_uuid (pb_id p) \<and> p \<in> set (px_playbooks later) \<and> pb_enabled p"
    unfolding ps using assms(4,5) by (auto simp: matches_alert_triggered)
  from deliver_messages [OF this assms(2), of env] assms(1,3,5) show ?thesis
    by (simp add: fire_matching_playbooks_def ps)
qed

theorem published_playbooks_run_witness:
  "\<exists>run. px_runs (deliver (demo_env demo_steps) demo_px (fire_matching_playbooks (\<lambda>_. True) demo_px 5 1)) = [run] \<and>
     pr_playbook_id run = 71 \<and> pr_alert_id run = 1"
proof -
  obtain alert where a: "get_px_alert demo_px 1 = Some alert" "a_severity alert = HIGH" "a_mitre alert = None"
    by (simp add: get_px_alert_def demo_px_def demo_alert_def)
  have "filter (\<lambda>p. matches_alert p 5 HIGH None) (px_playbooks demo_px) = [demo_playbook]" by code_simp
  then have f: "filter (\<lambda>p. matches_alert p 5 (a_severity alert) (a_mitre alert)) (px_playbooks demo_px) = [demo_playbook]" by (simp add: a)
  have "is_uuid 1" "distinct (map pb_id (px_playbooks demo_px))" "\<forall>p \<in> set (px_playbooks demo_px). is_uuid (pb_id p)"
    by (simp_all add: is_uuid_def demo_px_def demo_playbook_def)
  from published_playbooks_run [OF a(1) this refl, of "demo_env demo_steps" 5] show ?thesis
    unfolding f by (auto simp: demo_px_def demo_playbook_def)
qed

end
