(* ===== verification/Signed_Tokens.thy ===== *)
theory Signed_Tokens
  imports Policy_Push
begin

text \<open>
  The stateless signed tokens of the manager and what they open: the upload grants of an agent
  (backend/app/services/uploads.py, the RPC \<open>RequestArtifactUpload\<close> of grpc/services.py, and the proxy
  of api/uploads.py), and the live terminal (services/terminal.py, api/host_terminal.py, the admission
  of \<open>TerminalStream\<close>). HMAC-SHA256 and the object store are parameters. Strings are over Latin-1, so
  the decoder knows the one- and two-byte forms of UTF-8 and counts the rest as undecodable.
\<close>

section \<open>URL-safe base64 without padding\<close>

definition url_char :: "char \<Rightarrow> char" where
  "url_char c = (if c = CHR ''+'' then CHR ''-'' else if c = CHR ''/'' then CHR ''_'' else c)"

definition std_char :: "char \<Rightarrow> char" where
  "std_char c = (if c = CHR ''-'' then CHR ''+'' else if c = CHR ''_'' then CHR ''/'' else c)"

definition b64_url :: "bytes \<Rightarrow> string" where
  "b64_url bs = rstrip_char CHR ''='' (map url_char (b64encode bs))"

text \<open>\<open>binascii.a2b_base64\<close> as it decodes without strict mode: characters outside the alphabet are skipped.\<close>

fun b64_lenient :: "nat \<Rightarrow> nat \<Rightarrow> nat \<Rightarrow> string \<Rightarrow> bytes result" where
  "b64_lenient q left pads [] = (if q = 0 then Inr [] else Inl ValueError)"
| "b64_lenient q left pads (c # s) =
     (if c = CHR ''='' then
        (if 2 \<le> q then (if 4 \<le> q + pads + 1 then Inr [] else b64_lenient q left (pads + 1) s) else b64_lenient q left pads s)
      else (case b64_val c of
          None \<Rightarrow> b64_lenient q left pads s
        | Some v \<Rightarrow>
            (if q = 0 then b64_lenient 1 v 0 s
             else if q = 1 then bindE (b64_lenient 2 (v mod 16) 0 s) (\<lambda>bs. Inr (char_of (4 * left + v div 16) # bs))
             else if q = 2 then bindE (b64_lenient 3 (v mod 4) 0 s) (\<lambda>bs. Inr (char_of (16 * left + v div 4) # bs))
             else bindE (b64_lenient 0 0 0 s) (\<lambda>bs. Inr (char_of (64 * left + v) # bs)))))"

definition b64_url_decode :: "string \<Rightarrow> bytes result" where
  "b64_url_decode s =
     (let padded = s @ replicate ((4 - length s mod 4) mod 4) CHR ''='' in
      if list_all (\<lambda>c. code c < 128) padded then b64_lenient 0 0 0 (map std_char padded) else Inl ValueError)"

section \<open>Signing and checking\<close>

fun utf8_decode :: "bytes \<Rightarrow> string option" where
  "utf8_decode [] = Some []"
| "utf8_decode (c # s) =
     (if code c < 128 then map_option (Cons c) (utf8_decode s)
      else if code c = 194 \<or> code c = 195 then
        (case s of
           d # t \<Rightarrow> (if 128 \<le> code d \<and> code d < 192
                      then map_option (Cons (char_of ((code c - 192) * 64 + (code d - 128)))) (utf8_decode t) else None)
         | [] \<Rightarrow> None)
      else None)"

definition sign :: "mac \<Rightarrow> bytes \<Rightarrow> string \<Rightarrow> string \<Rightarrow> string" where
  "sign hmac key pre payload =
     pre @ ''.'' @ b64_url (utf8_encode payload) @ ''.'' @ b64_url (hmac key (utf8_encode payload))"

text \<open>The payload of a token whose prefix and signature are right.\<close>

definition opened :: "mac \<Rightarrow> bytes \<Rightarrow> string \<Rightarrow> string \<Rightarrow> string option" where
  "opened hmac key pre token = (case split_on CHR ''.'' token of
       [p, body, sig] \<Rightarrow>
         (if p \<noteq> pre then None
          else (case (b64_url_decode body, b64_url_decode sig) of
              (Inr raw, Inr tag) \<Rightarrow> (if tag = hmac key raw then utf8_decode raw else None)
            | _ \<Rightarrow> None))
     | _ \<Rightarrow> None)"

text \<open>\<open>payload.split("|", 3)\<close> into exactly four parts.\<close>

definition split_bars :: "string \<Rightarrow> (string \<times> string \<times> string \<times> string) option" where
  "split_bars s = (case split_once CHR ''|'' s of
       None \<Rightarrow> None
     | Some (a, r) \<Rightarrow> (case split_once CHR ''|'' r of
         None \<Rightarrow> None
       | Some (b, r) \<Rightarrow> (case split_once CHR ''|'' r of None \<Rightarrow> None | Some (c, d) \<Rightarrow> Some (a, b, c, d))))"

text \<open>\<open>datetime.fromtimestamp(int(s), tz=UTC)\<close>: the years 1 to 9999.\<close>

definition timestamp_of :: "string \<Rightarrow> datetime option" where
  "timestamp_of s = (case int_of_str s of
       Inl _ \<Rightarrow> None
     | Inr n \<Rightarrow> (if - 62135596800 \<le> n \<and> n \<le> 253402300799 then Some (n * 1000000) else None))"

definition token_key :: "string \<Rightarrow> string \<Rightarrow> bytes" where
  "token_key upload_token_key jwt_secret = utf8_encode (if upload_token_key \<noteq> [] then upload_token_key else jwt_secret)"

definition token_payload :: "string \<Rightarrow> string \<Rightarrow> string \<Rightarrow> datetime \<Rightarrow> string" where
  "token_payload a b c expires_at = a @ ''|'' @ b @ ''|'' @ c @ ''|'' @ show_int (expires_at div 1000000)"

section \<open>Upload grants\<close>

record UploadClaim =
  up_run_id :: uuid
  up_bucket :: string
  up_object_key :: string
  up_expires_at :: datetime

definition UPLOAD_PREFIX :: string where
  "UPLOAD_PREFIX = ''vau1''"

definition issue_upload_token :: "mac \<Rightarrow> bytes \<Rightarrow> int \<Rightarrow> datetime \<Rightarrow> uuid \<Rightarrow> string \<Rightarrow> string \<Rightarrow> string \<times> datetime" where
  "issue_upload_token hmac key ttl now run bucket object_key =
     (let expires_at = now + seconds ttl
      in (sign hmac key UPLOAD_PREFIX (token_payload (uuid_str run) bucket object_key expires_at), expires_at))"

definition verify_upload_token :: "mac \<Rightarrow> bytes \<Rightarrow> datetime \<Rightarrow> string \<Rightarrow> UploadClaim option" where
  "verify_upload_token hmac key now token = (case opened hmac key UPLOAD_PREFIX token of
       None \<Rightarrow> None
     | Some payload \<Rightarrow> (case split_bars payload of
         None \<Rightarrow> None
       | Some (run_s, bucket, object_key, expires_s) \<Rightarrow> (case timestamp_of expires_s of
           None \<Rightarrow> None
         | Some expires_at \<Rightarrow>
             (if expires_at < now then None
              else (case uuid_of_str run_s of
                  None \<Rightarrow> None
                | Some run \<Rightarrow> Some \<lparr>up_run_id = run, up_bucket = bucket, up_object_key = object_key, up_expires_at = expires_at\<rparr>)))))"

record upload_settings =
  us_hmac :: mac
  us_key :: bytes
  us_ttl :: int
  us_bucket_artifacts :: string
  us_bucket_snapshots :: string
  us_max_bytes :: int

record upload_grant =
  gr_bucket :: string
  gr_object_key :: string
  gr_token :: string
  gr_expires_at :: datetime

definition JOB_ARTIFACT_KINDS :: "string list" where
  "JOB_ARTIFACT_KINDS = [''json'', ''file'', ''yara_matches'', ''ioc_matches'', ''hash_list'', ''shell_output'', ''diagnostic_bundle'']"

datatype rpc_status = UNAUTHENTICATED | INVALID_ARGUMENT | PERMISSION_DENIED | FAILED_PRECONDITION | NOT_FOUND | INTERNAL

text \<open>\<open>RequestArtifactUpload\<close>: the common name of the peer certificate, then the fields of the request.\<close>

definition request_artifact_upload ::
  "upload_settings \<Rightarrow> datetime \<Rightarrow> job_db \<Rightarrow> string option \<Rightarrow> string \<Rightarrow> string \<Rightarrow> string \<Rightarrow> rpc_status + upload_grant" where
  "request_artifact_upload us now db peer run_raw artifact_kind original_filename = (case peer of
       None \<Rightarrow> Inl UNAUTHENTICATED
     | Some host_raw \<Rightarrow>
         (if host_raw = [] then Inl UNAUTHENTICATED
          else (case (uuid_of_str host_raw, uuid_of_str run_raw) of
              (Some host, Some run) \<Rightarrow>
                (if (if artifact_kind = [] then ''file'' else artifact_kind) \<notin> set JOB_ARTIFACT_KINDS then Inl INVALID_ARGUMENT
                 else (case find (\<lambda>r. run_id r = run) (j_runs db) of
                     None \<Rightarrow> Inl PERMISSION_DENIED
                   | Some r \<Rightarrow>
                       (if run_host_id r \<noteq> host then Inl PERMISSION_DENIED
                        else (case find (\<lambda>j. job_id j = run_job_id r) (j_jobs db) of
                            None \<Rightarrow> Inl FAILED_PRECONDITION
                          | Some job \<Rightarrow>
                              (let bucket = artifact_bucket_for (us_bucket_snapshots us) (us_bucket_artifacts us) (job_kind job);
                                   object_key = artifact_object_key now run (if original_filename = [] then ''artifact.bin'' else original_filename);
                                   (token, expires_at) = issue_upload_token (us_hmac us) (us_key us) (us_ttl us) now run bucket object_key
                               in Inr \<lparr>gr_bucket = bucket, gr_object_key = object_key, gr_token = token, gr_expires_at = expires_at\<rparr>)))))
            | _ \<Rightarrow> Inl INVALID_ARGUMENT)))"

text \<open>The object store: what was written under a bucket and a key; \<open>put_ok\<close> tells whether it accepts a write.\<close>

type_synonym objects = "((string \<times> string) \<times> bytes) list"

definition upload_artifact ::
  "upload_settings \<Rightarrow> (string \<Rightarrow> string \<Rightarrow> bool) \<Rightarrow> datetime \<Rightarrow> objects \<Rightarrow> string \<Rightarrow> string \<Rightarrow> string \<Rightarrow> int option \<Rightarrow> bytes \<Rightarrow> objects result" where
  "upload_artifact us put_ok now store token bucket object_key content_length body =
     (case verify_upload_token (us_hmac us) (us_key us) now token of
        None \<Rightarrow> Inl (forbidden ''invalid or expired upload token'')
      | Some claim \<Rightarrow>
          (if up_bucket claim \<noteq> bucket \<or> up_object_key claim \<noteq> object_key then Inl (forbidden ''token does not authorize this object'')
           else if up_bucket claim \<notin> {us_bucket_artifacts us, us_bucket_snapshots us} then Inl (forbidden ''bucket not in allowlist'')
           else (case content_length of
               None \<Rightarrow> Inl (bad_request ''content-length header required'')
             | Some n \<Rightarrow>
                 (if n < 0 \<or> n > us_max_bytes us then Inl (bad_request ''content-length out of range'')
                  else if int (length body) \<noteq> n then Inl (bad_request ''content-length did not match body size'')
                  else if \<not> put_ok (up_bucket claim) (up_object_key claim) then Inl (bad_request ''minio put failed'')
                  else Inr (AList.update (up_bucket claim, up_object_key claim) body store)))))"

section \<open>Terminal sessions\<close>

record TerminalSessionClaim =
  ts_session_id :: uuid
  ts_host_id :: uuid
  ts_user_id :: uuid
  ts_expires_at :: datetime

definition SESSION_PREFIX :: string where
  "SESSION_PREFIX = ''vts1''"

definition SESSION_TTL_SECONDS :: int where
  "SESSION_TTL_SECONDS = 60"

definition issue_session_token :: "mac \<Rightarrow> bytes \<Rightarrow> datetime \<Rightarrow> uuid \<Rightarrow> uuid \<Rightarrow> uuid \<Rightarrow> string \<times> uuid \<times> datetime" where
  "issue_session_token hmac key now host user sid =
     (let expires_at = now + seconds SESSION_TTL_SECONDS
      in (sign hmac key SESSION_PREFIX (token_payload (uuid_str sid) (uuid_str host) (uuid_str user) expires_at), sid, expires_at))"

definition verify_session_token :: "mac \<Rightarrow> bytes \<Rightarrow> datetime \<Rightarrow> string \<Rightarrow> TerminalSessionClaim option" where
  "verify_session_token hmac key now token = (case opened hmac key SESSION_PREFIX token of
       None \<Rightarrow> None
     | Some payload \<Rightarrow> (case split_bars payload of
         None \<Rightarrow> None
       | Some (sid_s, host_s, user_s, expires_s) \<Rightarrow> (case timestamp_of expires_s of
           None \<Rightarrow> None
         | Some expires_at \<Rightarrow>
             (if expires_at < now then None
              else (case (uuid_of_str sid_s, uuid_of_str host_s, uuid_of_str user_s) of
                  (Some sid, Some host, Some user) \<Rightarrow>
                    Some \<lparr>ts_session_id = sid, ts_host_id = host, ts_user_id = user, ts_expires_at = expires_at\<rparr>
                | _ \<Rightarrow> None)))))"

definition open_terminal_session ::
  "mac \<Rightarrow> bytes \<Rightarrow> datetime \<Rightarrow> job_db \<Rightarrow> Actor \<Rightarrow> uuid \<Rightarrow> uuid \<Rightarrow> (string \<times> audit_request) result" where
  "open_terminal_session hmac key now db actor host session_id =
     bindE (RequireAnalyst actor) (\<lambda>actor.
       if \<not> list_ex (\<lambda>h. hst_id h = host) (j_hosts db) then Inl (HTTPError 404 ''host not found'')
       else if \<not> host_visible_to (scope_view db) actor (Some host) then Inl (not_found ''host'' host)
       else (case issue_session_token hmac key now host (u_id (actor_user actor)) session_id of
           (token, sid, expires_at) \<Rightarrow>
             Inr (token, push_audit actor ''host.terminal.open'' ''host'' (uuid_str host) [(''session_id'', PStr (uuid_str sid))])))"

text \<open>The broker: the open sessions by id, with the host and the user each is bound to.\<close>

type_synonym broker = "(uuid \<times> (uuid \<times> uuid)) list"

definition broker_open :: "broker \<Rightarrow> uuid \<Rightarrow> uuid \<Rightarrow> uuid \<Rightarrow> broker result" where
  "broker_open b sid host user = (if map_of b sid \<noteq> None then Inl KeyError else Inr ((sid, (host, user)) # b))"

definition broker_close :: "broker \<Rightarrow> uuid \<Rightarrow> broker" where
  "broker_close b sid = AList.delete sid b"

text \<open>The WebSocket half up to the relay; \<open>None\<close> is a refusal before the upgrade.\<close>

definition terminal_websocket :: "mac \<Rightarrow> bytes \<Rightarrow> datetime \<Rightarrow> broker \<Rightarrow> uuid \<Rightarrow> string \<Rightarrow> broker result option" where
  "terminal_websocket hmac key now b host token = (case verify_session_token hmac key now token of
       None \<Rightarrow> None
     | Some claim \<Rightarrow> (if ts_host_id claim \<noteq> host then None else Some (broker_open b (ts_session_id claim) host (ts_user_id claim))))"

datatype terminal_message = Term_open string string | Term_other

text \<open>The agent's half: the session that \<open>TerminalStream\<close> joins.\<close>

definition terminal_stream :: "broker \<Rightarrow> string option \<Rightarrow> terminal_message option \<Rightarrow> rpc_status + uuid" where
  "terminal_stream b peer first = (case peer of
       None \<Rightarrow> Inl UNAUTHENTICATED
     | Some host_raw \<Rightarrow> (case uuid_of_str host_raw of
         None \<Rightarrow> Inl UNAUTHENTICATED
       | Some host \<Rightarrow> (case first of
           Some (Term_open session_raw requested_raw) \<Rightarrow>
             (case (uuid_of_str session_raw, uuid_of_str requested_raw) of
                (Some sid, Some requested) \<Rightarrow>
                  (if requested \<noteq> host then Inl PERMISSION_DENIED
                   else (case map_of b sid of
                       None \<Rightarrow> Inl NOT_FOUND
                     | Some (bound_host, user) \<Rightarrow> (if bound_host \<noteq> host then Inl PERMISSION_DENIED else Inr sid)))
              | _ \<Rightarrow> Inl INVALID_ARGUMENT)
         | _ \<Rightarrow> Inl INVALID_ARGUMENT)))"

section \<open>The audit trail of a session\<close>

datatype direction = Stdin | Stdout

record AuditBatch =
  ab_bytes_count :: nat
  ab_first_64_hex :: string
  ab_first_locked :: bool

definition empty_batch :: AuditBatch where
  "empty_batch = \<lparr>ab_bytes_count = 0, ab_first_64_hex = [], ab_first_locked = False\<rparr>"

definition batch_add :: "bytes \<Rightarrow> AuditBatch \<Rightarrow> AuditBatch" where
  "batch_add chunk b =
     (if chunk = [] then b
      else (let b = (if ab_first_locked b then b else b\<lparr>ab_first_64_hex := hexdigest (take 64 chunk), ab_first_locked := True\<rparr>)
            in b\<lparr>ab_bytes_count := ab_bytes_count b + length chunk\<rparr>))"

definition batch_full :: "nat \<Rightarrow> AuditBatch \<Rightarrow> bool" where
  "batch_full threshold b \<longleftrightarrow> threshold \<le> ab_bytes_count b"

text \<open>
  The relay tasks of one WebSocket between their awaits: a chunk enters the batch of its direction; a
  flush reads the batch when it starts, and resets it when its row is committed.
\<close>

record relay =
  rl_batch :: "direction \<Rightarrow> AuditBatch"
  rl_rows :: "(direction \<times> nat \<times> string) list"
  rl_flushing :: "direction \<Rightarrow> bool"

datatype relay_event = Chunk direction bytes | Flush_start direction | Flush_end direction

definition relay_start :: relay where
  "relay_start = \<lparr>rl_batch = (\<lambda>_. empty_batch), rl_rows = [], rl_flushing = (\<lambda>_. False)\<rparr>"

fun relay_step :: "relay \<Rightarrow> relay_event \<Rightarrow> relay" where
  "relay_step s (Chunk d data) = s\<lparr>rl_batch := (rl_batch s)(d := batch_add data (rl_batch s d))\<rparr>"
| "relay_step s (Flush_start d) =
     (if ab_bytes_count (rl_batch s d) = 0 then s
      else s\<lparr>rl_rows := rl_rows s @ [(d, ab_bytes_count (rl_batch s d), ab_first_64_hex (rl_batch s d))],
             rl_flushing := (rl_flushing s)(d := True)\<rparr>)"
| "relay_step s (Flush_end d) =
     (if rl_flushing s d then s\<lparr>rl_batch := (rl_batch s)(d := empty_batch), rl_flushing := (rl_flushing s)(d := False)\<rparr> else s)"

definition relay_run :: "relay_event list \<Rightarrow> relay \<Rightarrow> relay" where
  "relay_run evs s = foldl relay_step s evs"

end
