(* ===== verification/Signed_Tokens_Correct.thy ===== *)
theory Signed_Tokens_Correct
  imports Signed_Tokens Policy_Push_Correct
begin

text \<open>
  Correctness of the signed tokens: a granted upload is accepted until it expires, nothing but a
  granted object is ever written although both kinds of token share one key, and the audit rows of a
  terminal session account for every byte as long as no chunk arrives during a flush.
\<close>

section \<open>Encodings\<close>

definition b64_alphabet :: "string \<Rightarrow> bool" where
  "b64_alphabet s \<longleftrightarrow> list_all (\<lambda>c. \<exists>v < 64. c = b64_char v) s"

lemma b64_alphabet_simps [simp]: "b64_alphabet []" "v < 64 \<Longrightarrow> b64_alphabet (b64_char v # s) \<longleftrightarrow> b64_alphabet s"
  by (auto simp: b64_alphabet_def)

lemma char_of_eq: "n < 256 \<Longrightarrow> char_of n = c \<longleftrightarrow> n = code c"
  by (metis code_char_of char_of_code)

lemma b64_char_props:
  assumes "v < 64"
  shows "std_char (url_char (b64_char v)) = b64_char v" "url_char (b64_char v) \<noteq> CHR ''=''" "url_char (b64_char v) \<noteq> CHR ''.''"
    "code (url_char (b64_char v)) < 128"
proof -
  have codes: "code CHR ''+'' = 43" "code CHR ''/'' = 47" "code CHR ''-'' = 45" "code CHR ''_'' = 95" "code CHR ''='' = 61" "code CHR ''.'' = 46"
    by (simp_all add: code_def)
  show "std_char (url_char (b64_char v)) = b64_char v" "url_char (b64_char v) \<noteq> CHR ''=''" "url_char (b64_char v) \<noteq> CHR ''.''"
    "code (url_char (b64_char v)) < 128"
    using assms by (auto simp: b64_char_def url_char_def std_char_def char_of_eq code_char_of codes)
qed

text \<open>The shape of an encoding: characters of the alphabet, then the padding.\<close>

lemma b64encode_shape:
  "\<exists>body k. b64encode bs = body @ replicate k CHR ''='' \<and> b64_alphabet body \<and> k \<le> 2 \<and> (length body + k) mod 4 = 0"
proof (induction bs rule: b64encode.induct)
  case 1
  show ?case by (intro exI [of _ "[]"] exI [of _ 0]) simp
next
  case (2 a)
  show ?case
    by (intro exI [of _ "[b64_char (code a div 4), b64_char (code a mod 4 * 16)]"] exI [of _ 2]) (simp add: numeral_2_eq_2 b64_bounds)
next
  case (3 a b)
  show ?case
    by (intro exI [of _ "[b64_char (code a div 4), b64_char (code a mod 4 * 16 + code b div 16), b64_char (code b mod 16 * 4)]"] exI [of _ 1])
      (simp add: b64_bounds)
next
  case (4 a b c s)
  then obtain body k where "b64encode s = body @ replicate k CHR ''=''" "b64_alphabet body" "k \<le> 2" "(length body + k) mod 4 = 0"
    by (elim exE conjE) rule
  then show ?case
    by (intro exI [of _ "b64_char (code a div 4) # b64_char (code a mod 4 * 16 + code b div 16) # b64_char (code b mod 16 * 4 + code c div 64) #
        b64_char (code c mod 64) # body"] exI [of _ k]) (simp add: b64_bounds)
qed

lemma pad_count: "k \<le> 2 \<Longrightarrow> (n + k) mod 4 = 0 \<Longrightarrow> (4 - n mod 4) mod 4 = k" for n k :: nat
proof -
  assume k: "k \<le> 2" and "(n + k) mod 4 = 0"
  then have r: "(n mod 4 + k) mod 4 = 0" by (simp add: mod_add_left_eq)
  have "n mod 4 < 4" by simp
  then have "n mod 4 = 0 \<or> n mod 4 = 1 \<or> n mod 4 = 2 \<or> n mod 4 = 3" by linarith
  moreover have "k = 0 \<or> k = 1 \<or> k = 2" using k by linarith
  ultimately show ?thesis using r by (elim disjE) simp_all
qed

lemma b64_lenient_encode: "b64_lenient 0 0 0 (b64encode bs) = Inr bs"
  by (induction bs rule: b64encode.induct) (simp_all add: b64_bounds b64_split b64_char_not_pad b64_val_char)

lemma rstrip_char_append: "c \<notin> set s \<Longrightarrow> rstrip_char c (s @ replicate k c) = s"
proof -
  assume "c \<notin> set s"
  moreover have "dropWhile (\<lambda>x. x = c) (replicate k c @ r) = dropWhile (\<lambda>x. x = c) r" for r by (induction k) simp_all
  moreover have "dropWhile (\<lambda>x. x = c) r = r" if "c \<notin> set r" for r using that by (cases r) auto
  ultimately show ?thesis by (simp add: rstrip_char_def)
qed

lemma b64_url_shape:
  obtains body k where "b64_url bs = map url_char body" "b64encode bs = body @ replicate k CHR ''=''" "b64_alphabet body"
    "k \<le> 2" "(length body + k) mod 4 = 0"
proof -
  obtain body k where sh: "b64encode bs = body @ replicate k CHR ''=''" "b64_alphabet body" "k \<le> 2" "(length body + k) mod 4 = 0"
    using b64encode_shape [of bs] by (elim exE conjE) rule
  have "CHR ''='' \<notin> set (map url_char body)" using sh(2) b64_char_props(2) by (force simp: b64_alphabet_def list_all_iff)
  moreover have "url_char CHR ''='' = CHR ''=''" by (simp add: url_char_def)
  ultimately have "b64_url bs = map url_char body" by (simp add: b64_url_def sh(1) rstrip_char_append)
  then show thesis using sh by (rule that)
qed

lemma b64_url_roundtrip: "b64_url_decode (b64_url bs) = Inr bs"
proof -
  obtain body k where sh: "b64_url bs = map url_char body" "b64encode bs = body @ replicate k CHR ''=''" "b64_alphabet body"
    "k \<le> 2" "(length body + k) mod 4 = 0" by (rule b64_url_shape)
  have pad: "(4 - length body mod 4) mod 4 = k" by (rule pad_count [OF sh(4,5)])
  have "list_all (\<lambda>c. code c < 128) (map url_char body @ replicate k CHR ''='')"
    using sh(3) b64_char_props(4) by (force simp: b64_alphabet_def list_all_iff code_def)
  moreover have "map std_char (map url_char body) = body"
    using sh(3) b64_char_props(1) by (force simp: b64_alphabet_def list_all_iff intro!: map_idI)
  moreover have "std_char CHR ''='' = CHR ''=''" by (simp add: std_char_def)
  ultimately show ?thesis
    using b64_lenient_encode [of bs] by (simp add: b64_url_decode_def Let_def sh(1,2) pad)
qed

lemma b64_url_no_dot: "CHR ''.'' \<notin> set (b64_url bs)"
proof -
  obtain body k where "b64_url bs = map url_char body" "b64_alphabet body" by (rule b64_url_shape)
  then show ?thesis using b64_char_props(3) by (force simp: b64_alphabet_def list_all_iff)
qed

lemma utf8_roundtrip: "utf8_decode (utf8_encode s) = Some s"
proof (induction s)
  case (Cons c s)
  show ?case
  proof (cases "code c < 128")
    case True
    with Cons show ?thesis by (simp add: utf8_encode_def utf8_char_def)
  next
    case False
    have "code c div 64 < 4" "2 \<le> code c div 64" using False code_lt [of c]
      by (simp_all add: div_less_iff_less_mult less_eq_div_iff_mult_less_eq)
    then have "code c div 64 = 2 \<or> code c div 64 = 3" "code c mod 64 < 64" by auto
    moreover have "code c div 64 * 64 + code c mod 64 = code c" by simp
    ultimately have "192 + code c div 64 = 194 \<or> 192 + code c div 64 = 195" "192 + code c div 64 < 256" "128 + code c mod 64 < 256"
      "char_of ((192 + code c div 64 - 192) * 64 + (128 + code c mod 64 - 128)) = c" by auto
    with Cons False show ?thesis by (simp add: utf8_encode_def utf8_char_def Let_def code_char_of)
  qed
qed (simp add: utf8_encode_def)

section \<open>Tokens\<close>

lemma split_on_append: "c \<notin> set a \<Longrightarrow> split_on c (a @ c # r) = a # split_on c r"
  by (induction a) auto

lemma split_on_single: "c \<notin> set a \<Longrightarrow> split_on c a = [a]"
  by (induction a) auto

lemma join_split_on: "join [c] (split_on c s) = s"
proof (induction s)
  case (Cons x s)
  obtain p ps where sp: "split_on c s = p # ps" by (cases "split_on c s") auto
  have "join [c] ((x # p) # ps) = x # join [c] (p # ps)" by (cases ps) simp_all
  moreover have "join [c] ([] # p # ps) = c # join [c] (p # ps)" by simp
  ultimately show ?case using Cons sp by simp
qed simp

lemma split_once_append: "c \<notin> set a \<Longrightarrow> split_once c (a @ c # r) = Some (a, r)"
  by (auto simp: split_once_def takeWhile_append dropWhile_append)

text \<open>A token opens under its own prefix; the signature does not cover the prefix, so another one may be put in its place.\<close>

definition reprefix :: "string \<Rightarrow> string \<Rightarrow> string" where
  "reprefix pre token = pre @ dropWhile (\<lambda>c. c \<noteq> CHR ''.'') token"

lemma opened_sign:
  assumes "CHR ''.'' \<notin> set pre"
  shows "opened hmac key pre (sign hmac key pre payload) = Some payload"
  using assms b64_url_no_dot
  by (simp add: opened_def sign_def split_on_append split_on_single b64_url_roundtrip utf8_roundtrip)

lemma reprefix_sign: "CHR ''.'' \<notin> set pre \<Longrightarrow> reprefix pre' (sign hmac key pre payload) = sign hmac key pre' payload"
  by (simp add: reprefix_def sign_def dropWhile_append)

lemma prefixes [simp]: "CHR ''.'' \<notin> set UPLOAD_PREFIX" "CHR ''.'' \<notin> set SESSION_PREFIX"
  by (simp_all add: UPLOAD_PREFIX_def SESSION_PREFIX_def)

lemma opened_Some:
  assumes "opened hmac key pre token = Some payload"
  obtains body tag raw where "token = pre @ ''.'' @ body @ ''.'' @ tag" "b64_url_decode body = Inr raw"
    "b64_url_decode tag = Inr (hmac key raw)" "utf8_decode raw = Some payload"
proof -
  from assms obtain body tag where sp: "split_on CHR ''.'' token = [pre, body, tag]"
    by (auto simp: opened_def split: list.splits if_splits)
  moreover from assms sp obtain raw where "b64_url_decode body = Inr raw" "b64_url_decode tag = Inr (hmac key raw)" "utf8_decode raw = Some payload"
    by (auto simp: opened_def split: sum.splits if_splits)
  moreover have "token = pre @ ''.'' @ body @ ''.'' @ tag"
    using sp join_split_on [of "CHR ''.''" token] by simp
  ultimately show thesis using that by blast
qed

section \<open>Payloads\<close>

lemma show_int_chars: "c \<in> set (show_int i) \<Longrightarrow> is_digit c \<or> c = CHR ''-''"
  using show_nat_digits [of "nat i"] show_nat_digits [of "nat (- i)"] by (auto simp: show_int_def list_all_iff split: if_splits)

lemma is_digit_not: "is_digit c \<Longrightarrow> c \<noteq> CHR ''|'' \<and> c \<noteq> CHR ''_'' \<and> c \<noteq> CHR ''-'' \<and> c \<noteq> CHR ''+'' \<and> \<not> is_space c"
  by (auto simp: is_digit_def is_space_def code_def Let_def)

lemma int_of_show: "0 \<le> i \<Longrightarrow> int_of_str (show_int i) = Inr i"
proof -
  assume "0 \<le> i"
  let ?s = "show_nat (nat i)"
  have d: "\<forall>c \<in> set ?s. is_digit c" using show_nat_digits [of "nat i"] by (simp add: list_all_iff)
  have ne: "?s \<noteq> []" by (rule show_nat_nonempty)
  have no: "\<forall>c \<in> set ?s. c \<noteq> CHR ''_'' \<and> c \<noteq> CHR ''-'' \<and> c \<noteq> CHR ''+'' \<and> \<not> is_space c" using d is_digit_not by blast
  have "dropWhile is_space ?s = ?s" "dropWhile is_space (rev ?s) = rev ?s"
    using no ne by (auto simp: dropWhile_eq_self_iff hd_rev)
  then have st: "strip ?s = ?s" by (simp add: strip_def)
  have fl: "filter (\<lambda>c. c \<noteq> CHR ''_'') ?s = ?s" using no by (simp add: filter_id_conv)
  have "hd ?s \<noteq> CHR ''-''" "hd ?s \<noteq> CHR ''+''" "is_digit (hd ?s)" "is_digit (last ?s)" using no d ne by auto
  moreover have "no_double_underscore ?s" by (rule no_underscore_single) (use no in blast)
  ultimately show ?thesis using st fl ne d \<open>0 \<le> i\<close>
    by (simp add: int_of_str_def show_int_def Let_def list_all_iff read_show_nat)
qed

lemma int_of_str_no_bar: "int_of_str s = Inr n \<Longrightarrow> CHR ''|'' \<notin> set s"
proof
  assume n: "int_of_str s = Inr n" and bar: "CHR ''|'' \<in> set s"
  have sp: "\<not> is_space CHR ''|''" by (simp add: is_space_def code_def)
  have keep: "CHR ''|'' \<in> set r \<Longrightarrow> CHR ''|'' \<in> set (dropWhile is_space r)" for r using sp by (induction r) auto
  then have "CHR ''|'' \<in> set (strip s)" using bar by (simp add: strip_def)
  then have "CHR ''|'' \<in> set (tl (strip s))" if "hd (strip s) = CHR ''-'' \<or> hd (strip s) = CHR ''+''"
    using that by (cases "strip s") auto
  with n \<open>CHR ''|'' \<in> set (strip s)\<close> show False
    by (auto simp: int_of_str_def Let_def list_all_iff is_digit_def code_def split: if_splits)
qed

definition second_range :: "datetime \<Rightarrow> bool" where
  "second_range t \<longleftrightarrow> 0 \<le> t \<and> t div 1000000 \<le> 253402300799"

lemma timestamp_of_show: "second_range t \<Longrightarrow> timestamp_of (show_int (t div 1000000)) = Some (t div 1000000 * 1000000)"
proof -
  assume t: "second_range t"
  then have "0 \<le> t div 1000000" by (simp add: second_range_def pos_imp_zdiv_nonneg_iff)
  with t show ?thesis by (simp add: timestamp_of_def second_range_def int_of_show)
qed

lemma split_bars_payload:
  assumes "CHR ''|'' \<notin> set a" "CHR ''|'' \<notin> set b"
  shows "split_bars (token_payload a b c t) =
    (case split_once CHR ''|'' (c @ ''|'' @ show_int (t div 1000000)) of None \<Rightarrow> None | Some (k, r) \<Rightarrow> Some (a, b, k, r))"
  using assms by (simp add: split_bars_def token_payload_def split_once_append split: option.split)

lemma split_bars_clean:
  assumes "CHR ''|'' \<notin> set a" "CHR ''|'' \<notin> set b" "CHR ''|'' \<notin> set c"
  shows "split_bars (token_payload a b c t) = Some (a, b, c, show_int (t div 1000000))"
  using assms by (simp add: split_bars_payload split_once_append)

text \<open>A bar in the third part moves into the part that has to be a number.\<close>

lemma split_bars_barred:
  assumes "split_bars (token_payload a b c t) = Some (a', b', c', e)" "CHR ''|'' \<notin> set a" "CHR ''|'' \<notin> set b"
    "timestamp_of e = Some x"
  shows "a' = a \<and> b' = b \<and> c' = c \<and> e = show_int (t div 1000000) \<and> CHR ''|'' \<notin> set c"
proof (cases "CHR ''|'' \<in> set c")
  case True
  then obtain k r where "c = k @ CHR ''|'' # r" "CHR ''|'' \<notin> set k" by (metis split_list_first)
  then have "e = r @ ''|'' @ show_int (t div 1000000)"
    using assms(1-3) by (simp add: split_bars_payload split_once_append)
  then have "CHR ''|'' \<in> set e" by simp
  then show ?thesis using assms(4) int_of_str_no_bar by (auto simp: timestamp_of_def split: sum.splits)
next
  case False
  then show ?thesis using assms(1-3) by (simp add: split_bars_clean)
qed

lemma uuid_str_no_bar: "CHR ''|'' \<notin> set (uuid_str u)"
proof -
  have "CHR ''|'' \<notin> set (hex_fixed 32 u)"
    using hex_fixed_not [of "CHR ''|''" 32 u] by (auto simp: is_hex_def hex_digit_val_def code_def)
  then show ?thesis by (auto simp: uuid_str_def Let_def dest: in_set_takeD in_set_dropD)
qed

lemma uuid_of_str_is_uuid: "uuid_of_str s = Some u \<Longrightarrow> is_uuid u"
  by (auto simp: uuid_of_str_def is_uuid_def Let_def nat_less_iff split: option.splits if_splits)

section \<open>Object keys\<close>

lemma replace_dotdot_bar: "CHR ''|'' \<in> set (replace_dotdot s) \<longleftrightarrow> CHR ''|'' \<in> set s"
  by (induction s rule: replace_dotdot.induct) auto

lemma safe_name_bar: "CHR ''|'' \<in> set (safe_name s) \<longleftrightarrow> CHR ''|'' \<in> set s"
proof -
  have "CHR ''|'' \<in> set (replace_char bslash CHR ''_'' (replace_char CHR ''/'' CHR ''_'' s)) \<longleftrightarrow> CHR ''|'' \<in> set s"
    by (auto simp: bslash_def)
  then have "CHR ''|'' \<in> set (replace_dotdot (replace_char bslash CHR ''_'' (replace_char CHR ''/'' CHR ''_'' s))) \<longleftrightarrow> CHR ''|'' \<in> set s"
    by (simp only: replace_dotdot_bar)
  then show ?thesis by (auto simp: safe_name_def Let_def)
qed

lemma pad_int_no_bar: "CHR ''|'' \<notin> set (pad_int w i)"
  using show_nat_digits [of "nat i"] by (auto simp: pad_int_def Let_def list_all_iff is_digit_def code_def)

lemma object_key_bar: "CHR ''|'' \<in> set (artifact_object_key now run name) \<longleftrightarrow> CHR ''|'' \<in> set name"
  using safe_name_bar [of name] uuid_str_no_bar [of run]
  by (cases "civil_of_days (now div (86400 * 1000000))") (simp add: artifact_object_key_def Let_def pad_int_no_bar)

section \<open>Upload claims\<close>

lemma verify_own_token:
  assumes "is_uuid run" "CHR ''|'' \<notin> set bucket" "second_range expires_at"
  shows "verify_upload_token hmac key now (sign hmac key UPLOAD_PREFIX (token_payload (uuid_str run) bucket object_key expires_at)) =
    (if CHR ''|'' \<in> set object_key \<or> expires_at div 1000000 * 1000000 < now then None
     else Some \<lparr>up_run_id = run, up_bucket = bucket, up_object_key = object_key, up_expires_at = expires_at div 1000000 * 1000000\<rparr>)"
proof (cases "CHR ''|'' \<in> set object_key")
  case True
  have "\<nexists>a' b' c' e x. split_bars (token_payload (uuid_str run) bucket object_key expires_at) = Some (a', b', c', e) \<and> timestamp_of e = Some x"
    using split_bars_barred [OF _ uuid_str_no_bar assms(2)] True by blast
  then show ?thesis using True by (auto simp: verify_upload_token_def opened_sign split: option.split prod.split)
next
  case False
  then show ?thesis using assms
    by (simp add: verify_upload_token_def opened_sign split_bars_clean uuid_str_no_bar timestamp_of_show uuid_of_uuid_str)
qed

text \<open>Nobody but the manager makes tags: the tag of a token is that of a payload the manager signed.\<close>

definition tag_of_signed :: "mac \<Rightarrow> bytes \<Rightarrow> string \<Rightarrow> string set \<Rightarrow> bool" where
  "tag_of_signed hmac key token signed \<longleftrightarrow>
     (\<forall>pre body tag raw. token = pre @ ''.'' @ body @ ''.'' @ tag \<longrightarrow> b64_url_decode tag = Inr (hmac key raw) \<longrightarrow> raw \<in> utf8_encode ` signed)"

lemma opened_signed:
  assumes "opened hmac key pre token = Some payload" "tag_of_signed hmac key token signed"
  shows "payload \<in> signed"
proof -
  from assms(1) obtain body tag raw where t: "token = pre @ ''.'' @ body @ ''.'' @ tag" "b64_url_decode tag = Inr (hmac key raw)"
    "utf8_decode raw = Some payload" by (rule opened_Some)
  then have "raw \<in> utf8_encode ` signed" using assms(2) unfolding tag_of_signed_def by blast
  then show ?thesis using t(3) by (auto simp: utf8_roundtrip)
qed

lemma verified_claim:
  assumes "verify_upload_token hmac key now token = Some claim" "tag_of_signed hmac key token signed"
  obtains payload run_s e where "payload \<in> signed" "split_bars payload = Some (run_s, up_bucket claim, up_object_key claim, e)"
    "timestamp_of e = Some (up_expires_at claim)" "now \<le> up_expires_at claim"
proof -
  from assms(1) obtain payload run_s e where opn: "opened hmac key UPLOAD_PREFIX token = Some payload"
    and r: "split_bars payload = Some (run_s, up_bucket claim, up_object_key claim, e)" "timestamp_of e = Some (up_expires_at claim)"
      "now \<le> up_expires_at claim"
    by (auto simp: verify_upload_token_def not_less split: option.splits if_splits)
  from opened_signed [OF opn assms(2)] r show thesis by (rule that)
qed

lemma grant_shape:
  assumes "request_artifact_upload us granted db peer run_raw kind name = Inr g"
  shows "\<exists>run. uuid_of_str run_raw = Some run \<and> gr_bucket g \<in> {us_bucket_artifacts us, us_bucket_snapshots us} \<and>
    gr_object_key g = artifact_object_key granted run (if name = [] then ''artifact.bin'' else name) \<and>
    gr_token g = sign (us_hmac us) (us_key us) UPLOAD_PREFIX (token_payload (uuid_str run) (gr_bucket g) (gr_object_key g) (gr_expires_at g))"
  using assms
  by (auto simp: request_artifact_upload_def issue_upload_token_def Let_def artifact_bucket_for_def split: option.splits if_splits)

text \<open>The payloads of upload grants and of terminal sessions.\<close>

definition upload_payload :: "uuid \<times> string \<times> string \<times> datetime \<Rightarrow> string" where
  "upload_payload = (\<lambda>(run, bucket, object_key, expires_at). token_payload (uuid_str run) bucket object_key expires_at)"

definition session_payload :: "uuid \<times> uuid \<times> uuid \<times> datetime \<Rightarrow> string" where
  "session_payload = (\<lambda>(sid, host, user, expires_at). token_payload (uuid_str sid) (uuid_str host) (uuid_str user) expires_at)"

definition plain_buckets :: "upload_settings \<Rightarrow> bool" where
  "plain_buckets us \<longleftrightarrow> (\<forall>b \<in> {us_bucket_artifacts us, us_bucket_snapshots us}. CHR ''|'' \<notin> set b \<and> uuid_of_str b = None)"

lemma session_token_passes_as_upload:
  assumes "is_uuid sid" "second_range (now + seconds SESSION_TTL_SECONDS)" "later \<le> (now + seconds SESSION_TTL_SECONDS) div 1000000 * 1000000"
  shows "\<exists>claim. verify_upload_token hmac key later (reprefix UPLOAD_PREFIX (fst (issue_session_token hmac key now host user sid))) = Some claim \<and>
    up_bucket claim = uuid_str host \<and> up_object_key claim = uuid_str user"
  using assms verify_own_token [OF assms(1) uuid_str_no_bar assms(2), of hmac key later host "uuid_str user"]
  by (simp add: issue_session_token_def reprefix_sign uuid_str_no_bar Let_def)

section \<open>Sessions of the broker\<close>

text \<open>The brokers that WebSockets and their ends lead to, when every tag stems from a signed payload.\<close>

inductive broker_reach :: "mac \<Rightarrow> bytes \<Rightarrow> string set \<Rightarrow> broker \<Rightarrow> bool" for hmac key signed where
  start: "broker_reach hmac key signed []"
| ws: "broker_reach hmac key signed b \<Longrightarrow> tag_of_signed hmac key token signed \<Longrightarrow>
       terminal_websocket hmac key now b host token = Some (Inr b') \<Longrightarrow> broker_reach hmac key signed b'"
| close: "broker_reach hmac key signed b \<Longrightarrow> broker_reach hmac key signed (broker_close b sid)"

definition real_sessions :: "(uuid \<times> uuid \<times> uuid \<times> datetime) set \<Rightarrow> bool" where
  "real_sessions sessions \<longleftrightarrow> (\<forall>(sid, host, user, e) \<in> sessions. is_uuid sid \<and> is_uuid host \<and> is_uuid user)"

definition plain_grants :: "(uuid \<times> string \<times> string \<times> datetime) set \<Rightarrow> bool" where
  "plain_grants grants \<longleftrightarrow> (\<forall>(run, b, k, e) \<in> grants. CHR ''|'' \<notin> set b \<and> uuid_of_str b = None \<and> second_range e)"

lemma verified_session:
  assumes "verify_session_token hmac key now token = Some claim"
    "tag_of_signed hmac key token (upload_payload ` grants \<union> session_payload ` sessions)" "real_sessions sessions" "plain_grants grants"
  shows "\<exists>e. (ts_session_id claim, ts_host_id claim, ts_user_id claim, e) \<in> sessions"
proof -
  from assms(1) obtain payload sid_s host_s user_s x where opn: "opened hmac key SESSION_PREFIX token = Some payload"
    and r: "split_bars payload = Some (sid_s, host_s, user_s, x)" "uuid_of_str sid_s = Some (ts_session_id claim)"
      "uuid_of_str host_s = Some (ts_host_id claim)" "uuid_of_str user_s = Some (ts_user_id claim)"
    by (auto simp: verify_session_token_def split: option.splits if_splits)
  from opened_signed [OF opn assms(2)] show ?thesis
  proof
    assume "payload \<in> upload_payload ` grants"
    then obtain run b k e where gr: "(run, b, k, e) \<in> grants" "payload = token_payload (uuid_str run) b k e"
      by (auto simp: upload_payload_def)
    then have "CHR ''|'' \<notin> set b" "uuid_of_str b = None" using assms(4) by (auto simp: plain_grants_def)
    then have False using r(1,3) by (auto simp: gr(2) split_bars_payload uuid_str_no_bar split: option.splits)
    then show ?thesis ..
  next
    assume "payload \<in> session_payload ` sessions"
    then obtain sid host user e where se: "(sid, host, user, e) \<in> sessions" "payload = token_payload (uuid_str sid) (uuid_str host) (uuid_str user) e"
      by (auto simp: session_payload_def)
    then have "is_uuid sid" "is_uuid host" "is_uuid user" using assms(3) by (auto simp: real_sessions_def)
    then have "ts_session_id claim = sid" "ts_host_id claim = host" "ts_user_id claim = user"
      using r by (auto simp: se(2) split_bars_clean uuid_str_no_bar uuid_of_uuid_str)
    with se(1) show ?thesis by blast
  qed
qed

lemma broker_sessions:
  assumes "broker_reach hmac key (upload_payload ` grants \<union> session_payload ` sessions) b" "real_sessions sessions" "plain_grants grants"
  shows "map_of b sid = Some (host, user) \<Longrightarrow> \<exists>e. (sid, host, user, e) \<in> sessions"
  using assms
proof (induction arbitrary: sid host user rule: broker_reach.induct)
  case (ws b token now h b')
  from ws.hyps(3) obtain claim where v: "verify_session_token hmac key now token = Some claim" "ts_host_id claim = h"
    and b': "b' = (ts_session_id claim, (h, ts_user_id claim)) # b"
    by (auto simp: terminal_websocket_def broker_open_def split: option.splits if_splits)
  show ?case
  proof (cases "sid = ts_session_id claim")
    case True
    then show ?thesis using ws.prems(1) b' v verified_session [OF v(1) ws.hyps(2) ws.prems(2,3)] by auto
  next
    case False
    then show ?thesis using ws.prems ws.IH b' by simp
  qed
next
  case (close b i)
  then show ?case by (cases "sid = i") (auto simp: broker_close_def delete_conv')
qed simp

section \<open>The audit trail\<close>

definition chunk_bytes :: "direction \<Rightarrow> relay_event list \<Rightarrow> nat" where
  "chunk_bytes d evs = sum_list (map (\<lambda>e. case e of Chunk d' data \<Rightarrow> if d' = d then length data else 0 | _ \<Rightarrow> 0) evs)"

definition audited :: "direction \<Rightarrow> relay \<Rightarrow> nat" where
  "audited d s = sum_list (map (\<lambda>(d', n, hex). if d' = d then n else 0) (rl_rows s))"

text \<open>No chunk arrives and no second flush starts while a flush of its direction is under way.\<close>

fun undisturbed :: "relay \<Rightarrow> relay_event list \<Rightarrow> bool" where
  "undisturbed s [] \<longleftrightarrow> True"
| "undisturbed s (e # evs) \<longleftrightarrow>
     (case e of Chunk d _ \<Rightarrow> \<not> rl_flushing s d | Flush_start d \<Rightarrow> \<not> rl_flushing s d | Flush_end d \<Rightarrow> True) \<and> undisturbed (relay_step s e) evs"

definition unaudited :: "direction \<Rightarrow> relay \<Rightarrow> nat" where
  "unaudited d s = (if rl_flushing s d then 0 else ab_bytes_count (rl_batch s d))"

lemma batch_add_count [simp]: "ab_bytes_count (batch_add chunk b) = ab_bytes_count b + length chunk"
  by (simp add: batch_add_def Let_def)

lemma relay_step_accounts:
  assumes "case e of Chunk d _ \<Rightarrow> \<not> rl_flushing s d | Flush_start d \<Rightarrow> \<not> rl_flushing s d | Flush_end d \<Rightarrow> True"
  shows "audited d (relay_step s e) + unaudited d (relay_step s e) = audited d s + unaudited d s + chunk_bytes d [e]"
  using assms by (cases e) (auto simp: audited_def unaudited_def chunk_bytes_def empty_batch_def)

lemma relay_accounts:
  "undisturbed s evs \<Longrightarrow> audited d (relay_run evs s) + unaudited d (relay_run evs s) = audited d s + unaudited d s + chunk_bytes d evs"
proof (induction evs arbitrary: s)
  case (Cons e evs)
  then have "audited d (relay_run evs (relay_step s e)) + unaudited d (relay_run evs (relay_step s e)) =
      audited d (relay_step s e) + unaudited d (relay_step s e) + chunk_bytes d evs" by simp
  moreover have "audited d (relay_step s e) + unaudited d (relay_step s e) = audited d s + unaudited d s + chunk_bytes d [e]"
    using Cons.prems by (intro relay_step_accounts) simp
  moreover have "chunk_bytes d (e # evs) = chunk_bytes d [e] + chunk_bytes d evs" by (simp add: chunk_bytes_def)
  ultimately show ?case by (simp add: relay_run_def)
qed (simp add: relay_run_def chunk_bytes_def)

lemma relay_run_snoc: "relay_run (evs @ es) s = relay_run es (relay_run evs s)"
  by (simp add: relay_run_def)

section \<open>Properties\<close>

text \<open>Settings with a mac that is its own message, and a database with one run on one host.\<close>

definition demo_upload_settings :: upload_settings where
  "demo_upload_settings = \<lparr>us_hmac = (\<lambda>key raw. raw), us_key = ''k'', us_ttl = 600, us_bucket_artifacts = ''artifacts'',
     us_bucket_snapshots = ''snapshots'', us_max_bytes = 1000\<rparr>"

definition demo_upload_job :: Job where
  "demo_upload_job = \<lparr>job_id = 39, job_tenant_id = 1, job_kind = Job_PROCESS_SNAPSHOT, job_parameters = [], job_scope_kind = HOST_IDS,
     job_scope_host_ids = None, job_scope_group_id = None, job_status = JOB_RUNNING, job_summary = [], job_created_by = None,
     job_triggered_by_alert_id = None, job_triggered_by = [], job_canceled_at = None\<rparr>"

definition demo_upload_db :: job_db where
  "demo_upload_db = (demo_jobs_db [] [demo_run RUN_RUNNING])\<lparr>j_jobs := [demo_upload_job]\<rparr>"

lemma demo_buckets: "plain_buckets demo_upload_settings"
  by (simp add: plain_buckets_def demo_upload_settings_def) code_simp

text \<open>A token that the manager signed has no other tag than its own, when the mac has no collisions.\<close>

lemma tag_of_signed_sign:
  assumes "inj (hmac key)" "CHR ''.'' \<notin> set pre"
  shows "tag_of_signed hmac key (sign hmac key pre payload) {payload}"
  unfolding tag_of_signed_def
proof (intro allI impI)
  fix pre' body tag raw
  assume eq: "sign hmac key pre payload = pre' @ ''.'' @ body @ ''.'' @ tag" and tag: "b64_url_decode tag = Inr (hmac key raw)"
  let ?dots = "\<lambda>s. length (filter (\<lambda>c. c = CHR ''.'') s)"
  have none: "?dots s = 0" if "CHR ''.'' \<notin> set s" for s using that by (auto simp: filter_empty_conv)
  have "?dots (sign hmac key pre payload) = 2"
    using assms(2) none b64_url_no_dot by (simp add: sign_def del: length_0_conv)
  then have "?dots pre' = 0" "?dots body = 0" "?dots tag = 0" unfolding eq by auto
  then have "CHR ''.'' \<notin> set pre'" "CHR ''.'' \<notin> set body" "CHR ''.'' \<notin> set tag" by (auto simp: filter_empty_conv)
  then have "split_on CHR ''.'' (pre' @ ''.'' @ body @ ''.'' @ tag) = [pre', body, tag]"
    by (simp add: split_on_append split_on_single)
  moreover have "split_on CHR ''.'' (sign hmac key pre payload) = [pre, b64_url (utf8_encode payload), b64_url (hmac key (utf8_encode payload))]"
    using assms(2) b64_url_no_dot by (simp add: sign_def split_on_append split_on_single)
  ultimately have "tag = b64_url (hmac key (utf8_encode payload))" using eq by simp
  then have "raw = utf8_encode payload" using tag assms(1) by (auto simp: b64_url_roundtrip inj_def)
  then show "raw \<in> utf8_encode ` {payload}" by simp
qed

text \<open>
  A granted upload is accepted. The token, bucket and object key that an agent is granted for a run
  on its host let it store any body up to the size limit until the second in which the grant expires;
  the object is stored under exactly the granted name. The exception is a file name with a bar: its
  token is refused from the start.
\<close>

theorem granted_upload_accepted:
  assumes "request_artifact_upload us granted db peer run_raw kind name = Inr g" "plain_buckets us" "second_range (gr_expires_at g)"
    "now \<le> gr_expires_at g div 1000000 * 1000000" "int (length body) \<le> us_max_bytes us" "put_ok (gr_bucket g) (gr_object_key g)"
  shows "upload_artifact us put_ok now store (gr_token g) (gr_bucket g) (gr_object_key g) (Some (int (length body))) body =
    (if CHR ''|'' \<in> set name then Inl (forbidden ''invalid or expired upload token'')
     else Inr (AList.update (gr_bucket g, gr_object_key g) body store))"
proof -
  from grant_shape [OF assms(1)] obtain run where u: "uuid_of_str run_raw = Some run"
    and b: "gr_bucket g \<in> {us_bucket_artifacts us, us_bucket_snapshots us}"
    and g: "gr_object_key g = artifact_object_key granted run (if name = [] then ''artifact.bin'' else name)"
      "gr_token g = sign (us_hmac us) (us_key us) UPLOAD_PREFIX (token_payload (uuid_str run) (gr_bucket g) (gr_object_key g) (gr_expires_at g))"
    by (elim exE conjE) rule
  from b have "CHR ''|'' \<notin> set (gr_bucket g)" using assms(2) by (auto simp: plain_buckets_def)
  note v = verify_own_token [OF uuid_of_str_is_uuid [OF u] this assms(3), of "us_hmac us" "us_key us" now "gr_object_key g"]
  have "CHR ''|'' \<in> set (gr_object_key g) \<longleftrightarrow> CHR ''|'' \<in> set name" by (simp add: g(1) object_key_bar)
  with v assms(4-6) b show ?thesis by (simp add: upload_artifact_def g(2) not_less)
qed

theorem granted_upload_accepted_witness:
  "\<exists>g. request_artifact_upload demo_upload_settings 0 demo_upload_db (Some (uuid_str 21)) (uuid_str 40) [] ''a.txt'' = Inr g \<and>
     upload_artifact demo_upload_settings (\<lambda>_ _. True) 599000000 [] (gr_token g) (gr_bucket g) (gr_object_key g) (Some 2) ''hi'' =
       Inr [((gr_bucket g, gr_object_key g), ''hi'')]"
proof -
  have "is_uuid 21" "is_uuid 40" by (simp_all add: is_uuid_def)
  then obtain g where g: "request_artifact_upload demo_upload_settings 0 demo_upload_db (Some (uuid_str 21)) (uuid_str 40) [] ''a.txt'' = Inr g"
    and e: "gr_expires_at g = 600000000"
    by (simp add: request_artifact_upload_def uuid_of_uuid_str demo_upload_db_def demo_jobs_db_def demo_run_def demo_upload_job_def
        issue_upload_token_def demo_upload_settings_def seconds_def JOB_ARTIFACT_KINDS_def Let_def)
  have "upload_artifact demo_upload_settings (\<lambda>_ _. True) 599000000 [] (gr_token g) (gr_bucket g) (gr_object_key g) (Some (int (length ''hi''))) ''hi'' =
      Inr (AList.update (gr_bucket g, gr_object_key g) ''hi'' [])"
    using granted_upload_accepted [OF g demo_buckets, of 599000000 "''hi''" "\<lambda>_ _. True" "[]"] e
    by (simp add: second_range_def demo_upload_settings_def)
  with g show ?thesis by auto
qed

text \<open>
  C20: only granted objects are written. Upload grants and terminal sessions are signed with one key and
  the signature does not cover the kind of token; still, if every tag stems from a payload the manager
  signed and the bucket names are not UUIDs, an accepted upload stores the body under the bucket and the
  key of an upload grant that has not expired, and under nothing else.
\<close>

theorem upload_writes_only_granted:
  assumes "upload_artifact us put_ok now store token bucket object_key content_length body = Inr store'" "plain_buckets us"
    "tag_of_signed (us_hmac us) (us_key us) token (upload_payload ` grants \<union> session_payload ` sessions)"
    "\<forall>(run, b, k, e) \<in> grants. CHR ''|'' \<notin> set b \<and> second_range e" "\<forall>(sid, host, user, e) \<in> sessions. is_uuid host"
  shows "store' = AList.update (bucket, object_key) body store \<and> (\<exists>run e. (run, bucket, object_key, e) \<in> grants \<and> now \<le> e)"
proof -
  from assms(1) obtain claim where v: "verify_upload_token (us_hmac us) (us_key us) now token = Some claim"
    and c: "up_bucket claim = bucket" "up_object_key claim = object_key" "bucket \<in> {us_bucket_artifacts us, us_bucket_snapshots us}"
    and st: "store' = AList.update (bucket, object_key) body store"
    by (auto simp: upload_artifact_def split: option.splits if_splits)
  obtain payload run_s x where p: "payload \<in> upload_payload ` grants \<union> session_payload ` sessions"
    "split_bars payload = Some (run_s, bucket, object_key, x)" "timestamp_of x = Some (up_expires_at claim)" "now \<le> up_expires_at claim"
    using verified_claim [OF v assms(3)] c by metis
  from p(1) show ?thesis
  proof
    assume "payload \<in> upload_payload ` grants"
    then obtain run b k e where gr: "(run, b, k, e) \<in> grants" "payload = token_payload (uuid_str run) b k e"
      by (auto simp: upload_payload_def)
    then have ok: "CHR ''|'' \<notin> set b" "second_range e" using assms(4) by auto
    from split_bars_barred [OF p(2) [unfolded gr(2)] uuid_str_no_bar ok(1) p(3)]
    have "bucket = b" "object_key = k" "x = show_int (e div 1000000)" by auto
    moreover have "e div 1000000 * 1000000 \<le> e" by simp
    ultimately have "now \<le> e" using p(3,4) timestamp_of_show [OF ok(2)] by simp
    with gr(1) st \<open>bucket = b\<close> \<open>object_key = k\<close> show ?thesis by blast
  next
    assume "payload \<in> session_payload ` sessions"
    then obtain sid host user e where se: "(sid, host, user, e) \<in> sessions" "payload = token_payload (uuid_str sid) (uuid_str host) (uuid_str user) e"
      by (auto simp: session_payload_def)
    then have "bucket = uuid_str host" using split_bars_clean p(2) uuid_str_no_bar by simp
    moreover have "is_uuid host" using assms(5) se(1) by auto
    ultimately show ?thesis using c(3) assms(2) uuid_of_uuid_str [of host] by (auto simp: plain_buckets_def)
  qed
qed

theorem upload_writes_only_granted_witness:
  "\<exists>store'. upload_artifact demo_upload_settings (\<lambda>_ _. True) 0 [] (fst (issue_upload_token (\<lambda>key raw. raw) ''k'' 600 0 40 ''artifacts'' ''f''))
       ''artifacts'' ''f'' (Some 1) ''x'' = Inr store' \<and> store' = [((''artifacts'', ''f''), ''x'')]"
proof -
  let ?tok = "fst (issue_upload_token (\<lambda>key raw. raw) ''k'' 600 0 40 ''artifacts'' ''f'')"
  have tok: "?tok = sign (\<lambda>key raw. raw) ''k'' UPLOAD_PREFIX (upload_payload (40, ''artifacts'', ''f'', 600000000))"
    by (simp add: issue_upload_token_def upload_payload_def seconds_def Let_def)
  have r: "second_range 600000000" "is_uuid 40" by (simp_all add: second_range_def is_uuid_def)
  have "\<exists>store'. upload_artifact demo_upload_settings (\<lambda>_ _. True) 0 [] ?tok ''artifacts'' ''f'' (Some 1) ''x'' = Inr store'"
    using verify_own_token [OF r(2) _ r(1), of "''artifacts''" "\<lambda>key raw. raw" "''k''" 0 "''f''"]
    by (simp add: tok upload_artifact_def upload_payload_def demo_upload_settings_def)
  then obtain store' where u: "upload_artifact demo_upload_settings (\<lambda>_ _. True) 0 [] ?tok ''artifacts'' ''f'' (Some 1) ''x'' = Inr store'" ..
  have "tag_of_signed (us_hmac demo_upload_settings) (us_key demo_upload_settings) ?tok
      (upload_payload ` {(40, ''artifacts'', ''f'', 600000000)} \<union> session_payload ` {})"
    using tag_of_signed_sign [of "\<lambda>key raw. raw" "''k''" UPLOAD_PREFIX] by (simp add: tok demo_upload_settings_def inj_def)
  from upload_writes_only_granted [OF u demo_buckets this] r(1) u show ?thesis by auto
qed

text \<open>
  An agent joins only sessions opened for its host. However WebSockets come and go, if every tag
  stems from a payload the manager signed, the session that an agent's stream is admitted to was minted
  for the host in the agent's certificate; an upload grant never opens a terminal.
\<close>

theorem terminal_joins_minted_session:
  assumes "broker_reach hmac key (upload_payload ` grants \<union> session_payload ` sessions) b" "real_sessions sessions" "plain_grants grants"
    "terminal_stream b peer first = Inr sid"
  shows "\<exists>host_raw host user e. peer = Some host_raw \<and> uuid_of_str host_raw = Some host \<and> (sid, host, user, e) \<in> sessions"
proof -
  from assms(4) obtain host_raw host user where "peer = Some host_raw" "uuid_of_str host_raw = Some host" "map_of b sid = Some (host, user)"
    by (auto simp: terminal_stream_def split: option.splits terminal_message.splits if_splits)
  with broker_sessions [OF assms(1-3)] show ?thesis by blast
qed

theorem terminal_joins_minted_session_witness:
  "\<exists>b. terminal_websocket (\<lambda>key raw. raw) ''k'' 0 [] 21 (fst (issue_session_token (\<lambda>key raw. raw) ''k'' 0 21 7 9)) = Some (Inr b) \<and>
     terminal_stream b (Some (uuid_str 21)) (Some (Term_open (uuid_str 9) (uuid_str 21))) = Inr 9 \<and>
     (\<exists>host_raw host user e. Some (uuid_str 21) = Some host_raw \<and> uuid_of_str host_raw = Some host \<and> (9, host, user, e) \<in> {(9, 21, 7, 60000000)})"
proof -
  let ?mac = "\<lambda>key raw :: string. raw" and ?b = "[(9, (21, 7))] :: broker"
  let ?tok = "fst (issue_session_token ?mac ''k'' 0 21 7 9)" and ?S = "{(9, 21, 7, 60000000)} :: (uuid \<times> uuid \<times> uuid \<times> datetime) set"
  have tok: "?tok = sign ?mac ''k'' SESSION_PREFIX (session_payload (9, 21, 7, 60000000))"
    by (simp add: issue_session_token_def session_payload_def seconds_def SESSION_TTL_SECONDS_def Let_def)
  have u: "is_uuid 9" "is_uuid 21" "is_uuid 7" "second_range 60000000" by (simp_all add: is_uuid_def second_range_def)
  have ws: "terminal_websocket ?mac ''k'' 0 [] 21 ?tok = Some (Inr ?b)"
    using timestamp_of_show [OF u(4)]
    by (simp add: tok terminal_websocket_def verify_session_token_def opened_sign session_payload_def split_bars_clean uuid_str_no_bar
        uuid_of_uuid_str u broker_open_def)
  have "tag_of_signed ?mac ''k'' ?tok (upload_payload ` {} \<union> session_payload ` ?S)"
    using tag_of_signed_sign [of ?mac "''k''" SESSION_PREFIX] by (simp add: tok inj_def)
  with ws have "broker_reach ?mac ''k'' (upload_payload ` {} \<union> session_payload ` ?S) ?b" by (blast intro: broker_reach.intros)
  moreover have st: "terminal_stream ?b (Some (uuid_str 21)) (Some (Term_open (uuid_str 9) (uuid_str 21))) = Inr 9"
    by (simp add: terminal_stream_def uuid_of_uuid_str u)
  moreover have "real_sessions ?S" "plain_grants {}" by (simp_all add: real_sessions_def plain_grants_def u)
  ultimately show ?thesis using terminal_joins_minted_session ws by blast
qed

text \<open>
  The audit rows of a terminal session account for its bytes. If no chunk arrives and no second
  flush starts while a flush of the same direction is under way, then after the final flush the counts
  of the rows of each direction add up to the bytes relayed in it.
\<close>

theorem terminal_audit_complete:
  assumes "undisturbed relay_start (evs @ [Flush_start d])"
  shows "audited d (relay_run (evs @ [Flush_start d, Flush_end d]) relay_start) = chunk_bytes d evs"
proof -
  let ?s = "relay_run (evs @ [Flush_start d]) relay_start"
  have "audited d ?s + unaudited d ?s = chunk_bytes d (evs @ [Flush_start d])"
    using relay_accounts [OF assms, of d] by (simp add: audited_def unaudited_def relay_start_def empty_batch_def)
  moreover have "unaudited d ?s = 0" by (auto simp: relay_run_def unaudited_def)
  moreover have "audited d (relay_run (evs @ [Flush_start d, Flush_end d]) relay_start) = audited d ?s"
    by (simp add: relay_run_def audited_def)
  ultimately show ?thesis by (simp add: chunk_bytes_def)
qed

theorem terminal_audit_complete_witness:
  "audited Stdin (relay_run ([Chunk Stdin ''ls'', Flush_start Stdin, Chunk Stdout ''a'', Flush_end Stdin, Chunk Stdin ''pwd''] @
     [Flush_start Stdin, Flush_end Stdin]) relay_start) = 5"
  using terminal_audit_complete [of "[Chunk Stdin ''ls'', Flush_start Stdin, Chunk Stdout ''a'', Flush_end Stdin, Chunk Stdin ''pwd'']" Stdin]
  by (simp add: relay_start_def empty_batch_def batch_add_def chunk_bytes_def)

text \<open>
  Without that condition bytes are lost: a chunk that arrives while a flush waits for its commit is
  wiped by the reset and appears in no row.
\<close>

lemma terminal_audit_loses_bytes:
  "audited Stdin (relay_run [Chunk Stdin ''ls'', Flush_start Stdin, Chunk Stdin ''rm'', Flush_end Stdin, Flush_start Stdin, Flush_end Stdin]
     relay_start) = 2"
  by (simp add: relay_run_def relay_start_def empty_batch_def batch_add_def audited_def)

end
