(* ===== verification/Login.thy ===== *)
theory Login
  imports Command_Wire
begin

text \<open>
  Logging in (backend/app/api/auth.py, services/auth.py, services/totp.py): passwords with the throttle
  per e-mail address, the second factor with its enrollment and recovery codes, refresh, and the
  callback of a single sign-on. Argon2, PyJWT, Fernet, pyotp and the identity provider are parameters.
  A request has one database session, committed when the handler returns and rolled back when it
  raises; the rows of failed logins are written through a session of their own, and the throttle lives
  in memory (the Redis variant of the throttle is not modelled).
\<close>

section \<open>Accounts\<close>

record Account = User +
  ac_email :: string
  ac_password_hash :: string
  ac_last_login_at :: "datetime option"
  ac_totp_enabled :: bool
  ac_totp_secret :: "bytes option"
  ac_totp_pending :: "bytes option"
  ac_recovery :: "string list option"
  ac_oidc_subject :: "string option"
  ac_oidc_issuer :: "string option"
  ac_oidc_email :: "string option"

record auth_env =
  ae_argon_verify :: "string \<Rightarrow> string \<Rightarrow> bool result"
  ae_argon_hash :: "nat \<Rightarrow> string \<Rightarrow> string"
  ae_needs_rehash :: "string \<Rightarrow> bool"
  ae_jwt_encode :: "pydict \<Rightarrow> string"
  ae_jwt_decode :: "datetime \<Rightarrow> string \<Rightarrow> jwt_outcome"
  ae_encrypt :: "nat \<Rightarrow> string \<Rightarrow> bytes"
  ae_decrypt :: "bytes \<Rightarrow> string option"
  ae_totp :: "datetime \<Rightarrow> string \<Rightarrow> string \<Rightarrow> bool"
  ae_random :: "nat \<Rightarrow> string"
  ae_access_ttl :: int
  ae_refresh_ttl :: int
  ae_fail_limit :: nat
  ae_fail_window :: int
  ae_oidc_enabled :: bool
  ae_oidc_issuer_url :: string
  ae_oidc_default_role :: string
  ae_exchange_code :: "string \<Rightarrow> string \<Rightarrow> pydict option"
  ae_decode_id_token :: "string \<Rightarrow> pydict option"

record login_state =
  ls_accounts :: "Account list"
  ls_audit :: "audit_request list"
  ls_fails :: "(string \<times> rat list) list"
  ls_next :: uuid

text \<open>What a request reads of the world: the clocks, the client address, and a source of randomness.\<close>

record request_env =
  re_now :: datetime
  re_mono :: rat
  re_ip :: "string option"
  re_seed :: nat

definition get_account :: "login_state \<Rightarrow> uuid \<Rightarrow> Account option" where
  "get_account st i = find (\<lambda>u. u_id u = i) (ls_accounts st)"

definition put_account :: "Account \<Rightarrow> login_state \<Rightarrow> login_state" where
  "put_account u st = st\<lparr>ls_accounts := map (\<lambda>v. if u_id v = u_id u then u else v) (ls_accounts st)\<rparr>"

definition add_audit :: "audit_request \<Rightarrow> login_state \<Rightarrow> login_state" where
  "add_audit rq st = st\<lparr>ls_audit := ls_audit st @ [rq]\<rparr>"

definition user_audit :: "string \<Rightarrow> uuid option \<Rightarrow> pydict option \<Rightarrow> string option \<Rightarrow> audit_request" where
  "user_audit action uid payload ip =
     \<lparr>rq_actor = None, rq_action = action, rq_resource_type = Some ''user'', rq_resource_id = map_option uuid_str uid,
      rq_payload = payload, rq_ip = ip, rq_tenant_id = None\<rparr>"

section \<open>The throttle\<close>

definition fail_bucket :: "(string \<times> rat list) list \<Rightarrow> string \<Rightarrow> rat list" where
  "fail_bucket fails key = (case map_of fails key of None \<Rightarrow> [] | Some b \<Rightarrow> b)"

definition record_login_failure ::
  "nat \<Rightarrow> rat \<Rightarrow> rat \<Rightarrow> string \<Rightarrow> (string \<times> rat list) list \<Rightarrow> (string \<times> rat list) list \<times> bool \<times> int" where
  "record_login_failure limit1 window now key fails =
     (let bucket = dropWhile (\<lambda>t. t < now - window) (fail_bucket fails key) @ [now]
      in (AList.update key bucket fails,
          if length bucket > limit1 then (True, max 1 \<lfloor>hd bucket + window - now\<rfloor>) else (False, 0)))"

definition clear_login_failures :: "string \<Rightarrow> (string \<times> rat list) list \<Rightarrow> (string \<times> rat list) list" where
  "clear_login_failures key fails = AList.delete key fails"

definition is_login_blocked :: "nat \<Rightarrow> rat \<Rightarrow> rat \<Rightarrow> string \<Rightarrow> (string \<times> rat list) list \<Rightarrow> bool" where
  "is_login_blocked limit1 window now key fails =
     (let bucket = fail_bucket fails key in
      if bucket = [] \<or> length bucket < limit1 then False
      else length (filter (\<lambda>t. t \<ge> now - window) bucket) \<ge> limit1)"

definition note_failure :: "auth_env \<Rightarrow> request_env \<Rightarrow> string \<Rightarrow> login_state \<Rightarrow> login_state" where
  "note_failure ae re key st =
     st\<lparr>ls_fails := fst (record_login_failure (ae_fail_limit ae) (rat_of_int (ae_fail_window ae)) (re_mono re) key (ls_fails st))\<rparr>"

section \<open>Passwords and tokens\<close>

datatype auth_outcome = Auth_ok Account | Auth_invalid string "uuid option" | Auth_raises exn

definition authenticate :: "auth_env \<Rightarrow> request_env \<Rightarrow> login_state \<Rightarrow> string \<Rightarrow> string \<Rightarrow> auth_outcome" where
  "authenticate ae re st email password = (case find (\<lambda>u. ac_email u = lower email) (ls_accounts st) of
       None \<Rightarrow> Auth_invalid ''unknown_user'' None
     | Some u \<Rightarrow>
         (if u_disabled u then Auth_invalid ''disabled_user'' (Some (u_id u))
          else (case ae_argon_verify ae (ac_password_hash u) password of
              Inl e \<Rightarrow> Auth_raises e
            | Inr False \<Rightarrow> Auth_invalid ''bad_password'' (Some (u_id u))
            | Inr True \<Rightarrow>
                Auth_ok (u\<lparr>ac_password_hash := (if ae_needs_rehash ae (ac_password_hash u) then ae_argon_hash ae (re_seed re) password
                             else ac_password_hash u), ac_last_login_at := Some (re_now re)\<rparr>))))"

fun role_value :: "UserRole \<Rightarrow> string" where
  "role_value ADMIN = ''admin''"
| "role_value ANALYST = ''analyst''"
| "role_value VIEWER = ''viewer''"

record token_pair =
  tp_access_token :: string
  tp_refresh_token :: string

definition issue_token_pair :: "auth_env \<Rightarrow> datetime \<Rightarrow> Account \<Rightarrow> token_pair" where
  "issue_token_pair ae now u =
     (let claims = (\<lambda>token_type. jwt_claims (ae_access_ttl ae) (ae_refresh_ttl ae) now (u_id u) (role_value (u_role u)) token_type
            (Some (u_tenant_id u)) (u_is_super_admin u))
      in \<lparr>tp_access_token = ae_jwt_encode ae (claims ''access''), tp_refresh_token = ae_jwt_encode ae (claims ''refresh'')\<rparr>)"

definition issue_mfa_pending_jwt :: "auth_env \<Rightarrow> datetime \<Rightarrow> uuid \<Rightarrow> string" where
  "issue_mfa_pending_jwt ae now sub = ae_jwt_encode ae (mfa_pending_claims now sub)"

datatype reply = Tokens token_pair | Mfa_required string | Totp_secret string | Recovery_codes "string list" | Done

type_synonym handler_result = "login_state \<times> reply result"

text \<open>The login request after the throttle let it pass.\<close>

definition login_checked :: "auth_env \<Rightarrow> request_env \<Rightarrow> login_state \<Rightarrow> string \<Rightarrow> string \<Rightarrow> handler_result" where
  "login_checked ae re st email password =
     (let key = lower email in
      case authenticate ae re st email password of
        Auth_raises e \<Rightarrow> (st, Inl e)
      | Auth_invalid reason uid \<Rightarrow>
          (note_failure ae re key
             (add_audit (user_audit ''user.login.failed'' uid (Some [(''email'', PStr key), (''reason'', PStr reason)]) (re_ip re)) st),
           Inl (unauthorized ''invalid credentials''))
      | Auth_ok u \<Rightarrow>
          (let st = put_account u (st\<lparr>ls_fails := clear_login_failures key (ls_fails st)\<rparr>) in
           if ac_totp_enabled u
           then (add_audit (user_audit ''user.login.password_ok_mfa_required'' (Some (u_id u)) None (re_ip re)) st,
                 Inr (Mfa_required (issue_mfa_pending_jwt ae (re_now re) (u_id u))))
           else (add_audit (user_audit ''user.login'' (Some (u_id u)) None (re_ip re)) st, Inr (Tokens (issue_token_pair ae (re_now re) u)))))"

definition login :: "auth_env \<Rightarrow> request_env \<Rightarrow> login_state \<Rightarrow> string \<Rightarrow> string \<Rightarrow> handler_result" where
  "login ae re st email password =
     (if is_login_blocked (ae_fail_limit ae) (rat_of_int (ae_fail_window ae)) (re_mono re) (lower email) (ls_fails st)
      then (add_audit (user_audit ''user.login.throttled'' None
              (Some [(''email'', PStr (lower email)), (''window_s'', PInt (ae_fail_window ae))]) (re_ip re)) st,
            Inl (HTTPError 429 ''too many failed login attempts; try again later''))
      else login_checked ae re st email password)"

text \<open>The account a decoded token of the given type names, as the two endpoints that take such a token ask for it.\<close>

definition token_name :: "string \<Rightarrow> string" where
  "token_name token_type = (if token_type = ''refresh'' then ''refresh'' else ''mfa'')"

definition token_account :: "auth_env \<Rightarrow> datetime \<Rightarrow> login_state \<Rightarrow> string \<Rightarrow> string \<Rightarrow> Account option result" where
  "token_account ae now st token_type token = (case ae_jwt_decode ae now token of
       Jwt_expired \<Rightarrow> Inl (unauthorized (token_name token_type @ '' token expired''))
     | Jwt_invalid \<Rightarrow> Inl (unauthorized (''invalid '' @ token_name token_type @ '' token''))
     | Jwt_claims decoded \<Rightarrow>
         (if dget decoded ''type'' \<noteq> PStr token_type
          then Inl (unauthorized ((if token_type = ''refresh'' then ''not a '' else ''not an '') @ token_name token_type @ '' token''))
          else bindE (case map_of decoded ''sub'' of None \<Rightarrow> Inl KeyError | Some v \<Rightarrow> uuid_of_val v) (\<lambda>sub. Inr (get_account st sub))))"

definition refresh :: "auth_env \<Rightarrow> request_env \<Rightarrow> login_state \<Rightarrow> string option \<Rightarrow> string option \<Rightarrow> handler_result" where
  "refresh ae re st body cookie =
     (let token = (case body of Some (c # s) \<Rightarrow> c # s | _ \<Rightarrow> (case cookie of Some s \<Rightarrow> s | None \<Rightarrow> [])) in
      if token = [] then (st, Inl (unauthorized ''missing refresh token''))
      else (case token_account ae (re_now re) st ''refresh'' token of
          Inl e \<Rightarrow> (st, Inl e)
        | Inr None \<Rightarrow> (st, Inl (unauthorized ''user inactive''))
        | Inr (Some u) \<Rightarrow>
            (if u_disabled u then (st, Inl (unauthorized ''user inactive''))
             else (st, Inr (Tokens (issue_token_pair ae (re_now re) u))))))"

section \<open>The second factor\<close>

definition verify_code :: "auth_env \<Rightarrow> datetime \<Rightarrow> string \<Rightarrow> string \<Rightarrow> bool" where
  "verify_code ae now secret code1 \<longleftrightarrow> str_isdigit (strip code1) \<and> ae_totp ae now secret (strip code1)"

definition normal_code :: "string \<Rightarrow> string result" where
  "normal_code candidate = bindE (upper_str (strip candidate)) (\<lambda>s. Inr (filter (\<lambda>c. c \<noteq> CHR '' '' \<and> c \<noteq> CHR ''-'') s))"

fun first_true :: "bool list \<Rightarrow> nat option" where
  "first_true [] = None"
| "first_true (b # bs) = (if b then Some 0 else map_option Suc (first_true bs))"

definition consume_recovery_code :: "auth_env \<Rightarrow> string list \<Rightarrow> string \<Rightarrow> string list option result" where
  "consume_recovery_code ae hashed_codes candidate =
     bindE (normal_code candidate) (\<lambda>candidate.
       if candidate = [] then Inr None
       else bindE (mapE (\<lambda>h. ae_argon_verify ae h candidate) hashed_codes) (\<lambda>hits.
         Inr (map_option (\<lambda>i. take i hashed_codes @ drop (Suc i) hashed_codes) (first_true hits))))"

text \<open>The account and the audit rows after trying a code; \<open>None\<close> when it was not accepted.\<close>

definition consume_2fa_code :: "auth_env \<Rightarrow> datetime \<Rightarrow> Account \<Rightarrow> string \<Rightarrow> (Account \<times> audit_request list) option result" where
  "consume_2fa_code ae now u code1 = (case ac_totp_secret u of
       None \<Rightarrow> Inr None
     | Some blob \<Rightarrow> (case ae_decrypt ae blob of
         None \<Rightarrow> Inl RuntimeError
       | Some secret \<Rightarrow>
           (if verify_code ae now secret code1 then Inr (Some (u, []))
            else bindE (consume_recovery_code ae (case ac_recovery u of None \<Rightarrow> [] | Some hs \<Rightarrow> hs) code1) (\<lambda>remaining.
              Inr (map_option (\<lambda>hs. (u\<lparr>ac_recovery := Some hs\<rparr>,
                [user_audit ''user.2fa.recovery_used'' (Some (u_id u)) (Some [(''remaining'', PInt (int (length hs)))]) None])) remaining)))))"

definition add_audits :: "audit_request list \<Rightarrow> login_state \<Rightarrow> login_state" where
  "add_audits rqs st = st\<lparr>ls_audit := ls_audit st @ rqs\<rparr>"

text \<open>
  The second step of a login. The row about a refused code is written through the request's own session,
  which the refusal rolls back.
\<close>

definition login_2fa :: "auth_env \<Rightarrow> request_env \<Rightarrow> login_state \<Rightarrow> string \<Rightarrow> string \<Rightarrow> handler_result" where
  "login_2fa ae re st mfa_token code1 = (case token_account ae (re_now re) st ''mfa_pending'' mfa_token of
       Inl e \<Rightarrow> (st, Inl e)
     | Inr None \<Rightarrow> (st, Inl (unauthorized ''user inactive or 2fa not enabled''))
     | Inr (Some u) \<Rightarrow>
         (if u_disabled u \<or> \<not> ac_totp_enabled u then (st, Inl (unauthorized ''user inactive or 2fa not enabled''))
          else (case consume_2fa_code ae (re_now re) u code1 of
              Inl e \<Rightarrow> (st, Inl e)
            | Inr None \<Rightarrow> (note_failure ae re (lower (ac_email u)) st, Inl (unauthorized ''invalid 2fa code''))
            | Inr (Some (u', rqs)) \<Rightarrow>
                (add_audits (rqs @ [user_audit ''user.login'' (Some (u_id u)) (Some [(''via'', PStr ''totp'')]) (re_ip re)]) (put_account u' st),
                 Inr (Tokens (issue_token_pair ae (re_now re) u'))))))"

text \<open>The account of an actor; an API token is no interactive user.\<close>

definition interactive_user :: "login_state \<Rightarrow> Actor \<Rightarrow> Account result" where
  "interactive_user st actor =
     (if actor_kind actor \<noteq> ''user'' then Inl (unauthorized ''2fa endpoints require an interactive user session'')
      else (case get_account st (u_id (actor_user actor)) of None \<Rightarrow> Inl RuntimeError | Some u \<Rightarrow> Inr u))"

definition actor_audit :: "Actor \<Rightarrow> string \<Rightarrow> uuid \<Rightarrow> audit_request" where
  "actor_audit actor action uid = (user_audit action (Some uid) None None)\<lparr>rq_actor := Some actor\<rparr>"

definition totp_setup :: "auth_env \<Rightarrow> request_env \<Rightarrow> login_state \<Rightarrow> Actor \<Rightarrow> handler_result" where
  "totp_setup ae re st actor = (case interactive_user st actor of
       Inl e \<Rightarrow> (st, Inl e)
     | Inr u \<Rightarrow>
         (if ac_totp_enabled u then (st, Inl (bad_request ''2fa already enabled; disable first to re-enroll''))
          else (let secret = ae_random ae (re_seed re) in
            (add_audit (actor_audit actor ''user.2fa.setup_started'' (u_id u))
               (put_account (u\<lparr>ac_totp_pending := Some (ae_encrypt ae (re_seed re) secret)\<rparr>) st),
             Inr (Totp_secret secret)))))"

definition RECOVERY_CODE_COUNT :: nat where
  "RECOVERY_CODE_COUNT = 10"

definition generate_recovery_codes :: "auth_env \<Rightarrow> nat \<Rightarrow> string list \<times> string list" where
  "generate_recovery_codes ae seed =
     (let plaintext = map (\<lambda>i. ae_random ae (seed + i)) [0..<RECOVERY_CODE_COUNT]
      in (plaintext, map (\<lambda>(i, c). ae_argon_hash ae (seed + i) c) (enumerate 0 plaintext)))"

definition totp_verify_setup :: "auth_env \<Rightarrow> request_env \<Rightarrow> login_state \<Rightarrow> Actor \<Rightarrow> string \<Rightarrow> handler_result" where
  "totp_verify_setup ae re st actor code1 = (case interactive_user st actor of
       Inl e \<Rightarrow> (st, Inl e)
     | Inr u \<Rightarrow>
         (if ac_totp_enabled u then (st, Inl (bad_request ''2fa already enabled''))
          else (case ac_totp_pending u of
              None \<Rightarrow> (st, Inl (bad_request ''no pending 2fa enrollment; call /2fa/setup first''))
            | Some blob \<Rightarrow> (case ae_decrypt ae blob of
                None \<Rightarrow> (st, Inl RuntimeError)
              | Some secret \<Rightarrow>
                  (if \<not> verify_code ae (re_now re) secret code1 then (st, Inl (bad_request ''code did not match''))
                   else (case generate_recovery_codes ae (re_seed re) of
                       (plaintext, hashed) \<Rightarrow>
                         (add_audit (actor_audit actor ''user.2fa.enabled'' (u_id u))
                            (put_account (u\<lparr>ac_totp_secret := Some blob, ac_totp_pending := None, ac_totp_enabled := True,
                                            ac_recovery := Some hashed\<rparr>) st),
                          Inr (Recovery_codes plaintext))))))))"

definition totp_disable :: "auth_env \<Rightarrow> request_env \<Rightarrow> login_state \<Rightarrow> Actor \<Rightarrow> string \<Rightarrow> handler_result" where
  "totp_disable ae re st actor code1 = (case interactive_user st actor of
       Inl e \<Rightarrow> (st, Inl e)
     | Inr u \<Rightarrow>
         (if \<not> ac_totp_enabled u then (st, Inl (bad_request ''2fa is not enabled on this account''))
          else (case consume_2fa_code ae (re_now re) u code1 of
              Inl e \<Rightarrow> (st, Inl e)
            | Inr None \<Rightarrow> (st, Inl (unauthorized ''invalid 2fa code''))
            | Inr (Some (u', rqs)) \<Rightarrow>
                (add_audits (rqs @ [actor_audit actor ''user.2fa.disabled'' (u_id u)])
                   (put_account (u'\<lparr>ac_totp_enabled := False, ac_totp_secret := None, ac_totp_pending := None, ac_recovery := None\<rparr>) st),
                 Inr Done))))"

section \<open>Single sign-on\<close>

definition resolve_default_role :: "string \<Rightarrow> UserRole" where
  "resolve_default_role configured =
     (let name = lower (if configured = [] then ''viewer'' else configured) in
      case find (\<lambda>r. role_value r = name) [ADMIN, ANALYST, VIEWER] of Some r \<Rightarrow> r | None \<Rightarrow> VIEWER)"

definition new_oidc_user :: "auth_env \<Rightarrow> request_env \<Rightarrow> login_state \<Rightarrow> string \<Rightarrow> string \<Rightarrow> string \<Rightarrow> Account" where
  "new_oidc_user ae re st sub issuer email =
     \<lparr>u_id = ls_next st, u_tenant_id = DEFAULT_TENANT_ID, u_role = resolve_default_role (ae_oidc_default_role ae), u_disabled = False,
      u_is_super_admin = False, ac_email = (if email = [] then ''oidc-'' @ take 12 sub @ ''@unknown.local'' else email),
      ac_password_hash = ae_argon_hash ae (re_seed re) (ae_random ae (re_seed re)), ac_last_login_at = None, ac_totp_enabled = False,
      ac_totp_secret = None, ac_totp_pending = None, ac_recovery = None, ac_oidc_subject = Some sub, ac_oidc_issuer = Some issuer,
      ac_oidc_email = (if email = [] then None else Some email)\<rparr>"

definition provision_or_match_oidc_user ::
  "auth_env \<Rightarrow> request_env \<Rightarrow> login_state \<Rightarrow> pydict \<Rightarrow> (login_state \<times> Account) result" where
  "provision_or_match_oidc_user ae re st claims =
     bindE (case map_of claims ''sub'' of None \<Rightarrow> Inl KeyError | Some (PStr s) \<Rightarrow> Inr s | Some _ \<Rightarrow> Inl TypeError) (\<lambda>sub.
     bindE (case py_or (dget claims ''email'') (PStr []) of PStr s \<Rightarrow> Inr (lower s) | _ \<Rightarrow> Inl AttributeError) (\<lambda>email.
       let issuer = (case py_or (dget claims ''iss'') (PStr []) of PStr (c # s) \<Rightarrow> c # s | _ \<Rightarrow> ae_oidc_issuer_url ae) in
       case find (\<lambda>u. ac_oidc_subject u = Some sub) (ls_accounts st) of
         Some u \<Rightarrow>
           (let u = (if email \<noteq> [] \<and> ac_oidc_email u \<noteq> Some email then u\<lparr>ac_oidc_email := Some email\<rparr> else u)
            in Inr (put_account u st, u))
       | None \<Rightarrow>
           (case (if email = [] then None else find (\<lambda>u. ac_email u = email) (ls_accounts st)) of
              Some u \<Rightarrow>
                (let u = u\<lparr>ac_oidc_subject := Some sub, ac_oidc_issuer := Some issuer, ac_oidc_email := Some email\<rparr> in
                 Inr (add_audit (user_audit ''user.oidc_link'' (Some (u_id u)) (Some [(''issuer'', PStr issuer), (''email'', PStr email)]) (re_ip re))
                        (put_account u st), u))
            | None \<Rightarrow>
                (let u = new_oidc_user ae re st sub issuer email in
                 Inr (add_audit (user_audit ''user.provision'' (Some (u_id u))
                          (Some [(''issuer'', PStr issuer), (''email'', PStr email), (''role'', PStr (role_value (u_role u)))]) (re_ip re))
                        (st\<lparr>ls_accounts := ls_accounts st @ [u], ls_next := ls_next st + 1\<rparr>), u)))))"

text \<open>The claims of an ID token whose signature, issuer, audience and expiry PyJWT accepts, and whose nonce is ours.\<close>

definition validate_id_token :: "auth_env \<Rightarrow> string \<Rightarrow> string \<Rightarrow> pydict option" where
  "validate_id_token ae id_token expected_nonce = (case ae_decode_id_token ae id_token of
       None \<Rightarrow> None
     | Some claims \<Rightarrow> (if dget claims ''nonce'' \<noteq> PStr expected_nonce then None else Some claims))"

definition oidc_callback ::
  "auth_env \<Rightarrow> request_env \<Rightarrow> login_state \<Rightarrow> string option \<Rightarrow> string option \<Rightarrow> string option \<Rightarrow> handler_result" where
  "oidc_callback ae re st code1 state cookie =
     (if \<not> ae_oidc_enabled ae then (st, Inl (bad_request ''oidc is not enabled''))
      else (case (code1, state) of
          (Some (c # cs), Some (d # ds)) \<Rightarrow>
            (case cookie of
               Some (k # ks) \<Rightarrow>
                 (case split_on CHR ''.'' (k # ks) of
                    [cookie_state, cookie_nonce, code_verifier] \<Rightarrow>
                      (if d # ds \<noteq> cookie_state then (st, Inl (unauthorized ''oidc state mismatch''))
                       else (case ae_exchange_code ae (c # cs) code_verifier of
                           None \<Rightarrow> (st, Inl (unauthorized ''oidc code exchange failed''))
                         | Some resp \<Rightarrow>
                             (case dget resp ''id_token'' of
                                PStr (i # ts) \<Rightarrow>
                                  (case validate_id_token ae (i # ts) cookie_nonce of
                                     None \<Rightarrow> (st, Inl (unauthorized ''oidc id_token invalid''))
                                   | Some claims \<Rightarrow>
                                       (case provision_or_match_oidc_user ae re st claims of
                                          Inl e \<Rightarrow> (st, Inl e)
                                        | Inr (st1, u) \<Rightarrow>
                                            (if u_disabled u then (st, Inl (unauthorized ''user inactive''))
                                             else if ac_totp_enabled u
                                             then (add_audit (user_audit ''user.login.oidc_ok_mfa_required'' (Some (u_id u))
                                                      (Some [(''method'', PStr ''oidc'')]) (re_ip re)) st1,
                                                   Inr (Mfa_required (issue_mfa_pending_jwt ae (re_now re) (u_id u))))
                                             else (add_audit (user_audit ''user.login'' (Some (u_id u)) (Some [(''method'', PStr ''oidc'')]) (re_ip re)) st1,
                                                   Inr (Tokens (issue_token_pair ae (re_now re) u))))))
                              | _ \<Rightarrow> (st, Inl (unauthorized ''oidc response missing id_token'')))))
                  | _ \<Rightarrow> (st, Inl (unauthorized ''oidc state cookie malformed'')))
             | _ \<Rightarrow> (st, Inl (unauthorized ''oidc state cookie missing'')))
        | _ \<Rightarrow> (st, Inl (bad_request ''missing code or state on oidc callback''))))"

section \<open>All requests\<close>

datatype auth_request =
    Login string string
  | Refresh "string option" "string option"
  | Login_2fa string string
  | Totp_setup Actor
  | Totp_verify_setup Actor string
  | Totp_disable Actor string
  | Oidc_callback "string option" "string option" "string option"

fun handle :: "auth_env \<Rightarrow> request_env \<Rightarrow> login_state \<Rightarrow> auth_request \<Rightarrow> handler_result" where
  "handle ae re st (Login email password) = login ae re st email password"
| "handle ae re st (Refresh body cookie) = refresh ae re st body cookie"
| "handle ae re st (Login_2fa mfa_token code1) = login_2fa ae re st mfa_token code1"
| "handle ae re st (Totp_setup actor) = totp_setup ae re st actor"
| "handle ae re st (Totp_verify_setup actor code1) = totp_verify_setup ae re st actor code1"
| "handle ae re st (Totp_disable actor code1) = totp_disable ae re st actor code1"
| "handle ae re st (Oidc_callback code1 state cookie) = oidc_callback ae re st code1 state cookie"

definition handle_all :: "auth_env \<Rightarrow> login_state \<Rightarrow> (request_env \<times> auth_request) list \<Rightarrow> login_state" where
  "handle_all ae st reqs = foldl (\<lambda>st (re, rq). fst (handle ae re st rq)) st reqs"

end
