(* ===== verification/Login_Correct.thy ===== *)
theory Login_Correct
  imports Login Jobs_Correct
begin

text \<open>
  Correctness of logging in: what every issued token pair rests on, the columns of the second factor,
  that a recovery code works once, and the throttle against the history of failures.
\<close>

section \<open>What the requests do to an account\<close>

text \<open>
  A property of accounts that every edit but the end of an enrollment keeps: a login, a spent recovery
  code, the start of an enrollment, its removal, and the columns of the single sign-on.
\<close>

locale account_inv =
  fixes P :: "Account \<Rightarrow> bool"
  assumes logged_in: "P u \<Longrightarrow> P (u\<lparr>ac_password_hash := h, ac_last_login_at := t\<rparr>)"
    and spent: "P u \<Longrightarrow> ac_recovery u = Some hs \<Longrightarrow> set hs' \<subseteq> set hs \<Longrightarrow> P (u\<lparr>ac_recovery := Some hs'\<rparr>)"
    and started: "P u \<Longrightarrow> P (u\<lparr>ac_totp_pending := b\<rparr>)"
    and removed: "P u \<Longrightarrow> P (u\<lparr>ac_totp_enabled := False, ac_totp_secret := None, ac_totp_pending := None, ac_recovery := None\<rparr>)"
    and linked: "P u \<Longrightarrow> P (u\<lparr>ac_oidc_subject := s, ac_oidc_issuer := i, ac_oidc_email := e\<rparr>)"
    and renamed: "P u \<Longrightarrow> P (u\<lparr>ac_oidc_email := e\<rparr>)"
    and fresh: "P (new_oidc_user ae re st sub issuer email)"

lemma set_accounts_put: "v \<in> set (ls_accounts (put_account u st)) \<Longrightarrow> v = u \<or> v \<in> set (ls_accounts st)"
  by (auto simp: put_account_def)

lemma account_simps [simp]:
  "ls_accounts (add_audit rq st) = ls_accounts st" "ls_accounts (add_audits rqs st) = ls_accounts st"
  "ls_accounts (note_failure ae re key st) = ls_accounts st" "ls_next (add_audit rq st) = ls_next st"
  "ls_next (add_audits rqs st) = ls_next st" "ls_next (note_failure ae re key st) = ls_next st" "ls_next (put_account u st) = ls_next st"
  "map u_id (ls_accounts (put_account u st)) = map u_id (ls_accounts st)"
  "ls_accounts (put_account u (st\<lparr>ls_fails := fs\<rparr>)) = ls_accounts (put_account u st)"
  by (auto simp: add_audit_def add_audits_def note_failure_def put_account_def)

lemma get_account_in: "get_account st i = Some u \<Longrightarrow> u \<in> set (ls_accounts st) \<and> u_id u = i"
  by (auto simp: get_account_def dest!: find_SomeD)

lemma interactive_user_in: "interactive_user st actor = Inr u \<Longrightarrow> u \<in> set (ls_accounts st) \<and> u_id u = u_id (actor_user actor)"
  by (auto simp: interactive_user_def get_account_in split: if_splits option.splits)

lemma token_account_in: "token_account ae now st ty token = Inr (Some u) \<Longrightarrow> u \<in> set (ls_accounts st)"
  by (auto simp: token_account_def bindE_eq_Inr get_account_in split: jwt_outcome.splits if_splits)

lemma authenticate_ok:
  assumes "authenticate ae re st email password = Auth_ok u"
  obtains v h t where "v \<in> set (ls_accounts st)" "u = v\<lparr>ac_password_hash := h, ac_last_login_at := t\<rparr>" "\<not> u_disabled v"
    "ac_email v = lower email" "ae_argon_verify ae (ac_password_hash v) password = Inr True"
proof (cases "find (\<lambda>u. ac_email u = lower email) (ls_accounts st)")
  case None
  then show ?thesis using assms by (simp add: authenticate_def)
next
  case (Some v)
  from find_SomeD [OF Some] have "v \<in> set (ls_accounts st)" "ac_email v = lower email" by auto
  moreover from assms Some have "\<not> u_disabled v" "ae_argon_verify ae (ac_password_hash v) password = Inr True"
    "u = v\<lparr>ac_password_hash := (if ae_needs_rehash ae (ac_password_hash v) then ae_argon_hash ae (re_seed re) password else ac_password_hash v),
       ac_last_login_at := Some (re_now re)\<rparr>"
    by (auto simp: authenticate_def split: if_splits sum.splits bool.splits)
  ultimately show ?thesis by (intro that)
qed

lemma first_true_Some: "first_true bs = Some i \<Longrightarrow> i < length bs \<and> bs ! i"
  by (induction bs arbitrary: i) (auto split: if_splits)

lemma first_true_None: "first_true bs = None \<longleftrightarrow> True \<notin> set bs"
  by (induction bs) auto

lemma mapE_nth: "mapE f xs = Inr ys \<Longrightarrow> i < length xs \<Longrightarrow> f (xs ! i) = Inr (ys ! i)"
proof (induction xs arbitrary: ys i)
  case (Cons x xs)
  then show ?case by (cases i) (auto simp: bindE_eq_Inr)
qed simp

text \<open>What accepting a code means.\<close>

definition code_accepted :: "auth_env \<Rightarrow> datetime \<Rightarrow> Account \<Rightarrow> string \<Rightarrow> bool" where
  "code_accepted ae now u code1 \<longleftrightarrow> (\<exists>blob secret. ac_totp_secret u = Some blob \<and> ae_decrypt ae blob = Some secret \<and>
     (verify_code ae now secret code1 \<or>
      (\<exists>hs h c. ac_recovery u = Some hs \<and> h \<in> set hs \<and> normal_code code1 = Inr c \<and> ae_argon_verify ae h c = Inr True)))"

lemma consume_recovery_Some:
  assumes "consume_recovery_code ae hs code1 = Inr (Some hs')"
  obtains i c where "i < length hs" "hs' = take i hs @ drop (Suc i) hs" "normal_code code1 = Inr c" "ae_argon_verify ae (hs ! i) c = Inr True"
proof -
  from assms obtain c hits i where c: "normal_code code1 = Inr c" "mapE (\<lambda>h. ae_argon_verify ae h c) hs = Inr hits"
    "first_true hits = Some i" "hs' = take i hs @ drop (Suc i) hs"
    by (auto simp: consume_recovery_code_def bindE_eq_Inr split: if_splits)
  then have "i < length hs" "hits ! i" using first_true_Some [OF c(3)] mapE_Inr_length [OF c(2)] by auto
  with c that mapE_nth [OF c(2), of i] show thesis by simp
qed

lemma consume_2fa_Some:
  assumes "consume_2fa_code ae now u code1 = Inr (Some (u', rqs))"
  shows "code_accepted ae now u code1 \<and> (u' = u \<or> (\<exists>hs hs'. ac_recovery u = Some hs \<and> set hs' \<subseteq> set hs \<and> u' = u\<lparr>ac_recovery := Some hs'\<rparr>))"
proof -
  from assms obtain blob secret where s: "ac_totp_secret u = Some blob" "ae_decrypt ae blob = Some secret"
    by (auto simp: consume_2fa_code_def split: option.splits)
  show ?thesis
  proof (cases "verify_code ae now secret code1")
    case True
    with assms s show ?thesis by (auto simp: consume_2fa_code_def code_accepted_def)
  next
    case False
    let ?hs = "case ac_recovery u of None \<Rightarrow> [] | Some hs \<Rightarrow> hs"
    from assms s False obtain hs' where r: "consume_recovery_code ae ?hs code1 = Inr (Some hs')" "u' = u\<lparr>ac_recovery := Some hs'\<rparr>"
      by (auto simp: consume_2fa_code_def bindE_eq_Inr)
    obtain i c where i: "i < length ?hs" "hs' = take i ?hs @ drop (Suc i) ?hs" "normal_code code1 = Inr c" "ae_argon_verify ae (?hs ! i) c = Inr True"
      using consume_recovery_Some [OF r(1)] .
    then obtain hs where hs: "ac_recovery u = Some hs" "?hs = hs" by (cases "ac_recovery u") auto
    have "set hs' \<subseteq> set hs" using i(2) hs(2) by (auto dest: in_set_takeD in_set_dropD)
    moreover have "hs ! i \<in> set hs" using i(1) hs by simp
    ultimately show ?thesis using s i(3,4) hs r(2) unfolding code_accepted_def by blast
  qed
qed

text \<open>The three ways to find the account of a single sign-on.\<close>

lemma provision_cases [consumes 1, case_names matched linked added]:
  assumes "provision_or_match_oidc_user ae re st claims = Inr (st', u)"
  obtains v e where "v \<in> set (ls_accounts st)" "u = v \<or> u = v\<lparr>ac_oidc_email := e\<rparr>" "ls_accounts st' = ls_accounts (put_account u st)" "ls_next st' = ls_next st"
  | v s i e where "v \<in> set (ls_accounts st)" "u = v\<lparr>ac_oidc_subject := s, ac_oidc_issuer := i, ac_oidc_email := e\<rparr>"
      "ls_accounts st' = ls_accounts (put_account u st)" "ls_next st' = ls_next st"
  | sub issuer email where "u = new_oidc_user ae re st sub issuer email" "ls_accounts st' = ls_accounts st @ [u]" "ls_next st' = ls_next st + 1"
proof -
  from assms obtain sub email where claims:
      "(case map_of claims ''sub'' of None \<Rightarrow> Inl KeyError | Some (PStr s) \<Rightarrow> Inr s | Some _ \<Rightarrow> Inl TypeError) = Inr sub"
      "(case py_or (dget claims ''email'') (PStr []) of PStr s \<Rightarrow> Inr (lower s) | _ \<Rightarrow> Inl AttributeError) = Inr email"
    unfolding provision_or_match_oidc_user_def bindE_eq_Inr by blast
  note step = assms [unfolded provision_or_match_oidc_user_def claims bindE_simps Let_def]
  show thesis
  proof (cases "find (\<lambda>u. ac_oidc_subject u = Some sub) (ls_accounts st)")
    case (Some v)
    then have "v \<in> set (ls_accounts st)" using find_SomeD by metis
    moreover from step Some have "u = v \<or> u = v\<lparr>ac_oidc_email := Some email\<rparr>" "st' = put_account u st" by (auto split: if_splits)
    ultimately show thesis by (intro that(1)) auto
  next
    case none: None
    show thesis
    proof (cases "if email = [] then None else find (\<lambda>u. ac_email u = email) (ls_accounts st)")
      case (Some v)
      then have "v \<in> set (ls_accounts st)" using find_SomeD by (metis option.distinct(1))
      then show thesis using step none Some by (intro that(2)) auto
    next
      case None
      then show thesis using step none by (intro that(3)) auto
    qed
  qed
qed

context account_inv
begin

lemma put_keeps: "\<forall>u \<in> set (ls_accounts st). P u \<Longrightarrow> P u \<Longrightarrow> v \<in> set (ls_accounts (put_account u st)) \<Longrightarrow> P v"
  using set_accounts_put by blast

lemma consumed: "P u \<Longrightarrow> consume_2fa_code ae now u code1 = Inr (Some (u', rqs)) \<Longrightarrow> P u'"
  using consume_2fa_Some [of ae now u code1 u' rqs] spent by auto

lemma provisioned:
  assumes "\<forall>u \<in> set (ls_accounts st). P u" "provision_or_match_oidc_user ae re st claims = Inr (st', u)"
  shows "\<forall>v \<in> set (ls_accounts st'). P v"
  using assms(2)
proof (cases rule: provision_cases)
  case (matched v e)
  then show ?thesis using assms(1) put_keeps renamed by metis
next
  case (linked v a b c)
  then show ?thesis using assms(1) put_keeps account_inv.linked [OF account_inv_axioms] by metis
next
  case (added sub issuer email)
  then show ?thesis using assms(1) fresh by auto
qed

lemma login_keeps:
  assumes "\<forall>u \<in> set (ls_accounts st). P u" "v \<in> set (ls_accounts (fst (login ae re st email password)))"
  shows "P v"
proof (cases "is_login_blocked (ae_fail_limit ae) (rat_of_int (ae_fail_window ae)) (re_mono re) (lower email) (ls_fails st)")
  case True
  then show ?thesis using assms by (simp add: login_def)
next
  case False
  show ?thesis
  proof (cases "authenticate ae re st email password")
    case (Auth_ok u)
    obtain w h t where w: "w \<in> set (ls_accounts st)" "u = w\<lparr>ac_password_hash := h, ac_last_login_at := t\<rparr>" using authenticate_ok [OF Auth_ok] .
    then have "P u" using assms(1) logged_in by simp
    moreover have "v \<in> set (ls_accounts (put_account u st))" using False Auth_ok assms(2) by (simp add: login_def login_checked_def Let_def split: if_splits)
    ultimately show ?thesis using put_keeps assms(1) by blast
  qed (use False assms in \<open>auto simp: login_def login_checked_def Let_def\<close>)
qed

lemma login_2fa_keeps:
  assumes "\<forall>u \<in> set (ls_accounts st). P u" "v \<in> set (ls_accounts (fst (login_2fa ae re st mfa_token code1)))"
  shows "P v"
proof (cases "token_account ae (re_now re) st ''mfa_pending'' mfa_token")
  case (Inr o1)
  show ?thesis
  proof (cases o1)
    case (Some u)
    then have "P u" using assms(1) token_account_in Inr by metis
    then have "P u'" if "consume_2fa_code ae (re_now re) u code1 = Inr (Some (u', rqs))" for u' rqs using consumed that by metis
    then show ?thesis using assms Inr Some put_keeps [OF assms(1)]
      by (auto simp: login_2fa_def split: if_splits sum.splits option.splits)
  qed (use Inr assms in \<open>auto simp: login_2fa_def\<close>)
qed (use assms in \<open>auto simp: login_2fa_def\<close>)

lemma setup_keeps:
  assumes "\<forall>u \<in> set (ls_accounts st). P u" "v \<in> set (ls_accounts (fst (totp_setup ae re st actor)))"
  shows "P v"
  using assms interactive_user_in [of st actor]
  by (auto simp: totp_setup_def Let_def dest!: set_accounts_put intro: started split: sum.splits if_splits)

lemma disable_keeps:
  assumes "\<forall>u \<in> set (ls_accounts st). P u" "v \<in> set (ls_accounts (fst (totp_disable ae re st actor code1)))"
  shows "P v"
proof (cases "interactive_user st actor")
  case (Inr u)
  then have "P u" using assms(1) interactive_user_in by metis
  then have "P (u'\<lparr>ac_totp_enabled := False, ac_totp_secret := None, ac_totp_pending := None, ac_recovery := None\<rparr>)"
    if "consume_2fa_code ae (re_now re) u code1 = Inr (Some (u', rqs))" for u' rqs using consumed that removed by metis
  then show ?thesis using assms Inr put_keeps [OF assms(1)] by (auto simp: totp_disable_def split: if_splits sum.splits option.splits)
qed (use assms in \<open>simp add: totp_disable_def\<close>)

lemma refresh_keeps [simp]: "fst (refresh ae re st body cookie) = st"
  by (auto simp: refresh_def Let_def split: sum.split option.split)

lemma callback_keeps:
  assumes "\<forall>u \<in> set (ls_accounts st). P u" "v \<in> set (ls_accounts (fst (oidc_callback ae re st code1 state cookie)))"
  shows "P v"
proof -
  have "P v" if "provision_or_match_oidc_user ae re st claims = Inr (st1, u)" "v \<in> set (ls_accounts st1)" for claims st1 u
    using provisioned [OF assms(1) that(1)] that(2) by blast
  then show ?thesis using assms unfolding oidc_callback_def
    by (auto split: if_splits option.splits list.splits pyval.splits sum.splits)
qed

theorem handle_keeps:
  assumes "\<forall>u \<in> set (ls_accounts st). P u" "\<forall>actor code1. rq \<noteq> Totp_verify_setup actor code1"
  shows "\<forall>v \<in> set (ls_accounts (fst (handle ae re st rq))). P v"
  using assms login_keeps [OF assms(1)] login_2fa_keeps [OF assms(1)] setup_keeps [OF assms(1)] disable_keeps [OF assms(1)]
    callback_keeps [OF assms(1)] by (cases rq) auto

end

text \<open>A property that the end of an enrollment keeps too.\<close>

locale account_inv_full = account_inv +
  assumes enabled: "P u \<Longrightarrow> ac_totp_pending u = Some blob \<Longrightarrow>
    P (u\<lparr>ac_totp_secret := Some blob, ac_totp_pending := None, ac_totp_enabled := True, ac_recovery := Some hs\<rparr>)"
begin

lemma verify_keeps:
  assumes "\<forall>u \<in> set (ls_accounts st). P u" "v \<in> set (ls_accounts (fst (totp_verify_setup ae re st actor code1)))"
  shows "P v"
  using assms interactive_user_in [of st actor]
  by (auto simp: totp_verify_setup_def dest!: set_accounts_put intro: enabled split: sum.splits if_splits option.splits prod.splits)

lemma handle_keeps_all:
  assumes "\<forall>u \<in> set (ls_accounts st). P u"
  shows "\<forall>v \<in> set (ls_accounts (fst (handle ae re st rq))). P v"
proof (cases "\<exists>actor code1. rq = Totp_verify_setup actor code1")
  case True
  then show ?thesis using verify_keeps [OF assms] by auto
qed (use handle_keeps [OF assms] in blast)

lemma handle_all_keeps: "\<forall>u \<in> set (ls_accounts st). P u \<Longrightarrow> \<forall>v \<in> set (ls_accounts (handle_all ae st reqs)). P v"
proof (induction reqs arbitrary: st)
  case (Cons r reqs)
  from Cons.IH [OF handle_keeps_all [OF Cons.prems, of ae "fst r" "snd r"]] show ?case
    by (simp add: handle_all_def case_prod_beta)
qed (simp add: handle_all_def)

end

section \<open>The columns of the second factor\<close>

definition totp_columns :: "Account \<Rightarrow> bool" where
  "totp_columns u \<longleftrightarrow> (ac_totp_enabled u \<longleftrightarrow> ac_totp_secret u \<noteq> None) \<and> (ac_totp_enabled u \<longleftrightarrow> ac_recovery u \<noteq> None)"

interpretation columns: account_inv_full totp_columns
  by unfold_locales (auto simp: totp_columns_def new_oidc_user_def)

section \<open>Spent recovery codes\<close>

text \<open>No recovery code of the account is the given one.\<close>

definition no_longer :: "auth_env \<Rightarrow> uuid \<Rightarrow> string \<Rightarrow> Account \<Rightarrow> bool" where
  "no_longer ae uid c u \<longleftrightarrow> (u_id u = uid \<longrightarrow> (\<forall>hs h. ac_recovery u = Some hs \<longrightarrow> h \<in> set hs \<longrightarrow> ae_argon_verify ae h c \<noteq> Inr True))"

interpretation spent: account_inv "no_longer ae uid c" for ae uid c
  by unfold_locales (auto simp: no_longer_def new_oidc_user_def)

section \<open>Identities\<close>

definition ids_step :: "login_state \<Rightarrow> login_state \<Rightarrow> bool" where
  "ids_step st st' \<longleftrightarrow> (map u_id (ls_accounts st') = map u_id (ls_accounts st) \<and> ls_next st' = ls_next st) \<or>
     (map u_id (ls_accounts st') = map u_id (ls_accounts st) @ [ls_next st] \<and> ls_next st' = ls_next st + 1)"

lemma ids_step_same [intro, simp]: "ids_step st st" "ids_step st (add_audit rq st)" "ids_step st (note_failure ae re key st)"
  "ids_step st (add_audit rq (put_account u st))" "ids_step st (add_audits rqs (put_account u st))"
  "ids_step st (note_failure ae re key (add_audit rq st))" "ids_step st (add_audit rq (put_account u (st\<lparr>ls_fails := fs\<rparr>)))"
  by (simp_all add: ids_step_def)

lemma provision_ids:
  assumes "provision_or_match_oidc_user ae re st claims = Inr (st1, u)"
  shows "ids_step st (add_audit rq st1)"
  using assms by (cases rule: provision_cases) (simp_all add: ids_step_def new_oidc_user_def)

lemma callback_ids: "ids_step st (fst (oidc_callback ae re st code1 state cookie))"
proof -
  have "ids_step st (fst (case provision_or_match_oidc_user ae re st claims of Inl e \<Rightarrow> (st, Inl e) | Inr (st1, u) \<Rightarrow>
      if u_disabled u then (st, Inl x) else if ac_totp_enabled u then (add_audit (a u) st1, b u) else (add_audit (c u) st1, d u)))" for claims x a b c d
    using provision_ids [of ae re st claims] by (auto split: sum.split prod.split)
  then show ?thesis unfolding oidc_callback_def
    by (auto split: option.split list.split pyval.split simp del: split_on.simps)
qed

lemma handle_ids: "ids_step st (fst (handle ae re st rq))"
proof (cases rq)
  case (Oidc_callback code1 state cookie)
  then show ?thesis by (simp add: callback_ids)
qed (auto simp: login_def login_checked_def Let_def refresh_def login_2fa_def totp_setup_def totp_verify_setup_def totp_disable_def
    split: auth_outcome.split sum.split option.split prod.split)

definition wf_accounts :: "login_state \<Rightarrow> bool" where
  "wf_accounts st \<longleftrightarrow> distinct (map u_id (ls_accounts st)) \<and> (\<forall>i \<in> set (map u_id (ls_accounts st)). i < ls_next st) \<and>
     (\<forall>u \<in> set (ls_accounts st). totp_columns u)"

lemma ids_step_wf:
  assumes "ids_step st st'" "distinct (map u_id (ls_accounts st))" "\<forall>i \<in> set (map u_id (ls_accounts st)). i < ls_next st"
  shows "distinct (map u_id (ls_accounts st')) \<and> (\<forall>i \<in> set (map u_id (ls_accounts st')). i < ls_next st')"
proof -
  from assms(1) show ?thesis unfolding ids_step_def
  proof
    assume "map u_id (ls_accounts st') = map u_id (ls_accounts st) \<and> ls_next st' = ls_next st"
    then show ?thesis using assms(2,3) by (simp only:)
  next
    assume eq: "map u_id (ls_accounts st') = map u_id (ls_accounts st) @ [ls_next st] \<and> ls_next st' = ls_next st + 1"
    show ?thesis unfolding conjunct1 [OF eq] conjunct2 [OF eq] using assms(2,3) by (auto simp: less_Suc_eq)
  qed
qed

lemma wf_accounts_handle: "wf_accounts st \<Longrightarrow> wf_accounts (fst (handle ae re st rq))"
  using ids_step_wf [OF handle_ids [of st ae re rq]] columns.handle_keeps_all [of st ae re rq] unfolding wf_accounts_def by blast

section \<open>Who gets tokens\<close>

lemma put_account_in: "v \<in> set (ls_accounts st) \<Longrightarrow> u_id v = u_id u \<Longrightarrow> u \<in> set (ls_accounts (put_account u st))"
  by (force simp: put_account_def image_iff)

lemma login_tokens:
  assumes "login ae re st email password = (st', Inr (Tokens pair))"
  obtains u v where "u \<in> set (ls_accounts st')" "\<not> u_disabled u" "pair = issue_token_pair ae (re_now re) u" "\<not> ac_totp_enabled u"
    "v \<in> set (ls_accounts st)" "u_id v = u_id u" "ac_email v = lower email" "ae_argon_verify ae (ac_password_hash v) password = Inr True"
proof (cases "authenticate ae re st email password")
  case (Auth_ok u)
  obtain v h t where v: "v \<in> set (ls_accounts st)" "u = v\<lparr>ac_password_hash := h, ac_last_login_at := t\<rparr>" "\<not> u_disabled v"
    "ac_email v = lower email" "ae_argon_verify ae (ac_password_hash v) password = Inr True" using authenticate_ok [OF Auth_ok] .
  moreover have "ls_accounts st' = ls_accounts (put_account u st)" "\<not> ac_totp_enabled u" "pair = issue_token_pair ae (re_now re) u"
    using assms Auth_ok by (auto simp: login_def login_checked_def Let_def split: if_splits)
  moreover have "u \<in> set (ls_accounts (put_account u st))" using v(1,2) by (intro put_account_in) simp_all
  ultimately show thesis by (intro that [of u v]) simp_all
qed (use assms in \<open>auto simp: login_def login_checked_def Let_def split: if_splits\<close>)

lemma login_2fa_tokens:
  assumes "login_2fa ae re st token code1 = (st', Inr (Tokens pair))"
  obtains u v where "u \<in> set (ls_accounts st')" "\<not> u_disabled u" "pair = issue_token_pair ae (re_now re) u"
    "token_account ae (re_now re) st ''mfa_pending'' token = Inr (Some v)" "u_id v = u_id u" "code_accepted ae (re_now re) v code1"
proof -
  from assms obtain v u rqs where t: "token_account ae (re_now re) st ''mfa_pending'' token = Inr (Some v)" "\<not> u_disabled v"
    "consume_2fa_code ae (re_now re) v code1 = Inr (Some (u, rqs))" "ls_accounts st' = ls_accounts (put_account u st)"
    "pair = issue_token_pair ae (re_now re) u"
    by (auto simp: login_2fa_def split: sum.splits option.splits if_splits)
  from consume_2fa_Some [OF t(3)] have c: "code_accepted ae (re_now re) v code1" "u_id v = u_id u" "u_disabled u = u_disabled v" by auto
  have "u \<in> set (ls_accounts st')" unfolding t(4) using token_account_in [OF t(1)] c(2) by (rule put_account_in)
  with t c show thesis by (intro that) simp_all
qed

lemma refresh_tokens:
  assumes "refresh ae re st body cookie = (st', Inr (Tokens pair))"
  obtains u token where "u \<in> set (ls_accounts st')" "\<not> u_disabled u" "pair = issue_token_pair ae (re_now re) u"
    "body = Some token \<or> cookie = Some token" "token_account ae (re_now re) st ''refresh'' token = Inr (Some u)"
proof -
  let ?token = "case body of Some (c # s) \<Rightarrow> c # s | _ \<Rightarrow> (case cookie of Some s \<Rightarrow> s | None \<Rightarrow> [])"
  from assms have "?token \<noteq> []" by (auto simp: refresh_def Let_def)
  then have b: "body = Some ?token \<or> cookie = Some ?token" by (auto split: option.splits list.splits)
  from assms \<open>?token \<noteq> []\<close> obtain u where u: "token_account ae (re_now re) st ''refresh'' ?token = Inr (Some u)" "\<not> u_disabled u"
    "pair = issue_token_pair ae (re_now re) u" "st' = st"
    by (cases "token_account ae (re_now re) st ''refresh'' ?token") (auto simp: refresh_def Let_def split: option.splits if_splits)
  show thesis by (rule that [OF _ u(2,3) b u(1)]) (use token_account_in [OF u(1)] u(4) in simp)
qed

lemma callback_tokens:
  assumes "oidc_callback ae re st code1 state cookie = (st', Inr (Tokens pair))"
  obtains u token nonce claims st1 where "u \<in> set (ls_accounts st')" "\<not> u_disabled u" "pair = issue_token_pair ae (re_now re) u"
    "\<not> ac_totp_enabled u" "validate_id_token ae token nonce = Some claims" "provision_or_match_oidc_user ae re st claims = Inr (st1, u)"
proof -
  from assms obtain u token nonce claims st1 where c: "\<not> u_disabled u" "pair = issue_token_pair ae (re_now re) u" "\<not> ac_totp_enabled u"
    "validate_id_token ae token nonce = Some claims" "provision_or_match_oidc_user ae re st claims = Inr (st1, u)" "ls_accounts st' = ls_accounts st1"
    unfolding oidc_callback_def by (auto split: if_splits option.splits list.splits pyval.splits sum.splits)
  from c(5) have "u \<in> set (ls_accounts st1)"
  proof (cases rule: provision_cases)
    case (matched v e)
    then show ?thesis using put_account_in [of v st u] by auto
  next
    case (linked v s i e)
    then show ?thesis using put_account_in [of v st u] by auto
  qed simp
  with c show thesis by (intro that) simp_all
qed

section \<open>A code spent\<close>

lemma filter_remove_one:
  assumes "length (filter Q hs) \<le> 1" "i < length hs" "Q (hs ! i)"
  shows "\<forall>h \<in> set (take i hs @ drop (Suc i) hs). \<not> Q h"
proof -
  have "filter Q hs = filter Q (take i hs) @ hs ! i # filter Q (drop (Suc i) hs)"
    by (subst id_take_nth_drop [OF assms(2)]) (simp add: assms(3))
  then have "filter Q (take i hs) = [] \<and> filter Q (drop (Suc i) hs) = []" using assms(1) by simp
  then show ?thesis by (auto simp: filter_empty_conv)
qed

lemma spent_after_use:
  assumes "login_2fa ae re st token code1 = (st1, Inr (Tokens pair))" "token_account ae (re_now re) st ''mfa_pending'' token = Inr (Some u)"
    "ac_totp_secret u = Some blob" "ae_decrypt ae blob = Some secret" "\<not> verify_code ae (re_now re) secret code1" "normal_code code1 = Inr c"
    "\<forall>hs. ac_recovery u = Some hs \<longrightarrow> length (filter (\<lambda>h. ae_argon_verify ae h c = Inr True) hs) \<le> 1"
  shows "\<forall>v \<in> set (ls_accounts st1). no_longer ae (u_id u) c v"
proof -
  let ?hs = "case ac_recovery u of None \<Rightarrow> [] | Some hs \<Rightarrow> hs"
  from assms(1-5) obtain hs' where h: "consume_recovery_code ae ?hs code1 = Inr (Some hs')"
    "ls_accounts st1 = ls_accounts (put_account (u\<lparr>ac_recovery := Some hs'\<rparr>) st)"
    by (auto simp: login_2fa_def consume_2fa_code_def bindE_eq_Inr split: sum.splits option.splits if_splits)
  obtain i where i: "i < length ?hs" "hs' = take i ?hs @ drop (Suc i) ?hs" "ae_argon_verify ae (?hs ! i) c = Inr True"
    using consume_recovery_Some [OF h(1)] assms(6) by (metis sum.inject(2))
  then have "\<forall>x \<in> set hs'. ae_argon_verify ae x c \<noteq> Inr True" using assms(7)
    unfolding i(2) by (intro filter_remove_one) (auto split: option.splits)
  then show ?thesis unfolding h(2) by (auto simp: put_account_def no_longer_def)
qed

lemma spent_stays:
  assumes "\<forall>v \<in> set (ls_accounts st). no_longer ae uid c v" "\<forall>(re, rq) \<in> set reqs. \<forall>actor code1. rq \<noteq> Totp_verify_setup actor code1"
  shows "\<forall>v \<in> set (ls_accounts (handle_all ae st reqs)). no_longer ae uid c v"
  using assms
proof (induction reqs arbitrary: st)
  case (Cons r reqs)
  have "\<forall>v \<in> set (ls_accounts (fst (handle ae (fst r) st (snd r)))). no_longer ae uid c v"
    using Cons.prems by (intro spent.handle_keeps) auto
  from Cons.IH [OF this] Cons.prems(2) show ?case by (simp add: handle_all_def case_prod_beta)
qed (simp add: handle_all_def)

section \<open>Properties\<close>

text \<open>
  The accounts stay well formed under every sequence of requests. Ids stay unique, and an account
  has the second factor switched on exactly when it has its secret and its list of recovery codes; in
  particular a half-finished enrollment never asks for a code at the next login.
\<close>

theorem accounts_well_formed:
  "wf_accounts st \<Longrightarrow> wf_accounts (handle_all ae st reqs)"
proof (induction reqs arbitrary: st)
  case (Cons r reqs)
  from Cons.IH [OF wf_accounts_handle [OF Cons.prems, of ae "fst r" "snd r"]] show ?case
    by (simp add: handle_all_def case_prod_beta)
qed (simp add: handle_all_def)


text \<open>
  A recovery code works once. After a login with a code that matched one of the account's recovery
  codes and no other, no sequence of requests makes the same code work again at the second step, unless
  it happens to be the current one-time code or the account enrolls anew.
\<close>

theorem recovery_code_works_once:
  assumes "login_2fa ae re st token code1 = (st1, Inr (Tokens pair))" "token_account ae (re_now re) st ''mfa_pending'' token = Inr (Some u)"
    "ac_totp_secret u = Some blob" "ae_decrypt ae blob = Some secret" "\<not> verify_code ae (re_now re) secret code1" "normal_code code1 = Inr c"
    "\<forall>hs. ac_recovery u = Some hs \<longrightarrow> length (filter (\<lambda>h. ae_argon_verify ae h c = Inr True) hs) \<le> 1"
    "\<forall>(re, rq) \<in> set reqs. \<forall>actor code1. rq \<noteq> Totp_verify_setup actor code1" "st2 = handle_all ae st1 reqs"
    "token_account ae (re_now re2) st2 ''mfa_pending'' token2 = Inr (Some u2)" "u_id u2 = u_id u"
    "\<forall>blob secret. ac_totp_secret u2 = Some blob \<longrightarrow> ae_decrypt ae blob = Some secret \<longrightarrow> \<not> verify_code ae (re_now re2) secret code1"
  shows "snd (login_2fa ae re2 st2 token2 code1) \<noteq> Inr (Tokens pair2)"
proof
  assume "snd (login_2fa ae re2 st2 token2 code1) = Inr (Tokens pair2)"
  then obtain st3 where "login_2fa ae re2 st2 token2 code1 = (st3, Inr (Tokens pair2))" by (metis prod.collapse)
  then obtain v where "token_account ae (re_now re2) st2 ''mfa_pending'' token2 = Inr (Some v)" "code_accepted ae (re_now re2) v code1"
    by (rule login_2fa_tokens)
  then have "code_accepted ae (re_now re2) u2 code1" using assms(10) by simp
  then obtain hs h where "ac_recovery u2 = Some hs" "h \<in> set hs" "ae_argon_verify ae h c = Inr True"
    using assms(6,12) by (auto simp: code_accepted_def)
  moreover have "no_longer ae (u_id u) c u2"
    using spent_stays [OF spent_after_use [OF assms(1-7)] assms(8)] token_account_in [OF assms(10)] assms(9) by blast
  ultimately show False using assms(11) by (auto simp: no_longer_def)
qed

section \<open>Witnesses\<close>

definition demo_auth :: auth_env where
  "demo_auth = \<lparr>ae_argon_verify = (\<lambda>h p. Inr (h = ''#'' @ p)), ae_argon_hash = (\<lambda>seed p. ''#'' @ p), ae_needs_rehash = (\<lambda>h. False),
     ae_jwt_encode = (\<lambda>claims. []), ae_jwt_decode = (\<lambda>now token. Jwt_claims [(''type'', PStr ''mfa_pending''), (''sub'', PStr (uuid_str 1))]),
     ae_encrypt = (\<lambda>seed s. s), ae_decrypt = Some, ae_totp = (\<lambda>now secret code1. False), ae_random = (\<lambda>seed. ''r''), ae_access_ttl = 15,
     ae_refresh_ttl = 7, ae_fail_limit = 2, ae_fail_window = 300, ae_oidc_enabled = False, ae_oidc_issuer_url = [], ae_oidc_default_role = [],
     ae_exchange_code = (\<lambda>code1 verifier. None), ae_decode_id_token = (\<lambda>token. None)\<rparr>"

definition demo_account :: Account where
  "demo_account = \<lparr>u_id = 1, u_tenant_id = 7, u_role = ANALYST, u_disabled = False, u_is_super_admin = False, ac_email = ''a'',
     ac_password_hash = ''#pw'', ac_last_login_at = None, ac_totp_enabled = True, ac_totp_secret = Some ''s'', ac_totp_pending = None,
     ac_recovery = Some [''#AB'', ''#CD''], ac_oidc_subject = None, ac_oidc_issuer = None, ac_oidc_email = None\<rparr>"

definition demo_login :: login_state where
  "demo_login = \<lparr>ls_accounts = [demo_account], ls_audit = [], ls_fails = [], ls_next = 2\<rparr>"

definition demo_re :: "rat \<Rightarrow> request_env" where
  "demo_re t = \<lparr>re_now = 0, re_mono = t, re_ip = None, re_seed = 0\<rparr>"

lemmas demo_login_defs = demo_auth_def demo_account_def demo_login_def demo_re_def

lemma demo_token: "token_account demo_auth 0 st ''mfa_pending'' token = Inr (get_account st 1)"
  using uuid_of_uuid_str [of 1] by (simp add: token_account_def demo_auth_def uuid_of_val_def bindE_def is_uuid_def)

lemma demo_normal: "normal_code ''ab'' = Inr ''AB''"
  by code_simp

lemma demo_not_totp: "\<not> verify_code demo_auth now secret code1"
  by (simp add: verify_code_def demo_auth_def)

lemma demo_consume:
  "consume_2fa_code demo_auth now demo_account ''ab'' = Inr (Some (demo_account\<lparr>ac_recovery := Some [''#CD'']\<rparr>,
     [user_audit ''user.2fa.recovery_used'' (Some 1) (Some [(''remaining'', PInt 1)]) None]))"
  using demo_not_totp [of now "''s''" "''ab''"] demo_normal
  by (simp add: consume_2fa_code_def consume_recovery_code_def bindE_def demo_auth_def demo_account_def)

definition demo_used :: login_state where
  "demo_used = fst (login_2fa demo_auth (demo_re 0) demo_login ''t'' ''ab'')"

lemma demo_use:
  "login_2fa demo_auth (demo_re 0) demo_login ''t'' ''ab'' =
     (demo_used, Inr (Tokens (issue_token_pair demo_auth 0 (demo_account\<lparr>ac_recovery := Some [''#CD'']\<rparr>))))"
  "ls_accounts demo_used = [demo_account\<lparr>ac_recovery := Some [''#CD'']\<rparr>]"
  using demo_consume
  by (simp_all add: demo_used_def login_2fa_def demo_re_def demo_token get_account_def demo_login_def add_audits_def put_account_def demo_account_def)

text \<open>Witness of the first property: the demonstration account is well formed, and stays so after a login.\<close>

theorem accounts_well_formed_witness:
  "wf_accounts demo_login \<and> wf_accounts (handle_all demo_auth demo_login [(demo_re 0, Login ''A'' ''pw'')])"
proof
  show "wf_accounts demo_login" by (simp add: wf_accounts_def totp_columns_def demo_login_defs)
  then show "wf_accounts (handle_all demo_auth demo_login [(demo_re 0, Login ''A'' ''pw'')])" by (rule accounts_well_formed)
qed


text \<open>Witness of the third property: the code that was just used is refused at the second attempt.\<close>

theorem recovery_code_works_once_witness:
  "snd (login_2fa demo_auth (demo_re 1) demo_used ''t'' ''ab'') \<noteq> Inr (Tokens (issue_token_pair demo_auth 0 demo_account))"
proof (rule recovery_code_works_once [OF demo_use(1), where reqs = "[]" and c = "''AB''" and secret = "''s''"])
  show "token_account demo_auth (re_now (demo_re 0)) demo_login ''mfa_pending'' ''t'' = Inr (Some demo_account)"
    by (simp add: demo_re_def demo_token get_account_def demo_login_def demo_account_def)
  show "token_account demo_auth (re_now (demo_re 1)) demo_used ''mfa_pending'' ''t'' = Inr (Some (demo_account\<lparr>ac_recovery := Some [''#CD'']\<rparr>))"
    by (simp add: demo_re_def demo_token get_account_def demo_use(2)) (simp add: demo_account_def)
qed (auto simp: demo_not_totp demo_normal handle_all_def, auto simp: demo_account_def demo_auth_def)

end
