(* ===== verification/Login_Throttle.thy ===== *)
theory Login_Throttle
  imports Login_Correct
begin

text \<open>
  The login throttle against its history: the per-address buckets of backend/app/api/auth.py, pruned as
  they are read and cleared by a success, answer as if every failure since the last success had been
  kept. The second step of a login writes to the same buckets and never reads them.
\<close>

section \<open>The throttle and its history\<close>

text \<open>What a request tells the throttle: a failure of an address, or its success.\<close>

definition throttle_event :: "auth_env \<Rightarrow> request_env \<Rightarrow> login_state \<Rightarrow> auth_request \<Rightarrow> (string \<times> bool) option" where
  "throttle_event ae re st rq = (case rq of
       Login email password \<Rightarrow>
         (if is_login_blocked (ae_fail_limit ae) (rat_of_int (ae_fail_window ae)) (re_mono re) (lower email) (ls_fails st) then None
          else (case authenticate ae re st email password of
              Auth_invalid _ _ \<Rightarrow> Some (lower email, True) | Auth_ok _ \<Rightarrow> Some (lower email, False) | Auth_raises _ \<Rightarrow> None))
     | Login_2fa token code1 \<Rightarrow>
         (case token_account ae (re_now re) st ''mfa_pending'' token of
            Inr (Some u) \<Rightarrow>
              (if \<not> u_disabled u \<and> ac_totp_enabled u \<and> consume_2fa_code ae (re_now re) u code1 = Inr None then Some (lower (ac_email u), True) else None)
          | _ \<Rightarrow> None)
     | _ \<Rightarrow> None)"

definition note_event :: "rat \<Rightarrow> (string \<times> bool) option \<Rightarrow> (string \<Rightarrow> rat list) \<Rightarrow> string \<Rightarrow> rat list" where
  "note_event now ev h = (case ev of None \<Rightarrow> h | Some (key, failed) \<Rightarrow> h(key := (if failed then h key @ [now] else [])))"

text \<open>The times of all failures of an address since its last success.\<close>

fun fail_history :: "auth_env \<Rightarrow> login_state \<Rightarrow> (string \<Rightarrow> rat list) \<Rightarrow> (request_env \<times> auth_request) list \<Rightarrow> string \<Rightarrow> rat list" where
  "fail_history ae st h [] = h"
| "fail_history ae st h ((re, rq) # reqs) =
     fail_history ae (fst (handle ae re st rq)) (note_event (re_mono re) (throttle_event ae re st rq) h) reqs"

text \<open>A bucket and the failures it stands for: it may lack the failures that have left the window.\<close>

definition bucket_rel :: "rat \<Rightarrow> rat \<Rightarrow> rat list \<Rightarrow> rat list \<Rightarrow> bool" where
  "bucket_rel window now b l \<longleftrightarrow> sorted b \<and> (\<forall>t \<in> set b. t \<le> now) \<and>
     (\<forall>x \<ge> now - window. filter (\<lambda>t. x \<le> t) b = filter (\<lambda>t. x \<le> t) l)"

definition throttle_rel :: "rat \<Rightarrow> rat \<Rightarrow> (string \<times> rat list) list \<Rightarrow> (string \<Rightarrow> rat list) \<Rightarrow> bool" where
  "throttle_rel window now fails h \<longleftrightarrow> (\<forall>key. bucket_rel window now (fail_bucket fails key) (h key))"

lemma fail_bucket_simps [simp]:
  "fail_bucket (AList.update key b fails) key' = (if key' = key then b else fail_bucket fails key')"
  "fail_bucket (clear_login_failures key fails) key' = (if key' = key then [] else fail_bucket fails key')"
  by (auto simp: fail_bucket_def update_conv' clear_login_failures_def delete_conv')

lemma sorted_dropWhile: "sorted xs \<Longrightarrow> dropWhile (\<lambda>t. t < c) xs = filter (\<lambda>t. c \<le> t) xs" for c :: rat
proof (induction xs)
  case (Cons x xs)
  show ?case
  proof (cases "x < c")
    case False
    with Cons.prems have "\<forall>t \<in> set (x # xs). c \<le> t" by auto
    then have "filter (\<lambda>t. c \<le> t) (x # xs) = x # xs" by (simp only: filter_id_conv)
    with False show ?thesis by simp
  qed (use Cons in auto)
qed simp

lemma bucket_rel_later: "bucket_rel window now b l \<Longrightarrow> now \<le> now' \<Longrightarrow> bucket_rel window now' b l"
  unfolding bucket_rel_def by (auto intro: order_trans)

lemma bucket_rel_empty: "bucket_rel window now [] []"
  by (simp add: bucket_rel_def)

lemma bucket_rel_fail:
  assumes "bucket_rel window now b l" "now \<le> now'" "0 \<le> window"
  shows "bucket_rel window now' (dropWhile (\<lambda>t. t < now' - window) b @ [now']) (l @ [now'])"
proof -
  have b: "sorted b" "\<forall>t \<in> set b. t \<le> now'" "\<And>x. now' - window \<le> x \<Longrightarrow> filter (\<lambda>t. x \<le> t) b = filter (\<lambda>t. x \<le> t) l"
    using bucket_rel_later [OF assms(1,2)] by (auto simp: bucket_rel_def)
  have eq: "dropWhile (\<lambda>t. t < now' - window) b = filter (\<lambda>t. now' - window \<le> t) b" by (rule sorted_dropWhile [OF b(1)])
  have "sorted (filter (\<lambda>t. now' - window \<le> t) b)" using sorted_filter [of "\<lambda>x. x"] b(1) by simp
  moreover have "filter (\<lambda>t. x \<le> t) (filter (\<lambda>t. now' - window \<le> t) b) = filter (\<lambda>t. x \<le> t) l" if "now' - window \<le> x" for x
  proof -
    have "filter (\<lambda>t. x \<le> t) (filter (\<lambda>t. now' - window \<le> t) b) = filter (\<lambda>t. x \<le> t) b" using that by (auto intro!: filter_cong)
    with b(3) [OF that] show ?thesis by simp
  qed
  ultimately show ?thesis using b(2) unfolding bucket_rel_def eq by (simp add: sorted_append)
qed

lemma bucket_rel_count:
  assumes "bucket_rel window now b l" "0 < n"
  shows "(if b = [] \<or> length b < n then False else n \<le> length (filter (\<lambda>t. now - window \<le> t) b)) \<longleftrightarrow> n \<le> length (filter (\<lambda>t. now - window \<le> t) l)"
proof -
  have "filter (\<lambda>t. now - window \<le> t) b = filter (\<lambda>t. now - window \<le> t) l" using assms(1) by (auto simp: bucket_rel_def)
  moreover have "length (filter (\<lambda>t. now - window \<le> t) b) \<le> length b" by (rule length_filter_le)
  ultimately show ?thesis using assms(2) by (cases b) auto
qed

text \<open>The buckets after a request are decided by what it tells the throttle.\<close>

lemma ls_fails_simps [simp]:
  "ls_fails (add_audit rq st) = ls_fails st" "ls_fails (add_audits rqs st) = ls_fails st" "ls_fails (put_account u st) = ls_fails st"
  by (simp_all add: add_audit_def add_audits_def put_account_def)

lemma provision_fails: "provision_or_match_oidc_user ae re st claims = Inr (st1, u) \<Longrightarrow> ls_fails st1 = ls_fails st"
  unfolding provision_or_match_oidc_user_def bindE_def Let_def by (auto split: sum.splits option.splits if_splits)

lemma callback_fails: "ls_fails (fst (oidc_callback ae re st code1 state cookie)) = ls_fails st"
  unfolding oidc_callback_def
  by (simp split: option.split list.split pyval.split sum.split prod.split) (auto dest: provision_fails)

lemma handle_fails:
  "ls_fails (fst (handle ae re st rq)) = (case throttle_event ae re st rq of
       None \<Rightarrow> ls_fails st
     | Some (key, failed) \<Rightarrow>
         (if failed then fst (record_login_failure (ae_fail_limit ae) (rat_of_int (ae_fail_window ae)) (re_mono re) key (ls_fails st))
          else clear_login_failures key (ls_fails st)))"
proof (cases rq)
  case (Login email password)
  then show ?thesis
    by (cases "authenticate ae re st email password") (simp_all add: throttle_event_def login_def login_checked_def note_failure_def Let_def)
next
  case (Login_2fa token code1)
  then show ?thesis by (auto simp: throttle_event_def login_2fa_def note_failure_def split: sum.split option.split)
next
  case (Oidc_callback code1 state cookie)
  then show ?thesis by (simp add: throttle_event_def callback_fails)
qed (auto simp: throttle_event_def refresh_def totp_setup_def totp_verify_setup_def totp_disable_def Let_def split: sum.split option.split prod.split)

lemma throttle_rel_handle:
  assumes "throttle_rel window now (ls_fails st) h" "now \<le> re_mono re" "0 \<le> window" "window = rat_of_int (ae_fail_window ae)"
  shows "throttle_rel window (re_mono re) (ls_fails (fst (handle ae re st rq))) (note_event (re_mono re) (throttle_event ae re st rq) h)"
proof -
  have rel: "bucket_rel window now (fail_bucket (ls_fails st) key) (h key)" for key using assms(1) by (simp add: throttle_rel_def)
  note later = bucket_rel_later [OF rel assms(2)] and fail = bucket_rel_fail [OF rel assms(2,3)]
  show ?thesis unfolding handle_fails note_event_def throttle_rel_def
    by (auto simp: record_login_failure_def Let_def bucket_rel_empty assms(4) [symmetric] intro: later fail split: option.split)
qed

lemma throttle_rel_all:
  assumes "throttle_rel window now (ls_fails st) h" "sorted (now # map (\<lambda>r. re_mono (fst r)) reqs)" "0 \<le> window" "window = rat_of_int (ae_fail_window ae)"
  shows "throttle_rel window (last (now # map (\<lambda>r. re_mono (fst r)) reqs)) (ls_fails (handle_all ae st reqs)) (fail_history ae st h reqs)"
  using assms
proof (induction reqs arbitrary: st now h)
  case (Cons r reqs)
  obtain re rq where r: "r = (re, rq)" by (cases r)
  from Cons.prems(2) have "now \<le> re_mono re" "sorted (re_mono re # map (\<lambda>r. re_mono (fst r)) reqs)" by (simp_all add: r)
  from Cons.IH [OF throttle_rel_handle [OF Cons.prems(1) this(1) Cons.prems(3,4)] this(2) Cons.prems(3,4)]
  show ?case by (simp add: r handle_all_def)
qed (simp add: handle_all_def)

lemma blocked_iff:
  assumes "throttle_rel window now fails h" "0 < n"
  shows "is_login_blocked n window now key fails \<longleftrightarrow> n \<le> length (filter (\<lambda>t. now - window \<le> t) (h key))"
  using bucket_rel_count [of window now "fail_bucket fails key" "h key" n] assms unfolding throttle_rel_def is_login_blocked_def Let_def by blast

section \<open>Properties\<close>

text \<open>
  C22: the throttle refuses a login exactly when the limit is reached. After any sequence of requests with
  a monotonic clock, a password login is answered 429, writing its one audit row and trying no password,
  when at least the configured number of failures of that address since its last success lie in the
  window that ends now, and is processed otherwise; nothing another address did matters.
\<close>

theorem login_throttle_exact:
  assumes "ls_fails st = []" "0 < ae_fail_limit ae" "0 \<le> ae_fail_window ae" "sorted (map (\<lambda>r. re_mono (fst r)) reqs @ [re_mono re])"
  shows "login ae re (handle_all ae st reqs) email password =
    (if ae_fail_limit ae \<le> length (filter (\<lambda>t. re_mono re - rat_of_int (ae_fail_window ae) \<le> t) (fail_history ae st (\<lambda>_. []) reqs (lower email)))
     then (add_audit (user_audit ''user.login.throttled'' None
             (Some [(''email'', PStr (lower email)), (''window_s'', PInt (ae_fail_window ae))]) (re_ip re)) (handle_all ae st reqs),
           Inl (HTTPError 429 ''too many failed login attempts; try again later''))
     else login_checked ae re (handle_all ae st reqs) email password)"
proof -
  let ?w = "rat_of_int (ae_fail_window ae)" and ?t0 = "hd (map (\<lambda>r. re_mono (fst r)) reqs @ [re_mono re])"
  have "throttle_rel ?w ?t0 (ls_fails st) (\<lambda>_. [])" using assms(1) by (simp add: throttle_rel_def fail_bucket_def bucket_rel_empty)
  moreover have "sorted (?t0 # map (\<lambda>r. re_mono (fst r)) reqs)" using assms(4) by (cases reqs) (auto simp: sorted_append)
  ultimately have "throttle_rel ?w (last (?t0 # map (\<lambda>r. re_mono (fst r)) reqs)) (ls_fails (handle_all ae st reqs)) (fail_history ae st (\<lambda>_. []) reqs)"
    using assms(3) by (intro throttle_rel_all) simp_all
  moreover have "last (?t0 # map (\<lambda>r. re_mono (fst r)) reqs) \<le> re_mono re" using assms(4) by (cases reqs rule: rev_cases) (auto simp: sorted_append)
  ultimately have "throttle_rel ?w (re_mono re) (ls_fails (handle_all ae st reqs)) (fail_history ae st (\<lambda>_. []) reqs)"
    by (auto simp: throttle_rel_def intro: bucket_rel_later)
  from blocked_iff [OF this assms(2)] show ?thesis by (simp add: login_def)
qed

section \<open>What the throttle does not stop\<close>

text \<open>
  The second step of a login adds to the buckets and never asks them: with a pending login at hand, any
  number of wrong codes are tried and each is answered 401, no account and no audit row changes, and the
  right code is accepted after all of them.
\<close>

lemma second_factor_unthrottled:
  assumes "\<forall>(re, c) \<in> set tries. token_account ae (re_now re) st ''mfa_pending'' token = Inr (Some u) \<and> consume_2fa_code ae (re_now re) u c = Inr None"
    "\<not> u_disabled u" "ac_totp_enabled u"
    "token_account ae (re_now re) st ''mfa_pending'' token = Inr (Some u)" "consume_2fa_code ae (re_now re) u good = Inr (Some (u', rqs))"
  shows "\<exists>fails. handle_all ae st (map (\<lambda>(re, c). (re, Login_2fa token c)) tries) = st\<lparr>ls_fails := fails\<rparr> \<and>
    snd (login_2fa ae re (st\<lparr>ls_fails := fails\<rparr>) token good) = Inr (Tokens (issue_token_pair ae (re_now re) u'))"
proof -
  have tok: "token_account ae now (st\<lparr>ls_fails := f\<rparr>) ty token = token_account ae now st ty token" for now f ty
    by (cases "ae_jwt_decode ae now token") (simp_all add: token_account_def get_account_def)
  have step: "\<exists>f'. fst (login_2fa ae re (st\<lparr>ls_fails := f\<rparr>) token c) = st\<lparr>ls_fails := f'\<rparr>" if "(re, c) \<in> set tries" for re c f
  proof -
    have "token_account ae (re_now re) st ''mfa_pending'' token = Inr (Some u)" "consume_2fa_code ae (re_now re) u c = Inr None" using that assms(1) by auto
    then show ?thesis using assms(2,3) by (simp add: login_2fa_def tok note_failure_def) blast
  qed
  have "\<exists>f'. handle_all ae (st\<lparr>ls_fails := f\<rparr>) (map (\<lambda>(re, c). (re, Login_2fa token c)) ts) = st\<lparr>ls_fails := f'\<rparr>" if "set ts \<subseteq> set tries" for ts f
    using that
  proof (induction ts arbitrary: f)
    case (Cons t ts)
    obtain re c where t: "t = (re, c)" by (cases t)
    with Cons.prems step [of re c f] obtain f1 where f1: "fst (login_2fa ae re (st\<lparr>ls_fails := f\<rparr>) token c) = st\<lparr>ls_fails := f1\<rparr>" by auto
    from Cons.IH [of f1] Cons.prems show ?case by (simp add: t handle_all_def f1)
  qed (auto simp: handle_all_def)
  from this [of tries "ls_fails st"] obtain f' where "handle_all ae st (map (\<lambda>(re, c). (re, Login_2fa token c)) tries) = st\<lparr>ls_fails := f'\<rparr>" by auto
  moreover have "snd (login_2fa ae re (st\<lparr>ls_fails := f'\<rparr>) token good) = Inr (Tokens (issue_token_pair ae (re_now re) u'))"
    using assms(2-5) by (simp add: login_2fa_def tok)
  ultimately show ?thesis by blast
qed

section \<open>Witness\<close>

text \<open>Two wrong passwords and then the right one: the third attempt is refused, and accepted six minutes later.\<close>

definition demo_attempts :: "(request_env \<times> auth_request) list" where
  "demo_attempts = [(demo_re 0, Login ''A'' ''x''), (demo_re 1, Login ''a'' ''y'')]"

lemma demo_wrong: "password \<noteq> ''pw'' \<Longrightarrow> ls_accounts st = [demo_account] \<Longrightarrow> lower email = ''a'' \<Longrightarrow>
    authenticate demo_auth re st email password = Auth_invalid ''bad_password'' (Some 1)"
  by (simp add: authenticate_def demo_auth_def demo_account_def)

lemma demo_lower: "lower ''A'' = ''a''" "lower ''a'' = ''a''"
  by code_simp+

lemma demo_history: "fail_history demo_auth demo_login (\<lambda>_. []) demo_attempts ''a'' = [0, 1]"
proof -
  have 1: "throttle_event demo_auth (demo_re 0) demo_login (Login ''A'' ''x'') = Some (''a'', True)"
    by (simp add: throttle_event_def demo_lower demo_wrong demo_login_def is_login_blocked_def fail_bucket_def)
  let ?st = "fst (login demo_auth (demo_re 0) demo_login ''A'' ''x'')"
  have st: "ls_accounts ?st = [demo_account]" "ls_fails ?st = [(''a'', [0])]"
    by (simp_all add: login_def login_checked_def demo_lower demo_wrong demo_login_def is_login_blocked_def fail_bucket_def note_failure_def
        add_audit_def record_login_failure_def Let_def demo_re_def)
  have 2: "throttle_event demo_auth (demo_re 1) ?st (Login ''a'' ''y'') = Some (''a'', True)"
    using st by (simp add: throttle_event_def demo_lower demo_wrong is_login_blocked_def fail_bucket_def demo_auth_def [THEN arg_cong, of ae_fail_limit])
  show ?thesis using 1 2 by (simp add: demo_attempts_def note_event_def demo_re_def)
qed

theorem login_throttle_exact_witness:
  "snd (login demo_auth (demo_re 2) (handle_all demo_auth demo_login demo_attempts) ''A'' ''pw'') =
     Inl (HTTPError 429 ''too many failed login attempts; try again later'') \<and>
   login demo_auth (demo_re 400) (handle_all demo_auth demo_login demo_attempts) ''A'' ''pw'' =
     login_checked demo_auth (demo_re 400) (handle_all demo_auth demo_login demo_attempts) ''A'' ''pw''"
proof -
  have h: "ls_fails demo_login = []" "0 < ae_fail_limit demo_auth" "0 \<le> ae_fail_window demo_auth"
    "sorted (map (\<lambda>r. re_mono (fst r)) demo_attempts @ [re_mono (demo_re 2)])"
    "sorted (map (\<lambda>r. re_mono (fst r)) demo_attempts @ [re_mono (demo_re 400)])"
    by (simp_all add: demo_login_defs demo_attempts_def)
  have env: "ae_fail_limit demo_auth = 2" "ae_fail_window demo_auth = 300" "re_mono (demo_re 2) = 2" "re_mono (demo_re 400) = 400"
    by (simp_all add: demo_auth_def demo_re_def)
  show ?thesis
    unfolding login_throttle_exact [OF h(1-4), of "''A''" "''pw''"] login_throttle_exact [OF h(1-3,5), of "''A''" "''pw''"]
    by (simp add: demo_lower demo_history env)
qed

end
