(* ===== verification/Enrollment.thy ===== *)
theory Enrollment
  imports Signed_Tokens
begin

text \<open>
  How a host joins the fleet: one-time tokens (backend/app/api/enrollment.py), their consumption and the
  re-enrollment detector (services/enrollment.py), the internal certificate authority (services/ca.py),
  and the two enrollment paths, REST and gRPC (\<open>_do_enroll\<close> of grpc/services.py). SHA-256 and the X.509
  operations of the cryptography package are parameters.
\<close>

section \<open>Tables\<close>

datatype OsFamily = WINDOWS | LINUX | MACOS

fun os_family_value :: "OsFamily \<Rightarrow> string" where
  "os_family_value WINDOWS = ''windows''"
| "os_family_value LINUX = ''linux''"
| "os_family_value MACOS = ''macos''"

definition PB_OS_FAMILY :: "(string \<times> OsFamily) list" where
  "PB_OS_FAMILY = [(''windows'', WINDOWS), (''linux'', LINUX), (''macos'', MACOS)]"

text \<open>The columns of a host that enrollment and the agent stream use, beside those of \<open>Host\<close>.\<close>

record AgentHost = Host +
  hst_hostname :: string
  hst_os_family :: OsFamily
  hst_os_version :: "string option"
  hst_os_platform :: "string option"
  hst_os_arch :: "string option"
  hst_cert_fingerprint :: "string option"
  hst_enrolled_at :: "datetime option"
  hst_capabilities :: "string option"

record EnrollmentToken =
  et_id :: uuid
  et_tenant_id :: uuid
  et_token_hash :: string
  et_label :: "string option"
  et_expires_at :: datetime
  et_used_at :: "datetime option"
  et_used_by_host_id :: "uuid option"
  et_created_by :: "uuid option"

record CertificateAuthority =
  cau_cert_pem :: string
  cau_key_encrypted :: bytes
  cau_not_after :: datetime
  cau_fingerprint :: string

record fleet =
  fl_tokens :: "EnrollmentToken list"
  fl_hosts :: "AgentHost list"
  fl_cas :: "CertificateAuthority list"
  fl_rule_ids :: "uuid list"
  fl_alerts :: "Alert list"
  fl_audit :: "audit_request list"
  fl_next :: uuid

definition fleet_audit :: "audit_request \<Rightarrow> fleet \<Rightarrow> fleet" where
  "fleet_audit rq db = db\<lparr>fl_audit := fl_audit db @ [rq]\<rparr>"

section \<open>Tokens\<close>

definition hash_enrollment_token :: "(bytes \<Rightarrow> bytes) \<Rightarrow> string \<Rightarrow> string" where
  "hash_enrollment_token sha256 token = hexdigest (sha256 (utf8_encode token))"

text \<open>\<open>plaintext\<close> is the generated token; its hash is unique in the table.\<close>

definition create_token ::
  "(bytes \<Rightarrow> bytes) \<Rightarrow> datetime \<Rightarrow> string \<Rightarrow> string option \<Rightarrow> int \<Rightarrow> uuid option \<Rightarrow> Actor \<Rightarrow> fleet \<Rightarrow> (fleet \<times> EnrollmentToken) result" where
  "create_token sha256 now plaintext label ttl_hours tenant actor db =
     (if \<not> (1 \<le> ttl_hours \<and> ttl_hours \<le> 24 * 30) \<or> (case label of None \<Rightarrow> False | Some l \<Rightarrow> length l > 128)
      then Inl (HTTPError 422 ''validation error'')
      else bindE (RequireAdmin actor) (\<lambda>actor.
        let target_tenant = or_else tenant (actor_tenant_id actor) in
        if target_tenant \<noteq> actor_tenant_id actor \<and> \<not> actor_is_super_admin actor
        then Inl (bad_request ''only super-admins can mint enrollment tokens for other tenants'')
        else let h = hash_enrollment_token sha256 plaintext in
          if h \<in> et_token_hash ` set (fl_tokens db) then Inl RuntimeError
          else (let token = \<lparr>et_id = fl_next db, et_tenant_id = target_tenant, et_token_hash = h, et_label = label,
                      et_expires_at = now + seconds (3600 * ttl_hours), et_used_at = None, et_used_by_host_id = None,
                      et_created_by = Some (u_id (actor_user actor))\<rparr>
                in Inr (fleet_audit ((push_audit actor ''enrollment_token.create'' ''enrollment_token'' (uuid_str (et_id token))
                            [(''label'', opt_str label), (''ttl_hours'', PInt ttl_hours), (''tenant_id'', PStr (uuid_str target_tenant))])
                              \<lparr>rq_tenant_id := Some target_tenant\<rparr>)
                         (db\<lparr>fl_tokens := fl_tokens db @ [token], fl_next := fl_next db + 1\<rparr>), token))))"

definition revoke_token :: "uuid \<Rightarrow> Actor \<Rightarrow> fleet \<Rightarrow> fleet result" where
  "revoke_token token_id actor db = bindE (RequireAdmin actor) (\<lambda>actor.
     if \<not> list_ex (\<lambda>t. et_id t = token_id) (fl_tokens db) then Inl (not_found ''enrollment_token'' token_id)
     else Inr (fleet_audit ((push_audit actor ''enrollment_token.revoke'' ''enrollment_token'' (uuid_str token_id) [])\<lparr>rq_payload := None\<rparr>)
            (db\<lparr>fl_tokens := filter (\<lambda>t. et_id t \<noteq> token_id) (fl_tokens db)\<rparr>)))"

text \<open>The \<open>WHERE\<close> of the update, the row it marks, and the update itself.\<close>

definition token_live :: "(bytes \<Rightarrow> bytes) \<Rightarrow> datetime \<Rightarrow> string \<Rightarrow> EnrollmentToken \<Rightarrow> bool" where
  "token_live sha256 now raw_token t \<longleftrightarrow>
     et_token_hash t = hash_enrollment_token sha256 raw_token \<and> et_used_at t = None \<and> now < et_expires_at t"

definition mark_used :: "uuid \<Rightarrow> datetime \<Rightarrow> fleet \<Rightarrow> fleet" where
  "mark_used token_id now db =
     db\<lparr>fl_tokens := map (\<lambda>t. if et_id t = token_id then t\<lparr>et_used_at := Some now\<rparr> else t) (fl_tokens db)\<rparr>"

definition consume_token :: "(bytes \<Rightarrow> bytes) \<Rightarrow> datetime \<Rightarrow> string \<Rightarrow> fleet \<Rightarrow> (fleet \<times> uuid \<times> uuid) option" where
  "consume_token sha256 now raw_token db =
     map_option (\<lambda>t. (mark_used (et_id t) now db, et_id t, et_tenant_id t)) (find (token_live sha256 now raw_token) (fl_tokens db))"

definition bind_token_to_host :: "uuid \<Rightarrow> uuid \<Rightarrow> fleet \<Rightarrow> fleet" where
  "bind_token_to_host token_id host db =
     db\<lparr>fl_tokens := map (\<lambda>t. if et_id t = token_id then t\<lparr>et_used_by_host_id := Some host\<rparr> else t) (fl_tokens db)\<rparr>"

section \<open>The re-enrollment detector\<close>

definition REENROLLMENT_RULE_ID :: uuid where
  "REENROLLMENT_RULE_ID = 0xa0a0a0a0000000000000000000000005"

text \<open>\<open>int(delta.total_seconds())\<close> cuts towards zero.\<close>

definition whole_seconds :: "int \<Rightarrow> int" where
  "whole_seconds d = (if 0 \<le> d then d div 1000000 else - ((- d) div 1000000))"

definition enrolled_since :: "datetime \<Rightarrow> string \<Rightarrow> uuid \<Rightarrow> AgentHost \<Rightarrow> bool" where
  "enrolled_since cutoff hostname new_host_id h \<longleftrightarrow> hst_hostname h = hostname \<and> hst_id h \<noteq> new_host_id \<and>
     (case hst_enrolled_at h of None \<Rightarrow> False | Some t \<Rightarrow> cutoff \<le> t) \<and> hst_status h \<noteq> DECOMMISSIONED"

definition prior_enrollment :: "datetime \<Rightarrow> string \<Rightarrow> uuid \<Rightarrow> AgentHost list \<Rightarrow> AgentHost option" where
  "prior_enrollment cutoff hostname new_host_id hosts =
     (case sort_key (\<lambda>h. - the (hst_enrolled_at h)) (filter (enrolled_since cutoff hostname new_host_id) hosts) of
        [] \<Rightarrow> None | h # _ \<Rightarrow> Some h)"

definition reenrollment_alert ::
  "int \<Rightarrow> datetime \<Rightarrow> string \<Rightarrow> OsFamily \<Rightarrow> uuid \<Rightarrow> string \<Rightarrow> string option \<Rightarrow> AgentHost \<Rightarrow> uuid \<Rightarrow> Alert" where
  "reenrollment_alert window now hostname os new_host_id source source_ip prior i =
     (let prior_at = the (hst_enrolled_at prior); age = whole_seconds (now - prior_at) in
      \<lparr>a_id = i, a_tenant_id = hst_tenant_id prior, a_host_id = Some new_host_id, a_rule_id = REENROLLMENT_RULE_ID,
       a_severity = HIGH, a_action_taken = ALERT, a_state = NEW,
       a_summary = ''Re-enrollment of '' @ [squote] @ hostname @ [squote] @ '' ('' @ show_int age @ ''s after prior enrollment)'',
       a_details = PDict [(''hostname'', PStr hostname), (''new_host_id'', PStr (uuid_str new_host_id)),
         (''prior_host_id'', PStr (uuid_str (hst_id prior))), (''prior_enrolled_at'', PStr (isoformat prior_at)),
         (''prior_age_seconds'', PInt age), (''same_os_family'', PBool (hst_os_family prior = os)), (''window_seconds'', PInt window),
         (''source'', PStr source), (''ip'', opt_str source_ip), (''detector'', PStr ''reenrollment_v1'')],
       a_mitre = None, a_opened_at = now, a_closed_at = None, a_assignee_id = None, a_incident_id = None,
       a_dedup_key = None, a_occurrence_count = 1, a_last_occurred_at = now\<rparr>)"

definition ensure_rule :: "uuid \<Rightarrow> fleet \<Rightarrow> fleet" where
  "ensure_rule rule_id db = (if rule_id \<in> set (fl_rule_ids db) then db else db\<lparr>fl_rule_ids := fl_rule_ids db @ [rule_id]\<rparr>)"

definition detect_reenrollment ::
  "int \<Rightarrow> string \<Rightarrow> OsFamily \<Rightarrow> uuid \<Rightarrow> datetime \<Rightarrow> string \<Rightarrow> string option \<Rightarrow> fleet \<Rightarrow> fleet" where
  "detect_reenrollment window hostname os new_host_id now source source_ip db =
     (case prior_enrollment (now - seconds window) hostname new_host_id (fl_hosts db) of
        None \<Rightarrow> db
      | Some prior \<Rightarrow>
          (let db = ensure_rule REENROLLMENT_RULE_ID db in
           db\<lparr>fl_alerts := fl_alerts db @ [reenrollment_alert window now hostname os new_host_id source source_ip prior (fl_next db)],
              fl_next := fl_next db + 1\<rparr>))"

section \<open>The certificate authority\<close>

datatype public_key = RSA_key nat string | EC_key string string | Other_key

record Csr =
  csr_signature_valid :: bool
  csr_public_key :: public_key

text \<open>The client certificate as the builder assembles it.\<close>

record Certificate =
  ct_common_name :: string
  ct_issuer :: string
  ct_public_key :: public_key
  ct_serial :: nat
  ct_not_before :: datetime
  ct_not_after :: datetime
  ct_dns_name :: string

record IssuedCert =
  ic_cert :: Certificate
  ic_ca_chain_pem :: string
  ic_fingerprint :: string
  ic_not_after :: datetime

record ca_env =
  ce_parse_csr :: "bytes \<Rightarrow> Csr option"
  ce_bootstrap :: "nat \<Rightarrow> datetime \<Rightarrow> CertificateAuthority"
  ce_key_loads :: "CertificateAuthority \<Rightarrow> bool"
  ce_subject :: "CertificateAuthority \<Rightarrow> string"
  ce_serial :: "nat \<Rightarrow> nat"
  ce_fingerprint :: "Certificate \<Rightarrow> string"

definition CLIENT_CERT_VALIDITY_DAYS :: int where
  "CLIENT_CERT_VALIDITY_DAYS = 90"

definition get_or_bootstrap :: "ca_env \<Rightarrow> nat \<Rightarrow> datetime \<Rightarrow> fleet \<Rightarrow> fleet \<times> CertificateAuthority" where
  "get_or_bootstrap ce seed now db = (case fl_cas db of
       ca # _ \<Rightarrow> (db, ca)
     | [] \<Rightarrow> (let ca = ce_bootstrap ce seed now in (db\<lparr>fl_cas := [ca]\<rparr>, ca)))"

definition check_public_key :: "public_key \<Rightarrow> unit result" where
  "check_public_key k = (case k of
       RSA_key bits _ \<Rightarrow> if bits < 2048 then Inl (bad_request ''RSA key too small'') else Inr ()
     | EC_key curve _ \<Rightarrow> if curve \<in> {''secp256r1'', ''secp384r1'', ''secp521r1''} then Inr () else Inl (bad_request ''EC curve not allowed'')
     | Other_key \<Rightarrow> Inl (bad_request ''CSR uses unsupported public-key algorithm''))"

definition sign_csr :: "ca_env \<Rightarrow> nat \<Rightarrow> datetime \<Rightarrow> bytes \<Rightarrow> uuid \<Rightarrow> string \<Rightarrow> fleet \<Rightarrow> (fleet \<times> IssuedCert) result" where
  "sign_csr ce seed now csr_pem host hostname db =
     (if length hostname > 253 then Inl (bad_request ''hostname too long'')
      else (case ce_parse_csr ce csr_pem of
          None \<Rightarrow> Inl (bad_request ''invalid CSR'')
        | Some csr \<Rightarrow>
            (if \<not> csr_signature_valid csr then Inl (bad_request ''CSR signature invalid'')
             else bindE (check_public_key (csr_public_key csr)) (\<lambda>_.
               case get_or_bootstrap ce seed now db of
                 (db, ca) \<Rightarrow>
                   (if \<not> ce_key_loads ce ca then Inl RuntimeError
                    else if list_ex (\<lambda>c. code c \<ge> 128) hostname then Inl ValueError
                    else (let cert = \<lparr>ct_common_name = uuid_str host, ct_issuer = ce_subject ce ca, ct_public_key = csr_public_key csr,
                                ct_serial = ce_serial ce seed, ct_not_before = now - seconds 300,
                                ct_not_after = now + seconds (86400 * CLIENT_CERT_VALIDITY_DAYS), ct_dns_name = hostname\<rparr>
                          in Inr (db, \<lparr>ic_cert = cert, ic_ca_chain_pem = cau_cert_pem ca, ic_fingerprint = ce_fingerprint ce cert,
                                       ic_not_after = ct_not_after cert\<rparr>)))))))"

section \<open>Enrolling\<close>

record EnrollRequest =
  er_token :: string
  er_hostname :: string
  er_os_family :: OsFamily
  er_os_version :: "string option"
  er_os_platform :: "string option"
  er_os_arch :: "string option"
  er_agent_version :: "string option"
  er_csr_pem :: bytes

record enroll_env =
  ee_sha256 :: "bytes \<Rightarrow> bytes"
  ee_ca :: ca_env
  ee_window :: int

definition new_host :: "datetime \<Rightarrow> uuid \<Rightarrow> uuid \<Rightarrow> EnrollRequest \<Rightarrow> AgentHost" where
  "new_host now i tenant rq =
     \<lparr>hst_id = i, hst_tenant_id = tenant, hst_status = HOST_PENDING, hst_last_seen_at = None, hst_policy_id = None,
      hst_agent_version = er_agent_version rq, hst_hostname = er_hostname rq, hst_os_family = er_os_family rq,
      hst_os_version = er_os_version rq, hst_os_platform = er_os_platform rq, hst_os_arch = er_os_arch rq,
      hst_cert_fingerprint = None, hst_enrolled_at = Some now, hst_capabilities = None\<rparr>"

definition set_fingerprint :: "uuid \<Rightarrow> string \<Rightarrow> fleet \<Rightarrow> fleet" where
  "set_fingerprint host fp db =
     db\<lparr>fl_hosts := map (\<lambda>h. if hst_id h = host then h\<lparr>hst_cert_fingerprint := Some fp\<rparr> else h) (fl_hosts db)\<rparr>"

text \<open>What both paths do once the token is theirs, up to their audit row; the fingerprint is unique in the table.\<close>

definition enroll_host ::
  "enroll_env \<Rightarrow> nat \<Rightarrow> datetime \<Rightarrow> string \<Rightarrow> string option \<Rightarrow> EnrollRequest \<Rightarrow> uuid \<Rightarrow> uuid \<Rightarrow> fleet \<Rightarrow> (fleet \<times> uuid \<times> IssuedCert) result" where
  "enroll_host ee seed now source ip rq token_id tenant db =
     (let host = fl_next db;
          db = db\<lparr>fl_hosts := fl_hosts db @ [new_host now host tenant rq], fl_next := fl_next db + 1\<rparr>;
          db = detect_reenrollment (ee_window ee) (er_hostname rq) (er_os_family rq) host now source ip db
      in bindE (sign_csr (ee_ca ee) seed now (er_csr_pem rq) host (er_hostname rq) db) (\<lambda>(db, issued).
        if Some (ic_fingerprint issued) \<in> hst_cert_fingerprint ` set (fl_hosts db) then Inl RuntimeError
        else Inr (bind_token_to_host token_id host (set_fingerprint host (ic_fingerprint issued) db), host, issued)))"

definition enroll_audit :: "uuid \<Rightarrow> uuid \<Rightarrow> pydict \<Rightarrow> string option \<Rightarrow> audit_request" where
  "enroll_audit host tenant payload ip =
     \<lparr>rq_actor = None, rq_action = ''host.enroll'', rq_resource_type = Some ''host'', rq_resource_id = Some (uuid_str host),
      rq_payload = Some payload, rq_ip = ip, rq_tenant_id = Some tenant\<rparr>"

definition finish_rest ::
  "enroll_env \<Rightarrow> nat \<Rightarrow> datetime \<Rightarrow> string option \<Rightarrow> EnrollRequest \<Rightarrow> uuid \<Rightarrow> uuid \<Rightarrow> fleet \<Rightarrow> (fleet \<times> uuid \<times> IssuedCert) result" where
  "finish_rest ee seed now ip rq token_id tenant db =
     bindE (enroll_host ee seed now ''rest'' ip rq token_id tenant db) (\<lambda>(db, host, issued).
       Inr (fleet_audit (enroll_audit host tenant [(''hostname'', PStr (er_hostname rq)), (''os_family'', PStr (os_family_value (er_os_family rq)))] ip) db,
            host, issued))"

definition enroll ::
  "enroll_env \<Rightarrow> nat \<Rightarrow> datetime \<Rightarrow> string option \<Rightarrow> EnrollRequest \<Rightarrow> fleet \<Rightarrow> (fleet \<times> uuid \<times> IssuedCert) result" where
  "enroll ee seed now ip rq db =
     (if er_hostname rq = [] \<or> length (er_hostname rq) > 255 then Inl (HTTPError 422 ''validation error'')
      else (case consume_token (ee_sha256 ee) now (er_token rq) db of
          None \<Rightarrow> Inl (bad_request ''invalid or expired token'')
        | Some (db, token_id, tenant) \<Rightarrow> finish_rest ee seed now ip rq token_id tenant db))"

text \<open>
  The gRPC path has the operating system as text. Every failure after the checks of the request is rolled
  back; the ones the service does not foresee are answered \<open>INTERNAL\<close>.
\<close>

definition finish_grpc ::
  "enroll_env \<Rightarrow> nat \<Rightarrow> datetime \<Rightarrow> string option \<Rightarrow> string \<Rightarrow> EnrollRequest \<Rightarrow> uuid \<Rightarrow> uuid \<Rightarrow> fleet \<Rightarrow> rpc_status + (fleet \<times> uuid \<times> IssuedCert)" where
  "finish_grpc ee seed now peer os rq token_id tenant db = (case map_of PB_OS_FAMILY (lower os) of
       None \<Rightarrow> Inl INVALID_ARGUMENT
     | Some family \<Rightarrow>
         (case enroll_host ee seed now ''grpc'' peer (rq\<lparr>er_os_family := family\<rparr>) token_id tenant db of
            Inl e \<Rightarrow> Inl INTERNAL
          | Inr (db, host, issued) \<Rightarrow>
              Inr (fleet_audit (enroll_audit host tenant [(''via'', PStr ''grpc''), (''hostname'', PStr (er_hostname rq))] None) db, host, issued)))"

definition do_enroll ::
  "enroll_env \<Rightarrow> nat \<Rightarrow> datetime \<Rightarrow> string option \<Rightarrow> string \<Rightarrow> EnrollRequest \<Rightarrow> fleet \<Rightarrow> rpc_status + (fleet \<times> uuid \<times> IssuedCert)" where
  "do_enroll ee seed now peer os rq db =
     (if er_token rq = [] \<or> er_csr_pem rq = [] \<or> er_hostname rq = [] then Inl INVALID_ARGUMENT
      else (case consume_token (ee_sha256 ee) now (er_token rq) db of
          None \<Rightarrow> Inl PERMISSION_DENIED
        | Some (db, token_id, tenant) \<Rightarrow> finish_grpc ee seed now peer os rq token_id tenant db))"

end
