(* ===== verification/Enrollment_Correct.thy ===== *)
theory Enrollment_Correct
  imports Enrollment
begin

text \<open>
  Enrollment under concurrency. A transaction holds the lock on the token row from its update to its end;
  PostgreSQL lets a second update or a deletion of that row wait, and evaluates its \<open>WHERE\<close> again on the
  committed row. The steps below interleave any number of transactions of both paths with the operations
  of administrators, and the labels record who was let in with which token.
\<close>

section \<open>Steps\<close>

record enroll_tx =
  tx_token :: uuid
  tx_tenant :: uuid
  tx_raw :: string
  tx_time :: datetime

type_synonym enroll_state = "fleet \<times> enroll_tx list"

datatype enroll_label = Created EnrollmentToken | Committed uuid string uuid | Silent

definition finishes :: "enroll_env \<Rightarrow> enroll_tx \<Rightarrow> fleet \<Rightarrow> fleet \<Rightarrow> uuid \<Rightarrow> bool" where
  "finishes ee t db db' host \<longleftrightarrow> (\<exists>seed now peer os rq issued.
     finish_rest ee seed now peer rq (tx_token t) (tx_tenant t) (mark_used (tx_token t) (tx_time t) db) = Inr (db', host, issued) \<or>
     finish_grpc ee seed now peer os rq (tx_token t) (tx_tenant t) (mark_used (tx_token t) (tx_time t) db) = Inr (db', host, issued))"

inductive enroll_step :: "enroll_env \<Rightarrow> enroll_state \<Rightarrow> enroll_label \<Rightarrow> enroll_state \<Rightarrow> bool" for ee where
  consume: "consume_token (ee_sha256 ee) now raw db = Some (db', token_id, tenant) \<Longrightarrow> token_id \<notin> tx_token ` set txs \<Longrightarrow>
    enroll_step ee (db, txs) Silent (db, \<lparr>tx_token = token_id, tx_tenant = tenant, tx_raw = raw, tx_time = now\<rparr> # txs)"
| commit: "t \<in> set txs \<Longrightarrow> finishes ee t db db' host \<Longrightarrow>
    enroll_step ee (db, txs) (Committed (tx_token t) (tx_raw t) host) (db', remove1 t txs)"
| rollback: "t \<in> set txs \<Longrightarrow> enroll_step ee (db, txs) Silent (db, remove1 t txs)"
| create: "create_token (ee_sha256 ee) now plaintext label ttl tenant actor db = Inr (db', token) \<Longrightarrow>
    enroll_step ee (db, txs) (Created token) (db', txs)"
| revoke: "revoke_token token_id actor db = Inr db' \<Longrightarrow> token_id \<notin> tx_token ` set txs \<Longrightarrow>
    enroll_step ee (db, txs) Silent (db', txs)"

inductive enroll_run :: "enroll_env \<Rightarrow> enroll_state \<Rightarrow> enroll_label list \<Rightarrow> enroll_state \<Rightarrow> bool" for ee s where
  start: "enroll_run ee s [] s"
| step: "enroll_run ee s ls s' \<Longrightarrow> enroll_step ee s' l s'' \<Longrightarrow> enroll_run ee s (ls @ [l]) s''"

text \<open>A request that runs alone takes the two steps of its path.\<close>

lemma enroll_is_two_steps:
  assumes "enroll ee seed now ip rq db = Inr (db', host, issued)"
  shows "\<exists>t. enroll_step ee (db, []) Silent (db, [t]) \<and> enroll_step ee (db, [t]) (Committed (tx_token t) (er_token rq) host) (db', [])"
proof -
  from assms obtain db1 token_id tenant where c: "consume_token (ee_sha256 ee) now (er_token rq) db = Some (db1, token_id, tenant)"
    and f: "finish_rest ee seed now ip rq token_id tenant db1 = Inr (db', host, issued)"
    by (auto simp: enroll_def split: if_splits option.splits)
  let ?t = "\<lparr>tx_token = token_id, tx_tenant = tenant, tx_raw = er_token rq, tx_time = now\<rparr>"
  have "db1 = mark_used token_id now db" using c by (auto simp: consume_token_def)
  with f have "finishes ee ?t db db' host" unfolding finishes_def enroll_tx.simps by blast
  then have "enroll_step ee (db, [?t]) (Committed (tx_token ?t) (tx_raw ?t) host) (db', remove1 ?t [?t])" by (intro commit) simp_all
  moreover have "enroll_step ee (db, []) Silent (db, [?t])" using consume [OF c, of "[]"] by simp
  ultimately show ?thesis by auto
qed

section \<open>What the operations leave alone\<close>

text \<open>A step of enrollment keeps the identity of every token row and of every host row.\<close>

definition row_key :: "EnrollmentToken \<Rightarrow> uuid \<times> uuid \<times> string" where
  "row_key t = (et_id t, et_tenant_id t, et_token_hash t)"

definition host_key :: "AgentHost \<Rightarrow> uuid \<times> uuid" where
  "host_key h = (hst_id h, hst_tenant_id h)"

lemma detect_simps [simp]:
  "fl_tokens (detect_reenrollment w hn os i now src ip db) = fl_tokens db" "fl_hosts (detect_reenrollment w hn os i now src ip db) = fl_hosts db"
  "fl_next db \<le> fl_next (detect_reenrollment w hn os i now src ip db)"
  by (auto simp: detect_reenrollment_def ensure_rule_def Let_def split: option.split)

lemma sign_csr_keeps:
  "sign_csr ce seed now pem host hn db = Inr (db', issued) \<Longrightarrow> fl_tokens db' = fl_tokens db \<and> fl_hosts db' = fl_hosts db \<and> fl_next db' = fl_next db"
  by (auto simp: sign_csr_def get_or_bootstrap_def bindE_eq_Inr Let_def split: if_splits option.splits list.splits prod.splits)

lemma enroll_host_effect:
  assumes "enroll_host ee seed now src ip rq token_id tenant db = Inr (db', host, issued)"
  shows "host = fl_next db" "host < fl_next db'" "map host_key (fl_hosts db') = map host_key (fl_hosts db) @ [(host, tenant)]"
    "fl_tokens db' = map (\<lambda>t. if et_id t = token_id then t\<lparr>et_used_by_host_id := Some host\<rparr> else t) (fl_tokens db)"
proof -
  let ?h = "fl_next db"
  let ?db1 = "detect_reenrollment (ee_window ee) (er_hostname rq) (er_os_family rq) ?h now src ip
      (db\<lparr>fl_hosts := fl_hosts db @ [new_host now ?h tenant rq], fl_next := fl_next db + 1\<rparr>)"
  from assms obtain db2 where s: "sign_csr (ee_ca ee) seed now (er_csr_pem rq) ?h (er_hostname rq) ?db1 = Inr (db2, issued)"
    and r: "host = ?h" "db' = bind_token_to_host token_id ?h (set_fingerprint ?h (ic_fingerprint issued) db2)"
    by (auto simp: enroll_host_def Let_def bindE_eq_Inr split: if_splits)
  have "Suc ?h \<le> fl_next ?db1" using detect_simps(3) [of "db\<lparr>fl_hosts := fl_hosts db @ [new_host now ?h tenant rq], fl_next := fl_next db + 1\<rparr>"] by simp
  then show "host = fl_next db" "host < fl_next db'" "map host_key (fl_hosts db') = map host_key (fl_hosts db) @ [(host, tenant)]"
    "fl_tokens db' = map (\<lambda>t. if et_id t = token_id then t\<lparr>et_used_by_host_id := Some host\<rparr> else t) (fl_tokens db)"
    using sign_csr_keeps [OF s] r
    by (auto simp: bind_token_to_host_def set_fingerprint_def host_key_def new_host_def comp_def)
qed

lemma finish_effect:
  "finish_rest ee seed now ip rq i tenant db = Inr (db', host, issued) \<Longrightarrow>
     \<exists>src rq db1. enroll_host ee seed now src ip rq i tenant db = Inr (db1, host, issued) \<and>
       fl_tokens db' = fl_tokens db1 \<and> fl_hosts db' = fl_hosts db1 \<and> fl_next db' = fl_next db1"
  "finish_grpc ee seed now ip os rq i tenant db = Inr (db', host, issued) \<Longrightarrow>
     \<exists>src rq db1. enroll_host ee seed now src ip rq i tenant db = Inr (db1, host, issued) \<and>
       fl_tokens db' = fl_tokens db1 \<and> fl_hosts db' = fl_hosts db1 \<and> fl_next db' = fl_next db1"
  unfolding finish_rest_def finish_grpc_def fleet_audit_def by (auto simp: bindE_eq_Inr split: option.splits sum.splits) fastforce+

lemma finishes_effect:
  assumes "finishes ee t db db' host"
  shows "host = fl_next db" "host < fl_next db'" "map host_key (fl_hosts db') = map host_key (fl_hosts db) @ [(host, tx_tenant t)]"
    "fl_tokens db' = map (\<lambda>x. if et_id x = tx_token t then x\<lparr>et_used_at := Some (tx_time t), et_used_by_host_id := Some host\<rparr> else x) (fl_tokens db)"
proof -
  from assms obtain seed now src ip rq issued db1 where
    "enroll_host ee seed now src ip rq (tx_token t) (tx_tenant t) (mark_used (tx_token t) (tx_time t) db) = Inr (db1, host, issued)"
    "fl_tokens db' = fl_tokens db1" "fl_hosts db' = fl_hosts db1" "fl_next db' = fl_next db1"
    unfolding finishes_def by (elim exE disjE) (auto dest!: finish_effect)
  with enroll_host_effect [OF this(1)] show "host = fl_next db" "host < fl_next db'"
    "map host_key (fl_hosts db') = map host_key (fl_hosts db) @ [(host, tx_tenant t)]"
    "fl_tokens db' = map (\<lambda>x. if et_id x = tx_token t then x\<lparr>et_used_at := Some (tx_time t), et_used_by_host_id := Some host\<rparr> else x) (fl_tokens db)"
    by (simp_all add: mark_used_def)
qed

lemma create_token_effect:
  assumes "create_token sha now plain label ttl tenant actor db = Inr (db', token)"
  shows "fl_tokens db' = fl_tokens db @ [token]" "fl_hosts db' = fl_hosts db" "fl_next db' = Suc (fl_next db)" "et_id token = fl_next db"
    "et_used_at token = None"
  using assms by (auto simp: create_token_def bindE_eq_Inr Let_def fleet_audit_def split: if_splits)

lemma revoke_token_effect:
  assumes "revoke_token i actor db = Inr db'"
  shows "fl_tokens db' = filter (\<lambda>t. et_id t \<noteq> i) (fl_tokens db)" "fl_hosts db' = fl_hosts db" "fl_next db' = fl_next db"
  using assms by (auto simp: revoke_token_def bindE_eq_Inr fleet_audit_def split: if_splits)

lemma consume_token_effect:
  assumes "consume_token sha now raw db = Some (db', i, tenant)"
  obtains t where "t \<in> set (fl_tokens db)" "token_live sha now raw t" "i = et_id t" "tenant = et_tenant_id t"
proof -
  from assms obtain t where t: "find (token_live sha now raw) (fl_tokens db) = Some t" "i = et_id t" "tenant = et_tenant_id t"
    by (auto simp: consume_token_def)
  moreover from t(1) have "t \<in> set (fl_tokens db) \<and> token_live sha now raw t" by (auto simp: find_Some_iff)
  ultimately show thesis using that by blast
qed

section \<open>The invariant\<close>

fun enrolled_tokens :: "enroll_label list \<Rightarrow> uuid list" where
  "enrolled_tokens [] = []"
| "enrolled_tokens (Committed i raw host # ls) = i # enrolled_tokens ls"
| "enrolled_tokens (_ # ls) = enrolled_tokens ls"

lemma enrolled_tokens_append [simp]: "enrolled_tokens (ls @ ls') = enrolled_tokens ls @ enrolled_tokens ls'"
  by (induction ls rule: enrolled_tokens.induct) auto

definition issued_keys :: "EnrollmentToken list \<Rightarrow> enroll_label list \<Rightarrow> (uuid \<times> uuid \<times> string) set" where
  "issued_keys ts ls = row_key ` (set ts \<union> {t. Created t \<in> set ls})"

lemma issued_keys_mono: "issued_keys ts ls \<subseteq> issued_keys ts (ls @ [l])"
  by (auto simp: issued_keys_def)

text \<open>The tables are well formed, and every row of the token table was issued.\<close>

definition fleet_ok :: "fleet \<Rightarrow> bool" where
  "fleet_ok db \<longleftrightarrow> distinct (map et_id (fl_tokens db)) \<and> (\<forall>i \<in> set (map et_id (fl_tokens db)). i < fl_next db) \<and>
     distinct (map hst_id (fl_hosts db)) \<and> (\<forall>i \<in> set (map hst_id (fl_hosts db)). i < fl_next db)"

text \<open>An open transaction holds an unused row; the rows of committed ones are used.\<close>

definition holds_row :: "enroll_env \<Rightarrow> fleet \<Rightarrow> enroll_tx \<Rightarrow> bool" where
  "holds_row ee db t \<longleftrightarrow> (\<exists>k \<in> set (fl_tokens db). row_key k = (tx_token t, tx_tenant t, hash_enrollment_token (ee_sha256 ee) (tx_raw t)) \<and>
     et_used_at k = None)"

definition enroll_inv :: "enroll_env \<Rightarrow> EnrollmentToken list \<Rightarrow> enroll_state \<Rightarrow> enroll_label list \<Rightarrow> bool" where
  "enroll_inv ee ts s ls \<longleftrightarrow> (case s of (db, txs) \<Rightarrow>
     fleet_ok db \<and> row_key ` set (fl_tokens db) \<subseteq> issued_keys ts ls \<and>
     distinct (map tx_token txs) \<and> (\<forall>t \<in> set txs. holds_row ee db t) \<and>
     distinct (enrolled_tokens ls) \<and> (\<forall>i \<in> set (enrolled_tokens ls). i < fl_next db) \<and>
     (\<forall>k \<in> set (fl_tokens db). et_id k \<in> set (enrolled_tokens ls) \<longrightarrow> et_used_at k \<noteq> None) \<and>
     (\<forall>i raw host. Committed i raw host \<in> set ls \<longrightarrow>
        (\<exists>tenant. (i, tenant, hash_enrollment_token (ee_sha256 ee) raw) \<in> issued_keys ts ls \<and> (host, tenant) \<in> host_key ` set (fl_hosts db))))"

lemma inv_consume:
  assumes "enroll_inv ee ts (db, txs) ls" "consume_token (ee_sha256 ee) now raw db = Some (db', i, tenant)" "i \<notin> tx_token ` set txs"
  shows "enroll_inv ee ts (db, \<lparr>tx_token = i, tx_tenant = tenant, tx_raw = raw, tx_time = now\<rparr> # txs) (ls @ [Silent])"
proof -
  from assms(2) obtain t where "t \<in> set (fl_tokens db)" "token_live (ee_sha256 ee) now raw t" "i = et_id t" "tenant = et_tenant_id t"
    by (rule consume_token_effect)
  then have "holds_row ee db \<lparr>tx_token = i, tx_tenant = tenant, tx_raw = raw, tx_time = now\<rparr>"
    by (auto simp: holds_row_def token_live_def row_key_def)
  with assms(1,3) show ?thesis by (simp add: enroll_inv_def issued_keys_def)
qed

lemma distinct_map_remove1: "distinct (map f xs) \<Longrightarrow> distinct (map f (remove1 x xs))"
  using set_remove1_subset by (induction xs) fastforce+

lemma remove1_other: "distinct (map f xs) \<Longrightarrow> x \<in> set xs \<Longrightarrow> u \<in> set (remove1 x xs) \<Longrightarrow> f u \<noteq> f x"
proof (induction xs)
  case (Cons a xs)
  then show ?case by (cases "a = x") (auto simp: image_iff)
qed simp

lemma inv_rollback: "enroll_inv ee ts (db, txs) ls \<Longrightarrow> enroll_inv ee ts (db, remove1 t txs) (ls @ [Silent])"
  using set_remove1_subset [of t txs] by (auto simp: enroll_inv_def issued_keys_def distinct_map_remove1)

lemma inv_create:
  assumes "enroll_inv ee ts (db, txs) ls" "create_token sha now plain label ttl tenant actor db = Inr (db', token)"
  shows "enroll_inv ee ts (db', txs) (ls @ [Created token])"
proof -
  note e = create_token_effect [OF assms(2)]
  from assms(1) have "row_key ` set (fl_tokens db') \<subseteq> issued_keys ts (ls @ [Created token])" "fleet_ok db'"
    by (auto simp: enroll_inv_def e issued_keys_def fleet_ok_def)
  moreover have "\<forall>t \<in> set txs. holds_row ee db' t" using assms(1) by (auto simp: enroll_inv_def holds_row_def e)
  moreover have "\<forall>k \<in> set (fl_tokens db'). et_id k \<in> set (enrolled_tokens ls) \<longrightarrow> et_used_at k \<noteq> None"
    using assms(1) by (auto simp: enroll_inv_def e)
  moreover note issued_keys_mono [of ts ls "Created token"]
  ultimately show ?thesis using assms(1) unfolding enroll_inv_def by (fastforce simp: e)
qed

lemma inv_revoke:
  assumes "enroll_inv ee ts (db, txs) ls" "revoke_token i actor db = Inr db'" "i \<notin> tx_token ` set txs"
  shows "enroll_inv ee ts (db', txs) (ls @ [Silent])"
proof -
  note e = revoke_token_effect [OF assms(2)]
  have "\<forall>t \<in> set txs. holds_row ee db' t" using assms(1,3) by (fastforce simp: enroll_inv_def holds_row_def e row_key_def)
  moreover have "fleet_ok db'" using assms(1) by (auto simp: enroll_inv_def fleet_ok_def e distinct_map_filter)
  ultimately show ?thesis using assms(1) by (auto simp: enroll_inv_def issued_keys_def e)
qed

lemma inv_commit:
  assumes "enroll_inv ee ts (db, txs) ls" "t \<in> set txs" "finishes ee t db db' host"
  shows "enroll_inv ee ts (db', remove1 t txs) (ls @ [Committed (tx_token t) (tx_raw t) host])"
proof -
  let ?l = "Committed (tx_token t) (tx_raw t) host"
  let ?mark = "\<lambda>x. if et_id x = tx_token t then x\<lparr>et_used_at := Some (tx_time t), et_used_by_host_id := Some host\<rparr> else x"
  note e = finishes_effect [OF assms(3)]
  have inv: "fleet_ok db" "row_key ` set (fl_tokens db) \<subseteq> issued_keys ts ls" "distinct (map tx_token txs)" "\<forall>t \<in> set txs. holds_row ee db t"
    "distinct (enrolled_tokens ls)" "\<forall>i \<in> set (enrolled_tokens ls). i < fl_next db"
    "\<forall>k \<in> set (fl_tokens db). et_id k \<in> set (enrolled_tokens ls) \<longrightarrow> et_used_at k \<noteq> None"
    "\<forall>i raw host. Committed i raw host \<in> set ls \<longrightarrow>
      (\<exists>tenant. (i, tenant, hash_enrollment_token (ee_sha256 ee) raw) \<in> issued_keys ts ls \<and> (host, tenant) \<in> host_key ` set (fl_hosts db))"
    using assms(1) by (auto simp: enroll_inv_def)
  obtain k where k: "k \<in> set (fl_tokens db)" "et_used_at k = None"
    "row_key k = (tx_token t, tx_tenant t, hash_enrollment_token (ee_sha256 ee) (tx_raw t))"
    using inv(4) assms(2) by (auto simp: holds_row_def)
  have keys: "row_key (?mark x) = row_key x" "et_id (?mark x) = et_id x" for x by (auto simp: row_key_def)
  have issued: "issued_keys ts (ls @ [?l]) = issued_keys ts ls" by (auto simp: issued_keys_def)
  have hosts: "map hst_id (fl_hosts db') = map hst_id (fl_hosts db) @ [host]"
    using arg_cong [OF e(3), of "map fst"] by (simp add: host_key_def comp_def)
  have next_le: "fl_next db < fl_next db'" using e(1,2) by simp
  have ids: "map et_id (fl_tokens db') = map et_id (fl_tokens db)" by (simp add: e(4) keys)
  have "fleet_ok db'" using inv(1) next_le e(1) unfolding fleet_ok_def hosts ids by (auto dest: less_trans)
  moreover have "row_key ` set (fl_tokens db') \<subseteq> issued_keys ts (ls @ [?l])"
    using inv(2) by (simp only: issued e(4) set_map image_image keys)
  moreover have "\<forall>u \<in> set (remove1 t txs). holds_row ee db' u"
  proof
    fix u assume u: "u \<in> set (remove1 t txs)"
    then have "tx_token u \<noteq> tx_token t" by (rule remove1_other [OF inv(3) assms(2)])
    moreover have "holds_row ee db u" using inv(4) u by (meson notin_set_remove1)
    ultimately show "holds_row ee db' u" by (fastforce simp: holds_row_def e(4) row_key_def)
  qed
  moreover have "tx_token t \<notin> set (enrolled_tokens ls)" using inv(7) k by (auto simp: row_key_def)
  moreover have "\<forall>i \<in> set (enrolled_tokens ls). i < fl_next db'" using inv(6) next_le by auto
  moreover have "tx_token t < fl_next db'" using inv(1) k next_le by (auto simp: fleet_ok_def row_key_def)
  moreover have "\<forall>x \<in> set (fl_tokens db'). et_id x \<in> set (enrolled_tokens ls) \<union> {tx_token t} \<longrightarrow> et_used_at x \<noteq> None"
    using inv(7) by (auto simp: e(4))
  moreover have "\<exists>tenant. (i, tenant, hash_enrollment_token (ee_sha256 ee) raw) \<in> issued_keys ts (ls @ [?l]) \<and> (h, tenant) \<in> host_key ` set (fl_hosts db')"
    if "Committed i raw h \<in> set (ls @ [?l])" for i raw h
  proof -
    have hs: "host_key ` set (fl_hosts db') = insert (host, tx_tenant t) (host_key ` set (fl_hosts db))"
      using arg_cong [OF e(3), of set] by simp
    have "(tx_token t, tx_tenant t, hash_enrollment_token (ee_sha256 ee) (tx_raw t)) \<in> issued_keys ts ls"
      using inv(2) k by (metis image_eqI subsetD)
    moreover from that have "Committed i raw h \<in> set ls \<or> (i = tx_token t \<and> raw = tx_raw t \<and> h = host)" by auto
    ultimately show ?thesis using inv(8) unfolding issued hs by blast
  qed
  ultimately show ?thesis using inv(3,5) by (simp add: enroll_inv_def distinct_map_remove1)
qed

lemma inv_step: "enroll_step ee s l s' \<Longrightarrow> enroll_inv ee ts s ls \<Longrightarrow> enroll_inv ee ts s' (ls @ [l])"
  by (induction rule: enroll_step.induct) (auto intro: inv_consume inv_commit inv_rollback inv_create inv_revoke)

lemma inv_run: "enroll_run ee s ls s' \<Longrightarrow> enroll_inv ee ts s [] \<Longrightarrow> enroll_inv ee ts s' ls"
  by (induction rule: enroll_run.induct) (auto intro: inv_step)

section \<open>One enrollment in detail\<close>

lemma set_fingerprint_new:
  assumes "\<forall>h \<in> set hs. hst_id h \<noteq> i" "hst_id n = i"
  shows "map (\<lambda>h. if hst_id h = i then h\<lparr>hst_cert_fingerprint := Some fp\<rparr> else h) (hs @ [n]) = hs @ [n\<lparr>hst_cert_fingerprint := Some fp\<rparr>]"
  using assms by (auto simp: map_idI)

lemma sign_csr_issues:
  assumes "sign_csr ce seed now pem host hn db = Inr (db', issued)"
  obtains csr where "ce_parse_csr ce pem = Some csr" "csr_signature_valid csr" "check_public_key (csr_public_key csr) = Inr ()"
    "ct_common_name (ic_cert issued) = uuid_str host" "ct_public_key (ic_cert issued) = csr_public_key csr"
    "ct_not_after (ic_cert issued) = now + seconds (86400 * 90)" "ic_fingerprint issued = ce_fingerprint ce (ic_cert issued)" "fl_alerts db' = fl_alerts db"
  using assms that
  by (auto simp: sign_csr_def get_or_bootstrap_def bindE_eq_Inr Let_def CLIENT_CERT_VALIDITY_DAYS_def
      split: if_splits option.splits list.splits prod.splits)

lemma detect_alerts:
  "fl_alerts (detect_reenrollment w hn os i now src ip db) = fl_alerts db @
     (case prior_enrollment (now - seconds w) hn i (fl_hosts db) of None \<Rightarrow> [] | Some p \<Rightarrow> [reenrollment_alert w now hn os i src ip p (fl_next db)])"
  by (simp add: detect_reenrollment_def ensure_rule_def Let_def split: option.split)

text \<open>The new host is no candidate for its own prior enrollment.\<close>

lemma prior_enrollment_new: "hst_id n = i \<Longrightarrow> prior_enrollment cutoff hn i (hs @ [n]) = prior_enrollment cutoff hn i hs"
  by (simp add: prior_enrollment_def enrolled_since_def)

lemma enroll_host_contract:
  assumes "enroll_host ee seed now src ip rq token_id tenant db = Inr (db', host, issued)" "fleet_ok db"
  shows "fl_hosts db' = fl_hosts db @ [(new_host now host tenant rq)\<lparr>hst_cert_fingerprint := Some (ic_fingerprint issued)\<rparr>] \<and>
    fl_alerts db' = fl_alerts db @ (case prior_enrollment (now - seconds (ee_window ee)) (er_hostname rq) host (fl_hosts db) of
       None \<Rightarrow> [] | Some p \<Rightarrow> [reenrollment_alert (ee_window ee) now (er_hostname rq) (er_os_family rq) host src ip p (Suc host)]) \<and>
    (\<exists>csr. ce_parse_csr (ee_ca ee) (er_csr_pem rq) = Some csr \<and> csr_signature_valid csr \<and> check_public_key (csr_public_key csr) = Inr () \<and>
       ct_common_name (ic_cert issued) = uuid_str host \<and> ct_public_key (ic_cert issued) = csr_public_key csr \<and>
       ct_not_after (ic_cert issued) = now + seconds (86400 * 90) \<and> ic_fingerprint issued = ce_fingerprint (ee_ca ee) (ic_cert issued))"
proof -
  let ?h = "fl_next db"
  let ?db0 = "db\<lparr>fl_hosts := fl_hosts db @ [new_host now ?h tenant rq], fl_next := fl_next db + 1\<rparr>"
  let ?db1 = "detect_reenrollment (ee_window ee) (er_hostname rq) (er_os_family rq) ?h now src ip ?db0"
  from assms(1) obtain db2 where s: "sign_csr (ee_ca ee) seed now (er_csr_pem rq) ?h (er_hostname rq) ?db1 = Inr (db2, issued)"
    and r: "host = ?h" "db' = bind_token_to_host token_id ?h (set_fingerprint ?h (ic_fingerprint issued) db2)"
    by (auto simp: enroll_host_def Let_def bindE_eq_Inr split: if_splits)
  have new: "hst_id (new_host now ?h tenant rq) = ?h" by (simp add: new_host_def)
  have "\<forall>h \<in> set (fl_hosts db). hst_id h \<noteq> ?h" using assms(2) by (auto simp: fleet_ok_def)
  then have "fl_hosts db' = fl_hosts db @ [(new_host now ?h tenant rq)\<lparr>hst_cert_fingerprint := Some (ic_fingerprint issued)\<rparr>]"
    using sign_csr_keeps [OF s] set_fingerprint_new [OF _ new] by (simp add: r bind_token_to_host_def set_fingerprint_def)
  moreover obtain csr where csr: "ce_parse_csr (ee_ca ee) (er_csr_pem rq) = Some csr" "csr_signature_valid csr" "check_public_key (csr_public_key csr) = Inr ()"
    "ct_common_name (ic_cert issued) = uuid_str ?h" "ct_public_key (ic_cert issued) = csr_public_key csr"
    "ct_not_after (ic_cert issued) = now + seconds (86400 * 90)" "ic_fingerprint issued = ce_fingerprint (ee_ca ee) (ic_cert issued)" "fl_alerts db2 = fl_alerts ?db1"
    using sign_csr_issues [OF s] by blast
  moreover have "fl_alerts db' = fl_alerts ?db1" using csr(8) by (simp add: r bind_token_to_host_def set_fingerprint_def)
  ultimately show ?thesis using r(1) by (auto simp: detect_alerts prior_enrollment_new [OF new] cong: option.case_cong)
qed

lemma live_token_unique:
  assumes "distinct (map et_token_hash (fl_tokens db))" "t \<in> set (fl_tokens db)" "token_live sha now raw t"
  shows "find (token_live sha now raw) (fl_tokens db) = Some t"
proof -
  have "u = t" if "u \<in> set (fl_tokens db)" "token_live sha now raw u" for u
    using that assms by (auto simp: token_live_def distinct_map inj_on_def)
  moreover obtain u where "find (token_live sha now raw) (fl_tokens db) = Some u"
    using assms(2,3) by (cases "find (token_live sha now raw) (fl_tokens db)") (auto simp: find_None_iff)
  ultimately show ?thesis by (auto simp: find_Some_iff) (metis nth_mem)
qed

lemma used_token_rejected:
  assumes "distinct (map et_token_hash (fl_tokens db))" "t \<in> set (fl_tokens db)" "et_token_hash t = hash_enrollment_token sha raw" "et_used_at t \<noteq> None"
  shows "consume_token sha now raw db = None"
proof -
  have "\<not> token_live sha now raw u" if "u \<in> set (fl_tokens db)" for u
    using that assms by (auto simp: token_live_def distinct_map inj_on_def)
  then show ?thesis by (simp add: consume_token_def find_None_iff)
qed

section \<open>Properties\<close>

text \<open>
  C23: an enrollment token lets in one host. Under every interleaving of enrollments on both paths, failed
  ones included, with the creation and revocation of tokens, no token commits two enrollments; whoever
  enrolled presented the secret of a token that was issued, and its host has that token's tenant and an
  id of its own.
\<close>

theorem enrollment_single_use:
  assumes "enroll_run ee (db, []) ls (db', txs)" "fleet_ok db"
  shows "distinct (enrolled_tokens ls) \<and> distinct (map hst_id (fl_hosts db')) \<and>
    (\<forall>i raw host. Committed i raw host \<in> set ls \<longrightarrow>
      (\<exists>token h. (token \<in> set (fl_tokens db) \<or> Created token \<in> set ls) \<and> et_id token = i \<and>
         et_token_hash token = hash_enrollment_token (ee_sha256 ee) raw \<and>
         h \<in> set (fl_hosts db') \<and> hst_id h = host \<and> hst_tenant_id h = et_tenant_id token))"
proof -
  have "enroll_inv ee (fl_tokens db) (db, []) []" using assms(2) by (auto simp: enroll_inv_def issued_keys_def)
  from inv_run [OF assms(1) this] show ?thesis
    by (fastforce simp: enroll_inv_def fleet_ok_def issued_keys_def row_key_def host_key_def)
qed

text \<open>
  What an enrollment does. It succeeds only with an unused, unexpired token of that secret and a
  signed request for an acceptable key; it adds one pending host, in the token's tenant, pinned to the
  fingerprint of a 90-day certificate whose common name is the host's id and whose key is the requested
  one; it raises one alert exactly when a host of that name that is not decommissioned enrolled inside
  the window; it marks the token, after which the same secret is refused.
\<close>

theorem enroll_contract:
  assumes "enroll ee seed now ip rq db = Inr (db', host, issued)" "fleet_ok db" "distinct (map et_token_hash (fl_tokens db))"
  shows "\<exists>t csr. t \<in> set (fl_tokens db) \<and> token_live (ee_sha256 ee) now (er_token rq) t \<and>
    ce_parse_csr (ee_ca ee) (er_csr_pem rq) = Some csr \<and> csr_signature_valid csr \<and> check_public_key (csr_public_key csr) = Inr () \<and>
    ct_common_name (ic_cert issued) = uuid_str host \<and> ct_public_key (ic_cert issued) = csr_public_key csr \<and>
    ct_not_after (ic_cert issued) = now + seconds (86400 * 90) \<and> ic_fingerprint issued = ce_fingerprint (ee_ca ee) (ic_cert issued) \<and>
    fl_hosts db' = fl_hosts db @ [(new_host now host (et_tenant_id t) rq)\<lparr>hst_cert_fingerprint := Some (ic_fingerprint issued)\<rparr>] \<and>
    fl_alerts db' = fl_alerts db @ (case prior_enrollment (now - seconds (ee_window ee)) (er_hostname rq) host (fl_hosts db) of
       None \<Rightarrow> [] | Some p \<Rightarrow> [reenrollment_alert (ee_window ee) now (er_hostname rq) (er_os_family rq) host ''rest'' ip p (Suc host)]) \<and>
    (\<forall>now'. consume_token (ee_sha256 ee) now' (er_token rq) db' = None)"
proof -
  from assms(1) obtain db1 i tenant where c: "consume_token (ee_sha256 ee) now (er_token rq) db = Some (db1, i, tenant)"
    and f: "finish_rest ee seed now ip rq i tenant db1 = Inr (db', host, issued)"
    by (auto simp: enroll_def split: if_splits option.splits)
  from c obtain t where t: "t \<in> set (fl_tokens db)" "token_live (ee_sha256 ee) now (er_token rq) t" "i = et_id t" "tenant = et_tenant_id t"
    by (rule consume_token_effect)
  have db1: "db1 = mark_used i now db" using c by (auto simp: consume_token_def)
  from f obtain db2 where h: "enroll_host ee seed now ''rest'' ip rq i tenant db1 = Inr (db2, host, issued)"
    and d: "fl_tokens db' = fl_tokens db2" "fl_hosts db' = fl_hosts db2" "fl_alerts db' = fl_alerts db2"
    by (auto simp: finish_rest_def bindE_eq_Inr fleet_audit_def)
  have same: "fl_hosts db1 = fl_hosts db" "fl_alerts db1 = fl_alerts db" by (simp_all add: db1 mark_used_def)
  have ok: "fleet_ok db1" using assms(2) by (simp add: fleet_ok_def db1 mark_used_def comp_def image_image if_distrib [of et_id] cong: if_cong)
  let ?mark = "\<lambda>x. if et_id x = i then x\<lparr>et_used_at := Some now, et_used_by_host_id := Some host\<rparr> else x"
  have tokens: "fl_tokens db' = map ?mark (fl_tokens db)"
    by (simp add: d(1) enroll_host_effect(4) [OF h] db1 mark_used_def)
  have "map et_token_hash (fl_tokens db') = map et_token_hash (fl_tokens db)" by (simp add: tokens)
  then have "distinct (map et_token_hash (fl_tokens db'))" using assms(3) by simp
  moreover have "?mark t \<in> set (fl_tokens db')" using t(1) unfolding tokens set_map by (rule imageI)
  moreover have "et_token_hash (?mark t) = hash_enrollment_token (ee_sha256 ee) (er_token rq)" "et_used_at (?mark t) \<noteq> None"
    using t(2,3) by (auto simp: token_live_def)
  ultimately have "\<forall>now'. consume_token (ee_sha256 ee) now' (er_token rq) db' = None" by (blast intro: used_token_rejected)
  moreover note enroll_host_contract [OF h ok, unfolded same, folded d] t
  ultimately show ?thesis by metis
qed

section \<open>Where tenants are not kept apart\<close>

text \<open>Any administrator can revoke a token of any tenant.\<close>

lemma revoke_crosses_tenants:
  assumes "RequireAdmin actor = Inr actor" "t \<in> set (fl_tokens db)"
  shows "\<exists>db'. revoke_token (et_id t) actor db = Inr db' \<and> fl_tokens db' = filter (\<lambda>u. et_id u \<noteq> et_id t) (fl_tokens db)"
  using assms by (auto simp: revoke_token_def list_ex_iff fleet_audit_def)

text \<open>
  The detector looks for the host name in every tenant, and files the alert under the tenant it found it
  in: enrolling a host of a common name can put an alert about a foreign host into another tenant.
\<close>

lemma reenrollment_alert_crosses_tenants:
  assumes "prior_enrollment (now - seconds w) hn i (fl_hosts db) = Some p" "hst_tenant_id p \<noteq> tenant"
  shows "\<exists>a \<in> set (fl_alerts (detect_reenrollment w hn os i now src ip db)). a_host_id a = Some i \<and> a_tenant_id a \<noteq> tenant"
  using assms by (auto simp: detect_alerts reenrollment_alert_def Let_def)

section \<open>Witnesses\<close>

definition demo_ca :: ca_env where
  "demo_ca = \<lparr>ce_parse_csr = (\<lambda>pem. if pem = ''csr'' then Some \<lparr>csr_signature_valid = True, csr_public_key = RSA_key 2048 ''k''\<rparr> else None),
     ce_bootstrap = (\<lambda>seed now. \<lparr>cau_cert_pem = ''ca'', cau_key_encrypted = [], cau_not_after = now, cau_fingerprint = []\<rparr>),
     ce_key_loads = (\<lambda>ca. True), ce_subject = (\<lambda>ca. ''EDR''), ce_serial = id, ce_fingerprint = (\<lambda>c. ct_common_name c)\<rparr>"

definition demo_ee :: enroll_env where
  "demo_ee = \<lparr>ee_sha256 = (\<lambda>b. b), ee_ca = demo_ca, ee_window = 3600\<rparr>"

definition demo_enrollment_token :: EnrollmentToken where
  "demo_enrollment_token = \<lparr>et_id = 1, et_tenant_id = 7, et_token_hash = hash_enrollment_token (\<lambda>b. b) ''enr'', et_label = None,
     et_expires_at = 1000, et_used_at = None, et_used_by_host_id = None, et_created_by = None\<rparr>"

definition demo_fleet :: fleet where
  "demo_fleet = \<lparr>fl_tokens = [demo_enrollment_token], fl_hosts = [], fl_cas = [], fl_rule_ids = [], fl_alerts = [], fl_audit = [], fl_next = 2\<rparr>"

definition demo_rq :: EnrollRequest where
  "demo_rq = \<lparr>er_token = ''enr'', er_hostname = ''web'', er_os_family = LINUX, er_os_version = None, er_os_platform = None, er_os_arch = None,
     er_agent_version = None, er_csr_pem = ''csr''\<rparr>"

lemma demo_enrolls: "\<exists>db' issued. enroll demo_ee 0 5 None demo_rq demo_fleet = Inr (db', 2, issued)"
  by (simp add: enroll_def consume_token_def token_live_def demo_rq_def demo_fleet_def demo_enrollment_token_def demo_ee_def finish_rest_def
      enroll_host_def Let_def detect_reenrollment_def prior_enrollment_def enrolled_since_def new_host_def mark_used_def sign_csr_def
      demo_ca_def check_public_key_def get_or_bootstrap_def) code_simp

lemma demo_fleet_ok: "fleet_ok demo_fleet" "distinct (map et_token_hash (fl_tokens demo_fleet))"
  by (simp_all add: fleet_ok_def demo_fleet_def demo_enrollment_token_def)

text \<open>Witness: the demonstration token enrolls one host.\<close>

theorem enrollment_single_use_witness:
  "\<exists>ls s. enroll_run demo_ee (demo_fleet, []) ls s \<and> enrolled_tokens ls \<noteq> [] \<and> distinct (enrolled_tokens ls)"
proof -
  from demo_enrolls obtain db' issued where "enroll demo_ee 0 5 None demo_rq demo_fleet = Inr (db', 2, issued)" by blast
  from enroll_is_two_steps [OF this] obtain t where st:
    "enroll_step demo_ee (demo_fleet, []) Silent (demo_fleet, [t])"
    "enroll_step demo_ee (demo_fleet, [t]) (Committed (tx_token t) (er_token demo_rq) 2) (db', [])" by blast
  have run: "enroll_run demo_ee (demo_fleet, []) (([] @ [Silent]) @ [Committed (tx_token t) (er_token demo_rq) 2]) (db', [])"
    by (rule enroll_run.step [OF enroll_run.step [OF enroll_run.start st(1)] st(2)])
  show ?thesis using enrollment_single_use [OF run demo_fleet_ok(1)] run by fastforce
qed

text \<open>Witness: the certificate of the demonstration host carries its id.\<close>

theorem enroll_contract_witness:
  "\<exists>db' issued. enroll demo_ee 0 5 None demo_rq demo_fleet = Inr (db', 2, issued) \<and> ct_common_name (ic_cert issued) = uuid_str 2"
proof -
  from demo_enrolls obtain db' issued where e: "enroll demo_ee 0 5 None demo_rq demo_fleet = Inr (db', 2, issued)" by blast
  from enroll_contract [OF e demo_fleet_ok] e show ?thesis by blast
qed

end
