(* ===== verification/Rules.thy ===== *)
theory Rules
  imports Response Policy_Push
begin

text \<open>
  Detection rules: their table and its edits (backend/app/models/rule.py, schemas/rule.py, api/rules.py),
  the mirror of Sigma rules in the OpenSearch percolator, the compiler front end (services/sigma.py), and
  the snapshot of YARA and IOC rules that the agent stream sends and sends again after an edit
  (\<open>_build_rule_sync\<close> and the resync task of grpc/services.py). pySigma and OpenSearch are parameters.
\<close>

section \<open>The tables\<close>

record RuleIoc = IocEntry +
  ioc_value :: string

record RuleGroup =
  rg_id :: uuid
  rg_tenant_id :: uuid
  rg_kind :: RuleKind
  rg_max_action :: RuleAction

record Rule =
  ru_id :: uuid
  ru_tenant_id :: uuid
  ru_kind :: RuleKind
  ru_name :: string
  ru_description :: "string option"
  ru_severity :: Severity
  ru_action :: RuleAction
  ru_enabled :: bool
  ru_group_id :: "uuid option"
  ru_body :: "string option"
  ru_sigma_compiled :: "string option"
  ru_revision :: int
  ru_mitre :: "string list option"
  ru_auto_memory_scan :: bool
  ru_iocs :: "RuleIoc list"
  ru_updated_at :: datetime

text \<open>
  The percolator holds one document per registered rule: its query, name and severity. \<open>rb_fired\<close> is the
  \<open>rule_id\<close> column of the alerts table, whose foreign key restricts deletions.
\<close>

record rules_db =
  rb_rules :: "Rule list"
  rb_groups :: "RuleGroup list"
  rb_percolator :: "(uuid \<times> (string \<times> string \<times> Severity)) list"
  rb_audit :: "audit_request list"
  rb_fired :: "uuid list"
  rb_next :: uuid

fun rule_action_value :: "RuleAction \<Rightarrow> string" where
  "rule_action_value ALERT = ''alert''"
| "rule_action_value BLOCK = ''block''"
| "rule_action_value QUARANTINE = ''quarantine''"

fun ioc_kind_value :: "IocKind \<Rightarrow> string" where
  "ioc_kind_value HASH_SHA256 = ''hash_sha256''"
| "ioc_kind_value HASH_MD5 = ''hash_md5''"
| "ioc_kind_value HASH_SHA1 = ''hash_sha1''"
| "ioc_kind_value IOC_FILENAME = ''filename''"
| "ioc_kind_value IOC_FILEPATH = ''filepath''"

section \<open>Compiling Sigma\<close>

record sigma_env =
  sg_parse :: "string \<Rightarrow> string + nat"
  sg_convert :: "string \<Rightarrow> string + string list"

text \<open>The query of a body, or the message of \<open>SigmaCompileError\<close>.\<close>

definition compile_yaml :: "sigma_env \<Rightarrow> string \<Rightarrow> string + string" where
  "compile_yaml se body =
     (if strip body = [] then Inl ''empty rule body''
      else (case sg_parse se body of
          Inl problem \<Rightarrow> Inl problem
        | Inr n \<Rightarrow>
            (if n \<noteq> 1 then Inl (''expected exactly one rule per body, got '' @ show_int (int n))
             else (case sg_convert se body of
                 Inl problem \<Rightarrow> Inl (''sigma backend error: '' @ problem)
               | Inr [] \<Rightarrow> Inl ''backend produced no query''
               | Inr (q # _) \<Rightarrow> Inr q))))"

definition validate_sigma_or_400 :: "sigma_env \<Rightarrow> string option \<Rightarrow> string option result" where
  "validate_sigma_or_400 se body = (case body of
       None \<Rightarrow> Inr None
     | Some [] \<Rightarrow> Inr None
     | Some b \<Rightarrow> (case compile_yaml se b of Inl msg \<Rightarrow> Inl (bad_request (''sigma compile failed: '' @ msg)) | Inr q \<Rightarrow> Inr (Some q)))"

section \<open>Normal forms\<close>

fun techniques_loop :: "string list \<Rightarrow> string list \<Rightarrow> string list result" where
  "techniques_loop out [] = Inr out"
| "techniques_loop out (raw # raws) = bindE (upper_str (strip raw)) (\<lambda>v.
     if v = [] \<or> v \<in> set out then techniques_loop out raws else techniques_loop (out @ [v]) raws)"

definition normalize_techniques :: "string list option \<Rightarrow> string list option result" where
  "normalize_techniques value = (case value of
       None \<Rightarrow> Inr None
     | Some raws \<Rightarrow> bindE (techniques_loop [] raws) (\<lambda>out. Inr (if out = [] then None else Some out)))"

definition normalize_ioc :: "IocKind \<Rightarrow> string \<Rightarrow> string" where
  "normalize_ioc kind value =
     (let v = strip value in
      if kind \<in> {HASH_SHA256, HASH_MD5, HASH_SHA1} then lower v
      else if kind = IOC_FILENAME then lower v
      else if kind = IOC_FILEPATH then lower (replace_char bslash CHR ''/'' v)
      else v)"

definition ioc_rows :: "(IocKind \<times> string) list \<Rightarrow> RuleIoc list" where
  "ioc_rows entries = map (\<lambda>(k, v). \<lparr>ioc_kind = k, ioc_value_normalized = normalize_ioc k v, ioc_source_id = None, ioc_value = v\<rparr>) entries"

section \<open>The percolator\<close>

text \<open>A call with \<open>reachable = False\<close> fails and is only logged.\<close>

definition sync_sigma_rule_to_percolator ::
  "bool \<Rightarrow> Rule \<Rightarrow> (uuid \<times> (string \<times> string \<times> Severity)) list \<Rightarrow> (uuid \<times> (string \<times> string \<times> Severity)) list" where
  "sync_sigma_rule_to_percolator reachable r perc =
     (if \<not> reachable then perc
      else (case (ru_kind r, ru_enabled r, ru_sigma_compiled r) of
          (KIND_SIGMA, True, Some (c # q)) \<Rightarrow> AList.update (ru_id r) (c # q, ru_name r, ru_severity r) perc
        | _ \<Rightarrow> AList.delete (ru_id r) perc))"

definition unregister_sigma_rule ::
  "bool \<Rightarrow> uuid \<Rightarrow> (uuid \<times> (string \<times> string \<times> Severity)) list \<Rightarrow> (uuid \<times> (string \<times> string \<times> Severity)) list" where
  "unregister_sigma_rule reachable i perc = (if reachable then AList.delete i perc else perc)"

section \<open>Edits\<close>

record RuleCreate =
  rc_kind :: RuleKind
  rc_name :: string
  rc_description :: "string option"
  rc_severity :: Severity
  rc_action :: RuleAction
  rc_enabled :: bool
  rc_body :: "string option"
  rc_group_id :: "uuid option"
  rc_iocs :: "(IocKind \<times> string) list option"
  rc_mitre :: "string list option"
  rc_auto_memory_scan :: bool

definition is_set :: "'a list option \<Rightarrow> bool" where
  "is_set x \<longleftrightarrow> x \<noteq> None \<and> x \<noteq> Some []"

definition ioc_entries_ok :: "(IocKind \<times> string) list option \<Rightarrow> bool" where
  "ioc_entries_ok iocs \<longleftrightarrow> list_all (\<lambda>(k, v). 1 \<le> length v \<and> length v \<le> 1024) (case iocs of None \<Rightarrow> [] | Some es \<Rightarrow> es)"

text \<open>What the request schema accepts; a refusal is status 422.\<close>

definition validate_kind_payload :: "RuleCreate \<Rightarrow> bool" where
  "validate_kind_payload p \<longleftrightarrow> 1 \<le> length (rc_name p) \<and> length (rc_name p) \<le> 255 \<and> ioc_entries_ok (rc_iocs p) \<and>
     (case rc_kind p of
        KIND_IOC \<Rightarrow> is_set (rc_iocs p) \<and> \<not> is_set (rc_body p)
      | _ \<Rightarrow> is_set (rc_body p) \<and> \<not> is_set (rc_iocs p))"

text \<open>The group a rule is put into: of the actor's tenant and of the rule's kind.\<close>

definition check_group :: "rules_db \<Rightarrow> Actor \<Rightarrow> RuleKind \<Rightarrow> uuid \<Rightarrow> unit result" where
  "check_group db actor kind gid = (case find (\<lambda>g. rg_id g = gid) (rb_groups db) of
       None \<Rightarrow> Inl (not_found ''rule_group'' gid)
     | Some g \<Rightarrow>
         (if rg_tenant_id g \<noteq> actor_tenant_id actor then Inl (not_found ''rule_group'' gid)
          else if rg_kind g \<noteq> kind
          then Inl (bad_request (''rule group kind ('' @ rule_kind_value (rg_kind g) @ '') doesn'' @ [squote] @ ''t match rule kind ('' @
                 rule_kind_value kind @ '')''))
          else Inr ()))"

definition rule_audit :: "Actor \<Rightarrow> string \<Rightarrow> uuid \<Rightarrow> pydict option \<Rightarrow> audit_request" where
  "rule_audit actor action i payload = (push_audit actor action ''rule'' (uuid_str i) [])\<lparr>rq_payload := payload\<rparr>"

definition create_rule :: "sigma_env \<Rightarrow> bool \<Rightarrow> datetime \<Rightarrow> RuleCreate \<Rightarrow> Actor \<Rightarrow> rules_db \<Rightarrow> (rules_db \<times> Rule) result" where
  "create_rule se reachable now p actor db =
     (if \<not> validate_kind_payload p then Inl (HTTPError 422 ''validation error'')
      else bindE (RequireAdmin actor) (\<lambda>actor.
      bindE (if rc_kind p = KIND_SIGMA then validate_sigma_or_400 se (rc_body p) else Inr None) (\<lambda>sigma_compiled.
      bindE (case rc_group_id p of None \<Rightarrow> Inr () | Some gid \<Rightarrow> check_group db actor (rc_kind p) gid) (\<lambda>_.
      bindE (normalize_techniques (rc_mitre p)) (\<lambda>mitre.
        let r = \<lparr>ru_id = rb_next db, ru_tenant_id = actor_tenant_id actor, ru_kind = rc_kind p, ru_name = rc_name p,
              ru_description = rc_description p, ru_severity = rc_severity p, ru_action = rc_action p, ru_enabled = rc_enabled p,
              ru_group_id = rc_group_id p, ru_body = rc_body p, ru_sigma_compiled = sigma_compiled, ru_revision = 1, ru_mitre = mitre,
              ru_auto_memory_scan = rc_auto_memory_scan p, ru_iocs = ioc_rows (case rc_iocs p of None \<Rightarrow> [] | Some es \<Rightarrow> es), ru_updated_at = now\<rparr>;
            payload = [(''kind'', PStr (rule_kind_value (ru_kind r))), (''name'', PStr (ru_name r))] @
              (case mitre of None \<Rightarrow> [] | Some ts \<Rightarrow> [(''mitre_techniques'', PList (map PStr ts))])
        in Inr (db\<lparr>rb_rules := rb_rules db @ [r], rb_next := rb_next db + 1,
                   rb_audit := rb_audit db @ [rule_audit actor ''rule.create'' (ru_id r) (Some payload)],
                   rb_percolator := (if ru_kind r = KIND_SIGMA then sync_sigma_rule_to_percolator reachable r (rb_percolator db)
                                     else rb_percolator db)\<rparr>, r))))))"

record RuleUpdate =
  up_name :: "string option"
  up_description :: "string option"
  up_severity :: "Severity option"
  up_action :: "RuleAction option"
  up_enabled :: "bool option"
  up_body :: "string option"
  up_group_id :: "uuid option"
  up_iocs :: "(IocKind \<times> string) list option"
  up_mitre :: "string list option"
  up_auto_memory_scan :: "bool option"

definition update_ok :: "RuleUpdate \<Rightarrow> bool" where
  "update_ok p \<longleftrightarrow> (case up_name p of None \<Rightarrow> True | Some n \<Rightarrow> 1 \<le> length n \<and> length n \<le> 255) \<and> ioc_entries_ok (up_iocs p)"

definition field_if :: "string \<Rightarrow> 'a option \<Rightarrow> ('a \<Rightarrow> pyval) \<Rightarrow> pydict" where
  "field_if name x f = (case x of None \<Rightarrow> [] | Some v \<Rightarrow> [(name, f v)])"

text \<open>\<open>payload.model_dump(exclude_none=True, mode="json")\<close>\<close>

definition update_dump :: "RuleUpdate \<Rightarrow> pydict" where
  "update_dump p =
     field_if ''name'' (up_name p) PStr @ field_if ''description'' (up_description p) PStr @
     field_if ''severity'' (up_severity p) (\<lambda>s. PStr (severity_value s)) @ field_if ''action'' (up_action p) (\<lambda>a. PStr (rule_action_value a)) @
     field_if ''enabled'' (up_enabled p) PBool @ field_if ''body'' (up_body p) PStr @ field_if ''group_id'' (up_group_id p) (\<lambda>g. PStr (uuid_str g)) @
     field_if ''iocs'' (up_iocs p) (\<lambda>es. PList (map (\<lambda>(k, v). PDict [(''kind'', PStr (ioc_kind_value k)), (''value'', PStr v)]) es)) @
     field_if ''mitre_techniques'' (up_mitre p) (\<lambda>ts. PList (map PStr ts)) @ field_if ''auto_memory_scan'' (up_auto_memory_scan p) PBool"

text \<open>The row with the plain fields of the request.\<close>

definition apply_plain :: "RuleUpdate \<Rightarrow> Rule \<Rightarrow> Rule" where
  "apply_plain p r =
     r\<lparr>ru_name := or_else (up_name p) (ru_name r), ru_description := (case up_description p of None \<Rightarrow> ru_description r | Some d \<Rightarrow> Some d),
       ru_severity := or_else (up_severity p) (ru_severity r), ru_action := or_else (up_action p) (ru_action r),
       ru_enabled := or_else (up_enabled p) (ru_enabled r), ru_auto_memory_scan := or_else (up_auto_memory_scan p) (ru_auto_memory_scan r)\<rparr>"

definition updated_rule :: "sigma_env \<Rightarrow> RuleUpdate \<Rightarrow> Actor \<Rightarrow> rules_db \<Rightarrow> Rule \<Rightarrow> Rule result" where
  "updated_rule se p actor db r =
     (let r = apply_plain p r in
      bindE (case up_group_id p of
          None \<Rightarrow> Inr (ru_group_id r)
        | Some gid \<Rightarrow> (if gid = 0 then Inr None else bindE (check_group db actor (ru_kind r) gid) (\<lambda>_. Inr (Some gid)))) (\<lambda>gid.
      bindE (case up_body p of
          None \<Rightarrow> Inr (ru_body r)
        | Some b \<Rightarrow> (if ru_kind r = KIND_IOC then Inl (bad_request ''ioc rules do not have a body'') else Inr (Some b))) (\<lambda>body.
      bindE (case up_iocs p of
          None \<Rightarrow> Inr (ru_iocs r)
        | Some es \<Rightarrow> (if ru_kind r \<noteq> KIND_IOC then Inl (bad_request ''only ioc rules may set iocs'') else Inr (ioc_rows es))) (\<lambda>iocs.
      bindE (case up_mitre p of None \<Rightarrow> Inr (ru_mitre r) | Some ts \<Rightarrow> normalize_techniques (Some ts)) (\<lambda>mitre.
        let r = r\<lparr>ru_group_id := gid, ru_body := body, ru_iocs := iocs, ru_mitre := mitre\<rparr> in
        if up_body p = None \<and> up_iocs p = None then Inr r
        else bindE (if ru_kind r = KIND_SIGMA then validate_sigma_or_400 se (ru_body r) else Inr None) (\<lambda>compiled.
          Inr (r\<lparr>ru_revision := ru_revision r + 1, ru_sigma_compiled := compiled\<rparr>)))))))"

text \<open>SQLAlchemy writes the row, and with it \<open>updated_at\<close>, when a column has changed.\<close>

definition touch :: "datetime \<Rightarrow> Rule \<Rightarrow> Rule \<Rightarrow> Rule" where
  "touch now old new = (if new = old then old else new\<lparr>ru_updated_at := now\<rparr>)"

definition put_rule :: "Rule \<Rightarrow> rules_db \<Rightarrow> rules_db" where
  "put_rule r db = db\<lparr>rb_rules := map (\<lambda>x. if ru_id x = ru_id r then r else x) (rb_rules db)\<rparr>"

definition update_rule :: "sigma_env \<Rightarrow> bool \<Rightarrow> datetime \<Rightarrow> uuid \<Rightarrow> RuleUpdate \<Rightarrow> Actor \<Rightarrow> rules_db \<Rightarrow> (rules_db \<times> Rule) result" where
  "update_rule se reachable now i p actor db =
     (if \<not> update_ok p then Inl (HTTPError 422 ''validation error'')
      else bindE (RequireAdmin actor) (\<lambda>actor.
        case find (\<lambda>r. ru_id r = i \<and> ru_tenant_id r = actor_tenant_id actor) (rb_rules db) of
          None \<Rightarrow> Inl (not_found ''rule'' i)
        | Some old \<Rightarrow> bindE (updated_rule se p actor db old) (\<lambda>new.
            let r = touch now old new in
            Inr ((put_rule r db)\<lparr>rb_audit := rb_audit db @ [rule_audit actor ''rule.update'' i (Some (update_dump p))],
                   rb_percolator := (if ru_kind r = KIND_SIGMA then sync_sigma_rule_to_percolator reachable r (rb_percolator db)
                                     else rb_percolator db)\<rparr>, r))))"

definition delete_rule :: "bool \<Rightarrow> uuid \<Rightarrow> Actor \<Rightarrow> rules_db \<Rightarrow> rules_db result" where
  "delete_rule reachable i actor db = bindE (RequireAdmin actor) (\<lambda>actor.
     case find (\<lambda>r. ru_id r = i) (rb_rules db) of
       None \<Rightarrow> Inl (not_found ''rule'' i)
     | Some r \<Rightarrow>
         (if ru_tenant_id r \<noteq> actor_tenant_id actor then Inl (not_found ''rule'' i)
          else if i \<in> set (rb_fired db) then Inl IntegrityError
          else Inr (db\<lparr>rb_rules := filter (\<lambda>x. ru_id x \<noteq> i) (rb_rules db),
                       rb_audit := rb_audit db @ [rule_audit actor ''rule.delete'' i None],
                       rb_percolator := (if ru_kind r = KIND_SIGMA then unregister_sigma_rule reachable i (rb_percolator db)
                                         else rb_percolator db)\<rparr>)))"

section \<open>The snapshot for agents\<close>

datatype PbSeverity = SEVERITY_UNSPECIFIED | SEVERITY_INFO | SEVERITY_LOW | SEVERITY_MEDIUM | SEVERITY_HIGH | SEVERITY_CRITICAL
datatype PbAction = RULE_ACTION_UNSPECIFIED | RULE_ACTION_DETECT | RULE_ACTION_BLOCK | RULE_ACTION_QUARANTINE

definition pb_severity :: "string \<Rightarrow> PbSeverity" where
  "pb_severity s = (case map_of [(''info'', SEVERITY_INFO), (''low'', SEVERITY_LOW), (''medium'', SEVERITY_MEDIUM), (''high'', SEVERITY_HIGH),
     (''critical'', SEVERITY_CRITICAL)] s of None \<Rightarrow> SEVERITY_UNSPECIFIED | Some v \<Rightarrow> v)"

definition pb_action :: "string \<Rightarrow> PbAction" where
  "pb_action a = (case map_of [(''alert'', RULE_ACTION_DETECT), (''block'', RULE_ACTION_BLOCK), (''quarantine'', RULE_ACTION_QUARANTINE)] a of
     None \<Rightarrow> RULE_ACTION_UNSPECIFIED | Some v \<Rightarrow> v)"

record YaraRule =
  yr_id :: string
  yr_name :: string
  yr_source :: string
  yr_severity :: PbSeverity
  yr_action :: PbAction

record IocRule =
  ir_id :: string
  ir_name :: string
  ir_kind :: IocKind
  ir_values :: "string list"
  ir_severity :: PbSeverity
  ir_action :: PbAction

record RuleSync =
  sy_yara :: "YaraRule list"
  sy_iocs :: "IocRule list"

definition yara_of :: "Rule \<Rightarrow> YaraRule list" where
  "yara_of r = (case (ru_kind r, ru_body r) of
       (KIND_YARA, Some (c # s)) \<Rightarrow>
         [\<lparr>yr_id = uuid_str (ru_id r), yr_name = ru_name r, yr_source = c # s, yr_severity = pb_severity (severity_value (ru_severity r)),
           yr_action = pb_action (rule_action_value (ru_action r))\<rparr>]
     | _ \<Rightarrow> [])"

text \<open>One message per kind of entry, in the order in which the kinds first appear.\<close>

definition iocs_of :: "Rule \<Rightarrow> IocRule list" where
  "iocs_of r =
     (if ru_kind r \<noteq> KIND_IOC then []
      else map (\<lambda>k. \<lparr>ir_id = uuid_str (ru_id r), ir_name = ru_name r, ir_kind = k,
             ir_values = map ioc_value_normalized (filter (\<lambda>e. ioc_kind e = k) (ru_iocs r)),
             ir_severity = pb_severity (severity_value (ru_severity r)), ir_action = pb_action (rule_action_value (ru_action r))\<rparr>)
           (dedupe [] (map ioc_kind (ru_iocs r))))"

definition build_rule_sync :: "Rule list \<Rightarrow> RuleSync" where
  "build_rule_sync rules =
     (let rows = filter ru_enabled rules in \<lparr>sy_yara = concat (map yara_of rows), sy_iocs = concat (map iocs_of rows)\<rparr>)"

text \<open>\<open>SELECT max(updated_at)\<close> and one round of the resync task: the last time seen, and what the agent holds.\<close>

definition latest_edit :: "Rule list \<Rightarrow> datetime option" where
  "latest_edit rules = (if rules = [] then None else Some (Max (ru_updated_at ` set rules)))"

definition open_sync :: "Rule list \<Rightarrow> RuleSync \<times> datetime option" where
  "open_sync rules = (build_rule_sync rules, latest_edit rules)"

definition resync :: "Rule list \<Rightarrow> RuleSync \<times> datetime option \<Rightarrow> RuleSync \<times> datetime option" where
  "resync rules = (\<lambda>(held, last_mtime). case latest_edit rules of
       None \<Rightarrow> (held, last_mtime)
     | Some current \<Rightarrow> (if Some current = last_mtime then (held, last_mtime) else (build_rule_sync rules, Some current)))"

end
