(* ===== verification/Rules_Correct.thy ===== *)
theory Rules_Correct
  imports Rules Response_Correct
begin

text \<open>
  The rules table under every sequence of edits: its shape and the percolator that mirrors it, and the
  agent's snapshot against the table.
\<close>

section \<open>Edits as one step\<close>

datatype rule_edit = Create_rule RuleCreate Actor | Update_rule uuid RuleUpdate Actor | Delete_rule uuid Actor

fun edit_rule :: "sigma_env \<Rightarrow> bool \<Rightarrow> datetime \<Rightarrow> rule_edit \<Rightarrow> rules_db \<Rightarrow> rules_db" where
  "edit_rule se reachable now (Create_rule p actor) db = (case create_rule se reachable now p actor db of Inl e \<Rightarrow> db | Inr (db', r) \<Rightarrow> db')"
| "edit_rule se reachable now (Update_rule i p actor) db = (case update_rule se reachable now i p actor db of Inl e \<Rightarrow> db | Inr (db', r) \<Rightarrow> db')"
| "edit_rule se reachable now (Delete_rule i actor) db = (case delete_rule reachable i actor db of Inl e \<Rightarrow> db | Inr db' \<Rightarrow> db')"

text \<open>A rule of the table: its kind decides where its content is, and only Sigma rules are compiled.\<close>

definition rule_shape :: "Rule \<Rightarrow> bool" where
  "rule_shape r \<longleftrightarrow> (if ru_kind r = KIND_IOC then ru_body r \<in> {None, Some []} else ru_iocs r = []) \<and>
     (ru_kind r \<noteq> KIND_SIGMA \<longrightarrow> ru_sigma_compiled r = None) \<and>
     list_all (\<lambda>e. ioc_value_normalized e = normalize_ioc (ioc_kind e) (ioc_value e)) (ru_iocs r)"

definition same_rule :: "Rule \<Rightarrow> Rule \<Rightarrow> bool" where
  "same_rule old new \<longleftrightarrow> ru_id new = ru_id old \<and> ru_tenant_id new = ru_tenant_id old \<and> ru_kind new = ru_kind old"

lemma is_set_simps [simp]: "\<not> is_set None" "is_set (Some xs) \<longleftrightarrow> xs \<noteq> []"
  by (simp_all add: is_set_def)

lemma ioc_rows_normal: "list_all (\<lambda>e. ioc_value_normalized e = normalize_ioc (ioc_kind e) (ioc_value e)) (ioc_rows es)"
  by (auto simp: ioc_rows_def list_all_iff)

lemma ioc_rows_empty [simp]: "ioc_rows [] = []"
  by (simp add: ioc_rows_def)

lemma RequireAdmin_same: "RequireAdmin a = Inr b \<Longrightarrow> b = a"
  by (auto simp: RequireAdmin_def require_role_def split: if_splits)

text \<open>What reaches the percolator when a row appears or changes.\<close>

definition mirrored :: "bool \<Rightarrow> Rule \<Rightarrow> (uuid \<times> (string \<times> string \<times> Severity)) list \<Rightarrow> (uuid \<times> (string \<times> string \<times> Severity)) list" where
  "mirrored reachable r perc = (if ru_kind r = KIND_SIGMA then sync_sigma_rule_to_percolator reachable r perc else perc)"

definition unmirrored :: "bool \<Rightarrow> Rule \<Rightarrow> uuid \<Rightarrow> (uuid \<times> (string \<times> string \<times> Severity)) list \<Rightarrow> (uuid \<times> (string \<times> string \<times> Severity)) list" where
  "unmirrored reachable r i perc = (if ru_kind r = KIND_SIGMA then unregister_sigma_rule reachable i perc else perc)"

lemma create_rule_change:
  assumes "create_rule se reachable now p actor db = Inr (db', r)"
  shows "rb_rules db' = rb_rules db @ [r]" "rb_percolator db' = mirrored reachable r (rb_percolator db)"
    "rb_next db' = Suc (rb_next db)" "ru_id r = rb_next db" "rule_shape r" "ru_updated_at r = now" "ru_tenant_id r = actor_tenant_id actor"
proof -
  from assms obtain compiled where v: "validate_kind_payload p"
    and s: "(if rc_kind p = KIND_SIGMA then validate_sigma_or_400 se (rc_body p) else Inr None) = Inr compiled"
    and r: "ru_id r = rb_next db" "ru_kind r = rc_kind p" "ru_body r = rc_body p" "ru_sigma_compiled r = compiled" "ru_updated_at r = now"
      "ru_tenant_id r = actor_tenant_id actor" "ru_iocs r = ioc_rows (case rc_iocs p of None \<Rightarrow> [] | Some es \<Rightarrow> es)"
    and db: "rb_rules db' = rb_rules db @ [r]" "rb_next db' = Suc (rb_next db)" "rb_percolator db' = mirrored reachable r (rb_percolator db)"
    by (auto simp: create_rule_def bindE_eq_Inr Let_def mirrored_def dest!: RequireAdmin_same split: if_splits)
  have "rule_shape r" using v s unfolding rule_shape_def r validate_kind_payload_def
    by (auto simp: ioc_rows_normal is_set_def split: RuleKind.splits option.splits)
  with r db show "rb_rules db' = rb_rules db @ [r]" "rb_percolator db' = mirrored reachable r (rb_percolator db)"
    "rb_next db' = Suc (rb_next db)" "ru_id r = rb_next db" "rule_shape r" "ru_updated_at r = now" "ru_tenant_id r = actor_tenant_id actor"
    by simp_all
qed

lemma apply_plain_simps [simp]:
  "ru_id (apply_plain p r) = ru_id r" "ru_tenant_id (apply_plain p r) = ru_tenant_id r" "ru_kind (apply_plain p r) = ru_kind r"
  "ru_body (apply_plain p r) = ru_body r" "ru_iocs (apply_plain p r) = ru_iocs r" "ru_sigma_compiled (apply_plain p r) = ru_sigma_compiled r"
  "ru_updated_at (apply_plain p r) = ru_updated_at r"
  by (simp_all add: apply_plain_def)

lemma updated_rule_shape:
  assumes "updated_rule se p actor db old = Inr new" "rule_shape old"
  shows "rule_shape new \<and> same_rule old new \<and> ru_updated_at new = ru_updated_at old"
proof -
  from assms(1) obtain gid body iocs mitre where
    body: "(case up_body p of None \<Rightarrow> Inr (ru_body old)
        | Some b \<Rightarrow> (if ru_kind old = KIND_IOC then Inl (bad_request ''ioc rules do not have a body'') else Inr (Some b))) = Inr body"
    and iocs: "(case up_iocs p of None \<Rightarrow> Inr (ru_iocs old)
        | Some es \<Rightarrow> (if ru_kind old \<noteq> KIND_IOC then Inl (bad_request ''only ioc rules may set iocs'') else Inr (ioc_rows es))) = Inr iocs"
    and new: "(let r = (apply_plain p old)\<lparr>ru_group_id := gid, ru_body := body, ru_iocs := iocs, ru_mitre := mitre\<rparr> in
        if up_body p = None \<and> up_iocs p = None then Inr r
        else bindE (if ru_kind r = KIND_SIGMA then validate_sigma_or_400 se (ru_body r) else Inr None) (\<lambda>compiled.
          Inr (r\<lparr>ru_revision := ru_revision r + 1, ru_sigma_compiled := compiled\<rparr>))) = Inr new"
    unfolding updated_rule_def Let_def by (auto simp only: bindE_eq_Inr apply_plain_simps)
  have "(if ru_kind old = KIND_IOC then body \<in> {None, Some []} else iocs = [])"
    using body iocs assms(2) by (auto simp: rule_shape_def split: option.splits if_splits)
  moreover have "list_all (\<lambda>e. ioc_value_normalized e = normalize_ioc (ioc_kind e) (ioc_value e)) iocs"
    using iocs assms(2) by (auto simp: rule_shape_def ioc_rows_normal split: option.splits if_splits)
  ultimately show ?thesis using new assms(2)
    by (auto simp: rule_shape_def same_rule_def Let_def bindE_eq_Inr split: if_splits)
qed

lemma update_rule_change:
  assumes "update_rule se reachable now i p actor db = Inr (db', r)"
  obtains old new where "old \<in> set (rb_rules db)" "ru_id old = i" "ru_tenant_id old = actor_tenant_id actor"
    "updated_rule se p actor db old = Inr new" "r = touch now old new"
    "rb_rules db' = map (\<lambda>x. if ru_id x = ru_id r then r else x) (rb_rules db)" "rb_next db' = rb_next db"
    "rb_percolator db' = mirrored reachable r (rb_percolator db)"
proof -
  from assms obtain old new where f: "find (\<lambda>r. ru_id r = i \<and> ru_tenant_id r = actor_tenant_id actor) (rb_rules db) = Some old"
    and u: "updated_rule se p actor db old = Inr new" and r: "r = touch now old new"
    and db: "rb_rules db' = map (\<lambda>x. if ru_id x = ru_id r then r else x) (rb_rules db)" "rb_next db' = rb_next db"
      "rb_percolator db' = mirrored reachable r (rb_percolator db)"
    unfolding update_rule_def Let_def mirrored_def [symmetric]
    by (auto simp: bindE_eq_Inr put_rule_def dest!: RequireAdmin_same split: if_splits option.splits)
  from f have "old \<in> set (rb_rules db)" "ru_id old = i" "ru_tenant_id old = actor_tenant_id actor" by (auto simp: find_Some_iff)
  with u r db that show thesis by blast
qed

lemma delete_rule_change:
  assumes "delete_rule reachable i actor db = Inr db'"
  obtains r where "r \<in> set (rb_rules db)" "ru_id r = i" "ru_tenant_id r = actor_tenant_id actor"
    "rb_rules db' = filter (\<lambda>x. ru_id x \<noteq> i) (rb_rules db)" "rb_next db' = rb_next db"
    "rb_percolator db' = unmirrored reachable r i (rb_percolator db)"
proof -
  from assms obtain r where f: "find (\<lambda>r. ru_id r = i) (rb_rules db) = Some r" and t: "ru_tenant_id r = actor_tenant_id actor"
    and db: "rb_rules db' = filter (\<lambda>x. ru_id x \<noteq> i) (rb_rules db)" "rb_next db' = rb_next db"
      "rb_percolator db' = unmirrored reachable r i (rb_percolator db)"
    unfolding delete_rule_def unmirrored_def [symmetric]
    by (auto simp: bindE_eq_Inr dest!: RequireAdmin_same split: if_splits option.splits)
  from f have "r \<in> set (rb_rules db)" "ru_id r = i" by (auto simp: find_Some_iff)
  with t db that show thesis by simp
qed

section \<open>The percolator mirrors the table\<close>

definition registered :: "Rule \<Rightarrow> (string \<times> string \<times> Severity) option" where
  "registered r = (case (ru_kind r, ru_enabled r, ru_sigma_compiled r) of
       (KIND_SIGMA, True, Some (c # q)) \<Rightarrow> Some (c # q, ru_name r, ru_severity r) | _ \<Rightarrow> None)"

definition table_doc :: "Rule list \<Rightarrow> uuid \<Rightarrow> (string \<times> string \<times> Severity) option" where
  "table_doc rs i = Option.bind (find (\<lambda>r. ru_id r = i) rs) registered"

definition rules_wf :: "rules_db \<Rightarrow> bool" where
  "rules_wf db \<longleftrightarrow> distinct (map ru_id (rb_rules db)) \<and> (\<forall>i \<in> set (map ru_id (rb_rules db)). i < rb_next db) \<and>
     (\<forall>r \<in> set (rb_rules db). rule_shape r)"

definition rules_ok :: "rules_db \<Rightarrow> bool" where
  "rules_ok db \<longleftrightarrow> rules_wf db \<and> map_of (rb_percolator db) = table_doc (rb_rules db)"

lemma map_of_sync: "map_of (sync_sigma_rule_to_percolator True r perc) = (map_of perc)(ru_id r := registered r)"
  by (auto simp: sync_sigma_rule_to_percolator_def registered_def update_conv' delete_conv'
      split: RuleKind.split bool.split option.split list.split)

lemma registered_other: "ru_kind r \<noteq> KIND_SIGMA \<Longrightarrow> registered r = None"
  by (cases "ru_kind r") (simp_all add: registered_def)

lemma map_of_mirrored:
  "map_of (mirrored True r perc) = (if ru_kind r = KIND_SIGMA then (map_of perc)(ru_id r := registered r) else map_of perc)"
  by (simp add: mirrored_def map_of_sync)

lemma map_of_unmirrored: "map_of (unmirrored True r i perc) = (if ru_kind r = KIND_SIGMA then (map_of perc)(i := None) else map_of perc)"
  by (simp add: unmirrored_def unregister_sigma_rule_def delete_conv')

lemma find_fresh: "i \<notin> set (map ru_id rs) \<Longrightarrow> find (\<lambda>r. ru_id r = i) rs = None"
  by (auto simp: find_None_iff)

lemma table_doc_add: "ru_id r \<notin> set (map ru_id rs) \<Longrightarrow> table_doc (rs @ [r]) = (table_doc rs)(ru_id r := registered r)"
proof
  fix i assume "ru_id r \<notin> set (map ru_id rs)"
  moreover have "find (\<lambda>x. ru_id x = i) (rs @ [r]) = (case find (\<lambda>x. ru_id x = i) rs of None \<Rightarrow> if ru_id r = i then Some r else None | Some x \<Rightarrow> Some x)"
    by (induction rs) auto
  ultimately show "table_doc (rs @ [r]) i = ((table_doc rs)(ru_id r := registered r)) i"
    using find_fresh [of "ru_id r" rs] by (auto simp: table_doc_def split: option.split)
qed

lemma table_doc_replace:
  "ru_id r \<in> set (map ru_id rs) \<Longrightarrow> table_doc (map (\<lambda>x. if ru_id x = ru_id r then r else x) rs) = (table_doc rs)(ru_id r := registered r)"
proof
  fix i assume r: "ru_id r \<in> set (map ru_id rs)"
  let ?f = "\<lambda>x. if ru_id x = ru_id r then r else x"
  have "find (\<lambda>x. ru_id x = i) (map ?f rs) = map_option ?f (find (\<lambda>x. ru_id x = i) rs)" by (induction rs) auto
  note f = this
  show "table_doc (map ?f rs) i = ((table_doc rs)(ru_id r := registered r)) i"
  proof (cases "find (\<lambda>x. ru_id x = i) rs")
    case None
    then have "i \<noteq> ru_id r" using r by (auto simp: find_None_iff)
    with None f show ?thesis by (simp add: table_doc_def)
  next
    case (Some y)
    then have "ru_id y = i" by (auto simp: find_Some_iff)
    with Some f show ?thesis by (simp add: table_doc_def)
  qed
qed

lemma table_doc_remove: "table_doc (filter (\<lambda>x. ru_id x \<noteq> i) rs) = (table_doc rs)(i := None)"
proof
  fix j show "table_doc (filter (\<lambda>x. ru_id x \<noteq> i) rs) j = ((table_doc rs)(i := None)) j"
    by (induction rs) (auto simp: table_doc_def)
qed

lemma touch_simps:
  assumes "same_rule old new" "rule_shape new" "rule_shape old"
  shows "same_rule old (touch now old new)" "rule_shape (touch now old new)"
  using assms by (auto simp: touch_def same_rule_def rule_shape_def)

lemma update_same_rule:
  assumes "rules_wf db" "old \<in> set (rb_rules db)" "updated_rule se p actor db old = Inr new"
  shows "same_rule old (touch now old new)" "rule_shape (touch now old new)"
proof -
  have old: "rule_shape old" using assms(1,2) by (auto simp: rules_wf_def)
  from updated_rule_shape [OF assms(3) old] old show "same_rule old (touch now old new)" "rule_shape (touch now old new)"
    by (auto intro: touch_simps)
qed

lemma rules_wf_create:
  assumes "rules_wf db" "create_rule se reachable now p actor db = Inr (db', r)"
  shows "rules_wf db'" "ru_id r \<notin> set (map ru_id (rb_rules db))"
  using assms(1) create_rule_change [OF assms(2)] by (auto simp: rules_wf_def)

lemma rules_wf_update:
  assumes "rules_wf db" "update_rule se reachable now i p actor db = Inr (db', r)"
  shows "rules_wf db'"
proof -
  from assms(2) obtain old new where u: "old \<in> set (rb_rules db)" "updated_rule se p actor db old = Inr new" "r = touch now old new"
    "rb_rules db' = map (\<lambda>x. if ru_id x = ru_id r then r else x) (rb_rules db)" "rb_next db' = rb_next db" by (rule update_rule_change)
  note r = update_same_rule [OF assms(1) u(1,2), of now, folded u(3)]
  have "map ru_id (rb_rules db') = map ru_id (rb_rules db)" unfolding u(4) using r(1) by (auto simp: same_rule_def)
  moreover have "\<forall>x \<in> set (rb_rules db'). rule_shape x" using assms(1) r(2) unfolding u(4) by (auto simp: rules_wf_def)
  ultimately show ?thesis using assms(1) unfolding rules_wf_def u(5) by simp
qed

lemma rules_wf_delete:
  assumes "rules_wf db" "delete_rule reachable i actor db = Inr db'"
  shows "rules_wf db'"
proof -
  from assms(2) obtain "rb_rules db' = filter (\<lambda>x. ru_id x \<noteq> i) (rb_rules db)" "rb_next db' = rb_next db" by (rule delete_rule_change)
  with assms(1) show ?thesis by (auto simp: rules_wf_def distinct_map_filter)
qed

lemma rules_wf_edit: "rules_wf db \<Longrightarrow> rules_wf (edit_rule se reachable now e db)"
  by (cases e) (auto split: sum.split intro: rules_wf_create rules_wf_update rules_wf_delete)

lemma rules_ok_create:
  assumes "rules_ok db" "create_rule se True now p actor db = Inr (db', r)"
  shows "rules_ok db'"
proof -
  note c = create_rule_change [OF assms(2)]
  have wf: "rules_wf db" using assms(1) by (simp add: rules_ok_def)
  note fresh = rules_wf_create(2) [OF wf assms(2)]
  then have "table_doc (rb_rules db) (ru_id r) = None" by (simp add: table_doc_def find_fresh)
  then have "map_of (rb_percolator db') = table_doc (rb_rules db')"
    using assms(1) unfolding c(1,2) table_doc_add [OF fresh] map_of_mirrored by (auto simp: rules_ok_def registered_other fun_upd_idem)
  with rules_wf_create(1) [OF wf assms(2)] show ?thesis by (simp add: rules_ok_def)
qed

lemma table_doc_row:
  assumes "rules_wf db" "r \<in> set (rb_rules db)"
  shows "table_doc (rb_rules db) (ru_id r) = registered r"
  using assms find_key_distinct [of ru_id "rb_rules db" r] by (simp add: rules_wf_def table_doc_def)

lemma rules_ok_update:
  assumes "rules_ok db" "update_rule se True now i p actor db = Inr (db', r)"
  shows "rules_ok db'"
proof -
  from assms(2) obtain old new where u: "old \<in> set (rb_rules db)" "updated_rule se p actor db old = Inr new" "r = touch now old new"
    "rb_rules db' = map (\<lambda>x. if ru_id x = ru_id r then r else x) (rb_rules db)" "rb_percolator db' = mirrored True r (rb_percolator db)"
    by (rule update_rule_change)
  have wf: "rules_wf db" using assms(1) by (simp add: rules_ok_def)
  have id: "ru_id r = ru_id old" "ru_kind r = ru_kind old" using update_same_rule(1) [OF wf u(1,2)] by (auto simp: u(3) same_rule_def)
  then have "ru_id r \<in> set (map ru_id (rb_rules db))" using u(1) by auto
  moreover have "table_doc (rb_rules db) (ru_id r) = registered old" unfolding id by (rule table_doc_row [OF wf u(1)])
  ultimately have "map_of (rb_percolator db') = table_doc (rb_rules db')"
    using assms(1) id(2) by (auto simp: rules_ok_def u(4,5) map_of_mirrored table_doc_replace registered_other fun_upd_idem)
  with rules_wf_update [OF wf assms(2)] show ?thesis by (simp add: rules_ok_def)
qed

lemma rules_ok_delete:
  assumes "rules_ok db" "delete_rule True i actor db = Inr db'"
  shows "rules_ok db'"
proof -
  from assms(2) obtain r where d: "r \<in> set (rb_rules db)" "ru_id r = i" "rb_rules db' = filter (\<lambda>x. ru_id x \<noteq> i) (rb_rules db)"
    "rb_percolator db' = unmirrored True r i (rb_percolator db)" by (rule delete_rule_change)
  have wf: "rules_wf db" using assms(1) by (simp add: rules_ok_def)
  have "table_doc (rb_rules db) i = registered r" using table_doc_row [OF wf d(1)] d(2) by simp
  then have "map_of (rb_percolator db') = table_doc (rb_rules db')"
    using assms(1) unfolding d(3,4) table_doc_remove map_of_unmirrored by (auto simp: rules_ok_def registered_other fun_upd_idem)
  with rules_wf_delete [OF wf assms(2)] show ?thesis by (simp add: rules_ok_def)
qed

lemma rules_ok_edit: "rules_ok db \<Longrightarrow> rules_ok (edit_rule se True now e db)"
  by (cases e) (auto split: sum.split intro: rules_ok_create rules_ok_update rules_ok_delete)

section \<open>The agent's snapshot\<close>

datatype sync_event = Edit bool datetime rule_edit | Poll

fun sync_step :: "sigma_env \<Rightarrow> rules_db \<times> RuleSync \<times> datetime option \<Rightarrow> sync_event \<Rightarrow> rules_db \<times> RuleSync \<times> datetime option" where
  "sync_step se (db, s) (Edit reachable now e) = (edit_rule se reachable now e db, s)"
| "sync_step se (db, s) Poll = (db, resync (rb_rules db) s)"

text \<open>Every edit is later than everything in the table, and none is a deletion.\<close>

fun orderly :: "sigma_env \<Rightarrow> rules_db \<Rightarrow> sync_event list \<Rightarrow> bool" where
  "orderly se db [] = True"
| "orderly se db (Poll # evs) = orderly se db evs"
| "orderly se db (Edit reachable now e # evs) =
     ((\<forall>r \<in> set (rb_rules db). ru_updated_at r < now) \<and> (case e of Delete_rule i actor \<Rightarrow> False | _ \<Rightarrow> True) \<and>
      orderly se (edit_rule se reachable now e db) evs)"

lemma latest_edit_eq_Some: "latest_edit rs = Some t \<longleftrightarrow> rs \<noteq> [] \<and> t \<in> ru_updated_at ` set rs \<and> (\<forall>r \<in> set rs. ru_updated_at r \<le> t)"
proof (cases "rs = []")
  case False
  then have "t = Max (ru_updated_at ` set rs) \<longleftrightarrow> t \<in> ru_updated_at ` set rs \<and> (\<forall>a \<in> ru_updated_at ` set rs. a \<le> t)"
    by (intro eq_Max_iff) auto
  with False show ?thesis by (auto simp: latest_edit_def)
qed (simp add: latest_edit_def)

definition synced :: "Rule list \<Rightarrow> RuleSync \<times> datetime option \<Rightarrow> bool" where
  "synced rs s \<longleftrightarrow> (case s of (held, mtime) \<Rightarrow>
     (latest_edit rs = mtime \<longrightarrow> held = build_rule_sync rs) \<and> (case mtime of None \<Rightarrow> True | Some t \<Rightarrow> \<exists>r \<in> set rs. t \<le> ru_updated_at r))"

lemma synced_open: "synced rs (open_sync rs)"
  by (auto simp: synced_def open_sync_def latest_edit_eq_Some split: option.split)

lemma resync_synced:
  assumes "synced rs s"
  shows "fst (resync rs s) = build_rule_sync rs \<and> synced rs (resync rs s)"
proof -
  obtain held mtime where s: "s = (held, mtime)" by (cases s)
  show ?thesis
  proof (cases "latest_edit rs")
    case None
    then have "rs = []" by (simp add: latest_edit_def split: if_splits)
    with assms show ?thesis by (auto simp: s synced_def resync_def latest_edit_def split: option.splits)
  next
    case (Some t)
    then obtain r where "r \<in> set rs" "ru_updated_at r = t" by (auto simp: latest_edit_eq_Some)
    with Some assms show ?thesis by (auto simp: s synced_def resync_def)
  qed
qed

text \<open>An edit leaves the rows alone or stamps one of them.\<close>

lemma edit_stamps:
  assumes "case e of Delete_rule i actor \<Rightarrow> False | _ \<Rightarrow> True" "rules_wf db"
  shows "rb_rules (edit_rule se reachable now e db) = rb_rules db \<or>
    (\<exists>r \<in> set (rb_rules (edit_rule se reachable now e db)). ru_updated_at r = now) \<and>
    (\<forall>r \<in> set (rb_rules (edit_rule se reachable now e db)). ru_updated_at r = now \<or> r \<in> set (rb_rules db))"
proof (cases e)
  case (Create_rule p actor)
  show ?thesis
  proof (cases "create_rule se reachable now p actor db")
    case (Inr res)
    obtain db' r where res: "res = (db', r)" by (cases res)
    with Inr have "create_rule se reachable now p actor db = Inr (db', r)" by simp
    note create_rule_change(1,6) [OF this]
    then show ?thesis by (simp add: Create_rule Inr res)
  qed (simp add: Create_rule)
next
  case (Update_rule i p actor)
  show ?thesis
  proof (cases "update_rule se reachable now i p actor db")
    case (Inr res)
    obtain db' r where res: "res = (db', r)" by (cases res)
    with Inr have "update_rule se reachable now i p actor db = Inr (db', r)" by simp
    then obtain old new where u: "old \<in> set (rb_rules db)" "ru_id old = i" "updated_rule se p actor db old = Inr new" "r = touch now old new"
      "rb_rules db' = map (\<lambda>x. if ru_id x = ru_id r then r else x) (rb_rules db)" by (rule update_rule_change)
    have shape: "same_rule old new" using updated_rule_shape [OF u(3)] assms(2) u(1) by (auto simp: rules_wf_def)
    show ?thesis
    proof (cases "new = old")
      case True
      then have "r = old" using u(4) by (simp add: touch_def)
      moreover have "x = old" if "x \<in> set (rb_rules db)" "ru_id x = ru_id old" for x
        using that u(1) assms(2) by (auto simp: rules_wf_def distinct_map inj_on_def)
      ultimately have "rb_rules db' = rb_rules db" unfolding u(5) by (intro map_idI) auto
      then show ?thesis by (simp add: Update_rule Inr res)
    next
      case False
      then have "ru_updated_at r = now" "ru_id r = ru_id old" using u(4) shape by (auto simp: touch_def same_rule_def)
      then show ?thesis using u(1) by (auto simp: Update_rule Inr res u(5))
    qed
  qed (simp add: Update_rule)
qed (use assms in auto)

lemma edit_synced:
  assumes "synced (rb_rules db) s" "rules_wf db" "\<forall>r \<in> set (rb_rules db). ru_updated_at r < now" "case e of Delete_rule i actor \<Rightarrow> False | _ \<Rightarrow> True"
  shows "synced (rb_rules (edit_rule se reachable now e db)) s"
proof -
  obtain held mtime where s: "s = (held, mtime)" by (cases s)
  let ?rs = "rb_rules (edit_rule se reachable now e db)"
  from edit_stamps [OF assms(4,2), of se reachable now] consider "?rs = rb_rules db"
    | r where "r \<in> set ?rs" "ru_updated_at r = now" "\<forall>r \<in> set ?rs. ru_updated_at r = now \<or> r \<in> set (rb_rules db)" by blast
  then show ?thesis
  proof cases
    case 2
    then have "latest_edit ?rs = Some now" using assms(3) by (force simp: latest_edit_eq_Some)
    moreover have "mtime = Some t \<Longrightarrow> t < now" for t using assms(1,3) by (auto simp: s synced_def)
    ultimately show ?thesis using 2(1,2) by (force simp: s synced_def split: option.split)
  qed (use assms(1) in simp)
qed

lemma sync_run:
  assumes "orderly se db evs" "synced (rb_rules db) s" "rules_wf db"
  shows "case foldl (sync_step se) (db, s) evs of (db', s') \<Rightarrow> synced (rb_rules db') s' \<and> rules_wf db'"
  using assms
proof (induction evs arbitrary: db s)
  case (Cons ev evs)
  show ?case
  proof (cases ev)
    case (Edit reachable now e)
    with Cons.prems have "orderly se (edit_rule se reachable now e db) evs" "synced (rb_rules (edit_rule se reachable now e db)) s"
      by (auto intro: edit_synced)
    from Cons.IH [OF this rules_wf_edit [OF Cons.prems(3)]] Edit show ?thesis by simp
  next
    case Poll
    with Cons.prems have "orderly se db evs" "synced (rb_rules db) (resync (rb_rules db) s)" by (simp_all add: resync_synced)
    from Cons.IH [OF this Cons.prems(3)] Poll show ?thesis by simp
  qed
qed simp

section \<open>Properties\<close>

text \<open>
  C24: the rules table keeps its shape and the percolator mirrors it. Under every sequence of accepted and
  refused edits, rule ids stay unique, the content of a rule stays where its kind has it, every indicator
  is stored in its normal form, and, while OpenSearch answers, a document is registered for a rule exactly
  when it is an enabled Sigma rule with a compiled query, with its current query, name and severity.
\<close>

theorem rules_mirrored:
  "rules_ok db \<Longrightarrow> rules_ok (foldl (\<lambda>db (now, e). edit_rule se True now e db) db edits)"
  by (induction edits arbitrary: db) (auto intro: rules_ok_edit)


text \<open>
  A deletion that leaves a rule edited no earlier in the table does not move the latest edit time, so no
  round of the task sends anything: agents go on enforcing the deleted rule.
\<close>

lemma deletion_not_sent:
  assumes "distinct (map ru_id rs)" "r \<in> set rs" "r' \<in> set rs" "ru_id r' \<noteq> ru_id r" "ru_updated_at r \<le> ru_updated_at r'"
  shows "resync (filter (\<lambda>x. ru_id x \<noteq> ru_id r) rs) (open_sync rs) = open_sync rs"
proof -
  obtain t where t: "latest_edit rs = Some t" using assms(2) by (cases rs) (auto simp: latest_edit_def)
  then obtain x where x: "x \<in> set rs" "ru_updated_at x = t" "\<forall>y \<in> set rs. ru_updated_at y \<le> t" by (auto simp: latest_edit_eq_Some)
  have "\<exists>y \<in> set rs. ru_id y \<noteq> ru_id r \<and> ru_updated_at y = t"
  proof (cases "ru_id x = ru_id r")
    case True
    then have "x = r" using assms(1,2) x(1) by (auto simp: distinct_map inj_on_def)
    with x assms(3-5) show ?thesis by (intro bexI [of _ r']) (auto intro: antisym)
  qed (use x in auto)
  then have "latest_edit (filter (\<lambda>x. ru_id x \<noteq> ru_id r) rs) = Some t" using x(3) by (auto simp: latest_edit_eq_Some filter_empty_conv)
  with t show ?thesis by (simp add: resync_def open_sync_def)
qed

section \<open>Witnesses\<close>

definition demo_admin :: Actor where
  "demo_admin = \<lparr>actor_user = \<lparr>u_id = 1, u_tenant_id = 7, u_role = ADMIN, u_disabled = False, u_is_super_admin = False\<rparr>, actor_kind = ''user'',
     actor_token_id = None, actor_scopes = [], actor_tenant_id = 7, actor_is_super_admin = False\<rparr>"

definition demo_create :: RuleCreate where
  "demo_create = \<lparr>rc_kind = KIND_IOC, rc_name = ''r'', rc_description = None, rc_severity = HIGH, rc_action = BLOCK, rc_enabled = True, rc_body = None,
     rc_group_id = None, rc_iocs = Some [(IOC_FILENAME, '' Evil.exe '')], rc_mitre = None, rc_auto_memory_scan = False\<rparr>"

definition empty_rules :: rules_db where
  "empty_rules = \<lparr>rb_rules = [], rb_groups = [], rb_percolator = [], rb_audit = [], rb_fired = [], rb_next = 1\<rparr>"

definition demo_sigma :: sigma_env where
  "demo_sigma = \<lparr>sg_parse = (\<lambda>_. Inr 1), sg_convert = (\<lambda>_. Inr [''q''])\<rparr>"

lemma empty_rules_ok: "rules_ok empty_rules"
  by (simp add: rules_ok_def rules_wf_def empty_rules_def table_doc_def fun_eq_iff)

text \<open>Witness: creating a rule in the empty table.\<close>

theorem rules_mirrored_witness:
  "rules_ok empty_rules \<and> rules_ok (foldl (\<lambda>db (now, e). edit_rule demo_sigma True now e db) empty_rules [(5, Create_rule demo_create demo_admin)])"
  using empty_rules_ok rules_mirrored [OF empty_rules_ok] by blast


end
