(* ===== verification/Ioc_Detector.thy ===== *)
theory Ioc_Detector
  imports Rules
begin

text \<open>
  The IOC detector (backend/app/services/detector.py) and its worker (workers/detector.py): the lookup
  tables built from the enabled IOC rules, the matching of one event, the alerts and commands of its
  matches, and the worker's loop body from a Kafka message to the committed offset. SHA-256, the broker
  of playbook runs and the alerts index are parameters.
\<close>

section \<open>The lookup tables\<close>

text \<open>Rule id, name, severity, effective action and techniques.\<close>

type_synonym ioc_hit = "uuid \<times> string \<times> Severity \<times> RuleAction \<times> string list option"

record IocSnapshot =
  by_sha256 :: "(string \<times> ioc_hit) list"
  by_md5 :: "(string \<times> ioc_hit) list"
  by_sha1 :: "(string \<times> ioc_hit) list"
  by_filename :: "(string \<times> ioc_hit) list"
  by_filepath :: "(string \<times> ioc_hit) list"

definition no_iocs :: IocSnapshot where
  "no_iocs = \<lparr>by_sha256 = [], by_md5 = [], by_sha1 = [], by_filename = [], by_filepath = []\<rparr>"

fun set_entry :: "IocKind \<Rightarrow> string \<Rightarrow> ioc_hit \<Rightarrow> IocSnapshot \<Rightarrow> IocSnapshot" where
  "set_entry HASH_SHA256 v t s = s\<lparr>by_sha256 := AList.update v t (by_sha256 s)\<rparr>"
| "set_entry HASH_MD5 v t s = s\<lparr>by_md5 := AList.update v t (by_md5 s)\<rparr>"
| "set_entry HASH_SHA1 v t s = s\<lparr>by_sha1 := AList.update v t (by_sha1 s)\<rparr>"
| "set_entry IOC_FILENAME v t s = s\<lparr>by_filename := AList.update v t (by_filename s)\<rparr>"
| "set_entry IOC_FILEPATH v t s = s\<lparr>by_filepath := AList.update v t (by_filepath s)\<rparr>"

definition rule_ceiling :: "RuleGroup list \<Rightarrow> Rule \<Rightarrow> RuleAction option" where
  "rule_ceiling groups r = (case ru_group_id r of
       None \<Rightarrow> None
     | Some gid \<Rightarrow> map_option rg_max_action (find (\<lambda>g. rg_id g = gid) groups))"

definition rule_tuple :: "RuleGroup list \<Rightarrow> Rule \<Rightarrow> ioc_hit" where
  "rule_tuple groups r =
     (ru_id r, ru_name r, ru_severity r, clamp_action (ru_action r) (rule_ceiling groups r),
      (case ru_mitre r of None \<Rightarrow> None | Some [] \<Rightarrow> None | Some ts \<Rightarrow> Some ts))"

text \<open>The rows come in the order in which the database returns them.\<close>

definition load :: "RuleGroup list \<Rightarrow> Rule list \<Rightarrow> IocSnapshot" where
  "load groups rules =
     foldl (\<lambda>snap r. foldl (\<lambda>snap e. set_entry (ioc_kind e) (ioc_value_normalized e) (rule_tuple groups r) snap) snap (ru_iocs r))
       no_iocs (filter (\<lambda>r. ru_kind r = KIND_IOC \<and> ru_enabled r) rules)"

section \<open>Matching\<close>

definition ioc_basename :: "string \<Rightarrow> string" where
  "ioc_basename path = lower (rev (takeWhile (\<lambda>c. c \<noteq> CHR ''/'') (rev (replace_char bslash CHR ''/'' path))))"

definition norm_path :: "string \<Rightarrow> string" where
  "norm_path path = lower (replace_char bslash CHR ''/'' path)"

record Match =
  mt_rule_id :: uuid
  mt_rule_name :: string
  mt_severity :: Severity
  mt_action :: RuleAction
  mt_summary :: string
  mt_field :: string
  mt_value :: string
  mt_mitre :: "string list option"

text \<open>\<open>if v and v in table\<close>, and the match that is then appended.\<close>

definition table_hit :: "(string \<times> ioc_hit) list \<Rightarrow> string \<Rightarrow> string \<Rightarrow> string \<Rightarrow> Match list" where
  "table_hit table summary matched_field v =
     (if v = [] then []
      else (case map_of table v of
          None \<Rightarrow> []
        | Some (rid, name, sev, act, techniques) \<Rightarrow>
            [\<lparr>mt_rule_id = rid, mt_rule_name = name, mt_severity = sev, mt_action = act, mt_summary = summary, mt_field = matched_field,
              mt_value = v, mt_mitre = techniques\<rparr>]))"

definition hash_hits :: "IocSnapshot \<Rightarrow> string \<times> pyval \<Rightarrow> Match list result" where
  "hash_hits snap = (\<lambda>(src_label, src). bindE (vget src ''hash'') (\<lambda>h.
     bindE (mapE (\<lambda>(algo, table). bindE (vget (py_or h (PDict [])) algo) (\<lambda>v.
         case py_or v (PStr []) of
           PStr s \<Rightarrow> Inr (table_hit table (src_label @ '' hash '' @ algo @ '' matches IOC'') (src_label @ ''.hash.'' @ algo) (lower s))
         | _ \<Rightarrow> Inl AttributeError))
       [(''sha256'', by_sha256 snap), (''md5'', by_md5 snap), (''sha1'', by_sha1 snap)]) (\<lambda>hits. Inr (concat hits))))"

definition path_hits :: "IocSnapshot \<Rightarrow> string \<times> pyval \<Rightarrow> Match list result" where
  "path_hits snap = (\<lambda>(src_label, src). bindE (vget src ''executable'') (\<lambda>x. bindE (vget src ''path'') (\<lambda>y.
     let path = py_or x y in
     if \<not> truthy path then Inr []
     else (case path of
         PStr p \<Rightarrow> Inr (table_hit (by_filename snap) (src_label @ '' basename matches IOC'') ''name'' (ioc_basename p) @
                        table_hit (by_filepath snap) (src_label @ '' path matches IOC'') ''path'' (norm_path p))
       | _ \<Rightarrow> Inl AttributeError))))"

definition evaluate :: "pyval \<Rightarrow> IocSnapshot \<Rightarrow> Match list result" where
  "evaluate ecs snap =
     bindE (vget ecs ''process'') (\<lambda>process. bindE (vget ecs ''file'') (\<lambda>file.
       let srcs = [(''process'', py_or process (PDict [])), (''file'', py_or file (PDict []))] in
       bindE (mapE (hash_hits snap) srcs) (\<lambda>hs. bindE (mapE (path_hits snap) srcs) (\<lambda>ps. Inr (concat hs @ concat ps)))))"

section \<open>Alerts of a match\<close>

record detector_db =
  dt_rules :: "Rule list"
  dt_groups :: "RuleGroup list"
  dt_feeds :: "(uuid \<times> string) list"
  dt_px :: playbook_db
  dt_history :: "AlertStateHistory list"

definition response_view :: "detector_db \<Rightarrow> response_db" where
  "response_view d =
     \<lparr>rs_px = dt_px d, rs_rules = map (\<lambda>r. (ru_id r, ru_auto_memory_scan r)) (dt_rules d),
      rs_iocs = map IocEntry.truncate (concat (map ru_iocs (dt_rules d))), rs_feeds = dt_feeds d\<rparr>"

record detector_env =
  de_sha256 :: "bytes \<Rightarrow> bytes"
  de_window :: int
  de_accepts :: "pydict \<Rightarrow> bool"

definition dt_next :: "detector_db \<Rightarrow> uuid" where
  "dt_next d = j_next (px_jobs (dt_px d))"

definition new_alert :: "uuid \<Rightarrow> uuid \<Rightarrow> uuid \<Rightarrow> Match \<Rightarrow> string \<Rightarrow> pyval \<Rightarrow> datetime \<Rightarrow> Alert" where
  "new_alert i tenant host m dkey event_id now =
     \<lparr>a_id = i, a_tenant_id = tenant, a_host_id = Some host, a_rule_id = mt_rule_id m, a_severity = mt_severity m,
      a_action_taken = mt_action m, a_state = NEW, a_summary = mt_summary m,
      a_details = PDict [(''rule_name'', PStr (mt_rule_name m)), (''matched_field'', PStr (mt_field m)),
        (''matched_value'', PStr (mt_value m)), (''event_id'', event_id)],
      a_mitre = mt_mitre m, a_opened_at = now, a_closed_at = None, a_assignee_id = None, a_incident_id = None,
      a_dedup_key = Some dkey, a_occurrence_count = 1, a_last_occurred_at = now\<rparr>"

text \<open>The row and its first history entry are flushed: the foreign keys of rule and host have to hold.\<close>

definition insert_alert :: "string \<Rightarrow> detector_db \<Rightarrow> Alert \<Rightarrow> detector_db result" where
  "insert_alert comment d a =
     (if a_rule_id a \<notin> set (map ru_id (dt_rules d)) \<or>
         (case a_host_id a of None \<Rightarrow> False | Some h \<Rightarrow> h \<notin> set (map hst_id (j_hosts (px_jobs (dt_px d)))))
      then Inl IntegrityError
      else Inr (d\<lparr>dt_px := (dt_px d)\<lparr>px_alerts := px_alerts (dt_px d) @ [a], px_jobs := skip_ids 2 (px_jobs (dt_px d))\<rparr>,
                  dt_history := dt_history d @ [\<lparr>h_alert_id = a_id a, h_from_state = None, h_to_state = NEW, h_by_user_id = None,
                    h_comment = Some comment, h_ts = a_opened_at a\<rparr>]\<rparr>))"

definition set_alerts :: "Alert list \<Rightarrow> detector_db \<Rightarrow> detector_db" where
  "set_alerts alerts d = d\<lparr>dt_px := (dt_px d)\<lparr>px_alerts := alerts\<rparr>\<rparr>"

text \<open>One turn of the loop: the tables, the alert and whether it is new, and the messages the broker accepted.\<close>

definition emit_one ::
  "detector_env \<Rightarrow> datetime \<Rightarrow> uuid \<Rightarrow> uuid \<Rightarrow> pydict \<Rightarrow> detector_db \<Rightarrow> Match \<Rightarrow> (detector_db \<times> (uuid \<times> bool) \<times> pydict list) result" where
  "emit_one env now tenant host ecs d m =
     bindE (dedup_key_for (de_sha256 env) (mt_rule_id m) (Some host) ecs) (\<lambda>dkey.
     case find_open_dupe dkey (de_window env) now (px_alerts (dt_px d)) of
       Some existing \<Rightarrow>
         Inr (set_alerts (update_alert (a_id existing) (bump_occurrence now) (px_alerts (dt_px d))) d, (a_id existing, False), [])
     | None \<Rightarrow>
         bindE (vget (dget_default ecs ''event'' (PDict [])) ''id'') (\<lambda>event_id.
         bindE (insert_alert ''auto-generated by IOC detector'' d (new_alert (dt_next d) tenant host m dkey event_id now)) (\<lambda>d1.
         bindE (queue_command_for_match (de_accepts env) (response_view d1) host (mt_rule_id m) (mt_action m) (dt_next d) ecs) (\<lambda>(rs, msgs).
           Inr (d1\<lparr>dt_px := rs_px rs\<rparr>, (dt_next d, True), msgs)))))"

text \<open>The loop: the messages published, which no rollback takes back, and the tables and results or the exception.\<close>

fun emit_loop ::
  "detector_env \<Rightarrow> datetime \<Rightarrow> uuid \<Rightarrow> uuid \<Rightarrow> pydict \<Rightarrow> Match list \<Rightarrow> detector_db \<Rightarrow>
     pydict list \<times> (detector_db \<times> (uuid \<times> bool) list) result" where
  "emit_loop env now tenant host ecs [] d = ([], Inr (d, []))"
| "emit_loop env now tenant host ecs (m # ms) d =
     (case emit_one env now tenant host ecs d m of
        Inl e \<Rightarrow> ([], Inl e)
      | Inr (d1, r, msgs) \<Rightarrow>
          (case emit_loop env now tenant host ecs ms d1 of
             (msgs2, res) \<Rightarrow> (msgs @ msgs2, bindE res (\<lambda>(d2, rs). Inr (d2, r # rs)))))"

definition emit_alerts ::
  "detector_env \<Rightarrow> datetime \<Rightarrow> uuid \<Rightarrow> Match list \<Rightarrow> pydict \<Rightarrow> detector_db \<Rightarrow> pydict list \<times> (detector_db \<times> (uuid \<times> bool) list) result" where
  "emit_alerts env now host ms ecs d =
     (case bindE (vget (sub_dict ecs ''tenant'') ''id'') (resolve_alert_tenant_id (scope_view (px_jobs (dt_px d))) host) of
        Inl e \<Rightarrow> ([], Inl e)
      | Inr None \<Rightarrow> ([], Inr (d, []))
      | Inr (Some tenant) \<Rightarrow> emit_loop env now tenant host ecs ms d)"

section \<open>The cached tables\<close>

record DetectorState =
  ds_snapshot :: IocSnapshot
  ds_last_load :: "datetime option"

definition initial_state :: DetectorState where
  "initial_state = \<lparr>ds_snapshot = no_iocs, ds_last_load = None\<rparr>"

definition REFRESH_SECONDS :: int where
  "REFRESH_SECONDS = 30"

text \<open>A refresh needs the database.\<close>

definition get_snapshot :: "bool \<Rightarrow> datetime \<Rightarrow> detector_db \<Rightarrow> DetectorState \<Rightarrow> DetectorState result" where
  "get_snapshot db_up now d st =
     (if (case ds_last_load st of None \<Rightarrow> True | Some t \<Rightarrow> now - t > seconds REFRESH_SECONDS)
      then (if db_up then Inr \<lparr>ds_snapshot = load (dt_groups d) (dt_rules d), ds_last_load = Some now\<rparr> else Inl OSError)
      else Inr st)"

section \<open>The worker\<close>

text \<open>
  The worker's state: the tables, the cache, the documents in the alerts index, the playbook runs handed
  to the broker and the committed offset. What surrounds one message: the clock, and whether the database
  and the index answer.
\<close>

record worker =
  wk_db :: detector_db
  wk_detector :: DetectorState
  wk_index :: "(uuid \<times> pyval) list"
  wk_published :: "pydict list"
  wk_offset :: nat

record surroundings =
  su_now :: datetime
  su_db :: bool
  su_index :: bool

definition alert_doc :: "datetime \<Rightarrow> pydict \<Rightarrow> uuid \<Rightarrow> Match \<Rightarrow> pyval \<Rightarrow> pyval" where
  "alert_doc now ecs i m event_id =
     PDict [(''@timestamp'', PStr (isoformat now)),
       (''alert'', PDict [(''id'', PStr (uuid_str i)), (''summary'', PStr (mt_summary m)), (''severity'', PStr (severity_value (mt_severity m))),
          (''action_taken'', PStr (rule_action_value (mt_action m))), (''matched_field'', PStr (mt_field m)),
          (''matched_value'', PStr (mt_value m)), (''engine'', PStr ''ioc'')]),
       (''rule'', PDict [(''id'', PStr (uuid_str (mt_rule_id m))), (''name'', PStr (mt_rule_name m))]),
       (''host'', dget_default ecs ''host'' (PDict [])),
       (''event'', PDict [(''id'', event_id)])]"

fun index_new :: "bool \<Rightarrow> datetime \<Rightarrow> pydict \<Rightarrow> ((uuid \<times> bool) \<times> Match) list \<Rightarrow> (uuid \<times> pyval) list \<Rightarrow> (uuid \<times> pyval) list \<times> unit result" where
  "index_new up now ecs [] idx = (idx, Inr ())"
| "index_new up now ecs (((i, created), m) # rs) idx =
     (if \<not> created then index_new up now ecs rs idx
      else (case vget (dget_default ecs ''event'' (PDict [])) ''id'' of
          Inl e \<Rightarrow> (idx, Inl e)
        | Inr event_id \<Rightarrow> (if up then index_new up now ecs rs (idx @ [(i, alert_doc now ecs i m event_id)]) else (idx, Inl OSError))))"

definition commit :: "worker \<Rightarrow> worker \<times> unit result" where
  "commit w = (w\<lparr>wk_offset := wk_offset w + 1\<rparr>, Inr ())"

text \<open>The alerts of an event: the transaction, then the index; an exception leaves the loop and the process ends.\<close>

definition emit_matches :: "detector_env \<Rightarrow> surroundings \<Rightarrow> pydict \<Rightarrow> Match list \<Rightarrow> worker \<Rightarrow> worker \<times> unit result" where
  "emit_matches env su ecs ms w =
     (case vget (dget_default ecs ''host'' (PDict [])) ''id'' of
        Inl e \<Rightarrow> (w, Inl e)
      | Inr host_id_str \<Rightarrow>
          (if \<not> truthy host_id_str then commit w
           else (case uuid_of_val host_id_str of
               Inl e \<Rightarrow> (w, Inl e)
             | Inr host \<Rightarrow>
                 (if \<not> su_db su then (w, Inl OSError)
                  else (case emit_alerts env (su_now su) host ms ecs (wk_db w) of
                     (msgs, Inl e) \<Rightarrow> (w\<lparr>wk_published := wk_published w @ msgs\<rparr>, Inl e)
                   | (msgs, Inr (d, results)) \<Rightarrow>
                       (case index_new (su_index su) (su_now su) ecs (zip results ms) (wk_index w) of
                          (idx, r) \<Rightarrow>
                            (let w = w\<lparr>wk_db := d, wk_published := wk_published w @ msgs, wk_index := idx\<rparr>
                             in case r of Inl e \<Rightarrow> (w, Inl e) | Inr _ \<Rightarrow> commit w)))))))"

text \<open>
  A message: \<open>None\<close> is a tombstone; \<open>Some None\<close> does not decode. An exception of the refresh or of
  \<open>evaluate\<close>, which raises on every value but a dictionary, counts as no matches.
\<close>

definition handle_event :: "detector_env \<Rightarrow> surroundings \<Rightarrow> pyval option option \<Rightarrow> worker \<Rightarrow> worker \<times> unit result" where
  "handle_event env su msg w = (case msg of
       None \<Rightarrow> commit w
     | Some None \<Rightarrow> commit w
     | Some (Some ecs) \<Rightarrow>
         (case get_snapshot (su_db su) (su_now su) (wk_db w) (wk_detector w) of
            Inl e \<Rightarrow> commit w
          | Inr st \<Rightarrow>
              (let w = w\<lparr>wk_detector := st\<rparr> in
               case (ecs, evaluate ecs (ds_snapshot st)) of
                 (PDict d, Inr (m # ms)) \<Rightarrow> emit_matches env su d (m # ms) w
               | _ \<Rightarrow> commit w)))"

end
