(* ===== verification/Ioc_Detector_Correct.thy ===== *)
theory Ioc_Detector_Correct
  imports Ioc_Detector Rules_Correct Alerts_Correct
begin

text \<open>
  Correctness of the IOC detector: its five hash tables find what a search of the rules would find, no
  match is lost or counted twice, and an event that Kafka delivers again leaves no second trace.
\<close>

section \<open>Tables that keep the last value\<close>

locale indicator_table =
  fixes lookup :: "'s \<Rightarrow> 'k \<Rightarrow> 'v option" and insert :: "'k \<Rightarrow> 'v \<Rightarrow> 's \<Rightarrow> 's" and empty :: 's
  assumes lookup_empty: "lookup empty k = None"
    and lookup_insert: "lookup (insert k v s) k' = (if k' = k then Some v else lookup s k')"
begin

lemma lookup_fold:
  "lookup (foldl (\<lambda>s (k, v). insert k v s) s kvs) k = (case map_of (rev kvs) k of None \<Rightarrow> lookup s k | Some v \<Rightarrow> Some v)"
  by (induction kvs rule: rev_induct) (auto simp: lookup_insert)

lemma lookup_built: "lookup (foldl (\<lambda>s (k, v). insert k v s) empty kvs) k = map_of (rev kvs) k"
  by (simp add: lookup_fold lookup_empty split: option.split)

end

fun ioc_table :: "IocSnapshot \<Rightarrow> IocKind \<Rightarrow> (string \<times> ioc_hit) list" where
  "ioc_table s HASH_SHA256 = by_sha256 s"
| "ioc_table s HASH_MD5 = by_md5 s"
| "ioc_table s HASH_SHA1 = by_sha1 s"
| "ioc_table s IOC_FILENAME = by_filename s"
| "ioc_table s IOC_FILEPATH = by_filepath s"

definition lookup_ioc :: "IocSnapshot \<Rightarrow> IocKind \<times> string \<Rightarrow> ioc_hit option" where
  "lookup_ioc s = (\<lambda>(k, v). map_of (ioc_table s k) v)"

lemma lookup_set_entry: "lookup_ioc (set_entry k v t s) (k', v') = (if k' = k \<and> v' = v then Some t else lookup_ioc s (k', v'))"
  by (cases k; cases k') (simp_all add: lookup_ioc_def update_conv')

interpretation snap: indicator_table lookup_ioc "\<lambda>(k, v) t s. set_entry k v t s" no_iocs
proof
  fix k show "lookup_ioc no_iocs k = None" by (cases k; cases "fst k") (auto simp: lookup_ioc_def no_iocs_def)
next
  fix k t s k' show "lookup_ioc ((case k of (k, v) \<Rightarrow> \<lambda>t s. set_entry k v t s) t s) k' = (if k' = k then Some t else lookup_ioc s k')"
    by (cases k; cases k') (simp add: lookup_set_entry)
qed

section \<open>The reference\<close>

text \<open>A rule carries an indicator; the detector reports the last rule that does.\<close>

definition carries :: "IocKind \<Rightarrow> string \<Rightarrow> Rule \<Rightarrow> bool" where
  "carries k v r \<longleftrightarrow> ru_kind r = KIND_IOC \<and> ru_enabled r \<and> list_ex (\<lambda>e. ioc_kind e = k \<and> ioc_value_normalized e = v) (ru_iocs r)"

definition last_carrier :: "Rule list \<Rightarrow> IocKind \<Rightarrow> string \<Rightarrow> Rule option" where
  "last_carrier rules k v = find (carries k v) (rev rules)"

text \<open>What an event shows: kind and value of each indicator, with the label and field of a match on it.\<close>

type_synonym observable = "IocKind \<times> string \<times> string \<times> string"

definition observe_hash :: "string \<Rightarrow> pyval \<Rightarrow> string \<times> IocKind \<Rightarrow> observable result" where
  "observe_hash label h = (\<lambda>(algo, k). bindE (vget h algo) (\<lambda>v. case py_or v (PStr []) of
       PStr s \<Rightarrow> Inr (k, lower s, label @ '' hash '' @ algo @ '' matches IOC'', label @ ''.hash.'' @ algo)
     | _ \<Rightarrow> Inl AttributeError))"

definition observe_hashes :: "string \<times> pyval \<Rightarrow> observable list result" where
  "observe_hashes = (\<lambda>(label, src). bindE (vget src ''hash'') (\<lambda>h.
     mapE (observe_hash label (py_or h (PDict []))) [(''sha256'', HASH_SHA256), (''md5'', HASH_MD5), (''sha1'', HASH_SHA1)]))"

definition observe_path :: "string \<times> pyval \<Rightarrow> observable list result" where
  "observe_path = (\<lambda>(label, src). bindE (vget src ''executable'') (\<lambda>x. bindE (vget src ''path'') (\<lambda>y.
     case py_or x y of
       PStr p \<Rightarrow> Inr [(IOC_FILENAME, ioc_basename p, label @ '' basename matches IOC'', ''name''),
                      (IOC_FILEPATH, norm_path p, label @ '' path matches IOC'', ''path'')]
     | v \<Rightarrow> if truthy v then Inl AttributeError else Inr [])))"

definition observables :: "pyval \<Rightarrow> observable list result" where
  "observables ecs = bindE (vget ecs ''process'') (\<lambda>process. bindE (vget ecs ''file'') (\<lambda>file.
     let srcs = [(''process'', py_or process (PDict [])), (''file'', py_or file (PDict []))] in
     bindE (mapE observe_hashes srcs) (\<lambda>hs. bindE (mapE observe_path srcs) (\<lambda>ps. Inr (concat hs @ concat ps)))))"

definition match_of :: "RuleGroup list \<Rightarrow> Rule \<Rightarrow> observable \<Rightarrow> Match" where
  "match_of groups r = (\<lambda>(k, v, summary, fld).
     \<lparr>mt_rule_id = ru_id r, mt_rule_name = ru_name r, mt_severity = ru_severity r,
      mt_action = clamp_action (ru_action r) (rule_ceiling groups r), mt_summary = summary, mt_field = fld, mt_value = v,
      mt_mitre = (if ru_mitre r = Some [] then None else ru_mitre r)\<rparr>)"

definition detect_one :: "RuleGroup list \<Rightarrow> Rule list \<Rightarrow> observable \<Rightarrow> Match list" where
  "detect_one groups rules ob = (case ob of (k, v, summary, fld) \<Rightarrow>
     if v = [] then [] else (case last_carrier rules k v of None \<Rightarrow> [] | Some r \<Rightarrow> [match_of groups r ob]))"

section \<open>The tables agree with it\<close>

definition rule_entries :: "RuleGroup list \<Rightarrow> Rule \<Rightarrow> ((IocKind \<times> string) \<times> ioc_hit) list" where
  "rule_entries groups r = map (\<lambda>e. ((ioc_kind e, ioc_value_normalized e), rule_tuple groups r)) (ru_iocs r)"

lemma foldl_nested: "foldl (\<lambda>s x. foldl f s (g x)) s xs = foldl f s (concat (map g xs))"
  by (induction xs arbitrary: s) auto

lemma load_entries:
  "load groups rules = foldl (\<lambda>s (k, t). (case k of (k, v) \<Rightarrow> \<lambda>t s. set_entry k v t s) t s) no_iocs
     (concat (map (rule_entries groups) (filter (\<lambda>r. ru_kind r = KIND_IOC \<and> ru_enabled r) rules)))"
  unfolding load_def foldl_nested [symmetric] rule_entries_def foldl_map by simp

lemma map_of_rule_entries:
  "map_of (rev (rule_entries groups r)) (k, v) =
     (if list_ex (\<lambda>e. ioc_kind e = k \<and> ioc_value_normalized e = v) (ru_iocs r) then Some (rule_tuple groups r) else None)"
proof -
  have "map_of (rev (map (\<lambda>e. ((ioc_kind e, ioc_value_normalized e), t)) es)) (k, v) =
      (if list_ex (\<lambda>e. ioc_kind e = k \<and> ioc_value_normalized e = v) es then Some t else None)" for t :: ioc_hit and es :: "RuleIoc list"
    by (induction es rule: rev_induct) auto
  then show ?thesis by (simp add: rule_entries_def)
qed

lemma map_of_entries:
  "map_of (rev (concat (map (rule_entries groups) (filter (\<lambda>r. ru_kind r = KIND_IOC \<and> ru_enabled r) rules)))) (k, v) =
     map_option (rule_tuple groups) (last_carrier rules k v)"
  by (induction rules rule: rev_induct) (auto simp: last_carrier_def map_of_rule_entries carries_def map_add_def)

lemma lookup_load: "map_of (ioc_table (load groups rules) k) v = map_option (rule_tuple groups) (last_carrier rules k v)"
proof -
  have "lookup_ioc (load groups rules) (k, v) = map_option (rule_tuple groups) (last_carrier rules k v)"
    unfolding load_entries snap.lookup_built by (rule map_of_entries)
  then show ?thesis by (simp add: lookup_ioc_def)
qed

lemma table_hit_load: "table_hit (ioc_table (load groups rules) k) summary fld v = detect_one groups rules (k, v, summary, fld)"
  by (cases "last_carrier rules k v")
    (auto simp: table_hit_def detect_one_def lookup_load rule_tuple_def match_of_def split: option.split list.split)

lemmas table_hits [simp] = table_hit_load [where k = HASH_SHA256, simplified] table_hit_load [where k = HASH_MD5, simplified]
  table_hit_load [where k = HASH_SHA1, simplified] table_hit_load [where k = IOC_FILENAME, simplified]
  table_hit_load [where k = IOC_FILEPATH, simplified]

abbreviation detect :: "RuleGroup list \<Rightarrow> Rule list \<Rightarrow> observable list \<Rightarrow> Match list" where
  "detect groups rules obs \<equiv> concat (map (detect_one groups rules) obs)"

lemma mapE_through:
  assumes "\<And>x. x \<in> set xs \<Longrightarrow> f x = bindE (g x) (\<lambda>y. Inr (h y))"
  shows "mapE f xs = bindE (mapE g xs) (\<lambda>ys. Inr (map h ys))"
  using assms
proof (induction xs)
  case (Cons x xs)
  then have "f x = bindE (g x) (\<lambda>y. Inr (h y))" "mapE f xs = bindE (mapE g xs) (\<lambda>ys. Inr (map h ys))" by simp_all
  then show ?case by (cases "g x"; cases "mapE g xs") simp_all
qed simp

lemma hash_hits_load: "hash_hits (load groups rules) x = bindE (observe_hashes x) (\<lambda>obs. Inr (detect groups rules obs))"
proof -
  obtain label src where x: "x = (label, src)" by (cases x)
  let ?s = "load groups rules"
  let ?f = "\<lambda>h (algo, table). bindE (vget (py_or h (PDict [])) algo) (\<lambda>v. case py_or v (PStr []) of
      PStr s \<Rightarrow> Inr (table_hit table (label @ '' hash '' @ algo @ '' matches IOC'') (label @ ''.hash.'' @ algo) (lower s)) | _ \<Rightarrow> Inl AttributeError)"
  have one: "?f h (algo, ioc_table ?s k) = bindE (observe_hash label (py_or h (PDict [])) (algo, k)) (\<lambda>ob. Inr (detect_one groups rules ob))" for h algo k
    by (cases "vget (py_or h (PDict [])) algo") (auto simp: observe_hash_def table_hit_load split: pyval.split)
  have "mapE (?f h) (map (\<lambda>(algo, k). (algo, ioc_table ?s k)) aks) =
      bindE (mapE (observe_hash label (py_or h (PDict []))) aks) (\<lambda>obs. Inr (map (detect_one groups rules) obs))" for h aks
  proof (induction aks)
    case (Cons a aks)
    obtain algo k where a: "a = (algo, k)" by (cases a)
    show ?case using Cons one [of h algo k]
      by (cases "observe_hash label (py_or h (PDict [])) (algo, k)"; cases "mapE (observe_hash label (py_or h (PDict []))) aks") (simp_all add: a)
  qed simp
  from this [of _ "[(''sha256'', HASH_SHA256), (''md5'', HASH_MD5), (''sha1'', HASH_SHA1)]"]
  have "mapE (?f h) [(''sha256'', by_sha256 ?s), (''md5'', by_md5 ?s), (''sha1'', by_sha1 ?s)] =
      bindE (mapE (observe_hash label (py_or h (PDict []))) [(''sha256'', HASH_SHA256), (''md5'', HASH_MD5), (''sha1'', HASH_SHA1)])
        (\<lambda>obs. Inr (map (detect_one groups rules) obs))" for h by (simp only: list.map prod.case ioc_table.simps)
  then show ?thesis unfolding x hash_hits_def observe_hashes_def prod.case
    by (cases "vget src ''hash''") (auto simp: bindE_def split: sum.split)
qed

lemma path_hits_load: "path_hits (load groups rules) x = bindE (observe_path x) (\<lambda>obs. Inr (detect groups rules obs))"
proof -
  obtain label src where x: "x = (label, src)" by (cases x)
  have [simp]: "ioc_basename [] = []" "norm_path [] = []" by (simp_all add: ioc_basename_def norm_path_def lower_def)
  show ?thesis by (cases src) (auto simp: x path_hits_def observe_path_def Let_def detect_one_def split: pyval.split)
qed

lemma ioc_detection_reference:
  "evaluate ecs (load groups rules) = bindE (observables ecs) (\<lambda>obs. Inr (detect groups rules obs))"
proof -
  have concat_map: "concat (map (\<lambda>obs. detect groups rules obs) oss) = detect groups rules (concat oss)" for oss
    by (induction oss) auto
  show ?thesis unfolding evaluate_def observables_def Let_def
      mapE_through [of _ "hash_hits (load groups rules)" observe_hashes "\<lambda>obs. detect groups rules obs", OF hash_hits_load]
      mapE_through [of _ "path_hits (load groups rules)" observe_path "\<lambda>obs. detect groups rules obs", OF path_hits_load]
    by (simp add: bindE_def concat_map split: sum.split)
qed

text \<open>
  C26: the detector's tables report exactly what a search of the rules reports. For every event and every
  rules table, in whichever order the database returns it, \<open>evaluate\<close> on the loaded snapshot gives, for
  each hash, file name and path that the event shows, one match of the last enabled IOC rule that carries
  that value, with the rule's severity and techniques and its action clamped by the group's ceiling, and
  nothing else; it raises exactly when the event's hashes or paths cannot be read.
\<close>

theorem ioc_detection_exact:
  "evaluate ecs (load groups rules) =
     bindE (observables ecs) (\<lambda>obs. Inr (concat (map (detect_one groups rules) obs)))"
  by (rule ioc_detection_reference)

section \<open>One match\<close>

abbreviation alerts_of :: "detector_db \<Rightarrow> Alert list" where
  "alerts_of d \<equiv> px_alerts (dt_px d)"

abbreviation jobs_of :: "detector_db \<Rightarrow> job_db" where
  "jobs_of d \<equiv> px_jobs (dt_px d)"

abbreviation match_key :: "detector_env \<Rightarrow> uuid \<Rightarrow> pydict \<Rightarrow> Match \<Rightarrow> string result" where
  "match_key env host ecs m \<equiv> dedup_key_for (de_sha256 env) (mt_rule_id m) (Some host) ecs"

text \<open>The table of alerts between two turns, with every id already given out.\<close>

definition alerts_ok :: "int \<Rightarrow> datetime \<Rightarrow> detector_db \<Rightarrow> bool" where
  "alerts_ok w t d \<longleftrightarrow> dedup_inv w t (map a_id (alerts_of d)) (alerts_of d) \<and> (\<forall>a \<in> set (alerts_of d). a_id a < dt_next d)"

text \<open>An open alert of a key that was seen at a given time.\<close>

definition live :: "string \<Rightarrow> datetime \<Rightarrow> Alert list \<Rightarrow> bool" where
  "live key t alerts \<longleftrightarrow> (\<exists>a \<in> set alerts. a_dedup_key a = Some key \<and> is_open (a_state a) \<and> a_last_occurred_at a = t)"

definition commanded :: "uuid \<Rightarrow> uuid \<Rightarrow> Command \<Rightarrow> bool" where
  "commanded host i c \<longleftrightarrow> cmd_host_id c = host \<and> cmd_triggered_by_alert_id c = Some i"

lemma add_all_next: "j_next db \<le> j_next (add_all host rule alert cmds db)"
proof (induction cmds arbitrary: db)
  case (Cons x cmds)
  have "j_next db \<le> j_next (add_command db host (fst x) (snd x) (Some alert) (Some rule) None)" by (simp add: add_command_def)
  also have "\<dots> \<le> j_next (add_all host rule alert cmds (add_command db host (fst x) (snd x) (Some alert) (Some rule) None))" by (rule Cons)
  finally show ?case by (simp add: add_all_def split_def)
qed (simp add: add_all_def)

lemma queue_command_frame:
  assumes "queue_command_for_match accepts db host rule act alert ecs = Inr (db', msgs)" "host \<in> hst_id ` set (j_hosts (px_jobs (rs_px db)))"
  shows "px_alerts (rs_px db') = px_alerts (rs_px db)" "j_hosts (px_jobs (rs_px db')) = j_hosts (px_jobs (rs_px db))"
    "j_next (px_jobs (rs_px db)) \<le> j_next (px_jobs (rs_px db'))"
    "\<exists>cs. j_commands (px_jobs (rs_px db')) = j_commands (px_jobs (rs_px db)) @ cs \<and> list_all (commanded host alert) cs"
proof -
  let ?old = "px_jobs (rs_px db)"
  from assms(1) obtain act' cmds pid where
    a: "action_commands act' ecs = Inr cmds"
    and db': "rs_px db' = (rs_px db)\<lparr>px_jobs := (let jobs = add_all host rule alert cmds ?old in
        case pid of None \<Rightarrow> jobs | Some i \<Rightarrow> queue_memory_yara_job jobs host rule alert i)\<rparr>"
    by (auto simp: queue_command_for_match_def bindE_eq_Inr Let_def)
  have ok: "list_all (\<lambda>(k, p). sendable k p) cmds" using action_commands_ok [OF a] by (auto simp: list_all_iff)
  obtain cs where cs: "j_commands (add_all host rule alert cmds ?old) = j_commands ?old @ cs"
    "list_all (response_row host rule alert) cs" "grows (\<lambda>_. True) ?old (add_all host rule alert cmds ?old)"
    using add_all_rows [OF ok] by blast
  then have hosts: "host \<in> hst_id ` set (j_hosts (add_all host rule alert cmds ?old))" using assms(2) by (simp add: grows_def)
  have row: "response_row host rule alert c \<Longrightarrow> commanded host alert c" for c by (simp add: response_row_def commanded_def)
  show "px_alerts (rs_px db') = px_alerts (rs_px db)" by (simp add: db')
  have "j_next (add_all host rule alert cmds ?old) \<le> j_next (queue_memory_yara_job (add_all host rule alert cmds ?old) host rule alert i)" for i
    by (simp add: queue_memory_yara_job_def bridge_job_def Let_def)
  with add_all_next [of ?old host rule alert cmds] show "j_next ?old \<le> j_next (px_jobs (rs_px db'))"
    by (cases pid) (auto simp: db' Let_def intro: le_trans)
  show "j_hosts (px_jobs (rs_px db')) = j_hosts ?old"
    using cs(3) queue_memory_yara_job_row [OF hosts] by (auto simp: db' Let_def grows_def split: option.split)
  show "\<exists>cs. j_commands (px_jobs (rs_px db')) = j_commands ?old @ cs \<and> list_all (commanded host alert) cs"
  proof (cases pid)
    case None
    with cs row show ?thesis by (intro exI [of _ cs]) (auto simp: db' list_all_iff)
  next
    case (Some i)
    from queue_memory_yara_job_row [OF hosts, of rule alert i] obtain c where
      "j_commands (queue_memory_yara_job (add_all host rule alert cmds ?old) host rule alert i) = j_commands ?old @ cs @ [c]"
      "response_row host rule alert c" using cs(1) by auto
    with Some cs row show ?thesis by (intro exI [of _ "cs @ [c]"]) (auto simp: db' list_all_iff)
  qed
qed

lemma new_alert_fresh [simp]: "fresh_alert dkey now (new_alert i tenant host m dkey event_id now)"
  "a_id (new_alert i tenant host m dkey event_id now) = i"
  by (simp_all add: fresh_alert_def new_alert_def)

text \<open>The two ways a turn succeeds.\<close>

lemma emit_one_cases:
  assumes "emit_one env now tenant host ecs d m = Inr (d', r, msgs)"
  obtains (bumped) dkey x where "match_key env host ecs m = Inr dkey" "find_open_dupe dkey (de_window env) now (alerts_of d) = Some x"
      "d' = set_alerts (update_alert (a_id x) (bump_occurrence now) (alerts_of d)) d" "r = (a_id x, False)" "msgs = []"
  | (inserted) dkey a where "match_key env host ecs m = Inr dkey" "find_open_dupe dkey (de_window env) now (alerts_of d) = None"
      "alerts_of d' = alerts_of d @ [a]" "fresh_alert dkey now a" "a_id a = dt_next d" "r = (dt_next d, True)" "dt_rules d' = dt_rules d"
      "dt_groups d' = dt_groups d" "j_hosts (jobs_of d') = j_hosts (jobs_of d)" "dt_next d < dt_next d'"
      "\<exists>cs. j_commands (jobs_of d') = j_commands (jobs_of d) @ cs \<and> list_all (commanded host (dt_next d)) cs"
proof -
  from assms obtain dkey where k: "match_key env host ecs m = Inr dkey" by (auto simp: emit_one_def bindE_eq_Inr)
  show thesis
  proof (cases "find_open_dupe dkey (de_window env) now (alerts_of d)")
    case (Some x)
    with assms k bumped show ?thesis by (simp add: emit_one_def)
  next
    case None
    let ?a = "\<lambda>e. new_alert (dt_next d) tenant host m dkey e now"
    from assms k None obtain e d1 rs where i: "insert_alert ''auto-generated by IOC detector'' d (?a e) = Inr d1"
      and q: "queue_command_for_match (de_accepts env) (response_view d1) host (mt_rule_id m) (mt_action m) (dt_next d) ecs = Inr (rs, msgs)"
      and d': "d' = d1\<lparr>dt_px := rs_px rs\<rparr>" and r: "r = (dt_next d, True)"
      by (auto simp: emit_one_def bindE_eq_Inr)
    from i have h: "host \<in> hst_id ` set (j_hosts (jobs_of d))" and d1: "alerts_of d1 = alerts_of d @ [?a e]"
      "jobs_of d1 = skip_ids 2 (jobs_of d)" "dt_rules d1 = dt_rules d" "dt_groups d1 = dt_groups d"
      by (auto simp: insert_alert_def new_alert_def split: if_splits)
    have h1: "host \<in> hst_id ` set (j_hosts (px_jobs (rs_px (response_view d1))))" using h d1(2) by (simp add: response_view_def skip_ids_def)
    note f = queue_command_frame [OF q h1]
    have "dt_next d < dt_next d'" using f(3) by (simp add: d' d1(2) response_view_def dt_next_def skip_ids_def)
    moreover have "alerts_of d' = alerts_of d @ [?a e]" "j_hosts (jobs_of d') = j_hosts (jobs_of d)"
      using f(1,2) d1 by (simp_all add: d' response_view_def skip_ids_def)
    moreover have "\<exists>cs. j_commands (jobs_of d') = j_commands (jobs_of d) @ cs \<and> list_all (commanded host (dt_next d)) cs"
      using f(4) d1(2) by (simp add: d' response_view_def skip_ids_def)
    ultimately show ?thesis using inserted [OF k None, of "?a e"] r d1(3,4) by (simp add: d')
  qed
qed

lemma live_update: "live key now alerts \<Longrightarrow> live key now (update_alert i (bump_occurrence now) alerts)"
proof -
  assume "live key now alerts"
  then obtain a where a: "a \<in> set alerts" "a_dedup_key a = Some key" "is_open (a_state a)" "a_last_occurred_at a = now" by (auto simp: live_def)
  then have "(if a_id a = i then bump_occurrence now a else a) \<in> set (update_alert i (bump_occurrence now) alerts)" by (auto simp: set_update_alert)
  with a show ?thesis unfolding live_def by (intro bexI) auto
qed

lemma emit_one_live:
  assumes "emit_one env now tenant host ecs d m = Inr (d', r, msgs)"
  shows "\<exists>dkey. match_key env host ecs m = Inr dkey \<and> live dkey now (alerts_of d')" "live key now (alerts_of d) \<Longrightarrow> live key now (alerts_of d')"
proof -
  show "\<exists>dkey. match_key env host ecs m = Inr dkey \<and> live dkey now (alerts_of d')"
    using assms
  proof (cases rule: emit_one_cases)
    case (bumped dkey x)
    note x = find_open_dupe_Some(1,2) [OF bumped(2)]
    then have "bump_occurrence now x \<in> set (alerts_of d')" using bumped(3) by (auto simp: set_alerts_def set_update_alert)
    moreover have "a_dedup_key (bump_occurrence now x) = Some dkey" "is_open (a_state (bump_occurrence now x))"
      using x(2) by (simp_all add: dupe_candidate_def)
    ultimately have "live dkey now (alerts_of d')" unfolding live_def by (intro bexI) auto
    with bumped(1) show ?thesis by simp
  next
    case (inserted dkey a)
    then show ?thesis by (auto simp: live_def fresh_alert_def is_open_def)
  qed
  show "live key now (alerts_of d')" if "live key now (alerts_of d)"
    using assms
  proof (cases rule: emit_one_cases)
    case (bumped dkey x)
    with live_update [OF that] show ?thesis by (simp add: set_alerts_def)
  next
    case (inserted dkey a)
    with that show ?thesis by (auto simp: live_def)
  qed
qed

lemma emit_one_tables:
  assumes "emit_one env now tenant host ecs d m = Inr (d', r, msgs)"
  shows "dt_rules d' = dt_rules d" "j_hosts (jobs_of d') = j_hosts (jobs_of d)"
    "\<exists>cs. j_commands (jobs_of d') = j_commands (jobs_of d) @ cs \<and> list_all (commanded host (fst r)) cs \<and> (snd r \<or> cs = [])"
    "set (map a_id (alerts_of d')) = set (map a_id (alerts_of d)) \<union> (if snd r then {fst r} else {})"
  using assms
  by (cases rule: emit_one_cases; force simp: set_alerts_def set_update_alert update_alert_ids)+

lemma emit_one_counts:
  assumes "emit_one env now tenant host ecs d m = Inr (d', r, msgs)" "0 < de_window env" "alerts_ok (de_window env) t d" "t \<le> now"
  shows "alerts_ok (de_window env) now d' \<and>
    total_occurrences key (alerts_of d') = total_occurrences key (alerts_of d) + (if match_key env host ecs m = Inr key then 1 else 0)"
  using assms(1)
proof (cases rule: emit_one_cases)
  case (bumped dkey x)
  have inv: "dedup_inv (de_window env) t (map a_id (alerts_of d)) (alerts_of d)" using assms(3) by (simp add: alerts_ok_def)
  note x = find_open_dupe_Some(1,2) [OF bumped(2)]
  have "1 \<le> a_occurrence_count x" using inv x(1) by (auto simp: dedup_inv_def timely_def)
  then have "a_occurrence_count (bump_occurrence now x) = a_occurrence_count x + 1" by (simp add: bump_occurrence_def)
  then have "total_occurrences key (alerts_of d') = total_occurrences key (alerts_of d) + (if dkey = key then 1 else 0)"
    using total_update [of "alerts_of d" x "bump_occurrence now" key] inv x bumped(3) by (auto simp: dedup_inv_def dupe_candidate_def set_alerts_def)
  moreover have "alerts_ok (de_window env) now d'"
    using bump_step_inv [OF inv assms(2,4) bumped(2)] assms(3) bumped(3) x(1)
    by (auto simp: alerts_ok_def set_alerts_def set_update_alert update_alert_ids dt_next_def split: if_splits)
  ultimately show ?thesis using bumped(1) by simp
next
  case (inserted dkey a)
  have inv: "dedup_inv (de_window env) t (map a_id (alerts_of d)) (alerts_of d)" "\<forall>b \<in> set (alerts_of d). a_id b < dt_next d"
    using assms(3) by (auto simp: alerts_ok_def)
  then have "a_id a \<notin> set (map a_id (alerts_of d))" using inserted(5) by auto
  from insert_step_inv [OF inv(1) assms(4,2) inserted(2,4) this] have "dedup_inv (de_window env) now (map a_id (alerts_of d')) (alerts_of d')"
    by (simp add: inserted(3) dedup_inv_def)
  then have "alerts_ok (de_window env) now d'" using inv(2) inserted(3,5,10) by (auto simp: alerts_ok_def)
  with inserted show ?thesis by (simp add: total_occurrences_def fresh_alert_def)
qed

section \<open>All matches of an event\<close>

lemma emit_loop_Cons:
  assumes "emit_loop env now tenant host ecs (m # ms) d = (msgs, Inr (d', out))"
  obtains d1 r msgs1 msgs2 out2 where "emit_one env now tenant host ecs d m = Inr (d1, r, msgs1)"
    "emit_loop env now tenant host ecs ms d1 = (msgs2, Inr (d', out2))" "msgs = msgs1 @ msgs2" "out = r # out2"
  using assms by (auto simp: bindE_eq_Inr split: sum.splits prod.splits)

lemma emit_loop_tables:
  "emit_loop env now tenant host ecs ms d = (msgs, Inr (d', out)) \<Longrightarrow>
     length out = length ms \<and> dt_rules d' = dt_rules d \<and> j_hosts (jobs_of d') = j_hosts (jobs_of d) \<and>
     (\<exists>cs. j_commands (jobs_of d') = j_commands (jobs_of d) @ cs \<and> (\<forall>c \<in> set cs. \<exists>i. (i, True) \<in> set out \<and> commanded host i c)) \<and>
     set (map a_id (alerts_of d')) = set (map a_id (alerts_of d)) \<union> {i. (i, True) \<in> set out}"
proof (induction ms arbitrary: d msgs out)
  case (Cons m ms)
  from Cons.prems obtain d1 r msgs1 msgs2 out2 where one: "emit_one env now tenant host ecs d m = Inr (d1, r, msgs1)"
    and rest: "emit_loop env now tenant host ecs ms d1 = (msgs2, Inr (d', out2))" and out: "out = r # out2" by (rule emit_loop_Cons)
  note t = emit_one_tables [OF one] and ih = Cons.IH [OF rest]
  obtain cs where cs: "j_commands (jobs_of d1) = j_commands (jobs_of d) @ cs" "list_all (commanded host (fst r)) cs" "snd r \<or> cs = []"
    using t(3) by blast
  obtain cs2 where cs2: "j_commands (jobs_of d') = j_commands (jobs_of d1) @ cs2" "\<forall>c \<in> set cs2. \<exists>i. (i, True) \<in> set out2 \<and> commanded host i c"
    using ih by blast
  have "\<exists>i. (i, True) \<in> set out \<and> commanded host i c" if "c \<in> set (cs @ cs2)" for c
  proof (cases "c \<in> set cs")
    case True
    then have "snd r" "commanded host (fst r) c" using cs(2,3) by (auto simp: list_all_iff)
    then show ?thesis by (intro exI [of _ "fst r"]) (auto simp: out prod_eq_iff)
  qed (use that cs2(2) in \<open>auto simp: out\<close>)
  moreover have "set (map a_id (alerts_of d')) = set (map a_id (alerts_of d)) \<union> {i. (i, True) \<in> set out}"
    using ih t(4) by (cases r) (auto simp: out)
  ultimately show ?case using ih t(1,2) cs(1) cs2(1) by (auto simp: out intro!: exI [of _ "cs @ cs2"])
qed auto

lemma emit_loop_live:
  "emit_loop env now tenant host ecs ms d = (msgs, Inr (d', out)) \<Longrightarrow>
     (\<forall>m \<in> set ms. \<exists>key. match_key env host ecs m = Inr key \<and> live key now (alerts_of d')) \<and>
     (\<forall>key. live key now (alerts_of d) \<longrightarrow> live key now (alerts_of d'))"
proof (induction ms arbitrary: d msgs out)
  case (Cons m ms)
  from Cons.prems obtain d1 r msgs1 msgs2 out2 where one: "emit_one env now tenant host ecs d m = Inr (d1, r, msgs1)"
    and rest: "emit_loop env now tenant host ecs ms d1 = (msgs2, Inr (d', out2))" by (rule emit_loop_Cons)
  from Cons.IH [OF rest] emit_one_live [OF one] show ?case by fastforce
qed simp

lemma emit_loop_counts:
  assumes "emit_loop env now tenant host ecs ms d = (msgs, Inr (d', out))" "0 < de_window env" "alerts_ok (de_window env) now d"
  shows "alerts_ok (de_window env) now d' \<and> total_occurrences key (alerts_of d') =
    total_occurrences key (alerts_of d) + int (length (filter (\<lambda>m. match_key env host ecs m = Inr key) ms))"
  using assms
proof (induction ms arbitrary: d msgs out)
  case (Cons m ms)
  from Cons.prems(1) obtain d1 r msgs1 msgs2 out2 where one: "emit_one env now tenant host ecs d m = Inr (d1, r, msgs1)"
    and rest: "emit_loop env now tenant host ecs ms d1 = (msgs2, Inr (d', out2))" by (rule emit_loop_Cons)
  from emit_one_counts [OF one Cons.prems(2,3) order_refl, of key] Cons.IH [OF rest Cons.prems(2)] show ?case by simp
qed simp

lemma alerts_ok_later:
  assumes "alerts_ok w t d" "t \<le> now"
  shows "alerts_ok w now d"
  using assms by (auto simp: alerts_ok_def dedup_inv_def timely_def intro: order_trans)

text \<open>The tenant of the event, and the successful runs of \<open>emit_alerts\<close>.\<close>

abbreviation event_tenant :: "uuid \<Rightarrow> pydict \<Rightarrow> detector_db \<Rightarrow> uuid option result" where
  "event_tenant host ecs d \<equiv> bindE (vget (sub_dict ecs ''tenant'') ''id'') (resolve_alert_tenant_id (scope_view (jobs_of d)) host)"

lemma emit_alerts_Inr:
  assumes "emit_alerts env now host ms ecs d = (msgs, Inr (d', out))"
  obtains "event_tenant host ecs d = Inr None" "d' = d" "out = []" "msgs = []"
  | tenant where "event_tenant host ecs d = Inr (Some tenant)" "emit_loop env now tenant host ecs ms d = (msgs, Inr (d', out))"
  using assms by (auto simp: emit_alerts_def split: sum.splits option.splits)

lemma registered_tenant:
  assumes "host \<in> hst_id ` set (j_hosts (jobs_of d))"
  shows "event_tenant host ecs d \<noteq> Inr None"
proof -
  have "map_of (map (\<lambda>h. (hst_id h, hst_tenant_id h)) hs) host \<noteq> None" if "host \<in> hst_id ` set hs" for hs
    using that by (induction hs) auto
  from this [OF assms] show ?thesis
    by (auto simp: bindE_eq_Inr resolve_alert_tenant_id_def scope_view_def Let_def split: sum.splits if_splits)
qed

section \<open>The same event again\<close>

text \<open>Every key has an open alert inside the window.\<close>

definition covered :: "detector_env \<Rightarrow> datetime \<Rightarrow> uuid \<Rightarrow> pydict \<Rightarrow> Match list \<Rightarrow> Alert list \<Rightarrow> bool" where
  "covered env now host ecs ms alerts \<longleftrightarrow> (\<forall>m \<in> set ms. \<exists>key. match_key env host ecs m = Inr key \<and>
     (\<exists>a \<in> set alerts. dupe_candidate key (de_window env) now a))"

lemma candidate_bumped:
  assumes "\<exists>a \<in> set alerts. dupe_candidate key w now a" "0 < w"
  shows "\<exists>a \<in> set (update_alert i (bump_occurrence now) alerts). dupe_candidate key w now a"
proof -
  from assms(1) obtain a where a: "a \<in> set alerts" "dupe_candidate key w now a" by blast
  then have "(if a_id a = i then bump_occurrence now a else a) \<in> set (update_alert i (bump_occurrence now) alerts)" by (auto simp: set_update_alert)
  moreover have "dupe_candidate key w now (if a_id a = i then bump_occurrence now a else a)" using a(2) assms(2) by (auto simp: dupe_candidate_def seconds_def)
  ultimately show ?thesis by blast
qed

lemma emit_loop_covered:
  assumes "covered env now host ecs ms (alerts_of d)" "0 < de_window env"
  shows "\<exists>alerts out. emit_loop env now tenant host ecs ms d = ([], Inr (set_alerts alerts d, out)) \<and> length out = length ms \<and>
    map a_id alerts = map a_id (alerts_of d) \<and> map a_state alerts = map a_state (alerts_of d) \<and> (\<forall>r \<in> set out. \<not> snd r)"
  using assms(1)
proof (induction ms arbitrary: d)
  case (Cons m ms)
  then obtain key where key: "match_key env host ecs m = Inr key" "\<exists>a \<in> set (alerts_of d). dupe_candidate key (de_window env) now a"
    by (auto simp: covered_def)
  then obtain x where x: "find_open_dupe key (de_window env) now (alerts_of d) = Some x"
    using find_open_dupe_None [of key "de_window env" now "alerts_of d"] by (cases "find_open_dupe key (de_window env) now (alerts_of d)") auto
  let ?al = "update_alert (a_id x) (bump_occurrence now) (alerts_of d)"
  have one: "emit_one env now tenant host ecs d m = Inr (set_alerts ?al d, (a_id x, False), [])" using key(1) x by (simp add: emit_one_def)
  have "covered env now host ecs ms (alerts_of (set_alerts ?al d))"
    using Cons.prems candidate_bumped [OF _ assms(2)] by (fastforce simp: covered_def set_alerts_def)
  from Cons.IH [OF this] obtain alerts out where
    l: "emit_loop env now tenant host ecs ms (set_alerts ?al d) = ([], Inr (set_alerts alerts (set_alerts ?al d), out))"
    "length out = length ms" "map a_id alerts = map a_id ?al" "map a_state alerts = map a_state ?al" "\<forall>r \<in> set out. \<not> snd r"
    by (auto simp: set_alerts_def)
  have "map a_state ?al = map a_state (alerts_of d)" by (auto simp: update_alert_def)
  with l one show ?case by (intro exI [of _ alerts] exI [of _ "(a_id x, False) # out"]) (auto simp: update_alert_ids set_alerts_def)
next
  case Nil
  have "set_alerts (alerts_of d) d = d" by (simp add: set_alerts_def)
  then show ?case by (intro exI [of _ "alerts_of d"] exI [of _ "[]"]) simp
qed

lemma index_none: "\<forall>r \<in> set rs. \<not> snd (fst r) \<Longrightarrow> index_new up now ecs rs idx = (idx, Inr ())"
  by (induction up now ecs rs idx rule: index_new.induct) auto

section \<open>The worker\<close>

lemma index_new_ids:
  "index_new up now ecs rs idx = (idx', Inr ()) \<Longrightarrow> set (map fst idx') = set (map fst idx) \<union> {i. \<exists>m. ((i, True), m) \<in> set rs}"
proof (induction up now ecs rs idx rule: index_new.induct)
  case (2 up now ecs i created m rs idx)
  then show ?case by (cases created) (auto split: sum.splits if_splits)
qed auto

lemma zip_created: "length out = length ms \<Longrightarrow> (i, True) \<in> set out \<Longrightarrow> \<exists>m. ((i, True), m) \<in> set (zip out ms)"
  by (metis in_set_impl_in_set_zip1)

lemma uuid_of_str_nonempty:
  assumes "uuid_of_str s = Some u"
  shows "s \<noteq> []"
proof
  assume "s = []"
  moreover have "uuid_of_str [] = None" by code_simp
  ultimately show False using assms by simp
qed

lemma emit_matches_Inr:
  assumes "emit_matches env su ecs ms w = (w', Inr ())" "vget (dget_default ecs ''host'' (PDict [])) ''id'' = Inr (PStr hs)"
    "uuid_of_str hs = Some host"
  obtains msgs d out idx where "emit_alerts env (su_now su) host ms ecs (wk_db w) = (msgs, Inr (d, out))"
    "index_new (su_index su) (su_now su) ecs (zip out ms) (wk_index w) = (idx, Inr ())" "wk_db w' = d" "wk_index w' = idx"
    "wk_offset w' = wk_offset w + 1"
  using assms that uuid_of_str_nonempty [OF assms(3)]
  by (auto simp: emit_matches_def uuid_of_val_def commit_def Let_def split: if_splits prod.splits sum.splits)

section \<open>Properties\<close>

text \<open>
  C27: no match is lost and none is counted twice. When the matches of an event are emitted for a
  registered host, there is one result per match; for every deduplication key the occurrences recorded in
  the table grow by exactly the number of matches with that key; the alerts table keeps its invariant (two
  open alerts of one key are a full window apart); and every command queued is for that host and for an
  alert that this event created.
\<close>

theorem matches_counted:
  assumes "emit_alerts env now host ms ecs d = (msgs, Inr (d', out))" "host \<in> hst_id ` set (j_hosts (px_jobs (dt_px d)))"
    "0 < de_window env" "alerts_ok (de_window env) t d" "t \<le> now"
  shows "length out = length ms \<and> alerts_ok (de_window env) now d' \<and>
    (\<forall>key. total_occurrences key (px_alerts (dt_px d')) = total_occurrences key (px_alerts (dt_px d)) +
       int (length (filter (\<lambda>m. dedup_key_for (de_sha256 env) (mt_rule_id m) (Some host) ecs = Inr key) ms))) \<and>
    (\<exists>cs. j_commands (px_jobs (dt_px d')) = j_commands (px_jobs (dt_px d)) @ cs \<and>
       list_all (\<lambda>c. list_ex (\<lambda>(i, created). created \<and> cmd_host_id c = host \<and> cmd_triggered_by_alert_id c = Some i) out) cs)"
  using assms(1)
proof (cases rule: emit_alerts_Inr)
  case (2 tenant)
  note loop = emit_loop_tables [OF 2(2)] emit_loop_counts [OF 2(2) assms(3) alerts_ok_later [OF assms(4,5)]]
  from loop(1) obtain cs where cs: "j_commands (jobs_of d') = j_commands (jobs_of d) @ cs"
    "\<forall>c \<in> set cs. \<exists>i. (i, True) \<in> set out \<and> commanded host i c" by blast
  then have "list_all (\<lambda>c. list_ex (\<lambda>(i, created). created \<and> cmd_host_id c = host \<and> cmd_triggered_by_alert_id c = Some i) out) cs"
    by (force simp: list_all_iff list_ex_iff commanded_def)
  with loop cs(1) show ?thesis by blast
qed (use registered_tenant [OF assms(2)] in simp)

text \<open>
  C28: an event that is delivered again within the window leaves no second trace. If emitting the matches of an
  event succeeded, emitting them again before the window has passed succeeds too, publishes nothing,
  creates no alert, history row or command and changes no alert's state (it only counts the
  occurrences), and has nothing to index.
\<close>

theorem redelivery_leaves_no_trace:
  assumes "emit_alerts env now host ms ecs d = (msgs, Inr (d1, out))" "now \<le> now'" "now' - seconds (de_window env) < now"
  shows "\<exists>alerts out'. emit_alerts env now' host ms ecs d1 = ([], Inr (set_alerts alerts d1, out')) \<and>
    map a_id alerts = map a_id (px_alerts (dt_px d1)) \<and> map a_state alerts = map a_state (px_alerts (dt_px d1)) \<and>
    index_new up now' ecs (zip out' ms) idx = (idx, Inr ())"
  using assms(1)
proof (cases rule: emit_alerts_Inr)
  case 1
  have "set_alerts (alerts_of d) d = d" by (simp add: set_alerts_def)
  with 1 show ?thesis by (intro exI [of _ "alerts_of d"] exI [of _ "[]"]) (simp add: emit_alerts_def)
next
  case (2 tenant)
  have w: "0 < de_window env" using assms(2,3) by (auto simp: seconds_def zero_less_mult_iff)
  have hosts: "sc_hosts (scope_view (jobs_of d1)) = sc_hosts (scope_view (jobs_of d))"
    using emit_loop_tables [OF 2(2)] by (simp add: scope_view_def)
  then have "resolve_alert_tenant_id (scope_view (jobs_of d1)) = resolve_alert_tenant_id (scope_view (jobs_of d))"
    by (simp add: resolve_alert_tenant_id_def fun_eq_iff)
  with 2(1) have t: "event_tenant host ecs d1 = Inr (Some tenant)" by simp
  have "covered env now' host ecs ms (alerts_of d1)"
    using emit_loop_live [OF 2(2)] assms(3) unfolding covered_def live_def dupe_candidate_def by fastforce
  from emit_loop_covered [OF this w] obtain alerts out' where
    e: "emit_loop env now' tenant host ecs ms d1 = ([], Inr (set_alerts alerts d1, out'))" "map a_id alerts = map a_id (alerts_of d1)"
      "map a_state alerts = map a_state (alerts_of d1)" "\<forall>r \<in> set out'. \<not> snd r" by blast
  have "index_new up now' ecs (zip out' ms) idx = (idx, Inr ())" by (rule index_none) (use e(4) in \<open>force dest: set_zip_leftD\<close>)
  with e t show ?thesis by (intro exI [of _ alerts] exI [of _ out']) (simp add: emit_alerts_def)
qed

text \<open>
  The worker acknowledges an event only when it is recorded. When a message of a registered host,
  matched against a snapshot that could be had, is handled without an exception, its offset advances by
  one, every match has an open alert of its key seen at that time, and every alert that the event added to
  the table has its document in the index.
\<close>

theorem acknowledged_event_recorded:
  assumes "handle_event env su (Some (Some (PDict ecs))) w = (w', Inr ())"
    "get_snapshot (su_db su) (su_now su) (wk_db w) (wk_detector w) = Inr st" "evaluate (PDict ecs) (ds_snapshot st) = Inr ms"
    "vget (dget_default ecs ''host'' (PDict [])) ''id'' = Inr (PStr hs)" "uuid_of_str hs = Some host"
    "host \<in> hst_id ` set (j_hosts (px_jobs (dt_px (wk_db w))))"
  shows "wk_offset w' = wk_offset w + 1 \<and>
    (\<forall>m \<in> set ms. \<exists>key. dedup_key_for (de_sha256 env) (mt_rule_id m) (Some host) ecs = Inr key \<and> live key (su_now su) (px_alerts (dt_px (wk_db w')))) \<and>
    (\<forall>a \<in> set (px_alerts (dt_px (wk_db w'))). a_id a \<in> a_id ` set (px_alerts (dt_px (wk_db w))) \<or> a_id a \<in> fst ` set (wk_index w'))"
proof (cases ms)
  case Nil
  then show ?thesis using assms(1-3) by (auto simp: handle_event_def commit_def)
next
  case (Cons m ms')
  let ?w = "w\<lparr>wk_detector := st\<rparr>"
  have handled: "emit_matches env su ecs ms ?w = (w', Inr ())" using assms(1-3) Cons by (simp add: handle_event_def Let_def)
  obtain msgs d out idx where
    e: "emit_alerts env (su_now su) host ms ecs (wk_db w) = (msgs, Inr (d, out))"
      "index_new (su_index su) (su_now su) ecs (zip out ms) (wk_index w) = (idx, Inr ())" "wk_db w' = d" "wk_index w' = idx"
      "wk_offset w' = wk_offset w + 1" by (rule emit_matches_Inr [OF handled assms(4,5)]) simp
  obtain tenant where l: "emit_loop env (su_now su) tenant host ecs ms (wk_db w) = (msgs, Inr (d, out))"
    using e(1) registered_tenant [OF assms(6)] by (cases rule: emit_alerts_Inr) auto
  note t = emit_loop_tables [OF l]
  have "a_id a \<in> a_id ` set (alerts_of (wk_db w)) \<or> a_id a \<in> fst ` set idx" if "a \<in> set (alerts_of d)" for a
  proof -
    have "a_id a \<in> set (map a_id (alerts_of (wk_db w))) \<or> (a_id a, True) \<in> set out" using that t by auto
    with index_new_ids [OF e(2)] zip_created [of out ms "a_id a"] t show ?thesis by auto
  qed
  with e(3-5) emit_loop_live [OF l] show ?thesis by blast
qed

text \<open>
  A new indicator is enforced within the refresh period. Once an enabled IOC rule has been created,
  however old the worker's tables were, an event handled more than thirty seconds later that shows one
  of the rule's indicators has a match on it, in whichever order the database returns the rules; the match
  is of the new rule unless another enabled rule carries the same indicator.
\<close>

theorem new_indicator_enforced:
  assumes "create_rule se reachable t p actor db = Inr (db', r)" "rc_kind p = KIND_IOC" "rc_enabled p" "rc_iocs p = Some es" "(k, v) \<in> set es"
    "set (dt_rules d) = set (rb_rules db')" "case ds_last_load st of None \<Rightarrow> True | Some t' \<Rightarrow> t' \<le> t" "t + seconds 30 < now"
    "observables ecs = Inr obs" "(k, normalize_ioc k v, summary, fld) \<in> set obs" "normalize_ioc k v \<noteq> []"
  shows "\<exists>st' ms r'. get_snapshot True now d st = Inr st' \<and> evaluate ecs (ds_snapshot st') = Inr ms \<and>
    match_of (dt_groups d) r' (k, normalize_ioc k v, summary, fld) \<in> set ms \<and> r' \<in> set (dt_rules d) \<and> carries k (normalize_ioc k v) r' \<and>
    (list_all (\<lambda>x. \<not> carries k (normalize_ioc k v) x) (rb_rules db) \<longrightarrow> r' = r)"
proof -
  let ?v = "normalize_ioc k v"
  have rules: "rb_rules db' = rb_rules db @ [r]" using create_rule_change(1) [OF assms(1)] .
  have "ru_kind r = KIND_IOC" "ru_enabled r" "ru_iocs r = ioc_rows es" using assms(1-4)
    by (auto simp: create_rule_def bindE_eq_Inr Let_def split: if_splits)
  then have r: "carries k ?v r" using assms(5) by (force simp: carries_def list_ex_iff ioc_rows_def)
  have "r \<in> set (dt_rules d)" using assms(6) rules by simp
  with r obtain r' where f: "last_carrier (dt_rules d) k ?v = Some r'"
    by (cases "last_carrier (dt_rules d) k ?v") (auto simp: last_carrier_def find_None_iff)
  then have r': "r' \<in> set (dt_rules d)" "carries k ?v r'" by (auto simp: last_carrier_def find_Some_iff rev_nth)
  have "get_snapshot True now d st = Inr \<lparr>ds_snapshot = load (dt_groups d) (dt_rules d), ds_last_load = Some now\<rparr>"
    using assms(7,8) by (auto simp: get_snapshot_def REFRESH_SECONDS_def seconds_def split: option.splits)
  moreover have "evaluate ecs (load (dt_groups d) (dt_rules d)) = Inr (detect (dt_groups d) (dt_rules d) obs)"
    using ioc_detection_reference assms(9) by simp
  moreover have "match_of (dt_groups d) r' (k, ?v, summary, fld) \<in> set (detect (dt_groups d) (dt_rules d) obs)"
    using assms(10,11) f by (force simp: detect_one_def)
  moreover have "list_all (\<lambda>x. \<not> carries k ?v x) (rb_rules db) \<longrightarrow> r' = r"
    using r' assms(6) rules by (auto simp: list_all_iff)
  ultimately show ?thesis using r' by (intro exI conjI) auto
qed

text \<open>
  When a refresh is due and the database does not answer, the failure counts as an event without matches:
  the offset advances and the event is never matched.
\<close>

lemma failed_refresh_skips_event:
  assumes "ds_last_load (wk_detector w) = None" "\<not> su_db su"
  shows "handle_event env su (Some (Some ecs)) w = (w\<lparr>wk_offset := wk_offset w + 1\<rparr>, Inr ())"
  using assms by (simp add: handle_event_def get_snapshot_def commit_def)

section \<open>Witnesses\<close>

definition demo_ioc_rule :: Rule where
  "demo_ioc_rule = \<lparr>ru_id = 5, ru_tenant_id = 3, ru_kind = KIND_IOC, ru_name = ''r'', ru_description = None, ru_severity = HIGH, ru_action = ALERT,
     ru_enabled = True, ru_group_id = None, ru_body = None, ru_sigma_compiled = None, ru_revision = 1, ru_mitre = None,
     ru_auto_memory_scan = False, ru_iocs = ioc_rows [(IOC_FILENAME, ''e'')], ru_updated_at = 0\<rparr>"

definition demo_detector :: detector_db where
  "demo_detector = \<lparr>dt_rules = [demo_ioc_rule], dt_groups = [], dt_feeds = [],
     dt_px = demo_px\<lparr>px_alerts := [], px_playbooks := []\<rparr>, dt_history = []\<rparr>"

definition demo_detector_env :: detector_env where
  "demo_detector_env = \<lparr>de_sha256 = (\<lambda>_. []), de_window = 300, de_accepts = (\<lambda>_. True)\<rparr>"

definition demo_event :: pydict where
  "demo_event = [(''process'', PDict [(''executable'', PStr ''/E'')]), (''host'', PDict [(''id'', PStr (uuid_str 22))])]"

definition demo_match :: Match where
  "demo_match = \<lparr>mt_rule_id = 5, mt_rule_name = ''r'', mt_severity = HIGH, mt_action = ALERT, mt_summary = ''process basename matches IOC'',
     mt_field = ''name'', mt_value = ''e'', mt_mitre = None\<rparr>"

lemma demo_key: "dedup_key_for (de_sha256 demo_detector_env) r h demo_event = Inr []"
  by (simp add: dedup_key_for_def dedup_signal_def demo_event_def demo_detector_env_def sub_dict_def hexdigest_def)

lemma demo_dict: "vget (sub_dict demo_event ''tenant'') ''id'' = Inr PNone" "vget (dget_default demo_event ''event'' (PDict [])) ''id'' = Inr PNone"
  "vget (dget_default demo_event ''host'' (PDict [])) ''id'' = Inr (PStr (uuid_str 22))"
  by (simp_all add: demo_event_def sub_dict_def dget_default_def py_or_def)

lemma demo_emits: "\<exists>msgs d out. emit_alerts demo_detector_env 9 22 [demo_match] demo_event demo_detector = (msgs, Inr (d, out))"
proof -
  let ?d = demo_detector
  have w: "de_window demo_detector_env = 300" by (simp add: demo_detector_env_def)
  have t: "resolve_alert_tenant_id (scope_view (jobs_of ?d)) 22 PNone = Inr (Some 3)"
    by (simp add: resolve_alert_tenant_id_def scope_view_def demo_detector_def demo_px_def demo_jobs_db_def demo_host_def)
  have h: "matched_hash_is_detonation_ioc es fs demo_event = Inr False" for es fs
    by (simp add: matched_hash_is_detonation_ioc_def demo_event_def sub_dict_def py_or_def nonempty_str_def)
  have none: "find_open_dupe [] 300 9 (alerts_of ?d) = None" by (simp add: demo_detector_def find_open_dupe_def)
  obtain d1 where ins: "insert_alert ''auto-generated by IOC detector'' ?d (new_alert (dt_next ?d) 3 22 demo_match [] PNone 9) = Inr d1" "dt_rules d1 = dt_rules ?d"
    by (simp add: insert_alert_def new_alert_def demo_match_def demo_detector_def demo_ioc_rule_def demo_px_def demo_jobs_db_def demo_host_def)
  have q: "\<exists>rs msgs. queue_command_for_match (de_accepts demo_detector_env) (response_view d1) 22 (mt_rule_id demo_match) (mt_action demo_match) i demo_event = Inr (rs, msgs)" for i
    using ins(2) h by (simp add: queue_command_for_match_def action_commands_def demo_match_def response_view_def demo_detector_def demo_ioc_rule_def Let_def)
  then obtain rs msgs where "queue_command_for_match (de_accepts demo_detector_env) (response_view d1) 22 (mt_rule_id demo_match) (mt_action demo_match) (dt_next ?d) demo_event = Inr (rs, msgs)" by blast
  then show ?thesis using t none ins(1) by (simp add: emit_alerts_def emit_one_def demo_dict demo_key w)
qed

lemma demo_registered: "22 \<in> hst_id ` set (j_hosts (px_jobs (dt_px demo_detector)))"
  by (simp add: demo_detector_def demo_px_def demo_jobs_db_def demo_host_def)

text \<open>Witness: the file named by the rule runs on a host.\<close>

theorem matches_counted_witness:
  "\<exists>msgs d out. emit_alerts demo_detector_env 9 22 [demo_match] demo_event demo_detector = (msgs, Inr (d, out)) \<and> length out = 1 \<and>
     total_occurrences [] (px_alerts (dt_px d)) = 1"
proof -
  obtain msgs d out where e: "emit_alerts demo_detector_env 9 22 [demo_match] demo_event demo_detector = (msgs, Inr (d, out))"
    using demo_emits by blast
  have w: "0 < de_window demo_detector_env" by (simp add: demo_detector_env_def)
  have ok: "alerts_ok (de_window demo_detector_env) 0 demo_detector"
    by (simp add: alerts_ok_def dedup_inv_def separated_def timely_def demo_detector_def)
  have "total_occurrences [] (px_alerts (dt_px demo_detector)) = 0" by (simp add: total_occurrences_def demo_detector_def)
  with matches_counted [OF e demo_registered w ok] demo_key e show ?thesis by (intro exI conjI) auto
qed

text \<open>Witness: the same message, five seconds later.\<close>

theorem redelivery_leaves_no_trace_witness:
  "\<exists>msgs d out alerts out'. emit_alerts demo_detector_env 9 22 [demo_match] demo_event demo_detector = (msgs, Inr (d, out)) \<and>
     emit_alerts demo_detector_env 5000009 22 [demo_match] demo_event d = ([], Inr (set_alerts alerts d, out')) \<and>
     map a_id alerts = map a_id (px_alerts (dt_px d))"
proof -
  obtain msgs d out where e: "emit_alerts demo_detector_env 9 22 [demo_match] demo_event demo_detector = (msgs, Inr (d, out))"
    using demo_emits by blast
  have "(9::int) \<le> 5000009" "5000009 - seconds (de_window demo_detector_env) < 9" by (simp_all add: demo_detector_env_def seconds_def)
  from redelivery_leaves_no_trace [OF e this] e show ?thesis by blast
qed

definition demo_worker :: worker where
  "demo_worker = \<lparr>wk_db = demo_detector, wk_detector = initial_state, wk_index = [], wk_published = [], wk_offset = 0\<rparr>"

definition demo_surroundings :: surroundings where
  "demo_surroundings = \<lparr>su_now = 9, su_db = True, su_index = True\<rparr>"

lemma demo_evaluates: "evaluate (PDict demo_event) (load [] [demo_ioc_rule]) = Inr [demo_match]"
proof -
  have o: "observables (PDict [(''process'', PDict [(''executable'', PStr ''/E'')])]) =
      Inr [(HASH_SHA256, [], ''process hash sha256 matches IOC'', ''process.hash.sha256''), (HASH_MD5, [], ''process hash md5 matches IOC'', ''process.hash.md5''),
           (HASH_SHA1, [], ''process hash sha1 matches IOC'', ''process.hash.sha1''),
           (HASH_SHA256, [], ''file hash sha256 matches IOC'', ''file.hash.sha256''), (HASH_MD5, [], ''file hash md5 matches IOC'', ''file.hash.md5''),
           (HASH_SHA1, [], ''file hash sha1 matches IOC'', ''file.hash.sha1''),
           (IOC_FILENAME, ''e'', ''process basename matches IOC'', ''name''), (IOC_FILEPATH, ''/e'', ''process path matches IOC'', ''path'')]"
    by code_simp
  have "observables (PDict demo_event) = observables (PDict [(''process'', PDict [(''executable'', PStr ''/E'')])])"
    by (simp add: observables_def demo_event_def)
  moreover have "last_carrier [demo_ioc_rule] IOC_FILENAME ''e'' = Some demo_ioc_rule" "last_carrier [demo_ioc_rule] IOC_FILEPATH ''/e'' = None"
    by code_simp+
  moreover have "match_of [] demo_ioc_rule (IOC_FILENAME, ''e'', ''process basename matches IOC'', ''name'') = demo_match"
    by (simp add: match_of_def demo_ioc_rule_def demo_match_def clamp_action_def rule_ceiling_def)
  ultimately show ?thesis unfolding ioc_detection_reference by (simp add: o detect_one_def)
qed

text \<open>Witness: the worker's first message.\<close>

theorem acknowledged_event_recorded_witness:
  "\<exists>w'. handle_event demo_detector_env demo_surroundings (Some (Some (PDict demo_event))) demo_worker = (w', Inr ()) \<and> wk_offset w' = 1 \<and>
     live [] 9 (px_alerts (dt_px (wk_db w')))"
proof -
  let ?st = "\<lparr>ds_snapshot = load [] [demo_ioc_rule], ds_last_load = Some 9\<rparr>"
  have g: "get_snapshot (su_db demo_surroundings) (su_now demo_surroundings) (wk_db demo_worker) (wk_detector demo_worker) = Inr ?st"
    by (simp add: get_snapshot_def demo_surroundings_def demo_worker_def initial_state_def demo_detector_def)
  have u: "uuid_of_str (uuid_str 22) = Some 22" by (rule uuid_of_uuid_str) (simp add: is_uuid_def)
  have ne: "uuid_str 22 \<noteq> []" by (rule uuid_of_str_nonempty [OF u])
  obtain msgs d out where e: "emit_alerts demo_detector_env 9 22 [demo_match] demo_event demo_detector = (msgs, Inr (d, out))"
    using demo_emits by blast
  have ix: "\<exists>idx. index_new True 9 demo_event rs i = (idx, Inr ())" for rs i
    by (induction True "9 :: int" demo_event rs i rule: index_new.induct) (auto simp: demo_dict)
  obtain w' where h: "handle_event demo_detector_env demo_surroundings (Some (Some (PDict demo_event))) demo_worker = (w', Inr ())"
    using ix [of "zip out [demo_match]" "[]"] g u ne e demo_evaluates demo_dict(3)
    by (auto simp: handle_event_def emit_matches_def uuid_of_val_def demo_surroundings_def demo_worker_def commit_def Let_def)
  have ev: "evaluate (PDict demo_event) (ds_snapshot ?st) = Inr [demo_match]" using demo_evaluates by simp
  have reg: "22 \<in> hst_id ` set (j_hosts (px_jobs (dt_px (wk_db demo_worker))))" using demo_registered by (simp add: demo_worker_def)
  from acknowledged_event_recorded [OF h g ev demo_dict(3) u reg] demo_key h show ?thesis by (auto simp: demo_worker_def demo_surroundings_def)
qed

text \<open>Witness: a rule on a file name, and the file seen forty seconds later.\<close>

theorem new_indicator_enforced_witness:
  "\<exists>db' r st' ms. create_rule demo_sigma True 0 demo_create demo_admin empty_rules = Inr (db', r) \<and>
     get_snapshot True 40000000 (demo_detector\<lparr>dt_rules := [r]\<rparr>) initial_state = Inr st' \<and>
     evaluate (PDict [(''file'', PDict [(''path'', PStr ''/Evil.exe'')])]) (ds_snapshot st') = Inr ms \<and> ms \<noteq> []"
proof -
  let ?n = "normalize_ioc IOC_FILENAME '' Evil.exe ''"
  obtain db' r where c: "create_rule demo_sigma True 0 demo_create demo_admin empty_rules = Inr (db', r)"
    by (simp add: create_rule_def demo_create_def demo_admin_def validate_kind_payload_def ioc_entries_ok_def is_set_def RequireAdmin_def
        require_role_def normalize_techniques_def Let_def has_role_def)
  have n: "?n = ''evil.exe''" by code_simp
  have "case observables (PDict [(''file'', PDict [(''path'', PStr ''/Evil.exe'')])]) of Inl e \<Rightarrow> False
      | Inr obs \<Rightarrow> (IOC_FILENAME, ''evil.exe'', ''file basename matches IOC'', ''name'') \<in> set obs" by code_simp
  then obtain obs where o: "observables (PDict [(''file'', PDict [(''path'', PStr ''/Evil.exe'')])]) = Inr obs"
    "(IOC_FILENAME, ?n, ''file basename matches IOC'', ''name'') \<in> set obs" unfolding n by (auto split: sum.splits)
  have rules: "set (dt_rules (demo_detector\<lparr>dt_rules := [r]\<rparr>)) = set (rb_rules db')"
    using create_rule_change(1) [OF c] by (simp add: empty_rules_def)
  have p: "rc_kind demo_create = KIND_IOC" "rc_enabled demo_create" "rc_iocs demo_create = Some [(IOC_FILENAME, '' Evil.exe '')]"
    "(IOC_FILENAME, '' Evil.exe '') \<in> set [(IOC_FILENAME, '' Evil.exe '')]" by (simp_all add: demo_create_def)
  have st: "case ds_last_load initial_state of None \<Rightarrow> True | Some t' \<Rightarrow> t' \<le> 0" "(0::int) + seconds 30 < 40000000"
    by (simp_all add: initial_state_def seconds_def)
  have "?n \<noteq> []" unfolding n by simp
  from new_indicator_enforced [OF c p rules st o this] c show ?thesis by fastforce
qed

end
