(* ===== verification/Sequence_Worker.thy ===== *)
theory Sequence_Worker
  imports Sequence_Eval Ioc_Detector
begin

text \<open>
  Sequence rules around their evaluator: the table and its edits (backend/app/models/sequence_rule.py,
  schemas/sequence_rule.py, api/sequence_rules.py) and the worker that feeds every event to the evaluator
  and records the matches (workers/sequence_detector.py). The YAML reader, SHA-256 and the broker are
  parameters. The rows that the worker caches are detached from their session: what it writes to them
  stays in memory.
\<close>

section \<open>The table\<close>

record SequenceRule =
  sq_id :: uuid
  sq_tenant_id :: uuid
  sq_name :: string
  sq_description :: "string option"
  sq_yaml_body :: string
  sq_window_s :: int
  sq_enabled :: bool
  sq_severity :: Severity
  sq_mitre :: "string list option"
  sq_hit_count :: int
  sq_last_hit_at :: "datetime option"
  sq_created_by :: "uuid option"
  sq_managed_rule_id :: "uuid option"

record sequence_db =
  sb_rules :: "SequenceRule list"
  sb_detector :: detector_db
  sb_audit :: "audit_request list"

record yaml_env =
  ye_load :: "string \<Rightarrow> pyval option"
  ye_window :: "string option"

definition parse_rule :: "yaml_env \<Rightarrow> string \<Rightarrow> int \<Rightarrow> ParsedSequence result" where
  "parse_rule ye body w = parse_yaml (ye_load ye) (ye_window ye) body (Some w)"

section \<open>Edits\<close>

record SequenceRuleCreate =
  sc_name :: string
  sc_description :: "string option"
  sc_yaml_body :: string
  sc_window_s :: int
  sc_enabled :: bool
  sc_severity :: Severity
  sc_mitre :: "string list option"

record SequenceRuleUpdate =
  su_name :: "string option"
  su_description :: "string option"
  su_yaml_body :: "string option"
  su_window_s :: "int option"
  su_enabled :: "bool option"
  su_severity :: "Severity option"
  su_mitre :: "string list option"

definition name_ok :: "string \<Rightarrow> bool" where
  "name_ok n \<longleftrightarrow> 1 \<le> length n \<and> length n \<le> 255"

definition window_ok :: "int \<Rightarrow> bool" where
  "window_ok w \<longleftrightarrow> 1 \<le> w \<and> w \<le> 3600"

definition opt_ok :: "('a \<Rightarrow> bool) \<Rightarrow> 'a option \<Rightarrow> bool" where
  "opt_ok P x \<longleftrightarrow> (case x of None \<Rightarrow> True | Some v \<Rightarrow> P v)"

definition validate_or_400 :: "yaml_env \<Rightarrow> string \<Rightarrow> int \<Rightarrow> unit result" where
  "validate_or_400 ye body w = (case parse_rule ye body w of
       Inr _ \<Rightarrow> Inr ()
     | Inl (SequenceParseError msg) \<Rightarrow> Inl (bad_request (''sequence rule yaml invalid: '' @ msg))
     | Inl e \<Rightarrow> Inl e)"

definition load_in_tenant :: "sequence_db \<Rightarrow> uuid \<Rightarrow> Actor \<Rightarrow> SequenceRule result" where
  "load_in_tenant db i actor = (case find (\<lambda>r. sq_id r = i) (sb_rules db) of
       None \<Rightarrow> Inl (not_found ''sequence_rule'' i)
     | Some r \<Rightarrow> (if sq_tenant_id r \<noteq> actor_tenant_id actor then Inl (not_found ''sequence_rule'' i) else Inr r))"

text \<open>The check of the route, within the tenant, and the unique constraint of the column, over all rows.\<close>

definition check_name :: "sequence_db \<Rightarrow> Actor \<Rightarrow> string \<Rightarrow> unit result" where
  "check_name db actor name =
     (if list_ex (\<lambda>r. sq_name r = name \<and> sq_tenant_id r = actor_tenant_id actor) (sb_rules db)
      then Inl (bad_request (''sequence rule '' @ [squote] @ name @ [squote] @ '' already exists''))
      else Inr ())"

definition unique_name :: "sequence_db \<Rightarrow> uuid option \<Rightarrow> string \<Rightarrow> unit result" where
  "unique_name db self name =
     (if list_ex (\<lambda>r. sq_name r = name \<and> Some (sq_id r) \<noteq> self) (sb_rules db) then Inl IntegrityError else Inr ())"

definition sequence_audit :: "Actor \<Rightarrow> string \<Rightarrow> uuid \<Rightarrow> pydict \<Rightarrow> audit_request" where
  "sequence_audit actor action i payload = push_audit actor action ''sequence_rule'' (uuid_str i) payload"

definition skip_detector_ids :: "nat \<Rightarrow> detector_db \<Rightarrow> detector_db" where
  "skip_detector_ids n d = d\<lparr>dt_px := (dt_px d)\<lparr>px_jobs := skip_ids n (px_jobs (dt_px d))\<rparr>\<rparr>"

definition create_sequence_rule :: "yaml_env \<Rightarrow> SequenceRuleCreate \<Rightarrow> Actor \<Rightarrow> sequence_db \<Rightarrow> (sequence_db \<times> SequenceRule) result" where
  "create_sequence_rule ye p actor db =
     (if \<not> (name_ok (sc_name p) \<and> sc_yaml_body p \<noteq> [] \<and> window_ok (sc_window_s p)) then Inl (HTTPError 422 ''validation error'')
      else bindE (RequireAdmin actor) (\<lambda>actor.
      bindE (check_name db actor (sc_name p)) (\<lambda>_.
      bindE (validate_or_400 ye (sc_yaml_body p) (sc_window_s p)) (\<lambda>_.
      bindE (unique_name db None (sc_name p)) (\<lambda>_.
        let r = \<lparr>sq_id = dt_next (sb_detector db), sq_tenant_id = actor_tenant_id actor, sq_name = sc_name p, sq_description = sc_description p,
              sq_yaml_body = sc_yaml_body p, sq_window_s = sc_window_s p, sq_enabled = sc_enabled p, sq_severity = sc_severity p,
              sq_mitre = sc_mitre p, sq_hit_count = 0, sq_last_hit_at = None, sq_created_by = Some (u_id (actor_user actor)),
              sq_managed_rule_id = None\<rparr>
        in Inr (db\<lparr>sb_rules := sb_rules db @ [r], sb_detector := skip_detector_ids 1 (sb_detector db),
                   sb_audit := sb_audit db @ [sequence_audit actor ''sequence_rule.create'' (sq_id r)
                     [(''name'', PStr (sq_name r)), (''window_s'', PInt (sq_window_s r)), (''enabled'', PBool (sq_enabled r)),
                      (''severity'', PStr (severity_value (sq_severity r)))]]\<rparr>, r))))))"

definition edited_rule :: "SequenceRuleUpdate \<Rightarrow> SequenceRule \<Rightarrow> SequenceRule" where
  "edited_rule p r =
     r\<lparr>sq_name := or_else (su_name p) (sq_name r), sq_description := (case su_description p of None \<Rightarrow> sq_description r | Some d \<Rightarrow> Some d),
       sq_window_s := or_else (su_window_s p) (sq_window_s r), sq_yaml_body := or_else (su_yaml_body p) (sq_yaml_body r),
       sq_enabled := or_else (su_enabled p) (sq_enabled r), sq_severity := or_else (su_severity p) (sq_severity r),
       sq_mitre := (case su_mitre p of None \<Rightarrow> sq_mitre r | Some ts \<Rightarrow> Some ts)\<rparr>"

definition sequence_dump :: "SequenceRuleUpdate \<Rightarrow> pydict" where
  "sequence_dump p =
     field_if ''name'' (su_name p) PStr @ field_if ''description'' (su_description p) PStr @ field_if ''yaml_body'' (su_yaml_body p) PStr @
     field_if ''window_s'' (su_window_s p) PInt @ field_if ''enabled'' (su_enabled p) PBool @
     field_if ''severity'' (su_severity p) (\<lambda>s. PStr (severity_value s)) @
     field_if ''mitre_techniques'' (su_mitre p) (\<lambda>ts. PList (map PStr ts))"

definition put_sequence_rule :: "SequenceRule \<Rightarrow> SequenceRule list \<Rightarrow> SequenceRule list" where
  "put_sequence_rule r rs = map (\<lambda>x. if sq_id x = sq_id r then r else x) rs"

definition update_sequence_rule ::
  "yaml_env \<Rightarrow> uuid \<Rightarrow> SequenceRuleUpdate \<Rightarrow> Actor \<Rightarrow> sequence_db \<Rightarrow> (sequence_db \<times> SequenceRule) result" where
  "update_sequence_rule ye i p actor db =
     (if \<not> (opt_ok name_ok (su_name p) \<and> opt_ok (\<lambda>b. b \<noteq> []) (su_yaml_body p) \<and> opt_ok window_ok (su_window_s p))
      then Inl (HTTPError 422 ''validation error'')
      else bindE (RequireAdmin actor) (\<lambda>actor.
      bindE (load_in_tenant db i actor) (\<lambda>old.
      bindE (case su_name p of None \<Rightarrow> Inr () | Some n \<Rightarrow> if n = sq_name old then Inr () else check_name db actor n) (\<lambda>_.
        let r = edited_rule p old in
        bindE (case su_yaml_body p of None \<Rightarrow> Inr () | Some b \<Rightarrow> validate_or_400 ye b (sq_window_s r)) (\<lambda>_.
        bindE (unique_name db (Some i) (sq_name r)) (\<lambda>_.
          Inr (db\<lparr>sb_rules := put_sequence_rule r (sb_rules db),
                  sb_audit := sb_audit db @ [sequence_audit actor ''sequence_rule.update'' i (sequence_dump p)]\<rparr>, r)))))))"

definition delete_sequence_rule :: "uuid \<Rightarrow> Actor \<Rightarrow> sequence_db \<Rightarrow> sequence_db result" where
  "delete_sequence_rule i actor db = bindE (RequireAdmin actor) (\<lambda>actor. bindE (load_in_tenant db i actor) (\<lambda>r.
     Inr (db\<lparr>sb_rules := filter (\<lambda>x. sq_id x \<noteq> i) (sb_rules db),
             sb_audit := sb_audit db @ [sequence_audit actor ''sequence_rule.delete'' i [(''name'', PStr (sq_name r))]]\<rparr>)))"

section \<open>Recording a match\<close>

definition resolve_severity :: "pyval \<Rightarrow> Severity \<Rightarrow> Severity" where
  "resolve_severity label fallback =
     (if label = PNone then fallback
      else (case severity_of_value (lower (py_str label)) of None \<Rightarrow> fallback | Some s \<Rightarrow> s))"

definition managed_rule :: "uuid \<Rightarrow> datetime \<Rightarrow> SequenceRule \<Rightarrow> Rule" where
  "managed_rule i now srule =
     \<lparr>ru_id = i, ru_tenant_id = DEFAULT_TENANT_ID, ru_kind = KIND_SIGMA, ru_name = ''sequence:'' @ sq_name srule,
      ru_description = Some (''Auto-managed: backs the sequence rule '' @ [squote] @ sq_name srule @ [squote] @
        ''. Edit the sequence rule in /sequence-rules; this Rule row exists so emitted alerts have a valid rule_id FK target.''),
      ru_severity = sq_severity srule, ru_action = ALERT, ru_enabled = True, ru_group_id = None, ru_body = None, ru_sigma_compiled = None,
      ru_revision = 1, ru_mitre = (if sq_mitre srule = Some [] then None else sq_mitre srule), ru_auto_memory_scan = False, ru_iocs = [],
      ru_updated_at = now\<rparr>"

text \<open>The column of the name holds 255 characters.\<close>

definition ensure_managed_rule :: "datetime \<Rightarrow> SequenceRule \<Rightarrow> detector_db \<Rightarrow> (detector_db \<times> SequenceRule \<times> uuid) result" where
  "ensure_managed_rule now srule d =
     (case (case sq_managed_rule_id srule of None \<Rightarrow> None | Some i \<Rightarrow> find (\<lambda>r. ru_id r = i) (dt_rules d)) of
        Some rule \<Rightarrow> Inr (d, srule, ru_id rule)
      | None \<Rightarrow>
          (let rule = managed_rule (dt_next d) now srule in
           if length (ru_name rule) > 255 then Inl DataError
           else Inr (skip_detector_ids 1 (d\<lparr>dt_rules := dt_rules d @ [rule]\<rparr>), srule\<lparr>sq_managed_rule_id := Some (ru_id rule)\<rparr>, ru_id rule)))"

definition hit :: "datetime \<Rightarrow> SequenceRule \<Rightarrow> SequenceRule" where
  "hit now srule = srule\<lparr>sq_hit_count := sq_hit_count srule + 1, sq_last_hit_at := Some now\<rparr>"

definition sequence_alert :: "uuid \<Rightarrow> uuid \<Rightarrow> uuid \<Rightarrow> uuid \<Rightarrow> SequenceRule \<Rightarrow> ParsedSequence \<Rightarrow> SequenceMatch \<Rightarrow> string \<Rightarrow> datetime \<Rightarrow> Alert" where
  "sequence_alert i tenant host rid srule parsed m dkey now =
     \<lparr>a_id = i, a_tenant_id = tenant, a_host_id = Some host, a_rule_id = rid,
      a_severity = resolve_severity (emit_severity (emit parsed)) (sq_severity srule), a_action_taken = ALERT, a_state = NEW,
      a_summary = take 512 (if emit_message (emit parsed) \<noteq> [] then emit_message (emit parsed) else ''sequence match: '' @ sq_name srule),
      a_details = PDict [(''engine'', PStr ''sequence''), (''rule_name'', PStr (sq_name srule)),
        (''sequence_rule_id'', PStr (uuid_str (sq_id srule))), (''event_ids'', PList (map PStr (m_event_ids m))),
        (''window_s'', PInt (sq_window_s srule))],
      a_mitre = (if sq_mitre srule = Some [] then None else sq_mitre srule), a_opened_at = now, a_closed_at = None, a_assignee_id = None,
      a_incident_id = None, a_dedup_key = Some dkey, a_occurrence_count = 1, a_last_occurred_at = now\<rparr>"

text \<open>The row as the call leaves it, and the tables with the id of a new alert, or the exception.\<close>

definition emit_alert ::
  "detector_env \<Rightarrow> datetime \<Rightarrow> SequenceRule \<Rightarrow> ParsedSequence \<Rightarrow> SequenceMatch \<Rightarrow> pydict \<Rightarrow> detector_db
     \<Rightarrow> SequenceRule \<times> (detector_db \<times> uuid option) result" where
  "emit_alert env now srule parsed m ecs d =
     (case uuid_of_val (m_host_id m) of
        Inl e \<Rightarrow> (srule, if e = TypeError \<or> e = ValueError then Inr (d, None) else Inl e)
      | Inr host \<Rightarrow>
          (case bindE (vget (sub_dict ecs ''tenant'') ''id'') (resolve_alert_tenant_id (scope_view (px_jobs (dt_px d))) host) of
             Inl e \<Rightarrow> (srule, Inl e)
           | Inr None \<Rightarrow> (srule, Inr (d, None))
           | Inr (Some tenant) \<Rightarrow>
               (case ensure_managed_rule now srule d of
                  Inl e \<Rightarrow> (srule, Inl e)
                | Inr (d1, srule1, rid) \<Rightarrow>
                    (case dedup_key_for (de_sha256 env) rid (Some host) ecs of
                       Inl e \<Rightarrow> (srule1, Inl e)
                     | Inr dkey \<Rightarrow>
                         (case find_open_dupe dkey (de_window env) now (px_alerts (dt_px d1)) of
                            Some existing \<Rightarrow>
                              (hit now srule1, Inr (set_alerts (update_alert (a_id existing) (bump_occurrence now) (px_alerts (dt_px d1))) d1, None))
                          | None \<Rightarrow>
                              (case insert_alert ''auto-generated by sequence detector'' d1
                                 (sequence_alert (dt_next d1) tenant host rid srule1 parsed m dkey now) of
                                 Inl e \<Rightarrow> (srule1, Inl e)
                               | Inr d2 \<Rightarrow> (hit now srule1, Inr (d2, Some (dt_next d1)))))))))"

type_synonym compiled = "(string \<times> (SequenceRule \<times> ParsedSequence)) list"

fun emit_matches_of ::
  "detector_env \<Rightarrow> datetime \<Rightarrow> pydict \<Rightarrow> SequenceMatch list \<Rightarrow> compiled \<Rightarrow> detector_db \<Rightarrow> compiled \<times> (detector_db \<times> uuid list) result" where
  "emit_matches_of env now ecs [] c d = (c, Inr (d, []))"
| "emit_matches_of env now ecs (m # ms) c d =
     (case map_of c (m_rule_id m) of
        None \<Rightarrow> emit_matches_of env now ecs ms c d
      | Some (srule, parsed) \<Rightarrow>
          (case emit_alert env now srule parsed m ecs d of
             (srule', Inl e) \<Rightarrow> (AList.update (m_rule_id m) (srule', parsed) c, Inl e)
           | (srule', Inr (d1, new)) \<Rightarrow>
               (case emit_matches_of env now ecs ms (AList.update (m_rule_id m) (srule', parsed) c) d1 of
                  (c2, res) \<Rightarrow> (c2, bindE res (\<lambda>(d2, ids). Inr (d2, (case new of None \<Rightarrow> ids | Some i \<Rightarrow> i # ids)))))))"

definition process_event ::
  "detector_env \<Rightarrow> datetime \<Rightarrow> rat \<Rightarrow> SequenceEvaluator \<Rightarrow> compiled \<Rightarrow> pydict \<Rightarrow> detector_db
     \<Rightarrow> SequenceEvaluator \<times> compiled \<times> (detector_db \<times> uuid list) result" where
  "process_event env now now_ts st c ecs d =
     (case feed_event st ecs now_ts of
        (st', Inl e) \<Rightarrow> (st', c, Inl e)
      | (st', Inr ms) \<Rightarrow> (case emit_matches_of env now ecs ms c d of (c', res) \<Rightarrow> (st', c', res)))"

section \<open>The worker\<close>

fun compile_rules :: "yaml_env \<Rightarrow> SequenceRule list \<Rightarrow> compiled \<Rightarrow> compiled result" where
  "compile_rules ye [] c = Inr c"
| "compile_rules ye (r # rs) c =
     (if \<not> sq_enabled r then compile_rules ye rs c
      else (case parse_rule ye (sq_yaml_body r) (sq_window_s r) of
          Inl (SequenceParseError msg) \<Rightarrow> compile_rules ye rs c
        | Inl e \<Rightarrow> Inl e
        | Inr parsed \<Rightarrow> compile_rules ye rs (AList.update (uuid_str (sq_id r)) (r, parsed) c)))"

record sequence_worker =
  sw_db :: sequence_db
  sw_evaluator :: SequenceEvaluator
  sw_compiled :: compiled
  sw_last_refresh :: rat
  sw_gc_counter :: nat
  sw_offset :: nat

definition REFRESH_INTERVAL_S :: rat where
  "REFRESH_INTERVAL_S = 30"

definition install_rules :: "compiled \<Rightarrow> SequenceEvaluator \<Rightarrow> SequenceEvaluator" where
  "install_rules c st =
     (let kept = foldl (\<lambda>st rid. if map_of c rid = None then forget_rule rid st else st) st (map fst (ev_rules st))
      in foldl (\<lambda>st (rid, (_, parsed)). register_rule rid parsed st) kept c)"

definition refresh_rules :: "yaml_env \<Rightarrow> bool \<Rightarrow> rat \<Rightarrow> sequence_worker \<Rightarrow> sequence_worker result" where
  "refresh_rules ye force now w =
     (if \<not> force \<and> now - sw_last_refresh w < REFRESH_INTERVAL_S then Inr w
      else bindE (compile_rules ye (filter sq_enabled (sb_rules (sw_db w))) []) (\<lambda>c.
        Inr (w\<lparr>sw_compiled := c, sw_evaluator := install_rules c (sw_evaluator w), sw_last_refresh := now\<rparr>)))"

text \<open>
  A message as for the IOC worker. An exception, also of the commit, rolls the transaction back; the
  evaluator and the cached rows keep what they have become.
\<close>

definition process_message :: "detector_env \<Rightarrow> bool \<Rightarrow> datetime \<Rightarrow> rat \<Rightarrow> pyval option option \<Rightarrow> sequence_worker \<Rightarrow> sequence_worker" where
  "process_message env commits now now_ts msg w = (case msg of
       Some (Some (PDict ecs)) \<Rightarrow>
         (case process_event env now now_ts (sw_evaluator w) (sw_compiled w) ecs (sb_detector (sw_db w)) of
            (st, c, Inl e) \<Rightarrow> w\<lparr>sw_evaluator := st, sw_compiled := c\<rparr>
          | (st, c, Inr (d, ids)) \<Rightarrow>
              w\<lparr>sw_evaluator := st, sw_compiled := c, sw_db := (if commits then (sw_db w)\<lparr>sb_detector := d\<rparr> else sw_db w)\<rparr>)
     | _ \<Rightarrow> w)"

definition collect_garbage :: "rat \<Rightarrow> sequence_worker \<Rightarrow> sequence_worker" where
  "collect_garbage now w =
     (if sw_gc_counter w + 1 \<ge> 256 then w\<lparr>sw_evaluator := fst (gc (sw_evaluator w) now), sw_gc_counter := 0\<rparr>
      else w\<lparr>sw_gc_counter := sw_gc_counter w + 1\<rparr>)"

text \<open>One turn of the loop; without a message within a second only the rules are refreshed.\<close>

definition worker_turn ::
  "yaml_env \<Rightarrow> detector_env \<Rightarrow> bool \<Rightarrow> datetime \<Rightarrow> rat \<Rightarrow> pyval option option option \<Rightarrow> sequence_worker \<Rightarrow> sequence_worker result" where
  "worker_turn ye env commits now now_ts got w = (case got of
       None \<Rightarrow> refresh_rules ye False now_ts w
     | Some msg \<Rightarrow>
         bindE (refresh_rules ye False now_ts (collect_garbage now_ts (process_message env commits now now_ts msg w))) (\<lambda>w.
           Inr (w\<lparr>sw_offset := sw_offset w + 1\<rparr>)))"

section \<open>One pass over given events\<close>

text \<open>Here the rows belong to the session, so what is written to them is stored with the alerts.\<close>

fun process_events ::
  "detector_env \<Rightarrow> datetime \<Rightarrow> rat \<Rightarrow> pydict list \<Rightarrow> SequenceEvaluator \<Rightarrow> compiled \<Rightarrow> detector_db
     \<Rightarrow> SequenceEvaluator \<times> compiled \<times> (detector_db \<times> nat) result" where
  "process_events env now now_ts [] st c d = (st, c, Inr (d, 0))"
| "process_events env now now_ts (ecs # es) st c d =
     (case process_event env now now_ts st c ecs d of
        (st', c', Inl e) \<Rightarrow> (st', c', Inl e)
      | (st', c', Inr (d', ids)) \<Rightarrow>
          (case process_events env now now_ts es st' c' d' of
             (st2, c2, res) \<Rightarrow> (st2, c2, bindE res (\<lambda>(d2, n). Inr (d2, length ids + n)))))"

definition run_once ::
  "yaml_env \<Rightarrow> detector_env \<Rightarrow> datetime \<Rightarrow> rat \<Rightarrow> pydict list \<Rightarrow> SequenceEvaluator \<Rightarrow> sequence_db
     \<Rightarrow> SequenceEvaluator \<times> (sequence_db \<times> nat) result" where
  "run_once ye env now now_ts events st db =
     (case compile_rules ye (filter sq_enabled (sb_rules db)) [] of
        Inl e \<Rightarrow> (st, Inl e)
      | Inr c \<Rightarrow>
          (case process_events env now now_ts events (foldl (\<lambda>st (rid, (_, parsed)). register_rule rid parsed st) st c) c (sb_detector db) of
             (st', c', res) \<Rightarrow> (st', bindE res (\<lambda>(d, n).
               Inr (db\<lparr>sb_detector := d, sb_rules := foldl (\<lambda>rs (_, (srule, _)). put_sequence_rule srule rs) (sb_rules db) c'\<rparr>, n)))))"

end
