(* ===== verification/Sequence_Worker_Correct.thy ===== *)
theory Sequence_Worker_Correct
  imports Sequence_Worker Sequence_Runs Ioc_Detector_Correct
begin

text \<open>
  Sequence rules from the API to the alert: every stored rule runs after the worker's next refresh, and
  every match of the evaluator is recorded exactly once. The two lemmas at the end show what the detached
  rows cost.
\<close>

section \<open>Stored rules parse\<close>

datatype sequence_edit =
    Create_sequence SequenceRuleCreate Actor | Update_sequence uuid SequenceRuleUpdate Actor | Delete_sequence uuid Actor

fun edit_sequence :: "yaml_env \<Rightarrow> sequence_edit \<Rightarrow> sequence_db \<Rightarrow> sequence_db" where
  "edit_sequence ye (Create_sequence p actor) db = (case create_sequence_rule ye p actor db of Inl e \<Rightarrow> db | Inr (db', r) \<Rightarrow> db')"
| "edit_sequence ye (Update_sequence i p actor) db = (case update_sequence_rule ye i p actor db of Inl e \<Rightarrow> db | Inr (db', r) \<Rightarrow> db')"
| "edit_sequence ye (Delete_sequence i actor) db = (case delete_sequence_rule i actor db of Inl e \<Rightarrow> db | Inr db' \<Rightarrow> db')"

definition parses :: "yaml_env \<Rightarrow> SequenceRule \<Rightarrow> bool" where
  "parses ye r \<longleftrightarrow> (case parse_rule ye (sq_yaml_body r) (sq_window_s r) of Inl e \<Rightarrow> False | Inr p \<Rightarrow> True)"

definition stored_ok :: "yaml_env \<Rightarrow> sequence_db \<Rightarrow> bool" where
  "stored_ok ye db \<longleftrightarrow> distinct (map sq_id (sb_rules db)) \<and> (\<forall>r \<in> set (sb_rules db). sq_id r < dt_next (sb_detector db) \<and> parses ye r)"

text \<open>Whether a body parses does not depend on the window of its row.\<close>

lemma parse_leg_fallback: "parse_leg fb leg = Inr l \<Longrightarrow> \<exists>l'. parse_leg fb' leg = Inr l'"
  by (auto simp: parse_leg_def bindE_eq_Inr split: pyval.splits if_splits)

lemma mapE_success:
  assumes "mapE f xs = Inr ys" "\<And>x y. f x = Inr y \<Longrightarrow> \<exists>y'. g x = Inr y'"
  shows "\<exists>ys'. mapE g xs = Inr ys'"
  using assms(1)
proof (induction xs arbitrary: ys)
  case (Cons x xs)
  then obtain y ys1 where "f x = Inr y" "mapE f xs = Inr ys1" by (auto simp: bindE_eq_Inr)
  with assms(2) Cons.IH obtain y' ys' where "g x = Inr y'" "mapE g xs = Inr ys'" by blast
  then show ?case by simp
qed simp

lemma parse_doc_window:
  assumes "parse_doc env doc (Some w) = Inr p"
  shows "\<exists>p'. parse_doc env doc (Some w') = Inr p'"
proof (cases "dget doc ''trigger''")
  case (PDict tr)
  let ?W = "\<lambda>w ls. case dget doc ''window_s'' of
      PNone \<Rightarrow> (case Some w of Some w \<Rightarrow> Inr w | None \<Rightarrow> Inr (trunc (Max (set (map within_s ls))))) | outer \<Rightarrow> Sequence_Eval.py_int outer"
  from assms PDict obtain tkind tpred raws ls em n where t: "parse_kind ''trigger'' tr = Inr tkind"
    "compile_predicate (dget tr ''where'') = Inr tpred" "legs_list (dget doc ''followed_by'') = Inr raws"
    "mapE (parse_leg (of_int w)) raws = Inr ls" "parse_emit doc = Inr em" and wd: "?W w ls = Inr n"
    by (auto simp: parse_doc_def bindE_eq_Inr)
  have "\<exists>ls'. mapE (parse_leg (of_int w')) raws = Inr ls'" by (rule mapE_success [OF t(4)]) (rule parse_leg_fallback)
  then obtain ls' where ls': "mapE (parse_leg (of_int w')) raws = Inr ls'" by blast
  from wd obtain n' where "?W w' ls' = Inr n'" by (cases "dget doc ''window_s''") auto
  with t ls' PDict show ?thesis by (simp add: parse_doc_def)
qed (use assms in \<open>simp_all add: parse_doc_def\<close>)

lemma parse_rule_window:
  assumes "parse_rule ye body w = Inr p"
  shows "\<exists>p'. parse_rule ye body w' = Inr p'"
proof -
  from assms obtain doc where "strip body \<noteq> []" "ye_load ye body = Some (PDict doc)" "parse_doc (ye_window ye) doc (Some w) = Inr p"
    by (auto simp: parse_rule_def parse_yaml_def split: if_splits option.splits pyval.splits)
  with parse_doc_window show ?thesis by (fastforce simp: parse_rule_def parse_yaml_def)
qed

lemma validate_or_400_ok: "validate_or_400 ye body w = Inr u \<Longrightarrow> \<exists>p. parse_rule ye body w = Inr p"
  by (auto simp: validate_or_400_def split: sum.splits exn.splits)

lemma dt_next_skip [simp]: "dt_next (skip_detector_ids n d) = dt_next d + n"
  by (simp add: dt_next_def skip_detector_ids_def skip_ids_def)

lemma create_stored:
  assumes "stored_ok ye db" "create_sequence_rule ye p actor db = Inr (db', r)"
  shows "stored_ok ye db'"
proof -
  from assms(2) obtain u where v: "validate_or_400 ye (sc_yaml_body p) (sc_window_s p) = Inr u"
    and db': "sb_rules db' = sb_rules db @ [r]" "dt_next (sb_detector db') = Suc (dt_next (sb_detector db))"
    and r: "sq_id r = dt_next (sb_detector db)" "sq_yaml_body r = sc_yaml_body p" "sq_window_s r = sc_window_s p"
    by (auto simp: create_sequence_rule_def bindE_eq_Inr Let_def split: if_splits)
  from validate_or_400_ok [OF v] have "parses ye r" by (auto simp: parses_def r)
  with assms(1) show ?thesis by (auto simp: stored_ok_def db' r less_Suc_eq)
qed

lemma edited_parses:
  assumes "parses ye old" "case su_yaml_body p of None \<Rightarrow> True | Some b \<Rightarrow> \<exists>q. parse_rule ye b (sq_window_s (edited_rule p old)) = Inr q"
  shows "parses ye (edited_rule p old)"
proof (cases "su_yaml_body p")
  case None
  from assms(1) obtain q where "parse_rule ye (sq_yaml_body old) (sq_window_s old) = Inr q" by (auto simp: parses_def split: sum.splits)
  from parse_rule_window [OF this] obtain q' where "parse_rule ye (sq_yaml_body old) (sq_window_s (edited_rule p old)) = Inr q'" by blast
  then show ?thesis by (simp add: parses_def edited_rule_def None or_else_def)
next
  case (Some b)
  with assms(2) show ?thesis by (auto simp: parses_def edited_rule_def or_else_def)
qed

lemma put_sequence_rule_ids: "map sq_id (put_sequence_rule r rs) = map sq_id rs"
  by (auto simp: put_sequence_rule_def)

lemma update_stored:
  assumes "stored_ok ye db" "update_sequence_rule ye i p actor db = Inr (db', r)"
  shows "stored_ok ye db'"
proof -
  from assms(2) obtain admin old where o: "load_in_tenant db i admin = Inr old"
    and v: "(case su_yaml_body p of None \<Rightarrow> Inr () | Some b \<Rightarrow> validate_or_400 ye b (sq_window_s (edited_rule p old))) = Inr ()"
    and db': "sb_rules db' = put_sequence_rule (edited_rule p old) (sb_rules db)" "sb_detector db' = sb_detector db"
    unfolding update_sequence_rule_def Let_def by (auto simp: bindE_eq_Inr split: if_splits)
  from o have old: "old \<in> set (sb_rules db)" by (auto simp: load_in_tenant_def find_Some_iff split: option.splits if_splits)
  have "parses ye (edited_rule p old)"
    using edited_parses [of ye old p] v validate_or_400_ok old assms(1) by (fastforce simp: stored_ok_def split: option.splits)
  with old assms(1) show ?thesis
    unfolding stored_ok_def db' put_sequence_rule_ids by (auto simp: put_sequence_rule_def edited_rule_def)
qed

lemma delete_stored: "stored_ok ye db \<Longrightarrow> delete_sequence_rule i actor db = Inr db' \<Longrightarrow> stored_ok ye db'"
  by (auto simp: delete_sequence_rule_def bindE_eq_Inr stored_ok_def distinct_map_filter)

lemma stored_ok_edit: "stored_ok ye db \<Longrightarrow> stored_ok ye (edit_sequence ye e db)"
  by (cases e) (auto split: sum.split intro: create_stored update_stored delete_stored)

lemma stored_ok_edits: "stored_ok ye db \<Longrightarrow> stored_ok ye (foldl (\<lambda>db e. edit_sequence ye e db) db edits)"
  by (induction edits arbitrary: db) (auto intro: stored_ok_edit)

section \<open>The refresh\<close>

definition parsed_of :: "yaml_env \<Rightarrow> SequenceRule \<Rightarrow> ParsedSequence" where
  "parsed_of ye r = (case parse_rule ye (sq_yaml_body r) (sq_window_s r) of Inr p \<Rightarrow> p | Inl e \<Rightarrow> undefined)"

lemma compile_rules_all:
  "\<forall>r \<in> set rs. sq_enabled r \<and> parses ye r \<Longrightarrow>
     compile_rules ye rs c = Inr (foldl (\<lambda>c r. AList.update (uuid_str (sq_id r)) (r, parsed_of ye r) c) c rs)"
proof (induction rs arbitrary: c)
  case (Cons r rs)
  then obtain p where "parse_rule ye (sq_yaml_body r) (sq_window_s r) = Inr p" by (auto simp: parses_def split: sum.splits)
  with Cons show ?case by (simp add: parsed_of_def)
qed simp

lemma map_of_compiled:
  "distinct (map (\<lambda>r. uuid_str (sq_id r)) rs) \<Longrightarrow>
     map_of (foldl (\<lambda>c r. AList.update (uuid_str (sq_id r)) (r, parsed_of ye r) c) c rs) k =
       (case find (\<lambda>r. uuid_str (sq_id r) = k) rs of None \<Rightarrow> map_of c k | Some r \<Rightarrow> Some (r, parsed_of ye r))"
proof (induction rs arbitrary: c)
  case (Cons r rs)
  then have "find (\<lambda>x. uuid_str (sq_id x) = uuid_str (sq_id r)) rs = None" unfolding find_None_iff by (auto intro: rev_image_eqI)
  with Cons show ?case by (auto simp: update_conv' split: option.split)
qed simp

lemma distinct_compiled: "distinct (map fst c) \<Longrightarrow> distinct (map fst (foldl (\<lambda>c r. AList.update (k r) (v r) c) c rs))"
  by (induction rs arbitrary: c) (auto simp: distinct_update)

lemma forgotten: "map_of (ev_rules (foldl (\<lambda>st rid. if map_of c rid = None then forget_rule rid st else st) st rids)) k =
    (if k \<in> set rids \<and> map_of c k = None then None else map_of (ev_rules st) k)"
  by (induction rids arbitrary: st) (auto simp: forget_rule_def delete_conv')

lemma registered_all:
  "distinct (map fst c) \<Longrightarrow> map_of (ev_rules (foldl (\<lambda>st (rid, (x, parsed)). register_rule rid parsed st) st c)) k =
     (case map_of c k of None \<Rightarrow> map_of (ev_rules st) k | Some (x, parsed) \<Rightarrow> Some parsed)"
proof (induction c arbitrary: st)
  case (Cons e c)
  obtain rid x parsed where e: "e = (rid, (x, parsed))" by (metis prod_cases3)
  with Cons.prems have "map_of c rid = None" by (simp add: map_of_eq_None_iff)
  with Cons e show ?case by (auto simp: register_rule_def update_conv' split: option.split)
qed simp

lemma map_of_installed:
  assumes "distinct (map fst c)"
  shows "map_of (ev_rules (install_rules c st)) k = map_option snd (map_of c k)"
proof (cases "map_of c k")
  case None
  then have "map_of (ev_rules (install_rules c st)) k = (if k \<in> set (map fst (ev_rules st)) then None else map_of (ev_rules st) k)"
    by (simp add: install_rules_def Let_def registered_all [OF assms] forgotten del: map_of_eq_None_iff set_map)
  moreover have "k \<notin> set (map fst (ev_rules st)) \<Longrightarrow> map_of (ev_rules st) k = None" by (simp add: map_of_eq_None_iff)
  ultimately show ?thesis using None by (simp del: set_map)
next
  case (Some e)
  then show ?thesis using assms by (cases e) (simp add: install_rules_def Let_def registered_all)
qed

section \<open>Recording a match\<close>

definition occurrences :: "Alert list \<Rightarrow> int" where
  "occurrences alerts = sum_list (map a_occurrence_count alerts)"

lemma occurrences_update:
  assumes "distinct (map a_id alerts)" "x \<in> set alerts"
  shows "occurrences (update_alert (a_id x) f alerts) = occurrences alerts + (a_occurrence_count (f x) - a_occurrence_count x)"
  using assms
proof (induction alerts)
  case (Cons a as)
  show ?case
  proof (cases "a = x")
    case True
    with Cons.prems have "\<forall>b \<in> set as. a_id b \<noteq> a_id x" by (auto simp: image_iff)
    then have "update_alert (a_id x) f as = as" by (simp add: update_alert_def map_idI)
    then show ?thesis using True by (simp add: occurrences_def update_alert_def)
  next
    case False
    then have x: "x \<in> set as" using Cons.prems(2) by simp
    then have "a_id a \<noteq> a_id x" using Cons.prems(1) by auto
    then show ?thesis using Cons x by (simp add: occurrences_def update_alert_def)
  qed
qed simp

text \<open>What a turn needs of its event, and what it leaves.\<close>

definition recordable :: "pydict \<Rightarrow> uuid \<Rightarrow> detector_db \<Rightarrow> bool" where
  "recordable ecs host d \<longleftrightarrow> host \<in> hst_id ` set (j_hosts (px_jobs (dt_px d))) \<and>
     (case dedup_signal ecs of Inl e \<Rightarrow> False | Inr v \<Rightarrow> True) \<and> (case event_tenant host ecs d of Inl e \<Rightarrow> False | Inr t \<Rightarrow> True)"

definition recorded :: "int \<Rightarrow> datetime \<Rightarrow> detector_db \<Rightarrow> detector_db \<Rightarrow> nat \<Rightarrow> bool" where
  "recorded w now d d' n \<longleftrightarrow> alerts_ok w now d' \<and> occurrences (alerts_of d') = occurrences (alerts_of d) + int n \<and>
     j_hosts (jobs_of d') = j_hosts (jobs_of d) \<and> set (dt_rules d) \<subseteq> set (dt_rules d')"

lemma ensure_managed_rule_ok:
  assumes "length (sq_name srule) \<le> 246"
  obtains d1 srule1 rid where "ensure_managed_rule now srule d = Inr (d1, srule1, rid)" "srule1 = srule\<lparr>sq_managed_rule_id := Some rid\<rparr>"
    "alerts_of d1 = alerts_of d" "dt_next d \<le> dt_next d1" "j_hosts (jobs_of d1) = j_hosts (jobs_of d)" "set (dt_rules d) \<subseteq> set (dt_rules d1)"
    "rid \<in> ru_id ` set (dt_rules d1)"
proof (cases "case sq_managed_rule_id srule of None \<Rightarrow> None | Some i \<Rightarrow> find (\<lambda>r. ru_id r = i) (dt_rules d)")
  case None
  have m: "ru_id (managed_rule i now srule) = i" "length (ru_name (managed_rule i now srule)) \<le> 255" for i
    using assms by (simp_all add: managed_rule_def)
  show ?thesis
    by (rule that [of "skip_detector_ids 1 (d\<lparr>dt_rules := dt_rules d @ [managed_rule (dt_next d) now srule]\<rparr>)"
          "srule\<lparr>sq_managed_rule_id := Some (dt_next d)\<rparr>" "dt_next d"])
      (use None m in \<open>auto simp: ensure_managed_rule_def skip_detector_ids_def skip_ids_def dt_next_def Let_def not_less\<close>)
next
  case (Some rule)
  then obtain i where i: "sq_managed_rule_id srule = Some i" "find (\<lambda>r. ru_id r = i) (dt_rules d) = Some rule" by (auto split: option.splits)
  then have "ru_id rule = i" "rule \<in> set (dt_rules d)" by (auto simp: find_Some_iff)
  with i show ?thesis by (intro that [of d srule i]) (auto simp: ensure_managed_rule_def)
qed

lemma event_tenant_same: "j_hosts (jobs_of d') = j_hosts (jobs_of d) \<Longrightarrow> event_tenant host ecs d' = event_tenant host ecs d"
  by (simp add: resolve_alert_tenant_id_def [abs_def] scope_view_def)

lemma emit_alert_records:
  assumes "recordable ecs host d" "uuid_of_val (m_host_id m) = Inr host" "length (sq_name srule) \<le> 246" "alerts_ok (de_window env) now d" "0 < de_window env"
  obtains d' rid new where "emit_alert env now srule parsed m ecs d = (hit now (srule\<lparr>sq_managed_rule_id := Some rid\<rparr>), Inr (d', new))"
    "recorded (de_window env) now d d' 1"
proof -
  obtain d1 srule1 rid where e: "ensure_managed_rule now srule d = Inr (d1, srule1, rid)" "srule1 = srule\<lparr>sq_managed_rule_id := Some rid\<rparr>"
    "alerts_of d1 = alerts_of d" "dt_next d \<le> dt_next d1" "j_hosts (jobs_of d1) = j_hosts (jobs_of d)" "set (dt_rules d) \<subseteq> set (dt_rules d1)"
    "rid \<in> ru_id ` set (dt_rules d1)" by (rule ensure_managed_rule_ok [OF assms(3)])
  have reg: "host \<in> hst_id ` set (j_hosts (jobs_of d))" using assms(1) by (simp add: recordable_def)
  obtain tenant where t: "event_tenant host ecs d = Inr (Some tenant)"
    using assms(1) registered_tenant [OF reg, of ecs] by (auto simp: recordable_def split: sum.splits option.splits)
  obtain dkey where k: "dedup_key_for (de_sha256 env) rid (Some host) ecs = Inr dkey"
    using assms(1) by (auto simp: recordable_def dedup_key_for_def split: sum.splits)
  have inv: "dedup_inv (de_window env) now (map a_id (alerts_of d)) (alerts_of d)" "\<forall>a \<in> set (alerts_of d). a_id a < dt_next d1"
    using assms(4) e(4) by (auto simp: alerts_ok_def)
  show thesis
  proof (cases "find_open_dupe dkey (de_window env) now (alerts_of d)")
    case (Some x)
    let ?d = "set_alerts (update_alert (a_id x) (bump_occurrence now) (alerts_of d)) d1"
    have x: "x \<in> set (alerts_of d)" by (rule find_open_dupe_Some(1) [OF Some])
    then have "1 \<le> a_occurrence_count x" using inv(1) by (auto simp: dedup_inv_def timely_def)
    then have "occurrences (alerts_of ?d) = occurrences (alerts_of d) + 1"
      using occurrences_update [of "alerts_of d" x "bump_occurrence now"] inv(1) x by (auto simp: set_alerts_def dedup_inv_def bump_occurrence_def)
    moreover have "alerts_ok (de_window env) now ?d"
      using bump_step_inv [OF inv(1) assms(5) order_refl Some] inv(2) x
      by (auto simp: alerts_ok_def set_alerts_def set_update_alert update_alert_ids dt_next_def split: if_splits)
    ultimately have "recorded (de_window env) now d ?d 1" using e(5,6) by (simp add: recorded_def set_alerts_def)
    moreover have "emit_alert env now srule parsed m ecs d = (hit now srule1, Inr (?d, None))"
      using assms(2) t e(1,3) k Some by (simp add: emit_alert_def)
    ultimately show thesis using that e(2) by blast
  next
    case None
    let ?a = "sequence_alert (dt_next d1) tenant host rid srule1 parsed m dkey now"
    obtain d2 where ins: "insert_alert ''auto-generated by sequence detector'' d1 ?a = Inr d2" "alerts_of d2 = alerts_of d @ [?a]"
      "j_hosts (jobs_of d2) = j_hosts (jobs_of d)" "dt_next d2 = dt_next d1 + 2" "dt_rules d2 = dt_rules d1"
      using e(3,5,7) reg by (force simp: insert_alert_def sequence_alert_def dt_next_def skip_ids_def)
    have a: "fresh_alert dkey now ?a" "a_id ?a = dt_next d1" "a_occurrence_count ?a = 1" by (simp_all add: sequence_alert_def fresh_alert_def)
    have "a_id ?a \<notin> set (map a_id (alerts_of d))" using inv(2) a(2) by auto
    from insert_step_inv [OF inv(1) order_refl assms(5) None a(1) this] have "alerts_ok (de_window env) now d2"
      using inv(2) a(2) by (auto simp: alerts_ok_def ins(2,4) dedup_inv_def less_Suc_eq)
    then have "recorded (de_window env) now d d2 1" using ins e(6) a(3) by (simp add: recorded_def occurrences_def)
    moreover have "emit_alert env now srule parsed m ecs d = (hit now srule1, Inr (d2, Some (dt_next d1)))"
      using assms(2) t e(1,3) k None ins(1) by (simp add: emit_alert_def)
    ultimately show thesis using that e(2) by blast
  qed
qed

section \<open>All matches of an event\<close>

definition hits_of :: "compiled \<Rightarrow> string \<Rightarrow> int" where
  "hits_of c k = (case map_of c k of None \<Rightarrow> 0 | Some (srule, parsed) \<Rightarrow> sq_hit_count srule)"

definition short_names :: "compiled \<Rightarrow> bool" where
  "short_names c \<longleftrightarrow> (\<forall>k srule parsed. map_of c k = Some (srule, parsed) \<longrightarrow> length (sq_name srule) \<le> 246)"

lemma recordable_later:
  "recordable ecs host d \<Longrightarrow> recorded w now d d' n \<Longrightarrow> recordable ecs host d'"
  using event_tenant_same [of d' d] by (simp add: recordable_def recorded_def)

lemma recorded_trans: "recorded w now d d1 m \<Longrightarrow> recorded w now d1 d2 n \<Longrightarrow> recorded w now d d2 (m + n)"
  by (auto simp: recorded_def)

lemma emit_matches_of_records:
  assumes "recordable ecs host d" "\<forall>m \<in> set ms. uuid_of_val (m_host_id m) = Inr host \<and> map_of c (m_rule_id m) \<noteq> None" "short_names c"
    "alerts_ok (de_window env) now d" "0 < de_window env"
  shows "\<exists>c' d' ids. emit_matches_of env now ecs ms c d = (c', Inr (d', ids)) \<and> recorded (de_window env) now d d' (length ms) \<and>
    (\<forall>k. hits_of c' k = hits_of c k + int (length (filter (\<lambda>m. m_rule_id m = k) ms)))"
  using assms(1-4)
proof (induction ms arbitrary: c d)
  case Nil
  then show ?case by (simp add: recorded_def)
next
  case (Cons m ms)
  obtain srule parsed where c: "map_of c (m_rule_id m) = Some (srule, parsed)" using Cons.prems(2) by auto
  then have "length (sq_name srule) \<le> 246" using Cons.prems(3) by (auto simp: short_names_def)
  moreover have "uuid_of_val (m_host_id m) = Inr host" using Cons.prems(2) by simp
  ultimately obtain d1 rid new where
    e: "emit_alert env now srule parsed m ecs d = (hit now (srule\<lparr>sq_managed_rule_id := Some rid\<rparr>), Inr (d1, new))"
    and r1: "recorded (de_window env) now d d1 1" using emit_alert_records [OF Cons.prems(1) _ _ Cons.prems(4) assms(5)] by metis
  let ?s = "hit now (srule\<lparr>sq_managed_rule_id := Some rid\<rparr>)"
  let ?c = "AList.update (m_rule_id m) (?s, parsed) c"
  have s: "sq_name ?s = sq_name srule" "sq_hit_count ?s = sq_hit_count srule + 1" by (simp_all add: hit_def)
  have rec: "recordable ecs host d1" by (rule recordable_later [OF Cons.prems(1) r1])
  have short: "short_names ?c" using Cons.prems(3) c s(1) by (auto simp: short_names_def update_conv')
  have keys: "\<forall>m \<in> set ms. uuid_of_val (m_host_id m) = Inr host \<and> map_of ?c (m_rule_id m) \<noteq> None"
    using Cons.prems(2) by (auto simp: update_conv')
  have ok: "alerts_ok (de_window env) now d1" using r1 by (simp add: recorded_def)
  from Cons.IH [OF rec keys short ok] obtain c' d' ids where
    ih: "emit_matches_of env now ecs ms ?c d1 = (c', Inr (d', ids))" "recorded (de_window env) now d1 d' (length ms)"
      "\<forall>k. hits_of c' k = hits_of ?c k + int (length (filter (\<lambda>m. m_rule_id m = k) ms))" by blast
  have "hits_of ?c k = hits_of c k + (if m_rule_id m = k then 1 else 0)" for k using c s(2) by (auto simp: hits_of_def update_conv')
  then show ?case using e c ih recorded_trans [OF r1 ih(2)] by simp
qed

text \<open>A match names a rule of the evaluator and the host of the event.\<close>

lemma matches_of_names:
  "mapE (advance rid host parsed v eid now) ps = Inr ss \<Longrightarrow> m \<in> set (matches_of ss) \<Longrightarrow> m_rule_id m = rid \<and> m_host_id m = host"
proof (induction ps arbitrary: ss)
  case (Cons p ps)
  then obtain s ss' where s: "advance rid host parsed v eid now p = Inr s" "mapE (advance rid host parsed v eid now) ps = Inr ss'" "ss = s # ss'"
    by (auto simp: bindE_eq_Inr)
  have "m' \<in> set (matches_of [s]) \<Longrightarrow> m_rule_id m' = rid \<and> m_host_id m' = host" for m'
    using s(1) by (cases s) (auto simp: advance_def bindE_eq_Inr Let_def split: if_splits)
  with Cons s show ?case by (cases s) auto
qed simp

lemma feed_rules_names:
  "feed_rules host v eid now rules d = (d', Inr ms) \<Longrightarrow> m \<in> set ms \<Longrightarrow> m_rule_id m \<in> fst ` set rules \<and> m_host_id m = host"
proof (induction rules arbitrary: d ms)
  case (Cons r rules)
  obtain rid parsed where r: "r = (rid, parsed)" by (cases r)
  from Cons.prems(1) obtain d1 ms1 ms2 where f: "feed_rule host v eid now rid parsed d = (d1, Inr ms1)"
    "feed_rules host v eid now rules d1 = (d', Inr ms2)" "ms = ms1 @ ms2" by (auto simp: r split: prod.splits sum.splits)
  have "m_rule_id m' = rid \<and> m_host_id m' = host" if "m' \<in> set ms1" for m'
    using f(1) that matches_of_names [of rid host parsed v eid now "pget d (rid, host)" _ m']
    by (auto simp: feed_rule_def Let_def split: sum.splits if_splits)
  with Cons.IH [OF f(2)] Cons.prems(2) f(3) r show ?case by auto
qed simp

lemma feed_event_names:
  assumes "feed_event st ecs now = (st', Inr ms)" "event_host ecs = Inr host" "m \<in> set ms"
  shows "m_rule_id m \<in> fst ` set (ev_rules st) \<and> m_host_id m = host"
  using assms feed_rules_names [of host _ _ now "ev_rules st" "ev_partials st" _ ms m]
  by (auto simp: feed_event_def split: if_splits sum.splits prod.splits)

section \<open>Properties\<close>

text \<open>
  C29: every stored sequence rule runs. Whatever rules are created, edited and deleted through the API, every row
  parses; so the worker's next refresh succeeds, and afterwards the evaluator holds exactly the enabled
  rows, each under its id with its current parsed body.
\<close>

theorem stored_sequence_rules_run:
  assumes "stored_ok ye db" "sw_db w = foldl (\<lambda>db e. edit_sequence ye e db) db edits"
    "list_all (\<lambda>r. is_uuid (sq_id r)) (sb_rules (sw_db w))"
  shows "\<exists>w'. refresh_rules ye True now w = Inr w' \<and>
    (\<forall>r \<in> set (sb_rules (sw_db w)). \<exists>parsed. parse_rule ye (sq_yaml_body r) (sq_window_s r) = Inr parsed \<and>
       map_of (ev_rules (sw_evaluator w')) (uuid_str (sq_id r)) = (if sq_enabled r then Some parsed else None)) \<and>
    fst ` set (ev_rules (sw_evaluator w')) = (\<lambda>r. uuid_str (sq_id r)) ` {r \<in> set (sb_rules (sw_db w)). sq_enabled r}"
proof -
  let ?rows = "sb_rules (sw_db w)" and ?key = "\<lambda>r. uuid_str (sq_id r)"
  let ?on = "filter sq_enabled ?rows"
  let ?c = "foldl (\<lambda>c r. AList.update (?key r) (r, parsed_of ye r) c) [] ?on"
  have ok: "distinct (map sq_id ?rows)" "\<forall>r \<in> set ?rows. parses ye r"
    using stored_ok_edits [OF assms(1)] unfolding assms(2) by (auto simp: stored_ok_def)
  have inj: "inj_on ?key (set ?rows)"
    using ok(1) assms(3) uuid_str_inj by (auto simp: inj_on_def distinct_map list_all_iff)
  then have dist: "distinct (map ?key ?on)" using ok(1) by (auto simp: distinct_map intro: inj_on_subset)
  let ?w = "w\<lparr>sw_compiled := ?c, sw_evaluator := install_rules ?c (sw_evaluator w), sw_last_refresh := now\<rparr>"
  have w': "refresh_rules ye True now w = Inr ?w" using compile_rules_all [of ?on ye "[]"] ok(2) by (simp add: refresh_rules_def)
  have dc: "distinct (map fst ?c)" by (rule distinct_compiled) simp
  have ev: "map_of (ev_rules (sw_evaluator ?w)) k = map_option (parsed_of ye) (find (\<lambda>r. ?key r = k) ?on)" for k
    using map_of_installed [OF dc] map_of_compiled [OF dist, of ye "[]" k] by (simp add: option.map_comp comp_def split: option.split)
  have row: "map_of (ev_rules (sw_evaluator ?w)) (?key r) = (if sq_enabled r then Some (parsed_of ye r) else None)" if r: "r \<in> set ?rows" for r
  proof (cases "sq_enabled r")
    case True
    then have "find (\<lambda>x. ?key x = ?key r) ?on = Some r" using r dist by (intro find_key_distinct) auto
    with True show ?thesis unfolding ev by simp
  next
    case False
    then have "find (\<lambda>x. ?key x = ?key r) ?on = None" using r inj by (auto simp: find_None_iff dest: inj_onD)
    with False show ?thesis unfolding ev by simp
  qed
  have all_rows: "\<exists>parsed. parse_rule ye (sq_yaml_body r) (sq_window_s r) = Inr parsed \<and>
      map_of (ev_rules (sw_evaluator ?w)) (?key r) = (if sq_enabled r then Some parsed else None)" if r: "r \<in> set ?rows" for r
    using ok(2) r row [OF r] by (fastforce simp: parses_def parsed_of_def split: sum.splits)
  have keys: "k \<in> fst ` set (ev_rules (sw_evaluator ?w)) \<longleftrightarrow> (\<exists>r \<in> set ?rows. sq_enabled r \<and> ?key r = k)" for k
  proof -
    have "k \<in> fst ` set (ev_rules (sw_evaluator ?w)) \<longleftrightarrow> map_of (ev_rules (sw_evaluator ?w)) k \<noteq> None" by (simp add: map_of_eq_None_iff)
    then show ?thesis unfolding ev by (auto simp: find_None_iff)
  qed
  have "fst ` set (ev_rules (sw_evaluator ?w)) = ?key ` {r \<in> set ?rows. sq_enabled r}" unfolding set_eq_iff keys by auto
  with w' all_rows show ?thesis by (intro exI [of _ ?w] conjI ballI) assumption+
qed


text \<open>
  The worker never writes the table of sequence rules: counters and managed ids stay in its cache, and
  a refresh replaces the cache by the rows. The first match after each refresh therefore inserts another
  managed rule, with another id, for the same sequence rule.
\<close>

lemma worker_never_writes_rules: "sb_rules (sw_db (process_message env commits now now_ts msg w)) = sb_rules (sw_db w)"
  by (auto simp: process_message_def split: option.split pyval.split sum.split prod.split)

lemma unmanaged_match_adds_rule:
  assumes "sq_managed_rule_id srule = None" "length (sq_name srule) \<le> 246"
  shows "\<exists>d'. ensure_managed_rule now srule d = Inr (d', srule\<lparr>sq_managed_rule_id := Some (dt_next d)\<rparr>, dt_next d) \<and>
    dt_rules d' = dt_rules d @ [managed_rule (dt_next d) now srule]"
proof -
  have m: "ru_id (managed_rule i now srule) = i" "length (ru_name (managed_rule i now srule)) \<le> 255" for i
    using assms(2) by (simp_all add: managed_rule_def)
  show ?thesis using assms(1) m by (auto simp: ensure_managed_rule_def Let_def not_less skip_detector_ids_def)
qed

section \<open>Witnesses\<close>

definition demo_network_event :: pydict where
  "demo_network_event = [(''network'', PDict [(''transport'', PStr ''tcp'')]), (''event'', PDict [(''id'', PStr ''b'')]),
     (''host'', PDict [(''id'', PStr (uuid_str 22))])]"

definition demo_sequence :: SequenceRule where
  "demo_sequence = \<lparr>sq_id = 5, sq_tenant_id = 3, sq_name = ''s'', sq_description = None, sq_yaml_body = ''y'', sq_window_s = 60, sq_enabled = True,
     sq_severity = HIGH, sq_mitre = None, sq_hit_count = 0, sq_last_hit_at = None, sq_created_by = None, sq_managed_rule_id = None\<rparr>"

definition demo_sequence_worker :: sequence_worker where
  "demo_sequence_worker = \<lparr>sw_db = \<lparr>sb_rules = [demo_sequence], sb_detector = demo_detector, sb_audit = []\<rparr>,
     sw_evaluator = \<lparr>ev_rules = [(''r'', registry_then_network)],
       ev_partials = [((''r'', PStr (uuid_str 22)), [\<lparr>leg_idx = 1, deadline_ts = 9, matched_event_ids = [''a'']\<rparr>])]\<rparr>,
     sw_compiled = [(''r'', (demo_sequence, registry_then_network))], sw_last_refresh = 0, sw_gc_counter = 0, sw_offset = 0\<rparr>"

lemma demo_host_id: "uuid_of_str (uuid_str 22) = Some 22" "uuid_str 22 \<noteq> []"
proof -
  show "uuid_of_str (uuid_str 22) = Some 22" by (rule uuid_of_uuid_str) (simp add: is_uuid_def)
  then show "uuid_str 22 \<noteq> []" by (rule uuid_of_str_nonempty)
qed

lemma demo_flat: "\<exists>v. flatten_event demo_network_event = Inr v \<and> dget v ''event_kind_label'' = PStr ''network_connection'' \<and> dget v ''event_id'' = PStr ''b''"
  using demo_host_id(2)
  by (simp add: demo_network_event_def flatten_event_def sub_dict_def classify_event_kind_def lower_or_empty_def category_set_def lower_def
      flatten_process_def flatten_file_def copy_if_truthy_def)

lemma demo_feed: "\<exists>st m. feed_event (sw_evaluator demo_sequence_worker) demo_network_event 1 = (st, Inr [m])"
proof -
  from demo_flat obtain v where v: "flatten_event demo_network_event = Inr v" "dget v ''event_kind_label'' = PStr ''network_connection''"
    "dget v ''event_id'' = PStr ''b''" by blast
  have h: "event_host demo_network_event = Inr (PStr (uuid_str 22))"
    using demo_host_id(2) by (simp add: event_host_def demo_network_event_def sub_dict_def)
  have kinds: "leg_matches \<lparr>leg_event_kind = ''network_connection'', leg_where = TRUE_PRED, within_s = 10\<rparr> v" "\<not> trigger_matches registry_then_network v"
    using v(2) by (simp_all add: leg_matches_def trigger_matches_def event_kind_matches_def registry_then_network_def TRUE_PRED_def pred_apply_def)
  have legs: "legs registry_then_network = [\<lparr>leg_event_kind = ''network_connection'', leg_where = TRUE_PRED, within_s = 10\<rparr>]"
    by (simp add: registry_then_network_def)
  show ?thesis using v(1) h demo_host_id(2) kinds
    by (simp add: feed_event_def hashable_def demo_sequence_worker_def feed_rule_def pget_def advance_def py_nth_def legs Let_def)
qed


definition demo_yaml :: yaml_env where
  "demo_yaml = \<lparr>ye_load = (\<lambda>_. Some (PDict [(''trigger'', PDict []), (''followed_by'', PDict [])])), ye_window = None\<rparr>"

definition demo_sequence_create :: SequenceRuleCreate where
  "demo_sequence_create = \<lparr>sc_name = ''s'', sc_description = None, sc_yaml_body = ''y'', sc_window_s = 60, sc_enabled = True, sc_severity = HIGH, sc_mitre = None\<rparr>"

definition demo_sequence_db :: sequence_db where
  "demo_sequence_db = \<lparr>sb_rules = [], sb_detector = demo_detector, sb_audit = []\<rparr>"

text \<open>Witness: a rule is created and the worker refreshes.\<close>

theorem stored_sequence_rules_run_witness:
  "\<exists>w'. refresh_rules demo_yaml True 5 (demo_sequence_worker\<lparr>sw_db := edit_sequence demo_yaml (Create_sequence demo_sequence_create demo_admin) demo_sequence_db\<rparr>) = Inr w' \<and>
     fst ` set (ev_rules (sw_evaluator w')) = {uuid_str 100}"
proof -
  let ?db = "edit_sequence demo_yaml (Create_sequence demo_sequence_create demo_admin) demo_sequence_db"
  let ?w = "demo_sequence_worker\<lparr>sw_db := ?db\<rparr>"
  have v: "validate_or_400 demo_yaml ''y'' 60 = Inr ()" by code_simp
  obtain r where r: "sb_rules ?db = [r]" "sq_id r = 100" "sq_enabled r"
    using v by (simp add: create_sequence_rule_def demo_sequence_create_def name_ok_def window_ok_def RequireAdmin_def require_role_def has_role_def
        demo_admin_def check_name_def unique_name_def demo_sequence_db_def Let_def dt_next_def demo_detector_def demo_px_def demo_jobs_db_def)
  have ok: "stored_ok demo_yaml demo_sequence_db" by (simp add: stored_ok_def demo_sequence_db_def)
  have db: "sw_db ?w = foldl (\<lambda>db e. edit_sequence demo_yaml e db) demo_sequence_db [Create_sequence demo_sequence_create demo_admin]" by simp
  have u: "list_all (\<lambda>r. is_uuid (sq_id r)) (sb_rules (sw_db ?w))" using r(1,2) by (simp add: is_uuid_def)
  have "{x \<in> set (sb_rules (sw_db ?w)). sq_enabled x} = {r}" using r(1,3) by auto
  with stored_sequence_rules_run [OF ok db u, of 5] r(2) show ?thesis by auto
qed

end
