(* ===== verification/Scim.thy ===== *)
theory Scim
  imports Login
begin

text \<open>
  User provisioning over SCIM 2.0 (backend/app/services/scim.py, api/scim.py, models/scim_token.py): the
  bearer token of an identity provider, the translation between SCIM resources and rows of the users
  table, and the six routes over users. The discovery documents are constants and left out. SHA-256 is a
  parameter.
\<close>

section \<open>Tables\<close>

record ScimUser = Account +
  sm_external_id :: "string option"
  sm_created_at :: datetime
  sm_updated_at :: datetime

record ScimToken =
  st_id :: uuid
  st_tenant_id :: uuid
  st_label :: string
  st_token_hash :: string
  st_last_used_at :: "datetime option"
  st_disabled :: bool

record scim_db =
  sm_users :: "ScimUser list"
  sm_tokens :: "ScimToken list"
  sm_audit :: "audit_request list"
  sm_next :: uuid

record scim_env =
  sc_sha256 :: "bytes \<Rightarrow> bytes"
  sc_oidc_issuer_url :: string
  sc_location_base :: string
  sc_now :: datetime

definition SCIM_USER_SCHEMA :: string where
  "SCIM_USER_SCHEMA = ''urn:ietf:params:scim:schemas:core:2.0:User''"

definition SCIM_ENTERPRISE_SCHEMA :: string where
  "SCIM_ENTERPRISE_SCHEMA = ''urn:ietf:params:scim:schemas:extension:enterprise:2.0:User''"

definition SCIM_LIST_SCHEMA :: string where
  "SCIM_LIST_SCHEMA = ''urn:ietf:params:scim:api:messages:2.0:ListResponse''"

definition scim_issuer :: "scim_env \<Rightarrow> string" where
  "scim_issuer env = (if sc_oidc_issuer_url env \<noteq> [] then sc_oidc_issuer_url env else ''scim:vigil'')"

section \<open>The bearer token\<close>

definition hash_scim_token :: "(bytes \<Rightarrow> bytes) \<Rightarrow> string \<Rightarrow> string" where
  "hash_scim_token sha256 raw = hexdigest (sha256 (utf8_encode raw))"

definition scim_stub :: "ScimToken \<Rightarrow> Actor" where
  "scim_stub t = \<lparr>actor_user = \<lparr>u_id = st_id t, u_tenant_id = st_tenant_id t, u_role = ADMIN, u_disabled = False, u_is_super_admin = False\<rparr>,
     actor_kind = ''scim_token'', actor_token_id = Some (st_id t), actor_scopes = [], actor_tenant_id = st_tenant_id t, actor_is_super_admin = False\<rparr>"

definition resolve_scim_token :: "scim_env \<Rightarrow> string option \<Rightarrow> scim_db \<Rightarrow> (scim_db \<times> Actor) result" where
  "resolve_scim_token env authorization db = (case bearer_token authorization of
       None \<Rightarrow> Inl (unauthorized ''missing bearer token'')
     | Some raw \<Rightarrow>
         (if raw = [] then Inl (unauthorized ''missing bearer token'')
          else (case find (\<lambda>t. st_token_hash t = hash_scim_token (sc_sha256 env) raw) (sm_tokens db) of
              None \<Rightarrow> Inl (unauthorized ''invalid scim token'')
            | Some t \<Rightarrow>
                (if st_disabled t then Inl (unauthorized ''scim token disabled'')
                 else Inr (db\<lparr>sm_tokens := map (\<lambda>x. if st_id x = st_id t then x\<lparr>st_last_used_at := Some (sc_now env)\<rparr> else x) (sm_tokens db)\<rparr>,
                           scim_stub t)))))"

section \<open>From rows to resources\<close>

definition to_scim_user :: "string \<Rightarrow> ScimUser \<Rightarrow> pydict" where
  "to_scim_user location_base u =
     [(''schemas'', PList [PStr SCIM_USER_SCHEMA, PStr SCIM_ENTERPRISE_SCHEMA]), (''id'', PStr (uuid_str (u_id u))),
      (''userName'', PStr (ac_email u)), (''active'', PBool (\<not> u_disabled u)),
      (''emails'', PList [PDict [(''value'', PStr (ac_email u)), (''primary'', PBool True), (''type'', PStr ''work'')]]),
      (''meta'', PDict [(''resourceType'', PStr ''User''), (''created'', PStr (isoformat (sm_created_at u))),
         (''lastModified'', PStr (isoformat (sm_updated_at u))),
         (''location'', if location_base = [] then PNone else PStr (location_base @ ''/Users/'' @ uuid_str (u_id u)))])] @
     (case sm_external_id u of Some (c # x) \<Rightarrow> [(''externalId'', PStr (c # x))] | _ \<Rightarrow> []) @
     [(SCIM_ENTERPRISE_SCHEMA, PDict [(''role'', PStr (role_value (u_role u)))])]"

section \<open>From resources to rows\<close>

definition role_of_value :: "string \<Rightarrow> UserRole option" where
  "role_of_value s = find (\<lambda>r. role_value r = s) [ADMIN, ANALYST, VIEWER]"

definition coerce_role :: "pyval \<Rightarrow> UserRole result" where
  "coerce_role raw =
     (if \<not> truthy raw then Inr VIEWER
      else (case raw of
          PStr s \<Rightarrow> Inr (case role_of_value (lower (strip s)) of None \<Rightarrow> VIEWER | Some r \<Rightarrow> r)
        | _ \<Rightarrow> Inl AttributeError))"

text \<open>The value of the first entry that is a dictionary with a true value under \<open>k\<close>.\<close>

fun first_value :: "string \<Rightarrow> pyval list \<Rightarrow> pyval" where
  "first_value k [] = PNone"
| "first_value k (PDict e # es) = (if truthy (dget e k) then dget e ''value'' else first_value k es)"
| "first_value k (_ # es) = first_value k es"

definition extract_primary_email :: "pyval \<Rightarrow> string option" where
  "extract_primary_email emails = (case emails of
       PList es \<Rightarrow>
         (let primary = first_value ''primary'' es; first = first_value ''value'' es in
          if truthy primary then Some (lower (py_str primary))
          else if truthy first then Some (lower (py_str first)) else None)
     | _ \<Rightarrow> None)"

record scim_fields =
  sf_email :: string
  sf_external_id :: pyval
  sf_role :: UserRole
  sf_disabled :: bool

definition scim_email :: "pydict \<Rightarrow> string option" where
  "scim_email payload = (case dget payload ''userName'' of
       PStr (c # s) \<Rightarrow> Some (lower (c # s))
     | _ \<Rightarrow> extract_primary_email (dget payload ''emails''))"

definition role_raw :: "pydict \<Rightarrow> pyval" where
  "role_raw payload =
     (let r = (case dget payload SCIM_ENTERPRISE_SCHEMA of PDict e \<Rightarrow> dget e ''role'' | _ \<Rightarrow> PNone)
      in if truthy r then r else dget payload ''role'')"

definition parse_scim_user_create :: "pydict \<Rightarrow> scim_fields result" where
  "parse_scim_user_create payload = (case scim_email payload of
       None \<Rightarrow> Inl ValueError
     | Some email \<Rightarrow>
         (if email = [] \<or> CHR ''@'' \<notin> set email then Inl ValueError
          else bindE (coerce_role (role_raw payload)) (\<lambda>role.
            Inr \<lparr>sf_email = email, sf_external_id = dget payload ''externalId'', sf_role = role,
                 sf_disabled = (case dget_default payload ''active'' (PBool True) of PBool b \<Rightarrow> \<not> b | _ \<Rightarrow> False)\<rparr>)))"

definition apply_scim_user_fields :: "scim_fields \<Rightarrow> ScimUser \<Rightarrow> ScimUser" where
  "apply_scim_user_fields f u =
     u\<lparr>ac_email := sf_email f, sm_external_id := (if sf_external_id f = PNone then sm_external_id u else Some (py_str (sf_external_id f))),
       u_role := sf_role f, u_disabled := sf_disabled f\<rparr>"

section \<open>PATCH\<close>

definition set_active :: "pyval \<Rightarrow> ScimUser \<Rightarrow> ScimUser" where
  "set_active value u = (case value of
       PStr s \<Rightarrow> u\<lparr>u_disabled := lower (strip s) \<notin> {''true'', ''1'', ''yes''}\<rparr>
     | v \<Rightarrow> u\<lparr>u_disabled := \<not> truthy v\<rparr>)"

definition apply_path_value :: "string \<Rightarrow> pyval \<Rightarrow> ScimUser \<Rightarrow> ScimUser result" where
  "apply_path_value path value u =
     (let norm = takeWhile (\<lambda>c. c \<noteq> CHR ''['') (lower (strip path)) in
      if norm = ''active'' then Inr (set_active value u)
      else if norm = ''username'' then Inr (case value of PStr (c # s) \<Rightarrow> u\<lparr>ac_email := lower (c # s)\<rparr> | _ \<Rightarrow> u)
      else if norm = ''externalid'' then Inr (u\<lparr>sm_external_id := (if value = PNone then None else Some (py_str value))\<rparr>)
      else if norm = ''emails''
      then Inr (case extract_primary_email (case value of PList es \<Rightarrow> PList es | _ \<Rightarrow> PList []) of
          Some (c # e) \<Rightarrow> u\<lparr>ac_email := c # e\<rparr> | _ \<Rightarrow> u)
      else if startswith norm (lower SCIM_ENTERPRISE_SCHEMA)
      then (case value of
          PDict d \<Rightarrow> (case map_of d ''role'' of None \<Rightarrow> Inr u | Some r \<Rightarrow> bindE (coerce_role r) (\<lambda>role. Inr (u\<lparr>u_role := role\<rparr>)))
        | _ \<Rightarrow> Inr u)
      else Inr u)"

fun apply_pairs :: "pydict \<Rightarrow> ScimUser \<Rightarrow> ScimUser result" where
  "apply_pairs [] u = Inr u"
| "apply_pairs ((k, v) # kvs) u = bindE (apply_path_value k v u) (apply_pairs kvs)"

definition apply_patch_value :: "pyval \<Rightarrow> pyval \<Rightarrow> ScimUser \<Rightarrow> ScimUser result" where
  "apply_patch_value path value u = (case path of
       PNone \<Rightarrow> (case value of PDict d \<Rightarrow> apply_pairs d u | _ \<Rightarrow> Inr u)
     | PStr p \<Rightarrow> apply_path_value p value u
     | _ \<Rightarrow> Inl AttributeError)"

definition apply_remove :: "pyval \<Rightarrow> ScimUser \<Rightarrow> ScimUser result" where
  "apply_remove path u = (case py_or path (PStr []) of
       PStr p \<Rightarrow> Inr (if lower (strip p) = ''active'' then u\<lparr>u_disabled := True\<rparr>
                      else if lower (strip p) = ''externalid'' then u\<lparr>sm_external_id := None\<rparr> else u)
     | _ \<Rightarrow> Inl AttributeError)"

definition apply_op :: "pyval \<Rightarrow> ScimUser \<Rightarrow> ScimUser result" where
  "apply_op raw u = (case raw of
       PDict d \<Rightarrow>
         (let op = lower (strip (py_str (dget_default d ''op'' (PStr [])))) in
          if op = ''add'' \<or> op = ''replace'' then apply_patch_value (dget d ''path'') (dget d ''value'') u
          else if op = ''remove'' then apply_remove (dget d ''path'') u
          else Inr u)
     | _ \<Rightarrow> Inl AttributeError)"

fun apply_scim_patch :: "pyval list \<Rightarrow> ScimUser \<Rightarrow> ScimUser result" where
  "apply_scim_patch [] u = Inr u"
| "apply_scim_patch (raw # ops) u = bindE (apply_op raw u) (apply_scim_patch ops)"

section \<open>Storing a row\<close>

text \<open>
  What the flush checks: the length of the address, and the unique indexes over addresses and over
  pairs of issuer and external id.
\<close>

definition clashes :: "ScimUser \<Rightarrow> ScimUser \<Rightarrow> bool" where
  "clashes u x \<longleftrightarrow> u_id x \<noteq> u_id u \<and>
     (ac_email x = ac_email u \<or>
      (ac_oidc_issuer x = ac_oidc_issuer u \<and> ac_oidc_issuer u \<noteq> None \<and> sm_external_id x = sm_external_id u \<and> sm_external_id u \<noteq> None))"

definition check_row :: "ScimUser list \<Rightarrow> ScimUser \<Rightarrow> unit result" where
  "check_row users u =
     (if length (ac_email u) > 255 then Inl DataError
      else if list_ex (clashes u) users then Inl IntegrityError else Inr ())"

definition touch_user :: "datetime \<Rightarrow> ScimUser \<Rightarrow> ScimUser \<Rightarrow> ScimUser" where
  "touch_user now old new = (if new = old then old else new\<lparr>sm_updated_at := now\<rparr>)"

definition store_user :: "datetime \<Rightarrow> ScimUser \<Rightarrow> ScimUser \<Rightarrow> scim_db \<Rightarrow> (scim_db \<times> ScimUser) result" where
  "store_user now old new db =
     (let u = touch_user now old new in
      bindE (check_row (sm_users db) u) (\<lambda>_. Inr (db\<lparr>sm_users := map (\<lambda>x. if u_id x = u_id u then u else x) (sm_users db)\<rparr>, u)))"

definition scim_audit :: "Actor \<Rightarrow> string \<Rightarrow> uuid \<Rightarrow> pydict \<Rightarrow> audit_request" where
  "scim_audit actor action i extra =
     \<lparr>rq_actor = Some actor, rq_action = action, rq_resource_type = Some ''user'', rq_resource_id = Some (uuid_str i),
      rq_payload = Some extra, rq_ip = None, rq_tenant_id = None\<rparr>"

definition scim_payload :: "Actor \<Rightarrow> string option \<Rightarrow> pydict" where
  "scim_payload actor ext = [(''scim_external_id'', opt_str ext), (''actor_token_id'', opt_uuid (actor_token_id actor))]"

definition scim_record :: "audit_request \<Rightarrow> scim_db \<Rightarrow> scim_db" where
  "scim_record a db = db\<lparr>sm_audit := sm_audit db @ [a]\<rparr>"

section \<open>The routes\<close>

datatype scim_reply = Resource nat pydict | Scim_error nat string | No_content

definition find_user :: "scim_db \<Rightarrow> Actor \<Rightarrow> uuid \<Rightarrow> ScimUser option" where
  "find_user db actor i = (case find (\<lambda>u. u_id u = i) (sm_users db) of
       None \<Rightarrow> None
     | Some u \<Rightarrow> (if u_tenant_id u \<noteq> actor_tenant_id actor then None else Some u))"

definition word_of :: "string \<Rightarrow> string \<times> string" where
  "word_of s = (takeWhile is_word s, dropWhile is_word s)"

text \<open>The filter expression \<open>attr eq "value"\<close>, as its regular expression reads it.\<close>

definition parse_filter :: "string \<Rightarrow> (string \<times> string) option" where
  "parse_filter s =
     (let (attr, r1) = word_of (dropWhile is_space s); (op, r2) = word_of (dropWhile is_space r1) in
      if attr = [] \<or> r1 = dropWhile is_space r1 \<or> lower op \<noteq> ''eq'' \<or> r2 = dropWhile is_space r2 then None
      else (case dropWhile is_space r2 of
          q # r3 \<Rightarrow>
            (let value = takeWhile (\<lambda>c. c \<noteq> dquote) r3 in
             if q \<noteq> dquote \<or> value = [] then None
             else (case dropWhile (\<lambda>c. c \<noteq> dquote) r3 of
                 _ # r4 \<Rightarrow> if list_all is_space r4 then Some (attr, value) else None
               | [] \<Rightarrow> None))
        | [] \<Rightarrow> None))"

definition list_response :: "pydict list \<Rightarrow> int \<Rightarrow> int \<Rightarrow> pydict" where
  "list_response resources n start =
     [(''schemas'', PList [PStr SCIM_LIST_SCHEMA]), (''totalResults'', PInt n), (''startIndex'', PInt start),
      (''itemsPerPage'', PInt (int (length resources))), (''Resources'', PList (map PDict resources))]"

definition page_of :: "int \<Rightarrow> int \<Rightarrow> 'a list \<Rightarrow> 'a list" where
  "page_of start count xs = take (nat count) (drop (nat (start - 1)) xs)"

definition list_users :: "scim_env \<Rightarrow> Actor \<Rightarrow> string option \<Rightarrow> int \<Rightarrow> int \<Rightarrow> scim_db \<Rightarrow> scim_reply" where
  "list_users env actor flt startIndex count db =
     (let start = max 1 startIndex; n = min (max 0 count) 500;
          rows = sort_key (\<lambda>u. - sm_created_at u) (filter (\<lambda>u. u_tenant_id u = actor_tenant_id actor) (sm_users db));
          reply = (\<lambda>rows. Resource 200 (list_response (map (to_scim_user (sc_location_base env)) (page_of start n rows)) (int (length rows)) start))
      in case flt of
           None \<Rightarrow> reply rows
         | Some [] \<Rightarrow> reply rows
         | Some s \<Rightarrow>
             (case parse_filter s of
                None \<Rightarrow> Scim_error 400 ''unsupported filter''
              | Some (attr, value) \<Rightarrow>
                  (if lower attr \<in> {''username'', ''emails'', ''emails.value''} then reply (filter (\<lambda>u. ac_email u = lower value) rows)
                   else if lower attr = ''externalid'' then reply (filter (\<lambda>u. sm_external_id u = Some value) rows)
                   else Resource 200 (list_response [] 0 start))))"

definition get_scim_user :: "scim_env \<Rightarrow> Actor \<Rightarrow> uuid \<Rightarrow> scim_db \<Rightarrow> scim_reply" where
  "get_scim_user env actor i db = (case find_user db actor i of
       None \<Rightarrow> Scim_error 404 ''user not found''
     | Some u \<Rightarrow> Resource 200 (to_scim_user (sc_location_base env) u))"

definition new_user :: "scim_env \<Rightarrow> Actor \<Rightarrow> scim_fields \<Rightarrow> scim_db \<Rightarrow> ScimUser" where
  "new_user env actor f db =
     \<lparr>u_id = sm_next db, u_tenant_id = actor_tenant_id actor, u_role = sf_role f, u_disabled = sf_disabled f, u_is_super_admin = False,
      ac_email = sf_email f, ac_password_hash = [], ac_last_login_at = None, ac_totp_enabled = False, ac_totp_secret = None,
      ac_totp_pending = None, ac_recovery = None, ac_oidc_subject = None, ac_oidc_issuer = Some (scim_issuer env), ac_oidc_email = None,
      sm_external_id = (if truthy (sf_external_id f) then Some (py_str (sf_external_id f)) else None),
      sm_created_at = sc_now env, sm_updated_at = sc_now env\<rparr>"

definition find_external :: "scim_env \<Rightarrow> Actor \<Rightarrow> scim_fields \<Rightarrow> scim_db \<Rightarrow> ScimUser option result" where
  "find_external env actor f db =
     (if \<not> truthy (sf_external_id f) then Inr None
      else (case sf_external_id f of
          PStr x \<Rightarrow> Inr (find (\<lambda>u. ac_oidc_issuer u = Some (scim_issuer env) \<and> sm_external_id u = Some x \<and>
                                 u_tenant_id u = actor_tenant_id actor) (sm_users db))
        | _ \<Rightarrow> Inl DataError))"

definition insert_user :: "scim_env \<Rightarrow> Actor \<Rightarrow> scim_fields \<Rightarrow> scim_db \<Rightarrow> (scim_db \<times> scim_reply) result" where
  "insert_user env actor f db =
     (let u = new_user env actor f db in
      bindE (check_row (sm_users db) u) (\<lambda>_.
        Inr (scim_record (scim_audit actor ''scim.user.create'' (u_id u) (scim_payload actor (sm_external_id u) @ [(''email'', PStr (ac_email u))]))
               (db\<lparr>sm_users := sm_users db @ [u], sm_next := sm_next db + 1\<rparr>),
             Resource 201 (to_scim_user (sc_location_base env) u))))"

definition refresh_user :: "scim_env \<Rightarrow> Actor \<Rightarrow> scim_fields \<Rightarrow> ScimUser \<Rightarrow> scim_db \<Rightarrow> (scim_db \<times> scim_reply) result" where
  "refresh_user env actor f u db =
     bindE (store_user (sc_now env) u ((apply_scim_user_fields f u)\<lparr>ac_oidc_issuer := Some (scim_issuer env)\<rparr>) db) (\<lambda>(db1, u1).
       Inr (scim_record (scim_audit actor ''scim.user.update'' (u_id u1) (scim_payload actor (sm_external_id u1) @ [(''email'', PStr (ac_email u1))])) db1,
            Resource 201 (to_scim_user (sc_location_base env) u1)))"

text \<open>A POST is about the row with its external id in the tenant, else about the row with its address in any tenant.\<close>

definition create_scim_user :: "scim_env \<Rightarrow> Actor \<Rightarrow> pydict \<Rightarrow> scim_db \<Rightarrow> (scim_db \<times> scim_reply) result" where
  "create_scim_user env actor payload db = (case parse_scim_user_create payload of
       Inl e \<Rightarrow> (if e = ValueError then Inr (db, Scim_error 400 ''userName / emails must contain a valid email address'') else Inl e)
     | Inr f \<Rightarrow>
         bindE (find_external env actor f db) (\<lambda>by_id. case by_id of
             Some u \<Rightarrow> refresh_user env actor f u db
           | None \<Rightarrow>
               (case find (\<lambda>u. ac_email u = sf_email f) (sm_users db) of
                  None \<Rightarrow> insert_user env actor f db
                | Some u \<Rightarrow>
                    (if sm_external_id u = None \<or> u_tenant_id u \<noteq> actor_tenant_id actor
                     then Inr (db, Scim_error 409 ''email already exists for non-SCIM user'')
                     else refresh_user env actor f u db))))"

definition replace_scim_user :: "scim_env \<Rightarrow> Actor \<Rightarrow> uuid \<Rightarrow> pydict \<Rightarrow> scim_db \<Rightarrow> (scim_db \<times> scim_reply) result" where
  "replace_scim_user env actor i payload db = (case find_user db actor i of
       None \<Rightarrow> Inr (db, Scim_error 404 ''user not found'')
     | Some u \<Rightarrow>
         (case parse_scim_user_create payload of
            Inl e \<Rightarrow> (if e = ValueError then Inr (db, Scim_error 400 ''userName / emails must contain a valid email address'') else Inl e)
          | Inr f \<Rightarrow>
              bindE (store_user (sc_now env) u (apply_scim_user_fields f u) db) (\<lambda>(db1, u1).
                Inr (scim_record (scim_audit actor ''scim.user.update'' (u_id u1) (scim_payload actor (sm_external_id u1))) db1,
                     Resource 200 (to_scim_user (sc_location_base env) u1)))))"

definition op_summary :: "pyval \<Rightarrow> pyval" where
  "op_summary raw = (case raw of PDict d \<Rightarrow> PDict [(''op'', dget d ''op''), (''path'', dget d ''path'')] | _ \<Rightarrow> PNone)"

definition patch_scim_user :: "scim_env \<Rightarrow> Actor \<Rightarrow> uuid \<Rightarrow> pydict \<Rightarrow> scim_db \<Rightarrow> (scim_db \<times> scim_reply) result" where
  "patch_scim_user env actor i payload db = (case find_user db actor i of
       None \<Rightarrow> Inr (db, Scim_error 404 ''user not found'')
     | Some u \<Rightarrow>
         (case py_or (dget payload ''Operations'') (PList []) of
            PList ops \<Rightarrow>
              bindE (apply_scim_patch ops u) (\<lambda>new. bindE (store_user (sc_now env) u new db) (\<lambda>(db1, u1).
                Inr (scim_record (scim_audit actor ''scim.user.update'' (u_id u1)
                       (scim_payload actor (sm_external_id u1) @ [(''operations'', PList (map op_summary ops))])) db1,
                     Resource 200 (to_scim_user (sc_location_base env) u1))))
          | _ \<Rightarrow> Inr (db, Scim_error 400 ''Operations must be a list'')))"

definition delete_scim_user :: "scim_env \<Rightarrow> Actor \<Rightarrow> uuid \<Rightarrow> scim_db \<Rightarrow> (scim_db \<times> scim_reply) result" where
  "delete_scim_user env actor i db = (case find_user db actor i of
       None \<Rightarrow> Inr (db, Scim_error 404 ''user not found'')
     | Some u \<Rightarrow>
         Inr (scim_record (scim_audit actor ''scim.user.delete'' i (scim_payload actor (sm_external_id u)))
                (db\<lparr>sm_users := filter (\<lambda>x. u_id x \<noteq> i) (sm_users db)\<rparr>), No_content))"

section \<open>A request\<close>

datatype scim_request =
    Scim_list "string option" int int
  | Scim_get uuid
  | Scim_post pydict
  | Scim_put uuid pydict
  | Scim_patch uuid pydict
  | Scim_delete uuid

fun scim_route :: "scim_env \<Rightarrow> Actor \<Rightarrow> scim_request \<Rightarrow> scim_db \<Rightarrow> (scim_db \<times> scim_reply) result" where
  "scim_route env actor (Scim_list flt start count) db = Inr (db, list_users env actor flt start count db)"
| "scim_route env actor (Scim_get i) db = Inr (db, get_scim_user env actor i db)"
| "scim_route env actor (Scim_post payload) db = create_scim_user env actor payload db"
| "scim_route env actor (Scim_put i payload) db = replace_scim_user env actor i payload db"
| "scim_route env actor (Scim_patch i payload) db = patch_scim_user env actor i payload db"
| "scim_route env actor (Scim_delete i) db = delete_scim_user env actor i db"

text \<open>The session commits what the request did, or rolls back on an exception.\<close>

definition scim_serve :: "scim_env \<Rightarrow> string option \<Rightarrow> scim_request \<Rightarrow> scim_db \<Rightarrow> scim_db \<times> scim_reply result" where
  "scim_serve env authorization req db =
     (case bindE (resolve_scim_token env authorization db) (\<lambda>(db1, actor). scim_route env actor req db1) of
        Inl e \<Rightarrow> (db, Inl e)
      | Inr (db', reply) \<Rightarrow> (db', Inr reply))"

end
