(* ===== verification/Scim_Correct.thy ===== *)
theory Scim_Correct
  imports Scim Login_Correct
begin

text \<open>
  SCIM provisioning: a provider changes only the accounts of its token's tenant, accounts stay unique, a
  resource that was read can be written back, and an account that SCIM reports as inactive is locked out.
\<close>

section \<open>The users table\<close>

definition scim_wf :: "scim_db \<Rightarrow> bool" where
  "scim_wf db \<longleftrightarrow> distinct (map u_id (sm_users db)) \<and> (\<forall>u \<in> set (sm_users db). u_id u < sm_next db \<and> length (ac_email u) \<le> 255) \<and>
     (\<forall>u \<in> set (sm_users db). \<forall>x \<in> set (sm_users db). \<not> clashes u x)"

lemma clashes_sym: "clashes u x \<Longrightarrow> clashes x u"
  by (auto simp: clashes_def)

lemma clashes_updated [simp]: "clashes (u\<lparr>sm_updated_at := t\<rparr>) x = clashes u x" "clashes x (u\<lparr>sm_updated_at := t\<rparr>) = clashes x u"
  by (simp_all add: clashes_def)

lemma check_row_ok: "check_row users u = Inr () \<longleftrightarrow> length (ac_email u) \<le> 255 \<and> (\<forall>x \<in> set users. \<not> clashes u x)"
  by (auto simp: check_row_def list_ex_iff)

lemma touch_user_simps [simp]:
  "u_id new = u_id old \<Longrightarrow> u_id (touch_user now old new) = u_id old"
  "u_tenant_id new = u_tenant_id old \<Longrightarrow> u_tenant_id (touch_user now old new) = u_tenant_id old"
  "u_disabled (touch_user now old new) = u_disabled new" "ac_email (touch_user now old new) = ac_email new"
  by (simp_all add: touch_user_def)

text \<open>A stored row replaces the one row with its id.\<close>

lemma store_user_change:
  assumes "store_user now old new db = Inr (db', u)" "old \<in> set (sm_users db)" "u_id new = u_id old" "u_tenant_id new = u_tenant_id old" "scim_wf db"
  shows "scim_wf db'" "filter (\<lambda>x. u_tenant_id x \<noteq> u_tenant_id old) (sm_users db') = filter (\<lambda>x. u_tenant_id x \<noteq> u_tenant_id old) (sm_users db)"
    "u \<in> set (sm_users db')" "u_id u = u_id old" "u = touch_user now old new"
proof -
  let ?put = "\<lambda>x. if u_id x = u_id u then u else x"
  from assms(1) have u: "u = touch_user now old new" and c: "check_row (sm_users db) u = Inr ()"
    and db': "sm_users db' = map ?put (sm_users db)" "sm_next db' = sm_next db"
    by (auto simp: store_user_def Let_def bindE_eq_Inr)
  have id: "u_id u = u_id old" "u_tenant_id u = u_tenant_id old" using assms(3,4) by (simp_all add: u)
  have same: "x = old" if "x \<in> set (sm_users db)" "u_id x = u_id old" for x
    using that assms(2,5) by (auto simp: scim_wf_def distinct_map dest: inj_onD)
  have ids: "map u_id (sm_users db') = map u_id (sm_users db)" by (auto simp: db')
  have no: "\<not> clashes u x" "\<not> clashes x u" if "x \<in> set (sm_users db)" for x
    using c that clashes_sym by (auto simp: check_row_ok)
  have "\<not> clashes u u" by (simp add: clashes_def)
  then have "\<forall>a \<in> set (sm_users db'). \<forall>b \<in> set (sm_users db'). \<not> clashes a b"
    using no assms(5) by (auto simp: db' scim_wf_def)
  moreover have "\<forall>a \<in> set (sm_users db'). u_id a < sm_next db' \<and> length (ac_email a) \<le> 255"
    using assms(2,5) c id(1) by (auto simp: db' scim_wf_def check_row_ok)
  ultimately show "scim_wf db'" using ids assms(5) by (simp add: scim_wf_def)
  have "filter (\<lambda>x. u_tenant_id x \<noteq> u_tenant_id old) (map ?put xs) = filter (\<lambda>x. u_tenant_id x \<noteq> u_tenant_id old) xs"
    if "set xs \<subseteq> set (sm_users db)" for xs
    using that by (induction xs) (auto simp: id dest: same)
  from this [of "sm_users db"] show "filter (\<lambda>x. u_tenant_id x \<noteq> u_tenant_id old) (sm_users db') = filter (\<lambda>x. u_tenant_id x \<noteq> u_tenant_id old) (sm_users db)"
    by (simp add: db')
  show "u \<in> set (sm_users db')" using assms(2) id(1) by (auto simp: db' image_iff)
  show "u_id u = u_id old" "u = touch_user now old new" by (fact id(1), fact u)
qed

lemma find_user_Some:
  "find_user db actor i = Some u \<Longrightarrow> u \<in> set (sm_users db) \<and> u_id u = i \<and> u_tenant_id u = actor_tenant_id actor"
  by (auto simp: find_user_def find_Some_iff split: option.splits if_splits)

text \<open>PATCH and PUT keep the identity of a row.\<close>

definition same_account :: "ScimUser \<Rightarrow> ScimUser \<Rightarrow> bool" where
  "same_account u v \<longleftrightarrow> u_id v = u_id u \<and> u_tenant_id v = u_tenant_id u"

lemma apply_path_value_same: "apply_path_value path value u = Inr v \<Longrightarrow> same_account u v"
  unfolding apply_path_value_def Let_def
  by (auto simp: same_account_def set_active_def bindE_eq_Inr split: if_splits pyval.splits option.splits list.splits)

lemma apply_pairs_same: "apply_pairs kvs u = Inr v \<Longrightarrow> same_account u v"
proof (induction kvs arbitrary: u)
  case (Cons kv kvs)
  then show ?case by (cases kv) (fastforce simp: bindE_eq_Inr same_account_def dest: apply_path_value_same)
qed (simp add: same_account_def)

lemma apply_op_same: "apply_op raw u = Inr v \<Longrightarrow> same_account u v"
  unfolding apply_op_def apply_patch_value_def apply_remove_def Let_def
  by (auto split: pyval.splits if_splits dest: apply_path_value_same apply_pairs_same simp: same_account_def [of u u] same_account_def)

lemma apply_scim_patch_same: "apply_scim_patch ops u = Inr v \<Longrightarrow> same_account u v"
  by (induction ops arbitrary: u) (fastforce simp: bindE_eq_Inr same_account_def dest: apply_op_same)+

lemma apply_fields_same: "same_account u (apply_scim_user_fields f u)" "same_account u ((apply_scim_user_fields f u)\<lparr>ac_oidc_issuer := x\<rparr>)"
  by (simp_all add: same_account_def apply_scim_user_fields_def)

lemma scim_record_simps [simp]: "sm_users (scim_record a db) = sm_users db" "sm_next (scim_record a db) = sm_next db" "scim_wf (scim_record a db) = scim_wf db"
  by (simp_all add: scim_record_def scim_wf_def)

section \<open>One request\<close>

text \<open>What a route may do to the table on behalf of a tenant, and what a reply about one account shows.\<close>

definition within_tenant :: "uuid \<Rightarrow> scim_db \<Rightarrow> scim_db \<Rightarrow> bool" where
  "within_tenant t db db' \<longleftrightarrow> filter (\<lambda>u. u_tenant_id u \<noteq> t) (sm_users db') = filter (\<lambda>u. u_tenant_id u \<noteq> t) (sm_users db)"

definition reports :: "scim_db \<Rightarrow> scim_reply \<Rightarrow> bool" where
  "reports db reply \<longleftrightarrow> (case reply of
     Resource n body \<Rightarrow> dget body ''id'' \<noteq> PNone \<longrightarrow> (\<exists>u \<in> set (sm_users db). \<exists>base. body = to_scim_user base u) | _ \<Rightarrow> True)"

definition route_ok :: "uuid \<Rightarrow> scim_db \<Rightarrow> scim_db \<times> scim_reply \<Rightarrow> bool" where
  "route_ok t db res \<longleftrightarrow> (case res of (db', reply) \<Rightarrow> scim_wf db' \<and> within_tenant t db db' \<and> reports db' reply)"

lemma route_ok_unchanged: "scim_wf db \<Longrightarrow> route_ok t db (db, Scim_error n msg)"
  by (simp add: route_ok_def within_tenant_def reports_def)

lemma stored_route_ok:
  assumes "store_user now old new db = Inr (db1, u1)" "old \<in> set (sm_users db)" "same_account old new" "u_tenant_id old = t" "scim_wf db"
  shows "route_ok t db (scim_record a db1, Resource n (to_scim_user base u1))"
proof -
  from assms(3) have s: "u_id new = u_id old" "u_tenant_id new = u_tenant_id old" by (simp_all add: same_account_def)
  note c = store_user_change [OF assms(1,2) s assms(5)]
  show ?thesis using c(1-3) assms(4) by (auto simp: route_ok_def within_tenant_def reports_def)
qed

lemma insert_route_ok:
  assumes "insert_user env actor f db = Inr res" "scim_wf db"
  shows "route_ok (actor_tenant_id actor) db res"
proof -
  let ?u = "new_user env actor f db"
  from assms(1) have c: "check_row (sm_users db) ?u = Inr ()" by (auto simp: insert_user_def Let_def bindE_eq_Inr)
  obtain a where res: "res = (scim_record a (db\<lparr>sm_users := sm_users db @ [?u], sm_next := sm_next db + 1\<rparr>), Resource 201 (to_scim_user (sc_location_base env) ?u))"
    using assms(1) by (auto simp: insert_user_def Let_def bindE_eq_Inr)
  have u: "u_id ?u = sm_next db" "u_tenant_id ?u = actor_tenant_id actor" by (simp_all add: new_user_def)
  have no: "\<not> clashes ?u x" "\<not> clashes x ?u" if "x \<in> set (sm_users db)" for x
    using c that clashes_sym by (auto simp: check_row_ok)
  have "\<not> clashes ?u ?u" by (simp add: clashes_def)
  then have "scim_wf (db\<lparr>sm_users := sm_users db @ [?u], sm_next := sm_next db + 1\<rparr>)"
    using assms(2) no c u(1) by (auto simp: scim_wf_def check_row_ok less_Suc_eq)
  then show ?thesis using u(2) by (auto simp: res route_ok_def within_tenant_def reports_def)
qed

lemma refresh_route_ok:
  assumes "refresh_user env actor f u db = Inr res" "u \<in> set (sm_users db)" "u_tenant_id u = actor_tenant_id actor" "scim_wf db"
  shows "route_ok (actor_tenant_id actor) db res"
  using assms(1) stored_route_ok [OF _ assms(2) apply_fields_same(2) assms(3,4)]
  by (auto simp: refresh_user_def bindE_eq_Inr)

lemma create_route_ok:
  assumes "create_scim_user env actor payload db = Inr res" "scim_wf db"
  shows "route_ok (actor_tenant_id actor) db res"
proof (cases "parse_scim_user_create payload")
  case (Inl e)
  with assms show ?thesis by (auto simp: create_scim_user_def route_ok_unchanged split: if_splits)
next
  case (Inr f)
  with assms(1) obtain by_id where b: "find_external env actor f db = Inr by_id" by (auto simp: create_scim_user_def bindE_eq_Inr)
  show ?thesis
  proof (cases by_id)
    case (Some u)
    then have "u \<in> set (sm_users db)" "u_tenant_id u = actor_tenant_id actor"
      using b by (auto simp: find_external_def find_Some_iff split: if_splits pyval.splits)
    with Some Inr b assms refresh_route_ok show ?thesis by (simp add: create_scim_user_def)
  next
    case None
    show ?thesis
    proof (cases "find (\<lambda>u. ac_email u = sf_email f) (sm_users db)")
      case (Some u)
      then have "u \<in> set (sm_users db)" by (auto simp: find_Some_iff)
      with Some None Inr b assms refresh_route_ok route_ok_unchanged show ?thesis by (auto simp: create_scim_user_def split: if_splits)
    qed (use None Inr b assms insert_route_ok in \<open>simp add: create_scim_user_def\<close>)
  qed
qed

lemma replace_route_ok:
  assumes "replace_scim_user env actor i payload db = Inr res" "scim_wf db"
  shows "route_ok (actor_tenant_id actor) db res"
proof (cases "find_user db actor i")
  case (Some u)
  note u = find_user_Some [OF Some]
  show ?thesis
  proof (cases "parse_scim_user_create payload")
    case (Inr f)
    with assms(1) Some u stored_route_ok [OF _ _ apply_fields_same(1) _ assms(2)] show ?thesis by (auto simp: replace_scim_user_def bindE_eq_Inr)
  qed (use assms Some route_ok_unchanged in \<open>auto simp: replace_scim_user_def split: if_splits\<close>)
qed (use assms route_ok_unchanged in \<open>auto simp: replace_scim_user_def\<close>)

lemma patch_route_ok:
  assumes "patch_scim_user env actor i payload db = Inr res" "scim_wf db"
  shows "route_ok (actor_tenant_id actor) db res"
proof (cases "find_user db actor i")
  case (Some u)
  note u = find_user_Some [OF Some]
  show ?thesis
  proof (cases "py_or (dget payload ''Operations'') (PList [])")
    case (PList ops)
    with assms(1) Some obtain new db1 u1 a n body where p: "apply_scim_patch ops u = Inr new" "store_user (sc_now env) u new db = Inr (db1, u1)"
      "res = (scim_record a db1, Resource 200 (to_scim_user (sc_location_base env) u1))"
      by (auto simp: patch_scim_user_def bindE_eq_Inr)
    from stored_route_ok [OF p(2) _ apply_scim_patch_same [OF p(1)] _ assms(2)] u p(3) show ?thesis by auto
  qed (use assms Some route_ok_unchanged in \<open>auto simp: patch_scim_user_def\<close>)
qed (use assms route_ok_unchanged in \<open>auto simp: patch_scim_user_def\<close>)

lemma delete_route_ok:
  assumes "delete_scim_user env actor i db = Inr res" "scim_wf db"
  shows "route_ok (actor_tenant_id actor) db res"
proof (cases "find_user db actor i")
  case (Some u)
  note u = find_user_Some [OF Some]
  have same: "x = u" if "x \<in> set (sm_users db)" "u_id x = i" for x
    using that u assms(2) by (auto simp: scim_wf_def distinct_map dest: inj_onD)
  have "scim_wf (db\<lparr>sm_users := filter (\<lambda>x. u_id x \<noteq> i) (sm_users db)\<rparr>)" using assms(2) by (auto simp: scim_wf_def distinct_map_filter)
  moreover have "filter (\<lambda>x. u_tenant_id x \<noteq> actor_tenant_id actor) (filter (\<lambda>x. u_id x \<noteq> i) (sm_users db)) =
      filter (\<lambda>x. u_tenant_id x \<noteq> actor_tenant_id actor) (sm_users db)"
    unfolding filter_filter by (rule filter_cong) (use same u in auto)
  ultimately show ?thesis using assms(1) Some by (auto simp: delete_scim_user_def route_ok_def within_tenant_def reports_def)
qed (use assms route_ok_unchanged in \<open>auto simp: delete_scim_user_def\<close>)

lemma list_reports: "reports db (list_users env actor flt start count db)"
  by (auto simp: reports_def list_users_def list_response_def Let_def split: option.split list.split)

lemma get_reports: "reports db (get_scim_user env actor i db)"
  by (auto simp: reports_def get_scim_user_def dest!: find_user_Some split: option.split)

lemma scim_route_ok:
  "scim_route env actor req db = Inr res \<Longrightarrow> scim_wf db \<Longrightarrow> route_ok (actor_tenant_id actor) db res"
  by (cases req) (auto simp: create_route_ok replace_route_ok patch_route_ok delete_route_ok list_reports get_reports route_ok_def [of _ _ "(_, _)"] within_tenant_def
      dest: create_route_ok replace_route_ok patch_route_ok delete_route_ok)

text \<open>The token that a request presents.\<close>

definition presented :: "scim_env \<Rightarrow> string option \<Rightarrow> ScimToken \<Rightarrow> bool" where
  "presented env authorization t \<longleftrightarrow> \<not> st_disabled t \<and>
     (\<exists>raw. bearer_token authorization = Some raw \<and> raw \<noteq> [] \<and> st_token_hash t = hash_scim_token (sc_sha256 env) raw)"

lemma resolve_scim_token_Inr:
  assumes "resolve_scim_token env authorization db = Inr (db1, actor)"
  obtains t where "t \<in> set (sm_tokens db)" "presented env authorization t" "actor = scim_stub t" "sm_users db1 = sm_users db" "sm_next db1 = sm_next db"
    "sm_audit db1 = sm_audit db"
proof -
  from assms obtain t raw where t: "bearer_token authorization = Some raw" "raw \<noteq> []"
    "find (\<lambda>t. st_token_hash t = hash_scim_token (sc_sha256 env) raw) (sm_tokens db) = Some t" "\<not> st_disabled t" "actor = scim_stub t"
    and db1: "sm_users db1 = sm_users db" "sm_next db1 = sm_next db" "sm_audit db1 = sm_audit db"
    by (auto simp: resolve_scim_token_def split: option.splits if_splits)
  from t(3) have "t \<in> set (sm_tokens db)" "st_token_hash t = hash_scim_token (sc_sha256 env) raw" by (auto simp: find_Some_iff)
  with t db1 that show thesis by (auto simp: presented_def)
qed

lemma scim_wf_users: "sm_users db1 = sm_users db \<Longrightarrow> sm_next db1 = sm_next db \<Longrightarrow> scim_wf db1 = scim_wf db"
  by (simp add: scim_wf_def)

lemma scim_serve_ok:
  assumes "scim_wf db"
  shows "scim_serve env authorization req db = (db, snd (scim_serve env authorization req db)) \<and> (\<exists>e. snd (scim_serve env authorization req db) = Inl e) \<or>
    (\<exists>t db' reply. t \<in> set (sm_tokens db) \<and> presented env authorization t \<and> scim_serve env authorization req db = (db', Inr reply) \<and>
       route_ok (st_tenant_id t) db (db', reply))"
proof (cases "bindE (resolve_scim_token env authorization db) (\<lambda>(db1, actor). scim_route env actor req db1)")
  case (Inl e)
  then show ?thesis by (simp add: scim_serve_def)
next
  case (Inr res)
  obtain db' reply where res: "res = (db', reply)" by (cases res)
  from Inr obtain db1 actor where r: "resolve_scim_token env authorization db = Inr (db1, actor)" "scim_route env actor req db1 = Inr (db', reply)"
    by (auto simp: bindE_eq_Inr res)
  obtain t where t: "t \<in> set (sm_tokens db)" "presented env authorization t" "actor = scim_stub t" "sm_users db1 = sm_users db" "sm_next db1 = sm_next db"
    by (rule resolve_scim_token_Inr [OF r(1)]) simp
  have "route_ok (actor_tenant_id actor) db1 (db', reply)" by (rule scim_route_ok [OF r(2)]) (use assms scim_wf_users [OF t(4,5)] in simp)
  then have "route_ok (st_tenant_id t) db (db', reply)" using t(3,4) by (simp add: route_ok_def within_tenant_def scim_stub_def)
  with t(1,2) Inr res show ?thesis by (auto simp: scim_serve_def)
qed

section \<open>Properties\<close>

text \<open>
  C31: a provider reaches only its own tenant. Under every sequence of SCIM requests the accounts stay unique (by
  id, by address, and by issuer and external id), and a request that changes any account presented an
  enabled token and changed only accounts of that token's tenant: the accounts of every other tenant are
  left exactly as they were.
\<close>

theorem scim_stays_in_tenant:
  assumes "scim_wf db"
  shows "case scim_serve env authorization req db of (db', res) \<Rightarrow> scim_wf db' \<and>
    (sm_users db' = sm_users db \<or>
     (\<exists>t \<in> set (sm_tokens db). presented env authorization t \<and>
        filter (\<lambda>u. u_tenant_id u \<noteq> st_tenant_id t) (sm_users db') = filter (\<lambda>u. u_tenant_id u \<noteq> st_tenant_id t) (sm_users db)))"
  using scim_serve_ok [OF assms, of env authorization req]
proof (elim disjE conjE exE)
  fix e assume "scim_serve env authorization req db = (db, snd (scim_serve env authorization req db))"
  then show ?thesis using assms by (metis (mono_tags, lifting) case_prod_conv)
qed (auto simp: route_ok_def within_tenant_def)

lemma dget_to_scim_user:
  "dget (to_scim_user base u) ''id'' = PStr (uuid_str (u_id u))" "dget (to_scim_user base u) ''userName'' = PStr (ac_email u)"
  "dget (to_scim_user base u) ''active'' = PBool (\<not> u_disabled u)" "dget_default (to_scim_user base u) ''active'' x = PBool (\<not> u_disabled u)"
  "dget (to_scim_user base u) ''externalId'' = (case sm_external_id u of Some (c # x) \<Rightarrow> PStr (c # x) | _ \<Rightarrow> PNone)"
  "dget (to_scim_user base u) SCIM_ENTERPRISE_SCHEMA = PDict [(''role'', PStr (role_value (u_role u)))]"
  by (auto simp: to_scim_user_def dget_default_def SCIM_ENTERPRISE_SCHEMA_def split: option.split list.split)

lemma coerce_role_value: "coerce_role (PStr (role_value r)) = Inr r"
proof -
  have "lower (strip ''admin'') = ''admin''" "lower (strip ''analyst'') = ''analyst''" "lower (strip ''viewer'') = ''viewer''" by code_simp+
  then show ?thesis by (cases r) (simp_all add: coerce_role_def role_of_value_def)
qed

lemma parse_rendered:
  assumes "lower (ac_email u) = ac_email u" "CHR ''@'' \<in> set (ac_email u)"
  shows "parse_scim_user_create (to_scim_user base u) =
    Inr \<lparr>sf_email = ac_email u, sf_external_id = dget (to_scim_user base u) ''externalId'', sf_role = u_role u, sf_disabled = u_disabled u\<rparr>"
proof -
  obtain c e where e: "ac_email u = c # e" using assms(2) by (cases "ac_email u") auto
  have "role_raw (to_scim_user base u) = PStr (role_value (u_role u))"
    by (cases "u_role u") (simp_all add: role_raw_def dget_to_scim_user)
  then show ?thesis using assms e by (simp add: parse_scim_user_create_def scim_email_def dget_to_scim_user coerce_role_value)
qed

text \<open>
  What a provider reads it can write back. Replacing an account by the resource that was rendered for it
  changes no account: address, external id, role and activity survive the round trip.
\<close>

theorem scim_put_roundtrip:
  assumes "scim_wf db" "find_user db actor i = Some u" "lower (ac_email u) = ac_email u" "CHR ''@'' \<in> set (ac_email u)"
  shows "\<exists>a. replace_scim_user env actor i (to_scim_user base u) db = Inr (scim_record a db, Resource 200 (to_scim_user (sc_location_base env) u))"
proof -
  note u = find_user_Some [OF assms(2)]
  let ?f = "\<lparr>sf_email = ac_email u, sf_external_id = dget (to_scim_user base u) ''externalId'', sf_role = u_role u, sf_disabled = u_disabled u\<rparr>"
  have "apply_scim_user_fields ?f u = u"
    by (cases "sm_external_id u") (auto simp: apply_scim_user_fields_def dget_to_scim_user split: list.split)
  moreover have "check_row (sm_users db) u = Inr ()" using assms(1) u by (auto simp: check_row_ok scim_wf_def)
  moreover have "map (\<lambda>x. if u_id x = u_id u then u else x) (sm_users db) = sm_users db"
    using assms(1) u by (intro map_idI) (auto simp: scim_wf_def distinct_map dest: inj_onD)
  ultimately have "store_user (sc_now env) u (apply_scim_user_fields ?f u) db = Inr (db, u)" by (simp add: store_user_def touch_user_def)
  then show ?thesis using assms(2) parse_rendered [OF assms(3,4), of base] by (auto simp: replace_scim_user_def)
qed

text \<open>
  An account that SCIM reports as inactive is locked out. When the reply to a request shows a user with
  \<open>active\<close> false, no bearer token, neither an access token nor an API token, resolves to that user on the
  tables that the request left.
\<close>

theorem inactive_account_locked_out:
  assumes "scim_wf db" "scim_serve env authorization req db = (db', Inr (Resource n body))"
    "dget body ''id'' = PStr (uuid_str i)" "dget body ''active'' = PBool False" "is_uuid i" "list_all (\<lambda>u. is_uuid (u_id u)) (sm_users db')"
    "db_users adb = map User.truncate (sm_users db')" "snd (current_actor decode_jwt sha256 now cookie adb header) = Inr actor"
  shows "u_id (actor_user actor) \<noteq> i"
proof
  assume i: "u_id (actor_user actor) = i"
  from scim_serve_ok [OF assms(1), of env authorization req] assms(2) obtain t where "route_ok t db (db', Resource n body)" by auto
  then have wf: "scim_wf db'" and rep: "\<exists>u \<in> set (sm_users db'). \<exists>base. body = to_scim_user base u"
    using assms(3) by (auto simp: route_ok_def reports_def)
  from rep obtain u base where u: "u \<in> set (sm_users db')" "body = to_scim_user base u" by blast
  have "uuid_str (u_id u) = uuid_str i" "u_disabled u" using assms(3,4) u(2) by (simp_all add: dget_to_scim_user)
  then have ui: "u_id u = i" "u_disabled u" using assms(5,6) u(1) uuid_str_inj by (auto simp: list_all_iff)
  from assms(8) obtain token where "actor_of_token decode_jwt sha256 now cookie adb token = (fst (current_actor decode_jwt sha256 now cookie adb header), Inr actor)"
    by (auto simp: current_actor_def prod_eq_iff split: option.splits)
  from actor_of_token_legitimate [OF this] have "actor_user actor \<in> set (db_users adb)" "\<not> u_disabled (actor_user actor)" by (simp_all add: legitimate_def)
  then obtain x where x: "x \<in> set (sm_users db')" "actor_user actor = User.truncate x" using assms(7) by auto
  then have "u_id x = i" "\<not> u_disabled x" using i \<open>\<not> u_disabled (actor_user actor)\<close> by (simp_all add: User.truncate_def)
  then have "x = u" using wf x(1) u(1) ui(1) by (auto simp: scim_wf_def distinct_map dest: inj_onD)
  with ui(2) \<open>\<not> u_disabled x\<close> show False by simp
qed

text \<open>
  The path form of the enterprise role, as RFC 7644 writes it, is accepted and ignored: the value is a
  string and the code looks for a dictionary, so an administrator is not demoted.
\<close>

lemma role_path_ignored: "apply_path_value ''urn:ietf:params:scim:schemas:extension:enterprise:2.0:User:role'' (PStr s) u = Inr u"
proof -
  let ?p = "''urn:ietf:params:scim:schemas:extension:enterprise:2.0:User:role''"
  have n: "takeWhile (\<lambda>c. c \<noteq> CHR ''['') (lower (strip ?p)) = ''urn:ietf:params:scim:schemas:extension:enterprise:2.0:user:role''" by code_simp
  show ?thesis unfolding apply_path_value_def Let_def n by simp
qed

section \<open>Witnesses\<close>

definition demo_scim_user :: ScimUser where
  "demo_scim_user = \<lparr>u_id = 9, u_tenant_id = 7, u_role = ANALYST, u_disabled = False, u_is_super_admin = False, ac_email = ''a@b'', ac_password_hash = [],
     ac_last_login_at = None, ac_totp_enabled = False, ac_totp_secret = None, ac_totp_pending = None, ac_recovery = None, ac_oidc_subject = None,
     ac_oidc_issuer = Some ''scim:vigil'', ac_oidc_email = None, sm_external_id = Some ''x'', sm_created_at = 0, sm_updated_at = 0\<rparr>"

definition demo_scim_db :: scim_db where
  "demo_scim_db = \<lparr>sm_users = [demo_scim_user], sm_tokens = [\<lparr>st_id = 50, st_tenant_id = 7, st_label = ''okta'', st_token_hash = [], st_last_used_at = None,
     st_disabled = False\<rparr>], sm_audit = [], sm_next = 100\<rparr>"

definition demo_scim_env :: scim_env where
  "demo_scim_env = \<lparr>sc_sha256 = (\<lambda>_. []), sc_oidc_issuer_url = [], sc_location_base = [], sc_now = 5\<rparr>"

definition demo_deactivation :: scim_request where
  "demo_deactivation = Scim_patch 9 [(''Operations'', PList [PDict [(''op'', PStr ''Replace''), (''path'', PStr ''active''), (''value'', PBool False)]])]"

lemma demo_scim_wf: "scim_wf demo_scim_db"
  by (simp add: scim_wf_def demo_scim_db_def demo_scim_user_def clashes_def)

text \<open>Witness: the provider of one tenant deactivates an account.\<close>

theorem scim_stays_in_tenant_witness:
  "scim_wf demo_scim_db \<and> scim_wf (fst (scim_serve demo_scim_env (Some ''Bearer t'') demo_deactivation demo_scim_db))"
  using scim_stays_in_tenant [OF demo_scim_wf, of demo_scim_env "Some ''Bearer t''" demo_deactivation] demo_scim_wf by (auto simp: split_def)

lemma demo_found: "find_user demo_scim_db (scim_stub (hd (sm_tokens demo_scim_db))) 9 = Some demo_scim_user"
  by (simp add: find_user_def demo_scim_db_def demo_scim_user_def scim_stub_def)

text \<open>Witness: the account is read and written back.\<close>

theorem scim_put_roundtrip_witness:
  "\<exists>a. replace_scim_user demo_scim_env (scim_stub (hd (sm_tokens demo_scim_db))) 9 (to_scim_user [] demo_scim_user) demo_scim_db =
     Inr (scim_record a demo_scim_db, Resource 200 (to_scim_user [] demo_scim_user))"
proof -
  have "lower ''a@b'' = ''a@b''" by code_simp
  then have e: "lower (ac_email demo_scim_user) = ac_email demo_scim_user" "CHR ''@'' \<in> set (ac_email demo_scim_user)" by (simp_all add: demo_scim_user_def)
  have "sc_location_base demo_scim_env = []" by (simp add: demo_scim_env_def)
  with scim_put_roundtrip [OF demo_scim_wf demo_found e, of demo_scim_env "[]"] show ?thesis by simp
qed

lemma demo_deactivated:
  "\<exists>db' body. scim_serve demo_scim_env (Some ''Bearer t'') demo_deactivation demo_scim_db = (db', Inr (Resource 200 body)) \<and>
     sm_users db' = [demo_scim_user\<lparr>u_disabled := True, sm_updated_at := 5\<rparr>] \<and> body = to_scim_user [] (demo_scim_user\<lparr>u_disabled := True, sm_updated_at := 5\<rparr>)"
proof -
  have b: "bearer_token (Some ''Bearer t'') = Some ''t''" "lower (strip ''Replace'') = ''replace''" "lower (strip ''active'') = ''active''" by code_simp+
  have n: "demo_scim_user\<lparr>u_disabled := True\<rparr> \<noteq> demo_scim_user" by (simp add: demo_scim_user_def)
  have id: "u_id demo_scim_user = 9" "u_tenant_id demo_scim_user = 7" "ac_email demo_scim_user = ''a@b''" by (simp_all add: demo_scim_user_def)
  show ?thesis
    by (simp add: scim_serve_def resolve_scim_token_def b hash_scim_token_def hexdigest_def demo_scim_env_def demo_scim_db_def demo_deactivation_def
        patch_scim_user_def find_user_def id scim_stub_def apply_op_def dget_default_def apply_patch_value_def apply_path_value_def set_active_def
        store_user_def touch_user_def n check_row_def clashes_def scim_record_def Let_def)
qed

text \<open>Witness: the account the provider deactivated, on the tables without API tokens.\<close>

theorem inactive_account_locked_out_witness:
  "\<exists>db' body. scim_serve demo_scim_env (Some ''Bearer t'') demo_deactivation demo_scim_db = (db', Inr (Resource 200 body)) \<and>
     (\<forall>actor. snd (current_actor (\<lambda>_. Jwt_claims [(''type'', PStr ''access''), (''sub'', PStr (uuid_str 9))]) (\<lambda>_. []) 0 None
        \<lparr>db_users = map User.truncate (sm_users db'), db_tokens = []\<rparr> (Some ''Bearer t'')) = Inr actor \<longrightarrow> u_id (actor_user actor) \<noteq> 9)"
proof -
  obtain db' body where d: "scim_serve demo_scim_env (Some ''Bearer t'') demo_deactivation demo_scim_db = (db', Inr (Resource 200 body))"
    "sm_users db' = [demo_scim_user\<lparr>u_disabled := True, sm_updated_at := 5\<rparr>]" "body = to_scim_user [] (demo_scim_user\<lparr>u_disabled := True, sm_updated_at := 5\<rparr>)"
    using demo_deactivated by blast
  have id: "u_id demo_scim_user = 9" by (simp add: demo_scim_user_def)
  have r: "dget body ''id'' = PStr (uuid_str 9)" "dget body ''active'' = PBool False" by (simp_all add: d(3) dget_to_scim_user id)
  have u: "is_uuid 9" "list_all (\<lambda>u. is_uuid (u_id u)) (sm_users db')" by (simp_all add: is_uuid_def d(2) id)
  have a: "db_users \<lparr>db_users = map User.truncate (sm_users db'), db_tokens = []\<rparr> = map User.truncate (sm_users db')" by simp
  show ?thesis using d(1) inactive_account_locked_out [OF demo_scim_wf d(1) r u a] by blast
qed

end
