(* ===== verification/Agent_Stream.thy ===== *)
theory Agent_Stream
  imports Enrollment "HOL-Library.Product_Lexorder"
begin

text \<open>
  The long-lived stream of an agent (backend/app/grpc/services.py, \<open>HostStream\<close> and \<open>_consume_client\<close>):
  admission, the token bucket that limits ingest, and the handler of every message an agent sends;
  boot-state attestation (services/attestation.py, api/attestation.py); the administrator's edits of a host
  (api/hosts.py); and the worker that watches for silent hosts (workers/silence.py). The message classes
  are those of the generated protobuf code; certificates, the JSON reader and Kafka are parameters.
\<close>

section \<open>Ingest limit\<close>

definition GRPC_RL_MAX_EVENTS_PER_SEC :: "string option \<Rightarrow> int result" where
  "GRPC_RL_MAX_EVENTS_PER_SEC env = (case env of None \<Rightarrow> Inr 1000 | Some v \<Rightarrow> int_of_str v)"

definition GRPC_RL_BURST :: "string option \<Rightarrow> int result" where
  "GRPC_RL_BURST env = (case env of None \<Rightarrow> Inr 5000 | Some v \<Rightarrow> int_of_str v)"

text \<open>Both settings as the module read them.\<close>

record ingest_limit =
  il_rate :: int
  il_burst :: int

record HostBucket =
  hb_tokens :: rat
  hb_last :: rat

definition new_bucket :: "ingest_limit \<Rightarrow> HostBucket" where
  "new_bucket il = \<lparr>hb_tokens = of_int (il_burst il), hb_last = 0\<rparr>"

definition refill :: "ingest_limit \<Rightarrow> rat \<Rightarrow> HostBucket \<Rightarrow> HostBucket" where
  "refill il now b =
     (let b = (if hb_last b = 0 then b\<lparr>hb_last := now\<rparr> else b); elapsed = now - hb_last b
      in if elapsed > 0
         then b\<lparr>hb_tokens := min (of_int (il_burst il)) (hb_tokens b + elapsed * of_int (il_rate il)), hb_last := now\<rparr>
         else b)"

text \<open>\<open>int(x)\<close> of a float.\<close>

definition float_to_int :: "rat \<Rightarrow> int" where
  "float_to_int q = (if q < 0 then \<lceil>q\<rceil> else \<lfloor>q\<rfloor>)"

definition admit :: "ingest_limit \<Rightarrow> rat \<Rightarrow> int \<Rightarrow> HostBucket \<Rightarrow> HostBucket \<times> int" where
  "admit il now want b =
     (let b = refill il now b; granted = min (float_to_int (hb_tokens b)) want
      in (b\<lparr>hb_tokens := hb_tokens b - of_int granted\<rparr>, granted))"

section \<open>State\<close>

record Pcr =
  pcr_index :: int
  pcr_bank :: string
  pcr_digest_hex :: string

record AttestationGolden =
  ag_host_id :: uuid
  ag_tenant_id :: uuid
  ag_pcrs :: "Pcr list"
  ag_recorded_by :: "uuid option"

record AttestationEvent =
  ae_id :: uuid
  ae_tenant_id :: uuid
  ae_host_id :: uuid
  ae_pcrs :: "Pcr list"
  ae_matches_golden :: bool
  ae_diverged :: "int list"
  ae_recorded_at :: datetime

record JobArtifact =
  ja_run_id :: uuid
  ja_kind :: string
  ja_bucket :: string
  ja_object_key :: string
  ja_size_bytes :: int
  ja_sha256 :: "string option"
  ja_metadata :: pydict

record kafka_record =
  kr_topic :: string
  kr_key :: string
  kr_value :: bytes

text \<open>
  The manager's tables and the process state of the gRPC server. The hosts are those of \<open>fleet\<close>; the tables of
  \<open>push_db\<close> see them through \<open>push_view\<close>.
\<close>

record manager =
  mg_fleet :: fleet
  mg_push :: push_db
  mg_artifacts :: "JobArtifact list"
  mg_golden :: "AttestationGolden list"
  mg_attestations :: "AttestationEvent list"
  mg_buckets :: "(string \<times> HostBucket) list"
  mg_kafka :: "kafka_record list"

definition base_row :: "AgentHost \<Rightarrow> Host" where
  "base_row h = \<lparr>hst_id = hst_id h, hst_tenant_id = hst_tenant_id h, hst_status = hst_status h,
     hst_last_seen_at = hst_last_seen_at h, hst_policy_id = hst_policy_id h, hst_agent_version = hst_agent_version h\<rparr>"

definition push_view :: "manager \<Rightarrow> push_db" where
  "push_view m = (mg_push m)\<lparr>pd_jobs := (pd_jobs (mg_push m))\<lparr>j_hosts := map base_row (fl_hosts (mg_fleet m))\<rparr>\<rparr>"

definition find_host :: "uuid \<Rightarrow> manager \<Rightarrow> AgentHost option" where
  "find_host i m = find (\<lambda>h. hst_id h = i) (fl_hosts (mg_fleet m))"

definition update_agent_host :: "uuid \<Rightarrow> (AgentHost \<Rightarrow> AgentHost) \<Rightarrow> manager \<Rightarrow> manager" where
  "update_agent_host i f m =
     m\<lparr>mg_fleet := (mg_fleet m)\<lparr>fl_hosts := map (\<lambda>h. if hst_id h = i then f h else h) (fl_hosts (mg_fleet m))\<rparr>\<rparr>"

definition host_visible :: "Actor \<Rightarrow> uuid \<Rightarrow> manager \<Rightarrow> bool" where
  "host_visible actor i m = host_visible_to (scope_view (pd_jobs (push_view m))) actor (Some i)"

definition manager_audit :: "audit_request \<Rightarrow> manager \<Rightarrow> manager" where
  "manager_audit rq m = m\<lparr>mg_fleet := fleet_audit rq (mg_fleet m)\<rparr>"

section \<open>Attestation\<close>

record PcrValue =
  pv_index :: int
  pv_bank :: string
  pv_digest :: bytes

definition hex_digest :: "bytes \<Rightarrow> string" where
  "hex_digest raw = hexdigest raw"

definition pcrs_from_pb :: "PcrValue list \<Rightarrow> Pcr list" where
  "pcrs_from_pb pb_pcrs =
     sort_key (\<lambda>p. (pcr_bank p, pcr_index p))
       (map (\<lambda>p. \<lparr>pcr_index = pv_index p, pcr_bank = (if pv_bank p = [] then ''sha256'' else pv_bank p),
                  pcr_digest_hex = hex_digest (pv_digest p)\<rparr>)
         (filter (\<lambda>p. pv_digest p \<noteq> []) pb_pcrs))"

text \<open>X.509: reading a certificate in either encoding, and whether the trust anchor's key signed it.\<close>

record 'cert attestation_env =
  av_load_pem :: "bytes \<Rightarrow> 'cert option"
  av_load_der :: "bytes \<Rightarrow> 'cert option"
  av_trust_anchor_pem :: string
  av_signed_by :: "'cert \<Rightarrow> 'cert \<Rightarrow> bool"

definition check_trust_anchor :: "'cert attestation_env \<Rightarrow> 'cert \<Rightarrow> bool" where
  "check_trust_anchor av ak_cert =
     (let trust_pem = strip (av_trust_anchor_pem av) in
      if trust_pem = [] then True
      else (case av_load_pem av (utf8_encode trust_pem) of None \<Rightarrow> False | Some anchor \<Rightarrow> av_signed_by av anchor ak_cert))"

definition verify_quote :: "'cert attestation_env \<Rightarrow> bytes \<Rightarrow> bytes \<Rightarrow> bool" where
  "verify_quote av quote_signature ak_cert =
     (if quote_signature = [] \<or> ak_cert = [] then False
      else (case av_load_pem av ak_cert of
          Some cert \<Rightarrow> check_trust_anchor av cert
        | None \<Rightarrow> (case av_load_der av ak_cert of Some cert \<Rightarrow> check_trust_anchor av cert | None \<Rightarrow> False)))"

text \<open>\<open>{(bank, index): digest}\<close>: the last entry of a key counts.\<close>

definition pcr_map :: "Pcr list \<Rightarrow> ((string \<times> int) \<times> string) list" where
  "pcr_map pcrs = foldl (\<lambda>d p. AList.update (pcr_bank p, pcr_index p) (pcr_digest_hex p) d) [] pcrs"

definition compare_to_golden :: "AttestationGolden option \<Rightarrow> Pcr list \<Rightarrow> bool \<times> int list" where
  "compare_to_golden golden current =
     (case golden of
        None \<Rightarrow> (False, sort (remdups (map pcr_index current)))
      | Some g \<Rightarrow>
          (if ag_pcrs g = [] then (False, sort (remdups (map pcr_index current)))
           else (let golden_map = pcr_map (ag_pcrs g); current_map = pcr_map current;
                     changed = map (\<lambda>(k, d). snd k) (filter (\<lambda>(k, d). map_of golden_map k \<noteq> Some d) current_map);
                     missing = map (\<lambda>(k, d). snd k) (filter (\<lambda>(k, d). map_of current_map k = None) golden_map);
                     diverged = sort (remdups (changed @ missing))
                 in (diverged = [], diverged))))"

definition ATTESTATION_FAILED_RULE_ID :: uuid where
  "ATTESTATION_FAILED_RULE_ID = 0xa0a0a0a0000000000000000000000007"

definition pcr_json :: "Pcr \<Rightarrow> pyval" where
  "pcr_json p = PDict [(''index'', PInt (pcr_index p)), (''bank'', PStr (pcr_bank p)), (''digest_hex'', PStr (pcr_digest_hex p))]"

definition attestation_alert :: "datetime \<Rightarrow> uuid \<Rightarrow> AgentHost \<Rightarrow> Pcr list \<Rightarrow> AttestationGolden \<Rightarrow> int list \<Rightarrow> Alert" where
  "attestation_alert now i host current golden diverged =
     \<lparr>a_id = i, a_tenant_id = hst_tenant_id host, a_host_id = Some (hst_id host), a_rule_id = ATTESTATION_FAILED_RULE_ID,
      a_severity = HIGH, a_action_taken = ALERT, a_state = NEW,
      a_summary = ''TPM attestation diverged on '' @ [squote] @ hst_hostname host @ [squote] @ '' (PCRs: '' @ join '', '' (map show_int diverged) @ '')'',
      a_details = PDict [(''host_id'', PStr (uuid_str (hst_id host))), (''diverged_pcrs'', PList (map PInt diverged)),
        (''current_pcrs'', PList (map pcr_json current)), (''golden_pcrs'', PList (map pcr_json (ag_pcrs golden))),
        (''detector'', PStr ''tpm_attestation_v1'')],
      a_mitre = Some [''T1542''], a_opened_at = now, a_closed_at = None, a_assignee_id = None, a_incident_id = None,
      a_dedup_key = None, a_occurrence_count = 1, a_last_occurred_at = now\<rparr>"

definition record_event :: "datetime \<Rightarrow> AgentHost \<Rightarrow> Pcr list \<Rightarrow> AttestationGolden option \<Rightarrow> manager \<Rightarrow> manager" where
  "record_event now host current golden m =
     (let (matches, diverged) = compare_to_golden golden current; fl = mg_fleet m;
          event = \<lparr>ae_id = fl_next fl, ae_tenant_id = hst_tenant_id host, ae_host_id = hst_id host, ae_pcrs = current,
                   ae_matches_golden = matches, ae_diverged = diverged, ae_recorded_at = now\<rparr>;
          fl = fl\<lparr>fl_next := fl_next fl + 1\<rparr>;
          fl = (case golden of
                 None \<Rightarrow> fl
               | Some g \<Rightarrow> (if matches then fl
                   else (let fl = ensure_rule ATTESTATION_FAILED_RULE_ID fl in
                     fl\<lparr>fl_alerts := fl_alerts fl @ [attestation_alert now (fl_next fl) host current g diverged],
                        fl_next := fl_next fl + 1\<rparr>)))
      in m\<lparr>mg_fleet := fl, mg_attestations := mg_attestations m @ [event]\<rparr>)"

record TpmAttestation =
  ta_pcrs :: "PcrValue list"
  ta_quote_signature :: bytes
  ta_ak_cert :: bytes
  ta_nonce :: string

definition find_golden :: "uuid \<Rightarrow> manager \<Rightarrow> AttestationGolden option" where
  "find_golden i m = find (\<lambda>g. ag_host_id g = i) (mg_golden m)"

text \<open>The second component is the verdict on the quote, which the code only logs.\<close>

definition handle_tpm_attestation ::
  "'cert attestation_env \<Rightarrow> datetime \<Rightarrow> uuid \<Rightarrow> TpmAttestation \<Rightarrow> manager \<Rightarrow> manager \<times> bool option" where
  "handle_tpm_attestation av now host_id payload m =
     (let current = pcrs_from_pb (ta_pcrs payload) in
      if current = [] then (m, None)
      else (let valid = (if ta_quote_signature payload \<noteq> [] \<and> ta_ak_cert payload \<noteq> []
                         then Some (verify_quote av (ta_quote_signature payload) (ta_ak_cert payload)) else None)
            in (case find_host host_id m of
                  None \<Rightarrow> (m, valid)
                | Some host \<Rightarrow> (record_event now host current (find_golden host_id m) m, valid))))"

definition latest_event :: "uuid \<Rightarrow> manager \<Rightarrow> AttestationEvent option" where
  "latest_event i m =
     (case sort_key (\<lambda>e. - ae_recorded_at e) (filter (\<lambda>e. ae_host_id e = i) (mg_attestations m)) of
        [] \<Rightarrow> None | e # _ \<Rightarrow> Some e)"

definition request_attestation :: "string \<Rightarrow> uuid \<Rightarrow> Actor \<Rightarrow> manager \<Rightarrow> (manager \<times> uuid) result" where
  "request_attestation nonce host_id actor m = bindE (RequireAdmin actor) (\<lambda>actor.
     case find_host host_id m of
       None \<Rightarrow> Inl (not_found ''host'' host_id)
     | Some host \<Rightarrow>
         (if \<not> host_visible actor host_id m then Inl (not_found ''host'' host_id)
          else (let jobs = pd_jobs (mg_push m);
                    cmd = (new_command jobs (hst_id host) Cmd_REQUEST_ATTESTATION [(''nonce'', PStr nonce)] None None
                             (Some (u_id (actor_user actor))))\<lparr>cmd_tenant_id := hst_tenant_id host\<rparr>
                in Inr (manager_audit ((push_audit actor ''attestation.request'' ''host'' (uuid_str (hst_id host))
                          [(''command_id'', PStr (uuid_str (cmd_id cmd))), (''nonce_prefix'', PStr (take 16 nonce))])
                            \<lparr>rq_tenant_id := Some (hst_tenant_id host)\<rparr>)
                          (m\<lparr>mg_push := (mg_push m)\<lparr>pd_jobs := jobs\<lparr>j_commands := j_commands jobs @ [cmd], j_next := j_next jobs + 1\<rparr>\<rparr>\<rparr>),
                        cmd_id cmd))))"

definition store_golden :: "AttestationGolden \<Rightarrow> AttestationGolden list \<Rightarrow> AttestationGolden list" where
  "store_golden g gs = (if list_ex (\<lambda>x. ag_host_id x = ag_host_id g) gs
     then map (\<lambda>x. if ag_host_id x = ag_host_id g then g else x) gs else gs @ [g])"

definition promote_attestation :: "uuid \<Rightarrow> Actor \<Rightarrow> manager \<Rightarrow> manager result" where
  "promote_attestation host_id actor m = bindE (RequireAdmin actor) (\<lambda>actor.
     case find_host host_id m of
       None \<Rightarrow> Inl (not_found ''host'' host_id)
     | Some host \<Rightarrow>
         (if \<not> host_visible actor host_id m then Inl (not_found ''host'' host_id)
          else (case latest_event (hst_id host) m of
              None \<Rightarrow> Inl (bad_request ''no attestation events recorded for host yet'')
            | Some latest \<Rightarrow>
                (let g = \<lparr>ag_host_id = hst_id host, ag_tenant_id = hst_tenant_id host, ag_pcrs = ae_pcrs latest,
                          ag_recorded_by = Some (u_id (actor_user actor))\<rparr>
                 in Inr (manager_audit ((push_audit actor ''attestation.promote'' ''host'' (uuid_str (hst_id host))
                           [(''pcr_count'', PInt (int (length (ag_pcrs g))))])\<lparr>rq_tenant_id := Some (hst_tenant_id host)\<rparr>)
                          (m\<lparr>mg_golden := store_golden g (mg_golden m)\<rparr>))))))"

definition attestation_block :: "uuid \<Rightarrow> manager \<Rightarrow> string" where
  "attestation_block i m =
     (case latest_event i m of
        None \<Rightarrow> (if find_golden i m = None then ''unknown'' else ''unverified'')
      | Some latest \<Rightarrow>
          (if find_golden i m = None then ''unverified'' else if ae_matches_golden latest then ''ok'' else ''diverged''))"

section \<open>Editing hosts\<close>

fun host_status_value :: "HostStatus \<Rightarrow> string" where
  "host_status_value HOST_PENDING = ''pending''"
| "host_status_value ONLINE = ''online''"
| "host_status_value OFFLINE = ''offline''"
| "host_status_value ISOLATED = ''isolated''"
| "host_status_value DECOMMISSIONED = ''decommissioned''"

definition check_policy :: "uuid option \<Rightarrow> AgentHost \<Rightarrow> manager \<Rightarrow> unit result" where
  "check_policy policy_id host m = (case policy_id of
       None \<Rightarrow> Inr ()
     | Some p \<Rightarrow> (case find (\<lambda>x. pol_id x = p) (j_policies (pd_jobs (mg_push m))) of
           None \<Rightarrow> Inl (not_found ''policy'' p)
         | Some policy \<Rightarrow> (if pol_tenant_id policy \<noteq> hst_tenant_id host then Inl (not_found ''policy'' p) else Inr ())))"

text \<open>
  The audit payload of an edit is the dumped request. A policy id in it is a \<open>UUID\<close> object, which the
  JSON encoder refuses, so that \<open>audit.record\<close> or the commit raises and the edit is rolled back.
\<close>

definition update_host :: "uuid \<Rightarrow> uuid option \<Rightarrow> HostStatus option \<Rightarrow> Actor \<Rightarrow> manager \<Rightarrow> manager result" where
  "update_host host_id policy_id status actor m = bindE (RequireAdmin actor) (\<lambda>actor.
     case find_host host_id m of
       None \<Rightarrow> Inl (not_found ''host'' host_id)
     | Some host \<Rightarrow>
         (if \<not> host_visible actor host_id m then Inl (not_found ''host'' host_id)
          else bindE (check_policy policy_id host m) (\<lambda>_.
            let m = update_agent_host host_id (\<lambda>h. h\<lparr>hst_policy_id := (case policy_id of None \<Rightarrow> hst_policy_id h | Some p \<Rightarrow> Some p),
                                                     hst_status := or_else status (hst_status h)\<rparr>) m
            in if policy_id \<noteq> None then Inl TypeError
               else Inr (manager_audit (push_audit actor ''host.update'' ''host'' (uuid_str host_id)
                      (case status of None \<Rightarrow> [] | Some s \<Rightarrow> [(''status'', PStr (host_status_value s))])) m))))"

text \<open>What the foreign keys of a host do when its row goes.\<close>

definition cascade_host :: "uuid \<Rightarrow> manager \<Rightarrow> manager" where
  "cascade_host i m =
     (let fl = mg_fleet m; pd = mg_push m; jd = pd_jobs pd; gone = map run_id (filter (\<lambda>r. run_host_id r = i) (j_runs jd)) in
      m\<lparr>mg_fleet := fl\<lparr>fl_hosts := filter (\<lambda>h. hst_id h \<noteq> i) (fl_hosts fl),
          fl_alerts := filter (\<lambda>a. a_host_id a \<noteq> Some i) (fl_alerts fl),
          fl_tokens := map (\<lambda>t. if et_used_by_host_id t = Some i then t\<lparr>et_used_by_host_id := None\<rparr> else t) (fl_tokens fl)\<rparr>,
        mg_push := pd\<lparr>pd_jobs := jd\<lparr>j_hosts := filter (\<lambda>h. hst_id h \<noteq> i) (j_hosts jd), j_host_in_group := filter (\<lambda>(h, g). h \<noteq> i) (j_host_in_group jd),
            j_runs := filter (\<lambda>r. run_host_id r \<noteq> i) (j_runs jd), j_commands := filter (\<lambda>c. cmd_host_id c \<noteq> i) (j_commands jd)\<rparr>,
          pd_hits := filter (\<lambda>x. hit_host_id x \<noteq> i) (pd_hits pd), pd_alerts := filter (\<lambda>a. a_host_id a \<noteq> Some i) (pd_alerts pd)\<rparr>,
        mg_artifacts := filter (\<lambda>a. ja_run_id a \<notin> set gone) (mg_artifacts m),
        mg_golden := filter (\<lambda>g. ag_host_id g \<noteq> i) (mg_golden m),
        mg_attestations := filter (\<lambda>e. ae_host_id e \<noteq> i) (mg_attestations m)\<rparr>)"

definition delete_host :: "uuid \<Rightarrow> Actor \<Rightarrow> manager \<Rightarrow> manager result" where
  "delete_host host_id actor m = bindE (RequireAdmin actor) (\<lambda>actor.
     case find_host host_id m of
       None \<Rightarrow> Inl (not_found ''host'' host_id)
     | Some host \<Rightarrow>
         (if \<not> host_visible actor host_id m then Inl (not_found ''host'' host_id)
          else Inr (manager_audit ((push_audit actor ''host.delete'' ''host'' (uuid_str host_id) [])\<lparr>rq_payload := None\<rparr>)
                 (cascade_host host_id m))))"

section \<open>Admission\<close>

text \<open>What the TLS layer knows of the peer: the common names and the certificates of its chain.\<close>

record peer_ctx =
  pc_common_names :: "string list"
  pc_pem_certs :: "bytes list"

definition peer_host_id :: "peer_ctx \<Rightarrow> string option" where
  "peer_host_id ctx = (case pc_common_names ctx of [] \<Rightarrow> None | cn # _ \<Rightarrow> Some cn)"

definition peer_cert_fingerprint :: "(bytes \<Rightarrow> Certificate option) \<Rightarrow> ca_env \<Rightarrow> peer_ctx \<Rightarrow> string option" where
  "peer_cert_fingerprint load_pem ce ctx =
     (case pc_pem_certs ctx of [] \<Rightarrow> None | pem # _ \<Rightarrow> map_option (ce_fingerprint ce) (load_pem pem))"

definition check_host_admission :: "AgentHost \<Rightarrow> string option \<Rightarrow> bool" where
  "check_host_admission host peer_fingerprint =
     (if hst_status host = DECOMMISSIONED then False
      else (case (peer_fingerprint, hst_cert_fingerprint host) of
          (Some p, Some f) \<Rightarrow> p = [] \<or> f = [] \<or> p = f
        | _ \<Rightarrow> True))"

definition host_stream_open ::
  "(bytes \<Rightarrow> Certificate option) \<Rightarrow> ca_env \<Rightarrow> datetime \<Rightarrow> peer_ctx \<Rightarrow> manager \<Rightarrow> rpc_status + (manager \<times> uuid)" where
  "host_stream_open load_pem ce now ctx m = (case peer_host_id ctx of
       None \<Rightarrow> Inl UNAUTHENTICATED
     | Some cn \<Rightarrow> (case uuid_of_str cn of
           None \<Rightarrow> Inl UNAUTHENTICATED
         | Some host_id \<Rightarrow> (case find_host host_id m of
               None \<Rightarrow> Inl UNAUTHENTICATED
             | Some host \<Rightarrow>
                 (if \<not> check_host_admission host (peer_cert_fingerprint load_pem ce ctx) then Inl UNAUTHENTICATED
                  else Inr (update_agent_host host_id (\<lambda>h. h\<lparr>hst_status := ONLINE, hst_last_seen_at := Some now\<rparr>) m, host_id)))))"

text \<open>The end of a stream: the tasks are cancelled, the host goes offline and its bucket is dropped.\<close>

definition host_stream_close :: "string \<Rightarrow> uuid \<Rightarrow> manager \<Rightarrow> manager" where
  "host_stream_close cn host_id m =
     (let m = update_agent_host host_id (\<lambda>h. h\<lparr>hst_status := OFFLINE\<rparr>) m
      in m\<lparr>mg_buckets := filter (\<lambda>(k, b). k \<noteq> cn) (mg_buckets m)\<rparr>)"

section \<open>Messages of an agent\<close>

record WireEvent =
  ev_bytes :: bytes
  ev_payload :: string

record JobArtifactReport =
  ar_run_id :: string
  ar_bucket :: string
  ar_object_key :: string
  ar_artifact_kind :: string
  ar_size_bytes :: int
  ar_sha256 :: string
  ar_metadata_json :: string

datatype ClientMessage =
    Events "WireEvent list"
  | Heartbeat
  | Hello int string
  | CommandResult string bool string
  | JobProgress string "JobRunStatus option" int string string
  | JobArtifactMsg JobArtifactReport
  | TpmAttestationMsg TpmAttestation
  | HoneytokenHitMsg string int string int int
  | UnknownMessage

text \<open>How the consumer of a stream ends early.\<close>

datatype stream_exit = Aborted rpc_status | Raised exn

record 'cert stream_env =
  sv_limit :: ingest_limit
  sv_topic_raw :: string
  sv_topic_auth :: string
  sv_kafka_accepts :: "kafka_record \<Rightarrow> bool"
  sv_attestation :: "'cert attestation_env"
  sv_bucket_artifacts :: string
  sv_bucket_snapshots :: string
  sv_json_loads :: "string \<Rightarrow> pyval option"

definition MIN_AGENT_PROTOCOL_VERSION :: int where
  "MIN_AGENT_PROTOCOL_VERSION = 1"

definition event_sends :: "'cert stream_env \<Rightarrow> uuid \<Rightarrow> WireEvent \<Rightarrow> kafka_record list" where
  "event_sends sv host_id ev =
     \<lparr>kr_topic = sv_topic_raw sv, kr_key = uuid_str host_id, kr_value = ev_bytes ev\<rparr> #
     (if ev_payload ev = ''auth'' then [\<lparr>kr_topic = sv_topic_auth sv, kr_key = uuid_str host_id, kr_value = ev_bytes ev\<rparr>] else [])"

text \<open>All sends run to their end; the first failure of one is raised afterwards.\<close>

definition handle_events :: "'cert stream_env \<Rightarrow> rat \<Rightarrow> uuid \<Rightarrow> WireEvent list \<Rightarrow> manager \<Rightarrow> manager \<times> stream_exit option" where
  "handle_events sv clk host_id evs m =
     (if evs = [] then (m, None)
      else (let key = uuid_str host_id;
                bucket = (case map_of (mg_buckets m) key of Some b \<Rightarrow> b | None \<Rightarrow> new_bucket (sv_limit sv));
                (bucket, granted) = admit (sv_limit sv) clk (int (length evs)) bucket;
                sends = (if granted > 0 then concat (map (event_sends sv host_id) (take (nat granted) evs)) else [])
            in (m\<lparr>mg_buckets := AList.update key bucket (mg_buckets m), mg_kafka := mg_kafka m @ filter (sv_kafka_accepts sv) sends\<rparr>,
                if list_all (sv_kafka_accepts sv) sends then None else Some (Raised RuntimeError))))"

text \<open>
  \<open>last_seen_update\<close> is the consumer's local variable. The inner option is its new value.
\<close>

definition handle_heartbeat :: "datetime \<Rightarrow> uuid \<Rightarrow> datetime \<Rightarrow> manager \<Rightarrow> manager \<times> (stream_exit + datetime)" where
  "handle_heartbeat now host_id last_seen_update m =
     (if now - last_seen_update < seconds 30 then (m, Inr last_seen_update)
      else (case find_host host_id m of
          None \<Rightarrow> (m, Inr last_seen_update)
        | Some h \<Rightarrow>
            (if \<not> check_host_admission h None then (m, Inl (Aborted UNAUTHENTICATED))
             else (update_agent_host host_id (\<lambda>h. h\<lparr>hst_last_seen_at := Some now\<rparr>) m, Inr now))))"

text \<open>The column of the capabilities holds 1024 characters.\<close>

definition handle_hello :: "uuid \<Rightarrow> int \<Rightarrow> string \<Rightarrow> manager \<Rightarrow> manager \<times> stream_exit option" where
  "handle_hello host_id pv caps m =
     (if pv \<noteq> 0 \<and> pv < MIN_AGENT_PROTOCOL_VERSION then (m, Some (Aborted FAILED_PRECONDITION))
      else if find_host host_id m = None then (m, None)
      else if length caps > 1024 then (m, Some (Raised DataError))
      else (update_agent_host host_id (\<lambda>h. h\<lparr>hst_capabilities := Some caps\<rparr>) m, None))"

definition on_jobs :: "(job_db \<Rightarrow> job_db) \<Rightarrow> manager \<Rightarrow> manager" where
  "on_jobs f m = m\<lparr>mg_push := (mg_push m)\<lparr>pd_jobs := f (pd_jobs (mg_push m))\<rparr>\<rparr>"

definition artifact_metadata :: "'cert stream_env \<Rightarrow> string \<Rightarrow> pydict" where
  "artifact_metadata sv metadata_json =
     (if metadata_json = [] then []
      else (case sv_json_loads sv metadata_json of
          None \<Rightarrow> [(''raw'', PStr (take 1024 metadata_json))]
        | Some v \<Rightarrow> (if \<not> truthy v then [] else (case v of PDict d \<Rightarrow> d | _ \<Rightarrow> [(''value'', v)]))))"

text \<open>The id of the artifact is drawn at the flush, after the audit row has been built with it.\<close>

definition handle_job_artifact :: "'cert stream_env \<Rightarrow> uuid \<Rightarrow> JobArtifactReport \<Rightarrow> manager \<Rightarrow> manager \<times> stream_exit option" where
  "handle_job_artifact sv host_id report m =
     (case uuid_of_str (ar_run_id report) of
        None \<Rightarrow> (m, None)
      | Some run_uuid \<Rightarrow>
          (let kind = (if ar_artifact_kind report = [] then ''file'' else ar_artifact_kind report) in
           if kind \<notin> set JOB_ARTIFACT_KINDS then (m, None)
           else (case find (\<lambda>r. run_id r = run_uuid) (j_runs (pd_jobs (mg_push m))) of
               None \<Rightarrow> (m, None)
             | Some run \<Rightarrow>
                 (if run_host_id run \<noteq> host_id then (m, None)
                  else if ar_bucket report \<notin> {sv_bucket_artifacts sv, sv_bucket_snapshots sv} then (m, None)
                  else if ar_size_bytes report \<ge> 2 ^ 63 then (m, Some (Raised DataError))
                  else (manager_audit \<lparr>rq_actor = None, rq_action = ''artifact.upload'', rq_resource_type = Some ''artifact'',
                            rq_resource_id = Some ''None'',
                            rq_payload = Some [(''run_id'', PStr (uuid_str (run_id run))), (''host_id'', PStr (uuid_str host_id)),
                              (''size_bytes'', PInt (ar_size_bytes report)), (''kind'', PStr kind)],
                            rq_ip = None, rq_tenant_id = None\<rparr>
                          (m\<lparr>mg_artifacts := mg_artifacts m @ [\<lparr>ja_run_id = run_id run, ja_kind = kind, ja_bucket = ar_bucket report,
                              ja_object_key = take 512 (ar_object_key report), ja_size_bytes = ar_size_bytes report,
                              ja_sha256 = (if ar_sha256 report = [] then None else Some (take 64 (ar_sha256 report))),
                              ja_metadata = artifact_metadata sv (ar_metadata_json report)\<rparr>]\<rparr>), None)))))"

text \<open>\<open>datetime.fromtimestamp\<close> of a protobuf time stamp: rounded to the microsecond, ties to even, within the years 1 to 9999.\<close>

definition round_half_even :: "int \<Rightarrow> int \<Rightarrow> int" where
  "round_half_even a b = (let q = a div b; r = a mod b in
     if 2 * r < b then q else if 2 * r > b then q + 1 else if even q then q else q + 1)"

definition timestamp_datetime :: "int \<Rightarrow> int \<Rightarrow> datetime option result" where
  "timestamp_datetime secs nanos =
     (if secs = 0 \<and> nanos = 0 then Inr None
      else (let us = round_half_even (secs * 1000000000 + nanos) 1000 in
        if us < - 62135596800000000 \<or> us > 253402300799999999 then Inl ValueError else Inr (Some us)))"

text \<open>A hit that cannot be stored is rolled back; the column of the pid is a 32-bit integer.\<close>

definition handle_honeytoken_hit ::
  "datetime \<Rightarrow> uuid \<Rightarrow> string \<Rightarrow> int \<Rightarrow> string \<Rightarrow> int \<Rightarrow> int \<Rightarrow> manager \<Rightarrow> manager \<times> stream_exit option" where
  "handle_honeytoken_hit now host_id token pid executable secs nanos m =
     (case uuid_of_str token of
        None \<Rightarrow> (m, None)
      | Some token_uuid \<Rightarrow> (case timestamp_datetime secs nanos of
            Inl e \<Rightarrow> (m, Some (Raised e))
          | Inr hit_at \<Rightarrow>
              (if pid \<ge> 2 ^ 31 then (m, None)
               else (m\<lparr>mg_push := fst (record_hit now token_uuid host_id (if pid = 0 then None else Some pid)
                         (if executable = [] then None else Some executable) hit_at (push_view m))\<rparr>, None))))"

definition keeping :: "datetime \<Rightarrow> manager \<times> stream_exit option \<Rightarrow> manager \<times> (stream_exit + datetime)" where
  "keeping last_seen_update r = (case r of (m, None) \<Rightarrow> (m, Inr last_seen_update) | (m, Some e) \<Rightarrow> (m, Inl e))"

text \<open>One iteration of \<open>_consume_client\<close>: \<open>now\<close> is the wall clock, \<open>clk\<close> the monotonic one.\<close>

fun consume_one ::
  "'cert stream_env \<Rightarrow> uuid \<Rightarrow> datetime \<times> rat \<times> ClientMessage \<Rightarrow> manager \<times> datetime \<Rightarrow> manager \<times> (stream_exit + datetime)" where
  "consume_one sv host_id (now, clk, Events evs) (m, t) = keeping t (handle_events sv clk host_id evs m)"
| "consume_one sv host_id (now, clk, Heartbeat) (m, t) = handle_heartbeat now host_id t m"
| "consume_one sv host_id (now, clk, Hello pv caps) (m, t) = keeping t (handle_hello host_id pv caps m)"
| "consume_one sv host_id (now, clk, CommandResult c success err) (m, t) =
     (on_jobs (command_result now host_id c success err) m, Inr t)"
| "consume_one sv host_id (now, clk, JobProgress r wire pct msg err) (m, t) =
     (on_jobs (handle_job_progress now host_id r wire pct msg err) m, Inr t)"
| "consume_one sv host_id (now, clk, JobArtifactMsg report) (m, t) = keeping t (handle_job_artifact sv host_id report m)"
| "consume_one sv host_id (now, clk, TpmAttestationMsg p) (m, t) = (fst (handle_tpm_attestation (sv_attestation sv) now host_id p m), Inr t)"
| "consume_one sv host_id (now, clk, HoneytokenHitMsg token pid ex secs nanos) (m, t) =
     keeping t (handle_honeytoken_hit now host_id token pid ex secs nanos m)"
| "consume_one sv host_id (now, clk, UnknownMessage) (m, t) = (m, Inr t)"

fun consume_client ::
  "'cert stream_env \<Rightarrow> uuid \<Rightarrow> (datetime \<times> rat \<times> ClientMessage) list \<Rightarrow> manager \<times> datetime \<Rightarrow> manager \<times> (stream_exit + datetime)" where
  "consume_client sv host_id [] (m, t) = (m, Inr t)"
| "consume_client sv host_id (msg # msgs) (m, t) =
     (case consume_one sv host_id msg (m, t) of
        (m', Inl e) \<Rightarrow> (m', Inl e)
      | (m', Inr t') \<Rightarrow> consume_client sv host_id msgs (m', t'))"

section \<open>The silence worker\<close>

definition SILENCE_RULE_ID :: uuid where
  "SILENCE_RULE_ID = 0xa0a0a0a0000000000000000000000004"

definition silence_alert :: "int \<Rightarrow> datetime \<Rightarrow> uuid \<Rightarrow> AgentHost \<Rightarrow> datetime \<Rightarrow> int \<Rightarrow> Alert" where
  "silence_alert threshold now i host last_seen silence_seconds =
     \<lparr>a_id = i, a_tenant_id = hst_tenant_id host, a_host_id = Some (hst_id host), a_rule_id = SILENCE_RULE_ID,
      a_severity = HIGH, a_action_taken = ALERT, a_state = NEW,
      a_summary = ''Agent silent for '' @ show_int silence_seconds @ ''s on '' @ hst_hostname host,
      a_details = PDict [(''hostname'', PStr (hst_hostname host)), (''last_seen_at'', PStr (isoformat last_seen)),
        (''silence_seconds'', PInt silence_seconds), (''threshold_seconds'', PInt threshold),
        (''host_status_at_detect'', PStr (host_status_value (hst_status host))), (''detector'', PStr ''silence_v1'')],
      a_mitre = None, a_opened_at = now, a_closed_at = None, a_assignee_id = None, a_incident_id = None,
      a_dedup_key = None, a_occurrence_count = 1, a_last_occurred_at = now\<rparr>"

definition fire_alert :: "int \<Rightarrow> datetime \<Rightarrow> AgentHost \<Rightarrow> datetime \<Rightarrow> fleet \<Rightarrow> fleet" where
  "fire_alert threshold now host last_seen db =
     db\<lparr>fl_alerts := fl_alerts db @ [silence_alert threshold now (fl_next db) host last_seen (whole_seconds (now - last_seen))],
        fl_next := fl_next db + 1\<rparr>"

text \<open>The body of the loop over the hosts; \<open>latched\<close> is \<open>_open_alerts\<close>.\<close>

definition check_silence :: "int \<Rightarrow> datetime \<Rightarrow> AgentHost \<Rightarrow> fleet \<times> uuid list \<Rightarrow> fleet \<times> uuid list" where
  "check_silence threshold now host st = (case st of (db, latched) \<Rightarrow>
     (case hst_last_seen_at host of
        None \<Rightarrow> (db, latched)
      | Some last_seen \<Rightarrow>
          (let is_silent = last_seen < now - seconds threshold in
           if is_silent \<and> hst_id host \<notin> set latched
           then (fire_alert threshold now host last_seen db, hst_id host # latched)
           else if \<not> is_silent \<and> hst_id host \<in> set latched
           then (db, filter (\<lambda>i. i \<noteq> hst_id host) latched)
           else (db, latched))))"

definition watched :: "AgentHost \<Rightarrow> bool" where
  "watched h \<longleftrightarrow> hst_status h = ONLINE \<and> hst_last_seen_at h \<noteq> None"

text \<open>A failed commit loses the alerts of the tick, while the latch in memory stays.\<close>

definition silence_tick :: "int \<Rightarrow> datetime \<Rightarrow> bool \<Rightarrow> fleet \<times> uuid list \<Rightarrow> fleet \<times> uuid list" where
  "silence_tick threshold now commits st =
     (case fold (check_silence threshold now) (filter watched (fl_hosts (fst st))) st of
        (db', latched') \<Rightarrow> ((if commits then db' else fst st), latched'))"

end
