(* ===== verification/Agent_Stream_Correct.thy ===== *)
theory Agent_Stream_Correct
  imports Agent_Stream Enrollment_Correct Jobs_Correct
begin

text \<open>
  Properties of the agent stream: the ingest limit as an arrival curve, admission after enrollment and after
  a decommission, attestation against its baseline, and one alert for each episode of silence.
\<close>

section \<open>The token bucket\<close>

definition limit_ok :: "ingest_limit \<Rightarrow> bool" where
  "limit_ok il \<longleftrightarrow> 0 \<le> il_rate il \<and> 0 \<le> il_burst il"

text \<open>The tokens that are there at time \<open>t\<close>.\<close>

definition level :: "ingest_limit \<Rightarrow> HostBucket \<Rightarrow> rat \<Rightarrow> rat" where
  "level il b t = (if hb_last b = 0 then hb_tokens b
     else min (of_int (il_burst il)) (hb_tokens b + (t - hb_last b) * of_int (il_rate il)))"

definition bucket_ok :: "ingest_limit \<Rightarrow> rat \<Rightarrow> HostBucket \<Rightarrow> bool" where
  "bucket_ok il t b \<longleftrightarrow> 0 \<le> hb_last b \<and> hb_last b \<le> t \<and> 0 \<le> hb_tokens b \<and> hb_tokens b \<le> of_int (il_burst il) \<and>
     (hb_last b = 0 \<longrightarrow> hb_tokens b = of_int (il_burst il))"

lemma new_bucket_ok: "limit_ok il \<Longrightarrow> 0 \<le> t \<Longrightarrow> bucket_ok il t (new_bucket il)"
  by (simp add: bucket_ok_def new_bucket_def limit_ok_def)

lemma new_bucket_level [simp]: "level il (new_bucket il) t = of_int (il_burst il)"
  by (simp add: level_def new_bucket_def)

lemma bucket_ok_mono: "bucket_ok il t b \<Longrightarrow> t \<le> t' \<Longrightarrow> bucket_ok il t' b"
  by (simp add: bucket_ok_def)

lemma level_bounds:
  assumes "limit_ok il" "bucket_ok il t b"
  shows "0 \<le> level il b t" "level il b t \<le> of_int (il_burst il)"
  using assms by (auto simp: level_def bucket_ok_def limit_ok_def min_def intro!: add_nonneg_nonneg)

lemma level_grows:
  assumes "limit_ok il" "t \<le> t'"
  shows "level il b t' \<le> level il b t + (t' - t) * of_int (il_rate il)"
proof -
  have "0 \<le> (t' - t) * of_int (il_rate il)" using assms by (simp add: limit_ok_def)
  moreover have "(t' - hb_last b) * of_int (il_rate il) = (t - hb_last b) * of_int (il_rate il) + (t' - t) * of_int (il_rate il)"
    by (simp add: algebra_simps)
  ultimately show ?thesis by (auto simp: level_def min_def)
qed

lemma level_at:
  assumes "limit_ok il" "bucket_ok il t b" "t \<le> t'"
  shows "level il b t' = min (of_int (il_burst il)) (level il b t + (t' - t) * of_int (il_rate il))"
proof -
  have "0 \<le> (t' - t) * of_int (il_rate il)" using assms by (simp add: limit_ok_def)
  moreover have "(t' - hb_last b) * of_int (il_rate il) = (t - hb_last b) * of_int (il_rate il) + (t' - t) * of_int (il_rate il)"
    by (simp add: algebra_simps)
  ultimately show ?thesis using assms(2) by (auto simp: level_def bucket_ok_def min_def)
qed

lemma refill_level:
  assumes "limit_ok il" "bucket_ok il now b" "0 < now"
  shows "hb_tokens (refill il now b) = level il b now" "hb_last (refill il now b) = now"
  using assms by (auto simp: refill_def level_def bucket_ok_def Let_def min_def)

lemma admit_effect:
  assumes "limit_ok il" "bucket_ok il now b" "0 < now" "0 \<le> want" "admit il now want b = (b', granted)"
  shows "granted = min \<lfloor>level il b now\<rfloor> want" "level il b' now = level il b now - of_int granted" "bucket_ok il now b'"
    "0 \<le> granted" "granted \<le> want"
proof -
  note r = refill_level [OF assms(1-3)]
  note l = level_bounds [OF assms(1,2)]
  have g: "granted = min \<lfloor>level il b now\<rfloor> want" and b': "b' = (refill il now b)\<lparr>hb_tokens := level il b now - of_int granted\<rparr>"
    using assms(5) r l by (auto simp: admit_def Let_def float_to_int_def)
  show "granted = min \<lfloor>level il b now\<rfloor> want" by (fact g)
  show "0 \<le> granted" "granted \<le> want" using g l(1) assms(4) by auto
  have le: "of_int granted \<le> level il b now" using g by linarith
  with \<open>0 \<le> granted\<close> l show "level il b' now = level il b now - of_int granted" "bucket_ok il now b'"
    using assms(3) r(2) by (auto simp: b' level_def bucket_ok_def)
qed

lemma admit_all:
  assumes "limit_ok il" "bucket_ok il now b" "0 < now" "0 \<le> want" "of_int want \<le> level il b now"
    "admit il now want b = (b', granted)"
  shows "granted = want"
  using admit_effect(1) [OF assms(1-4) assms(6)] assms(5) by (simp add: le_floor_iff)

section \<open>Ingest over a stream\<close>

definition host_bucket_of :: "'cert stream_env \<Rightarrow> uuid \<Rightarrow> manager \<Rightarrow> HostBucket" where
  "host_bucket_of sv i m = (case map_of (mg_buckets m) (uuid_str i) of Some b \<Rightarrow> b | None \<Rightarrow> new_bucket (sv_limit sv))"

fun batch_of :: "datetime \<times> rat \<times> ClientMessage \<Rightarrow> WireEvent list" where
  "batch_of (now, clk, Events evs) = evs"
| "batch_of (now, clk, _) = []"

definition clock_of :: "datetime \<times> rat \<times> ClientMessage \<Rightarrow> rat" where
  "clock_of msg = fst (snd msg)"

definition raw_records :: "'cert stream_env \<Rightarrow> kafka_record list \<Rightarrow> nat" where
  "raw_records sv rs = length (filter (\<lambda>r. kr_topic r = sv_topic_raw sv) rs)"

lemma raw_records_append [simp]: "raw_records sv (xs @ ys) = raw_records sv xs + raw_records sv ys"
  by (simp add: raw_records_def)

lemma raw_event_sends:
  "sv_topic_raw sv \<noteq> sv_topic_auth sv \<Longrightarrow> raw_records sv (event_sends sv i ev) = 1"
  by (simp add: raw_records_def event_sends_def)

lemma raw_sends:
  "sv_topic_raw sv \<noteq> sv_topic_auth sv \<Longrightarrow> raw_records sv (concat (map (event_sends sv i) evs)) = length evs"
  by (induction evs) (simp_all add: raw_event_sends, simp add: raw_records_def)

lemma raw_records_filter: "raw_records sv (filter P rs) \<le> raw_records sv rs"
  by (induction rs) (auto simp: raw_records_def)

lemma handle_events_effect:
  assumes "handle_events sv clk i evs m = (m', ex)" "evs \<noteq> []"
  obtains b' granted where "admit (sv_limit sv) clk (int (length evs)) (host_bucket_of sv i m) = (b', granted)" "host_bucket_of sv i m' = b'"
    "mg_kafka m' = mg_kafka m @ filter (sv_kafka_accepts sv) (concat (map (event_sends sv i) (take (nat granted) evs)))"
    "(\<And>r. sv_kafka_accepts sv r) \<Longrightarrow> ex = None"
proof -
  obtain b' granted where a: "admit (sv_limit sv) clk (int (length evs)) (host_bucket_of sv i m) = (b', granted)" by fastforce
  show thesis
    by (rule that [OF a])
      (use assms a in \<open>auto simp: handle_events_def host_bucket_of_def Let_def update_conv' list_all_iff split: prod.splits if_splits\<close>)
qed

text \<open>The other messages touch neither buckets nor Kafka.\<close>

lemma update_agent_host_ingest [simp]:
  "mg_buckets (update_agent_host i f m) = mg_buckets m" "mg_kafka (update_agent_host i f m) = mg_kafka m"
  by (simp_all add: update_agent_host_def)

lemma manager_audit_ingest [simp]:
  "mg_buckets (manager_audit rq m) = mg_buckets m" "mg_kafka (manager_audit rq m) = mg_kafka m"
  by (simp_all add: manager_audit_def)

definition same_ingest :: "manager \<Rightarrow> manager \<Rightarrow> bool" where
  "same_ingest m m' \<longleftrightarrow> mg_buckets m' = mg_buckets m \<and> mg_kafka m' = mg_kafka m"

lemma heartbeat_ingest: "same_ingest m (fst (handle_heartbeat now i t m))"
  by (simp add: same_ingest_def handle_heartbeat_def split: option.split)

lemma hello_ingest: "same_ingest m (fst (handle_hello i pv caps m))"
  by (simp add: same_ingest_def handle_hello_def)

lemma artifact_ingest: "same_ingest m (fst (handle_job_artifact sv i report m))"
  by (simp add: same_ingest_def handle_job_artifact_def Let_def split: option.split)

lemma hit_ingest: "same_ingest m (fst (handle_honeytoken_hit now i tok pid ex secs nanos m))"
  by (simp add: same_ingest_def handle_honeytoken_hit_def split: option.split sum.split)

lemma attestation_ingest: "same_ingest m (fst (handle_tpm_attestation av now i p m))"
  by (simp add: same_ingest_def handle_tpm_attestation_def record_event_def Let_def split: option.split prod.split)

lemmas handlers_ingest = heartbeat_ingest hello_ingest artifact_ingest hit_ingest attestation_ingest

lemma keeping_fst [simp]: "fst (keeping t r) = fst r"
  by (auto simp: keeping_def split: prod.splits option.splits)

lemma consume_one_other:
  assumes "batch_of msg = []"
  shows "same_ingest m (fst (consume_one sv i msg (m, t)))"
proof -
  obtain now clk c where msg: "msg = (now, clk, c)" by (cases msg) auto
  show ?thesis using assms
    by (cases c) (auto simp: msg handlers_ingest, simp_all add: same_ingest_def handle_events_def on_jobs_def)
qed

lemma consume_one_events:
  assumes "batch_of msg \<noteq> []"
  shows "consume_one sv i msg (m, t) = keeping t (handle_events sv (clock_of msg) i (batch_of msg) m)"
  using assms by (cases msg rule: batch_of.cases) (simp_all add: clock_of_def)

lemma same_ingest_bucket: "same_ingest m m' \<Longrightarrow> host_bucket_of sv i m' = host_bucket_of sv i m"
  by (simp add: same_ingest_def host_bucket_of_def)

text \<open>One message: what it sends is paid from the bucket.\<close>

lemma consume_one_paid:
  assumes "limit_ok (sv_limit sv)" "bucket_ok (sv_limit sv) (clock_of msg) (host_bucket_of sv i m)" "0 < clock_of msg"
    "sv_topic_raw sv \<noteq> sv_topic_auth sv" "consume_one sv i msg (m, t) = (m', r)"
  shows "\<exists>recs. mg_kafka m' = mg_kafka m @ recs \<and>
    of_nat (raw_records sv recs) \<le> level (sv_limit sv) (host_bucket_of sv i m) (clock_of msg) - level (sv_limit sv) (host_bucket_of sv i m') (clock_of msg) \<and>
    bucket_ok (sv_limit sv) (clock_of msg) (host_bucket_of sv i m')"
proof (cases "batch_of msg = []")
  case True
  have "same_ingest m m'" using consume_one_other [OF True, of m sv i t] assms(5) by simp
  then show ?thesis using assms(2) by (simp add: same_ingest_bucket) (simp add: same_ingest_def raw_records_def)
next
  case False
  have "m' = fst (handle_events sv (clock_of msg) i (batch_of msg) m)"
    using assms(5) by (metis False consume_one_events fst_conv keeping_fst)
  then obtain ex where "handle_events sv (clock_of msg) i (batch_of msg) m = (m', ex)" by (metis prod.collapse)
  from handle_events_effect [OF this False] obtain b' granted where
    adm: "admit (sv_limit sv) (clock_of msg) (int (length (batch_of msg))) (host_bucket_of sv i m) = (b', granted)"
    and b': "host_bucket_of sv i m' = b'"
    and k: "mg_kafka m' = mg_kafka m @ filter (sv_kafka_accepts sv) (concat (map (event_sends sv i) (take (nat granted) (batch_of msg))))"
    by blast
  note e = admit_effect [OF assms(1-3) _ adm]
  let ?recs = "filter (sv_kafka_accepts sv) (concat (map (event_sends sv i) (take (nat granted) (batch_of msg))))"
  have "raw_records sv ?recs \<le> nat granted"
    using raw_records_filter [of sv "sv_kafka_accepts sv" "concat (map (event_sends sv i) (take (nat granted) (batch_of msg)))"]
    by (simp add: raw_sends [OF assms(4)])
  then have "(of_nat (raw_records sv ?recs) :: rat) \<le> of_nat (nat granted)" by (simp only: of_nat_le_iff)
  also have "\<dots> = level (sv_limit sv) (host_bucket_of sv i m) (clock_of msg) - level (sv_limit sv) b' (clock_of msg)"
    using e(2,4) by simp
  finally show ?thesis using k e(3) b' by (intro exI [of _ ?recs]) simp
qed

text \<open>A whole stream.\<close>

fun clocks_from :: "rat \<Rightarrow> (datetime \<times> rat \<times> ClientMessage) list \<Rightarrow> bool" where
  "clocks_from t [] = True"
| "clocks_from t (msg # msgs) = (t \<le> clock_of msg \<and> clocks_from (clock_of msg) msgs)"

definition end_clock :: "rat \<Rightarrow> (datetime \<times> rat \<times> ClientMessage) list \<Rightarrow> rat" where
  "end_clock t msgs = (case msgs of [] \<Rightarrow> t | _ \<Rightarrow> clock_of (List.last msgs))"

lemma end_clock_Cons [simp]: "end_clock t (msg # msgs) = end_clock (clock_of msg) msgs"
  by (cases msgs) (simp_all add: end_clock_def)

lemma end_clock_ge: "clocks_from t msgs \<Longrightarrow> t \<le> end_clock t msgs"
  by (induction msgs arbitrary: t) (simp add: end_clock_def, fastforce)

lemma consume_client_paid:
  assumes "limit_ok (sv_limit sv)" "sv_topic_raw sv \<noteq> sv_topic_auth sv"
    "bucket_ok (sv_limit sv) clk (host_bucket_of sv i m)" "0 < clk" "clocks_from clk msgs" "consume_client sv i msgs (m, t) = (m', r)"
  shows "\<exists>recs. mg_kafka m' = mg_kafka m @ recs \<and>
    of_nat (raw_records sv recs) \<le> level (sv_limit sv) (host_bucket_of sv i m) clk + (end_clock clk msgs - clk) * of_int (il_rate (sv_limit sv))"
  using assms(3-6)
proof (induction msgs arbitrary: clk m t)
  case Nil
  then show ?case using level_bounds(1) [OF assms(1) Nil(1)] by (simp add: end_clock_def raw_records_def)
next
  case (Cons msg msgs)
  let ?il = "sv_limit sv" let ?c = "clock_of msg"
  obtain m1 r1 where one: "consume_one sv i msg (m, t) = (m1, r1)" by fastforce
  have c: "clk \<le> ?c" "0 < ?c" "clocks_from ?c msgs" using Cons.prems by auto
  from consume_one_paid [OF assms(1) bucket_ok_mono [OF Cons.prems(1) c(1)] c(2) assms(2) one] obtain recs1 where
    k1: "mg_kafka m1 = mg_kafka m @ recs1"
    and p1: "of_nat (raw_records sv recs1) \<le> level ?il (host_bucket_of sv i m) ?c - level ?il (host_bucket_of sv i m1) ?c"
    and ok1: "bucket_ok ?il ?c (host_bucket_of sv i m1)" by blast
  have g: "level ?il (host_bucket_of sv i m) ?c \<le> level ?il (host_bucket_of sv i m) clk + (?c - clk) * of_int (il_rate ?il)"
    by (rule level_grows [OF assms(1) c(1)])
  have "\<exists>recs2. mg_kafka m' = mg_kafka m1 @ recs2 \<and>
      of_nat (raw_records sv recs2) \<le> level ?il (host_bucket_of sv i m1) ?c + (end_clock ?c msgs - ?c) * of_int (il_rate ?il)"
  proof (cases r1)
    case (Inl e)
    then have "m' = m1" using Cons.prems(4) one by simp
    moreover have "0 \<le> (end_clock ?c msgs - ?c) * of_int (il_rate ?il)"
      using end_clock_ge [OF c(3)] assms(1) by (simp add: limit_ok_def)
    ultimately show ?thesis using level_bounds(1) [OF assms(1) ok1] by (simp add: raw_records_def)
  next
    case (Inr t1)
    then show ?thesis using Cons.IH [OF ok1 c(2,3), of t1] Cons.prems(4) one by simp
  qed
  then obtain recs2 where "mg_kafka m' = mg_kafka m1 @ recs2"
    "of_nat (raw_records sv recs2) \<le> level ?il (host_bucket_of sv i m1) ?c + (end_clock ?c msgs - ?c) * of_int (il_rate ?il)" by blast
  then show ?case using k1 p1 g by (intro exI [of _ "recs1 @ recs2"]) (simp add: algebra_simps)
qed

section \<open>Streams within their limit\<close>

text \<open>No window of consecutive messages holds more events than the burst and the refill over its length.\<close>

definition events_in :: "(datetime \<times> rat \<times> ClientMessage) list \<Rightarrow> WireEvent list" where
  "events_in msgs = concat (map batch_of msgs)"

definition conforms :: "ingest_limit \<Rightarrow> (datetime \<times> rat \<times> ClientMessage) list \<Rightarrow> bool" where
  "conforms il msgs \<longleftrightarrow> (\<forall>xs ys zs. msgs = xs @ ys @ zs \<longrightarrow> ys \<noteq> [] \<longrightarrow>
     of_nat (length (events_in ys)) \<le> of_int (il_burst il) + (clock_of (List.last ys) - clock_of (hd ys)) * of_int (il_rate il))"

definition affordable :: "ingest_limit \<Rightarrow> rat \<Rightarrow> rat \<Rightarrow> (datetime \<times> rat \<times> ClientMessage) list \<Rightarrow> bool" where
  "affordable il l t msgs \<longleftrightarrow> (\<forall>ys zs. msgs = ys @ zs \<longrightarrow>
     of_nat (length (events_in ys)) \<le> l + (end_clock t ys - t) * of_int (il_rate il))"

lemma events_in_simps [simp]: "events_in [] = []" "events_in (msg # msgs) = batch_of msg @ events_in msgs"
  by (simp_all add: events_in_def)

lemma conforms_Cons: "conforms il (msg # msgs) \<Longrightarrow> conforms il msgs"
  unfolding conforms_def by (metis append_Cons)

lemma conforms_prefix:
  assumes "conforms il (msg # ys @ zs)"
  shows "of_nat (length (batch_of msg) + length (events_in ys)) \<le>
    of_int (il_burst il) + (end_clock (clock_of msg) ys - clock_of msg) * of_int (il_rate il)"
proof -
  have "of_nat (length (events_in (msg # ys))) \<le>
      of_int (il_burst il) + (clock_of (List.last (msg # ys)) - clock_of (hd (msg # ys))) * of_int (il_rate il)"
    using assms unfolding conforms_def by (metis append_Cons append_Nil list.distinct(1))
  moreover have "clock_of (List.last (msg # ys)) = end_clock (clock_of msg) ys" by (cases ys) (simp_all add: end_clock_def)
  ultimately show ?thesis by simp
qed

lemma affordable_step:
  assumes "affordable il l t (msg # msgs)" "conforms il (msg # msgs)"
    and l': "l' = min (of_int (il_burst il)) (l + (clock_of msg - t) * of_int (il_rate il))"
  shows "of_nat (length (batch_of msg)) \<le> l'" "affordable il (l' - of_nat (length (batch_of msg))) (clock_of msg) msgs"
proof -
  have a: "of_nat (length (batch_of msg) + length (events_in ys)) \<le> l + (end_clock (clock_of msg) ys - t) * of_int (il_rate il)"
    if "msgs = ys @ zs" for ys zs
    using assms(1) [unfolded affordable_def, rule_format, of "msg # ys" zs] that by simp
  have c: "of_nat (length (batch_of msg) + length (events_in ys)) \<le>
      of_int (il_burst il) + (end_clock (clock_of msg) ys - clock_of msg) * of_int (il_rate il)" if "msgs = ys @ zs" for ys zs
    using conforms_prefix assms(2) that by blast
  show "of_nat (length (batch_of msg)) \<le> l'" using a [of "[]"] c [of "[]"] by (simp add: l' end_clock_def)
  show "affordable il (l' - of_nat (length (batch_of msg))) (clock_of msg) msgs"
    unfolding affordable_def
  proof (intro allI impI)
    fix ys zs assume "msgs = ys @ zs"
    with a c have "of_nat (length (batch_of msg) + length (events_in ys)) \<le> l + (end_clock (clock_of msg) ys - t) * of_int (il_rate il)"
      "of_nat (length (batch_of msg) + length (events_in ys)) \<le>
        of_int (il_burst il) + (end_clock (clock_of msg) ys - clock_of msg) * of_int (il_rate il)" by blast+
    then show "of_nat (length (events_in ys)) \<le>
        l' - of_nat (length (batch_of msg)) + (end_clock (clock_of msg) ys - clock_of msg) * of_int (il_rate il)"
      by (auto simp: l' min_def algebra_simps)
  qed
qed

lemma consume_one_lossless:
  assumes "limit_ok (sv_limit sv)" "bucket_ok (sv_limit sv) (clock_of msg) (host_bucket_of sv i m)" "0 < clock_of msg"
    "\<And>r. sv_kafka_accepts sv r" "of_nat (length (batch_of msg)) \<le> level (sv_limit sv) (host_bucket_of sv i m) (clock_of msg)"
    "consume_one sv i msg (m, t) = (m', r)"
  shows "mg_kafka m' = mg_kafka m @ concat (map (event_sends sv i) (batch_of msg))"
    "level (sv_limit sv) (host_bucket_of sv i m') (clock_of msg) =
       level (sv_limit sv) (host_bucket_of sv i m) (clock_of msg) - of_nat (length (batch_of msg))"
    "bucket_ok (sv_limit sv) (clock_of msg) (host_bucket_of sv i m')"
proof -
  have "mg_kafka m' = mg_kafka m @ concat (map (event_sends sv i) (batch_of msg)) \<and>
    level (sv_limit sv) (host_bucket_of sv i m') (clock_of msg) =
       level (sv_limit sv) (host_bucket_of sv i m) (clock_of msg) - of_nat (length (batch_of msg)) \<and>
    bucket_ok (sv_limit sv) (clock_of msg) (host_bucket_of sv i m')"
  proof (cases "batch_of msg = []")
    case True
    have "same_ingest m m'" using consume_one_other [OF True, of m sv i t] assms(6) by simp
    then show ?thesis using assms(2) True by (simp add: same_ingest_bucket) (simp add: same_ingest_def)
  next
    case False
    have "m' = fst (handle_events sv (clock_of msg) i (batch_of msg) m)"
      using assms(6) by (metis False consume_one_events fst_conv keeping_fst)
    then obtain ex where "handle_events sv (clock_of msg) i (batch_of msg) m = (m', ex)" by (metis prod.collapse)
    from handle_events_effect [OF this False] obtain b' granted where
      adm: "admit (sv_limit sv) (clock_of msg) (int (length (batch_of msg))) (host_bucket_of sv i m) = (b', granted)"
      and b': "host_bucket_of sv i m' = b'"
      and k: "mg_kafka m' = mg_kafka m @ filter (sv_kafka_accepts sv) (concat (map (event_sends sv i) (take (nat granted) (batch_of msg))))"
      by blast
    have "granted = int (length (batch_of msg))" using admit_all [OF assms(1-3) _ _ adm] assms(5) by simp
    then show ?thesis using k b' admit_effect(2,3) [OF assms(1-3) _ adm] assms(4) by simp
  qed
  then show "mg_kafka m' = mg_kafka m @ concat (map (event_sends sv i) (batch_of msg))"
    "level (sv_limit sv) (host_bucket_of sv i m') (clock_of msg) =
       level (sv_limit sv) (host_bucket_of sv i m) (clock_of msg) - of_nat (length (batch_of msg))"
    "bucket_ok (sv_limit sv) (clock_of msg) (host_bucket_of sv i m')" by blast+
qed

lemma consume_client_lossless:
  assumes "limit_ok (sv_limit sv)" "\<And>r. sv_kafka_accepts sv r"
    "bucket_ok (sv_limit sv) clk (host_bucket_of sv i m)" "0 < clk" "clocks_from clk msgs" "conforms (sv_limit sv) msgs"
    "affordable (sv_limit sv) (level (sv_limit sv) (host_bucket_of sv i m) clk) clk msgs" "consume_client sv i msgs (m, t) = (m', Inr t')"
  shows "mg_kafka m' = mg_kafka m @ concat (map (event_sends sv i) (events_in msgs))"
  using assms(3-8)
proof (induction msgs arbitrary: clk m t)
  case Nil
  then show ?case by simp
next
  case (Cons msg msgs)
  let ?il = "sv_limit sv" let ?c = "clock_of msg"
  have c: "clk \<le> ?c" "0 < ?c" "clocks_from ?c msgs" using Cons.prems by auto
  obtain m1 t1 where one: "consume_one sv i msg (m, t) = (m1, Inr t1)" and rest: "consume_client sv i msgs (m1, t1) = (m', Inr t')"
    using Cons.prems(6) by (auto split: prod.splits sum.splits)
  note st = affordable_step [OF Cons.prems(5,4) level_at [OF assms(1) Cons.prems(1) c(1)]]
  note l = consume_one_lossless [OF assms(1) bucket_ok_mono [OF Cons.prems(1) c(1)] c(2) assms(2) st(1) one]
  have "affordable ?il (level ?il (host_bucket_of sv i m1) ?c) ?c msgs" using st(2) by (simp only: l(2))
  with Cons.IH [OF l(3) c(2,3) conforms_Cons [OF Cons.prems(4)] _ rest] l(1) show ?case by simp
qed

lemma conforms_affordable:
  assumes "conforms il msgs" "limit_ok il" "clocks_from clk msgs"
  shows "affordable il (of_int (il_burst il)) clk msgs"
proof (unfold affordable_def, intro allI impI)
  fix ys zs assume "msgs = ys @ zs"
  with assms show "of_nat (length (events_in ys)) \<le> of_int (il_burst il) + (end_clock clk ys - clk) * of_int (il_rate il)"
  proof (cases ys)
    case Nil
    then show ?thesis using assms(2) by (simp add: limit_ok_def end_clock_def)
  next
    case (Cons y ys')
    have "of_nat (length (events_in ys)) \<le> of_int (il_burst il) + (end_clock (clock_of y) ys' - clock_of y) * of_int (il_rate il)"
      using conforms_prefix [of il y ys' zs] assms(1) \<open>msgs = ys @ zs\<close> Cons by simp
    moreover have "clk \<le> clock_of y" using assms(3) \<open>msgs = ys @ zs\<close> Cons by simp
    then have "(end_clock (clock_of y) ys' - clock_of y) * of_int (il_rate il) \<le> (end_clock (clock_of y) ys' - clk) * of_int (il_rate il)"
      using assms(2) by (intro mult_right_mono) (simp_all add: limit_ok_def)
    ultimately show ?thesis by (simp add: Cons)
  qed
qed

text \<open>C32: A stream of a host sends to the raw topic at most the burst and the refill over the time its messages
  span, whatever the agent sends and whichever sends fail; and an agent whose every window of consecutive
  batches stays within burst and refill loses nothing: all its events are forwarded, in order, and the
  authentication events a second time.\<close>

theorem ingest_limit_exact:
  assumes "limit_ok (sv_limit sv)" "sv_topic_raw sv \<noteq> sv_topic_auth sv" "map_of (mg_buckets m) (uuid_str i) = None"
    "0 < clk" "clocks_from clk msgs" "consume_client sv i msgs (m, t) = (m', r)"
  shows "(\<exists>recs. mg_kafka m' = mg_kafka m @ recs \<and>
      of_nat (raw_records sv recs) \<le> of_int (il_burst (sv_limit sv)) + (end_clock clk msgs - clk) * (of_int (il_rate (sv_limit sv)) :: rat)) \<and>
    ((\<forall>k. sv_kafka_accepts sv k) \<longrightarrow> conforms (sv_limit sv) msgs \<longrightarrow> (\<forall>t'. r = Inr t' \<longrightarrow>
      mg_kafka m' = mg_kafka m @ concat (map (event_sends sv i) (events_in msgs))))"
proof -
  have b: "host_bucket_of sv i m = new_bucket (sv_limit sv)" using assms(3) by (simp add: host_bucket_of_def)
  have ok: "bucket_ok (sv_limit sv) clk (host_bucket_of sv i m)" using assms(1,4) by (simp add: b new_bucket_ok)
  have "mg_kafka m' = mg_kafka m @ concat (map (event_sends sv i) (events_in msgs))"
    if "\<forall>k. sv_kafka_accepts sv k" "conforms (sv_limit sv) msgs" "r = Inr t'" for t'
    using consume_client_lossless [OF assms(1) _ ok assms(4,5) that(2), of t m' t'] conforms_affordable [OF that(2) assms(1,5)] assms(6) that
    by (simp add: b)
  with consume_client_paid [OF assms(1,2) ok assms(4-6)] show ?thesis by (simp add: b)
qed

section \<open>Admission\<close>

lemma find_host_id: "find_host i m = Some h \<Longrightarrow> hst_id h = i \<and> h \<in> set (fl_hosts (mg_fleet m))"
  by (auto simp: find_host_def find_Some_iff)

lemma do_enroll_adds:
  assumes "do_enroll ee seed now peer os rq db = Inr (db', host, issued)" "fleet_ok db"
  obtains h where "fl_hosts db' = fl_hosts db @ [h]" "hst_id h = host" "hst_status h = HOST_PENDING"
    "hst_cert_fingerprint h = Some (ic_fingerprint issued)" "ct_common_name (ic_cert issued) = uuid_str host"
    "host = fl_next db" "fl_next db < fl_next db'"
proof -
  from assms(1) obtain db1 token_id tenant where c: "consume_token (ee_sha256 ee) now (er_token rq) db = Some (db1, token_id, tenant)"
    and f: "finish_grpc ee seed now peer os rq token_id tenant db1 = Inr (db', host, issued)"
    by (auto simp: do_enroll_def split: if_splits option.splits)
  have db1: "db1 = mark_used token_id now db" using c by (auto simp: consume_token_def)
  from finish_effect(2) [OF f] obtain src rq' db2 where e: "enroll_host ee seed now src peer rq' token_id tenant db1 = Inr (db2, host, issued)"
    and d: "fl_hosts db' = fl_hosts db2" "fl_next db' = fl_next db2" by blast
  have "fleet_ok db1" using assms(2) by (simp add: fleet_ok_def db1 mark_used_def comp_def image_image if_distrib [of et_id] cong: if_cong)
  note k = enroll_host_contract [OF e this] enroll_host_effect(1,2) [OF e]
  show thesis
    by (rule that [of "(new_host now host tenant rq')\<lparr>hst_cert_fingerprint := Some (ic_fingerprint issued)\<rparr>"])
      (use k d in \<open>auto simp: db1 mark_used_def new_host_def\<close>)
qed

lemma find_new_host: "\<forall>h \<in> set hs. hst_id h \<noteq> i \<Longrightarrow> hst_id n = i \<Longrightarrow> find (\<lambda>h. hst_id h = i) (hs @ [n]) = Some n"
  by (induction hs) auto


section \<open>Decommissioned hosts\<close>

type_synonym open_stream = "string \<times> uuid \<times> datetime"

datatype agent_label = Connected uuid | Messaged uuid | Closed uuid | Edited uuid "HostStatus option" | Deleted uuid | Enrolled uuid | Silently

text \<open>
  The manager with the streams that are open: agents connect, send messages and disconnect, administrators
  edit and delete hosts and baselines, hosts enroll and the silence worker ticks, in any order.
\<close>

inductive agent_step ::
  "'cert stream_env \<Rightarrow> (bytes \<Rightarrow> Certificate option) \<Rightarrow> enroll_env \<Rightarrow> manager \<times> open_stream list \<Rightarrow> agent_label \<Rightarrow> manager \<times> open_stream list \<Rightarrow> bool"
  for sv load_pem ee where
  connect: "host_stream_open load_pem (ee_ca ee) now ctx m = Inr (m', i) \<Longrightarrow> peer_host_id ctx = Some cn \<Longrightarrow>
    agent_step sv load_pem ee (m, ss) (Connected i) (m', (cn, i, now) # ss)"
| message: "(cn, i, t) \<in> set ss \<Longrightarrow> consume_one sv i msg (m, t) = (m', Inr t') \<Longrightarrow>
    agent_step sv load_pem ee (m, ss) (Messaged i) (m', (cn, i, t') # remove1 (cn, i, t) ss)"
| ended: "(cn, i, t) \<in> set ss \<Longrightarrow> consume_one sv i msg (m, t) = (m', Inl e) \<Longrightarrow>
    agent_step sv load_pem ee (m, ss) (Closed i) (host_stream_close cn i m', remove1 (cn, i, t) ss)"
| disconnect: "(cn, i, t) \<in> set ss \<Longrightarrow>
    agent_step sv load_pem ee (m, ss) (Closed i) (host_stream_close cn i m, remove1 (cn, i, t) ss)"
| edit: "update_host i p st actor m = Inr m' \<Longrightarrow> agent_step sv load_pem ee (m, ss) (Edited i st) (m', ss)"
| delete: "delete_host i actor m = Inr m' \<Longrightarrow> agent_step sv load_pem ee (m, ss) (Deleted i) (m', ss)"
| enroll: "do_enroll ee seed now peer os rq (mg_fleet m) = Inr (db', host, issued) \<Longrightarrow>
    agent_step sv load_pem ee (m, ss) (Enrolled host) (m\<lparr>mg_fleet := db'\<rparr>, ss)"
| request: "request_attestation nonce i actor m = Inr (m', c) \<Longrightarrow> agent_step sv load_pem ee (m, ss) Silently (m', ss)"
| promote: "promote_attestation i actor m = Inr m' \<Longrightarrow> agent_step sv load_pem ee (m, ss) Silently (m', ss)"
| tick: "silence_tick threshold now commits (mg_fleet m, latched) = (db', latched') \<Longrightarrow>
    agent_step sv load_pem ee (m, ss) Silently (m\<lparr>mg_fleet := db'\<rparr>, ss)"

inductive agent_run ::
  "'cert stream_env \<Rightarrow> (bytes \<Rightarrow> Certificate option) \<Rightarrow> enroll_env \<Rightarrow> manager \<times> open_stream list \<Rightarrow> agent_label list \<Rightarrow> manager \<times> open_stream list \<Rightarrow> bool"
  for sv load_pem ee s where
  agent_start: "agent_run sv load_pem ee s [] s"
| agent_more: "agent_run sv load_pem ee s ls s' \<Longrightarrow> agent_step sv load_pem ee s' l s'' \<Longrightarrow> agent_run sv load_pem ee s (ls @ [l]) s''"

text \<open>Every row of \<open>i\<close> is decommissioned, and no new host will get its id.\<close>

definition locked_out :: "uuid \<Rightarrow> fleet \<Rightarrow> bool" where
  "locked_out i db \<longleftrightarrow> i < fl_next db \<and> (\<forall>h \<in> set (fl_hosts db). hst_id h = i \<longrightarrow> hst_status h = DECOMMISSIONED)"

text \<open>The hosts changed at most in rows other than \<open>i\<close>, or in other columns.\<close>

definition keeps_status :: "uuid \<Rightarrow> fleet \<Rightarrow> fleet \<Rightarrow> bool" where
  "keeps_status i db db' \<longleftrightarrow> fl_next db \<le> fl_next db' \<and>
     (\<forall>h' \<in> set (fl_hosts db'). hst_id h' = i \<longrightarrow> (\<exists>h \<in> set (fl_hosts db). hst_id h = i \<and> hst_status h = hst_status h'))"

lemma keeps_status_refl [simp]: "keeps_status i db db"
  by (auto simp: keeps_status_def)

lemma keeps_status_locked: "keeps_status i db db' \<Longrightarrow> locked_out i db \<Longrightarrow> locked_out i db'"
  by (fastforce simp: keeps_status_def locked_out_def)

lemma keeps_status_same: "fl_hosts db' = fl_hosts db \<Longrightarrow> fl_next db \<le> fl_next db' \<Longrightarrow> keeps_status i db db'"
  by (auto simp: keeps_status_def)

lemma keeps_status_trans: "keeps_status i db db' \<Longrightarrow> keeps_status i db' db'' \<Longrightarrow> keeps_status i db db''"
  by (fastforce simp: keeps_status_def)

lemma update_agent_host_status:
  assumes "j \<noteq> i \<or> (\<forall>h. hst_status (f h) = hst_status h)" "\<forall>h. hst_id (f h) = hst_id h"
  shows "keeps_status i (mg_fleet m) (mg_fleet (update_agent_host j f m))"
  using assms by (auto simp: keeps_status_def update_agent_host_def)

lemma audit_status [simp]: "keeps_status i db (mg_fleet (manager_audit rq m)) \<longleftrightarrow> keeps_status i db (mg_fleet m)"
  by (simp add: keeps_status_def manager_audit_def fleet_audit_def)

lemma record_event_status: "keeps_status i (mg_fleet m) (mg_fleet (record_event now h cur g m))"
  by (rule keeps_status_same) (auto simp: record_event_def Let_def ensure_rule_def split: prod.split option.split)

lemma consume_one_status:
  assumes "j \<noteq> i"
  shows "keeps_status i (mg_fleet m) (mg_fleet (fst (consume_one sv j msg (m, t))))"
proof -
  obtain now clk c where msg: "msg = (now, clk, c)" by (cases msg) auto
  show ?thesis using assms
    by (cases c) (simp_all add: msg on_jobs_def handle_events_def handle_heartbeat_def handle_hello_def handle_job_artifact_def Let_def
        handle_tpm_attestation_def handle_honeytoken_hit_def update_agent_host_status record_event_status
        split: option.split sum.split prod.split)
qed

lemma close_status: "j \<noteq> i \<Longrightarrow> keeps_status i (mg_fleet m) (mg_fleet (host_stream_close cn j m))"
  by (simp add: host_stream_close_def Let_def update_agent_host_status)

lemma tick_status:
  assumes "silence_tick threshold now commits (db, latched) = (db', latched')"
  shows "keeps_status i db db'"
proof -
  have "fl_hosts (fst (fold (check_silence threshold now) hs st)) = fl_hosts (fst st) \<and> fl_next (fst st) \<le> fl_next (fst (fold (check_silence threshold now) hs st))" for hs st
  proof (induction hs arbitrary: st)
    case (Cons h hs)
    have "fl_hosts (fst (check_silence threshold now h st)) = fl_hosts (fst st) \<and> fl_next (fst st) \<le> fl_next (fst (check_silence threshold now h st))"
      by (auto simp: check_silence_def fire_alert_def Let_def split: prod.split option.split)
    with Cons.IH [of "check_silence threshold now h st"] show ?case by simp
  qed simp
  from this [of "filter watched (fl_hosts db)" "(db, latched)"] assms show ?thesis
    by (auto simp: silence_tick_def intro!: keeps_status_same split: prod.splits if_splits)
qed

lemma update_host_effect:
  assumes "update_host j p st actor m = Inr m'"
  obtains rq where "p = None" "find_host j m \<noteq> None"
    "m' = manager_audit rq (update_agent_host j (\<lambda>h. h\<lparr>hst_status := or_else st (hst_status h)\<rparr>) m)"
proof -
  from assms obtain a h where "RequireAdmin actor = Inr a" "find_host j m = Some h" by (auto simp: update_host_def bindE_eq_Inr split: option.splits)
  with assms that show thesis by (simp add: update_host_def Let_def split: if_splits) (auto simp: bindE_eq_Inr split: if_splits)
qed

lemma update_host_status:
  assumes "update_host j p st actor m = Inr m'" "j \<noteq> i \<or> st = None"
  shows "keeps_status i (mg_fleet m) (mg_fleet m')"
proof -
  obtain rq where "m' = manager_audit rq (update_agent_host j (\<lambda>h. h\<lparr>hst_status := or_else st (hst_status h)\<rparr>) m)"
    using update_host_effect [OF assms(1)] by metis
  then show ?thesis using assms(2) by (auto simp: or_else_def intro!: update_agent_host_status)
qed

lemma delete_host_status:
  assumes "delete_host j actor m = Inr m'"
  shows "keeps_status i (mg_fleet m) (mg_fleet m')"
  using assms by (auto simp: delete_host_def bindE_eq_Inr split: option.splits if_splits) (auto simp: cascade_host_def keeps_status_def Let_def)

lemma request_status: "request_attestation nonce j actor m = Inr (m', c) \<Longrightarrow> keeps_status i (mg_fleet m) (mg_fleet m')"
  by (auto simp: request_attestation_def bindE_eq_Inr Let_def split: option.splits if_splits)

lemma promote_effect:
  assumes "promote_attestation j actor m = Inr m'"
  obtains h latest rq g where "find_host j m = Some h" "latest_event j m = Some latest" "ag_host_id g = j" "ag_pcrs g = ae_pcrs latest"
    "m' = manager_audit rq (m\<lparr>mg_golden := store_golden g (mg_golden m)\<rparr>)"
proof -
  from assms obtain a h where ra: "RequireAdmin actor = Inr a" and h: "find_host j m = Some h"
    by (auto simp: promote_attestation_def bindE_eq_Inr split: option.splits)
  have "hst_id h = j" using find_host_id [OF h] by simp
  moreover from this assms ra h obtain latest where "latest_event j m = Some latest"
    by (auto simp: promote_attestation_def split: if_splits option.splits)
  ultimately show thesis using assms ra h
    by (intro that [of h latest "\<lparr>ag_host_id = j, ag_tenant_id = hst_tenant_id h, ag_pcrs = ae_pcrs latest,
        ag_recorded_by = Some (u_id (actor_user a))\<rparr>"]) (auto simp: promote_attestation_def Let_def split: if_splits)
qed

lemma promote_status: "promote_attestation j actor m = Inr m' \<Longrightarrow> keeps_status i (mg_fleet m) (mg_fleet m')"
  by (erule promote_effect) simp

lemma open_effect:
  assumes "host_stream_open load_pem ce now ctx m = Inr (m', i)"
  obtains h where "find_host i m = Some h" "hst_status h \<noteq> DECOMMISSIONED"
    "m' = update_agent_host i (\<lambda>h. h\<lparr>hst_status := ONLINE, hst_last_seen_at := Some now\<rparr>) m"
  using assms that by (auto simp: host_stream_open_def check_host_admission_def split: option.splits if_splits)

lemma enroll_host_rows:
  assumes "enroll_host ee seed now src ip rq token_id tenant db = Inr (db', host, issued)"
  shows "fl_hosts db' = map (\<lambda>h. if hst_id h = host then h\<lparr>hst_cert_fingerprint := Some (ic_fingerprint issued)\<rparr> else h)
    (fl_hosts db @ [new_host now host tenant rq])"
proof -
  let ?h = "fl_next db"
  let ?db1 = "detect_reenrollment (ee_window ee) (er_hostname rq) (er_os_family rq) ?h now src ip
      (db\<lparr>fl_hosts := fl_hosts db @ [new_host now ?h tenant rq], fl_next := fl_next db + 1\<rparr>)"
  from assms obtain db2 where s: "sign_csr (ee_ca ee) seed now (er_csr_pem rq) ?h (er_hostname rq) ?db1 = Inr (db2, issued)"
    and r: "host = ?h" "db' = bind_token_to_host token_id ?h (set_fingerprint ?h (ic_fingerprint issued) db2)"
    by (auto simp: enroll_host_def Let_def bindE_eq_Inr split: if_splits)
  then show ?thesis using sign_csr_keeps [OF s] by (simp add: bind_token_to_host_def set_fingerprint_def)
qed

lemma enroll_locked:
  assumes "do_enroll ee seed now peer os rq db = Inr (db', host, issued)" "locked_out i db"
  shows "locked_out i db'"
proof -
  from assms(1) obtain db1 token_id tenant where c: "consume_token (ee_sha256 ee) now (er_token rq) db = Some (db1, token_id, tenant)"
    and f: "finish_grpc ee seed now peer os rq token_id tenant db1 = Inr (db', host, issued)"
    by (auto simp: do_enroll_def split: if_splits option.splits)
  have db1: "fl_hosts db1 = fl_hosts db" "fl_next db1 = fl_next db" using c by (auto simp: consume_token_def mark_used_def)
  from finish_effect(2) [OF f] obtain src rq' db2 where e: "enroll_host ee seed now src peer rq' token_id tenant db1 = Inr (db2, host, issued)"
    and d: "fl_hosts db' = fl_hosts db2" "fl_next db' = fl_next db2" by blast
  note k = enroll_host_rows [OF e] enroll_host_effect(1,2) [OF e]
  have "i < fl_next db" using assms(2) by (simp add: locked_out_def)
  then show ?thesis using assms(2) k by (auto simp: locked_out_def d db1 new_host_def split: if_splits)
qed

lemma in_set_remove1D: "x \<in> set (remove1 y xs) \<Longrightarrow> x \<in> set xs"
  by (rule set_mp [OF set_remove1_subset])

definition run_locked :: "uuid \<Rightarrow> manager \<times> open_stream list \<Rightarrow> bool" where
  "run_locked i s \<longleftrightarrow> locked_out i (mg_fleet (fst s)) \<and> (\<forall>x \<in> set (snd s). fst (snd x) \<noteq> i)"

lemma agent_step_locked:
  assumes "agent_step sv load_pem ee s l s'" "run_locked i s" "\<forall>st. l \<noteq> Edited i (Some st)"
  shows "run_locked i s' \<and> l \<noteq> Connected i"
  using assms
proof (induction rule: agent_step.induct)
  case (connect now ctx m m' j cn ss)
  from open_effect [OF connect(1)] obtain h where h: "find_host j m = Some h" "hst_status h \<noteq> DECOMMISSIONED"
    "m' = update_agent_host j (\<lambda>h. h\<lparr>hst_status := ONLINE, hst_last_seen_at := Some now\<rparr>) m" by metis
  have "j \<noteq> i" using find_host_id [OF h(1)] h(2) connect(3) by (auto simp: run_locked_def locked_out_def)
  then have "locked_out i (mg_fleet m')"
    using connect(3) by (auto simp: h(3) run_locked_def intro!: keeps_status_locked [OF update_agent_host_status])
  then show ?case using connect(3) \<open>j \<noteq> i\<close> by (auto simp: run_locked_def)
next
  case (message cn j t ss msg m m' t')
  then have "j \<noteq> i" by (auto simp: run_locked_def)
  have "locked_out i (mg_fleet m')"
    using message keeps_status_locked [OF consume_one_status [OF \<open>j \<noteq> i\<close>, of m sv msg t]] by (simp add: run_locked_def)
  then show ?case using message(3) \<open>j \<noteq> i\<close> by (auto simp: run_locked_def dest: in_set_remove1D)
next
  case (ended cn j t ss msg m m' e)
  then have "j \<noteq> i" by (auto simp: run_locked_def)
  have "locked_out i (mg_fleet m')"
    using ended keeps_status_locked [OF consume_one_status [OF \<open>j \<noteq> i\<close>, of m sv msg t]] by (simp add: run_locked_def)
  then show ?case using ended(3) keeps_status_locked [OF close_status [OF \<open>j \<noteq> i\<close>]] by (auto simp: run_locked_def dest: in_set_remove1D)
next
  case (disconnect cn j t ss m)
  then have "j \<noteq> i" by (auto simp: run_locked_def)
  then show ?case using disconnect(2) keeps_status_locked [OF close_status] by (auto simp: run_locked_def dest: in_set_remove1D)
next
  case (edit j p st actor m m' ss)
  then have "j \<noteq> i \<or> st = None" by (cases st) auto
  from keeps_status_locked [OF update_host_status [OF edit(1) this]] edit(2) show ?case by (simp add: run_locked_def)
qed (auto simp: run_locked_def intro: enroll_locked keeps_status_locked [OF delete_host_status] keeps_status_locked [OF request_status]
    keeps_status_locked [OF promote_status] keeps_status_locked [OF tick_status])


text \<open>The end of a stream readmits a host that was decommissioned while connected.\<close>

lemma decommission_undone_by_close:
  assumes "find_host i m = Some h" "peer_host_id ctx = Some cn" "uuid_of_str cn = Some i"
    "peer_cert_fingerprint load_pem ce ctx = hst_cert_fingerprint h"
  shows "\<exists>m'. host_stream_open load_pem ce now ctx (host_stream_close cn i m) = Inr (m', i)"
proof -
  have "find_host i (host_stream_close cn i m) = Some (h\<lparr>hst_status := OFFLINE\<rparr>)"
  proof -
    have "find (\<lambda>h. hst_id h = i) (map (\<lambda>h. if hst_id h = i then h\<lparr>hst_status := OFFLINE\<rparr> else h) hs) =
        map_option (\<lambda>h. h\<lparr>hst_status := OFFLINE\<rparr>) (find (\<lambda>h. hst_id h = i) hs)" for hs :: "AgentHost list"
      by (induction hs) auto
    then show ?thesis using assms(1) by (simp add: find_host_def host_stream_close_def update_agent_host_def Let_def)
  qed
  then show ?thesis using assms(2-4) by (simp add: host_stream_open_def check_host_admission_def split: option.split)
qed

text \<open>Telemetry does not count as a sign of life: only a heartbeat writes \<open>last_seen_at\<close>.\<close>

lemma events_leave_hosts: "mg_fleet (fst (consume_one sv i (now, clk, Events evs) (m, t))) = mg_fleet m"
  by (simp add: handle_events_def Let_def split: prod.split)

section \<open>Attestation\<close>

text \<open>The digest a report has for a bank and an index: that of its last such entry.\<close>

definition digest_of :: "Pcr list \<Rightarrow> string \<times> int \<Rightarrow> string option" where
  "digest_of pcrs = map_of (rev (map (\<lambda>p. ((pcr_bank p, pcr_index p), pcr_digest_hex p)) pcrs))"

lemma map_of_pcr_map: "map_of (pcr_map pcrs) = digest_of pcrs"
proof -
  have "map_of (foldl (\<lambda>d p. AList.update (pcr_bank p, pcr_index p) (pcr_digest_hex p) d) d pcrs) =
      map_of d ++ map_of (rev (map (\<lambda>p. ((pcr_bank p, pcr_index p), pcr_digest_hex p)) pcrs))" for d
    by (induction pcrs arbitrary: d) (simp_all add: update_conv' map_add_def fun_eq_iff split: option.split)
  from this [of "[]"] show ?thesis by (simp add: pcr_map_def digest_of_def)
qed

lemma distinct_pcr_map: "distinct (map fst (pcr_map pcrs))"
proof -
  have "distinct (map fst d) \<Longrightarrow> distinct (map fst (foldl (\<lambda>d p. AList.update (pcr_bank p, pcr_index p) (pcr_digest_hex p) d) d pcrs))" for d
    by (induction pcrs arbitrary: d) (simp_all add: distinct_update)
  then show ?thesis by (simp add: pcr_map_def)
qed

lemma in_pcr_map: "(k, d) \<in> set (pcr_map pcrs) \<longleftrightarrow> digest_of pcrs k = Some d"
  using map_of_eq_Some_iff [OF distinct_pcr_map] by (simp add: map_of_pcr_map)

lemma compare_exact:
  assumes "ag_pcrs g \<noteq> []" "compare_to_golden (Some g) current = (matches, dv)"
  shows "sorted dv" "distinct dv" "matches \<longleftrightarrow> dv = []"
    "x \<in> set dv \<longleftrightarrow> (\<exists>bank. digest_of current (bank, x) \<noteq> digest_of (ag_pcrs g) (bank, x))"
proof -
  let ?ch = "map (\<lambda>(k, d). snd k) (filter (\<lambda>(k, d). digest_of (ag_pcrs g) k \<noteq> Some d) (pcr_map current))"
  let ?mi = "map (\<lambda>(k, d). snd k) (filter (\<lambda>(k, d). digest_of current k = None) (pcr_map (ag_pcrs g)))"
  have dv: "dv = sort (remdups (?ch @ ?mi))" and m: "matches \<longleftrightarrow> dv = []"
    using assms by (auto simp: compare_to_golden_def Let_def map_of_pcr_map)
  show "sorted dv" "distinct dv" by (simp_all add: dv)
  show "matches \<longleftrightarrow> dv = []" by (fact m)
  have ch: "x \<in> set ?ch \<longleftrightarrow> (\<exists>bank d. digest_of current (bank, x) = Some d \<and> digest_of (ag_pcrs g) (bank, x) \<noteq> Some d)"
    by (force simp: in_pcr_map)
  have mi: "x \<in> set ?mi \<longleftrightarrow> (\<exists>bank d. digest_of (ag_pcrs g) (bank, x) = Some d \<and> digest_of current (bank, x) = None)"
    by (force simp: in_pcr_map)
  have "x \<in> set dv \<longleftrightarrow> x \<in> set ?ch \<or> x \<in> set ?mi" unfolding dv set_sort set_remdups set_append by blast
  then show "x \<in> set dv \<longleftrightarrow> (\<exists>bank. digest_of current (bank, x) \<noteq> digest_of (ag_pcrs g) (bank, x))"
    unfolding ch mi by (metis not_Some_eq)
qed

lemma find_stored_golden: "find (\<lambda>x. ag_host_id x = ag_host_id g) (store_golden g gs) = Some g"
proof (cases "list_ex (\<lambda>x. ag_host_id x = ag_host_id g) gs")
  case True
  then have "find (\<lambda>x. ag_host_id x = ag_host_id g) (map (\<lambda>x. if ag_host_id x = ag_host_id g then g else x) gs) = Some g"
    by (induction gs) auto
  then show ?thesis using True by (simp add: store_golden_def)
next
  case False
  then have "find (\<lambda>x. ag_host_id x = ag_host_id g) (gs @ [g]) = Some g" by (induction gs) auto
  then show ?thesis using False by (simp add: store_golden_def)
qed


section \<open>Silence\<close>

text \<open>What a tick sees of a host: nothing, or whether it is silent.\<close>

definition silent_at :: "int \<Rightarrow> datetime \<Rightarrow> AgentHost \<Rightarrow> bool" where
  "silent_at threshold now h \<longleftrightarrow> (case hst_last_seen_at h of None \<Rightarrow> False | Some t \<Rightarrow> t < now - seconds threshold)"

definition sees :: "int \<Rightarrow> uuid \<Rightarrow> datetime \<times> AgentHost list \<Rightarrow> bool option" where
  "sees threshold i x = map_option (silent_at threshold (fst x)) (find (\<lambda>h. hst_id h = i) (filter watched (snd x)))"

definition rising_edges :: "bool \<Rightarrow> bool list \<Rightarrow> nat" where
  "rising_edges start obs = length (filter (\<lambda>(a, b). \<not> a \<and> b) (zip (start # obs) obs))"

lemma rising_edges_simps [simp]:
  "rising_edges start [] = 0"
  "rising_edges start (b # obs) = (if \<not> start \<and> b then 1 else 0) + rising_edges b obs"
  by (simp_all add: rising_edges_def)

fun silence_run :: "int \<Rightarrow> (datetime \<times> AgentHost list) list \<Rightarrow> fleet \<times> uuid list \<Rightarrow> fleet \<times> uuid list" where
  "silence_run threshold [] st = st"
| "silence_run threshold ((now, hosts) # xs) (db, latched) =
     silence_run threshold xs (silence_tick threshold now True (db\<lparr>fl_hosts := hosts\<rparr>, latched))"

definition silence_alerts :: "uuid \<Rightarrow> fleet \<Rightarrow> nat" where
  "silence_alerts i db = length (filter (\<lambda>a. a_rule_id a = SILENCE_RULE_ID \<and> a_host_id a = Some i) (fl_alerts db))"

lemma check_silence_other:
  assumes "hst_id h \<noteq> i" "check_silence threshold now h (db, latched) = (db', latched')"
  shows "silence_alerts i db' = silence_alerts i db" "i \<in> set latched' \<longleftrightarrow> i \<in> set latched"
  using assms by (auto simp: check_silence_def fire_alert_def silence_alert_def silence_alerts_def Let_def split: option.splits if_splits)

lemma check_silence_self:
  assumes "hst_id h = i" "watched h" "check_silence threshold now h (db, latched) = (db', latched')"
  shows "silence_alerts i db' = silence_alerts i db + (if silent_at threshold now h \<and> i \<notin> set latched then 1 else 0)"
    "i \<in> set latched' \<longleftrightarrow> silent_at threshold now h"
  using assms by (auto simp: check_silence_def fire_alert_def silence_alert_def silence_alerts_def silent_at_def watched_def Let_def
      split: option.splits if_splits)

lemma fold_silence:
  assumes "distinct (map hst_id hs)" "list_all watched hs" "fold (check_silence threshold now) hs (db, latched) = (db', latched')"
  shows "case find (\<lambda>h. hst_id h = i) hs of
      None \<Rightarrow> silence_alerts i db' = silence_alerts i db \<and> (i \<in> set latched' \<longleftrightarrow> i \<in> set latched)
    | Some h \<Rightarrow> silence_alerts i db' = silence_alerts i db + (if silent_at threshold now h \<and> i \<notin> set latched then 1 else 0) \<and>
        (i \<in> set latched' \<longleftrightarrow> silent_at threshold now h)"
  using assms
proof (induction hs arbitrary: db latched)
  case (Cons h hs)
  obtain db1 latched1 where one: "check_silence threshold now h (db, latched) = (db1, latched1)" by fastforce
  with Cons.prems have rest: "fold (check_silence threshold now) hs (db1, latched1) = (db', latched')" by simp
  note ih = Cons.IH [OF _ _ rest]
  show ?case
  proof (cases "hst_id h = i")
    case True
    then have "find (\<lambda>h. hst_id h = i) hs = None"
      using Cons.prems(1) by (simp add: find_None_iff) (metis imageI)
    then show ?thesis using ih check_silence_self [OF True _ one] Cons.prems True by simp
  next
    case False
    then show ?thesis using ih check_silence_other [OF False one] Cons.prems by (simp cong: option.case_cong)
  qed
qed simp

lemma tick_silence:
  assumes "distinct (map hst_id hosts)" "silence_tick threshold now True (db\<lparr>fl_hosts := hosts\<rparr>, latched) = (db', latched')"
  shows "case sees threshold i (now, hosts) of
      None \<Rightarrow> silence_alerts i db' = silence_alerts i db \<and> (i \<in> set latched' \<longleftrightarrow> i \<in> set latched)
    | Some b \<Rightarrow> silence_alerts i db' = silence_alerts i db + (if b \<and> i \<notin> set latched then 1 else 0) \<and> (i \<in> set latched' \<longleftrightarrow> b)"
proof -
  have "fold (check_silence threshold now) (filter watched hosts) (db\<lparr>fl_hosts := hosts\<rparr>, latched) = (db', latched')"
    using assms(2) by (simp add: silence_tick_def split: prod.splits)
  from fold_silence [OF _ _ this, of i] assms(1) show ?thesis
    by (simp add: sees_def distinct_map_filter list_all_iff silence_alerts_def split: option.splits)
qed

text \<open>The silence worker raises one alert for each episode of silence. Over any number of ticks, the alerts of a
  host are the moments at which, among the ticks that saw it online, it turned from not silent to silent; a
  host that stays silent raises no second alert, and one that recovered can raise a new one.\<close>

theorem silence_alerts_per_episode:
  assumes "\<forall>x \<in> set ticks. distinct (map hst_id (snd x))" "silence_run threshold ticks (db, latched) = (db', latched')"
  shows "silence_alerts i db' = silence_alerts i db + rising_edges (i \<in> set latched) (List.map_filter (sees threshold i) ticks)"
  using assms
proof (induction ticks arbitrary: db latched)
  case Nil
  then show ?case by simp
next
  case (Cons x xs)
  obtain now hosts where x: "x = (now, hosts)" by fastforce
  obtain db1 latched1 where one: "silence_tick threshold now True (db\<lparr>fl_hosts := hosts\<rparr>, latched) = (db1, latched1)" by fastforce
  have "silence_run threshold xs (db1, latched1) = (db', latched')" using Cons.prems(2) by (simp add: x one)
  with Cons have "silence_alerts i db' = silence_alerts i db1 + rising_edges (i \<in> set latched1) (List.map_filter (sees threshold i) xs)" by simp
  with tick_silence [OF _ one, of i] Cons.prems(1) show ?case
    by (cases "sees threshold i (now, hosts)") (auto simp: x)
qed

text \<open>An alert whose commit fails is lost for the rest of its episode: the latch is set, so no later tick raises it.\<close>

lemma failed_commit_loses_alert:
  assumes "watched h" "silent_at threshold now h" "silent_at threshold now' h"
  shows "let st = silence_tick threshold now False (db\<lparr>fl_hosts := [h], fl_alerts := []\<rparr>, []) in
    fl_alerts (fst (silence_tick threshold now' True st)) = []"
  using assms by (auto simp: silence_tick_def check_silence_def silent_at_def Let_def split: option.splits)

section \<open>Witnesses\<close>

definition demo_sv :: "unit stream_env" where
  "demo_sv = \<lparr>sv_limit = \<lparr>il_rate = 1, il_burst = 2\<rparr>, sv_topic_raw = ''raw'', sv_topic_auth = ''auth'', sv_kafka_accepts = (\<lambda>r. True),
     sv_attestation = \<lparr>av_load_pem = (\<lambda>b. None), av_load_der = (\<lambda>b. None), av_trust_anchor_pem = [], av_signed_by = (\<lambda>a c. False)\<rparr>,
     sv_bucket_artifacts = ''a'', sv_bucket_snapshots = ''s'', sv_json_loads = (\<lambda>t. None)\<rparr>"

definition demo_agent_host :: AgentHost where
  "demo_agent_host = \<lparr>hst_id = 1, hst_tenant_id = 7, hst_status = DECOMMISSIONED, hst_last_seen_at = Some 0, hst_policy_id = None,
     hst_agent_version = None, hst_hostname = ''web'', hst_os_family = LINUX, hst_os_version = None, hst_os_platform = None,
     hst_os_arch = None, hst_cert_fingerprint = None, hst_enrolled_at = None, hst_capabilities = None\<rparr>"

definition demo_manager :: "fleet \<Rightarrow> manager" where
  "demo_manager db = \<lparr>mg_fleet = db,
     mg_push = \<lparr>pd_jobs = \<lparr>j_hosts = [], j_policies = [], j_host_in_group = [], j_user_host_group = [], j_jobs = [], j_runs = [],
         j_commands = [], j_next = 100\<rparr>, pd_groups = [], pd_dns = [], pd_devices = [], pd_tokens = [], pd_hits = [], pd_alerts = [], pd_rule_ids = []\<rparr>,
     mg_artifacts = [], mg_golden = [], mg_attestations = [], mg_buckets = [], mg_kafka = []\<rparr>"

text \<open>Witness: of three events in one batch two are forwarded.\<close>

theorem ingest_limit_exact_witness:
  "\<exists>recs m' r. consume_client demo_sv 1 [(5, 1, Events [\<lparr>ev_bytes = ''a'', ev_payload = ''file''\<rparr>, \<lparr>ev_bytes = ''b'', ev_payload = ''file''\<rparr>,
     \<lparr>ev_bytes = ''c'', ev_payload = ''file''\<rparr>])] (demo_manager demo_fleet, 0) = (m', r) \<and> mg_kafka m' = recs \<and> raw_records demo_sv recs \<le> 2"
proof -
  let ?msgs = "[(5, 1, Events [\<lparr>ev_bytes = ''a'', ev_payload = ''file''\<rparr>, \<lparr>ev_bytes = ''b'', ev_payload = ''file''\<rparr>,
     \<lparr>ev_bytes = ''c'', ev_payload = ''file''\<rparr>])] :: (datetime \<times> rat \<times> ClientMessage) list"
  obtain m' r where c: "consume_client demo_sv 1 ?msgs (demo_manager demo_fleet, 0) = (m', r)" by fastforce
  have h: "limit_ok (sv_limit demo_sv)" "sv_topic_raw demo_sv \<noteq> sv_topic_auth demo_sv"
    "map_of (mg_buckets (demo_manager demo_fleet)) (uuid_str 1) = None" "(0::rat) < 1" "clocks_from 1 ?msgs"
    by (simp_all add: limit_ok_def demo_sv_def demo_manager_def clock_of_def)
  from ingest_limit_exact [OF h c] obtain recs where "mg_kafka m' = mg_kafka (demo_manager demo_fleet) @ recs"
    "of_nat (raw_records demo_sv recs) \<le> (2 :: rat)" by (auto simp: demo_sv_def end_clock_def clock_of_def)
  then show ?thesis using c by (auto simp: demo_manager_def)
qed

text \<open>Witness: the demonstration host connects after its enrollment.\<close>

lemma demo_enrolls_grpc:
  "\<exists>db' issued. do_enroll demo_ee 0 5 None ''linux'' demo_rq demo_fleet = Inr (db', 2, issued) \<and> ic_fingerprint issued = uuid_str 2"
  by (simp add: do_enroll_def consume_token_def token_live_def demo_rq_def demo_fleet_def demo_enrollment_token_def demo_ee_def finish_grpc_def
      PB_OS_FAMILY_def enroll_host_def Let_def detect_reenrollment_def prior_enrollment_def enrolled_since_def new_host_def mark_used_def sign_csr_def
      demo_ca_def check_public_key_def get_or_bootstrap_def) code_simp



text \<open>Witness: a register that differs from the promoted one raises an alert.\<close>

definition demo_attested :: manager where
  "demo_attested = (demo_manager (demo_fleet\<lparr>fl_hosts := [demo_agent_host\<lparr>hst_tenant_id := 3\<rparr>]\<rparr>))
     \<lparr>mg_attestations := [\<lparr>ae_id = 9, ae_tenant_id = 3, ae_host_id = 1, ae_pcrs = [\<lparr>pcr_index = 0, pcr_bank = ''sha256'', pcr_digest_hex = ''00''\<rparr>],
        ae_matches_golden = False, ae_diverged = [], ae_recorded_at = 1\<rparr>]\<rparr>"

definition demo_report :: TpmAttestation where
  "demo_report = \<lparr>ta_pcrs = [\<lparr>pv_index = 0, pv_bank = [], pv_digest = ''a''\<rparr>], ta_quote_signature = [], ta_ak_cert = [], ta_nonce = []\<rparr>"

lemma demo_promotes: "\<exists>m1. promote_attestation 1 (demo_actor ADMIN) demo_attested = Inr m1"
  by (simp add: promote_attestation_def RequireAdmin_def require_role_def has_role_def demo_actor_def demo_user_def demo_attested_def demo_manager_def
      find_host_def demo_agent_host_def host_visible_def push_view_def scope_view_def host_visible_to_def is_admin_def base_row_def latest_event_def Let_def)


text \<open>Witness: one alert for a host that is silent at two ticks.\<close>

theorem silence_alerts_per_episode_witness:
  "\<exists>db' latched'. silence_run 600 [(700000000, [demo_agent_host\<lparr>hst_status := ONLINE\<rparr>]), (800000000, [demo_agent_host\<lparr>hst_status := ONLINE\<rparr>])] (demo_fleet, []) =
     (db', latched') \<and> silence_alerts 1 db' = 1"
proof -
  let ?ticks = "[(700000000, [demo_agent_host\<lparr>hst_status := ONLINE\<rparr>]), (800000000, [demo_agent_host\<lparr>hst_status := ONLINE\<rparr>])]"
  obtain db' latched' where r: "silence_run 600 ?ticks (demo_fleet, []) = (db', latched')" by fastforce
  have "\<forall>x \<in> set ?ticks. distinct (map hst_id (snd x))" by simp
  from silence_alerts_per_episode [OF this r, of 1]
  have "silence_alerts 1 db' = 1"
    by (simp add: silence_alerts_def demo_fleet_def sees_def silent_at_def watched_def demo_agent_host_def seconds_def List.map_filter_def)
  with r show ?thesis by blast
qed

end
