(* ===== verification/Webhooks.thy ===== *)
theory Webhooks
  imports Signed_Tokens Routing
begin

text \<open>
  Outbound webhooks: subscriptions and their deliveries (backend/app/models/webhook.py), signing, retries and the
  breaker (services/webhook_dispatcher.py), the worker (workers/webhook_dispatcher.py) and the administrators' routes
  (api/webhooks.py). Fernet, HMAC, the HTTP client and the URL parser are parameters; the reply to an attempt may
  depend on its number.
\<close>

section \<open>Tables\<close>

definition WEBHOOK_EVENT_TYPES :: "string list" where
  "WEBHOOK_EVENT_TYPES = [''alert.opened'', ''alert.state_changed'', ''alert.summary_ready'', ''incident.opened'', ''incident.resolved'',
     ''job.completed'', ''job.failed'', ''host.enrolled'', ''host.disconnected'']"

record WebhookSubscription =
  wh_id :: uuid
  wh_name :: string
  wh_url :: string
  wh_secret_encrypted :: bytes
  wh_event_types :: "string list"
  wh_enabled :: bool
  wh_failure_count :: int
  wh_last_delivery_at :: "datetime option"
  wh_last_failure_at :: "datetime option"

record WebhookDelivery =
  wd_id :: uuid
  wd_subscription_id :: uuid
  wd_event_type :: string
  wd_payload_json :: pydict
  wd_status :: string
  wd_attempts :: nat
  wd_response_status :: "int option"
  wd_response_body_truncated :: "string option"
  wd_delivered_at :: "datetime option"

record webhook_db =
  wb_subs :: "WebhookSubscription list"
  wb_deliveries :: "WebhookDelivery list"
  wb_audit :: "audit_request list"
  wb_next :: uuid

text \<open>One request on the wire.\<close>

record webhook_post =
  wp_url :: string
  wp_body :: bytes
  wp_headers :: "(string \<times> string) list"

record webhook_env =
  we_encrypt :: "bytes \<Rightarrow> bytes"
  we_decrypt :: "bytes \<Rightarrow> bytes option"
  we_hmac :: mac
  we_sha256 :: "bytes \<Rightarrow> bytes"
  we_http :: "webhook_post \<Rightarrow> nat \<Rightarrow> http_reply"
  we_valid_url :: "string \<Rightarrow> bool"
  we_retry_max :: int
  we_threshold :: int

section \<open>Signing\<close>

definition encrypt_secret :: "webhook_env \<Rightarrow> string \<Rightarrow> bytes" where
  "encrypt_secret we plaintext = we_encrypt we (utf8_encode plaintext)"

definition decrypt_secret :: "webhook_env \<Rightarrow> bytes \<Rightarrow> string result" where
  "decrypt_secret we blob = (case we_decrypt we blob of None \<Rightarrow> Inl RuntimeError | Some b \<Rightarrow> (case utf8_decode b of None \<Rightarrow> Inl UnicodeDecodeError | Some t \<Rightarrow> Inr t))"

definition sign_payload :: "webhook_env \<Rightarrow> string \<Rightarrow> bytes \<Rightarrow> string" where
  "sign_payload we secret body = hexdigest (we_hmac we (utf8_encode secret) body)"

definition build_envelope :: "datetime \<Rightarrow> string \<Rightarrow> pydict \<Rightarrow> pydict" where
  "build_envelope now event_type payload =
     [(''event_type'', PStr event_type), (''occurred_at'', PStr (isoformat now)), (''data'', PDict payload)]"

definition serialize_body :: "pydict \<Rightarrow> bytes" where
  "serialize_body envelope = utf8_encode (json_dumps_sorted (PDict envelope))"

section \<open>Delivery\<close>

text \<open>
  The attempts of one delivery: the last reply, how many were made, the error text. \<open>n\<close> further attempts are left
  after the one under way; the waits between attempts are not part of the model.
\<close>

fun post_attempts :: "(nat \<Rightarrow> http_reply) \<Rightarrow> nat \<Rightarrow> nat \<Rightarrow> (int \<times> string) option \<times> nat \<times> string option" where
  "post_attempts send a 0 =
     (case send (Suc a) of
        Network_error e \<Rightarrow> (None, Suc a, Some e)
      | Reply s body \<Rightarrow>
          (if s < 400 then (Some (s, body), Suc a, None)
           else if s < 500 then (Some (s, body), Suc a, Some (''permanent '' @ show_int s))
           else (Some (s, body), Suc a, Some (''5xx '' @ show_int s))))"
| "post_attempts send a (Suc n) =
     (case send (Suc a) of
        Network_error e \<Rightarrow> post_attempts send (Suc a) n
      | Reply s body \<Rightarrow>
          (if s < 400 then (Some (s, body), Suc a, None)
           else if s < 500 then (Some (s, body), Suc a, Some (''permanent '' @ show_int s))
           else post_attempts send (Suc a) n))"

definition post_with_retries :: "(nat \<Rightarrow> http_reply) \<Rightarrow> int \<Rightarrow> (int \<times> string) option \<times> nat \<times> string option" where
  "post_with_retries send retry_max = post_attempts send 0 (nat (max 1 (retry_max + 1)) - 1)"

definition RESPONSE_TRUNCATE_BYTES :: nat where
  "RESPONSE_TRUNCATE_BYTES = 512"

text \<open>The ellipsis U+2026 is outside the model's character set; its Windows-1252 code stands for it.\<close>

definition truncate_body :: "string \<Rightarrow> string" where
  "truncate_body t = (if length t \<le> RESPONSE_TRUNCATE_BYTES then t else take RESPONSE_TRUNCATE_BYTES t @ [CHR 0x85])"

definition webhook_headers :: "webhook_env \<Rightarrow> string \<Rightarrow> uuid \<Rightarrow> string \<Rightarrow> bytes \<Rightarrow> (string \<times> string) list" where
  "webhook_headers we event_type delivery_id secret body =
     [(''Content-Type'', ''application/json''), (''User-Agent'', ''vigil-webhook/1.0''), (''X-Vigil-Event-Type'', event_type),
      (''X-Vigil-Delivery-Id'', uuid_str delivery_id), (''X-Vigil-Signature'', ''sha256='' @ sign_payload we secret body)]"

definition note_outcome :: "webhook_env \<Rightarrow> datetime \<Rightarrow> bool \<Rightarrow> WebhookSubscription \<Rightarrow> WebhookSubscription" where
  "note_outcome we now delivered sub =
     (if delivered then sub\<lparr>wh_last_delivery_at := Some now, wh_failure_count := 0\<rparr>
      else (let count = wh_failure_count sub + 1 in
        sub\<lparr>wh_last_failure_at := Some now, wh_failure_count := count,
            wh_enabled := (if count \<ge> we_threshold we then False else wh_enabled sub)\<rparr>))"

text \<open>The subscription and the delivery row afterwards, and the request that was sent \<open>wd_attempts\<close> times.\<close>

definition deliver_webhook ::
  "webhook_env \<Rightarrow> datetime \<Rightarrow> uuid \<Rightarrow> string \<Rightarrow> pydict \<Rightarrow> WebhookSubscription \<Rightarrow> (WebhookSubscription \<times> WebhookDelivery \<times> webhook_post) result" where
  "deliver_webhook we now delivery_id event_type payload sub =
     (let envelope = build_envelope now event_type payload; body = serialize_body envelope in
      bindE (decrypt_secret we (wh_secret_encrypted sub)) (\<lambda>secret.
        let post = \<lparr>wp_url = wh_url sub, wp_body = body, wp_headers = webhook_headers we event_type delivery_id secret body\<rparr>;
            (response, attempts, transport_error) = post_with_retries (we_http we post) (we_retry_max we);
            delivered = (case response of None \<Rightarrow> False | Some (s, _) \<Rightarrow> s < 400);
            snippet = (case response of Some (_, text) \<Rightarrow> Some (truncate_body text)
                       | None \<Rightarrow> map_option truncate_body transport_error)
        in Inr (note_outcome we now delivered sub,
             \<lparr>wd_id = delivery_id, wd_subscription_id = wh_id sub, wd_event_type = event_type, wd_payload_json = envelope,
              wd_status = (if delivered then ''delivered'' else ''failed''), wd_attempts = attempts,
              wd_response_status = map_option fst response, wd_response_body_truncated = snippet,
              wd_delivered_at = (if delivered then Some now else None)\<rparr>, post)))"

definition matching_subscriptions :: "string \<Rightarrow> webhook_db \<Rightarrow> WebhookSubscription list" where
  "matching_subscriptions event_type db = filter (\<lambda>s. wh_enabled s \<and> event_type \<in> set (wh_event_types s)) (wb_subs db)"

definition update_sub :: "WebhookSubscription \<Rightarrow> webhook_db \<Rightarrow> webhook_db" where
  "update_sub s db = db\<lparr>wb_subs := map (\<lambda>x. if wh_id x = wh_id s then s else x) (wb_subs db)\<rparr>"

definition add_delivery :: "WebhookDelivery \<Rightarrow> webhook_db \<Rightarrow> webhook_db" where
  "add_delivery d db = db\<lparr>wb_deliveries := wb_deliveries db @ [d], wb_next := wb_next db + 1\<rparr>"

text \<open>The loop over the subscriptions; what was sent before an exception stays sent.\<close>

fun deliver_all ::
  "webhook_env \<Rightarrow> datetime \<Rightarrow> string \<Rightarrow> pydict \<Rightarrow> WebhookSubscription list \<Rightarrow> webhook_db \<Rightarrow> (webhook_post \<times> nat) list \<times> webhook_db result" where
  "deliver_all we now event_type payload [] db = ([], Inr db)"
| "deliver_all we now event_type payload (sub # subs) db =
     (case deliver_webhook we now (wb_next db) event_type payload sub of
        Inl e \<Rightarrow> ([], Inl e)
      | Inr (sub', d, post) \<Rightarrow>
          (case deliver_all we now event_type payload subs (add_delivery d (update_sub sub' db)) of
             (posts, r) \<Rightarrow> ((post, wd_attempts d) # posts, r)))"

definition dispatch_event ::
  "webhook_env \<Rightarrow> datetime \<Rightarrow> string \<Rightarrow> pydict \<Rightarrow> webhook_db \<Rightarrow> (webhook_post \<times> nat) list \<times> (webhook_db \<times> nat) result" where
  "dispatch_event we now event_type payload db =
     (let subs = matching_subscriptions event_type db in
      case deliver_all we now event_type payload subs db of
        (posts, Inl e) \<Rightarrow> (posts, Inl e)
      | (posts, Inr db') \<Rightarrow> (posts, Inr (db', length subs)))"

section \<open>The worker\<close>

datatype kafka_value = Tombstone | Undecodable | Document pyval

text \<open>
  One message of the topic at \<open>offset\<close>, with the offset that is committed. The outer result is the worker's:
  \<open>Inl\<close> ends it.
\<close>

definition webhook_consume ::
  "webhook_env \<Rightarrow> datetime \<Rightarrow> nat \<times> kafka_value \<Rightarrow> webhook_db \<times> nat \<Rightarrow> (webhook_post \<times> nat) list \<times> (webhook_db \<times> nat) result" where
  "webhook_consume we now m st = (case (m, st) of ((offset, v), (db, committed_offset)) \<Rightarrow>
     (case v of
        Tombstone \<Rightarrow> ([], Inr st)
      | Undecodable \<Rightarrow> ([], Inr st)
      | Document doc \<Rightarrow>
          (case doc of
             PDict envelope \<Rightarrow>
               (case (dget envelope ''event_type'', dget envelope ''payload'') of
                  (PStr event_type, PDict payload) \<Rightarrow>
                    (case dispatch_event we now event_type payload db of
                       (posts, Inl e) \<Rightarrow> (posts, Inr st)
                     | (posts, Inr (db', n)) \<Rightarrow> (posts, Inr (db', offset + 1)))
                | _ \<Rightarrow> ([], Inr st))
           | _ \<Rightarrow> ([], Inl AttributeError))))"

section \<open>Administration\<close>

definition secret_fp :: "webhook_env \<Rightarrow> string \<Rightarrow> string" where
  "secret_fp we secret = take 8 (hexdigest (we_sha256 we (utf8_encode secret)))"

fun no_duplicates :: "string list \<Rightarrow> string list \<Rightarrow> string list" where
  "no_duplicates seen [] = []"
| "no_duplicates seen (x # xs) = (if x \<in> set seen then no_duplicates seen xs else x # no_duplicates (x # seen) xs)"

definition check_event_types :: "string list \<Rightarrow> string list result" where
  "check_event_types ts =
     (if ts = [] \<or> \<not> list_all (\<lambda>t. t \<in> set WEBHOOK_EVENT_TYPES) ts then Inl (HTTPError 422 ''validation error'')
      else Inr (no_duplicates [] ts))"

definition webhook_name_ok :: "string \<Rightarrow> bool" where
  "webhook_name_ok n \<longleftrightarrow> n \<noteq> [] \<and> length n \<le> 128"

definition webhook_log :: "audit_request \<Rightarrow> webhook_db \<Rightarrow> webhook_db" where
  "webhook_log rq db = db\<lparr>wb_audit := wb_audit db @ [rq]\<rparr>"

definition find_sub :: "uuid \<Rightarrow> webhook_db \<Rightarrow> WebhookSubscription result" where
  "find_sub i db = (case find (\<lambda>s. wh_id s = i) (wb_subs db) of
       None \<Rightarrow> Inl (not_found ''webhook_subscription'' i) | Some s \<Rightarrow> Inr s)"

text \<open>\<open>secret\<close> is the generated token; the caller is shown it once.\<close>

definition create_subscription ::
  "webhook_env \<Rightarrow> string \<Rightarrow> string \<Rightarrow> string \<Rightarrow> string list \<Rightarrow> bool \<Rightarrow> Actor \<Rightarrow> webhook_db \<Rightarrow> (webhook_db \<times> uuid) result" where
  "create_subscription we secret name url event_types enabled actor db =
     bindE (RequireAdmin actor) (\<lambda>actor.
     bindE (check_event_types event_types) (\<lambda>types.
       if \<not> webhook_name_ok name \<or> \<not> we_valid_url we url then Inl (HTTPError 422 ''validation error'')
       else if name \<in> wh_name ` set (wb_subs db) then Inl (conflict ''webhook subscription name already in use'')
       else (let sub = \<lparr>wh_id = wb_next db, wh_name = name, wh_url = url, wh_secret_encrypted = encrypt_secret we secret,
                   wh_event_types = types, wh_enabled = enabled, wh_failure_count = 0, wh_last_delivery_at = None, wh_last_failure_at = None\<rparr>
             in Inr (webhook_log (push_audit actor ''webhook.create'' ''webhook_subscription'' (uuid_str (wh_id sub))
                       [(''name'', PStr name), (''url'', PStr url), (''event_types'', str_list types), (''enabled'', PBool enabled),
                        (''secret_fingerprint'', PStr (secret_fp we secret)), (''redacted'', PBool True)])
                      (db\<lparr>wb_subs := wb_subs db @ [sub], wb_next := wb_next db + 1\<rparr>), wh_id sub))))"

record WebhookUpdate =
  wu_name :: "string option"
  wu_url :: "string option"
  wu_event_types :: "string list option"
  wu_enabled :: "bool option"

definition check_update :: "webhook_env \<Rightarrow> WebhookUpdate \<Rightarrow> WebhookUpdate result" where
  "check_update we u =
     (if (case wu_name u of None \<Rightarrow> False | Some n \<Rightarrow> \<not> webhook_name_ok n) \<or>
         (case wu_url u of None \<Rightarrow> False | Some x \<Rightarrow> \<not> we_valid_url we x) then Inl (HTTPError 422 ''validation error'')
      else (case wu_event_types u of
          None \<Rightarrow> Inr u
        | Some ts \<Rightarrow> bindE (check_event_types ts) (\<lambda>ts. Inr (u\<lparr>wu_event_types := Some ts\<rparr>))))"

definition apply_update :: "WebhookUpdate \<Rightarrow> WebhookSubscription \<Rightarrow> WebhookSubscription" where
  "apply_update u s =
     s\<lparr>wh_name := or_else (wu_name u) (wh_name s), wh_url := or_else (wu_url u) (wh_url s),
       wh_event_types := or_else (wu_event_types u) (wh_event_types s), wh_enabled := or_else (wu_enabled u) (wh_enabled s),
       wh_failure_count := (if wu_enabled u = Some True \<and> \<not> wh_enabled s then 0 else wh_failure_count s)\<rparr>"

definition update_payload :: "WebhookUpdate \<Rightarrow> WebhookSubscription \<Rightarrow> pydict" where
  "update_payload u s =
     (case wu_name u of None \<Rightarrow> [] | Some n \<Rightarrow> if n = wh_name s then [] else [(''name'', PStr n)]) @
     (case wu_url u of None \<Rightarrow> [] | Some x \<Rightarrow> [(''url'', PStr x)]) @
     (case wu_event_types u of None \<Rightarrow> [] | Some ts \<Rightarrow> [(''event_types'', str_list ts)]) @
     (case wu_enabled u of None \<Rightarrow> []
      | Some b \<Rightarrow> (''enabled'', PBool b) # (if b \<and> \<not> wh_enabled s then [(''failure_count_reset'', PBool True)] else []))"

definition update_subscription :: "webhook_env \<Rightarrow> uuid \<Rightarrow> WebhookUpdate \<Rightarrow> Actor \<Rightarrow> webhook_db \<Rightarrow> webhook_db result" where
  "update_subscription we sub_id u actor db =
     bindE (RequireAdmin actor) (\<lambda>actor.
     bindE (check_update we u) (\<lambda>u.
     bindE (find_sub sub_id db) (\<lambda>s.
       if (case wu_name u of None \<Rightarrow> False
           | Some n \<Rightarrow> n \<noteq> wh_name s \<and> list_ex (\<lambda>x. wh_name x = n \<and> wh_id x \<noteq> sub_id) (wb_subs db))
       then Inl (conflict ''webhook subscription name already in use'')
       else Inr (webhook_log (push_audit actor ''webhook.update'' ''webhook_subscription'' (uuid_str (wh_id s)) (update_payload u s))
              (update_sub (apply_update u s) db)))))"

definition delete_subscription :: "uuid \<Rightarrow> Actor \<Rightarrow> webhook_db \<Rightarrow> webhook_db result" where
  "delete_subscription sub_id actor db =
     bindE (RequireAdmin actor) (\<lambda>actor.
     bindE (find_sub sub_id db) (\<lambda>s.
       Inr (webhook_log (push_audit actor ''webhook.delete'' ''webhook_subscription'' (uuid_str sub_id) [(''name'', PStr (wh_name s))])
         (db\<lparr>wb_subs := filter (\<lambda>x. wh_id x \<noteq> sub_id) (wb_subs db),
             wb_deliveries := filter (\<lambda>d. wd_subscription_id d \<noteq> sub_id) (wb_deliveries db)\<rparr>))))"

definition webhook_sample :: "datetime \<Rightarrow> Actor \<Rightarrow> WebhookSubscription \<Rightarrow> pydict" where
  "webhook_sample now actor s =
     [(''test'', PBool True), (''subscription_id'', PStr (uuid_str (wh_id s))), (''subscription_name'', PStr (wh_name s)),
      (''fired_at'', PStr (isoformat now)), (''fired_by_user_id'', PStr (uuid_str (u_id (actor_user actor))))]"

definition test_subscription ::
  "webhook_env \<Rightarrow> datetime \<Rightarrow> uuid \<Rightarrow> string \<Rightarrow> Actor \<Rightarrow> webhook_db \<Rightarrow> (webhook_db \<times> WebhookDelivery \<times> webhook_post) result" where
  "test_subscription we now sub_id event_type actor db =
     bindE (RequireAdmin actor) (\<lambda>actor.
       if event_type \<notin> set WEBHOOK_EVENT_TYPES then Inl (HTTPError 422 ''validation error'')
       else bindE (find_sub sub_id db) (\<lambda>s.
         if event_type \<notin> set (wh_event_types s) then Inl (bad_request ''event_type not in this subscription'')
         else bindE (deliver_webhook we now (wb_next db) event_type (webhook_sample now actor s) s) (\<lambda>(s', d, post).
           Inr (webhook_log (push_audit actor ''webhook.test'' ''webhook_subscription'' (uuid_str (wh_id s))
                  [(''event_type'', PStr event_type), (''delivery_id'', PStr (uuid_str (wd_id d))), (''status'', PStr (wd_status d)),
                   (''response_status'', opt_int (wd_response_status d))])
                (add_delivery d (update_sub s' db)), d, post))))"

definition rotate_secret :: "webhook_env \<Rightarrow> string \<Rightarrow> uuid \<Rightarrow> Actor \<Rightarrow> webhook_db \<Rightarrow> webhook_db result" where
  "rotate_secret we new_secret sub_id actor db =
     bindE (RequireAdmin actor) (\<lambda>actor.
     bindE (find_sub sub_id db) (\<lambda>s.
       Inr (webhook_log (push_audit actor ''webhook.rotate'' ''webhook_subscription'' (uuid_str (wh_id s))
              [(''secret_fingerprint'', PStr (secret_fp we new_secret)), (''redacted'', PBool True)])
            (update_sub (s\<lparr>wh_secret_encrypted := encrypt_secret we new_secret\<rparr>) db))))"

end
