(* ===== verification/Webhooks_Correct.thy ===== *)
theory Webhooks_Correct
  imports Webhooks Signed_Tokens_Correct Jobs_Correct
begin

text \<open>
  Webhooks over whole histories: the failure counter and the breaker against the outcomes of the deliveries, and
  what a dispatch sends, signed with the secret the operator was given last.
\<close>

section \<open>Attempts\<close>

text \<open>What one reply means for the loop.\<close>

fun transient :: "http_reply \<Rightarrow> bool" where
  "transient (Network_error e) = True"
| "transient (Reply s body) = (s \<ge> 500)"

fun accepted :: "http_reply \<Rightarrow> bool" where
  "accepted (Network_error e) = False"
| "accepted (Reply s body) = (s < 400)"

lemma post_attempts_spec:
  assumes "post_attempts send a n = (resp, k, err)"
  shows "a < k" "k \<le> Suc (a + n)" "\<forall>j. a < j \<and> j < k \<longrightarrow> transient (send j)" "transient (send k) \<longrightarrow> k = Suc (a + n)"
    "(case resp of None \<Rightarrow> False | Some (s, _) \<Rightarrow> s < 400) \<longleftrightarrow> accepted (send k)"
proof -
  have "a < k \<and> k \<le> Suc (a + n) \<and> (\<forall>j. a < j \<and> j < k \<longrightarrow> transient (send j)) \<and> (transient (send k) \<longrightarrow> k = Suc (a + n)) \<and>
    ((case resp of None \<Rightarrow> False | Some (s, _) \<Rightarrow> s < 400) \<longleftrightarrow> accepted (send k))"
    using assms
  proof (induction n arbitrary: a)
    case 0
    then show ?case by (cases "send (Suc a)") (auto split: if_splits)
  next
    case (Suc n)
    show ?case
    proof (cases "transient (send (Suc a))")
      case True
      then have "post_attempts send (Suc a) n = (resp, k, err)"
        using Suc.prems by (cases "send (Suc a)") auto
      note ih = Suc.IH [OF this]
      have "transient (send j)" if "a < j" "j < k" for j
      proof (cases "j = Suc a")
        case False
        with that ih show ?thesis by simp
      qed (simp add: True)
      with ih show ?thesis by simp
    next
      case False
      then show ?thesis using Suc.prems by (cases "send (Suc a)") (auto split: if_splits)
    qed
  qed
  then show "a < k" "k \<le> Suc (a + n)" "\<forall>j. a < j \<and> j < k \<longrightarrow> transient (send j)" "transient (send k) \<longrightarrow> k = Suc (a + n)"
    "(case resp of None \<Rightarrow> False | Some (s, _) \<Rightarrow> s < 400) \<longleftrightarrow> accepted (send k)" by blast+
qed

text \<open>The number of attempts the settings allow.\<close>

definition attempt_budget :: "webhook_env \<Rightarrow> nat" where
  "attempt_budget we = nat (max 1 (we_retry_max we + 1))"

lemma budget_positive: "1 \<le> attempt_budget we"
  by (simp add: attempt_budget_def)

lemma deliver_effect:
  assumes "deliver_webhook we now i et payload sub = Inr (sub', d, post)"
  obtains secret where "decrypt_secret we (wh_secret_encrypted sub) = Inr secret"
    "post = \<lparr>wp_url = wh_url sub, wp_body = serialize_body (build_envelope now et payload),
       wp_headers = webhook_headers we et i secret (serialize_body (build_envelope now et payload))\<rparr>"
    "wd_subscription_id d = wh_id sub" "wd_event_type d = et" "wd_id d = i"
    "1 \<le> wd_attempts d" "wd_attempts d \<le> attempt_budget we"
    "\<forall>j. 0 < j \<and> j < wd_attempts d \<longrightarrow> transient (we_http we post j)"
    "transient (we_http we post (wd_attempts d)) \<longrightarrow> wd_attempts d = attempt_budget we"
    "wd_status d = (if accepted (we_http we post (wd_attempts d)) then ''delivered'' else ''failed'')"
    "sub' = note_outcome we now (accepted (we_http we post (wd_attempts d))) sub"
proof -
  from assms obtain secret where sec: "decrypt_secret we (wh_secret_encrypted sub) = Inr secret"
    by (auto simp: deliver_webhook_def Let_def bindE_eq_Inr)
  let ?body = "serialize_body (build_envelope now et payload)"
  let ?post = "\<lparr>wp_url = wh_url sub, wp_body = ?body, wp_headers = webhook_headers we et i secret ?body\<rparr>"
  obtain resp k err where p: "post_attempts (we_http we ?post) 0 (attempt_budget we - 1) = (resp, k, err)" by (metis prod_cases3)
  note q = post_attempts_spec [OF p]
  have "Suc (0 + (attempt_budget we - 1)) = attempt_budget we" using budget_positive [of we] by simp
  then show thesis using assms sec p q
    by (intro that [OF sec]) (auto simp: deliver_webhook_def Let_def post_with_retries_def attempt_budget_def)
qed

lemma note_outcome_keeps [simp]:
  "wh_id (note_outcome we now b s) = wh_id s" "wh_name (note_outcome we now b s) = wh_name s" "wh_url (note_outcome we now b s) = wh_url s"
  "wh_secret_encrypted (note_outcome we now b s) = wh_secret_encrypted s" "wh_event_types (note_outcome we now b s) = wh_event_types s"
  by (simp_all add: note_outcome_def Let_def)

section \<open>A dispatch\<close>

text \<open>The row, the subscription afterwards and the requests of one subscription.\<close>

definition served ::
  "webhook_env \<Rightarrow> datetime \<Rightarrow> string \<Rightarrow> pydict \<Rightarrow> WebhookSubscription \<Rightarrow> WebhookDelivery \<Rightarrow> webhook_post \<times> nat \<Rightarrow> bool" where
  "served we now et payload sub d pn \<longleftrightarrow> (case pn of (post, n) \<Rightarrow>
     (\<exists>secret body. decrypt_secret we (wh_secret_encrypted sub) = Inr secret \<and> body = serialize_body (build_envelope now et payload) \<and>
        post = \<lparr>wp_url = wh_url sub, wp_body = body, wp_headers = webhook_headers we et (wd_id d) secret body\<rparr>) \<and>
     wd_subscription_id d = wh_id sub \<and> wd_event_type d = et \<and> wd_attempts d = n \<and> 1 \<le> n \<and> n \<le> attempt_budget we \<and>
     (\<forall>j. 0 < j \<and> j < n \<longrightarrow> transient (we_http we post j)) \<and> (transient (we_http we post n) \<longrightarrow> n = attempt_budget we) \<and>
     wd_status d = (if accepted (we_http we post n) then ''delivered'' else ''failed''))"

definition row_ok :: "WebhookDelivery \<Rightarrow> bool" where
  "row_ok d \<longleftrightarrow> wd_status d = ''delivered''"

lemma deliver_served:
  assumes "deliver_webhook we now i et payload sub = Inr (sub', d, post)"
  shows "served we now et payload sub d (post, wd_attempts d)" "sub' = note_outcome we now (row_ok d) sub" "wd_id d = i"
    "wd_subscription_id d = wh_id sub"
  by (rule deliver_effect [OF assms], auto simp: served_def row_ok_def)+

lemma deliver_all_effect:
  assumes "deliver_all we now et payload subs db = (posts, Inr db')" "distinct (map wh_id subs)"
  shows "\<exists>ds. list_all2 (\<lambda>sub (d, pn). served we now et payload sub d pn) subs (zip ds posts) \<and>
    wb_deliveries db' = wb_deliveries db @ ds \<and> length ds = length subs \<and> length posts = length subs \<and> map wd_subscription_id ds = map wh_id subs \<and>
    wb_subs db' = map (\<lambda>x. case map_of (zip (map wh_id subs) (zip subs ds)) (wh_id x) of
        None \<Rightarrow> x | Some (s, d) \<Rightarrow> note_outcome we now (row_ok d) s) (wb_subs db) \<and>
    wb_next db \<le> wb_next db' \<and> wb_audit db' = wb_audit db"
  using assms
proof (induction subs arbitrary: db posts)
  case Nil
  then show ?case by (auto simp: map_idI)
next
  case (Cons sub subs)
  from Cons.prems(1) obtain sub' d post ps where one: "deliver_webhook we now (wb_next db) et payload sub = Inr (sub', d, post)"
    and rest: "deliver_all we now et payload subs (add_delivery d (update_sub sub' db)) = (ps, Inr db')"
    and posts: "posts = (post, wd_attempts d) # ps"
    by (auto split: sum.splits prod.splits)
  note s = deliver_served [OF one]
  from Cons.IH [OF rest] Cons.prems(2) obtain ds where ih:
    "list_all2 (\<lambda>sub (d, pn). served we now et payload sub d pn) subs (zip ds ps)" "length ds = length subs" "length ps = length subs"
    "wb_deliveries db' = wb_deliveries db @ d # ds" "map wd_subscription_id ds = map wh_id subs"
    "wb_subs db' = map (\<lambda>x. case map_of (zip (map wh_id subs) (zip subs ds)) (wh_id x) of
        None \<Rightarrow> x | Some (s, d) \<Rightarrow> note_outcome we now (row_ok d) s) (wb_subs (update_sub sub' db))"
    "wb_next db \<le> wb_next db'" "wb_audit db' = wb_audit db"
    by (auto simp: add_delivery_def update_sub_def)
  have "wh_id sub \<notin> set (map wh_id subs)" using Cons.prems(2) by simp
  then have none: "map_of (zip (map wh_id subs) (zip subs ds)) (wh_id sub) = None"
    using ih(2) by (simp add: map_of_zip_is_None)
  have "wb_subs db' = map (\<lambda>x. case map_of (zip (map wh_id (sub # subs)) (zip (sub # subs) (d # ds))) (wh_id x) of
        None \<Rightarrow> x | Some (s, d) \<Rightarrow> note_outcome we now (row_ok d) s) (wb_subs db)"
    unfolding ih(6) update_sub_def by (simp add: comp_def s(2) none)
  with ih(1-5,7,8) s show ?case by (intro exI [of _ "d # ds"]) (simp add: posts)
qed

lemma dispatch_effect:
  assumes "dispatch_event we now et payload db = (posts, Inr (db', n))" "distinct (map wh_id (wb_subs db))"
  obtains ds where "list_all2 (\<lambda>sub (d, pn). served we now et payload sub d pn) (matching_subscriptions et db) (zip ds posts)"
    "wb_deliveries db' = wb_deliveries db @ ds" "map wd_subscription_id ds = map wh_id (matching_subscriptions et db)"
    "length ds = length (matching_subscriptions et db)" "length posts = length (matching_subscriptions et db)" "n = length posts"
    "wb_subs db' = map (\<lambda>x. case map_of (zip (map wh_id (matching_subscriptions et db)) (zip (matching_subscriptions et db) ds)) (wh_id x) of
        None \<Rightarrow> x | Some (s, d) \<Rightarrow> note_outcome we now (row_ok d) s) (wb_subs db)"
    "wb_next db \<le> wb_next db'"
proof -
  from assms(1) have d: "deliver_all we now et payload (matching_subscriptions et db) db = (posts, Inr db')"
    and n: "n = length (matching_subscriptions et db)"
    by (auto simp: dispatch_event_def Let_def split: prod.splits sum.splits)
  have "distinct (map wh_id (matching_subscriptions et db))" using assms(2) by (simp add: matching_subscriptions_def distinct_map_filter)
  from deliver_all_effect [OF d this] obtain ds where
    "list_all2 (\<lambda>sub (d, pn). served we now et payload sub d pn) (matching_subscriptions et db) (zip ds posts)"
    "wb_deliveries db' = wb_deliveries db @ ds" "length ds = length (matching_subscriptions et db)" "length posts = length (matching_subscriptions et db)"
    "map wd_subscription_id ds = map wh_id (matching_subscriptions et db)"
    "wb_subs db' = map (\<lambda>x. case map_of (zip (map wh_id (matching_subscriptions et db)) (zip (matching_subscriptions et db) ds)) (wh_id x) of
        None \<Rightarrow> x | Some (s, d) \<Rightarrow> note_outcome we now (row_ok d) s) (wb_subs db)" "wb_next db \<le> wb_next db'" by blast
  with n show thesis by (intro that [of ds]) simp_all
qed

section \<open>Histories\<close>

text \<open>What happened to a subscription: a delivery and whether it was accepted, a re-enabling, a new secret.\<close>

datatype webhook_entry = Fired bool | Cleared | Issued string

type_synonym webhook_history = "(uuid \<times> webhook_entry) list"

definition entries_of :: "uuid \<Rightarrow> webhook_history \<Rightarrow> webhook_entry list" where
  "entries_of i h = map snd (filter (\<lambda>x. fst x = i) h)"

fun is_issued :: "webhook_entry \<Rightarrow> bool" where
  "is_issued (Issued s) = True"
| "is_issued _ = False"

text \<open>The failures since the last accepted delivery or re-enabling, and the secret issued last.\<close>

definition failures_in_a_row :: "webhook_entry list \<Rightarrow> nat" where
  "failures_in_a_row es = length (takeWhile (\<lambda>e. e = Fired False) (rev (filter (\<lambda>e. \<not> is_issued e) es)))"

definition last_issued :: "webhook_entry list \<Rightarrow> string option" where
  "last_issued es = (case filter is_issued (rev es) of Issued s # _ \<Rightarrow> Some s | _ \<Rightarrow> None)"

inductive webhook_run :: "webhook_env \<Rightarrow> webhook_db \<Rightarrow> webhook_history \<Rightarrow> bool" for we where
  wr_start: "wb_subs db = [] \<Longrightarrow> webhook_run we db []"
| wr_create: "webhook_run we db h \<Longrightarrow> create_subscription we secret name url types enabled actor db = Inr (db', i) \<Longrightarrow>
    webhook_run we db' (h @ [(i, Issued secret)])"
| wr_update: "webhook_run we db h \<Longrightarrow> update_subscription we i u actor db = Inr db' \<Longrightarrow> find_sub i db = Inr s \<Longrightarrow>
    webhook_run we db' (h @ (if wu_enabled u = Some True \<and> \<not> wh_enabled s then [(i, Cleared)] else []))"
| wr_delete: "webhook_run we db h \<Longrightarrow> delete_subscription i actor db = Inr db' \<Longrightarrow> webhook_run we db' h"
| wr_rotate: "webhook_run we db h \<Longrightarrow> rotate_secret we secret i actor db = Inr db' \<Longrightarrow> webhook_run we db' (h @ [(i, Issued secret)])"
| wr_test: "webhook_run we db h \<Longrightarrow> test_subscription we now i et actor db = Inr (db', d, post) \<Longrightarrow>
    webhook_run we db' (h @ [(i, Fired (row_ok d))])"
| wr_dispatch: "webhook_run we db h \<Longrightarrow> dispatch_event we now et payload db = (posts, Inr (db', n)) \<Longrightarrow>
    webhook_run we db' (h @ map (\<lambda>d. (wd_subscription_id d, Fired (row_ok d))) (drop (length (wb_deliveries db)) (wb_deliveries db')))"

lemma entries_of_append [simp]: "entries_of i (h @ h') = entries_of i h @ entries_of i h'"
  by (simp add: entries_of_def)

lemma entries_of_single [simp]: "entries_of i [(j, e)] = (if j = i then [e] else [])" "entries_of i [] = []"
  by (simp_all add: entries_of_def)

lemma failures_simps [simp]:
  "failures_in_a_row [] = 0"
  "failures_in_a_row (es @ [Fired b]) = (if b then 0 else Suc (failures_in_a_row es))"
  "failures_in_a_row (es @ [Cleared]) = 0"
  "failures_in_a_row (es @ [Issued s]) = failures_in_a_row es"
  by (simp_all add: failures_in_a_row_def)

lemma last_issued_simps [simp]:
  "last_issued (es @ [Fired b]) = last_issued es" "last_issued (es @ [Cleared]) = last_issued es" "last_issued (es @ [Issued s]) = Some s"
  by (simp_all add: last_issued_def)

text \<open>What holds of one subscription with its entries.\<close>

definition sub_ok :: "webhook_env \<Rightarrow> WebhookSubscription \<Rightarrow> webhook_entry list \<Rightarrow> bool" where
  "sub_ok we s es \<longleftrightarrow> wh_failure_count s = int (failures_in_a_row es) \<and> (wh_enabled s \<longrightarrow> wh_failure_count s < we_threshold we) \<and>
     (\<exists>secret. last_issued es = Some secret \<and> wh_secret_encrypted s = encrypt_secret we secret)"

definition webhook_inv :: "webhook_env \<Rightarrow> webhook_db \<Rightarrow> webhook_history \<Rightarrow> bool" where
  "webhook_inv we db h \<longleftrightarrow> distinct (map wh_id (wb_subs db)) \<and> (\<forall>s \<in> set (wb_subs db). wh_id s < wb_next db) \<and>
     (\<forall>x \<in> set h. fst x < wb_next db) \<and> (\<forall>s \<in> set (wb_subs db). sub_ok we s (entries_of (wh_id s) h))"

lemma sub_ok_fired:
  "1 \<le> we_threshold we \<Longrightarrow> sub_ok we s es \<Longrightarrow> sub_ok we (note_outcome we now b s) (es @ [Fired b])"
  by (auto simp: sub_ok_def note_outcome_def Let_def)

lemma find_sub_in: "find_sub i db = Inr s \<Longrightarrow> s \<in> set (wb_subs db) \<and> wh_id s = i"
  by (auto simp: find_sub_def find_Some_iff split: option.splits)

lemma inv_edit:
  assumes "webhook_inv we db h" "find_sub i db = Inr s" "wh_id s' = wh_id s" "sub_ok we s' (entries_of i (h @ h'))"
    "\<forall>x \<in> set h'. fst x = i" "wb_subs db' = wb_subs (update_sub s' db)" "wb_next db \<le> wb_next db'"
  shows "webhook_inv we db' (h @ h')"
proof -
  have s: "s \<in> set (wb_subs db)" "wh_id s = i" using find_sub_in [OF assms(2)] by simp_all
  have ids: "map wh_id (wb_subs db') = map wh_id (wb_subs db)" by (simp add: assms(3,6) update_sub_def comp_def)
  have "entries_of j h' = []" if "j \<noteq> i" for j using assms(5) that by (auto simp: entries_of_def filter_empty_conv)
  then have "sub_ok we x (entries_of (wh_id x) (h @ h'))" if "x \<in> set (wb_subs db')" for x
    using that assms(1,3,4) s by (auto simp: assms(6) update_sub_def webhook_inv_def)
  moreover have "wh_id x < wb_next db'" if "x \<in> set (wb_subs db')" for x
  proof -
    have "wh_id x \<in> set (map wh_id (wb_subs db))" unfolding ids [symmetric] using that by simp
    then show ?thesis using assms(1,7) by (auto simp: webhook_inv_def)
  qed
  moreover have "fst x < wb_next db'" if "x \<in> set (h @ h')" for x
    using that assms(1,5,7) s by (auto simp: webhook_inv_def)
  ultimately show ?thesis using assms(1) ids by (simp add: webhook_inv_def)
qed

lemma hook_inv_create:
  assumes "webhook_inv we db h" "1 \<le> we_threshold we" "create_subscription we secret name url types enabled actor db = Inr (db', i)"
  shows "webhook_inv we db' (h @ [(i, Issued secret)])"
proof -
  from assms(3) obtain s where s: "wb_subs db' = wb_subs db @ [s]" "i = wb_next db" "wb_next db' = Suc (wb_next db)" "wh_id s = i"
    "wh_failure_count s = 0" "wh_secret_encrypted s = encrypt_secret we secret"
    by (auto simp: create_subscription_def bindE_eq_Inr Let_def webhook_log_def split: if_splits)
  have "entries_of i h = []" using assms(1) s(2) by (auto simp: webhook_inv_def entries_of_def filter_empty_conv)
  moreover have "sub_ok we s [Issued secret]"
    using assms(2) s last_issued_simps(3) [of "[]" secret] failures_simps(4) [of "[]" secret] by (simp add: sub_ok_def)
  ultimately show ?thesis using assms(1) s by (fastforce simp: webhook_inv_def)
qed

lemma inv_update:
  assumes "webhook_inv we db h" "1 \<le> we_threshold we" "update_subscription we i u actor db = Inr db'" "find_sub i db = Inr s"
  shows "webhook_inv we db' (h @ (if wu_enabled u = Some True \<and> \<not> wh_enabled s then [(i, Cleared)] else []))"
proof -
  from assms(3,4) obtain u' where u': "check_update we u = Inr u'" "wb_subs db' = wb_subs (update_sub (apply_update u' s) db)" "wb_next db' = wb_next db"
    by (auto simp: update_subscription_def bindE_eq_Inr webhook_log_def update_sub_def split: if_splits)
  have en: "wu_enabled u' = wu_enabled u" using u'(1) by (auto simp: check_update_def bindE_eq_Inr split: if_splits option.splits)
  have s: "s \<in> set (wb_subs db)" "wh_id s = i" using find_sub_in [OF assms(4)] by simp_all
  then have "sub_ok we s (entries_of i h)" using assms(1) by (auto simp: webhook_inv_def)
  then have "sub_ok we (apply_update u' s) (entries_of i (h @ (if wu_enabled u = Some True \<and> \<not> wh_enabled s then [(i, Cleared)] else [])))"
    using assms(2) by (auto simp: sub_ok_def apply_update_def en or_else_def split: option.splits)
  then show ?thesis by (intro inv_edit [OF assms(1,4), of "apply_update u' s"]) (auto simp: u' apply_update_def)
qed

lemma inv_delete:
  assumes "webhook_inv we db h" "delete_subscription i actor db = Inr db'"
  shows "webhook_inv we db' h"
  using assms by (auto simp: delete_subscription_def bindE_eq_Inr webhook_log_def webhook_inv_def distinct_map_filter)

lemma inv_rotate:
  assumes "webhook_inv we db h" "rotate_secret we secret i actor db = Inr db'"
  shows "webhook_inv we db' (h @ [(i, Issued secret)])"
proof -
  from assms(2) obtain s where f: "find_sub i db = Inr s"
    and r: "wb_subs db' = wb_subs (update_sub (s\<lparr>wh_secret_encrypted := encrypt_secret we secret\<rparr>) db)" "wb_next db' = wb_next db"
    by (auto simp: rotate_secret_def bindE_eq_Inr webhook_log_def update_sub_def)
  have "sub_ok we s (entries_of i h)" using assms(1) find_sub_in [OF f] by (auto simp: webhook_inv_def)
  then have "sub_ok we (s\<lparr>wh_secret_encrypted := encrypt_secret we secret\<rparr>) (entries_of i (h @ [(i, Issued secret)]))"
    by (auto simp: sub_ok_def)
  then show ?thesis by (intro inv_edit [OF assms(1) f, of "s\<lparr>wh_secret_encrypted := encrypt_secret we secret\<rparr>"]) (auto simp: r)
qed

lemma inv_test:
  assumes "webhook_inv we db h" "1 \<le> we_threshold we" "test_subscription we now i et actor db = Inr (db', d, post)"
  shows "webhook_inv we db' (h @ [(i, Fired (row_ok d))])"
proof -
  from assms(3) obtain s s' smp where f: "find_sub i db = Inr s" and dl: "deliver_webhook we now (wb_next db) et smp s = Inr (s', d, post)"
    and r: "wb_subs db' = wb_subs (update_sub s' db)" "wb_next db' = Suc (wb_next db)"
    by (auto simp: test_subscription_def bindE_eq_Inr webhook_log_def update_sub_def add_delivery_def split: if_splits)
  have "sub_ok we s (entries_of i h)" using assms(1) find_sub_in [OF f] by (auto simp: webhook_inv_def)
  then have "sub_ok we s' (entries_of i (h @ [(i, Fired (row_ok d))]))" by (simp add: deliver_served(2) [OF dl] sub_ok_fired [OF assms(2)])
  then show ?thesis by (intro inv_edit [OF assms(1) f, of s']) (auto simp: r deliver_served(2) [OF dl])
qed

abbreviation fired_entries :: "WebhookDelivery list \<Rightarrow> webhook_history" where
  "fired_entries ds \<equiv> map (\<lambda>d. (wd_subscription_id d, Fired (row_ok d))) ds"

lemma row_of_sub:
  assumes "length subs = length ds" "map wd_subscription_id ds = map wh_id subs" "distinct (map wh_id subs)"
  shows "case map_of (zip (map wh_id subs) (zip subs ds)) i of
      None \<Rightarrow> i \<notin> wh_id ` set subs \<and> entries_of i (fired_entries ds) = []
    | Some (s, d) \<Rightarrow> s \<in> set subs \<and> wh_id s = i \<and> entries_of i (fired_entries ds) = [Fired (row_ok d)]"
  using assms
proof (induction subs ds rule: list_induct2)
  case (Cons s subs d ds)
  have "entries_of (wh_id s) (fired_entries ds) = []"
    using Cons.prems by (auto simp: entries_of_def filter_empty_conv) (metis image_eqI list.set_map)
  moreover have "entries_of i (fired_entries (d # ds)) =
      (if wh_id s = i then Fired (row_ok d) # entries_of i (fired_entries ds) else entries_of i (fired_entries ds))"
    using Cons.prems(1) by (simp add: entries_of_def)
  moreover note Cons.IH
  ultimately show ?case using Cons.prems by (cases "wh_id s = i") (auto simp del: list.map split: option.split_asm, auto split: option.splits)
qed simp

lemma inv_dispatch:
  assumes "webhook_inv we db h" "1 \<le> we_threshold we" "dispatch_event we now et payload db = (posts, Inr (db', n))"
  shows "webhook_inv we db' (h @ fired_entries (drop (length (wb_deliveries db)) (wb_deliveries db')))"
proof -
  let ?subs = "matching_subscriptions et db"
  have di: "distinct (map wh_id (wb_subs db))" using assms(1) by (simp add: webhook_inv_def)
  obtain ds where ds: "wb_deliveries db' = wb_deliveries db @ ds" "map wd_subscription_id ds = map wh_id ?subs" "length ds = length ?subs"
    and subs: "wb_subs db' = map (\<lambda>x. case map_of (zip (map wh_id ?subs) (zip ?subs ds)) (wh_id x) of
        None \<Rightarrow> x | Some (s, d) \<Rightarrow> note_outcome we now (row_ok d) s) (wb_subs db)" and nx: "wb_next db \<le> wb_next db'"
    by (rule dispatch_effect [OF assms(3) di], rule that, assumption+)
  have dm: "distinct (map wh_id ?subs)" using di by (simp add: matching_subscriptions_def distinct_map_filter)
  note row = row_of_sub [OF ds(3) [symmetric] ds(2) dm]
  have upd: "wh_id y = wh_id x \<and> sub_ok we y (entries_of (wh_id x) (h @ fired_entries ds))"
    if "x \<in> set (wb_subs db)" "y = (case map_of (zip (map wh_id ?subs) (zip ?subs ds)) (wh_id x) of
        None \<Rightarrow> x | Some (s, d) \<Rightarrow> note_outcome we now (row_ok d) s)" for x y
  proof (cases "map_of (zip (map wh_id ?subs) (zip ?subs ds)) (wh_id x)")
    case None
    then show ?thesis using that row [of "wh_id x"] assms(1) by (simp add: webhook_inv_def)
  next
    case (Some sd)
    obtain s d where sd: "sd = (s, d)" by fastforce
    have s: "s \<in> set ?subs" "wh_id s = wh_id x" "entries_of (wh_id x) (fired_entries ds) = [Fired (row_ok d)]"
      using row [of "wh_id x"] Some sd by simp_all
    then have "s \<in> set (wb_subs db)" by (simp add: matching_subscriptions_def)
    then have "sub_ok we s (entries_of (wh_id x) h)" using assms(1) s(2) by (auto simp: webhook_inv_def)
    then show ?thesis using that(2) s Some sd sub_ok_fired [OF assms(2)] by simp
  qed
  have ids: "map wh_id (wb_subs db') = map wh_id (wb_subs db)" using upd by (auto simp: subs)
  have "sub_ok we y (entries_of (wh_id y) (h @ fired_entries ds))" if "y \<in> set (wb_subs db')" for y
  proof -
    from that obtain x where "y = (case map_of (zip (map wh_id ?subs) (zip ?subs ds)) (wh_id x) of
        None \<Rightarrow> x | Some (s, d) \<Rightarrow> note_outcome we now (row_ok d) s)" "x \<in> set (wb_subs db)" unfolding subs set_map by (rule imageE)
    from upd [OF this(2,1)] show ?thesis by simp
  qed
  moreover have "wh_id y < wb_next db'" if "y \<in> set (wb_subs db')" for y
  proof -
    have "wh_id y \<in> set (map wh_id (wb_subs db))" unfolding ids [symmetric] using that by simp
    then show ?thesis using assms(1) nx by (auto simp: webhook_inv_def)
  qed
  moreover have "fst x < wb_next db'" if "x \<in> set (h @ fired_entries ds)" for x
  proof (cases "x \<in> set h")
    case True
    then show ?thesis using assms(1) nx by (auto simp: webhook_inv_def)
  next
    case False
    with that have "fst x \<in> set (map wd_subscription_id ds)" by auto
    then have "fst x \<in> wh_id ` set (wb_subs db)" unfolding ds(2) by (auto simp: matching_subscriptions_def)
    then show ?thesis using assms(1) nx by (auto simp: webhook_inv_def)
  qed
  ultimately show ?thesis using ids di by (simp add: webhook_inv_def ds(1))
qed

lemma run_inv: "webhook_run we db h \<Longrightarrow> 1 \<le> we_threshold we \<Longrightarrow> webhook_inv we db h"
proof (induction rule: webhook_run.induct)
  case (wr_start db)
  then show ?case by (simp add: webhook_inv_def)
next
  case wr_update
  then show ?case by (blast intro: inv_update)
qed (blast intro: hook_inv_create inv_delete inv_rotate inv_test inv_dispatch)+

section \<open>Properties\<close>

text \<open>C36: The breaker of a webhook counts what it says. After any administration, test deliveries and dispatches, the failure
  counter of a subscription is the number of its recorded failures since its last accepted delivery or its last
  re-enabling, and a subscription is enabled only while that number is below the threshold.\<close>

theorem webhook_breaker_exact:
  assumes "webhook_run we db h" "1 \<le> we_threshold we" "s \<in> set (wb_subs db)"
  shows "wh_failure_count s = int (failures_in_a_row (entries_of (wh_id s) h)) \<and>
    (wh_enabled s \<longrightarrow> int (failures_in_a_row (entries_of (wh_id s) h)) < we_threshold we)"
  using run_inv [OF assms(1,2)] assms(3) by (auto simp: webhook_inv_def sub_ok_def)

lemma deliver_total:
  "decrypt_secret we (wh_secret_encrypted sub) = Inr secret \<Longrightarrow> \<exists>r. deliver_webhook we now i et payload sub = Inr r"
  by (simp add: deliver_webhook_def Let_def split: prod.split)

lemma deliver_all_total:
  "\<forall>s \<in> set subs. \<exists>x. decrypt_secret we (wh_secret_encrypted s) = Inr x \<Longrightarrow> \<exists>posts db'. deliver_all we now et payload subs db = (posts, Inr db')"
proof (induction subs arbitrary: db)
  case (Cons s subs)
  then obtain s' d post where "deliver_webhook we now (wb_next db) et payload s = Inr (s', d, post)" using deliver_total by (metis list.set_intros(1) prod_cases3)
  moreover obtain posts db' where "deliver_all we now et payload subs (add_delivery d (update_sub s' db)) = (posts, Inr db')"
    using Cons by (meson list.set_intros(2))
  ultimately show ?case by simp
qed simp

lemma decrypt_issued:
  "(\<And>b. we_decrypt we (we_encrypt we b) = Some b) \<Longrightarrow> decrypt_secret we (encrypt_secret we s) = Inr s"
  by (simp add: decrypt_secret_def encrypt_secret_def utf8_roundtrip)

text \<open>C37: A dispatch reaches every subscriber, signed with its current secret. It succeeds, and sends one request to each enabled
  subscription of the event type, in order, tried again only while the answer is a server or network error and
  the budget lasts; the receiver verifies it with the secret issued last to the operator; and each delivery has
  one new row, delivered exactly when the last attempt was accepted.\<close>

theorem webhook_dispatch_exact:
  assumes "webhook_run we db h" "1 \<le> we_threshold we" "\<And>b. we_decrypt we (we_encrypt we b) = Some b"
  shows "\<exists>posts db' ds. dispatch_event we now et payload db = (posts, Inr (db', length ds)) \<and> wb_deliveries db' = wb_deliveries db @ ds \<and>
    list_all2 (\<lambda>s (d, post, n). wd_subscription_id d = wh_id s \<and> wp_url post = wh_url s \<and>
        wp_body post = serialize_body (build_envelope now et payload) \<and>
        (\<exists>secret. last_issued (entries_of (wh_id s) h) = Some secret \<and>
           map_of (wp_headers post) ''X-Vigil-Signature'' = Some (''sha256='' @ sign_payload we secret (wp_body post))) \<and>
        wd_attempts d = n \<and> 1 \<le> n \<and> n \<le> attempt_budget we \<and> (\<forall>j. 0 < j \<and> j < n \<longrightarrow> transient (we_http we post j)) \<and>
        (transient (we_http we post n) \<longrightarrow> n = attempt_budget we) \<and>
        wd_status d = (if accepted (we_http we post n) then ''delivered'' else ''failed''))
      (filter (\<lambda>s. wh_enabled s \<and> et \<in> set (wh_event_types s)) (wb_subs db)) (zip ds posts)"
proof -
  let ?subs = "matching_subscriptions et db"
  have inv: "webhook_inv we db h" by (rule run_inv [OF assms(1,2)])
  then have di: "distinct (map wh_id (wb_subs db))" by (simp add: webhook_inv_def)
  have dec: "\<exists>secret. last_issued (entries_of (wh_id s) h) = Some secret \<and> decrypt_secret we (wh_secret_encrypted s) = Inr secret"
    if "s \<in> set ?subs" for s
  proof -
    have "sub_ok we s (entries_of (wh_id s) h)" using inv that by (simp add: webhook_inv_def matching_subscriptions_def)
    then show ?thesis using decrypt_issued [of we, OF assms(3)] by (auto simp: sub_ok_def)
  qed
  then obtain posts db' where d: "dispatch_event we now et payload db = (posts, Inr (db', length ?subs))"
    using deliver_all_total [of ?subs we now et payload db] by (fastforce simp: dispatch_event_def Let_def)
  obtain ds where ds: "list_all2 (\<lambda>sub (d, pn). served we now et payload sub d pn) ?subs (zip ds posts)"
    "wb_deliveries db' = wb_deliveries db @ ds" "length ds = length ?subs"
    by (rule dispatch_effect [OF d di], rule that, assumption+)
  have "list_all2 (\<lambda>s (d, post, n). wd_subscription_id d = wh_id s \<and> wp_url post = wh_url s \<and>
        wp_body post = serialize_body (build_envelope now et payload) \<and>
        (\<exists>secret. last_issued (entries_of (wh_id s) h) = Some secret \<and>
           map_of (wp_headers post) ''X-Vigil-Signature'' = Some (''sha256='' @ sign_payload we secret (wp_body post))) \<and>
        wd_attempts d = n \<and> 1 \<le> n \<and> n \<le> attempt_budget we \<and> (\<forall>j. 0 < j \<and> j < n \<longrightarrow> transient (we_http we post j)) \<and>
        (transient (we_http we post n) \<longrightarrow> n = attempt_budget we) \<and>
        wd_status d = (if accepted (we_http we post n) then ''delivered'' else ''failed'')) ?subs (zip ds posts)"
    using ds(1)
  proof (rule list.rel_mono_strong)
    fix s x assume "s \<in> set ?subs" "x \<in> set (zip ds posts)" "case x of (d, pn) \<Rightarrow> served we now et payload s d pn"
    with dec [of s] show "case x of (d, post, n) \<Rightarrow> wd_subscription_id d = wh_id s \<and> wp_url post = wh_url s \<and>
        wp_body post = serialize_body (build_envelope now et payload) \<and>
        (\<exists>secret. last_issued (entries_of (wh_id s) h) = Some secret \<and>
           map_of (wp_headers post) ''X-Vigil-Signature'' = Some (''sha256='' @ sign_payload we secret (wp_body post))) \<and>
        wd_attempts d = n \<and> 1 \<le> n \<and> n \<le> attempt_budget we \<and> (\<forall>j. 0 < j \<and> j < n \<longrightarrow> transient (we_http we post j)) \<and>
        (transient (we_http we post n) \<longrightarrow> n = attempt_budget we) \<and>
        wd_status d = (if accepted (we_http we post n) then ''delivered'' else ''failed'')"
      by (auto simp: served_def webhook_headers_def)
  qed
  then show ?thesis using d ds(2,3) by (auto simp: matching_subscriptions_def)
qed

section \<open>Where events get lost\<close>

text \<open>One subscription whose secret cannot be decrypted keeps an event from every subscription after it.\<close>

lemma broken_secret_stops_fanout:
  "decrypt_secret we (wh_secret_encrypted s) = Inl e \<Longrightarrow> deliver_all we now et payload (s # subs) db = ([], Inl e)"
  by (simp add: deliver_webhook_def Let_def)

text \<open>The offset of an event whose dispatch failed is passed over by the next event that is dispatched.\<close>

lemma failed_event_passed_over:
  assumes "dispatch_event we now et1 p1 db = (posts1, Inl e)" "dispatch_event we now et2 p2 db = (posts2, Inr (db', n))"
  shows "\<exists>st. snd (webhook_consume we now (k, Document (PDict [(''event_type'', PStr et1), (''payload'', PDict p1)])) (db, c)) = Inr st \<and>
    snd (webhook_consume we now (k + 1, Document (PDict [(''event_type'', PStr et2), (''payload'', PDict p2)])) st) = Inr (db', k + 2)"
  using assms by (simp add: webhook_consume_def dget_def)

section \<open>Witnesses\<close>

definition demo_we :: webhook_env where
  "demo_we = \<lparr>we_encrypt = (\<lambda>b. b), we_decrypt = Some, we_hmac = (\<lambda>k b. k @ b), we_sha256 = (\<lambda>b. b), we_http = (\<lambda>p n. Reply 200 []),
     we_valid_url = (\<lambda>u. True), we_retry_max = 1, we_threshold = 2\<rparr>"

definition demo_hooks :: webhook_db where
  "demo_hooks = \<lparr>wb_subs = [], wb_deliveries = [], wb_audit = [], wb_next = 1\<rparr>"

lemma demo_creates:
  "\<exists>db' s. create_subscription demo_we ''k'' ''n'' ''u'' [''job.failed''] True (demo_actor ADMIN) demo_hooks = Inr (db', 1) \<and> wb_subs db' = [s] \<and>
     wh_id s = 1 \<and> wh_enabled s \<and> wh_event_types s = [''job.failed'']"
  by (simp add: create_subscription_def RequireAdmin_def require_role_def has_role_def demo_actor_def demo_user_def check_event_types_def
      WEBHOOK_EVENT_TYPES_def webhook_name_ok_def demo_we_def demo_hooks_def webhook_log_def Let_def)

text \<open>Witness: the counter of a new subscription.\<close>

theorem webhook_breaker_exact_witness:
  "\<exists>db s. webhook_run demo_we db [(1, Issued ''k'')] \<and> s \<in> set (wb_subs db) \<and> wh_failure_count s = 0"
proof -
  from demo_creates obtain db s where c: "create_subscription demo_we ''k'' ''n'' ''u'' [''job.failed''] True (demo_actor ADMIN) demo_hooks = Inr (db, 1)"
    "wb_subs db = [s]" "wh_id s = 1" by blast
  have "webhook_run demo_we demo_hooks []" by (rule wr_start) (simp add: demo_hooks_def)
  from wr_create [OF this c(1)] have r: "webhook_run demo_we db [(1, Issued ''k'')]" by simp
  have "failures_in_a_row [Issued ''k''] = 0" using failures_simps(4) [of "[]"] by simp
  with webhook_breaker_exact [OF r, of s] c r show ?thesis by (auto simp: demo_we_def)
qed

text \<open>Witness: one request to a new subscription.\<close>

theorem webhook_dispatch_exact_witness:
  "\<exists>db posts db' n. webhook_run demo_we db [(1, Issued ''k'')] \<and> dispatch_event demo_we 0 ''job.failed'' [] db = (posts, Inr (db', n)) \<and> n = 1"
proof -
  from demo_creates obtain db s where c: "create_subscription demo_we ''k'' ''n'' ''u'' [''job.failed''] True (demo_actor ADMIN) demo_hooks = Inr (db, 1)"
    "wb_subs db = [s]" "wh_enabled s" "wh_event_types s = [''job.failed'']" by blast
  have "webhook_run demo_we demo_hooks []" by (rule wr_start) (simp add: demo_hooks_def)
  from wr_create [OF this c(1)] have r: "webhook_run demo_we db [(1, Issued ''k'')]" by simp
  have t: "1 \<le> we_threshold demo_we" and e: "\<And>b. we_decrypt demo_we (we_encrypt demo_we b) = Some b" by (simp_all add: demo_we_def)
  obtain posts db' and ds :: "WebhookDelivery list" where d: "dispatch_event demo_we 0 ''job.failed'' [] db = (posts, Inr (db', length ds))"
    using webhook_dispatch_exact [OF r t e, of 0 "''job.failed''" "[]"] by blast
  then have "length ds = length (matching_subscriptions ''job.failed'' db)"
    by (auto simp: dispatch_event_def Let_def split: prod.splits sum.splits)
  then have "length ds = 1" using c by (simp add: matching_subscriptions_def)
  with d r show ?thesis by blast
qed

end
