(* ===== verification/Allowlist.thy ===== *)
theory Allowlist
  imports Policy_Push
begin

text \<open>
  The application allowlist of a host group (backend/app/models/allowlist.py): modes, approved binaries and their push to
  the agents (services/allowlist.py, api/allowlist.py), and the learner that records what agents run while a group
  is in learn mode (workers/allowlist_learner.py).
\<close>

section \<open>Tables\<close>

datatype AllowMode = MODE_OFF | MODE_LEARN | MODE_ENFORCE

fun allow_mode_value :: "AllowMode \<Rightarrow> string" where
  "allow_mode_value MODE_OFF = ''off''"
| "allow_mode_value MODE_LEARN = ''learn''"
| "allow_mode_value MODE_ENFORCE = ''enforce''"

record AllowlistModeRow =
  am_group :: uuid
  am_mode :: AllowMode
  am_enabled_at :: "datetime option"
  am_learn_started_at :: "datetime option"
  am_learn_completed_at :: "datetime option"
  am_updated_by :: "uuid option"

record AllowlistEntry =
  ale_id :: uuid
  ale_group :: uuid
  ale_sha256 :: string
  ale_exec_path :: "string option"
  ale_publisher :: "string option"
  ale_first_seen :: "datetime option"
  ale_last_seen :: "datetime option"
  ale_learned :: bool
  ale_manual :: bool
  ale_created_by :: "uuid option"

record Observation =
  ob_host :: uuid
  ob_sha256 :: string
  ob_exec_path :: "string option"

text \<open>The tables, the groups with their tenants, and the learner's queue in memory.\<close>

record allow_db =
  ad_jobs :: job_db
  ad_groups :: "(uuid \<times> uuid) list"
  ad_modes :: "AllowlistModeRow list"
  ad_entries :: "AllowlistEntry list"
  ad_queue :: "Observation list"

section \<open>The service\<close>

definition current_mode :: "allow_db \<Rightarrow> uuid \<Rightarrow> AllowMode" where
  "current_mode db g = (case find (\<lambda>r. am_group r = g) (ad_modes db) of None \<Rightarrow> MODE_OFF | Some r \<Rightarrow> am_mode r)"

definition list_entries_for_group :: "allow_db \<Rightarrow> uuid \<Rightarrow> AllowlistEntry list" where
  "list_entries_for_group db g = filter (\<lambda>e. ale_group e = g) (ad_entries db)"

definition fresh_entry :: "allow_db \<Rightarrow> uuid" where
  "fresh_entry db = j_next (ad_jobs db)"

definition add_entry :: "AllowlistEntry \<Rightarrow> allow_db \<Rightarrow> allow_db" where
  "add_entry e db = db\<lparr>ad_entries := ad_entries db @ [e], ad_jobs := (ad_jobs db)\<lparr>j_next := j_next (ad_jobs db) + 1\<rparr>\<rparr>"

definition is_pair :: "uuid \<Rightarrow> string \<Rightarrow> AllowlistEntry \<Rightarrow> bool" where
  "is_pair g sha e \<longleftrightarrow> ale_group e = g \<and> ale_sha256 e = sha"

definition some_or :: "'a option \<Rightarrow> 'a option \<Rightarrow> 'a option" where
  "some_or old new = (case old of None \<Rightarrow> new | Some x \<Rightarrow> Some x)"

text \<open>A text argument that is empty counts as missing.\<close>

definition given :: "string option \<Rightarrow> string option" where
  "given x = (case x of Some [] \<Rightarrow> None | _ \<Rightarrow> x)"

definition record_observed_hash ::
  "datetime \<Rightarrow> uuid \<Rightarrow> string \<Rightarrow> string option \<Rightarrow> string option \<Rightarrow> allow_db \<Rightarrow> allow_db result" where
  "record_observed_hash now g sha256 exec_path publisher db =
     (let norm = lower (strip sha256) in
      if length norm \<noteq> 64 then Inl ValueError
      else if list_ex (is_pair g norm) (ad_entries db)
      then Inr (db\<lparr>ad_entries := map (\<lambda>e. if is_pair g norm e
              then e\<lparr>ale_last_seen := Some now, ale_exec_path := some_or (ale_exec_path e) (given exec_path),
                     ale_publisher := some_or (ale_publisher e) (given publisher)\<rparr> else e) (ad_entries db)\<rparr>)
      else Inr (add_entry \<lparr>ale_id = fresh_entry db, ale_group = g, ale_sha256 = norm, ale_exec_path = exec_path, ale_publisher = publisher,
             ale_first_seen = Some now, ale_last_seen = Some now, ale_learned = True, ale_manual = False, ale_created_by = None\<rparr> db))"

definition allowlist_payload :: "AllowMode \<times> string list \<Rightarrow> pydict" where
  "allowlist_payload s = [(''mode'', PStr (allow_mode_value (fst s))), (''hashes'', str_list (snd s))]"

definition group_state :: "allow_db \<Rightarrow> uuid \<Rightarrow> AllowMode \<times> string list" where
  "group_state db g = (current_mode db g, map ale_sha256 (list_entries_for_group db g))"

definition allowlist_push_host :: "AllowMode \<times> string list \<Rightarrow> uuid option \<Rightarrow> Host \<Rightarrow> job_db \<Rightarrow> job_db" where
  "allowlist_push_host s user h db =
     append_command (new_command db (hst_id h) Cmd_ALLOWLIST_SYNC (allowlist_payload s) None None user) db"

definition hosts_in_group :: "job_db \<Rightarrow> uuid \<Rightarrow> Host list" where
  "hosts_in_group db g = filter (\<lambda>h. (hst_id h, g) \<in> set (j_host_in_group db)) (j_hosts db)"

definition push_allowlist_to_agent :: "uuid \<Rightarrow> uuid option \<Rightarrow> allow_db \<Rightarrow> allow_db \<times> nat" where
  "push_allowlist_to_agent g user db =
     (let hs = hosts_in_group (ad_jobs db) g
      in (db\<lparr>ad_jobs := fold (allowlist_push_host (group_state db g) user) hs (ad_jobs db)\<rparr>, length hs))"

definition mode_row :: "datetime \<Rightarrow> uuid \<Rightarrow> AllowMode \<Rightarrow> uuid option \<Rightarrow> AllowlistModeRow option \<Rightarrow> AllowlistModeRow" where
  "mode_row now g mode user old =
     \<lparr>am_group = g, am_mode = mode, am_enabled_at = (if mode \<noteq> MODE_OFF then Some now else None),
      am_learn_started_at = (if mode = MODE_LEARN then Some now else (case old of None \<Rightarrow> None | Some r \<Rightarrow> am_learn_started_at r)),
      am_learn_completed_at = (if mode = MODE_ENFORCE then Some now else (case old of None \<Rightarrow> None | Some r \<Rightarrow> am_learn_completed_at r)),
      am_updated_by = user\<rparr>"

definition upsert_mode :: "datetime \<Rightarrow> uuid \<Rightarrow> AllowMode \<Rightarrow> uuid option \<Rightarrow> allow_db \<Rightarrow> allow_db" where
  "upsert_mode now g mode user db =
     (case find (\<lambda>r. am_group r = g) (ad_modes db) of
        None \<Rightarrow> db\<lparr>ad_modes := ad_modes db @ [mode_row now g mode user None]\<rparr>
      | Some r \<Rightarrow> db\<lparr>ad_modes := map (\<lambda>x. if am_group x = g then mode_row now g mode user (Some x) else x) (ad_modes db)\<rparr>)"

section \<open>The routes\<close>

definition require_group :: "allow_db \<Rightarrow> uuid \<Rightarrow> Actor \<Rightarrow> unit result" where
  "require_group db g actor = (case map_of (ad_groups db) g of
       None \<Rightarrow> Inl (not_found ''host_group'' g)
     | Some tenant \<Rightarrow> (if tenant \<noteq> actor_tenant_id actor then Inl (not_found ''host_group'' g) else Inr ()))"

definition update_mode :: "datetime \<Rightarrow> uuid \<Rightarrow> AllowMode \<Rightarrow> Actor \<Rightarrow> allow_db \<Rightarrow> (allow_db \<times> audit_request) result" where
  "update_mode now g mode actor db =
     bindE (RequireAdmin actor) (\<lambda>actor.
     bindE (require_group db g actor) (\<lambda>_.
       case push_allowlist_to_agent g (Some (u_id (actor_user actor))) (upsert_mode now g mode (Some (u_id (actor_user actor))) db) of
         (db, queued) \<Rightarrow> Inr (db, push_audit actor ''allowlist.mode.set'' ''host_group'' (uuid_str g)
           [(''mode'', PStr (allow_mode_value mode)), (''commands_queued'', PInt (int queued))])))"

text \<open>\<open>bytes.fromhex\<close> skips white space between bytes, so the check accepts some texts that are not 64 digits.\<close>

definition normalize_sha256 :: "string \<Rightarrow> string result" where
  "normalize_sha256 value =
     (if length value \<noteq> 64 then Inl (HTTPError 422 ''validation error'')
      else (let v = lower (strip value) in
        if length v \<noteq> 64 then Inl (HTTPError 422 ''validation error'')
        else (case fromhex v of Inl _ \<Rightarrow> Inl (HTTPError 422 ''validation error'') | Inr _ \<Rightarrow> Inr v)))"

definition pin_entry :: "uuid \<Rightarrow> string option \<Rightarrow> string option \<Rightarrow> AllowlistEntry \<Rightarrow> AllowlistEntry" where
  "pin_entry user exec_path publisher e =
     e\<lparr>ale_manual := True, ale_exec_path := (case given exec_path of None \<Rightarrow> ale_exec_path e | Some p \<Rightarrow> Some p),
       ale_publisher := (case given publisher of None \<Rightarrow> ale_publisher e | Some p \<Rightarrow> Some p),
       ale_created_by := some_or (ale_created_by e) (Some user)\<rparr>"

definition put_entry :: "uuid \<Rightarrow> uuid \<Rightarrow> string \<Rightarrow> string option \<Rightarrow> string option \<Rightarrow> allow_db \<Rightarrow> allow_db \<times> uuid" where
  "put_entry user g sha exec_path publisher db =
     (case find (is_pair g sha) (ad_entries db) of
        Some e \<Rightarrow> (db\<lparr>ad_entries := map (\<lambda>x. if is_pair g sha x then pin_entry user exec_path publisher x else x) (ad_entries db)\<rparr>, ale_id e)
      | None \<Rightarrow> (add_entry \<lparr>ale_id = fresh_entry db, ale_group = g, ale_sha256 = sha, ale_exec_path = exec_path, ale_publisher = publisher,
           ale_first_seen = None, ale_last_seen = None, ale_learned = False, ale_manual = True, ale_created_by = Some user\<rparr> db, fresh_entry db))"

definition entry_audit :: "Actor \<Rightarrow> string \<Rightarrow> uuid \<Rightarrow> uuid \<Rightarrow> string \<Rightarrow> nat \<Rightarrow> audit_request" where
  "entry_audit actor action i g sha queued = push_audit actor action ''allowlist_entry'' (uuid_str i)
     [(''host_group_id'', PStr (uuid_str g)), (''sha256'', PStr sha), (''commands_queued'', PInt (int queued))]"

definition create_allowlist_entry ::
  "uuid \<Rightarrow> string \<Rightarrow> string option \<Rightarrow> string option \<Rightarrow> Actor \<Rightarrow> allow_db \<Rightarrow> (allow_db \<times> audit_request) result" where
  "create_allowlist_entry g sha256 exec_path publisher actor db =
     bindE (RequireAdmin actor) (\<lambda>actor.
     bindE (normalize_sha256 sha256) (\<lambda>sha.
     bindE (require_group db g actor) (\<lambda>_.
       case put_entry (u_id (actor_user actor)) g sha exec_path publisher db of
         (db, i) \<Rightarrow> (case push_allowlist_to_agent g (Some (u_id (actor_user actor))) db of
           (db, queued) \<Rightarrow> Inr (db, entry_audit actor ''allowlist.entry.create'' i g sha queued)))))"

definition delete_allowlist_entry :: "uuid \<Rightarrow> uuid \<Rightarrow> Actor \<Rightarrow> allow_db \<Rightarrow> (allow_db \<times> audit_request) result" where
  "delete_allowlist_entry g entry_id actor db =
     bindE (RequireAdmin actor) (\<lambda>actor.
     bindE (require_group db g actor) (\<lambda>_.
       case find (\<lambda>e. ale_id e = entry_id) (ad_entries db) of
         None \<Rightarrow> Inl (not_found ''allowlist_entry'' entry_id)
       | Some row \<Rightarrow>
           (if ale_group row \<noteq> g then Inl (not_found ''allowlist_entry'' entry_id)
            else if current_mode db g = MODE_ENFORCE \<and> length (list_entries_for_group db g) \<le> 1
            then Inl (bad_request ''refusing to delete the last allowlist entry while in enforce mode'')
            else (case push_allowlist_to_agent g (Some (u_id (actor_user actor)))
                    (db\<lparr>ad_entries := filter (\<lambda>e. ale_id e \<noteq> entry_id) (ad_entries db)\<rparr>) of
                (db, queued) \<Rightarrow> Inr (db, entry_audit actor ''allowlist.entry.delete'' entry_id g (ale_sha256 row) queued)))))"

section \<open>The learner\<close>

definition QUEUE_LIMIT :: nat where
  "QUEUE_LIMIT = 10000"

text \<open>A full \<open>deque\<close> drops its oldest element.\<close>

definition stage_observation :: "uuid \<Rightarrow> string \<Rightarrow> string option \<Rightarrow> Observation list \<Rightarrow> Observation list" where
  "stage_observation host sha256 exec_path queue =
     (let norm = lower (strip sha256) in
      if sha256 = [] \<or> length norm \<noteq> 64 then queue
      else (let q = queue @ [\<lparr>ob_host = host, ob_sha256 = norm, ob_exec_path = exec_path\<rparr>] in drop (length q - QUEUE_LIMIT) q))"

definition learn_groups :: "allow_db \<Rightarrow> uuid \<Rightarrow> uuid list" where
  "learn_groups db host =
     map snd (filter (\<lambda>(h, g). h = host \<and> list_ex (\<lambda>r. am_group r = g \<and> am_mode r = MODE_LEARN) (ad_modes db)) (j_host_in_group (ad_jobs db)))"

text \<open>The inner loop over the groups of one observation: tables, pairs seen in this pass, upserts.\<close>

fun persist_groups ::
  "datetime \<Rightarrow> Observation \<Rightarrow> uuid list \<Rightarrow> allow_db \<times> (uuid \<times> string) list \<times> nat \<Rightarrow> (allow_db \<times> (uuid \<times> string) list \<times> nat) result" where
  "persist_groups now ob [] st = Inr st"
| "persist_groups now ob (g # gs) (db, seen, recorded) =
     (if (g, ob_sha256 ob) \<in> set seen then persist_groups now ob gs (db, seen, recorded)
      else bindE (record_observed_hash now g (ob_sha256 ob) (ob_exec_path ob) None db) (\<lambda>db.
        persist_groups now ob gs (db, (g, ob_sha256 ob) # seen, recorded + 1)))"

fun persist_batch ::
  "datetime \<Rightarrow> (uuid \<Rightarrow> uuid list) \<Rightarrow> Observation list \<Rightarrow> allow_db \<times> (uuid \<times> string) list \<times> nat \<Rightarrow> (allow_db \<times> (uuid \<times> string) list \<times> nat) result" where
  "persist_batch now groups [] st = Inr st"
| "persist_batch now groups (ob # obs) st = bindE (persist_groups now ob (groups (ob_host ob)) st) (\<lambda>st. persist_batch now groups obs st)"

text \<open>One pass: the queue is drained first, so a failure loses it.\<close>

definition learner_run_once :: "datetime \<Rightarrow> allow_db \<Rightarrow> allow_db \<times> nat result" where
  "learner_run_once now db =
     (let obs = ad_queue db; db0 = db\<lparr>ad_queue := []\<rparr> in
      case persist_batch now (learn_groups db0) obs (db0, [], 0) of
        Inl e \<Rightarrow> (db0, Inl e)
      | Inr (db', seen, recorded) \<Rightarrow> (db', Inr recorded))"

end
