(* ===== verification/Allowlist_Correct.thy ===== *)
theory Allowlist_Correct
  imports Allowlist Policy_Push_Correct
begin

text \<open>
  The allowlist keeps the contract of a policy push, so an edit reaches every agent of its group; and the learner
  extends the lists of groups in learn mode by what was observed there, and nothing else.
\<close>

section \<open>The push\<close>

definition allow_payloads :: "AllowMode \<times> string list \<Rightarrow> Host \<Rightarrow> uuid list \<Rightarrow> (CommandKind \<times> pydict) list" where
  "allow_payloads s h groups = [(Cmd_ALLOWLIST_SYNC, allowlist_payload s)]"

fun wire_mode :: "AllowMode \<Rightarrow> AllowlistMode" where
  "wire_mode MODE_OFF = ALLOWLIST_MODE_OFF"
| "wire_mode MODE_LEARN = ALLOWLIST_MODE_LEARN"
| "wire_mode MODE_ENFORCE = ALLOWLIST_MODE_ENFORCE"

definition wire_hashes :: "string list \<Rightarrow> bytes list" where
  "wire_hashes hs = List.map_filter (\<lambda>h. wire_hash (PStr h)) hs"

lemma allowlist_body_payload:
  "allowlist_body (allowlist_payload (mode, hs)) = Inr (Some (Pb_allowlist_sync (wire_mode mode) (wire_hashes hs)))"
proof -
  have "List.map_filter wire_hash (map PStr hs) = wire_hashes hs"
    by (induction hs) (simp_all add: wire_hashes_def map_filter_simps split: option.split)
  moreover have "allowlist_mode (allow_mode_value mode) = wire_mode mode" "allow_mode_value mode \<noteq> []" by (cases mode; simp add: allowlist_mode_def)+
  ultimately show ?thesis by (simp add: allowlist_body_def allowlist_payload_def Let_def py_or_def [of "PStr _"])
qed

interpretation allow: policy_push allow_payloads allowlist_push_host
proof
  show "queued db h (allow_payloads s h (group_ids_of db (hst_id h))) (allowlist_push_host s user h db)" for db h s user
    using queued_append [of "new_command db (hst_id h) Cmd_ALLOWLIST_SYNC (allowlist_payload s) None None user" db h]
    by (simp add: allowlist_push_host_def allow_payloads_def kind_payload_def new_command_def)
  show "\<exists>b. command_body k p = Inr (Some b)" if "(k, p) \<in> set (allow_payloads s h groups)" for k p s h groups
    using that by (cases s) (simp add: allow_payloads_def allowlist_body_payload)
qed

text \<open>What an agent enforces after the commands it was sent.\<close>

fun allow_apply :: "pb_body \<Rightarrow> AllowlistMode \<times> bytes list \<Rightarrow> AllowlistMode \<times> bytes list" where
  "allow_apply (Pb_allowlist_sync m hs) st = (m, hs)"
| "allow_apply _ st = st"

definition enforced_after :: "Command list \<Rightarrow> AllowlistMode \<times> bytes list \<Rightarrow> AllowlistMode \<times> bytes list" where
  "enforced_after cs = fold allow_apply (List.map_filter translate cs)"

lemma enforced_after_bodies: "enforced_after cs = fold allow_apply (bodies (map kind_payload cs))"
proof -
  have "List.map_filter translate cs = bodies (map kind_payload cs)"
    by (induction cs) (simp_all add: bodies_def map_filter_simps translate_body_of split: option.split)
  then show ?thesis by (simp add: enforced_after_def)
qed

lemma bodies_allow: "bodies (allow_payloads (mode, hs) h gs) = [Pb_allowlist_sync (wire_mode mode) (wire_hashes hs)]"
  by (simp add: bodies_def allow_payloads_def body_of_def allowlist_body_payload map_filter_simps)

lemma find_host_in:
  "distinct (map hst_id hs) \<Longrightarrow> h \<in> set hs \<Longrightarrow> find (\<lambda>x. hst_id x = hst_id h) hs = Some h"
  by (induction hs) (auto simp: image_iff)

lemma push_allowlist_effect:
  assumes "distinct (map hst_id (j_hosts (ad_jobs db)))" "push_allowlist_to_agent g user db = (db', n)"
  shows "ad_modes db' = ad_modes db" "ad_entries db' = ad_entries db" "j_hosts (ad_jobs db') = j_hosts (ad_jobs db)"
    "h \<in> set (j_hosts (ad_jobs db)) \<Longrightarrow> (hst_id h, g) \<in> set (j_host_in_group (ad_jobs db)) \<Longrightarrow>
       enforced_after (pending_commands (hst_id h) (ad_jobs db')) st =
         (wire_mode (current_mode db' g), wire_hashes (map ale_sha256 (list_entries_for_group db' g)))"
    "(i, g) \<notin> set (j_host_in_group (ad_jobs db)) \<Longrightarrow>
       map kind_payload (pending_commands i (ad_jobs db')) = map kind_payload (pending_commands i (ad_jobs db))"
proof -
  let ?hs = "hosts_in_group (ad_jobs db) g"
  have db': "db' = db\<lparr>ad_jobs := allow.push_hosts (group_state db g) user ?hs (ad_jobs db)\<rparr>"
    using assms(2) by (simp add: push_allowlist_to_agent_def allow.push_hosts_def Let_def)
  have d: "distinct (map hst_id ?hs)" using assms(1) by (simp add: hosts_in_group_def distinct_map_filter)
  note p = allow.push_hosts_pending [OF d, of _ "group_state db g" user "ad_jobs db"]
  show "ad_modes db' = ad_modes db" "ad_entries db' = ad_entries db" "j_hosts (ad_jobs db') = j_hosts (ad_jobs db)"
    by (simp_all add: db' allow.push_hosts_frame)
  have gs: "group_state db' g = group_state db g" by (simp add: db' group_state_def current_mode_def list_entries_for_group_def)
  show "enforced_after (pending_commands (hst_id h) (ad_jobs db')) st =
         (wire_mode (current_mode db' g), wire_hashes (map ale_sha256 (list_entries_for_group db' g)))"
    if "h \<in> set (j_hosts (ad_jobs db))" "(hst_id h, g) \<in> set (j_host_in_group (ad_jobs db))"
  proof -
    have "h \<in> set ?hs" using that by (simp add: hosts_in_group_def)
    then have f: "find (\<lambda>x. hst_id x = hst_id h) ?hs = Some h" by (rule find_host_in [OF d])
    have "bodies (allow_payloads (group_state db g) h xs) = [Pb_allowlist_sync (wire_mode (current_mode db' g))
        (wire_hashes (map ale_sha256 (list_entries_for_group db' g)))]" for xs
      unfolding gs [symmetric] by (simp add: group_state_def bodies_allow)
    then show ?thesis unfolding enforced_after_bodies by (simp add: db' p f bodies_append)
  qed
  show "map kind_payload (pending_commands i (ad_jobs db')) = map kind_payload (pending_commands i (ad_jobs db))"
    if "(i, g) \<notin> set (j_host_in_group (ad_jobs db))"
  proof -
    have "find (\<lambda>h. hst_id h = i) ?hs = None" using that by (auto simp: find_None_iff hosts_in_group_def)
    then show ?thesis by (simp add: db' p)
  qed
qed

section \<open>Edits\<close>

datatype allow_edit = SetMode AllowMode | Approve string "string option" "string option" | Revoke uuid

fun apply_edit :: "datetime \<Rightarrow> uuid \<Rightarrow> Actor \<Rightarrow> allow_edit \<Rightarrow> allow_db \<Rightarrow> (allow_db \<times> audit_request) result" where
  "apply_edit now g actor (SetMode mode) db = update_mode now g mode actor db"
| "apply_edit now g actor (Approve sha path pub) db = create_allowlist_entry g sha path pub actor db"
| "apply_edit now g actor (Revoke i) db = delete_allowlist_entry g i actor db"

definition approved :: "allow_db \<Rightarrow> uuid \<Rightarrow> string set" where
  "approved db g = ale_sha256 ` set (list_entries_for_group db g)"

lemma pushed_Inr: "(case p of (a, b) \<Rightarrow> Inr (a, f a b)) = Inr (x, y) \<longleftrightarrow> (\<exists>b. p = (x, b) \<and> y = f x b)"
  by (cases p) auto

text \<open>The tables of an edit before its push.\<close>

lemma edit_push:
  assumes "apply_edit now g actor ed db = Inr (db', rq)"
  obtains db1 user n where "push_allowlist_to_agent g user db1 = (db', n)" "j_hosts (ad_jobs db1) = j_hosts (ad_jobs db)"
    "j_host_in_group (ad_jobs db1) = j_host_in_group (ad_jobs db)" "j_commands (ad_jobs db1) = j_commands (ad_jobs db)"
    "case ed of SetMode mode \<Rightarrow> db1 = upsert_mode now g mode user db
      | Approve sha path pub \<Rightarrow> (\<exists>v u. normalize_sha256 sha = Inr v \<and> db1 = fst (put_entry u g v path pub db))
      | Revoke i \<Rightarrow> (\<exists>e \<in> set (ad_entries db). ale_id e = i \<and> ale_group e = g) \<and>
          db1 = db\<lparr>ad_entries := filter (\<lambda>e. ale_id e \<noteq> i) (ad_entries db)\<rparr>"
proof (cases ed)
  case (SetMode mode)
  with assms obtain a :: Actor and n where "push_allowlist_to_agent g (Some (u_id (actor_user a))) (upsert_mode now g mode (Some (u_id (actor_user a))) db) = (db', n)"
    by (auto simp: update_mode_def bindE_eq_Inr pushed_Inr)
  then show thesis using SetMode that by (auto simp: upsert_mode_def split: option.splits)
next
  case (Approve sha path pub)
  with assms obtain a :: Actor and v where v: "normalize_sha256 sha = Inr v"
    and p: "db' = fst (push_allowlist_to_agent g (Some (u_id (actor_user a))) (fst (put_entry (u_id (actor_user a)) g v path pub db)))"
    by (auto simp: create_allowlist_entry_def bindE_eq_Inr case_prod_beta)
  obtain n where n: "push_allowlist_to_agent g (Some (u_id (actor_user a))) (fst (put_entry (u_id (actor_user a)) g v path pub db)) = (db', n)"
    unfolding p by (metis prod.collapse)
  show thesis by (rule that [OF n]) (use Approve v in \<open>auto simp: put_entry_def add_entry_def split: option.splits\<close>)
next
  case (Revoke i)
  with assms obtain a :: Actor and n e where p: "push_allowlist_to_agent g (Some (u_id (actor_user a)))
      (db\<lparr>ad_entries := filter (\<lambda>e. ale_id e \<noteq> i) (ad_entries db)\<rparr>) = (db', n)" and e: "find (\<lambda>e. ale_id e = i) (ad_entries db) = Some e" "ale_group e = g"
    by (auto simp: delete_allowlist_entry_def bindE_eq_Inr pushed_Inr split: option.splits if_splits)
  have "e \<in> set (ad_entries db)" "ale_id e = i" using e(1) by (auto simp: find_Some_iff)
  then show thesis using Revoke e(2) by (intro that [OF p]) auto
qed

lemma mode_row_simps [simp]: "am_group (mode_row now g mode user old) = g" "am_mode (mode_row now g mode user old) = mode"
  by (simp_all add: mode_row_def)

lemma upsert_mode_entries [simp]: "ad_entries (upsert_mode now g mode user db) = ad_entries db"
  by (simp add: upsert_mode_def split: option.split)

lemma upsert_mode_current: "current_mode (upsert_mode now g mode user db) g = mode"
proof (cases "find (\<lambda>r. am_group r = g) (ad_modes db)")
  case None
  have "find (\<lambda>r. am_group r = g) (rs @ [mode_row now g mode user None]) = Some (mode_row now g mode user None)"
    if "find (\<lambda>r. am_group r = g) rs = None" for rs
    using that by (induction rs) (auto split: if_splits)
  with None show ?thesis by (simp add: current_mode_def upsert_mode_def)
next
  case (Some r)
  have "\<exists>x. find (\<lambda>r. am_group r = g) (map (\<lambda>x. if am_group x = g then mode_row now g mode user (Some x) else x) rs) = Some (mode_row now g mode user x)"
    if "find (\<lambda>r. am_group r = g) rs = Some r" for rs
    using that by (induction rs) (auto split: if_splits)
  from this [OF Some] obtain x where "find (\<lambda>r. am_group r = g) (ad_modes (upsert_mode now g mode user db)) = Some (mode_row now g mode user x)"
    using Some by (auto simp: upsert_mode_def)
  then show ?thesis by (simp add: current_mode_def)
qed

lemma upsert_mode_other: "g' \<noteq> g \<Longrightarrow> current_mode (upsert_mode now g mode user db) g' = current_mode db g'"
proof -
  assume "g' \<noteq> g"
  then have "find (\<lambda>r. am_group r = g') (map (\<lambda>x. if am_group x = g then mode_row now g mode user (Some x) else x) rs) = find (\<lambda>r. am_group r = g') rs"
    "find (\<lambda>r. am_group r = g') (rs @ [mode_row now g mode user None]) = find (\<lambda>r. am_group r = g') rs" for rs
    by (induction rs) auto
  then show ?thesis by (simp add: current_mode_def upsert_mode_def split: option.split)
qed

lemma keeps_pairs:
  assumes "\<And>x. ale_group (f x) = ale_group x \<and> ale_sha256 (f x) = ale_sha256 x"
  shows "map ale_sha256 (filter (\<lambda>e. ale_group e = g) (map f es)) = map ale_sha256 (filter (\<lambda>e. ale_group e = g) es)"
  using assms by (induction es) auto

lemma approved_list: "approved db g = set (map ale_sha256 (filter (\<lambda>e. ale_group e = g) (ad_entries db)))"
  by (simp add: approved_def list_entries_for_group_def)

lemma put_entry_approved: "approved (fst (put_entry u g sha path pub db)) g' = approved db g' \<union> (if g' = g then {sha} else {})"
proof (cases "find (is_pair g sha) (ad_entries db)")
  case None
  then show ?thesis by (auto simp: put_entry_def add_entry_def approved_def list_entries_for_group_def)
next
  case (Some e)
  then have e: "e \<in> set (ad_entries db)" "ale_group e = g" "ale_sha256 e = sha" by (auto simp: find_Some_iff is_pair_def)
  have "approved (fst (put_entry u g sha path pub db)) g' = approved db g'"
    unfolding approved_list using Some keeps_pairs [of "\<lambda>x. if is_pair g sha x then pin_entry u path pub x else x" g' "ad_entries db"]
    by (simp add: put_entry_def pin_entry_def del: set_map)
  moreover have "sha \<in> approved db g" using e by (auto simp: approved_def list_entries_for_group_def)
  ultimately show ?thesis by auto
qed


text \<open>
  A host in two groups holds the list of the group that was pushed last, not both: switching one group off
  takes the host out of the enforcement of the other.
\<close>

lemma last_group_wins:
  assumes "apply_edit now g actor (SetMode MODE_OFF) db = Inr (db', rq)" "distinct (map hst_id (j_hosts (ad_jobs db)))"
    "h \<in> set (j_hosts (ad_jobs db))" "(hst_id h, g) \<in> set (j_host_in_group (ad_jobs db))" "g' \<noteq> g" "current_mode db g' = MODE_ENFORCE"
  shows "fst (enforced_after (pending_commands (hst_id h) (ad_jobs db')) st) = ALLOWLIST_MODE_OFF \<and> current_mode db' g' = MODE_ENFORCE"
proof -
  obtain db1 user n where p: "push_allowlist_to_agent g user db1 = (db', n)"
    "j_hosts (ad_jobs db1) = j_hosts (ad_jobs db)" "j_host_in_group (ad_jobs db1) = j_host_in_group (ad_jobs db)"
    "db1 = upsert_mode now g MODE_OFF user db" by (rule edit_push [OF assms(1)], rule that) simp_all
  note k = push_allowlist_effect [OF assms(2) [folded p(2)] p(1)]
  have "current_mode db' x = current_mode db1 x" for x using k(1) by (simp add: current_mode_def)
  then have "current_mode db' g = MODE_OFF" "current_mode db' g' = MODE_ENFORCE"
    using upsert_mode_current upsert_mode_other [OF assms(5)] assms(6) by (simp_all add: p(4))
  then show ?thesis using k(4) [of h st] assms(3,4) p(2,3) by simp
qed

section \<open>The learner\<close>

lemma record_effect:
  assumes "record_observed_hash now g sha path pub db = Inr db'"
  shows "approved db' g' = approved db g' \<union> (if g' = g then {lower (strip sha)} else {})" "ad_modes db' = ad_modes db"
    "j_host_in_group (ad_jobs db') = j_host_in_group (ad_jobs db)" "ad_queue db' = ad_queue db"
    "g' \<noteq> g \<Longrightarrow> list_entries_for_group db' g' = list_entries_for_group db g'"
proof -
  let ?n = "lower (strip sha)"
  let ?f = "\<lambda>e. if is_pair g ?n e then e\<lparr>ale_last_seen := Some now, ale_exec_path := some_or (ale_exec_path e) (given path),
      ale_publisher := some_or (ale_publisher e) (given pub)\<rparr> else e"
  have cs: "(list_ex (is_pair g ?n) (ad_entries db) \<and> db' = db\<lparr>ad_entries := map ?f (ad_entries db)\<rparr>) \<or>
      (\<exists>e. ale_group e = g \<and> ale_sha256 e = ?n \<and> db' = add_entry e db)"
    using assms by (force simp: record_observed_hash_def Let_def split: if_splits)
  have keep: "map ale_sha256 (filter (\<lambda>e. ale_group e = g') (map ?f es)) = map ale_sha256 (filter (\<lambda>e. ale_group e = g') es)" for es g'
    by (rule keeps_pairs) simp
  have other: "filter (\<lambda>e. ale_group e = g') (map ?f es) = filter (\<lambda>e. ale_group e = g') es" if "g' \<noteq> g" for es
    using that by (induction es) (auto simp: is_pair_def)
  have has: "?n \<in> approved db g" if "list_ex (is_pair g ?n) (ad_entries db)"
    using that by (auto simp: list_ex_iff is_pair_def approved_def list_entries_for_group_def intro: rev_image_eqI)
  from cs show "approved db' g' = approved db g' \<union> (if g' = g then {?n} else {})"
  proof
    assume a: "list_ex (is_pair g ?n) (ad_entries db) \<and> db' = db\<lparr>ad_entries := map ?f (ad_entries db)\<rparr>"
    then have "approved db' g' = approved db g'" unfolding approved_list using keep by (simp del: set_map)
    then show ?thesis using has a by auto
  qed (auto simp: approved_def list_entries_for_group_def add_entry_def intro: rev_image_eqI)
  from cs show "ad_modes db' = ad_modes db" "j_host_in_group (ad_jobs db') = j_host_in_group (ad_jobs db)" "ad_queue db' = ad_queue db"
    by (auto simp: add_entry_def)
  from cs show "list_entries_for_group db' g' = list_entries_for_group db g'" if "g' \<noteq> g"
    using that other [OF that] by (auto simp: list_entries_for_group_def add_entry_def)
qed

text \<open>What a pass has done so far: it added the pairs \<open>P\<close> and nothing else.\<close>

definition learned :: "allow_db \<Rightarrow> (uuid \<times> string) set \<Rightarrow> allow_db \<Rightarrow> bool" where
  "learned db P db' \<longleftrightarrow> ad_modes db' = ad_modes db \<and> j_host_in_group (ad_jobs db') = j_host_in_group (ad_jobs db) \<and> ad_queue db' = ad_queue db \<and>
     (\<forall>g. approved db' g = approved db g \<union> {sha. (g, sha) \<in> P}) \<and> (\<forall>g. g \<notin> fst ` P \<longrightarrow> list_entries_for_group db' g = list_entries_for_group db g)"

lemma learned_record:
  assumes "learned db P db1" "record_observed_hash now g sha path pub db1 = Inr db2"
  shows "learned db (insert (g, lower (strip sha)) P) db2"
  using assms record_effect [OF assms(2)] by (auto simp: learned_def)

definition staged :: "Observation \<Rightarrow> bool" where
  "staged ob \<longleftrightarrow> length (ob_sha256 ob) = 64 \<and> lower (strip (ob_sha256 ob)) = ob_sha256 ob"

lemma record_total: "staged ob \<Longrightarrow> \<exists>db'. record_observed_hash now g (ob_sha256 ob) path pub db = Inr db'"
  by (simp add: record_observed_hash_def staged_def Let_def)

lemma persist_groups_learned:
  assumes "staged ob" "learned db P db1" "set seen \<subseteq> P"
  shows "\<exists>db2 seen' n'. persist_groups now ob gs (db1, seen, n) = Inr (db2, seen', n') \<and>
    learned db (P \<union> (\<lambda>g. (g, ob_sha256 ob)) ` set gs) db2 \<and> set seen' \<subseteq> P \<union> (\<lambda>g. (g, ob_sha256 ob)) ` set gs"
  using assms(2,3)
proof (induction gs arbitrary: P db1 seen n)
  case (Cons g gs)
  show ?case
  proof (cases "(g, ob_sha256 ob) \<in> set seen")
    case True
    then have "P \<union> (\<lambda>g. (g, ob_sha256 ob)) ` set (g # gs) = P \<union> (\<lambda>g. (g, ob_sha256 ob)) ` set gs" using Cons.prems(2) by auto
    then show ?thesis using Cons.IH [OF Cons.prems] True by simp
  next
    case False
    obtain db2 where r: "record_observed_hash now g (ob_sha256 ob) (ob_exec_path ob) None db1 = Inr db2" using record_total [OF assms(1)] by blast
    have l: "learned db (insert (g, ob_sha256 ob) P) db2"
      using learned_record [OF Cons.prems(1) r] assms(1) by (simp add: staged_def)
    have "set ((g, ob_sha256 ob) # seen) \<subseteq> insert (g, ob_sha256 ob) P" using Cons.prems(2) by auto
    from Cons.IH [OF l this, of "n + 1"] show ?thesis using False by (simp add: r)
  qed
qed simp

definition observed_pairs :: "(uuid \<Rightarrow> uuid list) \<Rightarrow> Observation list \<Rightarrow> (uuid \<times> string) set" where
  "observed_pairs groups obs = {(g, sha). \<exists>ob \<in> set obs. sha = ob_sha256 ob \<and> g \<in> set (groups (ob_host ob))}"

lemma persist_batch_learned:
  assumes "\<forall>ob \<in> set obs. staged ob" "learned db P db1" "set seen \<subseteq> P"
  shows "\<exists>db2 seen' n'. persist_batch now groups obs (db1, seen, n) = Inr (db2, seen', n') \<and> learned db (P \<union> observed_pairs groups obs) db2"
  using assms
proof (induction obs arbitrary: P db1 seen n)
  case Nil
  then show ?case by (simp add: observed_pairs_def)
next
  case (Cons ob obs)
  let ?Q = "P \<union> (\<lambda>g. (g, ob_sha256 ob)) ` set (groups (ob_host ob))"
  from persist_groups_learned [OF _ Cons.prems(2,3), of ob now "groups (ob_host ob)" n] Cons.prems(1) obtain db2 seen2 n2 where
    one: "persist_groups now ob (groups (ob_host ob)) (db1, seen, n) = Inr (db2, seen2, n2)" "learned db ?Q db2" "set seen2 \<subseteq> ?Q" by auto
  have "?Q \<union> observed_pairs groups obs = P \<union> observed_pairs groups (ob # obs)" by (auto simp: observed_pairs_def)
  with Cons.IH [OF _ one(2,3), of n2] Cons.prems(1) one(1) show ?case by simp
qed

lemma lower_char_facts: "is_space (lower_char c) = is_space c" "lower_char (lower_char c) = lower_char c"
  using code_lt [of c] by (auto simp: is_space_def lower_char_def Let_def code_char_of)

lemma strip_lower: "strip (lower s) = lower (strip s)"
  by (simp add: strip_def lower_def dropWhile_map rev_map lower_char_facts comp_def)

lemma lower_lower: "lower (lower s) = lower s"
  by (simp add: lower_def lower_char_facts)

lemma strip_strip: "strip (strip s) = strip s"
proof -
  have lead: "dropWhile is_space (rev (dropWhile is_space (rev u))) = rev (dropWhile is_space (rev u))" if "dropWhile is_space u = u" for u
  proof (cases "rev (dropWhile is_space (rev u))")
    case (Cons x xs)
    have "u = rev (dropWhile is_space (rev u)) @ rev (takeWhile is_space (rev u))"
      by (metis rev_append rev_rev_ident takeWhile_dropWhile_id)
    with Cons have "\<exists>ys. u = x # ys" by auto
    then have "\<not> is_space x" using that by (auto simp: dropWhile_eq_self_iff)
    with Cons show ?thesis by simp
  next
    case Nil
    show ?thesis by (simp only: Nil dropWhile.simps)
  qed
  have "dropWhile is_space (strip s) = strip s" unfolding strip_def by (rule lead) (simp add: dropWhile_idem)
  then show ?thesis by (simp add: strip_def dropWhile_idem)
qed

lemma stage_staged: "\<forall>ob \<in> set q. staged ob \<Longrightarrow> \<forall>ob \<in> set (stage_observation host sha path q). staged ob"
  by (auto simp: stage_observation_def staged_def Let_def strip_lower strip_strip lower_lower dest: in_set_dropD)

text \<open>The queue as the ingest path fills it.\<close>

definition staged_queue :: "(uuid \<times> string \<times> string option) list \<Rightarrow> Observation list" where
  "staged_queue xs = foldl (\<lambda>q (host, sha, path). stage_observation host sha path q) [] xs"

lemma staged_queue_staged: "ob \<in> set (staged_queue xs) \<Longrightarrow> staged ob"
proof -
  have "\<forall>ob \<in> set (foldl (\<lambda>q (host, sha, path). stage_observation host sha path q) q xs). staged ob" if "\<forall>ob \<in> set q. staged ob" for q
    using that
  proof (induction xs arbitrary: q)
    case (Cons x xs)
    obtain host sha path where "x = (host, sha, path)" by (cases x) auto
    then show ?case using Cons.IH [OF stage_staged [OF Cons.prems]] by simp
  qed simp
  from this [of "[]"] have "\<forall>ob \<in> set (staged_queue xs). staged ob" by (simp add: staged_queue_def)
  then show "ob \<in> set (staged_queue xs) \<Longrightarrow> staged ob" by blast
qed

lemma learn_groups_iff:
  assumes "distinct (map am_group (ad_modes db))"
  shows "g \<in> set (learn_groups db host) \<longleftrightarrow> (host, g) \<in> set (j_host_in_group (ad_jobs db)) \<and> current_mode db g = MODE_LEARN"
proof -
  have "list_ex (\<lambda>r. am_group r = g \<and> am_mode r = MODE_LEARN) rs \<longleftrightarrow>
      (case find (\<lambda>r. am_group r = g) rs of None \<Rightarrow> MODE_OFF | Some r \<Rightarrow> am_mode r) = MODE_LEARN" if "distinct (map am_group rs)" for rs
    using that by (induction rs) (auto simp: list_ex_iff image_iff)
  from this [OF assms] show ?thesis by (auto simp: learn_groups_def current_mode_def image_iff)
qed

text \<open>C39: The learner learns only where it may. A pass over the staged observations succeeds, empties the queue and adds to the list of a
  group exactly the binaries observed on its hosts, if the group is in learn mode; a group that is off or
  enforcing keeps its list unchanged, whatever its agents report.\<close>

theorem learner_only_in_learn_mode:
  assumes "ad_queue db = staged_queue xs" "distinct (map am_group (ad_modes db))"
  shows "\<exists>db' n. learner_run_once now db = (db', Inr n) \<and> ad_queue db' = [] \<and>
    (\<forall>g. current_mode db' g = current_mode db g \<and>
      approved db' g = approved db g \<union> {sha. current_mode db g = MODE_LEARN \<and>
        (\<exists>ob \<in> set (staged_queue xs). ob_sha256 ob = sha \<and> (ob_host ob, g) \<in> set (j_host_in_group (ad_jobs db)))}) \<and>
    (\<forall>g. current_mode db g \<noteq> MODE_LEARN \<longrightarrow> list_entries_for_group db' g = list_entries_for_group db g)"
proof -
  let ?db0 = "db\<lparr>ad_queue := []\<rparr>"
  have lg: "learn_groups ?db0 = learn_groups db" by (simp add: learn_groups_def fun_eq_iff)
  have "learned ?db0 {} ?db0" by (simp add: learned_def)
  from persist_batch_learned [OF _ this, of "staged_queue xs" "[]" now "learn_groups ?db0" 0] staged_queue_staged obtain db' seen n where
    b: "persist_batch now (learn_groups ?db0) (staged_queue xs) (?db0, [], 0) = Inr (db', seen, n)"
    and l: "learned ?db0 (observed_pairs (learn_groups db) (staged_queue xs)) db'" by (auto simp: lg)
  have pairs: "(g, sha) \<in> observed_pairs (learn_groups db) (staged_queue xs) \<longleftrightarrow> current_mode db g = MODE_LEARN \<and>
      (\<exists>ob \<in> set (staged_queue xs). ob_sha256 ob = sha \<and> (ob_host ob, g) \<in> set (j_host_in_group (ad_jobs db)))" for g sha
    by (auto simp: observed_pairs_def learn_groups_iff [OF assms(2)])
  have mode: "current_mode db' g = current_mode db g" for g using l by (simp add: learned_def current_mode_def)
  have app: "approved ?db0 g = approved db g" "list_entries_for_group ?db0 g = list_entries_for_group db g" for g
    by (simp_all add: approved_def list_entries_for_group_def)
  have same: "list_entries_for_group db' g = list_entries_for_group db g" if "current_mode db g \<noteq> MODE_LEARN" for g
  proof -
    have "g \<notin> fst ` observed_pairs (learn_groups db) (staged_queue xs)" using that pairs by force
    then show ?thesis using l by (simp add: learned_def app)
  qed
  have "learner_run_once now db = (db', Inr n)" by (simp add: learner_run_once_def assms(1) b)
  moreover have "ad_queue db' = []" "\<And>g. approved db' g = approved db g \<union> {sha. (g, sha) \<in> observed_pairs (learn_groups db) (staged_queue xs)}"
    using l by (simp_all add: learned_def app)
  ultimately show ?thesis using mode same unfolding pairs by blast
qed

section \<open>Witnesses\<close>

definition demo_allow :: allow_db where
  "demo_allow = \<lparr>ad_jobs = (demo_jobs_db [] [])\<lparr>j_host_in_group := [(22, 31)]\<rparr>, ad_groups = [(31, 3)],
     ad_modes = [mode_row 0 31 MODE_LEARN None None], ad_entries = [], ad_queue = staged_queue [(22, replicate 64 CHR ''a'', None)]\<rparr>"

lemma demo_sets_mode: "\<exists>db' rq. apply_edit 5 31 (demo_actor ADMIN) (SetMode MODE_ENFORCE) demo_allow = Inr (db', rq)"
  by (simp add: update_mode_def RequireAdmin_def require_role_def has_role_def demo_actor_def demo_user_def require_group_def demo_allow_def
      split: prod.split)

lemma demo_allow_host: "demo_host 22 3 \<in> set (j_hosts (ad_jobs demo_allow))" "distinct (map hst_id (j_hosts (ad_jobs demo_allow)))"
  using demo_hosts(1,2) [of "[]" "[]" "[]"] by (simp_all add: demo_allow_def demo_push_db_def hosts_in_scope_def)


text \<open>Witness: the observation of the demonstration host is learned.\<close>

theorem learner_only_in_learn_mode_witness:
  "\<exists>db' n. learner_run_once 9 demo_allow = (db', Inr n) \<and> ad_queue db' = []"
proof -
  have "ad_queue demo_allow = staged_queue [(22, replicate 64 CHR ''a'', None)]" "distinct (map am_group (ad_modes demo_allow))"
    by (simp_all add: demo_allow_def)
  from learner_only_in_learn_mode [OF this, of 9] show ?thesis by blast
qed

end
