(* ===== verification/Cloud_Iam.thy ===== *)
theory Cloud_Iam
  imports Playbooks Policy_Push Signed_Tokens
begin

text \<open>
  Detection of anomalous use of cloud identities: the sources and their baselines (backend/app/models/cloud_source.py), the
  records of an audit-trail object (services/cloud/cloudtrail.py), the detectors (services/cloud/iam_anomaly.py), the monitor
  (workers/cloud_iam_monitor.py), the stored configuration (services/encryption.py) and the administrators' routes
  (api/cloud_sources.py). Fernet, the JSON and time stamp readers and the requests to the bucket are parameters.
\<close>

section \<open>Tables\<close>

record CloudSource =
  cs_id :: uuid
  cs_tenant_id :: uuid
  cs_name :: string
  cs_config_encrypted :: bytes
  cs_enabled :: bool
  cs_last_polled_at :: "datetime option"
  cs_last_event_ts :: "datetime option"

record CloudBaseline =
  cb_tenant_id :: uuid
  cb_source_id :: uuid
  cb_principal_arn :: string
  cb_actions :: "string list"
  cb_regions :: "string list"
  cb_first_seen :: "datetime option"
  cb_last_seen :: "datetime option"

record cloud_db =
  cd_sources :: "CloudSource list"
  cd_baselines :: "CloudBaseline list"
  cd_rules :: "uuid list"
  cd_alerts :: "Alert list"
  cd_audit :: "audit_request list"
  cd_next :: uuid

record cloud_env =
  cl_encrypt :: "bytes \<Rightarrow> bytes"
  cl_decrypt :: "bytes \<Rightarrow> bytes option"
  cl_json_loads :: "string \<Rightarrow> pyval result"
  cl_fromisoformat :: "string \<Rightarrow> datetime option"
  cl_listing :: "pydict \<Rightarrow> pyval \<Rightarrow> (string \<times> datetime option) list result"
  cl_get :: "pydict \<Rightarrow> string \<Rightarrow> bytes result"
  cl_gunzip :: "bytes \<Rightarrow> bytes result"

section \<open>Configuration at rest\<close>

definition encrypt_config :: "cloud_env \<Rightarrow> pydict \<Rightarrow> bytes" where
  "encrypt_config cl plaintext = cl_encrypt cl (utf8_encode (json_dumps_sorted (PDict plaintext)))"

text \<open>Only dictionaries are stored.\<close>

definition decrypt_config :: "cloud_env \<Rightarrow> bytes \<Rightarrow> pydict result" where
  "decrypt_config cl blob = (case cl_decrypt cl blob of
       None \<Rightarrow> Inl RuntimeError
     | Some plain \<Rightarrow> (case utf8_decode plain of None \<Rightarrow> Inl UnicodeDecodeError | Some t \<Rightarrow>
         bindE (cl_json_loads cl t) (\<lambda>v. case v of PDict d \<Rightarrow> Inr d | _ \<Rightarrow> Inl AttributeError)))"

section \<open>Records of an object\<close>

definition fetch_object :: "cloud_env \<Rightarrow> pydict \<Rightarrow> string \<Rightarrow> pyval result" where
  "fetch_object cl config key =
     bindE (cl_get cl config key) (\<lambda>body.
     bindE (if take 3 (rev key) = ''zg.'' \<or> take 2 body = [CHR 0x1F, CHR 0x8B] then cl_gunzip cl body else Inr body) (\<lambda>body.
       case utf8_decode body of None \<Rightarrow> Inl UnicodeDecodeError | Some t \<Rightarrow> cl_json_loads cl t))"

record CloudEvent =
  ce_ts :: "datetime option"
  ce_principal_arn :: pyval
  ce_region :: pyval
  ce_event_source :: pyval
  ce_event_name :: pyval
  ce_source_ip :: pyval
  ce_error_code :: pyval
  ce_user_type :: pyval

definition parse_iso8601 :: "cloud_env \<Rightarrow> string \<Rightarrow> datetime option" where
  "parse_iso8601 cl value = cl_fromisoformat cl (concat (map (\<lambda>c. if c = CHR ''Z'' then ''+00:00'' else [c]) value))"

definition parse_record :: "cloud_env \<Rightarrow> pyval \<Rightarrow> CloudEvent result" where
  "parse_record cl v = (case v of
       PDict r \<Rightarrow>
         (let identity = sub_dict r ''userIdentity'' in
          bindE (vget identity ''arn'') (\<lambda>arn.
          bindE (vget identity ''principalId'') (\<lambda>pid.
          bindE (vget identity ''type'') (\<lambda>utype.
            Inr \<lparr>ce_ts = (case dget r ''eventTime'' of PStr t \<Rightarrow> parse_iso8601 cl t | _ \<Rightarrow> None),
                 ce_principal_arn = py_or (py_or arn pid) (PStr []), ce_region = py_or (dget r ''awsRegion'') (PStr []),
                 ce_event_source = py_or (dget r ''eventSource'') (PStr []), ce_event_name = py_or (dget r ''eventName'') (PStr []),
                 ce_source_ip = dget r ''sourceIPAddress'', ce_error_code = dget r ''errorCode'', ce_user_type = utype\<rparr>))))
     | _ \<Rightarrow> Inl AttributeError)"

text \<open>Iterating over a string or a dictionary gives strings, which have no \<open>get\<close>.\<close>

definition parse_events :: "cloud_env \<Rightarrow> pyval \<Rightarrow> CloudEvent list result" where
  "parse_events cl raw =
     bindE (vget raw ''Records'') (\<lambda>records.
       if \<not> truthy records then Inr []
       else (case records of
           PList rs \<Rightarrow> mapE (parse_record cl) rs
         | PStr _ \<Rightarrow> Inl AttributeError
         | PDict _ \<Rightarrow> Inl AttributeError
         | _ \<Rightarrow> Inl TypeError))"

section \<open>Detectors\<close>

definition REASON_NEW_ACTION :: string where "REASON_NEW_ACTION = ''new_action_for_principal''"
definition REASON_NEW_REGION :: string where "REASON_NEW_REGION = ''new_region_for_principal''"
definition REASON_ROOT_CONSOLE_LOGIN :: string where "REASON_ROOT_CONSOLE_LOGIN = ''root_console_login''"

definition CLOUD_IAM_ANOMALY_RULE_ID :: uuid where
  "CLOUD_IAM_ANOMALY_RULE_ID = 0xa0a0a0a0000000000000000000000011"

definition action_key :: "CloudEvent \<Rightarrow> string" where
  "action_key e = py_str (ce_event_source e) @ '':'' @ py_str (ce_event_name e)"

definition ensure_synthetic_rule :: "cloud_db \<Rightarrow> cloud_db" where
  "ensure_synthetic_rule db = (if CLOUD_IAM_ANOMALY_RULE_ID \<in> set (cd_rules db) then db
     else db\<lparr>cd_rules := cd_rules db @ [CLOUD_IAM_ANOMALY_RULE_ID]\<rparr>)"

definition anomaly_details :: "uuid \<Rightarrow> CloudEvent \<Rightarrow> string \<Rightarrow> pydict \<Rightarrow> pydict" where
  "anomaly_details source_id e reason extra = dict_update
     [(''detector'', PStr ''cloud_iam_anomaly_v1''), (''reason'', PStr reason), (''source_id'', PStr (uuid_str source_id)),
      (''principal_arn'', ce_principal_arn e), (''region'', ce_region e), (''event_source'', ce_event_source e), (''event_name'', ce_event_name e),
      (''source_ip'', ce_source_ip e), (''error_code'', ce_error_code e), (''user_type'', ce_user_type e)] extra"

definition anomaly_alert :: "datetime \<Rightarrow> uuid \<Rightarrow> uuid \<Rightarrow> uuid \<Rightarrow> CloudEvent \<Rightarrow> string \<Rightarrow> string \<Rightarrow> pydict \<Rightarrow> Alert" where
  "anomaly_alert now i tenant_id source_id e reason summary extra =
     \<lparr>a_id = i, a_tenant_id = tenant_id, a_host_id = None, a_rule_id = CLOUD_IAM_ANOMALY_RULE_ID, a_severity = HIGH,
      a_action_taken = ALERT, a_state = NEW, a_summary = take 512 summary, a_details = PDict (anomaly_details source_id e reason extra),
      a_mitre = Some [''T1078.004''], a_opened_at = now, a_closed_at = None, a_assignee_id = None, a_incident_id = None,
      a_dedup_key = None, a_occurrence_count = 1, a_last_occurred_at = now\<rparr>"

definition cloud_fire_alert :: "datetime \<Rightarrow> uuid \<Rightarrow> uuid \<Rightarrow> CloudEvent \<Rightarrow> string \<Rightarrow> string \<Rightarrow> pydict \<Rightarrow> cloud_db \<Rightarrow> cloud_db" where
  "cloud_fire_alert now tenant_id source_id e reason summary extra db =
     (let db = ensure_synthetic_rule db in
      db\<lparr>cd_alerts := cd_alerts db @ [anomaly_alert now (cd_next db) tenant_id source_id e reason summary extra], cd_next := cd_next db + 1\<rparr>)"

text \<open>A value bound to a text column: the driver refuses anything but a string.\<close>

fun db_text :: "pyval \<Rightarrow> string result" where
  "db_text (PStr s) = Inr s"
| "db_text _ = Inl DataError"

definition is_baseline :: "uuid \<Rightarrow> string \<Rightarrow> CloudBaseline \<Rightarrow> bool" where
  "is_baseline source_id arn b \<longleftrightarrow> cb_source_id b = source_id \<and> cb_principal_arn b = arn"

definition find_baseline :: "uuid \<Rightarrow> string \<Rightarrow> cloud_db \<Rightarrow> CloudBaseline option" where
  "find_baseline source_id arn db = find (is_baseline source_id arn) (cd_baselines db)"

definition update_baseline :: "uuid \<Rightarrow> string \<Rightarrow> (CloudBaseline \<Rightarrow> CloudBaseline) \<Rightarrow> cloud_db \<Rightarrow> cloud_db" where
  "update_baseline source_id arn f db = db\<lparr>cd_baselines := map (\<lambda>b. if is_baseline source_id arn b then f b else b) (cd_baselines db)\<rparr>"

definition seen_at :: "CloudEvent \<Rightarrow> CloudBaseline \<Rightarrow> CloudBaseline" where
  "seen_at e b = (case ce_ts e of None \<Rightarrow> b | Some t \<Rightarrow> b\<lparr>cb_last_seen := Some t\<rparr>)"

definition get_or_create_baseline :: "uuid \<Rightarrow> uuid \<Rightarrow> string \<Rightarrow> datetime option \<Rightarrow> cloud_db \<Rightarrow> cloud_db \<times> bool" where
  "get_or_create_baseline tenant_id source_id arn ts db =
     (case find_baseline source_id arn db of
        Some b \<Rightarrow> (db, False)
      | None \<Rightarrow> (db\<lparr>cd_baselines := cd_baselines db @ [\<lparr>cb_tenant_id = tenant_id, cb_source_id = source_id, cb_principal_arn = arn,
            cb_actions = [], cb_regions = [], cb_first_seen = ts, cb_last_seen = ts\<rparr>]\<rparr>, True))"

definition detect_new_principal :: "uuid \<Rightarrow> uuid \<Rightarrow> CloudEvent \<Rightarrow> cloud_db \<Rightarrow> (cloud_db \<times> bool) result" where
  "detect_new_principal tenant_id source_id e db =
     (if \<not> truthy (ce_principal_arn e) then Inr (db, False)
      else bindE (db_text (ce_principal_arn e)) (\<lambda>arn.
        case get_or_create_baseline tenant_id source_id arn (ce_ts e) db of
          (db, created) \<Rightarrow>
            if \<not> created then Inr (db, created)
            else bindE (if truthy (ce_region e) then bindE (db_text (ce_region e)) (\<lambda>r. Inr [r]) else Inr []) (\<lambda>regions.
              Inr (update_baseline source_id arn (\<lambda>b. seen_at e (b\<lparr>cb_actions := [action_key e], cb_regions := regions\<rparr>)) db, created))))"

definition detect_new_action :: "datetime \<Rightarrow> uuid \<Rightarrow> uuid \<Rightarrow> CloudEvent \<Rightarrow> cloud_db \<Rightarrow> (cloud_db \<times> bool) result" where
  "detect_new_action now tenant_id source_id e db =
     (if \<not> truthy (ce_principal_arn e) then Inr (db, False)
      else bindE (db_text (ce_principal_arn e)) (\<lambda>arn.
        case find_baseline source_id arn db of
          None \<Rightarrow> Inr (db, False)
        | Some baseline \<Rightarrow>
            (let action = action_key e; actions = cb_actions baseline in
             if action \<in> set actions then Inr (db, False)
             else Inr (update_baseline source_id arn (\<lambda>b. seen_at e (b\<lparr>cb_actions := actions @ [action]\<rparr>))
                   (cloud_fire_alert now tenant_id source_id e REASON_NEW_ACTION (''IAM principal '' @ arn @ '' performed new action '' @ action)
                      [(''action'', PStr action), (''prior_action_count'', PInt (int (length actions)))] db), True))))"

definition detect_new_region :: "datetime \<Rightarrow> uuid \<Rightarrow> uuid \<Rightarrow> CloudEvent \<Rightarrow> cloud_db \<Rightarrow> (cloud_db \<times> bool) result" where
  "detect_new_region now tenant_id source_id e db =
     (if \<not> truthy (ce_principal_arn e) \<or> \<not> truthy (ce_region e) then Inr (db, False)
      else bindE (db_text (ce_principal_arn e)) (\<lambda>arn.
        case find_baseline source_id arn db of
          None \<Rightarrow> Inr (db, False)
        | Some baseline \<Rightarrow>
            bindE (db_text (ce_region e)) (\<lambda>region.
             let regions = cb_regions baseline in
             if region \<in> set regions then Inr (db, False)
             else Inr (update_baseline source_id arn (\<lambda>b. seen_at e (b\<lparr>cb_regions := regions @ [region]\<rparr>))
                   (cloud_fire_alert now tenant_id source_id e REASON_NEW_REGION (''IAM principal '' @ arn @ '' called from new region '' @ region)
                      [(''region'', PStr region), (''prior_region_count'', PInt (int (length regions)))] db), True))))"

definition detect_root_console_login :: "datetime \<Rightarrow> uuid \<Rightarrow> uuid \<Rightarrow> CloudEvent \<Rightarrow> cloud_db \<Rightarrow> cloud_db \<times> bool" where
  "detect_root_console_login now tenant_id source_id e db =
     (if ce_user_type e \<noteq> PStr ''Root'' then (db, False)
      else if ce_event_name e \<noteq> PStr ''ConsoleLogin'' then (db, False)
      else (cloud_fire_alert now tenant_id source_id e REASON_ROOT_CONSOLE_LOGIN ''AWS root user console login'' [] db, True))"

section \<open>The monitor\<close>

definition newer :: "datetime option \<Rightarrow> datetime option \<Rightarrow> datetime option" where
  "newer newest ts = (case ts of None \<Rightarrow> newest | Some t \<Rightarrow> (case newest of None \<Rightarrow> Some t | Some n \<Rightarrow> if t > n then Some t else newest))"

text \<open>The body of the loop over the events: tables, alerts fired, newest time stamp.\<close>

definition inspect_event :: "datetime \<Rightarrow> uuid \<Rightarrow> uuid \<Rightarrow> CloudEvent \<Rightarrow> cloud_db \<times> nat \<times> datetime option \<Rightarrow> (cloud_db \<times> nat \<times> datetime option) result" where
  "inspect_event now tenant_id source_id e st = (case st of (db, fired, newest) \<Rightarrow>
     bindE (detect_new_principal tenant_id source_id e db) (\<lambda>(db, _).
     bindE (detect_new_action now tenant_id source_id e db) (\<lambda>(db, a).
     bindE (detect_new_region now tenant_id source_id e db) (\<lambda>(db, r).
       case detect_root_console_login now tenant_id source_id e db of
         (db, c) \<Rightarrow> Inr (db, fired + of_bool a + of_bool r + of_bool c, newer newest (ce_ts e))))))"

fun inspect_events ::
  "datetime \<Rightarrow> uuid \<Rightarrow> uuid \<Rightarrow> CloudEvent list \<Rightarrow> cloud_db \<times> nat \<times> datetime option \<Rightarrow> (cloud_db \<times> nat \<times> datetime option) result" where
  "inspect_events now tenant_id source_id [] st = Inr st"
| "inspect_events now tenant_id source_id (e # es) st =
     bindE (inspect_event now tenant_id source_id e st) (\<lambda>st. inspect_events now tenant_id source_id es st)"

text \<open>Objects last modified at or before the watermark are dropped; all pages of the listing come from the bucket.\<close>

definition list_objects :: "cloud_env \<Rightarrow> pydict \<Rightarrow> pyval \<Rightarrow> datetime option \<Rightarrow> (string \<times> datetime option) list result" where
  "list_objects cl config pre after_ts = bindE (cl_listing cl config pre) (\<lambda>objs.
     Inr (filter (\<lambda>(key, lm). \<not> (case (after_ts, lm) of (Some a, Some l) \<Rightarrow> l \<le> a | _ \<Rightarrow> False)) objs))"

fun inspect_objects ::
  "cloud_env \<Rightarrow> datetime \<Rightarrow> uuid \<Rightarrow> uuid \<Rightarrow> pydict \<Rightarrow> (string \<times> datetime option) list \<Rightarrow> cloud_db \<times> nat \<times> datetime option \<Rightarrow> (cloud_db \<times> nat \<times> datetime option) result" where
  "inspect_objects cl now tenant_id source_id config [] st = Inr st"
| "inspect_objects cl now tenant_id source_id config ((key, lm) # objs) st =
     (case fetch_object cl config key of
        Inl e \<Rightarrow> inspect_objects cl now tenant_id source_id config objs st
      | Inr raw \<Rightarrow>
          bindE (parse_events cl raw) (\<lambda>events.
          bindE (inspect_events now tenant_id source_id events st) (\<lambda>st.
            inspect_objects cl now tenant_id source_id config objs st)))"

definition update_source :: "uuid \<Rightarrow> (CloudSource \<Rightarrow> CloudSource) \<Rightarrow> cloud_db \<Rightarrow> cloud_db" where
  "update_source i f db = db\<lparr>cd_sources := map (\<lambda>s. if cs_id s = i then f s else s) (cd_sources db)\<rparr>"

definition process_source :: "cloud_env \<Rightarrow> datetime \<Rightarrow> CloudSource \<Rightarrow> cloud_db \<Rightarrow> cloud_db result" where
  "process_source cl now s db =
     (case decrypt_config cl (cs_config_encrypted s) of
        Inl e \<Rightarrow> Inr (update_source (cs_id s) (\<lambda>s. s\<lparr>cs_last_polled_at := Some now\<rparr>) db)
      | Inr config \<Rightarrow>
          (case list_objects cl config (py_or (dget_default config ''prefix'' (PStr [])) (PStr [])) (cs_last_event_ts s) of
             Inl e \<Rightarrow> Inr (update_source (cs_id s) (\<lambda>s. s\<lparr>cs_last_polled_at := Some now\<rparr>) db)
           | Inr objs \<Rightarrow>
               bindE (inspect_objects cl now (cs_tenant_id s) (cs_id s) config objs (db, 0, cs_last_event_ts s)) (\<lambda>(db, fired, newest).
                 Inr (update_source (cs_id s) (\<lambda>s. (case newest of None \<Rightarrow> s | Some t \<Rightarrow> s\<lparr>cs_last_event_ts := Some t\<rparr>)
                        \<lparr>cs_last_polled_at := Some now\<rparr>) db))))"

fun process_sources :: "cloud_env \<Rightarrow> datetime \<Rightarrow> CloudSource list \<Rightarrow> cloud_db \<Rightarrow> cloud_db result" where
  "process_sources cl now [] db = Inr db"
| "process_sources cl now (s # ss) db = bindE (process_source cl now s db) (\<lambda>db. process_sources cl now ss db)"

text \<open>One commit at the end: an exception rolls the tables back.\<close>

definition cloud_run_once :: "cloud_env \<Rightarrow> datetime \<Rightarrow> cloud_db \<Rightarrow> cloud_db \<times> nat result" where
  "cloud_run_once cl now db =
     (let sources = filter cs_enabled (cd_sources db) in
      case process_sources cl now sources db of Inl e \<Rightarrow> (db, Inl e) | Inr db' \<Rightarrow> (db', Inr (length sources)))"

section \<open>Administration\<close>

record CloudSourceCreate =
  cc_name :: string
  cc_bucket :: string
  cc_prefix :: string
  cc_region :: string
  cc_access_key :: string
  cc_secret_key :: string
  cc_enabled :: bool

definition sized :: "nat \<Rightarrow> nat \<Rightarrow> string \<Rightarrow> bool" where
  "sized lo hi s \<longleftrightarrow> lo \<le> length s \<and> length s \<le> hi"

definition valid_source_create :: "CloudSourceCreate \<Rightarrow> bool" where
  "valid_source_create p \<longleftrightarrow> sized 1 255 (cc_name p) \<and> sized 1 255 (cc_bucket p) \<and> sized 0 1024 (cc_prefix p) \<and> sized 1 64 (cc_region p) \<and>
     sized 1 128 (cc_access_key p) \<and> sized 1 256 (cc_secret_key p)"

definition config_from_payload :: "CloudSourceCreate \<Rightarrow> pydict" where
  "config_from_payload p = [(''bucket'', PStr (cc_bucket p)), (''prefix'', PStr (cc_prefix p)), (''region'', PStr (cc_region p)),
     (''aws_access_key_id'', PStr (cc_access_key p)), (''aws_secret_access_key'', PStr (cc_secret_key p))]"

definition cloud_log :: "Actor \<Rightarrow> string \<Rightarrow> uuid \<Rightarrow> pydict \<Rightarrow> cloud_db \<Rightarrow> cloud_db" where
  "cloud_log actor action i payload db = db\<lparr>cd_audit := cd_audit db @ [push_audit actor action ''cloud_source'' (uuid_str i) payload]\<rparr>"

definition name_taken :: "uuid \<Rightarrow> string \<Rightarrow> cloud_db \<Rightarrow> bool" where
  "name_taken tenant name db \<longleftrightarrow> list_ex (\<lambda>s. cs_tenant_id s = tenant \<and> cs_name s = name) (cd_sources db)"

definition create_cloud_source :: "cloud_env \<Rightarrow> CloudSourceCreate \<Rightarrow> Actor \<Rightarrow> cloud_db \<Rightarrow> (cloud_db \<times> uuid) result" where
  "create_cloud_source cl p actor db =
     bindE (RequireAdmin actor) (\<lambda>actor.
       if \<not> valid_source_create p then Inl (HTTPError 422 ''validation error'')
       else if name_taken (actor_tenant_id actor) (cc_name p) db then Inl (conflict ''cloud source already exists'')
       else (let i = cd_next db in
         Inr (cloud_log actor ''cloud_source.create'' i
           [(''name'', PStr (cc_name p)), (''kind'', PStr ''aws_cloudtrail''), (''bucket'', PStr (cc_bucket p)), (''prefix'', PStr (cc_prefix p)),
            (''region'', PStr (cc_region p)), (''credentials_set'', PBool True)]
           (db\<lparr>cd_sources := cd_sources db @ [\<lparr>cs_id = i, cs_tenant_id = actor_tenant_id actor, cs_name = cc_name p,
                 cs_config_encrypted = encrypt_config cl (config_from_payload p), cs_enabled = cc_enabled p,
                 cs_last_polled_at = None, cs_last_event_ts = None\<rparr>], cd_next := i + 1\<rparr>), i)))"

definition require_source :: "uuid \<Rightarrow> Actor \<Rightarrow> cloud_db \<Rightarrow> CloudSource result" where
  "require_source i actor db = (case find (\<lambda>s. cs_id s = i) (cd_sources db) of
       None \<Rightarrow> Inl (not_found ''cloud_source'' i)
     | Some s \<Rightarrow> (if cs_tenant_id s \<noteq> actor_tenant_id actor then Inl (not_found ''cloud_source'' i) else Inr s))"

record CloudSourceUpdate =
  cu_name :: "string option"
  cu_enabled :: "bool option"
  cu_bucket :: "string option"
  cu_prefix :: "string option"
  cu_region :: "string option"
  cu_access_key :: "string option"
  cu_secret_key :: "string option"

definition opt_sized :: "nat \<Rightarrow> nat \<Rightarrow> string option \<Rightarrow> bool" where
  "opt_sized lo hi x \<longleftrightarrow> (case x of None \<Rightarrow> True | Some s \<Rightarrow> sized lo hi s)"

definition valid_source_update :: "CloudSourceUpdate \<Rightarrow> bool" where
  "valid_source_update p \<longleftrightarrow> opt_sized 1 255 (cu_name p) \<and> opt_sized 1 255 (cu_bucket p) \<and> opt_sized 0 1024 (cu_prefix p) \<and>
     opt_sized 1 64 (cu_region p) \<and> opt_sized 0 128 (cu_access_key p) \<and> opt_sized 0 256 (cu_secret_key p)"

definition entry_if :: "string \<Rightarrow> string option \<Rightarrow> pydict" where
  "entry_if k x = (case x of None \<Rightarrow> [] | Some s \<Rightarrow> [(k, PStr s)])"

definition config_changes :: "CloudSourceUpdate \<Rightarrow> pydict" where
  "config_changes p = entry_if ''bucket'' (cu_bucket p) @ entry_if ''prefix'' (cu_prefix p) @ entry_if ''region'' (cu_region p) @
     entry_if ''aws_access_key_id'' (cu_access_key p) @ entry_if ''aws_secret_access_key'' (cu_secret_key p)"

text \<open>The audit payload shows every change but the secret.\<close>

definition source_update_payload :: "CloudSourceUpdate \<Rightarrow> CloudSource \<Rightarrow> pydict" where
  "source_update_payload p s = (case cu_name p of None \<Rightarrow> [] | Some n \<Rightarrow> if n = cs_name s then [] else [(''name'', PStr n)]) @
     (case cu_enabled p of None \<Rightarrow> [] | Some b \<Rightarrow> [(''enabled'', PBool b)]) @
     entry_if ''bucket'' (cu_bucket p) @ entry_if ''prefix'' (cu_prefix p) @ entry_if ''region'' (cu_region p) @
     entry_if ''aws_access_key_id'' (cu_access_key p) @ (case cu_secret_key p of None \<Rightarrow> [] | Some _ \<Rightarrow> [(''credentials_rotated'', PBool True)])"

definition reencrypted :: "cloud_env \<Rightarrow> CloudSourceUpdate \<Rightarrow> bytes \<Rightarrow> bytes result" where
  "reencrypted cl p blob = (if config_changes p = [] then Inr blob
     else (case decrypt_config cl blob of
         Inl RuntimeError \<Rightarrow> Inr (encrypt_config cl (config_changes p))
       | Inl e \<Rightarrow> Inl e
       | Inr config \<Rightarrow> Inr (encrypt_config cl (dict_update config (config_changes p)))))"

definition update_cloud_source :: "cloud_env \<Rightarrow> uuid \<Rightarrow> CloudSourceUpdate \<Rightarrow> Actor \<Rightarrow> cloud_db \<Rightarrow> cloud_db result" where
  "update_cloud_source cl i p actor db =
     bindE (RequireAdmin actor) (\<lambda>actor.
       if \<not> valid_source_update p then Inl (HTTPError 422 ''validation error'')
       else bindE (require_source i actor db) (\<lambda>s.
         let name = (case cu_name p of None \<Rightarrow> cs_name s | Some n \<Rightarrow> n) in
         if name \<noteq> cs_name s \<and> name_taken (actor_tenant_id actor) name db then Inl (conflict ''cloud source already exists'')
         else bindE (reencrypted cl p (cs_config_encrypted s)) (\<lambda>blob.
           Inr (cloud_log actor ''cloud_source.update'' i (source_update_payload p s)
             (update_source i (\<lambda>s. s\<lparr>cs_name := name, cs_enabled := (case cu_enabled p of None \<Rightarrow> cs_enabled s | Some b \<Rightarrow> b),
                cs_config_encrypted := blob\<rparr>) db)))))"

text \<open>Deleting a source cascades to its baselines.\<close>

definition delete_cloud_source :: "uuid \<Rightarrow> Actor \<Rightarrow> cloud_db \<Rightarrow> cloud_db result" where
  "delete_cloud_source i actor db =
     bindE (RequireAdmin actor) (\<lambda>actor.
     bindE (require_source i actor db) (\<lambda>s.
       Inr (cloud_log actor ''cloud_source.delete'' i [(''name'', PStr (cs_name s))]
         (db\<lparr>cd_sources := filter (\<lambda>s. cs_id s \<noteq> i) (cd_sources db), cd_baselines := filter (\<lambda>b. cb_source_id b \<noteq> i) (cd_baselines db)\<rparr>))))"

end
