(* ===== verification/Cloud_Iam_Correct.thy ===== *)
theory Cloud_Iam_Correct
  imports Cloud_Iam Playbooks_Correct Policy_Push_Correct
begin

text \<open>
  The detectors against the history of a source: an alert is raised exactly where an event departs from what its principal
  did before. The section on ticks shows what a tick does with an object it has seen and with one it cannot read.
\<close>

section \<open>Baselines\<close>

definition keeps_key :: "(CloudBaseline \<Rightarrow> CloudBaseline) \<Rightarrow> bool" where
  "keeps_key f \<longleftrightarrow> (\<forall>b. cb_source_id (f b) = cb_source_id b \<and> cb_principal_arn (f b) = cb_principal_arn b)"

lemma seen_at_simps [simp]:
  "cb_source_id (seen_at e b) = cb_source_id b" "cb_principal_arn (seen_at e b) = cb_principal_arn b"
  "cb_actions (seen_at e b) = cb_actions b" "cb_regions (seen_at e b) = cb_regions b"
  by (simp_all add: seen_at_def split: option.split)

lemma find_update_baseline:
  assumes "keeps_key f"
  shows "find_baseline sid a (update_baseline sid arn f db) = (if a = arn then map_option f (find_baseline sid a db) else find_baseline sid a db)"
proof -
  have "find (is_baseline sid a) (map (\<lambda>b. if is_baseline sid arn b then f b else b) bs) =
      (if a = arn then map_option f (find (is_baseline sid a) bs) else find (is_baseline sid a) bs)" for bs
    using assms by (induction bs) (auto simp: is_baseline_def keeps_key_def)
  then show ?thesis by (simp add: find_baseline_def update_baseline_def)
qed

lemma keeps_key_actions [simp]: "keeps_key (\<lambda>b. seen_at e (b\<lparr>cb_actions := x\<rparr>))"
  and keeps_key_regions [simp]: "keeps_key (\<lambda>b. seen_at e (b\<lparr>cb_regions := y\<rparr>))"
  and keeps_key_both [simp]: "keeps_key (\<lambda>b. seen_at e (b\<lparr>cb_actions := x, cb_regions := y\<rparr>))"
  by (simp_all add: keeps_key_def)

lemma find_append_None: "find P (xs @ [x]) = (case find P xs of None \<Rightarrow> if P x then Some x else None | Some y \<Rightarrow> Some y)"
  by (induction xs) auto

lemma fire_baselines [simp]:
  "cd_baselines (cloud_fire_alert now t sid e reason summary extra db) = cd_baselines db"
  by (simp add: cloud_fire_alert_def ensure_synthetic_rule_def Let_def)

lemma find_baseline_fire [simp]:
  "find_baseline sid a (cloud_fire_alert now t s e reason summary extra db) = find_baseline sid a db"
  by (simp add: find_baseline_def)

lemma update_baseline_alerts [simp]: "cd_alerts (update_baseline sid arn f db) = cd_alerts db"
  by (simp add: update_baseline_def)

section \<open>What the history calls for\<close>

definition text_of :: "pyval \<Rightarrow> string" where
  "text_of v = (case v of PStr s \<Rightarrow> s | _ \<Rightarrow> [])"

abbreviation arn_of :: "CloudEvent \<Rightarrow> string" where
  "arn_of e \<equiv> text_of (ce_principal_arn e)"

abbreviation region_of :: "CloudEvent \<Rightarrow> string" where
  "region_of e \<equiv> text_of (ce_region e)"

text \<open>An event as the audit trail writes it: its principal and region are texts.\<close>

definition typed_event :: "CloudEvent \<Rightarrow> bool" where
  "typed_event e \<longleftrightarrow> ce_principal_arn e = PStr (arn_of e) \<and> ce_region e = PStr (region_of e)"

definition by_principal :: "CloudEvent list \<Rightarrow> CloudEvent \<Rightarrow> CloudEvent list" where
  "by_principal past e = filter (\<lambda>p. arn_of p = arn_of e) past"

definition expected_reasons :: "CloudEvent list \<Rightarrow> CloudEvent \<Rightarrow> string list" where
  "expected_reasons past e =
     (if arn_of e \<noteq> [] \<and> by_principal past e \<noteq> [] \<and> action_key e \<notin> action_key ` set (by_principal past e) then [REASON_NEW_ACTION] else []) @
     (if arn_of e \<noteq> [] \<and> by_principal past e \<noteq> [] \<and> region_of e \<noteq> [] \<and> region_of e \<notin> region_of ` set (by_principal past e) then [REASON_NEW_REGION] else []) @
     (if ce_user_type e = PStr ''Root'' \<and> ce_event_name e = PStr ''ConsoleLogin'' then [REASON_ROOT_CONSOLE_LOGIN] else [])"

fun expected_alerts :: "CloudEvent list \<Rightarrow> CloudEvent list \<Rightarrow> (CloudEvent \<times> string) list" where
  "expected_alerts past [] = []"
| "expected_alerts past (e # es) = map (\<lambda>r. (e, r)) (expected_reasons past e) @ expected_alerts (past @ [e]) es"

text \<open>An alert that says: this event, for this reason.\<close>

definition says :: "uuid \<Rightarrow> Alert \<Rightarrow> CloudEvent \<times> string \<Rightarrow> bool" where
  "says t a er \<longleftrightarrow> (case er of (e, r) \<Rightarrow> a_tenant_id a = t \<and> a_host_id a = None \<and> a_rule_id a = CLOUD_IAM_ANOMALY_RULE_ID \<and> a_severity a = HIGH \<and>
     (\<exists>d. a_details a = PDict d \<and> dget d ''reason'' = PStr r \<and> dget d ''principal_arn'' = ce_principal_arn e \<and>
        dget d ''event_name'' = ce_event_name e \<and> dget d ''event_source'' = ce_event_source e))"

text \<open>The baselines of a source are its history.\<close>

definition reflects :: "uuid \<Rightarrow> CloudEvent list \<Rightarrow> cloud_db \<Rightarrow> bool" where
  "reflects sid past db \<longleftrightarrow> (\<forall>arn. arn \<noteq> [] \<longrightarrow>
     (case find_baseline sid arn db of
        None \<Rightarrow> filter (\<lambda>p. arn_of p = arn) past = []
      | Some b \<Rightarrow> filter (\<lambda>p. arn_of p = arn) past \<noteq> [] \<and> set (cb_actions b) = action_key ` set (filter (\<lambda>p. arn_of p = arn) past) \<and>
          set (cb_regions b) = region_of ` set (filter (\<lambda>p. arn_of p = arn) past) - {[]}))"

definition raises :: "uuid \<Rightarrow> (CloudEvent \<times> string) list \<Rightarrow> cloud_db \<Rightarrow> cloud_db \<Rightarrow> bool" where
  "raises t ers db db' \<longleftrightarrow> (\<exists>new. cd_alerts db' = cd_alerts db @ new \<and> list_all2 (says t) new ers)"

lemma raises_refl [simp]: "raises t [] db db'' \<longleftrightarrow> cd_alerts db'' = cd_alerts db"
  by (auto simp: raises_def)

lemma raises_trans: "raises t xs db db1 \<Longrightarrow> raises t ys db1 db2 \<Longrightarrow> raises t (xs @ ys) db db2"
  by (fastforce simp: raises_def intro: list_all2_appendI)

lemma raises_fire:
  assumes "fst ` set extra \<inter> {''reason'', ''principal_arn'', ''event_name'', ''event_source''} = {}"
  shows "raises t [(e, r)] db (cloud_fire_alert now t sid e r summary extra db)"
proof -
  have out: "''reason'' \<notin> fst ` set extra" "''principal_arn'' \<notin> fst ` set extra" "''event_name'' \<notin> fst ` set extra" "''event_source'' \<notin> fst ` set extra"
    using assms by auto
  have "says t (anomaly_alert now i t sid e r summary extra) (e, r)" for i
    by (simp add: says_def anomaly_alert_def anomaly_details_def dget_dict_update [OF out(1)] dget_dict_update [OF out(2)]
        dget_dict_update [OF out(3)] dget_dict_update [OF out(4)])
  then show ?thesis by (auto simp: raises_def cloud_fire_alert_def ensure_synthetic_rule_def Let_def)
qed

section \<open>One event\<close>

lemma root_raises:
  "detect_root_console_login now t sid e db = (db', c) \<Longrightarrow>
     raises t (map (\<lambda>r. (e, r)) (if ce_user_type e = PStr ''Root'' \<and> ce_event_name e = PStr ''ConsoleLogin'' then [REASON_ROOT_CONSOLE_LOGIN] else [])) db db' \<and>
     cd_baselines db' = cd_baselines db \<and> (c \<longleftrightarrow> ce_user_type e = PStr ''Root'' \<and> ce_event_name e = PStr ''ConsoleLogin'')"
  by (auto simp: detect_root_console_login_def raises_fire split: if_splits)

text \<open>The first two detectors as functions of the baseline found.\<close>

lemma new_principal_known:
  assumes "ce_principal_arn e = PStr arn" "find_baseline sid arn db = Some b"
  shows "detect_new_principal t sid e db = Inr (db, False)"
  using assms by (simp add: detect_new_principal_def get_or_create_baseline_def)

lemma new_principal_seeds:
  assumes "typed_event e" "arn_of e \<noteq> []" "find_baseline sid (arn_of e) db = None"
  shows "\<exists>db' b. detect_new_principal t sid e db = Inr (db', True) \<and> cd_alerts db' = cd_alerts db \<and>
    find_baseline sid (arn_of e) db' = Some b \<and> cb_actions b = [action_key e] \<and> set (cb_regions b) = {region_of e} - {[]} \<and>
    (\<forall>a. a \<noteq> arn_of e \<longrightarrow> find_baseline sid a db' = find_baseline sid a db)"
proof -
  let ?rs = "if region_of e \<noteq> [] then [region_of e] else []"
  let ?b = "\<lparr>cb_tenant_id = t, cb_source_id = sid, cb_principal_arn = arn_of e, cb_actions = [], cb_regions = [], cb_first_seen = ce_ts e, cb_last_seen = ce_ts e\<rparr>"
  let ?f = "\<lambda>b. seen_at e (b\<lparr>cb_actions := [action_key e], cb_regions := ?rs\<rparr>)"
  let ?db1 = "db\<lparr>cd_baselines := cd_baselines db @ [?b]\<rparr>"
  have ty: "ce_principal_arn e = PStr (arn_of e)" "ce_region e = PStr (region_of e)" using assms(1) by (auto simp: typed_event_def)
  have r: "(if truthy (ce_region e) then bindE (db_text (ce_region e)) (\<lambda>r. Inr [r]) else Inr []) = Inr ?rs"
    by (subst (1 2) ty(2)) simp
  have d: "detect_new_principal t sid e db = Inr (update_baseline sid (arn_of e) ?f ?db1, True)"
    unfolding detect_new_principal_def r by (subst (1 2) ty(1)) (simp add: get_or_create_baseline_def assms(2,3))
  have f1: "find_baseline sid a ?db1 = (if a = arn_of e then Some ?b else find_baseline sid a db)" for a
    using assms(3) by (auto simp: find_baseline_def find_append_None is_baseline_def split: option.split)
  show ?thesis by (intro exI conjI) (rule d, auto simp: find_update_baseline f1)
qed

definition others_kept :: "uuid \<Rightarrow> string \<Rightarrow> cloud_db \<Rightarrow> cloud_db \<Rightarrow> bool" where
  "others_kept sid arn db db' \<longleftrightarrow> (\<forall>a. a \<noteq> arn \<longrightarrow> find_baseline sid a db' = find_baseline sid a db)"

lemma new_action_step:
  assumes "typed_event e" "arn_of e \<noteq> []" "find_baseline sid (arn_of e) db = Some b"
  shows "\<exists>db' b'. detect_new_action now t sid e db = Inr (db', action_key e \<notin> set (cb_actions b)) \<and>
    raises t (if action_key e \<notin> set (cb_actions b) then [(e, REASON_NEW_ACTION)] else []) db db' \<and> others_kept sid (arn_of e) db db' \<and>
    find_baseline sid (arn_of e) db' = Some b' \<and> set (cb_actions b') = insert (action_key e) (set (cb_actions b)) \<and> cb_regions b' = cb_regions b"
proof (cases "action_key e \<in> set (cb_actions b)")
  case True
  have "detect_new_action now t sid e db = Inr (db, False)" unfolding detect_new_action_def
    by (subst (1 2) assms(1) [unfolded typed_event_def, THEN conjunct1]) (simp add: assms(2,3) True Let_def)
  then show ?thesis using assms(3) True by (intro exI [of _ db] exI [of _ b]) (auto simp: others_kept_def)
next
  case False
  let ?extra = "[(''action'', PStr (action_key e)), (''prior_action_count'', PInt (int (length (cb_actions b))))]"
  let ?s = "''IAM principal '' @ arn_of e @ '' performed new action '' @ action_key e"
  let ?db1 = "cloud_fire_alert now t sid e REASON_NEW_ACTION ?s ?extra db"
  let ?f = "\<lambda>x. seen_at e (x\<lparr>cb_actions := cb_actions b @ [action_key e]\<rparr>)"
  have d: "detect_new_action now t sid e db = Inr (update_baseline sid (arn_of e) ?f ?db1, True)" unfolding detect_new_action_def
    by (subst (1 2) assms(1) [unfolded typed_event_def, THEN conjunct1]) (simp add: assms(2,3) False Let_def)
  have "raises t [(e, REASON_NEW_ACTION)] db ?db1" by (rule raises_fire) simp
  then have "raises t [(e, REASON_NEW_ACTION)] db (update_baseline sid (arn_of e) ?f ?db1)" by (simp add: raises_def)
  then show ?thesis using d False by (auto simp: find_update_baseline assms(3) others_kept_def)
qed

lemma new_region_step:
  assumes "typed_event e" "arn_of e \<noteq> []" "find_baseline sid (arn_of e) db = Some b"
  shows "\<exists>db' b'. detect_new_region now t sid e db = Inr (db', region_of e \<noteq> [] \<and> region_of e \<notin> set (cb_regions b)) \<and>
    raises t (if region_of e \<noteq> [] \<and> region_of e \<notin> set (cb_regions b) then [(e, REASON_NEW_REGION)] else []) db db' \<and> others_kept sid (arn_of e) db db' \<and>
    find_baseline sid (arn_of e) db' = Some b' \<and> set (cb_regions b') = set (cb_regions b) \<union> ({region_of e} - {[]}) \<and> cb_actions b' = cb_actions b"
proof (cases "region_of e = [] \<or> region_of e \<in> set (cb_regions b)")
  case True
  have "detect_new_region now t sid e db = Inr (db, False)" unfolding detect_new_region_def
    by (subst (1 2) assms(1) [unfolded typed_event_def, THEN conjunct1], subst (1 2) assms(1) [unfolded typed_event_def, THEN conjunct2])
      (use True in \<open>auto simp: assms(2,3) Let_def\<close>)
  then show ?thesis using assms(3) True by (intro exI [of _ db] exI [of _ b]) (auto simp: others_kept_def)
next
  case False
  let ?extra = "[(''region'', PStr (region_of e)), (''prior_region_count'', PInt (int (length (cb_regions b))))]"
  let ?s = "''IAM principal '' @ arn_of e @ '' called from new region '' @ region_of e"
  let ?db1 = "cloud_fire_alert now t sid e REASON_NEW_REGION ?s ?extra db"
  let ?f = "\<lambda>x. seen_at e (x\<lparr>cb_regions := cb_regions b @ [region_of e]\<rparr>)"
  have d: "detect_new_region now t sid e db = Inr (update_baseline sid (arn_of e) ?f ?db1, True)" unfolding detect_new_region_def
    by (subst (1 2) assms(1) [unfolded typed_event_def, THEN conjunct1], subst (1 2) assms(1) [unfolded typed_event_def, THEN conjunct2])
      (use False in \<open>auto simp: assms(2,3) Let_def\<close>)
  have "raises t [(e, REASON_NEW_REGION)] db ?db1" by (rule raises_fire) simp
  then have "raises t [(e, REASON_NEW_REGION)] db (update_baseline sid (arn_of e) ?f ?db1)" by (simp add: raises_def)
  then show ?thesis using d False by (auto simp: find_update_baseline assms(3) others_kept_def)
qed

lemma nameless_event:
  assumes "typed_event e" "arn_of e = []"
  shows "detect_new_principal t sid e db = Inr (db, False)" "detect_new_action now t sid e db = Inr (db, False)"
    "detect_new_region now t sid e db = Inr (db, False)"
proof -
  have "ce_principal_arn e = PStr []" using assms by (simp add: typed_event_def)
  then show "detect_new_principal t sid e db = Inr (db, False)" "detect_new_action now t sid e db = Inr (db, False)"
    "detect_new_region now t sid e db = Inr (db, False)"
    by (simp_all add: detect_new_principal_def detect_new_action_def detect_new_region_def)
qed

text \<open>The baseline of the principal after the seeding step, with whether it was there before.\<close>

lemma principal_step:
  assumes "typed_event e" "arn_of e \<noteq> []" "reflects sid past db"
  shows "\<exists>db' c b. detect_new_principal t sid e db = Inr (db', c) \<and> cd_alerts db' = cd_alerts db \<and> others_kept sid (arn_of e) db db' \<and>
    find_baseline sid (arn_of e) db' = Some b \<and>
    (if by_principal past e = [] then set (cb_actions b) = {action_key e} \<and> set (cb_regions b) = {region_of e} - {[]}
     else set (cb_actions b) = action_key ` set (by_principal past e) \<and> set (cb_regions b) = region_of ` set (by_principal past e) - {[]})"
proof (cases "find_baseline sid (arn_of e) db")
  case None
  then have "by_principal past e = []" using assms(2,3) unfolding reflects_def by_principal_def by (auto dest!: spec [of _ "arn_of e"])
  then show ?thesis using new_principal_seeds [OF assms(1,2) None, of t] by (force simp: others_kept_def)
next
  case (Some b)
  then have "by_principal past e \<noteq> []" "set (cb_actions b) = action_key ` set (by_principal past e)" "set (cb_regions b) = region_of ` set (by_principal past e) - {[]}"
    using assms(2,3) unfolding reflects_def by_principal_def by (auto dest!: spec [of _ "arn_of e"])
  then show ?thesis using new_principal_known [of e "arn_of e" sid db b t] assms(1) Some
    by (intro exI [of _ db] exI [of _ False] exI [of _ b]) (simp add: typed_event_def others_kept_def)
qed

lemma reflects_baselines: "cd_baselines db' = cd_baselines db \<Longrightarrow> reflects sid past db' = reflects sid past db"
  by (simp add: reflects_def find_baseline_def)

lemma reflects_nameless: "reflects sid past db \<Longrightarrow> arn_of e = [] \<Longrightarrow> reflects sid (past @ [e]) db"
proof -
  assume r: "reflects sid past db" and "arn_of e = []"
  then have same: "filter (\<lambda>p. arn_of p = arn) (past @ [e]) = filter (\<lambda>p. arn_of p = arn) past" if "arn \<noteq> []" for arn using that by auto
  show "reflects sid (past @ [e]) db" unfolding reflects_def
  proof (intro allI impI, unfold same)
  qed (use r in \<open>unfold reflects_def, blast\<close>)
qed

lemma reflects_step:
  assumes "reflects sid past db" "others_kept sid (arn_of e) db db'" "find_baseline sid (arn_of e) db' = Some b"
    "set (cb_actions b) = insert (action_key e) (action_key ` set (by_principal past e))"
    "set (cb_regions b) = region_of ` set (by_principal past e) - {[]} \<union> ({region_of e} - {[]})"
  shows "reflects sid (past @ [e]) db'"
  unfolding reflects_def
proof (intro allI impI)
  fix arn :: string
  assume n: "arn \<noteq> []"
  show "case find_baseline sid arn db' of None \<Rightarrow> filter (\<lambda>p. arn_of p = arn) (past @ [e]) = []
      | Some b \<Rightarrow> filter (\<lambda>p. arn_of p = arn) (past @ [e]) \<noteq> [] \<and> set (cb_actions b) = action_key ` set (filter (\<lambda>p. arn_of p = arn) (past @ [e])) \<and>
          set (cb_regions b) = region_of ` set (filter (\<lambda>p. arn_of p = arn) (past @ [e])) - {[]}"
  proof (cases "arn = arn_of e")
    case True
    then show ?thesis using assms(3-5) by (auto simp: by_principal_def)
  next
    case False
    then have same: "find_baseline sid arn db' = find_baseline sid arn db" "filter (\<lambda>p. arn_of p = arn) (past @ [e]) = filter (\<lambda>p. arn_of p = arn) past"
      using assms(2) by (auto simp: others_kept_def)
    show ?thesis unfolding same using assms(1) n unfolding reflects_def by blast
  qed
qed

lemma inspect_event_step:
  assumes "typed_event e" "reflects sid past db"
  shows "\<exists>db'. inspect_event now t sid e (db, fired, newest) = Inr (db', fired + length (expected_reasons past e), newer newest (ce_ts e)) \<and>
    raises t (map (\<lambda>r. (e, r)) (expected_reasons past e)) db db' \<and> reflects sid (past @ [e]) db'"
proof (cases "arn_of e = []")
  case True
  obtain db' c where r: "detect_root_console_login now t sid e db = (db', c)" by fastforce
  note k = root_raises [OF r]
  have "inspect_event now t sid e (db, fired, newest) = Inr (db', fired + of_bool c, newer newest (ce_ts e))"
    by (simp add: inspect_event_def nameless_event [OF assms(1) True] r)
  moreover have "of_bool c = length (expected_reasons past e)" using k True by (simp add: expected_reasons_def)
  moreover have "reflects sid (past @ [e]) db'" using reflects_baselines [of db' db] k reflects_nameless [OF assms(2) True] by simp
  ultimately show ?thesis using k True by (intro exI [of _ db']) (simp add: expected_reasons_def)
next
  case False
  obtain db1 c1 b1 where p: "detect_new_principal t sid e db = Inr (db1, c1)" "cd_alerts db1 = cd_alerts db" "others_kept sid (arn_of e) db db1"
    "find_baseline sid (arn_of e) db1 = Some b1"
    "if by_principal past e = [] then set (cb_actions b1) = {action_key e} \<and> set (cb_regions b1) = {region_of e} - {[]}
     else set (cb_actions b1) = action_key ` set (by_principal past e) \<and> set (cb_regions b1) = region_of ` set (by_principal past e) - {[]}"
    using principal_step [OF assms(1) False assms(2), of t] by blast
  obtain db2 b2 where a: "detect_new_action now t sid e db1 = Inr (db2, action_key e \<notin> set (cb_actions b1))"
    "raises t (if action_key e \<notin> set (cb_actions b1) then [(e, REASON_NEW_ACTION)] else []) db1 db2" "others_kept sid (arn_of e) db1 db2"
    "find_baseline sid (arn_of e) db2 = Some b2" "set (cb_actions b2) = insert (action_key e) (set (cb_actions b1))" "cb_regions b2 = cb_regions b1"
    using new_action_step [OF assms(1) False p(4), of now t] by blast
  obtain db3 b3 where r: "detect_new_region now t sid e db2 = Inr (db3, region_of e \<noteq> [] \<and> region_of e \<notin> set (cb_regions b2))"
    "raises t (if region_of e \<noteq> [] \<and> region_of e \<notin> set (cb_regions b2) then [(e, REASON_NEW_REGION)] else []) db2 db3" "others_kept sid (arn_of e) db2 db3"
    "find_baseline sid (arn_of e) db3 = Some b3" "set (cb_regions b3) = set (cb_regions b2) \<union> ({region_of e} - {[]})" "cb_actions b3 = cb_actions b2"
    using new_region_step [OF assms(1) False a(4), of now t] by blast
  obtain db4 c4 where l: "detect_root_console_login now t sid e db3 = (db4, c4)" by fastforce
  note k = root_raises [OF l]
  have act: "action_key e \<notin> set (cb_actions b1) \<longleftrightarrow> by_principal past e \<noteq> [] \<and> action_key e \<notin> action_key ` set (by_principal past e)"
    and reg: "region_of e \<noteq> [] \<and> region_of e \<notin> set (cb_regions b2) \<longleftrightarrow>
      by_principal past e \<noteq> [] \<and> region_of e \<noteq> [] \<and> region_of e \<notin> region_of ` set (by_principal past e)"
    using p(5) a(6) by (auto split: if_splits)
  have all: "(if action_key e \<notin> set (cb_actions b1) then [(e, REASON_NEW_ACTION)] else []) @
      (if region_of e \<noteq> [] \<and> region_of e \<notin> set (cb_regions b2) then [(e, REASON_NEW_REGION)] else []) @
      map (\<lambda>r. (e, r)) (if ce_user_type e = PStr ''Root'' \<and> ce_event_name e = PStr ''ConsoleLogin'' then [REASON_ROOT_CONSOLE_LOGIN] else []) =
      map (\<lambda>r. (e, r)) (expected_reasons past e)"
    unfolding act reg expected_reasons_def using False by (auto simp only: map_append list.map if_True if_False simp_thms append.simps split: if_split)
  have "raises t (map (\<lambda>r. (e, r)) (expected_reasons past e)) db1 db4"
    using raises_trans [OF a(2) raises_trans [OF r(2) k [THEN conjunct1]]] unfolding all .
  then have ra: "raises t (map (\<lambda>r. (e, r)) (expected_reasons past e)) db db4" using p(2) by (simp add: raises_def)
  have "reflects sid (past @ [e]) db3"
    by (rule reflects_step [OF assms(2) _ r(4)]) (use p(3,5) a(3,5,6) r(3,5,6) in \<open>auto simp: others_kept_def split: if_splits\<close>)
  then have "reflects sid (past @ [e]) db4" using reflects_baselines [of db4 db3] k by simp
  moreover have "inspect_event now t sid e (db, fired, newest) = Inr (db4, fired + length (expected_reasons past e), newer newest (ce_ts e))"
    using k by (auto simp: inspect_event_def p(1) a(1) r(1) l act reg expected_reasons_def False of_bool_def)
  ultimately show ?thesis using ra by blast
qed

lemma inspect_events_reflect:
  assumes "reflects sid past db" "list_all typed_event es"
  shows "\<exists>db'. inspect_events now t sid es (db, fired, newest) = Inr (db', fired + length (expected_alerts past es), foldl newer newest (map ce_ts es)) \<and>
    raises t (expected_alerts past es) db db' \<and> reflects sid (past @ es) db'"
  using assms
proof (induction es arbitrary: past db fired newest)
  case (Cons e es)
  obtain db1 where one: "inspect_event now t sid e (db, fired, newest) = Inr (db1, fired + length (expected_reasons past e), newer newest (ce_ts e))"
    "raises t (map (\<lambda>r. (e, r)) (expected_reasons past e)) db db1" "reflects sid (past @ [e]) db1"
    using inspect_event_step [of e sid past db now t fired newest] Cons.prems by auto
  obtain db2 where rest: "inspect_events now t sid es (db1, fired + length (expected_reasons past e), newer newest (ce_ts e)) =
      Inr (db2, fired + length (expected_reasons past e) + length (expected_alerts (past @ [e]) es), foldl newer (newer newest (ce_ts e)) (map ce_ts es))"
    "raises t (expected_alerts (past @ [e]) es) db1 db2" "reflects sid ((past @ [e]) @ es) db2"
    using Cons.IH [OF one(3), of "fired + length (expected_reasons past e)" "newer newest (ce_ts e)"] Cons.prems(2) by auto
  then show ?case using one raises_trans [OF one(2) rest(2)] by (intro exI [of _ db2]) (simp add: add.assoc)
qed simp


section \<open>Ticks\<close>

text \<open>An object whose content is not an audit trail stops the tick of every source, and nothing of it is stored.\<close>

lemma inspect_objects_raise:
  assumes "(key, lm) \<in> set objs" "fetch_object cl config key = Inr raw" "parse_events cl raw = Inl err"
  shows "\<exists>e. inspect_objects cl now t sid config objs st = Inl e"
  using assms(1)
proof (induction objs arbitrary: st)
  case (Cons o1 objs)
  obtain k l where o1: "o1 = (k, l)" by fastforce
  show ?case
  proof (cases "k = key")
    case True
    then show ?thesis using assms(2,3) by (simp add: o1)
  next
    case False
    then have IH: "\<exists>e. inspect_objects cl now t sid config objs st = Inl e" for st using Cons o1 by auto
    show ?thesis by (auto simp: o1 bindE_def IH split: sum.split)
  qed
qed simp

lemma process_sources_raise: "s \<in> set ss \<Longrightarrow> (\<And>db. \<exists>e. process_source cl now s db = Inl e) \<Longrightarrow> \<exists>e. process_sources cl now ss db = Inl e"
proof (induction ss arbitrary: db)
  case (Cons s1 ss)
  show ?case
  proof (cases "process_source cl now s1 db")
    case (Inr db1)
    then have "s1 \<noteq> s" using Cons.prems(2) [of db] by auto
    then show ?thesis using Cons Inr by auto
  qed simp
qed simp

lemma unreadable_object_stops_every_source:
  assumes "s \<in> set (cd_sources db)" "cs_enabled s" "decrypt_config cl (cs_config_encrypted s) = Inr config"
    "cl_listing cl config (py_or (dget_default config ''prefix'' (PStr [])) (PStr [])) = Inr objs" "(key, None) \<in> set objs"
    "fetch_object cl config key = Inr raw" "parse_events cl raw = Inl err"
  shows "\<exists>e. cloud_run_once cl now db = (db, Inl e)"
proof -
  have o: "(key, None) \<in> set (filter (\<lambda>(key, lm). \<not> (case (cs_last_event_ts s, lm) of (Some a, Some l) \<Rightarrow> l \<le> a | _ \<Rightarrow> False)) objs)"
    using assms(5) by (auto split: option.split)
  have "\<exists>e. process_source cl now s db1 = Inl e" for db1
    using inspect_objects_raise [OF o assms(6,7), of now "cs_tenant_id s" "cs_id s" "(db1, 0, cs_last_event_ts s)"]
    by (auto simp: process_source_def assms(3,4) list_objects_def)
  then have "\<exists>e. process_sources cl now (filter cs_enabled (cd_sources db)) db = Inl e"
    by (intro process_sources_raise [of s]) (use assms(1,2) in auto)
  then show ?thesis by (auto simp: cloud_run_once_def Let_def)
qed

text \<open>
  The watermark is the time of an event, but objects are compared by the time they were written, which is later: such an object is read
  again at every tick, and the root login in it raises an alert each time.
\<close>

lemma fire_sources [simp]: "cd_sources (cloud_fire_alert now t sid e reason summary extra db) = cd_sources db"
  by (simp add: cloud_fire_alert_def ensure_synthetic_rule_def Let_def)

lemma update_baseline_sources [simp]: "cd_sources (update_baseline sid arn f db) = cd_sources db"
  by (simp add: update_baseline_def)

lemma detect_sources:
  "detect_new_principal t sid e db = Inr (db', c) \<Longrightarrow> cd_sources db' = cd_sources db"
  "detect_new_action now t sid e db = Inr (db', c) \<Longrightarrow> cd_sources db' = cd_sources db"
  "detect_new_region now t sid e db = Inr (db', c) \<Longrightarrow> cd_sources db' = cd_sources db"
  "detect_root_console_login now t sid e db = (db', c) \<Longrightarrow> cd_sources db' = cd_sources db"
  by (auto simp: detect_new_principal_def get_or_create_baseline_def bindE_eq_Inr split: if_splits option.splits)
    (auto simp: detect_new_action_def detect_new_region_def detect_root_console_login_def bindE_eq_Inr Let_def split: if_splits option.splits)

lemma inspect_event_sources: "inspect_event now t sid e (db, n, w) = Inr (db', n', w') \<Longrightarrow> cd_sources db' = cd_sources db"
proof -
  assume i: "inspect_event now t sid e (db, n, w) = Inr (db', n', w')"
  then obtain db1 c1 db2 c2 db3 c3 where d: "detect_new_principal t sid e db = Inr (db1, c1)" "detect_new_action now t sid e db1 = Inr (db2, c2)"
    "detect_new_region now t sid e db2 = Inr (db3, c3)" "db' = fst (detect_root_console_login now t sid e db3)"
    by (auto simp: inspect_event_def bindE_eq_Inr case_prod_beta)
  have "cd_sources db' = cd_sources db3" using detect_sources(4) [of now t sid e db3] d(4) by (metis prod.collapse)
  then show "cd_sources db' = cd_sources db" using detect_sources(1) [OF d(1)] detect_sources(2) [OF d(2)] detect_sources(3) [OF d(3)] by simp
qed

definition delivered_late :: "cloud_env \<Rightarrow> uuid \<Rightarrow> CloudEvent \<Rightarrow> cloud_db \<Rightarrow> bool" where
  "delivered_late cl t e db \<longleftrightarrow> (\<exists>s config key lm raw ts past. cd_sources db = [s] \<and> cs_enabled s \<and> cs_tenant_id s = t \<and>
     decrypt_config cl (cs_config_encrypted s) = Inr config \<and>
     cl_listing cl config (py_or (dget_default config ''prefix'' (PStr [])) (PStr [])) = Inr [(key, Some lm)] \<and>
     fetch_object cl config key = Inr raw \<and> parse_events cl raw = Inr [e] \<and> typed_event e \<and> ce_ts e = Some ts \<and> ts < lm \<and>
     (case cs_last_event_ts s of None \<Rightarrow> True | Some w \<Rightarrow> w < lm) \<and> reflects (cs_id s) past db)"

lemma root_login_alerted_every_tick:
  assumes "delivered_late cl t e db" "ce_user_type e = PStr ''Root''" "ce_event_name e = PStr ''ConsoleLogin''"
  shows "\<exists>db' new a. cloud_run_once cl now db = (db', Inr 1) \<and> delivered_late cl t e db' \<and> cd_alerts db' = cd_alerts db @ new @ [a] \<and>
    says t a (e, REASON_ROOT_CONSOLE_LOGIN)"
proof -
  obtain s config key lm raw ts past where s: "cd_sources db = [s]" "cs_enabled s" "cs_tenant_id s = t" "decrypt_config cl (cs_config_encrypted s) = Inr config"
    "cl_listing cl config (py_or (dget_default config ''prefix'' (PStr [])) (PStr [])) = Inr [(key, Some lm)]"
    "fetch_object cl config key = Inr raw" "parse_events cl raw = Inr [e]" "typed_event e" "ce_ts e = Some ts" "ts < lm"
    "case cs_last_event_ts s of None \<Rightarrow> True | Some w \<Rightarrow> w < lm" "reflects (cs_id s) past db"
    using assms(1) unfolding delivered_late_def by blast
  let ?w = "newer (cs_last_event_ts s) (Some ts)"
  obtain db1 where i: "inspect_event now t (cs_id s) e (db, 0, cs_last_event_ts s) = Inr (db1, length (expected_reasons past e), ?w)"
    "raises t (map (\<lambda>r. (e, r)) (expected_reasons past e)) db db1" "reflects (cs_id s) (past @ [e]) db1"
    using inspect_event_step [OF s(8,12), of now t 0 "cs_last_event_ts s"] s(9) by auto
  let ?f = "\<lambda>s. (case ?w of None \<Rightarrow> s | Some t \<Rightarrow> s\<lparr>cs_last_event_ts := Some t\<rparr>)\<lparr>cs_last_polled_at := Some now\<rparr>"
  have f: "cs_id (?f s) = cs_id s" "cs_enabled (?f s)" "cs_tenant_id (?f s) = t" "cs_config_encrypted (?f s) = cs_config_encrypted s"
    "case cs_last_event_ts (?f s) of None \<Rightarrow> True | Some w \<Rightarrow> w < lm"
    using s(2,3,10,11) by (auto simp: newer_def split: option.splits)
  let ?db' = "update_source (cs_id s) ?f db1"
  have fresh: "\<not> (case cs_last_event_ts s of None \<Rightarrow> False | Some a \<Rightarrow> lm \<le> a)" using s(11) by (auto split: option.splits)
  have run: "cloud_run_once cl now db = (?db', Inr 1)"
    using fresh i(1) by (auto simp: cloud_run_once_def s(1-7) process_source_def list_objects_def Let_def split: option.splits)
  have src: "cd_sources ?db' = [?f s]" using inspect_event_sources [OF i(1)] s(1) by (simp add: update_source_def)
  have "reflects (cs_id (?f s)) (past @ [e]) ?db'" unfolding f(1) using i(3) reflects_baselines [of ?db' db1] by (simp add: update_source_def)
  then have "delivered_late cl t e ?db'"
    unfolding delivered_late_def using src f(2-5) s(4-10) by (intro exI [of _ "?f s"] exI [of _ config] exI [of _ key] exI [of _ lm] exI [of _ raw] exI [of _ ts] exI [of _ "past @ [e]"]) simp
  moreover obtain rs where "expected_reasons past e = rs @ [REASON_ROOT_CONSOLE_LOGIN]" using assms(2,3) by (simp add: expected_reasons_def)
  then have "\<exists>new a. cd_alerts ?db' = cd_alerts db @ new @ [a] \<and> says t a (e, REASON_ROOT_CONSOLE_LOGIN)"
    using i(2) by (auto simp: raises_def update_source_def list_all2_append2 list_all2_Cons2)
  ultimately show ?thesis using run by blast
qed

section \<open>Witness\<close>

definition demo_cloud_event :: "string \<Rightarrow> string \<Rightarrow> string \<Rightarrow> string \<Rightarrow> CloudEvent" where
  "demo_cloud_event arn region name utype = \<lparr>ce_ts = Some 7, ce_principal_arn = PStr arn, ce_region = PStr region, ce_event_source = PStr ''iam'',
     ce_event_name = PStr name, ce_source_ip = PNone, ce_error_code = PNone, ce_user_type = PStr utype\<rparr>"


end
